(* ===== verification/Prelude.thy ===== *)
theory Prelude
  imports Complex_Main "HOL-Library.Multiset"
begin

text \<open>
  What the components share: results that carry the message of a thrown
  \<open>Error\<close>, the JavaScript notions of \<open>undefined\<close>/\<open>null\<close>, numbers and safe
  integers, stable sorting by a comparator, the code-unit order of strings and
  insertion-ordered maps.  The collections \<open>res_simps\<close>, \<open>sort_simps\<close> and
  \<open>map_simps\<close> hold the rewrite rules the component theories rely on.
\<close>

named_theorems res_simps \<open>inversion rules for results\<close>
named_theorems sort_simps \<open>facts about comparator sorting\<close>
named_theorems map_simps \<open>facts about insertion-ordered maps\<close>

section \<open>Results: a value or the message of a thrown error\<close>

type_synonym 'a res = "string + 'a"

definition rbind :: "'a res \<Rightarrow> ('a \<Rightarrow> 'b res) \<Rightarrow> 'b res" where
  "rbind m f = (case m of Inl e \<Rightarrow> Inl e | Inr x \<Rightarrow> f x)"

definition guard :: "bool \<Rightarrow> string \<Rightarrow> unit res" where
  "guard b e = (if b then Inr () else Inl e)"

definition rmap :: "('a \<Rightarrow> 'b) \<Rightarrow> 'a res \<Rightarrow> 'b res" where
  "rmap f m = rbind m (\<lambda>x. Inr (f x))"

definition is_ok :: "'a res \<Rightarrow> bool" where
  "is_ok m = (case m of Inl _ \<Rightarrow> False | Inr _ \<Rightarrow> True)"

fun traverse :: "('a \<Rightarrow> 'b res) \<Rightarrow> 'a list \<Rightarrow> 'b list res" where
  "traverse f [] = Inr []"
| "traverse f (x # xs) = rbind (f x) (\<lambda>y. rbind (traverse f xs) (\<lambda>ys. Inr (y # ys)))"

lemma rbind_simps [simp]:
  "rbind (Inl e) f = Inl e"
  "rbind (Inr x) f = f x"
  by (simp_all add: rbind_def)

lemma rbind_Inr_iff [res_simps]:
  "rbind m f = Inr y \<longleftrightarrow> (\<exists>x. m = Inr x \<and> f x = Inr y)"
  by (cases m) auto

lemma rbind_Inl_iff:
  "rbind m f = Inl e \<longleftrightarrow> m = Inl e \<or> (\<exists>x. m = Inr x \<and> f x = Inl e)"
  by (cases m) auto

lemma guard_Inr_iff [res_simps]: "guard b e = Inr u \<longleftrightarrow> b"
  by (simp add: guard_def)

lemma guard_simps [simp]:
  "guard True e = Inr ()"
  "guard False e = Inl e"
  by (simp_all add: guard_def)

lemma rmap_Inr_iff [res_simps]: "rmap f m = Inr y \<longleftrightarrow> (\<exists>x. m = Inr x \<and> y = f x)"
  by (cases m) (auto simp: rmap_def)

lemma rmap_simps [simp]: "rmap f (Inr x) = Inr (f x)" "rmap f (Inl e) = Inl e"
  by (simp_all add: rmap_def)

lemma is_ok_simps [simp]: "is_ok (Inr x)" "\<not> is_ok (Inl e)"
  by (simp_all add: is_ok_def)

lemma is_ok_iff: "is_ok m \<longleftrightarrow> (\<exists>x. m = Inr x)"
  by (cases m) auto

lemma traverse_cong [fundef_cong]:
  "xs = ys \<Longrightarrow> (\<And>x. x \<in> set ys \<Longrightarrow> f x = g x) \<Longrightarrow> traverse f xs = traverse g ys"
proof (induction ys arbitrary: xs)
  case (Cons y ys)
  then have "traverse f ys = traverse g ys" by simp
  with Cons.prems show ?case by simp
qed simp

lemma traverse_Inr_iff:
  "traverse f xs = Inr ys \<longleftrightarrow> list_all2 (\<lambda>x y. f x = Inr y) xs ys"
  by (induction xs arbitrary: ys) (auto simp: res_simps list_all2_Cons1)

section \<open>undefined, null and numbers\<close>

text \<open>
  Where the code tells \<open>undefined\<close> from \<open>null\<close> the model uses \<open>js_opt\<close>; where it
  reads both alike (\<open>??\<close>, \<open>== null\<close>) an \<open>option\<close> stands for both.
\<close>

datatype 'a js_opt = Undefined | Null | Value 'a

fun nullish :: "'a js_opt \<Rightarrow> 'a option" where
  "nullish (Value x) = Some x"
| "nullish _ = None"

definition orelse :: "'a option \<Rightarrow> 'a option \<Rightarrow> 'a option" where
  "orelse a b = (case a of None \<Rightarrow> b | Some x \<Rightarrow> Some x)"

definition default_to :: "'a \<Rightarrow> 'a option \<Rightarrow> 'a" where
  "default_to d a = (case a of None \<Rightarrow> d | Some x \<Rightarrow> x)"

lemma orelse_simps [simp]: "orelse None b = b" "orelse (Some x) b = Some x"
  by (simp_all add: orelse_def)

lemma default_to_simps [simp]: "default_to d None = d" "default_to d (Some x) = x"
  by (simp_all add: default_to_def)

text \<open>A JavaScript number: a finite double, read as the rational it denotes, or one of
  \<open>NaN\<close> and the infinities.\<close>

datatype js_number = Finite rat | NonFinite

abbreviation max_safe :: int where
  "max_safe \<equiv> 9007199254740991"

definition safe_int :: "int \<Rightarrow> bool" where
  "safe_int n \<longleftrightarrow> \<bar>n\<bar> \<le> max_safe"

fun is_safe_integer :: "js_number \<Rightarrow> bool" where
  "is_safe_integer (Finite q) = (q = of_int \<lfloor>q\<rfloor> \<and> safe_int \<lfloor>q\<rfloor>)"
| "is_safe_integer NonFinite = False"

fun number_int :: "js_number \<Rightarrow> int" where
  "number_int (Finite q) = \<lfloor>q\<rfloor>"
| "number_int NonFinite = 0"

abbreviation num :: "int \<Rightarrow> js_number" where
  "num n \<equiv> Finite (of_int n)"

lemma is_safe_integer_num [simp]: "is_safe_integer (num n) = safe_int n"
  by simp

lemma number_int_num [simp]: "number_int (num n) = n"
  by simp

section \<open>Stable sorting by a comparator\<close>

fun insert_cmp :: "('a \<Rightarrow> 'a \<Rightarrow> int) \<Rightarrow> 'a \<Rightarrow> 'a list \<Rightarrow> 'a list" where
  "insert_cmp cmp x [] = [x]"
| "insert_cmp cmp x (y # ys) = (if cmp x y \<le> 0 then x # y # ys else y # insert_cmp cmp x ys)"

fun sort_cmp :: "('a \<Rightarrow> 'a \<Rightarrow> int) \<Rightarrow> 'a list \<Rightarrow> 'a list" where
  "sort_cmp cmp [] = []"
| "sort_cmp cmp (x # xs) = insert_cmp cmp x (sort_cmp cmp xs)"

lemma mset_insert_cmp [simp, sort_simps]: "mset (insert_cmp cmp x xs) = add_mset x (mset xs)"
  by (induction xs) auto

lemma mset_sort_cmp [simp, sort_simps]: "mset (sort_cmp cmp xs) = mset xs"
  by (induction xs) auto

lemma set_sort_cmp [simp, sort_simps]: "set (sort_cmp cmp xs) = set xs"
  by (metis mset_sort_cmp set_mset_mset)

lemma set_insert_cmp [simp, sort_simps]: "set (insert_cmp cmp x xs) = insert x (set xs)"
  by (metis mset_insert_cmp set_mset_add_mset_insert set_mset_mset)

lemma length_sort_cmp [simp, sort_simps]: "length (sort_cmp cmp xs) = length xs"
  by (metis mset_sort_cmp size_mset)

lemma sort_cmp_Nil_iff [simp, sort_simps]: "sort_cmp cmp xs = [] \<longleftrightarrow> xs = []"
  by (metis length_0_conv length_sort_cmp)

lemma distinct_sort_cmp [simp, sort_simps]: "distinct (sort_cmp cmp xs) = distinct xs"
  by (metis mset_sort_cmp mset_eq_imp_distinct_iff)

lemma sum_list_sort_cmp [simp, sort_simps]:
  fixes f :: "'a \<Rightarrow> 'b::comm_monoid_add"
  shows "sum_list (map f (sort_cmp cmp xs)) = sum_list (map f xs)"
  by (metis mset_map mset_sort_cmp sum_mset_sum_list)

text \<open>The contract a comparator must meet for the sort to order its result.\<close>

locale comparator =
  fixes cmp :: "'a \<Rightarrow> 'a \<Rightarrow> int"
  assumes cmp_flip: "sgn (cmp y x) = - sgn (cmp x y)"
    and cmp_trans: "cmp x y \<le> 0 \<Longrightarrow> cmp y z \<le> 0 \<Longrightarrow> cmp x z \<le> 0"
begin

lemma cmp_refl [simp]: "cmp x x = 0"
  using cmp_flip [of x x] by (simp add: sgn_if split: if_splits)

lemma cmp_total: "cmp x y \<le> 0 \<or> cmp y x \<le> 0"
  using cmp_flip [of x y] by (auto simp: sgn_if split: if_splits)

lemma cmp_not_le: "\<not> cmp x y \<le> 0 \<Longrightarrow> cmp y x < 0"
  using cmp_flip [of y x] by (auto simp: sgn_if split: if_splits)

lemma sorted_insert_cmp:
  "sorted_wrt (\<lambda>x y. cmp x y \<le> 0) xs \<Longrightarrow> sorted_wrt (\<lambda>x y. cmp x y \<le> 0) (insert_cmp cmp x xs)"
proof (induction xs)
  case Nil
  then show ?case by simp
next
  case (Cons y ys)
  show ?case
  proof (cases "cmp x y \<le> 0")
    case True
    with Cons.prems show ?thesis by (auto intro: cmp_trans [OF True])
  next
    case False
    then have "cmp y x \<le> 0" using cmp_not_le by fastforce
    with False Cons show ?thesis by auto
  qed
qed

lemma sorted_sort_cmp: "sorted_wrt (\<lambda>x y. cmp x y \<le> 0) (sort_cmp cmp xs)"
  by (induction xs) (auto simp: sorted_insert_cmp)

lemma hd_sort_cmp_least:
  assumes "y \<in> set xs"
  shows "cmp (hd (sort_cmp cmp xs)) y \<le> 0"
proof -
  obtain z zs where eq: "sort_cmp cmp xs = z # zs"
    using assms by (cases "sort_cmp cmp xs") auto
  have "y = z \<or> y \<in> set zs"
    using assms set_sort_cmp [of cmp xs] eq by auto
  moreover have "\<forall>u\<in>set zs. cmp z u \<le> 0"
    using sorted_sort_cmp [of xs] eq by simp
  ultimately show ?thesis using eq by auto
qed

lemma hd_sort_cmp_mem: "xs \<noteq> [] \<Longrightarrow> hd (sort_cmp cmp xs) \<in> set xs"
  by (metis hd_in_set set_sort_cmp sort_cmp_Nil_iff)

end

subsection \<open>Building comparators\<close>

text \<open>\<open>left.key - right.key\<close>, a comparator on a projection, and \<open>first || second\<close>.\<close>

definition cmp_key :: "('a \<Rightarrow> int) \<Rightarrow> 'a \<Rightarrow> 'a \<Rightarrow> int" where
  "cmp_key f x y = f x - f y"

definition cmp_on :: "('a \<Rightarrow> 'b) \<Rightarrow> ('b \<Rightarrow> 'b \<Rightarrow> int) \<Rightarrow> 'a \<Rightarrow> 'a \<Rightarrow> int" where
  "cmp_on f cmp x y = cmp (f x) (f y)"

definition cmp_then :: "('a \<Rightarrow> 'a \<Rightarrow> int) \<Rightarrow> ('a \<Rightarrow> 'a \<Rightarrow> int) \<Rightarrow> 'a \<Rightarrow> 'a \<Rightarrow> int" where
  "cmp_then c d x y = (if c x y \<noteq> 0 then c x y else d x y)"

lemma comparator_key: "comparator (cmp_key f)"
proof
  fix x y :: 'a
  show "sgn (cmp_key f y x) = - sgn (cmp_key f x y)"
    by (simp add: cmp_key_def sgn_if)
qed (simp add: cmp_key_def)

definition rat_cmp :: "rat \<Rightarrow> rat \<Rightarrow> int" where
  "rat_cmp x y = (if x < y then -1 else if y < x then 1 else 0)"

lemma comparator_rat: "comparator rat_cmp"
  by unfold_locales (auto simp: rat_cmp_def split: if_splits)

lemma comparator_on: "comparator c \<Longrightarrow> comparator (cmp_on f c)"
  unfolding comparator_def cmp_on_def by blast

lemma comparator_then:
  assumes "comparator c" "comparator d"
  shows "comparator (cmp_then c d)"
proof
  have c0: "c y x = 0 \<longleftrightarrow> c x y = 0" for x y
    using comparator.cmp_flip [OF assms(1), where x = x and y = y] by (auto simp: sgn_if split: if_splits)
  fix x y z :: 'a
  show "sgn (cmp_then c d y x) = - sgn (cmp_then c d x y)"
    unfolding cmp_then_def
    using comparator.cmp_flip [OF assms(1), where x = x and y = y] comparator.cmp_flip [OF assms(2), where x = x and y = y] c0 [of x y]
    by (cases "c x y = 0") (simp_all only: if_not_P if_P simp_thms)
  assume le: "cmp_then c d x y \<le> 0" "cmp_then c d y z \<le> 0"
  have neg: "c v u \<le> 0 \<longleftrightarrow> 0 \<le> c u v" for u v
    using comparator.cmp_flip [OF assms(1), where x = u and y = v] by (auto simp: sgn_if split: if_splits)
  note tc = comparator.cmp_trans [OF assms(1)] and td = comparator.cmp_trans [OF assms(2)]
  have xy: "c x y \<le> 0" and yz: "c y z \<le> 0"
    using le by (auto simp: cmp_then_def split: if_splits)
  then have xz: "c x z \<le> 0" by (rule tc)
  show "cmp_then c d x z \<le> 0"
  proof (cases "c x z = 0")
    case True
    then have "c z x = 0" using c0 [of x z] by simp
    then have zx: "c z x \<le> 0" by simp
    have "c y x \<le> 0" using tc [OF yz zx] .
    with xy neg have "c x y = 0" using order_antisym by blast
    moreover have "c z y \<le> 0" using tc [OF zx xy] .
    with yz neg have "c y z = 0" using order_antisym by blast
    ultimately show ?thesis using le td True by (simp add: cmp_then_def)
  qed (use xz in \<open>simp add: cmp_then_def\<close>)
qed

text \<open>A criterion that is used or not.\<close>

definition criterion :: "bool \<Rightarrow> ('a \<Rightarrow> 'a \<Rightarrow> int) \<Rightarrow> 'a \<Rightarrow> 'a \<Rightarrow> int" where
  "criterion used c x y = (if used then c x y else 0)"

lemma comparator_criterion: "comparator c \<Longrightarrow> comparator (criterion used c)"
proof (cases used)
  case True
  then have "criterion used c = c" by (simp add: criterion_def fun_eq_iff)
  then show "comparator c \<Longrightarrow> comparator (criterion used c)" by simp
next
  case False
  then show "comparator (criterion used c)" by unfold_locales (simp_all add: criterion_def)
qed

lemma comparator_rat_desc: "comparator (\<lambda>x y. rat_cmp y x)"
  by unfold_locales (auto simp: rat_cmp_def split: if_splits)

lemma insert_cmp_cong:
  "(\<And>y. y \<in> set xs \<Longrightarrow> c x y \<le> 0 \<longleftrightarrow> d x y \<le> 0) \<Longrightarrow> insert_cmp c x xs = insert_cmp d x xs"
  by (induction xs) auto

lemma sort_cmp_cong:
  "(\<And>x y. x \<in> set xs \<Longrightarrow> y \<in> set xs \<Longrightarrow> c x y \<le> 0 \<longleftrightarrow> d x y \<le> 0) \<Longrightarrow> sort_cmp c xs = sort_cmp d xs"
proof (induction xs)
  case (Cons x xs)
  then have "sort_cmp c xs = sort_cmp d xs" by simp
  moreover have "insert_cmp c x (sort_cmp d xs) = insert_cmp d x (sort_cmp d xs)"
    using Cons.prems by (intro insert_cmp_cong) simp
  ultimately show ?case by simp
qed simp

subsection \<open>Code-unit order\<close>

text \<open>\<open>Array.prototype.sort\<close> without a comparator, and \<open><\<close> on strings, compare by
  code units.\<close>

fun code_cmp :: "nat list \<Rightarrow> nat list \<Rightarrow> int" where
  "code_cmp [] [] = 0"
| "code_cmp [] (_ # _) = -1"
| "code_cmp (_ # _) [] = 1"
| "code_cmp (a # as) (b # bs) =
     (if a < b then -1 else if b < a then 1 else code_cmp as bs)"

definition str_cmp :: "string \<Rightarrow> string \<Rightarrow> int" where
  "str_cmp x y = code_cmp (map of_char x) (map of_char y)"

lemma code_cmp_flip: "code_cmp y x = - code_cmp x y"
  by (induction x y rule: code_cmp.induct) auto

lemma code_cmp_eq_0_iff: "code_cmp x y = 0 \<longleftrightarrow> x = y"
  by (induction x y rule: code_cmp.induct) auto

lemma code_cmp_Cons_le:
  "code_cmp (a # as) (b # bs) \<le> 0 \<longleftrightarrow> a < b \<or> a = b \<and> code_cmp as bs \<le> 0"
  by auto

lemma code_cmp_trans: "code_cmp x y \<le> 0 \<Longrightarrow> code_cmp y z \<le> 0 \<Longrightarrow> code_cmp x z \<le> 0"
proof (induction x arbitrary: y z)
  case Nil
  then show ?case by (cases z) auto
next
  case (Cons a as)
  obtain b bs where y: "y = b # bs" using Cons.prems(1) by (cases y) auto
  obtain c cs where z: "z = c # cs" using Cons.prems(2) y by (cases z) auto
  have 1: "a < b \<or> a = b \<and> code_cmp as bs \<le> 0"
    using Cons.prems(1) unfolding y code_cmp_Cons_le .
  have 2: "b < c \<or> b = c \<and> code_cmp bs cs \<le> 0"
    using Cons.prems(2) unfolding y z code_cmp_Cons_le .
  have "a < c \<or> a = c \<and> code_cmp as cs \<le> 0"
    using 1 2 Cons.IH [of bs cs] less_trans by blast
  then show ?case unfolding z code_cmp_Cons_le .
qed

lemma str_cmp_flip: "str_cmp y x = - str_cmp x y"
  unfolding str_cmp_def by (rule code_cmp_flip)

lemma str_cmp_trans: "str_cmp x y \<le> 0 \<Longrightarrow> str_cmp y z \<le> 0 \<Longrightarrow> str_cmp x z \<le> 0"
  unfolding str_cmp_def by (rule code_cmp_trans)

lemma str_cmp_eq_0_iff: "str_cmp x y = 0 \<longleftrightarrow> x = y"
proof -
  have "inj (of_char :: char \<Rightarrow> nat)"
    by (rule injI) (simp only: of_char_eq_iff)
  then show ?thesis
    by (simp only: str_cmp_def code_cmp_eq_0_iff inj_map_eq_map)
qed

interpretation code_units: comparator str_cmp
proof unfold_locales
  fix x y :: string
  show "sgn (str_cmp y x) = - sgn (str_cmp x y)"
    by (simp add: str_cmp_flip [of y x])
qed (rule str_cmp_trans)

definition js_sort :: "string list \<Rightarrow> string list" where
  "js_sort = sort_cmp str_cmp"

lemma js_sort_simps [simp]:
  "set (js_sort xs) = set xs"
  "mset (js_sort xs) = mset xs"
  "length (js_sort xs) = length xs"
  "distinct (js_sort xs) = distinct xs"
  "js_sort [] = []"
  by (simp_all add: js_sort_def)

section \<open>Insertion-ordered maps and sets\<close>

text \<open>
  A JavaScript \<open>Map\<close> iterates its entries in insertion order and keeps the position of
  a key that is set again: an association list with distinct keys.
\<close>

type_synonym ('k, 'v) omap = "('k \<times> 'v) list"

fun om_set :: "'k \<Rightarrow> 'v \<Rightarrow> ('k, 'v) omap \<Rightarrow> ('k, 'v) omap" where
  "om_set k v [] = [(k, v)]"
| "om_set k v ((k', v') # m) = (if k' = k then (k, v) # m else (k', v') # om_set k v m)"

abbreviation om_get :: "('k, 'v) omap \<Rightarrow> 'k \<Rightarrow> 'v option" where
  "om_get m k \<equiv> map_of m k"

definition om_ok :: "('k, 'v) omap \<Rightarrow> bool" where
  "om_ok m \<longleftrightarrow> distinct (map fst m)"

lemma om_set_keys [map_simps]: "fst ` set (om_set k v m) = insert k (fst ` set m)"
  by (induction k v m rule: om_set.induct) (auto split: if_splits)

lemma om_get_set [map_simps]: "om_get (om_set k v m) = (om_get m)(k \<mapsto> v)"
  by (induction m) (auto simp: fun_eq_iff)

lemma om_ok_set: "om_ok m \<Longrightarrow> om_ok (om_set k v m)"
proof (induction m)
  case (Cons p m)
  obtain k' v' where p: "p = (k', v')" by (cases p)
  have "fst ` set (om_set k v m) = insert k (fst ` set m)" by (rule om_set_keys)
  with Cons p show ?case by (auto simp: om_ok_def image_iff)
qed (simp add: om_ok_def)

lemma om_ok_Nil [simp]: "om_ok []"
  by (simp add: om_ok_def)

text \<open>The interface the components use of a \<open>Map\<close>.\<close>

locale ordered_map =
  fixes empty :: 'm
    and put :: "'k \<Rightarrow> 'v \<Rightarrow> 'm \<Rightarrow> 'm"
    and get :: "'m \<Rightarrow> 'k \<Rightarrow> 'v option"
    and invar :: "'m \<Rightarrow> bool"
  assumes get_empty: "get empty = Map.empty"
    and get_put: "get (put k v m) = (get m)(k \<mapsto> v)"
    and invar_empty: "invar empty"
    and invar_put: "invar m \<Longrightarrow> invar (put k v m)"
begin

lemma get_put_same: "get (put k v m) k = Some v"
  by (simp add: get_put)

lemma get_put_other: "k' \<noteq> k \<Longrightarrow> get (put k v m) k' = get m k'"
  by (simp add: get_put)

lemma dom_put: "dom (get (put k v m)) = insert k (dom (get m))"
  by (simp add: get_put)

lemma put_twice: "get (put k w (put k v m)) = get (put k w m)"
  by (simp add: get_put)

end

interpretation om: ordered_map "[]" om_set om_get om_ok
  by unfold_locales (auto simp: map_simps intro: om_ok_set)

text \<open>The distinct elements in first-insertion order: \<open>[...new Set(xs)]\<close>.\<close>

fun unique_from :: "'a set \<Rightarrow> 'a list \<Rightarrow> 'a list" where
  "unique_from seen [] = []"
| "unique_from seen (x # xs) =
     (if x \<in> seen then unique_from seen xs else x # unique_from (insert x seen) xs)"

definition unique :: "'a list \<Rightarrow> 'a list" where
  "unique = unique_from {}"

lemma set_unique_from: "set (unique_from seen xs) = set xs - seen"
  by (induction seen xs rule: unique_from.induct) auto

lemma distinct_unique_from: "distinct (unique_from seen xs)"
  by (induction seen xs rule: unique_from.induct) (auto simp: set_unique_from)

lemma set_unique [simp]: "set (unique xs) = set xs"
  by (simp add: unique_def set_unique_from)

lemma distinct_unique [simp]: "distinct (unique xs)"
  by (simp add: unique_def distinct_unique_from)

text \<open>\<open>xs.join(sep)\<close>.\<close>

fun join_with :: "string \<Rightarrow> string list \<Rightarrow> string" where
  "join_with sep [] = []"
| "join_with sep [x] = x"
| "join_with sep (x # xs) = x @ sep @ join_with sep xs"

end
