(* ===== verification/Decimal_Text.thy ===== *)
theory Decimal_Text
  imports Prelude
begin

text \<open>
  Decimal numerals as text: the digits of a natural number, numerals with a fixed
  number of fraction digits, the value a numeral denotes, and the shape
  \<open>0|[1-9][0-9]*\<close> with an optional fraction that the engine admits at its
  boundary.
\<close>

section \<open>Digits\<close>

definition digit_char :: "nat \<Rightarrow> char" where
  "digit_char d = char_of (48 + d)"

definition digit_value :: "char \<Rightarrow> nat" where
  "digit_value c = of_char c - 48"

definition is_digit :: "char \<Rightarrow> bool" where
  "is_digit c \<longleftrightarrow> 48 \<le> (of_char c :: nat) \<and> (of_char c :: nat) \<le> 57"

lemma of_digit_char: "d < 10 \<Longrightarrow> (of_char (digit_char d) :: nat) = 48 + d"
  by (simp add: digit_char_def of_char_of)

lemma digit_value_char [simp]: "d < 10 \<Longrightarrow> digit_value (digit_char d) = d"
  by (simp add: digit_value_def of_digit_char)

lemma is_digit_char [simp]: "d < 10 \<Longrightarrow> is_digit (digit_char d)"
  by (simp add: is_digit_def of_digit_char)

lemma digit_char_digit_value: "is_digit c \<Longrightarrow> digit_char (digit_value c) = c"
  by (simp add: is_digit_def digit_char_def digit_value_def)

lemma digit_value_less: "is_digit c \<Longrightarrow> digit_value c < 10"
  by (auto simp: is_digit_def digit_value_def)

lemma is_digit_not_dot [simp]: "\<not> is_digit (CHR ''.'')"
  by (simp add: is_digit_def)

lemma digit_char_not_dot [simp]: "d < 10 \<Longrightarrow> digit_char d \<noteq> CHR ''.''"
  using is_digit_char is_digit_not_dot by metis

lemma digit_char_0: "digit_char 0 = CHR ''0''"
  by code_simp

lemma digit_char_eq_0_iff [simp]: "d < 10 \<Longrightarrow> digit_char d = CHR ''0'' \<longleftrightarrow> d = 0"
proof
  assume d: "d < 10" and eq: "digit_char d = CHR ''0''"
  have "digit_value (CHR ''0'') = 0" by (simp add: digit_value_def)
  with digit_value_char [OF d] eq show "d = 0" by simp
qed (simp add: digit_char_0)

lemma digit_value_0 [simp]: "digit_value (CHR ''0'') = 0"
  by (simp add: digit_value_def)

lemma is_digit_0 [simp]: "is_digit (CHR ''0'')"
  by (simp add: is_digit_def)

section \<open>Natural numbers as text\<close>

fun nat_text :: "nat \<Rightarrow> string" where
  "nat_text n = (if n < 10 then [digit_char n] else nat_text (n div 10) @ [digit_char (n mod 10)])"

declare nat_text.simps [simp del]

definition int_text :: "int \<Rightarrow> string" where
  "int_text n = (if n < 0 then ''-'' @ nat_text (nat (- n)) else nat_text (nat n))"

definition nat_value :: "string \<Rightarrow> nat" where
  "nat_value s = foldl (\<lambda>a c. 10 * a + digit_value c) 0 s"

text \<open>\<open>n\<close> written with exactly \<open>w\<close> digits (the low ones).\<close>

fun pad_text :: "nat \<Rightarrow> nat \<Rightarrow> string" where
  "pad_text 0 n = []"
| "pad_text (Suc w) n = pad_text w (n div 10) @ [digit_char (n mod 10)]"

lemma nat_value_Nil [simp]: "nat_value [] = 0"
  by (simp add: nat_value_def)

lemma nat_value_snoc [simp]: "nat_value (s @ [c]) = 10 * nat_value s + digit_value c"
  by (simp add: nat_value_def)

lemma nat_text_value [simp]: "nat_value (nat_text n) = n"
proof (induction n rule: nat_text.induct)
  case (1 n)
  show ?case
  proof (cases "n < 10")
    case True
    then show ?thesis by (subst nat_text.simps) (simp add: nat_value_def)
  next
    case False
    with 1 show ?thesis by (subst nat_text.simps) simp
  qed
qed

lemma nat_text_digits: "\<forall>c\<in>set (nat_text n). is_digit c"
proof (induction n rule: nat_text.induct)
  case (1 n)
  show ?case
  proof (cases "n < 10")
    case True
    then show ?thesis by (subst nat_text.simps) simp
  next
    case False
    with 1 show ?thesis by (subst nat_text.simps) auto
  qed
qed

lemma nat_text_nonempty [simp]: "nat_text n \<noteq> []"
  by (subst nat_text.simps) simp

lemma hd_nat_text: "0 < n \<Longrightarrow> hd (nat_text n) \<noteq> CHR ''0''"
proof (induction n rule: nat_text.induct)
  case (1 n)
  show ?case
  proof (cases "n < 10")
    case True
    with 1 show ?thesis by (subst nat_text.simps) simp
  next
    case False
    then have "0 < n div 10" by simp
    with 1 False have "hd (nat_text (n div 10)) \<noteq> CHR ''0''" by blast
    with False show ?thesis by (subst nat_text.simps) simp
  qed
qed

lemma nat_text_0: "nat_text 0 = ''0''"
  by (subst nat_text.simps) (simp add: digit_char_0)

lemma length_pad_text [simp]: "length (pad_text w n) = w"
  by (induction w arbitrary: n) auto

lemma pad_text_digits: "\<forall>c\<in>set (pad_text w n). is_digit c"
  by (induction w arbitrary: n) auto

lemma pad_text_value: "nat_value (pad_text w n) = n mod 10 ^ w"
proof (induction w arbitrary: n)
  case (Suc w)
  have "n mod 10 ^ Suc w = 10 * (n div 10 mod 10 ^ w) + n mod 10"
    using mod_mult2_eq [of n 10 "10 ^ w"] by simp
  with Suc show ?case by simp
qed simp

lemma nat_value_less: "\<forall>c\<in>set s. is_digit c \<Longrightarrow> nat_value s < 10 ^ length s"
proof (induction s rule: rev_induct)
  case (snoc c s)
  then have "nat_value s + 1 \<le> 10 ^ length s" "digit_value c < 10"
    by (auto intro: digit_value_less simp: Suc_le_eq)
  then show ?case by simp
qed simp

section \<open>Decimal numerals\<close>

definition int_part :: "string \<Rightarrow> string" where
  "int_part s = takeWhile (\<lambda>c. c \<noteq> CHR ''.'') s"

definition frac_part :: "string \<Rightarrow> string" where
  "frac_part s = drop 1 (dropWhile (\<lambda>c. c \<noteq> CHR ''.'') s)"

definition has_dot :: "string \<Rightarrow> bool" where
  "has_dot s \<longleftrightarrow> CHR ''.'' \<in> set s"

text \<open>\<open>0|[1-9][0-9]*\<close>\<close>

fun is_int_text :: "string \<Rightarrow> bool" where
  "is_int_text [] = False"
| "is_int_text (c # cs) = (is_digit c \<and> list_all is_digit cs \<and> (c = CHR ''0'' \<longrightarrow> cs = []))"

definition is_decimal_text :: "string \<Rightarrow> bool" where
  "is_decimal_text s \<longleftrightarrow>
     is_int_text (int_part s) \<and>
     (has_dot s \<longrightarrow> frac_part s \<noteq> [] \<and> list_all is_digit (frac_part s))"

definition text_value :: "string \<Rightarrow> rat" where
  "text_value s =
     of_nat (nat_value (int_part s)) + of_nat (nat_value (frac_part s)) / 10 ^ length (frac_part s)"

text \<open>\<open>u / 10 ^ s\<close> written with \<open>s\<close> fraction digits.\<close>

definition fixed_text :: "nat \<Rightarrow> nat \<Rightarrow> string" where
  "fixed_text u s =
     (if s = 0 then nat_text u else nat_text (u div 10 ^ s) @ ''.'' @ pad_text s u)"

lemma text_value_nonneg [simp]: "0 \<le> text_value s"
  by (simp add: text_value_def)

lemma digits_no_dot: "\<forall>c\<in>set s. is_digit c \<Longrightarrow> CHR ''.'' \<notin> set s"
  by (metis is_digit_not_dot)

lemma split_at_dot:
  assumes "CHR ''.'' \<notin> set i"
  shows "int_part (i @ CHR ''.'' # f) = i" "frac_part (i @ CHR ''.'' # f) = f"
    "int_part i = i" "frac_part i = []" "\<not> has_dot i" "has_dot (i @ CHR ''.'' # f)"
proof -
  have d: "\<forall>x\<in>set i. x \<noteq> CHR ''.''" using assms by auto
  then have dw: "dropWhile (\<lambda>c. c \<noteq> CHR ''.'') i = []" by simp
  from d show "int_part (i @ CHR ''.'' # f) = i" "frac_part (i @ CHR ''.'' # f) = f"
    "int_part i = i" "frac_part i = []"
    by (simp_all add: int_part_def frac_part_def dw)
qed (use assms in \<open>simp_all add: has_dot_def\<close>)

lemma is_int_nat_text: "is_int_text (nat_text n)"
proof (cases "n = 0")
  case True
  then show ?thesis by (simp add: nat_text_0)
next
  case False
  obtain c cs where eq: "nat_text n = c # cs" by (cases "nat_text n") auto
  with False hd_nat_text [of n] nat_text_digits [of n] show ?thesis
    by (auto simp: list_all_iff)
qed

lemma nat_text_no_dot: "CHR ''.'' \<notin> set (nat_text n)"
  by (rule digits_no_dot [OF nat_text_digits])

lemma decimal_nat_text: "is_decimal_text (nat_text n)" "text_value (nat_text n) = of_nat n"
  by (simp_all add: is_decimal_text_def text_value_def split_at_dot [OF nat_text_no_dot] is_int_nat_text)

lemma of_nat_div_mod: "(of_nat (u div m) :: rat) + of_nat (u mod m) / of_nat m = of_nat u / of_nat m"
  if "0 < m"
proof -
  have "(of_nat u :: rat) = of_nat (u div m * m + u mod m)" by simp
  also have "\<dots> = of_nat (u div m) * of_nat m + of_nat (u mod m)"
    by (simp only: of_nat_add of_nat_mult)
  finally show ?thesis using that by (simp add: field_simps)
qed

section \<open>Removing trailing zeros\<close>

text \<open>\<open>value.replace(/0+$/, "")\<close> and \<open>value.replace(/\.$/, "")\<close>.\<close>

definition strip_zeros :: "string \<Rightarrow> string" where
  "strip_zeros s = rev (dropWhile (\<lambda>c. c = CHR ''0'') (rev s))"

definition strip_dot :: "string \<Rightarrow> string" where
  "strip_dot s = (if s \<noteq> [] \<and> last s = CHR ''.'' then butlast s else s)"

lemma strip_dot_snoc: "strip_dot (i @ [CHR ''.'']) = i"
  unfolding strip_dot_def by (simp only: snoc_eq_iff_butlast simp_thms if_True last_snoc butlast_snoc append_is_Nil_conv list.distinct)

lemma strip_dot_other: "f \<noteq> [] \<Longrightarrow> last f \<noteq> CHR ''.'' \<Longrightarrow> strip_dot (i @ f) = i @ f"
  unfolding strip_dot_def by (simp only: last_appendR if_False simp_thms)

lemma strip_zeros_split: "\<exists>k. s = strip_zeros s @ replicate k (CHR ''0'')"
proof -
  let ?P = "\<lambda>c. c = CHR ''0''"
  have "takeWhile ?P (rev s) = replicate (length (takeWhile ?P (rev s))) (CHR ''0'')"
    by (rule replicate_eqI) (auto dest: set_takeWhileD)
  moreover have "rev s = takeWhile ?P (rev s) @ dropWhile ?P (rev s)" by simp
  ultimately have "s = rev (dropWhile ?P (rev s)) @ rev (replicate (length (takeWhile ?P (rev s))) (CHR ''0''))"
    by (metis rev_append rev_rev_ident)
  then show ?thesis unfolding strip_zeros_def by (auto simp: rev_replicate)
qed

lemma nat_value_zeros: "nat_value (s @ replicate k (CHR ''0'')) = nat_value s * 10 ^ k"
proof (induction k)
  case (Suc k)
  have "nat_value (s @ replicate (Suc k) (CHR ''0'')) = nat_value ((s @ replicate k (CHR ''0'')) @ [CHR ''0''])"
    by (simp only: replicate_Suc replicate_append_same [symmetric] append_assoc)
  also have "\<dots> = 10 * (nat_value s * 10 ^ k)" by (simp only: nat_value_snoc Suc) simp
  finally show ?case by simp
qed simp

lemma strip_zeros_dot:
  assumes "CHR ''.'' \<notin> set f"
  shows "strip_zeros (i @ CHR ''.'' # f) = i @ CHR ''.'' # strip_zeros f"
proof (cases "\<forall>c\<in>set f. c = CHR ''0''")
  case True
  then have 1: "dropWhile (\<lambda>c. c = CHR ''0'') (rev f) = []" by simp
  have "dropWhile (\<lambda>c. c = CHR ''0'') (rev f @ (CHR ''.'' # rev i)) = CHR ''.'' # rev i"
    using True by (subst dropWhile_append2) simp_all
  with 1 show ?thesis by (simp add: strip_zeros_def)
next
  case False
  then obtain c where "c \<in> set (rev f)" "c \<noteq> CHR ''0''" by auto
  then have "dropWhile (\<lambda>c. c = CHR ''0'') (rev f @ (CHR ''.'' # rev i)) =
    dropWhile (\<lambda>c. c = CHR ''0'') (rev f) @ (CHR ''.'' # rev i)"
    by (rule dropWhile_append1)
  then show ?thesis by (simp add: strip_zeros_def)
qed

lemma frac_value_strip:
  "(of_nat (nat_value (strip_zeros f)) :: rat) / 10 ^ length (strip_zeros f) =
   of_nat (nat_value f) / 10 ^ length f"
proof -
  obtain k where k: "f = strip_zeros f @ replicate k (CHR ''0'')" using strip_zeros_split by blast
  have v: "nat_value f = nat_value (strip_zeros f) * 10 ^ k"
    using arg_cong [OF k, of nat_value] nat_value_zeros by simp
  have l: "length f = length (strip_zeros f) + k" using arg_cong [OF k, of length] by simp
  show ?thesis unfolding v l by (simp add: power_add)
qed

lemma fixed_text_trim:
  fixes u s :: nat
  defines "t \<equiv> (if has_dot (fixed_text u s) then strip_dot (strip_zeros (fixed_text u s)) else fixed_text u s)"
  shows "is_decimal_text t" "text_value t = of_nat u / 10 ^ s"
proof -
  have "is_decimal_text t \<and> text_value t = of_nat u / 10 ^ s"
  proof (cases "s = 0")
    case True
    then have "t = nat_text u"
      unfolding t_def fixed_text_def by (simp add: split_at_dot [OF nat_text_no_dot])
    with True decimal_nat_text show ?thesis by simp
  next
    case False
    define i f where "i = nat_text (u div 10 ^ s)" and "f = pad_text s u"
    have i: "CHR ''.'' \<notin> set i" unfolding i_def by (rule nat_text_no_dot)
    have fd: "\<forall>c\<in>set f. is_digit c" unfolding f_def by (rule pad_text_digits)
    have f: "CHR ''.'' \<notin> set f" by (rule digits_no_dot [OF fd])
    have ft: "fixed_text u s = i @ CHR ''.'' # f"
      using False by (simp add: fixed_text_def i_def f_def)
    have val: "of_nat (nat_value i) + of_nat (nat_value f) / 10 ^ length f = (of_nat u / 10 ^ s :: rat)"
      using of_nat_div_mod [of "10 ^ s" u] by (simp add: i_def f_def pad_text_value)
    have sub: "set (strip_zeros f) \<subseteq> set f"
      unfolding strip_zeros_def by (auto dest: set_dropWhileD)
    have hd: "has_dot (i @ CHR ''.'' # f)" by (rule split_at_dot(6) [OF i])
    have t1: "t = strip_dot (i @ CHR ''.'' # strip_zeros f)"
      unfolding t_def ft using hd by (simp only: if_True strip_zeros_dot [OF f])
    have t: "t = (if strip_zeros f = [] then i else i @ CHR ''.'' # strip_zeros f)"
    proof (cases "strip_zeros f = []")
      case True
      then show ?thesis unfolding t1 by (simp only: strip_dot_snoc if_True simp_thms)
    next
      case nz: False
      have "last (strip_zeros f) \<in> set f" using last_in_set [OF nz] sub by blast
      with f have ld: "last (strip_zeros f) \<noteq> CHR ''.''" by metis
      from nz ld have "strip_dot (i @ CHR ''.'' # strip_zeros f) = i @ CHR ''.'' # strip_zeros f"
        by (intro strip_dot_other) (simp_all only: last.simps if_False list.distinct not_False_eq_True)
      with nz show ?thesis unfolding t1 by (simp only: if_False)
    qed
    show ?thesis
    proof (cases "strip_zeros f = []")
      case True
      then have "of_nat (nat_value f) / (10 :: rat) ^ length f = 0"
        using frac_value_strip [of f] by simp
      with True val have "text_value t = of_nat u / 10 ^ s"
        using decimal_nat_text(2) by (simp add: t i_def)
      moreover have "is_decimal_text t" using True by (simp add: t i_def decimal_nat_text)
      ultimately show ?thesis by simp
    next
      case nz: False
      have "text_value t = of_nat u / 10 ^ s"
        using nz val frac_value_strip [of f] by (simp add: t text_value_def split_at_dot [OF i])
      moreover have "is_int_text i" unfolding i_def by (rule is_int_nat_text)
      then have "is_decimal_text t"
        using nz sub fd by (auto simp: t is_decimal_text_def split_at_dot [OF i] list_all_iff)
      ultimately show ?thesis by simp
    qed
  qed
  then show "is_decimal_text t" "text_value t = of_nat u / 10 ^ s" by simp_all
qed

end
