(* ===== verification/Dates.thy ===== *)
theory Dates
  imports Decimal_Text
begin

text \<open>
  The parts of the JavaScript \<open>Date\<close> object the engine uses: the day number of a
  civil date (\<open>Date.UTC\<close>), the civil date of a day number, the ISO text of an instant
  (\<open>toISOString\<close>) and a reader of that text.  Instants are milliseconds since
  1970-01-01T00:00:00Z.
\<close>

section \<open>Civil dates\<close>

text \<open>The day number of year \<open>y\<close>, month \<open>m\<close> (1..12) and day \<open>d\<close>, in the proleptic Gregorian
  calendar; the year starts in March so that the leap day comes last.\<close>

definition day_number :: "int \<Rightarrow> int \<Rightarrow> int \<Rightarrow> int" where
  "day_number y m d =
     (let y' = (if m \<le> 2 then y - 1 else y);
          mp = (if m > 2 then m - 3 else m + 9);
          doy = (153 * mp + 2) div 5 + d - 1
      in 365 * y' + y' div 4 - y' div 100 + y' div 400 + doy - 719468)"

text \<open>Year, month and day of a day number.\<close>

definition civil :: "int \<Rightarrow> int \<times> int \<times> int" where
  "civil z =
     (let z' = z + 719468;
          era = z' div 146097; doe = z' mod 146097;
          c = min 3 (doe div 36524); dc = doe - 36524 * c;
          q = dc div 1461; dq = dc mod 1461;
          a = min 3 (dq div 365); doy = dq - 365 * a;
          mp = (5 * doy + 2) div 153;
          d = doy - (153 * mp + 2) div 5 + 1;
          m = (if mp < 10 then mp + 3 else mp - 9);
          y = 400 * era + 100 * c + 4 * q + a + (if m \<le> 2 then 1 else 0)
      in (y, m, d))"

lemma civil_parts:
  fixes z :: int
  defines "z' \<equiv> z + 719468"
  defines "era \<equiv> z' div 146097" and "doe \<equiv> z' mod 146097"
  defines "c \<equiv> min 3 (doe div 36524)" and "dc \<equiv> doe - 36524 * min 3 (doe div 36524)"
  defines "q \<equiv> dc div 1461" and "dq \<equiv> dc mod 1461"
  defines "a \<equiv> min 3 (dq div 365)" and "doy \<equiv> dq - 365 * min 3 (dq div 365)"
  shows "0 \<le> c" "c \<le> 3" "0 \<le> q" "q \<le> 24" "0 \<le> a" "a \<le> 3" "0 \<le> doy" "doy \<le> 365"
    "z' = 146097 * era + 36524 * c + 1461 * q + 365 * a + doy"
proof -
  have doe: "0 \<le> doe" "doe < 146097" "z' = 146097 * era + doe"
    unfolding doe_def era_def by simp_all
  show c: "0 \<le> c" "c \<le> 3" using doe unfolding c_def by simp_all
  have dc: "0 \<le> dc" "dc \<le> 36524" "doe = 36524 * c + dc"
    using doe unfolding dc_def c_def by (auto simp: min_def)
  show q: "0 \<le> q" "q \<le> 24" using dc unfolding q_def by simp_all
  have dq: "0 \<le> dq" "dq < 1461" "dc = 1461 * q + dq"
    unfolding dq_def q_def by simp_all
  show a: "0 \<le> a" "a \<le> 3" using dq unfolding a_def by simp_all
  show doy: "0 \<le> doy" "doy \<le> 365"
    using dq unfolding doy_def by (auto simp: min_def)
  have "dq = 365 * a + doy" unfolding doy_def a_def by simp
  with doe dc dq show "z' = 146097 * era + 36524 * c + 1461 * q + 365 * a + doy" by simp
qed

lemma year_div:
  fixes era c q a :: int
  assumes "0 \<le> c" "c \<le> 3" "0 \<le> q" "q \<le> 24" "0 \<le> a" "a \<le> 3"
  defines "y \<equiv> 400 * era + 100 * c + 4 * q + a"
  shows "y div 400 = era" "y div 100 = 4 * era + c" "y div 4 = 100 * era + 25 * c + q"
proof -
  show "y div 400 = era"
    by (rule int_div_pos_eq [where r = "100 * c + 4 * q + a"]) (use assms in simp_all)
  show "y div 100 = 4 * era + c"
    by (rule int_div_pos_eq [where r = "4 * q + a"]) (use assms in simp_all)
  show "y div 4 = 100 * era + 25 * c + q"
    by (rule int_div_pos_eq [where r = a]) (use assms in simp_all)
qed

text \<open>The parts \<^const>\<open>civil\<close> computes, with the facts every proof about it needs.\<close>

lemma civil_elim:
  assumes civ: "civil z = (y, m, d)"
  obtains era c q a doy mp where
    "0 \<le> c" "c \<le> 3" "0 \<le> q" "q \<le> 24" "0 \<le> a" "a \<le> 3" "0 \<le> doy" "doy \<le> 365"
    "z + 719468 = 146097 * era + 36524 * c + 1461 * q + 365 * a + doy"
    "mp = (5 * doy + 2) div 153" "0 \<le> mp" "mp \<le> 11"
    "m = (if mp < 10 then mp + 3 else mp - 9)" "d = doy - (153 * mp + 2) div 5 + 1"
    "y = 400 * era + 100 * c + 4 * q + a + (if m \<le> 2 then 1 else 0)"
proof -
  define z' where "z' = z + 719468"
  define era where "era = z' div 146097"
  define doe where "doe = z' mod 146097"
  define c where "c = min 3 (doe div 36524)"
  define dc where "dc = doe - 36524 * c"
  define q where "q = dc div 1461"
  define dq where "dq = dc mod 1461"
  define a where "a = min 3 (dq div 365)"
  define doy where "doy = dq - 365 * a"
  define mp where "mp = (5 * doy + 2) div 153"
  note defs = z'_def era_def doe_def c_def dc_def q_def dq_def a_def doy_def
  have p: "0 \<le> c" "c \<le> 3" "0 \<le> q" "q \<le> 24" "0 \<le> a" "a \<le> 3" "0 \<le> doy" "doy \<le> 365"
    "z' = 146097 * era + 36524 * c + 1461 * q + 365 * a + doy"
    unfolding defs by (rule civil_parts)+
  have mp: "0 \<le> mp" "mp \<le> 11" using p(7,8) unfolding mp_def by simp_all
  have "m = (if mp < 10 then mp + 3 else mp - 9)" "d = doy - (153 * mp + 2) div 5 + 1"
    "y = 400 * era + 100 * c + 4 * q + a + (if m \<le> 2 then 1 else 0)"
    using civ unfolding civil_def Let_def
    unfolding defs [symmetric] mp_def [symmetric] by auto
  with that p mp show thesis unfolding mp_def z'_def by blast
qed

text \<open>Reading the parts of a day number back gives the day number.\<close>

lemma day_number_civil: "civil z = (y, m, d) \<Longrightarrow> day_number y m d = z"
proof -
  assume "civil z = (y, m, d)"
  then obtain era c q a doy mp where
    p: "0 \<le> c" "c \<le> 3" "0 \<le> q" "q \<le> 24" "0 \<le> a" "a \<le> 3"
    and z: "z + 719468 = 146097 * era + 36524 * c + 1461 * q + 365 * a + doy"
    and mp: "0 \<le> mp" "mp \<le> 11" "m = (if mp < 10 then mp + 3 else mp - 9)"
    and d: "d = doy - (153 * mp + 2) div 5 + 1"
    and y: "y = 400 * era + 100 * c + 4 * q + a + (if m \<le> 2 then 1 else 0)"
    by (rule civil_elim)
  let ?y = "400 * era + 100 * c + 4 * q + a"
  have 1: "(if m \<le> 2 then y - 1 else y) = ?y" using y by simp
  have 2: "(if m > 2 then m - 3 else m + 9) = mp" using mp by (auto split: if_splits)
  have "day_number y m d = 365 * ?y + ?y div 4 - ?y div 100 + ?y div 400 + doy - 719468"
    unfolding day_number_def Let_def 1 2 by (simp add: d)
  also have "\<dots> = z" unfolding year_div [OF p] using z by simp
  finally show ?thesis .
qed

lemma civil_bounds:
  assumes "civil z = (y, m, d)"
  shows "1 \<le> m" "m \<le> 12" "1 \<le> d" "d \<le> 31"
proof -
  obtain era c q a doy mp where
    doy: "0 \<le> doy" "doy \<le> 365" and mp: "mp = (5 * doy + 2) div 153" "0 \<le> mp" "mp \<le> 11"
    and md: "m = (if mp < 10 then mp + 3 else mp - 9)" "d = doy - (153 * mp + 2) div 5 + 1"
    using assms by (rule civil_elim)
  have "5 * doy + 2 = 153 * mp + (5 * doy + 2) mod 153" unfolding mp(1) by simp
  moreover have "0 \<le> (5 * doy + 2) mod 153" "(5 * doy + 2) mod 153 < 153" by simp_all
  ultimately have mp5: "153 * mp \<le> 5 * doy + 2" "5 * doy + 2 < 153 * mp + 153" by linarith+
  show "1 \<le> m" "m \<le> 12" using mp(2,3) unfolding md by simp_all
  have "153 * mp + 2 = 5 * ((153 * mp + 2) div 5) + (153 * mp + 2) mod 5" by simp
  moreover have "0 \<le> (153 * mp + 2) mod 5" "(153 * mp + 2) mod 5 < 5" by simp_all
  ultimately have "(153 * mp + 2) div 5 \<le> doy" "doy \<le> (153 * mp + 2) div 5 + 30"
    using mp5 by linarith+
  then show "1 \<le> d" "d \<le> 31" unfolding md by simp_all
qed

section \<open>Instants\<close>

abbreviation ms_per_day :: int where
  "ms_per_day \<equiv> 86400000"

text \<open>\<open>Date.UTC(year, month, day, hours, minutes, seconds)\<close> with a month counted from 0 and
  any overflow of month and day carried; years 0 to 99 mean 1900 to 1999.\<close>

definition date_utc :: "int \<Rightarrow> int \<Rightarrow> int \<Rightarrow> int \<Rightarrow> int \<Rightarrow> int \<Rightarrow> int" where
  "date_utc y mon d h mi sec =
     (let yr = (if 0 \<le> y \<and> y \<le> 99 then 1900 + y else y)
      in (day_number (yr + mon div 12) (mon mod 12 + 1) 1 + d - 1) * ms_per_day
         + h * 3600000 + mi * 60000 + sec * 1000)"

text \<open>The time values a \<open>Date\<close> can hold.\<close>

definition valid_instant :: "int \<Rightarrow> bool" where
  "valid_instant t \<longleftrightarrow> \<bar>t\<bar> \<le> 8640000000000000"

definition year_text :: "int \<Rightarrow> string" where
  "year_text y =
     (if 0 \<le> y \<and> y \<le> 9999 then pad_text 4 (nat y)
      else (if y < 0 then CHR ''-'' else CHR ''+'') # pad_text 6 (nat \<bar>y\<bar>))"

definition iso_text :: "int \<Rightarrow> string" where
  "iso_text t =
     (let ms = nat (t mod ms_per_day); (y, m, d) = civil (t div ms_per_day)
      in year_text y @ ''-'' @ pad_text 2 (nat m) @ ''-'' @ pad_text 2 (nat d) @ ''T'' @
         pad_text 2 (ms div 3600000) @ '':'' @ pad_text 2 (ms div 60000 mod 60) @ '':'' @
         pad_text 2 (ms div 1000 mod 60) @ ''.'' @ pad_text 3 (ms mod 1000) @ ''Z'')"

section \<open>Reading an instant\<close>

definition read_num :: "nat \<Rightarrow> string \<Rightarrow> (int \<times> string) option" where
  "read_num w s =
     (if w \<le> length s \<and> list_all is_digit (take w s)
      then Some (int (nat_value (take w s)), drop w s) else None)"

fun read_chr :: "char \<Rightarrow> string \<Rightarrow> string option" where
  "read_chr c [] = None"
| "read_chr c (x # xs) = (if x = c then Some xs else None)"

definition read_year :: "string \<Rightarrow> (int \<times> string) option" where
  "read_year s =
     (case read_chr (CHR ''+'') s of
        Some s' \<Rightarrow> read_num 6 s'
      | None \<Rightarrow>
        (case read_chr (CHR ''-'') s of
           Some s' \<Rightarrow> map_option (\<lambda>(y, r). (- y, r)) (read_num 6 s')
         | None \<Rightarrow> read_num 4 s))"

text \<open>Optional seconds, with an optional fraction of which the milliseconds count.\<close>

definition read_fraction :: "string \<Rightarrow> int \<times> string" where
  "read_fraction s =
     (case read_chr (CHR ''.'') s of
        None \<Rightarrow> (0, s)
      | Some s' \<Rightarrow> (int (nat_value (take 3 (takeWhile is_digit s' @ ''000''))), dropWhile is_digit s'))"

definition read_seconds :: "string \<Rightarrow> (int \<times> string) option" where
  "read_seconds s =
     (case read_chr (CHR '':'') s of
        None \<Rightarrow> Some (0, s)
      | Some s' \<Rightarrow>
          Option.bind (read_num 2 s') (\<lambda>(sec, r).
            if sec \<le> 59 then (case read_fraction r of (ms, r') \<Rightarrow> Some (1000 * sec + ms, r')) else None))"

text \<open>The zone designator, in milliseconds east of UTC.\<close>

definition read_zone :: "string \<Rightarrow> int option" where
  "read_zone s =
     (if s = ''Z'' then Some 0
      else case s of [] \<Rightarrow> None
       | c # s' \<Rightarrow>
          if c \<noteq> CHR ''+'' \<and> c \<noteq> CHR ''-'' then None
          else Option.bind (read_num 2 s') (\<lambda>(h, s1). Option.bind (read_chr (CHR '':'') s1) (\<lambda>s2.
               Option.bind (read_num 2 s2) (\<lambda>(mi, s3).
                 if s3 = [] \<and> h \<le> 23 \<and> mi \<le> 59
                 then Some ((if c = CHR ''-'' then -1 else 1) * (h * 3600000 + mi * 60000))
                 else None))))"

definition read_instant :: "string \<Rightarrow> int option" where
  "read_instant s =
     Option.bind (read_year s) (\<lambda>(y, s). Option.bind (read_chr (CHR ''-'') s) (\<lambda>s.
     Option.bind (read_num 2 s) (\<lambda>(m, s). Option.bind (read_chr (CHR ''-'') s) (\<lambda>s.
     Option.bind (read_num 2 s) (\<lambda>(d, s). Option.bind (read_chr (CHR ''T'') s) (\<lambda>s.
     Option.bind (read_num 2 s) (\<lambda>(h, s). Option.bind (read_chr (CHR '':'') s) (\<lambda>s.
     Option.bind (read_num 2 s) (\<lambda>(mi, s). Option.bind (read_seconds s) (\<lambda>(ms, s).
     Option.bind (read_zone s) (\<lambda>zone.
       if 1 \<le> m \<and> m \<le> 12 \<and> 1 \<le> d \<and> d \<le> 31 \<and> h \<le> 23 \<and> mi \<le> 59
       then Some (day_number y m d * ms_per_day + h * 3600000 + mi * 60000 + ms - zone)
       else None)))))))))))"

lemma read_num_pad [simp]:
  "n < 10 ^ w \<Longrightarrow> read_num w (pad_text w n @ r) = Some (int n, r)"
  using pad_text_digits [of w n] by (simp add: read_num_def list_all_iff pad_text_value)

lemma read_chr_digit:
  assumes "w \<noteq> 0" "\<not> is_digit c"
  shows "read_chr c (pad_text w n @ r) = None"
proof -
  obtain x xs where eq: "pad_text w n = x # xs"
    using assms(1) length_pad_text [of w n] by (cases "pad_text w n") auto
  have "is_digit x" using pad_text_digits [of w n] unfolding eq by simp
  with assms(2) have "x \<noteq> c" by metis
  then show ?thesis by (simp add: eq)
qed

lemma not_digit_signs [simp]: "\<not> is_digit (CHR ''+'')" "\<not> is_digit (CHR ''-'')" "\<not> is_digit (CHR ''Z'')"
  by (simp_all add: is_digit_def)

lemma read_year_text: "\<bar>y\<bar> \<le> 999999 \<Longrightarrow> read_year (year_text y @ r) = Some (y, r)"
  by (auto simp: read_year_def year_text_def read_chr_digit)

lemma read_fraction_pad: "n < 1000 \<Longrightarrow> read_fraction (CHR ''.'' # pad_text 3 n @ ''Z'') = (int n, ''Z'')"
proof -
  assume n: "n < 1000"
  have "takeWhile is_digit (pad_text 3 n @ ''Z'') = pad_text 3 n"
    "dropWhile is_digit (pad_text 3 n @ ''Z'') = ''Z''"
    using pad_text_digits [of 3 n] by (subst takeWhile_append2 dropWhile_append2; simp)+
  then show ?thesis using n by (simp add: read_fraction_def pad_text_value)
qed

lemma civil_year_bound:
  assumes "civil z = (y, m, d)" and z: "\<bar>z\<bar> \<le> 100000001"
  shows "\<bar>y\<bar> \<le> 999999"
proof -
  obtain era c q a doy mp where
    p: "0 \<le> c" "c \<le> 3" "0 \<le> q" "q \<le> 24" "0 \<le> a" "a \<le> 3" "0 \<le> doy" "doy \<le> 365"
    "z + 719468 = 146097 * era + 36524 * c + 1461 * q + 365 * a + doy"
    and y: "y = 400 * era + 100 * c + 4 * q + a + (if m \<le> 2 then 1 else 0)"
    using assms(1) by (rule civil_elim)
  have era: "- 700 \<le> era" "era \<le> 700" using p z by linarith+
  define k :: int where "k = (if m \<le> 2 then 1 else 0)"
  have k: "0 \<le> k" "k \<le> 1" "y = 400 * era + 100 * c + 4 * q + a + k"
    unfolding k_def y by simp_all
  have "- 999999 \<le> y" "y \<le> 999999" using p era k by linarith+
  then show ?thesis by linarith
qed

lemma clock_parts:
  fixes ms :: nat
  shows "ms div 3600000 * 3600000 + ms div 60000 mod 60 * 60000 + (1000 * (ms div 1000 mod 60) + ms mod 1000) = ms"
proof -
  have "ms = 1000 * (ms div 1000) + ms mod 1000" by simp
  moreover have "ms div 1000 = 60 * (ms div 60000) + ms div 1000 mod 60"
    using div_mult2_eq [of ms 1000 60] by simp
  moreover have "ms div 60000 = 60 * (ms div 3600000) + ms div 60000 mod 60"
    using div_mult2_eq [of ms 60000 60] by simp
  ultimately show ?thesis by linarith
qed

theorem read_iso_text:
  assumes "valid_instant t"
  shows "read_instant (iso_text t) = Some t"
proof -
  obtain y m d where civ: "civil (t div ms_per_day) = (y, m, d)" by (metis prod_cases3)
  have "\<bar>t div ms_per_day\<bar> \<le> 100000001" using assms unfolding valid_instant_def by arith
  then have yb: "\<bar>y\<bar> \<le> 999999" by (rule civil_year_bound [OF civ])
  note b = civil_bounds [OF civ]
  define ms where "ms = nat (t mod ms_per_day)"
  have ms: "int ms = t mod ms_per_day" "ms < 86400000" unfolding ms_def by simp_all
  have cl: "ms div 3600000 < 24" "ms div 60000 mod 60 < 60" "ms div 1000 mod 60 < 60" "ms mod 1000 < 1000"
    using ms(2) by simp_all
  have cl': "ms div 60000 mod 60 \<le> 59" "ms div 1000 mod 60 \<le> 59" using cl by linarith+
  have it: "iso_text t = year_text y @ CHR ''-'' # pad_text 2 (nat m) @ CHR ''-'' # pad_text 2 (nat d) @
      CHR ''T'' # pad_text 2 (ms div 3600000) @ CHR '':'' # pad_text 2 (ms div 60000 mod 60) @
      CHR '':'' # pad_text 2 (ms div 1000 mod 60) @ CHR ''.'' # pad_text 3 (ms mod 1000) @ ''Z''"
    unfolding iso_text_def Let_def civ by (simp add: ms_def)
  have rd: "read_instant (iso_text t) =
      Some (day_number y m d * ms_per_day + int (ms div 3600000) * 3600000
        + int (ms div 60000 mod 60) * 60000 + (1000 * int (ms div 1000 mod 60) + int (ms mod 1000)))"
    unfolding it read_instant_def
    using b cl by (simp add: read_year_text [OF yb] read_seconds_def read_fraction_pad read_zone_def cl')
  have "int (ms div 3600000) * 3600000 + int (ms div 60000 mod 60) * 60000
      + (1000 * int (ms div 1000 mod 60) + int (ms mod 1000)) = int ms"
    using arg_cong [OF clock_parts [of ms], of int] by (simp only: of_nat_add of_nat_mult of_nat_numeral)
  moreover have "t div ms_per_day * ms_per_day + t mod ms_per_day = t" by simp
  ultimately have "day_number y m d * ms_per_day + int (ms div 3600000) * 3600000
        + int (ms div 60000 mod 60) * 60000 + (1000 * int (ms div 1000 mod 60) + int (ms mod 1000)) = t"
    unfolding day_number_civil [OF civ] using ms(1) by linarith
  then show ?thesis unfolding rd by simp
qed

end
