(* ===== verification/Runtime.thy ===== *)
theory Runtime
  imports Dates
begin

text \<open>
  What the engine calls but does not contain: the \<open>decimal.js\<close> package and the
  host functions whose result the language leaves to the implementation
  (\<open>localeCompare\<close>, \<open>Date.parse\<close> of arbitrary text, the time zone database behind
  \<open>Intl.DateTimeFormat\<close>, the decimal reading of a binary quotient).  They are one
  parameter of the model, a record of functions; the locales state the documented
  laws the proofs use, and a reference runtime shows that they can hold.

  A \<open>Decimal\<close> is represented by the rational number it denotes.  The documentation of
  \<open>decimal.js\<close> makes comparison, negation, \<open>floor\<close>, \<open>ceil\<close>, \<open>min\<close> and \<open>max\<close> exact and says
  that the result of \<open>plus\<close>, \<open>minus\<close>, \<open>times\<close> and \<open>div\<close> is the exact result rounded to
  \<open>precision\<close> (here 120) significant digits: \<open>rt_round\<close>.
\<close>

text \<open>Reading text with \<open>new Decimal(text)\<close>: an exception, \<open>NaN\<close> (\<open>None\<close>) or an infinity
  (\<open>Some True\<close> the negative one), or a finite value together with \<open>isNegative()\<close> (which
  holds of a negative zero).\<close>

datatype dec_read = DecThrow | DecNonFinite "bool option" | DecFinite bool rat

record local_fields =
  lf_year :: int
  lf_month :: int
  lf_day :: int
  lf_hour :: int
  lf_minute :: int
  lf_second :: int

record runtime =
  rt_round :: "rat \<Rightarrow> rat"
  rt_to_fixed :: "rat \<Rightarrow> nat \<Rightarrow> string"
  rt_places :: "rat \<Rightarrow> nat"
  rt_parse :: "string \<Rightarrow> dec_read"
  rt_quot :: "int \<Rightarrow> int \<Rightarrow> rat"
  rt_locale_compare :: "string \<Rightarrow> string \<Rightarrow> int"
  rt_date_parse :: "string \<Rightarrow> int option"
  rt_zone_fields :: "string \<Rightarrow> int \<Rightarrow> local_fields option"

section \<open>Decimal arithmetic\<close>

definition dadd :: "runtime \<Rightarrow> rat \<Rightarrow> rat \<Rightarrow> rat" where
  "dadd rt x y = rt_round rt (x + y)"

definition dsub :: "runtime \<Rightarrow> rat \<Rightarrow> rat \<Rightarrow> rat" where
  "dsub rt x y = rt_round rt (x - y)"

definition dmul :: "runtime \<Rightarrow> rat \<Rightarrow> rat \<Rightarrow> rat" where
  "dmul rt x y = rt_round rt (x * y)"

definition ddiv :: "runtime \<Rightarrow> rat \<Rightarrow> rat \<Rightarrow> rat" where
  "ddiv rt x y = rt_round rt (x / y)"

lemmas dec_ops = dadd_def dsub_def dmul_def ddiv_def

text \<open>The numbers a 120-digit decimal represents: an integer of at most 120 digits times a
  power of ten.\<close>

definition dec_limit :: nat where
  "dec_limit = 10 ^ 120"

definition representable :: "rat \<Rightarrow> bool" where
  "representable x \<longleftrightarrow> (\<exists>n e. x = of_int n * 10 powi e \<and> \<bar>n\<bar> < int dec_limit)"

lemma representable_powi: "\<bar>n\<bar> < int dec_limit \<Longrightarrow> representable (of_int n * 10 powi e)"
  unfolding representable_def by blast

lemma representable_int: "\<bar>n\<bar> < int dec_limit \<Longrightarrow> representable (of_int n)"
  using representable_powi [of n 0] by simp

lemma representable_div: "u < dec_limit \<Longrightarrow> representable (of_nat u / 10 ^ s)"
  using representable_powi [of "int u" "- int s"] by (simp add: power_int_minus divide_inverse)

lemma representable_nat: "n < dec_limit \<Longrightarrow> representable (of_nat n)"
  using representable_div [of n 0] by simp

lemma representable_shift: "representable x \<Longrightarrow> representable (x * 10 ^ s)"
proof -
  assume "representable x"
  then obtain n e where x: "x = of_int n * 10 powi e" "\<bar>n\<bar> < int dec_limit"
    unfolding representable_def by blast
  have "(10::rat) powi (e + int s) = 10 powi e * 10 powi int s" by (rule power_int_add) simp
  then have "x * 10 ^ s = of_int n * 10 powi (e + int s)" unfolding x(1) by simp
  with x(2) show ?thesis by (simp only: representable_powi)
qed

lemma representable_small: "\<bar>n\<bar> \<le> 10 ^ 18 \<Longrightarrow> representable (of_int n)"
proof (rule representable_int)
  assume "\<bar>n\<bar> \<le> 10 ^ 18"
  then have "nat \<bar>n\<bar> \<le> 10 ^ 18" by (simp add: nat_le_iff)
  then have "nat \<bar>n\<bar> < dec_limit" unfolding dec_limit_def by (rule le_less_trans) simp
  then show "\<bar>n\<bar> < int dec_limit" by linarith
qed

lemma representable_0 [simp]: "representable 0" and representable_1 [simp]: "representable 1"
  using representable_small [of 0] representable_small [of 1] by simp_all

section \<open>The laws\<close>

locale decimal_rounding =
  fixes rt :: runtime
  assumes round_mono: "x \<le> y \<Longrightarrow> rt_round rt x \<le> rt_round rt y"
    and round_exact: "representable x \<Longrightarrow> rt_round rt x = x"
    and round_representable: "representable (rt_round rt x)"
    and round_error: "\<bar>rt_round rt x - x\<bar> * 10 ^ 119 \<le> \<bar>x\<bar>"
begin

lemma round_0 [simp]: "rt_round rt 0 = 0" and round_1 [simp]: "rt_round rt 1 = 1"
  by (simp_all add: round_exact)

lemma round_nonneg: "0 \<le> x \<Longrightarrow> 0 \<le> rt_round rt x"
  using round_mono [of 0 x] by simp

lemma round_le: "x \<le> y \<Longrightarrow> representable y \<Longrightarrow> rt_round rt x \<le> y"
  using round_mono [of x y] by (simp add: round_exact)

lemma round_ge: "y \<le> x \<Longrightarrow> representable y \<Longrightarrow> y \<le> rt_round rt x"
  using round_mono [of y x] by (simp add: round_exact)

lemma dsub_nonneg: "y \<le> x \<Longrightarrow> 0 \<le> dsub rt x y"
  by (simp add: dsub_def round_nonneg)

lemma dsub_le: "0 \<le> y \<Longrightarrow> representable x \<Longrightarrow> dsub rt x y \<le> x"
  unfolding dsub_def by (rule round_le) simp_all

lemma dsub_mono: "x \<le> x' \<Longrightarrow> y' \<le> y \<Longrightarrow> dsub rt x y \<le> dsub rt x' y'"
  unfolding dsub_def by (rule round_mono) simp

lemma dmul_nonneg: "0 \<le> x \<Longrightarrow> 0 \<le> y \<Longrightarrow> 0 \<le> dmul rt x y"
  by (simp add: dmul_def round_nonneg)

lemma dmul_fraction_le: "0 \<le> x \<Longrightarrow> y \<le> 1 \<Longrightarrow> representable x \<Longrightarrow> dmul rt x y \<le> x"
  unfolding dmul_def by (rule round_le) (simp_all add: mult_left_le)

lemma dmul_mono: "0 \<le> x \<Longrightarrow> y \<le> y' \<Longrightarrow> dmul rt x y \<le> dmul rt x y'"
  unfolding dmul_def by (rule round_mono) (rule mult_left_mono)

lemma ddiv_nonneg: "0 \<le> x \<Longrightarrow> 0 \<le> y \<Longrightarrow> 0 \<le> ddiv rt x y"
  by (simp add: ddiv_def round_nonneg)

lemma dmul_shift: "dmul rt (rt_round rt x) (10 ^ s) = rt_round rt x * 10 ^ s"
  unfolding dmul_def by (rule round_exact [OF representable_shift [OF round_representable]])

text \<open>Rounding never moves a quotient of moderate size across an integer.\<close>

lemma floor_round_shift:
  fixes a :: int
  assumes x: "x * 10 ^ s = of_int a / of_int b" and a: "0 \<le> a" "a < 10 ^ 119" and b: "0 < b"
  shows "\<lfloor>rt_round rt x * 10 ^ s\<rfloor> = a div b"
proof -
  define k where "k = a div b"
  have ab: "a = k * b + a mod b" unfolding k_def by simp
  have m: "0 \<le> a mod b" "a mod b < b" using b by simp_all
  have k0: "0 \<le> k" unfolding k_def using a(1) b by (simp add: pos_imp_zdiv_nonneg_iff)
  have k1: "k * b \<le> a" using ab m by linarith
  have "(k + 1) * b = k * b + b" by (simp add: algebra_simps)
  then have k2: "a < (k + 1) * b" using ab m by linarith
  note k = k0 k1 k2
  have "k * 1 \<le> k * b" using k0 b by (intro mult_left_mono) simp_all
  with k1 have "k \<le> a" by linarith
  then have kl: "nat k < dec_limit" using a k unfolding dec_limit_def by simp
  have xk: "of_int k / 10 ^ s \<le> x"
  proof -
    have "of_int k * of_int b \<le> (of_int a :: rat)" using k(2) by (metis of_int_le_iff of_int_mult)
    then have "of_int k \<le> x * 10 ^ s" unfolding x using b by (simp add: pos_le_divide_eq)
    then show ?thesis by (simp add: pos_divide_le_eq)
  qed
  have lo: "of_int k \<le> rt_round rt x * 10 ^ s"
  proof -
    have "representable (of_int k / 10 ^ s)" using representable_div [OF kl, of s] k(1) by simp
    from round_ge [OF xk this] show ?thesis by (simp add: pos_divide_le_eq)
  qed
  have "0 \<le> (of_int k / 10 ^ s :: rat)" using k0 by simp
  with xk have x0: "0 \<le> x" by linarith
  have hi: "rt_round rt x * 10 ^ s < of_int (k + 1)"
  proof (rule ccontr)
    assume "\<not> ?thesis"
    then have ge: "of_int (k + 1) \<le> rt_round rt x * 10 ^ s" by simp
    have "(rt_round rt x - x) * 10 ^ 119 \<le> x"
      using round_error [of x] x0 by (simp add: abs_if split: if_splits)
    then have "(rt_round rt x - x) * 10 ^ 119 * (10 ^ s * of_int b) \<le> x * (10 ^ s * of_int b)"
      using b by (intro mult_right_mono) simp_all
    then have e: "(rt_round rt x * 10 ^ s - x * 10 ^ s) * of_int b * 10 ^ 119 \<le> (x * 10 ^ s) * of_int b"
      by (simp add: algebra_simps)
    have xa: "(x * 10 ^ s) * of_int b = of_int a" using b x by simp
    have "of_int (k + 1) * of_int b \<le> rt_round rt x * 10 ^ s * of_int b"
      using ge b by (intro mult_right_mono) simp_all
    then have "of_int ((k + 1) * b - a) \<le> (rt_round rt x * 10 ^ s - x * 10 ^ s) * of_int b"
      using xa by (simp add: algebra_simps)
    moreover have "(1 :: rat) \<le> of_int ((k + 1) * b - a)" using k2 by (simp only: of_int_1_le_iff)
    ultimately have "(1 :: rat) \<le> (rt_round rt x * 10 ^ s - x * 10 ^ s) * of_int b" by linarith
    then have "(10 :: rat) ^ 119 \<le> (rt_round rt x * 10 ^ s - x * 10 ^ s) * of_int b * 10 ^ 119"
      using mult_right_mono [of 1 _ "10 ^ 119 :: rat"] by simp
    with e xa have "(10 :: rat) ^ 119 \<le> of_int a" by linarith
    then have "(of_int (10 ^ 119) :: rat) \<le> of_int a" by (simp only: of_int_power of_int_numeral)
    with a(2) show False by (simp only: of_int_le_iff)
  qed
  show ?thesis unfolding k_def [symmetric] using lo hi by (intro floor_unique) simp_all
qed

end

locale decimal_text = decimal_rounding +
  assumes to_fixed_text: "rt_to_fixed rt (of_nat u / 10 ^ s) s = fixed_text u s"
    and places_enough: "x = of_nat u / 10 ^ s \<Longrightarrow> \<exists>v. x = of_nat v / 10 ^ rt_places rt x"
    and parse_text: "is_decimal_text t \<Longrightarrow> rt_parse rt t = DecFinite False (text_value t)"

text \<open>A binary quotient of integers, read as a decimal: rounding to a double and printing
  the shortest decimal keep the order and the integers 0 and 1.\<close>

locale binary_quotient =
  fixes rt :: runtime
  assumes quot_mono: "0 < b \<Longrightarrow> a \<le> a' \<Longrightarrow> rt_quot rt a b \<le> rt_quot rt a' b"
    and quot_zero: "0 < b \<Longrightarrow> rt_quot rt 0 b = 0"
    and quot_one: "0 < b \<Longrightarrow> rt_quot rt b b = 1"
begin

lemma quot_nonneg: "0 < b \<Longrightarrow> 0 \<le> a \<Longrightarrow> 0 \<le> rt_quot rt a b"
  using quot_mono [of b 0 a] by (simp add: quot_zero)

lemma quot_le_one: "0 < b \<Longrightarrow> a \<le> b \<Longrightarrow> rt_quot rt a b \<le> 1"
  using quot_mono [of b a b] by (simp add: quot_one)

lemma quot_ge_one: "0 < b \<Longrightarrow> b \<le> a \<Longrightarrow> 1 \<le> rt_quot rt a b"
  using quot_mono [of b b a] by (simp add: quot_one)

end

locale collation =
  fixes rt :: runtime
  assumes locale_comparator: "comparator (rt_locale_compare rt)"

sublocale collation \<subseteq> comparator "rt_locale_compare rt"
  by (rule locale_comparator)

locale clock =
  fixes rt :: runtime
  assumes parse_iso: "valid_instant t \<Longrightarrow> rt_date_parse rt (iso_text t) = Some t"

locale host = decimal_text + binary_quotient + collation + clock

end
