(* ===== verification/EngineTypes.thy ===== *)
theory EngineTypes
  imports Runtime
begin

text \<open>
  The documents at the rule-engine boundary (\<open>packages/rule-engine/src/types.ts\<close>): one
  record per interface and one datatype per union of string literals.  A field
  \<open>T | null\<close> or an optional field is an \<open>option\<close>; a field of type \<open>unknown\<close> is a
  JSON value.  Numeric fields that the JSON schemas declare as integers are \<open>int\<close>.
\<close>

datatype json =
  JNull | JBool bool | JNum js_number | JBig int | JStr string
| JArr "json list" | JObj "(string \<times> json) list"

section \<open>Assets, quantities and lots\<close>

datatype reward_class =
  RC_normal | RC_limited_period | RC_usage_limited | RC_merchant_limited | RC_pending
| RC_promotional | RC_other

datatype asset_kind =
  AK_fiat | AK_reward_point | AK_airline_mile | AK_hotel_point | AK_cashback
| AK_stored_value | AK_voucher | AK_discount | AK_credit_limit | AK_other

record asset_ref =
  ar_asset_id :: string
  ar_asset_kind :: asset_kind
  ar_program_id :: "string option"
  ar_reward_class :: "reward_class option"
  ar_scale :: int

record quantity =
  q_asset :: asset_ref
  q_amount :: string

datatype settlement_status =
  SS_pending | SS_posted | SS_available | SS_reversed | SS_expired | SS_unknown

record settlement =
  se_status :: settlement_status
  se_expected_posting_from :: "string option"
  se_expected_posting_to :: "string option"
  se_posted_at :: "string option"

datatype expiry_policy =
  EP_none | EP_fixed_date | EP_relative_to_posting | EP_provider_defined | EP_unknown

record expiry =
  ex_policy :: expiry_policy
  ex_expires_at :: "string option"
  ex_duration_days :: "int option"
  ex_timezone :: "string option"

record usage_restrictions =
  ur_transferable :: "bool option"
  ur_redeemable_for_cash :: "bool option"
  ur_usable_for_payment :: "bool option"
  ur_investable :: "bool option"
  ur_permitted_destination_ids :: "string list"
  ur_notes :: string

datatype on_refund = OR_none | OR_proportional | OR_full | OR_provider_defined | OR_unknown

record clawback_policy =
  cp_on_refund :: on_refund
  cp_posting_delay_days :: "int option"
  cp_notes :: string

datatype certainty_type = CT_guaranteed | CT_probabilistic | CT_conditional_selection

datatype probability_source = PS_official_disclosed | PS_historical_estimate | PS_undisclosed

record certainty =
  ce_type :: certainty_type
  ce_probability :: "string option"
  ce_probability_source :: "probability_source option"

record asset_lot =
  al_lot_id :: string
  al_quantity :: quantity
  al_acquired_at :: "string option"
  al_source_operation_id :: "string option"
  al_settlement :: settlement
  al_expiry :: expiry
  al_restrictions :: usage_restrictions
  al_provenance_rule_ids :: "string list"

datatype direction = D_consume | D_create | D_return | D_expire

datatype movement_role =
  MR_external_funding | MR_principal_tender | MR_principal_output | MR_fee | MR_refund
| MR_reversal | MR_transfer | MR_redemption | MR_other

record asset_movement =
  am_movement_id :: string
  am_operation_id :: string
  am_direction :: direction
  am_movement_role :: movement_role
  am_quantity :: quantity
  am_source_lot_id :: "string option"
  am_destination_lot_id :: "string option"
  am_notes :: string

datatype reward_sign = RS_credit | RS_debit

record jpy_value_range =
  jv_minimum_jpy :: json
  jv_maximum_jpy :: json
  jv_expected_jpy :: json

record reward_component =
  rc_component_id :: string
  rc_operation_id :: string
  rc_rule_id :: string
  rc_sign :: reward_sign
  rc_quantity :: quantity
  rc_value_jpy :: jpy_value_range
  rc_certainty :: certainty
  rc_settlement :: settlement
  rc_expiry :: expiry
  rc_restrictions :: usage_restrictions
  rc_clawback :: clawback_policy
  rc_calculation_trace :: json

section \<open>Operations and plans\<close>

datatype operation_type =
  OT_merchant_purchase | OT_stored_value_top_up | OT_voucher_purchase | OT_point_transfer
| OT_point_redemption | OT_refund | OT_reversal | OT_portal_clickout

datatype channel =
  CH_in_store | CH_online | CH_mobile_order | CH_delivery | CH_drive_through | CH_in_app
| CH_portal_clickout | CH_transfer | CH_not_applicable

datatype interface =
  IF_physical_card | IF_magstripe | IF_chip | IF_contactless_card | IF_mobile_contactless
| IF_qr_code | IF_barcode | IF_merchant_app | IF_provider_app | IF_web_checkout
| IF_portal_redirect | IF_cash | IF_manual_transfer | IF_automatic | IF_not_applicable

record line_item =
  li_line_item_id :: string
  li_product_class :: string
  li_amount_jpy :: int
  li_tax_exclusive_amount_jpy :: "int option"
  li_quantity :: int
  li_eligible_for_rewards :: "bool option"

datatype input_role =
  IR_external_funding | IR_stored_value_tender | IR_points_tender | IR_transfer_source
| IR_redemption_source | IR_fee | IR_refund_source | IR_other

record asset_input =
  ai_input_id :: string
  ai_source_lot_id :: "string option"
  ai_quantity :: quantity
  ai_role :: input_role

datatype output_role =
  OU_stored_value | OU_voucher | OU_transfer_destination | OU_redemption_destination
| OU_refund | OU_other

record output_request =
  or_request_id :: string
  or_created_lot_id :: string
  or_asset :: asset_ref
  or_requested_amount :: "string option"
  or_role :: output_role

record operation =
  op_operation_id :: string
  op_sequence :: int
  op_occurred_at :: string
  op_operation_type :: operation_type
  op_merchant_id :: "string option"
  op_merchant_location_id :: "string option"
  op_channel :: channel
  op_interface :: interface
  op_payment_instrument_id :: "string option"
  op_funding_source_id :: "string option"
  op_amount_jpy :: "int option"
  op_asset_inputs :: "asset_input list"
  op_output_requests :: "output_request list"
  op_original_operation_id :: "string option"
  op_portal_id :: "string option"
  op_line_items :: "line_item list"
  op_notes :: string

datatype dependency_type = DT_funds | DT_eligibility | DT_attribution

record dependency =
  de_from_operation_id :: string
  de_to_operation_id :: string
  de_dependency_type :: dependency_type

datatype presentation_mode = PM_manual | PM_linked | PM_automatic

record loyalty_presentment =
  lp_operation_id :: string
  lp_loyalty_program_id :: string
  lp_interface :: interface
  lp_presentation_mode :: presentation_mode
  lp_sequence :: int

text \<open>A plan document may carry properties the interface does not declare; the validator asks
  for their names (\<open>Object.hasOwn\<close>).\<close>

record purchase_plan =
  pp_plan_id :: string
  pp_operations :: "operation list"
  pp_dependencies :: "dependency list"
  pp_loyalty_presentments :: "loyalty_presentment list"
  pp_assumptions :: "string list"
  pp_extra_fields :: "string list"

section \<open>User state\<close>

datatype fact_status = FS_known | FS_estimated | FS_unknown | FS_not_applicable

record cap_progress_state =
  ps_status :: fact_status
  ps_eligible_spend_jpy_min :: "int option"
  ps_eligible_spend_jpy_max :: "int option"
  ps_reward_earned_units_min :: "string option"
  ps_reward_earned_units_max :: "string option"
  ps_period_start :: "string option"
  ps_period_end :: "string option"

section \<open>Rules\<close>

record rule_scope =
  sc_countries :: "string list"
  sc_operation_types :: "operation_type list"
  sc_merchant_ids :: "string list option"
  sc_excluded_merchant_ids :: "string list option"
  sc_merchant_location_ids :: "string list option"
  sc_excluded_merchant_location_ids :: "string list option"
  sc_channels :: "channel list"
  sc_included_product_classes :: "string list option"
  sc_excluded_product_classes :: "string list option"
  sc_tax_basis :: "string option"

record transaction_conditions =
  tc_minimum_amount_jpy :: "int option"
  tc_maximum_amount_jpy :: "int option"
  tc_eligible_amount_basis :: "string option"

datatype rounding_mode = RM_floor | RM_ceil | RM_half_up | RM_exact

datatype aggregation_scope =
  AS_per_line_item | AS_per_operation | AS_per_day | AS_per_statement | AS_per_campaign_period
| AS_transfer_request

record rounding =
  ro_aggregation_scope :: aggregation_scope
  ro_eligible_spend_quantum_jpy :: "js_number option"
  ro_reward_rounding_mode :: rounding_mode

record rule_validity =
  va_valid_from :: string
  va_valid_to :: "string option"
  va_timezone :: string
  va_recorded_at :: string
  va_superseded_at :: "string option"

datatype review_mode =
  RV_solo_dual_pass | RV_agent_challenged | RV_human_second_review | RV_expert_review

datatype review_decision = RD_approved | RD_rejected | RD_needs_more_evidence

record review_event =
  re_mode :: review_mode
  re_reviewer_id :: string
  re_completed_at :: string
  re_decision :: review_decision
  re_notes :: string

record rule_audit =
  au_created_at :: string
  au_created_by :: string
  au_review_events :: "review_event list"
  au_required_review_modes :: "review_mode list"
  au_review_mode :: "review_mode option"
  au_reviewed_at :: "string option"
  au_reviewed_by :: "string option"
  au_change_reason :: string

record rule_provenance =
  pr_evidence_ids :: "string list"
  pr_minimum_source_tier :: string
  pr_human_verified :: bool

datatype rule_status =
  RU_draft | RU_under_review | RU_published | RU_superseded | RU_retired | RU_rejected

datatype stacking_mode =
  SM_additive | SM_replaces_group | SM_best_of_group | SM_includes_base
| SM_non_reward_acceptance | SM_custom string

record rule_stacking =
  rs_stack_group :: string
  rs_mode :: stacking_mode
  rs_precedence :: int
  rs_conflicts_with_rule_ids :: "string list"
  rs_requires_rule_ids :: "string list"

text \<open>The numeric parameters of a rule's calculation that the rule validator reads.\<close>

datatype calculation =
  CA_percentage js_number
| CA_points_per_unit string js_number
| CA_fixed string
| CA_other json

record reward_rule =
  rr_rule_id :: string
  rr_version :: int
  rr_status :: rule_status
  rr_rule_type :: string
  rr_name :: string
  rr_scope :: rule_scope
  rr_transaction_conditions :: transaction_conditions
  rr_calculation :: "calculation option"
  rr_stacking :: rule_stacking
  rr_validity :: rule_validity
  rr_provenance :: rule_provenance
  rr_audit :: rule_audit
  rr_rest :: json

end
