(* ===== verification/Reference_Runtime.thy ===== *)
theory Reference_Runtime
  imports Runtime
begin

text \<open>
  A concrete runtime on which every law of \<^theory_text>\<open>Runtime\<close> holds: rounding half up
  to a number of significant digits, the fixed-point text of a number, the reader of
  plain decimal numerals, code-unit collation, the ISO reader of \<^theory_text>\<open>Dates\<close> and
  two time zones.  The witnesses of the development run on it.
\<close>

section \<open>Rounding to significant digits\<close>

fun ndigits :: "nat \<Rightarrow> nat" where
  "ndigits n = (if n < 10 then 1 else Suc (ndigits (n div 10)))"

declare ndigits.simps [simp del]

lemma ndigits_bounds: "0 < n \<Longrightarrow> 10 ^ (ndigits n - 1) \<le> n \<and> n < 10 ^ ndigits n \<and> 0 < ndigits n"
proof (induction n rule: ndigits.induct)
  case (1 n)
  show ?case
  proof (cases "n < 10")
    case True
    with 1 show ?thesis by (simp add: ndigits.simps [of n])
  next
    case False
    define k where "k = ndigits (n div 10)"
    have ih: "10 ^ (k - 1) \<le> n div 10" "n div 10 < 10 ^ k" "0 < k"
      using 1 False unfolding k_def by simp_all
    have nd: "ndigits n = Suc k" using False by (simp add: ndigits.simps [of n] k_def)
    have "(10::nat) ^ k = 10 * 10 ^ (k - 1)" using ih(3) by (cases k) simp_all
    also have "\<dots> \<le> 10 * (n div 10)" using ih(1) by simp
    also have "\<dots> \<le> n" by simp
    finally have "10 ^ k \<le> n" .
    moreover have "n < 10 ^ Suc k" using ih(2) by (simp add: div_less_iff_less_mult mult.commute)
    ultimately show ?thesis by (simp add: nd)
  qed
qed

lemma pow10_diff: "(10::rat) powi (int m - int n) = 10 ^ m / 10 ^ n"
  by (subst power_int_diff) simp_all

lemma pow10_add: "(10::rat) powi (i + j) = 10 powi i * 10 powi j"
  by (rule power_int_add) simp

lemma of_nat_less_pow10: "n < 10 ^ p \<longleftrightarrow> (of_nat n :: rat) < 10 ^ p"
  by (metis of_nat_less_iff of_nat_numeral of_nat_power)

text \<open>The decimal exponent of a positive number.\<close>

definition expo :: "rat \<Rightarrow> int" where
  "expo x =
     (let (a, b) = quotient_of x; d = int (ndigits (nat a)) - int (ndigits (nat b))
      in if 10 powi d \<le> x then d else d - 1)"

lemma expo_bounds:
  assumes "0 < x"
  shows "10 powi expo x \<le> x" "x < 10 powi (expo x + 1)"
proof -
  obtain a b where q: "quotient_of x = (a, b)" by (cases "quotient_of x")
  then have x: "x = of_int a / of_int b" and b: "0 < b"
    by (simp_all add: quotient_of_div quotient_of_denom_pos)
  with assms have a: "0 < a" by (simp add: zero_less_divide_iff)
  define A B where "A = nat a" and "B = nat b"
  have AB: "0 < A" "0 < B" "a = int A" "b = int B" using a b by (simp_all add: A_def B_def)
  define da db where "da = ndigits A" and "db = ndigits B"
  have A: "10 ^ (da - 1) \<le> A" "A < 10 ^ da" "0 < da" and B: "10 ^ (db - 1) \<le> B" "B < 10 ^ db" "0 < db"
    using ndigits_bounds AB unfolding da_def db_def by blast+
  have xAB: "x = of_nat A / of_nat B" using x AB by simp
  define d where "d = int da - int db"
  have A': "(10::rat) ^ (da - 1) \<le> of_nat A" "of_nat A < (10::rat) ^ da"
    and B': "(10::rat) ^ (db - 1) \<le> of_nat B" "of_nat B < (10::rat) ^ db"
    using A B by (metis of_nat_le_iff of_nat_less_iff of_nat_numeral of_nat_power)+
  have up: "x < 10 powi (d + 1)"
  proof -
    have "x < 10 ^ da / 10 ^ (db - 1)"
      unfolding xAB using A' B' by (intro frac_less) simp_all
    also have "\<dots> = 10 powi (int da - int (db - 1))"
      by (simp only: pow10_diff)
    also have "int da - int (db - 1) = d + 1" using B(3) unfolding d_def by simp
    finally show ?thesis .
  qed
  have lo: "10 powi (d - 1) \<le> x"
  proof -
    have "(10::rat) ^ (da - 1) / 10 ^ db \<le> x"
      unfolding xAB using A' B' AB by (intro frac_le) simp_all
    moreover have "(10::rat) ^ (da - 1) / 10 ^ db = 10 powi (int (da - 1) - int db)"
      by (simp only: pow10_diff)
    moreover have "int (da - 1) - int db = d - 1" using A(3) unfolding d_def by simp
    ultimately show ?thesis by simp
  qed
  have e: "expo x = (if 10 powi d \<le> x then d else d - 1)"
    unfolding expo_def q Let_def prod.case d_def da_def db_def A_def B_def ..
  show "10 powi expo x \<le> x" "x < 10 powi (expo x + 1)"
    unfolding e using up lo by auto
qed

lemma pow10_mono: "i \<le> j \<Longrightarrow> (10::rat) powi i \<le> 10 powi j"
  by (rule power_int_increasing) simp_all

lemma pow10_less_iff: "(10::rat) powi i < 10 powi j \<longleftrightarrow> i < j"
  by (metis linorder_not_le pow10_mono power_int_strict_increasing one_less_numeral_iff semiring_norm(76))

lemma expo_mono: "0 < x \<Longrightarrow> x \<le> y \<Longrightarrow> expo x \<le> expo y"
proof -
  assume "0 < x" "x \<le> y"
  then have "10 powi expo x < (10::rat) powi (expo y + 1)"
    using expo_bounds(1) [of x] expo_bounds(2) [of y] by linarith
  then show ?thesis by (simp add: pow10_less_iff)
qed

definition round_pos :: "nat \<Rightarrow> rat \<Rightarrow> rat" where
  "round_pos p x = (let s = 10 powi (expo x - (int p - 1)) in of_int \<lfloor>x / s + 1 / 2\<rfloor> * s)"

definition round_sig :: "nat \<Rightarrow> rat \<Rightarrow> rat" where
  "round_sig p x = (if x = 0 then 0 else if 0 < x then round_pos p x else - round_pos p (- x))"

lemma floor_half_int: "\<lfloor>(of_int k :: rat) + 1 / 2\<rfloor> = k"
  by linarith

lemma round_pos_ge:
  assumes "0 < x" "0 < p"
  shows "10 powi expo x \<le> round_pos p x"
proof -
  define s :: rat where "s = 10 powi (expo x - (int p - 1))"
  have s: "0 < s" unfolding s_def by simp
  have "10 powi expo x = 10 powi (int (p - 1)) * s"
    unfolding s_def pow10_add [symmetric] using assms by (simp add: of_nat_diff)
  then have e: "10 powi expo x = of_int (10 ^ (p - 1)) * s" by simp
  then have "of_int (10 ^ (p - 1)) \<le> x / s"
    using expo_bounds(1) [OF assms(1)] s by (simp add: pos_le_divide_eq)
  then have "10 ^ (p - 1) \<le> \<lfloor>x / s + 1 / 2\<rfloor>" by linarith
  then have "of_int (10 ^ (p - 1)) * s \<le> of_int \<lfloor>x / s + 1 / 2\<rfloor> * s"
    using s by (simp only: mult_le_cancel_right of_int_le_iff) simp
  then show ?thesis unfolding e round_pos_def Let_def s_def .
qed

lemma round_pos_le:
  assumes "0 < x" "0 < p"
  shows "round_pos p x \<le> 10 powi (expo x + 1)"
proof -
  define s :: rat where "s = 10 powi (expo x - (int p - 1))"
  have s: "0 < s" unfolding s_def by simp
  have "10 powi (expo x + 1) = 10 powi (int p) * s"
    unfolding s_def pow10_add [symmetric] by simp
  then have e: "10 powi (expo x + 1) = of_int (10 ^ p) * s" by simp
  then have "x / s < of_int (10 ^ p)"
    using expo_bounds(2) [OF assms(1)] s by (simp add: pos_divide_less_eq)
  then have "\<lfloor>x / s + 1 / 2\<rfloor> \<le> 10 ^ p" by linarith
  then have "of_int \<lfloor>x / s + 1 / 2\<rfloor> * s \<le> of_int (10 ^ p) * s"
    using s by (simp only: mult_le_cancel_right of_int_le_iff) simp
  then show ?thesis unfolding e round_pos_def Let_def s_def .
qed

lemma round_pos_mono:
  assumes "0 < x" "x \<le> y" "0 < p"
  shows "round_pos p x \<le> round_pos p y"
proof (cases "expo x = expo y")
  case True
  define s :: rat where "s = 10 powi (expo y - (int p - 1))"
  have s: "0 < s" unfolding s_def by simp
  have "\<lfloor>x / s + 1 / 2\<rfloor> \<le> \<lfloor>y / s + 1 / 2\<rfloor>"
    using assms s by (intro floor_mono add_right_mono divide_right_mono) simp_all
  then show ?thesis using s by (simp add: round_pos_def Let_def True s_def [symmetric])
next
  case False
  with expo_mono [OF assms(1,2)] have "expo x + 1 \<le> expo y" by simp
  then have "(10::rat) powi (expo x + 1) \<le> 10 powi expo y" by (rule pow10_mono)
  then show ?thesis
    using round_pos_le [OF assms(1,3)] round_pos_ge [of y p] assms by linarith
qed

lemma round_pos_pos: "0 < x \<Longrightarrow> 0 < p \<Longrightarrow> 0 < round_pos p x"
  using round_pos_ge [of x p] by (rule less_le_trans [rotated]) simp_all

lemma round_sig_mono:
  assumes "x \<le> y" "0 < p"
  shows "round_sig p x \<le> round_sig p y"
  using assms round_pos_mono [of x y p] round_pos_mono [of "- y" "- x" p]
    round_pos_pos [of "- x" p] round_pos_pos [of y p]
  by (auto simp: round_sig_def)

lemma round_pos_exact:
  assumes x: "x = of_nat n * 10 powi e" and n: "0 < n" "n < 10 ^ p" and p: "0 < p"
  shows "round_pos p x = x"
proof -
  have x0: "0 < x" using x n by simp
  have "x < 10 ^ p * 10 powi e"
    unfolding x using n(2) unfolding of_nat_less_pow10 by (rule mult_strict_right_mono) simp
  also have "\<dots> = 10 powi (int p + e)" by (simp only: pow10_add power_int_of_nat)
  finally have "10 powi expo x < (10::rat) powi (int p + e)"
    using expo_bounds(1) [OF x0] by linarith
  then have le: "expo x < int p + e" by (simp add: pow10_less_iff)
  define j where "j = nat (int p - 1 - expo x + e)"
  define s :: rat where "s = 10 powi (expo x - (int p - 1))"
  have s: "0 < s" unfolding s_def by simp
  have "(10::rat) powi e = 10 ^ j * s"
  proof -
    have "(10::rat) ^ j * s = 10 powi (int j + (expo x - (int p - 1)))"
      by (simp only: s_def pow10_add power_int_of_nat)
    also have "int j + (expo x - (int p - 1)) = e" using le unfolding j_def by simp
    finally show ?thesis by simp
  qed
  then have xs: "x = of_int (int n * 10 ^ j) * s" unfolding x by simp
  then have "x / s = of_int (int n * 10 ^ j)" using s by simp
  then have "\<lfloor>x / s + 1 / 2\<rfloor> = int n * 10 ^ j" by (simp only: floor_half_int)
  then show ?thesis unfolding round_pos_def Let_def s_def [symmetric] using xs by metis
qed

lemma round_sig_exact:
  assumes "x = of_int n * 10 powi e" "\<bar>n\<bar> < 10 ^ p" "0 < p"
  shows "round_sig p x = x"
proof -
  have b: "nat \<bar>n\<bar> < 10 ^ p" using assms(2) by (simp add: nat_less_iff)
  consider "n = 0" | "0 < n" | "n < 0" by linarith
  then show ?thesis
  proof cases
    case 2
    with b have "round_pos p x = x"
      by (intro round_pos_exact [where n = "nat n"]) (simp_all add: assms)
    with 2 assms show ?thesis by (simp add: round_sig_def)
  next
    case 3
    with b have "round_pos p (- x) = - x"
      by (intro round_pos_exact [where n = "nat (- n)"]) (simp_all add: assms)
    moreover have "x < 0" using 3 assms(1) by (simp add: mult_neg_pos)
    ultimately show ?thesis by (simp add: round_sig_def)
  qed (use assms in \<open>simp add: round_sig_def\<close>)
qed

lemma round_pos_representable:
  assumes "0 < x"
  shows "representable (round_pos 120 x)"
proof -
  define s :: rat where "s = 10 powi (expo x - 119)"
  define n where "n = \<lfloor>x / s + 1 / 2\<rfloor>"
  have s: "0 < s" unfolding s_def by simp
  have r: "round_pos 120 x = of_int n * s" by (simp add: round_pos_def Let_def n_def s_def)
  have "0 \<le> n" unfolding n_def using assms s by simp
  have "10 powi 120 * s = 10 powi (120 + (expo x - 119))" unfolding s_def by (simp only: pow10_add)
  also have "120 + (expo x - 119) = expo x + 1" by simp
  finally have "10 powi (expo x + 1) = 10 powi 120 * s" by simp
  with round_pos_le [OF assms, of 120] r have "of_int n * s \<le> 10 ^ 120 * s" by simp
  then have "(of_int n :: rat) \<le> of_int (10 ^ 120)" using s by simp
  then have le: "n \<le> 10 ^ 120" by (simp only: of_int_le_iff)
  show ?thesis
  proof (cases "n = 10 ^ 120")
    case True
    have "round_pos 120 x = of_int 1 * 10 powi (120 + (expo x - 119))"
      unfolding r s_def pow10_add True by simp
    moreover have "\<bar>1\<bar> < int dec_limit" unfolding dec_limit_def by simp
    ultimately show ?thesis using representable_powi [of 1 "120 + (expo x - 119)"] by (simp only:)
  next
    case False
    with le \<open>0 \<le> n\<close> have "\<bar>n\<bar> < int dec_limit" by (simp add: dec_limit_def)
    then show ?thesis unfolding r s_def by (rule representable_powi)
  qed
qed

lemma round_pos_error:
  assumes "0 < x"
  shows "\<bar>round_pos 120 x - x\<bar> * 10 ^ 119 \<le> x"
proof -
  define s :: rat where "s = 10 powi (expo x - 119)"
  define n where "n = \<lfloor>x / s + 1 / 2\<rfloor>"
  have s: "0 < s" unfolding s_def by simp
  have r: "round_pos 120 x = of_int n * s" by (simp add: round_pos_def Let_def n_def s_def)
  have "\<bar>of_int n - x / s\<bar> \<le> 1 / 2" unfolding n_def by linarith
  then have "\<bar>of_int n - x / s\<bar> * s \<le> 1 / 2 * s" using s by (intro mult_right_mono) simp_all
  moreover have "\<bar>of_int n - x / s\<bar> * s = \<bar>(of_int n - x / s) * s\<bar>" using s by (simp add: abs_mult)
  moreover have "(of_int n - x / s) * s = round_pos 120 x - x" unfolding r using s by (simp add: algebra_simps)
  ultimately have "\<bar>round_pos 120 x - x\<bar> \<le> s" using s by simp
  then have "\<bar>round_pos 120 x - x\<bar> * 10 ^ 119 \<le> s * 10 ^ 119" by (rule mult_right_mono) simp
  also have "s * 10 ^ 119 = 10 powi (expo x - 119 + 119)"
    unfolding s_def by (simp only: pow10_add) simp
  also have "\<dots> \<le> x" using expo_bounds(1) [OF assms] by simp
  finally show ?thesis .
qed

lemma round_sig_representable: "representable (round_sig 120 x)"
proof -
  have neg: "representable y \<Longrightarrow> representable (- y)" for y
    unfolding representable_def by (metis abs_minus_cancel mult_minus_left of_int_minus)
  show ?thesis
    unfolding round_sig_def using round_pos_representable [of x] neg [OF round_pos_representable, of "- x"]
    by (cases "x = 0"; cases "0 < x") auto
qed

lemma round_sig_error: "\<bar>round_sig 120 x - x\<bar> * 10 ^ 119 \<le> \<bar>x\<bar>"
proof -
  consider "x = 0" | "0 < x" | "x < 0" by linarith
  then show ?thesis
  proof cases
    case 2
    with round_pos_error [of x] show ?thesis by (simp add: round_sig_def)
  next
    case 3
    have "\<bar>- round_pos 120 (- x) - x\<bar> = \<bar>round_pos 120 (- x) - - x\<bar>" by linarith
    with 3 round_pos_error [of "- x"] show ?thesis by (simp add: round_sig_def)
  qed (simp add: round_sig_def)
qed

section \<open>Text\<close>

definition ref_to_fixed :: "rat \<Rightarrow> nat \<Rightarrow> string" where
  "ref_to_fixed x dp =
     (if x < 0 then ''-'' else []) @ fixed_text (nat \<lfloor>\<bar>x\<bar> * 10 ^ dp + 1 / 2\<rfloor>) dp"

text \<open>The fraction digits a decimal with denominator \<open>b\<close> needs: every digit removes the
  factors of 10 that are left.\<close>

function den_places :: "nat \<Rightarrow> nat" where
  "den_places b = (if gcd b 10 \<le> 1 \<or> b = 0 then 0 else Suc (den_places (b div gcd b 10)))"
  by pat_completeness auto
termination
  by (relation "measure id") (auto intro: div_less_dividend)

declare den_places.simps [simp del]

definition ref_places :: "rat \<Rightarrow> nat" where
  "ref_places x = den_places (nat (snd (quotient_of x)))"

definition ref_parse :: "string \<Rightarrow> dec_read" where
  "ref_parse t =
     (if is_decimal_text t then DecFinite False (text_value t)
      else case t of
        [] \<Rightarrow> DecThrow
      | c # t' \<Rightarrow> if c = CHR ''-'' \<and> is_decimal_text t' then DecFinite True (- text_value t') else DecThrow)"

lemma ref_to_fixed_text: "ref_to_fixed (of_nat u / 10 ^ s) s = fixed_text u s"
proof -
  have "\<lfloor>\<bar>of_nat u / 10 ^ s\<bar> * 10 ^ s + (1 / 2 :: rat)\<rfloor> = int u"
    using floor_half_int [of "int u"] by simp
  moreover have "\<not> (of_nat u / 10 ^ s :: rat) < 0" by (simp add: not_less)
  ultimately show ?thesis unfolding ref_to_fixed_def by (simp only: if_False append.simps nat_int)
qed

lemma den_places_dvd: "0 < b \<Longrightarrow> b dvd 10 ^ s \<Longrightarrow> b dvd 10 ^ den_places b"
proof (induction s arbitrary: b)
  case 0
  then show ?case by simp
next
  case (Suc s)
  define g where "g = gcd b 10"
  show ?case
  proof (cases "g \<le> 1")
    case True
    then have "g = 1" using Suc.prems by (metis g_def gcd_eq_0_iff le_antisym less_one neq0_conv not_le)
    then have "coprime b 10" unfolding g_def by (simp add: coprime_iff_gcd_eq_1)
    then have "coprime b (10 ^ Suc s)" by (rule coprime_power_right_iff [THEN iffD2, OF disjI1])
    with Suc.prems(2) have "b = 1" by (metis coprime_absorb_left nat_dvd_1_iff_1)
    then show ?thesis by simp
  next
    case False
    have b: "b = g * (b div g)" unfolding g_def by simp
    have "b dvd gcd (10 ^ s * b) (10 ^ s * 10)"
      using Suc.prems(2) by (intro gcd_greatest) (simp_all add: mult.commute)
    then have "b dvd g * 10 ^ s"
      unfolding gcd_mult_distrib_nat [symmetric] g_def by (simp only: mult.commute)
    then have "b div g dvd 10 ^ s" using False b by (metis dvd_times_left_cancel_iff not_le_imp_less less_one not_less0)
    moreover have "0 < b div g" using Suc.prems(1) b by (metis mult_0_right neq0_conv)
    ultimately have ih: "b div g dvd 10 ^ den_places (b div g)" by (rule Suc.IH [rotated])
    have "g dvd 10" unfolding g_def by simp
    with ih have "g * (b div g) dvd 10 * 10 ^ den_places (b div g)" by (rule mult_dvd_mono [rotated])
    then have "b dvd 10 ^ Suc (den_places (b div g))" unfolding b [symmetric] by simp
    moreover have "den_places b = Suc (den_places (b div g))"
      using False Suc.prems(1) by (subst den_places.simps) (simp add: g_def)
    ultimately show ?thesis by simp
  qed
qed

lemma ref_places_enough:
  assumes "x = of_nat u / 10 ^ s"
  shows "\<exists>v. x = of_nat v / 10 ^ ref_places x"
proof -
  obtain a b where q: "quotient_of x = (a, b)" by (cases "quotient_of x")
  then have x: "x = of_int a / of_int b" and b: "0 < b" and co: "coprime a b"
    by (simp_all add: quotient_of_div quotient_of_denom_pos quotient_of_coprime)
  have a: "0 \<le> a"
    using assms x b by (metis divide_nonneg_nonneg of_nat_0_le_iff of_int_0_le_iff of_int_pos
        zero_le_divide_iff not_less zero_le_numeral zero_le_power less_le)
  have "of_int (a * 10 ^ s) = (of_int (int u * b) :: rat)"
    using assms x b by (simp add: field_simps)
  then have "a * 10 ^ s = int u * b" by (simp only: of_int_eq_iff)
  then have "b dvd a * 10 ^ s" by simp
  with co have "b dvd 10 ^ s" by (simp add: coprime_commute coprime_dvd_mult_right_iff)
  then have "nat b dvd 10 ^ s" using b by (metis nat_dvd_iff nat_power_eq zero_le_numeral nat_numeral int_nat_eq less_imp_le of_nat_dvd_iff of_nat_numeral of_nat_power)
  then have "nat b dvd 10 ^ den_places (nat b)" using b by (intro den_places_dvd) simp_all
  then obtain k where k: "10 ^ den_places (nat b) = nat b * k" by (rule dvdE)
  have "(10 :: rat) ^ den_places (nat b) = of_nat (nat b * k)"
    unfolding k [symmetric] by simp
  then have p: "(10 :: rat) ^ ref_places x = of_int b * of_nat k"
    using b by (simp add: ref_places_def q)
  then have "of_nat k \<noteq> (0 :: rat)" using b by (metis mult_zero_right power_not_zero zero_neq_numeral)
  then have "x = of_nat (nat a * k) / 10 ^ ref_places x"
    unfolding p using a b by (simp add: x)
  then show ?thesis ..
qed

section \<open>The reference runtime\<close>

definition offset_fields :: "int \<Rightarrow> int \<Rightarrow> local_fields" where
  "offset_fields off t =
     (let l = t + off; ms = l mod ms_per_day; (y, m, d) = civil (l div ms_per_day)
      in \<lparr>lf_year = y, lf_month = m, lf_day = d, lf_hour = ms div 3600000,
          lf_minute = ms div 60000 mod 60, lf_second = ms div 1000 mod 60\<rparr>)"

definition ref_zone_fields :: "string \<Rightarrow> int \<Rightarrow> local_fields option" where
  "ref_zone_fields z t =
     (if z = ''Asia/Tokyo'' then Some (offset_fields 32400000 t)
      else if z = ''UTC'' then Some (offset_fields 0 t) else None)"

definition ref_rt :: runtime where
  "ref_rt = \<lparr>rt_round = round_sig 120, rt_to_fixed = ref_to_fixed, rt_places = ref_places,
     rt_parse = ref_parse, rt_quot = (\<lambda>a b. round_sig 17 (of_int a / of_int b)),
     rt_locale_compare = str_cmp, rt_date_parse = read_instant, rt_zone_fields = ref_zone_fields\<rparr>"

lemma ref_rt_sel [simp]:
  "rt_to_fixed ref_rt = ref_to_fixed" "rt_places ref_rt = ref_places" "rt_parse ref_rt = ref_parse"
  "rt_locale_compare ref_rt = str_cmp" "rt_date_parse ref_rt = read_instant"
  "rt_zone_fields ref_rt = ref_zone_fields"
  by (simp_all add: ref_rt_def)

lemma round_17_1: "round_sig 17 1 = 1"
  by (rule round_sig_exact [of _ 1 0]) simp_all

interpretation ref: host ref_rt
proof unfold_locales
  fix x y :: rat
  show "x \<le> y \<Longrightarrow> rt_round ref_rt x \<le> rt_round ref_rt y"
    unfolding ref_rt_def by (simp add: round_sig_mono)
next
  fix x :: rat
  assume "representable x"
  then obtain n e where "x = of_int n * 10 powi e" "\<bar>n\<bar> < int dec_limit"
    unfolding representable_def by blast
  then have "round_sig 120 x = x"
    by (intro round_sig_exact [of _ n e]) (simp_all add: dec_limit_def)
  then show "rt_round ref_rt x = x" by (simp add: ref_rt_def)
next
  fix x :: rat
  show "\<bar>rt_round ref_rt x - x\<bar> * 10 ^ 119 \<le> \<bar>x\<bar>"
    using round_sig_error [of x] by (simp only: ref_rt_def runtime.select_convs)
next
  fix a a' b :: int
  assume "0 < b" "a \<le> a'"
  then show "rt_quot ref_rt a b \<le> rt_quot ref_rt a' b"
    unfolding ref_rt_def by (simp add: round_sig_mono divide_right_mono)
next
  fix b :: int
  assume "0 < b"
  then show "rt_quot ref_rt b b = 1" unfolding ref_rt_def by (simp add: round_17_1)
next
  fix x y :: string
  show "sgn (rt_locale_compare ref_rt y x) = - sgn (rt_locale_compare ref_rt x y)"
    unfolding ref_rt_sel by (rule code_units.cmp_flip)
next
  fix x y z :: string
  show "rt_locale_compare ref_rt x y \<le> 0 \<Longrightarrow> rt_locale_compare ref_rt y z \<le> 0 \<Longrightarrow> rt_locale_compare ref_rt x z \<le> 0"
    unfolding ref_rt_sel by (rule str_cmp_trans)
qed (simp_all add: ref_rt_def ref_to_fixed_text ref_places_enough ref_parse_def read_iso_text
    round_sig_representable round_sig_def [of 17])

lemma ref_round_numeral [simp]:
  "(numeral k :: int) \<le> 10 ^ 18 \<Longrightarrow> rt_round ref_rt (numeral k) = numeral k"
  using ref.round_exact [OF representable_small [of "numeral k"]] by simp

lemma ref_round_unit [simp]: "rt_round ref_rt 0 = 0" "rt_round ref_rt 1 = 1"
  by (rule ref.round_0, rule ref.round_1)

lemma ref_quot_unit [simp]: "0 < b \<Longrightarrow> rt_quot ref_rt 0 b = 0" "0 < b \<Longrightarrow> rt_quot ref_rt b b = 1"
  by (simp_all add: ref.quot_zero ref.quot_one)

end
