(* ===== verification/EngineMath.thy ===== *)
theory EngineMath
  imports EngineTypes Reference_Runtime
begin

text \<open>
  The arithmetic kernel (\<open>packages/rule-engine/src/math.ts\<close>): decimal text at the
  boundary, smallest units of an asset, rounding to an integer, percentage and
  points-per-unit rewards.  Every raise is an \<open>Inl\<close> with the message of the error.
\<close>

section \<open>Reading decimals\<close>

datatype decimal_input = DStr string | DNum js_number | DBig int

text \<open>\<open>decimal\<close> accepts whatever \<open>decimal.js\<close> reads; \<open>x.gt(y)\<close> is false when either is \<open>NaN\<close>.\<close>

definition decimal :: "runtime \<Rightarrow> decimal_input \<Rightarrow> dec_read res" where
  "decimal rt v =
     (case v of
        DStr t \<Rightarrow> if rt_parse rt t = DecThrow then Inl (''[DecimalError] Invalid argument: '' @ t) else Inr (rt_parse rt t)
      | DNum n \<Rightarrow>
          if \<not> is_safe_integer n then Inl ''binary_number_not_allowed''
          else Inr (DecFinite (number_int n < 0) (of_int (number_int n)))
      | DBig n \<Rightarrow> Inr (DecFinite (n < 0) (of_int n)))"

fun decimal_gt :: "dec_read \<Rightarrow> dec_read \<Rightarrow> bool" where
  "decimal_gt (DecFinite _ x) (DecFinite _ y) = (y < x)"
| "decimal_gt (DecNonFinite (Some neg)) (DecFinite _ _) = (\<not> neg)"
| "decimal_gt (DecFinite _ _) (DecNonFinite (Some neg)) = neg"
| "decimal_gt (DecNonFinite (Some a)) (DecNonFinite (Some b)) = (\<not> a \<and> b)"
| "decimal_gt _ _ = False"

definition decimal_string :: "string \<Rightarrow> rat res" where
  "decimal_string v =
     (if is_decimal_text v then Inr (text_value v) else Inl (''invalid_decimal:'' @ v))"

definition non_negative_decimal_string :: "string \<Rightarrow> rat res" where
  "non_negative_decimal_string v =
     rbind (decimal_string v) (\<lambda>q. if q < 0 then Inl (''negative_decimal:'' @ v) else Inr q)"

text \<open>The text of a number that is a safe integer, or of a big integer.\<close>

definition integer :: "decimal_input \<Rightarrow> int res" where
  "integer v =
     (let read = (\<lambda>t. if is_int_text t then Inr (int (nat_value t)) else Inl (''invalid_integer:'' @ t))
      in case v of
        DNum n \<Rightarrow>
          if \<not> is_safe_integer n \<or> number_int n < 0 then Inl ''invalid_nonnegative_integer''
          else read (int_text (number_int n))
      | DStr t \<Rightarrow> read t
      | DBig n \<Rightarrow> read (int_text n))"

definition power10 :: "int \<Rightarrow> int res" where
  "power10 scale =
     (if scale < 0 \<or> 18 < scale then Inl (''invalid_scale:'' @ int_text scale)
      else Inr (10 ^ nat scale))"

section \<open>Rounding to an integer\<close>

text \<open>\<open>toDecimalPlaces(0, ROUND_HALF_UP)\<close>: to the nearest integer, halves away from zero.\<close>

definition half_up :: "rat \<Rightarrow> int" where
  "half_up x = (if 0 \<le> x then \<lfloor>x + 1 / 2\<rfloor> else - \<lfloor>- x + 1 / 2\<rfloor>)"

definition decimal_to_bigint :: "rat \<Rightarrow> rounding_mode \<Rightarrow> int res" where
  "decimal_to_bigint value mode =
     (case mode of
        RM_floor \<Rightarrow> Inr \<lfloor>value\<rfloor>
      | RM_ceil \<Rightarrow> Inr \<lceil>value\<rceil>
      | RM_half_up \<Rightarrow> Inr (half_up value)
      | RM_exact \<Rightarrow>
          if value \<noteq> of_int \<lfloor>value\<rfloor> then Inl ''fractional_reward_exact_rounding'' else Inr \<lfloor>value\<rfloor>)"

definition round_decimal :: "rat \<Rightarrow> rounding_mode \<Rightarrow> rat res" where
  "round_decimal value mode =
     (case mode of
        RM_floor \<Rightarrow> Inr (of_int \<lfloor>value\<rfloor>)
      | RM_ceil \<Rightarrow> Inr (of_int \<lceil>value\<rceil>)
      | RM_half_up \<Rightarrow> Inr (of_int (half_up value))
      | RM_exact \<Rightarrow>
          if value \<noteq> of_int \<lfloor>value\<rfloor> then Inl ''fractional_reward_exact_rounding'' else Inr value)"

section \<open>Amounts and smallest units\<close>

definition trim_decimal :: "string \<Rightarrow> string" where
  "trim_decimal value =
     (if \<not> has_dot value then value
      else let trimmed = strip_dot (strip_zeros value)
           in if trimmed = [] \<or> trimmed = ''-0'' then ''0'' else trimmed)"

definition units_from_amount :: "runtime \<Rightarrow> string \<Rightarrow> int \<Rightarrow> rounding_mode \<Rightarrow> int res" where
  "units_from_amount rt amount scale mode =
     rbind (non_negative_decimal_string amount) (\<lambda>a.
     rbind (power10 scale) (\<lambda>p. decimal_to_bigint (dmul rt a (of_int p)) mode))"

definition amount_from_units :: "runtime \<Rightarrow> int \<Rightarrow> int \<Rightarrow> string res" where
  "amount_from_units rt units scale =
     (if units < 0 then Inl ''negative_units''
      else rbind (power10 scale) (\<lambda>p.
        Inr (trim_decimal (rt_to_fixed rt (ddiv rt (of_int units) (of_int p)) (nat (max 0 scale))))))"

definition canonical_decimal :: "runtime \<Rightarrow> rat \<Rightarrow> string" where
  "canonical_decimal rt x = trim_decimal (rt_to_fixed rt x (rt_places rt x))"

section \<open>Rewards from spend\<close>

definition calculate_percentage :: "runtime \<Rightarrow> int \<Rightarrow> int \<Rightarrow> int \<Rightarrow> rounding_mode \<Rightarrow> int res" where
  "calculate_percentage rt spend_jpy rate_basis_points scale mode =
     (if spend_jpy < 0 \<or> rate_basis_points < 0 then Inl ''invalid_percentage_inputs''
      else rbind (power10 scale) (\<lambda>p.
        decimal_to_bigint
          (dmul rt (ddiv rt (dmul rt (of_int spend_jpy) (of_int rate_basis_points)) 10000) (of_int p))
          mode))"

definition calculate_points_per_unit ::
    "runtime \<Rightarrow> int \<Rightarrow> string \<Rightarrow> int \<Rightarrow> int \<Rightarrow> rounding_mode \<Rightarrow> int res" where
  "calculate_points_per_unit rt spend_jpy reward_units spend_unit_jpy scale mode =
     (if spend_jpy < 0 \<or> spend_unit_jpy < 1 then Inl ''invalid_points_per_unit_inputs''
      else rbind (non_negative_decimal_string reward_units) (\<lambda>r.
        rbind (power10 scale) (\<lambda>p.
        decimal_to_bigint
          (dmul rt (dmul rt (of_int (spend_jpy div spend_unit_jpy)) r) (of_int p)) mode)))"

definition format_ratio :: "runtime \<Rightarrow> rat \<Rightarrow> rat \<Rightarrow> nat \<Rightarrow> string res" where
  "format_ratio rt numerator denominator decimals =
     (if denominator \<le> 0 then Inl ''invalid_ratio_denominator''
      else Inr (trim_decimal (rt_to_fixed rt
        (of_int (half_up (ddiv rt numerator denominator * 10 ^ decimals)) / 10 ^ decimals) decimals)))"

definition parse_time :: "runtime \<Rightarrow> string \<Rightarrow> int res" where
  "parse_time rt value =
     (case rt_date_parse rt value of None \<Rightarrow> Inl (''invalid_timestamp:'' @ value) | Some t \<Rightarrow> Inr t)"

section \<open>Lemmas\<close>

lemma decimal_string_Inr_iff [res_simps]:
  "decimal_string v = Inr q \<longleftrightarrow> is_decimal_text v \<and> q = text_value v"
  by (auto simp: decimal_string_def)

lemma non_negative_decimal_string_eq [simp]: "non_negative_decimal_string v = decimal_string v"
proof -
  have "\<not> text_value v < 0" using text_value_nonneg not_le by blast
  then show ?thesis by (simp add: non_negative_decimal_string_def decimal_string_def)
qed

lemma power10_Inr_iff [res_simps]:
  "power10 s = Inr p \<longleftrightarrow> 0 \<le> s \<and> s \<le> 18 \<and> p = 10 ^ nat s"
  by (auto simp: power10_def)

lemma half_up_of_int [simp]: "half_up (of_int n) = n"
  by (auto simp: half_up_def) linarith+

lemma half_up_close: "\<bar>of_int (half_up x) - x\<bar> \<le> 1 / 2"
proof (cases "0 \<le> x")
  case True
  then have "half_up x = \<lfloor>x + 1 / 2\<rfloor>" by (simp only: half_up_def if_True)
  then show ?thesis by linarith
next
  case False
  then have "half_up x = - \<lfloor>- x + 1 / 2\<rfloor>" by (simp only: half_up_def if_False)
  then show ?thesis by linarith
qed

lemma decimal_to_bigint_of_int [simp]: "decimal_to_bigint (of_int n) mode = Inr n"
  by (cases mode) (simp_all add: decimal_to_bigint_def)

lemma decimal_to_bigint_of_nat [simp]: "decimal_to_bigint (of_nat n) mode = Inr (int n)"
  using decimal_to_bigint_of_int [of "int n" mode] by simp

lemma decimal_to_bigint_Inr_close:
  "decimal_to_bigint x mode = Inr n \<Longrightarrow> \<bar>of_int n - x\<bar> < 1"
  by (cases mode) (auto simp: decimal_to_bigint_def split: if_splits, linarith+, use half_up_close [of x] in linarith)

lemma decimal_to_bigint_floor_le:
  "decimal_to_bigint x RM_floor = Inr n \<Longrightarrow> of_int n \<le> x"
  by (auto simp: decimal_to_bigint_def)

lemma decimal_to_bigint_nonneg: "decimal_to_bigint x mode = Inr n \<Longrightarrow> 0 \<le> x \<Longrightarrow> 0 \<le> n"
  using decimal_to_bigint_Inr_close [of x mode n] by linarith

lemma trim_fixed_text:
  "is_decimal_text (trim_decimal (fixed_text u s))"
  "text_value (trim_decimal (fixed_text u s)) = of_nat u / 10 ^ s"
proof -
  have ne: "is_decimal_text t \<Longrightarrow> t \<noteq> [] \<and> t \<noteq> ''-0''" for t
    by (auto simp: is_decimal_text_def int_part_def)
  have "trim_decimal (fixed_text u s) =
    (if has_dot (fixed_text u s) then strip_dot (strip_zeros (fixed_text u s)) else fixed_text u s)"
    using ne [OF fixed_text_trim(1) [of u s]] by (auto simp: trim_decimal_def Let_def)
  then show "is_decimal_text (trim_decimal (fixed_text u s))"
    "text_value (trim_decimal (fixed_text u s)) = of_nat u / 10 ^ s"
    using fixed_text_trim [of u s] by simp_all
qed

text \<open>What the boundary promises about decimal text, under the documented behaviour of the
  decimal package.\<close>

context decimal_text begin

lemma canonical_text:
  assumes "x = of_nat u / 10 ^ s"
  shows "is_decimal_text (canonical_decimal rt x)" "text_value (canonical_decimal rt x) = x"
proof -
  obtain v where v: "x = of_nat v / 10 ^ rt_places rt x" using places_enough [OF assms] by blast
  have "canonical_decimal rt x = trim_decimal (fixed_text v (rt_places rt x))"
    unfolding canonical_decimal_def by (subst (1) v) (simp only: to_fixed_text)
  with v show "is_decimal_text (canonical_decimal rt x)" "text_value (canonical_decimal rt x) = x"
    using trim_fixed_text [of v "rt_places rt x"] by simp_all
qed

lemma amount_from_units_eq:
  assumes "0 \<le> u" "u < int dec_limit" "0 \<le> s" "s \<le> 18"
  shows "amount_from_units rt u s = Inr (trim_decimal (fixed_text (nat u) (nat s)))"
proof -
  have "representable (of_nat (nat u) / 10 ^ nat s)"
    by (rule representable_div) (use assms in linarith)
  then have d: "ddiv rt (of_int u) (10 ^ nat s) = of_nat (nat u) / 10 ^ nat s"
    using assms by (simp add: ddiv_def round_exact)
  have "rt_to_fixed rt (of_nat (nat u) / 10 ^ nat s) (nat s) = fixed_text (nat u) (nat s)"
    by (rule to_fixed_text)
  then have t: "rt_to_fixed rt (ddiv rt (of_int u) (10 ^ nat s)) (nat s) = fixed_text (nat u) (nat s)"
    by (simp only: d)
  show ?thesis
    using assms unfolding amount_from_units_def power10_def by (simp add: t max_def)
qed

lemma units_from_amount_eq:
  assumes "is_decimal_text a" "text_value a = of_nat u / 10 ^ nat s"
    and "int u < int dec_limit" "0 \<le> s" "s \<le> 18"
  shows "units_from_amount rt a s mode = Inr (int u)"
proof -
  have "representable (of_nat u)" using assms by (intro representable_nat) linarith
  then have d: "dmul rt (of_nat u / 10 ^ nat s) (10 ^ nat s) = of_nat u"
    by (simp add: dmul_def round_exact)
  show ?thesis
    using assms unfolding units_from_amount_def power10_def
    by (simp add: decimal_string_def d)
qed

end

text \<open>Units written as an amount and read back exactly are the same units: for every asset
  scale the schema admits, \<open>unitsFromAmount(amountFromUnits(u, s), s, mode)\<close> is \<open>u\<close>,
  whatever the rounding mode.\<close>

theorem units_amount_roundtrip:
  assumes "decimal_text rt" "0 \<le> u" "u < int dec_limit" "0 \<le> s" "s \<le> 18"
  shows "\<exists>a. amount_from_units rt u s = Inr a \<and> units_from_amount rt a s mode = Inr u"
proof -
  let ?a = "trim_decimal (fixed_text (nat u) (nat s))"
  have "units_from_amount rt ?a s mode = Inr (int (nat u))"
    by (rule decimal_text.units_from_amount_eq [OF assms(1)])
      (use assms in \<open>simp_all add: trim_fixed_text\<close>)
  with assms decimal_text.amount_from_units_eq [OF assms] show ?thesis by simp
qed

theorem units_amount_roundtrip_witness:
  "\<exists>a. amount_from_units ref_rt 12345 2 = Inr a \<and> units_from_amount ref_rt a 2 RM_exact = Inr 12345"
  by (rule units_amount_roundtrip [OF ref.decimal_text_axioms]) (simp_all add: dec_limit_def)

section \<open>Percentages in exact integer arithmetic\<close>

lemma floor_ratio: "\<lfloor>of_int n / (10000 :: rat)\<rfloor> = n div 10000"
  using floor_divide_of_int_eq [of n 10000, where ?'a = rat] by simp

lemma ceil_ratio: "\<lceil>of_int n / (10000 :: rat)\<rceil> = - ((- n) div 10000)"
  using floor_ratio [of "- n"] by (simp add: ceiling_def)

lemma half_up_ratio: "0 \<le> n \<Longrightarrow> half_up (of_int n / 10000) = (2 * n + 10000) div 20000"
proof -
  assume "0 \<le> n"
  then have "half_up (of_int n / 10000) = \<lfloor>of_int n / 10000 + 1 / (2 :: rat)\<rfloor>"
    by (simp add: half_up_def)
  also have "of_int n / 10000 + 1 / (2 :: rat) = of_int (2 * n + 10000) / of_int 20000"
    by (simp add: field_simps)
  finally show ?thesis by (simp only: floor_divide_of_int_eq)
qed

lemma ratio_integral_iff:
  "(of_int n / (10000 :: rat) = of_int \<lfloor>of_int n / (10000 :: rat)\<rfloor>) \<longleftrightarrow> n mod 10000 = 0"
proof -
  have "(of_int n / (10000 :: rat) = of_int (n div 10000)) \<longleftrightarrow> of_int n = (of_int (n div 10000 * 10000) :: rat)"
    by (simp add: field_simps)
  also have "\<dots> \<longleftrightarrow> n = n div 10000 * 10000" by (simp only: of_int_eq_iff)
  also have "\<dots> \<longleftrightarrow> n mod 10000 = 0" by (metis add_cancel_left_right div_mult_mod_eq)
  finally show ?thesis by (simp only: floor_ratio)
qed

lemma scaled_bound:
  fixes a m :: int
  assumes "0 \<le> a" "0 \<le> s" "s \<le> 18" "a * 10 ^ 18 < m"
  shows "a * 10 ^ nat s < m" "a < m"
proof -
  have "(10 :: int) ^ nat s \<le> 10 ^ 18" using assms by (intro power_increasing) simp_all
  then have "a * 10 ^ nat s \<le> a * 10 ^ 18" using assms(1) by (rule mult_left_mono)
  with assms(4) show "a * 10 ^ nat s < m" by linarith
  have "a * 1 \<le> a * 10 ^ 18" using assms(1) by (intro mult_left_mono) simp_all
  with assms(4) show "a < m" by linarith
qed

context decimal_rounding begin

lemma round_ratio: "0 \<le> n \<Longrightarrow> n < int dec_limit \<Longrightarrow> rt_round rt (of_int n / 10 ^ k) = of_int n / 10 ^ k"
  using round_exact [OF representable_div [of "nat n" k]] by simp

lemma percentage_value:
  assumes "0 \<le> spend" "0 \<le> rate" "0 \<le> s" "s \<le> 18" "spend * rate * 10 ^ 18 < int dec_limit"
  shows "calculate_percentage rt spend rate s mode =
    decimal_to_bigint (of_int (spend * rate * 10 ^ nat s) / 10000) mode"
proof -
  have n: "0 \<le> spend * rate" using assms by simp
  note b = scaled_bound [OF n assms(3,4,5)]
  have 1: "dmul rt (of_int spend) (of_int rate) = of_int (spend * rate)"
    using round_ratio [OF n b(2), of 0] by (simp add: dmul_def)
  have 2: "ddiv rt (of_int (spend * rate)) 10000 = of_int (spend * rate) / 10000"
    using round_ratio [OF n b(2), of 4] by (simp add: ddiv_def)
  have "0 \<le> spend * rate * 10 ^ nat s" using n by simp
  from round_ratio [OF this b(1), of 4]
  have 3: "dmul rt (of_int (spend * rate) / 10000) (of_int (10 ^ nat s)) =
      of_int (spend * rate * 10 ^ nat s) / 10000"
    by (simp add: dmul_def)
  show ?thesis
    using assms(1-4) unfolding calculate_percentage_def power10_def
    by (simp add: 1 2 3 del: of_int_mult of_int_power)
qed

lemma points_value:
  assumes "0 \<le> spend" "1 \<le> unit" "is_decimal_text r" "text_value r = of_nat u / 10 ^ k" "0 \<le> s" "s \<le> 18"
    and "spend div unit * int u * 10 ^ 18 < int dec_limit"
  shows "calculate_points_per_unit rt spend r unit s mode =
    decimal_to_bigint (of_int (spend div unit * int u * 10 ^ nat s) / 10 ^ k) mode"
proof -
  have n: "0 \<le> spend div unit * int u" using assms by (simp add: pos_imp_zdiv_nonneg_iff)
  note b = scaled_bound [OF n assms(5,6,7)]
  have 1: "dmul rt (of_int (spend div unit)) (of_nat u / 10 ^ k) = of_int (spend div unit * int u) / 10 ^ k"
    using round_ratio [OF n b(2), of k] by (simp add: dmul_def)
  have "0 \<le> spend div unit * int u * 10 ^ nat s" using n by simp
  from round_ratio [OF this b(1), of k]
  have 2: "dmul rt (of_int (spend div unit * int u) / 10 ^ k) (of_int (10 ^ nat s)) =
      of_int (spend div unit * int u * 10 ^ nat s) / 10 ^ k"
    by (simp add: dmul_def)
  show ?thesis
    using assms(1-6) unfolding calculate_points_per_unit_def power10_def
    by (simp add: decimal_string_def 1 2 del: of_int_mult of_int_power)
qed

end

text \<open>\<open>calculatePercentage\<close> is exact integer arithmetic: for every amount and rate whose
  product stays within the 120-digit precision, the reward in smallest units is
  \<open>spend * rate * 10^scale / 10000\<close> rounded as the mode says, and the \<open>exact\<close> mode is refused
  precisely when that quotient is fractional.\<close>

theorem percentage_exact:
  assumes "decimal_rounding rt" "0 \<le> spend" "0 \<le> rate" "0 \<le> s" "s \<le> 18"
    and "spend * rate * 10 ^ 18 < int dec_limit"
  shows "calculate_percentage rt spend rate s mode =
    (let n = spend * rate * 10 ^ nat s
     in case mode of
          RM_floor \<Rightarrow> Inr (n div 10000)
        | RM_ceil \<Rightarrow> Inr (- (- n div 10000))
        | RM_half_up \<Rightarrow> Inr ((2 * n + 10000) div 20000)
        | RM_exact \<Rightarrow> if n mod 10000 = 0 then Inr (n div 10000)
                      else Inl ''fractional_reward_exact_rounding'')"
proof -
  have "0 \<le> spend * rate * 10 ^ nat s" using assms by simp
  then show ?thesis
    unfolding decimal_rounding.percentage_value [OF assms] Let_def decimal_to_bigint_def
    using ratio_integral_iff [of "spend * rate * 10 ^ nat s"]
    by (cases mode) (simp_all only: rounding_mode.case floor_ratio ceil_ratio half_up_ratio if_not_P if_P simp_thms split: if_split, auto)
qed

theorem percentage_exact_witness:
  "calculate_percentage ref_rt 1234 50 0 RM_floor = Inr 6 \<and>
   calculate_percentage ref_rt 1234 50 0 RM_half_up = Inr 6 \<and>
   calculate_percentage ref_rt 1234 50 0 RM_ceil = Inr 7 \<and>
   calculate_percentage ref_rt 1234 50 0 RM_exact = Inl ''fractional_reward_exact_rounding''"
proof -
  have b: "(1234 :: int) * 50 * 10 ^ 18 < int dec_limit" by (simp add: dec_limit_def)
  show ?thesis
    using percentage_exact [OF ref.decimal_rounding_axioms _ _ _ _ b] by (simp add: Let_def)
qed

end
