(* ===== verification/Calculations.thy ===== *)
theory Calculations
  imports EngineMath
begin

text \<open>
  Fixed, tiered and multiplier rewards
  (\<open>packages/rule-engine/src/m1b-calculations.ts\<close>): boundary parsing with labelled
  errors, the choice of a tier, and the evaluation of each model with its
  \<open>applied\<close>, \<open>not_eligible\<close> and \<open>rejected\<close> outcomes.  The \<open>try\<close>/\<open>catch\<close> blocks of
  the source are case distinctions on the result of the protected computation.
\<close>

section \<open>Results\<close>

datatype calculation_status = CS_applied | CS_not_eligible | CS_rejected | CS_conditional

record calculation_condition =
  cc_code :: string
  cc_message :: string

record reward_calculation_result =
  rcr_status :: calculation_status
  rcr_units :: "int option"
  rcr_amount :: "string option"
  rcr_asset_scale :: int
  rcr_conditions :: "calculation_condition list"

record fixed_calculation_spec =
  fx_reward_units :: string
  fx_rounding :: rounding

record fixed_reward_input =
  fi_eligible_amount_jpy :: "decimal_input option"
  fi_transaction_amount_jpy :: "decimal_input option"
  fi_minimum_amount_jpy :: "decimal_input option"
  fi_threshold_jpy :: "decimal_input option"
  fi_asset_scale :: "int option"

record fixed_calculation_result = reward_calculation_result +
  fr_threshold_jpy :: "string option"
  fr_basis_amount_jpy :: "string option"

datatype tier_award =
  TA_percentage int
| TA_fixed string
| TA_points_per_unit string js_number

datatype tier_basis_source = TB_transaction_amount | TB_user_fact | TB_period_aggregate | TB_event_counter

datatype tier_operator = TO_eq | TO_in | TO_gte | TO_range

record tier =
  ti_operator :: tier_operator
  ti_value :: json
  ti_award :: tier_award

record tiered_calculation_spec =
  td_source :: tier_basis_source
  td_key :: string
  td_tiers :: "tier list"
  td_rounding :: rounding

record tiered_reward_input =
  tri_basis_value :: "json option"
  tri_spend_jpy :: "decimal_input option"
  tri_eligible_amount_jpy :: "decimal_input option"
  tri_transaction_amount_jpy :: "decimal_input option"
  tri_asset_scale :: "int option"

record tiered_calculation_result = reward_calculation_result +
  tr_basis_source :: tier_basis_source
  tr_basis_key :: string
  tr_basis_value :: "json option"
  tr_matched_tier_index :: "nat option"

record multiplier_calculation_spec =
  mu_multiplier_milli :: js_number
  mu_rounding :: rounding

datatype output_mode = OM_total | OM_increment

record multiplier_reward_input =
  mi_base_units :: "decimal_input option"
  mi_asset_scale :: "int option"
  mi_output_mode :: "output_mode option"

record multiplier_calculation_result = reward_calculation_result +
  mr_base_units :: "int option"
  mr_multiplied_units :: "int option"
  mr_increment_units :: "int option"
  mr_output_mode :: output_mode

section \<open>Boundary parsing\<close>

definition relabel :: "string \<Rightarrow> 'a res \<Rightarrow> 'a res" where
  "relabel label m = (case m of Inl e \<Rightarrow> Inl (''invalid_'' @ label @ '':'' @ e) | Inr x \<Rightarrow> Inr x)"

definition parse_input :: "decimal_input \<Rightarrow> string \<Rightarrow> rat res" where
  "parse_input value label = relabel label
     (case value of
        DStr t \<Rightarrow> decimal_string t
      | DBig n \<Rightarrow> if n < 0 then Inl ''negative'' else decimal_string (int_text n)
      | DNum n \<Rightarrow>
          if \<not> is_safe_integer n \<or> number_int n < 0 then Inl ''not_a_safe_nonnegative_integer''
          else decimal_string (int_text (number_int n)))"

definition parse_optional_input :: "decimal_input option \<Rightarrow> string \<Rightarrow> rat option res" where
  "parse_optional_input value label =
     (case value of None \<Rightarrow> Inr None | Some v \<Rightarrow> rmap Some (parse_input v label))"

definition valid_scale :: "int option \<Rightarrow> int res" where
  "valid_scale scale =
     (let resolved = default_to 0 scale
      in if resolved < 0 \<or> 18 < resolved then Inl (''invalid_asset_scale:'' @ int_text resolved)
         else Inr resolved)"

definition decimal_units :: "runtime \<Rightarrow> rat \<Rightarrow> int \<Rightarrow> rounding_mode \<Rightarrow> int res" where
  "decimal_units rt amount scale mode =
     rbind (power10 scale) (\<lambda>p. decimal_to_bigint (dmul rt amount (of_int p)) mode)"

definition calc_result ::
    "runtime \<Rightarrow> calculation_status \<Rightarrow> int option \<Rightarrow> int \<Rightarrow> calculation_condition list \<Rightarrow>
     reward_calculation_result res" where
  "calc_result rt status units scale conditions =
     rbind (case units of None \<Rightarrow> Inr None | Some u \<Rightarrow> rmap Some (amount_from_units rt u scale))
       (\<lambda>amount. Inr \<lparr>rcr_status = status, rcr_units = units, rcr_amount = amount,
          rcr_asset_scale = scale, rcr_conditions = conditions\<rparr>)"

definition calc_rejected :: "string \<Rightarrow> string \<Rightarrow> int \<Rightarrow> reward_calculation_result" where
  "calc_rejected code message scale =
     \<lparr>rcr_status = CS_rejected, rcr_units = None, rcr_amount = None, rcr_asset_scale = scale,
      rcr_conditions = [\<lparr>cc_code = code, cc_message = message\<rparr>]\<rparr>"

definition max_decimal :: "rat option \<Rightarrow> rat option \<Rightarrow> rat option" where
  "max_decimal first second =
     (case first of None \<Rightarrow> second
      | Some a \<Rightarrow> (case second of None \<Rightarrow> first | Some b \<Rightarrow> if b \<le> a then first else second))"

text \<open>The dynamic values a tier is compared with.\<close>

fun as_decimal_input :: "json \<Rightarrow> decimal_input option" where
  "as_decimal_input (JStr t) = Some (DStr t)"
| "as_decimal_input (JNum n) = Some (DNum n)"
| "as_decimal_input (JBig n) = Some (DBig n)"
| "as_decimal_input _ = None"

text \<open>Two JSON values have the same \<open>JSON.stringify\<close> text exactly when they have the same
  normal form; a big integer makes \<open>JSON.stringify\<close> throw.\<close>

fun json_normal :: "json \<Rightarrow> json res" where
  "json_normal JNull = Inr JNull"
| "json_normal (JBool b) = Inr (JBool b)"
| "json_normal (JNum n) = Inr (case n of Finite q \<Rightarrow> JNum (Finite q) | NonFinite \<Rightarrow> JNull)"
| "json_normal (JBig n) = Inl ''Do not know how to serialize a BigInt''"
| "json_normal (JStr t) = Inr (JStr t)"
| "json_normal (JArr xs) = rmap JArr (traverse json_normal xs)"
| "json_normal (JObj members) =
     rmap JObj (traverse (\<lambda>(k, v). rmap (Pair k) (json_normal v)) members)"

definition numeric_equality :: "json \<Rightarrow> json \<Rightarrow> bool res" where
  "numeric_equality left right =
     (let stringified = rbind (json_normal left) (\<lambda>a. rbind (json_normal right) (\<lambda>b. Inr (a = b)))
      in case (as_decimal_input left, as_decimal_input right) of
           (Some l, Some r) \<Rightarrow>
             (case rbind (parse_input l ''comparison'') (\<lambda>x.
                     rbind (parse_input r ''comparison'') (\<lambda>y. Inr (x = y))) of
                Inr b \<Rightarrow> Inr b
              | Inl _ \<Rightarrow> stringified)
         | _ \<Rightarrow> stringified)"

definition numeric_value :: "json \<Rightarrow> string \<Rightarrow> rat res" where
  "numeric_value value label =
     (case as_decimal_input value of
        None \<Rightarrow> Inl (''invalid_'' @ label)
      | Some v \<Rightarrow> parse_input v label)"

section \<open>Fixed rewards\<close>

definition calculate_fixed_units :: "runtime \<Rightarrow> fixed_calculation_spec \<Rightarrow> int \<Rightarrow> int res" where
  "calculate_fixed_units rt calc asset_scale =
     rbind (valid_scale (Some asset_scale)) (\<lambda>scale.
     rbind (parse_input (DStr (fx_reward_units calc)) ''fixed_reward_units'') (\<lambda>award.
       decimal_units rt award scale (ro_reward_rounding_mode (fx_rounding calc))))"

definition with_fixed ::
    "reward_calculation_result \<Rightarrow> string option \<Rightarrow> string option \<Rightarrow> fixed_calculation_result" where
  "with_fixed r threshold basis =
     reward_calculation_result.extend r (fixed_calculation_result.fields threshold basis)"

definition evaluate_fixed_reward ::
    "runtime \<Rightarrow> fixed_calculation_spec \<Rightarrow> fixed_reward_input \<Rightarrow> fixed_calculation_result res" where
  "evaluate_fixed_reward rt calc input =
     rbind (valid_scale (fi_asset_scale input)) (\<lambda>scale.
     rbind (parse_optional_input (orelse (fi_eligible_amount_jpy input) (fi_transaction_amount_jpy input))
              ''eligible_amount_jpy'') (\<lambda>basis.
     rbind (parse_optional_input (fi_minimum_amount_jpy input) ''minimum_amount_jpy'') (\<lambda>minimum.
     rbind (parse_optional_input (fi_threshold_jpy input) ''threshold_jpy'') (\<lambda>explicit.
       let threshold = max_decimal minimum explicit;
           common = (\<lambda>r. with_fixed r (map_option (canonical_decimal rt) threshold)
                            (map_option (canonical_decimal rt) basis));
           award = (case rbind (calculate_fixed_units rt calc scale)
                           (\<lambda>u. calc_result rt CS_applied (Some u) scale []) of
                      Inr r \<Rightarrow> Inr (common r)
                    | Inl e \<Rightarrow> Inr (common (calc_rejected ''fixed_reward_invalid'' e scale)))
       in case threshold of
            None \<Rightarrow> award
          | Some t \<Rightarrow>
              (case basis of
                 None \<Rightarrow> Inr (common (calc_rejected ''eligible_amount_required''
                   ''fixed reward threshold cannot be evaluated without an eligible amount'' scale))
               | Some b \<Rightarrow>
                   if b < t then
                     rmap common (calc_result rt CS_not_eligible (Some 0) scale
                       [\<lparr>cc_code = ''below_fixed_threshold'',
                         cc_message = ''eligible amount is below the fixed reward threshold''\<rparr>])
                   else award)))))"

section \<open>Tiered rewards\<close>

definition spend_for_award ::
    "tiered_reward_input \<Rightarrow> tiered_calculation_spec \<Rightarrow> rat option res" where
  "spend_for_award input calc =
     (case orelse (tri_spend_jpy input)
             (orelse (tri_eligible_amount_jpy input) (tri_transaction_amount_jpy input)) of
        Some explicit \<Rightarrow> rmap Some (parse_input explicit ''spend_jpy'')
      | None \<Rightarrow>
          (case tri_basis_value input of
             Some v \<Rightarrow>
               if td_source calc = TB_transaction_amount then
                 (case numeric_value v ''transaction_amount'' of Inr q \<Rightarrow> Inr (Some q) | Inl _ \<Rightarrow> Inr None)
               else Inr None
           | None \<Rightarrow> Inr None))"

definition quantized_spend :: "rat \<Rightarrow> js_number option \<Rightarrow> int res" where
  "quantized_spend spend quantum =
     (case quantum of
        None \<Rightarrow> decimal_to_bigint spend RM_exact
      | Some n \<Rightarrow>
          if \<not> is_safe_integer n \<or> number_int n < 1 then Inl ''invalid_eligible_spend_quantum''
          else rbind (decimal_to_bigint spend RM_floor) (\<lambda>s. Inr (s div number_int n * number_int n)))"

definition json_field :: "(string \<times> json) list \<Rightarrow> string \<Rightarrow> json option" where
  "json_field members k = map_of members k"

text \<open>\<open>a ?? b ?? c\<close> over fields: the last alternative is taken as it is, absent or null.\<close>

definition coalesce3 :: "(string \<times> json) list \<Rightarrow> string \<Rightarrow> string \<Rightarrow> string \<Rightarrow> json option" where
  "coalesce3 members a b c =
     (let present = (\<lambda>k. case json_field members k of Some JNull \<Rightarrow> None | v \<Rightarrow> v)
      in orelse (present a) (orelse (present b) (json_field members c)))"

fun range_fields :: "json \<Rightarrow> json option \<times> json option" where
  "range_fields (JArr [a, b]) = (Some a, Some b)"
| "range_fields (JObj members) =
     (coalesce3 members ''min'' ''minimum'' ''minimum_value'',
      coalesce3 members ''max'' ''maximum'' ''maximum_value'')"
| "range_fields _ = (None, None)"

definition range_bounds :: "json \<Rightarrow> (rat \<times> rat) res" where
  "range_bounds value =
     (case range_fields value of
        (Some lo, Some hi) \<Rightarrow>
          rbind (numeric_value lo ''range_minimum'') (\<lambda>minimum.
          rbind (numeric_value hi ''range_maximum'') (\<lambda>maximum.
            if maximum < minimum then Inl ''range_bounds_reversed'' else Inr (minimum, maximum)))
      | _ \<Rightarrow> Inl ''range_requires_two_bounds'')"

fun some_equal :: "json \<Rightarrow> json list \<Rightarrow> bool res" where
  "some_equal basis [] = Inr False"
| "some_equal basis (v # vs) =
     rbind (numeric_equality basis v) (\<lambda>b. if b then Inr True else some_equal basis vs)"

definition tier_matches :: "tier \<Rightarrow> json \<Rightarrow> bool res" where
  "tier_matches t basis =
     (case ti_operator t of
        TO_eq \<Rightarrow> numeric_equality basis (ti_value t)
      | TO_in \<Rightarrow> (case ti_value t of JArr vs \<Rightarrow> some_equal basis vs | _ \<Rightarrow> Inr False)
      | TO_gte \<Rightarrow>
          (case rbind (numeric_value basis ''tier_basis'') (\<lambda>b.
                  rbind (numeric_value (ti_value t) ''tier_threshold'') (\<lambda>v. Inr (v \<le> b))) of
             Inr r \<Rightarrow> Inr r | Inl _ \<Rightarrow> Inr False)
      | TO_range \<Rightarrow>
          (case rbind (range_bounds (ti_value t)) (\<lambda>(lo, hi).
                  rbind (numeric_value basis ''tier_basis'') (\<lambda>b. Inr (lo \<le> b \<and> b \<le> hi))) of
             Inr r \<Rightarrow> Inr r | Inl _ \<Rightarrow> Inr False))"

definition tier_lower_bound :: "tier \<Rightarrow> rat option" where
  "tier_lower_bound t =
     (case ti_operator t of
        TO_gte \<Rightarrow> (case numeric_value (ti_value t) ''tier_threshold'' of Inr q \<Rightarrow> Some q | Inl _ \<Rightarrow> None)
      | TO_range \<Rightarrow> (case range_bounds (ti_value t) of Inr (lo, _) \<Rightarrow> Some lo | Inl _ \<Rightarrow> None)
      | _ \<Rightarrow> None)"

definition tier_specificity :: "tier \<Rightarrow> int" where
  "tier_specificity t =
     (case ti_operator t of TO_eq \<Rightarrow> 4 | TO_in \<Rightarrow> 3 | TO_range \<Rightarrow> 2 | TO_gte \<Rightarrow> 1)"

definition tier_cmp :: "tier \<times> nat \<Rightarrow> tier \<times> nat \<Rightarrow> int" where
  "tier_cmp left right =
     (let specificity = tier_specificity (fst right) - tier_specificity (fst left);
          by_index = int (snd right) - int (snd left)
      in if specificity \<noteq> 0 then specificity
         else case (tier_lower_bound (fst right), tier_lower_bound (fst left)) of
                (Some r, Some l) \<Rightarrow> if r \<noteq> l then (if l < r then 1 else -1) else by_index
              | _ \<Rightarrow> by_index)"

fun matching_tiers :: "(tier \<times> nat) list \<Rightarrow> json \<Rightarrow> (tier \<times> nat) list res" where
  "matching_tiers [] basis = Inr []"
| "matching_tiers (t # ts) basis =
     rbind (tier_matches (fst t) basis) (\<lambda>m.
     rbind (matching_tiers ts basis) (\<lambda>rest. Inr (if m then t # rest else rest)))"

definition choose_tier :: "tiered_calculation_spec \<Rightarrow> json \<Rightarrow> (tier \<times> nat) option res" where
  "choose_tier calc basis =
     rbind (matching_tiers (zip (td_tiers calc) [0..<length (td_tiers calc)]) basis) (\<lambda>ms.
       Inr (case sort_cmp tier_cmp ms of [] \<Rightarrow> None | m # _ \<Rightarrow> Some m))"

definition calculate_tier_award ::
    "runtime \<Rightarrow> tier_award \<Rightarrow> tiered_reward_input \<Rightarrow> tiered_calculation_spec \<Rightarrow> int \<Rightarrow> int res" where
  "calculate_tier_award rt award input calc scale =
     (let mode = ro_reward_rounding_mode (td_rounding calc);
          quantum = ro_eligible_spend_quantum_jpy (td_rounding calc)
      in case award of
        TA_fixed reward_units \<Rightarrow>
          rbind (parse_input (DStr reward_units) ''tier_fixed_reward_units'')
            (\<lambda>a. decimal_units rt a scale mode)
      | TA_percentage rate \<Rightarrow>
          rbind (spend_for_award input calc) (\<lambda>spend.
            case spend of
              None \<Rightarrow> Inl ''spend_amount_required_for_tier_percentage''
            | Some s \<Rightarrow>
                rbind (quantized_spend s quantum) (\<lambda>q.
                rbind (power10 scale) (\<lambda>p.
                  decimal_to_bigint
                    (dmul rt (ddiv rt (dmul rt (of_int q) (of_int rate)) 10000) (of_int p)) mode)))
      | TA_points_per_unit reward_units spend_jpy \<Rightarrow>
          rbind (spend_for_award input calc) (\<lambda>spend.
            case spend of
              None \<Rightarrow> Inl ''spend_amount_required_for_tier_points''
            | Some s \<Rightarrow>
                if \<not> is_safe_integer spend_jpy \<or> number_int spend_jpy < 1 then
                  Inl ''invalid_tier_spend_unit''
                else
                  rbind (quantized_spend s quantum) (\<lambda>q.
                  rbind (parse_input (DStr reward_units) ''tier_points_reward_units'') (\<lambda>r.
                  rbind (power10 scale) (\<lambda>p.
                    decimal_to_bigint
                      (dmul rt (dmul rt (of_int (q div number_int spend_jpy)) r) (of_int p)) mode)))))"

definition with_tier ::
    "tiered_calculation_spec \<Rightarrow> json option \<Rightarrow> nat option \<Rightarrow> reward_calculation_result \<Rightarrow>
     tiered_calculation_result" where
  "with_tier calc basis index r =
     reward_calculation_result.extend r
       (tiered_calculation_result.fields (td_source calc) (td_key calc) basis index)"

definition evaluate_tiered_reward ::
    "runtime \<Rightarrow> tiered_calculation_spec \<Rightarrow> tiered_reward_input \<Rightarrow> tiered_calculation_result res" where
  "evaluate_tiered_reward rt calc input =
     rbind (valid_scale (tri_asset_scale input)) (\<lambda>scale.
       case tri_basis_value input of
         None \<Rightarrow> Inr (with_tier calc None None
           (calc_rejected ''tier_basis_required'' ''tier calculation requires an explicit basis value'' scale))
       | Some basis \<Rightarrow>
           rbind (choose_tier calc basis) (\<lambda>selected.
             case selected of
               None \<Rightarrow>
                 rmap (with_tier calc (Some basis) None)
                   (calc_result rt CS_not_eligible (Some 0) scale
                     [\<lparr>cc_code = ''no_tier_match'',
                       cc_message = ''explicit tier basis does not match any tier''\<rparr>])
             | Some (t, index) \<Rightarrow>
                 (case rbind (calculate_tier_award rt (ti_award t) input calc scale)
                         (\<lambda>u. calc_result rt CS_applied (Some u) scale []) of
                    Inr r \<Rightarrow> Inr (with_tier calc (Some basis) (Some index) r)
                  | Inl e \<Rightarrow> Inr (with_tier calc (Some basis) (Some index)
                      (calc_rejected ''tier_award_invalid'' e scale)))))"

section \<open>Multipliers\<close>

definition parse_base_units :: "decimal_input \<Rightarrow> int res" where
  "parse_base_units value =
     (case value of
        DBig n \<Rightarrow> if n < 0 then Inl ''negative_base_units'' else Inr n
      | DNum n \<Rightarrow>
          if \<not> is_safe_integer n \<or> number_int n < 0 then Inl ''invalid_base_units''
          else Inr (number_int n)
      | DStr t \<Rightarrow> if is_int_text t then Inr (int (nat_value t)) else Inl ''invalid_base_units'')"

definition calculate_multiplier_units ::
    "runtime \<Rightarrow> multiplier_calculation_spec \<Rightarrow> decimal_input \<Rightarrow> int res" where
  "calculate_multiplier_units rt calc base_units =
     (if \<not> is_safe_integer (mu_multiplier_milli calc) \<or> number_int (mu_multiplier_milli calc) < 0
      then Inl ''invalid_multiplier_milli''
      else rbind (parse_base_units base_units) (\<lambda>base.
        rbind (round_decimal
            (ddiv rt (dmul rt (of_int base) (of_int (number_int (mu_multiplier_milli calc)))) 1000)
            (ro_reward_rounding_mode (mu_rounding calc)))
          (\<lambda>raw. decimal_to_bigint raw RM_exact)))"

definition with_multiplier ::
    "int option \<Rightarrow> int option \<Rightarrow> int option \<Rightarrow> output_mode \<Rightarrow> reward_calculation_result \<Rightarrow>
     multiplier_calculation_result" where
  "with_multiplier base multiplied increment mode r =
     reward_calculation_result.extend r
       (multiplier_calculation_result.fields base multiplied increment mode)"

definition evaluate_multiplier_reward ::
    "runtime \<Rightarrow> multiplier_calculation_spec \<Rightarrow> multiplier_reward_input \<Rightarrow>
     multiplier_calculation_result res" where
  "evaluate_multiplier_reward rt calc input =
     rbind (valid_scale (mi_asset_scale input)) (\<lambda>scale.
       let mode = default_to OM_total (mi_output_mode input)
       in case mi_base_units input of
            None \<Rightarrow> Inr (with_multiplier None None None mode
              (calc_rejected ''base_reward_required'' ''multiplier requires explicit prior base units'' scale))
          | Some base \<Rightarrow>
              (let readable = (case parse_base_units base of Inr n \<Rightarrow> Some n | Inl _ \<Rightarrow> None)
               in case rbind (parse_base_units base) (\<lambda>parsed.
                       rbind (calculate_multiplier_units rt calc (DBig parsed)) (\<lambda>multiplied.
                       let increment = multiplied - parsed;
                           output = (case mode of OM_increment \<Rightarrow> increment | OM_total \<Rightarrow> multiplied)
                       in rmap (with_multiplier (Some parsed) (Some multiplied) (Some increment) mode)
                            (calc_result rt CS_applied (Some output) scale []))) of
                    Inr r \<Rightarrow> Inr r
                  | Inl e \<Rightarrow> Inr (with_multiplier readable None None mode
                      (calc_rejected ''multiplier_invalid'' e scale))))"

section \<open>Lemmas\<close>

lemma with_fixed_sel [simp]:
  "rcr_status (with_fixed r t b) = rcr_status r" "rcr_units (with_fixed r t b) = rcr_units r"
  "rcr_amount (with_fixed r t b) = rcr_amount r" "rcr_conditions (with_fixed r t b) = rcr_conditions r"
  by (cases r; simp add: with_fixed_def reward_calculation_result.defs fixed_calculation_result.defs)+

lemma with_tier_sel [simp]:
  "rcr_status (with_tier c v i r) = rcr_status r" "rcr_units (with_tier c v i r) = rcr_units r"
  "rcr_amount (with_tier c v i r) = rcr_amount r" "tr_matched_tier_index (with_tier c v i r) = i"
  by (cases r; simp add: with_tier_def reward_calculation_result.defs tiered_calculation_result.defs)+

lemma with_multiplier_sel [simp]:
  "rcr_status (with_multiplier b m i k r) = rcr_status r" "rcr_units (with_multiplier b m i k r) = rcr_units r"
  "rcr_amount (with_multiplier b m i k r) = rcr_amount r"
  "rcr_conditions (with_multiplier b m i k r) = rcr_conditions r"
  "mr_base_units (with_multiplier b m i k r) = b" "mr_multiplied_units (with_multiplier b m i k r) = m"
  "mr_increment_units (with_multiplier b m i k r) = i"
  by (cases r; simp add: with_multiplier_def reward_calculation_result.defs multiplier_calculation_result.defs)+

lemma calc_rejected_sel [simp]:
  "rcr_status (calc_rejected c m s) = CS_rejected" "rcr_units (calc_rejected c m s) = None"
  "rcr_conditions (calc_rejected c m s) = [\<lparr>cc_code = c, cc_message = m\<rparr>]"
  by (simp_all add: calc_rejected_def)

lemma relabel_Inr_iff [res_simps]: "relabel l m = Inr x \<longleftrightarrow> m = Inr x"
  by (cases m) (simp_all add: relabel_def)

lemma parse_input_nonneg: "parse_input v l = Inr q \<Longrightarrow> 0 \<le> q"
  using text_value_nonneg
  by (auto simp: parse_input_def res_simps split: decimal_input.splits if_splits)

lemma parse_input_DStr [simp]:
  "is_decimal_text t \<Longrightarrow> parse_input (DStr t) l = Inr (text_value t)"
  by (simp add: parse_input_def decimal_string_def relabel_def)

lemma parse_input_DBig [simp]: "0 \<le> n \<Longrightarrow> parse_input (DBig n) l = Inr (of_int n)"
  by (cases n) (simp_all add: parse_input_def decimal_string_def relabel_def int_text_def decimal_nat_text)

lemma parse_input_numeral [simp]:
  "safe_int (numeral k) \<Longrightarrow> parse_input (DNum (Finite (numeral k))) l = Inr (numeral k)"
  by (simp add: parse_input_def decimal_string_def relabel_def int_text_def decimal_nat_text)

lemma valid_scale_Inr_iff [res_simps]:
  "valid_scale s = Inr n \<longleftrightarrow> n = default_to 0 s \<and> 0 \<le> n \<and> n \<le> 18"
  by (auto simp: valid_scale_def Let_def)

lemma calc_result_Some:
  "amount_from_units rt u s = Inr a \<Longrightarrow>
   calc_result rt st (Some u) s cs =
     Inr \<lparr>rcr_status = st, rcr_units = Some u, rcr_amount = Some a, rcr_asset_scale = s, rcr_conditions = cs\<rparr>"
  by (simp add: calc_result_def)

lemma calc_result_negative: "u < 0 \<Longrightarrow> calc_result rt st (Some u) s cs = Inl ''negative_units''"
  by (simp add: calc_result_def amount_from_units_def rmap_def)

lemma max_decimal_le_iff:
  "(\<forall>t. max_decimal a b = Some t \<longrightarrow> t \<le> x) \<longleftrightarrow> (\<forall>t. a = Some t \<or> b = Some t \<longrightarrow> t \<le> x)"
  by (auto simp: max_decimal_def split: option.splits)

lemma max_decimal_None_iff: "max_decimal a b = None \<longleftrightarrow> a = None \<and> b = None"
  by (auto simp: max_decimal_def split: option.splits)

text \<open>The outcome of a fixed award with readable inputs.\<close>

lemma evaluate_fixed_reward_cases:
  assumes scale: "valid_scale (fi_asset_scale input) = Inr scale"
    and basis: "parse_optional_input (orelse (fi_eligible_amount_jpy input) (fi_transaction_amount_jpy input))
      ''eligible_amount_jpy'' = Inr basis"
    and min: "parse_optional_input (fi_minimum_amount_jpy input) ''minimum_amount_jpy'' = Inr minimum"
    and ex: "parse_optional_input (fi_threshold_jpy input) ''threshold_jpy'' = Inr explicit"
    and units: "calculate_fixed_units rt calc scale = Inr u" "amount_from_units rt u scale = Inr a"
    and zero: "amount_from_units rt 0 scale = Inr z"
  defines "common \<equiv> (\<lambda>r. with_fixed r (map_option (canonical_decimal rt) (max_decimal minimum explicit))
      (map_option (canonical_decimal rt) basis))"
  shows "\<exists>r. evaluate_fixed_reward rt calc input = Inr (common r) \<and>
    (case max_decimal minimum explicit of
       None \<Rightarrow> rcr_status r = CS_applied \<and> rcr_units r = Some u \<and> rcr_amount r = Some a
     | Some t \<Rightarrow> (case basis of
         None \<Rightarrow> rcr_status r = CS_rejected \<and> rcr_units r = None
       | Some b \<Rightarrow> if b < t then rcr_status r = CS_not_eligible \<and> rcr_units r = Some 0
                   else rcr_status r = CS_applied \<and> rcr_units r = Some u \<and> rcr_amount r = Some a))"
  unfolding evaluate_fixed_reward_def scale basis min ex units rbind_simps Let_def common_def
    calc_result_Some [OF units(2)] calc_result_Some [OF zero] rmap_simps sum.case
  by (auto split: option.splits)

text \<open>A fixed award is applied exactly when the amount reaches every threshold the caller
  gave (the schema's minimum and the alternative name alike); below a threshold it is a
  definite zero, and without an amount it is rejected rather than assumed.\<close>

theorem fixed_reward_outcome:
  assumes "decimal_text rt"
    and "valid_scale (fi_asset_scale input) = Inr scale"
    and "parse_optional_input (orelse (fi_eligible_amount_jpy input) (fi_transaction_amount_jpy input))
      ''eligible_amount_jpy'' = Inr basis"
    and "parse_optional_input (fi_minimum_amount_jpy input) ''minimum_amount_jpy'' = Inr minimum"
    and "parse_optional_input (fi_threshold_jpy input) ''threshold_jpy'' = Inr explicit"
    and "calculate_fixed_units rt calc scale = Inr u" "0 \<le> u" "u < int dec_limit"
  shows "\<exists>r. evaluate_fixed_reward rt calc input = Inr r \<and>
    (rcr_status r = CS_applied \<longleftrightarrow>
       (\<forall>t. minimum = Some t \<or> explicit = Some t \<longrightarrow> (\<exists>b. basis = Some b \<and> t \<le> b))) \<and>
    (rcr_status r = CS_not_eligible \<longleftrightarrow>
       (\<exists>b t. basis = Some b \<and> (minimum = Some t \<or> explicit = Some t) \<and> b < t)) \<and>
    rcr_units r = (case rcr_status r of CS_applied \<Rightarrow> Some u | CS_not_eligible \<Rightarrow> Some 0 | _ \<Rightarrow> None) \<and>
    (rcr_status r = CS_applied \<longrightarrow>
       (\<exists>a. rcr_amount r = Some a \<and> text_value a = of_int u / 10 ^ nat scale))"
proof -
  have s: "0 \<le> scale" "scale \<le> 18" using assms(2) by (auto simp: res_simps)
  let ?a = "trim_decimal (fixed_text (nat u) (nat scale))"
  have a: "amount_from_units rt u scale = Inr ?a"
    by (rule decimal_text.amount_from_units_eq [OF assms(1,7,8) s])
  have z: "amount_from_units rt 0 scale = Inr (trim_decimal (fixed_text (nat 0) (nat scale)))"
    by (rule decimal_text.amount_from_units_eq [OF assms(1) _ _ s]) (use assms in simp_all)
  have v: "text_value ?a = of_int u / 10 ^ nat scale"
    using assms(7) by (simp add: trim_fixed_text)
  from evaluate_fixed_reward_cases [OF assms(2-6) a z] obtain r where
    r: "evaluate_fixed_reward rt calc input = Inr (with_fixed r
          (map_option (canonical_decimal rt) (max_decimal minimum explicit)) (map_option (canonical_decimal rt) basis))"
    and c: "case max_decimal minimum explicit of
       None \<Rightarrow> rcr_status r = CS_applied \<and> rcr_units r = Some u \<and> rcr_amount r = Some ?a
     | Some t \<Rightarrow> (case basis of
         None \<Rightarrow> rcr_status r = CS_rejected \<and> rcr_units r = None
       | Some b \<Rightarrow> if b < t then rcr_status r = CS_not_eligible \<and> rcr_units r = Some 0
                   else rcr_status r = CS_applied \<and> rcr_units r = Some u \<and> rcr_amount r = Some ?a)"
    by blast
  show ?thesis
    by (rule exI, rule conjI [OF r])
      (use c v in \<open>auto simp: max_decimal_def split: option.splits if_splits\<close>)
qed


theorem fixed_reward_outcome_witness:
  "\<exists>r. evaluate_fixed_reward ref_rt
      \<lparr>fx_reward_units = ''250'', fx_rounding = \<lparr>ro_aggregation_scope = AS_per_operation,
         ro_eligible_spend_quantum_jpy = None, ro_reward_rounding_mode = RM_floor\<rparr>\<rparr>
      \<lparr>fi_eligible_amount_jpy = Some (DBig 1000), fi_transaction_amount_jpy = None,
       fi_minimum_amount_jpy = Some (DBig 1000), fi_threshold_jpy = Some (DBig 1001), fi_asset_scale = None\<rparr> = Inr r
    \<and> rcr_status r = CS_not_eligible \<and> rcr_units r = Some 0"
proof -
  let ?calc = "\<lparr>fx_reward_units = ''250'', fx_rounding = \<lparr>ro_aggregation_scope = AS_per_operation,
         ro_eligible_spend_quantum_jpy = None, ro_reward_rounding_mode = RM_floor\<rparr>\<rparr>"
  let ?input = "\<lparr>fi_eligible_amount_jpy = Some (DBig 1000), fi_transaction_amount_jpy = None,
       fi_minimum_amount_jpy = Some (DBig 1000), fi_threshold_jpy = Some (DBig 1001), fi_asset_scale = None\<rparr>"
  have p: "is_decimal_text ''250''" "text_value ''250'' = 250"
    by (code_simp, code_simp)
  have r: "rt_round ref_rt (250 * 1) = 250"
    using ref.round_exact [OF representable_small [of 250]] by simp
  have u: "calculate_fixed_units ref_rt ?calc 0 = Inr 250"
    using r p by (simp add: calculate_fixed_units_def valid_scale_def decimal_units_def power10_def
      dmul_def decimal_to_bigint_def)
  have "(250 :: int) < int dec_limit" by (simp add: dec_limit_def)
  from fixed_reward_outcome [OF ref.decimal_text_axioms, of ?input 0 "Some 1000" "Some 1000" "Some 1001" ?calc 250] u this
  obtain r where r: "evaluate_fixed_reward ref_rt ?calc ?input = Inr r"
    and ne: "rcr_status r = CS_not_eligible \<longleftrightarrow>
       (\<exists>b t. Some (1000 :: rat) = Some b \<and> (Some (1000 :: rat) = Some t \<or> Some (1001 :: rat) = Some t) \<and> b < t)"
    and units: "rcr_units r = (case rcr_status r of CS_applied \<Rightarrow> Some 250 | CS_not_eligible \<Rightarrow> Some 0 | _ \<Rightarrow> None)"
    by (auto simp: valid_scale_def parse_optional_input_def orelse_def)
  have "rcr_status r = CS_not_eligible" unfolding ne by auto
  with r units show ?thesis by auto
qed

section \<open>The chosen tier\<close>

text \<open>The order the sort of \<open>chooseTier\<close> realises on the tiers that match.\<close>

definition tier_bound :: "tier \<Rightarrow> rat" where
  "tier_bound t = default_to 0 (tier_lower_bound t)"

definition tier_rank_cmp :: "tier \<times> nat \<Rightarrow> tier \<times> nat \<Rightarrow> int" where
  "tier_rank_cmp =
     cmp_then (cmp_key (\<lambda>x. - tier_specificity (fst x)))
       (cmp_then (cmp_on (\<lambda>x. - tier_bound (fst x)) rat_cmp) (cmp_key (\<lambda>x. - int (snd x))))"

interpretation tier_rank: comparator tier_rank_cmp
  unfolding tier_rank_cmp_def by (intro comparator_then comparator_on comparator_key comparator_rat)

lemma tier_rank_le_iff:
  "tier_rank_cmp x y \<le> 0 \<longleftrightarrow>
     tier_specificity (fst y) < tier_specificity (fst x) \<or>
     tier_specificity (fst y) = tier_specificity (fst x) \<and>
       (tier_bound (fst y) < tier_bound (fst x) \<or> tier_bound (fst y) = tier_bound (fst x) \<and> snd y \<le> snd x)"
  by (auto simp: tier_rank_cmp_def cmp_then_def cmp_key_def cmp_on_def rat_cmp_def split: if_splits)

lemma matched_bound:
  assumes "tier_matches t basis = Inr True"
  shows "tier_lower_bound t = None \<longleftrightarrow> ti_operator t = TO_eq \<or> ti_operator t = TO_in"
  using assms
  by (cases "ti_operator t")
    (auto simp: tier_matches_def tier_lower_bound_def res_simps split: sum.splits)

lemma tier_specificity_eq_iff: "tier_specificity t = tier_specificity u \<longleftrightarrow> ti_operator t = ti_operator u"
  by (cases "ti_operator t"; cases "ti_operator u") (simp_all add: tier_specificity_def)

lemma tier_cmp_rank:
  assumes "tier_matches (fst x) basis = Inr True" "tier_matches (fst y) basis = Inr True"
  shows "tier_cmp x y \<le> 0 \<longleftrightarrow> tier_rank_cmp x y \<le> 0"
proof (cases "tier_specificity (fst x) = tier_specificity (fst y)")
  case True
  then have op: "ti_operator (fst x) = ti_operator (fst y)" by (simp add: tier_specificity_eq_iff)
  show ?thesis
    using True op matched_bound [OF assms(1)] matched_bound [OF assms(2)]
    unfolding tier_rank_le_iff tier_cmp_def Let_def tier_bound_def
    by (cases "tier_lower_bound (fst x)"; cases "tier_lower_bound (fst y)") auto
qed (auto simp: tier_rank_le_iff tier_cmp_def Let_def)

lemma matching_tiers_Inr:
  "matching_tiers ts basis = Inr ms \<Longrightarrow> set ms = {t \<in> set ts. tier_matches (fst t) basis = Inr True}"
  by (induction ts arbitrary: ms) (auto simp: res_simps split: if_splits)

lemma matching_tiers_total:
  "matching_tiers ts basis = Inr ms \<Longrightarrow> t \<in> set ts \<Longrightarrow> tier_matches (fst t) basis \<noteq> Inr True \<Longrightarrow>
   tier_matches (fst t) basis = Inr False"
  by (induction ts arbitrary: ms) (auto simp: res_simps)

text \<open>C33. The tier that is evaluated matches the basis and is the best match: more specific
  operators win, among equally specific ones the greatest lower bound, and among equal
  bounds the last declaration.  No tier is chosen exactly when none matches.\<close>

theorem chosen_tier_is_best:
  assumes "choose_tier calc basis = Inr selected"
  shows "case selected of
      None \<Rightarrow> \<forall>t\<in>set (td_tiers calc). tier_matches t basis = Inr False
    | Some (t, i) \<Rightarrow>
        i < length (td_tiers calc) \<and> td_tiers calc ! i = t \<and> tier_matches t basis = Inr True \<and>
        (\<forall>j<length (td_tiers calc). tier_matches (td_tiers calc ! j) basis = Inr True \<longrightarrow>
           (let u = td_tiers calc ! j in
            tier_specificity u < tier_specificity t \<or>
            tier_specificity u = tier_specificity t \<and>
              (tier_bound u < tier_bound t \<or> tier_bound u = tier_bound t \<and> j \<le> i)))"
proof -
  let ?ts = "td_tiers calc"
  let ?ix = "zip ?ts [0..<length ?ts]"
  obtain ms where m: "matching_tiers ?ix basis = Inr ms"
    and sel: "selected = (case sort_cmp tier_cmp ms of [] \<Rightarrow> None | m # _ \<Rightarrow> Some m)"
    using assms by (auto simp: choose_tier_def res_simps)
  have set_ms: "set ms = {t \<in> set ?ix. tier_matches (fst t) basis = Inr True}"
    by (rule matching_tiers_Inr [OF m])
  have sort: "sort_cmp tier_cmp ms = sort_cmp tier_rank_cmp ms"
    by (rule sort_cmp_cong) (use set_ms tier_cmp_rank in auto)
  have mem: "x \<in> set ?ix \<longleftrightarrow> snd x < length ?ts \<and> fst x = ?ts ! snd x" for x
    by (cases x) (auto simp: set_zip)
  show ?thesis
  proof (cases "ms = []")
    case True
    have "tier_matches t basis = Inr False" if "t \<in> set ?ts" for t
    proof -
      from that obtain i where i: "i < length ?ts" "t = ?ts ! i" by (auto simp: in_set_conv_nth)
      then have "(t, i) \<in> set ?ix" using mem [of "(t, i)"] by simp
      with True set_ms have "tier_matches t basis \<noteq> Inr True" by auto
      with matching_tiers_total [OF m \<open>(t, i) \<in> set ?ix\<close>] show ?thesis by simp
    qed
    with True sel show ?thesis by simp
  next
    case False
    then obtain t i rest where hd: "sort_cmp tier_rank_cmp ms = (t, i) # rest"
      by (metis list.exhaust sort_cmp_Nil_iff surj_pair)
    have "(t, i) \<in> set ms" using hd set_sort_cmp [of tier_rank_cmp ms] by auto
    moreover have "tier_rank_cmp (t, i) (?ts ! j, j) \<le> 0"
      if "j < length ?ts" "tier_matches (?ts ! j) basis = Inr True" for j
    proof -
      have "(?ts ! j, j) \<in> set ms" using that set_ms mem [of "(?ts ! j, j)"] by simp
      from tier_rank.hd_sort_cmp_least [OF this] show ?thesis by (simp add: hd)
    qed
    ultimately show ?thesis
      using sel set_ms mem [of "(t, i)"] unfolding sort hd by (auto simp: tier_rank_le_iff Let_def)
  qed
qed


definition sample_tiers :: tiered_calculation_spec where
  "sample_tiers = \<lparr>td_source = TB_transaction_amount, td_key = ''amount'',
     td_tiers = [\<lparr>ti_operator = TO_gte, ti_value = JNum (num 1000), ti_award = TA_fixed ''10''\<rparr>,
                 \<lparr>ti_operator = TO_gte, ti_value = JNum (num 5000), ti_award = TA_fixed ''60''\<rparr>,
                 \<lparr>ti_operator = TO_gte, ti_value = JNum (num 9000), ti_award = TA_fixed ''150''\<rparr>],
     td_rounding = \<lparr>ro_aggregation_scope = AS_per_operation, ro_eligible_spend_quantum_jpy = None,
       ro_reward_rounding_mode = RM_floor\<rparr>\<rparr>"

lemma sample_choice:
  "choose_tier sample_tiers (JNum (num 6000)) =
     Inr (Some (\<lparr>ti_operator = TO_gte, ti_value = JNum (num 5000), ti_award = TA_fixed ''60''\<rparr>, 1))"
  by (simp add: choose_tier_def sample_tiers_def upt_rec tier_matches_def numeric_value_def safe_int_def
      tier_cmp_def tier_specificity_def tier_lower_bound_def)

theorem chosen_tier_is_best_witness:
  "tier_matches (td_tiers sample_tiers ! 1) (JNum (num 6000)) = Inr True"
  using chosen_tier_is_best [OF sample_choice] by simp

section \<open>Multipliers in exact integer arithmetic\<close>

lemma round_then_exact:
  "rbind (round_decimal x mode) (\<lambda>raw. decimal_to_bigint raw RM_exact) = decimal_to_bigint x mode"
  by (cases mode) (simp_all add: round_decimal_def decimal_to_bigint_def)

context decimal_rounding begin

lemma multiplier_value:
  assumes "0 \<le> n" "0 \<le> m" "safe_int m" "n * m < int dec_limit" "mu_multiplier_milli calc = num m"
  shows "calculate_multiplier_units rt calc (DBig n) =
    decimal_to_bigint (of_int (n * m) / 1000) (ro_reward_rounding_mode (mu_rounding calc))"
proof -
  have nm: "0 \<le> n * m" using assms by simp
  have 1: "dmul rt (of_int n) (of_int m) = of_int (n * m)"
    using round_ratio [OF nm assms(4), of 0] by (simp add: dmul_def)
  have 2: "ddiv rt (of_int (n * m)) 1000 = of_int (n * m) / 1000"
    using round_ratio [OF nm assms(4), of 3] by (simp add: ddiv_def)
  show ?thesis
    unfolding calculate_multiplier_units_def assms(5) is_safe_integer_num number_int_num
    using assms(1-3) by (simp add: 1 2 round_then_exact parse_base_units_def del: of_int_mult)
qed

end

text \<open>A multiplier reports the multiplied total \<open>base * milli / 1000\<close> rounded as the rule
  says and the increment over the base; in increment mode a multiplier below one is rejected
  instead of producing a negative reward.\<close>

theorem multiplier_total_and_increment:
  assumes "decimal_text rt" "valid_scale (mi_asset_scale input) = Inr s"
    and "mi_base_units input = Some b" "parse_base_units b = Inr n"
    and "mu_multiplier_milli calc = num m" "0 \<le> m" "safe_int m" "0 \<le> n" "n * m < int dec_limit"
    and "decimal_to_bigint (of_int (n * m) / 1000) (ro_reward_rounding_mode (mu_rounding calc)) = Inr t"
  shows "\<exists>r. evaluate_multiplier_reward rt calc input = Inr r \<and> mr_base_units r = Some n \<and>
    (if default_to OM_total (mi_output_mode input) = OM_increment \<and> t < n
     then rcr_status r = CS_rejected \<and> rcr_units r = None \<and> mr_increment_units r = None
     else rcr_status r = CS_applied \<and> mr_multiplied_units r = Some t \<and> mr_increment_units r = Some (t - n) \<and>
       rcr_units r = Some (case default_to OM_total (mi_output_mode input) of
         OM_total \<Rightarrow> t | OM_increment \<Rightarrow> t - n))"
proof -
  have s: "0 \<le> s" "s \<le> 18" using assms(2) by (auto simp: res_simps)
  have v: "calculate_multiplier_units rt calc (DBig n) = Inr t"
    using decimal_rounding.multiplier_value [OF decimal_text.axioms(1) [OF assms(1)] assms(8,6,7,9,5)] assms(10)
    by simp
  have nm: "0 \<le> n * m" using assms by simp
  have t0: "0 \<le> t" by (rule decimal_to_bigint_nonneg [OF assms(10)]) (use assms(6,8) in simp)
  have "of_int t < of_int (n * m) / (1000 :: rat) + 1"
    using decimal_to_bigint_Inr_close [OF assms(10)] by linarith
  then have "of_int t * 1000 < (of_int (n * m) + 1000 :: rat)" by linarith
  then have "t * 1000 < n * m + 1000" by linarith
  moreover have "1000 \<le> int dec_limit" by (simp add: dec_limit_def)
  ultimately have tl: "t < int dec_limit" using assms(9) by linarith
  define k where "k = default_to OM_total (mi_output_mode input)"
  define out where "out = (case k of OM_increment \<Rightarrow> t - n | OM_total \<Rightarrow> t)"
  show ?thesis
  proof (cases "out < 0")
    case True
    then have "k = OM_increment \<and> t < n" using t0 by (cases k) (simp_all add: out_def)
    with True show ?thesis
      unfolding evaluate_multiplier_reward_def assms(2,3,4) rbind_simps Let_def k_def [symmetric] v out_def [symmetric]
        option.case calc_result_negative [OF True]
      by (simp add: rmap_def)
  next
    case False
    have ol: "out < int dec_limit" using tl assms(8) by (cases k) (simp_all add: out_def)
    obtain a where "amount_from_units rt out s = Inr a"
      using decimal_text.amount_from_units_eq [OF assms(1) _ ol s] False by auto
    from calc_result_Some [OF this] False show ?thesis
      unfolding evaluate_multiplier_reward_def assms(2,3,4) rbind_simps Let_def k_def [symmetric] v out_def [symmetric]
        option.case
      by (cases k) (auto simp: out_def)
  qed
qed

theorem multiplier_total_and_increment_witness:
  "\<exists>r. evaluate_multiplier_reward ref_rt
     \<lparr>mu_multiplier_milli = num 500, mu_rounding = \<lparr>ro_aggregation_scope = AS_per_operation,
        ro_eligible_spend_quantum_jpy = None, ro_reward_rounding_mode = RM_floor\<rparr>\<rparr>
     \<lparr>mi_base_units = Some (DBig 6), mi_asset_scale = None, mi_output_mode = Some OM_increment\<rparr> = Inr r
   \<and> rcr_status r = CS_rejected"
proof -
  let ?calc = "\<lparr>mu_multiplier_milli = num 500, mu_rounding = \<lparr>ro_aggregation_scope = AS_per_operation,
        ro_eligible_spend_quantum_jpy = None, ro_reward_rounding_mode = RM_floor\<rparr>\<rparr>"
  let ?input = "\<lparr>mi_base_units = Some (DBig 6), mi_asset_scale = None, mi_output_mode = Some OM_increment\<rparr>"
  have "(6 :: int) * 500 < int dec_limit" by (simp add: dec_limit_def)
  then have "\<exists>r. evaluate_multiplier_reward ref_rt ?calc ?input = Inr r \<and> mr_base_units r = Some 6 \<and>
    (if default_to OM_total (mi_output_mode ?input) = OM_increment \<and> (3 :: int) < 6
     then rcr_status r = CS_rejected \<and> rcr_units r = None \<and> mr_increment_units r = None
     else rcr_status r = CS_applied \<and> mr_multiplied_units r = Some 3 \<and> mr_increment_units r = Some (3 - 6) \<and>
       rcr_units r = Some (case default_to OM_total (mi_output_mode ?input) of
         OM_total \<Rightarrow> 3 | OM_increment \<Rightarrow> 3 - 6))"
    by (intro multiplier_total_and_increment [OF ref.decimal_text_axioms, where s = 0 and b = "DBig 6" and m = 500])
      (simp_all add: valid_scale_def parse_base_units_def safe_int_def decimal_to_bigint_def)
  then show ?thesis by auto
qed

end
