(* ===== verification/Transfers.thy ===== *)
theory Transfers
  imports Calculations
begin

text \<open>
  Asset transfers (\<open>packages/rule-engine/src/m1b-calculations.ts\<close>, second half): the
  constraints of a transfer rule, its limits, cancellation, conversion at the ratio, and
  the two cycle checks, the one on a request's path and the depth-first search on a
  whole transfer graph.
\<close>

section \<open>State\<close>

datatype maximum_period = MP_day | MP_month | MP_year | MP_campaign_period | MP_lifetime

datatype cancellation_policy =
  CN_not_cancelable | CN_cancelable_before_posting | CN_provider_defined | CN_unknown

record transfer_calculation_spec =
  ts_source_asset :: asset_ref
  ts_destination_asset :: asset_ref
  ts_source_units :: string
  ts_destination_units :: string
  ts_minimum_source_units :: "string option"
  ts_increment_source_units :: "string option"
  ts_maximum_source_units_per_request :: "string option"
  ts_maximum_source_units_per_period :: "string option"
  ts_maximum_period :: "maximum_period option"
  ts_fee :: "quantity option"
  ts_rounding :: rounding
  ts_cancellation_policy :: cancellation_policy

record transfer_calculation_input =
  tx_source_amount :: "decimal_input option"
  tx_source_units :: "decimal_input option"
  tx_period_source_used :: "decimal_input option"
  tx_visited_asset_ids :: "string list option"
  tx_cycle_path_asset_ids :: "string list option"
  tx_posting :: "settlement js_opt"
  tx_cancel_requested :: "bool option"
  tx_posted :: "bool option"

datatype cancellation_status = CX_cancelled | CX_rejected | CX_conditional

record transfer_cancellation_result =
  cx_status :: cancellation_status
  cx_reason_code :: string
  cx_message :: string

datatype transfer_status = TS_applied | TS_rejected | TS_conditional | TS_cancelled

record transfer_calculation_result =
  tc_status :: transfer_status
  tc_source_amount :: "string option"
  tc_destination_amount :: "string option"
  tc_source_asset :: asset_ref
  tc_destination_asset :: asset_ref
  tc_fee :: "quantity option"
  tc_posting :: "settlement option"
  tc_cancellation :: "transfer_cancellation_result option"
  tc_conditions :: "calculation_condition list"
  tc_reason_code :: "string option"

section \<open>Cycles\<close>

fun path_repeats :: "string \<Rightarrow> string \<Rightarrow> string set \<Rightarrow> string list \<Rightarrow> bool" where
  "path_repeats src dst seen [] = False"
| "path_repeats src dst seen (a # as) =
     (if a \<in> seen then True
      else if a = src \<or> a = dst then True
      else path_repeats src dst (insert a seen) as)"

definition transfer_cycle :: "string \<Rightarrow> string \<Rightarrow> string list \<Rightarrow> bool" where
  "transfer_cycle src dst visited = (if src = dst then True else path_repeats src dst {} visited)"

type_synonym adjacency = "(string, string list) omap"

text \<open>The adjacency lists, or \<open>None\<close> as soon as an edge leads to its own source.\<close>

fun build_adjacency :: "(string \<times> string) list \<Rightarrow> adjacency \<Rightarrow> adjacency option" where
  "build_adjacency [] adj = Some adj"
| "build_adjacency ((src, dst) # edges) adj =
     (if src = dst then None
      else build_adjacency edges (om_set src (default_to [] (om_get adj src) @ [dst]) adj))"

text \<open>
  The depth-first search: \<open>visit\<close> answers \<open>None\<close> where the code returns \<open>true\<close> and
  otherwise the \<open>visited\<close> set it leaves.  The code removes a node from \<open>visiting\<close>
  when it returns \<open>false\<close>, so \<open>visiting\<close> is the set of the callers.
\<close>

function visit :: "adjacency \<Rightarrow> string set \<Rightarrow> string set \<Rightarrow> string \<Rightarrow> string set option"
  and visit_all :: "adjacency \<Rightarrow> string set \<Rightarrow> string set \<Rightarrow> string list \<Rightarrow> string set option" where
  "visit adj visiting visited node =
     (if node \<in> visiting then None
      else if node \<in> visited then Some visited
      else case visit_all adj (insert node visiting) visited (default_to [] (om_get adj node)) of
             None \<Rightarrow> None
           | Some visited' \<Rightarrow> Some (insert node visited'))"
| "visit_all adj visiting visited [] = Some visited"
| "visit_all adj visiting visited (d # ds) =
     (case visit adj visiting visited d of
        None \<Rightarrow> None
      | Some visited' \<Rightarrow> visit_all adj visiting visited' ds)"
  by pat_completeness auto

definition visit_measure ::
    "(adjacency \<times> string set \<times> string set \<times> string) +
     (adjacency \<times> string set \<times> string set \<times> string list) \<Rightarrow> nat \<times> nat" where
  "visit_measure x =
     (case x of
        Inl (adj, visiting, _, _) \<Rightarrow> (card (fst ` set adj - visiting), 1)
      | Inr (adj, visiting, _, ds) \<Rightarrow> (card (fst ` set adj - visiting), 2 * length ds))"

lemma visiting_decreases:
  fixes node :: string
  assumes "node \<notin> visiting" "om_get adj node \<noteq> None"
  shows "card (fst ` set adj - insert node visiting) < card (fst ` set adj - visiting)"
proof (rule psubset_card_mono)
  have "node \<in> fst ` set adj" using assms(2) by (simp add: map_of_eq_None_iff)
  then show "fst ` set adj - insert node visiting \<subset> fst ` set adj - visiting" using assms(1) by auto
qed simp

termination visit
proof (relation "inv_image (less_than <*lex*> less_than) visit_measure")
  fix adj :: adjacency and visiting visited :: "string set" and node :: string
  assume n: "node \<notin> visiting"
  show "(Inr (adj, insert node visiting, visited, default_to [] (om_get adj node)),
         Inl (adj, visiting, visited, node)) \<in> inv_image (less_than <*lex*> less_than) visit_measure"
  proof (cases "om_get adj node")
    case None
    then have "node \<notin> fst ` set adj" by (simp add: map_of_eq_None_iff)
    then have "fst ` set adj - insert node visiting = fst ` set adj - visiting" by auto
    with None show ?thesis by (simp add: visit_measure_def)
  next
    case (Some ds)
    with visiting_decreases [OF n, of adj] show ?thesis by (simp add: visit_measure_def)
  qed
qed (auto simp: visit_measure_def)

declare visit.simps [simp del]

definition has_transfer_cycle :: "(string \<times> string) list \<Rightarrow> bool" where
  "has_transfer_cycle edges =
     (case build_adjacency edges [] of
        None \<Rightarrow> True
      | Some adj \<Rightarrow> visit_all adj {} {} (map fst adj) = None)"

section \<open>Cancellation\<close>

definition is_posted :: "transfer_calculation_input \<Rightarrow> bool" where
  "is_posted input \<longleftrightarrow>
     tx_posted input = Some True \<or>
     (case nullish (tx_posting input) of
        None \<Rightarrow> False
      | Some s \<Rightarrow> se_status s = SS_posted \<or> se_status s = SS_available)"

definition cancellation_for ::
    "transfer_calculation_spec \<Rightarrow> transfer_calculation_input \<Rightarrow> transfer_cancellation_result option" where
  "cancellation_for calc input =
     (if tx_cancel_requested input \<noteq> Some True then None
      else if tx_posted input = None \<and> tx_posting input = Undefined then
        Some \<lparr>cx_status = CX_conditional, cx_reason_code = ''posting_state_required'',
          cx_message = ''cancellation requires an explicit posted or pending state''\<rparr>
      else case ts_cancellation_policy calc of
        CN_cancelable_before_posting \<Rightarrow>
          if is_posted input then
            Some \<lparr>cx_status = CX_rejected, cx_reason_code = ''already_posted'',
              cx_message = ''a posted transfer cannot be cancelled before posting''\<rparr>
          else
            Some \<lparr>cx_status = CX_cancelled, cx_reason_code = ''cancelled_before_posting'',
              cx_message = ''transfer cancelled before posting''\<rparr>
      | CN_not_cancelable \<Rightarrow>
          Some \<lparr>cx_status = CX_rejected, cx_reason_code = ''transfer_not_cancelable'',
            cx_message = ''transfer cancellation is not permitted by the rule''\<rparr>
      | _ \<Rightarrow>
          Some \<lparr>cx_status = CX_conditional, cx_reason_code = ''cancellation_provider_defined'',
            cx_message = ''transfer cancellation depends on provider-defined state''\<rparr>)"

section \<open>Evaluation\<close>

record transfer_limits =
  lm_minimum :: "rat option"
  lm_increment :: "rat option"
  lm_request_maximum :: "rat option"
  lm_period_maximum :: "rat option"
  lm_ratio_source :: rat
  lm_ratio_destination :: rat

definition transfer_source :: "transfer_calculation_input \<Rightarrow> rat option" where
  "transfer_source input =
     (case orelse (tx_source_amount input) (tx_source_units input) of
        None \<Rightarrow> None
      | Some raw \<Rightarrow>
          (case parse_input raw ''transfer_source_amount'' of Inr q \<Rightarrow> Some q | Inl _ \<Rightarrow> None))"

definition parse_optional_text :: "string option \<Rightarrow> string \<Rightarrow> rat option res" where
  "parse_optional_text t label = parse_optional_input (map_option DStr t) label"

definition transfer_constraints :: "transfer_calculation_spec \<Rightarrow> transfer_limits res" where
  "transfer_constraints calc =
     rbind (parse_optional_text (ts_minimum_source_units calc) ''transfer_minimum'') (\<lambda>minimum.
     rbind (parse_optional_text (ts_increment_source_units calc) ''transfer_increment'') (\<lambda>increment.
     rbind (parse_optional_text (ts_maximum_source_units_per_request calc) ''transfer_request_maximum'')
       (\<lambda>request_maximum.
     rbind (parse_optional_text (ts_maximum_source_units_per_period calc) ''transfer_period_maximum'')
       (\<lambda>period_maximum.
     rbind (parse_input (DStr (ts_source_units calc)) ''transfer_ratio_source'') (\<lambda>ratio_source.
     rbind (parse_input (DStr (ts_destination_units calc)) ''transfer_ratio_destination'')
       (\<lambda>ratio_destination.
       if ratio_source \<le> 0 \<or> ratio_destination < 0 then Inl ''invalid_transfer_ratio''
       else if (case minimum of None \<Rightarrow> False | Some m \<Rightarrow> m \<le> 0) then
         Inl ''transfer_minimum_must_be_positive''
       else if (case increment of None \<Rightarrow> False | Some i \<Rightarrow> i \<le> 0) then
         Inl ''transfer_increment_must_be_positive''
       else if (case (request_maximum, minimum) of (Some x, Some m) \<Rightarrow> x < m | _ \<Rightarrow> False) then
         Inl ''transfer_request_maximum_below_minimum''
       else Inr \<lparr>lm_minimum = minimum, lm_increment = increment,
         lm_request_maximum = request_maximum, lm_period_maximum = period_maximum,
         lm_ratio_source = ratio_source, lm_ratio_destination = ratio_destination\<rparr>))))))"

definition transfer_rejected ::
    "transfer_calculation_spec \<Rightarrow> transfer_status \<Rightarrow> string \<Rightarrow> string \<Rightarrow> string option \<Rightarrow>
     settlement option \<Rightarrow> transfer_cancellation_result option \<Rightarrow> transfer_calculation_result" where
  "transfer_rejected calc status reason_code message source_amount posting cancellation =
     \<lparr>tc_status = status, tc_source_amount = source_amount, tc_destination_amount = None,
      tc_source_asset = ts_source_asset calc, tc_destination_asset = ts_destination_asset calc,
      tc_fee = ts_fee calc, tc_posting = posting, tc_cancellation = cancellation,
      tc_conditions = [\<lparr>cc_code = reason_code, cc_message = message\<rparr>],
      tc_reason_code = Some reason_code\<rparr>"

text \<open>The first limit the request breaks: its outcome, reason and message.  Prior usage that is
  present but malformed throws.\<close>

definition steps_integral :: "runtime \<Rightarrow> rat \<Rightarrow> rat option \<Rightarrow> rat \<Rightarrow> bool" where
  "steps_integral rt source minimum increment =
     (let steps = ddiv rt (dsub rt source (default_to 0 minimum)) increment
      in steps = of_int \<lfloor>steps\<rfloor>)"

definition request_failure :: "runtime \<Rightarrow> transfer_limits \<Rightarrow> rat \<Rightarrow> (string \<times> string) option" where
  "request_failure rt limits source =
     (if (case lm_minimum limits of None \<Rightarrow> False | Some m \<Rightarrow> source < m) then
        Some (''below_transfer_minimum'', ''source amount is below the transfer minimum'')
      else if (case lm_increment limits of None \<Rightarrow> False
               | Some i \<Rightarrow> \<not> steps_integral rt source (lm_minimum limits) i) then
        Some (''transfer_increment_mismatch'', ''source amount is not aligned to the transfer increment'')
      else if (case lm_request_maximum limits of None \<Rightarrow> False | Some m \<Rightarrow> m < source) then
        Some (''transfer_request_maximum_exceeded'', ''source amount exceeds the per-request transfer maximum'')
      else None)"

definition period_failure ::
    "runtime \<Rightarrow> transfer_limits \<Rightarrow> transfer_calculation_input \<Rightarrow> rat \<Rightarrow>
     (transfer_status \<times> string \<times> string) option res" where
  "period_failure rt limits input source =
     (case lm_period_maximum limits of
        None \<Rightarrow> Inr None
      | Some period_maximum \<Rightarrow>
          rbind (parse_optional_input (tx_period_source_used input) ''transfer_period_usage'') (\<lambda>used.
            case used of
              None \<Rightarrow> Inr (Some (TS_conditional, ''transfer_period_usage_unknown'',
                ''period maximum exists but prior period usage was not supplied''))
            | Some u \<Rightarrow>
                if u < 0 then Inr (Some (TS_rejected, ''negative_transfer_period_usage'',
                  ''prior period usage cannot be negative''))
                else if period_maximum < dadd rt u source then
                  Inr (Some (TS_rejected, ''transfer_period_maximum_exceeded'',
                    ''source amount exceeds the remaining per-period transfer maximum''))
                else Inr None))"

definition transfer_conversion ::
    "runtime \<Rightarrow> transfer_calculation_spec \<Rightarrow> transfer_limits \<Rightarrow> rat \<Rightarrow> string res" where
  "transfer_conversion rt calc limits source =
     (let raw = ddiv rt (dmul rt source (lm_ratio_destination limits)) (lm_ratio_source limits);
          scale = ar_scale (ts_destination_asset calc)
      in rbind (power10 scale) (\<lambda>p.
         rbind (decimal_to_bigint (dmul rt raw (of_int p)) (ro_reward_rounding_mode (ts_rounding calc)))
           (\<lambda>units.
         rbind (amount_from_units rt units scale) (\<lambda>amount.
         rbind (case ts_fee calc of None \<Rightarrow> Inr ()
                | Some fee \<Rightarrow> rmap (\<lambda>_. ()) (parse_input (DStr (q_amount fee)) ''transfer_fee''))
           (\<lambda>_. Inr amount)))))"

definition cancellation_outcome :: "cancellation_status \<Rightarrow> transfer_status" where
  "cancellation_outcome s =
     (case s of CX_rejected \<Rightarrow> TS_rejected | CX_conditional \<Rightarrow> TS_conditional | CX_cancelled \<Rightarrow> TS_cancelled)"

definition evaluate_transfer ::
    "runtime \<Rightarrow> transfer_calculation_spec \<Rightarrow> transfer_calculation_input \<Rightarrow>
     transfer_calculation_result res" where
  "evaluate_transfer rt calc input =
     (let posting = nullish (tx_posting input);
          visited = default_to [] (orelse (tx_cycle_path_asset_ids input) (tx_visited_asset_ids input))
      in case transfer_source input of
        None \<Rightarrow> Inr (transfer_rejected calc TS_rejected ''source_amount_required''
          ''transfer requires an explicit non-negative source amount'' None posting None)
      | Some source \<Rightarrow>
          let source_text = Some (canonical_decimal rt source);
              reject = (\<lambda>status code message cancellation.
                transfer_rejected calc status code message source_text posting cancellation)
          in if transfer_cycle (ar_asset_id (ts_source_asset calc))
                  (ar_asset_id (ts_destination_asset calc)) visited then
            Inr (reject TS_rejected ''transfer_cycle_detected''
              ''directed transfer would revisit an asset and could manufacture unbounded value'' None)
          else case transfer_constraints calc of
            Inl e \<Rightarrow> Inr (reject TS_rejected ''invalid_transfer_constraints'' e None)
          | Inr limits \<Rightarrow>
              (case request_failure rt limits source of
                 Some (code, message) \<Rightarrow> Inr (reject TS_rejected code message None)
               | None \<Rightarrow>
                   rbind (period_failure rt limits input source) (\<lambda>failure.
                     case failure of
                       Some (status, code, message) \<Rightarrow> Inr (reject status code message None)
                     | None \<Rightarrow>
                         (case cancellation_for calc input of
                            Some c \<Rightarrow> Inr (reject (cancellation_outcome (cx_status c)) (cx_reason_code c)
                              (cx_message c) (Some c))
                          | None \<Rightarrow>
                              (case transfer_conversion rt calc limits source of
                                 Inl e \<Rightarrow> Inr (reject TS_rejected ''transfer_rounding_or_fee_invalid'' e None)
                               | Inr amount \<Rightarrow> Inr
                                   \<lparr>tc_status = TS_applied, tc_source_amount = source_text,
                                    tc_destination_amount = Some amount,
                                    tc_source_asset = ts_source_asset calc,
                                    tc_destination_asset = ts_destination_asset calc,
                                    tc_fee = ts_fee calc, tc_posting = posting, tc_cancellation = None,
                                    tc_conditions = [], tc_reason_code = None\<rparr>)))))"

section \<open>Cycle detection is exact\<close>

lemma path_repeats_iff:
  "path_repeats src dst seen as \<longleftrightarrow>
     \<not> distinct as \<or> set as \<inter> seen \<noteq> {} \<or> src \<in> set as \<or> dst \<in> set as"
  by (induction src dst seen as rule: path_repeats.induct) auto

lemma transfer_cycle_iff:
  "transfer_cycle src dst visited \<longleftrightarrow>
     src = dst \<or> \<not> distinct visited \<or> src \<in> set visited \<or> dst \<in> set visited"
  by (simp add: transfer_cycle_def path_repeats_iff)

definition adj_rel :: "adjacency \<Rightarrow> (string \<times> string) set" where
  "adj_rel adj = {(a, b). b \<in> set (default_to [] (om_get adj a))}"

lemma build_adjacency_rel:
  "build_adjacency edges adj = Some adj' \<Longrightarrow> adj_rel adj' = adj_rel adj \<union> set edges"
proof (induction edges adj rule: build_adjacency.induct)
  case (2 src dst edges adj)
  then have "adj_rel adj' = adj_rel (om_set src (default_to [] (om_get adj src) @ [dst]) adj) \<union> set edges"
    by (simp split: if_splits)
  also have "adj_rel (om_set src (default_to [] (om_get adj src) @ [dst]) adj) = insert (src, dst) (adj_rel adj)"
    by (auto simp: adj_rel_def om_get_set split: if_splits)
  finally show ?case by simp
qed (simp add: adj_rel_def)

lemma build_adjacency_None: "build_adjacency edges adj = None \<Longrightarrow> \<exists>a. (a, a) \<in> set edges"
  by (induction edges adj rule: build_adjacency.induct) (auto split: if_splits)

lemma visit_sound:
  "visit adj visiting visited node = None \<Longrightarrow> \<forall>v\<in>visiting. (v, node) \<in> (adj_rel adj)\<^sup>+ \<Longrightarrow>
     \<exists>x. (x, x) \<in> (adj_rel adj)\<^sup>+"
  "visit_all adj visiting visited ds = None \<Longrightarrow> \<forall>v\<in>visiting. \<forall>d\<in>set ds. (v, d) \<in> (adj_rel adj)\<^sup>+ \<Longrightarrow>
     \<exists>x. (x, x) \<in> (adj_rel adj)\<^sup>+"
proof (induction adj visiting visited node and adj visiting visited ds rule: visit_visit_all.induct)
  case (1 adj visiting visited node)
  show ?case
  proof (cases "node \<in> visiting")
    case True
    with 1(3) show ?thesis by blast
  next
    case False
    have e: "(node, d) \<in> adj_rel adj" if "d \<in> set (default_to [] (om_get adj node))" for d
      using that by (simp add: adj_rel_def)
    have nv: "node \<notin> visited" and n: "visit_all adj (insert node visiting) visited (default_to [] (om_get adj node)) = None"
      using 1(2) False by (auto simp: visit.simps [of adj visiting visited node] split: if_splits option.splits)
    have "\<forall>v\<in>insert node visiting. \<forall>d\<in>set (default_to [] (om_get adj node)). (v, d) \<in> (adj_rel adj)\<^sup>+"
      using 1(3) by (blast intro: e r_into_trancl trancl_into_trancl)
    with 1(1) [OF False nv n] show ?thesis by blast
  qed
next
  case (3 adj visiting visited d ds)
  then show ?case by (auto split: option.splits)
qed simp

lemma visit_complete:
  "visit adj visiting visited node = Some v' \<Longrightarrow> visited \<subseteq> Wellfounded.acc ((adj_rel adj)\<inverse>) \<Longrightarrow>
     v' \<subseteq> Wellfounded.acc ((adj_rel adj)\<inverse>) \<and> visited \<subseteq> v' \<and> node \<in> v'"
  "visit_all adj visiting visited ds = Some v' \<Longrightarrow> visited \<subseteq> Wellfounded.acc ((adj_rel adj)\<inverse>) \<Longrightarrow>
     v' \<subseteq> Wellfounded.acc ((adj_rel adj)\<inverse>) \<and> visited \<subseteq> v' \<and> set ds \<subseteq> v'"
proof (induction adj visiting visited node and adj visiting visited ds arbitrary: v' and v'
    rule: visit_visit_all.induct)
  case (1 adj visiting visited node)
  show ?case
  proof (cases "node \<in> visited")
    case True
    with 1 show ?thesis by (auto simp: visit.simps [of adj visiting visited node] split: if_splits)
  next
    case False
    then obtain w where nv: "node \<notin> visiting"
      and w: "visit_all adj (insert node visiting) visited (default_to [] (om_get adj node)) = Some w"
      and v: "v' = insert node w"
      using 1(2) by (auto simp: visit.simps [of adj visiting visited node] split: if_splits option.splits)
    from 1(1) [OF nv False w 1(3)]
    have ih: "w \<subseteq> Wellfounded.acc ((adj_rel adj)\<inverse>)" "visited \<subseteq> w" "set (default_to [] (om_get adj node)) \<subseteq> w"
      by blast+
    have "node \<in> Wellfounded.acc ((adj_rel adj)\<inverse>)"
      by (rule accI) (use ih in \<open>auto simp: adj_rel_def\<close>)
    with ih v show ?thesis by blast
  qed
next
  case (3 adj visiting visited d ds)
  then obtain w where w: "visit adj visiting visited d = Some w" "visit_all adj visiting w ds = Some v'"
    by (auto split: option.splits)
  from 3(1) [OF w(1) 3(4)] 3(2) [OF w] show ?case by auto
qed auto

lemma acc_not_cyclic: "x \<in> Wellfounded.acc (r\<inverse>) \<Longrightarrow> (x, x) \<notin> r\<^sup>+"
proof (induction x rule: acc_induct_rule)
  case (1 x)
  show ?case
  proof
    assume "(x, x) \<in> r\<^sup>+"
    then obtain y where y: "(x, y) \<in> r" "(y, x) \<in> r\<^sup>*" by (meson tranclD)
    then have "(y, y) \<in> r\<^sup>+" by (meson rtrancl_into_trancl1)
    with 1 y show False by blast
  qed
qed

text \<open>C12. \<open>hasTransferCycle\<close> terminates on every edge list and returns true exactly when the
  directed transfer graph has a cycle.\<close>

theorem has_transfer_cycle_iff:
  "has_transfer_cycle edges \<longleftrightarrow> (\<exists>x. (x, x) \<in> (set edges)\<^sup>+)"
proof (cases "build_adjacency edges []")
  case None
  with build_adjacency_None [OF None] show ?thesis
    by (auto simp: has_transfer_cycle_def)
next
  case (Some adj)
  have rel: "adj_rel adj = set edges"
    using build_adjacency_rel [OF Some] by (simp add: adj_rel_def)
  show ?thesis
  proof (cases "visit_all adj {} {} (map fst adj)")
    case None
    from visit_sound(2) [OF this] show ?thesis
      using Some None by (simp add: has_transfer_cycle_def rel)
  next
    case (Some v')
    from visit_complete(2) [OF this] have v': "set (map fst adj) \<subseteq> Wellfounded.acc ((adj_rel adj)\<inverse>)" by auto
    have "(x, x) \<notin> (set edges)\<^sup>+" for x
    proof
      assume c: "(x, x) \<in> (set edges)\<^sup>+"
      then obtain y where "(x, y) \<in> adj_rel adj" unfolding rel by (meson tranclD)
      then have "om_get adj x \<noteq> None" by (cases "om_get adj x") (simp_all add: adj_rel_def)
      then have "x \<in> set (map fst adj)" by (simp add: map_of_eq_None_iff)
      with v' have "x \<in> Wellfounded.acc ((adj_rel adj)\<inverse>)" by blast
      from acc_not_cyclic [OF this] c show False by (simp add: rel)
    qed
    with Some \<open>build_adjacency edges [] = Some adj\<close> show ?thesis by (simp add: has_transfer_cycle_def)
  qed
qed


section \<open>What an applied transfer guarantees\<close>

lemma transfer_rejected_sel [simp]:
  "tc_status (transfer_rejected calc st c m s p x) = st"
  "tc_destination_amount (transfer_rejected calc st c m s p x) = None"
  "tc_reason_code (transfer_rejected calc st c m s p x) = Some c"
  by (simp_all add: transfer_rejected_def)

lemma cancellation_outcome_not_applied [simp]: "cancellation_outcome s \<noteq> TS_applied"
  by (cases s) (simp_all add: cancellation_outcome_def)

lemma transfer_constraints_Inr:
  assumes "transfer_constraints calc = Inr limits"
  shows "0 < lm_ratio_source limits" "0 \<le> lm_ratio_destination limits"
    "\<And>m. lm_minimum limits = Some m \<Longrightarrow> 0 < m" "\<And>i. lm_increment limits = Some i \<Longrightarrow> 0 < i"
    "parse_optional_text (ts_minimum_source_units calc) ''transfer_minimum'' = Inr (lm_minimum limits)"
    "parse_optional_text (ts_increment_source_units calc) ''transfer_increment'' = Inr (lm_increment limits)"
    "parse_optional_text (ts_maximum_source_units_per_request calc) ''transfer_request_maximum'' =
       Inr (lm_request_maximum limits)"
    "parse_optional_text (ts_maximum_source_units_per_period calc) ''transfer_period_maximum'' =
       Inr (lm_period_maximum limits)"
    "parse_input (DStr (ts_source_units calc)) ''transfer_ratio_source'' = Inr (lm_ratio_source limits)"
    "parse_input (DStr (ts_destination_units calc)) ''transfer_ratio_destination'' =
       Inr (lm_ratio_destination limits)"
  using assms unfolding transfer_constraints_def
  by (auto simp: res_simps not_le split: if_splits option.splits)

lemma period_failure_not_applied: "period_failure rt limits input source \<noteq> Inr (Some (TS_applied, c, m))"
  by (auto simp: period_failure_def res_simps split: option.splits)

lemma evaluate_transfer_applied:
  assumes "evaluate_transfer rt calc input = Inr r" "tc_status r = TS_applied"
  obtains source limits amount where
    "transfer_source input = Some source"
    "\<not> transfer_cycle (ar_asset_id (ts_source_asset calc)) (ar_asset_id (ts_destination_asset calc))
       (default_to [] (orelse (tx_cycle_path_asset_ids input) (tx_visited_asset_ids input)))"
    "transfer_constraints calc = Inr limits" "request_failure rt limits source = None"
    "period_failure rt limits input source = Inr None" "cancellation_for calc input = None"
    "transfer_conversion rt calc limits source = Inr amount"
    "tc_source_amount r = Some (canonical_decimal rt source)" "tc_destination_amount r = Some amount"
    "tc_fee r = ts_fee calc"
proof -
  let ?path = "default_to [] (orelse (tx_cycle_path_asset_ids input) (tx_visited_asset_ids input))"
  note ev = assms(1) [unfolded evaluate_transfer_def Let_def]
  obtain source where s: "transfer_source input = Some source"
    using ev assms(2) by (cases "transfer_source input") auto
  have nc: "\<not> transfer_cycle (ar_asset_id (ts_source_asset calc)) (ar_asset_id (ts_destination_asset calc)) ?path"
    using ev assms(2) by (auto simp: s)
  obtain limits where c: "transfer_constraints calc = Inr limits"
    using ev assms(2) nc by (cases "transfer_constraints calc") (auto simp: s)
  have rf: "request_failure rt limits source = None"
    using ev assms(2) nc by (cases "request_failure rt limits source") (auto simp: s c)
  have pf: "period_failure rt limits input source = Inr None"
  proof (cases "period_failure rt limits input source")
    case (Inr f)
    show ?thesis
    proof (cases f)
      case (Some x)
      obtain st code message where "x = (st, code, message)" by (cases x)
      with Inr Some ev assms(2) nc rf show ?thesis by (auto simp: s c period_failure_not_applied)
    qed (use Inr in simp)
  qed (use ev nc rf in \<open>auto simp: s c\<close>)
  have cn: "cancellation_for calc input = None"
    using ev assms(2) nc rf pf by (cases "cancellation_for calc input") (auto simp: s c)
  obtain amount where a: "transfer_conversion rt calc limits source = Inr amount"
    using ev assms(2) nc rf pf cn by (cases "transfer_conversion rt calc limits source") (auto simp: s c)
  have "r = \<lparr>tc_status = TS_applied, tc_source_amount = Some (canonical_decimal rt source),
      tc_destination_amount = Some amount, tc_source_asset = ts_source_asset calc,
      tc_destination_asset = ts_destination_asset calc, tc_fee = ts_fee calc,
      tc_posting = nullish (tx_posting input), tc_cancellation = None, tc_conditions = [],
      tc_reason_code = None\<rparr>"
    using ev nc rf pf cn a by (simp add: s c)
  then show thesis by (intro that [OF s nc c rf pf cn a]) simp_all
qed

lemma request_failure_None_iff:
  "request_failure rt limits source = None \<longleftrightarrow>
     (\<forall>m. lm_minimum limits = Some m \<longrightarrow> m \<le> source) \<and>
     (\<forall>i. lm_increment limits = Some i \<longrightarrow> steps_integral rt source (lm_minimum limits) i) \<and>
     (\<forall>m. lm_request_maximum limits = Some m \<longrightarrow> source \<le> m)"
  by (auto simp: request_failure_def not_less split: option.splits)

lemma period_failure_None_iff:
  "period_failure rt limits input source = Inr None \<longleftrightarrow>
     (\<forall>m. lm_period_maximum limits = Some m \<longrightarrow>
       (\<exists>u. parse_optional_input (tx_period_source_used input) ''transfer_period_usage'' = Inr (Some u) \<and>
          0 \<le> u \<and> dadd rt u source \<le> m))"
  unfolding period_failure_def
  by (cases "lm_period_maximum limits";
      cases "parse_optional_input (tx_period_source_used input) ''transfer_period_usage''")
    (auto simp: not_less split: option.splits)

lemma cancellation_for_None_iff: "cancellation_for calc input = None \<longleftrightarrow> tx_cancel_requested input \<noteq> Some True"
  by (auto simp: cancellation_for_def split: cancellation_policy.splits)

text \<open>C27. A transfer is applied only when every guard of the rule holds: the path does not revisit
  an asset, the amount lies between the minimum and the request maximum and on the increment,
  known prior usage plus the amount stays within the period maximum, and no cancellation was
  requested.\<close>

theorem applied_transfer_respects_limits:
  assumes "evaluate_transfer rt calc input = Inr r" "tc_status r = TS_applied"
  shows "\<exists>source limits.
    transfer_source input = Some source \<and> transfer_constraints calc = Inr limits \<and>
    (let path = default_to [] (orelse (tx_cycle_path_asset_ids input) (tx_visited_asset_ids input));
         a = ar_asset_id (ts_source_asset calc); b = ar_asset_id (ts_destination_asset calc)
     in a \<noteq> b \<and> distinct path \<and> a \<notin> set path \<and> b \<notin> set path) \<and>
    (\<forall>m. lm_minimum limits = Some m \<longrightarrow> 0 < m \<and> m \<le> source) \<and>
    (\<forall>i. lm_increment limits = Some i \<longrightarrow> 0 < i \<and> steps_integral rt source (lm_minimum limits) i) \<and>
    (\<forall>m. lm_request_maximum limits = Some m \<longrightarrow> source \<le> m) \<and>
    (\<forall>m. lm_period_maximum limits = Some m \<longrightarrow>
       (\<exists>u. parse_optional_input (tx_period_source_used input) ''transfer_period_usage'' = Inr (Some u) \<and>
          dadd rt u source \<le> m)) \<and>
    tx_cancel_requested input \<noteq> Some True"
proof -
  from assms obtain source limits amount where t:
    "transfer_source input = Some source"
    "\<not> transfer_cycle (ar_asset_id (ts_source_asset calc)) (ar_asset_id (ts_destination_asset calc))
       (default_to [] (orelse (tx_cycle_path_asset_ids input) (tx_visited_asset_ids input)))"
    "transfer_constraints calc = Inr limits" "request_failure rt limits source = None"
    "period_failure rt limits input source = Inr None" "cancellation_for calc input = None"
    by (rule evaluate_transfer_applied)
  note c = transfer_constraints_Inr(3,4) [OF t(3)]
  show ?thesis
    using t(1,3) t(2) [unfolded transfer_cycle_iff] t(4) [unfolded request_failure_None_iff]
      t(5) [unfolded period_failure_None_iff] t(6) [unfolded cancellation_for_None_iff] c
    by (auto simp: Let_def)
qed

section \<open>Conversion at the ratio\<close>

context decimal_text begin

lemma transfer_conversion_floor:
  assumes "transfer_conversion rt calc limits source = Inr amount"
    and "ro_reward_rounding_mode (ts_rounding calc) = RM_floor"
    and "source = of_nat a / 10 ^ i" "lm_ratio_destination limits = of_nat b / 10 ^ j"
    and "lm_ratio_source limits = of_nat c / 10 ^ k" "0 < c"
    and "int (a * b * 10 ^ (k + 18)) < 10 ^ 119"
  shows "text_value amount * 10 ^ nat (ar_scale (ts_destination_asset calc)) =
    of_int \<lfloor>source * lm_ratio_destination limits / lm_ratio_source limits *
      10 ^ nat (ar_scale (ts_destination_asset calc))\<rfloor>"
proof -
  define scale where "scale = ar_scale (ts_destination_asset calc)"
  define s where "s = nat scale"
  define x where "x = source * lm_ratio_destination limits / lm_ratio_source limits"
  have scale: "0 \<le> scale" "scale \<le> 18" and
    u: "amount_from_units rt \<lfloor>dmul rt (ddiv rt (dmul rt source (lm_ratio_destination limits))
        (lm_ratio_source limits)) (10 ^ s)\<rfloor> scale = Inr amount"
    using assms(1,2) unfolding transfer_conversion_def Let_def
    by (auto simp: res_simps decimal_to_bigint_def scale_def s_def)
  have "a * b * 1 \<le> a * b * 10 ^ (k + 18)" by (intro mult_left_mono) simp_all
  then have "int (a * b) \<le> int (a * b * 10 ^ (k + 18))" by (simp only: mult_1_right of_nat_le_iff)
  also have "\<dots> < 10 ^ 119" by (rule assms(7))
  also have "(10 :: int) ^ 119 \<le> int dec_limit" by (simp add: dec_limit_def)
  finally have ab: "a * b < dec_limit" by (simp only: of_nat_less_iff)
  have p: "dmul rt source (lm_ratio_destination limits) = of_nat (a * b) / 10 ^ (i + j)"
    unfolding dmul_def assms(3,4)
    using round_exact [OF representable_div [OF ab, of "i + j"]] by (simp add: power_add)
  then have r: "ddiv rt (dmul rt source (lm_ratio_destination limits)) (lm_ratio_source limits) = rt_round rt x"
    by (simp add: ddiv_def x_def assms(3,4) power_add)
  have xs: "x * 10 ^ s = of_int (int (a * b * 10 ^ (k + s))) / of_int (int (c * 10 ^ (i + j)))"
    unfolding x_def assms(3,4,5) using assms(6) by (simp add: field_simps power_add)
  have "(10 :: nat) ^ (k + s) \<le> 10 ^ (k + 18)" using scale by (intro power_increasing) (simp_all add: s_def)
  then have "a * b * 10 ^ (k + s) \<le> a * b * 10 ^ (k + 18)" by (rule mult_le_mono2)
  then have "int (a * b * 10 ^ (k + s)) \<le> int (a * b * 10 ^ (k + 18))" by (simp only: of_nat_le_iff)
  with assms(7) have n: "int (a * b * 10 ^ (k + s)) < 10 ^ 119" by linarith
  have "\<lfloor>rt_round rt x * 10 ^ s\<rfloor> = int (a * b * 10 ^ (k + s)) div int (c * 10 ^ (i + j))"
    by (rule floor_round_shift [OF xs _ n]) (use assms(6) in simp_all)
  also have "\<dots> = \<lfloor>x * 10 ^ s\<rfloor>" unfolding xs by (simp only: floor_divide_of_int_eq)
  finally have fl: "\<lfloor>rt_round rt x * 10 ^ s\<rfloor> = \<lfloor>x * 10 ^ s\<rfloor>" .
  have x0: "0 \<le> x" unfolding x_def assms(3,4,5) by simp
  then have f0: "0 \<le> \<lfloor>x * 10 ^ s\<rfloor>" by simp
  have "int (a * b * 10 ^ (k + s)) div int (c * 10 ^ (i + j)) \<le> int (a * b * 10 ^ (k + s))"
    by (metis of_nat_le_iff zdiv_int div_le_dividend)
  then have "\<lfloor>x * 10 ^ s\<rfloor> < int dec_limit"
    unfolding xs floor_divide_of_int_eq using n by (simp add: dec_limit_def)
  from amount_from_units_eq [OF f0 this scale] u
  have "amount = trim_decimal (fixed_text (nat \<lfloor>x * 10 ^ s\<rfloor>) s)"
    unfolding r dmul_shift fl by (simp add: s_def)
  then show ?thesis
    using f0 unfolding scale_def [symmetric] s_def [symmetric] x_def [symmetric]
    by (simp add: trim_fixed_text)
qed

end


text \<open>An applied transfer with floor rounding pays exactly
  \<open>source * destination_units / source_units\<close> rounded down to a smallest unit of the
  destination asset: the 120-digit intermediate rounding never moves the result.\<close>

theorem applied_transfer_amount:
  assumes "decimal_text rt" "evaluate_transfer rt calc input = Inr r" "tc_status r = TS_applied"
    and "ro_reward_rounding_mode (ts_rounding calc) = RM_floor"
    and "transfer_source input = Some (of_nat a / 10 ^ i)"
    and "text_value (ts_destination_units calc) = of_nat b / 10 ^ j"
    and "text_value (ts_source_units calc) = of_nat c / 10 ^ k"
    and "int (a * b * 10 ^ (k + 18)) < 10 ^ 119"
  shows "\<exists>amount. tc_destination_amount r = Some amount \<and>
    text_value amount * 10 ^ nat (ar_scale (ts_destination_asset calc)) =
      of_int \<lfloor>(of_nat a / 10 ^ i) * text_value (ts_destination_units calc) / text_value (ts_source_units calc) *
        10 ^ nat (ar_scale (ts_destination_asset calc))\<rfloor>"
proof -
  from assms(2,3) obtain source limits amount where t:
    "transfer_source input = Some source" "transfer_constraints calc = Inr limits"
    "transfer_conversion rt calc limits source = Inr amount" "tc_destination_amount r = Some amount"
    by (rule evaluate_transfer_applied)
  have src: "source = of_nat a / 10 ^ i" using t(1) assms(5) by simp
  note c = transfer_constraints_Inr [OF t(2)]
  have ratio: "lm_ratio_source limits = text_value (ts_source_units calc)"
    "lm_ratio_destination limits = text_value (ts_destination_units calc)"
    using c(9,10) by (auto simp: parse_input_def res_simps)
  have "0 < c" using c(1) unfolding ratio assms(7) by (simp add: zero_less_divide_iff)
  from decimal_text.transfer_conversion_floor [OF assms(1) t(3) assms(4) src _ _ this assms(8), of j]
  show ?thesis using t(4) assms(6,7) src by (simp add: ratio)
qed

definition sample_asset :: "string \<Rightarrow> asset_ref" where
  "sample_asset a = \<lparr>ar_asset_id = a, ar_asset_kind = AK_reward_point, ar_program_id = None,
     ar_reward_class = None, ar_scale = 0\<rparr>"

definition sample_transfer :: transfer_calculation_spec where
  "sample_transfer = \<lparr>ts_source_asset = sample_asset ''points'', ts_destination_asset = sample_asset ''miles'',
     ts_source_units = ''3'', ts_destination_units = ''1'', ts_minimum_source_units = Some ''10'',
     ts_increment_source_units = None, ts_maximum_source_units_per_request = Some ''500'',
     ts_maximum_source_units_per_period = None, ts_maximum_period = None, ts_fee = None,
     ts_rounding = \<lparr>ro_aggregation_scope = AS_transfer_request, ro_eligible_spend_quantum_jpy = None,
       ro_reward_rounding_mode = RM_floor\<rparr>,
     ts_cancellation_policy = CN_unknown\<rparr>"

definition sample_request :: transfer_calculation_input where
  "sample_request = \<lparr>tx_source_amount = Some (DBig 100), tx_source_units = None,
     tx_period_source_used = None, tx_visited_asset_ids = Some [''cash''], tx_cycle_path_asset_ids = None,
     tx_posting = Undefined, tx_cancel_requested = None, tx_posted = None\<rparr>"

lemma sample_constraints:
  "transfer_constraints sample_transfer =
     Inr \<lparr>lm_minimum = Some 10, lm_increment = None, lm_request_maximum = Some 500,
       lm_period_maximum = None, lm_ratio_source = 3, lm_ratio_destination = 1\<rparr>"
proof -
  have v: "is_decimal_text ''3''" "text_value ''3'' = 3" "is_decimal_text ''1''" "text_value ''1'' = 1"
    "is_decimal_text ''10''" "text_value ''10'' = 10" "is_decimal_text ''500''" "text_value ''500'' = 500"
    by code_simp+
  show ?thesis
    by (simp add: transfer_constraints_def sample_transfer_def parse_optional_text_def
        parse_optional_input_def v)
qed

lemma sample_outcome:
  "\<exists>r. evaluate_transfer ref_rt sample_transfer sample_request = Inr r \<and> tc_status r = TS_applied"
proof -
  let ?limits = "\<lparr>lm_minimum = Some 10, lm_increment = None, lm_request_maximum = Some (500 :: rat),
       lm_period_maximum = None, lm_ratio_source = 3, lm_ratio_destination = 1\<rparr>"
  have fl: "decimal_to_bigint x (ro_reward_rounding_mode (ts_rounding sample_transfer)) = Inr \<lfloor>x\<rfloor>" for x
    by (simp add: decimal_to_bigint_def sample_transfer_def)
  have raw: "0 \<le> rt_round ref_rt (100 / 3)" "rt_round ref_rt (100 / 3) \<le> 34"
    using ref.round_ge [of 0 "100 / 3"] ref.round_le [of "100 / 3" 34] representable_small [of 34] by simp_all
  have e: "rt_round ref_rt 100 = 100" "rt_round ref_rt (rt_round ref_rt (100 / 3)) = rt_round ref_rt (100 / 3)"
    using ref.round_exact [OF representable_small [of 100]] ref.round_exact [OF ref.round_representable] by simp_all
  define u where "u = \<lfloor>rt_round ref_rt (100 / 3)\<rfloor>"
  have u: "0 \<le> u" "u \<le> 34" using raw unfolding u_def by linarith+
  then have "u < int dec_limit" by (simp add: dec_limit_def)
  from ref.amount_from_units_eq [OF u(1) this, of 0]
  obtain a where a: "amount_from_units ref_rt u 0 = Inr a" by auto
  have conv: "transfer_conversion ref_rt sample_transfer ?limits 100 = Inr a"
    unfolding transfer_conversion_def fl
    using a by (simp add: sample_transfer_def sample_asset_def dmul_def ddiv_def power10_def e u_def)
  have "evaluate_transfer ref_rt sample_transfer sample_request = Inr
    \<lparr>tc_status = TS_applied, tc_source_amount = Some (canonical_decimal ref_rt 100),
     tc_destination_amount = Some a, tc_source_asset = sample_asset ''points'',
     tc_destination_asset = sample_asset ''miles'', tc_fee = None, tc_posting = None,
     tc_cancellation = None, tc_conditions = [], tc_reason_code = None\<rparr>"
    unfolding evaluate_transfer_def sample_constraints
    by (simp add: Let_def sample_request_def transfer_source_def transfer_cycle_iff request_failure_def
        period_failure_def cancellation_for_def conv)
      (simp add: sample_transfer_def sample_asset_def)
  then show ?thesis by simp
qed

theorem applied_transfer_respects_limits_witness:
  "\<exists>source. transfer_source sample_request = Some source \<and> 10 \<le> source \<and> source \<le> 500"
proof -
  obtain r where "evaluate_transfer ref_rt sample_transfer sample_request = Inr r" "tc_status r = TS_applied"
    using sample_outcome by blast
  from applied_transfer_respects_limits [OF this] show ?thesis
    by (auto simp: sample_constraints)
qed

theorem applied_transfer_amount_witness:
  "\<exists>r amount. evaluate_transfer ref_rt sample_transfer sample_request = Inr r \<and>
     tc_destination_amount r = Some amount \<and> text_value amount = of_int \<lfloor>(100 :: rat) / 3\<rfloor>"
proof -
  obtain r where r: "evaluate_transfer ref_rt sample_transfer sample_request = Inr r" "tc_status r = TS_applied"
    using sample_outcome by blast
  have v: "text_value ''3'' = 3" "text_value ''1'' = 1" by code_simp+
  have "\<exists>amount. tc_destination_amount r = Some amount \<and>
    text_value amount * 10 ^ nat (ar_scale (ts_destination_asset sample_transfer)) =
      of_int \<lfloor>(of_nat 100 / 10 ^ 0) * text_value (ts_destination_units sample_transfer) /
        text_value (ts_source_units sample_transfer) * 10 ^ nat (ar_scale (ts_destination_asset sample_transfer))\<rfloor>"
    by (rule applied_transfer_amount [OF ref.decimal_text_axioms r, of 100 0 1 0 3 0])
      (simp_all add: sample_transfer_def sample_request_def transfer_source_def v)
  with r show ?thesis by (auto simp: sample_transfer_def sample_asset_def v)
qed

text \<open>C34. Malformed prior usage is not a rejected transfer: with a period maximum in force, a
  request that passes the earlier checks and carries an unreadable \<open>period_source_used\<close>
  makes the evaluation throw, while a missing one is a conditional outcome.\<close>

theorem period_usage_outcomes:
  assumes "transfer_source input = Some source" "transfer_constraints calc = Inr limits"
    and "\<not> transfer_cycle (ar_asset_id (ts_source_asset calc)) (ar_asset_id (ts_destination_asset calc))
       (default_to [] (orelse (tx_cycle_path_asset_ids input) (tx_visited_asset_ids input)))"
    and "request_failure rt limits source = None" "lm_period_maximum limits = Some m"
  shows "(\<forall>v e. tx_period_source_used input = Some v \<and> parse_input v ''transfer_period_usage'' = Inl e \<longrightarrow>
      evaluate_transfer rt calc input = Inl e) \<and>
    (tx_period_source_used input = None \<longrightarrow>
      (\<exists>r. evaluate_transfer rt calc input = Inr r \<and> tc_status r = TS_conditional \<and>
        tc_reason_code r = Some ''transfer_period_usage_unknown''))"
  using assms
  by (auto simp: evaluate_transfer_def Let_def period_failure_def parse_optional_input_def rmap_def)

theorem period_usage_outcomes_witness:
  "evaluate_transfer ref_rt (sample_transfer\<lparr>ts_maximum_source_units_per_period := Some ''500''\<rparr>)
     (sample_request\<lparr>tx_period_source_used := Some (DBig (-1))\<rparr>) =
   Inl ''invalid_transfer_period_usage:negative''"
proof -
  let ?calc = "sample_transfer\<lparr>ts_maximum_source_units_per_period := Some ''500''\<rparr>"
  let ?input = "sample_request\<lparr>tx_period_source_used := Some (DBig (-1))\<rparr>"
  have v: "is_decimal_text ''3''" "text_value ''3'' = 3" "is_decimal_text ''1''" "text_value ''1'' = 1"
    "is_decimal_text ''10''" "text_value ''10'' = 10" "is_decimal_text ''500''" "text_value ''500'' = 500"
    by code_simp+
  have c: "transfer_constraints ?calc =
     Inr \<lparr>lm_minimum = Some 10, lm_increment = None, lm_request_maximum = Some 500,
       lm_period_maximum = Some 500, lm_ratio_source = 3, lm_ratio_destination = 1\<rparr>"
    by (simp add: transfer_constraints_def sample_transfer_def parse_optional_text_def
        parse_optional_input_def v)
  have "transfer_source ?input = Some 100" by (simp add: sample_request_def transfer_source_def)
  from period_usage_outcomes [OF this c, of ref_rt] show ?thesis
    by (simp add: sample_request_def sample_transfer_def sample_asset_def transfer_cycle_iff
        request_failure_def parse_input_def relabel_def)
qed

end
