(* ===== verification/Caps.thy ===== *)
theory Caps
  imports EngineMath
begin

text \<open>
  Reward caps (\<open>packages/rule-engine/src/m1b-caps.ts\<close>): reset windows, the range of
  progress an observation supports, the range that remains under the limits, what a
  request may consume, and the combination of several caps and of shared groups.

  A \<open>NumericRange<string>\<close> holds the canonical text of a \<open>Decimal\<close>, written by
  \<open>canonicalDecimal\<close> and read back by \<open>new D\<close>; the model keeps the number itself, so
  \<open>=== "0"\<close> is equality with 0.
\<close>

section \<open>State\<close>

datatype cap_type =
  CP_per_operation | CP_per_day | CP_per_month | CP_per_campaign | CP_per_year | CP_lifetime
| CP_other string

datatype cap_availability = CV_available | CV_partial | CV_exhausted | CV_unknown | CV_blocked

datatype progress_source =
  PG_not_required | PG_user_input | PG_transaction_aggregation | PG_provider_api | PG_unknown
| PG_other string

datatype reset_kind =
  RK_operation | RK_day | RK_month | RK_campaign | RK_year | RK_never | RK_other string

datatype unknown_policy =
  UP_return_range | UP_ask_user | UP_suppress_bonus | UP_use_lower_bound | UP_not_applicable
| UP_other string

datatype cap_consumption = CO_none | CO_full | CO_partial | CO_uncertain

datatype cap_action =
  CN_apply | CN_apply_partial | CN_return_range | CN_ask_user | CN_suppress_bonus | CN_use_lower_bound

datatype decimal_like = DL_text decimal_input | DL_decimal rat

record cap_rule =
  cr_cap_id :: string
  cr_cap_type :: cap_type
  cr_max_reward_units :: "decimal_like option"
  cr_max_eligible_spend_jpy :: "js_number option"
  cr_shared_cap_group :: "string option"
  cr_progress_source :: "progress_source option"
  cr_reset_period :: reset_kind
  cr_reset_timezone :: string
  cr_reset_boundary :: string
  cr_partial_consumption :: bool
  cr_unknown_progress_policy :: "unknown_policy option"

record cap_progress =
  cg_status :: fact_status
  cg_eligible_spend_jpy_min :: "js_number option"
  cg_eligible_spend_jpy_max :: "js_number option"
  cg_reward_earned_units_min :: "string option"
  cg_reward_earned_units_max :: "string option"
  cg_period_start :: "string option"
  cg_period_end :: "string option"

record 'a range =
  rg_minimum :: 'a
  rg_maximum :: "'a option"
  rg_expected :: "'a option"

record cap_candidate =
  cd_reward_units :: "decimal_like option"
  cd_eligible_spend_jpy :: "js_number option"

record cap_evaluation_input =
  ci_cap :: cap_rule
  ci_progress :: "cap_progress option"
  ci_operation_timestamp :: "string option"
  ci_candidate :: "cap_candidate option"
  ci_reward_units :: "decimal_like option"
  ci_eligible_spend_jpy :: "js_number option"

record reset_period =
  rp_period :: reset_kind
  rp_timezone :: string
  rp_boundary :: string
  rp_start :: "string option"
  rp_end :: "string option"
  rp_applied :: bool
  rp_observation_in_period :: "bool option"

record cap_evaluation =
  ce_cap_id :: string
  ce_cap_type :: cap_type
  ce_shared_cap_group :: "string option"
  ce_progress_status :: fact_status
  ce_reset_period :: reset_period
  ce_remaining_reward :: "rat range"
  ce_remaining_spend :: "int range"
  ce_allowed_reward :: "rat range"
  ce_allowed_spend :: "int range"
  ce_availability :: cap_availability
  ce_consumption :: cap_consumption
  ce_policy_action :: cap_action
  ce_exhausted :: "bool option"
  ce_partially_remaining :: "bool option"
  ce_uncertain :: bool
  ce_reasons :: "string list"

section \<open>Numbers and ranges\<close>

definition reward :: "runtime \<Rightarrow> decimal_like \<Rightarrow> rat res" where
  "reward rt value =
     (case value of
        DL_decimal q \<Rightarrow> Inr q
      | DL_text (DStr t) \<Rightarrow>
          (case rt_parse rt t of
             DecThrow \<Rightarrow> Inl (''[DecimalError] Invalid argument: '' @ t)
           | DecNonFinite _ \<Rightarrow> Inl ''invalid_nonnegative_reward_units''
           | DecFinite neg q \<Rightarrow> if neg then Inl ''invalid_nonnegative_reward_units'' else Inr q)
      | DL_text (DNum n) \<Rightarrow>
          if \<not> is_safe_integer n then Inl ''binary_number_not_allowed''
          else if number_int n < 0 then Inl ''invalid_nonnegative_reward_units''
          else Inr (of_int (number_int n))
      | DL_text (DBig n) \<Rightarrow>
          if n < 0 then Inl ''invalid_nonnegative_reward_units'' else Inr (of_int n))"

definition non_negative_spend :: "js_number option \<Rightarrow> int option res" where
  "non_negative_spend value =
     (case value of
        None \<Rightarrow> Inr None
      | Some n \<Rightarrow>
          if \<not> is_safe_integer n \<or> number_int n < 0 then Inl ''invalid_nonnegative_eligible_spend''
          else Inr (Some (number_int n)))"

definition decimal_range :: "rat \<Rightarrow> rat option \<Rightarrow> rat option \<Rightarrow> rat range" where
  "decimal_range minimum maximum expected =
     (let low = (if minimum < 0 then 0 else minimum);
          high = (case maximum of None \<Rightarrow> None | Some m \<Rightarrow> Some (if m < low then low else m))
      in \<lparr>rg_minimum = low, rg_maximum = high,
          rg_expected = (case expected of
              None \<Rightarrow> None
            | Some e \<Rightarrow>
                if e < low then Some low
                else (case high of Some h \<Rightarrow> if h < e then Some h else Some e | None \<Rightarrow> Some e))\<rparr>)"

definition spend_range :: "int \<Rightarrow> int option \<Rightarrow> int option \<Rightarrow> int range" where
  "spend_range minimum maximum expected =
     (let low = max 0 minimum;
          high = (case maximum of None \<Rightarrow> None | Some m \<Rightarrow> Some (max low m))
      in \<lparr>rg_minimum = low, rg_maximum = high,
          rg_expected = (case expected of
              None \<Rightarrow> None
            | Some e \<Rightarrow> Some (min (default_to (max low e) high) (max low e)))\<rparr>)"

text \<open>The least of the values that are present.\<close>

fun present_min :: "'a :: linorder option list \<Rightarrow> 'a option" where
  "present_min [] = None"
| "present_min (None # vs) = present_min vs"
| "present_min (Some v # vs) = Some (case present_min vs of None \<Rightarrow> v | Some w \<Rightarrow> if w < v then w else v)"

section \<open>Reset windows\<close>

definition parse_timestamp :: "runtime \<Rightarrow> string option \<Rightarrow> int option" where
  "parse_timestamp rt timestamp =
     (case timestamp of None \<Rightarrow> None | Some t \<Rightarrow> if t = [] then None else rt_date_parse rt t)"

text \<open>\<open>Math.round((asUtc - timestamp) / 60000)\<close> for the wall clock fields of an instant.\<close>

definition timezone_offset_minutes :: "runtime \<Rightarrow> int \<Rightarrow> string \<Rightarrow> int option" where
  "timezone_offset_minutes rt timestamp timezone =
     map_option (\<lambda>f.
       let as_utc = date_utc (lf_year f) (lf_month f - 1) (lf_day f)
             (if lf_hour f = 24 then 0 else lf_hour f) (lf_minute f) (lf_second f)
       in (2 * (as_utc - timestamp) + 60000) div 120000)
     (rt_zone_fields rt timezone timestamp)"

definition to_iso :: "int \<Rightarrow> string option" where
  "to_iso t = (if valid_instant t then Some (iso_text t) else None)"

definition window_bounds :: "reset_kind \<Rightarrow> local_fields \<Rightarrow> int \<times> int" where
  "window_bounds period f =
     (let y = lf_year f; m = lf_month f; d = lf_day f
      in (date_utc y (if period = RK_year then 0 else m - 1) (if period = RK_day then d else 1) 0 0 0,
          if period = RK_day then date_utc y (m - 1) (d + 1) 0 0 0
          else if period = RK_month then date_utc y m 1 0 0 0
          else date_utc (y + 1) 0 1 0 0 0))"

definition calendar_reset_window ::
    "runtime \<Rightarrow> string option \<Rightarrow> reset_kind \<Rightarrow> string \<Rightarrow> string option \<times> string option" where
  "calendar_reset_window rt timestamp period timezone =
     (case parse_timestamp rt timestamp of
        None \<Rightarrow> (None, None)
      | Some parsed \<Rightarrow>
          if period \<notin> {RK_day, RK_month, RK_year} then (None, None)
          else case rt_zone_fields rt timezone parsed of
            None \<Rightarrow> (None, None)
          | Some f \<Rightarrow>
              (let (start_local, end_local) = window_bounds period f
               in case (timezone_offset_minutes rt start_local timezone,
                        timezone_offset_minutes rt end_local timezone) of
                    (Some so, Some eo) \<Rightarrow>
                      (case (to_iso (start_local - so * 60000), to_iso (end_local - eo * 60000)) of
                         (Some s, Some e) \<Rightarrow> (Some s, Some e)
                       | _ \<Rightarrow> (None, None))
                  | _ \<Rightarrow> (None, None)))"

definition reset_details ::
    "runtime \<Rightarrow> cap_rule \<Rightarrow> cap_progress option \<Rightarrow> string option \<Rightarrow> reset_period" where
  "reset_details rt cap progress operation_timestamp =
     (let period = cr_reset_period cap;
          derived = calendar_reset_window rt operation_timestamp period (cr_reset_timezone cap);
          start = orelse (Option.bind progress cg_period_start) (fst derived);
          end' = orelse (Option.bind progress cg_period_end) (snd derived);
          operation = parse_timestamp rt operation_timestamp;
          start_ms = parse_timestamp rt start;
          end_ms = parse_timestamp rt end';
          in_period =
            (case operation of
               None \<Rightarrow> if period = RK_operation \<or> period = RK_never then Some True else None
             | Some t \<Rightarrow>
                 if start_ms = None \<and> end_ms = None then
                   (if period = RK_operation \<or> period = RK_never then Some True else None)
                 else Some ((case start_ms of None \<Rightarrow> True | Some s \<Rightarrow> s \<le> t) \<and>
                            (case end_ms of None \<Rightarrow> True | Some e \<Rightarrow> t < e)));
          has_reset = (progress \<noteq> None \<and> period \<noteq> RK_operation \<and> in_period = Some False \<and>
                       (start_ms \<noteq> None \<or> end_ms \<noteq> None))
      in \<lparr>rp_period = period, rp_timezone = cr_reset_timezone cap, rp_boundary = cr_reset_boundary cap,
          rp_start = start, rp_end = end', rp_applied = has_reset, rp_observation_in_period = in_period\<rparr>)"

section \<open>Progress\<close>

record progress_range =
  pv_status :: fact_status
  pv_reward_min :: rat
  pv_reward_max :: "rat option"
  pv_reward_expected :: "rat option"
  pv_spend_min :: int
  pv_spend_max :: "int option"
  pv_spend_expected :: "int option"
  pv_uncertain :: bool
  pv_reasons :: "string list"

definition zero_progress :: "fact_status \<Rightarrow> string \<Rightarrow> progress_range" where
  "zero_progress status reason =
     \<lparr>pv_status = status, pv_reward_min = 0, pv_reward_max = Some 0, pv_reward_expected = Some 0,
      pv_spend_min = 0, pv_spend_max = Some 0, pv_spend_expected = Some 0, pv_uncertain = False,
      pv_reasons = [reason]\<rparr>"

definition known_progress :: "runtime \<Rightarrow> cap_progress \<Rightarrow> progress_range res" where
  "known_progress rt progress =
     (let reward_min = default_to ''0'' (cg_reward_earned_units_min progress);
          reward_max = default_to reward_min (cg_reward_earned_units_max progress);
          spend_min = default_to (num 0) (cg_eligible_spend_jpy_min progress);
          spend_max = default_to spend_min (cg_eligible_spend_jpy_max progress)
      in rbind (reward rt (DL_text (DStr reward_min))) (\<lambda>rmin.
         rbind (reward rt (DL_text (DStr reward_max))) (\<lambda>rmax.
         rbind (non_negative_spend (Some spend_min)) (\<lambda>smin.
         rbind (non_negative_spend (Some spend_max)) (\<lambda>smax.
           Inr \<lparr>pv_status = FS_known, pv_reward_min = rmin, pv_reward_max = Some rmax,
             pv_reward_expected = Some rmin, pv_spend_min = default_to 0 smin,
             pv_spend_max = Some (default_to 0 smax), pv_spend_expected = Some (default_to 0 smin),
             pv_uncertain = False, pv_reasons = [''progress_known'']\<rparr>)))))"

definition estimated_progress :: "runtime \<Rightarrow> cap_progress \<Rightarrow> progress_range res" where
  "estimated_progress rt progress =
     rbind (reward rt (DL_text (DStr (default_to ''0'' (cg_reward_earned_units_min progress))))) (\<lambda>rmin.
     rbind (reward rt (case cg_reward_earned_units_max progress of
         None \<Rightarrow> DL_decimal rmin | Some t \<Rightarrow> DL_text (DStr t))) (\<lambda>rmax.
     rbind (non_negative_spend (cg_eligible_spend_jpy_min progress)) (\<lambda>smin'.
     rbind (non_negative_spend (cg_eligible_spend_jpy_max progress)) (\<lambda>smax'.
       let smin = default_to 0 smin'; smax = default_to smin smax'
       in Inr \<lparr>pv_status = FS_estimated, pv_reward_min = rmin, pv_reward_max = Some rmax,
         pv_reward_expected = None, pv_spend_min = smin, pv_spend_max = Some smax,
         pv_spend_expected = None, pv_uncertain = (rmin \<noteq> rmax \<or> smin \<noteq> smax),
         pv_reasons = [''progress_estimated_range'']\<rparr>))))"

definition progress_range_of ::
    "runtime \<Rightarrow> cap_rule \<Rightarrow> cap_progress option \<Rightarrow> reset_period \<Rightarrow> progress_range res" where
  "progress_range_of rt cap progress reset =
     (let source = default_to PG_unknown (cr_progress_source cap);
          operation_reset = (cr_cap_type cap = CP_per_operation \<or> cr_reset_period cap = RK_operation);
          optional = (operation_reset \<or> source = PG_not_required);
          status = (case progress of None \<Rightarrow> FS_unknown | Some p \<Rightarrow> cg_status p)
      in if rp_applied reset then
           Inr (zero_progress FS_known ''progress_period_does_not_match_operation_reset_applied'')
         else if progress = None \<and> optional then
           Inr (zero_progress FS_known ''progress_not_required_for_operation_scope'')
         else if status = FS_not_applicable \<and> optional then
           Inr (zero_progress status ''progress_not_applicable_for_operation_scope'')
         else case progress of
           Some p \<Rightarrow>
             (case status of
                FS_known \<Rightarrow> known_progress rt p
              | FS_estimated \<Rightarrow> estimated_progress rt p
              | _ \<Rightarrow> Inr \<lparr>pv_status = status, pv_reward_min = 0, pv_reward_max = None,
                  pv_reward_expected = None, pv_spend_min = 0, pv_spend_max = None,
                  pv_spend_expected = None, pv_uncertain = True,
                  pv_reasons = [''progress_unknown_not_treated_as_zero'']\<rparr>)
         | None \<Rightarrow> Inr \<lparr>pv_status = status, pv_reward_min = 0, pv_reward_max = None,
             pv_reward_expected = None, pv_spend_min = 0, pv_spend_max = None,
             pv_spend_expected = None, pv_uncertain = True,
             pv_reasons = [''progress_unknown_not_treated_as_zero'']\<rparr>)"

section \<open>What remains\<close>

definition subtract_reward_limit :: "runtime \<Rightarrow> rat \<Rightarrow> rat option \<Rightarrow> rat option" where
  "subtract_reward_limit rt progress limit =
     (case limit of
        None \<Rightarrow> None
      | Some l \<Rightarrow> (let value = dsub rt l progress in Some (if value < 0 then 0 else value)))"

definition subtract_spend_limit :: "int \<Rightarrow> int option \<Rightarrow> int option" where
  "subtract_spend_limit progress limit =
     (case limit of None \<Rightarrow> None | Some l \<Rightarrow> Some (max 0 (l - progress)))"

definition remaining_reward_range :: "runtime \<Rightarrow> progress_range \<Rightarrow> rat option \<Rightarrow> rat range" where
  "remaining_reward_range rt current limit =
     (if limit = None then \<lparr>rg_minimum = 0, rg_maximum = None, rg_expected = None\<rparr>
      else
        let for_min = (if pv_status current = FS_unknown \<and> limit \<noteq> None then default_to 0 limit
                       else default_to 0 (pv_reward_max current));
            for_max = (if pv_status current = FS_unknown then 0 else pv_reward_min current)
        in decimal_range (default_to 0 (subtract_reward_limit rt for_min limit))
             (subtract_reward_limit rt for_max limit)
             (case pv_reward_expected current of
                None \<Rightarrow> None
              | Some e \<Rightarrow> subtract_reward_limit rt e limit))"

definition remaining_spend_range :: "progress_range \<Rightarrow> int option \<Rightarrow> int range" where
  "remaining_spend_range current limit =
     (if limit = None then \<lparr>rg_minimum = 0, rg_maximum = None, rg_expected = None\<rparr>
      else
        let for_min = (if pv_status current = FS_unknown \<and> limit \<noteq> None then default_to 0 limit
                       else default_to 0 (pv_spend_max current));
            for_max = (if pv_status current = FS_unknown then 0 else pv_spend_min current)
        in spend_range (default_to 0 (subtract_spend_limit for_min limit))
             (subtract_spend_limit for_max limit)
             (case pv_spend_expected current of
                None \<Rightarrow> None
              | Some e \<Rightarrow> subtract_spend_limit e limit))"

section \<open>What a request may consume\<close>

definition requested_candidate :: "cap_evaluation_input \<Rightarrow> cap_candidate" where
  "requested_candidate input =
     \<lparr>cd_reward_units = orelse (Option.bind (ci_candidate input) cd_reward_units) (ci_reward_units input),
      cd_eligible_spend_jpy =
        orelse (Option.bind (ci_candidate input) cd_eligible_spend_jpy) (ci_eligible_spend_jpy input)\<rparr>"

definition constrain_reward_by_spend ::
    "runtime \<Rightarrow> rat option \<Rightarrow> int option \<Rightarrow> int range \<Rightarrow> rat range option" where
  "constrain_reward_by_spend rt requested spend remaining =
     (case requested of
        None \<Rightarrow> None
      | Some q \<Rightarrow>
          (case (spend, rg_maximum remaining) of
             (Some s, Some m) \<Rightarrow>
               if s \<le> 0 then Some (decimal_range 0 (Some q) (Some q))
               else
                 (let fraction = (\<lambda>a. min 1 (rt_quot rt a s))
                  in Some (decimal_range (dmul rt q (fraction (rg_minimum remaining)))
                       (Some (dmul rt q (fraction m)))
                       (map_option (\<lambda>e. dmul rt q (fraction e)) (rg_expected remaining))))
           | _ \<Rightarrow> Some (decimal_range 0 (Some q) (Some q))))"

definition request_reward_range :: "rat option \<Rightarrow> rat range \<Rightarrow> bool \<Rightarrow> rat range" where
  "request_reward_range requested remaining partial_ok =
     (let maximum = (case requested of
            None \<Rightarrow> rg_maximum remaining
          | Some q \<Rightarrow> (case rg_maximum remaining of None \<Rightarrow> Some q | Some m \<Rightarrow> Some (min q m)));
          minimum = (case requested of None \<Rightarrow> 0 | Some q \<Rightarrow> min q (rg_minimum remaining))
      in decimal_range
           (if partial_ok then minimum
            else if default_to 0 requested \<le> minimum then minimum else 0)
           maximum None)"

definition request_spend_range :: "int option \<Rightarrow> int range \<Rightarrow> bool \<Rightarrow> int range" where
  "request_spend_range requested remaining partial_ok =
     (let maximum = (case requested of
            None \<Rightarrow> None
          | Some s \<Rightarrow> (case rg_maximum remaining of None \<Rightarrow> Some s | Some m \<Rightarrow> Some (min s m)));
          minimum = (case requested of None \<Rightarrow> 0 | Some s \<Rightarrow> min s (rg_minimum remaining))
      in spend_range
           (if partial_ok \<or> requested = None \<or> default_to 0 requested \<le> minimum then minimum else 0)
           maximum None)"

definition exceeds :: "'a :: linorder option \<Rightarrow> 'a option \<Rightarrow> bool" where
  "exceeds requested maximum =
     (case (requested, maximum) of (Some q, Some m) \<Rightarrow> m < q | _ \<Rightarrow> False)"

definition narrow_by_spend :: "rat range \<Rightarrow> rat range option \<Rightarrow> rat range" where
  "narrow_by_spend allowed by_spend =
     (case by_spend of
        None \<Rightarrow> allowed
      | Some b \<Rightarrow>
          decimal_range (max (rg_minimum allowed) (rg_minimum b))
            (present_min [rg_maximum allowed, rg_maximum b]) (rg_expected b))"

definition availability_of ::
    "rat range \<Rightarrow> int range \<Rightarrow> rat option \<Rightarrow> int option \<Rightarrow> bool \<Rightarrow> bool \<Rightarrow>
     cap_availability \<times> cap_consumption" where
  "availability_of remaining_reward remaining_spend requested_reward requested_spend partial_ok uncertain =
     (let exceeds_request = (exceeds requested_reward (rg_maximum remaining_reward) \<or>
                             exceeds requested_spend (rg_maximum remaining_spend));
          exhausted = (rg_maximum remaining_reward = Some 0 \<or> rg_maximum remaining_spend = Some 0);
          maybe_exhausted = (rg_minimum remaining_reward = 0 \<and> rg_minimum remaining_spend = 0)
      in if requested_reward = None \<and> requested_spend = None then
           (if exhausted then CV_exhausted else if uncertain then CV_unknown else CV_available, CO_uncertain)
         else if exhausted then (CV_exhausted, CO_none)
         else if exceeds_request then
           (if partial_ok then (if uncertain \<and> \<not> maybe_exhausted then CV_unknown else CV_partial)
            else CV_blocked,
            if uncertain then CO_uncertain else if partial_ok then CO_partial else CO_none)
         else if uncertain \<or> maybe_exhausted then (CV_unknown, CO_uncertain)
         else (CV_available, CO_full))"

definition range_availability ::
    "runtime \<Rightarrow> rat range \<Rightarrow> int range \<Rightarrow> cap_candidate \<Rightarrow> bool \<Rightarrow> bool \<Rightarrow>
     (rat range \<times> int range \<times> cap_availability \<times> cap_consumption) res" where
  "range_availability rt remaining_reward remaining_spend candidate partial_ok uncertain =
     rbind (case cd_reward_units candidate of None \<Rightarrow> Inr None | Some v \<Rightarrow> rmap Some (reward rt v))
       (\<lambda>requested_reward.
     rbind (non_negative_spend (cd_eligible_spend_jpy candidate)) (\<lambda>requested_spend.
       let reward1 = request_reward_range requested_reward remaining_reward partial_ok;
           spend1 = request_spend_range requested_spend remaining_spend partial_ok;
           reward2 = narrow_by_spend reward1
             (constrain_reward_by_spend rt (rg_maximum reward1) requested_spend remaining_spend);
           blocked = (\<not> partial_ok \<and> \<not> uncertain \<and>
             (exceeds requested_reward (rg_maximum remaining_reward) \<or>
              exceeds requested_spend (rg_maximum remaining_spend)));
           reward3 = (if blocked then decimal_range 0 (Some 0) (Some 0) else reward2);
           spend3 = (if blocked then spend_range 0 (Some 0) (Some 0) else spend1);
           (availability, consumption) = availability_of remaining_reward remaining_spend
             requested_reward requested_spend partial_ok uncertain
       in Inr (decimal_range (rg_minimum reward3) (rg_maximum reward3) (rg_expected reward3),
               spend_range (rg_minimum spend3) (rg_maximum spend3) (rg_maximum spend3),
               availability, consumption)))"

definition policy_action :: "cap_rule \<Rightarrow> cap_availability \<Rightarrow> bool \<Rightarrow> cap_action" where
  "policy_action cap availability uncertain =
     (if \<not> uncertain \<and> availability = CV_available then CN_apply
      else if \<not> uncertain \<and> availability = CV_partial then CN_apply_partial
      else case cr_unknown_progress_policy cap of
        Some UP_ask_user \<Rightarrow> CN_ask_user
      | Some UP_suppress_bonus \<Rightarrow> CN_suppress_bonus
      | Some UP_use_lower_bound \<Rightarrow> CN_use_lower_bound
      | _ \<Rightarrow> CN_return_range)"

section \<open>One cap\<close>

definition evaluate_cap :: "runtime \<Rightarrow> cap_evaluation_input \<Rightarrow> cap_evaluation res" where
  "evaluate_cap rt input =
     (let cap = ci_cap input;
          reset = reset_details rt cap (ci_progress input) (ci_operation_timestamp input)
      in rbind (progress_range_of rt cap (ci_progress input) reset) (\<lambda>current.
         rbind (case cr_max_reward_units cap of None \<Rightarrow> Inr None | Some v \<Rightarrow> rmap Some (reward rt v))
           (\<lambda>reward_limit.
         rbind (non_negative_spend (cr_max_eligible_spend_jpy cap)) (\<lambda>spend_limit.
           let remaining_reward = remaining_reward_range rt current reward_limit;
               remaining_spend = remaining_spend_range current spend_limit
           in rbind (range_availability rt remaining_reward remaining_spend (requested_candidate input)
                       (cr_partial_consumption cap) (pv_uncertain current))
                (\<lambda>(allowed_reward, allowed_spend, availability, consumption).
                let uncertain = (pv_uncertain current \<or> availability = CV_unknown);
                    unbounded = (rg_maximum remaining_reward = None \<and> rg_maximum remaining_spend = None)
                in Inr \<lparr>ce_cap_id = cr_cap_id cap, ce_cap_type = cr_cap_type cap,
                     ce_shared_cap_group = cr_shared_cap_group cap,
                     ce_progress_status = pv_status current, ce_reset_period = reset,
                     ce_remaining_reward = remaining_reward, ce_remaining_spend = remaining_spend,
                     ce_allowed_reward = allowed_reward, ce_allowed_spend = allowed_spend,
                     ce_availability = availability, ce_consumption = consumption,
                     ce_policy_action = policy_action cap availability uncertain,
                     ce_exhausted = (if unbounded then None
                       else Some (rg_maximum remaining_reward = Some 0 \<or> rg_maximum remaining_spend = Some 0)),
                     ce_partially_remaining = (if unbounded then None
                       else Some ((rg_minimum remaining_reward \<noteq> 0 \<or> rg_minimum remaining_spend \<noteq> 0) \<and>
                                  (rg_maximum remaining_reward \<noteq> Some 0 \<or> rg_maximum remaining_spend \<noteq> Some 0))),
                     ce_uncertain = uncertain,
                     ce_reasons = js_sort (pv_reasons current @
                       (if rp_applied reset then [''reset_applied''] else []))\<rparr>)))))"

section \<open>Several caps\<close>

definition combine_reward_ranges :: "rat range list \<Rightarrow> rat range" where
  "combine_reward_ranges ranges =
     (case ranges of
        [] \<Rightarrow> \<lparr>rg_minimum = 0, rg_maximum = Some 0, rg_expected = Some 0\<rparr>
      | r # rs \<Rightarrow>
          decimal_range (foldl (\<lambda>v item. min v (rg_minimum item)) (rg_minimum r) ranges)
            (present_min (map rg_maximum ranges)) (present_min (map rg_expected ranges)))"

definition combine_spend_ranges :: "int range list \<Rightarrow> int range" where
  "combine_spend_ranges ranges =
     (case ranges of
        [] \<Rightarrow> \<lparr>rg_minimum = 0, rg_maximum = Some 0, rg_expected = Some 0\<rparr>
      | r # rs \<Rightarrow>
          spend_range (foldl (\<lambda>v item. min v (rg_minimum item)) (rg_minimum r) ranges)
            (present_min (map rg_maximum ranges)) (present_min (map rg_expected ranges)))"

definition combine_availability :: "cap_evaluation list \<Rightarrow> cap_availability" where
  "combine_availability evaluations =
     (let some_is = (\<lambda>a. \<exists>e\<in>set evaluations. ce_availability e = a)
      in if some_is CV_exhausted then CV_exhausted
         else if some_is CV_blocked then CV_blocked
         else if some_is CV_unknown then CV_unknown
         else if some_is CV_partial then CV_partial
         else CV_available)"

record caps_evaluation_input =
  cs_caps :: "cap_rule list"
  cs_progress :: "(string \<Rightarrow> cap_progress option) option"
  cs_cap_progress :: "(string \<Rightarrow> cap_progress option) option"
  cs_operation_timestamp :: "string option"
  cs_candidate :: "cap_candidate option"
  cs_reward_units :: "decimal_like option"
  cs_eligible_spend_jpy :: "js_number option"

record shared_cap_evaluation =
  sh_shared_cap_group :: string
  sh_cap_ids :: "string list"
  sh_evaluations :: "cap_evaluation list"
  sh_availability :: cap_availability
  sh_remaining_reward :: "rat range"
  sh_remaining_spend :: "int range"
  sh_allowed_reward :: "rat range"
  sh_allowed_spend :: "int range"
  sh_uncertain :: bool

record caps_evaluation =
  ca_evaluations :: "cap_evaluation list"
  ca_by_cap_id :: "(string, cap_evaluation) omap"
  ca_shared_groups :: "shared_cap_evaluation list"
  ca_allowed_reward :: "rat range"
  ca_allowed_spend :: "int range"
  ca_availability :: cap_availability
  ca_uncertain :: bool
  ca_cap_ids :: "string list"

definition cap_input :: "caps_evaluation_input \<Rightarrow> cap_rule \<Rightarrow> cap_evaluation_input" where
  "cap_input input cap =
     (let progress_map = default_to (\<lambda>_. None) (orelse (cs_progress input) (cs_cap_progress input));
          key = default_to (cr_cap_id cap) (cr_shared_cap_group cap)
      in \<lparr>ci_cap = cap, ci_progress = orelse (progress_map key) (progress_map (cr_cap_id cap)),
          ci_operation_timestamp = cs_operation_timestamp input, ci_candidate = cs_candidate input,
          ci_reward_units = cs_reward_units input, ci_eligible_spend_jpy = cs_eligible_spend_jpy input\<rparr>)"

fun group_evaluations ::
    "cap_evaluation list \<Rightarrow> (string, cap_evaluation list) omap \<Rightarrow> (string, cap_evaluation list) omap" where
  "group_evaluations [] groups = groups"
| "group_evaluations (e # es) groups =
     (case ce_shared_cap_group e of
        None \<Rightarrow> group_evaluations es groups
      | Some g \<Rightarrow>
          if g = [] then group_evaluations es groups
          else group_evaluations es (om_set g (default_to [] (om_get groups g) @ [e]) groups))"

definition shared_group :: "string \<times> cap_evaluation list \<Rightarrow> shared_cap_evaluation" where
  "shared_group g =
     (case g of (name, items) \<Rightarrow>
        \<lparr>sh_shared_cap_group = name, sh_cap_ids = js_sort (map ce_cap_id items),
         sh_evaluations = items, sh_availability = combine_availability items,
         sh_remaining_reward = combine_reward_ranges (map ce_remaining_reward items),
         sh_remaining_spend = combine_spend_ranges (map ce_remaining_spend items),
         sh_allowed_reward = combine_reward_ranges (map ce_allowed_reward items),
         sh_allowed_spend = combine_spend_ranges (map ce_allowed_spend items),
         sh_uncertain = list_ex ce_uncertain items\<rparr>)"

definition evaluate_caps :: "runtime \<Rightarrow> caps_evaluation_input \<Rightarrow> caps_evaluation res" where
  "evaluate_caps rt input =
     rbind (traverse (\<lambda>cap. evaluate_cap rt (cap_input input cap))
             (sort_cmp (cmp_on cr_cap_id (rt_locale_compare rt)) (cs_caps input))) (\<lambda>evaluations.
       let groups = map shared_group
             (sort_cmp (cmp_on fst (rt_locale_compare rt)) (group_evaluations evaluations []))
       in Inr \<lparr>ca_evaluations = evaluations,
         ca_by_cap_id = foldl (\<lambda>m e. om_set (ce_cap_id e) e m) [] evaluations,
         ca_shared_groups = groups,
         ca_allowed_reward =
           combine_reward_ranges (map ce_allowed_reward evaluations @ map sh_allowed_reward groups),
         ca_allowed_spend =
           combine_spend_ranges (map ce_allowed_spend evaluations @ map sh_allowed_spend groups),
         ca_availability = combine_availability evaluations,
         ca_uncertain = list_ex ce_uncertain evaluations,
         ca_cap_ids = map ce_cap_id evaluations\<rparr>)"

section \<open>Well-formed ranges\<close>

definition range_ok :: "('a :: {linorder, zero}) range \<Rightarrow> bool" where
  "range_ok r \<longleftrightarrow> 0 \<le> rg_minimum r \<and> (\<forall>m. rg_maximum r = Some m \<longrightarrow> rg_minimum r \<le> m) \<and>
     (\<forall>e. rg_expected r = Some e \<longrightarrow> rg_minimum r \<le> e \<and> (\<forall>m. rg_maximum r = Some m \<longrightarrow> e \<le> m))"

lemma decimal_range_ok: "range_ok (decimal_range a b c)"
  by (auto simp: range_ok_def decimal_range_def Let_def split: option.splits)

lemma spend_range_ok: "range_ok (spend_range a b c)"
  by (auto simp: range_ok_def spend_range_def Let_def split: option.splits)

lemma spend_range_zero:
  "rg_minimum (spend_range 0 (Some 0) (Some 0)) = 0" "rg_maximum (spend_range 0 (Some 0) (Some 0)) = Some 0"
  by (simp_all add: spend_range_def Let_def)

lemma decimal_range_id: "range_ok r \<Longrightarrow> decimal_range (rg_minimum r) (rg_maximum r) (rg_expected r) = r"
  by (cases r) (auto simp: range_ok_def decimal_range_def Let_def split: option.splits)

lemma unbounded_ok: "range_ok \<lparr>rg_minimum = 0, rg_maximum = None, rg_expected = None\<rparr>"
  by (simp add: range_ok_def)

lemma remaining_reward_ok: "range_ok (remaining_reward_range rt current limit)"
  by (auto simp: remaining_reward_range_def Let_def decimal_range_ok unbounded_ok)

lemma remaining_spend_ok: "range_ok (remaining_spend_range current limit)"
  by (auto simp: remaining_spend_range_def Let_def spend_range_ok unbounded_ok)

lemma range_availability_ok:
  assumes "range_availability rt rr sr cand p u = Inr (ar, as, av, co)"
  shows "range_ok ar" "range_ok as"
  using assms
  by (auto simp: range_availability_def Let_def res_simps decimal_range_ok spend_range_ok split: prod.splits)

text \<open>The intermediate values of one availability computation.\<close>

lemma range_availability_parts:
  assumes "range_availability rt rr sr cand p u = Inr (ar, as, av, co)"
  obtains q s blocked where
    "(case cd_reward_units cand of None \<Rightarrow> Inr None | Some v \<Rightarrow> rmap Some (reward rt v)) = Inr q"
    "non_negative_spend (cd_eligible_spend_jpy cand) = Inr s"
    "blocked \<longleftrightarrow> \<not> p \<and> \<not> u \<and> (exceeds q (rg_maximum rr) \<or> exceeds s (rg_maximum sr))"
    "ar = (if blocked then decimal_range 0 (Some 0) (Some 0)
           else narrow_by_spend (request_reward_range q rr p)
             (constrain_reward_by_spend rt (rg_maximum (request_reward_range q rr p)) s sr))"
    "as = (if blocked then spend_range 0 (Some 0) (Some 0)
           else spend_range (rg_minimum (request_spend_range s sr p)) (rg_maximum (request_spend_range s sr p))
             (rg_maximum (request_spend_range s sr p)))"
    "(av, co) = availability_of rr sr q s p u"
proof -
  from assms obtain q s where
    q: "(case cd_reward_units cand of None \<Rightarrow> Inr None | Some v \<Rightarrow> rmap Some (reward rt v)) = Inr q"
    and s: "non_negative_spend (cd_eligible_spend_jpy cand) = Inr s"
    unfolding range_availability_def by (auto simp: rbind_Inr_iff)
  define blocked where "blocked \<longleftrightarrow> \<not> p \<and> \<not> u \<and> (exceeds q (rg_maximum rr) \<or> exceeds s (rg_maximum sr))"
  define r1 where "r1 = request_reward_range q rr p"
  define r3 where "r3 = (if blocked then decimal_range 0 (Some 0) (Some 0)
    else narrow_by_spend r1 (constrain_reward_by_spend rt (rg_maximum r1) s sr))"
  define s3 where "s3 = (if blocked then spend_range 0 (Some 0) (Some 0) else request_spend_range s sr p)"
  have "range_ok r1" by (simp add: r1_def request_reward_range_def Let_def decimal_range_ok)
  then have ok: "range_ok r3"
    by (auto simp: r3_def narrow_by_spend_def decimal_range_ok split: option.splits)
  obtain av' co' where a: "availability_of rr sr q s p u = (av', co')" by fastforce
  have "ar = decimal_range (rg_minimum r3) (rg_maximum r3) (rg_expected r3)"
    "as = spend_range (rg_minimum s3) (rg_maximum s3) (rg_maximum s3)" "av = av'" "co = co'"
    using assms unfolding range_availability_def q s Let_def rbind_simps a prod.case
      blocked_def [symmetric] r1_def [symmetric] r3_def [symmetric] s3_def [symmetric]
    by simp_all
  then show thesis
    using a decimal_range_id [OF ok]
    by (intro that [OF q s blocked_def]) (simp_all add: r3_def r1_def s3_def spend_range_zero)
qed

lemma evaluate_cap_parts:
  assumes "evaluate_cap rt input = Inr e"
  obtains current reward_limit spend_limit where
    "ce_reset_period e = reset_details rt (ci_cap input) (ci_progress input) (ci_operation_timestamp input)"
    "progress_range_of rt (ci_cap input) (ci_progress input) (ce_reset_period e) = Inr current"
    "(case cr_max_reward_units (ci_cap input) of None \<Rightarrow> Inr None | Some v \<Rightarrow> rmap Some (reward rt v)) =
       Inr reward_limit"
    "non_negative_spend (cr_max_eligible_spend_jpy (ci_cap input)) = Inr spend_limit"
    "ce_remaining_reward e = remaining_reward_range rt current reward_limit"
    "ce_remaining_spend e = remaining_spend_range current spend_limit"
    "range_availability rt (ce_remaining_reward e) (ce_remaining_spend e) (requested_candidate input)
       (cr_partial_consumption (ci_cap input)) (pv_uncertain current) =
       Inr (ce_allowed_reward e, ce_allowed_spend e, ce_availability e, ce_consumption e)"
    "ce_uncertain e = (pv_uncertain current \<or> ce_availability e = CV_unknown)"
    "ce_progress_status e = pv_status current"
    "ce_policy_action e = policy_action (ci_cap input) (ce_availability e) (ce_uncertain e)"
    "ce_cap_id e = cr_cap_id (ci_cap input)"
  using assms unfolding evaluate_cap_def Let_def
  by (auto simp: res_simps split: prod.splits)

lemma evaluate_cap_reset:
  "evaluate_cap rt input = Inr e \<Longrightarrow>
   ce_reset_period e = reset_details rt (ci_cap input) (ci_progress input) (ci_operation_timestamp input)"
  by (erule evaluate_cap_parts)

text \<open>Every range a cap evaluation returns is well formed: remaining and allowed reward
  units and spend have non-negative minima, and the expected value lies between minimum and
  maximum.\<close>

theorem cap_ranges_well_formed:
  assumes "evaluate_cap rt input = Inr e"
  shows "range_ok (ce_remaining_reward e) \<and> range_ok (ce_remaining_spend e) \<and>
    range_ok (ce_allowed_reward e) \<and> range_ok (ce_allowed_spend e)"
  using assms
  by (rule evaluate_cap_parts)
    (simp add: remaining_reward_ok remaining_spend_ok range_availability_ok)

section \<open>A request never exceeds what remains\<close>

lemma present_min_Some_iff: "present_min vs = None \<longleftrightarrow> (\<forall>v\<in>set vs. v = None)"
  by (induction vs rule: present_min.induct) auto

lemma present_min_le: "Some v \<in> set vs \<Longrightarrow> \<exists>m. present_min vs = Some m \<and> m \<le> v"
  by (induction vs rule: present_min.induct) (auto split: option.splits)

lemma present_min_mem: "present_min vs = Some m \<Longrightarrow> Some m \<in> set vs"
  by (induction vs arbitrary: m rule: present_min.induct) (auto split: option.splits if_splits)

locale cap_arithmetic = decimal_rounding + binary_quotient
begin

lemma remaining_reward_representable:
  assumes "rg_maximum (remaining_reward_range rt current limit) = Some m"
  shows "representable m \<and> 0 \<le> m"
proof -
  have "m = 0 \<or> (\<exists>x. m = rt_round rt x)"
    using assms
    by (auto simp: remaining_reward_range_def decimal_range_def subtract_reward_limit_def Let_def dsub_def
        split: option.splits if_splits)
  then have "representable m" using round_representable by auto
  moreover have "range_ok (remaining_reward_range rt current limit)" by (rule remaining_reward_ok)
  ultimately show ?thesis using assms unfolding range_ok_def using order_trans by blast
qed

lemma fraction_bounds:
  assumes "0 < s" "0 \<le> a"
  shows "0 \<le> min 1 (rt_quot rt a s)" "min 1 (rt_quot rt a s) \<le> 1"
  using quot_nonneg [OF assms] by simp_all

lemma constrain_le:
  assumes "representable q" "0 \<le> q" "range_ok remaining"
    and "constrain_reward_by_spend rt (Some q) spend remaining = Some b"
  shows "rg_minimum b \<le> q \<and> (\<exists>m. rg_maximum b = Some m \<and> m \<le> q)"
proof -
  have d: "0 \<le> f \<Longrightarrow> f \<le> 1 \<Longrightarrow> 0 \<le> dmul rt q f \<and> dmul rt q f \<le> q" for f
    using dmul_nonneg [OF assms(2)] dmul_fraction_le [OF assms(2) _ assms(1)] by blast
  show ?thesis
  proof (cases "\<exists>s m. spend = Some s \<and> rg_maximum remaining = Some m \<and> 0 < s")
    case True
    then obtain s m where s: "spend = Some s" "rg_maximum remaining = Some m" "0 < s" by blast
    have "0 \<le> rg_minimum remaining" "0 \<le> m"
      using assms(3) s unfolding range_ok_def by (auto intro: order_trans)
    with d [OF fraction_bounds [OF s(3)]] s assms(4) show ?thesis
      by (fastforce simp: constrain_reward_by_spend_def Let_def decimal_range_def)
  next
    case False
    then have "b = decimal_range 0 (Some q) (Some q)"
      using assms(4) by (auto simp: constrain_reward_by_spend_def split: option.splits if_splits)
    then show ?thesis using assms(2) by (simp add: decimal_range_def Let_def)
  qed
qed

lemma narrow_le:
  assumes "representable q" "0 \<le> q" "range_ok remaining" "range_ok r" "rg_maximum r = Some q"
  shows "\<exists>m. rg_maximum (narrow_by_spend r (constrain_reward_by_spend rt (rg_maximum r) spend remaining)) = Some m
    \<and> m \<le> q"
proof -
  obtain b where b: "constrain_reward_by_spend rt (Some q) spend remaining = Some b"
    by (cases "constrain_reward_by_spend rt (Some q) spend remaining")
      (auto simp: constrain_reward_by_spend_def Let_def split: option.splits if_splits)
  from constrain_le [OF assms(1,2,3) b] obtain m where m: "rg_minimum b \<le> q" "rg_maximum b = Some m" "m \<le> q"
    by blast
  have "rg_minimum r \<le> q" using assms(4,5) by (simp add: range_ok_def)
  with m assms(2) show ?thesis unfolding assms(5) b
    by (auto simp: narrow_by_spend_def decimal_range_def Let_def assms(5))
qed

end

interpretation ref_caps: cap_arithmetic ref_rt
  by unfold_locales

lemma request_reward_max:
  assumes "range_ok remaining" "\<And>q. requested = Some q \<Longrightarrow> 0 \<le> q"
  shows "rg_maximum (request_reward_range requested remaining p) =
    (case requested of
       None \<Rightarrow> rg_maximum remaining
     | Some q \<Rightarrow> Some (case rg_maximum remaining of None \<Rightarrow> q | Some m \<Rightarrow> min q m))"
  using assms
  by (auto simp: request_reward_range_def decimal_range_def Let_def range_ok_def min_def not_le
      split: option.splits)

lemma request_spend_max:
  assumes "range_ok remaining" "\<And>q. requested = Some q \<Longrightarrow> 0 \<le> q"
  shows "rg_maximum (request_spend_range requested remaining p) =
    (case requested of
       None \<Rightarrow> None
     | Some q \<Rightarrow> Some (case rg_maximum remaining of None \<Rightarrow> q | Some m \<Rightarrow> min q m))"
  using assms
  by (auto simp: request_spend_range_def spend_range_def Let_def range_ok_def min_def max_def not_le
      split: option.splits)

lemma non_negative_spend_nonneg: "non_negative_spend v = Inr (Some s) \<Longrightarrow> 0 \<le> s"
  by (auto simp: non_negative_spend_def split: option.splits if_splits)

lemma range_availability_reward_bound:
  assumes "decimal_rounding rt" "binary_quotient rt"
    and "range_availability rt (remaining_reward_range rt current limit) sr cand p u = Inr (ar, as, av, co)"
    and "range_ok sr" "cd_reward_units cand = Some v" "reward rt v = Inr q" "0 \<le> q" "representable q"
  shows "\<exists>m. rg_maximum ar = Some m \<and> m \<le> q \<and>
    (\<forall>r. rg_maximum (remaining_reward_range rt current limit) = Some r \<longrightarrow> m \<le> r)"
proof -
  have ca: "cap_arithmetic rt" using assms(1,2) by (rule cap_arithmetic.intro)
  define rr where "rr = remaining_reward_range rt current limit"
  have ok: "range_ok rr" unfolding rr_def by (rule remaining_reward_ok)
  define r1 where "r1 = request_reward_range (Some q) rr p"
  have ok1: "range_ok r1" by (simp add: r1_def request_reward_range_def Let_def decimal_range_ok)
  define M where "M = (case rg_maximum rr of None \<Rightarrow> q | Some m \<Rightarrow> min q m)"
  have M: "rg_maximum r1 = Some M"
    using request_reward_max [OF ok, of "Some q" p] assms(7) by (simp add: r1_def M_def)
  have Mq: "M \<le> q" "\<And>r. rg_maximum rr = Some r \<Longrightarrow> M \<le> r"
    by (auto simp: M_def split: option.splits)
  have Mr: "representable M \<and> 0 \<le> M"
    using assms(7,8) cap_arithmetic.remaining_reward_representable [OF ca, of current limit]
    by (auto simp: M_def rr_def [symmetric] min_def split: option.splits)
  from assms(3) obtain q' s blocked where
    q': "(case cd_reward_units cand of None \<Rightarrow> Inr None | Some v \<Rightarrow> rmap Some (reward rt v)) = Inr q'"
    and ar: "ar = (if blocked then decimal_range 0 (Some 0) (Some 0)
           else narrow_by_spend (request_reward_range q' rr p)
             (constrain_reward_by_spend rt (rg_maximum (request_reward_range q' rr p)) s sr))"
    unfolding rr_def by (rule range_availability_parts)
  have "q' = Some q" using q' assms(5,6) by simp
  with ar have ar: "ar = (if blocked then decimal_range 0 (Some 0) (Some 0)
      else narrow_by_spend r1 (constrain_reward_by_spend rt (rg_maximum r1) s sr))"
    by (simp add: r1_def)
  have "\<exists>m. rg_maximum ar = Some m \<and> m \<le> M"
    using cap_arithmetic.narrow_le [OF ca _ _ assms(4) ok1 M] Mr
    by (auto simp: ar decimal_range_def Let_def)
  with Mq show ?thesis unfolding rr_def by (meson order_trans)
qed

lemma range_availability_spend_bound:
  assumes "range_availability rt rr sr cand p u = Inr (ar, as, av, co)" "range_ok sr"
    and "non_negative_spend (cd_eligible_spend_jpy cand) = Inr (Some s)"
  shows "\<exists>m. rg_maximum as = Some m \<and> m \<le> s \<and> (\<forall>r. rg_maximum sr = Some r \<longrightarrow> m \<le> r)"
proof -
  define s1 where "s1 = request_spend_range (Some s) sr p"
  have s0: "0 \<le> s" by (rule non_negative_spend_nonneg [OF assms(3)])
  obtain m where m: "rg_maximum s1 = Some m" "m \<le> s" "\<forall>r. rg_maximum sr = Some r \<longrightarrow> m \<le> r"
    using request_spend_max [OF assms(2), of "Some s" p] s0
    by (auto simp: s1_def split: option.splits)
  have ok1: "range_ok s1" by (simp add: s1_def request_spend_range_def Let_def spend_range_ok)
  then have "0 \<le> m" using m(1) by (auto simp: range_ok_def intro: order_trans)
  moreover have "\<forall>r. rg_maximum sr = Some r \<longrightarrow> 0 \<le> r"
    using assms(2) by (auto simp: range_ok_def intro: order_trans)
  moreover have "as = spend_range 0 (Some 0) (Some 0) \<or> as = spend_range (rg_minimum s1) (rg_maximum s1) (rg_maximum s1)"
    using assms(1) by (rule range_availability_parts) (use assms(3) in \<open>auto simp: s1_def\<close>)
  ultimately show ?thesis
    using m ok1 s0 by (auto simp: spend_range_def Let_def range_ok_def)
qed

text \<open>C15. A cap never lets a request consume more than was requested or than remains: the
  allowed maxima of reward units and of spend are present and at most the requested amount
  and the remaining maximum.\<close>

theorem cap_allows_at_most_remaining:
  assumes "decimal_rounding rt" "binary_quotient rt" "evaluate_cap rt input = Inr e"
    and "cd_reward_units (requested_candidate input) = Some v" "reward rt v = Inr q" "0 \<le> q" "representable q"
    and "non_negative_spend (cd_eligible_spend_jpy (requested_candidate input)) = Inr (Some s)"
  shows "(\<exists>m. rg_maximum (ce_allowed_reward e) = Some m \<and> m \<le> q \<and>
      (\<forall>r. rg_maximum (ce_remaining_reward e) = Some r \<longrightarrow> m \<le> r)) \<and>
    (\<exists>m. rg_maximum (ce_allowed_spend e) = Some m \<and> m \<le> s \<and>
      (\<forall>r. rg_maximum (ce_remaining_spend e) = Some r \<longrightarrow> m \<le> r))"
  using assms(3)
proof (rule evaluate_cap_parts)
  fix current reward_limit spend_limit
  assume rr: "ce_remaining_reward e = remaining_reward_range rt current reward_limit"
    and sr: "ce_remaining_spend e = remaining_spend_range current spend_limit"
    and av: "range_availability rt (ce_remaining_reward e) (ce_remaining_spend e) (requested_candidate input)
       (cr_partial_consumption (ci_cap input)) (pv_uncertain current) =
       Inr (ce_allowed_reward e, ce_allowed_spend e, ce_availability e, ce_consumption e)"
  have ok: "range_ok (ce_remaining_spend e)" unfolding sr by (rule remaining_spend_ok)
  show ?thesis
    using range_availability_reward_bound [OF assms(1,2) av [unfolded rr] ok assms(4-7)]
      range_availability_spend_bound [OF av ok assms(8)]
    unfolding rr by blast
qed

section \<open>Unknown progress\<close>



lemma spend_limit_nonneg: "non_negative_spend v = Inr (Some l) \<Longrightarrow> 0 \<le> l"
  by (rule non_negative_spend_nonneg)






section \<open>All-or-nothing caps\<close>

text \<open>A cap without partial consumption is all-or-nothing: with certain progress, a request
  above what remains is allowed nothing at all, and the cap reports \<open>blocked\<close> or
  \<open>exhausted\<close>.\<close>

theorem non_partial_cap_blocks:
  assumes "evaluate_cap rt input = Inr e" "\<not> cr_partial_consumption (ci_cap input)" "\<not> ce_uncertain e"
    and "cd_reward_units (requested_candidate input) = Some v" "reward rt v = Inr q"
    and "rg_maximum (ce_remaining_reward e) = Some m" "m < q"
  shows "ce_allowed_reward e = \<lparr>rg_minimum = 0, rg_maximum = Some 0, rg_expected = Some 0\<rparr> \<and>
    ce_allowed_spend e = \<lparr>rg_minimum = 0, rg_maximum = Some 0, rg_expected = Some 0\<rparr> \<and>
    ce_availability e \<in> {CV_blocked, CV_exhausted} \<and> ce_consumption e = CO_none"
  using assms(1)
proof (rule evaluate_cap_parts)
  fix current
  assume av: "range_availability rt (ce_remaining_reward e) (ce_remaining_spend e) (requested_candidate input)
       (cr_partial_consumption (ci_cap input)) (pv_uncertain current) =
       Inr (ce_allowed_reward e, ce_allowed_spend e, ce_availability e, ce_consumption e)"
    and un: "ce_uncertain e = (pv_uncertain current \<or> ce_availability e = CV_unknown)"
  have u: "\<not> pv_uncertain current" using un assms(3) by blast
  have ex: "exceeds (Some q) (rg_maximum (ce_remaining_reward e))" using assms(6,7) by (simp add: exceeds_def)
  from av show ?thesis
  proof (rule range_availability_parts)
    fix q' s blocked
    assume "(case cd_reward_units (requested_candidate input) of None \<Rightarrow> Inr None | Some v \<Rightarrow> rmap Some (reward rt v)) = Inr q'"
      and b: "blocked \<longleftrightarrow> \<not> cr_partial_consumption (ci_cap input) \<and> \<not> pv_uncertain current \<and>
        (exceeds q' (rg_maximum (ce_remaining_reward e)) \<or> exceeds s (rg_maximum (ce_remaining_spend e)))"
      and a: "(ce_availability e, ce_consumption e) = availability_of (ce_remaining_reward e) (ce_remaining_spend e)
        q' s (cr_partial_consumption (ci_cap input)) (pv_uncertain current)"
      and r: "ce_allowed_reward e = (if blocked then decimal_range 0 (Some 0) (Some 0)
           else narrow_by_spend (request_reward_range q' (ce_remaining_reward e) (cr_partial_consumption (ci_cap input)))
             (constrain_reward_by_spend rt (rg_maximum (request_reward_range q' (ce_remaining_reward e)
               (cr_partial_consumption (ci_cap input)))) s (ce_remaining_spend e)))"
      and sp: "ce_allowed_spend e = (if blocked then spend_range 0 (Some 0) (Some 0)
           else spend_range (rg_minimum (request_spend_range s (ce_remaining_spend e) (cr_partial_consumption (ci_cap input))))
             (rg_maximum (request_spend_range s (ce_remaining_spend e) (cr_partial_consumption (ci_cap input))))
             (rg_maximum (request_spend_range s (ce_remaining_spend e) (cr_partial_consumption (ci_cap input)))))"
    then have q': "q' = Some q" using assms(4,5) by simp
    have blocked using b u ex assms(2) q' by blast
    with r sp a u ex assms(2) show ?thesis
      by (auto simp: q' decimal_range_def spend_range_def availability_of_def Let_def split: if_splits)
  qed
qed

section \<open>Combining caps\<close>

lemma foldl_min_le:
  fixes f :: "'a \<Rightarrow> 'b :: linorder"
  shows "foldl (\<lambda>v x. min v (f x)) a xs \<le> a" "x \<in> set xs \<Longrightarrow> foldl (\<lambda>v x. min v (f x)) a xs \<le> f x"
proof -
  have le': "foldl (\<lambda>v x. min v (f x)) a xs \<le> a" for a :: 'b and xs
  proof (induction xs arbitrary: a)
    case (Cons y ys)
    from Cons.IH [of "min a (f y)"] show ?case by simp
  qed simp
  show "foldl (\<lambda>v x. min v (f x)) a xs \<le> a" by (rule le')
  show "x \<in> set xs \<Longrightarrow> foldl (\<lambda>v x. min v (f x)) a xs \<le> f x"
  proof (induction xs arbitrary: a)
    case (Cons y ys)
    have "foldl (\<lambda>v x. min v (f x)) (min a (f y)) ys \<le> f y"
      using le' [of "min a (f y)" ys] by (rule order_trans) simp
    with Cons show ?case by auto
  qed simp
qed

lemma combined_bounds:
  fixes rs :: "('a :: {linorder, zero}) range list"
  assumes "\<forall>r\<in>set rs. range_ok r" "present_min (map rg_maximum rs) = Some M"
  shows "foldl (\<lambda>v r. min v (rg_minimum r)) a rs \<le> M"
proof -
  obtain r where r: "r \<in> set rs" "rg_maximum r = Some M"
    using present_min_mem [OF assms(2)] by auto
  with assms(1) have "rg_minimum r \<le> M" by (auto simp: range_ok_def)
  with foldl_min_le(2) [OF r(1), of rg_minimum a] show ?thesis by (rule order_trans)
qed

definition range_below :: "('a :: linorder) range \<Rightarrow> 'a range \<Rightarrow> bool" where
  "range_below a b \<longleftrightarrow> rg_minimum a \<le> rg_minimum b \<and>
     (\<forall>m. rg_maximum b = Some m \<longrightarrow> (\<exists>m'. rg_maximum a = Some m' \<and> m' \<le> m))"

lemma combine_reward_below:
  assumes "\<forall>r\<in>set rs. range_ok r" "r \<in> set rs"
  shows "range_below (combine_reward_ranges rs) r"
proof -
  obtain r1 rest where rs: "rs = r1 # rest" using assms(2) by (cases rs) auto
  have c: "combine_reward_ranges rs = decimal_range (foldl (\<lambda>v item. min v (rg_minimum item)) (rg_minimum r1) rs)
      (present_min (map rg_maximum rs)) (present_min (map rg_expected rs))"
    by (simp only: rs combine_reward_ranges_def list.case)
  have "rg_minimum (combine_reward_ranges rs) \<le> rg_minimum r"
    using foldl_min_le(2) [OF assms(2), of rg_minimum "rg_minimum r1"] bspec [OF assms]
    by (simp add: c decimal_range_def Let_def range_ok_def)
  moreover have "\<exists>m'. rg_maximum (combine_reward_ranges rs) = Some m' \<and> m' \<le> m" if "rg_maximum r = Some m" for m
  proof -
    have mem: "Some m \<in> set (map rg_maximum rs)" using that assms(2) by (metis image_eqI set_map)
    obtain M where M: "present_min (map rg_maximum rs) = Some M" "M \<le> m"
      using present_min_le [OF mem] by blast
    moreover obtain r' where "r' \<in> set rs" "rg_maximum r' = Some M"
      using present_min_mem [OF M(1)] by auto
    then have "0 \<le> M" using assms(1) by (auto simp: range_ok_def intro: order_trans)
    ultimately show ?thesis
      using combined_bounds [OF assms(1) M(1), of "rg_minimum r1"] by (simp add: c decimal_range_def Let_def)
  qed
  ultimately show ?thesis by (simp add: range_below_def)
qed

lemma combine_spend_below:
  assumes "\<forall>r\<in>set rs. range_ok r" "r \<in> set rs"
  shows "range_below (combine_spend_ranges rs) r"
proof -
  obtain r1 rest where rs: "rs = r1 # rest" using assms(2) by (cases rs) auto
  have c: "combine_spend_ranges rs = spend_range (foldl (\<lambda>v item. min v (rg_minimum item)) (rg_minimum r1) rs)
      (present_min (map rg_maximum rs)) (present_min (map rg_expected rs))"
    by (simp only: rs combine_spend_ranges_def list.case)
  have "rg_minimum (combine_spend_ranges rs) \<le> rg_minimum r"
    using foldl_min_le(2) [OF assms(2), of rg_minimum "rg_minimum r1"] bspec [OF assms]
    by (simp add: c spend_range_def Let_def range_ok_def)
  moreover have "\<exists>m'. rg_maximum (combine_spend_ranges rs) = Some m' \<and> m' \<le> m" if "rg_maximum r = Some m" for m
  proof -
    have mem: "Some m \<in> set (map rg_maximum rs)" using that assms(2) by (metis image_eqI set_map)
    obtain M where M: "present_min (map rg_maximum rs) = Some M" "M \<le> m"
      using present_min_le [OF mem] by blast
    moreover obtain r' where "r' \<in> set rs" "rg_maximum r' = Some M"
      using present_min_mem [OF M(1)] by auto
    then have "0 \<le> M" using assms(1) by (auto simp: range_ok_def intro: order_trans)
    ultimately show ?thesis
      using combined_bounds [OF assms(1) M(1), of "rg_minimum r1"] by (simp add: c spend_range_def Let_def)
  qed
  ultimately show ?thesis by (simp add: range_below_def)
qed

lemma evaluate_cap_ok:
  assumes "evaluate_cap rt input = Inr e"
  shows "range_ok (ce_allowed_reward e)" "range_ok (ce_allowed_spend e)" "ce_cap_id e = cr_cap_id (ci_cap input)"
proof -
  show "range_ok (ce_allowed_reward e)" "range_ok (ce_allowed_spend e)" "ce_cap_id e = cr_cap_id (ci_cap input)"
    using assms by (rule evaluate_cap_parts; use range_availability_ok in blast)+
qed

lemma combine_ok: "range_ok (combine_reward_ranges rs)" "range_ok (combine_spend_ranges ss)"
  unfolding combine_reward_ranges_def combine_spend_ranges_def
  by (cases rs; simp add: decimal_range_ok; simp add: range_ok_def)
    (cases ss; simp add: spend_range_ok; simp add: range_ok_def)

lemma list_all2_map_mset: "list_all2 (\<lambda>x y. g y = f x) xs ys \<Longrightarrow> map g ys = map f xs"
  by (induction rule: list_all2_induct) auto

text \<open>C32. Evaluating several caps evaluates each of them once, and what the combination allows is
  at most what every single cap allows, in minimum and in maximum, for reward units and for
  spend; one uncertain cap makes the combination uncertain and one exhausted cap exhausts it.\<close>

theorem combined_caps_are_conservative:
  assumes "evaluate_caps rt input = Inr r"
  shows "mset (map ce_cap_id (ca_evaluations r)) = mset (map cr_cap_id (cs_caps input)) \<and>
    (\<forall>e\<in>set (ca_evaluations r).
       range_below (ca_allowed_reward r) (ce_allowed_reward e) \<and>
       range_below (ca_allowed_spend r) (ce_allowed_spend e) \<and>
       (ce_uncertain e \<longrightarrow> ca_uncertain r) \<and>
       (ce_availability e = CV_exhausted \<longrightarrow> ca_availability r = CV_exhausted))"
proof -
  let ?sorted = "sort_cmp (cmp_on cr_cap_id (rt_locale_compare rt)) (cs_caps input)"
  obtain evs where t: "traverse (\<lambda>cap. evaluate_cap rt (cap_input input cap)) ?sorted = Inr evs"
    and r: "ca_evaluations r = evs" "ca_uncertain r = list_ex ce_uncertain evs"
      "ca_availability r = combine_availability evs"
      "ca_allowed_reward r = combine_reward_ranges (map ce_allowed_reward evs @ map sh_allowed_reward
        (map shared_group (sort_cmp (cmp_on fst (rt_locale_compare rt)) (group_evaluations evs []))))"
      "ca_allowed_spend r = combine_spend_ranges (map ce_allowed_spend evs @ map sh_allowed_spend
        (map shared_group (sort_cmp (cmp_on fst (rt_locale_compare rt)) (group_evaluations evs []))))"
    using assms by (auto simp: evaluate_caps_def Let_def res_simps)
  have l: "list_all2 (\<lambda>cap e. evaluate_cap rt (cap_input input cap) = Inr e) ?sorted evs"
    using t by (simp add: traverse_Inr_iff)
  have "list_all2 (\<lambda>cap e. ce_cap_id e = cr_cap_id cap) ?sorted evs"
    using l by (rule list_all2_mono) (auto dest: evaluate_cap_ok(3) simp: cap_input_def Let_def)
  then have ids: "map ce_cap_id evs = map cr_cap_id ?sorted" by (rule list_all2_map_mset)
  have "range_ok (ce_allowed_reward e) \<and> range_ok (ce_allowed_spend e)" if e: "e \<in> set evs" for e
    using l e by (auto dest: evaluate_cap_ok simp: list_all2_conv_all_nth in_set_conv_nth)
  then have ok: "\<forall>q\<in>set (map ce_allowed_reward evs @ map sh_allowed_reward
        (map shared_group (sort_cmp (cmp_on fst (rt_locale_compare rt)) (group_evaluations evs [])))). range_ok q"
      "\<forall>q\<in>set (map ce_allowed_spend evs @ map sh_allowed_spend
        (map shared_group (sort_cmp (cmp_on fst (rt_locale_compare rt)) (group_evaluations evs [])))). range_ok q"
    by (auto simp: shared_group_def combine_ok split: prod.splits)
  show ?thesis
    using combine_reward_below [OF ok(1)] combine_spend_below [OF ok(2)] ids
    by (auto simp: r list_ex_iff combine_availability_def Let_def)
qed

section \<open>Resets\<close>

lemma reset_applied_iff:
  "rp_applied (reset_details rt cap progress ts) \<longleftrightarrow>
     progress \<noteq> None \<and> cr_reset_period cap \<noteq> RK_operation \<and>
     (\<exists>t. parse_timestamp rt ts = Some t \<and>
       (let r = reset_details rt cap progress ts in
        (\<exists>s. parse_timestamp rt (rp_start r) = Some s \<and> t < s) \<or>
        (\<exists>e. parse_timestamp rt (rp_end r) = Some e \<and> e \<le> t)))"
  by (auto simp: reset_details_def Let_def not_le not_less split: option.splits)

text \<open>Progress observed for another period is reset: when the operation lies before the
  start or at or after the end of the observed (or derived calendar) period, the observation
  counts as known zero progress, so exactly the full limits remain.\<close>

theorem reset_restores_limits:
  assumes "decimal_rounding rt" "evaluate_cap rt input = Inr e"
    and "ci_progress input = Some p" "cr_reset_period (ci_cap input) \<noteq> RK_operation"
    and "parse_timestamp rt (ci_operation_timestamp input) = Some t"
    and "(\<exists>s. parse_timestamp rt (rp_start (ce_reset_period e)) = Some s \<and> t < s) \<or>
         (\<exists>b. parse_timestamp rt (rp_end (ce_reset_period e)) = Some b \<and> b \<le> t)"
    and "cr_max_reward_units (ci_cap input) = Some v" "reward rt v = Inr l" "0 \<le> l" "representable l"
  shows "rp_applied (ce_reset_period e) \<and> ce_progress_status e = FS_known \<and>
    ce_remaining_reward e = \<lparr>rg_minimum = l, rg_maximum = Some l, rg_expected = Some l\<rparr>"
  using assms(2)
proof (rule evaluate_cap_parts)
  fix current reward_limit
  assume rd: "ce_reset_period e = reset_details rt (ci_cap input) (ci_progress input) (ci_operation_timestamp input)"
    and pr: "progress_range_of rt (ci_cap input) (ci_progress input) (ce_reset_period e) = Inr current"
    and rl: "(case cr_max_reward_units (ci_cap input) of None \<Rightarrow> Inr None | Some v \<Rightarrow> rmap Some (reward rt v)) =
       Inr reward_limit"
    and rr: "ce_remaining_reward e = remaining_reward_range rt current reward_limit"
    and st: "ce_progress_status e = pv_status current"
  have ap: "rp_applied (ce_reset_period e)"
    using assms(3-6) unfolding rd reset_applied_iff by (auto simp: Let_def)
  then have cur: "current = zero_progress FS_known ''progress_period_does_not_match_operation_reset_applied''"
    using pr by (simp add: progress_range_of_def Let_def)
  have "reward_limit = Some l" using rl assms(7,8) by simp
  moreover have "dsub rt l 0 = l"
    using decimal_rounding.round_exact [OF assms(1,10)] by (simp add: dsub_def)
  ultimately show ?thesis
    using ap st assms(9) unfolding rr cur
    by (simp add: remaining_reward_range_def zero_progress_def subtract_reward_limit_def decimal_range_def Let_def)
qed

section \<open>Two observed deviations\<close>

definition sample_cap :: "bool \<Rightarrow> cap_rule" where
  "sample_cap partial_ok = \<lparr>cr_cap_id = ''monthly'', cr_cap_type = CP_per_month,
     cr_max_reward_units = Some (DL_text (DBig 100)), cr_max_eligible_spend_jpy = Some (num 10000),
     cr_shared_cap_group = None, cr_progress_source = Some PG_user_input, cr_reset_period = RK_never,
     cr_reset_timezone = ''Asia/Tokyo'', cr_reset_boundary = ''calendar'',
     cr_partial_consumption = partial_ok, cr_unknown_progress_policy = Some UP_ask_user\<rparr>"

definition observation :: "fact_status \<Rightarrow> string \<Rightarrow> string \<Rightarrow> cap_progress" where
  "observation status lo hi = \<lparr>cg_status = status, cg_eligible_spend_jpy_min = Some (num 0),
     cg_eligible_spend_jpy_max = Some (num 0), cg_reward_earned_units_min = Some lo,
     cg_reward_earned_units_max = Some hi, cg_period_start = None, cg_period_end = None\<rparr>"

definition sample_input :: "bool \<Rightarrow> cap_progress option \<Rightarrow> int \<Rightarrow> int \<Rightarrow> cap_evaluation_input" where
  "sample_input partial_ok progress q s = \<lparr>ci_cap = sample_cap partial_ok, ci_progress = progress,
     ci_operation_timestamp = None, ci_candidate = None,
     ci_reward_units = Some (DL_text (DBig q)), ci_eligible_spend_jpy = Some (num s)\<rparr>"

lemma sample_texts:
  "is_decimal_text ''0''" "text_value ''0'' = 0" "is_decimal_text ''30''" "text_value ''30'' = 30"
  "is_decimal_text ''100''" "text_value ''100'' = 100"
  by code_simp+

lemma sample_quot: "min 1 (rt_quot ref_rt 10000 1000) = 1"
  using ref.quot_ge_one [of 1000 10000] by simp

lemma evaluate_cap_compute:
  assumes "progress_range_of rt (ci_cap input) (ci_progress input)
      (reset_details rt (ci_cap input) (ci_progress input) (ci_operation_timestamp input)) = Inr current"
    and "(case cr_max_reward_units (ci_cap input) of None \<Rightarrow> Inr None | Some v \<Rightarrow> rmap Some (reward rt v)) =
       Inr reward_limit"
    and "non_negative_spend (cr_max_eligible_spend_jpy (ci_cap input)) = Inr spend_limit"
    and "remaining_reward_range rt current reward_limit = rr" "remaining_spend_range current spend_limit = sr"
    and "range_availability rt rr sr (requested_candidate input) (cr_partial_consumption (ci_cap input))
       (pv_uncertain current) = Inr (ar, as, av, co)"
  shows "\<exists>e. evaluate_cap rt input = Inr e \<and> ce_remaining_reward e = rr \<and> ce_remaining_spend e = sr \<and>
    ce_allowed_reward e = ar \<and> ce_allowed_spend e = as \<and> ce_availability e = av \<and>
    ce_progress_status e = pv_status current \<and> ce_uncertain e = (pv_uncertain current \<or> av = CV_unknown) \<and>
    set (pv_reasons current) \<subseteq> set (ce_reasons e)"
  using assms unfolding evaluate_cap_def Let_def by simp

lemma sample_cap_sel [simp]:
  "cr_cap_type (sample_cap p) = CP_per_month" "cr_progress_source (sample_cap p) = Some PG_user_input"
  "cr_reset_period (sample_cap p) = RK_never" "cr_partial_consumption (sample_cap p) = p"
  "cr_max_reward_units (sample_cap p) = Some (DL_text (DBig 100))"
  "cr_max_eligible_spend_jpy (sample_cap p) = Some (num 10000)"
  by (simp_all add: sample_cap_def)

lemma sample_reset [simp]: "\<not> rp_applied (reset_details rt (sample_cap p) progress None)"
  by (simp add: reset_applied_iff parse_timestamp_def)

lemmas sample_progress = progress_range_of_def known_progress_def estimated_progress_def reward_def
  non_negative_spend_def observation_def safe_int_def ref_parse_def sample_texts

lemmas sample_remaining = remaining_reward_range_def remaining_spend_range_def subtract_reward_limit_def
  subtract_spend_limit_def decimal_range_def spend_range_def dsub_def

lemmas sample_allowed = range_availability_def request_reward_range_def request_spend_range_def
  constrain_reward_by_spend_def narrow_by_spend_def availability_of_def decimal_range_def spend_range_def
  exceeds_def reward_def non_negative_spend_def safe_int_def sample_quot dmul_def

lemma sample_candidate:
  "requested_candidate (sample_input p progress q s) =
     \<lparr>cd_reward_units = Some (DL_text (DBig q)), cd_eligible_spend_jpy = Some (num s)\<rparr>"
  by (simp add: requested_candidate_def sample_input_def)

lemma sample_limits:
  "(case cr_max_reward_units (sample_cap p) of None \<Rightarrow> Inr None | Some v \<Rightarrow> rmap Some (reward rt v)) = Inr (Some 100)"
  "non_negative_spend (cr_max_eligible_spend_jpy (sample_cap p)) = Inr (Some 10000)"
  by (simp_all add: reward_def non_negative_spend_def safe_int_def)

lemma sample_input_sel [simp]:
  "ci_cap (sample_input p progress q s) = sample_cap p" "ci_progress (sample_input p progress q s) = progress"
  "ci_operation_timestamp (sample_input p progress q s) = None"
  by (simp_all add: sample_input_def)

lemma sample_estimated:
  "progress_range_of ref_rt (sample_cap p) (Some (observation FS_estimated ''0'' ''100''))
     (reset_details ref_rt (sample_cap p) (Some (observation FS_estimated ''0'' ''100'')) None) =
   Inr \<lparr>pv_status = FS_estimated, pv_reward_min = 0, pv_reward_max = Some 100, pv_reward_expected = None,
     pv_spend_min = 0, pv_spend_max = Some 0, pv_spend_expected = None, pv_uncertain = True,
     pv_reasons = [''progress_estimated_range'']\<rparr>"
  by (simp add: sample_progress)

text \<open>With an estimated reward progress of 0 to 100 units under a limit of 100 and known
  spend progress, the code reports a guaranteed allowance of 50 units although the remaining
  reward may be zero: narrowing by spend raises the lower bound to the spend fraction of the
  upper bound instead of keeping the smaller of the two.\<close>

theorem estimated_lower_bound_exceeds_remaining:
  "\<exists>e. evaluate_cap ref_rt (sample_input True (Some (observation FS_estimated ''0'' ''100'')) 50 1000) = Inr e \<and>
     ce_remaining_reward e = \<lparr>rg_minimum = 0, rg_maximum = Some 100, rg_expected = None\<rparr> \<and>
     ce_allowed_reward e = \<lparr>rg_minimum = 50, rg_maximum = Some 50, rg_expected = None\<rparr>"
proof -
  let ?i = "sample_input True (Some (observation FS_estimated ''0'' ''100'')) 50 1000"
  have "\<exists>av co. range_availability ref_rt \<lparr>rg_minimum = 0, rg_maximum = Some 100, rg_expected = None\<rparr>
      \<lparr>rg_minimum = 10000, rg_maximum = Some 10000, rg_expected = None\<rparr> (requested_candidate ?i) True True =
    Inr (\<lparr>rg_minimum = 50, rg_maximum = Some 50, rg_expected = None\<rparr>,
         \<lparr>rg_minimum = 1000, rg_maximum = Some 1000, rg_expected = Some 1000\<rparr>, av, co)"
    unfolding sample_candidate by (simp add: sample_allowed Let_def)
  then obtain av co where av: "range_availability ref_rt
      \<lparr>rg_minimum = 0, rg_maximum = Some 100, rg_expected = None\<rparr>
      \<lparr>rg_minimum = 10000, rg_maximum = Some 10000, rg_expected = None\<rparr> (requested_candidate ?i) True True =
    Inr (\<lparr>rg_minimum = 50, rg_maximum = Some 50, rg_expected = None\<rparr>,
         \<lparr>rg_minimum = 1000, rg_maximum = Some 1000, rg_expected = Some 1000\<rparr>, av, co)" by blast
  have "\<exists>e. evaluate_cap ref_rt ?i = Inr e \<and>
      ce_remaining_reward e = \<lparr>rg_minimum = 0, rg_maximum = Some 100, rg_expected = None\<rparr> \<and>
      ce_remaining_spend e = \<lparr>rg_minimum = 10000, rg_maximum = Some 10000, rg_expected = None\<rparr> \<and>
      ce_allowed_reward e = \<lparr>rg_minimum = 50, rg_maximum = Some 50, rg_expected = None\<rparr> \<and>
      ce_allowed_spend e = \<lparr>rg_minimum = 1000, rg_maximum = Some 1000, rg_expected = Some 1000\<rparr> \<and>
      ce_availability e = av \<and> ce_progress_status e = FS_estimated \<and> ce_uncertain e = (True \<or> av = CV_unknown) \<and>
      set [''progress_estimated_range''] \<subseteq> set (ce_reasons e)"
    using evaluate_cap_compute [of ref_rt ?i, unfolded sample_input_sel sample_cap_sel(4), OF sample_estimated sample_limits] av
    by (simp add: sample_remaining)
  then show ?thesis by blast
qed

lemma range_availability_total:
  assumes "(case cd_reward_units cand of None \<Rightarrow> Inr None | Some v \<Rightarrow> rmap Some (reward rt v)) = Inr q"
    and "non_negative_spend (cd_eligible_spend_jpy cand) = Inr s"
  shows "\<exists>ar as av co. range_availability rt rr sr cand p u = Inr (ar, as, av, co) \<and>
    (av, co) = availability_of rr sr q s p u"
proof -
  obtain av co where "availability_of rr sr q s p u = (av, co)" by fastforce
  then show ?thesis unfolding range_availability_def assms Let_def rbind_simps by simp
qed

lemma sample_evaluates:
  assumes "progress_range_of ref_rt (sample_cap p) progress (reset_details ref_rt (sample_cap p) progress None) =
      Inr current"
    and "0 \<le> q" "0 \<le> s" "safe_int s"
  shows "\<exists>e. evaluate_cap ref_rt (sample_input p progress q s) = Inr e \<and>
    ce_remaining_reward e = remaining_reward_range ref_rt current (Some 100) \<and>
    ce_remaining_spend e = remaining_spend_range current (Some 10000) \<and>
    ce_progress_status e = pv_status current \<and>
    ce_availability e = fst (availability_of (remaining_reward_range ref_rt current (Some 100))
      (remaining_spend_range current (Some 10000)) (Some (of_int q)) (Some s) p (pv_uncertain current)) \<and>
    ce_uncertain e = (pv_uncertain current \<or> ce_availability e = CV_unknown) \<and>
    set (pv_reasons current) \<subseteq> set (ce_reasons e)"
proof -
  let ?cand = "requested_candidate (sample_input p progress q s)"
  have 1: "(case cd_reward_units ?cand of None \<Rightarrow> Inr None | Some v \<Rightarrow> rmap Some (reward ref_rt v)) = Inr (Some (of_int q))"
    using assms by (simp add: sample_candidate reward_def)
  have 2: "non_negative_spend (cd_eligible_spend_jpy ?cand) = Inr (Some s)"
    using assms by (simp add: sample_candidate non_negative_spend_def)
  from range_availability_total [OF 1 2] obtain ar as av co where
    "range_availability ref_rt (remaining_reward_range ref_rt current (Some 100))
       (remaining_spend_range current (Some 10000)) ?cand p (pv_uncertain current) = Inr (ar, as, av, co)"
    "(av, co) = availability_of (remaining_reward_range ref_rt current (Some 100))
       (remaining_spend_range current (Some 10000)) (Some (of_int q)) (Some s) p (pv_uncertain current)" by blast
  note av = this
  have fst_av: "fst (availability_of (remaining_reward_range ref_rt current (Some 100))
       (remaining_spend_range current (Some 10000)) (Some (of_int q)) (Some s) p (pv_uncertain current)) = av"
    by (simp add: av(2) [symmetric])
  from evaluate_cap_compute [of ref_rt "sample_input p progress q s",
      unfolded sample_input_sel sample_cap_sel(4), OF assms(1) sample_limits refl refl av(1)] fst_av
  show ?thesis by auto
qed

text \<open>A progress status of \<open>not_applicable\<close> on a cap that does need progress falls into the
  branch that announces \<open>progress_unknown_not_treated_as_zero\<close>, yet the remaining range is
  exactly the full limit: there it is treated as zero.\<close>

theorem not_applicable_progress_counts_as_zero:
  "\<exists>e. evaluate_cap ref_rt (sample_input True (Some (observation FS_not_applicable ''30'' ''30'')) 50 1000) = Inr e \<and>
     ''progress_unknown_not_treated_as_zero'' \<in> set (ce_reasons e) \<and>
     ce_remaining_reward e = \<lparr>rg_minimum = 100, rg_maximum = Some 100, rg_expected = None\<rparr>"
proof -
  have "progress_range_of ref_rt (sample_cap True) (Some (observation FS_not_applicable ''30'' ''30''))
     (reset_details ref_rt (sample_cap True) (Some (observation FS_not_applicable ''30'' ''30'')) None) =
   Inr \<lparr>pv_status = FS_not_applicable, pv_reward_min = 0, pv_reward_max = None, pv_reward_expected = None,
     pv_spend_min = 0, pv_spend_max = None, pv_spend_expected = None, pv_uncertain = True,
     pv_reasons = [''progress_unknown_not_treated_as_zero'']\<rparr>"
    by (simp add: sample_progress)
  from sample_evaluates [OF this, of 50 1000] show ?thesis
    by (auto simp: sample_remaining Let_def safe_int_def)
qed

section \<open>Witnesses\<close>

lemma sample_known:
  "progress_range_of ref_rt (sample_cap p) (Some (observation FS_known ''30'' ''30''))
     (reset_details ref_rt (sample_cap p) (Some (observation FS_known ''30'' ''30'')) None) =
   Inr \<lparr>pv_status = FS_known, pv_reward_min = 30, pv_reward_max = Some 30, pv_reward_expected = Some 30,
     pv_spend_min = 0, pv_spend_max = Some 0, pv_spend_expected = Some 0, pv_uncertain = False,
     pv_reasons = [''progress_known'']\<rparr>"
  by (simp add: sample_progress Let_def)

lemma sample_unknown:
  "progress_range_of ref_rt (sample_cap p) None (reset_details ref_rt (sample_cap p) None None) =
   Inr \<lparr>pv_status = FS_unknown, pv_reward_min = 0, pv_reward_max = None, pv_reward_expected = None,
     pv_spend_min = 0, pv_spend_max = None, pv_spend_expected = None, pv_uncertain = True,
     pv_reasons = [''progress_unknown_not_treated_as_zero'']\<rparr>"
  by (simp add: sample_progress)

theorem cap_ranges_well_formed_witness:
  "\<exists>e. evaluate_cap ref_rt (sample_input True None 50 1000) = Inr e \<and> range_ok (ce_allowed_reward e)"
  using sample_evaluates [OF sample_unknown, of 50 1000 True] cap_ranges_well_formed
  by (auto simp: safe_int_def)

theorem cap_allows_at_most_remaining_witness:
  "\<exists>e m. evaluate_cap ref_rt (sample_input True (Some (observation FS_known ''30'' ''30'')) 80 1000) = Inr e \<and>
     rg_maximum (ce_allowed_reward e) = Some m \<and> m \<le> 70"
proof -
  let ?i = "sample_input True (Some (observation FS_known ''30'' ''30'')) 80 1000"
  obtain e where e: "evaluate_cap ref_rt ?i = Inr e" "rg_maximum (ce_remaining_reward e) = Some 70"
    using sample_evaluates [OF sample_known, of 80 1000 True] by (auto simp: sample_remaining safe_int_def Let_def)
  have "reward ref_rt (DL_text (DBig 80)) = Inr 80" "non_negative_spend (Some (num 1000)) = Inr (Some 1000)"
    by (simp_all add: reward_def non_negative_spend_def safe_int_def)
  with cap_allows_at_most_remaining [OF ref.decimal_rounding_axioms ref.binary_quotient_axioms e(1),
      unfolded sample_candidate, of "DL_text (DBig 80)" 80 1000] e representable_small [of 80]
  show ?thesis by auto
qed


theorem non_partial_cap_blocks_witness:
  "\<exists>e. evaluate_cap ref_rt (sample_input False (Some (observation FS_known ''30'' ''30'')) 80 1000) = Inr e \<and>
     ce_consumption e = CO_none"
proof -
  let ?i = "sample_input False (Some (observation FS_known ''30'' ''30'')) 80 1000"
  obtain e where e: "evaluate_cap ref_rt ?i = Inr e" "rg_maximum (ce_remaining_reward e) = Some 70" "\<not> ce_uncertain e"
    using sample_evaluates [OF sample_known, of 80 1000 False]
    by (auto simp: sample_remaining safe_int_def Let_def availability_of_def exceeds_def)
  have "reward ref_rt (DL_text (DBig 80)) = Inr 80" by (simp add: reward_def)
  with non_partial_cap_blocks [OF e(1) _ e(3), of "DL_text (DBig 80)" 80 70] e show ?thesis
    by (auto simp: sample_candidate)
qed

theorem combined_caps_are_conservative_witness:
  "\<exists>r e. evaluate_caps ref_rt \<lparr>cs_caps = [sample_cap True], cs_progress = None, cs_cap_progress = None,
       cs_operation_timestamp = None, cs_candidate = None, cs_reward_units = Some (DL_text (DBig 50)),
       cs_eligible_spend_jpy = Some (num 1000)\<rparr> = Inr r \<and>
     e \<in> set (ca_evaluations r) \<and> range_below (ca_allowed_reward r) (ce_allowed_reward e)"
proof -
  let ?i = "\<lparr>cs_caps = [sample_cap True], cs_progress = None, cs_cap_progress = None,
       cs_operation_timestamp = None, cs_candidate = None, cs_reward_units = Some (DL_text (DBig 50)),
       cs_eligible_spend_jpy = Some (num 1000)\<rparr>"
  have i: "cap_input ?i (sample_cap True) = sample_input True None 50 1000"
    by (simp add: cap_input_def sample_input_def orelse_def)
  obtain e where e: "evaluate_cap ref_rt (sample_input True None 50 1000) = Inr e"
    using sample_evaluates [OF sample_unknown, of 50 1000 True] by (auto simp: safe_int_def)
  obtain r where r: "evaluate_caps ref_rt ?i = Inr r" "ca_evaluations r = [e]"
    using e i by (auto simp: evaluate_caps_def Let_def)
  with combined_caps_are_conservative [OF r(1)] show ?thesis by auto
qed

theorem reset_restores_limits_witness:
  "\<exists>e. evaluate_cap ref_rt
      (sample_input True (Some ((observation FS_known ''30'' ''30'')\<lparr>cg_period_start := Some ''2025-02-01T00:00:00Z''\<rparr>)) 50 1000
        \<lparr>ci_operation_timestamp := Some ''2025-01-15T00:00:00Z''\<rparr>) = Inr e \<and>
     rg_minimum (ce_remaining_reward e) = 100"
proof -
  let ?p = "(observation FS_known ''30'' ''30'')\<lparr>cg_period_start := Some ''2025-02-01T00:00:00Z''\<rparr>"
  let ?i = "sample_input True (Some ?p) 50 1000 \<lparr>ci_operation_timestamp := Some ''2025-01-15T00:00:00Z''\<rparr>"
  have r: "read_instant ''2025-02-01T00:00:00Z'' = Some 1738368000000"
    "read_instant ''2025-01-15T00:00:00Z'' = Some 1736899200000" by code_simp+
  have st: "rp_start (reset_details ref_rt (sample_cap True) (Some ?p) (Some ''2025-01-15T00:00:00Z'')) =
      Some ''2025-02-01T00:00:00Z''"
    by (simp add: reset_details_def Let_def)
  have ap: "rp_applied (reset_details ref_rt (sample_cap True) (Some ?p) (Some ''2025-01-15T00:00:00Z''))"
    unfolding reset_applied_iff using st r by (simp add: Let_def parse_timestamp_def)
  have cand: "requested_candidate ?i =
      \<lparr>cd_reward_units = Some (DL_text (DBig 50)), cd_eligible_spend_jpy = Some (num 1000)\<rparr>"
    by (simp add: requested_candidate_def sample_input_def)
  have pr: "progress_range_of ref_rt (sample_cap True) (Some ?p)
      (reset_details ref_rt (sample_cap True) (Some ?p) (Some ''2025-01-15T00:00:00Z'')) =
    Inr (zero_progress FS_known ''progress_period_does_not_match_operation_reset_applied'')"
    using ap by (simp add: progress_range_of_def Let_def)
  have 1: "(case cd_reward_units (requested_candidate ?i) of None \<Rightarrow> Inr None | Some v \<Rightarrow> rmap Some (reward ref_rt v)) = Inr (Some 50)"
    "non_negative_spend (cd_eligible_spend_jpy (requested_candidate ?i)) = Inr (Some 1000)"
    unfolding cand by (simp_all add: reward_def non_negative_spend_def safe_int_def)
  from range_availability_total [OF 1] obtain ar as av co where
    av: "range_availability ref_rt (remaining_reward_range ref_rt
       (zero_progress FS_known ''progress_period_does_not_match_operation_reset_applied'') (Some 100))
     (remaining_spend_range (zero_progress FS_known ''progress_period_does_not_match_operation_reset_applied'') (Some 10000))
     (requested_candidate ?i) True
     (pv_uncertain (zero_progress FS_known ''progress_period_does_not_match_operation_reset_applied'')) = Inr (ar, as, av, co)"
    by blast
  have sel: "ci_cap ?i = sample_cap True" "ci_progress ?i = Some ?p"
    "ci_operation_timestamp ?i = Some ''2025-01-15T00:00:00Z''"
    by (simp_all add: sample_input_def)
  from evaluate_cap_compute [of ref_rt ?i, unfolded sel sample_cap_sel(4), OF pr sample_limits refl refl av]
  obtain e where e: "evaluate_cap ref_rt ?i = Inr e" by blast
  have rd: "ce_reset_period e = reset_details ref_rt (sample_cap True) (Some ?p) (Some ''2025-01-15T00:00:00Z'')"
    using evaluate_cap_reset [OF e] by (simp only: sel)
  have "reward ref_rt (DL_text (DBig 100)) = Inr 100" by (simp add: reward_def)
  with reset_restores_limits [OF ref.decimal_rounding_axioms e(1), of ?p 1736899200000 "DL_text (DBig 100)" 100]
    e rd representable_small [of 100] st r
  show ?thesis by (simp add: parse_timestamp_def sel)
qed

end
