(* ===== verification/Lifecycle.thy ===== *)
theory Lifecycle
  imports EngineMath
begin

text \<open>
  Corrections of earned rewards (\<open>packages/rule-engine/src/m1b-lifecycle.ts\<close>): refund,
  reversal, clawback and expiry.  Each operation returns instructions (a credit of
  paid, a debit of reward units) and never edits a ledger.
\<close>

section \<open>State\<close>

datatype lifecycle_kind = LK_refund | LK_reversal | LK_expiry | LK_clawback

datatype lifecycle_status = LS_applied | LS_no_op | LS_not_due | LS_conditional | LS_rejected

record lifecycle_condition =
  lc_code :: string
  lc_message :: string

record lifecycle_reward_target =
  lt_component_id :: "string option"
  lt_quantity :: quantity
  lt_clawback :: "clawback_policy option"
  lt_settlement :: "settlement option"
  lt_expiry :: "expiry option"

datatype clawback_trigger = TG_refund | TG_reversal | TG_manual

record clawback_input =
  ci_reward :: lifecycle_reward_target
  ci_policy :: "clawback_policy option"
  ci_trigger :: "clawback_trigger option"
  ci_refund_amount_jpy :: "decimal_input option"
  ci_original_amount_jpy :: "decimal_input option"
  ci_provider_defined_units :: "decimal_input option"
  ci_rounding_mode :: "rounding_mode option"
  ci_original_operation_id :: "string option"

record refund_input =
  ri_principal_quantity :: "quantity option"
  ri_original_operation_id :: "string option"
  ri_reward :: "lifecycle_reward_target option"
  ri_refund_amount_jpy :: "decimal_input option"
  ri_original_amount_jpy :: "decimal_input option"
  ri_clawback :: "clawback_policy option"
  ri_provider_defined_units :: "decimal_input option"
  ri_rounding_mode :: "rounding_mode option"
  ri_operation_id :: "string option"

record reversal_input =
  vi_principal_quantity :: "quantity option"
  vi_original_operation_id :: "string option"
  vi_reward :: "lifecycle_reward_target option"
  vi_clawback :: "clawback_policy option"
  vi_provider_defined_units :: "decimal_input option"
  vi_rounding_mode :: "rounding_mode option"
  vi_operation_id :: "string option"

record expiry_input =
  ei_reward :: lifecycle_reward_target
  ei_at :: "string option"
  ei_operation_id :: "string option"

record principal_instruction =
  pi_instruction_id :: string
  pi_kind :: lifecycle_kind
  pi_sign :: reward_sign
  pi_direction :: direction
  pi_movement_role :: movement_role
  pi_original_operation_id :: "string option"
  pi_quantity :: quantity

record reward_debit_instruction =
  di_instruction_id :: string
  di_kind :: lifecycle_kind
  di_sign :: reward_sign
  di_source_component_id :: "string option"
  di_quantity :: quantity
  di_reason_code :: string

record expiry_instruction =
  xi_instruction_id :: string
  xi_source_component_id :: "string option"
  xi_quantity :: quantity
  xi_expired_at :: string

datatype reward_instruction = RI_debit reward_debit_instruction | RI_expiry expiry_instruction

record lifecycle_result =
  lr_status :: lifecycle_status
  lr_kind :: lifecycle_kind
  lr_reason_code :: string
  lr_conditions :: "lifecycle_condition list"
  lr_principal_instruction :: "principal_instruction option"
  lr_reward_instruction :: "reward_instruction option"

section \<open>Reading quantities\<close>

definition lifecycle_parse_input :: "decimal_input \<Rightarrow> string \<Rightarrow> rat res" where
  "lifecycle_parse_input value label =
     (case (case value of
              DStr t \<Rightarrow> decimal_string t
            | DBig n \<Rightarrow> if n < 0 then Inl ''negative'' else decimal_string (int_text n)
            | DNum n \<Rightarrow>
                if \<not> is_safe_integer n \<or> number_int n < 0 then Inl ''not_a_safe_nonnegative_integer''
                else decimal_string (int_text (number_int n))) of
        Inl e \<Rightarrow> Inl (''invalid_'' @ label @ '':'' @ e)
      | Inr q \<Rightarrow> Inr q)"

definition lifecycle_parse_optional :: "decimal_input option \<Rightarrow> string \<Rightarrow> rat option res" where
  "lifecycle_parse_optional value label =
     (case value of None \<Rightarrow> Inr None | Some v \<Rightarrow> rmap Some (lifecycle_parse_input v label))"

definition quantity_units :: "runtime \<Rightarrow> quantity \<Rightarrow> int res" where
  "quantity_units rt q =
     rbind (lifecycle_parse_input (DStr (q_amount q)) ''reward_amount'') (\<lambda>a.
     rbind (power10 (ar_scale (q_asset q))) (\<lambda>p. decimal_to_bigint (dmul rt a (of_int p)) RM_exact))"

definition quantity_from_units :: "runtime \<Rightarrow> quantity \<Rightarrow> int \<Rightarrow> quantity res" where
  "quantity_from_units rt q units =
     (if units < 0 then Inl ''negative_adjustment_units''
      else rmap (\<lambda>a. \<lparr>q_asset = q_asset q, q_amount = a\<rparr>) (amount_from_units rt units (ar_scale (q_asset q))))"

section \<open>Instructions\<close>

definition lifecycle_result_of ::
    "lifecycle_kind \<Rightarrow> lifecycle_status \<Rightarrow> string \<Rightarrow> lifecycle_condition list \<Rightarrow>
     principal_instruction option \<Rightarrow> reward_instruction option \<Rightarrow> lifecycle_result" where
  "lifecycle_result_of kind status reason conditions paid reward =
     \<lparr>lr_status = status, lr_kind = kind, lr_reason_code = reason, lr_conditions = conditions,
      lr_principal_instruction = paid, lr_reward_instruction = reward\<rparr>"

text \<open>A result that carries its reason as its only condition.\<close>

definition explained ::
    "lifecycle_kind \<Rightarrow> lifecycle_status \<Rightarrow> string \<Rightarrow> string \<Rightarrow> principal_instruction option \<Rightarrow>
     lifecycle_result" where
  "explained kind status reason message paid =
     lifecycle_result_of kind status reason [\<lparr>lc_code = reason, lc_message = message\<rparr>] paid None"

definition kind_text :: "lifecycle_kind \<Rightarrow> string" where
  "kind_text k = (case k of LK_refund \<Rightarrow> ''refund'' | LK_reversal \<Rightarrow> ''reversal''
     | LK_expiry \<Rightarrow> ''expiry'' | LK_clawback \<Rightarrow> ''clawback'')"

definition adjustment_id :: "lifecycle_kind \<Rightarrow> lifecycle_reward_target \<Rightarrow> string option \<Rightarrow> string" where
  "adjustment_id kind target operation_id =
     kind_text kind @ '':'' @ default_to ''operation'' operation_id @ '':'' @
     default_to ''component'' (lt_component_id target)"

definition principal_instruction_of ::
    "lifecycle_kind \<Rightarrow> quantity option \<Rightarrow> string option \<Rightarrow> string option \<Rightarrow> principal_instruction option" where
  "principal_instruction_of kind paid original_operation_id operation_id =
     map_option (\<lambda>q. \<lparr>pi_instruction_id = kind_text kind @ '':'' @ default_to ''operation'' operation_id @ '':principal'',
       pi_kind = kind, pi_sign = RS_credit, pi_direction = D_return,
       pi_movement_role = (if kind = LK_refund then MR_refund else MR_reversal),
       pi_original_operation_id = original_operation_id, pi_quantity = q\<rparr>) paid"

definition reward_debit ::
    "runtime \<Rightarrow> lifecycle_kind \<Rightarrow> lifecycle_reward_target \<Rightarrow> int \<Rightarrow> string \<Rightarrow> string option \<Rightarrow>
     reward_instruction res" where
  "reward_debit rt kind target units reason operation_id =
     rmap (\<lambda>q. RI_debit \<lparr>di_instruction_id = adjustment_id kind target operation_id, di_kind = kind,
       di_sign = RS_debit, di_source_component_id = lt_component_id target, di_quantity = q,
       di_reason_code = reason\<rparr>) (quantity_from_units rt (lt_quantity target) units)"

section \<open>Clawback\<close>

definition parse_policy :: "clawback_input \<Rightarrow> clawback_policy" where
  "parse_policy input =
     default_to \<lparr>cp_on_refund = OR_unknown, cp_posting_delay_days = None, cp_notes = []\<rparr>
       (orelse (ci_policy input) (lt_clawback (ci_reward input)))"

definition bounded_ratio :: "runtime \<Rightarrow> rat option \<Rightarrow> rat option \<Rightarrow> rat option res" where
  "bounded_ratio rt refund original =
     (case (refund, original) of
        (Some r, Some w) \<Rightarrow>
          if w \<le> 0 then Inl ''original_amount_must_be_positive''
          else if r < 0 \<or> w < r then Inl ''refund_amount_out_of_bounds''
          else Inr (Some (ddiv rt r w))
      | _ \<Rightarrow> Inr None)"

definition applied_debit :: "lifecycle_kind \<Rightarrow> string \<Rightarrow> reward_instruction \<Rightarrow> lifecycle_result" where
  "applied_debit kind reason instruction =
     lifecycle_result_of kind LS_applied reason [] None (Some instruction)"

definition provider_clawback ::
    "runtime \<Rightarrow> clawback_input \<Rightarrow> lifecycle_kind \<Rightarrow> int \<Rightarrow> lifecycle_result res" where
  "provider_clawback rt input kind earned =
     rbind (lifecycle_parse_optional (ci_provider_defined_units input) ''provider_defined_units'') (\<lambda>provider.
       case provider of
         None \<Rightarrow> Inr (explained kind LS_conditional ''provider_clawback_required''
           ''provider-defined debit quantity was not supplied'' None)
       | Some p \<Rightarrow> Inr
           (case rbind (power10 (ar_scale (q_asset (lt_quantity (ci_reward input))))) (\<lambda>t.
                   rbind (decimal_to_bigint (dmul rt p (of_int t)) RM_exact) (\<lambda>units.
                     if earned < units then
                       Inr (explained kind LS_rejected ''clawback_exceeds_earned''
                         ''provider-defined clawback exceeds earned units'' None)
                     else rmap (applied_debit kind ''provider_defined_clawback'')
                       (reward_debit rt kind (ci_reward input) units ''provider_defined_clawback'' None))) of
              Inr r \<Rightarrow> r
            | Inl e \<Rightarrow> explained kind LS_rejected ''invalid_provider_clawback'' e None))"

definition proportional_clawback ::
    "runtime \<Rightarrow> clawback_input \<Rightarrow> lifecycle_kind \<Rightarrow> int \<Rightarrow> lifecycle_result" where
  "proportional_clawback rt input kind earned =
     (case rbind (lifecycle_parse_optional (ci_refund_amount_jpy input) ''refund_amount_jpy'') (\<lambda>refund.
             rbind (lifecycle_parse_optional (ci_original_amount_jpy input) ''original_amount_jpy'') (\<lambda>original.
             rbind (bounded_ratio rt refund original) (\<lambda>ratio.
               case ratio of
                 None \<Rightarrow> Inr (explained kind LS_conditional ''refund_amounts_required''
                   ''proportional clawback requires refund and original amounts'' None)
               | Some x \<Rightarrow>
                   rbind (decimal_to_bigint (dmul rt (of_int earned) x)
                            (default_to RM_floor (ci_rounding_mode input))) (\<lambda>units.
                     rmap (applied_debit kind ''proportional_clawback'')
                       (reward_debit rt kind (ci_reward input) units ''proportional_clawback'' None))))) of
        Inr r \<Rightarrow> r
      | Inl e \<Rightarrow> explained kind LS_rejected ''invalid_proportional_clawback'' e None)"

definition calculate_clawback_adjustment :: "runtime \<Rightarrow> clawback_input \<Rightarrow> lifecycle_result res" where
  "calculate_clawback_adjustment rt input =
     (let kind = (if ci_trigger input = Some TG_reversal then LK_reversal else LK_clawback)
      in case quantity_units rt (lt_quantity (ci_reward input)) of
           Inl e \<Rightarrow> Inr (explained kind LS_rejected ''invalid_reward_quantity'' e None)
         | Inr earned \<Rightarrow>
             (case cp_on_refund (parse_policy input) of
                OR_none \<Rightarrow> Inr (lifecycle_result_of kind LS_no_op ''clawback_not_required'' [] None None)
              | OR_unknown \<Rightarrow> Inr (explained kind LS_conditional ''clawback_policy_unknown''
                  ''provider clawback behavior is unknown'' None)
              | OR_provider_defined \<Rightarrow> provider_clawback rt input kind earned
              | OR_full \<Rightarrow> rmap (applied_debit kind ''full_clawback'')
                  (reward_debit rt kind (ci_reward input) earned ''full_clawback'' None)
              | OR_proportional \<Rightarrow> Inr (proportional_clawback rt input kind earned)))"

section \<open>Refund and reversal\<close>

text \<open>The correction of the principal, with the outcome of the clawback carried over.\<close>

definition with_principal ::
    "lifecycle_kind \<Rightarrow> principal_instruction option \<Rightarrow> lifecycle_result \<Rightarrow> lifecycle_result" where
  "with_principal kind paid r =
     lifecycle_result_of kind (lr_status r) (lr_reason_code r) (lr_conditions r) paid
       (lr_reward_instruction r)"

definition calculate_refund_adjustment :: "runtime \<Rightarrow> refund_input \<Rightarrow> lifecycle_result res" where
  "calculate_refund_adjustment rt input =
     (let paid = principal_instruction_of LK_refund (ri_principal_quantity input)
            (ri_original_operation_id input) (ri_operation_id input)
      in if ri_principal_quantity input = None then
           Inr (explained LK_refund LS_rejected ''refund_principal_required''
             ''refund requires an explicit principal quantity'' None)
         else case ri_reward input of
           None \<Rightarrow> Inr (explained LK_refund LS_conditional ''refund_reward_component_unknown''
             ''principal refund is explicit but no reward component was supplied'' paid)
         | Some reward \<Rightarrow>
             rmap (with_principal LK_refund paid) (calculate_clawback_adjustment rt
               \<lparr>ci_reward = reward, ci_policy = ri_clawback input, ci_trigger = Some TG_refund,
                ci_refund_amount_jpy = ri_refund_amount_jpy input,
                ci_original_amount_jpy = ri_original_amount_jpy input,
                ci_provider_defined_units = ri_provider_defined_units input,
                ci_rounding_mode = Some (default_to RM_floor (ri_rounding_mode input)),
                ci_original_operation_id = ri_original_operation_id input\<rparr>))"

definition full_correction :: clawback_policy where
  "full_correction = \<lparr>cp_on_refund = OR_full, cp_posting_delay_days = None,
     cp_notes = ''reversal defaults to full correction''\<rparr>"

definition calculate_reversal_adjustment :: "runtime \<Rightarrow> reversal_input \<Rightarrow> lifecycle_result res" where
  "calculate_reversal_adjustment rt input =
     (let paid = principal_instruction_of LK_reversal (vi_principal_quantity input)
            (vi_original_operation_id input) (vi_operation_id input)
      in if vi_principal_quantity input = None then
           Inr (explained LK_reversal LS_rejected ''reversal_principal_required''
             ''reversal requires an explicit principal quantity'' None)
         else case vi_reward input of
           None \<Rightarrow> Inr (explained LK_reversal LS_conditional ''reversal_reward_component_unknown''
             ''principal reversal is explicit but no reward component was supplied'' paid)
         | Some reward \<Rightarrow>
             rmap (with_principal LK_reversal paid) (calculate_clawback_adjustment rt
               \<lparr>ci_reward = reward, ci_policy = Some (default_to full_correction (vi_clawback input)),
                ci_trigger = Some TG_reversal, ci_refund_amount_jpy = None, ci_original_amount_jpy = None,
                ci_provider_defined_units = vi_provider_defined_units input,
                ci_rounding_mode = Some (default_to RM_floor (vi_rounding_mode input)),
                ci_original_operation_id = vi_original_operation_id input\<rparr>))"

section \<open>Expiry\<close>

datatype due = Due string | Not_due string | Undetermined string

definition compare_expiry :: "int \<Rightarrow> int option \<Rightarrow> string \<Rightarrow> due" where
  "compare_expiry at_time expiry_time expires_at =
     (case expiry_time of
        Some e \<Rightarrow> if e \<le> at_time then Due expires_at else Not_due ''expiry_not_reached''
      | None \<Rightarrow> Not_due ''expiry_not_reached'')"

definition expiry_due :: "runtime \<Rightarrow> lifecycle_reward_target \<Rightarrow> string \<Rightarrow> due res" where
  "expiry_due rt target now =
     (case lt_expiry target of
        None \<Rightarrow> Inr (Undetermined ''expiry_metadata_unknown'')
      | Some x \<Rightarrow>
          (case ex_policy x of
             EP_none \<Rightarrow> Inr (Not_due ''no_expiry'')
           | EP_fixed_date \<Rightarrow>
               (case ex_expires_at x of
                  None \<Rightarrow> Inr (Undetermined ''expiry_date_unknown'')
                | Some expires_at \<Rightarrow>
                    (case (rt_date_parse rt now, rt_date_parse rt expires_at) of
                       (Some t, Some e) \<Rightarrow> Inr (compare_expiry t (Some e) expires_at)
                     | _ \<Rightarrow> Inr (Undetermined ''invalid_expiry_timestamp'')))
           | EP_relative_to_posting \<Rightarrow>
               (case (Option.bind (lt_settlement target) se_posted_at, ex_duration_days x) of
                  (Some posting, Some days) \<Rightarrow>
                    (case (rt_date_parse rt posting, rt_date_parse rt now) of
                       (Some p, Some t) \<Rightarrow>
                         let e = p + days * 86400000
                         in if valid_instant e
                            then Inr (compare_expiry t (rt_date_parse rt (iso_text e)) (iso_text e))
                            else Inl ''Invalid time value''
                     | _ \<Rightarrow> Inr (Undetermined ''invalid_expiry_timestamp''))
                | _ \<Rightarrow> Inr (Undetermined ''posting_time_required_for_expiry''))
           | _ \<Rightarrow> Inr (Undetermined ''provider_expiry_unknown'')))"

definition calculate_expiry_adjustment :: "runtime \<Rightarrow> expiry_input \<Rightarrow> lifecycle_result" where
  "calculate_expiry_adjustment rt input =
     (case ei_at input of
        None \<Rightarrow> explained LK_expiry LS_conditional ''expiry_time_required''
          ''expiry evaluation requires an explicit evaluation timestamp'' None
      | Some now \<Rightarrow>
          (case expiry_due rt (ei_reward input) now of
             Inl e \<Rightarrow> explained LK_expiry LS_conditional ''invalid_expiry_metadata'' e None
           | Inr (Undetermined reason) \<Rightarrow> explained LK_expiry LS_conditional reason
               ''expiry boundary depends on unknown provider or posting state'' None
           | Inr (Not_due reason) \<Rightarrow> lifecycle_result_of LK_expiry LS_not_due reason [] None None
           | Inr (Due expires_at) \<Rightarrow>
               (case rbind (quantity_units rt (lt_quantity (ei_reward input)))
                       (quantity_from_units rt (lt_quantity (ei_reward input))) of
                  Inr q \<Rightarrow> lifecycle_result_of LK_expiry LS_applied ''reward_expired'' [] None
                    (Some (RI_expiry \<lparr>xi_instruction_id =
                        adjustment_id LK_expiry (ei_reward input) (ei_operation_id input),
                      xi_source_component_id = lt_component_id (ei_reward input), xi_quantity = q,
                      xi_expired_at = expires_at\<rparr>))
                | Inl e \<Rightarrow> explained LK_expiry LS_rejected ''invalid_reward_quantity'' e None)))"

section \<open>Adapters\<close>

definition lifecycle_target_of :: "reward_component \<Rightarrow> lifecycle_reward_target" where
  "lifecycle_target_of c = \<lparr>lt_component_id = Some (rc_component_id c), lt_quantity = rc_quantity c,
     lt_clawback = Some (rc_clawback c), lt_settlement = Some (rc_settlement c), lt_expiry = Some (rc_expiry c)\<rparr>"

definition principal_instruction_as_movement ::
    "principal_instruction \<Rightarrow> string \<Rightarrow> string \<Rightarrow> asset_movement" where
  "principal_instruction_as_movement i movement_id operation_id =
     \<lparr>am_movement_id = movement_id, am_operation_id = operation_id, am_direction = pi_direction i,
      am_movement_role = pi_movement_role i, am_quantity = pi_quantity i, am_source_lot_id = None,
      am_destination_lot_id = None,
      am_notes = ''lifecycle:'' @ kind_text (pi_kind i) @ '':original:'' @
        default_to ''unknown'' (pi_original_operation_id i)\<rparr>"


section \<open>A debit never exceeds what was earned\<close>

lemma lifecycle_parse_input_eq:
  "lifecycle_parse_input v l = Inr q \<Longrightarrow> 0 \<le> q"
  using text_value_nonneg
  by (auto simp: lifecycle_parse_input_def res_simps split: decimal_input.splits if_splits sum.splits)

lemma lifecycle_parse_DBig [simp]: "0 \<le> n \<Longrightarrow> lifecycle_parse_input (DBig n) l = Inr (of_int n)"
  by (cases n) (simp_all add: lifecycle_parse_input_def decimal_string_def int_text_def decimal_nat_text)

lemma lifecycle_result_sel [simp]:
  "lr_status (lifecycle_result_of k s r c p w) = s" "lr_kind (lifecycle_result_of k s r c p w) = k"
  "lr_reason_code (lifecycle_result_of k s r c p w) = r"
  "lr_principal_instruction (lifecycle_result_of k s r c p w) = p"
  "lr_reward_instruction (lifecycle_result_of k s r c p w) = w"
  by (simp_all add: lifecycle_result_of_def)

lemma explained_sel [simp]:
  "lr_status (explained k s r m p) = s" "lr_reason_code (explained k s r m p) = r"
  "lr_principal_instruction (explained k s r m p) = p" "lr_reward_instruction (explained k s r m p) = None"
  by (simp_all add: explained_def)

lemma applied_debit_sel [simp]:
  "lr_status (applied_debit k r i) = LS_applied" "lr_reason_code (applied_debit k r i) = r"
  "lr_reward_instruction (applied_debit k r i) = Some i" "lr_principal_instruction (applied_debit k r i) = None"
  by (simp_all add: applied_debit_def)

lemma with_principal_sel [simp]:
  "lr_status (with_principal k p r) = lr_status r" "lr_reason_code (with_principal k p r) = lr_reason_code r"
  "lr_principal_instruction (with_principal k p r) = p"
  "lr_reward_instruction (with_principal k p r) = lr_reward_instruction r"
  by (simp_all add: with_principal_def)

definition debits :: "runtime \<Rightarrow> lifecycle_reward_target \<Rightarrow> lifecycle_result \<Rightarrow> int \<Rightarrow> bool" where
  "debits rt target r units \<longleftrightarrow>
     (\<exists>d. lr_reward_instruction r = Some (RI_debit d) \<and> di_sign d = RS_debit \<and>
        di_source_component_id d = lt_component_id target \<and>
        quantity_from_units rt (lt_quantity target) units = Inr (di_quantity d))"

lemma reward_debit_Inr:
  assumes "reward_debit rt kind target units reason op = Inr i"
  shows "debits rt target (applied_debit kind' reason' i) units"
  using assms by (auto simp: reward_debit_def rmap_Inr_iff debits_def)

lemma quantity_units_nonneg:
  assumes "decimal_rounding rt" "quantity_units rt q = Inr u"
  shows "0 \<le> u"
proof -
  obtain a p where "lifecycle_parse_input (DStr (q_amount q)) ''reward_amount'' = Inr a"
    "power10 (ar_scale (q_asset q)) = Inr p" "decimal_to_bigint (dmul rt a (of_int p)) RM_exact = Inr u"
    using assms(2) by (auto simp: quantity_units_def rbind_Inr_iff)
  with decimal_rounding.dmul_nonneg [OF assms(1)] lifecycle_parse_input_eq show ?thesis
    by (intro decimal_to_bigint_nonneg [of _ RM_exact]) (auto simp: res_simps)
qed

lemma decimal_to_bigint_le:
  assumes "decimal_to_bigint x mode = Inr n" "x \<le> of_int m"
  shows "n \<le> m"
proof -
  have "half_up x \<le> m" if "0 \<le> x"
  proof -
    from that have "half_up x = \<lfloor>x + 1 / 2\<rfloor>" by (simp add: half_up_def)
    with assms(2) show ?thesis by linarith
  qed
  moreover have "half_up x \<le> m" if "\<not> 0 \<le> x"
  proof -
    have h: "half_up x = - \<lfloor>- x + 1 / 2\<rfloor>" using that by (simp only: half_up_def if_False)
    have "\<lfloor>- x\<rfloor> \<le> \<lfloor>- x + 1 / 2\<rfloor>" by (rule floor_mono) simp
    moreover have "- m \<le> \<lfloor>- x\<rfloor>" using assms(2) by (simp add: le_floor_iff)
    ultimately show ?thesis using h by linarith
  qed
  moreover have "\<lfloor>x\<rfloor> \<le> m" using assms(2) by linarith
  moreover have "\<lceil>x\<rceil> \<le> m" using assms(2) by (simp add: ceiling_le_iff)
  ultimately show ?thesis
    using assms(1) by (cases mode) (auto simp: decimal_to_bigint_def split: if_splits)
qed

lemma provider_clawback_debits:
  assumes "decimal_rounding rt" "provider_clawback rt input kind earned = Inr r"
    and "lr_reward_instruction r = Some i"
  shows "lr_status r = LS_applied \<and> (\<exists>u. 0 \<le> u \<and> u \<le> earned \<and> debits rt (ci_reward input) r u)"
proof -
  obtain p where p: "lifecycle_parse_optional (ci_provider_defined_units input) ''provider_defined_units'' = Inr (Some p)"
    using assms(2,3) by (auto simp: provider_clawback_def rbind_Inr_iff split: option.splits)
  then have p0: "0 \<le> p"
    by (auto simp: lifecycle_parse_optional_def rmap_Inr_iff lifecycle_parse_input_eq split: option.splits)
  let ?m = "rbind (power10 (ar_scale (q_asset (lt_quantity (ci_reward input))))) (\<lambda>t.
                   rbind (decimal_to_bigint (dmul rt p (of_int t)) RM_exact) (\<lambda>units.
                     if earned < units then
                       Inr (explained kind LS_rejected ''clawback_exceeds_earned''
                         ''provider-defined clawback exceeds earned units'' None)
                     else rmap (applied_debit kind ''provider_defined_clawback'')
                       (reward_debit rt kind (ci_reward input) units ''provider_defined_clawback'' None)))"
  have r: "r = (case ?m of Inr r \<Rightarrow> r | Inl e \<Rightarrow> explained kind LS_rejected ''invalid_provider_clawback'' e None)"
    using assms(2) unfolding provider_clawback_def p by simp
  then have m: "?m = Inr r" using assms(3) by (cases ?m) auto
  then obtain t units where t: "power10 (ar_scale (q_asset (lt_quantity (ci_reward input)))) = Inr t"
    "decimal_to_bigint (dmul rt p (of_int t)) RM_exact = Inr units"
    "(if earned < units then
        Inr (explained kind LS_rejected ''clawback_exceeds_earned''
          ''provider-defined clawback exceeds earned units'' None)
      else rmap (applied_debit kind ''provider_defined_clawback'')
        (reward_debit rt kind (ci_reward input) units ''provider_defined_clawback'' None)) = Inr r"
    by (auto simp: rbind_Inr_iff)
  have "0 \<le> units"
    by (rule decimal_to_bigint_nonneg [OF t(2)])
      (use decimal_rounding.dmul_nonneg [OF assms(1) p0] t(1) in \<open>auto simp: res_simps\<close>)
  moreover have "units \<le> earned" using t(3) assms(3) by (auto split: if_splits)
  moreover have "debits rt (ci_reward input) r units"
    using t(3) assms(3) by (auto simp: rmap_Inr_iff reward_debit_Inr split: if_splits)
  moreover have "lr_status r = LS_applied"
    using t(3) assms(3) by (auto simp: rmap_Inr_iff split: if_splits)
  ultimately show ?thesis by blast
qed

text \<open>The proportional branch, opened once.\<close>

lemma proportional_clawback_debits:
  assumes "lr_reward_instruction (proportional_clawback rt input kind earned) = Some i"
  obtains refund original u where
    "lifecycle_parse_optional (ci_refund_amount_jpy input) ''refund_amount_jpy'' = Inr (Some refund)"
    "lifecycle_parse_optional (ci_original_amount_jpy input) ''original_amount_jpy'' = Inr (Some original)"
    "0 < original" "0 \<le> refund" "refund \<le> original"
    "decimal_to_bigint (dmul rt (of_int earned) (ddiv rt refund original))
       (default_to RM_floor (ci_rounding_mode input)) = Inr u"
    "debits rt (ci_reward input) (proportional_clawback rt input kind earned) u"
    "lr_status (proportional_clawback rt input kind earned) = LS_applied"
proof -
  let ?k = "\<lambda>ratio. case ratio of
                 None \<Rightarrow> Inr (explained kind LS_conditional ''refund_amounts_required''
                   ''proportional clawback requires refund and original amounts'' None)
               | Some x \<Rightarrow>
                   rbind (decimal_to_bigint (dmul rt (of_int earned) x)
                            (default_to RM_floor (ci_rounding_mode input))) (\<lambda>units.
                     rmap (applied_debit kind ''proportional_clawback'')
                       (reward_debit rt kind (ci_reward input) units ''proportional_clawback'' None))"
  let ?m = "rbind (lifecycle_parse_optional (ci_refund_amount_jpy input) ''refund_amount_jpy'') (\<lambda>refund.
             rbind (lifecycle_parse_optional (ci_original_amount_jpy input) ''original_amount_jpy'') (\<lambda>original.
             rbind (bounded_ratio rt refund original) ?k))"
  let ?r = "proportional_clawback rt input kind earned"
  have r: "?r = (case ?m of Inr r \<Rightarrow> r | Inl e \<Rightarrow> explained kind LS_rejected ''invalid_proportional_clawback'' e None)"
    unfolding proportional_clawback_def ..
  then have m: "?m = Inr ?r" using assms by (cases ?m) auto
  then obtain refund original ratio where
    p: "lifecycle_parse_optional (ci_refund_amount_jpy input) ''refund_amount_jpy'' = Inr refund"
      "lifecycle_parse_optional (ci_original_amount_jpy input) ''original_amount_jpy'' = Inr original"
      "bounded_ratio rt refund original = Inr ratio" "?k ratio = Inr ?r"
    by (auto simp: rbind_Inr_iff)
  obtain x where x: "ratio = Some x"
  proof (cases ratio)
    case None
    with p(4) have "?r = explained kind LS_conditional ''refund_amounts_required''
      ''proportional clawback requires refund and original amounts'' None" by simp
    with assms show ?thesis by simp
  qed blast
  with p(3) obtain rf og where ro: "refund = Some rf" "original = Some og" "0 < og" "0 \<le> rf" "rf \<le> og"
    "x = ddiv rt rf og"
    by (auto simp: bounded_ratio_def split: option.splits if_splits)
  from p(4) x obtain u i' where u: "decimal_to_bigint (dmul rt (of_int earned) x)
      (default_to RM_floor (ci_rounding_mode input)) = Inr u"
    "reward_debit rt kind (ci_reward input) u ''proportional_clawback'' None = Inr i'"
    "?r = applied_debit kind ''proportional_clawback'' i'"
    by (auto simp: rbind_Inr_iff rmap_Inr_iff)
  show thesis
    using that [of rf og u] p(1,2) ro u reward_debit_Inr [OF u(2)] by simp
qed

text \<open>C28. Whatever the policy, a clawback debits at least nothing and at most the units the
  component earned, from that component and in its asset.\<close>

theorem clawback_at_most_earned:
  assumes "decimal_rounding rt" "calculate_clawback_adjustment rt input = Inr r"
    and "lr_reward_instruction r = Some i"
    and "quantity_units rt (lt_quantity (ci_reward input)) = Inr earned" "earned < int dec_limit"
  shows "\<exists>u. 0 \<le> u \<and> u \<le> earned \<and> lr_status r = LS_applied \<and> debits rt (ci_reward input) r u"
proof -
  define kind where "kind = (if ci_trigger input = Some TG_reversal then LK_reversal else LK_clawback)"
  have e0: "0 \<le> earned" by (rule quantity_units_nonneg [OF assms(1,4)])
  note call = assms(2) [unfolded calculate_clawback_adjustment_def kind_def [symmetric] assms(4) Let_def, simplified]
  show ?thesis
  proof (cases "cp_on_refund (parse_policy input)")
    case OR_full
    with call have "lr_status r = LS_applied" "debits rt (ci_reward input) r earned"
      by (auto simp: rmap_Inr_iff reward_debit_Inr)
    with e0 show ?thesis by blast
  next
    case OR_provider_defined
    with call have "provider_clawback rt input kind earned = Inr r" by simp
    from provider_clawback_debits [OF assms(1) this assms(3)] show ?thesis by blast
  next
    case OR_proportional
    with call have r: "r = proportional_clawback rt input kind earned" by simp
    from assms(3) [unfolded r] show ?thesis
    proof (rule proportional_clawback_debits)
      fix refund original u
      assume b: "0 < original" "0 \<le> refund" "refund \<le> original"
        and u: "decimal_to_bigint (dmul rt (of_int earned) (ddiv rt refund original))
          (default_to RM_floor (ci_rounding_mode input)) = Inr u"
        and d: "debits rt (ci_reward input) (proportional_clawback rt input kind earned) u"
        and st: "lr_status (proportional_clawback rt input kind earned) = LS_applied"
      have q: "0 \<le> ddiv rt refund original" using b by (intro decimal_rounding.ddiv_nonneg [OF assms(1)]) simp_all
      have q1: "ddiv rt refund original \<le> 1"
        unfolding ddiv_def using b by (intro decimal_rounding.round_le [OF assms(1)]) simp_all
      have rep: "representable (of_int earned)" using e0 assms(5) by (intro representable_int) simp
      have "dmul rt (of_int earned) (ddiv rt refund original) \<le> of_int earned"
        using decimal_rounding.dmul_fraction_le [OF assms(1) _ q1 rep] e0 by simp
      then have "u \<le> earned" by (rule decimal_to_bigint_le [OF u])
      moreover have "0 \<le> u"
        by (rule decimal_to_bigint_nonneg [OF u]) (use decimal_rounding.dmul_nonneg [OF assms(1) _ q] e0 in simp)
      ultimately show ?thesis using d st r by blast
    qed
  qed (use call assms(3) in auto)
qed

section \<open>The refunded share\<close>

context decimal_rounding begin

lemma floor_two_roundings:
  fixes e r w :: int
  assumes "0 \<le> e" "0 \<le> r" "0 < w" "e * r < 10 ^ 118"
  defines "x \<equiv> of_int (e * r) / of_int w :: rat"
    and "y \<equiv> dmul rt (of_int e) (ddiv rt (of_int r) (of_int w))"
  shows "\<lfloor>y\<rfloor> \<le> \<lfloor>x\<rfloor>" "\<lceil>x\<rceil> - 1 \<le> \<lfloor>y\<rfloor>"
proof -
  define q where "q = rt_round rt (of_int r / of_int w)"
  have q: "\<bar>q - of_int r / of_int w\<bar> * 10 ^ 119 \<le> of_int r / of_int w"
    using round_error [of "of_int r / of_int w"] assms(2,3) by (simp add: q_def)
  have xe: "x = of_int e * (of_int r / of_int w)" by (simp add: x_def)
  have x0: "0 \<le> x" using assms by (simp add: x_def)
  have "of_int e * (\<bar>q - of_int r / of_int w\<bar> * 10 ^ 119) \<le> of_int e * (of_int r / of_int w)"
    using q assms(1) by (intro mult_left_mono) simp_all
  moreover have "of_int e * \<bar>q - of_int r / of_int w\<bar> = \<bar>of_int e * q - x\<bar>"
    using assms(1) unfolding xe right_diff_distrib [symmetric] by (simp add: abs_mult)
  ultimately have z: "\<bar>of_int e * q - x\<bar> * 10 ^ 119 \<le> x" unfolding xe by (simp only: mult.assoc [symmetric])
  have zx: "of_int e * q \<le> 2 * x"
  proof -
    have "\<bar>of_int e * q - x\<bar> * 1 \<le> \<bar>of_int e * q - x\<bar> * 10 ^ 119" by (intro mult_left_mono) simp_all
    with z have "\<bar>of_int e * q - x\<bar> \<le> x" by (simp only: mult_1_right)
    then show ?thesis unfolding abs_le_iff by linarith
  qed
  have q0: "0 \<le> of_int e * q" using assms unfolding q_def by (intro mult_nonneg_nonneg round_nonneg) simp_all
  have "y = rt_round rt (of_int e * q)" by (simp add: y_def dmul_def ddiv_def q_def)
  then have "\<bar>y - of_int e * q\<bar> * 10 ^ 119 \<le> 2 * x"
    using round_error [of "of_int e * q"] q0 zx by simp
  then have "\<bar>y - x\<bar> * 10 ^ 119 \<le> 3 * x" using z by (simp add: abs_if split: if_splits)
  then have "\<bar>y - x\<bar> * 10 ^ 119 * of_int w \<le> 3 * x * of_int w" using assms(3) by (intro mult_right_mono) simp_all
  also have "3 * x * of_int w = 3 * of_int (e * r)" using assms(3) by (simp add: x_def)
  also have "\<dots> < 3 * 10 ^ 118"
  proof -
    have "(of_int (e * r) :: rat) < of_int (10 ^ 118)" using assms(4) by (simp only: of_int_less_iff)
    then show ?thesis by simp
  qed
  finally have "10 * (of_int w * \<bar>y - x\<bar>) < 3" by simp
  then have close: "\<bar>y - x\<bar> * of_int w < 1" unfolding mult.commute [of "\<bar>y - x\<bar>"] by linarith
  have xw: "x * of_int w = of_int (e * r)" using assms(3) by (simp add: x_def)
  show "\<lfloor>y\<rfloor> \<le> \<lfloor>x\<rfloor>"
  proof (rule ccontr)
    assume "\<not> ?thesis"
    then have k: "of_int (\<lfloor>x\<rfloor> + 1) \<le> y" by linarith
    have "x * of_int w < of_int (\<lfloor>x\<rfloor> + 1) * of_int w" using assms(3) by (intro mult_strict_right_mono) linarith+
    then have "e * r < (\<lfloor>x\<rfloor> + 1) * w" unfolding xw by (simp only: of_int_mult [symmetric] of_int_less_iff)
    then have "e * r + 1 \<le> (\<lfloor>x\<rfloor> + 1) * w" by simp
    then have "(of_int (e * r + 1) :: rat) \<le> of_int ((\<lfloor>x\<rfloor> + 1) * w)" by (simp only: of_int_le_iff)
    then have "x * of_int w + 1 \<le> of_int (\<lfloor>x\<rfloor> + 1) * of_int w" using xw by simp
    also have "\<dots> \<le> y * of_int w" using k assms(3) by (intro mult_right_mono) simp_all
    finally have "1 \<le> (y - x) * of_int w" by (simp add: algebra_simps)
    also have "\<dots> \<le> \<bar>y - x\<bar> * of_int w" using assms(3) by (intro mult_right_mono) simp_all
    finally show False using close by linarith
  qed
  show "\<lceil>x\<rceil> - 1 \<le> \<lfloor>y\<rfloor>"
  proof (rule ccontr)
    assume "\<not> ?thesis"
    then have k: "y < of_int (\<lceil>x\<rceil> - 1)" by linarith
    have "of_int (\<lceil>x\<rceil> - 1) * of_int w < x * of_int w" using assms(3) by (intro mult_strict_right_mono) linarith+
    then have "(\<lceil>x\<rceil> - 1) * w < e * r" unfolding xw by (simp only: of_int_mult [symmetric] of_int_less_iff)
    then have "(\<lceil>x\<rceil> - 1) * w + 1 \<le> e * r" by simp
    then have "(of_int ((\<lceil>x\<rceil> - 1) * w + 1) :: rat) \<le> of_int (e * r)" by (simp only: of_int_le_iff)
    then have "of_int (\<lceil>x\<rceil> - 1) * of_int w + 1 \<le> x * of_int w" using xw by simp
    moreover have "y * of_int w \<le> of_int (\<lceil>x\<rceil> - 1) * of_int w" using k assms(3) by (intro mult_right_mono) simp_all
    ultimately have "1 \<le> (x - y) * of_int w" by (simp add: algebra_simps)
    also have "\<dots> \<le> \<bar>y - x\<bar> * of_int w" using assms(3) by (intro mult_right_mono) simp_all
    finally show False using close by linarith
  qed
qed

end

text \<open>A proportional clawback with the default rounding debits the refunded share of the
  earned units, \<open>earned * refund / original\<close>, rounded down: never more than that share, and at
  most one unit less when the share is a whole number of units.\<close>

theorem proportional_clawback_share:
  assumes "decimal_rounding rt" "calculate_clawback_adjustment rt input = Inr r"
    and "cp_on_refund (parse_policy input) = OR_proportional"
    and "ci_rounding_mode input = None \<or> ci_rounding_mode input = Some RM_floor"
    and "quantity_units rt (lt_quantity (ci_reward input)) = Inr earned"
    and "lifecycle_parse_optional (ci_refund_amount_jpy input) ''refund_amount_jpy'' = Inr (Some (of_int refund))"
    and "lifecycle_parse_optional (ci_original_amount_jpy input) ''original_amount_jpy'' = Inr (Some (of_int original))"
    and "lr_reward_instruction r = Some i" "earned * refund < 10 ^ 118"
  shows "\<exists>u. debits rt (ci_reward input) r u \<and>
    u \<le> \<lfloor>of_int (earned * refund) / (of_int original :: rat)\<rfloor> \<and>
    \<lceil>of_int (earned * refund) / (of_int original :: rat)\<rceil> - 1 \<le> u"
proof -
  define kind where "kind = (if ci_trigger input = Some TG_reversal then LK_reversal else LK_clawback)"
  have r: "r = proportional_clawback rt input kind earned"
    using assms(2,3,5) by (simp add: calculate_clawback_adjustment_def kind_def)
  have e0: "0 \<le> earned" by (rule quantity_units_nonneg [OF assms(1,5)])
  from assms(8) [unfolded r] show ?thesis
  proof (rule proportional_clawback_debits)
    fix rf og u
    assume p: "lifecycle_parse_optional (ci_refund_amount_jpy input) ''refund_amount_jpy'' = Inr (Some rf)"
      "lifecycle_parse_optional (ci_original_amount_jpy input) ''original_amount_jpy'' = Inr (Some og)"
      and b: "0 < og" "0 \<le> rf"
      and u: "decimal_to_bigint (dmul rt (of_int earned) (ddiv rt rf og))
          (default_to RM_floor (ci_rounding_mode input)) = Inr u"
      and d: "debits rt (ci_reward input) (proportional_clawback rt input kind earned) u"
    have ro: "rf = of_int refund" "og = of_int original" using p assms(6,7) by simp_all
    then have ro0: "0 \<le> refund" "0 < original" using b by simp_all
    have "u = \<lfloor>dmul rt (of_int earned) (ddiv rt (of_int refund) (of_int original))\<rfloor>"
      using u assms(4) by (auto simp: ro decimal_to_bigint_def)
    with decimal_rounding.floor_two_roundings [OF assms(1) e0 ro0 assms(9)] d show ?thesis
      by (intro exI [of _ u]) (simp add: r del: of_int_mult)
  qed
qed


section \<open>Concrete clawbacks\<close>

definition sample_reward :: "string \<Rightarrow> lifecycle_reward_target" where
  "sample_reward amount = \<lparr>lt_component_id = Some ''bonus'',
     lt_quantity = \<lparr>q_asset = \<lparr>ar_asset_id = ''points'', ar_asset_kind = AK_reward_point,
       ar_program_id = None, ar_reward_class = None, ar_scale = 0\<rparr>, q_amount = amount\<rparr>,
     lt_clawback = None, lt_settlement = None, lt_expiry = None\<rparr>"

definition policy_of :: "on_refund \<Rightarrow> clawback_policy" where
  "policy_of p = \<lparr>cp_on_refund = p, cp_posting_delay_days = None, cp_notes = []\<rparr>"

definition sample_clawback :: "on_refund \<Rightarrow> string \<Rightarrow> int \<Rightarrow> int \<Rightarrow> clawback_input" where
  "sample_clawback p amount refund original = \<lparr>ci_reward = sample_reward amount, ci_policy = Some (policy_of p),
     ci_trigger = Some TG_refund, ci_refund_amount_jpy = Some (DBig refund),
     ci_original_amount_jpy = Some (DBig original), ci_provider_defined_units = None,
     ci_rounding_mode = None, ci_original_operation_id = None\<rparr>"

lemma sample_policy [simp]: "cp_on_refund (parse_policy (sample_clawback p a r w)) = p"
  by (simp add: parse_policy_def sample_clawback_def policy_of_def)

lemma sample_amounts [simp]:
  "0 \<le> r \<Longrightarrow> lifecycle_parse_optional (ci_refund_amount_jpy (sample_clawback p a r w)) l = Inr (Some (of_int r))"
  "0 \<le> w \<Longrightarrow> lifecycle_parse_optional (ci_original_amount_jpy (sample_clawback p a r w)) l = Inr (Some (of_int w))"
  "ci_rounding_mode (sample_clawback p a r w) = None" "ci_reward (sample_clawback p a r w) = sample_reward a"
  by (simp_all add: sample_clawback_def lifecycle_parse_optional_def)

lemma sample_units: "quantity_units ref_rt (lt_quantity (sample_reward ''3'')) = Inr 3"
  "quantity_units ref_rt (lt_quantity (sample_reward ''200'')) = Inr 200"
proof -
  have "is_decimal_text ''3''" "text_value ''3'' = 3" "is_decimal_text ''200''" "text_value ''200'' = 200"
    by code_simp+
  then show "quantity_units ref_rt (lt_quantity (sample_reward ''3'')) = Inr 3"
    "quantity_units ref_rt (lt_quantity (sample_reward ''200'')) = Inr 200"
    by (simp_all add: quantity_units_def sample_reward_def lifecycle_parse_input_def decimal_string_def
        power10_def dmul_def decimal_to_bigint_def)
qed

lemma sample_scale [simp]: "ar_scale (q_asset (lt_quantity (sample_reward a))) = 0"
  by (simp add: sample_reward_def)

lemma sample_debit:
  assumes "0 \<le> u" "u < int dec_limit"
  shows "\<exists>i. reward_debit ref_rt kind (sample_reward a) u reason op = Inr i"
  using assms ref.amount_from_units_eq [OF assms, of 0]
  by (simp add: reward_debit_def quantity_from_units_def)

lemma clawback_proportional_compute:
  assumes "0 \<le> r" "r \<le> w" "0 < w" "quantity_units ref_rt (lt_quantity (sample_reward a)) = Inr e"
    and "\<lfloor>dmul ref_rt (of_int e) (ddiv ref_rt (of_int r) (of_int w))\<rfloor> = u" "0 \<le> u" "u < int dec_limit"
  shows "\<exists>x i. calculate_clawback_adjustment ref_rt (sample_clawback OR_proportional a r w) = Inr x \<and>
    lr_reward_instruction x = Some i \<and> lr_status x = LS_applied \<and> debits ref_rt (sample_reward a) x u"
proof -
  obtain i where i: "reward_debit ref_rt LK_clawback (sample_reward a) u ''proportional_clawback'' None = Inr i"
    using sample_debit [OF assms(6,7)] by blast
  have ok: "\<not> (of_int w :: rat) \<le> 0" "\<not> ((of_int r :: rat) < 0 \<or> (of_int w :: rat) < of_int r)" "0 \<le> w"
    using assms(1-3) by simp_all
  have "calculate_clawback_adjustment ref_rt (sample_clawback OR_proportional a r w) =
      Inr (applied_debit LK_clawback ''proportional_clawback'' i)"
    using assms(1,3-5) ok i
    by (simp add: calculate_clawback_adjustment_def proportional_clawback_def bounded_ratio_def
        decimal_to_bigint_def) (simp add: sample_clawback_def)
  then show ?thesis using reward_debit_Inr [OF i] by simp
qed

lemma ref_third: "rt_round ref_rt (1 / 3) = of_int ((10 ^ 120 - 1) div 3) / 10 ^ 120"
proof -
  have n: "ndigits (Suc 0) = 1" "ndigits 3 = 1" by (simp_all add: ndigits.simps)
  have q: "quotient_of (1 / 3) = (1, 3)" by code_simp
  have e: "expo (1 / 3) = - 1" by (simp add: expo_def q n)
  have "(10 :: rat) powi (- 1 - (int 120 - 1)) = 10 powi (- int 120)" by simp
  also have "\<dots> = inverse (10 ^ 120)" by (simp only: power_int_minus power_int_of_nat)
  finally have s: "(10 :: rat) powi (- 1 - (int 120 - 1)) = 1 / 10 ^ 120" by (simp only: inverse_eq_divide)
  have f: "\<lfloor>(10 :: rat) ^ 120 / 3 + 1 / 2\<rfloor> = (10 ^ 120 - 1) div 3" by (rule floor_unique) simp_all
  have "rt_round ref_rt (1 / 3) = round_sig 120 (1 / 3)" by (simp only: ref_rt_def runtime.select_convs)
  also have "\<dots> = round_pos 120 (1 / 3)" by (simp add: round_sig_def)
  also have "\<dots> = of_int \<lfloor>(1 / 3 :: rat) / (1 / 10 ^ 120) + 1 / 2\<rfloor> * (1 / 10 ^ 120)"
    unfolding round_pos_def Let_def e s ..
  also have "(1 / 3) / (1 / 10 ^ 120) = (10 :: rat) ^ 120 / 3" by (simp only: divide_divide_eq_right mult_1 divide_divide_eq_left times_divide_eq_left)
  finally show ?thesis unfolding f by (simp only: mult_1_right times_divide_eq_right)
qed

text \<open>The division comes before the multiplication, so a whole share can lose a unit: refunding
  1000 of 3000 yen of a purchase that earned 3 points debits no point, while the refunded share
  is exactly one point.\<close>

theorem third_of_three_points_is_lost:
  "\<exists>r. calculate_clawback_adjustment ref_rt (sample_clawback OR_proportional ''3'' 1000 3000) = Inr r \<and>
     lr_status r = LS_applied \<and> debits ref_rt (sample_reward ''3'') r 0 \<and>
     of_int (3 * 1000) / (of_int 3000 :: rat) = 1"
proof -
  have "(1000 :: rat) / 3000 = 1 / 3" by simp
  then have q: "ddiv ref_rt (of_int 1000) (of_int 3000) = of_int ((10 ^ 120 - 1) div 3) / 10 ^ 120"
    using ref_third by (simp add: ddiv_def)
  have rep: "representable (of_nat (10 ^ 120 - 1) / 10 ^ 120)"
    by (rule representable_div) (simp add: dec_limit_def)
  have "of_int 3 * (of_int ((10 ^ 120 - 1) div 3) / (10 :: rat) ^ 120) = of_nat (10 ^ 120 - 1) / 10 ^ 120"
    by simp
  then have "dmul ref_rt (of_int 3) (ddiv ref_rt (of_int 1000) (of_int 3000)) = of_nat (10 ^ 120 - 1) / 10 ^ 120"
    unfolding q dmul_def using ref.round_exact [OF rep] by (simp only:)
  moreover have "\<lfloor>of_nat (10 ^ 120 - 1) / (10 :: rat) ^ 120\<rfloor> = 0" by (rule floor_unique) simp_all
  ultimately have "\<lfloor>dmul ref_rt (of_int 3) (ddiv ref_rt (of_int 1000) (of_int 3000))\<rfloor> = 0" by (simp only:)
  from clawback_proportional_compute [OF _ _ _ sample_units(1) this] show ?thesis
    by (auto simp: dec_limit_def)
qed

lemma sample_half: "\<lfloor>dmul ref_rt (of_int 200) (ddiv ref_rt (of_int 500) (of_int 1000))\<rfloor> = 100"
proof -
  have "rt_round ref_rt (1 / 2) = 1 / 2"
    using ref.round_exact [OF representable_div [of 5 1]] by (simp add: dec_limit_def)
  moreover have "(500 :: rat) / 1000 = 1 / 2" by simp
  ultimately have d: "ddiv ref_rt 500 1000 = 1 / 2" by (simp only: ddiv_def)
  show ?thesis unfolding dmul_def of_int_numeral d by simp
qed

theorem clawback_at_most_earned_witness:
  "\<exists>r u. calculate_clawback_adjustment ref_rt (sample_clawback OR_proportional ''200'' 500 1000) = Inr r \<and>
     u \<le> 200 \<and> debits ref_rt (sample_reward ''200'') r u"
proof -
  have "\<exists>x i. calculate_clawback_adjustment ref_rt (sample_clawback OR_proportional ''200'' 500 1000) = Inr x \<and>
    lr_reward_instruction x = Some i \<and> lr_status x = LS_applied \<and> debits ref_rt (sample_reward ''200'') x 100"
    by (rule clawback_proportional_compute [OF _ _ _ sample_units(2) sample_half]) (simp_all add: dec_limit_def)
  then obtain x i where x: "calculate_clawback_adjustment ref_rt (sample_clawback OR_proportional ''200'' 500 1000) = Inr x"
    "lr_reward_instruction x = Some i" by blast
  have "(200 :: int) < int dec_limit" by (simp add: dec_limit_def)
  from clawback_at_most_earned [OF ref.decimal_rounding_axioms x _ this] x(1) sample_units(2) show ?thesis by auto
qed

theorem proportional_clawback_share_witness:
  "\<exists>r u. calculate_clawback_adjustment ref_rt (sample_clawback OR_proportional ''200'' 500 1000) = Inr r \<and>
     u \<le> \<lfloor>of_int (200 * 500) / (of_int 1000 :: rat)\<rfloor> \<and> debits ref_rt (sample_reward ''200'') r u"
proof -
  have "\<exists>x i. calculate_clawback_adjustment ref_rt (sample_clawback OR_proportional ''200'' 500 1000) = Inr x \<and>
    lr_reward_instruction x = Some i \<and> lr_status x = LS_applied \<and> debits ref_rt (sample_reward ''200'') x 100"
    by (rule clawback_proportional_compute [OF _ _ _ sample_units(2) sample_half]) (simp_all add: dec_limit_def)
  then obtain x i where x: "calculate_clawback_adjustment ref_rt (sample_clawback OR_proportional ''200'' 500 1000) = Inr x"
    "lr_reward_instruction x = Some i" by blast
  from proportional_clawback_share [OF ref.decimal_rounding_axioms x(1) _ _ _ _ _ x(2), of 200 500 1000] x(1) sample_units(2)
  show ?thesis by auto
qed

section \<open>Refund and reversal outcomes\<close>

lemma rmap_with_principal:
  "rmap (with_principal k p) m = Inr r \<Longrightarrow> lr_principal_instruction r = p"
  by (auto simp: rmap_Inr_iff)

text \<open>Refunds and reversals never invent the principal: without an explicit principal
  quantity they are rejected with no instruction at all, and with one they credit exactly that
  quantity, whatever happens to the reward.\<close>

theorem principal_is_explicit:
  "(ri_principal_quantity refund = None \<longrightarrow>
      (\<exists>r. calculate_refund_adjustment rt refund = Inr r \<and> lr_status r = LS_rejected \<and>
        lr_principal_instruction r = None \<and> lr_reward_instruction r = None)) \<and>
   (\<forall>r q. ri_principal_quantity refund = Some q \<and> calculate_refund_adjustment rt refund = Inr r \<longrightarrow>
      (\<exists>p. lr_principal_instruction r = Some p \<and> pi_quantity p = q \<and> pi_sign p = RS_credit)) \<and>
   (vi_principal_quantity reversal = None \<longrightarrow>
      (\<exists>r. calculate_reversal_adjustment rt reversal = Inr r \<and> lr_status r = LS_rejected \<and>
        lr_principal_instruction r = None \<and> lr_reward_instruction r = None)) \<and>
   (\<forall>r q. vi_principal_quantity reversal = Some q \<and> calculate_reversal_adjustment rt reversal = Inr r \<longrightarrow>
      (\<exists>p. lr_principal_instruction r = Some p \<and> pi_quantity p = q \<and> pi_sign p = RS_credit))"
  by (auto simp: calculate_refund_adjustment_def calculate_reversal_adjustment_def principal_instruction_of_def
      Let_def dest: rmap_with_principal split: option.splits)

definition sample_refund :: "quantity option \<Rightarrow> refund_input" where
  "sample_refund q = \<lparr>ri_principal_quantity = q, ri_original_operation_id = None,
      ri_reward = Some (sample_reward ''200''), ri_refund_amount_jpy = None, ri_original_amount_jpy = None,
      ri_clawback = None, ri_provider_defined_units = None, ri_rounding_mode = None, ri_operation_id = None\<rparr>"

definition sample_reversal :: "clawback_policy option \<Rightarrow> reversal_input" where
  "sample_reversal c = \<lparr>vi_principal_quantity = Some (lt_quantity (sample_reward ''200'')),
      vi_original_operation_id = None, vi_reward = Some (sample_reward ''200''), vi_clawback = c,
      vi_provider_defined_units = None, vi_rounding_mode = None, vi_operation_id = None\<rparr>"

theorem principal_is_explicit_witness:
  "\<exists>r. calculate_refund_adjustment ref_rt (sample_refund None) = Inr r \<and> lr_status r = LS_rejected"
  using principal_is_explicit [of "sample_refund None" ref_rt "sample_reversal None"]
  by (auto simp: sample_refund_def)

text \<open>A reversal without an explicit policy debits every unit the component earned, even
  where the component's own clawback policy asks for less.\<close>

theorem reversal_defaults_to_full:
  assumes "decimal_text rt" "vi_principal_quantity input = Some q" "vi_reward input = Some target"
    and "vi_clawback input = None" "quantity_units rt (lt_quantity target) = Inr earned" "earned < int dec_limit"
    and "0 \<le> ar_scale (q_asset (lt_quantity target))" "ar_scale (q_asset (lt_quantity target)) \<le> 18"
  shows "\<exists>r. calculate_reversal_adjustment rt input = Inr r \<and> lr_status r = LS_applied \<and>
    debits rt target r earned"
proof -
  have e0: "0 \<le> earned" by (rule quantity_units_nonneg [OF decimal_text.axioms(1) [OF assms(1)] assms(5)])
  from decimal_text.amount_from_units_eq [OF assms(1) e0 assms(6-8)] e0
  obtain i where i: "reward_debit rt LK_reversal target earned ''full_clawback'' None = Inr i"
    by (simp add: reward_debit_def quantity_from_units_def)
  have "\<exists>r. calculate_reversal_adjustment rt input = Inr r \<and> lr_status r = LS_applied \<and>
      lr_reward_instruction r = Some i"
    using assms(2-5) i
    by (simp add: calculate_reversal_adjustment_def calculate_clawback_adjustment_def parse_policy_def
        full_correction_def)
  moreover have "debits rt target (applied_debit LK_reversal ''full_clawback'' i) earned"
    by (rule reward_debit_Inr [OF i])
  ultimately show ?thesis by (auto simp: debits_def)
qed

theorem reversal_defaults_to_full_witness:
  "\<exists>r. calculate_reversal_adjustment ref_rt (sample_reversal None) = Inr r \<and>
     debits ref_rt (sample_reward ''200'') r 200"
proof -
  have "(200 :: int) < int dec_limit" by (simp add: dec_limit_def)
  with reversal_defaults_to_full [OF ref.decimal_text_axioms, of "sample_reversal None"
      "lt_quantity (sample_reward ''200'')" "sample_reward ''200''" 200] sample_units(2)
  show ?thesis by (auto simp: sample_reversal_def)
qed

text \<open>An explicit proportional policy on a reversal is always conditional: the reversal input
  has no refund and original amounts to compute a share from, although the comment on the
  operation says that a policy may request proportional treatment.\<close>

theorem proportional_reversal_is_conditional:
  assumes "vi_principal_quantity input = Some q" "vi_reward input = Some target"
    and "vi_clawback input = Some policy" "cp_on_refund policy = OR_proportional"
    and "quantity_units rt (lt_quantity target) = Inr earned"
  shows "\<exists>r. calculate_reversal_adjustment rt input = Inr r \<and> lr_status r = LS_conditional \<and>
    lr_reason_code r = ''refund_amounts_required'' \<and> lr_reward_instruction r = None"
  using assms
  by (simp add: calculate_reversal_adjustment_def calculate_clawback_adjustment_def parse_policy_def
      proportional_clawback_def lifecycle_parse_optional_def bounded_ratio_def)

theorem proportional_reversal_is_conditional_witness:
  "\<exists>r. calculate_reversal_adjustment ref_rt (sample_reversal (Some (policy_of OR_proportional))) = Inr r \<and>
     lr_status r = LS_conditional"
  using proportional_reversal_is_conditional [of "sample_reversal (Some (policy_of OR_proportional))"
      "lt_quantity (sample_reward ''200'')" "sample_reward ''200''" "policy_of OR_proportional" ref_rt 200]
    sample_units(2) by (auto simp: policy_of_def sample_reversal_def)

text \<open>The identifier of a refund's reward debit does not depend on the refund: two refunds of
  the same component issue debits with the same \<open>instruction_id\<close>.\<close>

theorem refund_debit_ids_collide:
  "rmap lr_reward_instruction (calculate_refund_adjustment rt (input\<lparr>ri_operation_id := a\<rparr>)) =
   rmap lr_reward_instruction (calculate_refund_adjustment rt (input\<lparr>ri_operation_id := b\<rparr>))"
proof -
  have "rmap lr_reward_instruction (rmap (with_principal k p) m) = rmap lr_reward_instruction m" for k p m
    by (cases m) simp_all
  then show ?thesis
    by (auto simp: calculate_refund_adjustment_def Let_def split: option.splits)
qed

section \<open>Expiry\<close>

text \<open>A reward expires exactly at its boundary: with a fixed date the debit is issued if and
  only if the evaluation time is at or after the date, with a duration if and only if it is at
  or after the posting time plus the duration, and the debit takes all units of the component.\<close>

theorem expiry_at_boundary:
  assumes "decimal_text rt" "clock rt" "ei_at input = Some now" "rt_date_parse rt now = Some t"
    and "lt_expiry (ei_reward input) = Some x"
    and "ex_policy x = EP_fixed_date \<and> ex_expires_at x = Some e \<and> rt_date_parse rt e = Some b \<or>
         ex_policy x = EP_relative_to_posting \<and> ex_duration_days x = Some d \<and>
           Option.bind (lt_settlement (ei_reward input)) se_posted_at = Some p \<and> rt_date_parse rt p = Some s \<and>
           b = s + d * 86400000 \<and> valid_instant b"
    and "quantity_units rt (lt_quantity (ei_reward input)) = Inr u" "u < int dec_limit"
    and "0 \<le> ar_scale (q_asset (lt_quantity (ei_reward input)))" "ar_scale (q_asset (lt_quantity (ei_reward input))) \<le> 18"
  shows "let r = calculate_expiry_adjustment rt input in
    if b \<le> t then lr_status r = LS_applied \<and>
      (\<exists>i q. lr_reward_instruction r = Some (RI_expiry i) \<and> xi_quantity i = q \<and>
        quantity_from_units rt (lt_quantity (ei_reward input)) u = Inr q)
    else lr_status r = LS_not_due \<and> lr_reward_instruction r = None"
proof -
  have u0: "0 \<le> u" by (rule quantity_units_nonneg [OF decimal_text.axioms(1) [OF assms(1)] assms(7)])
  from decimal_text.amount_from_units_eq [OF assms(1) u0 assms(8-10)] u0
  obtain q where q: "quantity_from_units rt (lt_quantity (ei_reward input)) u = Inr q"
    by (simp add: quantity_from_units_def)
  have "\<exists>w. expiry_due rt (ei_reward input) now = Inr (compare_expiry t (Some b) w)"
    using assms(6) clock.parse_iso [OF assms(2), of b] assms(4)
    by (auto simp: expiry_due_def assms(5) Let_def)
  then obtain w where w: "expiry_due rt (ei_reward input) now = Inr (compare_expiry t (Some b) w)" by blast
  show ?thesis
    using q assms(7)
    by (cases "b \<le> t") (simp_all add: calculate_expiry_adjustment_def assms(3) w compare_expiry_def)
qed

definition sample_expiry :: expiry where
  "sample_expiry = \<lparr>ex_policy = EP_fixed_date, ex_expires_at = Some ''2025-02-01T00:00:00Z'',
     ex_duration_days = None, ex_timezone = None\<rparr>"

theorem expiry_at_boundary_witness:
  "lr_status (calculate_expiry_adjustment ref_rt \<lparr>ei_reward = (sample_reward ''200'')\<lparr>lt_expiry := Some sample_expiry\<rparr>,
     ei_at = Some ''2025-02-01T00:00:00Z'', ei_operation_id = None\<rparr>) = LS_applied"
proof -
  let ?i = "\<lparr>ei_reward = (sample_reward ''200'')\<lparr>lt_expiry := Some sample_expiry\<rparr>,
     ei_at = Some ''2025-02-01T00:00:00Z'', ei_operation_id = None\<rparr>"
  have t: "rt_date_parse ref_rt ''2025-02-01T00:00:00Z'' = Some 1738368000000"
    unfolding ref_rt_sel by code_simp
  have x: "ex_policy sample_expiry = EP_fixed_date" "ex_expires_at sample_expiry = Some ''2025-02-01T00:00:00Z''"
    by (simp_all add: sample_expiry_def)
  have at_boundary: "ex_policy sample_expiry = EP_fixed_date \<and>
        ex_expires_at sample_expiry = Some ''2025-02-01T00:00:00Z'' \<and>
        rt_date_parse ref_rt ''2025-02-01T00:00:00Z'' = Some 1738368000000 \<or>
      ex_policy sample_expiry = EP_relative_to_posting \<and> ex_duration_days sample_expiry = Some 0 \<and>
        Option.bind (lt_settlement (ei_reward ?i)) se_posted_at = Some [] \<and> rt_date_parse ref_rt [] = Some 0 \<and>
        1738368000000 = 0 + 0 * ms_per_day \<and> valid_instant 1738368000000"
    using x t by (intro disjI1 conjI)
  have u: "quantity_units ref_rt (lt_quantity (ei_reward ?i)) = Inr 200" using sample_units(2) by simp
  have l: "(200 :: int) < int dec_limit" by (simp add: dec_limit_def)
  have "let r = calculate_expiry_adjustment ref_rt ?i in
    if (1738368000000 :: int) \<le> 1738368000000 then lr_status r = LS_applied \<and>
      (\<exists>i q. lr_reward_instruction r = Some (RI_expiry i) \<and> xi_quantity i = q \<and>
        quantity_from_units ref_rt (lt_quantity (ei_reward ?i)) 200 = Inr q)
    else lr_status r = LS_not_due \<and> lr_reward_instruction r = None"
    by (rule expiry_at_boundary [OF ref.decimal_text_axioms ref.clock_axioms _ t _ at_boundary u l])
      (simp_all add: sample_reward_def)
  then show ?thesis by (simp add: Let_def)
qed

end
