(* ===== verification/Events.thy ===== *)
theory Events
  imports Transfers Lifecycle
begin

text \<open>
  Events evaluated after a plan (\<open>packages/rule-engine/src/m1b-events.ts\<close>): the
  cancellation of a transfer and the expiry of a reward, delegated to the transfer and
  lifecycle components.
\<close>

record transfer_cancellation_event =
  tce_calculation :: transfer_calculation_spec
  tce_source_amount :: decimal_input
  tce_period_source_used :: "decimal_input option"
  tce_visited_asset_ids :: "string list option"
  tce_cycle_path_asset_ids :: "string list option"
  tce_posting :: "settlement js_opt"
  tce_posted :: "bool option"

datatype m1b_event = EV_transfer_cancellation transfer_cancellation_event | EV_reward_expiry expiry_input

datatype m1b_event_result =
  ER_transfer_cancellation transfer_status "string option" transfer_calculation_result
| ER_reward_expiry lifecycle_status string lifecycle_result

definition transfer_input_for_cancellation ::
    "transfer_cancellation_event \<Rightarrow> transfer_calculation_input" where
  "transfer_input_for_cancellation event =
     \<lparr>tx_source_amount = Some (tce_source_amount event), tx_source_units = None,
      tx_period_source_used = tce_period_source_used event,
      tx_visited_asset_ids = tce_visited_asset_ids event,
      tx_cycle_path_asset_ids = tce_cycle_path_asset_ids event,
      tx_posting = (case tce_posting event of
          Value s \<Rightarrow> if se_status s \<noteq> SS_unknown then Value s else Undefined
        | _ \<Rightarrow> Undefined),
      tx_cancel_requested = Some True, tx_posted = tce_posted event\<rparr>"

definition evaluate_m1b_event :: "runtime \<Rightarrow> m1b_event \<Rightarrow> m1b_event_result res" where
  "evaluate_m1b_event rt event =
     (case event of
        EV_transfer_cancellation e \<Rightarrow>
          rmap (\<lambda>t. ER_transfer_cancellation (tc_status t) (tc_reason_code t) t)
            (evaluate_transfer rt (tce_calculation e) (transfer_input_for_cancellation e))
      | EV_reward_expiry input \<Rightarrow>
          let a = calculate_expiry_adjustment rt input
          in Inr (ER_reward_expiry (lr_status a) (lr_reason_code a) a))"

section \<open>When a transfer is cancelled\<close>

lemma period_failure_not_cancelled: "period_failure rt limits input source \<noteq> Inr (Some (TS_cancelled, c, m))"
  by (auto simp: period_failure_def rbind_Inr_iff split: option.splits)

lemma evaluate_transfer_cancelled:
  assumes "evaluate_transfer rt calc input = Inr r" "tc_status r = TS_cancelled"
  shows "\<exists>c. cancellation_for calc input = Some c \<and> cx_status c = CX_cancelled"
proof -
  note ev = assms(1) [unfolded evaluate_transfer_def Let_def]
  let ?path = "default_to [] (orelse (tx_cycle_path_asset_ids input) (tx_visited_asset_ids input))"
  obtain source where s: "transfer_source input = Some source"
    using ev assms(2) by (cases "transfer_source input") auto
  have nc: "\<not> transfer_cycle (ar_asset_id (ts_source_asset calc)) (ar_asset_id (ts_destination_asset calc)) ?path"
    using ev assms(2) by (auto simp: s)
  obtain limits where c: "transfer_constraints calc = Inr limits"
    using ev assms(2) nc by (cases "transfer_constraints calc") (auto simp: s)
  have rf: "request_failure rt limits source = None"
    using ev assms(2) nc by (cases "request_failure rt limits source") (auto simp: s c)
  have pf: "period_failure rt limits input source = Inr None"
  proof (cases "period_failure rt limits input source")
    case (Inr f)
    show ?thesis
    proof (cases f)
      case (Some x)
      obtain st code message where "x = (st, code, message)" by (cases x)
      with Inr Some ev assms(2) nc rf show ?thesis by (auto simp: s c period_failure_not_cancelled)
    qed (use Inr in simp)
  qed (use ev nc rf in \<open>auto simp: s c\<close>)
  obtain x where x: "cancellation_for calc input = Some x"
    using ev assms(2) nc rf pf
    by (cases "cancellation_for calc input") (auto simp: s c split: sum.splits)
  then have "cancellation_outcome (cx_status x) = TS_cancelled"
    using ev assms(2) nc rf pf by (auto simp: s c)
  then have "cx_status x = CX_cancelled"
    by (cases "cx_status x") (simp_all add: cancellation_outcome_def)
  with x show ?thesis by blast
qed

lemma cancellation_for_cancelled:
  assumes "cancellation_for calc input = Some c" "cx_status c = CX_cancelled"
  shows "ts_cancellation_policy calc = CN_cancelable_before_posting" "\<not> is_posted input"
    "tx_posted input \<noteq> None \<or> tx_posting input \<noteq> Undefined"
  using assms by (auto simp: cancellation_for_def split: if_splits cancellation_policy.splits)

text \<open>A cancellation event cancels a transfer only on evidence: the rule must allow cancelling
  before posting, the posting state must be known (a posted flag, or a settlement whose status is
  not \<open>unknown\<close>), and that state must not be posted or available; an event never applies the
  transfer it is about.\<close>

theorem cancellation_needs_known_pending_state:
  assumes "evaluate_m1b_event rt (EV_transfer_cancellation e) = Inr r"
  shows "\<exists>st reason t. r = ER_transfer_cancellation st reason t \<and> st \<noteq> TS_applied \<and>
    (st = TS_cancelled \<longrightarrow>
       ts_cancellation_policy (tce_calculation e) = CN_cancelable_before_posting \<and>
       tce_posted e \<noteq> Some True \<and>
       (tce_posted e \<noteq> None \<or> (\<exists>s. tce_posting e = Value s \<and> se_status s \<noteq> SS_unknown)) \<and>
       (\<forall>s. tce_posting e = Value s \<longrightarrow> se_status s \<notin> {SS_posted, SS_available}))"
proof -
  let ?input = "transfer_input_for_cancellation e"
  from assms obtain t where t: "evaluate_transfer rt (tce_calculation e) ?input = Inr t"
    and r: "r = ER_transfer_cancellation (tc_status t) (tc_reason_code t) t"
    by (auto simp: evaluate_m1b_event_def rmap_Inr_iff)
  have "tc_status t \<noteq> TS_applied"
  proof
    assume "tc_status t = TS_applied"
    with t have "cancellation_for (tce_calculation e) ?input = None"
      by (rule evaluate_transfer_applied)
    then show False by (simp add: cancellation_for_None_iff transfer_input_for_cancellation_def)
  qed
  moreover have "ts_cancellation_policy (tce_calculation e) = CN_cancelable_before_posting \<and>
       tce_posted e \<noteq> Some True \<and>
       (tce_posted e \<noteq> None \<or> (\<exists>s. tce_posting e = Value s \<and> se_status s \<noteq> SS_unknown)) \<and>
       (\<forall>s. tce_posting e = Value s \<longrightarrow> se_status s \<notin> {SS_posted, SS_available})"
    if canc: "tc_status t = TS_cancelled"
  proof -
    obtain c where "cancellation_for (tce_calculation e) ?input = Some c" "cx_status c = CX_cancelled"
      using evaluate_transfer_cancelled [OF t canc] by blast
    note k = cancellation_for_cancelled [OF this]
    show ?thesis
      using k by (auto simp: transfer_input_for_cancellation_def is_posted_def split: js_opt.splits if_splits)
  qed
  ultimately show ?thesis using r by blast
qed

definition sample_cancellation :: transfer_cancellation_event where
  "sample_cancellation = \<lparr>tce_calculation = sample_transfer\<lparr>ts_cancellation_policy := CN_cancelable_before_posting\<rparr>,
     tce_source_amount = DBig 100, tce_period_source_used = None, tce_visited_asset_ids = None,
     tce_cycle_path_asset_ids = None, tce_posting = Undefined, tce_posted = Some False\<rparr>"

theorem cancellation_needs_known_pending_state_witness:
  "\<exists>t reason. evaluate_m1b_event ref_rt (EV_transfer_cancellation sample_cancellation) =
       Inr (ER_transfer_cancellation TS_cancelled reason t) \<and> tce_posted sample_cancellation \<noteq> Some True"
proof -
  let ?calc = "sample_transfer\<lparr>ts_cancellation_policy := CN_cancelable_before_posting\<rparr>"
  have c: "transfer_constraints ?calc =
     Inr \<lparr>lm_minimum = Some 10, lm_increment = None, lm_request_maximum = Some 500,
       lm_period_maximum = None, lm_ratio_source = 3, lm_ratio_destination = 1\<rparr>"
    using sample_constraints by (simp add: transfer_constraints_def)
  have a: "ar_asset_id (ts_source_asset sample_transfer) \<noteq> ar_asset_id (ts_destination_asset sample_transfer)"
    by (simp add: sample_transfer_def sample_asset_def)
  have "\<exists>t. evaluate_transfer ref_rt ?calc (transfer_input_for_cancellation sample_cancellation) = Inr t \<and>
      tc_status t = TS_cancelled"
    using a by (simp add: evaluate_transfer_def Let_def c transfer_source_def transfer_input_for_cancellation_def
        sample_cancellation_def transfer_cycle_iff request_failure_def period_failure_def cancellation_for_def
        is_posted_def cancellation_outcome_def)
  then obtain t where t: "evaluate_transfer ref_rt ?calc (transfer_input_for_cancellation sample_cancellation) = Inr t"
    "tc_status t = TS_cancelled" by blast
  have calc: "tce_calculation sample_cancellation = ?calc" by (simp add: sample_cancellation_def)
  have ev: "evaluate_m1b_event ref_rt (EV_transfer_cancellation sample_cancellation) =
      Inr (ER_transfer_cancellation TS_cancelled (tc_reason_code t) t)"
    using t by (simp add: evaluate_m1b_event_def calc)
  from cancellation_needs_known_pending_state [OF this] ev show ?thesis by auto
qed

end
