(* ===== verification/Stacking.thy ===== *)
theory Stacking
  imports EngineMath
begin

text \<open>
  Which rewards apply together (\<open>packages/rule-engine/src/m1b-stacking.ts\<close>).
  \<open>resolveStacking\<close> works on a map of candidates by id, a set of active ids and a log
  of rejections, in a fixed order of phases: dependencies, conflicts, replacement,
  best of group, dependencies again, included bases.  The model has one function per
  phase on the state \<open>stack_state\<close>; a \<open>Set\<close> that is only asked for membership is a list
  of ids.
\<close>

section \<open>State\<close>

record stacking_candidate =
  sc_rule_id :: "string option"
  sc_ruleId :: "string option"
  sc_stack_group :: "string option"
  sc_stackGroup :: "string option"
  sc_mode :: "stacking_mode option"
  sc_precedence :: "js_number option"
  sc_value :: "decimal_input option"
  sc_reward_units :: "decimal_input option"
  sc_rewardUnits :: "decimal_input option"
  sc_base_reward_included :: "bool option"
  sc_baseRewardIncluded :: "bool option"
  sc_base_rule_id :: "string option"
  sc_baseRuleId :: "string option"
  sc_is_base_reward :: "bool option"
  sc_isBaseReward :: "bool option"
  sc_rule_type :: "string option"
  sc_requires_rule_ids :: "string list option"
  sc_requiresRuleIds :: "string list option"
  sc_conflicts_with_rule_ids :: "string list option"
  sc_conflictsWithRuleIds :: "string list option"
  sc_eligible :: "bool option"

record normalized_candidate =
  nc_rule_id :: string
  nc_stack_group :: string
  nc_mode :: stacking_mode
  nc_precedence :: rat
  nc_value :: rat
  nc_base_reward_included :: bool
  nc_base_rule_id :: "string option"
  nc_is_base_reward :: bool
  nc_requires_rule_ids :: "string list"
  nc_conflicts_with_rule_ids :: "string list"
  nc_eligible :: "bool option"

datatype rejection_reason =
  RR_ineligible | RR_missing_dependency | RR_dependency_rejected | RR_conflict | RR_replaced
| RR_not_best_of_group | RR_base_included | RR_duplicate_rule_id | RR_invalid_candidate

record stack_rejection =
  sj_rule_id :: string
  sj_reason :: rejection_reason
  sj_by_rule_id :: "string option"
  sj_stack_group :: "string option"
  sj_detail :: "string option"

record stack_dependency =
  sd_rule_id :: string
  sd_required_rule_ids :: "string list"
  sd_satisfied :: bool

record stack_conflict =
  sx_rule_ids :: "string list"
  sx_winner_rule_id :: "string option"

record stacking_resolution =
  sr_selected :: "normalized_candidate list"
  sr_rejected :: "stack_rejection list"
  sr_applied_rule_ids :: "string list"
  sr_rejected_rule_ids :: "string list"
  sr_total :: rat
  sr_total_value :: string
  sr_selected_by_group :: "(string, string list) omap"
  sr_base_included_rule_ids :: "string list"
  sr_suppressed_base_rule_ids :: "string list"
  sr_conflicts :: "stack_conflict list"
  sr_dependencies :: "stack_dependency list"
  sr_unresolved :: "string list"

record stacking_input =
  sn_candidates :: "stacking_candidate list"
  sn_base_reward :: "stacking_candidate option"
  sn_baseReward :: "stacking_candidate option"

record stack_state =
  ss_active :: "string list"
  ss_rejected_ids :: "string list"
  ss_rejections :: "stack_rejection list"

type_synonym candidates = "(string, normalized_candidate) omap"

section \<open>Normalisation\<close>

definition candidate_id :: "stacking_candidate \<Rightarrow> string" where
  "candidate_id c = default_to [] (orelse (sc_rule_id c) (sc_ruleId c))"

definition as_decimal :: "runtime \<Rightarrow> decimal_input option \<Rightarrow> rat res" where
  "as_decimal rt value =
     (case value of
        None \<Rightarrow> Inr 0
      | Some (DStr t) \<Rightarrow>
          (case rt_parse rt t of
             DecThrow \<Rightarrow> Inl (''[DecimalError] Invalid argument: '' @ t)
           | DecNonFinite _ \<Rightarrow> Inl ''invalid_stacking_value''
           | DecFinite _ q \<Rightarrow> Inr q)
      | Some (DNum n) \<Rightarrow>
          if \<not> is_safe_integer n then Inl ''binary_number_not_allowed'' else Inr (of_int (number_int n))
      | Some (DBig n) \<Rightarrow> Inr (of_int n))"

definition normalized :: "runtime \<Rightarrow> stacking_candidate \<Rightarrow> normalized_candidate res" where
  "normalized rt c =
     (let rule_id = candidate_id c; mode = default_to SM_additive (sc_mode c)
      in if rule_id = [] then Inl ''stacking_candidate_rule_id_required''
         else rbind (as_decimal rt (orelse (sc_value c) (orelse (sc_reward_units c) (sc_rewardUnits c))))
           (\<lambda>v. Inr \<lparr>nc_rule_id = rule_id,
             nc_stack_group = default_to [] (orelse (sc_stack_group c) (sc_stackGroup c)),
             nc_mode = mode,
             nc_precedence = (case default_to (num 0) (sc_precedence c) of Finite q \<Rightarrow> q | NonFinite \<Rightarrow> 0),
             nc_value = v,
             nc_base_reward_included = default_to (mode = SM_includes_base)
               (orelse (sc_base_reward_included c) (sc_baseRewardIncluded c)),
             nc_base_rule_id = orelse (sc_base_rule_id c) (sc_baseRuleId c),
             nc_is_base_reward = default_to (sc_rule_type c = Some ''base_reward'')
               (orelse (sc_is_base_reward c) (sc_isBaseReward c)),
             nc_requires_rule_ids = js_sort (default_to [] (orelse (sc_requires_rule_ids c) (sc_requiresRuleIds c))),
             nc_conflicts_with_rule_ids = js_sort (default_to []
               (orelse (sc_conflicts_with_rule_ids c) (sc_conflictsWithRuleIds c))),
             nc_eligible = sc_eligible c\<rparr>))"

definition priority_compare :: "runtime \<Rightarrow> normalized_candidate \<Rightarrow> normalized_candidate \<Rightarrow> int" where
  "priority_compare rt left right =
     (if nc_precedence left \<noteq> nc_precedence right then rat_cmp (nc_precedence right) (nc_precedence left)
      else let value = rat_cmp (nc_value right) (nc_value left)
           in if value \<noteq> 0 then value
              else rt_locale_compare rt (nc_rule_id left) (nc_rule_id right))"

definition value_compare :: "runtime \<Rightarrow> normalized_candidate \<Rightarrow> normalized_candidate \<Rightarrow> int" where
  "value_compare rt left right =
     (let value = rat_cmp (nc_value right) (nc_value left)
      in if value \<noteq> 0 then value else priority_compare rt left right)"

definition rejection :: "string \<Rightarrow> rejection_reason \<Rightarrow> stack_rejection" where
  "rejection rule_id reason = \<lparr>sj_rule_id = rule_id, sj_reason = reason, sj_by_rule_id = None,
     sj_stack_group = None, sj_detail = None\<rparr>"

definition source_candidates :: "stacking_input \<Rightarrow> stacking_candidate list" where
  "source_candidates input = sn_candidates input @
     (case orelse (sn_base_reward input) (sn_baseReward input) of
        None \<Rightarrow> []
      | Some b \<Rightarrow> [b\<lparr>sc_is_base_reward :=
          Some (default_to True (orelse (sc_is_base_reward b) (sc_isBaseReward b)))\<rparr>])"

fun collect ::
    "runtime \<Rightarrow> stacking_candidate list \<Rightarrow> candidates \<Rightarrow> stack_rejection list \<Rightarrow>
     candidates \<times> stack_rejection list" where
  "collect rt [] by_id rejections = (by_id, rejections)"
| "collect rt (c # cs) by_id rejections =
     (let i = candidate_id c
      in if i = [] then
           collect rt cs by_id (rejections @
             [(rejection [] RR_invalid_candidate)\<lparr>sj_detail := Some ''rule_id is required''\<rparr>])
         else if om_get by_id i \<noteq> None then
           collect rt cs by_id (rejections @ [rejection i RR_duplicate_rule_id])
         else case normalized rt c of
           Inr n \<Rightarrow> collect rt cs (om_set i n by_id) rejections
         | Inl e \<Rightarrow> collect rt cs by_id (rejections @ [(rejection i RR_invalid_candidate)\<lparr>sj_detail := Some e\<rparr>]))"

section \<open>Phases\<close>

text \<open>One id leaves the active set with a logged reason.\<close>

definition reject :: "stack_rejection \<Rightarrow> stack_state \<Rightarrow> stack_state" where
  "reject r s = s\<lparr>ss_active := filter (\<lambda>i. i \<noteq> sj_rule_id r) (ss_active s),
     ss_rejected_ids := sj_rule_id r # ss_rejected_ids s, ss_rejections := ss_rejections s @ [r]\<rparr>"

definition suppress ::
    "normalized_candidate \<Rightarrow> rejection_reason \<Rightarrow> normalized_candidate option \<Rightarrow> stack_state \<Rightarrow> stack_state" where
  "suppress c reason by s =
     (if nc_rule_id c \<notin> set (ss_active s) then s
      else reject ((rejection (nc_rule_id c) reason)\<lparr>sj_by_rule_id := map_option nc_rule_id by,
             sj_stack_group := Some (nc_stack_group c)\<rparr>) s)"

fun eligibility :: "candidates \<Rightarrow> stack_state \<Rightarrow> stack_state" where
  "eligibility [] s = s"
| "eligibility ((i, c) # cs) s =
     (if nc_eligible c = Some False then eligibility cs (reject (rejection i RR_ineligible) s)
      else eligibility cs (s\<lparr>ss_active := ss_active s @ [i]\<rparr>))"

definition first_nonempty :: "string list \<Rightarrow> string option" where
  "first_nonempty ids = (case js_sort ids of [] \<Rightarrow> None | i # _ \<Rightarrow> if i = [] then None else Some i)"

definition dependency_rejection :: "string \<Rightarrow> string list \<Rightarrow> string list \<Rightarrow> stack_rejection" where
  "dependency_rejection i missing rejected =
     (rejection i (if missing \<noteq> [] then RR_missing_dependency else RR_dependency_rejected))
       \<lparr>sj_by_rule_id := first_nonempty (if missing \<noteq> [] then missing else rejected),
        sj_detail := Some (join_with '','' (js_sort (missing @ rejected)))\<rparr>"

fun dependency_pass ::
    "candidates \<Rightarrow> candidates \<Rightarrow> stack_state \<times> (string, stack_dependency) omap \<times> bool \<Rightarrow>
     stack_state \<times> (string, stack_dependency) omap \<times> bool" where
  "dependency_pass by_id [] acc = acc"
| "dependency_pass by_id ((i, c) # cs) (s, deps, changed) =
     (if i \<notin> set (ss_active s) then dependency_pass by_id cs (s, deps, changed)
      else
        let missing = filter (\<lambda>r. om_get by_id r = None) (nc_requires_rule_ids c);
            rejected = filter (\<lambda>r. r \<in> set (ss_rejected_ids s)) (nc_requires_rule_ids c);
            deps' = om_set i \<lparr>sd_rule_id = i, sd_required_rule_ids = nc_requires_rule_ids c,
              sd_satisfied = (missing = [] \<and> rejected = [])\<rparr> deps
        in if missing \<noteq> [] \<or> rejected \<noteq> [] then
             dependency_pass by_id cs (reject (dependency_rejection i missing rejected) s, deps', True)
           else dependency_pass by_id cs (s, deps', changed))"

lemma reject_shrinks:
  "length (ss_active (reject r s)) \<le> length (ss_active s)"
  "sj_rule_id r \<in> set (ss_active s) \<Longrightarrow> length (ss_active (reject r s)) < length (ss_active s)"
  by (auto simp: reject_def intro: length_filter_less)

lemma dependency_rejection_id [simp]: "sj_rule_id (dependency_rejection i m r) = i"
  by (simp add: dependency_rejection_def rejection_def)

lemma dependency_pass_shrinks:
  assumes "dependency_pass by_id cs (s, deps, c0) = (s', deps', c)"
  shows "length (ss_active s') \<le> length (ss_active s) \<and>
    (c \<longrightarrow> c0 \<or> length (ss_active s') < length (ss_active s))"
  using assms
proof (induction cs arbitrary: s deps c0)
  case (Cons p cs)
  obtain i c' where p: "p = (i, c')" by (cases p)
  define m where "m = filter (\<lambda>r. om_get by_id r = None) (nc_requires_rule_ids c')"
  define r where "r = filter (\<lambda>r. r \<in> set (ss_rejected_ids s)) (nc_requires_rule_ids c')"
  note unfolded_pass = Cons.prems [unfolded p dependency_pass.simps Let_def m_def [symmetric] r_def [symmetric]]
  show ?case
  proof (cases "i \<in> set (ss_active s) \<and> (m \<noteq> [] \<or> r \<noteq> [])")
    case True
    with unfolded_pass Cons.IH reject_shrinks(2) [of "dependency_rejection i m r" s] show ?thesis
      by (fastforce simp del: filter_empty_conv)
  next
    case False
    show ?thesis
    proof (cases "i \<in> set (ss_active s)")
      case True
      with False have mr: "m = []" "r = []" by simp_all
      have "\<exists>d. dependency_pass by_id cs (s, d, c0) = (s', deps', c)"
        using unfolded_pass True unfolding mr by auto
      with Cons.IH show ?thesis by blast
    next
      case False
      with unfolded_pass have "dependency_pass by_id cs (s, deps, c0) = (s', deps', c)" by simp
      then show ?thesis by (rule Cons.IH)
    qed
  qed
qed simp

function dependency_loop ::
    "candidates \<Rightarrow> stack_state \<Rightarrow> (string, stack_dependency) omap \<Rightarrow>
     stack_state \<times> (string, stack_dependency) omap" where
  "dependency_loop by_id s deps =
     (case dependency_pass by_id by_id (s, deps, False) of
        (s', deps', changed) \<Rightarrow>
          if changed then dependency_loop by_id s' deps' else (s', deps'))"
  by pat_completeness auto
termination
  by (relation "measure (\<lambda>(_, s, _). length (ss_active s))") (auto dest: dependency_pass_shrinks [OF sym])

declare dependency_loop.simps [simp del]

record conflict_state =
  cf_state :: stack_state
  cf_pairs :: "string list"
  cf_conflicts :: "stack_conflict list"

definition pair_key :: "string \<Rightarrow> string \<Rightarrow> string" where
  "pair_key a b = join_with [CHR 0x00] (js_sort [a, b])"

fun conflicts_of ::
    "runtime \<Rightarrow> candidates \<Rightarrow> normalized_candidate \<Rightarrow> string list \<Rightarrow> conflict_state \<Rightarrow> conflict_state" where
  "conflicts_of rt by_id c [] st = st"
| "conflicts_of rt by_id c (j # js) st =
     (case om_get by_id j of
        None \<Rightarrow> conflicts_of rt by_id c js st
      | Some other \<Rightarrow>
          if j \<notin> set (ss_active (cf_state st)) \<or> pair_key (nc_rule_id c) j \<in> set (cf_pairs st) then
            conflicts_of rt by_id c js st
          else
            let winner = (if priority_compare rt c other \<le> 0 then c else other);
                loser = (if nc_rule_id winner = nc_rule_id c then other else c)
            in conflicts_of rt by_id c js
                 \<lparr>cf_state = reject ((rejection (nc_rule_id loser) RR_conflict)
                     \<lparr>sj_by_rule_id := Some (nc_rule_id winner), sj_stack_group := Some (nc_stack_group loser)\<rparr>)
                     (cf_state st),
                  cf_pairs = pair_key (nc_rule_id c) j # cf_pairs st,
                  cf_conflicts = cf_conflicts st @
                    [\<lparr>sx_rule_ids = js_sort [nc_rule_id c, nc_rule_id other],
                      sx_winner_rule_id = Some (nc_rule_id winner)\<rparr>]\<rparr>)"

fun conflict_pass ::
    "runtime \<Rightarrow> candidates \<Rightarrow> normalized_candidate list \<Rightarrow> conflict_state \<Rightarrow> conflict_state" where
  "conflict_pass rt by_id [] st = st"
| "conflict_pass rt by_id (c # cs) st =
     (if nc_rule_id c \<notin> set (ss_active (cf_state st)) then conflict_pass rt by_id cs st
      else conflict_pass rt by_id cs (conflicts_of rt by_id c (nc_conflicts_with_rule_ids c) st))"

definition is_active :: "stack_state \<Rightarrow> normalized_candidate \<Rightarrow> bool" where
  "is_active s c \<longleftrightarrow> nc_rule_id c \<in> set (ss_active s)"

text \<open>Every candidate of the list but the winner is suppressed.\<close>

fun suppress_others ::
    "normalized_candidate list \<Rightarrow> rejection_reason \<Rightarrow> normalized_candidate \<Rightarrow> stack_state \<Rightarrow> stack_state" where
  "suppress_others [] reason winner s = s"
| "suppress_others (c # cs) reason winner s =
     suppress_others cs reason winner
       (if nc_rule_id c \<noteq> nc_rule_id winner then suppress c reason (Some winner) s else s)"

fun replace_groups ::
    "runtime \<Rightarrow> (string \<times> normalized_candidate list) list \<Rightarrow> stack_state \<Rightarrow> stack_state" where
  "replace_groups rt [] s = s"
| "replace_groups rt ((g, cs) # gs) s =
     (case sort_cmp (priority_compare rt) (filter (\<lambda>c. nc_mode c = SM_replaces_group) cs) of
        [] \<Rightarrow> replace_groups rt gs s
      | winner # _ \<Rightarrow> replace_groups rt gs (suppress_others cs RR_replaced winner s))"

fun group_candidates ::
    "stack_state \<Rightarrow> normalized_candidate list \<Rightarrow> (string, normalized_candidate list) omap \<Rightarrow>
     (string, normalized_candidate list) omap" where
  "group_candidates s [] groups = groups"
| "group_candidates s (c # cs) groups =
     (if is_active s c then
        group_candidates s cs
          (om_set (nc_stack_group c) (default_to [] (om_get groups (nc_stack_group c)) @ [c]) groups)
      else group_candidates s cs groups)"

fun best_of_groups ::
    "runtime \<Rightarrow> normalized_candidate list \<Rightarrow> string list \<Rightarrow> stack_state \<Rightarrow> stack_state" where
  "best_of_groups rt all [] s = s"
| "best_of_groups rt all (g # gs) s =
     (let cs = filter (\<lambda>c. is_active s c \<and> nc_stack_group c = g \<and> nc_mode c = SM_best_of_group) all
      in case sort_cmp (value_compare rt) cs of
           [] \<Rightarrow> best_of_groups rt all gs s
         | [_] \<Rightarrow> best_of_groups rt all gs s
         | winner # _ \<Rightarrow> best_of_groups rt all gs (suppress_others cs RR_not_best_of_group winner s))"

fun recheck_pass ::
    "candidates \<Rightarrow> normalized_candidate list \<Rightarrow> stack_state \<times> bool \<Rightarrow> stack_state \<times> bool" where
  "recheck_pass by_id [] acc = acc"
| "recheck_pass by_id (c # cs) (s, changed) =
     (if \<not> is_active s c then recheck_pass by_id cs (s, changed)
      else case find (\<lambda>r. r \<notin> set (ss_active s)) (nc_requires_rule_ids c) of
        None \<Rightarrow> recheck_pass by_id cs (s, changed)
      | Some r \<Rightarrow>
          if r = [] then recheck_pass by_id cs (s, changed)
          else recheck_pass by_id cs (suppress c RR_dependency_rejected (om_get by_id r) s, True))"

lemma suppress_shrinks:
  "length (ss_active (suppress c reason by s)) \<le> length (ss_active s)"
  "is_active s c \<Longrightarrow> length (ss_active (suppress c reason by s)) < length (ss_active s)"
  by (auto simp: suppress_def is_active_def reject_def rejection_def intro: length_filter_less)

lemma recheck_pass_shrinks:
  assumes "recheck_pass by_id cs (s, c0) = (s', c)"
  shows "length (ss_active s') \<le> length (ss_active s) \<and>
    (c \<longrightarrow> c0 \<or> length (ss_active s') < length (ss_active s))"
  using assms
proof (induction cs arbitrary: s c0)
  case (Cons d cs)
  show ?case
  proof (cases "is_active s d")
    case True
    note less = suppress_shrinks(2) [OF this, of RR_dependency_rejected]
    show ?thesis
    proof (cases "find (\<lambda>r. r \<notin> set (ss_active s)) (nc_requires_rule_ids d)")
      case None
      with Cons.prems True have "recheck_pass by_id cs (s, c0) = (s', c)" by simp
      then show ?thesis by (rule Cons.IH)
    next
      case (Some r)
      show ?thesis
      proof (cases "r = []")
        case True
        with Cons.prems \<open>is_active s d\<close> Some have "recheck_pass by_id cs (s, c0) = (s', c)" by simp
        then show ?thesis by (rule Cons.IH)
      next
        case False
        with Cons.prems Some \<open>is_active s d\<close>
        have "recheck_pass by_id cs (suppress d RR_dependency_rejected (om_get by_id r) s, True) = (s', c)" by simp
        from Cons.IH [OF this] less [of "om_get by_id r"] show ?thesis by linarith
      qed
    qed
  next
    case False
    with Cons.prems have "recheck_pass by_id cs (s, c0) = (s', c)" by simp
    then show ?thesis by (rule Cons.IH)
  qed
qed simp

function recheck_loop :: "candidates \<Rightarrow> stack_state \<Rightarrow> stack_state" where
  "recheck_loop by_id s =
     (case recheck_pass by_id (map snd by_id) (s, False) of
        (s', changed) \<Rightarrow> if changed then recheck_loop by_id s' else s')"
  by pat_completeness auto
termination
  by (relation "measure (\<lambda>(_, s). length (ss_active s))") (auto dest: recheck_pass_shrinks [OF sym])

declare recheck_loop.simps [simp del]

definition base_ids :: "normalized_candidate list \<Rightarrow> normalized_candidate \<Rightarrow> string list" where
  "base_ids all c =
     (case nc_base_rule_id c of
        Some b \<Rightarrow> if b \<noteq> [] then [b]
          else map nc_rule_id (filter (\<lambda>x. nc_is_base_reward x \<and> nc_stack_group x = nc_stack_group c \<and>
                 nc_rule_id x \<noteq> nc_rule_id c) all)
      | None \<Rightarrow> map nc_rule_id (filter (\<lambda>x. nc_is_base_reward x \<and> nc_stack_group x = nc_stack_group c \<and>
                 nc_rule_id x \<noteq> nc_rule_id c) all))"

fun suppress_bases ::
    "candidates \<Rightarrow> normalized_candidate \<Rightarrow> string list \<Rightarrow> stack_state \<times> string list \<Rightarrow> stack_state \<times> string list" where
  "suppress_bases by_id c [] acc = acc"
| "suppress_bases by_id c (b # bs) (s, suppressed) =
     (case om_get by_id b of
        None \<Rightarrow> suppress_bases by_id c bs (s, suppressed)
      | Some base \<Rightarrow>
          if b \<notin> set (ss_active s) then suppress_bases by_id c bs (s, suppressed)
          else suppress_bases by_id c bs (suppress base RR_base_included (Some c) s, suppressed @ [b]))"

fun include_bases ::
    "candidates \<Rightarrow> normalized_candidate list \<Rightarrow> stack_state \<times> string list \<times> string list \<Rightarrow>
     stack_state \<times> string list \<times> string list" where
  "include_bases by_id [] acc = acc"
| "include_bases by_id (c # cs) (s, included, suppressed) =
     (if \<not> is_active s c \<or> \<not> nc_base_reward_included c then include_bases by_id cs (s, included, suppressed)
      else case suppress_bases by_id c (base_ids (map snd by_id) c) (s, suppressed) of
        (s', suppressed') \<Rightarrow> include_bases by_id cs (s', included @ [nc_rule_id c], suppressed'))"

section \<open>The resolution\<close>

definition conflict_phase :: "runtime \<Rightarrow> candidates \<Rightarrow> stack_state \<Rightarrow> conflict_state" where
  "conflict_phase rt by_id s =
     conflict_pass rt by_id (sort_cmp (cmp_on nc_rule_id (rt_locale_compare rt)) (map snd by_id))
       \<lparr>cf_state = s, cf_pairs = [], cf_conflicts = []\<rparr>"

definition replace_phase :: "runtime \<Rightarrow> candidates \<Rightarrow> stack_state \<Rightarrow> stack_state" where
  "replace_phase rt by_id s = replace_groups rt (group_candidates s (map snd by_id) []) s"

definition best_phase :: "runtime \<Rightarrow> candidates \<Rightarrow> stack_state \<Rightarrow> stack_state" where
  "best_phase rt by_id s =
     best_of_groups rt (map snd by_id) (js_sort (unique (map (nc_stack_group \<circ> snd) by_id))) s"

definition reason_text :: "rejection_reason \<Rightarrow> string" where
  "reason_text r = (case r of RR_ineligible \<Rightarrow> ''ineligible'' | RR_missing_dependency \<Rightarrow> ''missing_dependency''
     | RR_dependency_rejected \<Rightarrow> ''dependency_rejected'' | RR_conflict \<Rightarrow> ''conflict'' | RR_replaced \<Rightarrow> ''replaced''
     | RR_not_best_of_group \<Rightarrow> ''not_best_of_group'' | RR_base_included \<Rightarrow> ''base_included''
     | RR_duplicate_rule_id \<Rightarrow> ''duplicate_rule_id'' | RR_invalid_candidate \<Rightarrow> ''invalid_candidate'')"

fun group_ids :: "normalized_candidate list \<Rightarrow> (string, string list) omap \<Rightarrow> (string, string list) omap" where
  "group_ids [] groups = groups"
| "group_ids (c # cs) groups =
     group_ids cs (om_set (nc_stack_group c) (default_to [] (om_get groups (nc_stack_group c)) @ [nc_rule_id c]) groups)"

definition resolve_stacking :: "runtime \<Rightarrow> stacking_input \<Rightarrow> stacking_resolution" where
  "resolve_stacking rt input =
     (let (by_id, rejections0) = collect rt (source_candidates input) [] [];
          s1 = eligibility by_id \<lparr>ss_active = [], ss_rejected_ids = [], ss_rejections = rejections0\<rparr>;
          (s2, deps) = dependency_loop by_id s1 [];
          conflicts = conflict_phase rt by_id s2;
          s4 = replace_phase rt by_id (cf_state conflicts);
          s5 = best_phase rt by_id s4;
          s6 = recheck_loop by_id s5;
          (s7, included, suppressed) = include_bases by_id (map snd by_id) (s6, [], []);
          selected = sort_cmp (cmp_on nc_rule_id (rt_locale_compare rt)) (filter (is_active s7) (map snd by_id));
          rejected = sort_cmp (cmp_then (cmp_on sj_rule_id (rt_locale_compare rt))
            (cmp_on (reason_text \<circ> sj_reason) (rt_locale_compare rt))) (ss_rejections s7);
          total = foldl (\<lambda>sum c. dadd rt sum (nc_value c)) 0 selected
      in \<lparr>sr_selected = selected, sr_rejected = rejected,
          sr_applied_rule_ids = js_sort (map nc_rule_id selected),
          sr_rejected_rule_ids = js_sort (unique (map sj_rule_id rejected)),
          sr_total = total, sr_total_value = canonical_decimal rt total,
          sr_selected_by_group = map (\<lambda>(g, ids). (g, js_sort ids)) (group_ids selected []),
          sr_base_included_rule_ids = js_sort (unique included),
          sr_suppressed_base_rule_ids = js_sort (unique suppressed),
          sr_conflicts = sort_cmp (cmp_on (join_with [CHR 0x00] \<circ> sx_rule_ids) (rt_locale_compare rt))
            (cf_conflicts conflicts),
          sr_dependencies = sort_cmp (cmp_on sd_rule_id (rt_locale_compare rt)) (map snd deps),
          sr_unresolved = js_sort (map sj_rule_id
            (filter (\<lambda>r. sj_reason r = RR_conflict \<and> sj_by_rule_id r = None) rejected))\<rparr>)"

end
