(* ===== verification/Stacking_Laws.thy ===== *)
theory Stacking_Laws
  imports Stacking
begin

text \<open>
  What the stacking resolution guarantees.  Every phase obeys one contract, the locale
  \<open>suppressing\<close>: the active set only shrinks, the log only grows and every removal is
  logged.  On top of it each phase has its own law: conflicting pairs are separated, a
  replacing candidate stands alone in its group, at most one best-of-group candidate
  survives, requirements of active candidates are active, an included base is suppressed.
\<close>

section \<open>The contract of a phase\<close>

text \<open>A phase only removes ids from the active set, keeps the log, and logs every removal.\<close>

definition suppresses :: "stack_state \<Rightarrow> stack_state \<Rightarrow> bool" where
  "suppresses s s' \<longleftrightarrow> set (ss_active s') \<subseteq> set (ss_active s) \<and>
     set (ss_rejections s) \<subseteq> set (ss_rejections s') \<and>
     (\<forall>i\<in>set (ss_active s). i \<in> set (ss_active s') \<or> i \<in> sj_rule_id ` set (ss_rejections s'))"

lemma suppresses_refl [simp]: "suppresses s s"
  by (simp add: suppresses_def)

lemma suppresses_trans: "suppresses s t \<Longrightarrow> suppresses t u \<Longrightarrow> suppresses s u"
  unfolding suppresses_def by (meson image_mono subset_iff)

lemma suppresses_active: "suppresses s s' \<Longrightarrow> i \<in> set (ss_active s') \<Longrightarrow> i \<in> set (ss_active s)"
  by (auto simp: suppresses_def)

lemma reject_suppresses: "suppresses s (reject r s)"
  by (auto simp: suppresses_def reject_def)

lemma suppress_suppresses: "suppresses s (suppress c reason by s)"
  by (simp add: suppress_def reject_suppresses)

lemma suppress_active [simp]:
  "set (ss_active (suppress c reason by s)) = set (ss_active s) - {nc_rule_id c}"
  by (auto simp: suppress_def reject_def rejection_def)

locale suppressing =
  fixes phase :: "stack_state \<Rightarrow> stack_state"
  assumes phase_suppresses: "suppresses s (phase s)"
begin

lemma active_subset: "set (ss_active (phase s)) \<subseteq> set (ss_active s)"
  using phase_suppresses [of s] by (simp add: suppresses_def)

lemma active_or_logged:
  "i \<in> set (ss_active s) \<Longrightarrow> i \<in> set (ss_active (phase s)) \<or> i \<in> sj_rule_id ` set (ss_rejections (phase s))"
  using phase_suppresses [of s] by (simp add: suppresses_def)

lemma log_kept: "r \<in> set (ss_rejections s) \<Longrightarrow> r \<in> set (ss_rejections (phase s))"
  using phase_suppresses [of s] by (auto simp: suppresses_def)

end

lemma dependency_pass_suppresses:
  "dependency_pass by_id cs (s, deps, c0) = (s', deps', c) \<Longrightarrow> suppresses s s'"
proof (induction by_id cs "(s, deps, c0)" arbitrary: s deps c0 rule: dependency_pass.induct)
  case (2 by_id i c' cs s deps c0)
  then show ?case
    by (auto simp: Let_def split: if_splits intro: suppresses_trans [OF reject_suppresses])
qed simp

lemma dependency_loop_suppresses: "suppresses s (fst (dependency_loop by_id s deps))"
proof (induction by_id s deps rule: dependency_loop.induct)
  case (1 by_id s deps)
  obtain s' deps' changed where p: "dependency_pass by_id by_id (s, deps, False) = (s', deps', changed)"
    by (metis prod_cases3)
  have here: "suppresses s s'" by (rule dependency_pass_suppresses [OF p])
  show ?case
  proof (cases changed)
    case True
    have "dependency_loop by_id s deps = dependency_loop by_id s' deps'"
      unfolding dependency_loop.simps [of by_id s deps] by (simp only: p prod.case True if_True)
    with suppresses_trans [OF here 1 [OF p [symmetric] refl True]] show ?thesis by simp
  next
    case False
    have "dependency_loop by_id s deps = (s', deps')"
      unfolding dependency_loop.simps [of by_id s deps] by (simp only: p prod.case False if_False)
    with here show ?thesis by simp
  qed
qed

lemma conflicts_of_skip:
  assumes "om_get by_id j = None \<or> j \<notin> set (ss_active (cf_state st)) \<or>
    pair_key (nc_rule_id c) j \<in> set (cf_pairs st)"
  shows "conflicts_of rt by_id c (j # js) st = conflicts_of rt by_id c js st"
  using assms by (cases "om_get by_id j") simp_all

lemma conflicts_of_step:
  assumes "om_get by_id j = Some other" and "j \<in> set (ss_active (cf_state st))"
    and "pair_key (nc_rule_id c) j \<notin> set (cf_pairs st)"
  obtains r cfs where "sj_rule_id r = nc_rule_id c \<or> sj_rule_id r = nc_rule_id other"
    and "conflicts_of rt by_id c (j # js) st = conflicts_of rt by_id c js
      \<lparr>cf_state = reject r (cf_state st), cf_pairs = pair_key (nc_rule_id c) j # cf_pairs st,
       cf_conflicts = cfs\<rparr>"
proof -
  define winner where "winner = (if priority_compare rt c other \<le> 0 then c else other)"
  define loser where "loser = (if nc_rule_id winner = nc_rule_id c then other else c)"
  define r where "r = (rejection (nc_rule_id loser) RR_conflict)
    \<lparr>sj_by_rule_id := Some (nc_rule_id winner), sj_stack_group := Some (nc_stack_group loser)\<rparr>"
  have "sj_rule_id r = nc_rule_id c \<or> sj_rule_id r = nc_rule_id other"
    by (simp add: r_def rejection_def loser_def)
  then show thesis
    by (rule that) (simp add: assms Let_def winner_def [symmetric] loser_def [symmetric] r_def [symmetric])
qed

lemma conflicts_of_suppresses: "suppresses (cf_state st) (cf_state (conflicts_of rt by_id c js st))"
proof (induction js arbitrary: st)
  case (Cons j js)
  show ?case
  proof (cases "om_get by_id j = None \<or> j \<notin> set (ss_active (cf_state st)) \<or>
      pair_key (nc_rule_id c) j \<in> set (cf_pairs st)")
    case True
    then show ?thesis using Cons by (simp only: conflicts_of_skip)
  next
    case False
    then obtain other where "om_get by_id j = Some other" by auto
    from conflicts_of_step [OF this] False obtain r cfs where
      "conflicts_of rt by_id c (j # js) st = conflicts_of rt by_id c js
        \<lparr>cf_state = reject r (cf_state st), cf_pairs = pair_key (nc_rule_id c) j # cf_pairs st,
         cf_conflicts = cfs\<rparr>" by metis
    then show ?thesis
      using suppresses_trans [OF reject_suppresses Cons [of "conflict_state.make (reject r (cf_state st))
        (pair_key (nc_rule_id c) j # cf_pairs st) cfs", unfolded conflict_state.make_def, simplified]] by simp
  qed
qed simp

lemma conflict_pass_suppresses: "suppresses (cf_state st) (cf_state (conflict_pass rt by_id cs st))"
  by (induction cs arbitrary: st) (auto intro: suppresses_trans [OF conflicts_of_suppresses])

lemma suppress_others_suppresses: "suppresses s (suppress_others cs reason w s)"
proof (induction cs arbitrary: s)
  case (Cons c cs)
  show ?case
    using Cons suppresses_trans [OF suppress_suppresses Cons] by auto
qed simp

lemma replace_groups_suppresses: "suppresses s (replace_groups rt gs s)"
proof (induction gs arbitrary: s)
  case (Cons g gs)
  obtain n cs where g: "g = (n, cs)" by (cases g)
  show ?case
    using Cons suppresses_trans [OF suppress_others_suppresses Cons] by (auto simp: g split: list.splits)
qed simp

lemma best_of_groups_suppresses: "suppresses s (best_of_groups rt all gs s)"
proof (induction gs arbitrary: s)
  case (Cons g gs)
  show ?case
    using Cons suppresses_trans [OF suppress_others_suppresses Cons] by (auto simp: Let_def split: list.splits)
qed simp

lemma recheck_pass_suppresses: "recheck_pass by_id cs (s, c0) = (s', c) \<Longrightarrow> suppresses s s'"
proof (induction by_id cs "(s, c0)" arbitrary: s c0 rule: recheck_pass.induct)
  case (2 by_id d cs s c0)
  then show ?case
    by (auto split: if_splits option.splits intro: suppresses_trans [OF suppress_suppresses])
qed simp

lemma recheck_loop_suppresses: "suppresses s (recheck_loop by_id s)"
proof (induction by_id s rule: recheck_loop.induct)
  case (1 by_id s)
  obtain s' changed where p: "recheck_pass by_id (map snd by_id) (s, False) = (s', changed)"
    by fastforce
  have here: "suppresses s s'" by (rule recheck_pass_suppresses [OF p])
  show ?case
  proof (cases changed)
    case True
    have "recheck_loop by_id s = recheck_loop by_id s'"
      unfolding recheck_loop.simps [of by_id s] by (simp only: p prod.case True if_True)
    with suppresses_trans [OF here 1 [OF p [symmetric] True]] show ?thesis by simp
  next
    case False
    have "recheck_loop by_id s = s'"
      unfolding recheck_loop.simps [of by_id s] by (simp only: p prod.case False if_False)
    with here show ?thesis by simp
  qed
qed

lemma suppress_bases_suppresses: "suppress_bases by_id c bs (s, xs) = (s', xs') \<Longrightarrow> suppresses s s'"
proof (induction by_id c bs "(s, xs)" arbitrary: s xs rule: suppress_bases.induct)
  case (2 by_id c b bs s xs)
  then show ?case
    by (auto split: if_splits option.splits intro: suppresses_trans [OF suppress_suppresses])
qed simp

lemma include_bases_suppresses: "include_bases by_id cs (s, xs, ys) = (s', xs', ys') \<Longrightarrow> suppresses s s'"
proof (induction by_id cs "(s, xs, ys)" arbitrary: s xs ys rule: include_bases.induct)
  case (2 by_id c cs s xs ys)
  obtain t zs where t: "suppress_bases by_id c (base_ids (map snd by_id) c) (s, ys) = (t, zs)" by fastforce
  from suppress_bases_suppresses [OF t] 2 t show ?case
    by (auto split: if_splits intro: suppresses_trans)
qed simp

interpretation dependencies: suppressing "\<lambda>s. fst (dependency_loop by_id s deps)" for by_id deps
  by unfold_locales (rule dependency_loop_suppresses)

interpretation conflicting: suppressing "\<lambda>s. cf_state (conflict_phase rt by_id s)" for rt by_id
proof unfold_locales
  fix s
  show "suppresses s (cf_state (conflict_phase rt by_id s))"
    using conflict_pass_suppresses [of "\<lparr>cf_state = s, cf_pairs = [], cf_conflicts = []\<rparr>"]
    by (simp add: conflict_phase_def)
qed

interpretation replacing: suppressing "replace_phase rt by_id" for rt by_id
  by unfold_locales (simp add: replace_phase_def replace_groups_suppresses)

interpretation best: suppressing "best_phase rt by_id" for rt by_id
  by unfold_locales (simp add: best_phase_def best_of_groups_suppresses)

interpretation rechecking: suppressing "recheck_loop by_id" for by_id
  by unfold_locales (rule recheck_loop_suppresses)

interpretation basing: suppressing "\<lambda>s. fst (include_bases by_id cs (s, xs, ys))" for by_id cs xs ys
proof unfold_locales
  fix s
  obtain s' xs' ys' where "include_bases by_id cs (s, xs, ys) = (s', xs', ys')" by (metis prod_cases3)
  from include_bases_suppresses [OF this] this
  show "suppresses s (fst (include_bases by_id cs (s, xs, ys)))" by simp
qed

section \<open>The states between the phases\<close>

definition candidates_ok :: "candidates \<Rightarrow> bool" where
  "candidates_ok by_id \<longleftrightarrow> om_ok by_id \<and> (\<forall>p\<in>set by_id. nc_rule_id (snd p) = fst p \<and> fst p \<noteq> [])"

lemma om_set_mem: "p \<in> set (om_set k v m) \<Longrightarrow> p = (k, v) \<or> p \<in> set m"
  by (induction m) (auto split: if_splits)

lemma normalized_id: "normalized rt c = Inr n \<Longrightarrow> nc_rule_id n = candidate_id c"
  by (auto simp: normalized_def Let_def rbind_Inr_iff split: if_splits)

text \<open>Each source candidate is logged or becomes the candidate of its id.\<close>

lemma collect_step:
  obtains (logged) r where "sj_rule_id r = candidate_id c"
      and "collect rt (c # cs) by_id rs = collect rt cs by_id (rs @ [r])"
  | (stored) n where "candidate_id c \<noteq> []" and "nc_rule_id n = candidate_id c"
      and "collect rt (c # cs) by_id rs = collect rt cs (om_set (candidate_id c) n by_id) rs"
proof (cases "candidate_id c = []")
  case True
  show thesis
    by (rule logged [of "(rejection [] RR_invalid_candidate)\<lparr>sj_detail := Some ''rule_id is required''\<rparr>"])
      (simp_all add: True rejection_def)
next
  case False
  show thesis
  proof (cases "om_get by_id (candidate_id c) = None")
    case True
    show thesis
    proof (cases "normalized rt c")
      case (Inl e)
      show thesis
        by (rule logged [of "(rejection (candidate_id c) RR_invalid_candidate)\<lparr>sj_detail := Some e\<rparr>"])
          (simp_all add: True False Inl rejection_def)
    next
      case (Inr n)
      show thesis by (rule stored [OF False normalized_id [OF Inr]]) (simp add: True False Inr)
    qed
  next
    case exists: False
    show thesis
      by (rule logged [of "rejection (candidate_id c) RR_duplicate_rule_id"])
        (use False exists in \<open>auto simp: rejection_def\<close>)
  qed
qed

lemma candidates_ok_set:
  assumes "candidates_ok by_id" and "nc_rule_id n = i" and "i \<noteq> []"
  shows "candidates_ok (om_set i n by_id)"
  unfolding candidates_ok_def
proof (intro conjI ballI)
  show "om_ok (om_set i n by_id)" using assms by (simp add: candidates_ok_def om_ok_set)
next
  fix p
  assume "p \<in> set (om_set i n by_id)"
  from om_set_mem [OF this] assms show "nc_rule_id (snd p) = fst p" "fst p \<noteq> []"
    by (auto simp: candidates_ok_def)
qed

lemma collect_ok:
  "candidates_ok by_id \<Longrightarrow> collect rt cs by_id rs = (by_id', rs') \<Longrightarrow> candidates_ok by_id'"
proof (induction cs arbitrary: by_id rs)
  case (Cons c cs)
  from collect_step [of c rt cs by_id rs] show ?case
  proof cases
    case (logged r)
    with Cons show ?thesis by metis
  next
    case (stored n)
    with Cons show ?thesis by (metis candidates_ok_set)
  qed
qed simp

lemma collect_covers:
  "collect rt cs by_id rs = (by_id', rs') \<Longrightarrow>
   set rs \<subseteq> set rs' \<and> fst ` set by_id \<subseteq> fst ` set by_id' \<and>
   (\<forall>c\<in>set cs. candidate_id c \<in> fst ` set by_id' \<or> candidate_id c \<in> sj_rule_id ` set rs')"
proof (induction cs arbitrary: by_id rs)
  case (Cons c cs)
  from collect_step [of c rt cs by_id rs] show ?case
  proof cases
    case (logged r)
    with Cons.prems have "collect rt cs by_id (rs @ [r]) = (by_id', rs')" by simp
    from Cons.IH [OF this] logged(1) [symmetric] show ?thesis by auto
  next
    case (stored n)
    have "candidate_id c \<in> fst ` set (om_set (candidate_id c) n by_id)" by (simp add: om_set_keys)
    moreover have "fst ` set by_id \<subseteq> fst ` set (om_set (candidate_id c) n by_id)" by (auto simp: om_set_keys)
    moreover have "collect rt cs (om_set (candidate_id c) n by_id) rs = (by_id', rs')"
      using stored(3) Cons.prems by simp
    from Cons.IH [OF this] have
      "set rs \<subseteq> set rs'" "fst ` set (om_set (candidate_id c) n by_id) \<subseteq> fst ` set by_id'"
      "\<forall>c\<in>set cs. candidate_id c \<in> fst ` set by_id' \<or> candidate_id c \<in> sj_rule_id ` set rs'" by blast+
    ultimately show ?thesis by (simp only: list.set ball_simps) blast
  qed
qed simp

lemma eligibility_log: "set (ss_rejections s) \<subseteq> set (ss_rejections (eligibility cs s))"
  by (induction cs s rule: eligibility.induct) (auto simp: reject_def)

lemma eligibility_active_bound: "set (ss_active (eligibility cs s)) \<subseteq> set (ss_active s) \<union> fst ` set cs"
  by (induction cs s rule: eligibility.induct) (auto simp: reject_def)

lemma eligibility_covers:
  "distinct (map fst cs) \<Longrightarrow> i \<in> fst ` set cs \<or> i \<in> set (ss_active s) \<Longrightarrow>
   i \<in> set (ss_active (eligibility cs s)) \<or> i \<in> sj_rule_id ` set (ss_rejections (eligibility cs s))"
proof (induction cs s rule: eligibility.induct)
  case (2 j c cs s)
  have "rejection j RR_ineligible \<in> set (ss_rejections (eligibility cs (reject (rejection j RR_ineligible) s)))"
    by (rule subsetD [OF eligibility_log]) (simp add: reject_def)
  then have kept: "j \<in> sj_rule_id ` set (ss_rejections (eligibility cs (reject (rejection j RR_ineligible) s)))"
    by (rule rev_image_eqI) (simp add: rejection_def)
  show ?case
  proof (cases "nc_eligible c = Some False")
    case True
    show ?thesis
    proof (cases "i = j")
      case True
      with kept \<open>nc_eligible c = Some False\<close> show ?thesis by simp
    next
      case False
      with 2 True show ?thesis by (auto simp: reject_def rejection_def)
    qed
  next
    case False
    with 2 show ?thesis by auto
  qed
qed simp

section \<open>A run of the resolution\<close>

definition start_state :: "candidates \<Rightarrow> stack_rejection list \<Rightarrow> stack_state" where
  "start_state by_id rejections =
     eligibility by_id \<lparr>ss_active = [], ss_rejected_ids = [], ss_rejections = rejections\<rparr>"

definition decided :: "runtime \<Rightarrow> candidates \<Rightarrow> stack_state \<Rightarrow> stack_state" where
  "decided rt by_id s =
     best_phase rt by_id (replace_phase rt by_id (cf_state (conflict_phase rt by_id s)))"

lemma resolution_run:
  obtains by_id r0 s2 deps s7 included suppressed
  where "collect rt (source_candidates input) [] [] = (by_id, r0)" and "candidates_ok by_id"
    and "dependency_loop by_id (start_state by_id r0) [] = (s2, deps)"
    and "include_bases by_id (map snd by_id) (recheck_loop by_id (decided rt by_id s2), [], []) =
      (s7, included, suppressed)"
    and "set (sr_selected (resolve_stacking rt input)) = {c \<in> snd ` set by_id. is_active s7 c}"
    and "mset (sr_selected (resolve_stacking rt input)) = mset (filter (is_active s7) (map snd by_id))"
    and "sr_applied_rule_ids (resolve_stacking rt input) =
      js_sort (map nc_rule_id (sr_selected (resolve_stacking rt input)))"
    and "set (sr_rejected_rule_ids (resolve_stacking rt input)) = sj_rule_id ` set (ss_rejections s7)"
    and "set (sr_suppressed_base_rule_ids (resolve_stacking rt input)) = set suppressed"
    and "set (sr_rejected (resolve_stacking rt input)) = set (ss_rejections s7)"
proof -
  obtain by_id r0 where c: "collect rt (source_candidates input) [] [] = (by_id, r0)" by fastforce
  obtain s2 deps where d: "dependency_loop by_id (start_state by_id r0) [] = (s2, deps)" by fastforce
  obtain s7 us zs where i:
    "include_bases by_id (map snd by_id) (recheck_loop by_id (decided rt by_id s2), [], []) = (s7, us, zs)"
    by (metis prod_cases3)
  note run = c d [unfolded start_state_def] i [unfolded decided_def]
  have ok: "candidates_ok by_id"
    by (rule collect_ok [OF _ c]) (simp add: candidates_ok_def)
  show thesis
    by (rule that [OF c ok d i]) (auto simp: resolve_stacking_def run Let_def filter_map)
qed

lemma is_active_key:
  assumes "candidates_ok by_id" and "c \<in> snd ` set by_id"
  shows "om_get by_id (nc_rule_id c) = Some c" and "nc_rule_id c \<noteq> []"
  using assms by (force simp: candidates_ok_def om_ok_def)+

lemma candidates_ok_get:
  "candidates_ok by_id \<Longrightarrow> om_get by_id i = Some c \<Longrightarrow> nc_rule_id c = i \<and> i \<noteq> [] \<and> c \<in> snd ` set by_id"
  by (fastforce simp: candidates_ok_def dest: map_of_SomeD intro: rev_image_eqI)

lemma recheck_to_end:
  assumes "include_bases by_id cs (recheck_loop by_id s, xs, ys) = (s7, us, zs)"
  shows "suppresses (recheck_loop by_id s) s7" and "suppresses s s7"
proof -
  show "suppresses (recheck_loop by_id s) s7"
    using basing.phase_suppresses [of "recheck_loop by_id s" by_id cs xs ys] assms by simp
  then show "suppresses s s7" by (rule suppresses_trans [OF rechecking.phase_suppresses])
qed

lemma conflict_phase_to_end:
  assumes "include_bases by_id cs (recheck_loop by_id (decided rt by_id s), xs, ys) = (s7, us, zs)"
  shows "suppresses (cf_state (conflict_phase rt by_id s)) s7"
  using recheck_to_end(2) [OF assms] unfolding decided_def
  by (blast intro: suppresses_trans replacing.phase_suppresses best.phase_suppresses)

lemma run_suppresses:
  assumes "dependency_loop by_id s1 [] = (s2, deps)"
    and "include_bases by_id cs (recheck_loop by_id (decided rt by_id s2), xs, ys) = (s7, us, zs)"
  shows "suppresses s1 s7"
proof -
  have "suppresses s1 s2"
    using dependencies.phase_suppresses [of s1 by_id "[]"] assms(1) by simp
  then show ?thesis
    by (rule suppresses_trans [OF _ suppresses_trans [OF conflicting.phase_suppresses
      conflict_phase_to_end [OF assms(2)]]])
qed

lemma collect_keys:
  "collect rt cs by_id rs = (by_id', rs') \<Longrightarrow>
   fst ` set by_id' \<subseteq> fst ` set by_id \<union> candidate_id ` set cs"
proof (induction cs arbitrary: by_id rs)
  case (Cons c cs)
  from collect_step [of c rt cs by_id rs] show ?case
  proof cases
    case (logged r)
    with Cons.prems have "collect rt cs by_id (rs @ [r]) = (by_id', rs')" by simp
    from Cons.IH [OF this] show ?thesis by auto
  next
    case (stored n)
    with Cons.prems have "collect rt cs (om_set (candidate_id c) n by_id) rs = (by_id', rs')" by simp
    from Cons.IH [OF this] show ?thesis by (auto simp only: om_set_keys list.set)
  qed
qed simp

text \<open>The ids of a run: every key is active or logged at the end, and only keys are active.\<close>

lemma run_decides:
  assumes c: "collect rt src [] [] = (by_id, r0)" and ok: "candidates_ok by_id"
    and s: "suppresses (start_state by_id r0) s7"
  shows "x \<in> set src \<Longrightarrow>
      candidate_id x \<in> set (ss_active s7) \<or> candidate_id x \<in> sj_rule_id ` set (ss_rejections s7)"
    and "set (ss_active s7) \<subseteq> fst ` set by_id"
    and "fst ` set by_id \<subseteq> candidate_id ` set src"
proof -
  let ?s0 = "\<lparr>ss_active = [], ss_rejected_ids = [], ss_rejections = r0\<rparr>"
  have kept: "sj_rule_id ` set r0 \<subseteq> sj_rule_id ` set (ss_rejections s7)"
    using eligibility_log [of ?s0 by_id] s by (auto simp: suppresses_def start_state_def)
  show "set (ss_active s7) \<subseteq> fst ` set by_id"
    using eligibility_active_bound [of by_id ?s0] s by (auto simp: suppresses_def start_state_def)
  show "fst ` set by_id \<subseteq> candidate_id ` set src" using collect_keys [OF c] by simp
  assume "x \<in> set src"
  with collect_covers [OF c] consider "candidate_id x \<in> fst ` set by_id" | "candidate_id x \<in> sj_rule_id ` set r0"
    by blast
  then show "candidate_id x \<in> set (ss_active s7) \<or> candidate_id x \<in> sj_rule_id ` set (ss_rejections s7)"
  proof cases
    case 1
    moreover have "distinct (map fst by_id)" using ok by (simp add: candidates_ok_def om_ok_def)
    ultimately have "candidate_id x \<in> set (ss_active (start_state by_id r0)) \<or>
        candidate_id x \<in> sj_rule_id ` set (ss_rejections (start_state by_id r0))"
      unfolding start_state_def by (intro eligibility_covers) auto
    then show ?thesis using s unfolding suppresses_def by blast
  qed (use kept in blast)
qed

lemma active_candidate_ids:
  assumes "candidates_ok by_id" and "set (ss_active s) \<subseteq> fst ` set by_id"
  shows "nc_rule_id ` {c \<in> snd ` set by_id. is_active s c} = set (ss_active s)"
    and "distinct (map nc_rule_id (filter (is_active s) (map snd by_id)))"
proof -
  have keys: "map nc_rule_id (map snd by_id) = map fst by_id"
    using assms(1) by (auto simp: candidates_ok_def)
  then have "distinct (map nc_rule_id (map snd by_id))"
    using assms(1) by (simp only: candidates_ok_def om_ok_def)
  then show "distinct (map nc_rule_id (filter (is_active s) (map snd by_id)))"
    by (rule distinct_map_filter)
  show "nc_rule_id ` {c \<in> snd ` set by_id. is_active s c} = set (ss_active s)"
    using assms unfolding candidates_ok_def is_active_def by force
qed

section \<open>Every candidate is decided\<close>

lemma resolution_decides:
  "(\<forall>c\<in>set (source_candidates input).
      candidate_id c \<in> set (sr_applied_rule_ids (resolve_stacking rt input)) \<or>
      candidate_id c \<in> set (sr_rejected_rule_ids (resolve_stacking rt input))) \<and>
   distinct (sr_applied_rule_ids (resolve_stacking rt input)) \<and>
   set (sr_applied_rule_ids (resolve_stacking rt input)) \<subseteq> candidate_id ` set (source_candidates input) - {[]}"
proof -
  let ?R = "resolve_stacking rt input"
  obtain by_id r0 s2 deps s7 us zs where run:
    "collect rt (source_candidates input) [] [] = (by_id, r0)" "candidates_ok by_id"
    "dependency_loop by_id (start_state by_id r0) [] = (s2, deps)"
    "include_bases by_id (map snd by_id) (recheck_loop by_id (decided rt by_id s2), [], []) = (s7, us, zs)"
    "set (sr_selected ?R) = {c \<in> snd ` set by_id. is_active s7 c}"
    "mset (sr_selected ?R) = mset (filter (is_active s7) (map snd by_id))"
    "sr_applied_rule_ids ?R = js_sort (map nc_rule_id (sr_selected ?R))"
    "set (sr_rejected_rule_ids ?R) = sj_rule_id ` set (ss_rejections s7)"
    "set (sr_suppressed_base_rule_ids ?R) = set zs"
    by (rule resolution_run)
  note s = run_suppresses [OF run(3,4)]
  note decides = run_decides [OF run(1,2) s]
  have applied: "set (sr_applied_rule_ids ?R) = set (ss_active s7)"
    using active_candidate_ids(1) [OF run(2) decides(2)] run(5,7) by simp
  have "mset (map nc_rule_id (sr_selected ?R)) = mset (map nc_rule_id (filter (is_active s7) (map snd by_id)))"
    using run(6) by simp
  then have "distinct (sr_applied_rule_ids ?R)"
    using active_candidate_ids(2) [OF run(2) decides(2)] run(7)
    by (simp only: js_sort_simps) (metis mset_eq_imp_distinct_iff)
  moreover have "[] \<notin> fst ` set by_id" using run(2) by (force simp: candidates_ok_def)
  then have "set (ss_active s7) \<subseteq> candidate_id ` set (source_candidates input) - {[]}"
    using decides(2,3) by blast
  ultimately show ?thesis using decides(1) by (simp only: applied run(8) simp_thms ball_simps) simp
qed

text \<open>C35. Every candidate handed to the resolution ends up applied or logged as rejected,
  none is dropped silently; the applied ids are distinct, non-empty and come from the
  candidates.\<close>

theorem every_candidate_is_decided:
  "(\<forall>c\<in>set (source_candidates input).
      candidate_id c \<in> set (sr_applied_rule_ids (resolve_stacking rt input)) \<or>
      candidate_id c \<in> set (sr_rejected_rule_ids (resolve_stacking rt input))) \<and>
   distinct (sr_applied_rule_ids (resolve_stacking rt input)) \<and>
   set (sr_applied_rule_ids (resolve_stacking rt input)) \<subseteq> candidate_id ` set (source_candidates input) - {[]}"
  by (rule resolution_decides)

section \<open>Conflicting candidates are separated\<close>

definition no_nul :: "string \<Rightarrow> bool" where
  "no_nul i \<longleftrightarrow> CHR 0x00 \<notin> set i"

lemma nul_join_inject:
  assumes "x @ [CHR 0x00] @ y = x' @ [CHR 0x00] @ y'" and "no_nul x" and "no_nul x'"
  shows "x = x' \<and> y = y'"
proof -
  have take: "takeWhile (\<lambda>c. c \<noteq> CHR 0x00) (u @ [CHR 0x00] @ v) = u" if "no_nul u" for u v
    using that unfolding no_nul_def by (subst takeWhile_append2) auto
  from take [OF assms(2), of y] take [OF assms(3), of y'] assms(1) have "x = x'" by simp
  with assms(1) show ?thesis by simp
qed

lemma pair_key_inject:
  assumes "pair_key a b = pair_key c d" and "no_nul a" "no_nul b" "no_nul c" "no_nul d"
  shows "a = c \<and> b = d \<or> a = d \<and> b = c"
proof -
  have two: "js_sort [x, y] = [x, y] \<or> js_sort [x, y] = [y, x]" for x y
    by (auto simp: js_sort_def)
  have "pair_key x y = x @ [CHR 0x00] @ y \<or> pair_key x y = y @ [CHR 0x00] @ x" for x y
    using two [of x y] by (auto simp: pair_key_def)
  with assms show ?thesis by (metis nul_join_inject)
qed

text \<open>Every recorded pair has lost one of its two candidates.\<close>

definition pairs_separated :: "candidates \<Rightarrow> conflict_state \<Rightarrow> bool" where
  "pairs_separated by_id st \<longleftrightarrow> (\<forall>k\<in>set (cf_pairs st). \<exists>a b. k = pair_key a b \<and>
     a \<in> fst ` set by_id \<and> b \<in> fst ` set by_id \<and>
     \<not> (a \<in> set (ss_active (cf_state st)) \<and> b \<in> set (ss_active (cf_state st))))"

lemma pairs_separated_both:
  assumes "pairs_separated by_id st" and "pair_key a b \<in> set (cf_pairs st)"
    and "\<forall>i\<in>fst ` set by_id. no_nul i" and "a \<in> fst ` set by_id" and "b \<in> fst ` set by_id"
  shows "\<not> (a \<in> set (ss_active (cf_state st)) \<and> b \<in> set (ss_active (cf_state st)))"
proof -
  obtain c d where "pair_key a b = pair_key c d" "c \<in> fst ` set by_id" "d \<in> fst ` set by_id"
    and lost: "\<not> (c \<in> set (ss_active (cf_state st)) \<and> d \<in> set (ss_active (cf_state st)))"
    using assms(1,2) unfolding pairs_separated_def by blast
  with pair_key_inject [of a b c d] assms(3-5) have "a = c \<and> b = d \<or> a = d \<and> b = c" by blast
  with lost show ?thesis by blast
qed

lemma conflicts_of_separates:
  assumes ok: "candidates_ok by_id" and nul: "\<forall>i\<in>fst ` set by_id. no_nul i"
    and c: "nc_rule_id c \<in> fst ` set by_id"
  shows "pairs_separated by_id st \<Longrightarrow>
    pairs_separated by_id (conflicts_of rt by_id c js st) \<and>
    (\<forall>j\<in>set js \<inter> fst ` set by_id.
      \<not> (nc_rule_id c \<in> set (ss_active (cf_state (conflicts_of rt by_id c js st))) \<and>
         j \<in> set (ss_active (cf_state (conflicts_of rt by_id c js st)))))"
proof (induction js arbitrary: st)
  case (Cons j js)
  let ?rest = "conflicts_of rt by_id c (j # js) st"
  have shrink: "\<not> (nc_rule_id c \<in> set (ss_active (cf_state st')) \<and> j \<in> set (ss_active (cf_state st'))) \<Longrightarrow>
      \<not> (nc_rule_id c \<in> set (ss_active (cf_state (conflicts_of rt by_id c js st'))) \<and>
         j \<in> set (ss_active (cf_state (conflicts_of rt by_id c js st'))))" for st'
    using suppresses_active [OF conflicts_of_suppresses] by blast
  show ?case
  proof (cases "om_get by_id j = None \<or> j \<notin> set (ss_active (cf_state st)) \<or>
      pair_key (nc_rule_id c) j \<in> set (cf_pairs st)")
    case True
    have "j \<in> fst ` set by_id \<Longrightarrow>
        \<not> (nc_rule_id c \<in> set (ss_active (cf_state st)) \<and> j \<in> set (ss_active (cf_state st)))"
      using True pairs_separated_both [OF Cons.prems _ nul c, of j] by (auto simp: map_of_eq_None_iff)
    with shrink [of st] Cons.IH [OF Cons.prems] show ?thesis
      unfolding conflicts_of_skip [OF True] by auto
  next
    case False
    then obtain other where o: "om_get by_id j = Some other" by auto
    with ok have oj: "nc_rule_id other = j" and j: "j \<in> fst ` set by_id"
      using candidates_ok_get [OF ok o] by (auto dest: map_of_SomeD intro: rev_image_eqI)
    from conflicts_of_step [OF o] False obtain r cfs where
      r: "sj_rule_id r = nc_rule_id c \<or> sj_rule_id r = j" and
      eq: "?rest = conflicts_of rt by_id c js
        \<lparr>cf_state = reject r (cf_state st), cf_pairs = pair_key (nc_rule_id c) j # cf_pairs st,
         cf_conflicts = cfs\<rparr>" using oj by metis
    define st' where "st' = \<lparr>cf_state = reject r (cf_state st),
      cf_pairs = pair_key (nc_rule_id c) j # cf_pairs st, cf_conflicts = cfs\<rparr>"
    have lost: "\<not> (nc_rule_id c \<in> set (ss_active (cf_state st')) \<and> j \<in> set (ss_active (cf_state st')))"
      using r by (auto simp: st'_def reject_def)
    have "pairs_separated by_id st'"
      unfolding pairs_separated_def
    proof
      fix k
      assume "k \<in> set (cf_pairs st')"
      then consider "k = pair_key (nc_rule_id c) j" | "k \<in> set (cf_pairs st)" by (auto simp: st'_def)
      then show "\<exists>a b. k = pair_key a b \<and> a \<in> fst ` set by_id \<and> b \<in> fst ` set by_id \<and>
          \<not> (a \<in> set (ss_active (cf_state st')) \<and> b \<in> set (ss_active (cf_state st')))"
      proof cases
        case 1
        with lost c j show ?thesis by blast
      next
        case 2
        with Cons.prems have "\<exists>a b. k = pair_key a b \<and> a \<in> fst ` set by_id \<and> b \<in> fst ` set by_id \<and>
            \<not> (a \<in> set (ss_active (cf_state st)) \<and> b \<in> set (ss_active (cf_state st)))"
          unfolding pairs_separated_def by blast
        then show ?thesis by (auto simp: st'_def reject_def)
      qed
    qed
    from Cons.IH [OF this] shrink [OF lost] show ?thesis
      unfolding eq st'_def [symmetric] by auto
  qed
qed simp

lemma conflict_pass_separates:
  assumes ok: "candidates_ok by_id" and nul: "\<forall>i\<in>fst ` set by_id. no_nul i"
  shows "pairs_separated by_id st \<Longrightarrow> nc_rule_id ` set cs \<subseteq> fst ` set by_id \<Longrightarrow>
    (\<forall>c\<in>set cs. \<forall>j\<in>set (nc_conflicts_with_rule_ids c) \<inter> fst ` set by_id.
      \<not> (nc_rule_id c \<in> set (ss_active (cf_state (conflict_pass rt by_id cs st))) \<and>
         j \<in> set (ss_active (cf_state (conflict_pass rt by_id cs st)))))"
proof (induction cs arbitrary: st)
  case (Cons c cs)
  show ?case
  proof (cases "nc_rule_id c \<in> set (ss_active (cf_state st))")
    case True
    let ?st = "conflicts_of rt by_id c (nc_conflicts_with_rule_ids c) st"
    have eq: "conflict_pass rt by_id (c # cs) st = conflict_pass rt by_id cs ?st" using True by simp
    have c: "nc_rule_id c \<in> fst ` set by_id" and cs: "nc_rule_id ` set cs \<subseteq> fst ` set by_id"
      using Cons.prems(2) by auto
    note sep = conflicts_of_separates [OF ok nul c Cons.prems(1), of rt "nc_conflicts_with_rule_ids c"]
    have gone: "i \<notin> set (ss_active (cf_state ?st)) \<Longrightarrow>
        i \<notin> set (ss_active (cf_state (conflict_pass rt by_id cs ?st)))" for i
      using suppresses_active [OF conflict_pass_suppresses] by blast
    from Cons.IH [OF conjunct1 [OF sep] cs] conjunct2 [OF sep] gone show ?thesis
      unfolding eq by (simp only: list.set ball_simps) blast
  next
    case False
    then have "nc_rule_id c \<notin> set (ss_active (cf_state (conflict_pass rt by_id cs st)))"
      using suppresses_active [OF conflict_pass_suppresses] by blast
    with False Cons show ?thesis by simp
  qed
qed simp

lemma conflict_phase_separates:
  assumes "candidates_ok by_id" and "\<forall>i\<in>fst ` set by_id. no_nul i"
    and "c \<in> snd ` set by_id" and "j \<in> set (nc_conflicts_with_rule_ids c)" and "j \<in> fst ` set by_id"
  shows "\<not> (is_active (cf_state (conflict_phase rt by_id s)) c \<and>
    j \<in> set (ss_active (cf_state (conflict_phase rt by_id s))))"
proof -
  have "nc_rule_id ` snd ` set by_id \<subseteq> fst ` set by_id"
    using assms(1) by (auto simp: candidates_ok_def intro: rev_image_eqI)
  then have "nc_rule_id ` set (sort_cmp (cmp_on nc_rule_id (rt_locale_compare rt)) (map snd by_id)) \<subseteq> fst ` set by_id"
    by simp
  note sep = conflict_pass_separates [OF assms(1,2) _ this, of "\<lparr>cf_state = s, cf_pairs = [], cf_conflicts = []\<rparr>" rt]
  have "c \<in> set (sort_cmp (cmp_on nc_rule_id (rt_locale_compare rt)) (map snd by_id))"
    using assms(3) by simp
  from bspec [OF bspec [OF sep this], of j] assms(4,5)
  show ?thesis by (simp add: conflict_phase_def is_active_def pairs_separated_def)
qed

text \<open>The facts of a run that the selection laws share.\<close>

definition run_of ::
    "runtime \<Rightarrow> stacking_input \<Rightarrow> candidates \<Rightarrow> stack_state \<Rightarrow> stack_state \<Rightarrow> stack_state \<Rightarrow> string list \<Rightarrow> bool" where
  "run_of rt input by_id s2 s6 s7 suppressed \<longleftrightarrow>
     candidates_ok by_id \<and> fst ` set by_id \<subseteq> candidate_id ` set (source_candidates input) \<and>
     (\<exists>s1 deps. dependency_loop by_id s1 [] = (s2, deps)) \<and> set (ss_active s2) \<subseteq> fst ` set by_id \<and>
     s6 = recheck_loop by_id (decided rt by_id s2) \<and>
     (\<exists>included. include_bases by_id (map snd by_id) (s6, [], []) = (s7, included, suppressed)) \<and>
     set (sr_selected (resolve_stacking rt input)) = {c \<in> snd ` set by_id. is_active s7 c} \<and>
     set (sr_suppressed_base_rule_ids (resolve_stacking rt input)) = set suppressed \<and>
     set (sr_rejected (resolve_stacking rt input)) = set (ss_rejections s7) \<and>
     snd ` set by_id \<subseteq> {n. \<exists>x\<in>set (source_candidates input). normalized rt x = Inr n}"

lemma om_set_listed: "snd ` set (om_set k v m) \<subseteq> insert v (snd ` set m)"
  by (induction k v m rule: om_set.induct) auto

lemma collect_sources:
  "collect rt cs by_id rs = (by_id', rs') \<Longrightarrow>
   snd ` set by_id' \<subseteq> snd ` set by_id \<union> {n. \<exists>x\<in>set cs. normalized rt x = Inr n}"
proof (induction cs arbitrary: by_id rs)
  case (Cons c cs)
  consider (logged) r where "collect rt cs by_id r = (by_id', rs')"
    | (stored) n where "normalized rt c = Inr n" "collect rt cs (om_set (candidate_id c) n by_id) rs = (by_id', rs')"
    using Cons.prems by (auto simp: Let_def split: if_splits sum.splits)
  then show ?case
  proof cases
    case logged
    from Cons.IH [OF this] show ?thesis by auto
  next
    case (stored n)
    have n: "n \<in> {n. \<exists>x\<in>set (c # cs). normalized rt x = Inr n}" using stored(1) by simp
    have "{n. \<exists>x\<in>set cs. normalized rt x = Inr n} \<subseteq> {n. \<exists>x\<in>set (c # cs). normalized rt x = Inr n}" by auto
    with Cons.IH [OF stored(2)] om_set_listed [of "candidate_id c" n by_id] n show ?thesis by blast
  qed
qed simp

lemma run_exists:
  obtains by_id s2 s6 s7 suppressed where "run_of rt input by_id s2 s6 s7 suppressed"
proof -
  let ?R = "resolve_stacking rt input"
  obtain by_id r0 s2 deps s7 us zs where run:
    "collect rt (source_candidates input) [] [] = (by_id, r0)" "candidates_ok by_id"
    "dependency_loop by_id (start_state by_id r0) [] = (s2, deps)"
    "include_bases by_id (map snd by_id) (recheck_loop by_id (decided rt by_id s2), [], []) = (s7, us, zs)"
    "set (sr_selected ?R) = {c \<in> snd ` set by_id. is_active s7 c}"
    "mset (sr_selected ?R) = mset (filter (is_active s7) (map snd by_id))"
    "sr_applied_rule_ids ?R = js_sort (map nc_rule_id (sr_selected ?R))"
    "set (sr_rejected_rule_ids ?R) = sj_rule_id ` set (ss_rejections s7)"
    "set (sr_suppressed_base_rule_ids ?R) = set zs" "set (sr_rejected ?R) = set (ss_rejections s7)"
    by (rule resolution_run)
  have "suppresses (start_state by_id r0) s2"
    using dependencies.phase_suppresses [of "start_state by_id r0" by_id "[]"] run(3) by simp
  from run_decides(2) [OF run(1,2) this] have s2: "set (ss_active s2) \<subseteq> fst ` set by_id" .
  have sources: "snd ` set by_id \<subseteq> {n. \<exists>x\<in>set (source_candidates input). normalized rt x = Inr n}"
    using collect_sources [OF run(1)] by simp
  have "run_of rt input by_id s2 (recheck_loop by_id (decided rt by_id s2)) s7 zs"
    unfolding run_of_def
    using run(2-5,9,10) run_decides(3) [OF run(1,2) run_suppresses [OF run(3,4)]] s2 sources by blast
  then show thesis by (rule that)
qed

lemma run_key: "run_of rt input by_id s2 s6 s7 zs \<Longrightarrow> c \<in> snd ` set by_id \<Longrightarrow> nc_rule_id c \<in> fst ` set by_id"
  by (auto simp: run_of_def candidates_ok_def intro: rev_image_eqI)

lemma run_selected:
  assumes "run_of rt input by_id s2 s6 s7 zs"
  shows "c \<in> set (sr_selected (resolve_stacking rt input)) \<longleftrightarrow> c \<in> snd ` set by_id \<and> is_active s7 c"
  using assms by (simp add: run_of_def)

lemma run_stages:
  assumes "run_of rt input by_id s2 s6 s7 zs"
  shows "suppresses s6 s7" and "suppresses (decided rt by_id s2) s6"
    and "suppresses (replace_phase rt by_id (cf_state (conflict_phase rt by_id s2))) (decided rt by_id s2)"
    and "suppresses (cf_state (conflict_phase rt by_id s2)) s7"
proof -
  obtain us where s6: "s6 = recheck_loop by_id (decided rt by_id s2)"
    and inc: "include_bases by_id (map snd by_id) (recheck_loop by_id (decided rt by_id s2), [], []) = (s7, us, zs)"
    using assms unfolding run_of_def by blast
  show "suppresses s6 s7" unfolding s6 by (rule recheck_to_end(1) [OF inc])
  show "suppresses (decided rt by_id s2) s6" unfolding s6 by (rule rechecking.phase_suppresses)
  show "suppresses (replace_phase rt by_id (cf_state (conflict_phase rt by_id s2))) (decided rt by_id s2)"
    unfolding decided_def by (rule best.phase_suppresses)
  show "suppresses (cf_state (conflict_phase rt by_id s2)) s7" by (rule conflict_phase_to_end [OF inc])
qed

lemma is_active_back: "suppresses s t \<Longrightarrow> is_active t c \<Longrightarrow> is_active s c"
  by (simp add: is_active_def suppresses_active)

text \<open>C16. No selected candidate names another selected candidate (or itself) among the
  rules it conflicts with, whichever of the two declares the conflict, as long as no rule id
  contains the NUL character that joins the pair keys.\<close>

theorem selected_never_conflict:
  assumes "\<forall>c\<in>set (source_candidates input). no_nul (candidate_id c)"
    and "a \<in> set (sr_selected (resolve_stacking rt input))"
    and "b \<in> set (sr_selected (resolve_stacking rt input))"
  shows "nc_rule_id b \<notin> set (nc_conflicts_with_rule_ids a)"
proof
  assume conflict: "nc_rule_id b \<in> set (nc_conflicts_with_rule_ids a)"
  obtain by_id s2 s6 s7 zs where run: "run_of rt input by_id s2 s6 s7 zs" by (rule run_exists)
  then have ok: "candidates_ok by_id" and nul: "\<forall>i\<in>fst ` set by_id. no_nul i"
    using assms(1) by (auto simp: run_of_def)
  have a: "a \<in> snd ` set by_id" "is_active s7 a" and b: "b \<in> snd ` set by_id" "is_active s7 b"
    using assms(2,3) run_selected [OF run] by auto
  note earlier = is_active_back [OF run_stages(4) [OF run]]
  from conflict_phase_separates [OF ok nul a(1) conflict run_key [OF run b(1)], of rt s2]
    earlier [OF a(2)] earlier [OF b(2)]
  show False by (simp add: is_active_def)
qed

section \<open>Replacement and best-of groups\<close>

lemma suppress_others_alone:
  "c \<in> set cs \<Longrightarrow> is_active (suppress_others cs reason w s) c \<Longrightarrow> nc_rule_id c = nc_rule_id w"
proof (induction cs arbitrary: s)
  case (Cons d cs)
  let ?s = "if nc_rule_id d \<noteq> nc_rule_id w then suppress d reason (Some w) s else s"
  have active: "is_active (suppress_others cs reason w ?s) c" using Cons.prems(2) by simp
  show ?case
  proof (cases "c \<in> set cs")
    case True
    from Cons.IH [OF this active] show ?thesis .
  next
    case False
    with Cons.prems(1) have d: "d = c" by simp
    from is_active_back [OF suppress_others_suppresses active] have "is_active ?s c" .
    then show ?thesis unfolding d by (auto simp: is_active_def split: if_splits)
  qed
qed simp

lemma group_candidates_collects:
  "set (default_to [] (om_get (group_candidates s cs groups) g)) =
   set (default_to [] (om_get groups g)) \<union> {c \<in> set cs. is_active s c \<and> nc_stack_group c = g}"
  by (induction cs arbitrary: groups) (auto simp: om_get_set)

lemma group_of_active:
  assumes "c \<in> set cs" and "is_active s c"
  obtains ds where "(nc_stack_group c, ds) \<in> set (group_candidates s cs [])"
    and "\<And>d. d \<in> set cs \<Longrightarrow> is_active s d \<Longrightarrow> nc_stack_group d = nc_stack_group c \<Longrightarrow> d \<in> set ds"
proof -
  have members: "set (default_to [] (om_get (group_candidates s cs []) (nc_stack_group c))) =
      {d \<in> set cs. is_active s d \<and> nc_stack_group d = nc_stack_group c}"
    using group_candidates_collects [of s cs "[]" "nc_stack_group c"] by simp
  then have "default_to [] (om_get (group_candidates s cs []) (nc_stack_group c)) \<noteq> []"
    using assms by fastforce
  then obtain ds where "om_get (group_candidates s cs []) (nc_stack_group c) = Some ds"
    by (cases "om_get (group_candidates s cs []) (nc_stack_group c)") simp_all
  with members that [of ds] show thesis by (auto dest: map_of_SomeD)
qed

lemma replace_groups_alone:
  assumes "(g, ds) \<in> set gs" and "c \<in> set ds" and "nc_mode c = SM_replaces_group"
    and "is_active (replace_groups rt gs s) c" and "d \<in> set ds" and "is_active (replace_groups rt gs s) d"
  shows "nc_rule_id d = nc_rule_id c"
  using assms
proof (induction gs arbitrary: s)
  case (Cons p gs)
  obtain h cs where p: "p = (h, cs)" by (cases p)
  define rs where "rs = sort_cmp (priority_compare rt) (filter (\<lambda>c. nc_mode c = SM_replaces_group) cs)"
  define t where "t = (case rs of [] \<Rightarrow> s | w # _ \<Rightarrow> suppress_others cs RR_replaced w s)"
  have step: "replace_groups rt (p # gs) s = replace_groups rt gs t"
    by (simp add: p rs_def [symmetric] t_def split: list.splits)
  note active = Cons.prems(4,6) [unfolded step]
  show ?case
  proof (cases "(g, ds) \<in> set gs")
    case True
    from Cons.IH [OF this Cons.prems(2,3) active(1) Cons.prems(5) active(2)] show ?thesis .
  next
    case False
    with Cons.prems(1) p have cs: "cs = ds" by simp
    have "c \<in> set rs" using Cons.prems(2,3) by (simp add: rs_def cs)
    then obtain w ws where w: "rs = w # ws" by (cases rs) auto
    have "is_active t x \<Longrightarrow> x \<in> set ds \<Longrightarrow> nc_rule_id x = nc_rule_id w" for x
      unfolding t_def w cs by (simp add: suppress_others_alone)
    with is_active_back [OF replace_groups_suppresses active(1)] is_active_back [OF replace_groups_suppresses active(2)]
      Cons.prems(2,5) show ?thesis by simp
  qed
qed simp

lemma replace_phase_alone:
  assumes "c \<in> snd ` set by_id" and "d \<in> snd ` set by_id"
    and "is_active (replace_phase rt by_id s) c" and "is_active (replace_phase rt by_id s) d"
    and "nc_stack_group d = nc_stack_group c" and "nc_mode c = SM_replaces_group"
  shows "nc_rule_id d = nc_rule_id c"
proof -
  have "is_active s c" "is_active s d"
    using assms(3,4) replacing.phase_suppresses is_active_back by blast+
  moreover have "c \<in> set (map snd by_id)" "d \<in> set (map snd by_id)" using assms(1,2) by simp_all
  ultimately obtain ds where "(nc_stack_group c, ds) \<in> set (group_candidates s (map snd by_id) [])"
    "c \<in> set ds" "d \<in> set ds"
    using group_of_active [of c "map snd by_id" s] assms(5) by metis
  from replace_groups_alone [OF this(1,2) assms(6) _ this(3), of rt s] assms(3,4) show ?thesis
    by (simp add: replace_phase_def)
qed

lemma best_of_groups_alone:
  assumes "g \<in> set gs" and "c \<in> set cs" and "d \<in> set cs"
    and "nc_stack_group c = g" and "nc_stack_group d = g"
    and "nc_mode c = SM_best_of_group" and "nc_mode d = SM_best_of_group"
    and "is_active (best_of_groups rt cs gs s) c" and "is_active (best_of_groups rt cs gs s) d"
  shows "nc_rule_id c = nc_rule_id d"
  using assms
proof (induction gs arbitrary: s)
  case (Cons h gs)
  define bs where "bs = filter (\<lambda>c. is_active s c \<and> nc_stack_group c = h \<and> nc_mode c = SM_best_of_group) cs"
  define ws where "ws = sort_cmp (value_compare rt) bs"
  define t where "t = (case ws of w # _ # _ \<Rightarrow> suppress_others bs RR_not_best_of_group w s | _ \<Rightarrow> s)"
  have step: "best_of_groups rt cs (h # gs) s = best_of_groups rt cs gs t"
    by (simp add: bs_def [symmetric] ws_def [symmetric] t_def Let_def split: list.splits)
  note active = Cons.prems(8,9) [unfolded step]
  show ?case
  proof (cases "g \<in> set gs")
    case True
    from Cons.IH [OF this Cons.prems(2-7) active] show ?thesis .
  next
    case False
    with Cons.prems(1) have g: "h = g" by simp
    have t: "is_active t c" "is_active t d"
      using is_active_back [OF best_of_groups_suppresses] active by blast+
    have "suppresses s t" by (auto simp: t_def suppress_others_suppresses split: list.splits)
    then have "is_active s c" "is_active s d" using t is_active_back by blast+
    then have in_bs: "c \<in> set bs" "d \<in> set bs" using Cons.prems(2-7) g by (simp_all add: bs_def)
    then have in_ws: "c \<in> set ws" "d \<in> set ws" by (simp_all add: ws_def)
    show ?thesis
    proof (cases ws rule: remdups_adj.cases)
      case (3 w v vs)
      have "is_active t x \<Longrightarrow> x \<in> set bs \<Longrightarrow> nc_rule_id x = nc_rule_id w" for x
        unfolding t_def 3 by (simp add: suppress_others_alone)
      with t in_bs show ?thesis by simp
    qed (use in_ws in auto)
  qed
qed simp

lemma best_phase_alone:
  assumes "c \<in> snd ` set by_id" and "d \<in> snd ` set by_id" and "nc_stack_group c = nc_stack_group d"
    and "nc_mode c = SM_best_of_group" and "nc_mode d = SM_best_of_group"
    and "is_active (best_phase rt by_id s) c" and "is_active (best_phase rt by_id s) d"
  shows "nc_rule_id c = nc_rule_id d"
proof (rule best_of_groups_alone)
  show "nc_stack_group d \<in> set (js_sort (unique (map (nc_stack_group \<circ> snd) by_id)))"
    using assms(2) by auto
qed (use assms in \<open>simp_all add: best_phase_def\<close>)

lemma same_id_same_candidate:
  assumes "candidates_ok by_id" and "c \<in> snd ` set by_id" and "d \<in> snd ` set by_id"
    and "nc_rule_id c = nc_rule_id d"
  shows "c = d"
proof -
  have "om_get by_id (nc_rule_id d) = Some c"
    using is_active_key(1) [OF assms(1,2)] unfolding assms(4) .
  with is_active_key(1) [OF assms(1,3)] show ?thesis by simp
qed

text \<open>Within a stack group a selected candidate that replaces its group is the only
  selected one, and of the candidates competing as best of the group at most one is
  selected; candidates of other groups are untouched by either rule.\<close>

theorem group_modes_are_exclusive:
  assumes "a \<in> set (sr_selected (resolve_stacking rt input))"
    and "b \<in> set (sr_selected (resolve_stacking rt input))"
    and "nc_stack_group a = nc_stack_group b"
    and "nc_mode a = SM_replaces_group \<or> nc_mode a = SM_best_of_group \<and> nc_mode b = SM_best_of_group"
  shows "a = b"
proof -
  obtain by_id s2 s6 s7 zs where run: "run_of rt input by_id s2 s6 s7 zs" by (rule run_exists)
  then have ok: "candidates_ok by_id" by (simp add: run_of_def)
  have a: "a \<in> snd ` set by_id" "is_active s7 a" and b: "b \<in> snd ` set by_id" "is_active s7 b"
    using assms(1,2) run_selected [OF run] by auto
  let ?s3 = "cf_state (conflict_phase rt by_id s2)"
  have decided: "is_active (decided rt by_id s2) c" if "is_active s7 c" for c
    by (rule is_active_back [OF suppresses_trans [OF run_stages(2,1) [OF run]] that])
  then have best: "is_active (best_phase rt by_id (replace_phase rt by_id ?s3)) c" if "is_active s7 c" for c
    using that unfolding decided_def .
  have replaced: "is_active (replace_phase rt by_id ?s3) c" if "is_active s7 c" for c
    by (rule is_active_back [OF run_stages(3) [OF run] decided [OF that]])
  have "nc_rule_id b = nc_rule_id a"
    using assms(4)
  proof (elim disjE conjE)
    assume "nc_mode a = SM_replaces_group"
    from replace_phase_alone [OF a(1) b(1) replaced [OF a(2)] replaced [OF b(2)] assms(3) [symmetric] this]
    show ?thesis .
  next
    assume "nc_mode a = SM_best_of_group" "nc_mode b = SM_best_of_group"
    from best_phase_alone [OF a(1) b(1) assms(3) this best [OF a(2)] best [OF b(2)]]
    show ?thesis by (rule sym)
  qed
  from same_id_same_candidate [OF ok b(1) a(1) this] show ?thesis by (rule sym)
qed

section \<open>Requirements of selected candidates\<close>

lemma dependency_pass_changed:
  "dependency_pass by_id cs (s, deps, True) = (s', deps', c) \<Longrightarrow> c"
proof (induction by_id cs "(s, deps, True)" arbitrary: s deps rule: dependency_pass.induct)
  case (2 by_id i c' cs s deps)
  then show ?case by (auto simp: Let_def split: if_splits)
qed simp

lemma dependency_pass_fix:
  assumes "dependency_pass by_id cs (s, deps, False) = (s', deps', False)"
  shows "s' = s \<and> (\<forall>(i, c)\<in>set cs. i \<in> set (ss_active s) \<longrightarrow>
    (\<forall>r\<in>set (nc_requires_rule_ids c). om_get by_id r \<noteq> None))"
  using assms
proof (induction cs arbitrary: deps)
  case (Cons p cs)
  obtain i c where p: "p = (i, c)" by (cases p)
  define m where "m = filter (\<lambda>r. om_get by_id r = None) (nc_requires_rule_ids c)"
  define r where "r = filter (\<lambda>r. r \<in> set (ss_rejected_ids s)) (nc_requires_rule_ids c)"
  note run = Cons.prems [unfolded p dependency_pass.simps Let_def m_def [symmetric] r_def [symmetric]]
  show ?case
  proof (cases "i \<in> set (ss_active s)")
    case True
    have none: "m = []"
    proof (rule ccontr)
      assume "m \<noteq> []"
      with run True show False by (auto dest: dependency_pass_changed simp del: filter_empty_conv)
    qed
    moreover have "r = []"
    proof (rule ccontr)
      assume "r \<noteq> []"
      with run True show False by (auto dest: dependency_pass_changed simp del: filter_empty_conv)
    qed
    ultimately have "\<exists>d. dependency_pass by_id cs (s, d, False) = (s', deps', False)" using run True by auto
    with Cons.IH have rest: "s' = s \<and> (\<forall>(i, c)\<in>set cs. i \<in> set (ss_active s) \<longrightarrow>
      (\<forall>r\<in>set (nc_requires_rule_ids c). om_get by_id r \<noteq> None))" by blast
    have "\<forall>r\<in>set (nc_requires_rule_ids c). om_get by_id r \<noteq> None"
      using none unfolding m_def filter_empty_conv .
    with rest p show ?thesis by simp
  next
    case False
    with run Cons.IH p show ?thesis by simp
  qed
qed simp

lemma dependency_loop_known:
  "dependency_loop by_id s deps = (s', deps') \<Longrightarrow>
   (i, c) \<in> set by_id \<Longrightarrow> i \<in> set (ss_active s') \<Longrightarrow> r \<in> set (nc_requires_rule_ids c) \<Longrightarrow>
   om_get by_id r \<noteq> None"
proof (induction by_id s deps rule: dependency_loop.induct)
  case (1 by_id s deps)
  obtain t d changed where p: "dependency_pass by_id by_id (s, deps, False) = (t, d, changed)"
    by (metis prod_cases3)
  have loop: "dependency_loop by_id s deps = (if changed then dependency_loop by_id t d else (t, d))"
    unfolding dependency_loop.simps [of by_id s deps] by (simp only: p prod.case)
  show ?case
  proof (cases changed)
    case True
    with 1(2) loop have "dependency_loop by_id t d = (s', deps')" by simp
    from 1(1) [OF p [symmetric] refl True this 1(3-5)] show ?thesis .
  next
    case False
    with 1(2) loop have "t = s'" by simp
    moreover have "dependency_pass by_id by_id (s, deps, False) = (t, d, False)" using p False by simp
    note stable = dependency_pass_fix [OF this]
    ultimately have "(\<lambda>(i, c). i \<in> set (ss_active s') \<longrightarrow>
      (\<forall>r\<in>set (nc_requires_rule_ids c). om_get by_id r \<noteq> None)) (i, c)"
      using bspec [OF conjunct2 [OF stable] 1(3)] conjunct1 [OF stable] by simp
    with 1(4,5) show ?thesis by simp
  qed
qed

lemma recheck_pass_changed: "recheck_pass by_id cs (s, True) = (s', c) \<Longrightarrow> c"
proof (induction by_id cs "(s, True)" arbitrary: s rule: recheck_pass.induct)
  case (2 by_id d cs s)
  then show ?case by (auto split: if_splits option.splits)
qed simp

lemma recheck_pass_fix:
  assumes "recheck_pass by_id cs (s, False) = (s', False)"
  shows "s' = s \<and> (\<forall>c\<in>set cs. is_active s c \<longrightarrow>
    (\<forall>r. find (\<lambda>r. r \<notin> set (ss_active s)) (nc_requires_rule_ids c) = Some r \<longrightarrow> r = []))"
  using assms
proof (induction cs)
  case (Cons d cs)
  show ?case
  proof (cases "is_active s d \<and> (\<exists>r. find (\<lambda>r. r \<notin> set (ss_active s)) (nc_requires_rule_ids d) = Some r \<and> r \<noteq> [])")
    case True
    with Cons.prems show ?thesis by (auto dest: recheck_pass_changed)
  next
    case False
    then have "recheck_pass by_id (d # cs) (s, False) = recheck_pass by_id cs (s, False)"
      by (auto split: option.splits)
    with Cons False show ?thesis by auto
  qed
qed simp

lemma recheck_loop_fix:
  "c \<in> snd ` set by_id \<Longrightarrow> is_active (recheck_loop by_id s) c \<Longrightarrow>
   r \<in> set (nc_requires_rule_ids c) \<Longrightarrow> [] \<notin> set (nc_requires_rule_ids c) \<Longrightarrow>
   r \<in> set (ss_active (recheck_loop by_id s))"
proof (induction by_id s rule: recheck_loop.induct)
  case (1 by_id s)
  obtain t changed where p: "recheck_pass by_id (map snd by_id) (s, False) = (t, changed)" by fastforce
  have loop: "recheck_loop by_id s = (if changed then recheck_loop by_id t else t)"
    unfolding recheck_loop.simps [of by_id s] by (simp only: p prod.case)
  show ?case
  proof (cases changed)
    case True
    with loop have eq: "recheck_loop by_id s = recheck_loop by_id t" by simp
    from 1(1) [OF p [symmetric] True 1(2) 1(3) [unfolded eq] 1(4,5)] show ?thesis unfolding eq .
  next
    case False
    with loop have eq: "recheck_loop by_id s = t" by simp
    have "recheck_pass by_id (map snd by_id) (s, False) = (t, False)" using p False by simp
    from recheck_pass_fix [OF this] have t: "t = s" and none:
      "\<And>x. find (\<lambda>r. r \<notin> set (ss_active s)) (nc_requires_rule_ids c) = Some x \<Longrightarrow> x = []"
      using 1(2,3) eq by auto
    show ?thesis
    proof (rule ccontr)
      assume "r \<notin> set (ss_active (recheck_loop by_id s))"
      then have "find (\<lambda>r. r \<notin> set (ss_active s)) (nc_requires_rule_ids c) \<noteq> None"
        using 1(4) eq t by (auto simp: find_None_iff)
      then obtain x where x: "find (\<lambda>r. r \<notin> set (ss_active s)) (nc_requires_rule_ids c) = Some x" by auto
      then have "x \<in> set (nc_requires_rule_ids c)" by (auto simp: find_Some_iff)
      with none [OF x] 1(5) show False by simp
    qed
  qed
qed

section \<open>Included bases\<close>

lemma suppress_bases_removes:
  "suppress_bases by_id c bs (s, xs) = (s', xs') \<Longrightarrow> candidates_ok by_id \<Longrightarrow>
   set xs \<subseteq> set xs' \<and> (\<forall>i\<in>set (ss_active s). i \<in> set (ss_active s') \<or> i \<in> set xs') \<and>
   (\<forall>b\<in>set bs. b \<in> fst ` set by_id \<longrightarrow> b \<notin> set (ss_active s'))"
proof (induction bs arbitrary: s xs)
  case (Cons b bs)
  show ?case
  proof (cases "om_get by_id b")
    case None
    then have "b \<notin> fst ` set by_id" by (simp add: map_of_eq_None_iff)
    with None Cons.IH [of s xs] Cons.prems show ?thesis by auto
  next
    case (Some base)
    have id: "nc_rule_id base = b" using candidates_ok_get [OF Cons.prems(2) Some] by simp
    show ?thesis
    proof (cases "b \<in> set (ss_active s)")
      case True
      let ?t = "suppress base RR_base_included (Some c) s"
      have run: "suppress_bases by_id c bs (?t, xs @ [b]) = (s', xs')" using Cons.prems(1) Some True by simp
      have "b \<notin> set (ss_active s')"
        using suppresses_active [OF suppress_bases_suppresses [OF run], of b] by (auto simp: id)
      with Cons.IH [OF run Cons.prems(2)] show ?thesis by (auto simp: id)
    next
      case False
      then have run: "suppress_bases by_id c bs (s, xs) = (s', xs')" using Cons.prems(1) Some by simp
      have "b \<notin> set (ss_active s')"
        using suppresses_active [OF suppress_bases_suppresses [OF run], of b] False by auto
      with Cons.IH [OF run Cons.prems(2)] show ?thesis by auto
    qed
  qed
qed simp

lemma include_bases_removes:
  "include_bases by_id cs (s, us, xs) = (s', us', xs') \<Longrightarrow> candidates_ok by_id \<Longrightarrow>
   set xs \<subseteq> set xs' \<and> (\<forall>i\<in>set (ss_active s). i \<in> set (ss_active s') \<or> i \<in> set xs') \<and>
   (\<forall>c\<in>set cs. is_active s' c \<longrightarrow> nc_base_reward_included c \<longrightarrow>
      (\<forall>b\<in>set (base_ids (map snd by_id) c). b \<in> fst ` set by_id \<longrightarrow> b \<notin> set (ss_active s')))"
proof (induction cs arbitrary: s us xs)
  case (Cons c cs)
  show ?case
  proof (cases "\<not> is_active s c \<or> \<not> nc_base_reward_included c")
    case True
    with Cons.prems(1) have run: "include_bases by_id cs (s, us, xs) = (s', us', xs')" by simp
    have "is_active s' c \<Longrightarrow> is_active s c"
      by (rule is_active_back [OF include_bases_suppresses [OF run]])
    with Cons.IH [OF run Cons.prems(2)] True show ?thesis by (simp only: list.set ball_simps) blast
  next
    case False
    obtain t zs where t: "suppress_bases by_id c (base_ids (map snd by_id) c) (s, xs) = (t, zs)" by fastforce
    with Cons.prems(1) False have run: "include_bases by_id cs (t, us @ [nc_rule_id c], zs) = (s', us', xs')"
      by simp
    have gone: "b \<notin> set (ss_active t) \<Longrightarrow> b \<notin> set (ss_active s')" for b
      using suppresses_active [OF include_bases_suppresses [OF run]] by blast
    from suppress_bases_removes [OF t Cons.prems(2)] Cons.IH [OF run Cons.prems(2)] gone show ?thesis
      by (simp only: list.set ball_simps) blast
  qed
qed simp

text \<open>A base leaves the active set in favour of a candidate that includes it, and the log says so.\<close>

definition included_by :: "stack_state \<Rightarrow> normalized_candidate \<Rightarrow> string \<Rightarrow> bool" where
  "included_by s c b \<longleftrightarrow> (\<exists>j\<in>set (ss_rejections s).
     sj_rule_id j = b \<and> sj_reason j = RR_base_included \<and> sj_by_rule_id j = Some (nc_rule_id c))"

lemma included_by_kept: "suppresses s s' \<Longrightarrow> included_by s c b \<Longrightarrow> included_by s' c b"
  unfolding included_by_def suppresses_def by blast

lemma suppress_bases_logged:
  "suppress_bases by_id c bs (s, xs) = (s', xs') \<Longrightarrow> candidates_ok by_id \<Longrightarrow> b \<in> set xs' \<Longrightarrow>
   b \<in> set xs \<or> b \<in> set bs \<and> b \<in> fst ` set by_id \<and> included_by s' c b"
proof (induction bs arbitrary: s xs)
  case (Cons d bs)
  show ?case
  proof (cases "om_get by_id d")
    case None
    with Cons.IH [of s xs] Cons.prems show ?thesis by auto
  next
    case (Some base)
    have id: "nc_rule_id base = d" using candidates_ok_get [OF Cons.prems(2) Some] by simp
    have key: "d \<in> fst ` set by_id" using Some by (force dest: map_of_SomeD)
    show ?thesis
    proof (cases "d \<in> set (ss_active s)")
      case True
      let ?t = "suppress base RR_base_included (Some c) s"
      have run: "suppress_bases by_id c bs (?t, xs @ [d]) = (s', xs')" using Cons.prems(1) Some True by simp
      have "included_by ?t c d"
        using True id by (simp add: included_by_def suppress_def reject_def rejection_def)
      then have "included_by s' c d" by (rule included_by_kept [OF suppress_bases_suppresses [OF run]])
      with Cons.IH [OF run Cons.prems(2,3)] key show ?thesis by auto
    next
      case False
      then have "suppress_bases by_id c bs (s, xs) = (s', xs')" using Cons.prems(1) Some by simp
      from Cons.IH [OF this Cons.prems(2,3)] show ?thesis by auto
    qed
  qed
qed simp

lemma include_bases_logged:
  "include_bases by_id cs (s, us, xs) = (s', us', xs') \<Longrightarrow> candidates_ok by_id \<Longrightarrow> b \<in> set xs' \<Longrightarrow>
   b \<in> set xs \<or> (\<exists>c\<in>set cs. is_active s c \<and> nc_base_reward_included c \<and>
     b \<in> set (base_ids (map snd by_id) c) \<and> b \<in> fst ` set by_id \<and> included_by s' c b)"
proof (induction cs arbitrary: s us xs)
  case (Cons c cs)
  show ?case
  proof (cases "\<not> is_active s c \<or> \<not> nc_base_reward_included c")
    case True
    with Cons.prems(1) have "include_bases by_id cs (s, us, xs) = (s', us', xs')" by simp
    from Cons.IH [OF this Cons.prems(2,3)] show ?thesis by auto
  next
    case False
    obtain t zs where t: "suppress_bases by_id c (base_ids (map snd by_id) c) (s, xs) = (t, zs)" by fastforce
    with Cons.prems(1) False have run: "include_bases by_id cs (t, us @ [nc_rule_id c], zs) = (s', us', xs')"
      by simp
    have earlier: "is_active t d \<Longrightarrow> is_active s d" for d by (rule is_active_back [OF suppress_bases_suppresses [OF t]])
    from Cons.IH [OF run Cons.prems(2,3)] show ?thesis
    proof
      assume "b \<in> set zs"
      from suppress_bases_logged [OF t Cons.prems(2) this] included_by_kept [OF include_bases_suppresses [OF run]] False
      show ?thesis by auto
    qed (use earlier in auto)
  qed
qed simp

text \<open>What it means for a candidate to include the value of a rule.\<close>

definition includes_base :: "normalized_candidate set \<Rightarrow> normalized_candidate \<Rightarrow> string \<Rightarrow> bool" where
  "includes_base candidates c b \<longleftrightarrow> nc_base_reward_included c \<and>
     (case nc_base_rule_id c of
        Some (i # is) \<Rightarrow> b = i # is
      | _ \<Rightarrow> \<exists>x\<in>candidates. nc_rule_id x = b \<and> nc_is_base_reward x \<and> nc_stack_group x = nc_stack_group c \<and>
          b \<noteq> nc_rule_id c)"

lemma base_ids_included:
  assumes "b \<in> set (base_ids cs c)" "nc_base_reward_included c" "set cs \<subseteq> D"
  shows "includes_base D c b"
  using assms unfolding includes_base_def base_ids_def
  by (auto split: option.splits list.splits if_splits)

section \<open>The selected set is closed\<close>

lemma applied_ids:
  "set (sr_applied_rule_ids (resolve_stacking rt input)) = nc_rule_id ` set (sr_selected (resolve_stacking rt input))"
  by (simp add: resolve_stacking_def Let_def split: prod.splits)

lemma active_is_applied:
  assumes "run_of rt input by_id s2 s6 s7 zs" and "i \<in> set (ss_active s7)"
  shows "i \<in> set (sr_applied_rule_ids (resolve_stacking rt input))"
proof -
  have ok: "candidates_ok by_id" and keys: "set (ss_active s2) \<subseteq> fst ` set by_id"
    using assms(1) by (auto simp: run_of_def)
  have "suppresses s2 s7"
    by (rule suppresses_trans [OF conflicting.phase_suppresses run_stages(4) [OF assms(1)]])
  with keys assms(2) have "i \<in> fst ` set by_id" using suppresses_active by blast
  with active_candidate_ids(1) [OF ok, of "s7\<lparr>ss_active := [i]\<rparr>"]
  have "i \<in> nc_rule_id ` {c \<in> snd ` set by_id. nc_rule_id c = i}" by (simp add: is_active_def)
  then obtain c where "c \<in> snd ` set by_id" "nc_rule_id c = i" by blast
  with assms(2) run_selected [OF assms(1), of c] show ?thesis by (auto simp: applied_ids is_active_def)
qed

lemma selected_source:
  assumes "c \<in> set (sr_selected (resolve_stacking rt input))"
  shows "\<exists>x\<in>set (source_candidates input). normalized rt x = Inr c"
proof -
  obtain by_id s2 s6 s7 zs where run: "run_of rt input by_id s2 s6 s7 zs" by (rule run_exists)
  then have "snd ` set by_id \<subseteq> {n. \<exists>x\<in>set (source_candidates input). normalized rt x = Inr n}"
    by (simp only: run_of_def)
  then show ?thesis using assms run_selected [OF run, of c] by blast
qed

lemma requirements_decided:
  assumes "c \<in> set (sr_selected (resolve_stacking rt input))" and "r \<in> set (nc_requires_rule_ids c)"
  shows "r \<in> set (sr_applied_rule_ids (resolve_stacking rt input)) \<or>
    (\<exists>x\<in>set (source_candidates input). \<exists>b. normalized rt x = Inr b \<and>
      includes_base {n. \<exists>y\<in>set (source_candidates input). normalized rt y = Inr n} b r \<and>
      (\<exists>j\<in>set (sr_rejected (resolve_stacking rt input)).
        sj_rule_id j = r \<and> sj_reason j = RR_base_included \<and> sj_by_rule_id j = Some (nc_rule_id b)) \<and>
      nc_rule_id b \<in> set (sr_applied_rule_ids (resolve_stacking rt input)) \<union>
        set (sr_suppressed_base_rule_ids (resolve_stacking rt input)))"
proof -
  let ?D = "{n. \<exists>y\<in>set (source_candidates input). normalized rt y = Inr n}"
  obtain by_id s2 s6 s7 zs where run: "run_of rt input by_id s2 s6 s7 zs" by (rule run_exists)
  then obtain s1 deps us where ok: "candidates_ok by_id"
    and dep: "dependency_loop by_id s1 [] = (s2, deps)" and s6: "s6 = recheck_loop by_id (decided rt by_id s2)"
    and inc: "include_bases by_id (map snd by_id) (s6, [], []) = (s7, us, zs)"
    and zs: "set (sr_suppressed_base_rule_ids (resolve_stacking rt input)) = set zs"
    and log: "set (sr_rejected (resolve_stacking rt input)) = set (ss_rejections s7)"
    and src: "snd ` set by_id \<subseteq> ?D"
    unfolding run_of_def by blast
  have c: "c \<in> snd ` set by_id" "is_active s7 c" using assms(1) run_selected [OF run] by auto
  have c6: "is_active s6 c" by (rule is_active_back [OF run_stages(1) [OF run] c(2)])
  have "is_active s2 c"
    by (rule is_active_back [OF suppresses_trans [OF conflicting.phase_suppresses run_stages(4) [OF run]] c(2)])
  moreover have "(nc_rule_id c, c) \<in> set by_id" using is_active_key(1) [OF ok c(1)] by (rule map_of_SomeD)
  ultimately have known: "om_get by_id x \<noteq> None" if "x \<in> set (nc_requires_rule_ids c)" for x
    using dependency_loop_known [OF dep] that by (simp add: is_active_def)
  have "[] \<notin> set (nc_requires_rule_ids c)"
    using known candidates_ok_get [OF ok] by fastforce
  from recheck_loop_fix [OF c(1) c6 [unfolded s6] assms(2) this] have r: "r \<in> set (ss_active s6)"
    unfolding s6 .
  have kept: "i \<in> set (ss_active s6) \<Longrightarrow> i \<in> set (sr_applied_rule_ids (resolve_stacking rt input)) \<union> set zs" for i
    using include_bases_removes [OF inc ok] active_is_applied [OF run] by blast
  show ?thesis
  proof (cases "r \<in> set zs")
    case False
    with kept [OF r] show ?thesis by blast
  next
    case True
    from include_bases_logged [OF inc ok True] obtain b where
      b: "b \<in> snd ` set by_id" "is_active s6 b" "nc_base_reward_included b" "r \<in> set (base_ids (map snd by_id) b)"
        "included_by s7 b r" by auto
    have "set (map snd by_id) \<subseteq> ?D" using src by simp
    from base_ids_included [OF b(4,3) this] have "includes_base ?D b r" .
    moreover obtain x where "x \<in> set (source_candidates input)" "normalized rt x = Inr b" using src b(1) by blast
    moreover have "nc_rule_id b \<in> set (sr_applied_rule_ids (resolve_stacking rt input)) \<union> set zs"
      using kept b(2) by (simp add: is_active_def)
    ultimately show ?thesis using b(5) zs unfolding log included_by_def by blast
  qed
qed

text \<open>C17. Everything a selected candidate requires is itself applied, or was left out in favour of a
  candidate that includes its value: the log rejects it as an included base by that candidate, which
  names it as its base rule or, naming none, includes the base rewards of its group; and that candidate
  is applied, or is in its turn an included base. No reward is granted on top of a rule that was
  dropped for another reason.\<close>

theorem requirements_are_met:
  assumes "c \<in> set (sr_selected (resolve_stacking rt input))" and "r \<in> set (nc_requires_rule_ids c)"
  shows "r \<in> set (sr_applied_rule_ids (resolve_stacking rt input)) \<or>
    (\<exists>x\<in>set (source_candidates input). \<exists>b. normalized rt x = Inr b \<and>
      includes_base {n. \<exists>y\<in>set (source_candidates input). normalized rt y = Inr n} b r \<and>
      (\<exists>j\<in>set (sr_rejected (resolve_stacking rt input)).
        sj_rule_id j = r \<and> sj_reason j = RR_base_included \<and> sj_by_rule_id j = Some (nc_rule_id b)) \<and>
      nc_rule_id b \<in> set (sr_applied_rule_ids (resolve_stacking rt input)) \<union>
        set (sr_suppressed_base_rule_ids (resolve_stacking rt input)))"
  by (rule requirements_decided [OF assms])

text \<open>A selected reward that includes its base is never paid together with it: neither
  the base it names nor, when it names none, any other base reward of its group is
  selected.\<close>

theorem included_base_is_not_paid:
  assumes "a \<in> set (sr_selected (resolve_stacking rt input))"
    and "b \<in> set (sr_selected (resolve_stacking rt input))" and "nc_base_reward_included a"
  shows "case nc_base_rule_id a of
      Some (i # is) \<Rightarrow> nc_rule_id b \<noteq> i # is
    | _ \<Rightarrow> \<not> (nc_is_base_reward b \<and> nc_stack_group b = nc_stack_group a \<and> nc_rule_id b \<noteq> nc_rule_id a)"
proof -
  obtain by_id s2 s6 s7 zs where run: "run_of rt input by_id s2 s6 s7 zs" by (rule run_exists)
  then obtain us where ok: "candidates_ok by_id"
    and inc: "include_bases by_id (map snd by_id) (s6, [], []) = (s7, us, zs)"
    unfolding run_of_def by blast
  have a: "a \<in> snd ` set by_id" "is_active s7 a" and b: "b \<in> snd ` set by_id" "is_active s7 b"
    using assms(1,2) run_selected [OF run] by auto
  from a(1) have "a \<in> set (map snd by_id)" by simp
  then have "\<forall>i\<in>set (base_ids (map snd by_id) a). i \<in> fst ` set by_id \<longrightarrow> i \<notin> set (ss_active s7)"
    using conjunct2 [OF conjunct2 [OF include_bases_removes [OF inc ok]]] a(2) assms(3) by blast
  with run_key [OF run b(1)] b(2) have "nc_rule_id b \<notin> set (base_ids (map snd by_id) a)"
    by (auto simp: is_active_def)
  moreover have "nc_rule_id b \<in> set (map nc_rule_id (filter (\<lambda>x. nc_is_base_reward x \<and>
      nc_stack_group x = nc_stack_group a \<and> nc_rule_id x \<noteq> nc_rule_id a) (map snd by_id)))"
    if "nc_is_base_reward b \<and> nc_stack_group b = nc_stack_group a \<and> nc_rule_id b \<noteq> nc_rule_id a"
    using that b(1) by simp
  ultimately show ?thesis unfolding base_ids_def by (auto simp only: split: option.splits list.splits if_splits) simp_all
qed

section \<open>Sample runs\<close>

definition sample_candidate :: "string \<Rightarrow> string \<Rightarrow> stacking_mode \<Rightarrow> int \<Rightarrow> stacking_candidate" where
  "sample_candidate i g m p = \<lparr>sc_rule_id = Some i, sc_ruleId = None, sc_stack_group = Some g, sc_stackGroup = None,
     sc_mode = Some m, sc_precedence = Some (num p), sc_value = None, sc_reward_units = None,
     sc_rewardUnits = None, sc_base_reward_included = None, sc_baseRewardIncluded = None, sc_base_rule_id = None,
     sc_baseRuleId = None, sc_is_base_reward = None, sc_isBaseReward = None, sc_rule_type = None,
     sc_requires_rule_ids = None, sc_requiresRuleIds = None, sc_conflicts_with_rule_ids = None,
     sc_conflictsWithRuleIds = None, sc_eligible = None\<rparr>"

abbreviation stacking_of :: "stacking_candidate list \<Rightarrow> stacking_input" where
  "stacking_of cs \<equiv> \<lparr>sn_candidates = cs, sn_base_reward = None, sn_baseReward = None\<rparr>"

text \<open>A base reward, a campaign that requires it and includes it, and a rule that is
  replaced by another one of its group.\<close>

definition sample_stack :: stacking_input where
  "sample_stack = stacking_of
     [(sample_candidate ''base'' ''g'' SM_additive 1)\<lparr>sc_is_base_reward := Some True\<rparr>,
      (sample_candidate ''camp'' ''g'' SM_includes_base 2)\<lparr>sc_requires_rule_ids := Some [''base'']\<rparr>,
      sample_candidate ''new'' ''h'' SM_replaces_group 3, sample_candidate ''old'' ''h'' SM_additive 4]"

definition sample_resolved :: "string \<Rightarrow> string \<Rightarrow> stacking_mode \<Rightarrow> rat \<Rightarrow> string list \<Rightarrow> normalized_candidate" where
  "sample_resolved i g m p req = \<lparr>nc_rule_id = i, nc_stack_group = g, nc_mode = m, nc_precedence = p, nc_value = 0,
     nc_base_reward_included = (m = SM_includes_base), nc_base_rule_id = None, nc_is_base_reward = False,
     nc_requires_rule_ids = req, nc_conflicts_with_rule_ids = [], nc_eligible = None\<rparr>"

abbreviation sample_camp :: normalized_candidate where
  "sample_camp \<equiv> sample_resolved ''camp'' ''g'' SM_includes_base 2 [''base'']"

abbreviation sample_new :: normalized_candidate where
  "sample_new \<equiv> sample_resolved ''new'' ''h'' SM_replaces_group 3 []"

lemma sample_selected: "sr_selected (resolve_stacking ref_rt sample_stack) = [sample_camp, sample_new]"
  by code_simp

lemma sample_applied: "set (sr_applied_rule_ids (resolve_stacking ref_rt sample_stack)) = {''camp'', ''new''}"
  by (simp add: applied_ids sample_selected sample_resolved_def)

lemma every_candidate_is_decided_witness:
  "''old'' \<in> set (sr_rejected_rule_ids (resolve_stacking ref_rt sample_stack))"
proof -
  have "sample_candidate ''old'' ''h'' SM_additive 4 \<in> set (source_candidates sample_stack)"
    by (simp add: sample_stack_def source_candidates_def)
  moreover have "candidate_id (sample_candidate ''old'' ''h'' SM_additive 4) = ''old''"
    by (simp add: candidate_id_def sample_candidate_def)
  ultimately show ?thesis
    using conjunct1 [OF every_candidate_is_decided [of sample_stack ref_rt]] sample_applied by fastforce
qed

lemma selected_never_conflict_witness: "''new'' \<notin> set (nc_conflicts_with_rule_ids sample_camp)"
proof -
  have "\<forall>c\<in>set (source_candidates sample_stack). no_nul (candidate_id c)" by code_simp
  from selected_never_conflict [OF this, of sample_camp ref_rt sample_new] show ?thesis
    by (simp add: sample_selected) (simp add: sample_resolved_def)
qed

lemma group_modes_are_exclusive_witness: "nc_stack_group sample_new \<noteq> nc_stack_group sample_camp"
proof
  assume "nc_stack_group sample_new = nc_stack_group sample_camp"
  from group_modes_are_exclusive [OF _ _ this, of ref_rt sample_stack] have "sample_new = sample_camp"
    by (simp add: sample_selected) (simp add: sample_resolved_def)
  then show False by (simp add: sample_resolved_def)
qed

lemma requirements_are_met_witness:
  "\<exists>j\<in>set (sr_rejected (resolve_stacking ref_rt sample_stack)).
     sj_rule_id j = ''base'' \<and> sj_reason j = RR_base_included"
  using requirements_are_met [of sample_camp ref_rt sample_stack "''base''"]
  by (simp add: sample_selected sample_applied sample_resolved_def) blast

lemma included_base_is_not_paid_witness:
  "\<not> (nc_is_base_reward sample_new \<and> nc_stack_group sample_new = ''g'')"
  using included_base_is_not_paid [of sample_camp ref_rt sample_stack sample_new]
  by (simp add: sample_selected) (simp add: sample_resolved_def)

text \<open>A candidate that has just lost a conflict still knocks out the remaining rules it
  conflicts with: \<open>b\<close> beats \<open>a\<close>, and \<open>a\<close>, no longer active, goes on to beat \<open>c\<close>, so only \<open>b\<close>
  is applied although \<open>b\<close> and \<open>c\<close> do not conflict.  With the same conflict declared by \<open>c\<close>
  instead of \<open>a\<close>, both \<open>b\<close> and \<open>c\<close> are applied.\<close>

theorem rejected_candidate_still_wins_conflicts:
  "sr_applied_rule_ids (resolve_stacking ref_rt (stacking_of
     [(sample_candidate ''a'' ''x'' SM_additive 2)\<lparr>sc_conflicts_with_rule_ids := Some [''b'', ''c'']\<rparr>,
      sample_candidate ''b'' ''y'' SM_additive 3, sample_candidate ''c'' ''z'' SM_additive 1])) = [''b''] \<and>
   sr_applied_rule_ids (resolve_stacking ref_rt (stacking_of
     [(sample_candidate ''a'' ''x'' SM_additive 2)\<lparr>sc_conflicts_with_rule_ids := Some [''b'']\<rparr>,
      sample_candidate ''b'' ''y'' SM_additive 3,
      (sample_candidate ''c'' ''z'' SM_additive 1)\<lparr>sc_conflicts_with_rule_ids := Some [''a'']\<rparr>])) = [''b'', ''c'']"
  by (intro conjI) code_simp+

end
