(* ===== verification/Stacking_Passes.thy ===== *)
theory Stacking_Passes
  imports Stacking
begin

text \<open>
  The two \<open>while (changed)\<close> loops of \<open>resolveStacking\<close>
  (\<open>packages/rule-engine/src/m1b-stacking.ts\<close>) against runs with a budget of passes.
\<close>

text \<open>The loops with a budget of passes: \<open>None\<close> when the budget runs out while a pass still changes
  something.\<close>

primrec dependency_within ::
    "nat \<Rightarrow> candidates \<Rightarrow> stack_state \<Rightarrow> (string, stack_dependency) omap \<Rightarrow>
     (stack_state \<times> (string, stack_dependency) omap) option" where
  "dependency_within 0 by_id s deps = None"
| "dependency_within (Suc n) by_id s deps =
     (case dependency_pass by_id by_id (s, deps, False) of
        (s', deps', changed) \<Rightarrow> if changed then dependency_within n by_id s' deps' else Some (s', deps'))"

primrec recheck_within :: "nat \<Rightarrow> candidates \<Rightarrow> stack_state \<Rightarrow> stack_state option" where
  "recheck_within 0 by_id s = None"
| "recheck_within (Suc n) by_id s =
     (case recheck_pass by_id (map snd by_id) (s, False) of
        (s', changed) \<Rightarrow> if changed then recheck_within n by_id s' else Some s')"

lemma dependency_pass_cases:
  obtains (settled) s' deps' where "dependency_pass by_id by_id (s, deps, False) = (s', deps', False)"
  | (again) s' deps' where "dependency_pass by_id by_id (s, deps, False) = (s', deps', True)"
      "length (ss_active s') < length (ss_active s)"
proof -
  obtain s' deps' c where p: "dependency_pass by_id by_id (s, deps, False) = (s', deps', c)" by (metis prod_cases3)
  with dependency_pass_shrinks [OF p] that show ?thesis by (cases c) auto
qed

lemma recheck_pass_cases:
  obtains (settled) s' where "recheck_pass by_id cs (s, False) = (s', False)"
  | (again) s' where "recheck_pass by_id cs (s, False) = (s', True)" "length (ss_active s') < length (ss_active s)"
proof -
  obtain s' c where p: "recheck_pass by_id cs (s, False) = (s', c)" by fastforce
  with recheck_pass_shrinks [OF p] that show ?thesis by (cases c) auto
qed

lemma dependency_within_enough:
  "length (ss_active s) < n \<Longrightarrow> dependency_within n by_id s deps = Some (dependency_loop by_id s deps)"
proof (induction n arbitrary: s deps)
  case (Suc n)
  show ?case
  proof (cases rule: dependency_pass_cases [of by_id s deps])
    case settled
    then show ?thesis by (simp add: dependency_loop.simps [of by_id s])
  next
    case (again s' deps')
    with Suc.IH [of s' deps'] Suc.prems show ?thesis by (simp add: dependency_loop.simps [of by_id s])
  qed
qed simp

lemma recheck_within_enough:
  "length (ss_active s) < n \<Longrightarrow> recheck_within n by_id s = Some (recheck_loop by_id s)"
proof (induction n arbitrary: s)
  case (Suc n)
  show ?case
  proof (cases rule: recheck_pass_cases [of by_id "map snd by_id" s])
    case settled
    then show ?thesis by (simp add: recheck_loop.simps [of by_id s])
  next
    case (again s')
    with Suc.IH [of s'] Suc.prems show ?thesis by (simp add: recheck_loop.simps [of by_id s])
  qed
qed simp

lemma last_pass_decides_nothing:
  "recheck_pass by_id cs (s, c) = (s', False) \<Longrightarrow> s' = s \<and> \<not> c"
  by (induction cs arbitrary: s c) (auto split: option.splits if_splits)

lemma recheck_stable: "recheck_pass by_id (map snd by_id) (recheck_loop by_id s, False) = (recheck_loop by_id s, False)"
proof (induction by_id s rule: recheck_loop.induct)
  case (1 by_id s)
  show ?case
  proof (cases rule: recheck_pass_cases [of by_id "map snd by_id" s])
    case (settled s')
    with last_pass_decides_nothing [OF settled] show ?thesis by (simp add: recheck_loop.simps [of by_id s])
  next
    case (again s')
    with "1.IH" [OF again(1) [symmetric]] show ?thesis by (simp add: recheck_loop.simps [of by_id s])
  qed
qed

lemma dependency_last_pass:
  "dependency_pass by_id cs (s, deps, c) = (s', deps', False) \<Longrightarrow>
   s' = s \<and> \<not> c \<and> (\<forall>d. \<exists>d'. dependency_pass by_id cs (s, d, False) = (s, d', False))"
proof (induction cs arbitrary: s deps c)
  case (Cons p cs)
  obtain i e where p: "p = (i, e)" by (cases p)
  note run = Cons.prems [unfolded p dependency_pass.simps Let_def]
  show ?case
  proof (cases "i \<in> set (ss_active s)")
    case False
    with run have "dependency_pass by_id cs (s, deps, c) = (s', deps', False)" by simp
    from Cons.IH [OF this] False show ?thesis by (simp add: p)
  next
    case True
    let ?m = "filter (\<lambda>r. om_get by_id r = None) (nc_requires_rule_ids e)"
    let ?r = "filter (\<lambda>r. r \<in> set (ss_rejected_ids s)) (nc_requires_rule_ids e)"
    show ?thesis
    proof (cases "?m \<noteq> [] \<or> ?r \<noteq> []")
      case bad: True
      with run True have "dependency_pass by_id cs (reject (dependency_rejection i ?m ?r) s,
          om_set i \<lparr>sd_rule_id = i, sd_required_rule_ids = nc_requires_rule_ids e, sd_satisfied = (?m = [] \<and> ?r = [])\<rparr> deps,
          True) = (s', deps', False)" by (simp only: if_True not_not if_False simp_thms)
      with Cons.IH show ?thesis by blast
    next
      case ok: False
      with run True Cons.IH show ?thesis by (fastforce simp: p Let_def simp del: filter_empty_conv)
    qed
  qed
qed simp

lemma dependency_stable:
  "\<exists>d. dependency_pass by_id by_id (fst (dependency_loop by_id s deps), snd (dependency_loop by_id s deps), False) =
     (fst (dependency_loop by_id s deps), d, False)"
proof (induction by_id s deps rule: dependency_loop.induct)
  case (1 by_id s deps)
  show ?case
  proof (cases rule: dependency_pass_cases [of by_id s deps])
    case (settled s' deps')
    with dependency_last_pass [OF settled] show ?thesis by (simp add: dependency_loop.simps [of by_id s])
  next
    case (again s' deps')
    with "1.IH" [OF again(1) [symmetric] refl] show ?thesis by (simp add: dependency_loop.simps [of by_id s])
  qed
qed

text \<open>C24. Stacking always finishes, whatever rules require or conflict with each other, in circles too:
  each of its two loops is done after at most one pass more than there are active candidates, with
  the result the code returns, and stops only where a further pass would reject nothing.\<close>

theorem stacking_loops_finish:
  "dependency_within (Suc (length (ss_active s))) by_id s deps = Some (dependency_loop by_id s deps) \<and>
   recheck_within (Suc (length (ss_active s))) by_id s = Some (recheck_loop by_id s) \<and>
   (\<exists>d. dependency_pass by_id by_id (fst (dependency_loop by_id s deps), snd (dependency_loop by_id s deps), False) =
      (fst (dependency_loop by_id s deps), d, False)) \<and>
   recheck_pass by_id (map snd by_id) (recheck_loop by_id s, False) = (recheck_loop by_id s, False)"
  by (simp only: dependency_within_enough recheck_within_enough dependency_stable recheck_stable lessI simp_thms)

end
