(* ===== verification/Validation.thy ===== *)
theory Validation
  imports EngineMath
begin

text \<open>
  Semantic validation of the documents the engine receives
  (\<open>packages/rule-engine/src/validation.ts\<close>): purchase plans, user state, cap progress,
  reward rules, review policies, and the conservation of principal in a ledger.  A
  validator collects issues in the order of the code and throws them together; the
  model returns the list.
\<close>

record validation_issue =
  vi_path :: string
  vi_code :: string
  vi_message :: string

type_synonym 'a validated = "validation_issue list + 'a"

definition issue_if :: "bool \<Rightarrow> string \<Rightarrow> string \<Rightarrow> string \<Rightarrow> validation_issue list" where
  "issue_if b path code message =
     (if b then [\<lparr>vi_path = path, vi_code = code, vi_message = message\<rparr>] else [])"

definition assert_no_issues :: "validation_issue list \<Rightarrow> unit validated" where
  "assert_no_issues issues = (if issues \<noteq> [] then Inl issues else Inr ())"

definition indexed :: "string \<Rightarrow> nat \<Rightarrow> string" where
  "indexed path i = path @ ''/'' @ nat_text i"

definition falsy :: "string option \<Rightarrow> bool" where
  "falsy t \<longleftrightarrow> t = None \<or> t = Some []"

section \<open>Purchase plans\<close>

text \<open>The ids met so far in the scan of the operations.\<close>

record plan_scan =
  vs_operation_ids :: "string list"
  vs_sequences :: "int list"
  vs_input_ids :: "string list"
  vs_output_ids :: "string list"

definition identity_issues :: "runtime \<Rightarrow> string \<Rightarrow> operation \<Rightarrow> plan_scan \<Rightarrow> validation_issue list" where
  "identity_issues rt path op s =
     issue_if (op_operation_id op \<in> set (vs_operation_ids s)) (path @ ''/operation_id'')
       ''duplicate_operation_id'' ''operation IDs must be unique'' @
     issue_if (op_sequence op \<in> set (vs_sequences s)) (path @ ''/sequence'')
       ''duplicate_sequence'' ''operation sequence numbers must be unique'' @
     issue_if (\<not> is_ok (parse_time rt (op_occurred_at op))) (path @ ''/occurred_at'')
       ''invalid_timestamp'' ''occurred_at must be a valid date-time'' @
     issue_if (op_sequence op < 1) (path @ ''/sequence'')
       ''invalid_sequence'' ''sequence must be a positive integer'' @
     issue_if (case op_amount_jpy op of None \<Rightarrow> False | Some a \<Rightarrow> \<not> safe_int a \<or> a < 0) (path @ ''/amount_jpy'')
       ''invalid_amount'' ''JPY amounts must be safe non-negative integers''"

definition purchase_issues :: "string \<Rightarrow> operation \<Rightarrow> validation_issue list" where
  "purchase_issues path op =
     (if op_operation_type op \<noteq> OT_merchant_purchase then [] else
        issue_if (falsy (op_merchant_id op)) (path @ ''/merchant_id'')
          ''merchant_required'' ''merchant purchase requires a merchant'' @
        issue_if (op_amount_jpy op = None) (path @ ''/amount_jpy'')
          ''amount_required'' ''merchant purchase requires an amount'' @
        issue_if (op_asset_inputs op = []) (path @ ''/asset_inputs'')
          ''tender_required'' ''merchant purchase requires tender'' @
        issue_if (op_output_requests op \<noteq> []) (path @ ''/output_requests'')
          ''purchase_outputs_forbidden'' ''merchant purchase cannot request an output lot'' @
        issue_if (op_line_items op = []) (path @ ''/line_items'')
          ''line_items_required'' ''merchant purchase requires line items'')"

definition line_issues :: "string \<Rightarrow> nat \<Rightarrow> line_item \<Rightarrow> validation_issue list" where
  "line_issues path i line =
     issue_if (case li_tax_exclusive_amount_jpy line of
         None \<Rightarrow> False | Some a \<Rightarrow> \<not> safe_int a \<or> a < 0 \<or> li_amount_jpy line < a)
       (indexed (path @ ''/line_items'') i @ ''/tax_exclusive_amount_jpy'') ''invalid_tax_exclusive_amount''
       ''tax-exclusive line amount must be a safe non-negative integer no greater than the line tender amount''"

definition acquisition_issues :: "string \<Rightarrow> operation \<Rightarrow> validation_issue list" where
  "acquisition_issues path op =
     (if op_operation_type op \<noteq> OT_stored_value_top_up \<and> op_operation_type op \<noteq> OT_voucher_purchase then [] else
        issue_if (case op_amount_jpy op of None \<Rightarrow> True | Some a \<Rightarrow> a < 1) (path @ ''/amount_jpy'')
          ''acquisition_amount_required'' ''acquisition requires a positive JPY amount'' @
        issue_if (op_asset_inputs op = []) (path @ ''/asset_inputs'')
          ''funding_required'' ''acquisition requires funding'' @
        issue_if (op_output_requests op = []) (path @ ''/output_requests'')
          ''output_required'' ''acquisition requires an output lot'')"

definition quantity_issues :: "runtime \<Rightarrow> string \<Rightarrow> string \<Rightarrow> int \<Rightarrow> validation_issue list" where
  "quantity_issues rt path amount scale =
     (case units_from_amount rt amount scale RM_exact of
        Inl e \<Rightarrow> issue_if True path ''invalid_quantity'' e
      | Inr _ \<Rightarrow> [])"

fun input_issues :: "runtime \<Rightarrow> string \<Rightarrow> nat \<Rightarrow> string list \<Rightarrow> asset_input list \<Rightarrow> validation_issue list" where
  "input_issues rt path i seen [] = []"
| "input_issues rt path i seen (x # xs) =
     (let here = indexed (path @ ''/asset_inputs'') i
      in issue_if (ai_input_id x \<in> set seen) (here @ ''/input_id'')
           ''duplicate_asset_input_id'' ''input IDs must be unique in a plan'' @
         quantity_issues rt (here @ ''/quantity/amount'') (q_amount (ai_quantity x)) (ar_scale (q_asset (ai_quantity x))) @
         issue_if (ai_role x = IR_external_funding \<and> ai_source_lot_id x \<noteq> None) (here @ ''/source_lot_id'')
           ''external_funding_source_lot'' ''external funding cannot masquerade as a reusable lot'' @
         issue_if (ai_role x \<noteq> IR_external_funding \<and> ai_role x \<noteq> IR_other \<and> ai_source_lot_id x = None)
           (here @ ''/source_lot_id'') ''asset_lot_required'' ''reusable asset tender requires a source lot'' @
         input_issues rt path (Suc i) (ai_input_id x # seen) xs)"

fun output_issues :: "runtime \<Rightarrow> string \<Rightarrow> nat \<Rightarrow> string list \<Rightarrow> output_request list \<Rightarrow> validation_issue list" where
  "output_issues rt path i seen [] = []"
| "output_issues rt path i seen (x # xs) =
     (let here = indexed (path @ ''/output_requests'') i
      in issue_if (or_request_id x \<in> set seen) (here @ ''/request_id'')
           ''duplicate_output_request_id'' ''output request IDs must be unique in a plan'' @
         issue_if (or_created_lot_id x \<in> set seen) (here @ ''/created_lot_id'')
           ''duplicate_output_lot_id'' ''created lot IDs must be unique in a plan'' @
         (case or_requested_amount x of
            None \<Rightarrow> []
          | Some a \<Rightarrow> quantity_issues rt (here @ ''/requested_amount'') a (ar_scale (or_asset x))) @
         output_issues rt path (Suc i) (or_created_lot_id x # or_request_id x # seen) xs)"

definition operation_issues :: "runtime \<Rightarrow> nat \<Rightarrow> operation \<Rightarrow> plan_scan \<Rightarrow> validation_issue list" where
  "operation_issues rt i op s =
     (let path = indexed ''/operations'' i
      in identity_issues rt path op s @ purchase_issues path op @
         concat (map (\<lambda>(j, line). line_issues path j line) (enumerate 0 (op_line_items op))) @
         acquisition_issues path op @
         input_issues rt path 0 (vs_input_ids s) (op_asset_inputs op) @
         output_issues rt path 0 (vs_output_ids s) (op_output_requests op))"

definition scanned :: "operation \<Rightarrow> plan_scan \<Rightarrow> plan_scan" where
  "scanned op s =
     \<lparr>vs_operation_ids = op_operation_id op # vs_operation_ids s,
      vs_sequences = op_sequence op # vs_sequences s,
      vs_input_ids = rev (map ai_input_id (op_asset_inputs op)) @ vs_input_ids s,
      vs_output_ids = rev (concat (map (\<lambda>r. [or_request_id r, or_created_lot_id r]) (op_output_requests op))) @
        vs_output_ids s\<rparr>"

fun scan_operations :: "runtime \<Rightarrow> nat \<Rightarrow> operation list \<Rightarrow> plan_scan \<Rightarrow> validation_issue list" where
  "scan_operations rt i [] s = []"
| "scan_operations rt i (op # ops) s =
     operation_issues rt i op s @ scan_operations rt (Suc i) ops (scanned op s)"

fun backwards_issues :: "runtime \<Rightarrow> nat \<Rightarrow> operation list \<Rightarrow> validation_issue list" where
  "backwards_issues rt i (a # b # ops) =
     issue_if (case (parse_time rt (op_occurred_at a), parse_time rt (op_occurred_at b)) of
         (Inr t, Inr u) \<Rightarrow> u < t | _ \<Rightarrow> False)
       (indexed ''/operations'' i @ ''/occurred_at'') ''timestamp_backwards''
       ''timestamps may not move backwards in sequence order'' @
     backwards_issues rt (Suc i) (b # ops)"
| "backwards_issues rt i _ = []"

definition operations_by_id :: "operation list \<Rightarrow> (string, operation) omap" where
  "operations_by_id ops = fold (\<lambda>op. om_set (op_operation_id op) op) ops []"

definition dependency_issues :: "(string, operation) omap \<Rightarrow> nat \<Rightarrow> dependency \<Rightarrow> validation_issue list" where
  "dependency_issues by_id i d =
     (let path = indexed ''/dependencies'' i
      in (case (om_get by_id (de_from_operation_id d), om_get by_id (de_to_operation_id d)) of
            (Some a, Some b) \<Rightarrow> issue_if (op_sequence b \<le> op_sequence a) path ''dependency_not_prior''
              ''dependency source must be an earlier operation''
          | _ \<Rightarrow> issue_if True path ''dependency_missing'' ''dependency endpoints must reference operations'') @
         issue_if (de_from_operation_id d = de_to_operation_id d) path ''dependency_self_reference''
           ''an operation cannot depend on itself'')"

definition calculated_fields :: "string list" where
  "calculated_fields = [''asset_movements'', ''movements'', ''reward_components'', ''rewards'',
     ''ending_asset_lots'', ''ending_lots'', ''economics'', ''objective_score_jpy'', ''winner'', ''runner_up'',
     ''native_ledger'']"

definition validate_purchase_plan :: "runtime \<Rightarrow> purchase_plan \<Rightarrow> unit validated" where
  "validate_purchase_plan rt plan =
     (let id_issues = issue_if (take 5 (pp_plan_id plan) \<noteq> ''plan_'') ''/plan_id'' ''invalid_plan_id''
            ''plan_id must use the plan_ prefix''
      in if pp_operations plan = [] then
           assert_no_issues (id_issues @ issue_if True ''/operations'' ''operations_empty''
             ''a plan requires at least one operation'')
         else assert_no_issues (id_issues @
           scan_operations rt 0 (pp_operations plan)
             \<lparr>vs_operation_ids = [], vs_sequences = [], vs_input_ids = [], vs_output_ids = []\<rparr> @
           backwards_issues rt 1 (sort_cmp (cmp_key op_sequence) (pp_operations plan)) @
           concat (map (\<lambda>(i, d). dependency_issues (operations_by_id (pp_operations plan)) i d)
             (enumerate 0 (pp_dependencies plan))) @
           concat (map (\<lambda>f. issue_if (f \<in> set (pp_extra_fields plan)) (''/'' @ f) ''calculated_field_supplied''
             ''candidate plans cannot supply engine-calculated output'') calculated_fields)))"

section \<open>User state\<close>

record state_value =
  sv_status :: fact_status
  sv_value :: "json option"
  sv_lower_bound :: "decimal_input option"
  sv_upper_bound :: "decimal_input option"
  sv_observed_at :: "string option"
  sv_confidence :: "string option"

definition bound_issues :: "runtime \<Rightarrow> string \<Rightarrow> state_value \<Rightarrow> validation_issue list" where
  "bound_issues rt path f =
     (case (sv_lower_bound f, sv_upper_bound f) of
        (Some l, Some u) \<Rightarrow>
          (case rbind (decimal rt l) (\<lambda>x. rmap (decimal_gt x) (decimal rt u)) of
             Inr over \<Rightarrow> issue_if over path ''estimated_lower_above_upper''
               ''lower_bound must not exceed upper_bound''
           | Inl _ \<Rightarrow> issue_if True path ''estimated_bounds_not_comparable'' ''estimated bounds must be numeric'')
      | _ \<Rightarrow> issue_if True path ''estimated_bounds_missing'' ''estimated facts require lower and upper bounds'')"

definition fact_issues :: "runtime \<Rightarrow> string \<Rightarrow> state_value \<Rightarrow> validation_issue list" where
  "fact_issues rt path f =
     (if sv_status f \<noteq> FS_known then [] else
        issue_if (sv_value f = None \<or> falsy (sv_observed_at f)) path ''known_fact_incomplete''
          ''known facts require value and observed_at'' @
        issue_if (sv_lower_bound f \<noteq> None \<or> sv_upper_bound f \<noteq> None) path ''known_bounds_present''
          ''known facts cannot carry estimated bounds'') @
     (if sv_status f \<noteq> FS_estimated then [] else
        bound_issues rt path f @
        issue_if (falsy (sv_observed_at f) \<or> sv_confidence f = None) path ''estimated_fact_incomplete''
          ''estimated facts require confidence and observed_at'') @
     issue_if ((sv_status f = FS_unknown \<or> sv_status f = FS_not_applicable) \<and> sv_confidence f \<noteq> None)
       (path @ ''/confidence'') ''unknown_confidence_present''
       ''unknown and not-applicable facts have null confidence''"

definition progress_order_issues :: "string \<Rightarrow> cap_progress_state \<Rightarrow> validation_issue list" where
  "progress_order_issues path p =
     (case (ps_eligible_spend_jpy_min p, ps_eligible_spend_jpy_max p) of
        (Some l, Some u) \<Rightarrow> issue_if (u < l) path ''cap_spend_lower_above_upper''
          ''eligible spend lower bound must not exceed upper bound''
      | _ \<Rightarrow> []) @
     (case (ps_reward_earned_units_min p, ps_reward_earned_units_max p) of
        (Some l, Some u) \<Rightarrow>
          (case rbind (decimal_string l) (\<lambda>x. rmap (\<lambda>y. y < x) (decimal_string u)) of
             Inr over \<Rightarrow> issue_if over path ''cap_reward_lower_above_upper''
               ''reward lower bound must not exceed upper bound''
           | Inl _ \<Rightarrow> issue_if True path ''cap_reward_not_comparable'' ''reward bounds must be decimal strings'')
      | _ \<Rightarrow> [])"

definition known_progress_issues :: "string \<Rightarrow> cap_progress_state \<Rightarrow> validation_issue list" where
  "known_progress_issues path p =
     (if ps_status p \<noteq> FS_known then [] else
        issue_if (ps_eligible_spend_jpy_min p = None \<or> ps_eligible_spend_jpy_max p = None \<or>
            ps_reward_earned_units_min p = None \<or> ps_reward_earned_units_max p = None)
          path ''known_cap_progress_incomplete'' ''known cap progress requires all exact bounds'' @
        issue_if (ps_eligible_spend_jpy_min p \<noteq> ps_eligible_spend_jpy_max p) path ''known_cap_spend_unequal''
          ''known cap progress requires equal spend bounds'' @
        issue_if (ps_reward_earned_units_min p \<noteq> ps_reward_earned_units_max p) path ''known_cap_reward_unequal''
          ''known cap progress requires equal reward bounds'')"

definition period_issues :: "runtime \<Rightarrow> string \<Rightarrow> cap_progress_state \<Rightarrow> validation_issue list" where
  "period_issues rt path p =
     (case (ps_period_start p, ps_period_end p) of
        (Some s, Some e) \<Rightarrow>
          (case rbind (parse_time rt s) (\<lambda>x. rmap (\<lambda>y. y \<le> x) (parse_time rt e)) of
             Inr void \<Rightarrow> issue_if void path ''invalid_cap_period'' ''period_end must be after period_start''
           | Inl _ \<Rightarrow> issue_if True path ''invalid_cap_period_timestamp'' ''cap period timestamps must be valid'')
      | _ \<Rightarrow> [])"

definition validate_cap_progress :: "runtime \<Rightarrow> string \<Rightarrow> cap_progress_state \<Rightarrow> validation_issue list" where
  "validate_cap_progress rt path p =
     progress_order_issues path p @ known_progress_issues path p @ period_issues rt path p"

definition validate_user_state ::
    "runtime \<Rightarrow> (string \<times> state_value) list \<Rightarrow> (string \<times> cap_progress_state) list \<Rightarrow> unit validated" where
  "validate_user_state rt facts progress =
     assert_no_issues
       (concat (map (\<lambda>(k, f). fact_issues rt (''/facts/'' @ k) f) facts) @
        concat (map (\<lambda>(k, p). validate_cap_progress rt (''/cap_progress/'' @ k) p) progress))"

section \<open>Reward rules\<close>

definition review_mode_text :: "review_mode \<Rightarrow> string" where
  "review_mode_text m = (case m of RV_solo_dual_pass \<Rightarrow> ''solo_dual_pass'' | RV_agent_challenged \<Rightarrow> ''agent_challenged''
     | RV_human_second_review \<Rightarrow> ''human_second_review'' | RV_expert_review \<Rightarrow> ''expert_review'')"

definition assert_review_policy :: "review_mode list \<Rightarrow> review_event list \<Rightarrow> unit res" where
  "assert_review_policy required events =
     (if required = [] then Inl ''review_policy_empty''
      else
        let completed = map re_mode (filter (\<lambda>e. re_decision e = RD_approved) events);
            missing = filter (\<lambda>m. m \<notin> set completed) required
        in if missing \<noteq> [] then Inl (''required_review_missing:'' @ join_with '','' (map review_mode_text missing))
           else Inr ())"

text \<open>\<open>value ? parseTime(value) : Infinity\<close>.\<close>

definition end_or_infinity :: "runtime \<Rightarrow> string option \<Rightarrow> int option res" where
  "end_or_infinity rt t =
     (if falsy t then Inr None else case t of None \<Rightarrow> Inr None | Some v \<Rightarrow> rmap Some (parse_time rt v))"

definition not_before :: "int \<Rightarrow> int option \<Rightarrow> bool" where
  "not_before t e = (case e of None \<Rightarrow> False | Some u \<Rightarrow> u \<le> t)"

definition empty_interval :: "runtime \<Rightarrow> string \<Rightarrow> string option \<Rightarrow> bool res" where
  "empty_interval rt start stop =
     rbind (parse_time rt start) (\<lambda>s. rmap (not_before s) (end_or_infinity rt stop))"

definition validity_issues :: "runtime \<Rightarrow> rule_validity \<Rightarrow> validation_issue list" where
  "validity_issues rt v =
     (let invalid = issue_if True ''/validity'' ''invalid_timestamp'' ''rule validity timestamps must be valid''
      in case empty_interval rt (va_valid_from v) (va_valid_to v) of
           Inl _ \<Rightarrow> invalid
         | Inr economic \<Rightarrow>
             issue_if economic ''/validity'' ''invalid_economic_interval''
               ''valid_to is exclusive and must be after valid_from'' @
             (case empty_interval rt (va_recorded_at v) (va_superseded_at v) of
                Inl _ \<Rightarrow> invalid
              | Inr system \<Rightarrow> issue_if system ''/validity'' ''invalid_system_interval''
                  ''superseded_at is exclusive and must be after recorded_at''))"

definition calculation_issues :: "calculation option \<Rightarrow> validation_issue list" where
  "calculation_issues c =
     (case c of
        Some (CA_percentage n) \<Rightarrow>
          issue_if (case n of Finite q \<Rightarrow> q \<noteq> of_int \<lfloor>q\<rfloor> \<or> q < 0 | NonFinite \<Rightarrow> True)
            ''/calculation/rate_basis_points'' ''invalid_rate''
            ''percentage basis points must be a non-negative integer''
      | Some (CA_points_per_unit _ n) \<Rightarrow>
          issue_if (case n of Finite q \<Rightarrow> q < 1 | NonFinite \<Rightarrow> False) ''/calculation/spend_jpy''
            ''invalid_denominator'' ''points denominator must be positive''
      | _ \<Rightarrow> [])"

definition validate_reward_rule :: "runtime \<Rightarrow> reward_rule \<Rightarrow> unit validated" where
  "validate_reward_rule rt rule =
     assert_no_issues
       (validity_issues rt (rr_validity rule) @
        issue_if (au_required_review_modes (rr_audit rule) = []) ''/audit/required_review_modes''
          ''review_policy_empty'' ''at least one review mode is required'' @
        issue_if (sc_tax_basis (rr_scope rule) = Some ''tax_exclusive'' \<and>
            tc_eligible_amount_basis (rr_transaction_conditions rule) \<noteq> Some ''eligible_line_items'')
          ''/eligibility/transaction_conditions/eligible_amount_basis''
          ''tax_exclusive_basis_requires_eligible_line_items''
          ''tax-exclusive rules must calculate from explicit eligible line-item amounts'' @
        (if rr_status rule \<noteq> RU_published then [] else
           case assert_review_policy (au_required_review_modes (rr_audit rule)) (au_review_events (rr_audit rule)) of
             Inl e \<Rightarrow> issue_if True ''/audit/review_events'' ''review_policy_incomplete'' e
           | Inr _ \<Rightarrow> []) @
        calculation_issues (rr_calculation rule))"

section \<open>Conservation of principal\<close>

definition reward_class_text :: "reward_class option \<Rightarrow> string" where
  "reward_class_text c = (case c of None \<Rightarrow> ''<none>'' | Some RC_normal \<Rightarrow> ''normal''
     | Some RC_limited_period \<Rightarrow> ''limited_period'' | Some RC_usage_limited \<Rightarrow> ''usage_limited''
     | Some RC_merchant_limited \<Rightarrow> ''merchant_limited'' | Some RC_pending \<Rightarrow> ''pending''
     | Some RC_promotional \<Rightarrow> ''promotional'' | Some RC_other \<Rightarrow> ''other'')"

definition conservation_bucket :: "string \<Rightarrow> reward_class option \<Rightarrow> string" where
  "conservation_bucket asset_id c = asset_id @ ''::'' @ reward_class_text c"

definition asset_bucket :: "asset_ref \<Rightarrow> string" where
  "asset_bucket a = conservation_bucket (ar_asset_id a) (ar_reward_class a)"

type_synonym balance = "(string, int) omap"

definition add_balance :: "string \<Rightarrow> int \<Rightarrow> balance \<Rightarrow> balance" where
  "add_balance key value b = om_set key (default_to 0 (om_get b key) + value) b"

definition quantity_in_units :: "runtime \<Rightarrow> quantity \<Rightarrow> int res" where
  "quantity_in_units rt q = units_from_amount rt (q_amount q) (ar_scale (q_asset q)) RM_exact"

fun add_lots :: "runtime \<Rightarrow> int \<Rightarrow> asset_lot list \<Rightarrow> balance \<Rightarrow> balance res" where
  "add_lots rt sign [] b = Inr b"
| "add_lots rt sign (l # ls) b =
     rbind (quantity_in_units rt (al_quantity l)) (\<lambda>n.
       add_lots rt sign ls (add_balance (asset_bucket (q_asset (al_quantity l))) (sign * n) b))"

definition off_ledger :: "asset_movement \<Rightarrow> bool" where
  "off_ledger m \<longleftrightarrow> am_movement_role m = MR_external_funding \<or>
     am_movement_role m = MR_fee \<and> am_source_lot_id m = None"

definition movement_sign :: "asset_movement \<Rightarrow> int" where
  "movement_sign m = (if am_direction m = D_create \<or> am_direction m = D_return then 1 else -1)"

fun add_movements :: "runtime \<Rightarrow> asset_movement list \<Rightarrow> balance \<Rightarrow> balance res" where
  "add_movements rt [] b = Inr b"
| "add_movements rt (m # ms) b =
     (if off_ledger m then add_movements rt ms b
      else rbind (quantity_in_units rt (am_quantity m)) (\<lambda>n.
        add_movements rt ms (add_balance (asset_bucket (q_asset (am_quantity m))) (movement_sign m * n) b)))"

definition validate_conservation ::
    "runtime \<Rightarrow> asset_lot list \<Rightarrow> asset_movement list \<Rightarrow> asset_lot list \<Rightarrow> unit res" where
  "validate_conservation rt opening movements ending =
     rbind (add_lots rt 1 opening []) (\<lambda>b.
     rbind (add_movements rt movements b) (\<lambda>b'.
     rbind (add_lots rt (-1) ending b') (\<lambda>final.
       case find (\<lambda>(_, units). units \<noteq> 0) final of
         None \<Rightarrow> Inr ()
       | Some (key, units) \<Rightarrow> Inl (''conservation_failed:'' @ key @ '':'' @ int_text units))))"

section \<open>What a valid plan is\<close>

lemma issue_if_Nil [simp]: "issue_if b p c m = [] \<longleftrightarrow> \<not> b"
  by (simp add: issue_if_def)

lemma assert_no_issues_Inr [simp]: "assert_no_issues xs = Inr () \<longleftrightarrow> xs = []"
  by (simp add: assert_no_issues_def)

text \<open>The abstract specification: what holds of one operation, and how operations fit
  together, without the scan.\<close>

definition units_ok :: "runtime \<Rightarrow> string \<Rightarrow> int \<Rightarrow> bool" where
  "units_ok rt amount scale \<longleftrightarrow> (\<exists>n. units_from_amount rt amount scale RM_exact = Inr n)"

definition input_ok :: "runtime \<Rightarrow> asset_input \<Rightarrow> bool" where
  "input_ok rt x \<longleftrightarrow> units_ok rt (q_amount (ai_quantity x)) (ar_scale (q_asset (ai_quantity x))) \<and>
     (ai_role x = IR_external_funding \<longrightarrow> ai_source_lot_id x = None) \<and>
     (ai_role x \<notin> {IR_external_funding, IR_other} \<longrightarrow> ai_source_lot_id x \<noteq> None)"

definition output_ok :: "runtime \<Rightarrow> output_request \<Rightarrow> bool" where
  "output_ok rt x \<longleftrightarrow> (\<forall>a. or_requested_amount x = Some a \<longrightarrow> units_ok rt a (ar_scale (or_asset x)))"

definition line_ok :: "line_item \<Rightarrow> bool" where
  "line_ok l \<longleftrightarrow> (\<forall>a. li_tax_exclusive_amount_jpy l = Some a \<longrightarrow> safe_int a \<and> 0 \<le> a \<and> a \<le> li_amount_jpy l)"

definition operation_time :: "runtime \<Rightarrow> operation \<Rightarrow> int option" where
  "operation_time rt op = rt_date_parse rt (op_occurred_at op)"

definition operation_ok :: "runtime \<Rightarrow> operation \<Rightarrow> bool" where
  "operation_ok rt op \<longleftrightarrow>
     operation_time rt op \<noteq> None \<and> 1 \<le> op_sequence op \<and>
     (\<forall>a. op_amount_jpy op = Some a \<longrightarrow> safe_int a \<and> 0 \<le> a) \<and>
     (op_operation_type op = OT_merchant_purchase \<longrightarrow>
        \<not> falsy (op_merchant_id op) \<and> op_amount_jpy op \<noteq> None \<and> op_asset_inputs op \<noteq> [] \<and>
        op_output_requests op = [] \<and> op_line_items op \<noteq> []) \<and>
     (op_operation_type op \<in> {OT_stored_value_top_up, OT_voucher_purchase} \<longrightarrow>
        (\<exists>a. op_amount_jpy op = Some a \<and> 1 \<le> a) \<and> op_asset_inputs op \<noteq> [] \<and> op_output_requests op \<noteq> []) \<and>
     (\<forall>l\<in>set (op_line_items op). line_ok l) \<and>
     (\<forall>x\<in>set (op_asset_inputs op). input_ok rt x) \<and> (\<forall>x\<in>set (op_output_requests op). output_ok rt x)"

definition output_names :: "output_request \<Rightarrow> string set" where
  "output_names x = {or_request_id x, or_created_lot_id x}"

definition disjoint_outputs :: "output_request list \<Rightarrow> bool" where
  "disjoint_outputs xs \<longleftrightarrow> sorted_wrt (\<lambda>x y. output_names x \<inter> output_names y = {}) xs"

definition plan_ok :: "runtime \<Rightarrow> purchase_plan \<Rightarrow> bool" where
  "plan_ok rt plan \<longleftrightarrow>
     (let ops = pp_operations plan
      in take 5 (pp_plan_id plan) = ''plan_'' \<and> ops \<noteq> [] \<and> (\<forall>op\<in>set ops. operation_ok rt op) \<and>
         distinct (map op_operation_id ops) \<and> distinct (map op_sequence ops) \<and>
         distinct (map ai_input_id (concat (map op_asset_inputs ops))) \<and>
         disjoint_outputs (concat (map op_output_requests ops)) \<and>
         (\<forall>a\<in>set ops. \<forall>b\<in>set ops. op_sequence a < op_sequence b \<longrightarrow>
            the (operation_time rt a) \<le> the (operation_time rt b)) \<and>
         (\<forall>d\<in>set (pp_dependencies plan). \<exists>a\<in>set ops. \<exists>b\<in>set ops.
            op_operation_id a = de_from_operation_id d \<and> op_operation_id b = de_to_operation_id d \<and>
            op_sequence a < op_sequence b) \<and>
         set (pp_extra_fields plan) \<inter> set calculated_fields = {})"

section \<open>The scan of the operations\<close>

lemma quantity_issues_Nil [simp]: "quantity_issues rt p a s = [] \<longleftrightarrow> units_ok rt a s"
  by (auto simp: quantity_issues_def units_ok_def split: sum.splits)

lemma parse_time_ok [simp]: "is_ok (parse_time rt t) \<longleftrightarrow> rt_date_parse rt t \<noteq> None"
  by (auto simp: parse_time_def split: option.splits)

lemma concat_enumerate_Nil: "concat (map (\<lambda>(i, x). f i x) (enumerate n xs)) = [] \<longleftrightarrow>
    (\<forall>i<length xs. f (n + i) (xs ! i) = [])"
proof (induction xs arbitrary: n)
  case (Cons x xs)
  show ?case
    by (simp add: Cons del: concat_eq_Nil_conv) (auto simp: less_Suc_eq_0_disj)
qed simp

lemma all_indices: "(\<forall>i<length xs. P (xs ! i)) \<longleftrightarrow> (\<forall>x\<in>set xs. P x)"
  by (simp add: all_set_conv_all_nth)

lemma line_issues_Nil [simp]: "line_issues path i l = [] \<longleftrightarrow> line_ok l"
  by (auto simp: line_issues_def line_ok_def split: option.splits)

lemma input_issues_Nil:
  "input_issues rt path i seen xs = [] \<longleftrightarrow>
   (\<forall>x\<in>set xs. input_ok rt x) \<and> distinct (map ai_input_id xs) \<and> set (map ai_input_id xs) \<inter> set seen = {}"
  by (induction xs arbitrary: i seen) (auto simp: Let_def input_ok_def)

lemma output_issues_Nil:
  "output_issues rt path i seen xs = [] \<longleftrightarrow>
   (\<forall>x\<in>set xs. output_ok rt x) \<and> disjoint_outputs xs \<and> (\<forall>x\<in>set xs. output_names x \<inter> set seen = {})"
  by (induction xs arbitrary: i seen)
    (auto simp: Let_def output_ok_def disjoint_outputs_def output_names_def split: option.splits)

lemma operation_issues_Nil:
  "operation_issues rt i op s = [] \<longleftrightarrow>
   operation_ok rt op \<and> op_operation_id op \<notin> set (vs_operation_ids s) \<and>
   op_sequence op \<notin> set (vs_sequences s) \<and>
   distinct (map ai_input_id (op_asset_inputs op)) \<and>
   set (map ai_input_id (op_asset_inputs op)) \<inter> set (vs_input_ids s) = {} \<and>
   disjoint_outputs (op_output_requests op) \<and>
   (\<forall>x\<in>set (op_output_requests op). output_names x \<inter> set (vs_output_ids s) = {})"
proof -
  have lines: "concat (map (\<lambda>(j, line). line_issues path j line) (enumerate 0 ls)) = [] \<longleftrightarrow> (\<forall>l\<in>set ls. line_ok l)"
    for path ls
    by (simp only: concat_enumerate_Nil line_issues_Nil all_indices)
  have identity: "identity_issues rt path op s = [] \<longleftrightarrow>
      op_operation_id op \<notin> set (vs_operation_ids s) \<and> op_sequence op \<notin> set (vs_sequences s) \<and>
      operation_time rt op \<noteq> None \<and> 1 \<le> op_sequence op \<and>
      (\<forall>a. op_amount_jpy op = Some a \<longrightarrow> safe_int a \<and> 0 \<le> a)" for path
    by (auto simp: identity_issues_def operation_time_def split: option.splits)
  have purchase: "purchase_issues path op = [] \<longleftrightarrow> (op_operation_type op = OT_merchant_purchase \<longrightarrow>
      \<not> falsy (op_merchant_id op) \<and> op_amount_jpy op \<noteq> None \<and> op_asset_inputs op \<noteq> [] \<and>
      op_output_requests op = [] \<and> op_line_items op \<noteq> [])" for path
    by (simp add: purchase_issues_def)
  have acquisition: "acquisition_issues path op = [] \<longleftrightarrow>
      (op_operation_type op \<in> {OT_stored_value_top_up, OT_voucher_purchase} \<longrightarrow>
        (\<exists>a. op_amount_jpy op = Some a \<and> 1 \<le> a) \<and> op_asset_inputs op \<noteq> [] \<and> op_output_requests op \<noteq> [])" for path
    by (auto simp: acquisition_issues_def split: option.splits)
  show ?thesis
    unfolding operation_issues_def Let_def append_is_Nil_conv identity purchase lines acquisition
      input_issues_Nil output_issues_Nil operation_ok_def
    by blast
qed

lemma scanned_sets:
  "set (vs_operation_ids (scanned op s)) = insert (op_operation_id op) (set (vs_operation_ids s))"
  "set (vs_sequences (scanned op s)) = insert (op_sequence op) (set (vs_sequences s))"
  "set (vs_input_ids (scanned op s)) = set (map ai_input_id (op_asset_inputs op)) \<union> set (vs_input_ids s)"
  "set (vs_output_ids (scanned op s)) =
    \<Union> (output_names ` set (op_output_requests op)) \<union> set (vs_output_ids s)"
  by (auto simp: scanned_def output_names_def)

lemma disjoint_outputs_append:
  "disjoint_outputs (xs @ ys) \<longleftrightarrow>
   disjoint_outputs xs \<and> disjoint_outputs ys \<and> (\<forall>y\<in>set ys. output_names y \<inter> \<Union> (output_names ` set xs) = {})"
  by (auto simp: disjoint_outputs_def sorted_wrt_append)

lemma scan_operations_Nil:
  "scan_operations rt i ops s = [] \<longleftrightarrow>
   (\<forall>op\<in>set ops. operation_ok rt op) \<and>
   (distinct (map op_operation_id ops) \<and> set (map op_operation_id ops) \<inter> set (vs_operation_ids s) = {}) \<and>
   (distinct (map op_sequence ops) \<and> set (map op_sequence ops) \<inter> set (vs_sequences s) = {}) \<and>
   (distinct (map ai_input_id (concat (map op_asset_inputs ops))) \<and>
    set (map ai_input_id (concat (map op_asset_inputs ops))) \<inter> set (vs_input_ids s) = {}) \<and>
   (disjoint_outputs (concat (map op_output_requests ops)) \<and>
    (\<forall>x\<in>set (concat (map op_output_requests ops)). output_names x \<inter> set (vs_output_ids s) = {}))"
proof (induction ops arbitrary: i s)
  case Nil
  show ?case by (simp add: disjoint_outputs_def)
next
  case (Cons op ops)
  have dist: "distinct (map f (x # xs)) \<and> set (map f (x # xs)) \<inter> S = {} \<longleftrightarrow>
      f x \<notin> S \<and> distinct (map f xs) \<and> set (map f xs) \<inter> insert (f x) S = {}"
    for f :: "operation \<Rightarrow> 'b" and x xs S by auto
  have inputs: "distinct (map f (as @ bs)) \<and> set (map f (as @ bs)) \<inter> S = {} \<longleftrightarrow>
      distinct (map f as) \<and> set (map f as) \<inter> S = {} \<and>
      distinct (map f bs) \<and> set (map f bs) \<inter> (set (map f as) \<union> S) = {}"
    for f :: "asset_input \<Rightarrow> string" and as bs S by auto
  have outputs: "disjoint_outputs (as @ bs) \<and> (\<forall>x\<in>set (as @ bs). output_names x \<inter> S = {}) \<longleftrightarrow>
      disjoint_outputs as \<and> (\<forall>x\<in>set as. output_names x \<inter> S = {}) \<and>
      disjoint_outputs bs \<and> (\<forall>x\<in>set bs. output_names x \<inter> (\<Union> (output_names ` set as) \<union> S) = {})"
    for as bs S unfolding disjoint_outputs_append set_append ball_Un Int_Un_distrib Un_empty by blast
  show ?case
    unfolding scan_operations.simps append_is_Nil_conv operation_issues_Nil Cons scanned_sets
      dist list.map concat.simps inputs outputs
    by auto
qed

section \<open>Order and dependencies\<close>

lemma backwards_issues_Nil:
  "(\<forall>op\<in>set ops. operation_time rt op \<noteq> None) \<Longrightarrow>
   backwards_issues rt i ops = [] \<longleftrightarrow> sorted (map (\<lambda>op. the (operation_time rt op)) ops)"
proof (induction rt i ops rule: backwards_issues.induct)
  case (1 rt i a b ops)
  then show ?case
    by (simp only: sorted2 list.map backwards_issues.simps append_is_Nil_conv issue_if_Nil)
      (auto simp: parse_time_def operation_time_def sorted2_simps)
qed simp_all

lemma sorted_by_sequence:
  assumes "distinct (map op_sequence ops)"
  shows "sorted (map t (sort_cmp (cmp_key op_sequence) ops)) \<longleftrightarrow>
    (\<forall>a\<in>set ops. \<forall>b\<in>set ops. op_sequence a < op_sequence b \<longrightarrow> t a \<le> (t b :: int))"
proof -
  let ?xs = "sort_cmp (cmp_key op_sequence) ops"
  have "sorted_wrt (\<lambda>x y. cmp_key op_sequence x y \<le> 0) ?xs"
    by (rule comparator.sorted_sort_cmp [OF comparator_key])
  then have le: "sorted (map op_sequence ?xs)"
    by (simp add: sorted_wrt_map cmp_key_def)
  have "mset (map op_sequence ?xs) = mset (map op_sequence ops)" by simp
  with assms have "distinct (map op_sequence ?xs)" using mset_eq_imp_distinct_iff by blast
  with le have strict: "sorted_wrt (<) (map op_sequence ?xs)" by (rule strict_sorted_iff [THEN iffD2, OF conjI])
  show ?thesis
  proof
    assume s: "sorted (map t ?xs)"
    show "\<forall>a\<in>set ops. \<forall>b\<in>set ops. op_sequence a < op_sequence b \<longrightarrow> t a \<le> t b"
    proof (intro ballI impI)
      fix a b
      assume "a \<in> set ops" "b \<in> set ops" and less: "op_sequence a < op_sequence b"
      then have "a \<in> set ?xs" "b \<in> set ?xs" by simp_all
      then obtain i j where ij: "i < length ?xs" "j < length ?xs" "?xs ! i = a" "?xs ! j = b"
        by (metis in_set_conv_nth)
      have "\<not> j \<le> i"
      proof
        assume "j \<le> i"
        with le ij have "op_sequence b \<le> op_sequence a" by (auto dest: sorted_nth_mono)
        with less show False by simp
      qed
      with s ij show "t a \<le> t b" using sorted_nth_mono [of "map t ?xs" i j] by simp
    qed
  next
    assume mono: "\<forall>a\<in>set ops. \<forall>b\<in>set ops. op_sequence a < op_sequence b \<longrightarrow> t a \<le> t b"
    have "sorted_wrt (\<lambda>a b. op_sequence a < op_sequence b) ?xs" using strict by (simp add: sorted_wrt_map)
    then have "sorted_wrt (\<lambda>a b. t a \<le> t b) ?xs"
      by (rule sorted_wrt_mono_rel [rotated]) (use mono in auto)
    then show "sorted (map t ?xs)" by (simp add: sorted_wrt_map)
  qed
qed

lemma operations_by_id_get:
  assumes "distinct (map op_operation_id ops)"
  shows "om_get (operations_by_id ops) i = Some a \<longleftrightarrow> a \<in> set ops \<and> op_operation_id a = i"
  using assms
proof (induction ops rule: rev_induct)
  case (snoc b ops)
  have "operations_by_id (ops @ [b]) = om_set (op_operation_id b) b (operations_by_id ops)"
    by (simp add: operations_by_id_def)
  moreover have "op_operation_id b \<notin> op_operation_id ` set ops" using snoc.prems by simp
  then have "a \<in> set ops \<Longrightarrow> op_operation_id a \<noteq> op_operation_id b" by (metis imageI)
  ultimately show ?case using snoc by (auto simp: om_get_set)
qed (simp add: operations_by_id_def)

lemma dependency_issues_Nil:
  assumes "distinct (map op_operation_id ops)"
  shows "dependency_issues (operations_by_id ops) i d = [] \<longleftrightarrow>
    (\<exists>a\<in>set ops. \<exists>b\<in>set ops. op_operation_id a = de_from_operation_id d \<and>
      op_operation_id b = de_to_operation_id d \<and> op_sequence a < op_sequence b)"
proof -
  note get = operations_by_id_get [OF assms]
  have "dependency_issues (operations_by_id ops) i d = [] \<longleftrightarrow>
      (\<exists>a b. om_get (operations_by_id ops) (de_from_operation_id d) = Some a \<and>
        om_get (operations_by_id ops) (de_to_operation_id d) = Some b \<and> op_sequence a < op_sequence b)"
    unfolding dependency_issues_def Let_def
    by (cases "de_from_operation_id d = de_to_operation_id d") (auto split: option.splits)
  then show ?thesis unfolding get by blast
qed

lemma plan_validation_spec:
  "validate_purchase_plan rt plan = Inr () \<longleftrightarrow> plan_ok rt plan"
proof (cases "pp_operations plan = []")
  case True
  then show ?thesis by (simp add: validate_purchase_plan_def plan_ok_def Let_def)
next
  case False
  let ?ops = "pp_operations plan" and
    ?start = "\<lparr>vs_operation_ids = [], vs_sequences = [], vs_input_ids = [], vs_output_ids = []\<rparr> :: plan_scan"
  have validates: "validate_purchase_plan rt plan = Inr () \<longleftrightarrow> take 5 (pp_plan_id plan) = ''plan_'' \<and>
      scan_operations rt 0 ?ops ?start = [] \<and>
      backwards_issues rt 1 (sort_cmp (cmp_key op_sequence) ?ops) = [] \<and>
      concat (map (\<lambda>(i, d). dependency_issues (operations_by_id ?ops) i d) (enumerate 0 (pp_dependencies plan))) = [] \<and>
      set (pp_extra_fields plan) \<inter> set calculated_fields = {}"
  proof -
    have extra: "concat (map (\<lambda>f. issue_if (f \<in> S) (p f) c m) fs) = [] \<longleftrightarrow> S \<inter> set fs = {}" for S p c m fs
      by auto
    show ?thesis
      using False unfolding validate_purchase_plan_def Let_def
      by (simp only: if_False assert_no_issues_Inr append_is_Nil_conv issue_if_Nil extra not_not)
  qed
  have scan: "scan_operations rt 0 ?ops ?start = [] \<longleftrightarrow> (\<forall>op\<in>set ?ops. operation_ok rt op) \<and>
      distinct (map op_operation_id ?ops) \<and> distinct (map op_sequence ?ops) \<and>
      distinct (map ai_input_id (concat (map op_asset_inputs ?ops))) \<and>
      disjoint_outputs (concat (map op_output_requests ?ops))"
    by (simp add: scan_operations_Nil)
  show ?thesis
  proof (cases "scan_operations rt 0 ?ops ?start = []")
    case True
    note ok = True [unfolded scan]
    then have "\<forall>op\<in>set (sort_cmp (cmp_key op_sequence) ?ops). operation_time rt op \<noteq> None"
      by (simp add: operation_ok_def)
    note backwards = backwards_issues_Nil [OF this, of 1, unfolded sorted_by_sequence [OF conjunct1 [OF conjunct2 [OF conjunct2 [OF ok]]]]]
    have ids: "distinct (map op_operation_id ?ops)" using ok by blast
    have "concat (map (\<lambda>(i, d). dependency_issues (operations_by_id ?ops) i d) (enumerate 0 (pp_dependencies plan))) = [] \<longleftrightarrow>
        (\<forall>d\<in>set (pp_dependencies plan). \<exists>a\<in>set ?ops. \<exists>b\<in>set ?ops.
          op_operation_id a = de_from_operation_id d \<and> op_operation_id b = de_to_operation_id d \<and>
          op_sequence a < op_sequence b)"
      by (simp only: concat_enumerate_Nil dependency_issues_Nil [OF ids] all_set_conv_all_nth)
    then show ?thesis
      unfolding validates plan_ok_def Let_def backwards using True False ok by blast
  next
    case no: False
    then have "\<not> plan_ok rt plan" unfolding scan plan_ok_def Let_def by blast
    with no validates show ?thesis by simp
  qed
qed

text \<open>C18. A purchase plan passes validation exactly when it satisfies the specification:
  every operation is well formed by itself, ids, sequence numbers, inputs and outputs are
  unique, time does not run backwards along the sequence numbers (for any two operations,
  although the code compares neighbours only), every dependency leads from an earlier to a
  later operation, and no engine output is smuggled in.\<close>

theorem plan_validation_refines_spec:
  "validate_purchase_plan rt plan = Inr () \<longleftrightarrow> plan_ok rt plan"
  by (rule plan_validation_spec)

definition dependency_edges :: "purchase_plan \<Rightarrow> (string \<times> string) set" where
  "dependency_edges plan =
     {(de_from_operation_id d, de_to_operation_id d) | d. d \<in> set (pp_dependencies plan)}"

text \<open>The dependencies of a validated plan form an acyclic graph over its operations, so
  the engine can run the operations in sequence order with everything they depend on
  already done.\<close>

theorem valid_plan_is_acyclic:
  assumes "validate_purchase_plan rt plan = Inr ()"
  shows "acyclic (dependency_edges plan) \<and> Field (dependency_edges plan) \<subseteq> op_operation_id ` set (pp_operations plan)"
proof -
  note ok = assms [unfolded plan_validation_spec plan_ok_def Let_def]
  let ?ops = "pp_operations plan"
  have ids: "distinct (map op_operation_id ?ops)" using ok by blast
  define seq where "seq i = op_sequence (the (om_get (operations_by_id ?ops) i))" for i
  have edge: "seq i < seq j \<and> {i, j} \<subseteq> op_operation_id ` set ?ops" if ij: "(i, j) \<in> dependency_edges plan" for i j
  proof -
    obtain d where "d \<in> set (pp_dependencies plan)" "i = de_from_operation_id d" "j = de_to_operation_id d"
      using ij unfolding dependency_edges_def by blast
    with ok obtain a b where "a \<in> set ?ops" "b \<in> set ?ops" "op_operation_id a = i" "op_operation_id b = j"
      "op_sequence a < op_sequence b" by metis
    moreover from this have "om_get (operations_by_id ?ops) i = Some a" "om_get (operations_by_id ?ops) j = Some b"
      by (simp_all add: operations_by_id_get [OF ids])
    ultimately show ?thesis by (auto simp: seq_def)
  qed
  have "seq i < seq j" if "(i, j) \<in> (dependency_edges plan)\<^sup>+" for i j
    using that by (induction rule: trancl_induct) (use edge in \<open>force+\<close>)
  then have "acyclic (dependency_edges plan)" unfolding acyclic_def by blast
  moreover have "Field (dependency_edges plan) \<subseteq> op_operation_id ` set ?ops"
    using edge unfolding Field_def by blast
  ultimately show ?thesis ..
qed

section \<open>User state and rules\<close>

definition fact_ok :: "runtime \<Rightarrow> state_value \<Rightarrow> bool" where
  "fact_ok rt f \<longleftrightarrow> (case sv_status f of
      FS_known \<Rightarrow> sv_value f \<noteq> None \<and> \<not> falsy (sv_observed_at f) \<and> sv_lower_bound f = None \<and> sv_upper_bound f = None
    | FS_estimated \<Rightarrow> (\<exists>l u x y. sv_lower_bound f = Some l \<and> sv_upper_bound f = Some u \<and>
        decimal rt l = Inr x \<and> decimal rt u = Inr y \<and> \<not> decimal_gt x y) \<and>
        \<not> falsy (sv_observed_at f) \<and> sv_confidence f \<noteq> None
    | _ \<Rightarrow> sv_confidence f = None)"

definition cap_progress_ok :: "runtime \<Rightarrow> cap_progress_state \<Rightarrow> bool" where
  "cap_progress_ok rt p \<longleftrightarrow>
     (\<forall>l u. ps_eligible_spend_jpy_min p = Some l \<and> ps_eligible_spend_jpy_max p = Some u \<longrightarrow> l \<le> u) \<and>
     (\<forall>l u. ps_reward_earned_units_min p = Some l \<and> ps_reward_earned_units_max p = Some u \<longrightarrow>
        is_decimal_text l \<and> is_decimal_text u \<and> text_value l \<le> text_value u) \<and>
     (ps_status p = FS_known \<longrightarrow>
        (\<exists>s. ps_eligible_spend_jpy_min p = Some s \<and> ps_eligible_spend_jpy_max p = Some s) \<and>
        (\<exists>r. ps_reward_earned_units_min p = Some r \<and> ps_reward_earned_units_max p = Some r)) \<and>
     (\<forall>s e. ps_period_start p = Some s \<and> ps_period_end p = Some e \<longrightarrow>
        (\<exists>x y. rt_date_parse rt s = Some x \<and> rt_date_parse rt e = Some y \<and> x < y))"

lemma fact_issues_Nil: "fact_issues rt path f = [] \<longleftrightarrow> fact_ok rt f"
proof -
  have bounds: "bound_issues rt path f = [] \<longleftrightarrow> (\<exists>l u x y. sv_lower_bound f = Some l \<and> sv_upper_bound f = Some u \<and>
      decimal rt l = Inr x \<and> decimal rt u = Inr y \<and> \<not> decimal_gt x y)"
    by (auto simp: bound_issues_def rbind_def rmap_def split: option.splits sum.splits)
  show ?thesis
    unfolding fact_issues_def fact_ok_def append_is_Nil_conv
    by (cases "sv_status f") (simp_all add: bounds)
qed

lemma validate_cap_progress_Nil: "validate_cap_progress rt path p = [] \<longleftrightarrow> cap_progress_ok rt p"
proof -
  have order: "progress_order_issues path p = [] \<longleftrightarrow>
      (\<forall>l u. ps_eligible_spend_jpy_min p = Some l \<and> ps_eligible_spend_jpy_max p = Some u \<longrightarrow> l \<le> u) \<and>
      (\<forall>l u. ps_reward_earned_units_min p = Some l \<and> ps_reward_earned_units_max p = Some u \<longrightarrow>
        is_decimal_text l \<and> is_decimal_text u \<and> text_value l \<le> text_value u)"
    by (auto simp: progress_order_issues_def decimal_string_def rbind_def rmap_def split: option.splits)
  have known: "known_progress_issues path p = [] \<longleftrightarrow> (ps_status p = FS_known \<longrightarrow>
      (\<exists>s. ps_eligible_spend_jpy_min p = Some s \<and> ps_eligible_spend_jpy_max p = Some s) \<and>
      (\<exists>r. ps_reward_earned_units_min p = Some r \<and> ps_reward_earned_units_max p = Some r))"
    by (auto simp: known_progress_issues_def)
  have period: "period_issues rt path p = [] \<longleftrightarrow>
      (\<forall>s e. ps_period_start p = Some s \<and> ps_period_end p = Some e \<longrightarrow>
        (\<exists>x y. rt_date_parse rt s = Some x \<and> rt_date_parse rt e = Some y \<and> x < y))"
    by (auto simp: period_issues_def parse_time_def rbind_def rmap_def split: option.splits)
  show ?thesis
    unfolding validate_cap_progress_def cap_progress_ok_def append_is_Nil_conv order known period by blast
qed

text \<open>C36. A user state passes validation exactly when each fact carries what its status
  promises (a known fact a value and no bounds, an estimate two comparable ordered bounds
  and a confidence, anything else no confidence) and each cap progress is ordered, exact
  when it is known, and covers a non-empty period.\<close>

theorem user_state_is_typed:
  "validate_user_state rt facts progress = Inr () \<longleftrightarrow>
   (\<forall>(k, f)\<in>set facts. fact_ok rt f) \<and> (\<forall>(k, p)\<in>set progress. cap_progress_ok rt p)"
proof -
  have all: "concat (map (\<lambda>(k, x). g (prefix @ k) x) xs) = [] \<longleftrightarrow> (\<forall>(k, x)\<in>set xs. P x)"
    if "\<And>path x. g path x = [] \<longleftrightarrow> P x"
    for g :: "string \<Rightarrow> 'a \<Rightarrow> validation_issue list" and P and prefix and xs :: "(string \<times> 'a) list"
    using that by (simp only: concat_eq_Nil_conv set_map ball_simps) (auto split: prod.splits)
  show ?thesis
    unfolding validate_user_state_def assert_no_issues_Inr append_is_Nil_conv
      all [of "fact_issues rt", OF fact_issues_Nil] all [of "validate_cap_progress rt", OF validate_cap_progress_Nil] ..
qed

definition approved_modes :: "review_event list \<Rightarrow> review_mode set" where
  "approved_modes events = {re_mode e | e. e \<in> set events \<and> re_decision e = RD_approved}"

lemma review_policy_spec:
  "assert_review_policy required events = Inr () \<longleftrightarrow>
   required \<noteq> [] \<and> set required \<subseteq> approved_modes events"
  by (auto simp: assert_review_policy_def approved_modes_def Let_def filter_empty_conv)

text \<open>A review policy is satisfied exactly when at least one mode is required and every
  required mode has an approving event; a later rejection of the same mode does not
  withdraw it.\<close>

theorem review_policy_satisfied:
  "assert_review_policy required events = Inr () \<longleftrightarrow>
   required \<noteq> [] \<and> set required \<subseteq> approved_modes events"
  by (rule review_policy_spec)

text \<open>A half-open interval of instants, unbounded without an end.\<close>

definition interval_ok :: "runtime \<Rightarrow> string \<Rightarrow> string option \<Rightarrow> bool" where
  "interval_ok rt start stop \<longleftrightarrow> (\<exists>s. rt_date_parse rt start = Some s \<and>
     (falsy stop \<or> (\<exists>t e. stop = Some t \<and> rt_date_parse rt t = Some e \<and> s < e)))"

lemma empty_interval_False: "empty_interval rt start stop = Inr False \<longleftrightarrow> interval_ok rt start stop"
  by (auto simp: empty_interval_def interval_ok_def end_or_infinity_def not_before_def parse_time_def falsy_def
      rbind_def rmap_def split: option.splits)

definition calculation_ok :: "calculation option \<Rightarrow> bool" where
  "calculation_ok c \<longleftrightarrow>
     (\<forall>n. c = Some (CA_percentage n) \<longrightarrow> (\<exists>m. n = num m \<and> 0 \<le> m)) \<and>
     (\<forall>u n. c = Some (CA_points_per_unit u n) \<longrightarrow> (\<forall>q. n = Finite q \<longrightarrow> 1 \<le> q))"

lemma calculation_issues_Nil: "calculation_issues c = [] \<longleftrightarrow> calculation_ok c"
proof (cases c)
  case (Some x)
  show ?thesis
  proof (cases x)
    case (CA_percentage n)
    have "(case n of Finite q \<Rightarrow> q \<noteq> of_int \<lfloor>q\<rfloor> \<or> q < 0 | NonFinite \<Rightarrow> True) \<longleftrightarrow> \<not> (\<exists>m. n = num m \<and> 0 \<le> m)"
    proof (cases n)
      case (Finite q)
      have "q = of_int \<lfloor>q\<rfloor> \<and> 0 \<le> q \<longleftrightarrow> (\<exists>m. q = of_int m \<and> 0 \<le> m)"
        by (metis floor_of_int of_int_0_le_iff)
      with Finite show ?thesis by auto
    qed simp
    with Some CA_percentage show ?thesis by (simp add: calculation_issues_def calculation_ok_def)
  qed (auto simp: Some calculation_issues_def calculation_ok_def split: js_number.splits)
qed (simp add: calculation_issues_def calculation_ok_def)

text \<open>A reward rule passes validation exactly when both of its time intervals are
  non-empty, a review mode is required, tax-exclusive rules use line items, a published
  rule has its reviews, and the rate or denominator of its calculation is in range.\<close>

theorem valid_rule_iff:
  "validate_reward_rule rt rule = Inr () \<longleftrightarrow>
   interval_ok rt (va_valid_from (rr_validity rule)) (va_valid_to (rr_validity rule)) \<and>
   interval_ok rt (va_recorded_at (rr_validity rule)) (va_superseded_at (rr_validity rule)) \<and>
   au_required_review_modes (rr_audit rule) \<noteq> [] \<and>
   (sc_tax_basis (rr_scope rule) = Some ''tax_exclusive'' \<longrightarrow>
      tc_eligible_amount_basis (rr_transaction_conditions rule) = Some ''eligible_line_items'') \<and>
   (rr_status rule = RU_published \<longrightarrow>
      set (au_required_review_modes (rr_audit rule)) \<subseteq> approved_modes (au_review_events (rr_audit rule))) \<and>
   calculation_ok (rr_calculation rule)"
proof -
  have validity: "validity_issues rt v = [] \<longleftrightarrow>
      empty_interval rt (va_valid_from v) (va_valid_to v) = Inr False \<and>
      empty_interval rt (va_recorded_at v) (va_superseded_at v) = Inr False" for v
    by (auto simp: validity_issues_def Let_def split: sum.splits)
  have policy: "(case assert_review_policy r e of Inl m \<Rightarrow> issue_if True p c m | Inr _ \<Rightarrow> []) = [] \<longleftrightarrow>
      r \<noteq> [] \<and> set r \<subseteq> approved_modes e" for r e p c
    unfolding review_policy_spec [symmetric] by (cases "assert_review_policy r e") auto
  show ?thesis
    unfolding validate_reward_rule_def assert_no_issues_Inr append_is_Nil_conv validity empty_interval_False
      calculation_issues_Nil issue_if_Nil
    by (auto simp: policy)
qed

section \<open>The ledger balances\<close>

definition balance_at :: "balance \<Rightarrow> string \<Rightarrow> int" where
  "balance_at b k = default_to 0 (om_get b k)"

lemma balance_at_add [simp]: "balance_at (add_balance key v b) k = balance_at b k + (if k = key then v else 0)"
  by (simp add: balance_at_def add_balance_def om_get_set)

lemma balance_at_Nil [simp]: "balance_at [] k = 0"
  by (simp add: balance_at_def)

text \<open>The units of a quantity that can be read, and what a list of lots or movements puts in
  the bucket of an asset and reward class.\<close>

definition readable :: "runtime \<Rightarrow> quantity \<Rightarrow> bool" where
  "readable rt q \<longleftrightarrow> units_ok rt (q_amount q) (ar_scale (q_asset q))"

definition units_of :: "runtime \<Rightarrow> quantity \<Rightarrow> int" where
  "units_of rt q = (case quantity_in_units rt q of Inr n \<Rightarrow> n | Inl _ \<Rightarrow> 0)"

definition held :: "runtime \<Rightarrow> string \<Rightarrow> asset_lot list \<Rightarrow> int" where
  "held rt k ls = sum_list (map (\<lambda>l. if asset_bucket (q_asset (al_quantity l)) = k then units_of rt (al_quantity l) else 0) ls)"

definition moved :: "runtime \<Rightarrow> string \<Rightarrow> asset_movement list \<Rightarrow> int" where
  "moved rt k ms = sum_list (map (\<lambda>m. if asset_bucket (q_asset (am_quantity m)) = k
     then movement_sign m * units_of rt (am_quantity m) else 0) (filter (\<lambda>m. \<not> off_ledger m) ms))"

lemma readable_units: "readable rt q \<longleftrightarrow> quantity_in_units rt q = Inr (units_of rt q)"
  by (auto simp: readable_def units_ok_def units_of_def quantity_in_units_def split: sum.splits)

lemma not_readable: "\<not> readable rt q \<Longrightarrow> \<exists>e. quantity_in_units rt q = Inl e"
  unfolding readable_units by (cases "quantity_in_units rt q") (auto simp: units_of_def)

lemma add_balance_ok: "om_ok b \<Longrightarrow> om_ok (add_balance k v b)"
  by (simp add: add_balance_def om_ok_set)

lemma add_lots_ok:
  "add_lots rt sign ls b = Inr b' \<Longrightarrow> om_ok b \<Longrightarrow>
   om_ok b' \<and> (\<forall>l\<in>set ls. readable rt (al_quantity l)) \<and>
   (\<forall>k. balance_at b' k = balance_at b k + sign * held rt k ls)"
proof (induction ls arbitrary: b)
  case (Cons l ls)
  from Cons.prems(1) have r: "readable rt (al_quantity l)"
    using not_readable [of rt "al_quantity l"] by fastforce
  then have "quantity_in_units rt (al_quantity l) = Inr (units_of rt (al_quantity l))" by (simp add: readable_units)
  with Cons.prems(1) have run: "add_lots rt sign ls (add_balance (asset_bucket (q_asset (al_quantity l)))
      (sign * units_of rt (al_quantity l)) b) = Inr b'" by simp
  from Cons.IH [OF run add_balance_ok [OF Cons.prems(2)]] r show ?case
    by (auto simp: held_def algebra_simps)
qed (auto simp: held_def)

lemma add_lots_total:
  "\<forall>l\<in>set ls. readable rt (al_quantity l) \<Longrightarrow> \<exists>b'. add_lots rt sign ls b = Inr b'"
  by (induction ls arbitrary: b) (auto simp: readable_units)

lemma add_movements_ok:
  "add_movements rt ms b = Inr b' \<Longrightarrow> om_ok b \<Longrightarrow>
   om_ok b' \<and> (\<forall>m\<in>set ms. off_ledger m \<or> readable rt (am_quantity m)) \<and>
   (\<forall>k. balance_at b' k = balance_at b k + moved rt k ms)"
proof (induction ms arbitrary: b)
  case (Cons m ms)
  show ?case
  proof (cases "off_ledger m")
    case True
    with Cons show ?thesis by (auto simp: moved_def)
  next
    case False
    with Cons.prems(1) have r: "readable rt (am_quantity m)"
      using not_readable [of rt "am_quantity m"] by fastforce
    then have "quantity_in_units rt (am_quantity m) = Inr (units_of rt (am_quantity m))" by (simp add: readable_units)
    with Cons.prems(1) False have run: "add_movements rt ms (add_balance (asset_bucket (q_asset (am_quantity m)))
        (movement_sign m * units_of rt (am_quantity m)) b) = Inr b'" by simp
    from Cons.IH [OF run add_balance_ok [OF Cons.prems(2)]] r False show ?thesis
      by (auto simp: moved_def algebra_simps)
  qed
qed (auto simp: moved_def)

lemma add_movements_total:
  "\<forall>m\<in>set ms. off_ledger m \<or> readable rt (am_quantity m) \<Longrightarrow> \<exists>b'. add_movements rt ms b = Inr b'"
  by (induction ms arbitrary: b) (auto simp: readable_units)

lemma all_zero_iff:
  assumes "om_ok b"
  shows "find (\<lambda>(_, units). units \<noteq> 0) b = None \<longleftrightarrow> (\<forall>k. balance_at b k = 0)"
proof -
  have "distinct (map fst b)" using assms by (simp add: om_ok_def)
  then have "(k, v) \<in> set b \<Longrightarrow> balance_at b k = v" for k v by (simp add: balance_at_def)
  moreover have "balance_at b k \<noteq> 0 \<Longrightarrow> (k, balance_at b k) \<in> set b" for k
    by (cases "om_get b k") (auto simp: balance_at_def dest: map_of_SomeD)
  ultimately show ?thesis by (fastforce simp: find_None_iff)
qed

lemma bucket_injective:
  "conservation_bucket a c = conservation_bucket a' c' \<longleftrightarrow> a = a' \<and> c = c'"
proof
  assume eq: "conservation_bucket a c = conservation_bucket a' c'"
  define last where "last s = rev (takeWhile (\<lambda>x. x \<noteq> CHR '':'') (rev s))" for s :: string
  have last: "last (conservation_bucket u d) = reward_class_text d" for u d
    by (cases d; (simp add: last_def conservation_bucket_def reward_class_text_def)?)
      (rename_tac x; case_tac x; simp add: last_def conservation_bucket_def reward_class_text_def)
  from eq have "reward_class_text c = reward_class_text c'" by (metis last)
  moreover from this eq have "a = a'" by (simp add: conservation_bucket_def)
  moreover have "reward_class_text c = reward_class_text c' \<Longrightarrow> c = c'"
    by (auto simp: reward_class_text_def split: option.splits reward_class.splits)
  ultimately show "a = a' \<and> c = c'" by simp
qed simp

lemma conservation_spec:
  "validate_conservation rt opening movements ending = Inr () \<longleftrightarrow>
   (\<forall>l\<in>set opening \<union> set ending. readable rt (al_quantity l)) \<and>
   (\<forall>m\<in>set movements. off_ledger m \<or> readable rt (am_quantity m)) \<and>
   (\<forall>k. held rt k opening + moved rt k movements = held rt k ending)"
proof
  assume "validate_conservation rt opening movements ending = Inr ()"
  then obtain b1 b2 b3 where run: "add_lots rt 1 opening [] = Inr b1" "add_movements rt movements b1 = Inr b2"
    "add_lots rt (-1) ending b2 = Inr b3"
    and final: "(case find (\<lambda>(_, units). units \<noteq> 0) b3 of None \<Rightarrow> Inr ()
       | Some (key, units) \<Rightarrow> Inl (''conservation_failed:'' @ key @ '':'' @ int_text units)) = Inr ()"
    by (auto simp only: validate_conservation_def res_simps)
  from final have zero: "find (\<lambda>(_, units). units \<noteq> 0) b3 = None"
    by (cases "find (\<lambda>(_, units). units \<noteq> 0) b3") auto
  note s1 = add_lots_ok [OF run(1) om_ok_Nil]
  note s2 = add_movements_ok [OF run(2) conjunct1 [OF s1]]
  note s3 = add_lots_ok [OF run(3) conjunct1 [OF s2]]
  have "\<forall>k. balance_at b3 k = 0" using zero all_zero_iff [OF conjunct1 [OF s3]] by simp
  with s1 s2 s3 show "(\<forall>l\<in>set opening \<union> set ending. readable rt (al_quantity l)) \<and>
     (\<forall>m\<in>set movements. off_ledger m \<or> readable rt (am_quantity m)) \<and>
     (\<forall>k. held rt k opening + moved rt k movements = held rt k ending)" by auto
next
  assume spec: "(\<forall>l\<in>set opening \<union> set ending. readable rt (al_quantity l)) \<and>
     (\<forall>m\<in>set movements. off_ledger m \<or> readable rt (am_quantity m)) \<and>
     (\<forall>k. held rt k opening + moved rt k movements = held rt k ending)"
  obtain b1 where b1: "add_lots rt 1 opening [] = Inr b1" using spec add_lots_total by fastforce
  obtain b2 where b2: "add_movements rt movements b1 = Inr b2" using spec add_movements_total by fastforce
  obtain b3 where b3: "add_lots rt (-1) ending b2 = Inr b3" using spec add_lots_total by fastforce
  note s1 = add_lots_ok [OF b1 om_ok_Nil]
  note s2 = add_movements_ok [OF b2 conjunct1 [OF s1]]
  note s3 = add_lots_ok [OF b3 conjunct1 [OF s2]]
  have "\<forall>k. balance_at b3 k = 0" using spec s1 s2 s3 by simp
  then have "find (\<lambda>(_, units). units \<noteq> 0) b3 = None" using all_zero_iff [OF conjunct1 [OF s3]] by simp
  with b1 b2 b3 show "validate_conservation rt opening movements ending = Inr ()"
    by (simp add: validate_conservation_def)
qed

text \<open>What the ledger should say: the stock of an asset and reward class in a list of lots, and what
  the movements of principal in given directions bring to it.\<close>

definition concerns :: "quantity \<Rightarrow> string \<Rightarrow> reward_class option \<Rightarrow> bool" where
  "concerns q a c \<longleftrightarrow> ar_asset_id (q_asset q) = a \<and> ar_reward_class (q_asset q) = c"

definition stock :: "runtime \<Rightarrow> string \<Rightarrow> reward_class option \<Rightarrow> asset_lot list \<Rightarrow> int" where
  "stock rt a c ls = (\<Sum>l\<leftarrow>filter (\<lambda>l. concerns (al_quantity l) a c) ls. units_of rt (al_quantity l))"

definition principal_movements :: "asset_movement list \<Rightarrow> asset_movement list" where
  "principal_movements ms = filter (\<lambda>m. am_movement_role m \<noteq> MR_external_funding \<and>
     (am_movement_role m = MR_fee \<longrightarrow> am_source_lot_id m \<noteq> None)) ms"

definition flow :: "runtime \<Rightarrow> direction set \<Rightarrow> string \<Rightarrow> reward_class option \<Rightarrow> asset_movement list \<Rightarrow> int" where
  "flow rt ds a c ms = (\<Sum>m\<leftarrow>filter (\<lambda>m. am_direction m \<in> ds \<and> concerns (am_quantity m) a c) (principal_movements ms).
     units_of rt (am_quantity m))"

lemma bucket_concerns: "asset_bucket (q_asset q) = conservation_bucket a c \<longleftrightarrow> concerns q a c"
  by (auto simp: asset_bucket_def bucket_injective concerns_def)

lemma held_stock: "held rt (conservation_bucket a c) ls = stock rt a c ls"
  by (induction ls) (auto simp: held_def stock_def bucket_concerns)

lemma moved_flow:
  "moved rt (conservation_bucket a c) ms = flow rt {D_create, D_return} a c ms - flow rt {D_consume, D_expire} a c ms"
proof (induction ms)
  case (Cons m ms)
  then show ?case
    by (cases "am_direction m")
       (auto simp: moved_def flow_def principal_movements_def off_ledger_def movement_sign_def bucket_concerns)
qed (simp add: moved_def flow_def principal_movements_def)

lemma principal_movements_iff: "m \<in> set (principal_movements ms) \<longleftrightarrow> m \<in> set ms \<and> \<not> off_ledger m"
  by (auto simp: principal_movements_def off_ledger_def)

text \<open>C14. A ledger passes the conservation check exactly when every amount on the ledger is an
  exact number of smallest units and, separately for every asset and reward class, what
  was held plus what was created or returned is what was consumed or expired plus what is
  held at the end; external funding and fees without a source lot are off the ledger.\<close>

theorem conservation_is_exact_balance:
  "validate_conservation rt opening movements ending = Inr () \<longleftrightarrow>
   (\<forall>l\<in>set opening \<union> set ending. readable rt (al_quantity l)) \<and>
   (\<forall>m\<in>set (principal_movements movements). readable rt (am_quantity m)) \<and>
   (\<forall>a c. stock rt a c opening + flow rt {D_create, D_return} a c movements =
      flow rt {D_consume, D_expire} a c movements + stock rt a c ending)"
proof -
  have "held rt k ls = 0" if "\<forall>a c. k \<noteq> conservation_bucket a c" for k ls
    using that by (induction ls) (auto simp: held_def asset_bucket_def)
  moreover have "moved rt k ms = 0" if "\<forall>a c. k \<noteq> conservation_bucket a c" for k ms
    using that by (induction ms) (auto simp: moved_def asset_bucket_def)
  ultimately have "(\<forall>k. held rt k opening + moved rt k movements = held rt k ending) \<longleftrightarrow>
      (\<forall>a c. held rt (conservation_bucket a c) opening + moved rt (conservation_bucket a c) movements =
        held rt (conservation_bucket a c) ending)"
    by (metis add.right_neutral)
  also have "\<dots> \<longleftrightarrow> (\<forall>a c. stock rt a c opening + flow rt {D_create, D_return} a c movements =
      flow rt {D_consume, D_expire} a c movements + stock rt a c ending)"
    unfolding held_stock moved_flow by (simp add: algebra_simps)
  finally show ?thesis
    unfolding conservation_spec Ball_def principal_movements_iff by blast
qed

section \<open>Samples\<close>

definition sample_clickout :: "string \<Rightarrow> int \<Rightarrow> string \<Rightarrow> operation" where
  "sample_clickout i n t = \<lparr>op_operation_id = i, op_sequence = n, op_occurred_at = t,
     op_operation_type = OT_portal_clickout, op_merchant_id = None, op_merchant_location_id = None,
     op_channel = CH_portal_clickout, op_interface = IF_portal_redirect, op_payment_instrument_id = None,
     op_funding_source_id = None, op_amount_jpy = None, op_asset_inputs = [], op_output_requests = [],
     op_original_operation_id = None, op_portal_id = None, op_line_items = [], op_notes = []\<rparr>"

definition sample_plan :: purchase_plan where
  "sample_plan = \<lparr>pp_plan_id = ''plan_1'',
     pp_operations = [sample_clickout ''b'' 2 ''2025-01-01T00:00:01Z'', sample_clickout ''a'' 1 ''2025-01-01T00:00:00Z''],
     pp_dependencies = [\<lparr>de_from_operation_id = ''a'', de_to_operation_id = ''b'', de_dependency_type = DT_attribution\<rparr>],
     pp_loyalty_presentments = [], pp_assumptions = [], pp_extra_fields = []\<rparr>"

lemma sample_plan_valid: "validate_purchase_plan ref_rt sample_plan = Inr ()"
  by code_simp

lemma valid_plan_is_acyclic_witness: "acyclic {(''a'', ''b'')}"
proof -
  have "dependency_edges sample_plan = {(''a'', ''b'')}"
    by (simp add: dependency_edges_def sample_plan_def)
  with valid_plan_is_acyclic [OF sample_plan_valid] show ?thesis by simp
qed

definition sample_progress :: cap_progress_state where
  "sample_progress = \<lparr>ps_status = FS_known, ps_eligible_spend_jpy_min = Some 300, ps_eligible_spend_jpy_max = Some 300,
     ps_reward_earned_units_min = Some ''3'', ps_reward_earned_units_max = Some ''3'',
     ps_period_start = None, ps_period_end = None\<rparr>"

lemma user_state_is_typed_witness:
  "validate_user_state ref_rt [] [(''cap'', sample_progress)] = Inr () \<and>
   validate_user_state ref_rt [] [(''cap'', sample_progress\<lparr>ps_eligible_spend_jpy_min := None\<rparr>)] \<noteq> Inr ()"
proof -
  have three: "is_decimal_text ''3''" by code_simp
  show ?thesis
    unfolding user_state_is_typed by (simp add: cap_progress_ok_def sample_progress_def three)
qed

definition sample_points :: "string \<Rightarrow> quantity" where
  "sample_points a = \<lparr>q_asset = \<lparr>ar_asset_id = ''points'', ar_asset_kind = AK_reward_point, ar_program_id = None,
     ar_reward_class = Some RC_normal, ar_scale = 0\<rparr>, q_amount = a\<rparr>"

definition sample_lot :: "string \<Rightarrow> asset_lot" where
  "sample_lot a = \<lparr>al_lot_id = ''lot'', al_quantity = sample_points a, al_acquired_at = None, al_source_operation_id = None,
     al_settlement = \<lparr>se_status = SS_available, se_expected_posting_from = None, se_expected_posting_to = None, se_posted_at = None\<rparr>,
     al_expiry = \<lparr>ex_policy = EP_none, ex_expires_at = None, ex_duration_days = None, ex_timezone = None\<rparr>,
     al_restrictions = \<lparr>ur_transferable = None, ur_redeemable_for_cash = None, ur_usable_for_payment = None,
       ur_investable = None, ur_permitted_destination_ids = [], ur_notes = []\<rparr>, al_provenance_rule_ids = []\<rparr>"

definition sample_spend :: "string \<Rightarrow> asset_movement" where
  "sample_spend a = \<lparr>am_movement_id = ''m'', am_operation_id = ''a'', am_direction = D_consume,
     am_movement_role = MR_redemption, am_quantity = sample_points a, am_source_lot_id = Some ''lot'',
     am_destination_lot_id = None, am_notes = []\<rparr>"

lemma sample_points_units:
  "quantity_in_units ref_rt (sample_points ''9'') = Inr 9" "quantity_in_units ref_rt (sample_points ''4'') = Inr 4"
  "quantity_in_units ref_rt (sample_points ''5'') = Inr 5"
proof -
  have texts: "is_decimal_text ''9''" "is_decimal_text ''4''" "is_decimal_text ''5''"
    "text_value ''9'' = 9" "text_value ''4'' = 4" "text_value ''5'' = 5" by code_simp+
  show "quantity_in_units ref_rt (sample_points ''9'') = Inr 9"
    "quantity_in_units ref_rt (sample_points ''4'') = Inr 4" "quantity_in_units ref_rt (sample_points ''5'') = Inr 5"
    by (simp_all add: quantity_in_units_def units_from_amount_def sample_points_def decimal_string_def texts
      power10_def dmul_def decimal_to_bigint_def)
qed

lemma conservation_is_exact_balance_witness:
  "validate_conservation ref_rt [sample_lot ''9''] [sample_spend ''4''] [sample_lot ''5''] = Inr () \<and>
   validate_conservation ref_rt [sample_lot ''9''] [sample_spend ''4''] [sample_lot ''4''] \<noteq> Inr ()"
proof -
  note sample = stock_def flow_def principal_movements_def units_of_def sample_points_units readable_units
    sample_lot_def sample_spend_def
  have concerns: "concerns (sample_points t) a c \<longleftrightarrow> a = ''points'' \<and> c = Some RC_normal" for a c t
    by (auto simp: concerns_def sample_points_def)
  have "validate_conservation ref_rt [sample_lot ''9''] [sample_spend ''4''] [sample_lot ''5''] = Inr ()"
    unfolding conservation_is_exact_balance by (simp add: sample concerns)
  moreover have "validate_conservation ref_rt [sample_lot ''9''] [sample_spend ''4''] [sample_lot ''4''] \<noteq> Inr ()"
    unfolding conservation_is_exact_balance
    by (auto simp: sample concerns intro!: exI [of _ "''points''"] exI [of _ "Some RC_normal"])
  ultimately show ?thesis ..
qed

definition sample_rule :: "rule_status \<Rightarrow> review_event list \<Rightarrow> reward_rule" where
  "sample_rule status events = \<lparr>rr_rule_id = ''rule'', rr_version = 1, rr_status = status, rr_rule_type = ''base_reward'',
     rr_name = ''rule'',
     rr_scope = \<lparr>sc_countries = [''JP''], sc_operation_types = [OT_merchant_purchase], sc_merchant_ids = None,
       sc_excluded_merchant_ids = None, sc_merchant_location_ids = None, sc_excluded_merchant_location_ids = None,
       sc_channels = [CH_in_store], sc_included_product_classes = None, sc_excluded_product_classes = None,
       sc_tax_basis = None\<rparr>,
     rr_transaction_conditions = \<lparr>tc_minimum_amount_jpy = None, tc_maximum_amount_jpy = None, tc_eligible_amount_basis = None\<rparr>,
     rr_calculation = None,
     rr_stacking = \<lparr>rs_stack_group = ''g'', rs_mode = SM_additive, rs_precedence = 0, rs_conflicts_with_rule_ids = [],
       rs_requires_rule_ids = []\<rparr>,
     rr_validity = \<lparr>va_valid_from = ''2025-01-01T00:00:00Z'', va_valid_to = None, va_timezone = ''Asia/Tokyo'',
       va_recorded_at = ''2025-01-01T00:00:00Z'', va_superseded_at = None\<rparr>,
     rr_provenance = \<lparr>pr_evidence_ids = [], pr_minimum_source_tier = ''T1_CANONICAL'', pr_human_verified = True\<rparr>,
     rr_audit = \<lparr>au_created_at = [], au_created_by = [], au_review_events = events,
       au_required_review_modes = [RV_expert_review], au_review_mode = None, au_reviewed_at = None,
       au_reviewed_by = None, au_change_reason = []\<rparr>,
     rr_rest = JNull\<rparr>"

lemma valid_rule_iff_witness:
  "validate_reward_rule ref_rt (sample_rule RU_draft []) = Inr () \<and>
   validate_reward_rule ref_rt (sample_rule RU_published []) \<noteq> Inr ()"
proof -
  have "interval_ok ref_rt ''2025-01-01T00:00:00Z'' None"
  proof -
    have "read_instant ''2025-01-01T00:00:00Z'' = Some 1735689600000" by code_simp
    then show ?thesis by (simp add: interval_ok_def falsy_def)
  qed
  then show ?thesis
    unfolding valid_rule_iff by (simp add: sample_rule_def calculation_ok_def approved_modes_def)
qed

end
