(* ===== verification/Canonical.thy ===== *)
theory Canonical
  imports EngineMath
begin

text \<open>
  The canonical text of a document (\<open>canonicalize\<close> in
  \<open>packages/rule-engine/src/math.ts\<close>), which replay and idempotency checks compare: object
  keys in code-unit order, no white space, big integers as strings.  The text of a finite
  number (\<open>JSON.stringify\<close> of a double) is the argument \<open>number_text\<close>.
\<close>

section \<open>String literals\<close>

definition hex_char :: "nat \<Rightarrow> char" where
  "hex_char n = (if n < 10 then char_of (48 + n) else char_of (87 + n))"

text \<open>\<open>JSON.stringify\<close> of one character.\<close>

definition json_escape :: "char \<Rightarrow> string" where
  "json_escape c =
     (let n = of_char c :: nat
      in if n = 34 then [CHR 0x5C, CHR 0x22] else if n = 92 then [CHR 0x5C, CHR 0x5C]
         else if n = 8 then [CHR 0x5C, CHR ''b''] else if n = 9 then [CHR 0x5C, CHR ''t'']
         else if n = 10 then [CHR 0x5C, CHR ''n''] else if n = 12 then [CHR 0x5C, CHR ''f'']
         else if n = 13 then [CHR 0x5C, CHR ''r'']
         else if n < 32 then [CHR 0x5C, CHR ''u'', CHR ''0'', CHR ''0'', hex_char (n div 16), hex_char (n mod 16)]
         else [c])"

definition json_string :: "string \<Rightarrow> string" where
  "json_string s = [CHR 0x22] @ concat (map json_escape s) @ [CHR 0x22]"

section \<open>Canonical text\<close>

fun canonicalize :: "(rat \<Rightarrow> string) \<Rightarrow> json \<Rightarrow> string res" where
  "canonicalize number_text JNull = Inr ''null''"
| "canonicalize number_text (JBool b) = Inr (if b then ''true'' else ''false'')"
| "canonicalize number_text (JStr s) = Inr (json_string s)"
| "canonicalize number_text (JBig n) = Inr (json_string (int_text n))"
| "canonicalize number_text (JNum n) =
     (case n of NonFinite \<Rightarrow> Inl ''non_finite_number'' | Finite q \<Rightarrow> Inr (number_text q))"
| "canonicalize number_text (JArr vs) =
     rmap (\<lambda>ts. ''['' @ join_with '','' ts @ '']'') (traverse (\<lambda>v. canonicalize number_text v) vs)"
| "canonicalize number_text (JObj kvs) =
     rmap (\<lambda>ts. ''{'' @ join_with '','' (map (\<lambda>(k, t). json_string k @ '':'' @ t)
         (sort_cmp (cmp_on fst str_cmp) ts)) @ ''}'')
       (traverse (\<lambda>kv. rmap (Pair (fst kv)) (canonicalize number_text (snd kv))) kvs)"

section \<open>Key order does not matter\<close>

text \<open>The document the text stands for: keys sorted at every level, big integers as text.\<close>

fun normal_form :: "json \<Rightarrow> json" where
  "normal_form (JArr vs) = JArr (map normal_form vs)"
| "normal_form (JObj kvs) = JObj (sort_cmp (cmp_on fst str_cmp) (map (\<lambda>kv. (fst kv, normal_form (snd kv))) kvs))"
| "normal_form (JBig n) = JStr (int_text n)"
| "normal_form v = v"

text \<open>The text of a normal form.\<close>

fun plain_text :: "(rat \<Rightarrow> string) \<Rightarrow> json \<Rightarrow> string" where
  "plain_text number_text JNull = ''null''"
| "plain_text number_text (JBool b) = (if b then ''true'' else ''false'')"
| "plain_text number_text (JStr s) = json_string s"
| "plain_text number_text (JBig n) = json_string (int_text n)"
| "plain_text number_text (JNum n) = (case n of NonFinite \<Rightarrow> [] | Finite q \<Rightarrow> number_text q)"
| "plain_text number_text (JArr vs) = ''['' @ join_with '','' (map (plain_text number_text) vs) @ '']''"
| "plain_text number_text (JObj kvs) =
     ''{'' @ join_with '','' (map (\<lambda>kv. json_string (fst kv) @ '':'' @ plain_text number_text (snd kv)) kvs) @ ''}''"

fun all_finite :: "json \<Rightarrow> bool" where
  "all_finite (JNum n) = (n \<noteq> NonFinite)"
| "all_finite (JArr vs) = (\<forall>v\<in>set vs. all_finite v)"
| "all_finite (JObj kvs) = (\<forall>kv\<in>set kvs. all_finite (snd kv))"
| "all_finite _ = True"

lemma insert_cmp_map:
  "insert_cmp (cmp_on fst c) (fst p, f (snd p)) (map (\<lambda>q. (fst q, f (snd q))) ps) =
   map (\<lambda>q. (fst q, f (snd q))) (insert_cmp (cmp_on fst c) p ps)"
  by (induction ps) (auto simp: cmp_on_def)

lemma sort_cmp_map:
  "sort_cmp (cmp_on fst c) (map (\<lambda>q. (fst q, f (snd q))) ps) =
   map (\<lambda>q. (fst q, f (snd q))) (sort_cmp (cmp_on fst c) ps)"
  by (induction ps) (simp_all add: insert_cmp_map)

lemma traverse_Inr_map:
  "(\<And>x. x \<in> set xs \<Longrightarrow> f x = (if P x then Inr (g x) else Inl e)) \<Longrightarrow>
   traverse f xs = (if \<forall>x\<in>set xs. P x then Inr (map g xs) else Inl e)"
  by (induction xs) (auto simp: rbind_def)

lemma canonicalize_normal_form:
  "canonicalize nt v = (if all_finite v then Inr (plain_text nt (normal_form v)) else Inl ''non_finite_number'')"
proof (induction nt v rule: canonicalize.induct)
  case (5 nt n)
  then show ?case by (cases n) simp_all
next
  case (6 nt vs)
  have "traverse (\<lambda>v. canonicalize nt v) vs = (if \<forall>v\<in>set vs. all_finite v
      then Inr (map (\<lambda>v. plain_text nt (normal_form v)) vs) else Inl ''non_finite_number'')"
    by (rule traverse_Inr_map) (rule 6)
  then show ?case by (simp add: comp_def)
next
  case (7 nt kvs)
  have "traverse (\<lambda>kv. rmap (Pair (fst kv)) (canonicalize nt (snd kv))) kvs = (if \<forall>kv\<in>set kvs. all_finite (snd kv)
      then Inr (map (\<lambda>kv. (fst kv, plain_text nt (normal_form (snd kv)))) kvs) else Inl ''non_finite_number'')"
    by (rule traverse_Inr_map) (simp add: 7)
  then show ?case
    by (simp add: sort_cmp_map [of str_cmp "\<lambda>v. plain_text nt (normal_form v)"]
      sort_cmp_map [of str_cmp normal_form] comp_def case_prod_beta)
qed simp_all

section \<open>The text determines the document\<close>

lemma hex_char_inject: "m < 16 \<Longrightarrow> n < 16 \<Longrightarrow> hex_char m = hex_char n \<longleftrightarrow> m = n"
proof -
  assume "m < 16" "n < 16"
  moreover have "hex_char m = hex_char n \<Longrightarrow> (of_char (hex_char m) :: nat) = of_char (hex_char n)" by simp
  ultimately show ?thesis by (auto simp: hex_char_def split: if_splits)
qed

definition escape_code :: "nat \<Rightarrow> string" where
  "escape_code n = (if n = 34 then [CHR 0x22] else if n = 92 then [CHR 0x5C] else if n = 8 then [CHR ''b'']
     else if n = 9 then [CHR ''t''] else if n = 10 then [CHR ''n''] else if n = 12 then [CHR ''f'']
     else if n = 13 then [CHR ''r'']
     else [CHR ''u'', CHR ''0'', CHR ''0'', hex_char (n div 16), hex_char (n mod 16)])"

definition escaped :: "nat \<Rightarrow> bool" where
  "escaped n \<longleftrightarrow> n = 34 \<or> n = 92 \<or> n < 32"

lemma json_escape_eq:
  "json_escape c = (if escaped (of_char c) then CHR 0x5C # escape_code (of_char c) else [c])"
  by (simp add: json_escape_def escape_code_def escaped_def Let_def)

lemma escape_code_prefix_free:
  assumes "escape_code m @ x = escape_code n @ y" and "escaped m" and "escaped n"
  shows "m = n"
proof (cases "hd (escape_code m) = CHR ''u''")
  case True
  have u: "hd (escape_code k) = CHR ''u'' \<Longrightarrow> escaped k \<Longrightarrow>
      k < 32 \<and> escape_code k = [CHR ''u'', CHR ''0'', CHR ''0'', hex_char (k div 16), hex_char (k mod 16)]" for k
    by (auto simp: escape_code_def escaped_def split: if_splits)
  have "escape_code m \<noteq> []" "escape_code n \<noteq> []" by (simp_all add: escape_code_def)
  with True assms(1) have "hd (escape_code n) = CHR ''u''" by (metis hd_append)
  from u [OF True assms(2)] u [OF this assms(3)] assms(1) have "m < 32" "n < 32"
    "hex_char (m div 16) = hex_char (n div 16)" "hex_char (m mod 16) = hex_char (n mod 16)" by auto
  then have "m div 16 = n div 16" "m mod 16 = n mod 16" by (simp_all add: hex_char_inject)
  then show ?thesis by (metis div_mult_mod_eq)
next
  case False
  with assms(1) show ?thesis by (auto simp: escape_code_def split: if_splits)
qed

lemma escape_prefix_free:
  assumes "json_escape c @ x = json_escape d @ y"
  shows "c = d \<and> x = y"
proof -
  have slash: "escaped (of_char (CHR 0x5C) :: nat)" by (simp add: escaped_def)
  have "c = d"
  proof (cases "escaped (of_char c)")
    case c: True
    with assms slash have d: "escaped (of_char d)" by (auto simp: json_escape_eq split: if_splits)
    with assms c have "escape_code (of_char c) @ x = escape_code (of_char d) @ y" by (simp add: json_escape_eq)
    from escape_code_prefix_free [OF this c d] show ?thesis by simp
  next
    case False
    with assms slash show ?thesis by (auto simp: json_escape_eq split: if_splits)
  qed
  with assms show ?thesis by simp
qed

lemma escape_not_quote: "json_escape c @ x \<noteq> CHR 0x22 # y"
proof
  assume "json_escape c @ x = CHR 0x22 # y"
  moreover have "escaped (of_char (CHR 0x22) :: nat)" by (simp add: escaped_def)
  ultimately show False by (auto simp: json_escape_eq split: if_splits)
qed

lemma json_string_prefix_free:
  "json_string s @ x = json_string t @ y \<Longrightarrow> s = t \<and> x = y"
proof -
  have "concat (map json_escape s) @ CHR 0x22 # x = concat (map json_escape t) @ CHR 0x22 # y \<Longrightarrow> s = t \<and> x = y"
  proof (induction s arbitrary: t)
    case Nil
    then show ?case using escape_not_quote by (cases t) (auto dest: sym)
  next
    case (Cons c s)
    show ?case
    proof (cases t)
      case Nil
      with Cons.prems escape_not_quote [of c "concat (map json_escape s) @ CHR 0x22 # x" y] show ?thesis by simp
    next
      case t: (Cons d t')
      from Cons.prems t have "json_escape c @ (concat (map json_escape s) @ CHR 0x22 # x) =
          json_escape d @ (concat (map json_escape t') @ CHR 0x22 # y)" by simp
      from escape_prefix_free [OF this] Cons.IH t show ?thesis by auto
    qed
  qed
  then show "json_string s @ x = json_string t @ y \<Longrightarrow> s = t \<and> x = y" by (simp add: json_string_def)
qed

text \<open>Documents as \<open>normal_form\<close> leaves them.\<close>

fun is_plain :: "json \<Rightarrow> bool" where
  "is_plain (JBig n) = False"
| "is_plain (JNum n) = (n \<noteq> NonFinite)"
| "is_plain (JArr vs) = (\<forall>v\<in>set vs. is_plain v)"
| "is_plain (JObj kvs) = (\<forall>kv\<in>set kvs. is_plain (snd kv))"
| "is_plain _ = True"

lemma normal_form_plain: "all_finite v \<Longrightarrow> is_plain (normal_form v)"
  by (induction v rule: normal_form.induct) auto

text \<open>What is relied on of \<open>JSON.stringify\<close> of numbers: distinct finite numbers have distinct
  texts, made of the characters of a JSON number.\<close>

definition number_chars :: "char set" where
  "number_chars = {c. is_digit c} \<union> set ''+-.e''"

definition number_text_ok :: "(rat \<Rightarrow> string) \<Rightarrow> bool" where
  "number_text_ok nt \<longleftrightarrow> inj nt \<and> (\<forall>q. nt q \<noteq> [] \<and> set (nt q) \<subseteq> number_chars)"

text \<open>The rest of the text after a value: nothing, or one of \<open>, ] }\<close>.\<close>

definition delimited :: "string \<Rightarrow> bool" where
  "delimited r \<longleftrightarrow> (case r of [] \<Rightarrow> True | c # _ \<Rightarrow> c = CHR '','' \<or> c = CHR '']'' \<or> c = CHR ''}'')"

lemma delimited_not_number: "delimited (c # r) \<Longrightarrow> c \<notin> number_chars"
  by (auto simp: delimited_def number_chars_def is_digit_def)

lemma number_prefix_free:
  assumes "number_text_ok nt" and "nt p @ r = nt q @ r'" and "delimited r" and "delimited r'"
  shows "p = q \<and> r = r'"
proof -
  have take: "takeWhile (\<lambda>c. c \<in> number_chars) (nt x @ y) = nt x" if "delimited y" for x y
  proof -
    have "takeWhile (\<lambda>c. c \<in> number_chars) (nt x @ y) = nt x @ takeWhile (\<lambda>c. c \<in> number_chars) y"
      using assms(1) by (intro takeWhile_append2) (auto simp: number_text_ok_def)
    moreover have "takeWhile (\<lambda>c. c \<in> number_chars) y = []"
      using that delimited_not_number by (cases y) auto
    ultimately show ?thesis by simp
  qed
  from take [OF assms(3), of p] take [OF assms(4), of q] assms(2) have "nt p = nt q" by simp
  with assms show ?thesis by (auto simp: number_text_ok_def inj_def)
qed

lemma join_Cons: "join_with sep (x # xs) = x @ (if xs = [] then [] else sep @ join_with sep xs)"
  by (cases xs) simp_all

lemma join_prefix_free:
  assumes inj: "\<And>x y r r'. x \<in> set xs \<Longrightarrow> ok y \<Longrightarrow> f x @ r = f y @ r' \<Longrightarrow> delimited r \<Longrightarrow> delimited r' \<Longrightarrow> x = y \<and> r = r'"
    and start: "\<And>x. ok x \<Longrightarrow> f x \<noteq> [] \<and> hd (f x) \<noteq> close"
    and close: "close = CHR '']'' \<or> close = CHR ''}''"
  shows "\<forall>x\<in>set xs. ok x \<Longrightarrow> \<forall>y\<in>set ys. ok y \<Longrightarrow>
    join_with '','' (map f xs) @ close # r = join_with '','' (map f ys) @ close # r' \<Longrightarrow> xs = ys \<and> r = r'"
  using inj
proof (induction xs arbitrary: ys)
  case Nil
  then show ?case using start by (cases ys) (auto simp: join_Cons, metis append_Cons hd_append2 list.sel(1))
next
  case (Cons x xs)
  show ?case
  proof (cases ys)
    case Nil
    with Cons.prems(1,3) start [of x] show ?thesis
      by (auto simp: join_Cons) (metis append_Cons hd_append2 list.sel(1))+
  next
    case ys: (Cons y ys')
    define tail where "tail zs u = (if zs = [] then close # u else CHR '','' # join_with '','' (map f zs) @ close # u)"
      for zs and u :: string
    have eq: "f x @ tail xs r = f y @ tail ys' r'"
      using Cons.prems(3) by (auto simp: ys join_Cons tail_def split: if_splits)
    have delim: "delimited (tail zs u)" for zs u using close by (auto simp: tail_def delimited_def)
    have "x \<in> set (x # xs)" "ok y" using Cons.prems(2) ys by simp_all
    from Cons.prems(4) [OF this eq delim delim] have "x = y" and tails: "tail xs r = tail ys' r'" by simp_all
    moreover have "xs = ys' \<and> r = r'"
    proof (cases "xs = [] \<or> ys' = []")
      case True
      with tails close show ?thesis by (auto simp: tail_def split: if_splits)
    next
      case False
      with tails have "join_with '','' (map f xs) @ close # r = join_with '','' (map f ys') @ close # r'"
        by (simp add: tail_def)
      then show ?thesis
      proof (rule Cons.IH [rotated 2])
        show "\<forall>x\<in>set xs. ok x" "\<forall>y\<in>set ys'. ok y" using Cons.prems(1,2) ys by simp_all
      next
        fix u v s s'
        assume "u \<in> set xs"
        then have "u \<in> set (x # xs)" by simp
        then show "ok v \<Longrightarrow> f u @ s = f v @ s' \<Longrightarrow> delimited s \<Longrightarrow> delimited s' \<Longrightarrow> u = v \<and> s = s'"
          by (rule Cons.prems(4))
      qed
    qed
    ultimately show ?thesis by (simp add: ys)
  qed
qed

lemma plain_text_start:
  assumes "number_text_ok nt" and "is_plain v"
  shows "plain_text nt v \<noteq> [] \<and> hd (plain_text nt v) \<noteq> CHR '']'' \<and> hd (plain_text nt v) \<noteq> CHR ''}''"
proof (cases v)
  case (JNum n)
  with assms(2) obtain q where q: "n = Finite q" by (cases n) auto
  have "nt q \<noteq> []" "set (nt q) \<subseteq> number_chars" using assms(1) by (auto simp: number_text_ok_def)
  then have "hd (nt q) \<in> number_chars" by auto
  with JNum q assms(1) show ?thesis by (auto simp: number_text_ok_def number_chars_def is_digit_def)
qed (use assms(2) in \<open>auto simp: json_string_def\<close>)

definition entry_text :: "(rat \<Rightarrow> string) \<Rightarrow> string \<times> json \<Rightarrow> string" where
  "entry_text nt kv = json_string (fst kv) @ '':'' @ plain_text nt (snd kv)"

text \<open>The first character tells the constructors apart.\<close>

definition value_tag :: "json \<Rightarrow> char set" where
  "value_tag v = (case v of JNull \<Rightarrow> {CHR ''n''} | JBool b \<Rightarrow> {if b then CHR ''t'' else CHR ''f''}
     | JNum _ \<Rightarrow> number_chars | JArr _ \<Rightarrow> {CHR ''[''} | JObj _ \<Rightarrow> {CHR ''{''} | _ \<Rightarrow> {CHR 0x22})"

lemma plain_text_tag:
  assumes "number_text_ok nt" and "is_plain v"
  shows "hd (plain_text nt v @ r) \<in> value_tag v"
proof (cases v)
  case (JNum n)
  with assms(2) obtain q where q: "n = Finite q" by (cases n) auto
  have "nt q \<noteq> []" "set (nt q) \<subseteq> number_chars" using assms(1) by (auto simp: number_text_ok_def)
  then have "hd (nt q) \<in> number_chars" "hd (nt q @ r) = hd (nt q)" by auto
  with JNum q show ?thesis by (simp add: value_tag_def)
qed (use assms(2) in \<open>auto simp: json_string_def value_tag_def\<close>)

lemma plain_text_prefix_free:
  assumes nt: "number_text_ok nt"
  shows "is_plain v \<Longrightarrow> is_plain w \<Longrightarrow> plain_text nt v @ r = plain_text nt w @ r' \<Longrightarrow>
    delimited r \<Longrightarrow> delimited r' \<Longrightarrow> v = w \<and> r = r'"
proof (induction v arbitrary: w r r')
  have tags: "value_tag v \<inter> value_tag w \<noteq> {}"
    if "is_plain v" "is_plain w" "plain_text nt v @ r = plain_text nt w @ r'" for v w r r'
    using plain_text_tag [OF nt that(1), of r] plain_text_tag [OF nt that(2), of r'] that(3) by auto
  {
    case JNull
    from tags [OF JNull(1-3)] JNull show ?case by (cases w) (auto simp: value_tag_def number_chars_def is_digit_def split: if_splits)
  next
    case (JBool b)
    from tags [OF JBool(1-3)] JBool show ?case by (cases w) (auto simp: value_tag_def number_chars_def is_digit_def split: if_splits)
  next
    case (JNum n)
    from tags [OF JNum(1-3)] obtain m where w: "w = JNum m"
      by (cases w) (auto simp: value_tag_def number_chars_def is_digit_def split: if_splits)
    with JNum(1,2) obtain p q where "n = Finite p" "m = Finite q" by (cases n; cases m) auto
    with JNum number_prefix_free [OF nt, of p r q r'] w show ?case by simp
  next
    case (JBig n)
    then show ?case by simp
  next
    case (JStr s)
    from tags [OF JStr(1-3)] JStr(2) obtain t where w: "w = JStr t"
      by (cases w) (auto simp: value_tag_def number_chars_def is_digit_def split: if_splits)
    with JStr(3) json_string_prefix_free [of s r t r'] show ?case by simp
  next
    case (JArr vs)
    from tags [OF JArr(2-4)] JArr(3) obtain ws where w: "w = JArr ws"
      by (cases w) (auto simp: value_tag_def number_chars_def is_digit_def split: if_splits)
    have "vs = ws \<and> r = r'"
    proof (rule join_prefix_free [where f = "plain_text nt" and ok = is_plain and close = "CHR '']''"])
      fix x y u u'
      assume "x \<in> set vs" "is_plain y" "plain_text nt x @ u = plain_text nt y @ u'" "delimited u" "delimited u'"
      with JArr.IH [of x y u u'] JArr(2) show "x = y \<and> u = u'" by simp
    qed (use JArr w plain_text_start [OF nt] in \<open>auto\<close>)
    with w show ?case by simp
  next
    case (JObj kvs)
    from tags [OF JObj(2-4)] JObj(3) obtain kws where w: "w = JObj kws"
      by (cases w) (auto simp: value_tag_def number_chars_def is_digit_def split: if_splits)
    have entries: "plain_text nt (JObj ps) @ u = CHR ''{'' # join_with '','' (map (entry_text nt) ps) @ CHR ''}'' # u" for ps u
      by (simp add: entry_text_def [abs_def])
    have "kvs = kws \<and> r = r'"
    proof (rule join_prefix_free [where f = "entry_text nt" and ok = "\<lambda>p. is_plain (snd p)" and close = "CHR ''}''"])
      fix x y u u'
      assume x: "x \<in> set kvs" and y: "is_plain (snd y)" and eq: "entry_text nt x @ u = entry_text nt y @ u'"
        and d: "delimited u" "delimited u'"
      from json_string_prefix_free [of "fst x" _ "fst y"] eq have "fst x = fst y"
        and rest: "plain_text nt (snd x) @ u = plain_text nt (snd y) @ u'"
        by (simp_all add: entry_text_def) blast+
      moreover have "snd x \<in> Basic_BNFs.snds x" by (cases x) simp
      with JObj.IH [OF x this _ y rest d] JObj(2) x have "snd x = snd y \<and> u = u'" by simp
      ultimately show "x = y \<and> u = u'" by (simp add: prod_eq_iff)
    next
      show "join_with '','' (map (entry_text nt) kvs) @ CHR ''}'' # r = join_with '','' (map (entry_text nt) kws) @ CHR ''}'' # r'"
        using JObj(4) unfolding w entries by simp
    qed (use JObj(2,3) w in \<open>auto simp: entry_text_def json_string_def\<close>)
    with w show ?case by simp
  }
qed

lemma canonicalize_same_iff:
  assumes "number_text_ok number_text" and "all_finite v" and "all_finite w"
  shows "canonicalize number_text v = canonicalize number_text w \<longleftrightarrow> normal_form v = normal_form w"
proof
  assume "canonicalize number_text v = canonicalize number_text w"
  then have "plain_text number_text (normal_form v) @ [] = plain_text number_text (normal_form w) @ []"
    using assms(2,3) by (simp add: canonicalize_normal_form)
  from plain_text_prefix_free [OF assms(1) normal_form_plain [OF assms(2)] normal_form_plain [OF assms(3)] this]
  show "normal_form v = normal_form w" by (simp add: delimited_def)
qed (use assms(2,3) in \<open>simp add: canonicalize_normal_form\<close>)

text \<open>C26. Two documents have the same canonical text exactly when they agree up to the order
  of object keys (and the writing of a big integer as a number or as text): an idempotency
  check that compares the texts neither confuses different requests nor rejects a
  reordered one.\<close>

theorem canonical_text_identifies:
  assumes "number_text_ok number_text" and "all_finite v" and "all_finite w"
  shows "canonicalize number_text v = canonicalize number_text w \<longleftrightarrow> normal_form v = normal_form w"
  by (rule canonicalize_same_iff [OF assms])

lemma sorted_unique:
  assumes c: "comparator c"
  shows "sorted_wrt (\<lambda>x y. c x y \<le> 0) xs \<Longrightarrow> sorted_wrt (\<lambda>x y. c x y \<le> 0) ys \<Longrightarrow> mset xs = mset ys \<Longrightarrow>
    \<forall>x\<in>set xs. \<forall>y\<in>set xs. c x y = 0 \<longrightarrow> x = y \<Longrightarrow> xs = ys"
proof (induction xs arbitrary: ys)
  case (Cons x xs)
  then obtain y ys' where ys: "ys = y # ys'" by (cases ys) auto
  have sets: "set (x # xs) = set (y # ys')" using Cons.prems(3) ys mset_eq_setD by metis
  have "x = y"
  proof (rule ccontr)
    assume ne: "x \<noteq> y"
    with sets have "x \<in> set ys'" "y \<in> set xs" by auto
    with Cons.prems(1,2) ys have le: "c x y \<le> 0" "c y x \<le> 0" by simp_all
    have "sgn (c y x) = - sgn (c x y)" by (rule comparator.cmp_flip [OF c])
    with le have "c x y = 0" by (auto simp: sgn_if split: if_splits)
    with Cons.prems(4) \<open>y \<in> set xs\<close> ne show False by simp
  qed
  with Cons ys show ?case by auto
qed simp

lemma normal_form_key_order:
  assumes "mset kvs = mset kvs'" and "distinct (map fst kvs)"
  shows "normal_form (JObj kvs) = normal_form (JObj kvs')"
proof -
  let ?f = "\<lambda>kv. (fst kv, normal_form (snd kv))"
  have c: "comparator (cmp_on fst str_cmp :: string \<times> json \<Rightarrow> _)"
    by (intro comparator_on code_units.comparator_axioms)
  have "sort_cmp (cmp_on fst str_cmp) (map ?f kvs) = sort_cmp (cmp_on fst str_cmp) (map ?f kvs')"
  proof (rule sorted_unique [OF c comparator.sorted_sort_cmp [OF c] comparator.sorted_sort_cmp [OF c]])
    show "mset (sort_cmp (cmp_on fst str_cmp) (map ?f kvs)) = mset (sort_cmp (cmp_on fst str_cmp) (map ?f kvs'))"
      by (simp add: assms(1) [symmetric] mset_map [symmetric] del: mset_map) (simp add: assms(1))
    have "inj_on fst (set kvs)" using assms(2) by (simp add: distinct_map)
    then show "\<forall>x\<in>set (sort_cmp (cmp_on fst str_cmp) (map ?f kvs)).
        \<forall>y\<in>set (sort_cmp (cmp_on fst str_cmp) (map ?f kvs)). cmp_on fst str_cmp x y = 0 \<longrightarrow> x = y"
      by (auto simp: cmp_on_def str_cmp_eq_0_iff dest: inj_onD)
  qed
  then show ?thesis by simp
qed

text \<open>A number text that meets the law: numerator and denominator.\<close>

definition sample_number_text :: "rat \<Rightarrow> string" where
  "sample_number_text q = int_text (fst (quotient_of q)) @ ''.'' @ int_text (snd (quotient_of q))"

lemma int_text_chars: "int_text n \<noteq> [] \<and> (\<forall>c\<in>set (int_text n). is_digit c \<or> c = CHR ''-'')"
  using nat_text_digits by (auto simp: int_text_def)

lemma int_text_inject: "int_text m = int_text n \<Longrightarrow> m = n"
proof -
  assume eq: "int_text m = int_text n"
  have "\<not> is_digit (CHR ''-'')" by (simp add: is_digit_def)
  then have "CHR ''-'' \<notin> set (nat_text k)" for k using nat_text_digits by blast
  then have "CHR ''-'' \<in> set (int_text k) \<longleftrightarrow> k < 0" for k by (simp add: int_text_def)
  with eq have sign: "m < 0 \<longleftrightarrow> n < 0" by metis
  have inj: "nat_text j = nat_text k \<Longrightarrow> j = k" for j k by (metis nat_text_value)
  show "m = n"
  proof (cases "m < 0")
    case True
    with eq sign have "nat (- m) = nat (- n)" by (auto simp: int_text_def intro: inj)
    with True sign show ?thesis by simp
  next
    case False
    with eq sign have "nat m = nat n" by (auto simp: int_text_def intro: inj)
    with False sign show ?thesis by simp
  qed
qed

lemma sample_number_text_ok: "number_text_ok sample_number_text"
proof -
  have "inj sample_number_text"
  proof (rule injI)
    fix p q
    assume eq: "sample_number_text p = sample_number_text q"
    have dot: "CHR ''.'' \<notin> set (int_text n)" for n using int_text_chars [of n] is_digit_not_dot by auto
    have take: "takeWhile (\<lambda>c. c \<noteq> CHR ''.'') (int_text n @ ''.'' @ r) = int_text n" for n r
      using dot [of n] by (subst takeWhile_append2) auto
    from take [of "fst (quotient_of p)"] take [of "fst (quotient_of q)"] eq
    have "int_text (fst (quotient_of p)) = int_text (fst (quotient_of q))"
      unfolding sample_number_text_def by metis
    moreover from this eq have "int_text (snd (quotient_of p)) = int_text (snd (quotient_of q))"
      by (simp add: sample_number_text_def)
    ultimately have "quotient_of p = quotient_of q" by (auto intro: prod_eqI int_text_inject)
    then show "p = q" by (rule quotient_of_inject)
  qed
  then show ?thesis
    unfolding number_text_ok_def
  proof (intro conjI allI)
    fix q
    show "sample_number_text q \<noteq> []" by (simp add: sample_number_text_def)
    have "set (int_text n) \<subseteq> number_chars" for n
      using int_text_chars [of n] by (auto simp: number_chars_def)
    moreover have "set ''.'' \<subseteq> number_chars" by (simp add: number_chars_def)
    ultimately show "set (sample_number_text q) \<subseteq> number_chars"
      by (simp only: sample_number_text_def set_append Un_subset_iff simp_thms)
  qed
qed

lemma canonical_text_identifies_witness:
  "canonicalize sample_number_text (JObj [(''b'', JNum (num 1)), (''a'', JNull)]) =
   canonicalize sample_number_text (JObj [(''a'', JNull), (''b'', JNum (num 1))]) \<and>
   canonicalize sample_number_text (JArr [JStr ''1'']) \<noteq> canonicalize sample_number_text (JArr [JNum (num 1)])"
proof -
  have "normal_form (JObj [(''b'', JNum (num 1)), (''a'', JNull)]) = normal_form (JObj [(''a'', JNull), (''b'', JNum (num 1))])"
    by (rule normal_form_key_order) simp_all
  with canonical_text_identifies [OF sample_number_text_ok, of "JObj [(''b'', JNum (num 1)), (''a'', JNull)]"
      "JObj [(''a'', JNull), (''b'', JNum (num 1))]"]
    canonical_text_identifies [OF sample_number_text_ok, of "JArr [JStr ''1'']" "JArr [JNum (num 1)]"]
  show ?thesis by simp
qed

end
