(* ===== verification/Bitemporal.thy ===== *)
theory Bitemporal
  imports Validation Canonical
begin

text \<open>
  Rule versions on two time axes (\<open>packages/rule-engine/src/bitemporal.ts\<close>): half-open
  intervals of validity and of knowledge, the selection of the approved version at a
  transaction time and a knowledge time, and the store that publishes versions.  A rule
  document is the typed view the engine reads together with its JSON, whose canonical text
  the store compares.  Selection is stated for extensions of that record, which carry the rest
  of the rule.
\<close>

section \<open>Half-open intervals\<close>

definition end_time :: "runtime \<Rightarrow> string option \<Rightarrow> int option res" where
  "end_time rt value = (case value of None \<Rightarrow> Inr None | Some t \<Rightarrow> rmap Some (parse_time rt t))"

definition before_end :: "int \<Rightarrow> int option \<Rightarrow> bool" where
  "before_end t stop = (case stop of None \<Rightarrow> True | Some e \<Rightarrow> t < e)"

definition half_open_contains :: "runtime \<Rightarrow> string \<Rightarrow> string option \<Rightarrow> string \<Rightarrow> bool res" where
  "half_open_contains rt start stop at_time =
     rbind (parse_time rt at_time) (\<lambda>p. rbind (parse_time rt start) (\<lambda>s.
       if s \<le> p then rmap (before_end p) (end_time rt stop) else Inr False))"

text \<open>\<open>a && b\<close> where either may throw.\<close>

definition and_then :: "bool res \<Rightarrow> bool res \<Rightarrow> bool res" where
  "and_then a b = rbind a (\<lambda>x. if x then b else Inr False)"

definition starts_before_end :: "runtime \<Rightarrow> string \<Rightarrow> string option \<Rightarrow> bool res" where
  "starts_before_end rt start stop = rbind (parse_time rt start) (\<lambda>s. rmap (before_end s) (end_time rt stop))"

definition half_open_ranges_overlap ::
    "runtime \<Rightarrow> string \<Rightarrow> string option \<Rightarrow> string \<Rightarrow> string option \<Rightarrow> bool res" where
  "half_open_ranges_overlap rt left_start left_end right_start right_end =
     and_then (starts_before_end rt left_start right_end) (starts_before_end rt right_start left_end)"

definition rectangles_overlap :: "runtime \<Rightarrow> rule_validity \<Rightarrow> rule_validity \<Rightarrow> bool res" where
  "rectangles_overlap rt l r =
     and_then (half_open_ranges_overlap rt (va_valid_from l) (va_valid_to l) (va_valid_from r) (va_valid_to r))
       (half_open_ranges_overlap rt (va_recorded_at l) (va_superseded_at l) (va_recorded_at r) (va_superseded_at r))"

section \<open>Which rules may be evaluated\<close>

definition rule_is_approved :: "reward_rule \<Rightarrow> bool" where
  "rule_is_approved rule \<longleftrightarrow> rr_status rule = RU_published \<and>
     is_ok (assert_review_policy (au_required_review_modes (rr_audit rule)) (au_review_events (rr_audit rule)))"

definition rule_is_experimental_candidate :: "reward_rule \<Rightarrow> bool" where
  "rule_is_experimental_candidate rule \<longleftrightarrow> rr_status rule = RU_under_review \<and>
     \<not> pr_human_verified (rr_provenance rule) \<and> au_review_mode (rr_audit rule) = None \<and>
     au_reviewed_at (rr_audit rule) = None \<and> au_reviewed_by (rr_audit rule) = None \<and>
     au_review_events (rr_audit rule) = []"

record rule_document =
  rd_rule :: reward_rule
  rd_json :: json

definition covers :: "runtime \<Rightarrow> rule_validity \<Rightarrow> string \<Rightarrow> string \<Rightarrow> bool res" where
  "covers rt v transaction_time knowledge_time =
     and_then (half_open_contains rt (va_valid_from v) (va_valid_to v) transaction_time)
       (half_open_contains rt (va_recorded_at v) (va_superseded_at v) knowledge_time)"

text \<open>\<open>filter\<close> and \<open>some\<close> with a predicate that may throw.\<close>

fun filter_res :: "('a \<Rightarrow> bool res) \<Rightarrow> 'a list \<Rightarrow> 'a list res" where
  "filter_res f [] = Inr []"
| "filter_res f (x # xs) = rbind (f x) (\<lambda>keep. rmap (\<lambda>ys. if keep then x # ys else ys) (filter_res f xs))"

fun some_res :: "('a \<Rightarrow> bool res) \<Rightarrow> 'a list \<Rightarrow> bool res" where
  "some_res f [] = Inr False"
| "some_res f (x # xs) = rbind (f x) (\<lambda>found. if found then Inr True else some_res f xs)"

definition select_approved_rule ::
    "runtime \<Rightarrow> rule_document list \<Rightarrow> string \<Rightarrow> string \<Rightarrow> string \<Rightarrow> rule_document option res" where
  "select_approved_rule rt rules rule_id transaction_time knowledge_time =
     rbind (filter_res (\<lambda>d.
         if rr_rule_id (rd_rule d) = rule_id \<and> rule_is_approved (rd_rule d)
         then covers rt (rr_validity (rd_rule d)) transaction_time knowledge_time else Inr False) rules)
       (\<lambda>matches. case matches of
          [] \<Rightarrow> Inr None | [d] \<Rightarrow> Inr (Some d) | _ \<Rightarrow> Inl ''ambiguous_bitemporal_replay'')"

datatype evaluation_policy = EV_approved | EV_experimental_unverified

definition admitted :: "evaluation_policy \<Rightarrow> reward_rule \<Rightarrow> bool" where
  "admitted policy rule =
     (if policy = EV_approved then rule_is_approved rule else rule_is_experimental_candidate rule)"

fun group_by_id :: "'a rule_document_scheme list \<Rightarrow> (string, 'a rule_document_scheme list) omap \<Rightarrow> (string, 'a rule_document_scheme list) omap" where
  "group_by_id [] m = m"
| "group_by_id (d # ds) m =
     group_by_id ds (om_set (rr_rule_id (rd_rule d)) (default_to [] (om_get m (rr_rule_id (rd_rule d))) @ [d]) m)"

definition single_match :: "string \<times> 'a rule_document_scheme list \<Rightarrow> 'a rule_document_scheme res" where
  "single_match p =
     (case snd p of
        [d] \<Rightarrow> Inr d
      | [] \<Rightarrow> Inl (''missing_bitemporal_replay:'' @ fst p)
      | _ \<Rightarrow> Inl (''ambiguous_bitemporal_replay:'' @ fst p))"

definition rule_order :: "runtime \<Rightarrow> 'a rule_document_scheme \<Rightarrow> 'a rule_document_scheme \<Rightarrow> int" where
  "rule_order rt = cmp_then (cmp_on (rr_rule_id \<circ> rd_rule) (rt_locale_compare rt)) (cmp_key (rr_version \<circ> rd_rule))"

definition select_rules_for_evaluation ::
    "runtime \<Rightarrow> 'a rule_document_scheme list \<Rightarrow> string \<Rightarrow> string \<Rightarrow> evaluation_policy \<Rightarrow> 'a rule_document_scheme list res" where
  "select_rules_for_evaluation rt rules transaction_time knowledge_time policy =
     rbind (filter_res (\<lambda>d. if admitted policy (rd_rule d)
         then covers rt (rr_validity (rd_rule d)) transaction_time knowledge_time else Inr False) rules) (\<lambda>matches.
     rmap (sort_cmp (rule_order rt)) (traverse single_match (group_by_id matches [])))"

section \<open>The version store\<close>

record legacy_command =
  lg_idempotency_key :: string
  lg_rule_id :: string
  lg_version :: int
  lg_status :: rule_status
  lg_definition :: json
  lg_valid_from :: string
  lg_valid_to :: "string option"
  lg_recorded_at :: string
  lg_superseded_at :: "string option"

datatype rule_store_command = Publish string rule_document | Legacy legacy_command

record rule_version_store =
  vs_versions :: "(string, rule_document list) omap"
  vs_requests :: "(string, string \<times> rule_document) omap"

definition nullable :: "string option \<Rightarrow> json" where
  "nullable t = (case t of None \<Rightarrow> JNull | Some s \<Rightarrow> JStr s)"

definition status_text :: "rule_status \<Rightarrow> string" where
  "status_text s = (case s of RU_draft \<Rightarrow> ''draft'' | RU_under_review \<Rightarrow> ''under_review'' | RU_published \<Rightarrow> ''published''
     | RU_superseded \<Rightarrow> ''superseded'' | RU_retired \<Rightarrow> ''retired'' | RU_rejected \<Rightarrow> ''rejected'')"

definition synthetic_json :: "legacy_command \<Rightarrow> string \<Rightarrow> json" where
  "synthetic_json c reason = JObj
     [(''rule_id'', JStr (lg_rule_id c)), (''version'', JNum (num (lg_version c))),
      (''status'', JStr (status_text (lg_status c))), (''rule_type'', JStr ''base_reward''),
      (''name'', JStr (lg_rule_id c)),
      (''subject'', JObj [(''entity_type'', JStr ''merchant''), (''entity_id'', JStr ''synthetic'')]),
      (''scope'', JObj [(''countries'', JArr [JStr ''JP'']), (''operation_types'', JArr [JStr ''merchant_purchase'']),
         (''channels'', JArr [JStr ''in_store''])]),
      (''eligibility'', JObj [(''operation_match'', JObj []), (''user_conditions'', JArr []),
         (''transaction_conditions'', JObj []), (''campaign_conditions'', JObj [])]),
      (''caps'', JArr []),
      (''stacking'', JObj [(''stack_group'', JStr ''synthetic''), (''mode'', JStr ''additive''),
         (''precedence'', JNum (num 0)), (''conflicts_with_rule_ids'', JArr []), (''requires_rule_ids'', JArr [])]),
      (''validity'', JObj [(''valid_from'', JStr (lg_valid_from c)), (''valid_to'', nullable (lg_valid_to c)),
         (''timezone'', JStr ''Asia/Tokyo''), (''recorded_at'', JStr (lg_recorded_at c)),
         (''superseded_at'', nullable (lg_superseded_at c))]),
      (''provenance'', JObj [(''evidence_ids'', JArr [JStr ''ev_synthetic'']),
         (''minimum_source_tier'', JStr ''T1_CANONICAL''), (''confidence'', JNum (num 1)), (''human_verified'', JBool True)]),
      (''audit'', JObj [(''created_at'', JStr (lg_recorded_at c)), (''created_by'', JStr ''legacy-adapter''),
         (''review_events'', JArr [JObj [(''mode'', JStr ''solo_dual_pass''), (''reviewer_id'', JStr ''legacy-adapter''),
            (''completed_at'', JStr (lg_recorded_at c)), (''decision'', JStr ''approved''), (''notes'', JStr ''legacy adapter'')]]),
         (''required_review_modes'', JArr [JStr ''solo_dual_pass'']), (''review_mode'', JStr ''solo_dual_pass''),
         (''reviewed_at'', JStr (lg_recorded_at c)), (''reviewed_by'', JStr ''legacy-adapter''),
         (''change_reason'', JStr reason)])]"

definition synthetic_rule :: "legacy_command \<Rightarrow> string \<Rightarrow> reward_rule" where
  "synthetic_rule c reason =
     \<lparr>rr_rule_id = lg_rule_id c, rr_version = lg_version c, rr_status = lg_status c, rr_rule_type = ''base_reward'',
      rr_name = lg_rule_id c,
      rr_scope = \<lparr>sc_countries = [''JP''], sc_operation_types = [OT_merchant_purchase], sc_merchant_ids = None,
        sc_excluded_merchant_ids = None, sc_merchant_location_ids = None, sc_excluded_merchant_location_ids = None,
        sc_channels = [CH_in_store], sc_included_product_classes = None, sc_excluded_product_classes = None,
        sc_tax_basis = None\<rparr>,
      rr_transaction_conditions = \<lparr>tc_minimum_amount_jpy = None, tc_maximum_amount_jpy = None,
        tc_eligible_amount_basis = None\<rparr>,
      rr_calculation = None,
      rr_stacking = \<lparr>rs_stack_group = ''synthetic'', rs_mode = SM_additive, rs_precedence = 0,
        rs_conflicts_with_rule_ids = [], rs_requires_rule_ids = []\<rparr>,
      rr_validity = \<lparr>va_valid_from = lg_valid_from c, va_valid_to = lg_valid_to c, va_timezone = ''Asia/Tokyo'',
        va_recorded_at = lg_recorded_at c, va_superseded_at = lg_superseded_at c\<rparr>,
      rr_provenance = \<lparr>pr_evidence_ids = [''ev_synthetic''], pr_minimum_source_tier = ''T1_CANONICAL'',
        pr_human_verified = True\<rparr>,
      rr_audit = \<lparr>au_created_at = lg_recorded_at c, au_created_by = ''legacy-adapter'',
        au_review_events = [\<lparr>re_mode = RV_solo_dual_pass, re_reviewer_id = ''legacy-adapter'',
          re_completed_at = lg_recorded_at c, re_decision = RD_approved, re_notes = ''legacy adapter''\<rparr>],
        au_required_review_modes = [RV_solo_dual_pass], au_review_mode = Some RV_solo_dual_pass,
        au_reviewed_at = Some (lg_recorded_at c), au_reviewed_by = Some ''legacy-adapter'',
        au_change_reason = reason\<rparr>,
      rr_rest = JNull\<rparr>"

definition command_to_synthetic_rule :: "(rat \<Rightarrow> string) \<Rightarrow> legacy_command \<Rightarrow> rule_document res" where
  "command_to_synthetic_rule nt c =
     rmap (\<lambda>reason. \<lparr>rd_rule = synthetic_rule c reason, rd_json = synthetic_json c reason\<rparr>)
       (canonicalize nt (lg_definition c))"

definition normalize_command :: "(rat \<Rightarrow> string) \<Rightarrow> rule_store_command \<Rightarrow> (string \<times> rule_document) res" where
  "normalize_command nt command =
     (case command of
        Publish key d \<Rightarrow> Inr (key, d)
      | Legacy c \<Rightarrow> rmap (Pair (lg_idempotency_key c)) (command_to_synthetic_rule nt c))"

definition command_canonical :: "(rat \<Rightarrow> string) \<Rightarrow> string \<Rightarrow> rule_document \<Rightarrow> string res" where
  "command_canonical nt key d = canonicalize nt (JObj [(''idempotency_key'', JStr key), (''rule'', rd_json d)])"

definition publish_new ::
    "runtime \<Rightarrow> string \<Rightarrow> string \<Rightarrow> rule_document \<Rightarrow> rule_version_store \<Rightarrow> (rule_document \<times> rule_version_store) res" where
  "publish_new rt key canonical d s =
     (let rule = rd_rule d; existing = default_to [] (om_get (vs_versions s) (rr_rule_id rule))
      in if \<exists>v\<in>set existing. rr_version (rd_rule v) = rr_version rule then Inl ''rule_version_conflict''
         else rbind (if rr_status rule \<noteq> RU_published then Inr False
             else some_res (\<lambda>v. if rule_is_approved (rd_rule v)
               then rectangles_overlap rt (rr_validity (rd_rule v)) (rr_validity rule) else Inr False) existing)
           (\<lambda>overlap. if overlap then Inl ''approved_bitemporal_overlap''
              else Inr (d, \<lparr>vs_versions = om_set (rr_rule_id rule) (existing @ [d]) (vs_versions s),
                vs_requests = om_set key (canonical, d) (vs_requests s)\<rparr>)))"

definition publish ::
    "runtime \<Rightarrow> (rat \<Rightarrow> string) \<Rightarrow> rule_store_command \<Rightarrow> rule_version_store \<Rightarrow>
     (rule_document \<times> rule_version_store) res" where
  "publish rt nt command s =
     rbind (normalize_command nt command) (\<lambda>(key, d).
       if key = [] then Inl ''publication_idempotency_required''
       else rbind (command_canonical nt key d) (\<lambda>canonical.
         case om_get (vs_requests s) key of
           Some (previous, result) \<Rightarrow>
             if previous \<noteq> canonical then Inl ''publication_idempotency_mismatch'' else Inr (result, s)
         | None \<Rightarrow> publish_new rt key canonical d s))"

definition store_list :: "rule_version_store \<Rightarrow> string \<Rightarrow> rule_document list" where
  "store_list s rule_id =
     sort_cmp (cmp_key (rr_version \<circ> rd_rule)) (default_to [] (om_get (vs_versions s) rule_id))"

definition select_approved ::
    "runtime \<Rightarrow> rule_version_store \<Rightarrow> string \<Rightarrow> string \<Rightarrow> string \<Rightarrow> rule_document option res" where
  "select_approved rt s rule_id transaction_time knowledge_time =
     select_approved_rule rt (default_to [] (om_get (vs_versions s) rule_id)) rule_id transaction_time knowledge_time"

definition all_versions :: "runtime \<Rightarrow> rule_version_store \<Rightarrow> rule_document list" where
  "all_versions rt s = sort_cmp (rule_order rt) (concat (map snd (vs_versions s)))"

text \<open>The states a store can be in: a failed publication throws before it writes.\<close>

definition empty_store :: rule_version_store where
  "empty_store = \<lparr>vs_versions = [], vs_requests = []\<rparr>"

inductive reachable_store :: "runtime \<Rightarrow> (rat \<Rightarrow> string) \<Rightarrow> rule_version_store \<Rightarrow> bool" for rt nt where
  initial: "reachable_store rt nt empty_store"
| published: "reachable_store rt nt s \<Longrightarrow> publish rt nt command s = Inr (d, s') \<Longrightarrow> reachable_store rt nt s'"

section \<open>Intervals as sets of instants\<close>

definition instants :: "runtime \<Rightarrow> string \<Rightarrow> string option \<Rightarrow> int set res" where
  "instants rt start stop =
     rbind (parse_time rt start) (\<lambda>s. rmap (\<lambda>e. {t. s \<le> t \<and> before_end t e}) (end_time rt stop))"

lemma contains_instants:
  "half_open_contains rt start stop t = Inr True \<longleftrightarrow>
   (\<exists>p I. parse_time rt t = Inr p \<and> instants rt start stop = Inr I \<and> p \<in> I)"
  by (auto simp: half_open_contains_def instants_def res_simps split: if_splits)

lemma overlap_instants:
  assumes "instants rt ls le = Inr I" and "instants rt rs re = Inr J" and "I \<noteq> {}" and "J \<noteq> {}"
  shows "half_open_ranges_overlap rt ls le rs re = Inr (I \<inter> J \<noteq> {})"
proof -
  obtain a e where a: "parse_time rt ls = Inr a" "end_time rt le = Inr e" and I: "I = {t. a \<le> t \<and> before_end t e}"
    using assms(1) by (auto simp: instants_def res_simps)
  obtain b f where b: "parse_time rt rs = Inr b" "end_time rt re = Inr f" and J: "J = {t. b \<le> t \<and> before_end t f}"
    using assms(2) by (auto simp: instants_def res_simps)
  have shrink: "before_end t x \<Longrightarrow> u \<le> t \<Longrightarrow> before_end u x" for t u x
    by (auto simp: before_end_def split: option.splits)
  have "before_end a e" "before_end b f" using assms(3,4) I J shrink by auto
  then have "before_end a f \<and> before_end b e \<longleftrightarrow> max a b \<in> I \<inter> J"
    using shrink [of b f a] shrink [of a e b] by (auto simp: I J max_def)
  also have "\<dots> \<longleftrightarrow> I \<inter> J \<noteq> {}"
  proof
    assume "I \<inter> J \<noteq> {}"
    then obtain t where "t \<in> I" "t \<in> J" by blast
    then show "max a b \<in> I \<inter> J" using shrink [of t] by (auto simp: I J)
  qed blast
  finally have meet: "before_end a f \<and> before_end b e \<longleftrightarrow> I \<inter> J \<noteq> {}" .
  have "half_open_ranges_overlap rt ls le rs re = Inr (before_end a f \<and> before_end b e)"
    by (simp add: half_open_ranges_overlap_def starts_before_end_def and_then_def a b)
  then show ?thesis unfolding meet .
qed

text \<open>Two versions overlap exactly when some transaction instant and some knowledge instant
  lie in both of their rectangles, provided none of the four intervals is empty: the code
  compares only the end points.\<close>

theorem rectangles_overlap_iff:
  assumes "instants rt (va_valid_from v) (va_valid_to v) = Inr I" and "I \<noteq> {}"
    and "instants rt (va_recorded_at v) (va_superseded_at v) = Inr K" and "K \<noteq> {}"
    and "instants rt (va_valid_from w) (va_valid_to w) = Inr J" and "J \<noteq> {}"
    and "instants rt (va_recorded_at w) (va_superseded_at w) = Inr L" and "L \<noteq> {}"
  shows "rectangles_overlap rt v w = Inr ((I \<times> K) \<inter> (J \<times> L) \<noteq> {})"
  unfolding rectangles_overlap_def overlap_instants [OF assms(1,5,2,6)] overlap_instants [OF assms(3,7,4,8)]
  by (auto simp: and_then_def)

lemma covers_overlap:
  assumes "covers rt v t k = Inr True" and "covers rt w t k = Inr True"
  shows "rectangles_overlap rt v w = Inr True"
proof -
  have both: "half_open_contains rt ls le p = Inr True \<Longrightarrow> half_open_contains rt rs re p = Inr True \<Longrightarrow>
      half_open_ranges_overlap rt ls le rs re = Inr True" for ls le rs re p
  proof -
    assume "half_open_contains rt ls le p = Inr True" "half_open_contains rt rs re p = Inr True"
    then obtain q I J where "instants rt ls le = Inr I" "instants rt rs re = Inr J" "q \<in> I" "q \<in> J"
      unfolding contains_instants by auto
    moreover from this have "I \<noteq> {}" "J \<noteq> {}" "I \<inter> J \<noteq> {}" by blast+
    ultimately show ?thesis using overlap_instants [of rt ls le I rs re J] by simp
  qed
  have "half_open_contains rt (va_valid_from x) (va_valid_to x) t = Inr True \<and>
      half_open_contains rt (va_recorded_at x) (va_superseded_at x) k = Inr True"
    if "covers rt x t k = Inr True" for x
    using that by (auto simp: covers_def and_then_def res_simps split: if_splits)
  from both [OF conjunct1 [OF this [OF assms(1)]] conjunct1 [OF this [OF assms(2)]]]
    both [OF conjunct2 [OF this [OF assms(1)]] conjunct2 [OF this [OF assms(2)]]]
  show ?thesis by (simp add: rectangles_overlap_def and_then_def)
qed

definition bad_timestamp :: "string \<Rightarrow> bool" where
  "bad_timestamp e \<longleftrightarrow> (\<exists>x. e = ''invalid_timestamp:'' @ x)"

lemma covers_error: "covers rt v t k = Inl e \<Longrightarrow> bad_timestamp e"
proof -
  have parse: "parse_time rt x = Inl e \<Longrightarrow> bad_timestamp e" for x
    by (auto simp: parse_time_def bad_timestamp_def split: option.splits)
  have stop: "end_time rt x = Inl e \<Longrightarrow> bad_timestamp e" for x
    using parse by (auto simp: end_time_def rmap_def rbind_Inl_iff split: option.splits)
  have "half_open_contains rt a b c = Inl e \<Longrightarrow> bad_timestamp e" for a b c
    using parse stop by (auto simp: half_open_contains_def rmap_def rbind_Inl_iff split: if_splits)
  then show "covers rt v t k = Inl e \<Longrightarrow> bad_timestamp e"
    by (auto simp: covers_def and_then_def rbind_Inl_iff split: if_splits)
qed

section \<open>Scans that may throw\<close>

lemma filter_res_Inr: "filter_res f xs = Inr ys \<Longrightarrow> ys = filter (\<lambda>x. f x = Inr True) xs"
  by (induction xs arbitrary: ys) (auto simp: res_simps)

lemma filter_res_Inl: "filter_res f xs = Inl e \<Longrightarrow> \<exists>x\<in>set xs. f x = Inl e"
  by (induction xs) (auto simp: rmap_def rbind_Inl_iff)

lemma some_res_False: "some_res f xs = Inr False \<longleftrightarrow> (\<forall>x\<in>set xs. f x = Inr False)"
  by (induction xs) (auto simp: res_simps split: if_splits)

section \<open>The invariant of the store\<close>

definition versions_of :: "rule_version_store \<Rightarrow> string \<Rightarrow> rule_document list" where
  "versions_of s i = default_to [] (om_get (vs_versions s) i)"

text \<open>Of two approved versions of a rule the later one was checked against the earlier.\<close>

definition versions_ok :: "runtime \<Rightarrow> string \<Rightarrow> rule_document list \<Rightarrow> bool" where
  "versions_ok rt i ds \<longleftrightarrow> (\<forall>d\<in>set ds. rr_rule_id (rd_rule d) = i) \<and>
     distinct (map (rr_version \<circ> rd_rule) ds) \<and>
     sorted_wrt (\<lambda>v w. rule_is_approved (rd_rule v) \<and> rule_is_approved (rd_rule w) \<longrightarrow>
       rectangles_overlap rt (rr_validity (rd_rule v)) (rr_validity (rd_rule w)) = Inr False) ds"

definition store_ok :: "runtime \<Rightarrow> rule_version_store \<Rightarrow> bool" where
  "store_ok rt s \<longleftrightarrow> om_ok (vs_versions s) \<and> (\<forall>i. versions_ok rt i (versions_of s i))"

lemma publish_new_Inr:
  assumes "publish_new rt key canonical d s = Inr (r, s')"
  shows "r = d" and "vs_requests s' = om_set key (canonical, d) (vs_requests s)"
    and "vs_versions s' = om_set (rr_rule_id (rd_rule d)) (versions_of s (rr_rule_id (rd_rule d)) @ [d]) (vs_versions s)"
    and "\<forall>v\<in>set (versions_of s (rr_rule_id (rd_rule d))). rr_version (rd_rule v) \<noteq> rr_version (rd_rule d) \<and>
      (rule_is_approved (rd_rule v) \<and> rule_is_approved (rd_rule d) \<longrightarrow>
        rectangles_overlap rt (rr_validity (rd_rule v)) (rr_validity (rd_rule d)) = Inr False)"
proof -
  let ?vs = "versions_of s (rr_rule_id (rd_rule d))"
  note run = assms [unfolded publish_new_def Let_def, folded versions_of_def]
  from run have fresh: "\<forall>v\<in>set ?vs. rr_version (rd_rule v) \<noteq> rr_version (rd_rule d)"
    by (auto split: if_splits)
  with run have rest: "rbind (if rr_status (rd_rule d) \<noteq> RU_published then Inr False
      else some_res (\<lambda>v. if rule_is_approved (rd_rule v)
        then rectangles_overlap rt (rr_validity (rd_rule v)) (rr_validity (rd_rule d)) else Inr False) ?vs)
      (\<lambda>overlap. if overlap then Inl ''approved_bitemporal_overlap''
        else Inr (d, \<lparr>vs_versions = om_set (rr_rule_id (rd_rule d)) (?vs @ [d]) (vs_versions s),
          vs_requests = om_set key (canonical, d) (vs_requests s)\<rparr>)) = Inr (r, s')"
    by (simp split: if_splits)
  then have "(if rr_status (rd_rule d) \<noteq> RU_published then Inr False
      else some_res (\<lambda>v. if rule_is_approved (rd_rule v)
        then rectangles_overlap rt (rr_validity (rd_rule v)) (rr_validity (rd_rule d)) else Inr False) ?vs) = Inr False"
    and eq: "r = d \<and> s' = \<lparr>vs_versions = om_set (rr_rule_id (rd_rule d)) (?vs @ [d]) (vs_versions s),
          vs_requests = om_set key (canonical, d) (vs_requests s)\<rparr>"
    by (auto simp only: res_simps split: if_splits)
  then have "rule_is_approved (rd_rule d) \<longrightarrow> (\<forall>v\<in>set ?vs. rule_is_approved (rd_rule v) \<longrightarrow>
      rectangles_overlap rt (rr_validity (rd_rule v)) (rr_validity (rd_rule d)) = Inr False)"
    by (auto simp: rule_is_approved_def some_res_False split: if_splits)
  with fresh show "\<forall>v\<in>set ?vs. rr_version (rd_rule v) \<noteq> rr_version (rd_rule d) \<and>
      (rule_is_approved (rd_rule v) \<and> rule_is_approved (rd_rule d) \<longrightarrow>
        rectangles_overlap rt (rr_validity (rd_rule v)) (rr_validity (rd_rule d)) = Inr False)" by blast
  from eq show "r = d" "vs_requests s' = om_set key (canonical, d) (vs_requests s)"
    "vs_versions s' = om_set (rr_rule_id (rd_rule d)) (?vs @ [d]) (vs_versions s)" by simp_all
qed

lemma publish_Inr:
  assumes "publish rt nt command s = Inr (r, s')"
  obtains key d canonical where "normalize_command nt command = Inr (key, d)" and "key \<noteq> []"
    and "command_canonical nt key d = Inr canonical"
    and "om_get (vs_requests s) key = Some (canonical, r) \<and> s' = s \<or>
      om_get (vs_requests s) key = None \<and> publish_new rt key canonical d s = Inr (r, s')"
proof -
  obtain key d where n: "normalize_command nt command = Inr (key, d)"
    using assms by (auto simp: publish_def res_simps)
  obtain canonical where c: "key \<noteq> []" "command_canonical nt key d = Inr canonical"
    using assms n by (auto simp: publish_def res_simps split: if_splits)
  show thesis
    by (rule that [OF n c]) (use assms n c in \<open>auto simp: publish_def split: option.splits if_splits\<close>)
qed

lemma versions_of_published:
  assumes "publish_new rt key canonical d s = Inr (r, s')"
  shows "versions_of s' i = versions_of s i @ (if i = rr_rule_id (rd_rule d) then [d] else [])"
  by (simp add: versions_of_def publish_new_Inr(3) [OF assms] om_get_set)

lemma publish_new_ok:
  assumes "store_ok rt s" and "publish_new rt key canonical d s = Inr (r, s')"
  shows "store_ok rt s'"
proof -
  note new = publish_new_Inr(4) [OF assms(2)]
  have "versions_ok rt i (versions_of s' i)" for i
  proof (cases "i = rr_rule_id (rd_rule d)")
    case True
    have "versions_ok rt i (versions_of s i)" using assms(1) by (simp add: store_ok_def)
    with new True show ?thesis
      unfolding versions_of_published [OF assms(2)]
      by (fastforce simp: versions_ok_def sorted_wrt_append)
  next
    case False
    with assms(1) show ?thesis unfolding versions_of_published [OF assms(2)] by (simp add: store_ok_def)
  qed
  moreover have "om_ok (vs_versions s')"
    using assms(1) by (simp add: publish_new_Inr(3) [OF assms(2)] store_ok_def om_ok_set)
  ultimately show ?thesis by (simp add: store_ok_def)
qed

lemma reachable_store_ok: "reachable_store rt nt s \<Longrightarrow> store_ok rt s"
proof (induction rule: reachable_store.induct)
  case initial
  then show ?case by (simp add: store_ok_def versions_ok_def versions_of_def empty_store_def)
next
  case (published s command d s')
  from published(2) show ?case
    by (rule publish_Inr) (use published(3) publish_new_ok in blast)
qed

section \<open>What the store promises\<close>

text \<open>C30. In every store reached by publications, the versions of a rule carry its id and
  distinct version numbers, and no two approved versions have overlapping rectangles.\<close>

theorem store_invariant:
  assumes "reachable_store rt nt s"
  shows "distinct (map (rr_version \<circ> rd_rule) (versions_of s i)) \<and>
    (\<forall>d\<in>set (versions_of s i). rr_rule_id (rd_rule d) = i) \<and>
    sorted_wrt (\<lambda>v w. rule_is_approved (rd_rule v) \<and> rule_is_approved (rd_rule w) \<longrightarrow>
      rectangles_overlap rt (rr_validity (rd_rule v)) (rr_validity (rd_rule w)) = Inr False) (versions_of s i)"
  using reachable_store_ok [OF assms] by (simp add: store_ok_def versions_ok_def)

text \<open>The abstract reading of a store: the approved versions that cover a point.\<close>

definition approved_at ::
    "runtime \<Rightarrow> rule_version_store \<Rightarrow> string \<Rightarrow> string \<Rightarrow> string \<Rightarrow> rule_document set" where
  "approved_at rt s i t k = {d \<in> set (versions_of s i). rule_is_approved (rd_rule d) \<and>
     covers rt (rr_validity (rd_rule d)) t k = Inr True}"

lemma unrelated_at_most_one:
  "sorted_wrt R xs \<Longrightarrow> (\<And>x y. x \<in> set xs \<Longrightarrow> y \<in> set xs \<Longrightarrow> \<not> R x y) \<Longrightarrow> length xs \<le> 1"
  by (cases xs rule: remdups_adj.cases) auto

lemma covering_versions_single:
  assumes "versions_ok rt i ds"
  shows "length (filter (\<lambda>d. rule_is_approved (rd_rule d) \<and> covers rt (rr_validity (rd_rule d)) t k = Inr True) ds) \<le> 1"
proof (rule unrelated_at_most_one)
  let ?R = "\<lambda>v w. rule_is_approved (rd_rule v) \<and> rule_is_approved (rd_rule w) \<longrightarrow>
      rectangles_overlap rt (rr_validity (rd_rule v)) (rr_validity (rd_rule w)) = Inr False"
  let ?P = "\<lambda>d. rule_is_approved (rd_rule d) \<and> covers rt (rr_validity (rd_rule d)) t k = Inr True"
  show "sorted_wrt ?R (filter ?P ds)"
    using assms by (simp only: versions_ok_def sorted_wrt_filter)
  fix v w
  assume "v \<in> set (filter ?P ds)" "w \<in> set (filter ?P ds)"
  then have v: "?P v" and w: "?P w" by simp_all
  from covers_overlap [OF conjunct2 [OF v] conjunct2 [OF w]] v w show "\<not> ?R v w" by simp
qed

text \<open>C13. Selecting the approved version of a rule from a reachable store refines the abstract
  reading: there is never more than one candidate, the one there is is returned, and the
  only error is a malformed timestamp; the ambiguity error of the code cannot occur.\<close>

theorem selection_refines_store:
  assumes "reachable_store rt nt s"
  shows "case select_approved rt s i t k of
      Inr None \<Rightarrow> approved_at rt s i t k = {}
    | Inr (Some d) \<Rightarrow> approved_at rt s i t k = {d}
    | Inl e \<Rightarrow> bad_timestamp e"
proof -
  let ?f = "\<lambda>d. if rr_rule_id (rd_rule d) = i \<and> rule_is_approved (rd_rule d)
    then covers rt (rr_validity (rd_rule d)) t k else Inr False"
  let ?P = "\<lambda>d. rule_is_approved (rd_rule d) \<and> covers rt (rr_validity (rd_rule d)) t k = Inr True"
  have ok: "versions_ok rt i (versions_of s i)"
    using reachable_store_ok [OF assms] by (simp add: store_ok_def)
  have select: "select_approved rt s i t k = rbind (filter_res ?f (versions_of s i)) (\<lambda>matches. case matches of
      [] \<Rightarrow> Inr None | [d] \<Rightarrow> Inr (Some d) | _ \<Rightarrow> Inl ''ambiguous_bitemporal_replay'')"
    by (simp add: select_approved_def select_approved_rule_def versions_of_def)
  show ?thesis
  proof (cases "filter_res ?f (versions_of s i)")
    case (Inl e)
    from filter_res_Inl [OF this] have "bad_timestamp e" using covers_error by (auto split: if_splits)
    then show ?thesis by (simp add: select Inl)
  next
    case (Inr ds)
    have "ds = filter ?P (versions_of s i)"
      unfolding filter_res_Inr [OF Inr] using ok by (intro filter_cong) (auto simp: versions_ok_def)
    then have "length ds \<le> 1" and "approved_at rt s i t k = set ds"
      using covering_versions_single [OF ok] by (simp_all add: approved_at_def)
    then show ?thesis by (cases ds) (auto simp: select Inr)
  qed
qed

lemma command_canonical_iff:
  assumes "number_text_ok nt" and "all_finite (rd_json d)" and "all_finite (rd_json d')"
  shows "command_canonical nt key d = command_canonical nt key d' \<longleftrightarrow>
    normal_form (rd_json d) = normal_form (rd_json d')"
proof -
  have form: "normal_form (JObj [(''idempotency_key'', JStr key), (''rule'', v)]) =
      JObj [(''idempotency_key'', JStr key), (''rule'', normal_form v)]" for v
  proof -
    have "str_cmp ''idempotency_key'' ''rule'' \<le> 0" by code_simp
    then show ?thesis by (simp add: cmp_on_def)
  qed
  show ?thesis
    unfolding command_canonical_def
    by (subst canonicalize_same_iff [OF assms(1)]) (use assms(2,3) in \<open>simp_all add: form del: normal_form.simps\<close>)
qed

text \<open>An idempotency key stays bound to its first publication: repeating it, with the keys
  of the document in any order, returns the stored result and changes nothing; using it for
  a different document is refused.\<close>

theorem publication_is_idempotent:
  assumes "number_text_ok nt" and "publish rt nt (Publish key d) s = Inr (r, s')"
    and "all_finite (rd_json d)" and "all_finite (rd_json d')"
  shows "publish rt nt (Publish key d') s' =
    (if normal_form (rd_json d') = normal_form (rd_json d) then Inr (r, s')
     else Inl ''publication_idempotency_mismatch'')"
proof -
  obtain canonical where key: "key \<noteq> []" and c: "command_canonical nt key d = Inr canonical"
    and "om_get (vs_requests s) key = Some (canonical, r) \<and> s' = s \<or>
      om_get (vs_requests s) key = None \<and> publish_new rt key canonical d s = Inr (r, s')"
    using assms(2) by (rule publish_Inr) (auto simp: normalize_command_def)
  from this(3) have stored: "om_get (vs_requests s') key = Some (canonical, r)"
  proof
    assume "om_get (vs_requests s) key = None \<and> publish_new rt key canonical d s = Inr (r, s')"
    then have "publish_new rt key canonical d s = Inr (r, s')" ..
    from publish_new_Inr(1,2) [OF this] show ?thesis by (simp add: om_get_set)
  qed simp
  obtain canonical' where c': "command_canonical nt key d' = Inr canonical'"
    using assms(4) by (simp add: command_canonical_def canonicalize_normal_form)
  with c command_canonical_iff [OF assms(1,3,4), of key]
  have "canonical = canonical' \<longleftrightarrow> normal_form (rd_json d') = normal_form (rd_json d)" by auto
  with key c' stored show ?thesis
    by (simp add: publish_def normalize_command_def)
qed

text \<open>Publishing only appends: the versions of every rule stay as they were, in order, and
  at most the published document is added, to the rule it belongs to.\<close>

theorem publishing_appends:
  assumes "publish rt nt command s = Inr (r, s')"
  shows "versions_of s' i = versions_of s i \<or>
    i = rr_rule_id (rd_rule r) \<and> versions_of s' i = versions_of s i @ [r] \<and>
    (\<forall>v\<in>set (versions_of s i). rr_version (rd_rule v) \<noteq> rr_version (rd_rule r))"
  using assms
proof (rule publish_Inr)
  fix key d canonical
  assume "om_get (vs_requests s) key = Some (canonical, r) \<and> s' = s \<or>
    om_get (vs_requests s) key = None \<and> publish_new rt key canonical d s = Inr (r, s')"
  then show ?thesis
  proof
    assume "om_get (vs_requests s) key = None \<and> publish_new rt key canonical d s = Inr (r, s')"
    then have new: "publish_new rt key canonical d s = Inr (r, s')" ..
    from publish_new_Inr(1,4) [OF new] versions_of_published [OF new, of i] show ?thesis by auto
  qed simp
qed

section \<open>Evaluating every rule at once\<close>

lemma om_get_entry: "om_ok m \<Longrightarrow> p \<in> set m \<Longrightarrow> om_get m (fst p) = Some (snd p)"
  by (cases p) (simp add: om_ok_def)

lemma group_by_id_get:
  "default_to [] (om_get (group_by_id ds m) i) =
   default_to [] (om_get m i) @ filter (\<lambda>d. rr_rule_id (rd_rule d) = i) ds"
  by (induction ds arbitrary: m) (auto simp: om_get_set)

lemma group_by_id_ok: "om_ok m \<Longrightarrow> om_ok (group_by_id ds m)"
  by (induction ds arbitrary: m) (auto intro: om_ok_set)

lemma group_by_id_keys: "fst ` set (group_by_id ds m) = fst ` set m \<union> (rr_rule_id \<circ> rd_rule) ` set ds"
  by (induction ds arbitrary: m) (auto simp only: group_by_id.simps om_set_keys image_insert list.set comp_def)

text \<open>Grouping and then demanding one match per group is the identity up to order when no rule
  matches twice.\<close>

lemma single_matches:
  assumes "\<And>i. length (filter (\<lambda>d. rr_rule_id (rd_rule d) = i) ds) \<le> 1"
  obtains xs where "traverse single_match (group_by_id ds []) = Inr xs" and "set xs = set ds"
    and "distinct (map (rr_rule_id \<circ> rd_rule) xs)"
proof -
  let ?gs = "group_by_id ds []"
  have ok: "om_ok ?gs" by (simp add: group_by_id_ok)
  have group: "\<exists>d. snd p = [d] \<and> d \<in> set ds \<and> rr_rule_id (rd_rule d) = fst p" if "p \<in> set ?gs" for p
  proof -
    have "om_get ?gs (fst p) = Some (snd p)" by (rule om_get_entry [OF ok that])
    then have snd: "snd p = filter (\<lambda>d. rr_rule_id (rd_rule d) = fst p) ds"
      using group_by_id_get [of ds "[]" "fst p"] by simp
    have "fst p \<in> (rr_rule_id \<circ> rd_rule) ` set ds" using that group_by_id_keys [of ds "[]"] by auto
    then have "snd p \<noteq> []" unfolding snd by (auto simp: filter_empty_conv)
    moreover have "length (snd p) \<le> 1" unfolding snd by (rule assms)
    ultimately obtain d where "snd p = [d]" by (cases "snd p") auto
    then have "d \<in> set (filter (\<lambda>d. rr_rule_id (rd_rule d) = fst p) ds)" unfolding snd [symmetric] by simp
    with \<open>snd p = [d]\<close> show ?thesis by auto
  qed
  let ?xs = "map (hd \<circ> snd) ?gs"
  have trav: "traverse single_match ?gs = Inr ?xs"
    unfolding traverse_Inr_iff list_all2_map2
    by (rule list.rel_refl_strong) (use group in \<open>fastforce simp: single_match_def\<close>)
  have ids: "map (rr_rule_id \<circ> rd_rule) ?xs = map fst ?gs" using group by fastforce
  have "set ?xs = set ds"
  proof
    show "set ?xs \<subseteq> set ds" using group by fastforce
    show "set ds \<subseteq> set ?xs"
    proof
      fix d
      assume d: "d \<in> set ds"
      then have "rr_rule_id (rd_rule d) \<in> fst ` set ?gs" using group_by_id_keys [of ds "[]"] by auto
      then obtain p where p: "p \<in> set ?gs" "fst p = rr_rule_id (rd_rule d)" by auto
      have "om_get ?gs (fst p) = Some (snd p)" by (rule om_get_entry [OF ok p(1)])
      then have "d \<in> set (snd p)" using group_by_id_get [of ds "[]" "fst p"] d p by simp
      with group [OF p(1)] have "d = hd (snd p)" by auto
      with p(1) show "d \<in> set ?xs" by auto
    qed
  qed
  moreover have "distinct (map (rr_rule_id \<circ> rd_rule) ?xs)" unfolding ids using ok by (simp only: om_ok_def)
  ultimately show thesis by (rule that [OF trav])
qed

lemma versions_of_id:
  "om_ok m \<Longrightarrow> (\<forall>p\<in>set m. \<forall>d\<in>set (snd p). rr_rule_id (rd_rule d) = fst p) \<Longrightarrow>
   filter (\<lambda>d. rr_rule_id (rd_rule d) = i) (concat (map snd m)) = default_to [] (om_get m i)"
proof (induction m)
  case (Cons p m)
  have own: "filter (\<lambda>d. rr_rule_id (rd_rule d) = i) (snd p) = (if fst p = i then snd p else [])"
    using Cons.prems(2) by (auto simp: filter_id_conv filter_empty_conv)
  have "om_ok m" "fst p \<notin> fst ` set m" using Cons.prems(1) by (auto simp: om_ok_def)
  moreover from this have "fst p = i \<Longrightarrow> om_get m i = None" by (auto simp: map_of_eq_None_iff)
  ultimately show ?case using Cons by (cases p) (auto simp: own [simplified])
qed simp

lemma length_filter_sort_cmp: "length (filter P (sort_cmp c xs)) = length (filter P xs)"
proof -
  have "mset (filter P (sort_cmp c xs)) = mset (filter P xs)" by simp
  then show ?thesis by (rule mset_eq_length)
qed

text \<open>Evaluating all rules of a reachable store at one point selects exactly the approved
  versions that cover the point, at most one per rule, and fails only on a malformed
  timestamp.\<close>

theorem evaluation_selects_covering_versions:
  assumes "reachable_store rt nt s"
  shows "case select_rules_for_evaluation rt (all_versions rt s) t k EV_approved of
      Inl e \<Rightarrow> bad_timestamp e
    | Inr ds \<Rightarrow> set ds = (\<Union>i. approved_at rt s i t k) \<and> distinct (map (rr_rule_id \<circ> rd_rule) ds)"
proof -
  let ?f = "\<lambda>d. if admitted EV_approved (rd_rule d) then covers rt (rr_validity (rd_rule d)) t k else Inr False"
  let ?P = "\<lambda>d. rule_is_approved (rd_rule d) \<and> covers rt (rr_validity (rd_rule d)) t k = Inr True"
  have ok: "om_ok (vs_versions s)" "\<And>i. versions_ok rt i (versions_of s i)"
    using reachable_store_ok [OF assms] by (auto simp: store_ok_def)
  have entries: "versions_of s (fst p) = snd p" if "p \<in> set (vs_versions s)" for p
    using om_get_entry [OF ok(1) that] by (simp add: versions_of_def)
  then have "\<forall>p\<in>set (vs_versions s). \<forall>d\<in>set (snd p). rr_rule_id (rd_rule d) = fst p"
    using ok(2) unfolding versions_ok_def by metis
  note own = versions_of_id [OF ok(1) this, folded versions_of_def]
  have sel: "select_rules_for_evaluation rt (all_versions rt s) t k EV_approved =
      rbind (filter_res ?f (all_versions rt s)) (\<lambda>ms. rmap (sort_cmp (rule_order rt)) (traverse single_match (group_by_id ms [])))"
    by (simp add: select_rules_for_evaluation_def)
  show ?thesis
  proof (cases "filter_res ?f (all_versions rt s)")
    case (Inl e)
    from filter_res_Inl [OF this] have "bad_timestamp e" using covers_error by (auto split: if_splits)
    then show ?thesis by (simp add: sel Inl)
  next
    case (Inr ms)
    have ms: "ms = filter ?P (all_versions rt s)"
      unfolding filter_res_Inr [OF Inr] by (rule filter_cong) (auto simp: admitted_def)
    have "length (filter (\<lambda>d. rr_rule_id (rd_rule d) = i) ms) \<le> 1" for i
    proof -
      have "length (filter (\<lambda>d. rr_rule_id (rd_rule d) = i) ms) =
          length (filter ?P (filter (\<lambda>d. rr_rule_id (rd_rule d) = i) (concat (map snd (vs_versions s)))))"
        unfolding ms all_versions_def filter_filter length_filter_sort_cmp by (metis (lifting) conj_commute)
      then show ?thesis unfolding own using covering_versions_single [OF ok(2)] by simp
    qed
    then obtain xs where xs: "traverse single_match (group_by_id ms []) = Inr xs" "set xs = set ms"
      "distinct (map (rr_rule_id \<circ> rd_rule) xs)" by (rule single_matches)
    have "set (all_versions rt s) = (\<Union>i. set (versions_of s i))"
    proof
      show "set (all_versions rt s) \<subseteq> (\<Union>i. set (versions_of s i))"
        using entries by (fastforce simp: all_versions_def)
      show "(\<Union>i. set (versions_of s i)) \<subseteq> set (all_versions rt s)"
        unfolding own [symmetric] by (auto simp: all_versions_def)
    qed
    then have "set xs = (\<Union>i. approved_at rt s i t k)" unfolding xs(2) ms approved_at_def by auto
    moreover have "mset (map (rr_rule_id \<circ> rd_rule) (sort_cmp (rule_order rt) xs)) = mset (map (rr_rule_id \<circ> rd_rule) xs)"
      by simp
    then have "distinct (map (rr_rule_id \<circ> rd_rule) (sort_cmp (rule_order rt) xs))"
      using xs(3) mset_eq_imp_distinct_iff by blast
    ultimately show ?thesis by (simp add: sel Inr xs(1))
  qed
qed

section \<open>Samples\<close>

definition sample_document :: rule_document where
  "sample_document = \<lparr>rd_rule = sample_rule RU_published
     [\<lparr>re_mode = RV_expert_review, re_reviewer_id = ''r'', re_completed_at = [], re_decision = RD_approved, re_notes = []\<rparr>],
     rd_json = JNull\<rparr>"

lemma sample_publication:
  obtains s where "publish ref_rt sample_number_text (Publish ''k'' sample_document) empty_store = Inr (sample_document, s)"
    and "versions_of s ''rule'' = [sample_document]" and "reachable_store ref_rt sample_number_text s"
proof -
  have "\<exists>s. publish ref_rt sample_number_text (Publish ''k'' sample_document) empty_store = Inr (sample_document, s) \<and>
      versions_of s ''rule'' = [sample_document]"
    by (simp add: publish_def normalize_command_def command_canonical_def canonicalize_normal_form publish_new_def
      empty_store_def versions_of_def Let_def) (simp add: sample_document_def sample_rule_def)
  then obtain s where s: "publish ref_rt sample_number_text (Publish ''k'' sample_document) empty_store = Inr (sample_document, s)"
    "versions_of s ''rule'' = [sample_document]" by blast
  show thesis by (rule that [OF s published [OF initial s(1)]])
qed

lemma sample_covered:
  "covers ref_rt (rr_validity (rd_rule sample_document)) ''2025-02-01T00:00:00Z'' ''2025-02-01T00:00:00Z'' = Inr True"
  by code_simp

lemma sample_approved: "rule_is_approved (rd_rule sample_document)"
  by code_simp

lemma store_invariant_witness:
  "\<exists>s. reachable_store ref_rt sample_number_text s \<and> versions_of s ''rule'' = [sample_document] \<and>
     distinct (map (rr_version \<circ> rd_rule) (versions_of s ''rule''))"
proof (rule sample_publication)
  fix s
  assume s: "versions_of s ''rule'' = [sample_document]" "reachable_store ref_rt sample_number_text s"
  from store_invariant [OF s(2), of "''rule''"] s show ?thesis by blast
qed

lemma selection_refines_store_witness:
  "\<exists>s. reachable_store ref_rt sample_number_text s \<and>
     select_approved ref_rt s ''rule'' ''2025-02-01T00:00:00Z'' ''2025-02-01T00:00:00Z'' = Inr (Some sample_document)"
proof (rule sample_publication)
  fix s
  assume s: "versions_of s ''rule'' = [sample_document]" "reachable_store ref_rt sample_number_text s"
  have at_point: "approved_at ref_rt s ''rule'' ''2025-02-01T00:00:00Z'' ''2025-02-01T00:00:00Z'' = {sample_document}"
    using s(1) sample_covered sample_approved by (auto simp: approved_at_def)
  have "select_approved ref_rt s ''rule'' ''2025-02-01T00:00:00Z'' ''2025-02-01T00:00:00Z'' = Inr (Some sample_document)"
    using selection_refines_store [OF s(2), of "''rule''" "''2025-02-01T00:00:00Z''" "''2025-02-01T00:00:00Z''"] at_point
      s(1) sample_covered sample_approved
    by (simp add: select_approved_def select_approved_rule_def versions_of_def [symmetric])
      (simp add: sample_document_def sample_rule_def)
  with s(2) show ?thesis by blast
qed

lemma evaluation_selects_covering_versions_witness:
  "\<exists>s. reachable_store ref_rt sample_number_text s \<and>
     (case select_rules_for_evaluation ref_rt (all_versions ref_rt s) ''2025-02-01T00:00:00Z'' ''2025-02-01T00:00:00Z'' EV_approved of
        Inl e \<Rightarrow> bad_timestamp e | Inr ds \<Rightarrow> sample_document \<in> set ds)"
proof (rule sample_publication)
  fix s
  assume s: "versions_of s ''rule'' = [sample_document]" "reachable_store ref_rt sample_number_text s"
  then have "sample_document \<in> (\<Union>i. approved_at ref_rt s i ''2025-02-01T00:00:00Z'' ''2025-02-01T00:00:00Z'')"
    using sample_covered sample_approved by (auto simp: approved_at_def intro!: exI [of _ "''rule''"])
  with evaluation_selects_covering_versions [OF s(2), of "''2025-02-01T00:00:00Z''" "''2025-02-01T00:00:00Z''"] s(2)
  show ?thesis by (intro exI [of _ s]) (auto simp del: UN_iff split: sum.splits)
qed

lemma publication_is_idempotent_witness:
  "\<exists>s. publish ref_rt sample_number_text (Publish ''k'' (sample_document\<lparr>rd_json := JBool True\<rparr>)) s =
     Inl ''publication_idempotency_mismatch''"
proof (rule sample_publication)
  fix s
  assume s: "publish ref_rt sample_number_text (Publish ''k'' sample_document) empty_store = Inr (sample_document, s)"
  from publication_is_idempotent [OF sample_number_text_ok s, of "sample_document\<lparr>rd_json := JBool True\<rparr>"]
  show ?thesis by (auto simp: sample_document_def)
qed

lemma publishing_appends_witness:
  "\<exists>s. versions_of s ''rule'' = versions_of empty_store ''rule'' @ [sample_document]"
proof (rule sample_publication)
  fix s
  assume s: "publish ref_rt sample_number_text (Publish ''k'' sample_document) empty_store = Inr (sample_document, s)"
    "versions_of s ''rule'' = [sample_document]"
  from publishing_appends [OF s(1), of "''rule''"] s(2) show ?thesis
    by (auto simp: versions_of_def empty_store_def)
qed

lemma rectangles_overlap_iff_witness:
  "let v = rr_validity (rd_rule sample_document)
   in rectangles_overlap ref_rt v (v\<lparr>va_valid_from := ''2024-01-01T00:00:00Z'', va_valid_to := Some ''2025-01-01T00:00:00Z''\<rparr>) = Inr False"
proof -
  let ?v = "rr_validity (rd_rule sample_document)"
  let ?w = "?v\<lparr>va_valid_from := ''2024-01-01T00:00:00Z'', va_valid_to := Some ''2025-01-01T00:00:00Z''\<rparr>"
  have dates: "read_instant ''2025-01-01T00:00:00Z'' = Some 1735689600000" "read_instant ''2024-01-01T00:00:00Z'' = Some 1704067200000"
    by code_simp+
  have v: "va_valid_from ?v = ''2025-01-01T00:00:00Z''" "va_valid_to ?v = None"
    "va_recorded_at ?v = ''2025-01-01T00:00:00Z''" "va_superseded_at ?v = None"
    by (simp_all add: sample_document_def sample_rule_def)
  note inst = instants_def parse_time_def end_time_def before_end_def
  have "instants ref_rt (va_valid_from ?v) (va_valid_to ?v) = Inr {t. 1735689600000 \<le> t}"
    "instants ref_rt (va_recorded_at ?v) (va_superseded_at ?v) = Inr {t. 1735689600000 \<le> t}"
    "instants ref_rt (va_valid_from ?w) (va_valid_to ?w) = Inr {t. 1704067200000 \<le> t \<and> t < 1735689600000}"
    "instants ref_rt (va_recorded_at ?w) (va_superseded_at ?w) = Inr {t. 1735689600000 \<le> t}"
    by (simp_all add: v inst dates)
  moreover have "{t :: int. 1735689600000 \<le> t} \<noteq> {}" "{t :: int. 1704067200000 \<le> t \<and> t < 1735689600000} \<noteq> {}"
    by (auto intro: exI [of _ 1704067200000])
  ultimately have "rectangles_overlap ref_rt ?v ?w = Inr (({t. 1735689600000 \<le> t} \<times> {t. 1735689600000 \<le> t}) \<inter>
      ({t. 1704067200000 \<le> t \<and> t < 1735689600000} \<times> {t. 1735689600000 \<le> t}) \<noteq> ({} :: (int \<times> int) set))"
    by (intro rectangles_overlap_iff)
  then show ?thesis by (auto simp: Let_def)
qed

end
