(* ===== verification/Uncertainty.thy ===== *)
theory Uncertainty
  imports Reference_Runtime EngineMath
begin

text \<open>
  Choosing a plan when facts are unknown (\<open>packages/rule-engine/src/m1b-uncertainty.ts\<close>):
  guaranteed value is separated from probabilistic value, every explicitly given state is
  ranked by ranges, and a winner is definite only when it wins in all of them.

  A pair of fields that are aliases (\<open>value_jpy ?? valueJpy ?? value\<close>) is one field here,
  the first that is present.  A \<open>JpyRange\<close> keeps canonical decimal texts that the code
  reads back with \<open>numeric\<close>; the model keeps the numbers.  Turning the value of an
  assignment into text (\<open>String(v)\<close>, \<open>JSON.stringify(v)\<close>) is a pair of arguments.
\<close>

section \<open>Probabilistic components\<close>

datatype probability_policy =
  PO_guaranteed_only | PO_expected_if_official_probability | PO_include_user_estimate | PO_custom string

record probabilistic_component =
  uc_value :: "decimal_input option"
  uc_sign :: "string option"
  uc_certainty :: "string option"
  uc_probability :: "decimal_input option"
  uc_probability_source :: "string option"
  uc_rule_id :: "string option"
  uc_component_id :: "string option"

record probability_separation =
  us_guaranteed :: rat
  us_probabilistic :: rat
  us_included :: "string list"
  us_excluded :: "string list"
  us_reasons :: "(string, string) omap"

definition numeric :: "runtime \<Rightarrow> decimal_input \<Rightarrow> rat res" where
  "numeric rt value =
     (case value of
        DStr t \<Rightarrow>
          (case rt_parse rt t of
             DecThrow \<Rightarrow> Inl (''[DecimalError] Invalid argument: '' @ t)
           | DecNonFinite _ \<Rightarrow> Inl ''invalid_uncertainty_number''
           | DecFinite _ q \<Rightarrow> Inr q)
      | DNum n \<Rightarrow> if \<not> is_safe_integer n then Inl ''binary_number_not_allowed'' else Inr (of_int (number_int n))
      | DBig n \<Rightarrow> Inr (of_int n))"

definition signed_value :: "runtime \<Rightarrow> probabilistic_component \<Rightarrow> rat res" where
  "signed_value rt c =
     rmap (\<lambda>v. if uc_sign c = Some ''debit'' \<or> uc_sign c = Some ''negative'' then - v else v)
       (numeric rt (default_to (DNum (num 0)) (uc_value c)))"

definition component_id_at :: "probabilistic_component \<Rightarrow> nat \<Rightarrow> string" where
  "component_id_at c i = default_to (''component_'' @ nat_text i) (orelse (uc_component_id c) (uc_rule_id c))"

definition certainty_of :: "probabilistic_component \<Rightarrow> string" where
  "certainty_of c = default_to ''guaranteed'' (uc_certainty c)"

text \<open>\<open>Inl\<close> a reason for exclusion (\<open>None\<close>: no reason given), \<open>Inr\<close> the probability.\<close>

definition probability_allowed ::
    "runtime \<Rightarrow> probabilistic_component \<Rightarrow> probability_policy \<Rightarrow> (string option + rat) res" where
  "probability_allowed rt c policy =
     (if certainty_of c \<noteq> ''probabilistic'' then Inr (Inl None)
      else case uc_probability_source c of
        None \<Rightarrow> Inr (Inl (Some ''probability_not_supported''))
      | Some source \<Rightarrow>
          if source = ''undisclosed'' then Inr (Inl (Some ''probability_not_supported''))
          else if policy = PO_guaranteed_only then Inr (Inl (Some ''guaranteed_objective_excludes_probability''))
          else if policy = PO_expected_if_official_probability \<and> source \<noteq> ''official_disclosed''
            then Inr (Inl (Some ''probability_source_not_official''))
          else if policy = PO_include_user_estimate \<and> source \<noteq> ''official_disclosed'' \<and> source \<noteq> ''historical_estimate''
            then Inr (Inl (Some ''probability_source_not_supported''))
          else case uc_probability c of
            None \<Rightarrow> Inr (Inl (Some ''probability_missing''))
          | Some p \<Rightarrow> rmap (\<lambda>q. if q < 0 \<or> 1 < q then Inl (Some ''probability_out_of_range'') else Inr q) (numeric rt p))"

fun separate_from ::
    "runtime \<Rightarrow> probability_policy \<Rightarrow> nat \<Rightarrow> probabilistic_component list \<Rightarrow> probability_separation \<Rightarrow>
     probability_separation res" where
  "separate_from rt policy i [] s = Inr s"
| "separate_from rt policy i (c # cs) s =
     rbind (signed_value rt c) (\<lambda>value.
       if certainty_of c = ''guaranteed'' then
         separate_from rt policy (Suc i) cs (s\<lparr>us_guaranteed := dadd rt (us_guaranteed s) value\<rparr>)
       else rbind (probability_allowed rt c policy) (\<lambda>allowed. case allowed of
           Inl reason \<Rightarrow> separate_from rt policy (Suc i) cs
             (s\<lparr>us_excluded := us_excluded s @ [component_id_at c i],
                us_reasons := om_set (component_id_at c i) (default_to ''probability_not_supported'' reason) (us_reasons s)\<rparr>)
         | Inr p \<Rightarrow> separate_from rt policy (Suc i) cs
             (s\<lparr>us_probabilistic := dadd rt (us_probabilistic s) (dmul rt value p),
                us_included := us_included s @ [component_id_at c i]\<rparr>)))"

definition separate_components ::
    "runtime \<Rightarrow> probabilistic_component list \<Rightarrow> probability_policy \<Rightarrow> probability_separation res" where
  "separate_components rt cs policy =
     rmap (\<lambda>s. s\<lparr>us_included := js_sort (us_included s), us_excluded := js_sort (us_excluded s)\<rparr>)
       (separate_from rt policy 0 cs
         \<lparr>us_guaranteed = 0, us_probabilistic = 0, us_included = [], us_excluded = [], us_reasons = []\<rparr>)"

definition expected_value :: "runtime \<Rightarrow> probability_separation \<Rightarrow> rat" where
  "expected_value rt s = dadd rt (us_guaranteed s) (us_probabilistic s)"

section \<open>Ranges\<close>

record jpy_range =
  jr_min :: rat
  jr_max :: rat
  jr_expected :: "rat option"

definition exact_range :: "rat \<Rightarrow> jpy_range" where
  "exact_range q = \<lparr>jr_min = q, jr_max = q, jr_expected = Some q\<rparr>"

definition range_value :: "rat \<Rightarrow> rat \<Rightarrow> rat option \<Rightarrow> jpy_range" where
  "range_value lo hi expected =
     (let low = min lo hi; high = max lo hi
      in \<lparr>jr_min = low, jr_max = high, jr_expected = map_option (\<lambda>e. max low (min high e)) expected\<rparr>)"

datatype plan_value =
  PV_number decimal_input
| PV_state (pv_value: "plan_value option") (pv_guaranteed: "plan_value option") (pv_expected: "plan_value option")
    (pv_minimum: "decimal_input option") (pv_maximum: "decimal_input option") (pv_expected_jpy: "decimal_input option")
    (pv_eligible: "bool option") (pv_components: "probabilistic_component list option") (pv_conditions: "string list")

text \<open>\<open>numeric(minimum ?? maximum ?? 0)\<close>.\<close>

definition either_bound :: "decimal_input option \<Rightarrow> decimal_input option \<Rightarrow> decimal_input" where
  "either_bound a b = default_to (DNum (num 0)) (orelse a b)"

function parse_range :: "runtime \<Rightarrow> plan_value \<Rightarrow> jpy_range res" where
  "parse_range rt (PV_number n) = rmap exact_range (numeric rt n)"
| "parse_range rt (PV_state v g e mn mx ex el cs conds) =
     (if mn \<noteq> None \<or> mx \<noteq> None then
        rbind (numeric rt (either_bound mn mx)) (\<lambda>low.
        rbind (numeric rt (either_bound mx mn)) (\<lambda>high.
          case ex of None \<Rightarrow> Inr (range_value low high None)
          | Some x \<Rightarrow> rmap (\<lambda>q. range_value low high (Some q)) (numeric rt x)))
      else case v of
        Some d \<Rightarrow> parse_range rt d
      | None \<Rightarrow> (case g of Some d \<Rightarrow> parse_range rt d | None \<Rightarrow> Inr (exact_range 0)))"
  by pat_completeness auto
termination by (relation "measure (\<lambda>(_, v). size v)") auto

record evaluated_plan =
  ep_guaranteed :: jpy_range
  ep_expected :: jpy_range
  ep_eligible :: bool
  ep_conditions :: "string list"

definition expected_or_zero :: "jpy_range \<Rightarrow> rat" where
  "expected_or_zero r = default_to 0 (jr_expected r)"

definition plan_value_of :: "runtime \<Rightarrow> plan_value \<Rightarrow> probability_policy \<Rightarrow> evaluated_plan res" where
  "plan_value_of rt input policy =
     (case input of
        PV_number n \<Rightarrow> rmap (\<lambda>r. \<lparr>ep_guaranteed = r, ep_expected = r, ep_eligible = True, ep_conditions = []\<rparr>)
          (parse_range rt input)
      | PV_state v g e mn mx ex el cs conds \<Rightarrow>
          let base = orelse g v
          in rbind (parse_range rt (default_to input base)) (\<lambda>guaranteed.
             rbind (parse_range rt (default_to input (orelse e base))) (\<lambda>expected.
             let result = (\<lambda>a b. \<lparr>ep_guaranteed = a, ep_expected = b, ep_eligible = (el \<noteq> Some False),
                   ep_conditions = js_sort conds\<rparr>)
             in case default_to [] cs of
                  [] \<Rightarrow> Inr (result guaranteed expected)
                | c # rest \<Rightarrow>
                    rbind (separate_components rt (c # rest) policy) (\<lambda>s.
                    rbind (case base of None \<Rightarrow> Inr 0 | Some b \<Rightarrow> rmap expected_or_zero (parse_range rt b)) (\<lambda>q.
                      Inr (result (exact_range (dadd rt q (us_guaranteed s)))
                        (exact_range (dadd rt q (expected_value rt s)))))))))"

section \<open>States\<close>

record feasible_state =
  fs_state_id :: "string option"
  fs_assignments :: "(string \<times> json) list"
  fs_unknown_keys :: "string list"
  fs_conditions :: "string list"
  fs_questions :: "(string \<times> string) list"
  fs_plans :: "(string \<times> plan_value) list"

record feasible_plan_state =
  fq_state_id :: "string option"
  fq_value :: "plan_value option"
  fq_guaranteed :: "plan_value option"
  fq_expected :: "plan_value option"
  fq_eligible :: "bool option"
  fq_conditions :: "string list"

record feasible_plan =
  fp_plan_id :: "string option"
  fp_values :: "(string \<times> plan_value) list"
  fp_states :: "feasible_plan_state list"
  fp_value :: "plan_value option"
  fp_guaranteed :: "plan_value option"

record feasible_input =
  fe_states :: "feasible_state list option"
  fe_plans :: "feasible_plan list"
  fe_objective :: "string option"
  fe_policy :: "probability_policy option"
  fe_questions :: "(string \<times> string) list"

definition state_id_at :: "feasible_state \<Rightarrow> nat \<Rightarrow> string" where
  "state_id_at s i = default_to (''state_'' @ nat_text i) (fs_state_id s)"

definition plan_id_at :: "feasible_plan \<Rightarrow> nat \<Rightarrow> string" where
  "plan_id_at p i = default_to (''plan_'' @ nat_text i) (fp_plan_id p)"

definition state_condition_strings ::
    "runtime \<Rightarrow> (json \<Rightarrow> string) \<Rightarrow> feasible_state \<Rightarrow> string list" where
  "state_condition_strings rt text_of s =
     unique (fs_conditions s @ map (\<lambda>(k, v). k @ ''='' @ text_of v)
       (sort_cmp (cmp_on fst (rt_locale_compare rt)) (fs_assignments s)))"

record plan_row =
  rw_plan_id :: string
  rw_range :: jpy_range
  rw_eligible :: bool

definition eligible_rows :: "plan_row list \<Rightarrow> plan_row list" where
  "eligible_rows rows = filter rw_eligible rows"

definition robust_winner :: "plan_row list \<Rightarrow> string option" where
  "robust_winner rows =
     (let eligible = eligible_rows rows;
          robust = filter (\<lambda>c. list_all (\<lambda>r. rw_plan_id r = rw_plan_id c \<or> jr_max (rw_range r) < jr_min (rw_range c))
            eligible) eligible
      in case robust of [c] \<Rightarrow> Some (rw_plan_id c) | _ \<Rightarrow> None)"

definition possible_winners :: "plan_row list \<Rightarrow> string list" where
  "possible_winners rows =
     (let eligible = eligible_rows rows
      in js_sort (map rw_plan_id (filter (\<lambda>c. list_all (\<lambda>r. rw_plan_id r = rw_plan_id c \<or>
        jr_min (rw_range r) \<le> jr_max (rw_range c)) eligible) eligible)))"

definition aggregate_ranges :: "jpy_range list \<Rightarrow> jpy_range" where
  "aggregate_ranges rs =
     (case rs of
        [] \<Rightarrow> exact_range 0
      | r # _ \<Rightarrow>
          let expected = map (the \<circ> jr_expected) (filter (\<lambda>x. jr_expected x \<noteq> None) rs)
          in range_value (foldl min (jr_min r) (map jr_min rs)) (foldl max (jr_max r) (map jr_max rs))
               (if length expected = length rs \<and> length (unique expected) = 1 then Some (hd expected) else None))"

text \<open>The states given through the plans.\<close>

definition plan_in_state :: "string \<Rightarrow> nat \<Rightarrow> feasible_plan \<Rightarrow> (string \<times> plan_value) option" where
  "plan_in_state sid i p =
     (case find (\<lambda>q. fq_state_id q = Some sid) (fp_states p) of
        Some q \<Rightarrow> Some (plan_id_at p i, PV_state (fq_value q) (fq_guaranteed q) (fq_expected q) None None None
          (fq_eligible q) None (fq_conditions q))
      | None \<Rightarrow> map_option (Pair (plan_id_at p i)) (map_of (fp_values p) sid))"

definition states_from_plans :: "feasible_plan list \<Rightarrow> feasible_state list" where
  "states_from_plans plans =
     (let ids = unique (concat (map (\<lambda>p. map (\<lambda>q. default_to ''state_0'' (fq_state_id q)) (fp_states p) @
            map fst (fp_values p)) plans));
          make = (\<lambda>sid conds values. \<lparr>fs_state_id = Some sid, fs_assignments = [], fs_unknown_keys = [],
            fs_conditions = conds, fs_questions = [], fs_plans = values\<rparr>)
      in if ids = [] then
           [make ''state_0'' [''only_explicit_state_available'']
             (fold (\<lambda>(i, p). om_set (plan_id_at p i)
                (default_to (PV_number (DNum (num 0))) (orelse (fp_value p) (fp_guaranteed p))))
              (enumerate 0 plans) [])]
         else map (\<lambda>sid. make sid [] (fold (\<lambda>(i, p) m. case plan_in_state sid i p of
              None \<Rightarrow> m | Some (k, v) \<Rightarrow> om_set k v m) (enumerate 0 plans) [])) (js_sort ids))"

section \<open>Evaluation\<close>

record state_ranking =
  rk_state_id :: string
  rk_winner :: "string option"
  rk_possible :: "string list"
  rk_eligible :: "string list"
  rk_rankings :: "(string \<times> jpy_range \<times> bool) list"
  rk_conditions :: "string list"
  rk_assignments :: "(string \<times> json) list"

record plan_summary =
  sy_plan_id :: string
  sy_range :: jpy_range
  sy_possible_winner :: bool
  sy_state_ids :: "string list"
  sy_eligible_all :: bool
  sy_guaranteed_worst :: "rat option"
  sy_expected_worst :: "rat option"

record conditional_winner =
  cw_plan_id :: string
  cw_conditions :: "string list"
  cw_range :: jpy_range

record resolution_question =
  rq_fact_key :: string
  rq_question :: string
  rq_could_change_winner :: bool

datatype outcome_mode = OM_definite | OM_conditional | OM_no_valid_plan

record feasible_result =
  fr_mode :: outcome_mode
  fr_definite :: "string option"
  fr_safe :: "string option"
  fr_runner_up :: "string option"
  fr_conditional :: "conditional_winner list"
  fr_questions :: "resolution_question list"
  fr_states :: "state_ranking list"
  fr_summaries :: "plan_summary list"
  fr_warnings :: "string list"
  fr_guaranteed_ranking :: "string list"
  fr_expected_ranking :: "string list"

type_synonym plan_table = "(string, (string, evaluated_plan) omap) omap"

definition includes_text :: "string \<Rightarrow> string \<Rightarrow> bool" where
  "includes_text s sub \<longleftrightarrow> list_ex (\<lambda>i. take (length sub) (drop i s) = sub) [0..<Suc (length s)]"

definition objective_expected :: "feasible_input \<Rightarrow> bool" where
  "objective_expected input = includes_text (default_to ''maximize_guaranteed'' (fe_objective input)) ''expected''"

definition chosen_range :: "bool \<Rightarrow> evaluated_plan \<Rightarrow> jpy_range" where
  "chosen_range by_expected p = (if by_expected then ep_expected p else ep_guaranteed p)"

definition evaluated_plans ::
    "runtime \<Rightarrow> probability_policy \<Rightarrow> feasible_state \<Rightarrow> (string \<times> evaluated_plan) list res" where
  "evaluated_plans rt policy s =
     traverse (\<lambda>(i, v). rmap (Pair i) (plan_value_of rt v policy))
       (sort_cmp (cmp_on fst (rt_locale_compare rt)) (fs_plans s))"

definition objective_rows :: "bool \<Rightarrow> (string \<times> evaluated_plan) list \<Rightarrow> plan_row list" where
  "objective_rows by_expected ps =
     map (\<lambda>(i, p). \<lparr>rw_plan_id = i, rw_range = chosen_range by_expected p, rw_eligible = ep_eligible p\<rparr>) ps"

definition ranking_of ::
    "runtime \<Rightarrow> (json \<Rightarrow> string) \<Rightarrow> bool \<Rightarrow> feasible_state \<Rightarrow> string \<Rightarrow> (string \<times> evaluated_plan) list \<Rightarrow> state_ranking" where
  "ranking_of rt text_of by_expected s sid ps =
     (let rows = objective_rows by_expected ps; robust = robust_winner rows
      in \<lparr>rk_state_id = sid, rk_winner = robust, rk_possible = possible_winners rows,
          rk_eligible = js_sort (map rw_plan_id (eligible_rows rows)),
          rk_rankings = map (\<lambda>r. (rw_plan_id r, rw_range r, Some (rw_plan_id r) = robust))
            (sort_cmp (cmp_then (\<lambda>l r. rat_cmp (jr_max (rw_range r)) (jr_max (rw_range l)))
              (cmp_on rw_plan_id (rt_locale_compare rt))) rows),
          rk_conditions = js_sort (unique (state_condition_strings rt text_of s @ concat (map (ep_conditions \<circ> snd) ps))),
          rk_assignments = fs_assignments s\<rparr>)"

definition record_plan :: "string \<Rightarrow> string \<times> evaluated_plan \<Rightarrow> plan_table \<Rightarrow> plan_table" where
  "record_plan sid row table =
     om_set (fst row) (om_set sid (snd row) (default_to [] (om_get table (fst row)))) table"

fun evaluate_states ::
    "runtime \<Rightarrow> (json \<Rightarrow> string) \<Rightarrow> bool \<Rightarrow> probability_policy \<Rightarrow> nat \<Rightarrow> feasible_state list \<Rightarrow> plan_table \<Rightarrow>
     (state_ranking list \<times> plan_table) res" where
  "evaluate_states rt text_of by_expected policy i [] table = Inr ([], table)"
| "evaluate_states rt text_of by_expected policy i (s # ss) table =
     rbind (evaluated_plans rt policy s) (\<lambda>ps.
     rbind (evaluate_states rt text_of by_expected policy (Suc i) ss
         (fold (record_plan (state_id_at s i)) ps table)) (\<lambda>(rankings, table').
       Inr (ranking_of rt text_of by_expected s (state_id_at s i) ps # rankings, table')))"

definition summary_of :: "bool \<Rightarrow> state_ranking list \<Rightarrow> plan_table \<Rightarrow> string \<Rightarrow> plan_summary" where
  "summary_of by_expected rankings table i =
     (let entries = default_to [] (om_get table i); values = map snd entries; selected = map (chosen_range by_expected) values;
          worst = (\<lambda>rs. case map jr_min rs of [] \<Rightarrow> None | m # ms \<Rightarrow> Some (foldl min m (m # ms)))
      in \<lparr>sy_plan_id = i, sy_range = aggregate_ranges selected,
          sy_possible_winner = list_ex (\<lambda>r. i \<in> set (rk_possible r)) rankings,
          sy_state_ids = js_sort (map fst entries),
          sy_eligible_all = (length values = length rankings \<and> list_all ep_eligible values),
          sy_guaranteed_worst = worst (map ep_guaranteed values), sy_expected_worst = worst selected\<rparr>)"

definition conditional_winner_of :: "bool \<Rightarrow> state_ranking list \<Rightarrow> plan_table \<Rightarrow> string \<Rightarrow> conditional_winner" where
  "conditional_winner_of by_expected rankings table i =
     (let ids = map rk_state_id (filter (\<lambda>r. i \<in> set (rk_possible r)) rankings)
      in \<lparr>cw_plan_id = i,
          cw_conditions = js_sort (unique (concat (map rk_conditions (filter (\<lambda>r. rk_state_id r \<in> set ids) rankings)))),
          cw_range = aggregate_ranges (map (chosen_range by_expected)
            (concat (map (\<lambda>s. case om_get (default_to [] (om_get table i)) s of None \<Rightarrow> [] | Some v \<Rightarrow> [v]) ids)))\<rparr>)"

definition question_for :: "string \<Rightarrow> feasible_state list \<Rightarrow> feasible_input \<Rightarrow> string" where
  "question_for key states input =
     (case filter (\<lambda>q. q \<noteq> []) (concat (map (\<lambda>s. case map_of (fs_questions s) key of None \<Rightarrow> [] | Some q \<Rightarrow> [q]) states)) of
        q # _ \<Rightarrow> q
      | [] \<Rightarrow> (case map_of (fe_questions input) key of
          Some (c # cs) \<Rightarrow> c # cs | _ \<Rightarrow> ''What is the value of '' @ key @ ''?''))"

definition worst_order :: "runtime \<Rightarrow> plan_summary \<Rightarrow> plan_summary \<Rightarrow> int" where
  "worst_order rt = cmp_then (\<lambda>l r. rat_cmp (the (sy_guaranteed_worst r)) (the (sy_guaranteed_worst l)))
     (cmp_on sy_plan_id (rt_locale_compare rt))"

definition ranking_by_worst :: "runtime \<Rightarrow> plan_summary list \<Rightarrow> plan_summary list" where
  "ranking_by_worst rt summaries =
     sort_cmp (worst_order rt) (filter (\<lambda>s. sy_guaranteed_worst s \<noteq> None \<and> sy_eligible_all s) summaries)"

definition rank_by :: "runtime \<Rightarrow> (plan_summary \<Rightarrow> rat) \<Rightarrow> plan_summary list \<Rightarrow> string list" where
  "rank_by rt key summaries = map sy_plan_id
     (sort_cmp (cmp_then (\<lambda>l r. rat_cmp (key r) (key l)) (cmp_on sy_plan_id (rt_locale_compare rt))) summaries)"

text \<open>A plan id that is absent or empty counts as no id.\<close>

definition falsy_id :: "string option \<Rightarrow> bool" where
  "falsy_id t \<longleftrightarrow> t = None \<or> t = Some []"

definition definite_winner :: "state_ranking list \<Rightarrow> string option" where
  "definite_winner rankings =
     (case rankings of
        [] \<Rightarrow> None
      | r # _ \<Rightarrow> if list_all (\<lambda>x. rk_winner x \<noteq> None) rankings \<and>
            length (unique (map (the \<circ> rk_winner) rankings)) = 1 then rk_winner r else None)"

definition resolution_questions ::
    "(json \<Rightarrow> string) \<Rightarrow> feasible_input \<Rightarrow> feasible_state list \<Rightarrow> state_ranking list \<Rightarrow> resolution_question list" where
  "resolution_questions stringify input states rankings =
     (let keys = js_sort (unique (concat (map (\<lambda>s. fs_unknown_keys s @ map fst (fs_assignments s)) states)));
          asked = (\<lambda>key.
            (1 < length (unique (map (\<lambda>s. map_option stringify (map_of (fs_assignments s) key)) states)) \<or>
              list_ex (\<lambda>s. key \<in> set (fs_unknown_keys s)) states) \<and>
            (1 < length (unique (map (\<lambda>r. join_with '','' (rk_possible r)) rankings)) \<or>
              falsy_id (definite_winner rankings)))
      in map (\<lambda>key. \<lparr>rq_fact_key = key, rq_question = question_for key states input, rq_could_change_winner = True\<rparr>)
           (filter asked keys))"

definition input_states :: "feasible_input \<Rightarrow> feasible_state list" where
  "input_states input = (case fe_states input of Some ss \<Rightarrow> ss | None \<Rightarrow> states_from_plans (fe_plans input))"

definition input_policy :: "feasible_input \<Rightarrow> probability_policy" where
  "input_policy input = default_to PO_guaranteed_only (fe_policy input)"

definition evaluate_feasible_states ::
    "runtime \<Rightarrow> (json \<Rightarrow> string) \<Rightarrow> (json \<Rightarrow> string) \<Rightarrow> feasible_input \<Rightarrow> feasible_result res" where
  "evaluate_feasible_states rt text_of stringify input =
     (let by_expected = objective_expected input; states = input_states input
      in rbind (evaluate_states rt text_of by_expected (input_policy input) 0 states []) (\<lambda>(rankings, table).
         let definite = definite_winner rankings;
             summaries = map (summary_of by_expected rankings table) (js_sort (map fst table));
             ranked = ranking_by_worst rt summaries
         in Inr \<lparr>fr_mode = (if list_all (\<lambda>r. rk_eligible r = []) rankings then OM_no_valid_plan
                 else if \<not> falsy_id definite then OM_definite else OM_conditional),
              fr_definite = definite, fr_safe = (case ranked of [] \<Rightarrow> None | s # _ \<Rightarrow> Some (sy_plan_id s)),
              fr_runner_up = (case ranked of _ # s # _ \<Rightarrow> Some (sy_plan_id s) | _ \<Rightarrow> None),
              fr_conditional = (if \<not> falsy_id definite then []
                else map (conditional_winner_of by_expected rankings table)
                  (js_sort (unique (concat (map rk_possible rankings))))),
              fr_questions = resolution_questions stringify input states rankings,
              fr_states = rankings, fr_summaries = summaries,
              fr_warnings = (if fe_states input = None then [''only_explicit_feasible_states_are_evaluated''] else []),
              fr_guaranteed_ranking = rank_by rt (\<lambda>s. jr_min (sy_range s)) summaries,
              fr_expected_ranking = rank_by rt (\<lambda>s. default_to (jr_max (sy_range s)) (jr_expected (sy_range s))) summaries\<rparr>))"

definition rank_guaranteed_plans :: "runtime \<Rightarrow> feasible_plan list \<Rightarrow> (string \<times> rat \<times> nat) list res" where
  "rank_guaranteed_plans rt plans =
     rmap (\<lambda>ps. map (\<lambda>(i, k, q). (k, q, i))
         (enumerate 1 (sort_cmp (cmp_then (\<lambda>l r. rat_cmp (snd r) (snd l)) (cmp_on fst (rt_locale_compare rt))) ps)))
       (traverse (\<lambda>(i, p). rmap (\<lambda>r. (plan_id_at p i, jr_min r))
           (parse_range rt (default_to (PV_number (DNum (num 0))) (orelse (fp_guaranteed p) (fp_value p)))))
         (enumerate 0 plans))"

section \<open>Ranges are intervals\<close>

definition range_ok :: "jpy_range \<Rightarrow> bool" where
  "range_ok r \<longleftrightarrow> jr_min r \<le> jr_max r \<and> (\<forall>e\<in>set_option (jr_expected r). jr_min r \<le> e \<and> e \<le> jr_max r)"

lemma range_ok_exact [simp, intro]: "range_ok (exact_range q)"
  by (simp add: range_ok_def exact_range_def)

lemma range_ok_value [simp, intro]: "range_ok (range_value lo hi e)"
  by (cases e) (auto simp: range_ok_def range_value_def Let_def)

lemma parse_range_ok: "parse_range rt v = Inr r \<Longrightarrow> range_ok r"
  by (induction rt v arbitrary: r rule: parse_range.induct)
     (auto simp: res_simps split: if_splits option.splits)

definition plan_ok :: "evaluated_plan \<Rightarrow> bool" where
  "plan_ok p \<longleftrightarrow> range_ok (ep_guaranteed p) \<and> range_ok (ep_expected p)"

lemma plan_value_of_ok:
  assumes "plan_value_of rt v policy = Inr p"
  shows "plan_ok p"
proof (cases v)
  case (PV_number n)
  with assms show ?thesis
    unfolding plan_value_of_def plan_ok_def
    by (auto simp: res_simps intro: parse_range_ok simp del: parse_range.simps)
next
  case (PV_state d g e mn mx ex el cs conds)
  show ?thesis
  proof (cases "default_to [] cs")
    case Nil
    with assms PV_state show ?thesis
      unfolding plan_value_of_def plan_ok_def
      by (auto simp: res_simps Let_def intro: parse_range_ok simp del: parse_range.simps)
  next
    case (Cons c rest)
    with assms PV_state show ?thesis
      unfolding plan_value_of_def plan_ok_def
      by (auto simp: res_simps Let_def simp del: parse_range.simps)
  qed
qed

lemma plan_ok_chosen: "plan_ok p \<Longrightarrow> jr_min (chosen_range b p) \<le> jr_max (chosen_range b p)"
  by (simp add: plan_ok_def range_ok_def chosen_range_def)

lemma evaluated_plans_ok: "evaluated_plans rt policy s = Inr ps \<Longrightarrow> (j, p) \<in> set ps \<Longrightarrow> plan_ok p"
  unfolding evaluated_plans_def traverse_Inr_iff
  by (auto simp: res_simps plan_value_of_ok in_set_conv_nth list_all2_conv_all_nth split: prod.splits)
     (metis fst_conv plan_value_of_ok prod.collapse snd_conv)

lemma evaluated_plans_keys:
  assumes "evaluated_plans rt policy s = Inr ps"
  shows "mset (map fst ps) = mset (map fst (fs_plans s))"
proof -
  have "map fst ps = map fst (sort_cmp (cmp_on fst (rt_locale_compare rt)) (fs_plans s))"
    using assms unfolding evaluated_plans_def traverse_Inr_iff
    by (induction rule: list_all2_induct) (auto simp: res_simps)
  then show ?thesis by simp
qed

section \<open>Winners of one state\<close>

text \<open>A plan dominates when it is eligible and its least value exceeds the greatest value of
  every other eligible plan.\<close>

definition dominates :: "bool \<Rightarrow> (string \<times> evaluated_plan) list \<Rightarrow> string \<Rightarrow> bool" where
  "dominates b ps w \<longleftrightarrow> (\<exists>p. (w, p) \<in> set ps \<and> ep_eligible p \<and>
     (\<forall>j q. (j, q) \<in> set ps \<longrightarrow> ep_eligible q \<longrightarrow> j \<noteq> w \<longrightarrow> jr_max (chosen_range b q) < jr_min (chosen_range b p)))"

text \<open>An assignment of a value to every plan that its range allows.\<close>

definition feasible_values :: "bool \<Rightarrow> (string \<times> evaluated_plan) list \<Rightarrow> (string \<Rightarrow> rat) \<Rightarrow> bool" where
  "feasible_values b ps v \<longleftrightarrow>
     (\<forall>j q. (j, q) \<in> set ps \<longrightarrow> jr_min (chosen_range b q) \<le> v j \<and> v j \<le> jr_max (chosen_range b q))"

definition best_under :: "(string \<times> evaluated_plan) list \<Rightarrow> (string \<Rightarrow> rat) \<Rightarrow> string \<Rightarrow> bool" where
  "best_under ps v w \<longleftrightarrow>
     (\<exists>p. (w, p) \<in> set ps \<and> ep_eligible p) \<and> (\<forall>j q. (j, q) \<in> set ps \<longrightarrow> ep_eligible q \<longrightarrow> v j \<le> v w)"

abbreviation objective_row :: "bool \<Rightarrow> string \<Rightarrow> evaluated_plan \<Rightarrow> plan_row" where
  "objective_row b i p \<equiv> \<lparr>rw_plan_id = i, rw_range = chosen_range b p, rw_eligible = ep_eligible p\<rparr>"

lemma eligible_objective_rows:
  "eligible_rows (objective_rows b ps) = objective_rows b (filter (\<lambda>(i, p). ep_eligible p) ps)"
  by (induction ps) (auto simp: eligible_rows_def objective_rows_def)

lemma set_eligible_rows:
  "set (eligible_rows (objective_rows b ps)) = (\<lambda>(i, p). objective_row b i p) ` {(i, p) \<in> set ps. ep_eligible p}"
  unfolding eligible_objective_rows by (auto simp: objective_rows_def)

lemma filter_unique_id:
  assumes "distinct (map f xs)" "x \<in> set xs" "P x" "\<And>y. y \<in> set xs \<Longrightarrow> P y \<Longrightarrow> f y = f x"
  shows "filter P xs = [x]"
  using assms
proof (induction xs)
  case (Cons y ys)
  show ?case
  proof (cases "y = x")
    case True
    with Cons.prems(1) have fx: "f x \<notin> f ` set ys" by simp
    have "\<not> P z" if z: "z \<in> set ys" for z
    proof
      assume "P z"
      with Cons.prems(4) z have "f z = f x" by simp
      with fx z show False by (metis imageI)
    qed
    then have "filter P ys = []" by (simp add: filter_empty_conv)
    with True Cons.prems(3) show ?thesis by simp
  next
    case False
    then have x: "x \<in> set ys" using Cons.prems(2) by simp
    have "\<not> P y"
    proof
      assume "P y"
      then have "f y = f x" using Cons.prems(4) by simp
      with x have "f y \<in> f ` set ys" by (metis imageI)
      with Cons.prems(1) show False by simp
    qed
    moreover have "filter P ys = [x]"
    proof (rule Cons.IH)
      show "f z = f x" if "z \<in> set ys" "P z" for z using Cons.prems(4) that by simp
    qed (use Cons.prems(1,3) x in simp_all)
    ultimately show ?thesis by simp
  qed
qed simp

lemma robust_winner_iff:
  assumes "distinct (map fst ps)" and ok: "\<And>j p. (j, p) \<in> set ps \<Longrightarrow> plan_ok p"
  shows "robust_winner (objective_rows b ps) = Some w \<longleftrightarrow> dominates b ps w"
proof -
  define es where "es = eligible_rows (objective_rows b ps)"
  define P :: "plan_row \<Rightarrow> bool" where
    "P = (\<lambda>c. list_all (\<lambda>r. rw_plan_id r = rw_plan_id c \<or> jr_max (rw_range r) < jr_min (rw_range c)) es)"
  have es: "set es = (\<lambda>(i, p). objective_row b i p) ` {(i, p) \<in> set ps. ep_eligible p}"
    unfolding es_def by (rule set_eligible_rows)
  have rw: "robust_winner (objective_rows b ps) = (case filter P es of [c] \<Rightarrow> Some (rw_plan_id c) | _ \<Rightarrow> None)"
    by (simp add: robust_winner_def Let_def P_def es_def)
  have dom: "dominates b ps w \<longleftrightarrow> (\<exists>c\<in>set es. rw_plan_id c = w \<and> P c)" for w
    unfolding P_def list_all_iff es dominates_def by auto
  have ids: "map rw_plan_id es = map fst (filter (\<lambda>(i, p). ep_eligible p) ps)"
    unfolding es_def eligible_objective_rows by (simp add: objective_rows_def case_prod_beta comp_def)
  have dist: "distinct (map rw_plan_id es)"
    unfolding ids using assms(1) by (rule distinct_map_filter)
  have one: "rw_plan_id c = rw_plan_id d" if "c \<in> set es" "d \<in> set es" "P c" "P d" for c d
  proof (rule ccontr)
    assume "rw_plan_id c \<noteq> rw_plan_id d"
    with that have "jr_max (rw_range c) < jr_min (rw_range d)" "jr_max (rw_range d) < jr_min (rw_range c)"
      unfolding P_def list_all_iff by auto
    note less = this
    have "jr_min (rw_range r) \<le> jr_max (rw_range r)" if "r \<in> set es" for r
      using that ok plan_ok_chosen unfolding es by auto
    from this [OF that(1)] this [OF that(2)] less show False by linarith
  qed
  show ?thesis
  proof
    assume "robust_winner (objective_rows b ps) = Some w"
    then obtain c where c: "filter P es = [c]" "w = rw_plan_id c"
      unfolding rw by (auto split: list.splits)
    then have "c \<in> set (filter P es)" by simp
    then have "c \<in> set es" "P c" by simp_all
    with c(2) show "dominates b ps w" unfolding dom by blast
  next
    assume "dominates b ps w"
    then obtain c where c: "c \<in> set es" "rw_plan_id c = w" "P c" unfolding dom by blast
    have "filter P es = [c]"
      by (rule filter_unique_id [where f = rw_plan_id and P = P, OF dist c(1) c(3)]) (rule one [OF _ c(1) _ c(3)])
    with c show "robust_winner (objective_rows b ps) = Some w" unfolding rw by simp
  qed
qed

lemma possible_winners_iff:
  assumes "distinct (map fst ps)" and ok: "\<And>j p. (j, p) \<in> set ps \<Longrightarrow> plan_ok p"
  shows "w \<in> set (possible_winners (objective_rows b ps)) \<longleftrightarrow> (\<exists>v. feasible_values b ps v \<and> best_under ps v w)"
    (is "?L \<longleftrightarrow> ?R")
proof -
  have mem: "w \<in> rw_plan_id ` {c \<in> (\<lambda>(i, p). objective_row b i p) ` A. Q c} \<longleftrightarrow>
      (\<exists>p. (w, p) \<in> A \<and> Q (objective_row b w p))" for A Q
    by (auto simp: image_iff)
  have L: "?L \<longleftrightarrow> (\<exists>p. (w, p) \<in> set ps \<and> ep_eligible p \<and>
      (\<forall>j q. (j, q) \<in> set ps \<longrightarrow> ep_eligible q \<longrightarrow> j \<noteq> w \<longrightarrow> jr_min (chosen_range b q) \<le> jr_max (chosen_range b p)))"
    unfolding possible_winners_def Let_def js_sort_simps set_map set_filter list_all_iff set_eligible_rows mem
    by (intro ex_cong1) auto
  show ?thesis
  proof
    assume ?L
    then obtain p where p: "(w, p) \<in> set ps" "ep_eligible p"
        "\<forall>j q. (j, q) \<in> set ps \<longrightarrow> ep_eligible q \<longrightarrow> j \<noteq> w \<longrightarrow> jr_min (chosen_range b q) \<le> jr_max (chosen_range b p)"
      unfolding L by blast
    define v where "v = (\<lambda>j. if j = w then jr_max (chosen_range b p) else jr_min (chosen_range b (the (map_of ps j))))"
    have get: "map_of ps j = Some q" if "(j, q) \<in> set ps" for j q
      using assms(1) that by (rule map_of_is_SomeI)
    have same: "q = p" if "(w, q) \<in> set ps" for q using get [OF that] get [OF p(1)] by simp
    have "feasible_values b ps v"
      unfolding feasible_values_def
    proof (intro allI impI)
      fix j q assume q: "(j, q) \<in> set ps"
      from ok [OF q] have "jr_min (chosen_range b q) \<le> jr_max (chosen_range b q)" by (rule plan_ok_chosen)
      with get [OF q] same q show "jr_min (chosen_range b q) \<le> v j \<and> v j \<le> jr_max (chosen_range b q)"
        by (cases "j = w") (simp_all add: v_def)
    qed
    moreover have "best_under ps v w"
      unfolding best_under_def
    proof (intro conjI allI impI exI [of _ p] p(1,2))
      fix j q assume q: "(j, q) \<in> set ps" "ep_eligible q"
      with p(3) get [OF q(1)] show "v j \<le> v w" by (cases "j = w") (simp_all add: v_def)
    qed
    ultimately show ?R by blast
  next
    assume ?R
    then obtain v p where v: "feasible_values b ps v" "(w, p) \<in> set ps" "ep_eligible p"
        "\<And>j q. (j, q) \<in> set ps \<Longrightarrow> ep_eligible q \<Longrightarrow> v j \<le> v w"
      unfolding best_under_def by blast
    have "jr_min (chosen_range b q) \<le> jr_max (chosen_range b p)" if "(j, q) \<in> set ps" "ep_eligible q" for j q
    proof -
      have "jr_min (chosen_range b q) \<le> v j" "v w \<le> jr_max (chosen_range b p)"
        using v(1,2) that(1) unfolding feasible_values_def by auto
      with v(4) that show ?thesis by fastforce
    qed
    with v show ?L unfolding L by blast
  qed
qed

section \<open>All states together\<close>

text \<open>State ids differ and a state names a plan once: the entries of a JavaScript object.\<close>

definition keyed_states :: "feasible_state list \<Rightarrow> bool" where
  "keyed_states ss \<longleftrightarrow> distinct (map (\<lambda>(i, s). state_id_at s i) (enumerate 0 ss)) \<and> (\<forall>s\<in>set ss. om_ok (fs_plans s))"

lemma evaluate_states_iff:
  "evaluate_states rt text_of b policy i ss t = Inr (rs, t') \<longleftrightarrow>
     (\<exists>pss. traverse (evaluated_plans rt policy) ss = Inr pss \<and>
        rs = map (\<lambda>(k, s, ps). ranking_of rt text_of b s (state_id_at s k) ps) (enumerate i (zip ss pss)) \<and>
        t' = fold (\<lambda>(k, s, ps). fold (record_plan (state_id_at s k)) ps) (enumerate i (zip ss pss)) t)"
proof (induction ss arbitrary: i t rs)
  case (Cons s ss)
  show ?case
    by (cases "evaluated_plans rt policy s") (auto simp: res_simps Cons.IH split: prod.splits)
qed auto

text \<open>What the table records for a plan in a state.\<close>

definition recorded :: "plan_table \<Rightarrow> string \<Rightarrow> string \<Rightarrow> evaluated_plan option" where
  "recorded t j k = Option.bind (om_get t j) (\<lambda>m. om_get m k)"

definition table_ok :: "plan_table \<Rightarrow> bool" where
  "table_ok t \<longleftrightarrow> om_ok t \<and> (\<forall>(j, m)\<in>set t. om_ok m \<and> m \<noteq> [])"

lemma recorded_record_plan:
  "recorded (record_plan k (j, p) t) j' k' = (if j' = j \<and> k' = k then Some p else recorded t j' k')"
  by (cases "om_get t j") (auto simp: recorded_def record_plan_def om_get_set)

lemma om_set_in: "x \<in> set (om_set k v m) \<Longrightarrow> x = (k, v) \<or> x \<in> set m"
  by (induction k v m rule: om_set.induct) (auto split: if_splits)

lemma om_set_nonempty [simp]: "om_set k v m \<noteq> []"
  by (induction k v m rule: om_set.induct) auto

lemma table_ok_record:
  assumes "table_ok t"
  shows "table_ok (record_plan k (j, p) t)"
proof -
  have "om_ok (om_set k p (default_to [] (om_get t j)))"
  proof (cases "om_get t j")
    case None
    then show ?thesis by (simp add: om_ok_def)
  next
    case (Some m)
    then have "om_ok m" using assms map_of_SomeD by (fastforce simp: table_ok_def)
    with Some show ?thesis by (simp add: om_ok_set)
  qed
  with assms show ?thesis
    by (auto simp: table_ok_def record_plan_def om_ok_set dest!: om_set_in)
qed

lemma recorded_fold:
  "distinct (map fst ps) \<Longrightarrow>
     recorded (fold (record_plan k) ps t) j k' =
       (if k' = k \<and> j \<in> fst ` set ps then map_of ps j else recorded t j k')"
proof (induction ps arbitrary: t)
  case (Cons x ps)
  obtain i p where x: "x = (i, p)" by (cases x)
  have none: "j \<notin> fst ` set ps" if "j = i" using Cons.prems x that by auto
  from Cons x none show ?case by (auto simp: recorded_record_plan)
qed simp

lemma table_ok_fold: "table_ok t \<Longrightarrow> table_ok (fold (record_plan k) ps t)"
proof (induction ps arbitrary: t)
  case (Cons x ps)
  then show ?case by (cases x) (simp add: table_ok_record)
qed simp

lemma table_ok_fold_states:
  "table_ok t \<Longrightarrow> table_ok (fold (\<lambda>(k, s, ps). fold (record_plan (f s k)) ps) xs t)"
  by (induction xs arbitrary: t) (auto simp: table_ok_fold)

lemma recorded_fold_states:
  assumes "distinct (map (\<lambda>(k, s, ps). f s k) xs)" "\<And>k s ps. (k, s, ps) \<in> set xs \<Longrightarrow> distinct (map fst ps)"
  shows "recorded (fold (\<lambda>(k, s, ps). fold (record_plan (f s k)) ps) xs t) j sid = Some p \<longleftrightarrow>
     (\<exists>(k, s, ps)\<in>set xs. f s k = sid \<and> (j, p) \<in> set ps) \<or>
     (\<not> (\<exists>(k, s, ps)\<in>set xs. f s k = sid \<and> j \<in> fst ` set ps) \<and> recorded t j sid = Some p)"
  using assms
proof (induction xs arbitrary: t)
  case (Cons x xs)
  obtain k s ps where x: "x = (k, s, ps)" by (cases x)
  have ps: "distinct (map fst ps)" using Cons.prems(2) x by auto
  have other: "f s' k' \<noteq> f s k" if "(k', s', ps') \<in> set xs" for k' s' ps'
    using Cons.prems(1) x that by force
  have IH: "recorded (fold (\<lambda>(k, s, ps). fold (record_plan (f s k)) ps) xs t') j sid = Some p \<longleftrightarrow>
     (\<exists>(k, s, ps)\<in>set xs. f s k = sid \<and> (j, p) \<in> set ps) \<or>
     (\<not> (\<exists>(k, s, ps)\<in>set xs. f s k = sid \<and> j \<in> fst ` set ps) \<and> recorded t' j sid = Some p)" for t'
    using Cons.prems by (intro Cons.IH) auto
  have mem: "map_of ps j = Some p \<longleftrightarrow> (j, p) \<in> set ps" using ps by simp
  show ?case
  proof (cases "f s k = sid")
    case True
    then have no: "\<not> (\<exists>(k, s, ps)\<in>set xs. f s k = sid \<and> Q ps)" for Q using other by auto
    show ?thesis
      unfolding x using True no by (auto simp: IH recorded_fold [OF ps] mem rev_image_eqI)
  next
    case False
    then show ?thesis unfolding x by (simp add: IH recorded_fold [OF ps])
  qed
qed simp

lemma foldl_min_props:
  fixes a :: "'a::linorder"
  shows "foldl min a xs \<in> insert a (set xs) \<and> (\<forall>x\<in>insert a (set xs). foldl min a xs \<le> x)"
proof -
  have "(\<lambda>x s. min s x) = (min :: 'a \<Rightarrow> _)" by (simp add: fun_eq_iff min.commute)
  then have "foldl min a xs = Min (insert a (set xs))"
    using Min.set_eq_fold [of a xs] by (simp add: foldl_conv_fold)
  then show ?thesis by (simp only: Min_in Min_le finite_insert finite_set insert_not_empty simp_thms ball_simps)
    simp
qed

lemma foldl_max_props:
  fixes a :: "'a::linorder"
  shows "foldl max a xs \<in> insert a (set xs) \<and> (\<forall>x\<in>insert a (set xs). x \<le> foldl max a xs)"
proof -
  have "(\<lambda>x s. max s x) = (max :: 'a \<Rightarrow> _)" by (simp add: fun_eq_iff max.commute)
  then have "foldl max a xs = Max (insert a (set xs))"
    using Max.set_eq_fold [of a xs] by (simp add: foldl_conv_fold)
  then show ?thesis by (simp only: Max_in Max_ge finite_insert finite_set insert_not_empty simp_thms ball_simps)
    simp
qed

lemma aggregate_ranges_covers:
  assumes "r \<in> set rs"
  shows "jr_min (aggregate_ranges rs) \<le> jr_min r \<and> jr_max r \<le> jr_max (aggregate_ranges rs)"
proof -
  obtain q qs where rs: "rs = q # qs" using assms by (cases rs) auto
  have "foldl min (jr_min q) (map jr_min rs) \<le> jr_min r" "jr_max r \<le> foldl max (jr_max q) (map jr_max rs)"
    using foldl_min_props [of "jr_min q" "map jr_min rs"] foldl_max_props [of "jr_max q" "map jr_max rs"] assms by auto
  then show ?thesis
    unfolding aggregate_ranges_def range_value_def Let_def by (simp add: rs min.coboundedI1 max.coboundedI2)
qed

text \<open>The plans of a state and their values, as the evaluation reads them.\<close>

definition plans_in :: "runtime \<Rightarrow> feasible_input \<Rightarrow> feasible_state \<Rightarrow> (string \<times> evaluated_plan) list" where
  "plans_in rt input s = (case evaluated_plans rt (input_policy input) s of Inl _ \<Rightarrow> [] | Inr ps \<Rightarrow> ps)"

text \<open>What an evaluation has computed before it reads off its result.\<close>

record feasible_run =
  fu_ids :: "string list"
  fu_plans :: "(string \<times> evaluated_plan) list list"
  fu_rankings :: "state_ranking list"
  fu_table :: plan_table

definition run_ok :: "runtime \<Rightarrow> (json \<Rightarrow> string) \<Rightarrow> feasible_input \<Rightarrow> feasible_run \<Rightarrow> bool" where
  "run_ok rt text_of input u \<longleftrightarrow>
     (let ss = input_states input; n = length ss in
      fu_plans u = map (plans_in rt input) ss \<and> fu_ids u = map (\<lambda>i. state_id_at (ss ! i) i) [0..<n] \<and>
      (\<forall>s\<in>set ss. evaluated_plans rt (input_policy input) s = Inr (plans_in rt input s) \<and>
         distinct (map fst (plans_in rt input s))) \<and>
      fu_rankings u = map (\<lambda>i. ranking_of rt text_of (objective_expected input) (ss ! i) (state_id_at (ss ! i) i)
        (plans_in rt input (ss ! i))) [0..<n] \<and>
      distinct (fu_ids u) \<and> table_ok (fu_table u) \<and>
      (\<forall>j sid p. recorded (fu_table u) j sid = Some p \<longleftrightarrow>
         (\<exists>i<n. state_id_at (ss ! i) i = sid \<and> (j, p) \<in> set (plans_in rt input (ss ! i)))))"

lemma map_enumerate_zip:
  "length ys = length xs \<Longrightarrow>
     map f (enumerate 0 (zip xs ys)) = map (\<lambda>i. f (i, xs ! i, ys ! i)) [0..<length xs]"
  by (rule nth_equalityI) (auto simp: nth_enumerate_eq)

lemma in_set_enumerate_zip:
  "length ys = length xs \<Longrightarrow>
     (k, x, y) \<in> set (enumerate 0 (zip xs ys)) \<longleftrightarrow> k < length xs \<and> x = xs ! k \<and> y = ys ! k"
  by (auto simp: in_set_enumerate_eq)

lemma evaluation_run:
  assumes "evaluate_feasible_states rt text_of stringify input = Inr result" "keyed_states (input_states input)"
  obtains u where "run_ok rt text_of input u" "fr_states result = fu_rankings u"
    "fr_definite result = definite_winner (fu_rankings u)"
    "fr_summaries result = map (summary_of (objective_expected input) (fu_rankings u) (fu_table u))
       (js_sort (map fst (fu_table u)))"
    "fr_safe result = map_option sy_plan_id
       (case ranking_by_worst rt (fr_summaries result) of [] \<Rightarrow> None | s # _ \<Rightarrow> Some s)"
proof -
  define ss where "ss = input_states input"
  define b where "b = objective_expected input"
  obtain rankings table where e: "evaluate_states rt text_of b (input_policy input) 0 ss [] = Inr (rankings, table)"
    and result: "fr_states result = rankings" "fr_definite result = definite_winner rankings"
      "fr_summaries result = map (summary_of b rankings table) (js_sort (map fst table))"
      "fr_safe result = (case ranking_by_worst rt (fr_summaries result) of [] \<Rightarrow> None | s # _ \<Rightarrow> Some (sy_plan_id s))"
    using assms(1) unfolding evaluate_feasible_states_def Let_def ss_def b_def
    by (auto simp: res_simps)
  from e obtain pss where pss: "traverse (evaluated_plans rt (input_policy input)) ss = Inr pss"
    and rankings: "rankings = map (\<lambda>(k, s, ps). ranking_of rt text_of b s (state_id_at s k) ps) (enumerate 0 (zip ss pss))"
    and table: "table = fold (\<lambda>(k, s, ps). fold (record_plan (state_id_at s k)) ps) (enumerate 0 (zip ss pss)) []"
    unfolding evaluate_states_iff by blast
  have len: "length pss = length ss" and nth: "\<And>i. i < length ss \<Longrightarrow> evaluated_plans rt (input_policy input) (ss ! i) = Inr (pss ! i)"
    using pss unfolding traverse_Inr_iff list_all2_conv_all_nth by auto
  have at_i: "pss ! i = plans_in rt input (ss ! i)" if "i < length ss" for i
    using nth [OF that] by (simp add: plans_in_def)
  then have plans: "pss = map (plans_in rt input) ss" using len by (simp add: list_eq_iff_nth_eq)
  have ev: "evaluated_plans rt (input_policy input) s = Inr (plans_in rt input s)" if "s \<in> set ss" for s
    using that nth at_i by (metis in_set_conv_nth)
  have dp: "distinct (map fst (plans_in rt input s))" if "s \<in> set ss" for s
    using evaluated_plans_keys [OF ev [OF that]] assms(2) that
    unfolding keyed_states_def om_ok_def ss_def by (metis mset_eq_imp_distinct_iff)
  define ids where "ids = map (\<lambda>i. state_id_at (ss ! i) i) [0..<length ss]"
  have ids: "map (\<lambda>(i, s). state_id_at s i) (enumerate 0 ss) = ids"
    unfolding ids_def by (rule nth_equalityI) (auto simp: nth_enumerate_eq)
  have di: "distinct ids" using assms(2) unfolding keyed_states_def ss_def [symmetric] ids by simp
  have dz: "distinct (map (\<lambda>(k, s, ps). state_id_at s k) (enumerate 0 (zip ss pss)))"
    using di unfolding map_enumerate_zip [OF len] ids_def by simp
  have "recorded table j sid = Some p \<longleftrightarrow>
      (\<exists>i<length ss. state_id_at (ss ! i) i = sid \<and> (j, p) \<in> set (plans_in rt input (ss ! i)))" for j sid p
  proof -
    have "recorded table j sid = Some p \<longleftrightarrow>
        (\<exists>(k, s, ps)\<in>set (enumerate 0 (zip ss pss)). state_id_at s k = sid \<and> (j, p) \<in> set ps)"
      unfolding table
      by (subst recorded_fold_states [OF dz]) (use dp at_i len in \<open>auto simp: in_set_enumerate_zip recorded_def\<close>)
    then show ?thesis by (auto simp: Bex_def in_set_enumerate_zip [OF len] at_i)
  qed
  moreover have "table_ok table"
    unfolding table by (rule table_ok_fold_states) (simp add: table_ok_def)
  moreover have "rankings = map (\<lambda>i. ranking_of rt text_of b (ss ! i) (state_id_at (ss ! i) i) (plans_in rt input (ss ! i))) [0..<length ss]"
    unfolding rankings map_enumerate_zip [OF len] by (simp add: at_i)
  ultimately have "run_ok rt text_of input \<lparr>fu_ids = ids, fu_plans = pss, fu_rankings = rankings, fu_table = table\<rparr>"
    unfolding run_ok_def Let_def ss_def [symmetric] b_def [symmetric] using plans ev dp di by (simp add: ids_def)
  then show ?thesis by (rule that) (use result in \<open>simp_all add: b_def split: list.splits\<close>)
qed

lemma run_winner:
  assumes "run_ok rt text_of input u" "i < length (input_states input)"
  shows "rk_winner (fu_rankings u ! i) = robust_winner (objective_rows (objective_expected input) (plans_in rt input (input_states input ! i)))"
    "rk_possible (fu_rankings u ! i) = possible_winners (objective_rows (objective_expected input) (plans_in rt input (input_states input ! i)))"
    "rk_state_id (fu_rankings u ! i) = fu_ids u ! i"
  using assms by (simp_all add: run_ok_def Let_def ranking_of_def)

lemma run_plans:
  assumes "run_ok rt text_of input u" "s \<in> set (input_states input)"
  shows "distinct (map fst (plans_in rt input s))" "(j, p) \<in> set (plans_in rt input s) \<Longrightarrow> plan_ok p"
proof -
  have e: "evaluated_plans rt (input_policy input) s = Inr (plans_in rt input s)"
    and d: "distinct (map fst (plans_in rt input s))"
    using assms by (auto simp: run_ok_def Let_def)
  show "distinct (map fst (plans_in rt input s))" by (rule d)
  show "plan_ok p" if "(j, p) \<in> set (plans_in rt input s)" using evaluated_plans_ok [OF e that] .
qed

lemma run_length: "run_ok rt text_of input u \<Longrightarrow> length (fu_rankings u) = length (input_states input)"
  by (simp add: run_ok_def Let_def)

lemma unique_singleton: "length (unique xs) = 1 \<longleftrightarrow> (\<exists>x. set xs = {x})"
  by (metis card_1_singleton_iff distinct_card distinct_unique set_unique One_nat_def)

lemma definite_winner_iff:
  "definite_winner rs = Some w \<longleftrightarrow> rs \<noteq> [] \<and> (\<forall>r\<in>set rs. rk_winner r = Some w)"
proof (cases rs)
  case (Cons r rest)
  have "length (unique (map (the \<circ> rk_winner) rs)) = 1 \<longleftrightarrow> (\<forall>x\<in>set rs. the (rk_winner x) = the (rk_winner r))"
    unfolding unique_singleton Cons by (auto; metis)
  then have "list_all (\<lambda>x. rk_winner x \<noteq> None) rs \<and> length (unique (map (the \<circ> rk_winner) rs)) = 1 \<longleftrightarrow>
      (\<forall>x\<in>set rs. rk_winner x \<noteq> None \<and> the (rk_winner x) = the (rk_winner r))"
    by (simp only: list_all_iff ball_conj_distrib)
  also have "\<dots> \<longleftrightarrow> rk_winner r \<noteq> None \<and> (\<forall>x\<in>set rs. rk_winner x = rk_winner r)"
    unfolding Cons by (cases "rk_winner r") (auto simp: option.expand)
  finally show ?thesis by (cases "rk_winner r") (auto simp: definite_winner_def Cons)
qed (simp add: definite_winner_def)

text \<open>C11. A definite winner dominates: \<open>evaluateFeasibleStates\<close> names \<open>w\<close> the definite winner exactly
  when there is a state and in every one of them \<open>w\<close> is eligible and its least value (guaranteed
  or expected, by the objective) exceeds the greatest value of every other eligible plan.
\<close>

theorem definite_winner_dominates:
  assumes "evaluate_feasible_states rt text_of stringify input = Inr result" "keyed_states (input_states input)"
  shows "fr_definite result = Some w \<longleftrightarrow> input_states input \<noteq> [] \<and>
    (\<forall>s\<in>set (input_states input). dominates (objective_expected input) (plans_in rt input s) w)"
proof -
  obtain u where u: "run_ok rt text_of input u" and d: "fr_definite result = definite_winner (fu_rankings u)"
    using evaluation_run [OF assms] by metis
  have "rk_winner (fu_rankings u ! i) = Some w \<longleftrightarrow>
      dominates (objective_expected input) (plans_in rt input (input_states input ! i)) w"
    if i: "i < length (input_states input)" for i
    unfolding run_winner(1) [OF u i] by (rule robust_winner_iff) (use run_plans [OF u nth_mem [OF i]] in auto)
  then have "(\<forall>r\<in>set (fu_rankings u). rk_winner r = Some w) \<longleftrightarrow>
      (\<forall>s\<in>set (input_states input). dominates (objective_expected input) (plans_in rt input s) w)"
    unfolding all_set_conv_all_nth run_length [OF u] by blast
  moreover have "fu_rankings u = [] \<longleftrightarrow> input_states input = []"
    using run_length [OF u] by (metis length_0_conv)
  ultimately show ?thesis unfolding d definite_winner_iff by blast
qed

text \<open>C29. The possible winners of a state are exactly the plans that are best among the eligible ones
  for some choice of a value of every plan within its range.
\<close>

theorem possible_winners_are_possible:
  assumes "evaluate_feasible_states rt text_of stringify input = Inr result" "keyed_states (input_states input)"
    "i < length (input_states input)"
  shows "w \<in> set (rk_possible (fr_states result ! i)) \<longleftrightarrow>
    (\<exists>v. feasible_values (objective_expected input) (plans_in rt input (input_states input ! i)) v \<and>
       best_under (plans_in rt input (input_states input ! i)) v w)"
proof -
  obtain u where u: "run_ok rt text_of input u" and s: "fr_states result = fu_rankings u"
    using evaluation_run [OF assms(1,2)] by metis
  show ?thesis
    unfolding s run_winner(2) [OF u assms(3)]
    by (rule possible_winners_iff) (use run_plans [OF u nth_mem [OF assms(3)]] in auto)
qed

text \<open>Values and states of the table, read through \<open>recorded\<close>.\<close>

lemma entries_of:
  fixes j :: string
  assumes "table_ok t"
  defines "entries \<equiv> default_to [] (om_get t j)"
  shows "(k, p) \<in> set entries \<longleftrightarrow> recorded t j k = Some p" "distinct (map fst entries)"
proof -
  have ok: "om_ok entries"
  proof (cases "om_get t j")
    case (Some m)
    with assms map_of_SomeD [OF Some] show ?thesis by (auto simp: table_ok_def)
  qed (simp add: entries_def)
  show "distinct (map fst entries)" using ok by (simp add: om_ok_def)
  then show "(k, p) \<in> set entries \<longleftrightarrow> recorded t j k = Some p"
    unfolding entries_def recorded_def by (cases "om_get t j") simp_all
qed

lemma summary_values:
  assumes "table_ok t"
  shows "p \<in> set (map snd (default_to [] (om_get t j))) \<longleftrightarrow> (\<exists>k. recorded t j k = Some p)"
  using entries_of(1) [OF assms, of _ p j] by (force simp: image_iff)

lemma run_recorded:
  assumes "run_ok rt text_of input u"
  shows "(\<exists>k. recorded (fu_table u) j k = Some p) \<longleftrightarrow> (\<exists>s\<in>set (input_states input). (j, p) \<in> set (plans_in rt input s))"
  using assms by (auto simp: run_ok_def Let_def in_set_conv_nth Bex_def)

lemma summary_covers:
  fixes j :: string and rs :: "state_ranking list" and b :: bool
  assumes "run_ok rt text_of input u" "s \<in> set (input_states input)" "(j, p) \<in> set (plans_in rt input s)"
  defines "r \<equiv> sy_range (summary_of b rs (fu_table u) j)"
  shows "jr_min r \<le> jr_min (chosen_range b p) \<and> jr_max (chosen_range b p) \<le> jr_max r"
proof -
  have t: "table_ok (fu_table u)" using assms(1) by (simp add: run_ok_def Let_def)
  have "p \<in> set (map snd (default_to [] (om_get (fu_table u) j)))"
    unfolding summary_values [OF t] run_recorded [OF assms(1)] using assms(2,3) by blast
  then show ?thesis
    unfolding r_def summary_of_def Let_def plan_summary.select_convs
    by (intro aggregate_ranges_covers) (simp only: set_map imageI)
qed

text \<open>The worst guaranteed value is the least over the states that have the plan.\<close>

lemma summary_worst:
  assumes u: "run_ok rt text_of input u"
  shows "sy_guaranteed_worst (summary_of b rankings (fu_table u) j) = Some m \<longleftrightarrow>
    (\<exists>s\<in>set (input_states input). \<exists>p. (j, p) \<in> set (plans_in rt input s) \<and> m = jr_min (ep_guaranteed p)) \<and>
    (\<forall>s\<in>set (input_states input). \<forall>p. (j, p) \<in> set (plans_in rt input s) \<longrightarrow> m \<le> jr_min (ep_guaranteed p))"
    (is "?L \<longleftrightarrow> ?A \<and> ?B")
proof -
  define vs where "vs = map snd (default_to [] (om_get (fu_table u) j))"
  have t: "table_ok (fu_table u)" using u by (simp add: run_ok_def Let_def)
  have vs: "p \<in> set vs \<longleftrightarrow> (\<exists>s\<in>set (input_states input). (j, p) \<in> set (plans_in rt input s))" for p
    unfolding vs_def summary_values [OF t] run_recorded [OF u] ..
  define ms where "ms = map (jr_min \<circ> ep_guaranteed) vs"
  have L: "?L \<longleftrightarrow> ms \<noteq> [] \<and> m = foldl min (hd ms) ms"
    unfolding summary_of_def Let_def ms_def vs_def [symmetric] by (cases vs) auto
  have least: "ms \<noteq> [] \<Longrightarrow> foldl min (hd ms) ms \<in> set ms" "x \<in> set ms \<Longrightarrow> foldl min (hd ms) ms \<le> x" for x
    using foldl_min_props [of "hd ms" ms] by (auto simp: insert_absorb)
  have A: "?A \<longleftrightarrow> m \<in> set ms" and B: "?B \<longleftrightarrow> (\<forall>x\<in>set ms. m \<le> x)"
    unfolding ms_def set_map image_iff comp_def using vs by (blast, simp add: Ball_def Bex_def) blast
  show ?thesis
    unfolding L A B using least by (metis antisym empty_iff list.set(1))
qed

lemma summary_eligible:
  assumes u: "run_ok rt text_of input u"
  shows "sy_eligible_all (summary_of b (fu_rankings u) (fu_table u) j) \<longleftrightarrow>
    (\<forall>s\<in>set (input_states input). \<exists>p. (j, p) \<in> set (plans_in rt input s) \<and> ep_eligible p)"
proof -
  define es where "es = default_to [] (om_get (fu_table u) j)"
  have t: "table_ok (fu_table u)" and di: "distinct (fu_ids u)" and li: "length (fu_ids u) = length (input_states input)"
    using u by (auto simp: run_ok_def Let_def)
  note mem = entries_of(1) [OF t, where j = j, folded es_def] and de = entries_of(2) [OF t, where j = j, folded es_def]
  have rec: "(k, p) \<in> set es \<longleftrightarrow> (\<exists>i<length (input_states input). fu_ids u ! i = k \<and>
      (j, p) \<in> set (plans_in rt input (input_states input ! i)))" for k p
    unfolding mem using u by (auto simp: run_ok_def Let_def)
  have in_fst_iff: "k \<in> set (map fst es) \<longleftrightarrow> (\<exists>p. (k, p) \<in> set es)" for k
    by force
  have sub: "set (map fst es) \<subseteq> set (fu_ids u)"
    using rec li by (auto simp: in_set_conv_nth)
  have eq: "length es = length (fu_rankings u) \<longleftrightarrow> set (fu_ids u) \<subseteq> set (map fst es)"
  proof -
    have "length es = card (set (map fst es))" "length (fu_rankings u) = card (set (fu_ids u))"
      using distinct_card [OF de] distinct_card [OF di] run_length [OF u] li by simp_all
    then show ?thesis using sub card_subset_eq [of "set (fu_ids u)" "set (map fst es)"] by (metis List.finite_set subset_antisym order_refl)
  qed
  have ids: "set (fu_ids u) \<subseteq> set (map fst es) \<longleftrightarrow>
      (\<forall>i<length (input_states input). \<exists>p. (j, p) \<in> set (plans_in rt input (input_states input ! i)))"
  proof -
    have "set (fu_ids u) \<subseteq> set (map fst es) \<longleftrightarrow> (\<forall>i<length (input_states input). \<exists>p. (fu_ids u ! i, p) \<in> set es)"
      unfolding subset_iff in_set_conv_nth [of _ "fu_ids u"] li in_fst_iff by blast
    moreover have "(\<exists>p. (fu_ids u ! i, p) \<in> set es) \<longleftrightarrow> (\<exists>p. (j, p) \<in> set (plans_in rt input (input_states input ! i)))"
      if "i < length (input_states input)" for i
      unfolding rec using that di li by (auto simp: nth_eq_iff_index_eq)
    ultimately show ?thesis by simp
  qed
  have el: "list_all ep_eligible (map snd es) \<longleftrightarrow>
      (\<forall>i<length (input_states input). \<forall>p. (j, p) \<in> set (plans_in rt input (input_states input ! i)) \<longrightarrow> ep_eligible p)"
  proof -
    have "list_all ep_eligible (map snd es) \<longleftrightarrow> (\<forall>k p. (k, p) \<in> set es \<longrightarrow> ep_eligible p)"
      by (fastforce simp: list_all_iff)
    then show ?thesis unfolding rec by blast
  qed
  have one: "p = q" if "i < length (input_states input)" "(j, p) \<in> set (plans_in rt input (input_states input ! i))"
      "(j, q) \<in> set (plans_in rt input (input_states input ! i))" for i p q
    using run_plans(1) [OF u nth_mem [OF that(1)]] that(2,3) by (metis map_of_eq_Some_iff option.inject)
  have "sy_eligible_all (summary_of b (fu_rankings u) (fu_table u) j) \<longleftrightarrow>
      length es = length (fu_rankings u) \<and> list_all ep_eligible (map snd es)"
    by (simp add: summary_of_def Let_def es_def)
  then show ?thesis
    unfolding eq ids el all_set_conv_all_nth using one by metis
qed

lemma run_has_plan:
  assumes u: "run_ok rt text_of input u"
  shows "j \<in> fst ` set (fu_table u) \<longleftrightarrow> (\<exists>s\<in>set (input_states input). \<exists>p. (j, p) \<in> set (plans_in rt input s))"
proof -
  have t: "table_ok (fu_table u)" using u by (simp add: run_ok_def Let_def)
  have "j \<in> fst ` set (fu_table u) \<longleftrightarrow> (\<exists>k p. recorded (fu_table u) j k = Some p)"
  proof
    assume "j \<in> fst ` set (fu_table u)"
    then obtain m where m: "om_get (fu_table u) j = Some m" by (meson imageE map_of_eq_None_iff not_None_eq)
    with t have "om_ok m" "m \<noteq> []" using map_of_SomeD [OF m] by (auto simp: table_ok_def)
    then obtain k p where "om_get m k = Some p"
      by (metis list.set_intros(1) neq_Nil_conv om_ok_def map_of_is_SomeI prod.collapse)
    with m show "\<exists>k p. recorded (fu_table u) j k = Some p" by (auto simp: recorded_def)
  next
    assume "\<exists>k p. recorded (fu_table u) j k = Some p"
    then show "j \<in> fst ` set (fu_table u)"
      by (cases "om_get (fu_table u) j") (auto simp: recorded_def map_of_eq_None_iff dest: map_of_SomeD intro: rev_image_eqI)
  qed
  then show ?thesis using run_recorded [OF u, of j] by blast
qed

lemma summary_nonempty:
  assumes "run_ok rt text_of input u" "j \<in> fst ` set (fu_table u)"
  shows "sy_guaranteed_worst (summary_of b rankings (fu_table u) j) \<noteq> None"
proof -
  have t: "table_ok (fu_table u)" using assms(1) by (simp add: run_ok_def Let_def)
  from assms(2) obtain m where m: "om_get (fu_table u) j = Some m" by (meson imageE map_of_eq_None_iff not_None_eq)
  with t map_of_SomeD [OF m] have "m \<noteq> []" by (auto simp: table_ok_def)
  with m show ?thesis by (simp add: summary_of_def Let_def split: list.splits)
qed

lemma worst_order_comparator: "collation rt \<Longrightarrow> comparator (worst_order rt)"
proof -
  assume "collation rt"
  then have "comparator (cmp_on sy_plan_id (rt_locale_compare rt))"
    by (intro comparator_on collation.locale_comparator)
  moreover have "comparator (\<lambda>l r. rat_cmp (the (sy_guaranteed_worst r)) (the (sy_guaranteed_worst l)))"
    by unfold_locales (auto simp: rat_cmp_def split: if_splits)
  ultimately show ?thesis unfolding worst_order_def by (rule comparator_then [rotated])
qed

lemma worst_order_le: "worst_order rt a c \<le> 0 \<Longrightarrow> the (sy_guaranteed_worst c) \<le> the (sy_guaranteed_worst a)"
  by (auto simp: worst_order_def cmp_then_def rat_cmp_def split: if_splits)

text \<open>C25. The safe plan maximises the guaranteed worst case: it is eligible in every state, and there is
  an amount that it is guaranteed in all of them and that every plan eligible in all of them can
  fail to exceed in some state.
\<close>

theorem safe_plan_is_maximin:
  assumes "host rt" "evaluate_feasible_states rt text_of stringify input = Inr result" "keyed_states (input_states input)"
    "fr_safe result = Some w"
  shows "\<exists>m. (\<forall>s\<in>set (input_states input). \<exists>p. (w, p) \<in> set (plans_in rt input s) \<and> ep_eligible p \<and> m \<le> jr_min (ep_guaranteed p)) \<and>
    (\<forall>j. (\<forall>s\<in>set (input_states input). \<exists>p. (j, p) \<in> set (plans_in rt input s) \<and> ep_eligible p) \<longrightarrow>
       (\<exists>s\<in>set (input_states input). \<exists>p. (j, p) \<in> set (plans_in rt input s) \<and> jr_min (ep_guaranteed p) \<le> m))"
proof -
  obtain u where u: "run_ok rt text_of input u"
    and sums: "fr_summaries result = map (summary_of (objective_expected input) (fu_rankings u) (fu_table u)) (js_sort (map fst (fu_table u)))"
    and safe: "fr_safe result = map_option sy_plan_id (case ranking_by_worst rt (fr_summaries result) of [] \<Rightarrow> None | s # _ \<Rightarrow> Some s)"
    using evaluation_run [OF assms(2,3)] by metis
  define sy where "sy = summary_of (objective_expected input) (fu_rankings u) (fu_table u)"
  define cs where "cs = filter (\<lambda>s. sy_guaranteed_worst s \<noteq> None \<and> sy_eligible_all s) (fr_summaries result)"
  have sid: "sy_plan_id (sy j) = j" for j by (simp add: sy_def summary_of_def Let_def)
  have mem: "x \<in> set (fr_summaries result) \<longleftrightarrow> (\<exists>j\<in>fst ` set (fu_table u). x = sy j)" for x
    unfolding sums sy_def by auto
  obtain x rest where x: "sort_cmp (worst_order rt) cs = x # rest" "sy_plan_id x = w"
    using safe assms(4) unfolding ranking_by_worst_def cs_def by (auto split: list.splits)
  then have "x \<in> set cs" by (metis list.set_intros(1) set_sort_cmp)
  then have xw: "x = sy w" and xe: "sy_eligible_all (sy w)" and xs: "sy_guaranteed_worst (sy w) \<noteq> None"
    unfolding cs_def using x(2) sid mem by auto
  then obtain m where m: "sy_guaranteed_worst (sy w) = Some m" by auto
  from \<open>x \<in> set cs\<close> obtain j where "j \<in> fst ` set (fu_table u)" "x = sy j" unfolding cs_def using mem by auto
  with x(2) sid have "w \<in> fst ` set (fu_table u)" by simp
  then have some: "\<exists>s. s \<in> set (input_states input)" unfolding run_has_plan [OF u] by blast
  have coll: "collation rt" using assms(1) by (simp add: host_def)
  note worst = summary_worst [OF u, where b = "objective_expected input" and rankings = "fu_rankings u", folded sy_def]
  note elig = summary_eligible [OF u, where b = "objective_expected input", folded sy_def]
  show ?thesis
  proof (intro exI [of _ m] conjI ballI allI impI)
    fix s assume s: "s \<in> set (input_states input)"
    then obtain p where "(w, p) \<in> set (plans_in rt input s)" "ep_eligible p" using xe unfolding elig by blast
    with m s show "\<exists>p. (w, p) \<in> set (plans_in rt input s) \<and> ep_eligible p \<and> m \<le> jr_min (ep_guaranteed p)"
      unfolding worst by blast
  next
    fix j
    assume j: "(\<forall>s\<in>set (input_states input). \<exists>p. (j, p) \<in> set (plans_in rt input s) \<and> ep_eligible p)"
    with some have has: "j \<in> fst ` set (fu_table u)" unfolding run_has_plan [OF u] by blast
    then have "sy_guaranteed_worst (sy j) \<noteq> None"
      using summary_nonempty [OF u has] by (simp add: sy_def)
    then obtain m' where m': "sy_guaranteed_worst (sy j) = Some m'" by auto
    have "sy j \<in> set cs" unfolding cs_def using mem has m' j elig by auto
    from comparator.hd_sort_cmp_least [OF worst_order_comparator [OF coll] this] x xw
    have "worst_order rt (sy w) (sy j) \<le> 0" by simp
    from worst_order_le [OF this] have "m' \<le> m" using m m' by simp
    with m' show "\<exists>s\<in>set (input_states input). \<exists>p. (j, p) \<in> set (plans_in rt input s) \<and> jr_min (ep_guaranteed p) \<le> m"
      unfolding worst by blast
  qed
qed

text \<open>A plan's summary is conservative: its range contains the range of the plan in every state.
\<close>

theorem summaries_cover_states:
  assumes "evaluate_feasible_states rt text_of stringify input = Inr result" "keyed_states (input_states input)"
    "s \<in> set (input_states input)" "(j, p) \<in> set (plans_in rt input s)"
  shows "\<exists>y\<in>set (fr_summaries result). sy_plan_id y = j \<and>
    jr_min (sy_range y) \<le> jr_min (chosen_range (objective_expected input) p) \<and>
    jr_max (chosen_range (objective_expected input) p) \<le> jr_max (sy_range y)"
proof -
  obtain u where u: "run_ok rt text_of input u"
    and sums: "fr_summaries result = map (summary_of (objective_expected input) (fu_rankings u) (fu_table u)) (js_sort (map fst (fu_table u)))"
    using evaluation_run [OF assms(1,2)] by metis
  have "j \<in> fst ` set (fu_table u)" unfolding run_has_plan [OF u] using assms(3,4) by blast
  then have "summary_of (objective_expected input) (fu_rankings u) (fu_table u) j \<in> set (fr_summaries result)"
    unfolding sums by simp
  moreover have "sy_plan_id (summary_of (objective_expected input) (fu_rankings u) (fu_table u) j) = j"
    by (simp add: summary_of_def Let_def)
  ultimately show ?thesis using summary_covers [OF u assms(3,4)] by blast
qed

section \<open>Probabilistic value\<close>

text \<open>When a policy counts a component's probability: the source is disclosed and of a kind the
  policy accepts, and the probability lies between zero and one.\<close>

definition source_accepted :: "probability_policy \<Rightarrow> string \<Rightarrow> bool" where
  "source_accepted policy source \<longleftrightarrow> source \<noteq> ''undisclosed'' \<and>
     (case policy of
        PO_guaranteed_only \<Rightarrow> False
      | PO_expected_if_official_probability \<Rightarrow> source = ''official_disclosed''
      | PO_include_user_estimate \<Rightarrow> source = ''official_disclosed'' \<or> source = ''historical_estimate''
      | PO_custom _ \<Rightarrow> True)"

definition counted_probability :: "runtime \<Rightarrow> probability_policy \<Rightarrow> probabilistic_component \<Rightarrow> rat \<Rightarrow> bool" where
  "counted_probability rt policy c q \<longleftrightarrow> certainty_of c = ''probabilistic'' \<and>
     (case uc_probability_source c of None \<Rightarrow> False | Some source \<Rightarrow> source_accepted policy source) \<and>
     (case uc_probability c of None \<Rightarrow> False | Some p \<Rightarrow> numeric rt p = Inr q) \<and> 0 \<le> q \<and> q \<le> 1"

lemma probability_allowed_iff:
  "probability_allowed rt c policy = Inr (Inr q) \<longleftrightarrow> counted_probability rt policy c q"
proof (cases "uc_probability_source c")
  case None
  then show ?thesis by (simp add: probability_allowed_def counted_probability_def)
next
  case (Some source)
  show ?thesis
  proof (cases "uc_probability c")
    case None
    then show ?thesis
      by (cases policy) (auto simp: Some probability_allowed_def counted_probability_def)
  next
    case p: (Some p)
    show ?thesis
      by (cases policy; cases "numeric rt p")
         (auto simp: p Some probability_allowed_def counted_probability_def source_accepted_def)
  qed
qed

lemma separate_from_included:
  assumes "separate_from rt policy i cs s = Inr t"
  shows "x \<in> set (us_included t) \<longleftrightarrow> x \<in> set (us_included s) \<or>
    (\<exists>k<length cs. x = component_id_at (cs ! k) (i + k) \<and> (\<exists>q. counted_probability rt policy (cs ! k) q))"
  using assms
proof (induction cs arbitrary: i s)
  case (Cons c cs)
  have later: "(\<exists>k<length (c # cs). x = component_id_at ((c # cs) ! k) (i + k) \<and> (\<exists>q. counted_probability rt policy ((c # cs) ! k) q)) \<longleftrightarrow>
      x = component_id_at c i \<and> (\<exists>q. counted_probability rt policy c q) \<or>
      (\<exists>k<length cs. x = component_id_at (cs ! k) (Suc i + k) \<and> (\<exists>q. counted_probability rt policy (cs ! k) q))"
    unfolding list.size(4) Nat.add_0_right add_Suc_right One_nat_def Ex_less_Suc2 nth_Cons_0 nth_Cons_Suc add_0_right add_Suc ..
  from Cons.prems obtain v0 where v: "signed_value rt c = Inr v0" by (auto simp: res_simps)
  show ?case
  proof (cases "certainty_of c = ''guaranteed''")
    case True
    then have "\<not> Ex (counted_probability rt policy c)" by (simp add: counted_probability_def)
    with Cons v True show ?thesis unfolding later by auto
  next
    case False
    with Cons.prems v obtain a where a: "probability_allowed rt c policy = Inr a" by (auto simp: res_simps)
    show ?thesis
    proof (cases a)
      case (Inl reason)
      then have "\<not> Ex (counted_probability rt policy c)" using a unfolding probability_allowed_iff [symmetric] by simp
      with Cons v a Inl False show ?thesis unfolding later by auto
    next
      case (Inr q)
      then have "Ex (counted_probability rt policy c)" using a unfolding probability_allowed_iff [symmetric] by blast
      with Cons v a Inr False show ?thesis unfolding later by auto
    qed
  qed
qed simp

lemma separate_from_guaranteed:
  assumes "separate_from rt PO_guaranteed_only i cs s = Inr t"
  shows "us_probabilistic t = us_probabilistic s"
  using assms
proof (induction cs arbitrary: i s)
  case (Cons c cs)
  have "\<not> counted_probability rt PO_guaranteed_only c q" for q
    by (simp add: counted_probability_def source_accepted_def split: option.splits)
  then have "probability_allowed rt c PO_guaranteed_only \<noteq> Inr (Inr q)" for q
    unfolding probability_allowed_iff by simp
  then have allowed: "probability_allowed rt c PO_guaranteed_only = Inr a \<Longrightarrow> \<exists>r. a = Inl r" for a
    by (cases a) auto
  from Cons.prems obtain v where v: "signed_value rt c = Inr v" by (auto simp: res_simps)
  show ?case
  proof (cases "certainty_of c = ''guaranteed''")
    case True
    with Cons.prems v show ?thesis by (auto dest: Cons.IH)
  next
    case False
    with Cons.prems v obtain a where a: "probability_allowed rt c PO_guaranteed_only = Inr a" by (auto simp: res_simps)
    with allowed obtain r where "a = Inl r" by blast
    with Cons.prems v False a show ?thesis by (auto dest: Cons.IH)
  qed
qed simp

text \<open>Only supported probabilities count: \<open>separateProbabilisticComponents\<close> includes exactly the
  components marked probabilistic whose source is disclosed and accepted by the policy and whose
  probability is a number between zero and one.
\<close>

theorem included_components_are_supported:
  assumes "separate_components rt cs policy = Inr s"
  shows "x \<in> set (us_included s) \<longleftrightarrow>
    (\<exists>k<length cs. x = component_id_at (cs ! k) k \<and> (\<exists>q. counted_probability rt policy (cs ! k) q))"
proof -
  from assms obtain t where t: "separate_from rt policy 0 cs
      \<lparr>us_guaranteed = 0, us_probabilistic = 0, us_included = [], us_excluded = [], us_reasons = []\<rparr> = Inr t"
    and s: "us_included s = js_sort (us_included t)"
    unfolding separate_components_def by (auto simp: res_simps)
  show ?thesis unfolding s js_sort_simps separate_from_included [OF t] by simp
qed

text \<open>Under the default policy no probabilistic value is counted: nothing is included and the
  expected value of a list of components is its guaranteed value.
\<close>

theorem guaranteed_policy_excludes_probability:
  assumes "separate_components rt cs PO_guaranteed_only = Inr s"
  shows "us_included s = [] \<and> us_probabilistic s = 0 \<and> expected_value rt s = rt_round rt (us_guaranteed s)"
proof -
  from assms obtain t where t: "separate_from rt PO_guaranteed_only 0 cs
      \<lparr>us_guaranteed = 0, us_probabilistic = 0, us_included = [], us_excluded = [], us_reasons = []\<rparr> = Inr t"
    and s: "us_probabilistic s = us_probabilistic t" "us_included s = js_sort (us_included t)"
    unfolding separate_components_def by (auto simp: res_simps)
  have none: "\<not> counted_probability rt PO_guaranteed_only c q" for c q
    by (simp add: counted_probability_def source_accepted_def split: option.splits)
  have "x \<notin> set (us_included s)" for x
    unfolding s js_sort_simps separate_from_included [OF t] using none by simp
  then have "us_included s = []" by (metis list.set_intros(1) neq_Nil_conv)
  moreover have "us_probabilistic s = 0" unfolding s separate_from_guaranteed [OF t] by simp
  ultimately show ?thesis by (simp add: expected_value_def dadd_def)
qed

section \<open>States given through the plans\<close>

lemma fold_om_set_ok:
  "om_ok m \<Longrightarrow> om_ok (fold (\<lambda>x m. case f x of None \<Rightarrow> m | Some (k, v) \<Rightarrow> om_set k v m) xs m)"
  by (induction xs arbitrary: m) (auto simp: om_ok_set split: option.splits)

lemma states_from_plans_keyed: "keyed_states (states_from_plans plans)"
proof (cases "unique (concat (map (\<lambda>p. map (\<lambda>q. default_to ''state_0'' (fq_state_id q)) (fp_states p) @ map fst (fp_values p)) plans)) = []")
  case True
  have "om_ok (fold (\<lambda>(i, p). om_set (plan_id_at p i) (g p)) xs [])" for g xs
    using fold_om_set_ok [of "[]" "\<lambda>(i, p). Some (plan_id_at p i, g p)" xs] by (simp add: case_prod_beta')
  with True show ?thesis by (simp add: states_from_plans_def keyed_states_def Let_def)
next
  case False
  define ids where "ids = js_sort (unique (concat (map (\<lambda>p. map (\<lambda>q. default_to ''state_0'' (fq_state_id q)) (fp_states p) @ map fst (fp_values p)) plans)))"
  have ok: "om_ok (fold (\<lambda>(i, p) m. case plan_in_state sid i p of None \<Rightarrow> m | Some (k, v) \<Rightarrow> om_set k v m) xs [])" for sid xs
    using fold_om_set_ok [of "[]" "\<lambda>(i, p). plan_in_state sid i p" xs] by (simp add: case_prod_beta')
  have "distinct ids" by (simp add: ids_def)
  moreover have "map (\<lambda>(i, s). state_id_at s i) (enumerate 0 (states_from_plans plans)) = ids"
    unfolding states_from_plans_def Let_def using False
    by (intro nth_equalityI) (auto simp: nth_enumerate_eq state_id_at_def ids_def)
  ultimately show ?thesis
    unfolding keyed_states_def using False ok by (auto simp: states_from_plans_def Let_def)
qed

section \<open>A concrete evaluation\<close>

text \<open>Two plans in two states: the first is worth 100 to 120 and 90 yen, the second 80 and 70.\<close>

definition sample_amount :: "int \<Rightarrow> plan_value" where
  "sample_amount n = PV_number (DNum (num n))"

definition sample_interval :: "int \<Rightarrow> int \<Rightarrow> plan_value" where
  "sample_interval a c = PV_state None None None (Some (DNum (num a))) (Some (DNum (num c))) None None None []"

definition sample_state :: "string \<Rightarrow> (string \<times> plan_value) list \<Rightarrow> feasible_state" where
  "sample_state i ps = \<lparr>fs_state_id = Some i, fs_assignments = [], fs_unknown_keys = [], fs_conditions = [],
     fs_questions = [], fs_plans = ps\<rparr>"

definition sample_states :: "feasible_state list" where
  "sample_states =
     [sample_state ''s'' [(''a'', sample_interval 100 120), (''b'', sample_amount 80)],
      sample_state ''t'' [(''a'', sample_amount 90), (''b'', sample_amount 70)]]"

definition sample_input :: "string \<Rightarrow> feasible_state list \<Rightarrow> feasible_input" where
  "sample_input objective ss = \<lparr>fe_states = Some ss, fe_plans = [], fe_objective = Some objective, fe_policy = None,
     fe_questions = []\<rparr>"

abbreviation sample_evaluation :: "string \<Rightarrow> feasible_state list \<Rightarrow> feasible_result res" where
  "sample_evaluation objective ss \<equiv> evaluate_feasible_states ref_rt (\<lambda>_. []) (\<lambda>_. []) (sample_input objective ss)"

lemma sample_keyed: "keyed_states (input_states (sample_input g sample_states))"
  by (simp add: keyed_states_def input_states_def sample_input_def sample_states_def sample_state_def
      state_id_at_def om_ok_def)

lemma sample_is_ok: "is_ok (sample_evaluation ''guaranteed'' sample_states)"
  by code_simp

lemma sample_definite: "map_sum id fr_definite (sample_evaluation ''guaranteed'' sample_states) = Inr (Some ''a'')"
  by code_simp

lemma sample_plans:
  "plans_in ref_rt (sample_input ''guaranteed'' sample_states) (sample_states ! 1) =
     [(''a'', \<lparr>ep_guaranteed = exact_range 90, ep_expected = exact_range 90, ep_eligible = True, ep_conditions = []\<rparr>),
      (''b'', \<lparr>ep_guaranteed = exact_range 70, ep_expected = exact_range 70, ep_eligible = True, ep_conditions = []\<rparr>)]"
  by code_simp

lemma sample_result:
  obtains r where "sample_evaluation ''guaranteed'' sample_states = Inr r" "fr_definite r = Some ''a''"
  using sample_definite by (cases "sample_evaluation ''guaranteed'' sample_states") auto

lemma sample_shape:
  "input_states (sample_input g ss) = ss" "length sample_states = 2" "\<not> objective_expected (sample_input ''guaranteed'' ss)"
  "sample_states ! 1 \<in> set sample_states"
  by (simp_all add: input_states_def sample_input_def sample_states_def) code_simp

theorem definite_winner_dominates_witness:
  "\<exists>r. sample_evaluation ''guaranteed'' sample_states = Inr r \<and> fr_definite r = Some ''a'' \<and>
     dominates False (plans_in ref_rt (sample_input ''guaranteed'' sample_states) (sample_states ! 1)) ''a''"
proof -
  obtain r where r: "sample_evaluation ''guaranteed'' sample_states = Inr r" "fr_definite r = Some ''a''"
    by (rule sample_result)
  with definite_winner_dominates [OF r(1) sample_keyed, of "''a''"] show ?thesis by (auto simp: sample_shape)
qed

theorem possible_winners_are_possible_witness:
  "\<exists>r. sample_evaluation ''guaranteed'' sample_states = Inr r \<and> ''a'' \<in> set (rk_possible (fr_states r ! 1))"
proof -
  obtain r where r: "sample_evaluation ''guaranteed'' sample_states = Inr r" by (rule sample_result)
  have "feasible_values False (plans_in ref_rt (sample_input ''guaranteed'' sample_states) (sample_states ! 1))
      (\<lambda>j. if j = ''a'' then 90 else 70)"
    "best_under (plans_in ref_rt (sample_input ''guaranteed'' sample_states) (sample_states ! 1))
      (\<lambda>j. if j = ''a'' then 90 else 70) ''a''"
    unfolding sample_plans by (auto simp: feasible_values_def best_under_def chosen_range_def exact_range_def)
  with possible_winners_are_possible [OF r sample_keyed, of 1 "''a''"] r show ?thesis
    by (auto simp: sample_shape)
qed

theorem safe_plan_is_maximin_witness:
  "\<exists>r w. sample_evaluation ''guaranteed'' sample_states = Inr r \<and> fr_safe r = Some w \<and>
     (\<exists>m. \<exists>p. (w, p) \<in> set (plans_in ref_rt (sample_input ''guaranteed'' sample_states) (sample_states ! 1)) \<and>
        m \<le> jr_min (ep_guaranteed p))"
proof -
  have "map_sum id fr_safe (sample_evaluation ''guaranteed'' sample_states) = Inr (Some ''a'')" by code_simp
  then obtain r where r: "sample_evaluation ''guaranteed'' sample_states = Inr r" "fr_safe r = Some ''a''"
    by (cases "sample_evaluation ''guaranteed'' sample_states") auto
  from safe_plan_is_maximin [OF ref.host_axioms r(1) sample_keyed r(2)] r show ?thesis
    unfolding sample_shape(1) using sample_shape(4) by blast
qed

theorem summaries_cover_states_witness:
  "\<exists>r y. sample_evaluation ''guaranteed'' sample_states = Inr r \<and> y \<in> set (fr_summaries r) \<and> jr_min (sy_range y) \<le> 90"
proof -
  obtain r where r: "sample_evaluation ''guaranteed'' sample_states = Inr r" by (rule sample_result)
  have "(''a'', \<lparr>ep_guaranteed = exact_range 90, ep_expected = exact_range 90, ep_eligible = True, ep_conditions = []\<rparr>)
      \<in> set (plans_in ref_rt (sample_input ''guaranteed'' sample_states) (sample_states ! 1))"
    unfolding sample_plans by simp
  from summaries_cover_states [OF r sample_keyed, unfolded sample_shape(1), OF sample_shape(4) this] r show ?thesis
    by (auto simp: sample_shape chosen_range_def exact_range_def)
qed

definition sample_component :: probabilistic_component where
  "sample_component = \<lparr>uc_value = Some (DNum (num 7)), uc_sign = None, uc_certainty = Some ''probabilistic'',
     uc_probability = Some (DNum (num 1)), uc_probability_source = Some ''official_disclosed'',
     uc_rule_id = None, uc_component_id = Some ''c''\<rparr>"

theorem included_components_are_supported_witness:
  "\<exists>s. separate_components ref_rt [sample_component] PO_expected_if_official_probability = Inr s \<and> ''c'' \<in> set (us_included s)"
proof -
  have "is_ok (separate_components ref_rt [sample_component] PO_expected_if_official_probability)" by code_simp
  then obtain s where s: "separate_components ref_rt [sample_component] PO_expected_if_official_probability = Inr s"
    unfolding is_ok_iff by blast
  have "counted_probability ref_rt PO_expected_if_official_probability sample_component 1" "component_id_at sample_component 0 = ''c''"
    by code_simp+
  with included_components_are_supported [OF s, of "''c''"] s show ?thesis by auto
qed

theorem guaranteed_policy_excludes_probability_witness:
  "\<exists>s. separate_components ref_rt [sample_component] PO_guaranteed_only = Inr s \<and> us_probabilistic s = 0"
proof -
  have "is_ok (separate_components ref_rt [sample_component] PO_guaranteed_only)" by code_simp
  then obtain s where s: "separate_components ref_rt [sample_component] PO_guaranteed_only = Inr s"
    unfolding is_ok_iff by blast
  with guaranteed_policy_excludes_probability [OF s] show ?thesis by blast
qed

text \<open>
  A guaranteed base given as a minimum and a maximum is lost as soon as the plan also lists
  components: only an exact base, or one with an expected value, is added to them.
\<close>

theorem range_base_is_dropped_with_components:
  "rmap ep_guaranteed (plan_value_of ref_rt
     (PV_state None (Some (sample_interval 100 120)) None None None None None (Some [sample_component]) []) PO_guaranteed_only)
   = Inr (exact_range 0)"
  by code_simp

text \<open>
  With an expected-value objective the plan reported as runner-up can be the winner itself: the
  winner is ranked by expected value, the runner-up by the guaranteed worst case.
\<close>

definition sample_expected_states :: "feasible_state list" where
  "sample_expected_states =
     [sample_state ''s''
        [(''a'', PV_state None (Some (sample_amount 10)) (Some (sample_amount 90)) None None None None None []),
         (''b'', PV_state None (Some (sample_amount 20)) (Some (sample_amount 30)) None None None None None [])]]"

theorem runner_up_can_be_the_winner:
  "map_sum id (\<lambda>r. (fr_definite r, fr_runner_up r)) (sample_evaluation ''maximize_expected'' sample_expected_states)
     = Inr (Some ''a'', Some ''a'')"
  by code_simp

end
