(* ===== verification/Input_Guard.thy ===== *)
theory Input_Guard
  imports Reference_Runtime EngineTypes
begin

text \<open>
  The guards in front of the point optimizers (\<open>packages/rule-engine/src/input-guard.ts\<close>):
  the projection of an untrusted object graph into plain data, the key check of a record and
  calendar dates.  A graph is a heap of JavaScript objects as \<open>Object.getOwnPropertyDescriptors\<close>
  shows them; the active set is a set of addresses.
\<close>

section \<open>JavaScript values\<close>

datatype js_value =
  JV_undefined | JV_null | JV_bool bool | JV_num js_number | JV_big int | JV_str string
| JV_symbol | JV_function | JV_ref nat

text \<open>A property descriptor; one without a \<open>value\<close> is an accessor.\<close>

record descriptor =
  ds_enumerable :: bool
  ds_value :: "js_value option"

datatype js_proto = Proto_object | Proto_null | Proto_other

text \<open>An object: whether it is a proxy, the number of its symbol keys, its length when it is an
  array, its prototype and its own string keys, \<open>length\<close> of an array included.\<close>

record js_object =
  jo_proxy :: bool
  jo_symbols :: nat
  jo_array :: "nat option"
  jo_proto :: js_proto
  jo_props :: "(string \<times> descriptor) list"

type_synonym js_heap = "nat \<Rightarrow> js_object"

definition max_depth :: nat where "max_depth = 24"

definition max_array_length :: nat where "max_array_length = 512"

section \<open>Plain data\<close>

definition data_value :: "string \<Rightarrow> descriptor option \<Rightarrow> js_value res" where
  "data_value code d =
     (case d of
        None \<Rightarrow> Inl code
      | Some p \<Rightarrow> if \<not> ds_enumerable p then Inl code
          else (case ds_value p of None \<Rightarrow> Inl code | Some v \<Rightarrow> Inr v))"

definition forbidden_key :: "string \<Rightarrow> bool" where
  "forbidden_key k \<longleftrightarrow> k = ''__proto__'' \<or> k = ''constructor'' \<or> k = ''prototype''"

definition keyed_value :: "string \<Rightarrow> string \<times> descriptor \<Rightarrow> js_value res" where
  "keyed_value code kd = rbind (data_value code (Some (snd kd))) (\<lambda>v. if forbidden_key (fst kd) then Inl code else Inr v)"

function plain_input :: "js_heap \<Rightarrow> string \<Rightarrow> nat set \<Rightarrow> nat \<Rightarrow> js_value \<Rightarrow> json res" where
  "plain_input heap code active depth v =
     (case v of
        JV_null \<Rightarrow> Inr JNull
      | JV_str s \<Rightarrow> Inr (JStr s)
      | JV_bool b \<Rightarrow> Inr (JBool b)
      | JV_num n \<Rightarrow> if n = NonFinite then Inl code else Inr (JNum n)
      | JV_ref a \<Rightarrow>
          if max_depth < depth \<or> jo_proxy (heap a) then Inl code
          else if a \<in> active then Inl code
          else if 0 < jo_symbols (heap a) then Inl code
          else (case jo_array (heap a) of
             Some n \<Rightarrow>
               if length (jo_props (heap a)) \<noteq> n + 1 \<or> max_array_length < n then Inl code
               else rmap JArr (traverse (\<lambda>i.
                 rbind (data_value code (map_of (jo_props (heap a)) (nat_text i)))
                   (\<lambda>u. plain_input heap code (insert a active) (Suc depth) u)) [0..<n])
           | None \<Rightarrow>
               if jo_proto (heap a) = Proto_other then Inl code
               else rmap JObj (traverse (\<lambda>kd. rmap (Pair (fst kd)) (rbind (keyed_value code kd)
                   (\<lambda>u. plain_input heap code (insert a active) (Suc depth) u))) (jo_props (heap a))))
      | _ \<Rightarrow> Inl code)"
  by pat_completeness auto
termination
  by (relation "measure (\<lambda>(heap, code, active, depth, v). Suc max_depth - depth)") auto

declare plain_input.simps [simp del]

definition exact_keys :: "(string \<times> 'a) list \<Rightarrow> string list \<Rightarrow> string \<Rightarrow> unit res" where
  "exact_keys r keys code = guard (js_sort (map fst r) = js_sort keys) code"

section \<open>What plain data is\<close>

text \<open>The elements of a plain array and the entries of a plain object.\<close>

definition holds_value :: "descriptor \<Rightarrow> js_value \<Rightarrow> bool" where
  "holds_value d v \<longleftrightarrow> ds_enumerable d \<and> ds_value d = Some v"

definition plain_array :: "js_object \<Rightarrow> js_value list \<Rightarrow> bool" where
  "plain_array ob vs \<longleftrightarrow> \<not> jo_proxy ob \<and> jo_symbols ob = 0 \<and> jo_array ob = Some (length vs) \<and>
     length vs \<le> max_array_length \<and> length (jo_props ob) = length vs + 1 \<and>
     list_all2 (\<lambda>i v. \<exists>d. map_of (jo_props ob) (nat_text i) = Some d \<and> holds_value d v) [0..<length vs] vs"

definition plain_object :: "js_object \<Rightarrow> (string \<times> js_value) list \<Rightarrow> bool" where
  "plain_object ob kvs \<longleftrightarrow> \<not> jo_proxy ob \<and> jo_symbols ob = 0 \<and> jo_array ob = None \<and> jo_proto ob \<noteq> Proto_other \<and>
     list_all2 (\<lambda>(k, d) (k', v). k' = k \<and> holds_value d v \<and> \<not> forbidden_key k) (jo_props ob) kvs"

text \<open>The document a value stands for: the finite trees of plain arrays and objects.\<close>

inductive denotes :: "js_heap \<Rightarrow> js_value \<Rightarrow> json \<Rightarrow> bool" for heap where
  denotes_null: "denotes heap JV_null JNull"
| denotes_str: "denotes heap (JV_str s) (JStr s)"
| denotes_bool: "denotes heap (JV_bool b) (JBool b)"
| denotes_num: "n \<noteq> NonFinite \<Longrightarrow> denotes heap (JV_num n) (JNum n)"
| denotes_array: "plain_array (heap a) vs \<Longrightarrow> list_all2 (denotes heap) vs js \<Longrightarrow> denotes heap (JV_ref a) (JArr js)"
| denotes_object: "plain_object (heap a) kvs \<Longrightarrow> map fst kjs = map fst kvs \<Longrightarrow>
    list_all2 (denotes heap) (map snd kvs) (map snd kjs) \<Longrightarrow> denotes heap (JV_ref a) (JObj kjs)"

inductive_simps denotes_ref_iff: "denotes heap (JV_ref a) j"

inductive_simps denotes_leaf_simps:
  "denotes heap JV_null j" "denotes heap (JV_str s) j" "denotes heap (JV_bool b) j" "denotes heap (JV_num n) j"
  "denotes heap JV_undefined j" "denotes heap (JV_big i) j" "denotes heap JV_symbol j" "denotes heap JV_function j"

fun json_depth :: "json \<Rightarrow> nat" where
  "json_depth (JArr js) = Suc (foldr max (map json_depth js) 0)"
| "json_depth (JObj kjs) = Suc (foldr max (map (\<lambda>kj. json_depth (snd kj)) kjs) 0)"
| "json_depth _ = 0"

lemma foldr_max_le_iff: "foldr max ns 0 \<le> (m :: nat) \<longleftrightarrow> (\<forall>n\<in>set ns. n \<le> m)"
  by (induction ns) auto

lemma foldr_max_ge: "n \<in> set ns \<Longrightarrow> n \<le> foldr max ns (0 :: nat)"
  using foldr_max_le_iff [of ns "foldr max ns 0"] by simp

lemma depth_element: "j \<in> set js \<Longrightarrow> json_depth j < json_depth (JArr js)"
  using foldr_max_ge [of "json_depth j" "map json_depth js"] by simp

lemma depth_entry: "kj \<in> set kjs \<Longrightarrow> json_depth (snd kj) < json_depth (JObj kjs)"
  using foldr_max_ge [of "json_depth (snd kj)" "map (\<lambda>kj. json_depth (snd kj)) kjs"] by simp

text \<open>A value stands for at most one document.\<close>

lemma list_all2_unique:
  assumes "list_all2 P xs ys" "list_all2 Q xs zs" "\<And>x y z. x \<in> set xs \<Longrightarrow> P x y \<Longrightarrow> Q x z \<Longrightarrow> z = y"
  shows "zs = ys"
  using assms by (induction arbitrary: zs rule: list_all2_induct) (auto simp: list_all2_Cons1)

lemma plain_array_unique:
  assumes "plain_array ob vs" "plain_array ob us"
  shows "us = vs"
proof (rule list_all2_unique)
  let ?P = "\<lambda>i v. \<exists>d. map_of (jo_props ob) (nat_text i) = Some d \<and> holds_value d v"
  have "length us = length vs" using assms by (simp add: plain_array_def)
  then show "list_all2 ?P [0..<length vs] vs" "list_all2 ?P [0..<length vs] us"
    using assms by (auto simp: plain_array_def)
qed (auto simp: holds_value_def)

lemma plain_object_unique:
  assumes "plain_object ob kvs" "plain_object ob kus"
  shows "kus = kvs"
proof (rule list_all2_unique)
  let ?P = "\<lambda>(k, d) (k', v). k' = k \<and> holds_value d v \<and> \<not> forbidden_key k"
  show "list_all2 ?P (jo_props ob) kvs" "list_all2 ?P (jo_props ob) kus"
    using assms by (auto simp: plain_object_def)
qed (auto simp: holds_value_def)

lemma plain_array_not_object: "plain_array ob vs \<Longrightarrow> \<not> plain_object ob kvs"
  by (simp add: plain_array_def plain_object_def)

lemma denotes_unique: "denotes heap v j \<Longrightarrow> denotes heap v j' \<Longrightarrow> j' = j"
proof (induction arbitrary: j' rule: denotes.induct)
  case (denotes_array a vs js)
  from denotes_array.prems plain_array_not_object [OF denotes_array.hyps(1)] obtain us ks
    where k: "j' = JArr ks" "plain_array (heap a) us" "list_all2 (denotes heap) us ks"
    unfolding denotes_ref_iff by blast
  with denotes_array.hyps(1) have "us = vs" using plain_array_unique by blast
  with k(3) have "list_all2 (denotes heap) vs ks" by simp
  from list_all2_unique [OF denotes_array.IH this] have "ks = js" by blast
  with k show ?case by simp
next
  case (denotes_object a kvs kjs)
  from denotes_object.prems plain_array_not_object denotes_object.hyps(1) obtain kus kks
    where k: "j' = JObj kks" "plain_object (heap a) kus" "map fst kks = map fst kus" "list_all2 (denotes heap) (map snd kus) (map snd kks)"
    unfolding denotes_ref_iff by blast
  with denotes_object.hyps(1) have eq: "kus = kvs" using plain_object_unique by blast
  with k(4) have "list_all2 (denotes heap) (map snd kvs) (map snd kks)" by simp
  from list_all2_unique [OF denotes_object.IH this] have "map snd kks = map snd kjs" by blast
  with k eq denotes_object.hyps(2) have "kks = kjs" by (metis zip_map_fst_snd)
  with k show ?case by simp
qed (simp_all add: denotes_leaf_simps)

section \<open>The projection is exact\<close>

lemma data_value_iff: "data_value code d = Inr v \<longleftrightarrow> (\<exists>p. d = Some p \<and> holds_value p v)"
  by (auto simp: data_value_def holds_value_def split: option.splits)

lemma keyed_value_iff: "keyed_value code kd = Inr v \<longleftrightarrow> holds_value (snd kd) v \<and> \<not> forbidden_key (fst kd)"
  by (auto simp: keyed_value_def res_simps data_value_iff split: if_splits)

lemma array_traverse:
  "traverse (\<lambda>i. rbind (data_value code (m i)) f) is = Inr js \<longleftrightarrow>
     (\<exists>vs. list_all2 (\<lambda>i v. \<exists>d. m i = Some d \<and> holds_value d v) is vs \<and> list_all2 (\<lambda>u j. f u = Inr j) vs js)"
proof -
  have "(\<lambda>i j. rbind (data_value code (m i)) f = Inr j) =
      (\<lambda>i v. \<exists>d. m i = Some d \<and> holds_value d v) OO (\<lambda>u j. f u = Inr j)"
    by (auto simp: fun_eq_iff res_simps data_value_iff)
  then show ?thesis unfolding traverse_Inr_iff by (simp add: list.rel_compp relcompp_apply)
qed

lemma object_traverse:
  "traverse (\<lambda>kd. rmap (Pair (fst kd)) (rbind (keyed_value code kd) f)) ps = Inr kjs \<longleftrightarrow>
     (\<exists>kvs. list_all2 (\<lambda>(k, d) (k', v). k' = k \<and> holds_value d v \<and> \<not> forbidden_key k) ps kvs \<and>
        map fst kjs = map fst kvs \<and> list_all2 (\<lambda>u j. f u = Inr j) (map snd kvs) (map snd kjs))"
proof -
  have "(\<lambda>kd kj. rmap (Pair (fst kd)) (rbind (keyed_value code kd) f) = Inr kj) =
      (\<lambda>(k, d) (k', v). k' = k \<and> holds_value d v \<and> \<not> forbidden_key k) OO
      (\<lambda>kv kj. fst kj = fst kv \<and> f (snd kv) = Inr (snd kj))"
    by (auto simp: fun_eq_iff res_simps keyed_value_iff relcompp_apply)
  moreover have "list_all2 (\<lambda>kv kj. fst kj = fst kv \<and> f (snd kv) = Inr (snd kj)) kvs kjs \<longleftrightarrow>
      map fst kjs = map fst kvs \<and> list_all2 (\<lambda>u j. f u = Inr j) (map snd kvs) (map snd kjs)" for kvs
    by (auto simp: list_all2_conv_all_nth list_eq_iff_nth_eq)
  ultimately show ?thesis unfolding traverse_Inr_iff by (simp add: list.rel_compp relcompp_apply)
qed

lemma plain_input_ref:
  "plain_input heap code active d (JV_ref a) = Inr j \<longleftrightarrow> d \<le> max_depth \<and> a \<notin> active \<and>
     ((\<exists>vs js. j = JArr js \<and> plain_array (heap a) vs \<and>
         list_all2 (\<lambda>u i. plain_input heap code (insert a active) (Suc d) u = Inr i) vs js) \<or>
      (\<exists>kvs kjs. j = JObj kjs \<and> plain_object (heap a) kvs \<and> map fst kjs = map fst kvs \<and>
         list_all2 (\<lambda>u i. plain_input heap code (insert a active) (Suc d) u = Inr i) (map snd kvs) (map snd kjs)))"
proof (cases "jo_array (heap a)")
  case None
  define T where "T = traverse (\<lambda>kd. rmap (Pair (fst kd)) (rbind (keyed_value code kd)
    (\<lambda>u. plain_input heap code (insert a active) (Suc d) u))) (jo_props (heap a))"
  have "plain_input heap code active d (JV_ref a) = Inr j \<longleftrightarrow> d \<le> max_depth \<and> \<not> jo_proxy (heap a) \<and> a \<notin> active \<and>
      jo_symbols (heap a) = 0 \<and> jo_proto (heap a) \<noteq> Proto_other \<and> (\<exists>kjs. j = JObj kjs \<and> T = Inr kjs)"
    by (subst plain_input.simps) (auto simp: None T_def [symmetric] rmap_Inr_iff)
  also have "\<dots> \<longleftrightarrow> d \<le> max_depth \<and> a \<notin> active \<and> (\<exists>kvs kjs. j = JObj kjs \<and> plain_object (heap a) kvs \<and>
      map fst kjs = map fst kvs \<and>
      list_all2 (\<lambda>u i. plain_input heap code (insert a active) (Suc d) u = Inr i) (map snd kvs) (map snd kjs))"
    unfolding T_def object_traverse plain_object_def None by blast
  finally show ?thesis by (simp add: plain_array_def None)
next
  case (Some n)
  define T where "T = traverse (\<lambda>i. rbind (data_value code (map_of (jo_props (heap a)) (nat_text i)))
    (\<lambda>u. plain_input heap code (insert a active) (Suc d) u)) [0..<n]"
  have "plain_input heap code active d (JV_ref a) = Inr j \<longleftrightarrow> d \<le> max_depth \<and> \<not> jo_proxy (heap a) \<and> a \<notin> active \<and>
      jo_symbols (heap a) = 0 \<and> length (jo_props (heap a)) = n + 1 \<and> n \<le> max_array_length \<and> (\<exists>js. j = JArr js \<and> T = Inr js)"
    by (subst plain_input.simps) (auto simp: Some T_def [symmetric] rmap_Inr_iff)
  also have "\<dots> \<longleftrightarrow> d \<le> max_depth \<and> a \<notin> active \<and> (\<exists>vs js. j = JArr js \<and> plain_array (heap a) vs \<and>
      list_all2 (\<lambda>u i. plain_input heap code (insert a active) (Suc d) u = Inr i) vs js)"
  proof -
    have "plain_array (heap a) vs \<longleftrightarrow> \<not> jo_proxy (heap a) \<and> jo_symbols (heap a) = 0 \<and> n \<le> max_array_length \<and>
        length (jo_props (heap a)) = n + 1 \<and>
        list_all2 (\<lambda>i v. \<exists>d. map_of (jo_props (heap a)) (nat_text i) = Some d \<and> holds_value d v) [0..<n] vs" for vs
      unfolding plain_array_def Some by (cases "length vs = n") (auto dest: list_all2_lengthD)
    then show ?thesis unfolding T_def array_traverse by blast
  qed
  finally show ?thesis by (simp add: plain_object_def Some)
qed

lemma plain_input_leaf:
  assumes "\<And>a. v \<noteq> JV_ref a"
  shows "plain_input heap code active d v = Inr j \<longleftrightarrow> denotes heap v j"
proof (cases v)
  case (JV_ref a)
  with assms show ?thesis by blast
qed (auto simp: plain_input.simps denotes_leaf_simps)

lemma denotes_depth_leaf:
  assumes "denotes heap v j" "\<And>a. v \<noteq> JV_ref a"
  shows "json_depth j = 0"
proof (cases v)
  case (JV_ref a)
  with assms show ?thesis by blast
qed (use assms in \<open>auto simp: denotes_leaf_simps\<close>)

text \<open>The nesting that is accepted below an object at depth \<open>d\<close>.\<close>

definition fits :: "nat \<Rightarrow> json \<Rightarrow> bool" where
  "fits d j \<longleftrightarrow> json_depth j = 0 \<or> d + json_depth j \<le> Suc max_depth"

lemma fits_nested:
  assumes "json_depth j = Suc (foldr max (map json_depth js) 0)"
  shows "fits d j \<longleftrightarrow> d \<le> max_depth \<and> (\<forall>i\<in>set js. fits (Suc d) i)"
proof -
  have "fits d j \<longleftrightarrow> d \<le> max_depth \<and> foldr max (map json_depth js) 0 \<le> max_depth - d"
    unfolding fits_def assms by linarith
  also have "\<dots> \<longleftrightarrow> d \<le> max_depth \<and> (\<forall>i\<in>set js. json_depth i \<le> max_depth - d)"
    unfolding foldr_max_le_iff by simp
  also have "\<dots> \<longleftrightarrow> d \<le> max_depth \<and> (\<forall>i\<in>set js. fits (Suc d) i)"
    unfolding fits_def by (intro conj_cong ball_cong refl) linarith
  finally show ?thesis .
qed

lemma fits_array: "fits d (JArr js) \<longleftrightarrow> d \<le> max_depth \<and> (\<forall>i\<in>set js. fits (Suc d) i)"
  by (rule fits_nested) simp

lemma fits_object: "fits d (JObj kjs) \<longleftrightarrow> d \<le> max_depth \<and> (\<forall>i\<in>set (map snd kjs). fits (Suc d) i)"
  by (rule fits_nested) (simp add: comp_def)

lemma list_all2_both:
  assumes "list_all2 P xs ys" "\<And>x y. x \<in> set xs \<Longrightarrow> y \<in> set ys \<Longrightarrow> P x y \<Longrightarrow> Q x y \<and> R y"
  shows "list_all2 Q xs ys \<and> (\<forall>y\<in>set ys. R y)"
  using assms by (induction rule: list_all2_induct) auto

lemma plain_input_sound:
  "plain_input heap code active d v = Inr j \<Longrightarrow> denotes heap v j \<and> fits d j"
proof (induction "Suc max_depth - d" arbitrary: active d v j rule: less_induct)
  case less
  show ?case
  proof (cases "\<exists>a. v = JV_ref a")
    case False
    with less.prems plain_input_leaf denotes_depth_leaf show ?thesis by (metis fits_def)
  next
    case True
    then obtain a where v: "v = JV_ref a" ..
    note run = less.prems [unfolded v plain_input_ref]
    then have d: "d \<le> max_depth" by simp
    have IH: "denotes heap u i \<and> fits (Suc d) i" if "plain_input heap code (insert a active) (Suc d) u = Inr i" for u i
      using less.hyps [OF _ that] d by simp
    from run consider
      vs js where "j = JArr js" "plain_array (heap a) vs"
        "list_all2 (\<lambda>u i. plain_input heap code (insert a active) (Suc d) u = Inr i) vs js"
    | kvs kjs where "j = JObj kjs" "plain_object (heap a) kvs" "map fst kjs = map fst kvs"
        "list_all2 (\<lambda>u i. plain_input heap code (insert a active) (Suc d) u = Inr i) (map snd kvs) (map snd kjs)"
      by blast
    then show ?thesis
    proof cases
      case 1
      have "list_all2 (denotes heap) vs js \<and> (\<forall>i\<in>set js. fits (Suc d) i)"
        by (rule list_all2_both [OF 1(3)]) (rule IH)
      with 1 d show ?thesis unfolding v by (simp add: fits_array denotes_array)
    next
      case 2
      have "list_all2 (denotes heap) (map snd kvs) (map snd kjs) \<and> (\<forall>i\<in>set (map snd kjs). fits (Suc d) i)"
        by (rule list_all2_both [OF 2(4)]) (rule IH)
      with 2 d show ?thesis unfolding v by (simp add: fits_object denotes_object)
    qed
  qed
qed

lemma list_all2_to:
  assumes "list_all2 P xs ys" "\<And>x y. y \<in> set ys \<Longrightarrow> P x y \<Longrightarrow> Q x y"
  shows "list_all2 Q xs ys"
  using assms by (induction rule: list_all2_induct) auto

lemma plain_input_complete:
  "denotes heap v j \<Longrightarrow> fits d j \<Longrightarrow>
   (\<And>b i. b \<in> active \<Longrightarrow> denotes heap (JV_ref b) i \<Longrightarrow> json_depth j < json_depth i) \<Longrightarrow>
   plain_input heap code active d v = Inr j"
proof (induction "Suc max_depth - d" arbitrary: active d v j rule: less_induct)
  case less
  show ?case
  proof (cases "\<exists>a. v = JV_ref a")
    case False
    with less.prems plain_input_leaf show ?thesis by metis
  next
    case True
    then obtain a where v: "v = JV_ref a" ..
    have fresh: "a \<notin> active" using less.prems(1,3) unfolding v by blast
    have step: "plain_input heap code (insert a active) (Suc d) u = Inr i"
      if "denotes heap u i" "fits (Suc d) i" "json_depth i < json_depth j" "d \<le> max_depth" for u i
    proof (rule less.hyps)
      fix b k assume "b \<in> insert a active" "denotes heap (JV_ref b) k"
      then show "json_depth i < json_depth k"
        using that(3) less.prems(3) [of b k] denotes_unique [OF less.prems(1), of k] unfolding v by auto
    qed (use that in simp_all)
    from less.prems(1) [unfolded v denotes_ref_iff] consider
      vs js where "j = JArr js" "plain_array (heap a) vs" "list_all2 (denotes heap) vs js"
    | kvs kjs where "j = JObj kjs" "plain_object (heap a) kvs" "map fst kjs = map fst kvs"
        "list_all2 (denotes heap) (map snd kvs) (map snd kjs)"
      by blast
    then show ?thesis
    proof cases
      case 1
      then have f: "d \<le> max_depth" "\<And>i. i \<in> set js \<Longrightarrow> fits (Suc d) i" using less.prems(2) by (simp_all add: fits_array)
      have "list_all2 (\<lambda>u i. plain_input heap code (insert a active) (Suc d) u = Inr i) vs js"
        by (rule list_all2_to [OF 1(3)]) (use step f depth_element 1(1) in blast)
      with 1 f(1) fresh show ?thesis unfolding v plain_input_ref by blast
    next
      case 2
      then have f: "d \<le> max_depth" "\<And>i. i \<in> set (map snd kjs) \<Longrightarrow> fits (Suc d) i" using less.prems(2) by (simp_all only: fits_object)
      have "json_depth i < json_depth j" if "i \<in> set (map snd kjs)" for i
        using that depth_entry 2(1) by auto
      with 2 f have "list_all2 (\<lambda>u i. plain_input heap code (insert a active) (Suc d) u = Inr i) (map snd kvs) (map snd kjs)"
        by (intro list_all2_to [OF 2(4)] step)
      with 2 f(1) fresh show ?thesis unfolding v plain_input_ref by blast
    qed
  qed
qed

text \<open>C37. The projection accepts exactly the plain data: \<open>plainInput\<close> returns the document \<open>j\<close> when
  and only when the graph unfolds to \<open>j\<close> through plain arrays and objects and \<open>j\<close> nests at most
  25 levels.  Sharing is unfolded, and the set of active objects rejects nothing that unfolds.\<close>

theorem plain_input_iff:
  "plain_input heap code {} 0 v = Inr j \<longleftrightarrow> denotes heap v j \<and> json_depth j \<le> 25"
proof -
  have "fits 0 j \<longleftrightarrow> json_depth j \<le> 25" by (auto simp: fits_def max_depth_def)
  then show ?thesis using plain_input_sound plain_input_complete [of heap v j 0 "{}"] by blast
qed

lemma traverse_Inl: "traverse f xs = Inl e \<Longrightarrow> \<exists>x\<in>set xs. f x = Inl e"
  by (induction xs) (auto simp: rbind_Inl_iff)

lemma data_value_Inl: "data_value code d = Inl e \<Longrightarrow> e = code"
  by (auto simp: data_value_def split: option.splits if_splits)

lemma plain_input_code: "plain_input heap code active d v = Inl e \<Longrightarrow> e = code"
proof (induction "Suc max_depth - d" arbitrary: active d v rule: less_induct)
  case less
  show ?case
  proof (rule ccontr)
    assume e: "e \<noteq> code"
    have IH: "\<not> plain_input heap code A (Suc d) u = Inl e" if "d \<le> max_depth" for A u
      using less.hyps [of "Suc d" A u] that e by (auto simp: Suc_diff_le)
    show False
      using less.prems e IH
      by (subst (asm) plain_input.simps)
         (auto split: js_value.splits if_splits option.splits dest!: traverse_Inl data_value_Inl
            simp: rmap_def rbind_Inl_iff keyed_value_def)
  qed
qed

text \<open>An object leads to another through an element or entry that the projection would read.\<close>

definition leads_to :: "js_heap \<Rightarrow> nat \<Rightarrow> nat \<Rightarrow> bool" where
  "leads_to heap a b \<longleftrightarrow> (\<exists>vs. plain_array (heap a) vs \<and> JV_ref b \<in> set vs) \<or>
     (\<exists>kvs. plain_object (heap a) kvs \<and> JV_ref b \<in> snd ` set kvs)"

lemma list_all2_in: "list_all2 P xs ys \<Longrightarrow> x \<in> set xs \<Longrightarrow> \<exists>y\<in>set ys. P x y"
  by (induction rule: list_all2_induct) auto

lemma leads_to_smaller:
  assumes "leads_to heap a b" "denotes heap (JV_ref a) j"
  shows "\<exists>i. denotes heap (JV_ref b) i \<and> json_depth i < json_depth j"
  using assms(1) unfolding leads_to_def
proof (elim disjE exE conjE)
  fix vs assume p: "plain_array (heap a) vs" "JV_ref b \<in> set vs"
  with assms(2) obtain js where "j = JArr js" "list_all2 (denotes heap) vs js"
    unfolding denotes_ref_iff using plain_array_unique plain_array_not_object by blast
  with list_all2_in [OF _ p(2)] depth_element show ?thesis by blast
next
  fix kvs assume p: "plain_object (heap a) kvs" "JV_ref b \<in> snd ` set kvs"
  with assms(2) obtain kjs where k: "j = JObj kjs" "list_all2 (denotes heap) (map snd kvs) (map snd kjs)"
    unfolding denotes_ref_iff using plain_object_unique plain_array_not_object by blast
  from p(2) have "JV_ref b \<in> set (map snd kvs)" by simp
  from list_all2_in [OF k(2) this] obtain i where "i \<in> set (map snd kjs)" "denotes heap (JV_ref b) i" by blast
  with k depth_entry show ?thesis by auto
qed

text \<open>An object that leads back to itself is always rejected, with the caller's code.\<close>

theorem cyclic_input_rejected:
  assumes "(a, a) \<in> {(x, y). leads_to heap x y}\<^sup>+"
  shows "plain_input heap code {} 0 (JV_ref a) = Inl code"
proof -
  have smaller: "\<exists>i. denotes heap (JV_ref b) i \<and> json_depth i < json_depth j"
    if "(a, b) \<in> {(x, y). leads_to heap x y}\<^sup>+" "denotes heap (JV_ref a) j" for b j
    using that
  proof (induction rule: trancl_induct)
    case (base b)
    then show ?case using leads_to_smaller by blast
  next
    case (step b c)
    then obtain i where "denotes heap (JV_ref b) i" "json_depth i < json_depth j" by blast
    with leads_to_smaller [of heap b c i] step(2) show ?case by (auto intro: less_trans)
  qed
  have "\<not> denotes heap (JV_ref a) j" for j
    using smaller [OF assms] denotes_unique by blast
  then have "plain_input heap code {} 0 (JV_ref a) \<noteq> Inr j" for j using plain_input_sound by blast
  then show ?thesis
    using plain_input_code by (cases "plain_input heap code {} 0 (JV_ref a)") blast+
qed

text \<open>A heap with a plain record and an object that contains itself.\<close>

definition data :: "js_value \<Rightarrow> descriptor" where
  "data v = \<lparr>ds_enumerable = True, ds_value = Some v\<rparr>"

definition sample_object :: "(string \<times> js_value) list \<Rightarrow> js_object" where
  "sample_object kvs = \<lparr>jo_proxy = False, jo_symbols = 0, jo_array = None, jo_proto = Proto_object,
     jo_props = map (\<lambda>(k, v). (k, data v)) kvs\<rparr>"

definition sample_heap :: js_heap where
  "sample_heap a = (if a = 0 then sample_object [(''id'', JV_str ''x''), (''self'', JV_ref 1), (''also'', JV_ref 1)]
     else if a = 1 then sample_object [(''n'', JV_null)] else sample_object [(''self'', JV_ref a)])"

lemma sample_shared:
  "plain_input sample_heap ''bad'' {} 0 (JV_ref 0) =
     Inr (JObj [(''id'', JStr ''x''), (''self'', JObj [(''n'', JNull)]), (''also'', JObj [(''n'', JNull)])])"
  by code_simp

theorem cyclic_input_rejected_witness: "plain_input sample_heap ''bad'' {} 0 (JV_ref 2) = Inl ''bad''"
proof -
  have "plain_object (sample_heap 2) [(''self'', JV_ref 2)]"
    by (simp add: plain_object_def sample_heap_def sample_object_def data_def holds_value_def forbidden_key_def)
  then have "leads_to sample_heap 2 2" unfolding leads_to_def by force
  then show ?thesis by (intro cyclic_input_rejected) (auto intro: trancl.r_into_trancl)
qed

section \<open>Calendar dates\<close>

text \<open>The groups of the instant pattern: four digits, then two-digit fields, an optional fraction
  of exactly three digits and a zone that must end the text.\<close>

record date_groups =
  dg_year :: int
  dg_month :: int
  dg_day :: int
  dg_hour :: int
  dg_minute :: int
  dg_second :: int
  dg_offset :: "(int \<times> int) option"

definition match_zone :: "string \<Rightarrow> (int \<times> int) option option" where
  "match_zone s =
     (if s = ''Z'' then Some None
      else case s of [] \<Rightarrow> None
      | c # s' \<Rightarrow>
          if c \<noteq> CHR ''+'' \<and> c \<noteq> CHR ''-'' then None
          else Option.bind (read_num 2 s') (\<lambda>(h, s1). Option.bind (read_chr (CHR '':'') s1) (\<lambda>s2.
               Option.bind (read_num 2 s2) (\<lambda>(mi, s3). if s3 = [] then Some (Some (h, mi)) else None))))"

definition skip_fraction :: "string \<Rightarrow> string option" where
  "skip_fraction s =
     (case read_chr (CHR ''.'') s of None \<Rightarrow> Some s
      | Some s' \<Rightarrow> map_option snd (read_num 3 s'))"

definition match_date_time :: "string \<Rightarrow> date_groups option" where
  "match_date_time s =
     Option.bind (read_num 4 s) (\<lambda>(y, s). Option.bind (read_chr (CHR ''-'') s) (\<lambda>s.
     Option.bind (read_num 2 s) (\<lambda>(m, s). Option.bind (read_chr (CHR ''-'') s) (\<lambda>s.
     Option.bind (read_num 2 s) (\<lambda>(d, s). Option.bind (read_chr (CHR ''T'') s) (\<lambda>s.
     Option.bind (read_num 2 s) (\<lambda>(h, s). Option.bind (read_chr (CHR '':'') s) (\<lambda>s.
     Option.bind (read_num 2 s) (\<lambda>(mi, s). Option.bind (read_chr (CHR '':'') s) (\<lambda>s.
     Option.bind (read_num 2 s) (\<lambda>(sec, s). Option.bind (skip_fraction s) (\<lambda>s.
     Option.bind (match_zone s) (\<lambda>zone.
       Some \<lparr>dg_year = y, dg_month = m, dg_day = d, dg_hour = h, dg_minute = mi, dg_second = sec,
         dg_offset = zone\<rparr>)))))))))))))"

definition leap_year :: "int \<Rightarrow> bool" where
  "leap_year y \<longleftrightarrow> y mod 4 = 0 \<and> (y mod 100 \<noteq> 0 \<or> y mod 400 = 0)"

definition month_days :: "int \<Rightarrow> int \<Rightarrow> int" where
  "month_days y m =
     (let days = [31, if leap_year y then 29 else 28, 31, 30, 31, 30, 31, 31, 30, 31, 30, 31]
      in if 1 \<le> m \<and> m \<le> 12 then days ! nat (m - 1) else 0)"

definition valid_date_time :: "runtime \<Rightarrow> string \<Rightarrow> bool" where
  "valid_date_time rt t =
     (case match_date_time t of
        None \<Rightarrow> False
      | Some g \<Rightarrow>
          1970 \<le> dg_year g \<and> 1 \<le> dg_month g \<and> dg_month g \<le> 12 \<and> 1 \<le> dg_day g \<and>
          dg_day g \<le> month_days (dg_year g) (dg_month g) \<and> dg_hour g \<le> 23 \<and> dg_minute g \<le> 59 \<and>
          dg_second g \<le> 59 \<and> fst (default_to (0, 0) (dg_offset g)) \<le> 23 \<and>
          snd (default_to (0, 0) (dg_offset g)) \<le> 59 \<and> rt_date_parse rt t \<noteq> None)"

definition valid_date :: "runtime \<Rightarrow> string \<Rightarrow> bool" where
  "valid_date rt t = valid_date_time rt (t @ ''T00:00:00Z'')"

definition is_integer :: "js_number \<Rightarrow> bool" where
  "is_integer n = (case n of NonFinite \<Rightarrow> False | Finite q \<Rightarrow> q = of_int \<lfloor>q\<rfloor>)"

definition add_calendar_days :: "runtime \<Rightarrow> string \<Rightarrow> js_number \<Rightarrow> string res" where
  "add_calendar_days rt date days =
     (if \<not> valid_date rt date then Inl ''invalid_calendar_date''
      else if \<not> is_integer days \<or> number_int days < 0 \<or> 36500 < number_int days then Inl ''invalid_calendar_offset''
      else case rt_date_parse rt (date @ ''T00:00:00Z'') of
        None \<Rightarrow> Inl ''Invalid time value''
      | Some base \<Rightarrow>
          let t = base + number_int days * ms_per_day
          in if valid_instant t then Inr (take 10 (iso_text t)) else Inl ''Invalid time value'')"

text \<open>The texts of the dates that exist, and the law of \<open>Date.parse\<close> on their midnights.\<close>

definition date_text :: "int \<Rightarrow> int \<Rightarrow> int \<Rightarrow> string" where
  "date_text y m d = pad_text 4 (nat y) @ ''-'' @ pad_text 2 (nat m) @ ''-'' @ pad_text 2 (nat d)"

definition gregorian_leap :: "int \<Rightarrow> bool" where
  "gregorian_leap y \<longleftrightarrow> 4 dvd y \<and> (100 dvd y \<longrightarrow> 400 dvd y)"

definition month_length :: "int \<Rightarrow> int \<Rightarrow> int" where
  "month_length y m = (if m \<in> {4, 6, 9, 11} then 30 else if m = 2 then (if gregorian_leap y then 29 else 28) else 31)"

definition real_date :: "int \<Rightarrow> int \<Rightarrow> int \<Rightarrow> bool" where
  "real_date y m d \<longleftrightarrow> 1970 \<le> y \<and> y \<le> 9999 \<and> 1 \<le> m \<and> m \<le> 12 \<and> 1 \<le> d \<and> d \<le> month_length y m"

lemma month_days_length:
  assumes "1 \<le> m" "m \<le> 12"
  shows "month_days y m = month_length y m"
proof -
  have "leap_year y = gregorian_leap y"
    unfolding leap_year_def gregorian_leap_def by (auto simp: dvd_eq_mod_eq_0)
  moreover have "m = 1 \<or> m = 2 \<or> m = 3 \<or> m = 4 \<or> m = 5 \<or> m = 6 \<or> m = 7 \<or> m = 8 \<or> m = 9 \<or> m = 10 \<or> m = 11 \<or> m = 12"
    using assms by presburger
  ultimately show ?thesis by (elim disjE) (simp_all add: month_days_def month_length_def)
qed

text \<open>The calendar table of the code agrees with the Gregorian calendar.\<close>

lemma real_date_days:
  "real_date y m d \<longleftrightarrow> 1970 \<le> y \<and> y \<le> 9999 \<and> 1 \<le> m \<and> m \<le> 12 \<and> 1 \<le> d \<and> d \<le> month_days y m"
  unfolding real_date_def by (auto simp: month_days_length)

locale midnight_clock =
  fixes rt :: runtime
  assumes parse_midnight: "real_date y m d \<Longrightarrow>
    rt_date_parse rt (date_text y m d @ ''T00:00:00Z'') = Some (day_number y m d * ms_per_day)"

lemma month_days_le: "month_days y m \<le> 31"
proof (cases "1 \<le> m \<and> m \<le> 12")
  case True
  then have "m = 1 \<or> m = 2 \<or> m = 3 \<or> m = 4 \<or> m = 5 \<or> m = 6 \<or> m = 7 \<or> m = 8 \<or> m = 9 \<or> m = 10 \<or> m = 11 \<or> m = 12" by presburger
  then show ?thesis by (auto simp: month_days_def)
qed (auto simp: month_days_def)

lemma real_date_bounds:
  assumes "real_date y m d"
  shows "nat y < 10 ^ 4" "nat m < 10 ^ 2" "nat d < 10 ^ 2" "0 \<le> y" "0 \<le> m" "0 \<le> d" "d \<le> 31"
proof -
  have "d \<le> 31" using assms month_days_le [of y m] by (simp add: real_date_days)
  with assms show "nat y < 10 ^ 4" "nat m < 10 ^ 2" "nat d < 10 ^ 2" "0 \<le> y" "0 \<le> m" "0 \<le> d" "d \<le> 31"
    by (simp_all add: real_date_days nat_less_iff)
qed

lemma read_zero_zero: "read_num 2 (CHR ''0'' # CHR ''0'' # r) = Some (0, r)"
  using read_num_pad [of 0 2 r] by (simp add: numeral_2_eq_2 digit_char_0)

lemma read_midnight:
  assumes "real_date y m d"
  shows "read_instant (date_text y m d @ ''T00:00:00Z'') = Some (day_number y m d * ms_per_day)"
proof -
  note b = real_date_bounds [OF assms]
  have y: "read_year (pad_text 4 (nat y) @ r) = Some (y, r)" for r
    using read_year_text [of y r] assms by (simp add: year_text_def real_date_days)
  show ?thesis
    unfolding read_instant_def date_text_def append_assoc y
    using assms b
    by (simp add: read_num_pad read_zero_zero read_seconds_def read_fraction_def read_zone_def real_date_days)
qed

interpretation ref_midnight: midnight_clock ref_rt
  by unfold_locales (simp add: read_midnight)

lemma match_midnight:
  assumes "nat y < 10 ^ 4" "nat m < 10 ^ 2" "nat d < 10 ^ 2" "0 \<le> y" "0 \<le> m" "0 \<le> d"
  shows "match_date_time (date_text y m d @ ''T00:00:00Z'') =
    Some \<lparr>dg_year = y, dg_month = m, dg_day = d, dg_hour = 0, dg_minute = 0, dg_second = 0, dg_offset = None\<rparr>"
  unfolding match_date_time_def date_text_def append_assoc
  using assms by (simp add: read_num_pad read_zero_zero skip_fraction_def match_zone_def)

lemma pad_nat_value: "\<forall>c\<in>set s. is_digit c \<Longrightarrow> pad_text (length s) (nat_value s) = s"
proof (induction s rule: rev_induct)
  case (snoc c s)
  then have "nat_value s < 10 ^ length s" using nat_value_less by simp
  with snoc show ?case
    using digit_value_less [of c] digit_char_digit_value [of c] by (simp add: mult.commute)
qed simp

lemma no_T_pad: "CHR ''T'' \<notin> set (pad_text w n)"
proof
  assume "CHR ''T'' \<in> set (pad_text w n)"
  with pad_text_digits [of w n] have "is_digit (CHR ''T'')" by blast
  then show False by (simp add: is_digit_def)
qed

lemma read_num_inv:
  assumes "read_num w s = Some (n, r)"
  shows "s = pad_text w (nat n) @ r \<and> 0 \<le> n \<and> nat n < 10 ^ w"
proof -
  from assms have w: "w \<le> length s" "\<forall>c\<in>set (take w s). is_digit c" "n = int (nat_value (take w s))" "r = drop w s"
    by (auto simp: read_num_def list_all_iff split: if_splits)
  have "take w s = pad_text w (nat_value (take w s))" using pad_nat_value [OF w(2)] w(1) by (metis length_take min.absorb2)
  moreover have "nat_value (take w s) < 10 ^ w" using nat_value_less [OF w(2)] w(1) by (metis length_take min.absorb2)
  ultimately show ?thesis using w by (metis append_take_drop_id int_nat_eq nat_int of_nat_0_le_iff)
qed

lemma read_chr_inv: "read_chr c s = Some r \<Longrightarrow> s = c # r"
  by (cases "(c, s)" rule: read_chr.cases) (auto split: if_splits)

lemma match_zone_no_T: "match_zone s = Some z \<Longrightarrow> CHR ''T'' \<notin> set s"
proof (cases s)
  case (Cons c s')
  assume m: "match_zone s = Some z"
  show ?thesis
  proof (cases "s = ''Z''")
    case False
    with m Cons obtain h s1 s2 mi where c: "c = CHR ''+'' \<or> c = CHR ''-''" and
      "read_num 2 s' = Some (h, s1)" "read_chr (CHR '':'') s1 = Some s2" "read_num 2 s2 = Some (mi, [])"
      by (auto simp: match_zone_def Option.bind_eq_Some_conv split: if_splits prod.splits)
    then have "s' = pad_text 2 (nat h) @ CHR '':'' # pad_text 2 (nat mi) @ []"
      using read_num_inv read_chr_inv by metis
    then show ?thesis using Cons c no_T_pad by auto
  qed simp
qed simp

lemma skip_fraction_no_T:
  assumes "skip_fraction s = Some r" "CHR ''T'' \<notin> set r"
  shows "CHR ''T'' \<notin> set s"
proof (cases "read_chr (CHR ''.'') s")
  case None
  with assms show ?thesis by (simp add: skip_fraction_def)
next
  case (Some s')
  with assms(1) obtain n where "read_num 3 s' = Some (n, r)" by (auto simp: skip_fraction_def)
  with read_num_inv read_chr_inv [OF Some] have "s = CHR ''.'' # pad_text 3 (nat n) @ r" by metis
  with assms(2) no_T_pad show ?thesis by simp
qed

lemma match_date_time_inv:
  assumes "match_date_time s = Some g"
  obtains r where "s = date_text (dg_year g) (dg_month g) (dg_day g) @ CHR ''T'' # r" "CHR ''T'' \<notin> set r"
proof -
  from assms obtain s1 s2 s3 s4 s5 s6 s7 s8 s9 s10 s11 s12 y m d h mi sec zone where
    n: "read_num 4 s = Some (y, s1)" "read_num 2 s2 = Some (m, s3)" "read_num 2 s4 = Some (d, s5)"
      "read_num 2 s6 = Some (h, s7)" "read_num 2 s8 = Some (mi, s9)" "read_num 2 s10 = Some (sec, s11)"
    and c: "read_chr (CHR ''-'') s1 = Some s2" "read_chr (CHR ''-'') s3 = Some s4" "read_chr (CHR ''T'') s5 = Some s6"
      "read_chr (CHR '':'') s7 = Some s8" "read_chr (CHR '':'') s9 = Some s10"
    and z: "skip_fraction s11 = Some s12" "match_zone s12 = Some zone"
    and g: "dg_year g = y" "dg_month g = m" "dg_day g = d"
    unfolding match_date_time_def by (auto simp: Option.bind_eq_Some_conv split: prod.splits)
  have "s = pad_text 4 (nat y) @ CHR ''-'' # pad_text 2 (nat m) @ CHR ''-'' # pad_text 2 (nat d) @ CHR ''T'' # s6"
    using n(1-3) c(1-3) by (metis read_num_inv read_chr_inv)
  then have "s = date_text (dg_year g) (dg_month g) (dg_day g) @ CHR ''T'' # s6" by (simp add: date_text_def g)
  moreover have "s6 = pad_text 2 (nat h) @ CHR '':'' # pad_text 2 (nat mi) @ CHR '':'' # pad_text 2 (nat sec) @ s11"
    using n(4-6) c(4-5) by (metis read_num_inv read_chr_inv)
  moreover have "CHR ''T'' \<notin> set s11" using z match_zone_no_T skip_fraction_no_T by blast
  ultimately have "CHR ''T'' \<notin> set s6" using no_T_pad by simp
  with \<open>s = date_text (dg_year g) (dg_month g) (dg_day g) @ CHR ''T'' # s6\<close> show ?thesis by (rule that)
qed

lemma valid_date_exact:
  assumes "midnight_clock rt"
  shows "valid_date rt t \<longleftrightarrow> (\<exists>y m d. real_date y m d \<and> t = date_text y m d)"
proof
  assume v: "valid_date rt t"
  then obtain g where g: "match_date_time (t @ ''T00:00:00Z'') = Some g"
    and ok: "1970 \<le> dg_year g" "1 \<le> dg_month g" "dg_month g \<le> 12" "1 \<le> dg_day g"
      "dg_day g \<le> month_days (dg_year g) (dg_month g)"
    unfolding valid_date_def valid_date_time_def by (auto split: option.splits)
  from match_date_time_inv [OF g] obtain r where
    r: "t @ ''T00:00:00Z'' = date_text (dg_year g) (dg_month g) (dg_day g) @ CHR ''T'' # r" "CHR ''T'' \<notin> set r" .
  have "CHR ''T'' \<notin> set (date_text (dg_year g) (dg_month g) (dg_day g))" using no_T_pad by (simp add: date_text_def)
  with r have "t = date_text (dg_year g) (dg_month g) (dg_day g)"
    using append_Cons_eq_iff [of "CHR ''T''" "date_text (dg_year g) (dg_month g) (dg_day g)" r t "''00:00:00Z''"] by auto
  moreover have "dg_year g \<le> 9999"
  proof -
    from g obtain s1 where "read_num 4 (t @ ''T00:00:00Z'') = Some (dg_year g, s1)"
      unfolding match_date_time_def by (auto simp: Option.bind_eq_Some_conv split: prod.splits)
    then have "nat (dg_year g) < 10 ^ 4" using read_num_inv by blast
    then show ?thesis by simp
  qed
  ultimately show "\<exists>y m d. real_date y m d \<and> t = date_text y m d"
    using ok unfolding real_date_days by blast
next
  assume "\<exists>y m d. real_date y m d \<and> t = date_text y m d"
  then obtain y m d where d: "real_date y m d" and t: "t = date_text y m d" by blast
  note b = real_date_bounds [OF d]
  have "rt_date_parse rt (t @ ''T00:00:00Z'') \<noteq> None"
    using midnight_clock.parse_midnight [OF assms d] unfolding t by simp
  with d match_midnight [OF b(1-6)] show "valid_date rt t"
    unfolding valid_date_def valid_date_time_def t by (simp add: real_date_days)
qed

text \<open>C38. \<open>validDate\<close> accepts exactly the texts \<open>YYYY-MM-DD\<close> of the dates that exist in the Gregorian
  calendar from 1970 to 9999: the months have 30 or 31 days, February has 29 in the years divisible by
  4 that are not divisible by 100 unless by 400, and 28 in the others.\<close>

theorem valid_date_iff:
  assumes "midnight_clock rt"
  shows "valid_date rt t \<longleftrightarrow> (\<exists>y m d. real_date y m d \<and> t = date_text y m d)"
  by (rule valid_date_exact [OF assms])

text \<open>The dates that \<open>civil\<close> names exist.\<close>

lemma civil_leap_day:
  assumes "civil z = (y, 2, 29)"
  shows "leap_year y"
proof -
  define doe where "doe = (z + 719468) mod 146097"
  define era where "era = (z + 719468) div 146097"
  define c where "c = min 3 (doe div 36524)"
  define dc where "dc = doe - 36524 * c"
  define q where "q = dc div 1461"
  define dq where "dq = dc mod 1461"
  define a where "a = min 3 (dq div 365)"
  define doy where "doy = dq - 365 * a"
  define mp where "mp = (5 * doy + 2) div 153"
  note defs = doe_def era_def c_def dc_def q_def dq_def a_def doy_def mp_def
  have parts: "29 = doy - (153 * mp + 2) div 5 + 1" "2 = (if mp < 10 then mp + 3 else mp - 9)"
    "y = 400 * era + 100 * c + 4 * q + a + 1"
    using assms unfolding civil_def Let_def defs [symmetric] by (auto split: if_splits)
  from parts(2) have "mp = 11 \<or> mp = -1" by (auto split: if_splits)
  have dq: "0 \<le> dq" "dq < 1461" by (simp_all add: dq_def)
  then have "0 \<le> doy" unfolding doy_def a_def by (auto simp: min_def)
  then have "0 \<le> mp" by (simp add: mp_def pos_imp_zdiv_nonneg_iff)
  with \<open>mp = 11 \<or> mp = -1\<close> have "mp = 11" by simp
  with parts(1) have doy: "doy = 365" by simp
  have a: "a = 3" "dq = 1460"
    using dq doy unfolding doy_def a_def by (auto simp: min_def split: if_splits)
  have doe: "0 \<le> doe" "doe < 146097" by (simp_all add: doe_def)
  then have c: "0 \<le> c" "c \<le> 3" "c < 3 \<Longrightarrow> dc < 36524" "0 \<le> dc" "dc \<le> 36524"
    unfolding dc_def c_def by (auto simp: min_def split: if_splits)
  have dc: "dc = 1461 * q + 1460" using a(2) unfolding q_def dq_def by (metis mult_div_mod_eq)
  have q: "0 \<le> q" "q \<le> 24" using dc c(4,5) by simp_all
  have y: "y = 4 * (100 * era + 25 * c + q + 1)" using parts(3) a by simp
  have y100: "y mod 100 = 0 \<Longrightarrow> q = 24"
  proof -
    assume "y mod 100 = 0"
    then have "(100 * (4 * era + c) + (4 * q + 4)) mod 100 = 0" unfolding y by (simp add: algebra_simps)
    then have "(4 * q + 4) mod 100 = 0" by (simp only: mod_mult_self4)
    with q show "q = 24" by presburger
  qed
  have "q = 24 \<Longrightarrow> c = 3" using c dc by fastforce
  then have "q = 24 \<Longrightarrow> y = 400 * (era + 1)" unfolding y by simp
  then have "q = 24 \<Longrightarrow> y mod 400 = 0" by (metis mod_mult_self1_is_0)
  moreover have "y mod 4 = 0" unfolding y by simp
  ultimately show ?thesis using y100 unfolding leap_year_def by auto
qed

lemma civil_month_days:
  assumes "civil z = (y, m, d)"
  shows "d \<le> month_days y m"
proof -
  obtain era c q a doy mp where
    doy: "0 \<le> doy" "doy \<le> 365" and mp: "mp = (5 * doy + 2) div 153" "0 \<le> mp" "mp \<le> 11"
    and md: "m = (if mp < 10 then mp + 3 else mp - 9)" "d = doy - (153 * mp + 2) div 5 + 1"
    using assms by (rule civil_elim)
  have lt: "5 * doy + 2 < 153 * mp + 153" using mp(1) by (metis add.commute pos_mod_bound add_strict_left_mono mult_div_mod_eq zero_less_numeral)
  have "mp = 0 \<or> mp = 1 \<or> mp = 2 \<or> mp = 3 \<or> mp = 4 \<or> mp = 5 \<or> mp = 6 \<or> mp = 7 \<or> mp = 8 \<or> mp = 9 \<or> mp = 10 \<or> mp = 11"
    using mp(2,3) by presburger
  moreover have "d \<le> month_days y m" if "mp = 11"
  proof -
    have "m = 2" "d \<le> 29" using that md doy by simp_all
    then show ?thesis
      using civil_leap_day [of z y] assms by (cases "d = 29") (auto simp: month_days_def)
  qed
  ultimately show ?thesis
    using lt doy unfolding md by (elim disjE) (simp_all add: month_days_def)
qed

lemma civil_after_epoch:
  assumes "civil z = (y, m, d)" "0 \<le> z"
  shows "1970 \<le> y"
proof -
  obtain era c q a doy mp where
    p: "0 \<le> c" "c \<le> 3" "0 \<le> q" "q \<le> 24" "0 \<le> a" "a \<le> 3" "0 \<le> doy" "doy \<le> 365"
    "z + 719468 = 146097 * era + 36524 * c + 1461 * q + 365 * a + doy"
    and mp: "mp = (5 * doy + 2) div 153" "0 \<le> mp" "mp \<le> 11" "m = (if mp < 10 then mp + 3 else mp - 9)"
    and y: "y = 400 * era + 100 * c + 4 * q + a + (if m \<le> 2 then 1 else 0)"
    using assms(1) by (rule civil_elim)
  show ?thesis
  proof (rule ccontr)
    assume "\<not> 1970 \<le> y"
    then have less: "400 * era + 100 * c + 4 * q + a + (if m \<le> 2 then 1 else 0) \<le> 1969" unfolding y by simp
    have "era \<le> 4" using less p by (auto split: if_splits)
    have "719468 \<le> 146097 * era + 36524 * c + 1461 * q + 365 * a + doy" using p(9) assms(2) by simp
    then have "era = 4" using p \<open>era \<le> 4\<close> by linarith
    then have "c = 3" using p less \<open>719468 \<le> _\<close> by (auto split: if_splits)
    with \<open>era = 4\<close> have "1461 * q + 365 * a + doy \<ge> 25508" "4 * q + a + (if m \<le> 2 then 1 else 0) \<le> 69"
      using \<open>719468 \<le> _\<close> less by auto
    moreover from this have "q = 17" using p by (auto split: if_splits)
    ultimately have "a = 1" "306 \<le> doy" "\<not> m \<le> 2" using p by (auto split: if_splits)
    with mp show False by (auto split: if_splits)
  qed
qed

lemma iso_date:
  assumes "civil z = (y, m, d)" "0 \<le> y" "y \<le> 9999"
  shows "take 10 (iso_text (z * ms_per_day)) = date_text y m d"
  using assms by (simp add: iso_text_def date_text_def year_text_def)

lemma day_number_nonneg: "real_date y m d \<Longrightarrow> 0 \<le> day_number y m d"
proof -
  assume d: "real_date y m d"
  define u where "u = (if m \<le> 2 then y - 1 else y)"
  define mp where "mp = (if m > 2 then m - 3 else m + 9)"
  have mp: "u = 1969 \<Longrightarrow> 10 \<le> mp" "0 \<le> mp" "1969 \<le> u" using d by (auto simp: real_date_days u_def mp_def)
  have eq: "day_number y m d = 365 * u + u div 4 - u div 100 + u div 400 + ((153 * mp + 2) div 5 + d - 1) - 719468"
    by (simp add: day_number_def Let_def u_def mp_def)
  have d1: "1 \<le> d" using d by (simp add: real_date_days)
  show "0 \<le> day_number y m d"
  proof (cases "u = 1969")
    case True
    then show ?thesis unfolding eq True using mp(1) [OF True] d1 by simp
  next
    case False
    have "u - 3 \<le> 4 * (u div 4)" "100 * (u div 100) \<le> u" "0 \<le> u div 400" "0 \<le> (153 * mp + 2) div 5" using mp by simp_all
    then show ?thesis unfolding eq using mp(3) False d1 by linarith
  qed
qed

lemma day_number_bound: "real_date y m d \<Longrightarrow> day_number y m d \<le> 4000000"
proof -
  assume d: "real_date y m d"
  define u where "u = (if m \<le> 2 then y - 1 else y)"
  define mp where "mp = (if m > 2 then m - 3 else m + 9)"
  have mp: "mp \<le> 11" "0 \<le> u" "u \<le> 9999" using d by (auto simp: real_date_days u_def mp_def)
  have "d \<le> 31" using real_date_bounds [OF d] by simp
  moreover have "day_number y m d = 365 * u + u div 4 - u div 100 + u div 400 + ((153 * mp + 2) div 5 + d - 1) - 719468"
    by (simp add: day_number_def Let_def u_def mp_def)
  moreover have "u div 4 \<le> u" "0 \<le> u div 100" "u div 400 \<le> u" "(153 * mp + 2) div 5 \<le> 337" using mp by simp_all
  ultimately show ?thesis using mp by linarith
qed

lemma add_calendar_days_text:
  assumes "midnight_clock rt" "real_date y m d" "0 \<le> n" "n \<le> 36500"
  shows "add_calendar_days rt (date_text y m d) (num n) = Inr (take 10 (iso_text ((day_number y m d + n) * ms_per_day)))"
proof -
  define z where "z = day_number y m d"
  have t: "(z + n) * ms_per_day = z * ms_per_day + n * ms_per_day" by (simp add: algebra_simps)
  have "valid_instant ((z + n) * ms_per_day)"
    using day_number_nonneg [OF assms(2)] assms(3,4) day_number_bound [OF assms(2)] by (simp add: valid_instant_def z_def)
  moreover have "valid_date rt (date_text y m d)" unfolding valid_date_exact [OF assms(1)] using assms(2) by blast
  moreover have "rt_date_parse rt (date_text y m d @ ''T00:00:00Z'') = Some (z * ms_per_day)"
    unfolding z_def by (rule midnight_clock.parse_midnight [OF assms(1,2)])
  moreover have "is_integer (num n)" by (simp add: is_integer_def)
  ultimately show ?thesis
    using assms(3,4) by (simp add: add_calendar_days_def t z_def [symmetric])
qed

text \<open>\<open>addCalendarDays\<close> adds days in the Gregorian calendar: for a date that exists and an offset
  of 0 to 36500 days the result is the text of the date that many days later, which exists too, as
  long as it lies before the year 10000.\<close>

theorem add_calendar_days_adds:
  assumes "midnight_clock rt" "real_date y m d" "0 \<le> n" "n \<le> 36500"
    "civil (day_number y m d + n) = (y', m', d')" "y' \<le> 9999"
  shows "add_calendar_days rt (date_text y m d) (num n) = Inr (date_text y' m' d') \<and> real_date y' m' d' \<and>
    day_number y' m' d' = day_number y m d + n"
proof -
  have z: "0 \<le> day_number y m d" by (rule day_number_nonneg [OF assms(2)])
  have real: "real_date y' m' d'"
    using civil_after_epoch [OF assms(5)] civil_bounds [OF assms(5)] civil_month_days [OF assms(5)] assms(3,6) z
    by (simp add: real_date_days)
  have "add_calendar_days rt (date_text y m d) (num n) = Inr (date_text y' m' d')"
    using add_calendar_days_text [OF assms(1-4)] iso_date [OF assms(5) _ assms(6)] civil_after_epoch [OF assms(5)] assms(3) z
    by simp
  then show ?thesis using real day_number_civil [OF assms(5)] by simp
qed

theorem add_calendar_days_adds_witness:
  "add_calendar_days ref_rt ''2024-02-28'' (num 2) = Inr ''2024-03-01''"
proof -
  have "real_date 2024 2 28" "civil (day_number 2024 2 28 + 2) = (2024, 3, 1)"
    "date_text 2024 2 28 = ''2024-02-28''" "date_text 2024 3 1 = ''2024-03-01''" by code_simp+
  with add_calendar_days_adds [OF ref_midnight.midnight_clock_axioms, of 2024 2 28 2 2024 3 1] show ?thesis by simp
qed

theorem valid_date_iff_witness: "valid_date ref_rt ''2024-02-29''"
proof -
  have "real_date 2024 2 29" "''2024-02-29'' = date_text 2024 2 29" by code_simp+
  then show ?thesis unfolding valid_date_iff [OF ref_midnight.midnight_clock_axioms] by blast
qed

text \<open>After the year 9999 the text of the date is cut short: \<open>toISOString\<close> writes six digits then.\<close>

lemma pad_text_numeral:
  "pad_text (numeral k) n = pad_text (pred_numeral k) (n div 10) @ [digit_char (n mod 10)]"
  by (simp only: numeral_eq_Suc [of k] pad_text.simps)

lemma digit_chars: "digit_char (Suc 0) = CHR ''1''" "digit_char 2 = CHR ''2''" "digit_char 3 = CHR ''3''" "digit_char 9 = CHR ''9''"
  using digit_char_digit_value [of "CHR ''1''"] digit_char_digit_value [of "CHR ''2''"]
    digit_char_digit_value [of "CHR ''3''"] digit_char_digit_value [of "CHR ''9''"]
  by (simp_all add: digit_value_def is_digit_def)

theorem year_10000_is_cut: "add_calendar_days ref_rt ''9999-12-31'' (num 1) = Inr ''+010000-01''"
proof -
  have d: "real_date 9999 12 31" "civil (day_number 9999 12 31 + 1) = (10000, 1, 1)"
    by code_simp+
  have date: "date_text 9999 12 31 = ''9999-12-31''"
    by (simp add: date_text_def pad_text_numeral digit_chars digit_char_0)
  have "take 10 (iso_text ((day_number 9999 12 31 + 1) * ms_per_day)) = ''+010000-01''"
    by (simp add: iso_text_def d(2) year_text_def pad_text_numeral digit_chars digit_char_0)
  then show ?thesis
    using add_calendar_days_text [OF ref_midnight.midnight_clock_axioms d(1), of 1] date by simp
qed

end
