(* ===== verification/Valuation.thy ===== *)
theory Valuation
  imports Reference_Runtime EngineMath Canonical
begin

text \<open>
  What a unit of an asset is worth (\<open>packages/rule-engine/src/point-valuation.ts\<close>): declared
  valuation profiles, the lookup that never invents a value, and the derivation of a profile
  from the best available exit.

  Inputs are values of the declared types, for which the checks of key sets and of \<open>typeof\<close>
  hold; what is left of \<open>plainInput\<close> on them is its bound on the length of arrays.  The SHA-256 digest
  of a text and the text of a number are arguments.
\<close>

section \<open>Profiles\<close>

datatype valuation_source =
  VS_face_value_default | VS_user_profile | VS_observed_redemption | VS_official_disclosed | VS_best_exit_derived

record asset_valuation =
  av_asset_id :: string
  av_reward_class :: "string option"
  av_minimum :: string
  av_expected :: string
  av_maximum :: string
  av_source :: valuation_source
  av_note :: string

record valuation_profile =
  vp_profile_id :: string
  vp_entries :: "asset_valuation list"
  vp_profile_hash :: string

definition source_text :: "valuation_source \<Rightarrow> string" where
  "source_text s =
     (case s of VS_face_value_default \<Rightarrow> ''face_value_default'' | VS_user_profile \<Rightarrow> ''user_profile''
      | VS_observed_redemption \<Rightarrow> ''observed_redemption'' | VS_official_disclosed \<Rightarrow> ''official_disclosed''
      | VS_best_exit_derived \<Rightarrow> ''best_exit_derived'')"

text \<open>The character classes of the id patterns.\<close>

definition lower_or_digit :: "char \<Rightarrow> bool" where
  "lower_or_digit c \<longleftrightarrow> is_digit c \<or> (97 \<le> (of_char c :: nat) \<and> (of_char c :: nat) \<le> 122)"

definition asset_id_ok :: "string \<Rightarrow> bool" where
  "asset_id_ok s \<longleftrightarrow> take 6 s = ''asset.'' \<and> 2 \<le> length (drop 6 s) \<and> length (drop 6 s) \<le> 80 \<and>
     list_all (\<lambda>c. lower_or_digit c \<or> c = CHR ''.'' \<or> c = CHR ''-'') (drop 6 s)"

text \<open>\<open>/^[a-z0-9][a-z0-9._-]{1,n}$/\<close>.\<close>

definition plain_id :: "nat \<Rightarrow> string \<Rightarrow> bool" where
  "plain_id n s \<longleftrightarrow>
     (case s of [] \<Rightarrow> False
      | c # cs \<Rightarrow> lower_or_digit c \<and> 1 \<le> length cs \<and> length cs \<le> n \<and>
          list_all (\<lambda>c. lower_or_digit c \<or> c = CHR ''.'' \<or> c = CHR ''_'' \<or> c = CHR ''-'') cs)"

definition assert_valuation :: "asset_valuation \<Rightarrow> unit res" where
  "assert_valuation v =
     (if \<not> asset_id_ok (av_asset_id v) \<or> 200 < length (av_note v) then Inl ''valuation_entry_invalid''
      else rbind (decimal_string (av_minimum v)) (\<lambda>minimum.
           rbind (decimal_string (av_expected v)) (\<lambda>expected.
           rbind (decimal_string (av_maximum v)) (\<lambda>maximum.
             if expected < minimum \<or> maximum < expected then Inl ''valuation_range_not_ordered'' else Inr ()))))"

definition valuation_key :: "string \<Rightarrow> string option \<Rightarrow> string" where
  "valuation_key asset c = asset @ '' '' @ default_to '''' c"

abbreviation entry_key :: "asset_valuation \<Rightarrow> string" where
  "entry_key e \<equiv> valuation_key (av_asset_id e) (av_reward_class e)"

definition by_asset_and_class :: "runtime \<Rightarrow> ('a \<Rightarrow> string) \<Rightarrow> ('a \<Rightarrow> string option) \<Rightarrow> 'a \<Rightarrow> 'a \<Rightarrow> int" where
  "by_asset_and_class rt asset c =
     cmp_then (cmp_on asset (rt_locale_compare rt)) (cmp_on (\<lambda>x. default_to '''' (c x)) (rt_locale_compare rt))"

definition class_json :: "string option \<Rightarrow> json" where
  "class_json c = (case c of None \<Rightarrow> JNull | Some t \<Rightarrow> JStr t)"

definition entry_json :: "asset_valuation \<Rightarrow> json" where
  "entry_json e = JObj
     [(''asset_id'', JStr (av_asset_id e)), (''reward_class'', class_json (av_reward_class e)),
      (''jpy_per_unit_min'', JStr (av_minimum e)), (''jpy_per_unit_expected'', JStr (av_expected e)),
      (''jpy_per_unit_max'', JStr (av_maximum e)), (''source'', JStr (source_text (av_source e))),
      (''note'', JStr (av_note e))]"

definition profile_json :: "string \<Rightarrow> asset_valuation list \<Rightarrow> json" where
  "profile_json i es = JObj
     [(''version'', JStr ''point-valuation-profile.v1''), (''profile_id'', JStr i), (''entries'', JArr (map entry_json es))]"

definition canonical_hash :: "(string \<Rightarrow> string) \<Rightarrow> (rat \<Rightarrow> string) \<Rightarrow> json \<Rightarrow> string res" where
  "canonical_hash sha number_text v = rmap (\<lambda>t. ''sha256:'' @ sha t) (canonicalize number_text v)"

definition build_valuation_profile ::
    "runtime \<Rightarrow> (string \<Rightarrow> string) \<Rightarrow> (rat \<Rightarrow> string) \<Rightarrow> string \<Rightarrow> asset_valuation list \<Rightarrow> valuation_profile res" where
  "build_valuation_profile rt sha number_text i entries =
     (if \<not> plain_id 63 i then Inl ''valuation_profile_id_invalid''
      else if 256 < length entries then Inl ''valuation_profile_invalid''
      else rbind (traverse assert_valuation entries) (\<lambda>_.
        if \<not> distinct (map entry_key entries) then Inl ''valuation_entry_duplicate''
        else
          let es = sort_cmp (by_asset_and_class rt av_asset_id av_reward_class) entries
          in rmap (\<lambda>h. \<lparr>vp_profile_id = i, vp_entries = es, vp_profile_hash = h\<rparr>)
               (canonical_hash sha number_text (profile_json i es))))"

section \<open>Reading a profile\<close>

definition lookup_valuation :: "valuation_profile \<Rightarrow> string \<Rightarrow> string option \<Rightarrow> asset_valuation option" where
  "lookup_valuation profile asset c =
     (case find (\<lambda>e. av_asset_id e = asset \<and> av_reward_class e = c) (vp_entries profile) of
        Some e \<Rightarrow> Some e
      | None \<Rightarrow> find (\<lambda>e. av_asset_id e = asset \<and> av_reward_class e = None) (vp_entries profile))"

record jpy_valuation =
  jv_minimum :: string
  jv_expected :: string
  jv_maximum :: string
  jv_valuation :: asset_valuation

definition value_quantity ::
    "runtime \<Rightarrow> valuation_profile \<Rightarrow> string \<Rightarrow> string option \<Rightarrow> string \<Rightarrow> jpy_valuation option res" where
  "value_quantity rt profile asset c amount =
     (case lookup_valuation profile asset c of
        None \<Rightarrow> Inr None
      | Some v \<Rightarrow>
          rbind (decimal_string amount) (\<lambda>units.
          rbind (decimal_string (av_minimum v)) (\<lambda>lo.
          rbind (decimal_string (av_expected v)) (\<lambda>e.
          rbind (decimal_string (av_maximum v)) (\<lambda>hi.
            Inr (Some \<lparr>jv_minimum = canonical_decimal rt (dmul rt units lo),
              jv_expected = canonical_decimal rt (dmul rt units e),
              jv_maximum = canonical_decimal rt (dmul rt units hi), jv_valuation = v\<rparr>))))))"

section \<open>Best exits\<close>

record exit_option =
  eo_exit_id :: string
  eo_asset_id :: string
  eo_reward_class :: "string option"
  eo_label_ja :: string
  eo_jpy_per_unit :: string
  eo_source :: valuation_source
  eo_source_claim_ids :: "string list"

record selected_exit =
  se_asset_id :: string
  se_reward_class :: "string option"
  se_exit_id :: string
  se_label_ja :: string
  se_jpy_per_unit :: string
  se_source_claim_ids :: "string list"

record best_exit_derivation =
  bd_profile :: valuation_profile
  bd_selected_exits :: "selected_exit list"

abbreviation exit_key :: "exit_option \<Rightarrow> string" where
  "exit_key x \<equiv> valuation_key (eo_asset_id x) (eo_reward_class x)"

definition assert_exit :: "exit_option \<Rightarrow> unit res" where
  "assert_exit x =
     (if \<not> plain_id 119 (eo_exit_id x) \<or> \<not> asset_id_ok (eo_asset_id x) \<or>
         length (eo_label_ja x) < 1 \<or> 120 < length (eo_label_ja x) \<or> eo_source x = VS_best_exit_derived \<or>
         16 < length (eo_source_claim_ids x)
      then Inl ''exit_option_invalid''
      else rmap (\<lambda>_. ()) (decimal_string (eo_jpy_per_unit x)))"

text \<open>The rate of an exit that passed its check.\<close>

definition rate_of :: "exit_option \<Rightarrow> rat" where
  "rate_of x = text_value (eo_jpy_per_unit x)"

definition keep_best :: "exit_option \<Rightarrow> (string, exit_option) omap \<Rightarrow> (string, exit_option) omap" where
  "keep_best x best =
     (case om_get best (exit_key x) of
        None \<Rightarrow> om_set (exit_key x) x best
      | Some current \<Rightarrow> if rate_of current < rate_of x then om_set (exit_key x) x best else best)"

definition best_exits :: "runtime \<Rightarrow> exit_option list \<Rightarrow> (string, exit_option) omap" where
  "best_exits rt exits = fold keep_best (sort_cmp (cmp_on eo_exit_id (rt_locale_compare rt)) exits) []"

definition derived_entry :: "runtime \<Rightarrow> exit_option \<Rightarrow> asset_valuation option \<Rightarrow> asset_valuation res" where
  "derived_entry rt x existing =
     rbind (case existing of None \<Rightarrow> Inr (rate_of x)
       | Some e \<Rightarrow> rmap (\<lambda>m. if rate_of x < m then m else rate_of x) (decimal_string (av_maximum e))) (\<lambda>maximum.
       Inr \<lparr>av_asset_id = eo_asset_id x, av_reward_class = eo_reward_class x,
         av_minimum = default_to (canonical_decimal rt (rate_of x)) (map_option av_minimum existing),
         av_expected = canonical_decimal rt (rate_of x), av_maximum = canonical_decimal rt maximum,
         av_source = VS_best_exit_derived, av_note = ''best exit: '' @ eo_label_ja x\<rparr>)"

text \<open>The declared entry already values the asset at least as highly.\<close>

definition already_valued :: "exit_option \<Rightarrow> asset_valuation option \<Rightarrow> bool res" where
  "already_valued x existing =
     (case existing of None \<Rightarrow> Inr False | Some e \<Rightarrow> rmap (\<lambda>q. rate_of x \<le> q) (decimal_string (av_expected e)))"

definition selected_exit_of :: "runtime \<Rightarrow> exit_option \<Rightarrow> selected_exit" where
  "selected_exit_of rt x =
     \<lparr>se_asset_id = eo_asset_id x, se_reward_class = eo_reward_class x, se_exit_id = eo_exit_id x,
      se_label_ja = eo_label_ja x, se_jpy_per_unit = canonical_decimal rt (rate_of x),
      se_source_claim_ids = eo_source_claim_ids x\<rparr>"

fun improve ::
    "runtime \<Rightarrow> (string, exit_option) omap \<Rightarrow> (string, asset_valuation) omap \<Rightarrow> selected_exit list \<Rightarrow>
     ((string, asset_valuation) omap \<times> selected_exit list) res" where
  "improve rt [] entries selected = Inr (entries, selected)"
| "improve rt ((key, x) # best) entries selected =
     rbind (already_valued x (om_get entries key)) (\<lambda>valued.
       if valued then improve rt best entries selected
       else rbind (derived_entry rt x (om_get entries key)) (\<lambda>e.
         improve rt best (om_set key e entries) (selected @ [selected_exit_of rt x])))"

definition base_map :: "asset_valuation list \<Rightarrow> (string, asset_valuation) omap" where
  "base_map es = fold (\<lambda>e. om_set (entry_key e) e) es []"

definition derive_best_exit_valuations ::
    "runtime \<Rightarrow> (string \<Rightarrow> string) \<Rightarrow> (rat \<Rightarrow> string) \<Rightarrow> valuation_profile \<Rightarrow> exit_option list \<Rightarrow>
     best_exit_derivation res" where
  "derive_best_exit_valuations rt sha number_text base exits =
     (if 256 < length exits \<or> list_ex (\<lambda>x. 512 < length (eo_source_claim_ids x)) exits then Inl ''exit_options_invalid''
      else rbind (traverse assert_exit exits) (\<lambda>_.
        if \<not> distinct (map eo_exit_id exits) then Inl ''exit_option_duplicate''
        else
          rbind (improve rt (best_exits rt exits) (base_map (vp_entries base)) []) (\<lambda>(entries, selected).
            rmap (\<lambda>p. \<lparr>bd_profile = p,
                bd_selected_exits = sort_cmp (by_asset_and_class rt se_asset_id se_reward_class) selected\<rparr>)
              (build_valuation_profile rt sha number_text (vp_profile_id base) (map snd entries)))))"

section \<open>Well-formed profiles\<close>

text \<open>What the checks of an entry and of an exit promise.\<close>

definition entry_ok :: "asset_valuation \<Rightarrow> bool" where
  "entry_ok e \<longleftrightarrow> asset_id_ok (av_asset_id e) \<and> length (av_note e) \<le> 200 \<and> is_decimal_text (av_minimum e) \<and>
     is_decimal_text (av_expected e) \<and> is_decimal_text (av_maximum e) \<and>
     text_value (av_minimum e) \<le> text_value (av_expected e) \<and> text_value (av_expected e) \<le> text_value (av_maximum e)"

definition exit_ok :: "exit_option \<Rightarrow> bool" where
  "exit_ok x \<longleftrightarrow> plain_id 119 (eo_exit_id x) \<and> asset_id_ok (eo_asset_id x) \<and> eo_label_ja x \<noteq> [] \<and>
     length (eo_label_ja x) \<le> 120 \<and> eo_source x \<noteq> VS_best_exit_derived \<and> length (eo_source_claim_ids x) \<le> 16 \<and>
     is_decimal_text (eo_jpy_per_unit x)"

lemma assert_valuation_iff: "assert_valuation e = Inr u \<longleftrightarrow> entry_ok e"
  by (auto simp: assert_valuation_def entry_ok_def res_simps split: if_splits)

lemma assert_exit_iff: "assert_exit x = Inr u \<longleftrightarrow> exit_ok x"
  by (auto simp: assert_exit_def exit_ok_def res_simps not_less split: if_splits)

lemma traverse_unit_iff: "(\<exists>us. traverse f xs = Inr us) \<longleftrightarrow> (\<forall>x\<in>set xs. \<exists>u. f x = Inr u)"
proof (induction xs)
  case (Cons x xs)
  then show ?case by (cases "f x"; cases "traverse f xs") auto
qed simp

lemma entry_json_text: "\<exists>t. canonicalize number_text (entry_json e) = Inr t"
  by (cases "av_reward_class e") (simp_all add: entry_json_def class_json_def)

lemma canonical_hash_total: "\<exists>h. canonical_hash sha number_text (profile_json i es) = Inr h"
proof -
  have "\<exists>ts. traverse (\<lambda>v. canonicalize number_text v) (map entry_json es) = Inr ts"
    unfolding traverse_unit_iff using entry_json_text by auto
  then show ?thesis by (auto simp: canonical_hash_def profile_json_def)
qed

text \<open>A profile as \<open>buildValuationProfile\<close> builds it, the hash aside.\<close>

definition profile_ok :: "valuation_profile \<Rightarrow> bool" where
  "profile_ok p \<longleftrightarrow> plain_id 63 (vp_profile_id p) \<and> length (vp_entries p) \<le> 256 \<and>
     (\<forall>e\<in>set (vp_entries p). entry_ok e) \<and> distinct (map entry_key (vp_entries p))"

lemma build_iff:
  "(\<exists>p. build_valuation_profile rt sha number_text i es = Inr p) \<longleftrightarrow>
     plain_id 63 i \<and> length es \<le> 256 \<and> (\<forall>e\<in>set es. entry_ok e) \<and> distinct (map entry_key es)"
proof (cases "plain_id 63 i \<and> length es \<le> 256")
  case True
  have "(\<exists>p. build_valuation_profile rt sha number_text i es = Inr p) \<longleftrightarrow>
      (\<exists>us. traverse assert_valuation es = Inr us) \<and> distinct (map entry_key es)"
  proof -
    define es' where "es' = sort_cmp (by_asset_and_class rt av_asset_id av_reward_class) es"
    obtain h where "canonical_hash sha number_text (profile_json i es') = Inr h" using canonical_hash_total by blast
    then show ?thesis
      using True by (cases "traverse assert_valuation es") (auto simp: build_valuation_profile_def es'_def)
  qed
  with True show ?thesis unfolding traverse_unit_iff assert_valuation_iff by simp
qed (auto simp: build_valuation_profile_def)

lemma build_result:
  assumes "build_valuation_profile rt sha number_text i es = Inr p"
  shows "vp_profile_id p = i" "mset (vp_entries p) = mset es"
  using assms by (auto simp: build_valuation_profile_def res_simps Let_def split: if_splits)

lemma build_profile_ok:
  assumes "build_valuation_profile rt sha number_text i es = Inr p"
  shows "profile_ok p"
proof -
  have s: "mset (vp_entries p) = mset es" "vp_profile_id p = i" using build_result [OF assms] by simp_all
  then have "set (vp_entries p) = set es" "length (vp_entries p) = length es" by (metis mset_eq_setD, metis size_mset)
  moreover have "distinct (map entry_key (vp_entries p)) = distinct (map entry_key es)"
    using s(1) by (metis mset_eq_imp_distinct_iff mset_map)
  moreover have "plain_id 63 i \<and> length es \<le> 256 \<and> (\<forall>e\<in>set es. entry_ok e) \<and> distinct (map entry_key es)"
    using assms build_iff by blast
  ultimately show ?thesis using s(2) by (simp add: profile_ok_def)
qed

section \<open>Lookup\<close>

text \<open>No value is invented: a lookup returns an entry of the profile for the asset, of the same
  reward class when there is one and otherwise the entry without a class, and nothing exactly
  when the profile has neither.\<close>

theorem lookup_never_invents:
  "(case lookup_valuation p asset c of
      Some e \<Rightarrow> e \<in> set (vp_entries p) \<and> av_asset_id e = asset \<and>
        (av_reward_class e = c \<or> (av_reward_class e = None \<and>
           \<not> (\<exists>x\<in>set (vp_entries p). av_asset_id x = asset \<and> av_reward_class x = c)))
    | None \<Rightarrow> \<not> (\<exists>x\<in>set (vp_entries p). av_asset_id x = asset \<and> (av_reward_class x = c \<or> av_reward_class x = None)))"
proof (cases "find (\<lambda>e. av_asset_id e = asset \<and> av_reward_class e = c) (vp_entries p)")
  case None
  then have none: "\<not> (\<exists>x\<in>set (vp_entries p). av_asset_id x = asset \<and> av_reward_class x = c)"
    by (auto simp: find_None_iff)
  show ?thesis
  proof (cases "find (\<lambda>e. av_asset_id e = asset \<and> av_reward_class e = None) (vp_entries p)")
    case None': None
    with None have "lookup_valuation p asset c = None" by (simp add: lookup_valuation_def)
    moreover have "\<not> (\<exists>x\<in>set (vp_entries p). av_asset_id x = asset \<and> av_reward_class x = None)"
      using None' by (auto simp: find_None_iff)
    ultimately show ?thesis using none by auto
  next
    case (Some e)
    with None have "lookup_valuation p asset c = Some e" by (simp add: lookup_valuation_def)
    moreover have "e \<in> set (vp_entries p) \<and> av_asset_id e = asset \<and> av_reward_class e = None"
      using Some by (auto simp: find_Some_iff)
    ultimately show ?thesis using none by simp
  qed
next
  case (Some e)
  then have "lookup_valuation p asset c = Some e" by (simp add: lookup_valuation_def)
  moreover have "e \<in> set (vp_entries p) \<and> av_asset_id e = asset \<and> av_reward_class e = c"
    using Some by (auto simp: find_Some_iff)
  ultimately show ?thesis by simp
qed

section \<open>Amounts\<close>

context decimal_text begin

lemma text_value_shape: "is_decimal_text t \<Longrightarrow> \<exists>u s. text_value t = of_nat u / 10 ^ s"
  unfolding text_value_def by (rule exI [of _ "nat_value (int_part t) * 10 ^ length (frac_part t) + nat_value (frac_part t)"],
    rule exI [of _ "length (frac_part t)"]) (simp add: field_simps)

lemma canonical_of_text:
  assumes "is_decimal_text t"
  shows "is_decimal_text (canonical_decimal rt (text_value t))" "text_value (canonical_decimal rt (text_value t)) = text_value t"
  using text_value_shape [OF assms] canonical_text by blast+

lemma canonical_of_rounded:
  assumes "0 \<le> x"
  shows "is_decimal_text (canonical_decimal rt (rt_round rt x))" "text_value (canonical_decimal rt (rt_round rt x)) = rt_round rt x"
proof -
  obtain n e where r: "rt_round rt x = of_int n * 10 powi e" using round_representable unfolding representable_def by blast
  have "0 \<le> rt_round rt x" using assms by (rule round_nonneg)
  moreover have "0 < (10 :: rat) powi e" by simp
  ultimately have n: "0 \<le> n" unfolding r by (simp add: zero_le_mult_iff not_le)
  have "\<exists>u s. rt_round rt x = of_nat u / 10 ^ s"
  proof (cases "0 \<le> e")
    case True
    then have "rt_round rt x = of_nat (nat n * 10 ^ nat e) / 10 ^ 0" unfolding r using n by (simp add: power_int_def)
    then show ?thesis by blast
  next
    case False
    then have "e = - int (nat (- e))" by simp
    then have "rt_round rt x = of_int n * 10 powi (- int (nat (- e)))" using r by simp
    also have "\<dots> = of_nat (nat n) / 10 ^ nat (- e)" using n by (simp only: power_int_minus power_int_of_nat) (simp add: divide_inverse)
    finally show ?thesis by blast
  qed
  then show "is_decimal_text (canonical_decimal rt (rt_round rt x))" "text_value (canonical_decimal rt (rt_round rt x)) = rt_round rt x"
    using canonical_text by blast+
qed

end

text \<open>A valued quantity is an ordered range of amounts: with a valid profile and a decimal amount,
  a result exists exactly when the asset is valued, and its minimum, expected and maximum are decimal
  texts of the rounded products in that order.\<close>

theorem valued_quantity_is_ordered:
  assumes "host rt" "profile_ok p" "is_decimal_text amount" "lookup_valuation p asset c = Some e"
  shows "\<exists>v. value_quantity rt p asset c amount = Inr (Some v) \<and>
    text_value (jv_expected v) = rt_round rt (text_value amount * text_value (av_expected e)) \<and>
    0 \<le> text_value (jv_minimum v) \<and> text_value (jv_minimum v) \<le> text_value (jv_expected v) \<and>
    text_value (jv_expected v) \<le> text_value (jv_maximum v)"
proof -
  have dt: "decimal_text rt" and dr: "decimal_rounding rt"
    using assms(1) by (simp_all add: host_def decimal_text_def)
  have e: "entry_ok e"
    using assms(2,4) lookup_never_invents [of p asset c] by (auto simp: profile_ok_def)
  then have t: "is_decimal_text (av_minimum e)" "is_decimal_text (av_expected e)" "is_decimal_text (av_maximum e)"
    and le: "text_value (av_minimum e) \<le> text_value (av_expected e)" "text_value (av_expected e) \<le> text_value (av_maximum e)"
    by (simp_all add: entry_ok_def)
  let ?q = "\<lambda>r. dmul rt (text_value amount) r"
  have nn: "0 \<le> text_value amount * text_value r" for r by simp
  have val: "text_value (canonical_decimal rt (?q (text_value r))) = ?q (text_value r)" for r
    using decimal_text.canonical_of_rounded(2) [OF dt nn] by (simp add: dmul_def)
  have "value_quantity rt p asset c amount = Inr (Some \<lparr>jv_minimum = canonical_decimal rt (?q (text_value (av_minimum e))),
      jv_expected = canonical_decimal rt (?q (text_value (av_expected e))),
      jv_maximum = canonical_decimal rt (?q (text_value (av_maximum e))), jv_valuation = e\<rparr>)"
    using assms(3,4) t by (simp add: value_quantity_def decimal_string_def)
  moreover have "?q (text_value (av_minimum e)) \<le> ?q (text_value (av_expected e))"
    "?q (text_value (av_expected e)) \<le> ?q (text_value (av_maximum e))"
    using le by (simp_all add: decimal_rounding.dmul_mono [OF dr])
  moreover have "0 \<le> ?q (text_value (av_minimum e))" by (simp add: decimal_rounding.dmul_nonneg [OF dr])
  ultimately show ?thesis by (simp add: val) (simp add: dmul_def)
qed

section \<open>The best exit\<close>

text \<open>A map from keys to the best exits of a set.\<close>

definition best_of :: "(string, exit_option) omap \<Rightarrow> exit_option set \<Rightarrow> bool" where
  "best_of b S \<longleftrightarrow> om_ok b \<and>
     (\<forall>k. case om_get b k of
        None \<Rightarrow> \<forall>x\<in>S. exit_key x \<noteq> k
      | Some x \<Rightarrow> x \<in> S \<and> exit_key x = k \<and> (\<forall>y\<in>S. exit_key y = k \<longrightarrow> rate_of y \<le> rate_of x))"

lemma best_of_step:
  assumes "best_of b S"
  shows "best_of (keep_best x b) (insert x S)"
proof -
  have ok: "om_ok (keep_best x b)"
    using assms by (auto simp: best_of_def keep_best_def om_ok_set split: option.splits)
  have get: "om_get (keep_best x b) k =
      (if k = exit_key x \<and> (case om_get b k of None \<Rightarrow> True | Some c \<Rightarrow> rate_of c < rate_of x) then Some x else om_get b k)" for k
    by (auto simp: keep_best_def om_get_set split: option.splits)
  have old: "case om_get b k of None \<Rightarrow> \<forall>x\<in>S. exit_key x \<noteq> k
      | Some x \<Rightarrow> x \<in> S \<and> exit_key x = k \<and> (\<forall>y\<in>S. exit_key y = k \<longrightarrow> rate_of y \<le> rate_of x)" for k
    using assms by (simp add: best_of_def)
  have "case om_get (keep_best x b) k of None \<Rightarrow> \<forall>y\<in>insert x S. exit_key y \<noteq> k
      | Some z \<Rightarrow> z \<in> insert x S \<and> exit_key z = k \<and> (\<forall>y\<in>insert x S. exit_key y = k \<longrightarrow> rate_of y \<le> rate_of z)" for k
    using old [of k] unfolding get by (cases "om_get b k") (auto split: if_splits)
  with ok show ?thesis by (simp add: best_of_def)
qed

lemma best_of_fold: "best_of b S \<Longrightarrow> best_of (fold keep_best xs b) (set xs \<union> S)"
proof (induction xs arbitrary: b S)
  case (Cons x xs)
  have "best_of (fold keep_best xs (keep_best x b)) (set xs \<union> insert x S)"
    by (rule Cons.IH [OF best_of_step [OF Cons.prems]])
  then show ?case by simp
qed simp

lemma best_exits_best: "best_of (best_exits rt exits) (set exits)"
  using best_of_fold [of "[]" "{}" "sort_cmp (cmp_on eo_exit_id (rt_locale_compare rt)) exits"]
  by (simp add: best_exits_def best_of_def)

text \<open>A map of valid entries under their own keys.\<close>

definition entry_map :: "(string, asset_valuation) omap \<Rightarrow> bool" where
  "entry_map m \<longleftrightarrow> om_ok m \<and> (\<forall>k e. om_get m k = Some e \<longrightarrow> entry_ok e \<and> entry_key e = k)"

lemma entry_map_set: "entry_map m \<Longrightarrow> entry_ok e \<Longrightarrow> entry_map (om_set (entry_key e) e m)"
  by (auto simp: entry_map_def om_ok_set om_get_set)

lemma base_map_fold:
  "entry_map m \<Longrightarrow> (\<And>e. e \<in> set es \<Longrightarrow> entry_ok e) \<Longrightarrow> distinct (map entry_key es) \<Longrightarrow>
   entry_map (fold (\<lambda>e. om_set (entry_key e) e) es m) \<and>
   (\<forall>k. om_get (fold (\<lambda>e. om_set (entry_key e) e) es m) k =
      (case find (\<lambda>e. entry_key e = k) es of None \<Rightarrow> om_get m k | Some e \<Rightarrow> Some e))"
proof (induction es arbitrary: m)
  case (Cons e es)
  have IH: "entry_map (fold (\<lambda>e. om_set (entry_key e) e) es (om_set (entry_key e) e m)) \<and>
     (\<forall>k. om_get (fold (\<lambda>e. om_set (entry_key e) e) es (om_set (entry_key e) e m)) k =
      (case find (\<lambda>e. entry_key e = k) es of None \<Rightarrow> om_get (om_set (entry_key e) e m) k | Some e \<Rightarrow> Some e))"
    using Cons.prems by (intro Cons.IH entry_map_set) auto
  have "find (\<lambda>x. entry_key x = entry_key e) es = None"
    using Cons.prems(3) by (auto simp: find_None_iff image_iff)
  with IH show ?case by (auto simp: om_get_set split: option.splits)
qed simp

lemma base_map_props:
  assumes "profile_ok p"
  shows "entry_map (base_map (vp_entries p))"
    "om_get (base_map (vp_entries p)) k = find (\<lambda>e. entry_key e = k) (vp_entries p)"
proof -
  have "entry_map []" by (simp add: entry_map_def)
  then have "entry_map (base_map (vp_entries p)) \<and> (\<forall>k. om_get (base_map (vp_entries p)) k =
      (case find (\<lambda>e. entry_key e = k) (vp_entries p) of None \<Rightarrow> om_get [] k | Some e \<Rightarrow> Some e))"
    unfolding base_map_def using assms by (intro base_map_fold) (auto simp: profile_ok_def)
  then show "entry_map (base_map (vp_entries p))"
    "om_get (base_map (vp_entries p)) k = find (\<lambda>e. entry_key e = k) (vp_entries p)"
    by (auto split: option.splits)
qed

abbreviation worth :: "asset_valuation \<Rightarrow> rat" where
  "worth e \<equiv> text_value (av_expected e)"

lemma derived_entry_ok:
  assumes "decimal_text rt" "exit_ok x" "\<And>e. existing = Some e \<Longrightarrow> entry_ok e \<and> entry_key e = exit_key x \<and> worth e < rate_of x"
  shows "\<exists>e. derived_entry rt x existing = Inr e \<and> entry_ok e \<and> entry_key e = exit_key x \<and> worth e = rate_of x"
proof -
  have x: "is_decimal_text (eo_jpy_per_unit x)" "asset_id_ok (eo_asset_id x)" "length (eo_label_ja x) \<le> 120"
    using assms(2) by (simp_all add: exit_ok_def)
  note canon = decimal_text.canonical_of_text [OF assms(1)]
  note rate = canon [OF x(1), folded rate_of_def]
  show ?thesis
  proof (cases existing)
    case None
    then show ?thesis using x rate by (simp add: derived_entry_def entry_ok_def)
  next
    case (Some e)
    with assms(3) have e: "entry_ok e" "worth e < rate_of x" by simp_all
    then have m: "is_decimal_text (av_maximum e)" by (simp add: entry_ok_def)
    from e have "text_value (av_minimum e) \<le> rate_of x" by (simp add: entry_ok_def)
    with Some e m x rate canon [OF m] show ?thesis
      by (simp add: derived_entry_def entry_ok_def decimal_string_def)
  qed
qed

definition max_option :: "'a::linorder option \<Rightarrow> 'a option \<Rightarrow> 'a option" where
  "max_option a b = (case a of None \<Rightarrow> b | Some x \<Rightarrow> (case b of None \<Rightarrow> Some x | Some y \<Rightarrow> Some (max x y)))"

lemma improve_spec:
  assumes "decimal_text rt" "entry_map entries" "distinct (map fst best)"
    "\<And>k x. (k, x) \<in> set best \<Longrightarrow> exit_ok x \<and> exit_key x = k"
  shows "\<exists>entries' selected'. improve rt best entries selected = Inr (entries', selected') \<and> entry_map entries' \<and>
    fst ` set entries' = fst ` set entries \<union> fst ` set best \<and>
    (\<forall>k. map_option worth (om_get entries' k) =
       max_option (map_option worth (om_get entries k)) (map_option rate_of (om_get best k)))"
  using assms(2-4)
proof (induction best arbitrary: entries selected)
  case Nil
  then show ?case by (auto simp: max_option_def split: option.splits)
next
  case (Cons kx best)
  obtain k x where kx: "kx = (k, x)" by (cases kx)
  have x: "exit_ok x" "exit_key x = k" using Cons.prems(3) kx by auto
  have fresh: "om_get best k = None" using Cons.prems(2) kx by (auto simp: map_of_eq_None_iff)
  have later: "\<And>k x. (k, x) \<in> set best \<Longrightarrow> exit_ok x \<and> exit_key x = k" "distinct (map fst best)"
    using Cons.prems(2,3) by auto
  show ?case
  proof (cases "\<exists>e. om_get entries k = Some e \<and> rate_of x \<le> worth e")
    case True
    then obtain e where e: "om_get entries k = Some e" "rate_of x \<le> worth e" by blast
    then have "is_decimal_text (av_expected e)" using Cons.prems(1) by (auto simp: entry_map_def entry_ok_def)
    with e have "improve rt (kx # best) entries selected = improve rt best entries selected"
      by (simp add: kx already_valued_def decimal_string_def)
    moreover have "k \<in> fst ` set entries" using e by (metis map_of_eq_None_iff option.distinct(1))
    moreover have "max_option (map_option worth (om_get entries k)) (map_option rate_of (Some x)) = Some (worth e)"
      using e by (simp add: max_option_def max_def)
    moreover have "max_option (Some (worth e)) None = Some (worth e)" by (simp add: max_option_def)
    moreover obtain entries' selected' where "improve rt best entries selected = Inr (entries', selected')" "entry_map entries'"
      "fst ` set entries' = fst ` set entries \<union> fst ` set best"
      "\<forall>k. map_option worth (om_get entries' k) = max_option (map_option worth (om_get entries k)) (map_option rate_of (om_get best k))"
      using Cons.IH [OF Cons.prems(1) later(2,1)] by blast
    ultimately show ?thesis using fresh e(1) by (auto simp: kx insert_absorb)
  next
    case False
    then have av: "already_valued x (om_get entries k) = Inr False"
      using Cons.prems(1) by (cases "om_get entries k") (auto simp: already_valued_def decimal_string_def entry_map_def entry_ok_def)
    have "\<exists>e. derived_entry rt x (om_get entries k) = Inr e \<and> entry_ok e \<and> entry_key e = exit_key x \<and> worth e = rate_of x"
    proof (rule derived_entry_ok [OF assms(1) x(1)])
      fix e assume "om_get entries k = Some e"
      with False Cons.prems(1) x(2) show "entry_ok e \<and> entry_key e = exit_key x \<and> worth e < rate_of x"
        by (auto simp: entry_map_def not_le)
    qed
    then obtain e where e: "derived_entry rt x (om_get entries k) = Inr e" "entry_ok e" "entry_key e = k" "worth e = rate_of x"
      using x(2) by auto
    define m where "m = om_set k e entries"
    have m: "entry_map m" unfolding m_def using entry_map_set [OF Cons.prems(1) e(2)] e(3) by simp
    obtain entries' selected' where r: "improve rt best m (selected @ [selected_exit_of rt x]) = Inr (entries', selected')" "entry_map entries'"
      "fst ` set entries' = fst ` set m \<union> fst ` set best"
      "\<forall>k. map_option worth (om_get entries' k) = max_option (map_option worth (om_get m k)) (map_option rate_of (om_get best k))"
      using Cons.IH [OF m later(2,1)] by blast
    have "improve rt (kx # best) entries selected = Inr (entries', selected')"
      using av e(1) r(1) by (simp add: kx m_def)
    moreover have "fst ` set m = insert k (fst ` set entries)" unfolding m_def by (rule om_set_keys)
    moreover have "map_option worth (om_get entries' j) =
        max_option (map_option worth (om_get entries j)) (map_option rate_of (om_get (kx # best) j))" for j
    proof (cases "j = k")
      case True
      have "max_option (map_option worth (om_get entries k)) (Some (rate_of x)) = Some (rate_of x)"
        using False by (cases "om_get entries k") (auto simp: max_option_def max_def)
      with True r(4) fresh e(4) show ?thesis by (simp add: kx m_def om_get_set max_option_def)
    next
      case False
      with r(4) show ?thesis by (simp add: kx m_def om_get_set)
    qed
    ultimately show ?thesis using r(2,3) by (auto simp: kx)
  qed
qed

text \<open>The values a profile and a list of exits offer for a key.\<close>

definition offers :: "valuation_profile \<Rightarrow> exit_option list \<Rightarrow> string \<Rightarrow> rat set" where
  "offers base exits k =
     worth ` {e \<in> set (vp_entries base). entry_key e = k} \<union> rate_of ` {x \<in> set exits. exit_key x = k}"

lemma find_unique:
  assumes "distinct (map f xs)"
  shows "find (\<lambda>x. f x = k) xs = Some y \<longleftrightarrow> y \<in> set xs \<and> f y = k"
  using assms
proof (induction xs)
  case (Cons x xs)
  then show ?case by (cases "f x = k") (auto simp: image_iff)
qed simp

lemma offers_max:
  assumes "profile_ok base" "best_of b (set exits)"
  shows "max_option (map_option worth (find (\<lambda>e. entry_key e = k) (vp_entries base))) (map_option rate_of (om_get b k)) =
    (if offers base exits k = {} then None else Some (Max (offers base exits k)))"
proof -
  let ?f = "find (\<lambda>e. entry_key e = k) (vp_entries base)"
  have d: "distinct (map entry_key (vp_entries base))" using assms(1) by (simp add: profile_ok_def)
  have E: "worth ` {e \<in> set (vp_entries base). entry_key e = k} = (case ?f of None \<Rightarrow> {} | Some e \<Rightarrow> {worth e})"
  proof (cases ?f)
    case None
    then have "{e \<in> set (vp_entries base). entry_key e = k} = {}" by (auto simp: find_None_iff)
    with None show ?thesis by simp
  next
    case (Some e)
    have "y \<in> set (vp_entries base) \<and> entry_key y = k \<longleftrightarrow> y = e" for y
      unfolding find_unique [OF d, symmetric] Some by auto
    then have "{e \<in> set (vp_entries base). entry_key e = k} = {e}" by blast
    with Some show ?thesis by simp
  qed
  have X: "case om_get b k of None \<Rightarrow> rate_of ` {x \<in> set exits. exit_key x = k} = {}
      | Some x \<Rightarrow> rate_of x \<in> rate_of ` {x \<in> set exits. exit_key x = k} \<and>
          (\<forall>q\<in>rate_of ` {x \<in> set exits. exit_key x = k}. q \<le> rate_of x)"
    using assms(2) unfolding best_of_def by (auto split: option.splits dest: spec [of _ k])
  have fin: "finite (offers base exits k)" by (simp add: offers_def)
  show ?thesis
  proof (cases ?f; cases "om_get b k")
    fix e x assume f: "?f = Some e" "om_get b k = Some x"
    then have "Max (offers base exits k) = max (worth e) (rate_of x)"
      using E X by (intro Max_eqI [OF fin]) (auto simp: offers_def max_def)
    with f E show ?thesis by (simp add: max_option_def offers_def)
  next
    fix x assume f: "?f = None" "om_get b k = Some x"
    then have "Max (offers base exits k) = rate_of x"
      using E X by (intro Max_eqI [OF fin]) (auto simp: offers_def)
    with f E X show ?thesis by (auto simp: max_option_def offers_def)
  next
    fix e assume f: "?f = Some e" "om_get b k = None"
    then have "offers base exits k = {worth e}" unfolding offers_def E using X by (simp only: option.case Un_empty_right)
    with f show ?thesis by (simp add: max_option_def)
  next
    assume f: "?f = None" "om_get b k = None"
    then have "offers base exits k = {}" unfolding offers_def E using X by (simp only: option.case Un_empty_right)
    with f show ?thesis by (simp add: max_option_def)
  qed
qed

lemma best_exit_entries:
  assumes "host rt" "profile_ok base" "\<And>x. x \<in> set exits \<Longrightarrow> exit_ok x"
  obtains entries selected where
    "improve rt (best_exits rt exits) (base_map (vp_entries base)) [] = Inr (entries, selected)" "entry_map entries"
    "fst ` set entries = entry_key ` set (vp_entries base) \<union> exit_key ` set exits"
    "\<forall>k. map_option worth (om_get entries k) = (if offers base exits k = {} then None else Some (Max (offers base exits k)))"
proof -
  define b where "b = best_exits rt exits"
  have b: "best_of b (set exits)" unfolding b_def by (rule best_exits_best)
  then have ok: "om_ok b" by (simp add: best_of_def)
  have mem: "x \<in> set exits \<and> exit_key x = k" if "(k, x) \<in> set b" for k x
  proof -
    have "om_get b k = Some x" using that ok by (simp add: om_ok_def)
    then show ?thesis using b unfolding best_of_def by (auto split: option.splits dest: spec [of _ k])
  qed
  have keys: "fst ` set b = exit_key ` set exits"
  proof
    show "fst ` set b \<subseteq> exit_key ` set exits" using mem by fastforce
    show "exit_key ` set exits \<subseteq> fst ` set b"
    proof
      fix k assume "k \<in> exit_key ` set exits"
      then have "om_get b k \<noteq> None" using b unfolding best_of_def by (auto split: option.splits dest: spec [of _ k])
      then show "k \<in> fst ` set b" by (simp add: map_of_eq_None_iff)
    qed
  qed
  note base = base_map_props [OF assms(2)]
  have "fst ` set (base_map (vp_entries base)) = entry_key ` set (vp_entries base)"
  proof -
    have "k \<in> fst ` set (base_map (vp_entries base)) \<longleftrightarrow> k \<in> entry_key ` set (vp_entries base)" for k
    proof -
      have "k \<in> fst ` set (base_map (vp_entries base)) \<longleftrightarrow> om_get (base_map (vp_entries base)) k \<noteq> None"
        by (simp add: map_of_eq_None_iff)
      also have "\<dots> \<longleftrightarrow> k \<in> entry_key ` set (vp_entries base)" unfolding base(2) by (auto simp: find_None_iff)
      finally show ?thesis .
    qed
    then show ?thesis by blast
  qed
  moreover obtain entries selected where
    "improve rt b (base_map (vp_entries base)) [] = Inr (entries, selected)" "entry_map entries"
    "fst ` set entries = fst ` set (base_map (vp_entries base)) \<union> fst ` set b"
    "\<forall>k. map_option worth (om_get entries k) =
       max_option (map_option worth (om_get (base_map (vp_entries base)) k)) (map_option rate_of (om_get b k))"
    using improve_spec [of rt "base_map (vp_entries base)" b "[]"] base(1) ok mem assms(1,3)
    by (auto simp: host_def om_ok_def)
  ultimately show ?thesis using keys offers_max [OF assms(2) b] that unfolding b_def base(2) by simp
qed

lemma assert_exits_ok: "traverse assert_exit exits = Inr us \<Longrightarrow> x \<in> set exits \<Longrightarrow> exit_ok x"
  using traverse_unit_iff [of assert_exit exits] unfolding assert_exit_iff by blast

lemma entry_map_keys:
  assumes "entry_map m"
  shows "map entry_key (map snd m) = map fst m"
proof -
  have "entry_key (snd ke) = fst ke" if "ke \<in> set m" for ke
    using assms that by (cases ke) (auto simp: entry_map_def om_ok_def)
  then show ?thesis by simp
qed

lemma derived_entries_ok:
  assumes "derive_best_exit_valuations rt sha number_text base exits = Inr d"
  shows "\<forall>e\<in>set (vp_entries (bd_profile d)). entry_ok e"
proof -
  from assms obtain entries where
    b: "build_valuation_profile rt sha number_text (vp_profile_id base) entries = Inr (bd_profile d)"
    by (auto simp: derive_best_exit_valuations_def res_simps split: if_splits)
  then have "\<forall>e\<in>set entries. entry_ok e" using build_iff by blast
  moreover have "set (vp_entries (bd_profile d)) = set entries" using build_result(2) [OF b] by (rule mset_eq_setD)
  ultimately show ?thesis by simp
qed

lemma derived_worth_by_key:
  assumes "host rt" "profile_ok base" "derive_best_exit_valuations rt sha number_text base exits = Inr d"
  shows "(\<exists>e\<in>set (vp_entries (bd_profile d)). entry_key e = k \<and> worth e = q) \<longleftrightarrow>
    offers base exits k \<noteq> {} \<and> q = Max (offers base exits k)"
proof -
  from assms(3) obtain us where "traverse assert_exit exits = Inr us"
    by (auto simp: derive_best_exit_valuations_def res_simps split: if_splits)
  then have ok: "exit_ok x" if "x \<in> set exits" for x using that by (rule assert_exits_ok)
  obtain entries selected where
    i: "improve rt (best_exits rt exits) (base_map (vp_entries base)) [] = Inr (entries, selected)" and m: "entry_map entries"
    and "fst ` set entries = entry_key ` set (vp_entries base) \<union> exit_key ` set exits"
    and w: "\<forall>k. map_option worth (om_get entries k) = (if offers base exits k = {} then None else Some (Max (offers base exits k)))"
    by (rule best_exit_entries [OF assms(1,2) ok])
  from assms(3) i have "build_valuation_profile rt sha number_text (vp_profile_id base) (map snd entries) = Inr (bd_profile d)"
    by (auto simp: derive_best_exit_valuations_def res_simps split: if_splits)
  then have "mset (vp_entries (bd_profile d)) = mset (map snd entries)" by (rule build_result(2))
  then have set: "set (vp_entries (bd_profile d)) = snd ` set entries" by (metis mset_eq_setD set_map)
  have mem: "(k', e) \<in> set entries \<longleftrightarrow> om_get entries k' = Some e" for k' e using m by (simp add: entry_map_def om_ok_def)
  have key: "entry_key e = k'" if "om_get entries k' = Some e" for k' e using m that by (simp add: entry_map_def)
  have "(\<exists>e\<in>snd ` set entries. entry_key e = k \<and> worth e = q) \<longleftrightarrow> (\<exists>e. om_get entries k = Some e \<and> worth e = q)"
  proof
    assume "\<exists>e\<in>snd ` set entries. entry_key e = k \<and> worth e = q"
    then obtain k' e where "(k', e) \<in> set entries" "entry_key e = k" "worth e = q" by auto
    with mem key show "\<exists>e. om_get entries k = Some e \<and> worth e = q" by blast
  next
    assume "\<exists>e. om_get entries k = Some e \<and> worth e = q"
    then obtain e where e: "om_get entries k = Some e" "worth e = q" by blast
    then have "(k, e) \<in> set entries" "entry_key e = k" using mem key by blast+
    with e(2) show "\<exists>e\<in>snd ` set entries. entry_key e = k \<and> worth e = q" by force
  qed
  also have "\<dots> \<longleftrightarrow> map_option worth (om_get entries k) = Some q" by (cases "om_get entries k") auto
  finally have "(\<exists>e\<in>snd ` set entries. entry_key e = k \<and> worth e = q) \<longleftrightarrow> map_option worth (om_get entries k) = Some q" .
  then show ?thesis unfolding set w [rule_format] by auto
qed

text \<open>The specification speaks of assets and reward classes, not of the key the code builds: the ids
  of valid assets have no blank, so the key of one asset and class is the key of no other.\<close>

definition of_class :: "string \<Rightarrow> string option \<Rightarrow> bool" where
  "of_class t c \<longleftrightarrow> (case c of None \<Rightarrow> t = [] | Some s \<Rightarrow> t = s)"

definition offered :: "valuation_profile \<Rightarrow> exit_option list \<Rightarrow> string \<Rightarrow> string \<Rightarrow> rat set" where
  "offered base exits a t =
     {text_value (av_expected e) |e. e \<in> set (vp_entries base) \<and> av_asset_id e = a \<and> of_class t (av_reward_class e)} \<union>
     {text_value (eo_jpy_per_unit x) |x. x \<in> set exits \<and> eo_asset_id x = a \<and> of_class t (eo_reward_class x)}"

lemma asset_id_no_blank:
  assumes "asset_id_ok a"
  shows "CHR '' '' \<notin> set a"
proof -
  have "set a = set (take 6 a) \<union> set (drop 6 a)" by (metis append_take_drop_id set_append)
  moreover have "CHR '' '' \<notin> set (drop 6 a)"
    using assms by (auto simp: asset_id_ok_def list_all_iff lower_or_digit_def is_digit_def)
  moreover have "CHR '' '' \<notin> set (take 6 a)" using assms by (simp add: asset_id_ok_def)
  ultimately show ?thesis by blast
qed

lemma valuation_key_identifies:
  assumes "asset_id_ok a" "asset_id_ok b"
  shows "valuation_key b c = valuation_key a (Some t) \<longleftrightarrow> b = a \<and> of_class t c"
proof -
  have front: "takeWhile (\<lambda>x. x \<noteq> CHR '' '') (x @ CHR '' '' # s) = x" if "asset_id_ok x" for x s
    using asset_id_no_blank [OF that] by (subst takeWhile_append2) auto
  have "valuation_key b c = valuation_key a (Some t) \<longleftrightarrow> b = a \<and> default_to [] c = t"
  proof
    assume "valuation_key b c = valuation_key a (Some t)"
    then have eq: "b @ CHR '' '' # default_to [] c = a @ CHR '' '' # t" by (simp add: valuation_key_def)
    with front [OF assms(2)] front [OF assms(1)] have "b = a" by metis
    with eq show "b = a \<and> default_to [] c = t" by simp
  qed (simp add: valuation_key_def)
  then show ?thesis by (cases c) (auto simp: of_class_def)
qed

lemma offers_offered:
  assumes "\<forall>e\<in>set (vp_entries base). entry_ok e" "\<forall>x\<in>set exits. exit_ok x" "asset_id_ok a"
  shows "offers base exits (valuation_key a (Some t)) = offered base exits a t"
proof -
  have "entry_key e = valuation_key a (Some t) \<longleftrightarrow> av_asset_id e = a \<and> of_class t (av_reward_class e)"
    if "e \<in> set (vp_entries base)" for e
    using valuation_key_identifies [OF assms(3)] assms(1) that by (simp add: entry_ok_def)
  moreover have "exit_key x = valuation_key a (Some t) \<longleftrightarrow> eo_asset_id x = a \<and> of_class t (eo_reward_class x)"
    if "x \<in> set exits" for x
    using valuation_key_identifies [OF assms(3)] assms(2) that by (simp add: exit_ok_def)
  ultimately show ?thesis unfolding offers_def offered_def rate_of_def by auto
qed

text \<open>C39. What a unit is worth is the best thing that can be done with it: in a derived profile the
  expected value for an asset and reward class is the greatest of the declared expected value and
  the rates of the exits for that asset and class, and only an asset and class that is declared or
  has an exit is valued. (No class and the class with the empty name count as one.)\<close>

theorem derived_worth_is_the_best:
  assumes "host rt" "profile_ok base" "derive_best_exit_valuations rt sha number_text base exits = Inr d"
  shows "(\<exists>e\<in>set (vp_entries (bd_profile d)).
      av_asset_id e = a \<and> of_class t (av_reward_class e) \<and> text_value (av_expected e) = q) \<longleftrightarrow>
    offered base exits a t \<noteq> {} \<and> q = Max (offered base exits a t)"
proof -
  from assms(3) obtain us where "traverse assert_exit exits = Inr us"
    by (auto simp: derive_best_exit_valuations_def res_simps split: if_splits)
  then have exits: "\<forall>x\<in>set exits. exit_ok x" using assert_exits_ok by blast
  have base: "\<forall>e\<in>set (vp_entries base). entry_ok e" using assms(2) by (simp add: profile_ok_def)
  have entries: "\<forall>e\<in>set (vp_entries (bd_profile d)). entry_ok e" by (rule derived_entries_ok [OF assms(3)])
  show ?thesis
  proof (cases "asset_id_ok a")
    case True
    have "av_asset_id e = a \<and> of_class t (av_reward_class e) \<longleftrightarrow> entry_key e = valuation_key a (Some t)"
      if "e \<in> set (vp_entries (bd_profile d))" for e
      using valuation_key_identifies [OF True] entries that by (simp add: entry_ok_def)
    then show ?thesis
      using derived_worth_by_key [OF assms, of "valuation_key a (Some t)" q]
      unfolding offers_offered [OF base exits True] by blast
  next
    case False
    have "offered base exits a t = {}" using False base exits by (auto simp: offered_def entry_ok_def exit_ok_def)
    then show ?thesis using False entries by (auto simp: entry_ok_def)
  qed
qed

text \<open>Deriving from a valid profile and valid exits under distinct ids fails in one way only: when
  the profile would value more than 256 assets and classes.\<close>

theorem derivation_fails_only_on_size:
  assumes "host rt" "profile_ok base" "length exits \<le> 256" "\<forall>x\<in>set exits. exit_ok x" "distinct (map eo_exit_id exits)"
  shows "derive_best_exit_valuations rt sha number_text base exits = Inl e \<longleftrightarrow>
    e = ''valuation_profile_invalid'' \<and> 256 < card (entry_key ` set (vp_entries base) \<union> exit_key ` set exits)"
proof -
  obtain entries selected where
    i: "improve rt (best_exits rt exits) (base_map (vp_entries base)) [] = Inr (entries, selected)" and m: "entry_map entries"
    and k: "fst ` set entries = entry_key ` set (vp_entries base) \<union> exit_key ` set exits"
    and "\<forall>k. map_option worth (om_get entries k) = (if offers base exits k = {} then None else Some (Max (offers base exits k)))"
    by (rule best_exit_entries [OF assms(1,2)]) (use assms(4) in blast)+
  have "distinct (map fst entries)" using m by (simp add: entry_map_def om_ok_def)
  then have len: "length entries = card (entry_key ` set (vp_entries base) \<union> exit_key ` set exits)"
    using distinct_card [of "map fst entries"] k by simp
  have ok: "\<forall>e\<in>set (map snd entries). entry_ok e"
    using m by (auto simp: entry_map_def om_ok_def)
  have d: "distinct (map entry_key (map snd entries))"
    unfolding entry_map_keys [OF m] using m by (simp add: entry_map_def om_ok_def)
  have "\<not> list_ex (\<lambda>x. 512 < length (eo_source_claim_ids x)) exits"
  proof
    assume "list_ex (\<lambda>x. 512 < length (eo_source_claim_ids x)) exits"
    then obtain x where x: "x \<in> set exits" "512 < length (eo_source_claim_ids x)" by (auto simp: list_ex_iff)
    with assms(4) have "length (eo_source_claim_ids x) \<le> 16" by (simp add: exit_ok_def)
    with x(2) show False by simp
  qed
  moreover obtain us where "traverse assert_exit exits = Inr us"
    using traverse_unit_iff [of assert_exit exits] assms(4) assert_exit_iff by blast
  ultimately have derive: "derive_best_exit_valuations rt sha number_text base exits =
      rmap (\<lambda>p. \<lparr>bd_profile = p, bd_selected_exits = sort_cmp (by_asset_and_class rt se_asset_id se_reward_class) selected\<rparr>)
        (build_valuation_profile rt sha number_text (vp_profile_id base) (map snd entries))"
    using assms(3,5) i by (simp add: derive_best_exit_valuations_def)
  show ?thesis
  proof (cases "256 < length entries")
    case True
    then show ?thesis
      unfolding derive using assms(2) len by (auto simp: build_valuation_profile_def profile_ok_def)
  next
    case False
    then obtain p where "build_valuation_profile rt sha number_text (vp_profile_id base) (map snd entries) = Inr p"
      using build_iff [of rt sha number_text "vp_profile_id base" "map snd entries"] ok d assms(2)
      by (auto simp: profile_ok_def)
    with False show ?thesis unfolding derive using len by simp
  qed
qed

section \<open>A concrete profile\<close>

definition sample_entry :: "string option \<Rightarrow> string \<Rightarrow> asset_valuation" where
  "sample_entry c q = \<lparr>av_asset_id = ''asset.pt'', av_reward_class = c, av_minimum = q, av_expected = q, av_maximum = q,
     av_source = VS_face_value_default, av_note = []\<rparr>"

definition sample_exit :: "string \<Rightarrow> exit_option" where
  "sample_exit q = \<lparr>eo_exit_id = ''day.1'', eo_asset_id = ''asset.pt'', eo_reward_class = None, eo_label_ja = ''x'',
     eo_jpy_per_unit = q, eo_source = VS_official_disclosed, eo_source_claim_ids = []\<rparr>"

definition sample_profile :: valuation_profile where
  "sample_profile = \<lparr>vp_profile_id = ''pr'', vp_entries = [sample_entry None ''1''], vp_profile_hash = []\<rparr>"

lemma sample_valid: "profile_ok sample_profile" "exit_ok (sample_exit ''2'')" "is_decimal_text ''3''"
  "text_value ''1'' = 1" "text_value ''2'' = 2" "text_value ''3'' = 3"
  by code_simp+

lemma sample_lookup: "lookup_valuation sample_profile ''asset.pt'' None = Some (sample_entry None ''1'')"
  by (simp add: lookup_valuation_def sample_profile_def sample_entry_def)

theorem valued_quantity_is_ordered_witness:
  "\<exists>v. value_quantity ref_rt sample_profile ''asset.pt'' None ''3'' = Inr (Some v) \<and> text_value (jv_expected v) = 3"
proof -
  from valued_quantity_is_ordered [OF ref.host_axioms sample_valid(1,3) sample_lookup] obtain v where
    "value_quantity ref_rt sample_profile ''asset.pt'' None ''3'' = Inr (Some v)"
    "text_value (jv_expected v) = rt_round ref_rt (3 * 1)"
    by (auto simp: sample_valid sample_entry_def)
  then show ?thesis by auto
qed

definition sample_derivation :: "exit_option list \<Rightarrow> best_exit_derivation res" where
  "sample_derivation = derive_best_exit_valuations ref_rt id (\<lambda>_. []) sample_profile"

theorem derivation_fails_only_on_size_witness: "is_ok (sample_derivation [sample_exit ''2''])"
proof -
  have "card (entry_key ` set (vp_entries sample_profile)) \<le> length (vp_entries sample_profile)"
    "card (exit_key ` set [sample_exit ''2'']) \<le> length [sample_exit ''2'']"
    by (metis card_image_le card_length finite_set order.trans)+
  moreover have "length (vp_entries sample_profile) = 1" by (simp only: sample_profile_def valuation_profile.select_convs list.size One_nat_def add_0)
  ultimately have "card (entry_key ` set (vp_entries sample_profile)) + card (exit_key ` set [sample_exit ''2'']) \<le> 256"
    by simp
  from order.trans [OF card_Un_le this] have small: "\<not> 256 < card (entry_key ` set (vp_entries sample_profile) \<union> exit_key ` set [sample_exit ''2''])" by (simp only: not_less)
  have pre: "length [sample_exit ''2''] \<le> 256" "\<forall>x\<in>set [sample_exit ''2'']. exit_ok x" "distinct (map eo_exit_id [sample_exit ''2''])"
    using sample_valid(2) by simp_all
  have "sample_derivation [sample_exit ''2''] \<noteq> Inl e" for e
    unfolding sample_derivation_def derivation_fails_only_on_size [OF ref.host_axioms sample_valid(1) pre] using small by blast
  then show ?thesis by (cases "sample_derivation [sample_exit ''2'']") (blast, simp)
qed

lemma sample_derived: "is_ok (sample_derivation [sample_exit ''2''])"
  by (simp add: sample_derivation_def derive_best_exit_valuations_def) code_simp

theorem derived_worth_is_the_best_witness:
  "\<exists>d. sample_derivation [sample_exit ''2''] = Inr d \<and> (\<exists>e. e \<in> set (vp_entries (bd_profile d)) \<and> worth e = 2)"
proof -
  from sample_derived obtain d where d: "sample_derivation [sample_exit ''2''] = Inr d" unfolding is_ok_iff by blast
  have "offered sample_profile [sample_exit ''2''] ''asset.pt'' [] = {1, 2}"
    by (auto simp: offered_def sample_profile_def sample_entry_def sample_exit_def of_class_def sample_valid)
  then have "offered sample_profile [sample_exit ''2''] ''asset.pt'' [] \<noteq> {} \<and> 2 = Max (offered sample_profile [sample_exit ''2''] ''asset.pt'' [])"
    by simp
  from derived_worth_is_the_best [OF ref.host_axioms sample_valid(1) d [unfolded sample_derivation_def], THEN iffD2, OF this] d
  show ?thesis by blast
qed

text \<open>An entry without a class and one with the empty class are told apart by every lookup, yet a
  profile with both is refused as a duplicate.\<close>

theorem empty_class_collides_with_none:
  "build_valuation_profile ref_rt id (\<lambda>_. []) ''pr'' [sample_entry None ''1'', sample_entry (Some []) ''1''] =
     Inl ''valuation_entry_duplicate''"
  by code_simp

end
