(* ===== verification/Engine_Rules.thy ===== *)
theory Engine_Rules
  imports Bitemporal Transfers Caps Uncertainty
begin

text \<open>
  What a reward rule says about one operation
  (\<open>packages/rule-engine/src/engine.ts\<close>, first part): whether the rule matches the
  operation of a plan under the known facts, which part of the spend it rewards, and the
  units it awards.  A rule here is the document the bitemporal store selects, extended by
  the fields only the plan engine reads.

  The text of a finite number (\<open>JSON.stringify\<close>), of any value (\<open>String\<close>) and of a decimal
  (\<open>toString\<close>) belong to the host and come with the runtime as one argument.  A document read from JSON holds no
  \<open>NaN\<close> and no infinity.
\<close>

record engine_host =
  eh_runtime :: runtime
  eh_number_text :: "rat \<Rightarrow> string"
  eh_text_of :: "json option \<Rightarrow> string"
  eh_decimal_text :: "rat \<Rightarrow> string"

section \<open>Rules as the engine reads them\<close>

record operation_match =
  mt_required_loyalty_program_ids :: "string list option"
  mt_allowed_payment_instrument_ids :: "string list option"
  mt_excluded_payment_instrument_ids :: "string list option"
  mt_allowed_funding_source_ids :: "string list option"
  mt_excluded_funding_source_ids :: "string list option"
  mt_allowed_source_asset_ids :: "string list option"
  mt_excluded_source_asset_ids :: "string list option"
  mt_allowed_destination_asset_ids :: "string list option"
  mt_required_interfaces :: "interface list option"
  mt_excluded_interfaces :: "interface list option"
  mt_must_present_before_payment :: "bool option"

datatype condition_operator =
  ON_eq | ON_neq | ON_in | ON_not_in | ON_gte | ON_lte | ON_exists | ON_not_exists

datatype condition_policy =
  UN_return_conditional | UN_ask_user | UN_suppress_rule | UN_use_lower_bound

record user_condition =
  cn_fact_key :: string
  cn_operator :: condition_operator
  cn_value :: "json option"
  cn_unknown_policy :: condition_policy

datatype effect_decision = ED_allow | ED_deny

datatype effect_target =
  ET_operation_eligibility | ET_reward_earning | ET_tier_progress | ET_campaign_progress
| ET_transfer_eligibility | ET_asset_use

record non_financial_effect =
  ef_decision :: effect_decision
  ef_effect_target :: effect_target
  ef_target_rule_ids :: "string list"
  ef_target_stack_groups :: "string list"
  ef_reason_code :: string

record rule_output =
  ou_asset :: asset_ref
  ou_sign :: reward_sign
  ou_certainty :: certainty
  ou_settlement :: settlement
  ou_expiry :: expiry
  ou_restrictions :: usage_restrictions
  ou_clawback :: clawback_policy

record transfer_calculation = transfer_calculation_spec +
  tf_processing_time_days_min :: "int option"
  tf_processing_time_days_max :: "int option"
  tf_bonus_rule_ids :: "string list option"

datatype rule_calculation =
  RL_percentage int rounding "bool option"
| RL_points_per_unit string int rounding "bool option"
| RL_fixed fixed_calculation_spec
| RL_tiered tiered_calculation_spec
| RL_multiplier multiplier_calculation_spec string
| RL_transfer_ratio transfer_calculation

definition calculation_rounding :: "rule_calculation \<Rightarrow> rounding" where
  "calculation_rounding c =
     (case c of
        RL_percentage _ r _ \<Rightarrow> r | RL_points_per_unit _ _ r _ \<Rightarrow> r | RL_fixed s \<Rightarrow> fx_rounding s
      | RL_tiered s \<Rightarrow> td_rounding s | RL_multiplier s _ \<Rightarrow> mu_rounding s | RL_transfer_ratio s \<Rightarrow> ts_rounding s)"

record engine_rule = rule_document +
  er_operation_match :: operation_match
  er_user_conditions :: "user_condition list"
  er_entry_deadline :: "string option"
  er_effect :: "non_financial_effect option"
  er_calculation :: "rule_calculation option"
  er_output :: "rule_output option"
  er_caps :: "cap_rule list"

abbreviation rule_id_of :: "engine_rule \<Rightarrow> string" where
  "rule_id_of r \<equiv> rr_rule_id (rd_rule r)"

text \<open>The facts of the user by key.\<close>

type_synonym facts = "(string, state_value) omap"

section \<open>Does a rule match an operation?\<close>

definition outside :: "string list option \<Rightarrow> string option \<Rightarrow> bool" where
  "outside allowed v =
     (case allowed of None \<Rightarrow> False
      | Some ids \<Rightarrow> ids \<noteq> [] \<and> (falsy v \<or> default_to [] v \<notin> set ids))"

definition excluded_by :: "string list option \<Rightarrow> string option \<Rightarrow> bool" where
  "excluded_by excluded v =
     (case excluded of None \<Rightarrow> False | Some ids \<Rightarrow> default_to [] v \<in> set ids)"

definition none_allowed :: "string list option \<Rightarrow> string list \<Rightarrow> bool" where
  "none_allowed allowed actual =
     (case allowed of None \<Rightarrow> False | Some ids \<Rightarrow> ids \<noteq> [] \<and> \<not> list_ex (\<lambda>a. a \<in> set ids) actual)"

definition compare_string_lists :: "string list option \<Rightarrow> string list \<Rightarrow> string option" where
  "compare_string_lists required actual =
     (case find (\<lambda>v. v \<notin> set actual) (default_to [] required) of
        None \<Rightarrow> None
      | Some missing \<Rightarrow> if missing = [] then None else Some (''missing:'' @ missing))"

text \<open>The reason of the first check that holds.\<close>

fun first_reason :: "(bool \<times> string) list \<Rightarrow> string option" where
  "first_reason [] = None"
| "first_reason ((holds, reason) # rest) = (if holds then Some reason else first_reason rest)"

definition has_prior_portal_attribution :: "operation \<Rightarrow> purchase_plan \<Rightarrow> bool" where
  "has_prior_portal_attribution op plan =
     list_ex (\<lambda>d. de_to_operation_id d = op_operation_id op \<and> de_dependency_type d = DT_attribution \<and>
       (case om_get (operations_by_id (pp_operations plan)) (de_from_operation_id d) of
          None \<Rightarrow> False
        | Some p \<Rightarrow> op_operation_type p = OT_portal_clickout \<and> op_sequence p < op_sequence op \<and>
            op_merchant_id p = op_merchant_id op \<and> \<not> falsy (op_portal_id op) \<and>
            op_portal_id p = op_portal_id op))
       (pp_dependencies plan)"

definition scope_reason :: "rule_scope \<Rightarrow> operation \<Rightarrow> string option" where
  "scope_reason sc op =
     (let classes = map li_product_class (op_line_items op);
          included = default_to [] (sc_included_product_classes sc);
          excluded = default_to [] (sc_excluded_product_classes sc)
      in first_reason
        [(op_operation_type op \<notin> set (sc_operation_types sc), ''operation_type_outside_scope''),
         (op_channel op \<notin> set (sc_channels sc) \<and> CH_not_applicable \<notin> set (sc_channels sc), ''channel_outside_scope''),
         (outside (sc_merchant_ids sc) (op_merchant_id op), ''merchant_outside_scope''),
         (excluded_by (sc_excluded_merchant_ids sc) (op_merchant_id op), ''merchant_excluded''),
         (outside (sc_merchant_location_ids sc) (op_merchant_location_id op), ''location_outside_scope''),
         (excluded_by (sc_excluded_merchant_location_ids sc) (op_merchant_location_id op), ''location_excluded''),
         (list_ex (\<lambda>c. c \<in> set excluded) classes, ''product_excluded''),
         (included \<noteq> [] \<and> \<not> list_ex (\<lambda>c. c \<in> set included) classes, ''product_outside_scope'')])"

definition presented_programs :: "operation \<Rightarrow> purchase_plan \<Rightarrow> string list" where
  "presented_programs op plan =
     map lp_loyalty_program_id (filter (\<lambda>p. lp_operation_id p = op_operation_id op \<and>
       lp_sequence p \<le> op_sequence op) (pp_loyalty_presentments plan))"

definition match_reason :: "operation_match \<Rightarrow> operation \<Rightarrow> purchase_plan \<Rightarrow> string option" where
  "match_reason m op plan =
     (let sources = map (ar_asset_id \<circ> q_asset \<circ> ai_quantity) (op_asset_inputs op);
          destinations = map (ar_asset_id \<circ> or_asset) (op_output_requests op)
      in orelse (first_reason
           [(op_operation_type op = OT_merchant_purchase \<and> mt_must_present_before_payment m = Some True \<and>
               \<not> has_prior_portal_attribution op plan, ''portal_attribution_missing''),
            (outside (mt_allowed_payment_instrument_ids m) (op_payment_instrument_id op),
               ''payment_instrument_not_allowed''),
            (excluded_by (mt_excluded_payment_instrument_ids m) (op_payment_instrument_id op),
               ''payment_instrument_excluded''),
            (outside (mt_allowed_funding_source_ids m) (op_funding_source_id op), ''funding_source_not_allowed''),
            (excluded_by (mt_excluded_funding_source_ids m) (op_funding_source_id op), ''funding_source_excluded''),
            (case mt_required_interfaces m of None \<Rightarrow> False
             | Some ifs \<Rightarrow> ifs \<noteq> [] \<and> op_interface op \<notin> set ifs, ''interface_not_allowed''),
            (case mt_excluded_interfaces m of None \<Rightarrow> False | Some ifs \<Rightarrow> op_interface op \<in> set ifs,
               ''interface_excluded'')])
         (orelse (map_option (\<lambda>r. ''loyalty_presentment_'' @ r)
             (compare_string_lists (mt_required_loyalty_program_ids m) (presented_programs op plan)))
          (first_reason
            [(none_allowed (mt_allowed_source_asset_ids m) sources, ''source_asset_not_allowed''),
             (list_ex (\<lambda>a. a \<in> set sources) (default_to [] (mt_excluded_source_asset_ids m)), ''source_asset_excluded''),
             (none_allowed (mt_allowed_destination_asset_ids m) destinations, ''destination_asset_not_allowed'')])))"

definition amount_reason :: "transaction_conditions \<Rightarrow> operation \<Rightarrow> string option" where
  "amount_reason tc op =
     (let amount = default_to 0 (op_amount_jpy op)
      in first_reason
        [(case tc_minimum_amount_jpy tc of None \<Rightarrow> False | Some m \<Rightarrow> amount < m, ''amount_below_minimum''),
         (case tc_maximum_amount_jpy tc of None \<Rightarrow> False | Some m \<Rightarrow> m < amount, ''amount_above_maximum'')])"

definition deadline_reason :: "runtime \<Rightarrow> string option \<Rightarrow> operation \<Rightarrow> string option res" where
  "deadline_reason rt deadline op =
     (if falsy deadline then Inr None
      else rbind (parse_time rt (op_occurred_at op)) (\<lambda>now.
           rbind (parse_time rt (default_to [] deadline)) (\<lambda>stop.
             Inr (if stop < now then Some ''campaign_entry_deadline_passed'' else None))))"

section \<open>User conditions\<close>

text \<open>\<open>comparedTo\<close>, whose result is \<open>NaN\<close> (here \<open>None\<close>) when an argument is.\<close>

fun compared_to :: "dec_read \<Rightarrow> dec_read \<Rightarrow> int option" where
  "compared_to (DecFinite _ x) (DecFinite _ y) = Some (rat_cmp x y)"
| "compared_to (DecNonFinite (Some a)) (DecNonFinite (Some b)) = Some (if a = b then 0 else if a then -1 else 1)"
| "compared_to (DecNonFinite (Some a)) (DecFinite _ _) = Some (if a then -1 else 1)"
| "compared_to (DecFinite _ _) (DecNonFinite (Some b)) = Some (if b then 1 else -1)"
| "compared_to _ _ = None"

text \<open>\<open>plus\<close> and \<open>toString\<close> on everything \<open>decimal.js\<close> reads.\<close>

fun dec_plus :: "runtime \<Rightarrow> dec_read \<Rightarrow> dec_read \<Rightarrow> dec_read" where
  "dec_plus rt (DecFinite _ x) (DecFinite _ y) = DecFinite (dadd rt x y < 0) (dadd rt x y)"
| "dec_plus rt (DecNonFinite (Some a)) (DecNonFinite (Some b)) = DecNonFinite (if a = b then Some a else None)"
| "dec_plus rt (DecNonFinite n) (DecFinite _ _) = DecNonFinite n"
| "dec_plus rt (DecFinite _ _) (DecNonFinite n) = DecNonFinite n"
| "dec_plus rt _ _ = DecNonFinite None"

fun dec_text :: "engine_host \<Rightarrow> dec_read \<Rightarrow> string" where
  "dec_text h (DecFinite _ x) = eh_decimal_text h x"
| "dec_text h (DecNonFinite (Some neg)) = (if neg then ''-Infinity'' else ''Infinity'')"
| "dec_text h _ = ''NaN''"

definition canonical_value :: "engine_host \<Rightarrow> json option \<Rightarrow> string res" where
  "canonical_value h v =
     (case v of None \<Rightarrow> Inl ''unsupported_canonical_type:undefined'' | Some j \<Rightarrow> canonicalize (eh_number_text h) j)"

definition comparable :: "engine_host \<Rightarrow> json option \<Rightarrow> json option \<Rightarrow> int option res" where
  "comparable h l r =
     (let rt = eh_runtime h; read = (\<lambda>v. decimal rt (DStr (eh_text_of h v)))
      in case rbind (read l) (\<lambda>x. rmap (compared_to x) (read r)) of
           Inr c \<Rightarrow> Inr c
         | Inl _ \<Rightarrow> rbind (canonical_value h l) (\<lambda>a. rmap (\<lambda>b. Some (str_cmp a b)) (canonical_value h r)))"

definition same_value :: "engine_host \<Rightarrow> json option \<Rightarrow> json option \<Rightarrow> bool res" where
  "same_value h a b = rbind (canonical_value h a) (\<lambda>x. rmap (\<lambda>y. x = y) (canonical_value h b))"

definition absent :: "json option \<Rightarrow> bool" where
  "absent v \<longleftrightarrow> v = None \<or> v = Some JNull"

definition member_of :: "engine_host \<Rightarrow> json option \<Rightarrow> json list \<Rightarrow> bool res" where
  "member_of h actual vs = some_res (\<lambda>v. same_value h (Some v) actual) vs"

definition evaluate_condition_value ::
    "engine_host \<Rightarrow> json option \<Rightarrow> condition_operator \<Rightarrow> json option \<Rightarrow> bool res" where
  "evaluate_condition_value h actual operator expected =
     (case operator of
        ON_exists \<Rightarrow> Inr (\<not> absent actual)
      | ON_not_exists \<Rightarrow> Inr (absent actual)
      | ON_eq \<Rightarrow> same_value h actual expected
      | ON_neq \<Rightarrow> rmap Not (same_value h actual expected)
      | ON_in \<Rightarrow> (case expected of Some (JArr vs) \<Rightarrow> member_of h actual vs | _ \<Rightarrow> Inr False)
      | ON_not_in \<Rightarrow> (case expected of Some (JArr vs) \<Rightarrow> rmap Not (member_of h actual vs) | _ \<Rightarrow> Inr False)
      | ON_gte \<Rightarrow> rmap (\<lambda>c. case c of None \<Rightarrow> False | Some n \<Rightarrow> 0 \<le> n) (comparable h actual expected)
      | ON_lte \<Rightarrow> rmap (\<lambda>c. case c of None \<Rightarrow> False | Some n \<Rightarrow> n \<le> 0) (comparable h actual expected))"

definition unknown_fact :: "state_value option \<Rightarrow> bool" where
  "unknown_fact f =
     (case f of None \<Rightarrow> True | Some v \<Rightarrow> sv_status v = FS_unknown \<or> sv_status v = FS_not_applicable)"

fun conditions_reason :: "engine_host \<Rightarrow> facts \<Rightarrow> user_condition list \<Rightarrow> string option res" where
  "conditions_reason h facts [] = Inr None"
| "conditions_reason h facts (c # cs) =
     (let state = om_get facts (cn_fact_key c); lower_bound = (cn_unknown_policy c = UN_use_lower_bound)
      in if unknown_fact state then
           (if lower_bound then conditions_reason h facts cs else Inr (Some ''user_condition_unknown''))
         else if map_option sv_status state = Some FS_estimated \<and> \<not> lower_bound then
           Inr (Some ''user_condition_unknown'')
         else rbind (evaluate_condition_value h (Option.bind state sv_value) (cn_operator c) (cn_value c)) (\<lambda>holds.
           if holds then conditions_reason h facts cs else Inr (Some ''user_condition_failed'')))"

definition rule_matches_operation ::
    "engine_host \<Rightarrow> facts \<Rightarrow> purchase_plan \<Rightarrow> operation \<Rightarrow> engine_rule \<Rightarrow> string option res" where
  "rule_matches_operation h facts plan op rule =
     (case orelse (scope_reason (rr_scope (rd_rule rule)) op)
             (orelse (match_reason (er_operation_match rule) op plan)
               (amount_reason (rr_transaction_conditions (rd_rule rule)) op)) of
        Some reason \<Rightarrow> Inr (Some reason)
      | None \<Rightarrow>
          rbind (deadline_reason (eh_runtime h) (er_entry_deadline rule) op) (\<lambda>late.
            case late of
              Some reason \<Rightarrow> Inr (Some reason)
            | None \<Rightarrow> conditions_reason h facts (er_user_conditions rule)))"

section \<open>The spend a rule rewards\<close>

definition eligible_line :: "line_item \<Rightarrow> bool" where
  "eligible_line l \<longleftrightarrow> li_eligible_for_rewards l \<noteq> Some False"

fun tax_exclusive_sum :: "line_item list \<Rightarrow> int \<Rightarrow> int res" where
  "tax_exclusive_sum [] acc = Inr acc"
| "tax_exclusive_sum (l # ls) acc =
     (case li_tax_exclusive_amount_jpy l of
        None \<Rightarrow> Inl ''tax_exclusive_amount_required''
      | Some a \<Rightarrow>
          if \<not> safe_int a \<or> a < 0 \<or> li_amount_jpy l < a then Inl ''tax_exclusive_amount_required''
          else tax_exclusive_sum ls (acc + a))"

definition amount_basis :: "engine_rule \<Rightarrow> string" where
  "amount_basis rule = default_to ''operation_amount'' (tc_eligible_amount_basis (rr_transaction_conditions (rd_rule rule)))"

definition eligible_spend :: "operation \<Rightarrow> engine_rule \<Rightarrow> int res" where
  "eligible_spend op rule =
     (if sc_tax_basis (rr_scope (rd_rule rule)) = Some ''tax_exclusive'' then
        (if amount_basis rule \<noteq> ''eligible_line_items'' then Inl ''tax_exclusive_basis_requires_eligible_line_items''
         else tax_exclusive_sum (filter eligible_line (op_line_items op)) 0)
      else if amount_basis rule = ''eligible_line_items'' then
        Inr (sum_list (map li_amount_jpy (filter eligible_line (op_line_items op))))
      else Inr (default_to 0 (op_amount_jpy op)))"

text \<open>Division of big integers truncates towards zero.\<close>

definition big_div :: "int \<Rightarrow> int \<Rightarrow> int" where
  "big_div a b = sgn a * sgn b * (\<bar>a\<bar> div \<bar>b\<bar>)"

definition apply_spend_quantum :: "engine_host \<Rightarrow> int \<Rightarrow> js_number option \<Rightarrow> int res" where
  "apply_spend_quantum h spend quantum =
     (case quantum of
        None \<Rightarrow> Inr spend
      | Some NonFinite \<Rightarrow> Inl ''RangeError''
      | Some (Finite q) \<Rightarrow>
          if q = 0 then Inr spend
          else if q \<noteq> of_int \<lfloor>q\<rfloor> then
            Inl (''The number '' @ eh_number_text h q @ '' cannot be converted to a BigInt because it is not an integer'')
          else Inr (big_div spend \<lfloor>q\<rfloor> * \<lfloor>q\<rfloor>))"

section \<open>The units a rule awards\<close>

type_synonym trace = "(string, json) omap"

abbreviation text_json :: "string option \<Rightarrow> json" where
  "text_json t \<equiv> (case t of None \<Rightarrow> JNull | Some s \<Rightarrow> JStr s)"

definition scope_text :: "aggregation_scope \<Rightarrow> string" where
  "scope_text s = (case s of AS_per_line_item \<Rightarrow> ''per_line_item'' | AS_per_operation \<Rightarrow> ''per_operation''
     | AS_per_day \<Rightarrow> ''per_day'' | AS_per_statement \<Rightarrow> ''per_statement''
     | AS_per_campaign_period \<Rightarrow> ''per_campaign_period'' | AS_transfer_request \<Rightarrow> ''transfer_request'')"

definition basis_source_text :: "tier_basis_source \<Rightarrow> string" where
  "basis_source_text s = (case s of TB_transaction_amount \<Rightarrow> ''transaction_amount'' | TB_user_fact \<Rightarrow> ''user_fact''
     | TB_period_aggregate \<Rightarrow> ''period_aggregate'' | TB_event_counter \<Rightarrow> ''event_counter'')"

definition rounding_stage :: "rounding \<Rightarrow> string \<times> json" where
  "rounding_stage r = (''rounding_stage'', JStr (scope_text (ro_aggregation_scope r)))"

definition output_scale :: "engine_rule \<Rightarrow> int" where
  "output_scale rule = (case er_output rule of None \<Rightarrow> 0 | Some w \<Rightarrow> ar_scale (ou_asset w))"

definition condition_codes :: "calculation_condition list \<Rightarrow> string" where
  "condition_codes cs = join_with '','' (map cc_code cs)"

text \<open>The value a tier is chosen by: the amount of the operation or a fact of the user.\<close>

definition tier_basis_value :: "facts \<Rightarrow> operation \<Rightarrow> tiered_calculation_spec \<Rightarrow> json option" where
  "tier_basis_value facts op s =
     (if td_source s = TB_transaction_amount then
        Some (case op_amount_jpy op of None \<Rightarrow> JNull | Some a \<Rightarrow> JNum (num a))
      else case om_get facts (td_key s) of
        None \<Rightarrow> None
      | Some f \<Rightarrow> if sv_status f = FS_known \<or> sv_status f = FS_estimated then sv_value f else None)"

definition fixed_award ::
    "engine_host \<Rightarrow> engine_rule \<Rightarrow> fixed_calculation_spec \<Rightarrow> int \<Rightarrow> (int \<times> trace) res" where
  "fixed_award h rule s spend =
     rbind (evaluate_fixed_reward (eh_runtime h) s
         \<lparr>fi_eligible_amount_jpy = Some (DStr (int_text spend)), fi_transaction_amount_jpy = None,
          fi_minimum_amount_jpy = map_option (DNum \<circ> num) (tc_minimum_amount_jpy (rr_transaction_conditions (rd_rule rule))),
          fi_threshold_jpy = None, fi_asset_scale = Some (output_scale rule)\<rparr>) (\<lambda>r.
       if rcr_status r = CS_rejected then Inl (condition_codes (rcr_conditions r))
       else Inr (default_to 0 (rcr_units r),
         [(''eligible_basis'', JStr (amount_basis rule)), rounding_stage (fx_rounding s),
          (''spend_jpy'', JStr (int_text spend)), (''threshold_jpy'', text_json (fr_threshold_jpy r)),
          (''calculation_model'', JStr ''fixed'')]))"

definition tiered_award ::
    "engine_host \<Rightarrow> facts \<Rightarrow> operation \<Rightarrow> engine_rule \<Rightarrow> tiered_calculation_spec \<Rightarrow> int \<Rightarrow> (int \<times> trace) res" where
  "tiered_award h facts op rule s spend =
     rbind (evaluate_tiered_reward (eh_runtime h) s
         \<lparr>tri_basis_value = tier_basis_value facts op s, tri_spend_jpy = Some (DStr (int_text spend)),
          tri_eligible_amount_jpy = None, tri_transaction_amount_jpy = None,
          tri_asset_scale = Some (output_scale rule)\<rparr>) (\<lambda>r.
       if rcr_status r = CS_rejected then Inl (condition_codes (rcr_conditions r))
       else Inr (default_to 0 (rcr_units r),
         [(''eligible_basis'', JStr (basis_source_text (td_source s))), rounding_stage (td_rounding s),
          (''spend_jpy'', JStr (int_text spend)), (''tier_basis_key'', JStr (td_key s)),
          (''tier_basis_value'', default_to JNull (tr_basis_value r)),
          (''matched_tier_index'', case tr_matched_tier_index r of None \<Rightarrow> JNull | Some i \<Rightarrow> JNum (num (int i))),
          (''calculation_model'', JStr ''tiered'')]))"

definition calculate_reward_units ::
    "engine_host \<Rightarrow> facts \<Rightarrow> operation \<Rightarrow> engine_rule \<Rightarrow> (int \<times> trace) option res" where
  "calculate_reward_units h facts op rule =
     (case er_calculation rule of
        None \<Rightarrow> Inr None
      | Some calc \<Rightarrow>
          rbind (eligible_spend op rule) (\<lambda>eligible.
          rbind (apply_spend_quantum h eligible (ro_eligible_spend_quantum_jpy (calculation_rounding calc))) (\<lambda>spend.
            case calc of
              RL_percentage rate r _ \<Rightarrow>
                rmap (\<lambda>u. Some (u, [(''eligible_basis'', JStr (amount_basis rule)), rounding_stage r,
                    (''spend_jpy'', JStr (int_text spend)), (''rate_basis_points'', JNum (num rate))]))
                  (calculate_percentage (eh_runtime h) spend rate (output_scale rule) (ro_reward_rounding_mode r))
            | RL_points_per_unit reward_units unit r _ \<Rightarrow>
                rmap (\<lambda>u. Some (u, [(''eligible_basis'', JStr (amount_basis rule)), rounding_stage r,
                    (''spend_jpy'', JStr (int_text spend)), (''denominator_jpy'', JNum (num unit)),
                    (''reward_units'', JStr reward_units)]))
                  (calculate_points_per_unit (eh_runtime h) spend reward_units unit (output_scale rule)
                    (ro_reward_rounding_mode r))
            | RL_fixed s \<Rightarrow> rmap Some (fixed_award h rule s spend)
            | RL_tiered s \<Rightarrow> rmap Some (tiered_award h facts op rule s spend)
            | _ \<Rightarrow> Inr None)))"

end
