(* ===== verification/Engine_Context.thy ===== *)
theory Engine_Context
  imports Engine_Rules
begin

text \<open>
  The options of an evaluation and the context the engine derives from them
  (\<open>makeInternalContext\<close> in \<open>packages/rule-engine/src/engine.ts\<close>): several fields have an
  alias, and the first that is given counts.
\<close>

section \<open>Options\<close>

datatype asset_status = AS_active | AS_inactive | AS_retired | AS_synthetic

record asset_definition =
  ad_asset_id :: string
  ad_asset_kind :: asset_kind
  ad_display_name :: string
  ad_program_id :: "string option"
  ad_scale :: int
  ad_default_reward_class :: "reward_class option"
  ad_default_expiry :: expiry
  ad_default_usage_restrictions :: usage_restrictions
  ad_status :: asset_status
  ad_notes :: string

datatype state_source =
  SO_user_input | SO_transaction_history | SO_provider_api | SO_inferred | SO_unknown

record plan_cap_progress = cap_progress +
  pg_observed_at :: "string option"
  pg_source :: state_source

type_synonym cap_progress_map = "(string, plan_cap_progress) omap"

record valuation_entry =
  ve_asset_id :: string
  ve_reward_class :: "reward_class option"
  ve_jpy_per_unit :: string

record user_state =
  ut_owned_instrument_ids :: "string list"
  ut_owned_loyalty_program_ids :: "string list"
  ut_facts :: facts
  ut_asset_lots :: "asset_lot list"
  ut_valuation_entries :: "valuation_entry list"
  ut_cap_progress :: cap_progress_map

datatype primary_objective =
  MX_guaranteed_net_value | MX_expected_net_value | MX_minimize_net_cost | MX_destination_value

datatype ending_valuation = EN_use_user_profile | EN_face_value | EN_exclude

record engine_objective =
  ob_primary :: "primary_objective option"
  ob_probabilistic_reward_policy :: "probability_policy option"
  ob_ending_asset_valuation :: "ending_valuation option"
  ob_tie_breakers :: "string list option"

datatype valuation_policy = VP_explicit | VP_unvalued

record evaluate_plan_options =
  opt_rules :: "engine_rule list option"
  opt_ruleset :: "engine_rule list option"
  opt_assets :: "(asset_definition list + (string \<times> asset_definition) list) option"
  opt_user_state :: "user_state option"
  opt_opening_asset_lots :: "asset_lot list option"
  opt_openingLots :: "asset_lot list option"
  opt_valuation :: "valuation_entry list option"
  opt_valuation_profile :: "valuation_entry list option"
  opt_transaction_time :: "string option"
  opt_transactionTime :: "string option"
  opt_replay_knowledge_at :: "string option"
  opt_replayKnowledgeTime :: "string option"
  opt_objective :: "engine_objective option"
  opt_rule_evaluation_policy :: "evaluation_policy option"
  opt_ruleEvaluationPolicy :: "evaluation_policy option"
  opt_valuation_policy :: "valuation_policy option"
  opt_valuationPolicy :: "valuation_policy option"
  opt_feasibleStates :: "feasible_state list option"

section \<open>The internal context\<close>

record required_objective =
  rq_primary :: primary_objective
  rq_probabilistic_reward_policy :: probability_policy
  rq_ending_asset_valuation :: ending_valuation
  rq_tie_breakers :: "string list"

record internal_context =
  ic_rules :: "engine_rule list"
  ic_asset_definitions :: "(string, asset_definition) omap"
  ic_opening_lots :: "asset_lot list"
  ic_valuation :: "(string, string) omap"
  ic_transaction_time :: string
  ic_replay_knowledge_at :: string
  ic_objective :: required_objective
  ic_facts :: facts
  ic_cap_progress :: cap_progress_map
  ic_rule_evaluation_policy :: evaluation_policy
  ic_valuation_policy :: valuation_policy

definition asset_definitions_by_id ::
    "(asset_definition list + (string \<times> asset_definition) list) option \<Rightarrow> (string, asset_definition) omap" where
  "asset_definitions_by_id definitions =
     (case definitions of
        None \<Rightarrow> []
      | Some (Inl ds) \<Rightarrow> fold (\<lambda>d. om_set (ad_asset_id d) d) ds []
      | Some (Inr entries) \<Rightarrow> fold (\<lambda>(i, d). om_set i d) entries [])"

definition valuation_entries :: "evaluate_plan_options \<Rightarrow> valuation_entry list" where
  "valuation_entries options =
     default_to [] (orelse (opt_valuation options) (orelse (opt_valuation_profile options)
       (map_option ut_valuation_entries (opt_user_state options))))"

definition resolve_objective :: "engine_objective option \<Rightarrow> required_objective" where
  "resolve_objective g =
     \<lparr>rq_primary = default_to MX_guaranteed_net_value (Option.bind g ob_primary),
      rq_probabilistic_reward_policy = default_to PO_guaranteed_only (Option.bind g ob_probabilistic_reward_policy),
      rq_ending_asset_valuation = default_to EN_use_user_profile (Option.bind g ob_ending_asset_valuation),
      rq_tie_breakers = default_to [''lower_external_funding'', ''fewer_operations''] (Option.bind g ob_tie_breakers)\<rparr>"

definition epoch_start :: string where
  "epoch_start = ''1970-01-01T00:00:00Z''"

definition make_internal_context :: "evaluate_plan_options \<Rightarrow> internal_context" where
  "make_internal_context options =
     (let times = orelse (opt_transaction_time options) (opt_transactionTime options)
      in \<lparr>ic_rules = default_to [] (orelse (opt_rules options) (opt_ruleset options)),
          ic_asset_definitions = asset_definitions_by_id (opt_assets options),
          ic_opening_lots = default_to [] (orelse (opt_opening_asset_lots options)
            (orelse (opt_openingLots options) (map_option ut_asset_lots (opt_user_state options)))),
          ic_valuation = fold (\<lambda>e. om_set (conservation_bucket (ve_asset_id e) (ve_reward_class e)) (ve_jpy_per_unit e))
            (valuation_entries options) [],
          ic_transaction_time = default_to epoch_start times,
          ic_replay_knowledge_at = default_to epoch_start (orelse (opt_replay_knowledge_at options)
            (orelse (opt_replayKnowledgeTime options) times)),
          ic_objective = resolve_objective (opt_objective options),
          ic_facts = default_to [] (map_option ut_facts (opt_user_state options)),
          ic_cap_progress = default_to [] (map_option ut_cap_progress (opt_user_state options)),
          ic_rule_evaluation_policy = default_to EV_approved
            (orelse (opt_rule_evaluation_policy options) (opt_ruleEvaluationPolicy options)),
          ic_valuation_policy = default_to VP_explicit
            (orelse (opt_valuation_policy options) (opt_valuationPolicy options))\<rparr>)"

end
