(* ===== verification/Ledger.thy ===== *)
theory Ledger
  imports Engine_Context
begin

text \<open>
  The principal ledger of a plan (\<open>packages/rule-engine/src/engine.ts\<close>): lots of assets that
  operations consume and create, the movements that record it, and the rejections.  The code
  mutates a \<open>Map\<close> of lots, a ledger object and a movement counter; the model threads one
  state and answers whether the step was done.  A \<open>try\<close>/\<open>catch\<close> block is a case distinction
  on the computation it protects, with the mutations made before the exception kept.

  The fields \<open>endingLots\<close>, set once at the end, and \<open>fees\<close>, never written, are left out of
  the ledger.
\<close>

section \<open>State\<close>

record mutable_lot =
  ml_lot :: asset_lot
  ml_units :: int
  ml_scale :: int
  ml_created_in_plan :: bool

type_synonym lots = "(string, mutable_lot) omap"

record native_quantity =
  nq_asset_id :: string
  nq_reward_class :: "reward_class option"
  nq_scale :: int
  nq_units :: int

record rejection =
  rj_code :: string
  rj_message :: string
  rj_operation_id :: "string option"
  rj_rule_id :: "string option"

record native_ledger =
  nl_movements :: "asset_movement list"
  nl_rewards :: "reward_component list"
  nl_applied_rule_ids :: "string list"
  nl_rejected_rule_ids :: "string list"
  nl_rejections :: "rejection list"
  nl_external_funding_jpy :: int
  nl_merchant_value_jpy :: int
  nl_opening_consumed :: "native_quantity list"

record plan_state =
  st_lots :: lots
  st_ledger :: native_ledger
  st_movement_index :: nat
  st_cap_progress :: cap_progress_map
  st_visited_asset_ids :: "string list"

definition zero_ledger :: native_ledger where
  "zero_ledger = \<lparr>nl_movements = [], nl_rewards = [], nl_applied_rule_ids = [], nl_rejected_rule_ids = [],
     nl_rejections = [], nl_external_funding_jpy = 0, nl_merchant_value_jpy = 0, nl_opening_consumed = []\<rparr>"

definition on_ledger :: "(native_ledger \<Rightarrow> native_ledger) \<Rightarrow> plan_state \<Rightarrow> plan_state" where
  "on_ledger f s = s\<lparr>st_ledger := f (st_ledger s)\<rparr>"

definition om_delete :: "'k \<Rightarrow> ('k, 'v) omap \<Rightarrow> ('k, 'v) omap" where
  "om_delete k m = filter (\<lambda>p. fst p \<noteq> k) m"

section \<open>Rejections and rule ids\<close>

definition add_once :: "string \<Rightarrow> string list \<Rightarrow> string list" where
  "add_once x xs = (if x \<in> set xs then xs else xs @ [x])"

definition add_rejection :: "rejection \<Rightarrow> native_ledger \<Rightarrow> native_ledger" where
  "add_rejection r l =
     l\<lparr>nl_rejections := nl_rejections l @ [r],
       nl_rejected_rule_ids := (if falsy (rj_rule_id r) then nl_rejected_rule_ids l
         else add_once (default_to [] (rj_rule_id r)) (nl_rejected_rule_ids l))\<rparr>"

definition add_applied_rule :: "string \<Rightarrow> native_ledger \<Rightarrow> native_ledger" where
  "add_applied_rule i l = l\<lparr>nl_applied_rule_ids := add_once i (nl_applied_rule_ids l)\<rparr>"

definition op_rejection :: "operation \<Rightarrow> string \<Rightarrow> string \<Rightarrow> rejection" where
  "op_rejection op code message =
     \<lparr>rj_code = code, rj_message = message, rj_operation_id = Some (op_operation_id op), rj_rule_id = None\<rparr>"

definition rule_rejection :: "operation \<Rightarrow> string \<Rightarrow> string \<Rightarrow> string \<Rightarrow> rejection" where
  "rule_rejection op rule_id code message =
     \<lparr>rj_code = code, rj_message = message, rj_operation_id = Some (op_operation_id op), rj_rule_id = Some rule_id\<rparr>"

text \<open>\<open>addRejection(...); return false\<close>.\<close>

definition refuse :: "rejection \<Rightarrow> plan_state \<Rightarrow> bool \<times> plan_state" where
  "refuse r s = (False, on_ledger (add_rejection r) s)"

section \<open>Quantities and movements\<close>

definition quantity_of_units :: "runtime \<Rightarrow> asset_ref \<Rightarrow> int \<Rightarrow> quantity res" where
  "quantity_of_units rt asset units =
     rmap (\<lambda>a. \<lparr>q_asset = asset, q_amount = a\<rparr>) (amount_from_units rt units (ar_scale asset))"

definition native_quantity_of :: "asset_ref \<Rightarrow> int \<Rightarrow> native_quantity" where
  "native_quantity_of asset units =
     \<lparr>nq_asset_id = ar_asset_id asset, nq_reward_class = ar_reward_class asset, nq_scale = ar_scale asset,
      nq_units = units\<rparr>"

definition same_native :: "asset_ref \<Rightarrow> native_quantity \<Rightarrow> bool" where
  "same_native asset n \<longleftrightarrow> nq_asset_id n = ar_asset_id asset \<and> nq_reward_class n = ar_reward_class asset \<and>
     nq_scale n = ar_scale asset"

fun add_to_first :: "asset_ref \<Rightarrow> int \<Rightarrow> native_quantity list \<Rightarrow> native_quantity list" where
  "add_to_first asset units [] = [native_quantity_of asset units]"
| "add_to_first asset units (n # ns) =
     (if same_native asset n then n\<lparr>nq_units := nq_units n + units\<rparr> # ns else n # add_to_first asset units ns)"

definition add_native_quantity :: "asset_ref \<Rightarrow> int \<Rightarrow> native_quantity list \<Rightarrow> native_quantity list" where
  "add_native_quantity asset units ns = (if units = 0 then ns else add_to_first asset units ns)"

text \<open>\<open>id.replace(/^op_/, "")\<close>.\<close>

definition strip_prefix :: "string \<Rightarrow> string \<Rightarrow> string" where
  "strip_prefix prefix s = (if take (length prefix) s = prefix then drop (length prefix) s else s)"

definition movement ::
    "operation \<Rightarrow> direction \<Rightarrow> movement_role \<Rightarrow> quantity \<Rightarrow> string option \<Rightarrow> string option \<Rightarrow> nat \<Rightarrow> string \<Rightarrow>
     asset_movement" where
  "movement op direction role q source destination index notes =
     \<lparr>am_movement_id = ''mov_'' @ strip_prefix ''op_'' (op_operation_id op) @ ''_'' @ nat_text index,
      am_operation_id = op_operation_id op, am_direction = direction, am_movement_role = role, am_quantity = q,
      am_source_lot_id = source, am_destination_lot_id = destination, am_notes = notes\<rparr>"

text \<open>Push a movement under the next number.\<close>

definition push_movement ::
    "operation \<Rightarrow> direction \<Rightarrow> movement_role \<Rightarrow> quantity \<Rightarrow> string option \<Rightarrow> string option \<Rightarrow> string \<Rightarrow>
     plan_state \<Rightarrow> plan_state" where
  "push_movement op direction role q source destination notes s =
     (on_ledger (\<lambda>l. l\<lparr>nl_movements := nl_movements l @
          [movement op direction role q source destination (st_movement_index s) notes]\<rparr>) s)
       \<lparr>st_movement_index := Suc (st_movement_index s)\<rparr>"

section \<open>Consuming a lot\<close>

definition lot_asset :: "mutable_lot \<Rightarrow> asset_ref" where
  "lot_asset l = q_asset (al_quantity (ml_lot l))"

definition expired_at :: "runtime \<Rightarrow> operation \<Rightarrow> asset_lot \<Rightarrow> bool res" where
  "expired_at rt op lot =
     (if falsy (ex_expires_at (al_expiry lot)) then Inr False
      else rbind (parse_time rt (op_occurred_at op)) (\<lambda>now.
           rbind (parse_time rt (default_to [] (ex_expires_at (al_expiry lot)))) (\<lambda>stop. Inr (stop \<le> now))))"

definition not_payable :: "asset_input \<Rightarrow> asset_lot \<Rightarrow> bool" where
  "not_payable input lot \<longleftrightarrow> ur_usable_for_payment (al_restrictions lot) = Some False \<and>
     (ai_role input = IR_stored_value_tender \<or> ai_role input = IR_points_tender)"

text \<open>The checks of \<open>consumeLot\<close> on a lot that exists: the code and message of the first that
  fails, or the units to take.\<close>

definition consumable ::
    "runtime \<Rightarrow> operation \<Rightarrow> asset_input \<Rightarrow> string \<Rightarrow> mutable_lot \<Rightarrow> (string \<times> string) + int" where
  "consumable rt op input lot_id current =
     (let wanted = q_asset (ai_quantity input)
      in if ar_asset_id (lot_asset current) \<noteq> ar_asset_id wanted \<or>
            ar_reward_class (lot_asset current) \<noteq> ar_reward_class wanted then
           Inl (''asset_lot_missing'', ''source lot asset/class does not match the input'')
         else case quantity_in_units rt (ai_quantity input) of
           Inl e \<Rightarrow> Inl (''invalid_plan'', e)
         | Inr units \<Rightarrow>
             if units \<le> 0 \<or> ml_units current < units then
               Inl (''insufficient_asset_quantity'', ''source lot '' @ lot_id @ '' has insufficient quantity'')
             else case expired_at rt op (ml_lot current) of
               Inl e \<Rightarrow> Inl (''invalid_plan'', e)
             | Inr expired \<Rightarrow>
                 if expired then Inl (''asset_expired'', ''source lot '' @ lot_id @ '' is expired'')
                 else if not_payable input (ml_lot current) then
                   Inl (''asset_restricted'', ''source lot '' @ lot_id @ '' cannot be used for payment'')
                 else Inr units)"

definition consumption_role :: "input_role \<Rightarrow> movement_role" where
  "consumption_role role =
     (case role of IR_fee \<Rightarrow> MR_fee | IR_transfer_source \<Rightarrow> MR_transfer | IR_redemption_source \<Rightarrow> MR_redemption
      | IR_refund_source \<Rightarrow> MR_refund | _ \<Rightarrow> MR_principal_tender)"

definition with_units :: "quantity \<Rightarrow> mutable_lot \<Rightarrow> mutable_lot" where
  "with_units q l = l\<lparr>ml_lot := (ml_lot l)\<lparr>al_quantity := q\<rparr>\<rparr>"

text \<open>Taking units from a lot: the count goes down, the movement is pushed, an opening lot is noted,
  and the lot is dropped when nothing is left.\<close>

definition take_units ::
    "runtime \<Rightarrow> operation \<Rightarrow> asset_input \<Rightarrow> string list \<Rightarrow> string \<Rightarrow> mutable_lot \<Rightarrow> int \<Rightarrow> plan_state \<Rightarrow>
     bool \<times> plan_state" where
  "take_units rt op input opening lot_id current units s =
     (let asset = lot_asset current;
          reduced = current\<lparr>ml_units := ml_units current - units\<rparr>;
          s1 = s\<lparr>st_lots := om_set lot_id reduced (st_lots s)\<rparr>
      in case quantity_of_units rt asset units of
           Inl e \<Rightarrow> refuse (op_rejection op ''invalid_plan'' e) s1
         | Inr q \<Rightarrow>
             let s2 = push_movement op D_consume (consumption_role (ai_role input)) q (Some lot_id) None
                   ''Consumed from an existing asset lot.'' s1;
                 s3 = (if lot_id \<in> set opening
                   then on_ledger (\<lambda>l. l\<lparr>nl_opening_consumed := add_native_quantity asset units (nl_opening_consumed l)\<rparr>) s2
                   else s2)
             in if ml_units reduced = 0 then (True, s3\<lparr>st_lots := om_delete lot_id (st_lots s3)\<rparr>)
                else case quantity_of_units rt asset (ml_units reduced) of
                  Inl e \<Rightarrow> refuse (op_rejection op ''invalid_plan'' e) s3
                | Inr rest \<Rightarrow> (True, s3\<lparr>st_lots := om_set lot_id (with_units rest reduced) (st_lots s3)\<rparr>))"

definition consume_lot ::
    "runtime \<Rightarrow> operation \<Rightarrow> string list \<Rightarrow> asset_input \<Rightarrow> plan_state \<Rightarrow> bool \<times> plan_state" where
  "consume_lot rt op opening input s =
     (if falsy (ai_source_lot_id input) then
        refuse (op_rejection op ''asset_lot_missing'' ''reusable asset input requires a source lot'') s
      else let lot_id = default_to [] (ai_source_lot_id input)
      in case om_get (st_lots s) lot_id of
           None \<Rightarrow> refuse (op_rejection op ''asset_lot_not_yet_created''
             (''source lot '' @ lot_id @ '' does not exist at this operation'')) s
         | Some current \<Rightarrow>
             (case consumable rt op input lot_id current of
                Inl (code, message) \<Rightarrow> refuse (op_rejection op code message) s
              | Inr units \<Rightarrow> take_units rt op input opening lot_id current units s))"

section \<open>Creating lots\<close>

definition default_settlement :: settlement where
  "default_settlement = \<lparr>se_status = SS_posted, se_expected_posting_from = None, se_expected_posting_to = None,
     se_posted_at = None\<rparr>"

definition default_expiry :: expiry where
  "default_expiry = \<lparr>ex_policy = EP_none, ex_expires_at = None, ex_duration_days = None, ex_timezone = None\<rparr>"

definition default_restrictions :: usage_restrictions where
  "default_restrictions = \<lparr>ur_transferable = None, ur_redeemable_for_cash = None, ur_usable_for_payment = Some True,
     ur_investable = None, ur_permitted_destination_ids = [], ur_notes = []\<rparr>"

definition lot_from_request ::
    "runtime \<Rightarrow> internal_context \<Rightarrow> operation \<Rightarrow> output_request \<Rightarrow> int \<Rightarrow> string list \<Rightarrow> mutable_lot res" where
  "lot_from_request rt ctx op request units rule_ids =
     rmap (\<lambda>q. let d = om_get (ic_asset_definitions ctx) (ar_asset_id (or_asset request))
       in \<lparr>ml_lot = \<lparr>al_lot_id = or_created_lot_id request, al_quantity = q, al_acquired_at = Some (op_occurred_at op),
             al_source_operation_id = Some (op_operation_id op), al_settlement = default_settlement,
             al_expiry = default_to default_expiry (map_option ad_default_expiry d),
             al_restrictions = default_to default_restrictions (map_option ad_default_usage_restrictions d),
             al_provenance_rule_ids = js_sort (unique rule_ids)\<rparr>,
           ml_units = units, ml_scale = ar_scale (or_asset request), ml_created_in_plan = True\<rparr>)
       (quantity_of_units rt (or_asset request) units)"

text \<open>Put a new lot under its id and record its creation.\<close>

definition install_lot ::
    "operation \<Rightarrow> direction \<Rightarrow> movement_role \<Rightarrow> string \<Rightarrow> string \<Rightarrow> mutable_lot \<Rightarrow> plan_state \<Rightarrow> bool \<times> plan_state" where
  "install_lot op direction role notes lot_id created s =
     (True, push_movement op direction role (al_quantity (ml_lot created)) None (Some lot_id) notes
        (s\<lparr>st_lots := om_set lot_id created (st_lots s)\<rparr>))"

definition amount_text :: "operation \<Rightarrow> string option" where
  "amount_text op = map_option int_text (op_amount_jpy op)"

definition requested_text :: "operation \<Rightarrow> output_request \<Rightarrow> string option" where
  "requested_text op request = orelse (or_requested_amount request) (amount_text op)"

definition add_output ::
    "runtime \<Rightarrow> internal_context \<Rightarrow> operation \<Rightarrow> int \<Rightarrow> string list \<Rightarrow> output_request \<Rightarrow> plan_state \<Rightarrow>
     bool \<times> plan_state" where
  "add_output rt ctx op funding rule_ids request s =
     (let invalid = (\<lambda>e. refuse (op_rejection op ''invalid_plan'' e) s)
      in case requested_text op request of
           None \<Rightarrow> refuse (op_rejection op ''unfunded_output'' ''output amount is not derivable'') s
         | Some requested \<Rightarrow>
             (case units_from_amount rt requested (ar_scale (or_asset request)) RM_exact of
                Inl e \<Rightarrow> invalid e
              | Inr units \<Rightarrow>
                  if units \<le> 0 then invalid ''output_amount_must_be_positive''
                  else case decimal rt (DStr requested) of
                    Inl e \<Rightarrow> invalid e
                  | Inr amount \<Rightarrow>
                      if funding = 0 \<or> decimal_gt amount (DecFinite (funding < 0) (of_int funding)) then
                        refuse (op_rejection op ''unfunded_output'' ''principal output exceeds explicit external funding'') s
                      else if om_get (st_lots s) (or_created_lot_id request) \<noteq> None then
                        refuse (op_rejection op ''invalid_plan''
                          (''output lot '' @ or_created_lot_id request @ '' already exists'')) s
                      else case lot_from_request rt ctx op request units rule_ids of
                        Inl e \<Rightarrow> invalid e
                      | Inr created \<Rightarrow> install_lot op D_create MR_principal_output
                          ''Created a principal asset lot from explicit funding.'' (or_created_lot_id request) created s))"

text \<open>The units of an output derived from an amount: positive, equal to the requested amount where
  one is given, and for a lot that does not exist yet.\<close>

definition derived_units :: "runtime \<Rightarrow> output_request \<Rightarrow> string \<Rightarrow> lots \<Rightarrow> int res" where
  "derived_units rt request amount lots =
     (let scale = ar_scale (or_asset request)
      in rbind (units_from_amount rt amount scale RM_exact) (\<lambda>units.
         rbind (guard (0 < units) ''output_amount_must_be_positive'') (\<lambda>_.
         rbind (case or_requested_amount request of
                  None \<Rightarrow> Inr ()
                | Some r \<Rightarrow> rbind (units_from_amount rt r scale RM_exact) (\<lambda>n. guard (n = units) ''derived_output_amount_mismatch''))
           (\<lambda>_. rbind (guard (om_get lots (or_created_lot_id request) = None)
                  (''output lot '' @ or_created_lot_id request @ '' already exists'')) (\<lambda>_. Inr units)))))"

definition role_text :: "movement_role \<Rightarrow> string" where
  "role_text r = (case r of MR_transfer \<Rightarrow> ''transfer'' | MR_redemption \<Rightarrow> ''redemption'' | MR_refund \<Rightarrow> ''refund''
     | MR_reversal \<Rightarrow> ''reversal'' | MR_external_funding \<Rightarrow> ''external_funding''
     | MR_principal_tender \<Rightarrow> ''principal_tender'' | MR_principal_output \<Rightarrow> ''principal_output'' | MR_fee \<Rightarrow> ''fee''
     | MR_other \<Rightarrow> ''other'')"

definition apply_output_policy :: "settlement option \<Rightarrow> rule_output option \<Rightarrow> mutable_lot \<Rightarrow> mutable_lot" where
  "apply_output_policy settlement output created =
     (let l = ml_lot created;
          l1 = (case output of None \<Rightarrow> l
                | Some w \<Rightarrow> l\<lparr>al_expiry := ou_expiry w, al_restrictions := ou_restrictions w\<rparr>);
          l2 = (case settlement of None \<Rightarrow> l1 | Some se \<Rightarrow> l1\<lparr>al_settlement := se\<rparr>)
      in created\<lparr>ml_lot := l2\<rparr>)"

definition add_derived_output ::
    "runtime \<Rightarrow> internal_context \<Rightarrow> operation \<Rightarrow> output_request \<Rightarrow> string \<Rightarrow> string list \<Rightarrow> direction \<Rightarrow> movement_role \<Rightarrow>
     settlement option \<Rightarrow> rule_output option \<Rightarrow> plan_state \<Rightarrow> bool \<times> plan_state" where
  "add_derived_output rt ctx op request amount rule_ids direction role settlement output s =
     (case rbind (derived_units rt request amount (st_lots s)) (\<lambda>units.
             lot_from_request rt ctx op request units rule_ids) of
        Inl e \<Rightarrow> refuse (op_rejection op ''invalid_plan'' e) s
      | Inr created \<Rightarrow>
          install_lot op direction role (role_text role @ '' output derived from a reviewed Milestone 1B operation.'')
            (or_created_lot_id request) (apply_output_policy settlement output created) s)"

section \<open>Opening lots\<close>

fun initial_lots_from :: "runtime \<Rightarrow> asset_lot list \<Rightarrow> lots \<Rightarrow> lots res" where
  "initial_lots_from rt [] m = Inr m"
| "initial_lots_from rt (l # ls) m =
     rbind (quantity_in_units rt (al_quantity l)) (\<lambda>units.
       if om_get m (al_lot_id l) \<noteq> None then Inl (''duplicate_opening_lot:'' @ al_lot_id l)
       else initial_lots_from rt ls (om_set (al_lot_id l)
         \<lparr>ml_lot = l, ml_units = units, ml_scale = ar_scale (q_asset (al_quantity l)), ml_created_in_plan = False\<rparr> m))"

definition initial_lots :: "runtime \<Rightarrow> internal_context \<Rightarrow> lots res" where
  "initial_lots rt ctx = initial_lots_from rt (ic_opening_lots ctx) []"

end
