(* ===== verification/Rewards.thy ===== *)
theory Rewards
  imports Ledger Stacking
begin

text \<open>
  The rewards of one operation (\<open>processRewardRules\<close> and \<open>reserveCapProgress\<close> in
  \<open>packages/rule-engine/src/engine.ts\<close>): exclusions, the rules in scope, multipliers, caps,
  stacking, caps again under the progress reserved so far, and the components that are paid.
  Principal is never touched; the functions thread the ledger and the cap progress of the plan.
\<close>

section \<open>State\<close>

record reward_candidate =
  pc_rule :: engine_rule
  pc_units :: int
  pc_trace :: trace

record reward_scan =
  pw_ledger :: native_ledger
  pw_valid :: bool
  pw_suppressed_rule_ids :: "string list"
  pw_suppressed_stack_groups :: "string list"
  pw_candidates :: "reward_candidate list"
  pw_multipliers :: "engine_rule list"

record reward_options =
  po_bonus_rule_ids :: "string list option"
  po_exclude_transfer_rules :: bool

record reward_payment =
  py_ledger :: native_ledger
  py_operation_progress :: cap_progress_map
  py_plan_progress :: cap_progress_map
  py_rule_ids :: "string list"

definition scan_reject :: "rejection \<Rightarrow> reward_scan \<Rightarrow> reward_scan" where
  "scan_reject r w = w\<lparr>pw_ledger := add_rejection r (pw_ledger w)\<rparr>"

definition scan_apply :: "engine_rule \<Rightarrow> reward_scan \<Rightarrow> reward_scan" where
  "scan_apply rule w = w\<lparr>pw_ledger := add_applied_rule (rule_id_of rule) (pw_ledger w)\<rparr>"

text \<open>A rejection of a rule whose message starts with its id.\<close>

definition rule_refused :: "operation \<Rightarrow> engine_rule \<Rightarrow> string \<Rightarrow> string \<Rightarrow> rejection" where
  "rule_refused op rule code reason =
     rule_rejection op (rule_id_of rule) code (rule_id_of rule @ '': '' @ reason)"

section \<open>The rules of an operation\<close>

definition is_transfer_rule :: "engine_rule \<Rightarrow> bool" where
  "is_transfer_rule r = (case er_calculation r of Some (RL_transfer_ratio _) \<Rightarrow> True | _ \<Rightarrow> False)"

definition rules_for :: "engine_host \<Rightarrow> internal_context \<Rightarrow> operation \<Rightarrow> engine_rule list res" where
  "rules_for h ctx op =
     select_rules_for_evaluation (eh_runtime h) (ic_rules ctx) (op_occurred_at op) (ic_replay_knowledge_at ctx)
       (ic_rule_evaluation_policy ctx)"

definition reward_rules ::
    "engine_host \<Rightarrow> internal_context \<Rightarrow> operation \<Rightarrow> reward_options \<Rightarrow> engine_rule list res" where
  "reward_rules h ctx op options =
     (if ic_rules ctx = [] then Inr []
      else rmap (filter (\<lambda>r.
          (case po_bonus_rule_ids options of None \<Rightarrow> True | Some ids \<Rightarrow> rule_id_of r \<in> set ids) \<and>
          \<not> (po_exclude_transfer_rules options \<and> is_transfer_rule r)))
        (rules_for h ctx op))"

section \<open>Exclusions\<close>

definition reward_exclusion :: "engine_rule \<Rightarrow> non_financial_effect option" where
  "reward_exclusion r =
     (case er_effect r of
        None \<Rightarrow> None
      | Some e \<Rightarrow> if ef_decision e = ED_deny \<and> ef_effect_target e = ET_reward_earning then Some e else None)"

definition suppress_targets :: "operation \<Rightarrow> engine_rule \<Rightarrow> non_financial_effect \<Rightarrow> reward_scan \<Rightarrow> reward_scan" where
  "suppress_targets op rule e w =
     (if ef_target_rule_ids e = [] \<and> ef_target_stack_groups e = [] then
        (scan_reject (rule_refused op rule ''rule_excluded'' ''reward_earning exclusion has no supported target'') w)
          \<lparr>pw_valid := False\<rparr>
      else scan_apply rule
        (w\<lparr>pw_suppressed_rule_ids := pw_suppressed_rule_ids w @ ef_target_rule_ids e,
           pw_suppressed_stack_groups := pw_suppressed_stack_groups w @ ef_target_stack_groups e\<rparr>))"

fun exclusion_pass ::
    "engine_host \<Rightarrow> internal_context \<Rightarrow> purchase_plan \<Rightarrow> operation \<Rightarrow> engine_rule list \<Rightarrow> reward_scan \<Rightarrow> reward_scan res" where
  "exclusion_pass h ctx plan op [] w = Inr w"
| "exclusion_pass h ctx plan op (r # rs) w =
     rbind (rule_matches_operation h (ic_facts ctx) plan op r) (\<lambda>reason.
       exclusion_pass h ctx plan op rs
         (case (reason, reward_exclusion r) of (None, Some e) \<Rightarrow> suppress_targets op r e w | _ \<Rightarrow> w))"

section \<open>Judging the rules\<close>

definition acceptance_rule :: "engine_rule \<Rightarrow> bool" where
  "acceptance_rule r \<longleftrightarrow> rr_rule_type (rd_rule r) = ''payment_acceptance'' \<or> rr_rule_type (rd_rule r) = ''exclusion''"

definition stack_group_of :: "engine_rule \<Rightarrow> string" where
  "stack_group_of r = rs_stack_group (rr_stacking (rd_rule r))"

definition deny_rule :: "operation \<Rightarrow> engine_rule \<Rightarrow> non_financial_effect \<Rightarrow> reward_scan \<Rightarrow> reward_scan" where
  "deny_rule op rule e w =
     (let eligibility = (ef_effect_target e = ET_operation_eligibility);
          w' = scan_reject (rule_refused op rule (if eligibility then ''rule_excluded'' else ''rule_condition_failed'')
                 (ef_reason_code e)) w
      in if eligibility then w'\<lparr>pw_valid := False\<rparr> else w')"

definition add_candidate :: "engine_rule \<Rightarrow> int \<Rightarrow> trace \<Rightarrow> reward_scan \<Rightarrow> reward_scan" where
  "add_candidate rule units tr w =
     w\<lparr>pw_candidates := pw_candidates w @ [\<lparr>pc_rule = rule, pc_units = units, pc_trace = tr\<rparr>]\<rparr>"

definition calculate_candidate ::
    "engine_host \<Rightarrow> internal_context \<Rightarrow> operation \<Rightarrow> engine_rule \<Rightarrow> reward_scan \<Rightarrow> reward_scan" where
  "calculate_candidate h ctx op rule w =
     (case calculate_reward_units h (ic_facts ctx) op rule of
        Inl e \<Rightarrow> scan_reject (rule_rejection op (rule_id_of rule) ''rule_condition_failed'' e) w
      | Inr None \<Rightarrow> scan_apply rule w
      | Inr (Some (units, tr)) \<Rightarrow> if units \<le> 0 then scan_apply rule w else add_candidate rule units tr w)"

text \<open>A rule that matches the operation.\<close>

definition judge_rule ::
    "engine_host \<Rightarrow> internal_context \<Rightarrow> operation \<Rightarrow> engine_rule \<Rightarrow> reward_scan \<Rightarrow> reward_scan" where
  "judge_rule h ctx op rule w =
     (let refused = (\<lambda>code reason. scan_reject (rule_refused op rule code reason) w);
          denial = (case er_effect rule of None \<Rightarrow> None | Some e \<Rightarrow> if ef_decision e = ED_deny then Some e else None)
      in case denial of
           Some e \<Rightarrow> deny_rule op rule e w
         | None \<Rightarrow>
             if rule_id_of rule \<in> set (pw_suppressed_rule_ids w) \<or>
                stack_group_of rule \<in> set (pw_suppressed_stack_groups w) then
               refused ''rule_excluded'' ''reward_earning exclusion suppressed this rule''
             else if acceptance_rule rule then scan_apply rule w
             else case er_calculation rule of
               None \<Rightarrow> refused ''unsupported_calculation'' ''financial rule has no calculation''
             | Some calc \<Rightarrow>
                 let scope = ro_aggregation_scope (calculation_rounding calc)
                 in if is_transfer_rule rule then
                      refused ''unsupported_calculation'' ''transfer ratios apply only to transfer/redemption operations''
                    else if scope \<noteq> AS_per_operation then
                      refused ''unsupported_aggregation_scope'' (scope_text scope @ '' aggregation is outside Milestone 1a'')
                    else if er_output rule = None then refused ''rule_condition_failed'' ''reward output is missing''
                    else case calc of
                      RL_multiplier _ _ \<Rightarrow> w\<lparr>pw_multipliers := pw_multipliers w @ [rule]\<rparr>
                    | _ \<Rightarrow> calculate_candidate h ctx op rule w)"

fun rule_pass ::
    "engine_host \<Rightarrow> internal_context \<Rightarrow> purchase_plan \<Rightarrow> operation \<Rightarrow> engine_rule list \<Rightarrow> reward_scan \<Rightarrow> reward_scan res" where
  "rule_pass h ctx plan op [] w = Inr w"
| "rule_pass h ctx plan op (r # rs) w =
     rbind (rule_matches_operation h (ic_facts ctx) plan op r) (\<lambda>reason.
       rule_pass h ctx plan op rs
         (case reason of
            None \<Rightarrow> judge_rule h ctx op r w
          | Some m \<Rightarrow> if acceptance_rule r then scan_reject (rule_refused op r ''rule_excluded'' m) w else w))"

section \<open>Multipliers\<close>

definition group_units :: "string \<Rightarrow> reward_candidate list \<Rightarrow> int" where
  "group_units g cs = sum_list (map pc_units (filter (\<lambda>c. stack_group_of (pc_rule c) = g) cs))"

definition int_json :: "int option \<Rightarrow> json" where
  "int_json n = text_json (map_option int_text n)"

definition multiply ::
    "engine_host \<Rightarrow> operation \<Rightarrow> engine_rule \<Rightarrow> multiplier_calculation_spec \<Rightarrow> string \<Rightarrow> reward_scan \<Rightarrow> reward_scan res" where
  "multiply h op rule s g w =
     (let base = group_units g (pw_candidates w)
      in rbind (evaluate_multiplier_reward (eh_runtime h) s
             \<lparr>mi_base_units = (if 0 < base then Some (DBig base) else None),
              mi_asset_scale = Some (output_scale rule), mi_output_mode = Some OM_increment\<rparr>) (\<lambda>r.
           let units = default_to 0 (rcr_units r)
           in if rcr_status r \<noteq> CS_applied \<or> units \<le> 0 then
                Inr (scan_reject (rule_refused op rule ''rule_condition_failed'' (condition_codes (rcr_conditions r))) w)
              else Inr (add_candidate rule units
                [(''eligible_basis'', JStr g), rounding_stage (mu_rounding s), (''calculation_model'', JStr ''multiplier''),
                 (''multiplier_milli'', JNum (mu_multiplier_milli s)), (''base_units'', int_json (mr_base_units r)),
                 (''multiplied_units'', int_json (mr_multiplied_units r)),
                 (''increment_units'', int_json (mr_increment_units r))] w)))"

fun multiplier_pass :: "engine_host \<Rightarrow> operation \<Rightarrow> engine_rule list \<Rightarrow> reward_scan \<Rightarrow> reward_scan res" where
  "multiplier_pass h op [] w = Inr w"
| "multiplier_pass h op (r # rs) w =
     (case er_calculation r of
        Some (RL_multiplier s g) \<Rightarrow> rbind (multiply h op r s g w) (multiplier_pass h op rs)
      | _ \<Rightarrow> multiplier_pass h op rs w)"

section \<open>Caps\<close>

definition availability_text :: "cap_availability \<Rightarrow> string" where
  "availability_text a = (case a of CV_available \<Rightarrow> ''available'' | CV_partial \<Rightarrow> ''partial''
     | CV_exhausted \<Rightarrow> ''exhausted'' | CV_unknown \<Rightarrow> ''unknown'' | CV_blocked \<Rightarrow> ''blocked'')"

definition caps_of_candidate ::
    "engine_host \<Rightarrow> operation \<Rightarrow> cap_progress_map \<Rightarrow> reward_candidate \<Rightarrow> caps_evaluation res" where
  "caps_of_candidate h op progress c =
     rbind (amount_from_units (eh_runtime h) (pc_units c) (output_scale (pc_rule c))) (\<lambda>amount.
     rbind (eligible_spend op (pc_rule c)) (\<lambda>spend.
       evaluate_caps (eh_runtime h)
         \<lparr>cs_caps = er_caps (pc_rule c), cs_progress = Some (\<lambda>k. map_option cap_progress.truncate (om_get progress k)),
          cs_cap_progress = None, cs_operation_timestamp = Some (op_occurred_at op),
          cs_candidate = Some \<lparr>cd_reward_units = Some (DL_text (DStr amount)), cd_eligible_spend_jpy = Some (num spend)\<rparr>,
          cs_reward_units = None, cs_eligible_spend_jpy = None\<rparr>))"

definition allowed_units :: "engine_host \<Rightarrow> reward_candidate \<Rightarrow> caps_evaluation \<Rightarrow> int res" where
  "allowed_units h c caps =
     units_from_amount (eh_runtime h) (canonical_decimal (eh_runtime h) (rg_minimum (ca_allowed_reward caps)))
       (output_scale (pc_rule c)) RM_exact"

text \<open>\<open>{...trace, ...fields}\<close>.\<close>

definition spread :: "trace \<Rightarrow> trace \<Rightarrow> trace" where
  "spread tr entries = fold (\<lambda>(k, v). om_set k v) entries tr"

definition cap_trace :: "engine_host \<Rightarrow> caps_evaluation \<Rightarrow> string \<Rightarrow> trace" where
  "cap_trace h caps state =
     [(''cap_ids'', JArr (map JStr (ca_cap_ids caps))), (''cap_state'', JStr state),
      (''cap_reward_minimum'', JStr (canonical_decimal (eh_runtime h) (rg_minimum (ca_allowed_reward caps)))),
      (''cap_reward_maximum'', text_json (map_option (canonical_decimal (eh_runtime h)) (rg_maximum (ca_allowed_reward caps))))]"

definition cap_rejection :: "operation \<Rightarrow> engine_rule \<Rightarrow> caps_evaluation \<Rightarrow> rejection" where
  "cap_rejection op rule caps =
     rule_refused op rule (if ca_uncertain caps then ''rule_condition_unknown'' else ''rule_condition_failed'')
       (''cap '' @ availability_text (ca_availability caps))"

fun cap_pass ::
    "engine_host \<Rightarrow> operation \<Rightarrow> cap_progress_map \<Rightarrow> reward_candidate list \<Rightarrow> native_ledger \<Rightarrow>
     (reward_candidate list \<times> native_ledger) res" where
  "cap_pass h op progress [] l = Inr ([], l)"
| "cap_pass h op progress (c # cs) l =
     (if er_caps (pc_rule c) = [] then rmap (\<lambda>(kept, l'). (c # kept, l')) (cap_pass h op progress cs l)
      else rbind (caps_of_candidate h op progress c) (\<lambda>caps.
        rbind (allowed_units h c caps) (\<lambda>allowed.
          if allowed \<le> 0 then cap_pass h op progress cs (add_rejection (cap_rejection op (pc_rule c) caps) l)
          else
            let c' = c\<lparr>pc_units := allowed,
              pc_trace := spread (pc_trace c) (cap_trace h caps (availability_text (ca_availability caps)))\<rparr>
            in rmap (\<lambda>(kept, l'). (c' # kept, l')) (cap_pass h op progress cs l))))"

section \<open>Stacking\<close>

definition base_included :: "engine_rule \<Rightarrow> bool" where
  "base_included r \<longleftrightarrow> rs_mode (rr_stacking (rd_rule r)) = SM_includes_base \<or>
     (case er_calculation r of
        Some (RL_percentage _ _ b) \<Rightarrow> b = Some True
      | Some (RL_points_per_unit _ _ _ b) \<Rightarrow> b = Some True
      | _ \<Rightarrow> False)"

definition stacking_candidate_of :: "reward_candidate \<Rightarrow> stacking_candidate" where
  "stacking_candidate_of c =
     (let rule = rd_rule (pc_rule c); st = rr_stacking rule
      in \<lparr>sc_rule_id = Some (rr_rule_id rule), sc_ruleId = None, sc_stack_group = Some (rs_stack_group st),
          sc_stackGroup = None, sc_mode = Some (rs_mode st), sc_precedence = Some (num (rs_precedence st)),
          sc_value = Some (DBig (pc_units c)), sc_reward_units = Some (DBig (pc_units c)), sc_rewardUnits = None,
          sc_base_reward_included = Some (base_included (pc_rule c)), sc_baseRewardIncluded = None,
          sc_base_rule_id = None, sc_baseRuleId = None,
          sc_is_base_reward = Some (rr_rule_type rule = ''base_reward''), sc_isBaseReward = None, sc_rule_type = None,
          sc_requires_rule_ids = Some (rs_requires_rule_ids st), sc_requiresRuleIds = None,
          sc_conflicts_with_rule_ids = Some (rs_conflicts_with_rule_ids st), sc_conflictsWithRuleIds = None,
          sc_eligible = None\<rparr>)"

definition stack_candidates :: "engine_host \<Rightarrow> reward_candidate list \<Rightarrow> stacking_resolution" where
  "stack_candidates h cs =
     resolve_stacking (eh_runtime h)
       \<lparr>sn_candidates = map stacking_candidate_of cs, sn_base_reward = None, sn_baseReward = None\<rparr>"

definition log_stacking :: "operation \<Rightarrow> stack_rejection list \<Rightarrow> native_ledger \<Rightarrow> native_ledger" where
  "log_stacking op rejections l =
     fold (\<lambda>r l. if sj_rule_id r = [] then l
         else add_rejection (rule_rejection op (sj_rule_id r) ''rule_excluded''
           (sj_rule_id r @ '': stacking '' @ reason_text (sj_reason r))) l) rejections l"

section \<open>Reserving cap progress\<close>

definition cap_key :: "cap_rule \<Rightarrow> string" where
  "cap_key cap = default_to (cr_cap_id cap) (cr_shared_cap_group cap)"

definition caps_by_key :: "cap_rule list \<Rightarrow> (string, cap_rule list) omap" where
  "caps_by_key caps = fold (\<lambda>c m. om_set (cap_key c) (default_to [] (om_get m (cap_key c)) @ [c]) m) caps []"

definition plus_text :: "engine_host \<Rightarrow> dec_read \<Rightarrow> dec_read \<Rightarrow> string" where
  "plus_text h a b = trim_decimal (dec_text h (dec_plus (eh_runtime h) a b))"

fun number_plus :: "js_number \<Rightarrow> int \<Rightarrow> js_number" where
  "number_plus (Finite q) n = Finite (q + of_int n)"
| "number_plus NonFinite n = NonFinite"

definition reserved_progress ::
    "engine_host \<Rightarrow> plan_cap_progress option \<Rightarrow> string \<Rightarrow> int \<Rightarrow> plan_cap_progress res" where
  "reserved_progress h previous amount spend =
     (let rt = eh_runtime h; lo = Option.bind previous cg_reward_earned_units_min;
          hi = orelse (Option.bind previous cg_reward_earned_units_max) lo;
          spend_lo = default_to (num 0) (Option.bind previous cg_eligible_spend_jpy_min);
          spend_hi = default_to spend_lo (Option.bind previous cg_eligible_spend_jpy_max)
      in rbind (decimal rt (DStr (default_to ''0'' lo))) (\<lambda>minimum.
         rbind (decimal rt (DStr (default_to ''0'' hi))) (\<lambda>maximum.
         rbind (decimal rt (DStr amount)) (\<lambda>reward.
           Inr \<lparr>cg_status = (if map_option cg_status previous = Some FS_estimated then FS_estimated else FS_known),
             cg_eligible_spend_jpy_min = Some (number_plus spend_lo spend),
             cg_eligible_spend_jpy_max = Some (number_plus spend_hi spend),
             cg_reward_earned_units_min = Some (plus_text h minimum reward),
             cg_reward_earned_units_max = Some (plus_text h maximum reward),
             cg_period_start = Option.bind previous cg_period_start,
             cg_period_end = Option.bind previous cg_period_end,
             pg_observed_at = Option.bind previous pg_observed_at,
             pg_source = default_to SO_inferred (map_option pg_source previous)\<rparr>))))"

definition operation_scoped :: "cap_rule \<Rightarrow> bool" where
  "operation_scoped cap \<longleftrightarrow> cr_cap_type cap = CP_per_operation \<or> cr_reset_period cap = RK_operation"

fun reserve_groups ::
    "engine_host \<Rightarrow> string \<Rightarrow> int \<Rightarrow> (string \<times> cap_rule list) list \<Rightarrow> cap_progress_map \<times> cap_progress_map \<Rightarrow>
     (cap_progress_map \<times> cap_progress_map) res" where
  "reserve_groups h amount spend [] ps = Inr ps"
| "reserve_groups h amount spend ((key, caps) # groups) (operation, plan) =
     (let previous = orelse (om_get operation key)
            (case caps of [] \<Rightarrow> None | cap # _ \<Rightarrow> om_get operation (cr_cap_id cap))
      in if caps = [] \<or> map_option cg_status previous = Some FS_unknown then
           reserve_groups h amount spend groups (operation, plan)
         else rbind (reserved_progress h previous amount spend) (\<lambda>reserved.
           reserve_groups h amount spend groups
             (om_set key reserved operation,
              if list_all (\<lambda>c. \<not> operation_scoped c) caps then om_set key reserved plan else plan)))"

definition reserve_cap_progress ::
    "engine_host \<Rightarrow> cap_rule list \<Rightarrow> string \<Rightarrow> int \<Rightarrow> cap_progress_map \<times> cap_progress_map \<Rightarrow>
     (cap_progress_map \<times> cap_progress_map) res" where
  "reserve_cap_progress h caps amount spend ps = reserve_groups h amount spend (caps_by_key caps) ps"

section \<open>Paying the selected candidates\<close>

definition zero_value :: jpy_value_range where
  "zero_value = \<lparr>jv_minimum_jpy = JStr ''0'', jv_maximum_jpy = JStr ''0'', jv_expected_jpy = JStr ''0''\<rparr>"

definition component_id :: "operation \<Rightarrow> string \<Rightarrow> nat \<Rightarrow> string" where
  "component_id op rule_id index =
     ''cmp_'' @ strip_prefix ''op_'' (op_operation_id op) @ ''_'' @ strip_prefix ''rr_'' rule_id @ ''_'' @ nat_text index"

definition mode_text :: "stacking_mode \<Rightarrow> string" where
  "mode_text m = (case m of SM_additive \<Rightarrow> ''additive'' | SM_replaces_group \<Rightarrow> ''replaces_group''
     | SM_best_of_group \<Rightarrow> ''best_of_group'' | SM_includes_base \<Rightarrow> ''includes_base''
     | SM_non_reward_acceptance \<Rightarrow> ''non_reward_acceptance'' | SM_custom t \<Rightarrow> t)"

definition reward_component_from_rule ::
    "runtime \<Rightarrow> engine_rule \<Rightarrow> operation \<Rightarrow> int \<Rightarrow> nat \<Rightarrow> reward_component res" where
  "reward_component_from_rule rt rule op units index =
     (case er_output rule of
        None \<Rightarrow> Inl ''reward_output_missing''
      | Some w \<Rightarrow>
          rmap (\<lambda>q. \<lparr>rc_component_id = component_id op (rule_id_of rule) index, rc_operation_id = op_operation_id op,
              rc_rule_id = rule_id_of rule, rc_sign = ou_sign w, rc_quantity = q, rc_value_jpy = zero_value,
              rc_certainty = ou_certainty w, rc_settlement = ou_settlement w, rc_expiry = ou_expiry w,
              rc_restrictions = ou_restrictions w, rc_clawback = ou_clawback w,
              rc_calculation_trace = JObj [(''eligible_basis'', JStr []), (''rounding_stage'', JStr [])]\<rparr>)
            (quantity_of_units rt (ou_asset w) units))"

definition component_trace :: "trace \<Rightarrow> engine_rule \<Rightarrow> json" where
  "component_trace tr rule =
     JObj (spread (spread [(''eligible_basis'', JStr []), (''rounding_stage'', JStr [])] tr)
       [(''stacking_mode'', JStr (mode_text (rs_mode (rr_stacking (rd_rule rule)))))])"

definition pay :: "engine_host \<Rightarrow> operation \<Rightarrow> engine_rule \<Rightarrow> int \<Rightarrow> trace \<Rightarrow> reward_payment \<Rightarrow> reward_payment res" where
  "pay h op rule units tr p =
     rmap (\<lambda>c. p\<lparr>py_ledger := add_applied_rule (rule_id_of rule) ((py_ledger p)
           \<lparr>nl_rewards := nl_rewards (py_ledger p) @ [c\<lparr>rc_calculation_trace := component_trace tr rule\<rparr>]\<rparr>),
         py_rule_ids := py_rule_ids p @ [rule_id_of rule]\<rparr>)
       (reward_component_from_rule (eh_runtime h) rule op units (length (nl_rewards (py_ledger p))))"

definition final_cap_state :: "reward_candidate \<Rightarrow> caps_evaluation \<Rightarrow> string" where
  "final_cap_state c caps =
     (if om_get (pc_trace c) ''cap_state'' = Some (JStr ''partial'') \<or> ca_availability caps = CV_partial then ''partial''
      else availability_text (ca_availability caps))"

definition pay_capped :: "engine_host \<Rightarrow> operation \<Rightarrow> reward_candidate \<Rightarrow> reward_payment \<Rightarrow> reward_payment res" where
  "pay_capped h op c p =
     rbind (caps_of_candidate h op (py_operation_progress p) c) (\<lambda>caps.
     rbind (allowed_units h c caps) (\<lambda>units.
       if units \<le> 0 then
         Inr (p\<lparr>py_ledger := add_rejection (cap_rejection op (pc_rule c) caps) (py_ledger p)\<rparr>)
       else
         rbind (amount_from_units (eh_runtime h) units (output_scale (pc_rule c))) (\<lambda>amount.
         rbind (eligible_spend op (pc_rule c)) (\<lambda>spend.
         rbind (reserve_cap_progress h (er_caps (pc_rule c)) amount spend
                  (py_operation_progress p, py_plan_progress p)) (\<lambda>(operation, plan).
           pay h op (pc_rule c) units (spread (pc_trace c) (cap_trace h caps (final_cap_state c caps)))
             (p\<lparr>py_operation_progress := operation, py_plan_progress := plan\<rparr>))))))"

fun payment_pass ::
    "engine_host \<Rightarrow> operation \<Rightarrow> string list \<Rightarrow> reward_candidate list \<Rightarrow> reward_payment \<Rightarrow> reward_payment res" where
  "payment_pass h op selected [] p = Inr p"
| "payment_pass h op selected (c # cs) p =
     (if rule_id_of (pc_rule c) \<notin> set selected then payment_pass h op selected cs p
      else rbind (if er_caps (pc_rule c) = [] then pay h op (pc_rule c) (pc_units c) (pc_trace c) p
                  else pay_capped h op c p)
             (payment_pass h op selected cs))"

section \<open>All of it\<close>

definition start_scan :: "native_ledger \<Rightarrow> reward_scan" where
  "start_scan l = \<lparr>pw_ledger = l, pw_valid = True, pw_suppressed_rule_ids = [], pw_suppressed_stack_groups = [],
     pw_candidates = [], pw_multipliers = []\<rparr>"

definition scan_rules ::
    "engine_host \<Rightarrow> internal_context \<Rightarrow> purchase_plan \<Rightarrow> operation \<Rightarrow> engine_rule list \<Rightarrow> native_ledger \<Rightarrow> reward_scan res" where
  "scan_rules h ctx plan op rules l =
     rbind (exclusion_pass h ctx plan op rules (start_scan l)) (\<lambda>w.
     rbind (rule_pass h ctx plan op rules w) (\<lambda>w'.
       multiplier_pass h op (pw_multipliers w') w'))"

definition process_reward_rules ::
    "engine_host \<Rightarrow> internal_context \<Rightarrow> purchase_plan \<Rightarrow> operation \<Rightarrow> reward_options \<Rightarrow> native_ledger \<Rightarrow>
     cap_progress_map \<Rightarrow> (bool \<times> reward_payment) res" where
  "process_reward_rules h ctx plan op options l progress =
     rbind (reward_rules h ctx op options) (\<lambda>rules.
     rbind (scan_rules h ctx plan op rules l) (\<lambda>w.
     rbind (cap_pass h op progress (pw_candidates w) (pw_ledger w)) (\<lambda>(capped, l').
       let resolution = stack_candidates h capped
       in rmap (Pair (pw_valid w))
         (payment_pass h op (sr_applied_rule_ids resolution) capped
           \<lparr>py_ledger = log_stacking op (sr_rejected resolution) l', py_operation_progress = progress,
            py_plan_progress = progress, py_rule_ids = []\<rparr>))))"

end
