(* ===== verification/Plan_Engine.thy ===== *)
theory Plan_Engine
  imports Rewards Lifecycle
begin

text \<open>
  The evaluation of a purchase plan (\<open>evaluateNativePlan\<close> in
  \<open>packages/rule-engine/src/engine.ts\<close>): its operations in sequence order, each a transfer, a
  portal clickout, a refund or reversal, or a purchase, on one state of lots, ledger and cap
  progress; at the end the lots that remain and the check that principal was conserved.

  The contract validator (\<open>@jro/contracts\<close>) is an argument.  Two texts derived from the result,
  \<open>native_snapshot\<close> and the notes of the replay record, are not modelled.  The branch for operation
  types outside the milestone has no case left in the type.
\<close>

section \<open>Consuming in order\<close>

fun consume_all ::
    "runtime \<Rightarrow> operation \<Rightarrow> string list \<Rightarrow> asset_input list \<Rightarrow> plan_state \<Rightarrow> bool \<times> plan_state" where
  "consume_all rt op opening [] s = (True, s)"
| "consume_all rt op opening (i # is) s =
     (case consume_lot rt op opening i s of
        (False, s') \<Rightarrow> (False, s')
      | (True, s') \<Rightarrow> consume_all rt op opening is s')"

text \<open>Back to the lots, movements, opening consumption and numbering of an earlier state; what was
  rejected since stays logged.\<close>

definition roll_back :: "plan_state \<Rightarrow> plan_state \<Rightarrow> plan_state" where
  "roll_back before s =
     (on_ledger (\<lambda>l. l\<lparr>nl_movements := take (length (nl_movements (st_ledger before))) (nl_movements l),
          nl_opening_consumed := nl_opening_consumed (st_ledger before)\<rparr>) s)
       \<lparr>st_lots := st_lots before, st_movement_index := st_movement_index before\<rparr>"

section \<open>Transfers\<close>

definition source_role :: "operation \<Rightarrow> input_role" where
  "source_role op = (if op_operation_type op = OT_point_redemption then IR_redemption_source else IR_transfer_source)"

definition destination_role :: "operation \<Rightarrow> output_role" where
  "destination_role op =
     (if op_operation_type op = OT_point_redemption then OU_redemption_destination else OU_transfer_destination)"

definition first_of :: "'a list \<Rightarrow> 'a option" where
  "first_of xs = (case xs of [] \<Rightarrow> None | x # _ \<Rightarrow> Some x)"

text \<open>One source input, one destination output and the declared fee inputs, nothing else.\<close>

definition transfer_shape ::
    "operation \<Rightarrow> transfer_calculation \<Rightarrow> (asset_input \<times> asset_input option \<times> output_request) option" where
  "transfer_shape op calc =
     (let fees = filter (\<lambda>i. ai_role i = IR_fee) (op_asset_inputs op)
      in case (filter (\<lambda>i. ai_role i = source_role op) (op_asset_inputs op), op_output_requests op) of
           ([source], [output]) \<Rightarrow>
             if or_role output \<noteq> destination_role op \<or> length fees \<noteq> (if ts_fee calc = None then 0 else 1) \<or>
                list_ex (\<lambda>i. ai_role i \<noteq> source_role op \<and> ai_role i \<noteq> IR_fee) (op_asset_inputs op)
             then None else Some (source, first_of fees, output)
         | _ \<Rightarrow> None)"

definition lot_of_input :: "lots \<Rightarrow> asset_input \<Rightarrow> mutable_lot option" where
  "lot_of_input lots i = (if falsy (ai_source_lot_id i) then None else om_get lots (default_to [] (ai_source_lot_id i)))"

definition input_asset :: "asset_input \<Rightarrow> asset_ref" where
  "input_asset i = q_asset (ai_quantity i)"

definition holds_asset :: "asset_ref \<Rightarrow> mutable_lot option \<Rightarrow> bool" where
  "holds_asset a l = (case l of None \<Rightarrow> False | Some m \<Rightarrow> lot_asset m = a)"

definition fee_mismatch :: "runtime \<Rightarrow> lots \<Rightarrow> quantity \<Rightarrow> asset_input option \<Rightarrow> bool res" where
  "fee_mismatch rt lots fee input =
     (case input of
        None \<Rightarrow> Inr True
      | Some i \<Rightarrow>
          if falsy (ai_source_lot_id i) \<or> input_asset i \<noteq> q_asset fee then Inr True
          else rbind (decimal rt (DStr (q_amount (ai_quantity i)))) (\<lambda>x.
               rbind (decimal rt (DStr (q_amount fee))) (\<lambda>y.
                 Inr (compared_to x y \<noteq> Some 0 \<or> \<not> holds_asset (q_asset fee) (lot_of_input lots i)))))"

text \<open>The first input of the transfer that cannot be consumed: code and message.\<close>

fun input_problem ::
    "runtime \<Rightarrow> operation \<Rightarrow> string \<Rightarrow> lots \<Rightarrow> asset_input list \<Rightarrow> (string \<times> string) option" where
  "input_problem rt op rule_id lots [] = None"
| "input_problem rt op rule_id lots (i # is) =
     (case Option.bind (ai_source_lot_id i) (om_get lots) of
        None \<Rightarrow> Some (''asset_lot_not_yet_created'', rule_id @ '': transfer input source lot is unavailable'')
      | Some current \<Rightarrow>
          if lot_asset current \<noteq> input_asset i then
            Some (''asset_lot_missing'', rule_id @ '': transfer input source lot AssetRef mismatch'')
          else case quantity_in_units rt (ai_quantity i) of
            Inl e \<Rightarrow> Some (''invalid_plan'', e)
          | Inr units \<Rightarrow>
              if units \<le> 0 \<or> ml_units current < units then
                Some (''insufficient_asset_quantity'', rule_id @ '': transfer input source lot has insufficient quantity'')
              else case expired_at rt op (ml_lot current) of
                Inl e \<Rightarrow> Some (''invalid_plan'', e)
              | Inr expired \<Rightarrow>
                  if expired then Some (''asset_expired'', rule_id @ '': transfer input source lot is expired'')
                  else input_problem rt op rule_id lots is)"

definition iso_after :: "int \<Rightarrow> int option \<Rightarrow> string option res" where
  "iso_after occurred days =
     (case days of
        None \<Rightarrow> Inr None
      | Some d \<Rightarrow>
          let t = occurred + d * 86400000
          in if valid_instant t then Inr (Some (iso_text t)) else Inl ''Invalid time value'')"

definition pending_transfer_settlement :: "runtime \<Rightarrow> operation \<Rightarrow> int option \<Rightarrow> int option \<Rightarrow> settlement res" where
  "pending_transfer_settlement rt op minimum maximum =
     rbind (parse_time rt (op_occurred_at op)) (\<lambda>occurred.
     rbind (iso_after occurred minimum) (\<lambda>start.
     rbind (iso_after occurred maximum) (\<lambda>stop.
       Inr \<lparr>se_status = SS_pending, se_expected_posting_from = start, se_expected_posting_to = stop,
         se_posted_at = None\<rparr>)))"

text \<open>What the rule says was transferred before in the period, where it is known or estimated.\<close>

definition period_used :: "facts \<Rightarrow> string \<Rightarrow> decimal_input option" where
  "period_used facts rule_id =
     (case om_get facts (''transfer_period_used:'' @ rule_id) of
        None \<Rightarrow> None
      | Some f \<Rightarrow>
          if sv_status f = FS_known \<or> sv_status f = FS_estimated
          then Option.bind (sv_value f) as_decimal_input else None)"

definition transfer_input ::
    "facts \<Rightarrow> string list \<Rightarrow> string \<Rightarrow> asset_input \<Rightarrow> settlement \<Rightarrow> transfer_calculation_input" where
  "transfer_input facts visited rule_id source settlement =
     \<lparr>tx_source_amount = Some (DStr (q_amount (ai_quantity source))), tx_source_units = None,
      tx_period_source_used = period_used facts rule_id, tx_visited_asset_ids = Some visited,
      tx_cycle_path_asset_ids = None, tx_posting = Value settlement, tx_cancel_requested = None, tx_posted = None\<rparr>"

definition transfer_status_text :: "transfer_status \<Rightarrow> string" where
  "transfer_status_text t = (case t of TS_applied \<Rightarrow> ''applied'' | TS_rejected \<Rightarrow> ''rejected''
     | TS_conditional \<Rightarrow> ''conditional'' | TS_cancelled \<Rightarrow> ''cancelled'')"

text \<open>Move the principal: all inputs and the output, or nothing.\<close>

definition move_principal ::
    "runtime \<Rightarrow> internal_context \<Rightarrow> operation \<Rightarrow> string list \<Rightarrow> engine_rule \<Rightarrow> output_request \<Rightarrow> string \<Rightarrow> settlement \<Rightarrow>
     plan_state \<Rightarrow> bool \<times> plan_state" where
  "move_principal rt ctx op opening rule output amount settlement s =
     (case consume_all rt op opening (op_asset_inputs op) s of
        (False, s') \<Rightarrow> (False, roll_back s s')
      | (True, s') \<Rightarrow>
          (case add_derived_output rt ctx op output amount [rule_id_of rule] D_create
                  (if op_operation_type op = OT_point_redemption then MR_redemption else MR_transfer)
                  (Some settlement) (er_output rule) s' of
             (False, s'') \<Rightarrow> (False, roll_back s s'')
           | (True, s'') \<Rightarrow> (True, s'')))"

definition with_rewards :: "reward_payment \<Rightarrow> plan_state \<Rightarrow> plan_state" where
  "with_rewards p s = s\<lparr>st_ledger := py_ledger p, st_cap_progress := py_plan_progress p\<rparr>"

definition transfer_bonus ::
    "engine_host \<Rightarrow> internal_context \<Rightarrow> purchase_plan \<Rightarrow> operation \<Rightarrow> string list \<Rightarrow> plan_state \<Rightarrow> (bool \<times> plan_state) res" where
  "transfer_bonus h ctx plan op bonus s =
     (if bonus = [] then Inr (True, s)
      else rmap (\<lambda>(valid, p). (valid, with_rewards p s))
        (process_reward_rules h ctx plan op
          \<lparr>po_bonus_rule_ids = Some bonus, po_exclude_transfer_rules = True\<rparr> (st_ledger s) (st_cap_progress s)))"

text \<open>Carry out an applied transfer.\<close>

definition complete_transfer ::
    "engine_host \<Rightarrow> internal_context \<Rightarrow> purchase_plan \<Rightarrow> operation \<Rightarrow> string list \<Rightarrow> engine_rule \<Rightarrow> transfer_calculation \<Rightarrow>
     output_request \<Rightarrow> string \<Rightarrow> settlement \<Rightarrow> plan_state \<Rightarrow> (bool \<times> plan_state) res" where
  "complete_transfer h ctx plan op opening rule calc output amount settlement s =
     (case derived_units (eh_runtime h) output amount (st_lots s) of
        Inl e \<Rightarrow> Inr (refuse (rule_rejection op (rule_id_of rule) ''invalid_plan'' e) s)
      | Inr _ \<Rightarrow>
          (case move_principal (eh_runtime h) ctx op opening rule output amount settlement s of
             (False, s') \<Rightarrow> Inr (False, s')
           | (True, s') \<Rightarrow>
               transfer_bonus h ctx plan op (default_to [] (tf_bonus_rule_ids calc))
                 (on_ledger (add_applied_rule (rule_id_of rule))
                   (s'\<lparr>st_visited_asset_ids := add_once (ar_asset_id (ts_source_asset calc)) (st_visited_asset_ids s')\<rparr>))))"

definition evaluate_move ::
    "engine_host \<Rightarrow> internal_context \<Rightarrow> purchase_plan \<Rightarrow> operation \<Rightarrow> string list \<Rightarrow> engine_rule \<Rightarrow> transfer_calculation \<Rightarrow>
     asset_input \<Rightarrow> output_request \<Rightarrow> plan_state \<Rightarrow> (bool \<times> plan_state) res" where
  "evaluate_move h ctx plan op opening rule calc source output s =
     rbind (pending_transfer_settlement (eh_runtime h) op (tf_processing_time_days_min calc)
              (tf_processing_time_days_max calc)) (\<lambda>settlement.
     rbind (evaluate_transfer (eh_runtime h) (transfer_calculation_spec.truncate calc)
              (transfer_input (ic_facts ctx) (st_visited_asset_ids s) (rule_id_of rule) source settlement)) (\<lambda>t.
       case (tc_status t, tc_destination_amount t) of
         (TS_applied, Some amount) \<Rightarrow> complete_transfer h ctx plan op opening rule calc output amount settlement s
       | _ \<Rightarrow> Inr (refuse (rule_refused op rule
           (if tc_status t = TS_conditional then ''rule_condition_unknown'' else ''rule_condition_failed'')
           (default_to (transfer_status_text (tc_status t)) (tc_reason_code t))) s)))"

text \<open>The checks of a transfer against its rule, in order; \<open>None\<close> when all pass.\<close>

definition transfer_problem ::
    "runtime \<Rightarrow> operation \<Rightarrow> engine_rule \<Rightarrow> transfer_calculation \<Rightarrow> asset_input \<Rightarrow> asset_input option \<Rightarrow> output_request \<Rightarrow>
     lots \<Rightarrow> rejection option res" where
  "transfer_problem rt op rule calc source fee output lots =
     (let refused = (\<lambda>code reason. Inr (Some (rule_refused op rule code reason)));
          lot_ids = map ai_source_lot_id (op_asset_inputs op)
      in if input_asset source \<noteq> ts_source_asset calc \<or> or_asset output \<noteq> ts_destination_asset calc \<or>
            \<not> holds_asset (ts_source_asset calc) (lot_of_input lots source) then
           refused ''rule_condition_failed'' ''transfer source or destination AssetRef mismatch''
         else rbind (case ts_fee calc of None \<Rightarrow> Inr False | Some q \<Rightarrow> fee_mismatch rt lots q fee) (\<lambda>bad_fee.
           if bad_fee then refused ''rule_condition_failed'' ''required transfer fee is missing or mismatched''
           else if (case er_output rule of None \<Rightarrow> False
                    | Some w \<Rightarrow> ou_sign w \<noteq> RS_credit \<or> ou_asset w \<noteq> ts_destination_asset calc) then
             refused ''rule_condition_failed'' ''transfer rule output must credit the exact destination AssetRef''
           else if None \<in> set lot_ids \<or> \<not> distinct lot_ids then
             refused ''invalid_plan'' ''transfer inputs must reference distinct reusable lots''
           else Inr (map_option (\<lambda>(code, message). rule_rejection op (rule_id_of rule) code message)
             (input_problem rt op (rule_id_of rule) lots (op_asset_inputs op)))))"

definition transfer_with_rule ::
    "engine_host \<Rightarrow> internal_context \<Rightarrow> purchase_plan \<Rightarrow> operation \<Rightarrow> string list \<Rightarrow> engine_rule \<Rightarrow> transfer_calculation \<Rightarrow>
     plan_state \<Rightarrow> (bool \<times> plan_state) res" where
  "transfer_with_rule h ctx plan op opening rule calc s =
     (case transfer_shape op calc of
        None \<Rightarrow> Inr (refuse (rule_rejection op (rule_id_of rule) ''invalid_plan''
          ''transfer requires exactly one source input, one destination output, and the declared fee inputs'') s)
      | Some (source, fee, output) \<Rightarrow>
          rbind (transfer_problem (eh_runtime h) op rule calc source fee output (st_lots s)) (\<lambda>problem.
            case problem of
              Some r \<Rightarrow> Inr (refuse r s)
            | None \<Rightarrow> evaluate_move h ctx plan op opening rule calc source output s))"

definition transfer_rules ::
    "engine_host \<Rightarrow> internal_context \<Rightarrow> purchase_plan \<Rightarrow> operation \<Rightarrow> engine_rule list res" where
  "transfer_rules h ctx plan op =
     rbind (rules_for h ctx op) (filter_res (\<lambda>r.
       if is_transfer_rule r then rmap (\<lambda>reason. reason = None) (rule_matches_operation h (ic_facts ctx) plan op r)
       else Inr False))"

definition process_transfer_operation ::
    "engine_host \<Rightarrow> internal_context \<Rightarrow> purchase_plan \<Rightarrow> string list \<Rightarrow> operation \<Rightarrow> plan_state \<Rightarrow> (bool \<times> plan_state) res" where
  "process_transfer_operation h ctx plan opening op s =
     rbind (transfer_rules h ctx plan op) (\<lambda>selected.
       case selected of
         [] \<Rightarrow> Inr (refuse (op_rejection op ''no_matching_rule''
           ''transfer operation requires one applicable transfer-ratio rule'') s)
       | [rule] \<Rightarrow>
           (case er_calculation rule of
              Some (RL_transfer_ratio calc) \<Rightarrow> transfer_with_rule h ctx plan op opening rule calc s
            | _ \<Rightarrow> Inr (False, s))
       | _ \<Rightarrow> Inr (refuse (op_rejection op ''ambiguous_bitemporal_replay''
           ''transfer operation matched multiple transfer-ratio rules'') s))"

section \<open>Portal clickouts\<close>

definition process_portal_clickout :: "operation \<Rightarrow> plan_state \<Rightarrow> bool \<times> plan_state" where
  "process_portal_clickout op s =
     (if op_amount_jpy op \<noteq> None \<or> op_asset_inputs op \<noteq> [] \<or> op_output_requests op \<noteq> [] then
        refuse (op_rejection op ''invalid_plan''
          ''portal clickout is non-financial and cannot consume or create assets'') s
      else (True, s))"

section \<open>Refunds and reversals\<close>

definition is_correction :: "operation \<Rightarrow> bool" where
  "is_correction op \<longleftrightarrow> op_operation_type op = OT_refund \<or> op_operation_type op = OT_reversal"

definition quantity_key :: "quantity \<Rightarrow> string" where
  "quantity_key q = asset_bucket (q_asset q)"

text \<open>The tender of the original operation in the asset and class of the returned output.\<close>

definition matching_tender :: "operation \<Rightarrow> asset_ref \<Rightarrow> asset_input list" where
  "matching_tender original asset =
     filter (\<lambda>i. ai_role i \<noteq> IR_fee \<and> ai_role i \<noteq> IR_refund_source \<and> quantity_key (ai_quantity i) = asset_bucket asset)
       (op_asset_inputs original)"

fun input_units_sum :: "runtime \<Rightarrow> asset_input list \<Rightarrow> int \<Rightarrow> int res" where
  "input_units_sum rt [] acc = Inr acc"
| "input_units_sum rt (i # is) acc =
     rbind (quantity_in_units rt (ai_quantity i)) (\<lambda>n. input_units_sum rt is (acc + n))"

text \<open>The refunds and reversals of an operation up to a sequence number.\<close>

definition corrections_of :: "purchase_plan \<Rightarrow> operation \<Rightarrow> operation \<Rightarrow> operation list" where
  "corrections_of plan original op =
     filter (\<lambda>c. op_sequence c \<le> op_sequence op \<and> op_original_operation_id c = Some (op_operation_id original) \<and>
       is_correction c) (pp_operations plan)"

definition correction_outputs :: "operation list \<Rightarrow> asset_ref \<Rightarrow> (operation \<times> output_request) list" where
  "correction_outputs cs asset =
     filter (\<lambda>(_, r). asset_bucket (or_asset r) = asset_bucket asset)
       (concat (map (\<lambda>c. map (Pair c) (op_output_requests c)) cs))"

fun returned_units_sum :: "runtime \<Rightarrow> (operation \<times> output_request) list \<Rightarrow> int \<Rightarrow> int res" where
  "returned_units_sum rt [] acc = Inr acc"
| "returned_units_sum rt ((c, r) # rs) acc =
     (case requested_text c r of
        None \<Rightarrow> returned_units_sum rt rs acc
      | Some t \<Rightarrow> rbind (units_from_amount rt t (ar_scale (or_asset r)) RM_exact) (\<lambda>n. returned_units_sum rt rs (acc + n)))"

definition jpy_problem :: "operation \<Rightarrow> operation \<Rightarrow> bool" where
  "jpy_problem op original \<longleftrightarrow>
     (case (op_amount_jpy original, op_amount_jpy op) of
        (Some whole, Some a) \<Rightarrow> a \<le> 0 \<or> whole < a \<or> (op_operation_type op = OT_reversal \<and> a \<noteq> whole)
      | _ \<Rightarrow> True)"

text \<open>The message of the first check of the amounts that fails.\<close>

definition correction_problem ::
    "runtime \<Rightarrow> purchase_plan \<Rightarrow> operation \<Rightarrow> operation \<Rightarrow> output_request \<Rightarrow> string \<Rightarrow> string option res" where
  "correction_problem rt plan op original output amount =
     rbind (decimal rt (DStr amount)) (\<lambda>value.
       let asset = or_asset output; declared = of_int (default_to (-1) (op_amount_jpy op)) :: rat;
           tender = matching_tender original asset
       in if compared_to value (DecFinite (declared < 0) declared) \<noteq> Some 0 then
            Inr (Some ''refund/reversal returned quantity must equal the declared operation amount'')
          else if jpy_problem op original then
            Inr (Some ''refund/reversal JPY amount must be positive and no greater than the original operation'')
          else if tender = [] then
            Inr (Some ''refund/reversal output asset must match an original tender asset and reward class'')
          else
            rbind (input_units_sum rt tender 0) (\<lambda>tendered.
            rbind (units_from_amount rt amount (ar_scale asset) RM_exact) (\<lambda>returned.
            rbind (returned_units_sum rt (correction_outputs (corrections_of plan original op) asset) 0) (\<lambda>cumulative.
              if returned \<le> 0 \<or> tendered < cumulative \<or> (op_operation_type op = OT_reversal \<and> returned \<noteq> tendered) then
                Inr (Some ''refund/reversal output quantity exceeds the original matching tender'')
              else if default_to 0 (op_amount_jpy original) <
                  sum_list (map (\<lambda>c. default_to 0 (op_amount_jpy c)) (corrections_of plan original op)) then
                Inr (Some ''cumulative refunds/reversals exceed the original operation amount'')
              else Inr None))))"

definition adjust_reward ::
    "runtime \<Rightarrow> operation \<Rightarrow> operation \<Rightarrow> quantity \<Rightarrow> string \<Rightarrow> reward_component \<Rightarrow> lifecycle_result res" where
  "adjust_reward rt op original paid amount component =
     (if op_operation_type op = OT_refund then
        calculate_refund_adjustment rt
          \<lparr>ri_principal_quantity = Some paid, ri_original_operation_id = Some (op_operation_id original),
           ri_reward = Some (lifecycle_target_of component), ri_refund_amount_jpy = Some (DStr amount),
           ri_original_amount_jpy = map_option (DNum \<circ> num) (op_amount_jpy original), ri_clawback = None,
           ri_provider_defined_units = None, ri_rounding_mode = None, ri_operation_id = Some (op_operation_id op)\<rparr>
      else
        calculate_reversal_adjustment rt
          \<lparr>vi_principal_quantity = Some paid, vi_original_operation_id = Some (op_operation_id original),
           vi_reward = Some (lifecycle_target_of component), vi_clawback = None, vi_provider_defined_units = None,
           vi_rounding_mode = None, vi_operation_id = Some (op_operation_id op)\<rparr>)"

definition instruction_quantity :: "reward_instruction \<Rightarrow> quantity" where
  "instruction_quantity i = (case i of RI_debit d \<Rightarrow> di_quantity d | RI_expiry x \<Rightarrow> xi_quantity x)"

definition correction_text :: "operation \<Rightarrow> string" where
  "correction_text op = (if op_operation_type op = OT_refund then ''refund'' else ''reversal'')"

definition debit_component ::
    "operation \<Rightarrow> reward_component \<Rightarrow> quantity \<Rightarrow> string \<Rightarrow> nat \<Rightarrow> reward_component" where
  "debit_component op component q reason index =
     component\<lparr>rc_component_id := component_id op (rc_rule_id component) index, rc_operation_id := op_operation_id op,
       rc_sign := RS_debit, rc_quantity := q, rc_value_jpy := zero_value,
       rc_settlement := \<lparr>se_status = SS_reversed, se_expected_posting_from = None, se_expected_posting_to = None,
         se_posted_at = Some (op_occurred_at op)\<rparr>,
       rc_calculation_trace := JObj [(''eligible_basis'', JStr ''original_operation''),
         (''rounding_stage'', JStr ''lifecycle_adjustment''), (''lifecycle_kind'', JStr (correction_text op)),
         (''source_component_id'', JStr (rc_component_id component)), (''reason_code'', JStr reason)]\<rparr>"

definition log_adjustment :: "operation \<Rightarrow> reward_component \<Rightarrow> lifecycle_result \<Rightarrow> native_ledger \<Rightarrow> native_ledger" where
  "log_adjustment op component r l =
     (if lr_status r = LS_conditional then
        add_rejection (rule_rejection op (rc_rule_id component) ''rule_condition_unknown''
          (rc_rule_id component @ '': '' @ lr_reason_code r)) l
      else case lr_reward_instruction r of
        Some i \<Rightarrow>
          if lr_status r = LS_applied then
            l\<lparr>nl_rewards := nl_rewards l @ [debit_component op component (instruction_quantity i) (lr_reason_code r)
                (length (nl_rewards l))]\<rparr>
          else l
      | None \<Rightarrow> l)"

fun adjust_rewards ::
    "runtime \<Rightarrow> operation \<Rightarrow> operation \<Rightarrow> quantity \<Rightarrow> string \<Rightarrow> reward_component list \<Rightarrow> native_ledger \<Rightarrow> native_ledger res" where
  "adjust_rewards rt op original paid amount [] l = Inr l"
| "adjust_rewards rt op original paid amount (r # rs) l =
     rbind (adjust_reward rt op original paid amount r) (\<lambda>a.
       adjust_rewards rt op original paid amount rs (log_adjustment op r a l))"

definition settle_correction ::
    "runtime \<Rightarrow> operation \<Rightarrow> operation \<Rightarrow> output_request \<Rightarrow> string \<Rightarrow> plan_state \<Rightarrow> (bool \<times> plan_state) res" where
  "settle_correction rt op original output amount s =
     rbind (adjust_rewards rt op original \<lparr>q_asset = or_asset output, q_amount = amount\<rparr> amount
              (filter (\<lambda>r. rc_operation_id r = op_operation_id original) (nl_rewards (st_ledger s))) (st_ledger s)) (\<lambda>l.
     rbind (decimal rt (DStr amount)) (\<lambda>value.
       case value of
         DecFinite _ q \<Rightarrow> Inr (True, s\<lparr>st_ledger := l\<lparr>nl_merchant_value_jpy := nl_merchant_value_jpy l - half_up q\<rparr>\<rparr>)
       | _ \<Rightarrow> Inl ''SyntaxError''))"

definition process_lifecycle_operation ::
    "engine_host \<Rightarrow> internal_context \<Rightarrow> purchase_plan \<Rightarrow> operation \<Rightarrow> plan_state \<Rightarrow> (bool \<times> plan_state) res" where
  "process_lifecycle_operation h ctx plan op s =
     (let rt = eh_runtime h; invalid = (\<lambda>message. Inr (refuse (op_rejection op ''invalid_plan'' message) s))
      in case (find (\<lambda>c. Some (op_operation_id c) = op_original_operation_id op) (pp_operations plan), op_output_requests op) of
           (Some original, [output]) \<Rightarrow>
             if op_sequence op \<le> op_sequence original \<or> or_role output \<noteq> OU_refund then
               invalid ''refund/reversal requires one earlier original operation and one return output''
             else (case requested_text op output of
               None \<Rightarrow> invalid ''refund/reversal amount is required''
             | Some amount \<Rightarrow>
                 rbind (correction_problem rt plan op original output amount) (\<lambda>problem.
                   case problem of
                     Some message \<Rightarrow> invalid message
                   | None \<Rightarrow>
                       (case add_derived_output rt ctx op output amount [] D_return
                               (if op_operation_type op = OT_refund then MR_refund else MR_reversal) None None s of
                          (False, s') \<Rightarrow> Inr (False, s')
                        | (True, s') \<Rightarrow> settle_correction rt op original output amount s')))
         | _ \<Rightarrow> invalid ''refund/reversal requires one earlier original operation and one return output'')"

section \<open>Purchases and top-ups\<close>

text \<open>External funding: explicit money from outside that is never a lot.\<close>

definition funding_amount :: "runtime \<Rightarrow> asset_input \<Rightarrow> int res" where
  "funding_amount rt i =
     rbind (quantity_in_units rt (ai_quantity i)) (\<lambda>units.
     rbind (guard (0 < units) ''external funding must be positive'') (\<lambda>_.
     rbind (decimal rt (DStr (q_amount (ai_quantity i)))) (\<lambda>value.
       case value of
         DecFinite _ q \<Rightarrow> if q = of_int \<lfloor>q\<rfloor> then Inr \<lfloor>q\<rfloor> else Inl ''external_funding_must_be_integer_jpy''
       | _ \<Rightarrow> Inl ''external_funding_must_be_integer_jpy'')))"

definition take_funding :: "runtime \<Rightarrow> operation \<Rightarrow> asset_input \<Rightarrow> plan_state \<Rightarrow> int \<times> bool \<times> plan_state" where
  "take_funding rt op i s =
     (case funding_amount rt i of
        Inl e \<Rightarrow> (0, refuse (op_rejection op ''invalid_plan'' e) s)
      | Inr n \<Rightarrow> (n, True, push_movement op D_consume MR_external_funding (ai_quantity i) None None
          ''Explicit external funding; not a reusable lot.''
          (on_ledger (\<lambda>l. l\<lparr>nl_external_funding_jpy := nl_external_funding_jpy l + n\<rparr>) s)))"

text \<open>All inputs, whether or not an earlier one failed: the funding, whether all were taken, the state.\<close>

fun take_inputs ::
    "runtime \<Rightarrow> operation \<Rightarrow> string list \<Rightarrow> asset_input list \<Rightarrow> int \<Rightarrow> bool \<Rightarrow> plan_state \<Rightarrow> int \<times> bool \<times> plan_state" where
  "take_inputs rt op opening [] funding ok s = (funding, ok, s)"
| "take_inputs rt op opening (i # is) funding ok s =
     (let (n, consumed, s') = (if ai_role i = IR_external_funding then take_funding rt op i s
            else Pair 0 (consume_lot rt op opening i s))
      in take_inputs rt op opening is (funding + n) (ok \<and> consumed) s')"

fun decimal_sum :: "runtime \<Rightarrow> string list \<Rightarrow> dec_read \<Rightarrow> dec_read res" where
  "decimal_sum rt [] acc = Inr acc"
| "decimal_sum rt (t # ts) acc = rbind (decimal rt (DStr t)) (\<lambda>x. decimal_sum rt ts (dec_plus rt acc x))"

definition equals_int :: "dec_read \<Rightarrow> int \<Rightarrow> bool" where
  "equals_int x n \<longleftrightarrow> compared_to x (DecFinite (n < 0) (of_int n)) = Some 0"

definition principal_role :: "asset_input \<Rightarrow> bool" where
  "principal_role i \<longleftrightarrow> ai_role i \<noteq> IR_fee \<and> ai_role i \<noteq> IR_refund_source"

definition funding_problem :: "operation \<Rightarrow> int \<Rightarrow> dec_read \<Rightarrow> string option" where
  "funding_problem op funding requested =
     (if op_operation_type op = OT_stored_value_top_up \<or> op_operation_type op = OT_voucher_purchase then
        (if funding = 0 \<or> \<not> equals_int requested funding
         then Some ''acquisition output must equal explicit external funding'' else None)
      else if op_operation_type op = OT_merchant_purchase \<and> 0 < funding \<and>
          \<not> list_ex (\<lambda>i. ai_role i \<noteq> IR_external_funding \<and> principal_role i) (op_asset_inputs op) \<and>
          funding \<noteq> default_to 0 (op_amount_jpy op)
      then Some ''direct external funding must equal merchant amount'' else None)"

text \<open>Log a problem, if there is one, and note that the plan is invalid.\<close>

definition check_that :: "rejection option \<Rightarrow> bool \<times> plan_state \<Rightarrow> bool \<times> plan_state" where
  "check_that problem r =
     (case problem of None \<Rightarrow> r | Some p \<Rightarrow> (False, on_ledger (add_rejection p) (snd r)))"

definition funding_check :: "engine_host \<Rightarrow> operation \<Rightarrow> int \<Rightarrow> bool \<times> plan_state \<Rightarrow> (bool \<times> plan_state) res" where
  "funding_check h op funding r =
     rbind (decimal_sum (eh_runtime h)
         (map (\<lambda>q. default_to ''0'' (requested_text op q)) (op_output_requests op)) (DecFinite False 0)) (\<lambda>requested.
       Inr (check_that (map_option (op_rejection op ''funding_amount_mismatch'') (funding_problem op funding requested)) r))"

definition tender_check :: "engine_host \<Rightarrow> operation \<Rightarrow> bool \<times> plan_state \<Rightarrow> (bool \<times> plan_state) res" where
  "tender_check h op r =
     (if op_operation_type op \<noteq> OT_merchant_purchase then Inr r
      else
        let amount = default_to 0 (op_amount_jpy op)
        in rbind (decimal_sum (eh_runtime h) (map (q_amount \<circ> ai_quantity) (filter principal_role (op_asset_inputs op)))
               (DecFinite False 0)) (\<lambda>tender.
             Inr (check_that (if equals_int tender amount then None
               else Some (op_rejection op ''tender_amount_mismatch''
                 (''merchant principal tender '' @ dec_text h tender @ '' does not equal amount_jpy '' @ int_text amount))) r)))"

fun add_outputs ::
    "runtime \<Rightarrow> internal_context \<Rightarrow> operation \<Rightarrow> int \<Rightarrow> string list \<Rightarrow> output_request list \<Rightarrow> bool \<Rightarrow> plan_state \<Rightarrow>
     bool \<times> plan_state" where
  "add_outputs rt ctx op funding rule_ids [] ok s = (ok, s)"
| "add_outputs rt ctx op funding rule_ids (q # qs) ok s =
     (case add_output rt ctx op funding rule_ids q s of
        (added, s') \<Rightarrow> add_outputs rt ctx op funding rule_ids qs (ok \<and> added) s')"

definition all_rewards :: reward_options where
  "all_rewards = \<lparr>po_bonus_rule_ids = None, po_exclude_transfer_rules = False\<rparr>"

definition finish_purchase ::
    "engine_host \<Rightarrow> internal_context \<Rightarrow> purchase_plan \<Rightarrow> operation \<Rightarrow> int \<Rightarrow> bool \<times> plan_state \<Rightarrow> (bool \<times> plan_state) res" where
  "finish_purchase h ctx plan op funding r =
     (case r of (ok, s) \<Rightarrow>
        rbind (process_reward_rules h ctx plan op all_rewards (st_ledger s) (st_cap_progress s)) (\<lambda>(valid, p).
          case add_outputs (eh_runtime h) ctx op funding (py_rule_ids p) (op_output_requests op) (valid \<and> ok)
                 (with_rewards p s) of
            (ok', s') \<Rightarrow> Inr (ok',
              if op_operation_type op = OT_merchant_purchase
              then on_ledger (\<lambda>l. l\<lparr>nl_merchant_value_jpy := nl_merchant_value_jpy l + default_to 0 (op_amount_jpy op)\<rparr>) s'
              else s')))"

definition process_purchase ::
    "engine_host \<Rightarrow> internal_context \<Rightarrow> purchase_plan \<Rightarrow> string list \<Rightarrow> operation \<Rightarrow> plan_state \<Rightarrow> (bool \<times> plan_state) res" where
  "process_purchase h ctx plan opening op s =
     (case take_inputs (eh_runtime h) op opening (op_asset_inputs op) 0 True s of
        (funding, taken) \<Rightarrow>
          rbind (funding_check h op funding taken) (\<lambda>r.
          rbind (tender_check h op r) (finish_purchase h ctx plan op funding)))"

section \<open>The plan\<close>

definition process_operation ::
    "engine_host \<Rightarrow> internal_context \<Rightarrow> purchase_plan \<Rightarrow> string list \<Rightarrow> operation \<Rightarrow> plan_state \<Rightarrow> (bool \<times> plan_state) res" where
  "process_operation h ctx plan opening op s =
     (case op_operation_type op of
        OT_point_transfer \<Rightarrow> process_transfer_operation h ctx plan opening op s
      | OT_point_redemption \<Rightarrow> process_transfer_operation h ctx plan opening op s
      | OT_portal_clickout \<Rightarrow> Inr (process_portal_clickout op s)
      | OT_refund \<Rightarrow> process_lifecycle_operation h ctx plan op s
      | OT_reversal \<Rightarrow> process_lifecycle_operation h ctx plan op s
      | OT_merchant_purchase \<Rightarrow> process_purchase h ctx plan opening op s
      | OT_stored_value_top_up \<Rightarrow> process_purchase h ctx plan opening op s
      | OT_voucher_purchase \<Rightarrow> process_purchase h ctx plan opening op s)"

fun run_operations ::
    "engine_host \<Rightarrow> internal_context \<Rightarrow> purchase_plan \<Rightarrow> string list \<Rightarrow> operation list \<Rightarrow> bool \<Rightarrow> plan_state \<Rightarrow>
     (bool \<times> plan_state) res" where
  "run_operations h ctx plan opening [] ok s = Inr (ok, s)"
| "run_operations h ctx plan opening (op # ops) ok s =
     rbind (process_operation h ctx plan opening op s) (\<lambda>(done, s').
       run_operations h ctx plan opening ops (done \<and> ok) s')"

definition ending_lot :: "runtime \<Rightarrow> mutable_lot \<Rightarrow> asset_lot res" where
  "ending_lot rt l = rmap (\<lambda>q. (ml_lot l)\<lparr>al_quantity := q\<rparr>) (quantity_of_units rt (lot_asset l) (ml_units l))"

definition ending_lots :: "runtime \<Rightarrow> lots \<Rightarrow> asset_lot list res" where
  "ending_lots rt lots =
     traverse (ending_lot rt) (sort_cmp (cmp_on (al_lot_id \<circ> ml_lot) (rt_locale_compare rt))
       (filter (\<lambda>l. 0 < ml_units l) (map snd lots)))"

record native_plan_result =
  np_plan_id :: string
  np_eligible :: bool
  np_operations :: "operation list"
  np_asset_movements :: "asset_movement list"
  np_reward_components :: "reward_component list"
  np_ending_asset_lots :: "asset_lot list"
  np_applied_rule_ids :: "string list"
  np_rejected_rule_ids :: "string list"
  np_rejection_reasons :: "rejection list"
  np_external_funding_jpy :: int
  np_merchant_value_jpy :: int
  np_opening_asset_units_consumed :: "native_quantity list"

definition native_result :: "purchase_plan \<Rightarrow> bool \<Rightarrow> native_ledger \<Rightarrow> asset_lot list \<Rightarrow> native_plan_result" where
  "native_result plan ok l lots =
     \<lparr>np_plan_id = pp_plan_id plan, np_eligible = ok, np_operations = pp_operations plan,
      np_asset_movements = nl_movements l, np_reward_components = nl_rewards l, np_ending_asset_lots = lots,
      np_applied_rule_ids = js_sort (unique (nl_applied_rule_ids l)),
      np_rejected_rule_ids = js_sort (unique (nl_rejected_rule_ids l)), np_rejection_reasons = nl_rejections l,
      np_external_funding_jpy = nl_external_funding_jpy l, np_merchant_value_jpy = nl_merchant_value_jpy l,
      np_opening_asset_units_consumed = nl_opening_consumed l\<rparr>"

text \<open>The end of an evaluation: conservation is checked against the opening lots of the context.\<close>

definition close_plan ::
    "runtime \<Rightarrow> internal_context \<Rightarrow> purchase_plan \<Rightarrow> bool \<times> plan_state \<Rightarrow> native_plan_result res" where
  "close_plan rt ctx plan r =
     (case r of (ok, s) \<Rightarrow>
        rbind (ending_lots rt (st_lots s)) (\<lambda>lots.
          case validate_conservation rt (ic_opening_lots ctx) (nl_movements (st_ledger s)) lots of
            Inr _ \<Rightarrow> Inr (native_result plan ok (st_ledger s) lots)
          | Inl e \<Rightarrow> Inr (native_result plan False
              (add_rejection \<lparr>rj_code = ''conservation_failed'', rj_message = e, rj_operation_id = None, rj_rule_id = None\<rparr>
                (st_ledger s)) lots)))"

definition initial_state :: "internal_context \<Rightarrow> lots \<Rightarrow> plan_state" where
  "initial_state ctx lots =
     \<lparr>st_lots = lots, st_ledger = zero_ledger, st_movement_index = 0, st_cap_progress = ic_cap_progress ctx,
      st_visited_asset_ids = []\<rparr>"

definition opening_ids :: "internal_context \<Rightarrow> string list" where
  "opening_ids ctx = map al_lot_id (ic_opening_lots ctx)"

definition by_sequence :: "operation list \<Rightarrow> operation list" where
  "by_sequence ops = sort_cmp (cmp_key op_sequence) ops"

text \<open>An evaluation fails with the issues of the semantic validation or with another error.\<close>

datatype plan_error = PE_semantic "validation_issue list" | PE_thrown string

definition thrown :: "'a res \<Rightarrow> plan_error + 'a" where
  "thrown m = (case m of Inl e \<Rightarrow> Inl (PE_thrown e) | Inr x \<Rightarrow> Inr x)"

definition evaluate_valid_plan ::
    "engine_host \<Rightarrow> internal_context \<Rightarrow> purchase_plan \<Rightarrow> native_plan_result res" where
  "evaluate_valid_plan h ctx plan =
     rbind (initial_lots (eh_runtime h) ctx) (\<lambda>lots.
     rbind (run_operations h ctx plan (opening_ids ctx) (by_sequence (pp_operations plan)) True (initial_state ctx lots))
       (close_plan (eh_runtime h) ctx plan))"

definition evaluate_native_plan ::
    "engine_host \<Rightarrow> (purchase_plan \<Rightarrow> internal_context \<Rightarrow> unit res) \<Rightarrow> purchase_plan \<Rightarrow> evaluate_plan_options \<Rightarrow>
     plan_error + native_plan_result" where
  "evaluate_native_plan h contracts plan options =
     (let ctx = make_internal_context options
      in case contracts plan ctx of
           Inl e \<Rightarrow> Inl (PE_thrown e)
         | Inr _ \<Rightarrow>
             (case validate_purchase_plan (eh_runtime h) plan of
                Inl issues \<Rightarrow> Inl (PE_semantic issues)
              | Inr _ \<Rightarrow> thrown (evaluate_valid_plan h ctx plan)))"

end
