(* ===== verification/Plan_Laws.thy ===== *)
theory Plan_Laws
  imports Plan_Engine
begin

text \<open>
  What every evaluation of a plan keeps.  First the frame: rewards, exclusions, caps and
  refund adjustments never touch principal, and a rolled-back transfer leaves it as it was.  Then
  the interface \<open>principal_invariant\<close>: a property of the state that survives the four ways the
  engine changes principal survives every operation and every plan.  The rest of the
  file are its interpretations.
\<close>

named_theorems frame

section \<open>What is principal\<close>

definition books :: "native_ledger \<Rightarrow> asset_movement list \<times> native_quantity list \<times> int" where
  "books l = (nl_movements l, nl_opening_consumed l, nl_external_funding_jpy l)"

definition principal_of :: "plan_state \<Rightarrow> lots \<times> nat \<times> asset_movement list \<times> native_quantity list \<times> int" where
  "principal_of s = (st_lots s, st_movement_index s, books (st_ledger s))"

abbreviation movements :: "plan_state \<Rightarrow> asset_movement list" where
  "movements s \<equiv> nl_movements (st_ledger s)"

lemma books_add_rejection [simp]: "books (add_rejection r l) = books l"
  by (simp add: books_def add_rejection_def)

lemma books_add_applied [simp]: "books (add_applied_rule i l) = books l"
  by (simp add: books_def add_applied_rule_def)

lemma books_rewards [simp]: "books (l\<lparr>nl_rewards := rs\<rparr>) = books l" "books (l\<lparr>nl_merchant_value_jpy := n\<rparr>) = books l"
  by (simp_all add: books_def)

lemma principal_on_ledger [simp]:
  "principal_of (on_ledger f s) = (st_lots s, st_movement_index s, books (f (st_ledger s)))"
  by (simp add: principal_of_def on_ledger_def)

lemma principal_refuse [simp]: "principal_of (snd (refuse r s)) = principal_of s"
  by (simp add: refuse_def) (simp add: principal_of_def)

lemma fst_refuse [simp]: "fst (refuse r s) = False"
  by (simp add: refuse_def)

section \<open>Rewards leave principal alone\<close>

lemma books_scan [simp]:
  "books (pw_ledger (scan_reject r w)) = books (pw_ledger w)"
  "books (pw_ledger (scan_apply rule w)) = books (pw_ledger w)"
  by (simp_all add: scan_reject_def scan_apply_def)

lemma books_suppress [simp]: "books (pw_ledger (suppress_targets op r e w)) = books (pw_ledger w)"
  by (simp add: suppress_targets_def)

lemma books_exclusion_pass: "exclusion_pass h ctx plan op rs w = Inr w' \<Longrightarrow> books (pw_ledger w') = books (pw_ledger w)"
proof (induction rs arbitrary: w)
  case (Cons r rs)
  show ?case
  proof (cases "rule_matches_operation h (ic_facts ctx) plan op r")
    case (Inr reason)
    with Cons.prems have "exclusion_pass h ctx plan op rs
        (case (reason, reward_exclusion r) of (None, Some e) \<Rightarrow> suppress_targets op r e w | _ \<Rightarrow> w) = Inr w'" by simp
    from Cons.IH [OF this] show ?thesis by (simp split: option.splits)
  qed (use Cons.prems in simp)
qed simp

lemma books_calculate [simp]: "books (pw_ledger (calculate_candidate h ctx op rule w)) = books (pw_ledger w)"
  by (simp add: calculate_candidate_def add_candidate_def split: sum.splits option.splits prod.splits)

lemma books_judge [simp]: "books (pw_ledger (judge_rule h ctx op rule w)) = books (pw_ledger w)"
  by (simp add: judge_rule_def deny_rule_def Let_def split: option.splits rule_calculation.splits)

lemma books_rule_pass: "rule_pass h ctx plan op rs w = Inr w' \<Longrightarrow> books (pw_ledger w') = books (pw_ledger w)"
proof (induction rs arbitrary: w)
  case (Cons r rs)
  then obtain reason where "rule_pass h ctx plan op rs
      (case reason of None \<Rightarrow> judge_rule h ctx op r w
        | Some m \<Rightarrow> if acceptance_rule r then scan_reject (rule_refused op r ''rule_excluded'' m) w else w) = Inr w'"
    by (cases "rule_matches_operation h (ic_facts ctx) plan op r") (simp, simp only: rule_pass.simps exclusion_pass.simps rbind_simps)
  from Cons.IH [OF this] show ?case by (simp split: option.splits if_splits)
qed simp

lemma books_multiply: "multiply h op rule m g w = Inr w' \<Longrightarrow> books (pw_ledger w') = books (pw_ledger w)"
  by (auto simp: multiply_def add_candidate_def Let_def res_simps split: if_splits)

lemma books_multiplier_pass: "multiplier_pass h op rs w = Inr w' \<Longrightarrow> books (pw_ledger w') = books (pw_ledger w)"
  by (induction h op rs w rule: multiplier_pass.induct)
     (auto simp: res_simps dest: books_multiply split: option.splits rule_calculation.splits)

lemma books_scan_rules: "scan_rules h ctx plan op rules l = Inr w \<Longrightarrow> books (pw_ledger w) = books l"
  by (auto simp: scan_rules_def res_simps start_scan_def
      dest!: books_exclusion_pass books_rule_pass books_multiplier_pass)

lemma books_cap_pass: "cap_pass h op progress cs l = Inr (kept, l') \<Longrightarrow> books l' = books l"
proof (induction cs arbitrary: l kept)
  case (Cons c cs)
  from Cons.prems show ?case
    by (auto simp: res_simps Let_def split: if_splits dest: Cons.IH)
qed simp

lemma books_log_stacking [simp]: "books (log_stacking op rs l) = books l"
  unfolding log_stacking_def by (induction rs arbitrary: l) auto

lemma books_pay: "pay h op rule units tr p = Inr p' \<Longrightarrow> books (py_ledger p') = books (py_ledger p)"
  by (auto simp: pay_def res_simps)

lemma books_pay_capped: "pay_capped h op c p = Inr p' \<Longrightarrow> books (py_ledger p') = books (py_ledger p)"
  by (auto simp: pay_capped_def res_simps split: if_splits prod.splits dest!: books_pay)

lemma books_payment_pass: "payment_pass h op selected cs p = Inr p' \<Longrightarrow> books (py_ledger p') = books (py_ledger p)"
  by (induction cs arbitrary: p)
     (auto simp: res_simps split: if_splits dest!: books_pay books_pay_capped)

lemma books_reward_rules [frame]:
  "process_reward_rules h ctx plan op options l progress = Inr (valid, p) \<Longrightarrow> books (py_ledger p) = books l"
  by (auto simp: process_reward_rules_def res_simps Let_def
      dest!: books_scan_rules books_cap_pass books_payment_pass split: prod.splits)

section \<open>Corrections adjust rewards, not principal\<close>

lemma books_log_adjustment [simp]: "books (log_adjustment op r a l) = books l"
  by (simp add: log_adjustment_def split: option.splits)

lemma books_adjust_rewards: "adjust_rewards rt op original paid amount rs l = Inr l' \<Longrightarrow> books l' = books l"
  by (induction rs arbitrary: l) (auto simp: res_simps)

lemma principal_settle:
  "settle_correction rt op original output amount s = Inr (ok, s') \<Longrightarrow> principal_of s' = principal_of s"
proof -
  assume "settle_correction rt op original output amount s = Inr (ok, s')"
  then obtain l paid where l: "adjust_rewards rt op original \<lparr>q_asset = or_asset output, q_amount = amount\<rparr> amount
        (filter (\<lambda>r. rc_operation_id r = op_operation_id original) (nl_rewards (st_ledger s))) (st_ledger s) = Inr l"
    and v: "(case paid of DecFinite _ q \<Rightarrow>
        Inr (True, s\<lparr>st_ledger := l\<lparr>nl_merchant_value_jpy := nl_merchant_value_jpy l - half_up q\<rparr>\<rparr>)
      | _ \<Rightarrow> Inl ''SyntaxError'') = Inr (ok, s')"
    unfolding settle_correction_def by (auto simp only: res_simps)
  from v show ?thesis by (cases paid) (auto simp: principal_of_def books_adjust_rewards [OF l])
qed

lemma principal_with_rewards [simp]:
  "principal_of (with_rewards p s) = (st_lots s, st_movement_index s, books (py_ledger p))"
  by (simp add: with_rewards_def principal_of_def)

lemma principal_check_that [simp]: "principal_of (snd (check_that problem r)) = principal_of (snd r)"
  by (simp add: check_that_def split: option.splits) (simp add: principal_of_def)

lemma principal_checks:
  "funding_check h op funding r = Inr r' \<Longrightarrow> principal_of (snd r') = principal_of (snd r)"
  "tender_check h op r = Inr r' \<Longrightarrow> principal_of (snd r') = principal_of (snd r)"
  by (auto simp: funding_check_def tender_check_def Let_def res_simps split: if_splits)

section \<open>Movements are only appended\<close>

text \<open>\<open>grows s s'\<close>: the state went on from \<open>s\<close> without new funding; a rollback can go back.\<close>

definition grows :: "plan_state \<Rightarrow> plan_state \<Rightarrow> bool" where
  "grows s s' \<longleftrightarrow> (\<exists>ms. movements s' = movements s @ ms) \<and>
     nl_external_funding_jpy (st_ledger s') = nl_external_funding_jpy (st_ledger s)"

lemma grows_refl [simp]: "grows s s"
  by (simp add: grows_def)

lemma grows_trans [trans]: "grows s s' \<Longrightarrow> grows s' s'' \<Longrightarrow> grows s s''"
  by (auto simp: grows_def)

lemma grows_same: "principal_of s' = principal_of s \<Longrightarrow> grows s s'"
  by (simp add: principal_of_def books_def grows_def)

lemma grows_refuse [simp]: "grows s (snd (refuse r s))"
  by (rule grows_same) simp

lemma push_movement_simps [simp]:
  "st_lots (push_movement op d role q a b notes s) = st_lots s"
  "movements (push_movement op d role q a b notes s) = movements s @ [movement op d role q a b (st_movement_index s) notes]"
  "st_movement_index (push_movement op d role q a b notes s) = Suc (st_movement_index s)"
  "nl_opening_consumed (st_ledger (push_movement op d role q a b notes s)) = nl_opening_consumed (st_ledger s)"
  "nl_external_funding_jpy (st_ledger (push_movement op d role q a b notes s)) = nl_external_funding_jpy (st_ledger s)"
  by (simp_all add: push_movement_def on_ledger_def)

lemma grows_take: "grows s (snd (take_units rt op i opening lot cur n s))"
  by (simp add: take_units_def Let_def refuse_def add_rejection_def grows_def on_ledger_def push_movement_def split: sum.splits)

lemma grows_consume: "grows s (snd (consume_lot rt op opening i s))"
  by (simp add: consume_lot_def grows_take Let_def split: option.splits sum.splits prod.splits)

lemma grows_consume_all: "grows s (snd (consume_all rt op opening is s))"
proof (induction "is" arbitrary: s)
  case (Cons i "is")
  obtain b s' where c: "consume_lot rt op opening i s = (b, s')" by fastforce
  with grows_consume [of s rt op "opening" i] have g: "grows s s'" by simp
  show ?case by (cases b) (use c g Cons.IH [of s'] grows_trans in auto)
qed simp

lemma grows_derived: "grows s (snd (add_derived_output rt ctx op output amount ids d role se w s))"
  by (simp add: add_derived_output_def install_lot_def grows_def refuse_def on_ledger_def add_rejection_def
      split: sum.splits)

lemma principal_roll_back: "grows s s' \<Longrightarrow> principal_of (roll_back s s') = principal_of s"
  by (auto simp: grows_def roll_back_def principal_of_def books_def on_ledger_def)


section \<open>Invariants of principal\<close>

text \<open>The engine changes principal in four ways: it takes units from a lot that passed the checks,
  installs a new lot, counts external funding, and goes back to an earlier state.  What the first
  three keep, and what depends on principal alone, every plan keeps.\<close>

locale principal_invariant =
  fixes h :: engine_host
    and opening_lots :: "string list"
    and ctx :: internal_context
    and I :: "plan_state \<Rightarrow> bool"
  assumes principal_only: "I s \<Longrightarrow> principal_of s' = principal_of s \<Longrightarrow> I s'"
    and taken: "I s \<Longrightarrow> om_get (st_lots s) lot = Some current \<Longrightarrow> lot \<noteq> [] \<Longrightarrow>
      consumable (eh_runtime h) op i lot current = Inr n \<Longrightarrow>
      I (snd (take_units (eh_runtime h) op i opening_lots lot current n s))"
    and installed: "I s \<Longrightarrow> om_get (st_lots s) (or_created_lot_id q) = None \<Longrightarrow>
      units_from_amount (eh_runtime h) t (ar_scale (or_asset q)) RM_exact = Inr u \<Longrightarrow> 0 < u \<Longrightarrow>
      lot_from_request (eh_runtime h) ctx op q u ids = Inr c \<Longrightarrow> d = D_create \<or> d = D_return \<Longrightarrow>
      role \<noteq> MR_external_funding \<Longrightarrow> role \<noteq> MR_fee \<Longrightarrow>
      I (snd (install_lot op d role remark (or_created_lot_id q) (apply_output_policy se w c) s))"
    and funded: "I s \<Longrightarrow> funding_amount (eh_runtime h) i = Inr n \<Longrightarrow>
      I (snd (snd (take_funding (eh_runtime h) op i s)))"
begin

lemma same: "principal_of s' = principal_of s \<Longrightarrow> I s' \<longleftrightarrow> I s"
  using principal_only [of s s'] principal_only [of s' s] by metis

lemma refused: "I (snd (refuse r s)) \<longleftrightarrow> I s"
  by (rule same) simp

lemma left_alone: "refuse r s = (ok, s') \<Longrightarrow> I s \<Longrightarrow> I s'"
  using refused [of r s] by simp

lemma logged: "I (on_ledger f s) \<longleftrightarrow> I s" if "\<And>l. books (f l) = books l"
  by (rule same) (simp add: that, simp add: principal_of_def)

lemma consume_one: "I s \<Longrightarrow> I (snd (consume_lot (eh_runtime h) op opening_lots i s))"
  by (auto simp: consume_lot_def refused Let_def falsy_def taken split: option.splits sum.splits prod.splits)

lemma consume_many: "I s \<Longrightarrow> I (snd (consume_all (eh_runtime h) op opening_lots is s))"
proof (induction "is" arbitrary: s)
  case (Cons i "is")
  obtain b s' where c: "consume_lot (eh_runtime h) op opening_lots i s = (b, s')" by fastforce
  with consume_one [OF Cons.prems, of op i] have "I s'" by simp
  then show ?case by (cases b) (use c Cons.IH [of s'] in auto)
qed simp

lemma output_policy_none [simp]: "apply_output_policy None None c = c"
  by (simp add: apply_output_policy_def)

lemma output_added: "I s \<Longrightarrow> I (snd (add_output (eh_runtime h) ctx op funding ids q s))"
  using installed [where d = D_create and role = MR_principal_output and se = None and w = None]
  by (simp add: add_output_def refused Let_def split: option.split sum.split)

lemma derived_added:
  assumes "I s" "d = D_create \<or> d = D_return" "role \<noteq> MR_external_funding" "role \<noteq> MR_fee"
  shows "I (snd (add_derived_output (eh_runtime h) ctx op q t ids d role se w s))"
proof (cases "rbind (derived_units (eh_runtime h) q t (st_lots s)) (\<lambda>u. lot_from_request (eh_runtime h) ctx op q u ids)")
  case (Inl e)
  then show ?thesis using assms(1) by (simp add: add_derived_output_def refused)
next
  case (Inr c)
  then obtain u where "units_from_amount (eh_runtime h) t (ar_scale (or_asset q)) RM_exact = Inr u" "0 < u"
    "om_get (st_lots s) (or_created_lot_id q) = None" "lot_from_request (eh_runtime h) ctx op q u ids = Inr c"
    by (auto simp: derived_units_def Let_def res_simps)
  with Inr assms show ?thesis by (simp add: add_derived_output_def installed)
qed

lemma rolled_back: "I s \<Longrightarrow> grows s s' \<Longrightarrow> I (roll_back s s')"
  by (rule principal_only) (simp_all add: principal_roll_back)

lemma principal_moved: "I s \<Longrightarrow> I (snd (move_principal (eh_runtime h) ctx op opening_lots rule q t settlement s))"
proof -
  assume I: "I s"
  define role where "role = (if op_operation_type op = OT_point_redemption then MR_redemption else MR_transfer)"
  have role: "role \<noteq> MR_external_funding" "role \<noteq> MR_fee" by (simp_all add: role_def)
  obtain b s1 where c: "consume_all (eh_runtime h) op opening_lots (op_asset_inputs op) s = (b, s1)" by fastforce
  have s1: "I s1" "grows s s1"
    using consume_many [OF I, of op "op_asset_inputs op"]
      grows_consume_all [of s "eh_runtime h" op opening_lots "op_asset_inputs op"] c by simp_all
  obtain b2 s2 where d: "add_derived_output (eh_runtime h) ctx op q t [rule_id_of rule] D_create role
      (Some settlement) (er_output rule) s1 = (b2, s2)" by fastforce
  have s2: "I s2" "grows s1 s2"
    using derived_added [OF s1(1) _ role, of D_create op q t "[rule_id_of rule]" "Some settlement" "er_output rule"]
      grows_derived [of s1 "eh_runtime h" ctx op q t "[rule_id_of rule]" D_create role "Some settlement" "er_output rule"] d
    by simp_all
  have reverted: "I (roll_back s s1)" "I (roll_back s s2)"
    using rolled_back [OF I] s1(2) s2(2) grows_trans by blast+
  show ?thesis
    unfolding move_principal_def role_def [symmetric] c prod.case
    by (cases b; cases b2) (simp_all add: d s2 reverted)
qed

lemma rewarded:
  assumes "process_reward_rules h c plan op options (st_ledger s) progress = Inr (valid, p)" "I s"
  shows "I (with_rewards p s)"
proof -
  have "principal_of (with_rewards p s) = principal_of s"
    using books_reward_rules [OF assms(1)] by simp (simp add: principal_of_def)
  with assms(2) show ?thesis by (rule principal_only)
qed

lemma bonus_paid: "transfer_bonus h ctx plan op bonus s = Inr (ok, s') \<Longrightarrow> I s \<Longrightarrow> I s'"
  by (auto simp: transfer_bonus_def res_simps split: if_splits intro: rewarded)

lemma transfer_completed:
  assumes "complete_transfer h ctx plan op opening_lots rule calc q t settlement s = Inr (ok, s')" "I s"
  shows "I s'"
proof (cases "derived_units (eh_runtime h) q t (st_lots s)")
  case (Inl e)
  with assms have "s' = snd (refuse (rule_rejection op (rule_id_of rule) ''invalid_plan'' e) s)"
    by (simp add: complete_transfer_def)
  with assms(2) show ?thesis by (simp add: refused)
next
  case (Inr u)
  obtain b s1 where m: "move_principal (eh_runtime h) ctx op opening_lots rule q t settlement s = (b, s1)" by fastforce
  with principal_moved [OF assms(2), of op rule q t settlement] have s1: "I s1" by simp
  define s2 where "s2 = on_ledger (add_applied_rule (rule_id_of rule))
    (s1\<lparr>st_visited_asset_ids := add_once (ar_asset_id (ts_source_asset calc)) (st_visited_asset_ids s1)\<rparr>)"
  have "principal_of s2 = principal_of s1" unfolding s2_def by simp (simp add: principal_of_def)
  with s1 have s2: "I s2" by (rule principal_only)
  from assms(1) Inr m have "if b then transfer_bonus h ctx plan op (default_to [] (tf_bonus_rule_ids calc)) s2 = Inr (ok, s')
      else s' = s1"
    by (cases b) (simp_all add: complete_transfer_def s2_def)
  with s1 show ?thesis by (auto split: if_splits intro: bonus_paid [OF _ s2])
qed

lemma move_evaluated:
  assumes "evaluate_move h ctx plan op opening_lots rule calc source q s = Inr (ok, s')" "I s"
  shows "I s'"
proof -
  obtain t :: transfer_calculation_result and settlement where
    "(case (tc_status t, tc_destination_amount t) of
         (TS_applied, Some amount) \<Rightarrow> complete_transfer h ctx plan op opening_lots rule calc q amount settlement s
       | _ \<Rightarrow> Inr (refuse (rule_refused op rule
           (if tc_status t = TS_conditional then ''rule_condition_unknown'' else ''rule_condition_failed'')
           (default_to (transfer_status_text (tc_status t)) (tc_reason_code t))) s)) = Inr (ok, s')"
    using assms(1) unfolding evaluate_move_def rbind_Inr_iff by (elim exE conjE) (rule that)
  then show ?thesis
    using left_alone [OF _ assms(2)] transfer_completed [OF _ assms(2)]
    by (cases "tc_status t"; cases "tc_destination_amount t") auto
qed

lemma rule_transferred:
  assumes "transfer_with_rule h ctx plan op opening_lots rule calc s = Inr (ok, s')" "I s"
  shows "I s'"
proof (cases "transfer_shape op calc")
  case None
  with assms show ?thesis by (auto simp: transfer_with_rule_def intro: left_alone)
next
  case (Some x)
  obtain source fee q where x: "x = (source, fee, q)" by (cases x)
  from assms(1) obtain problem where "(case problem of Some r \<Rightarrow> Inr (refuse r s)
      | None \<Rightarrow> evaluate_move h ctx plan op opening_lots rule calc source q s) = Inr (ok, s')"
    unfolding transfer_with_rule_def Some x by (auto simp only: option.case prod.case rbind_Inr_iff)
  then show ?thesis
    using left_alone [OF _ assms(2)] move_evaluated [OF _ assms(2)] by (cases problem) auto
qed

lemma transferred:
  assumes "process_transfer_operation h ctx plan opening_lots op s = Inr (ok, s')" "I s"
  shows "I s'"
proof -
  obtain selected where "(case selected of
         [] \<Rightarrow> Inr (refuse (op_rejection op ''no_matching_rule''
           ''transfer operation requires one applicable transfer-ratio rule'') s)
       | [rule] \<Rightarrow>
           (case er_calculation rule of
              Some (RL_transfer_ratio calc) \<Rightarrow> transfer_with_rule h ctx plan op opening_lots rule calc s
            | _ \<Rightarrow> Inr (False, s))
       | _ \<Rightarrow> Inr (refuse (op_rejection op ''ambiguous_bitemporal_replay''
           ''transfer operation matched multiple transfer-ratio rules'') s)) = Inr (ok, s')"
    using assms(1) unfolding process_transfer_operation_def rbind_Inr_iff by (elim exE conjE) (rule that)
  then show ?thesis
    using assms(2) left_alone [OF _ assms(2)] rule_transferred [OF _ assms(2)]
    by (auto split: list.splits option.splits rule_calculation.splits)
qed

end


context principal_invariant
begin

lemma clicked_out: "I s \<Longrightarrow> I (snd (process_portal_clickout op s))"
  by (simp add: process_portal_clickout_def refused)

lemma corrected:
  assumes "process_lifecycle_operation h ctx plan op s = Inr (ok, s')" "I s"
  shows "I s'"
proof -
  define invalid :: "string \<Rightarrow> (bool \<times> plan_state) res"
    where "invalid message = Inr (refuse (op_rejection op ''invalid_plan'' message) s)" for message
  have refusal: "I s'" if "invalid m = Inr (ok, s')" for m
    using that assms(2) by (auto simp: invalid_def intro: left_alone)
  have settled: "I s'" if "settle_correction (eh_runtime h) op original q t s1 = Inr (ok, s')" "I s1" for original q t s1
    using principal_only [OF that(2) principal_settle [OF that(1)]] .
  define role where "role = (if op_operation_type op = OT_refund then MR_refund else MR_reversal)"
  have role: "role \<noteq> MR_external_funding" "role \<noteq> MR_fee" by (simp_all add: role_def)
  have added: "I s'" if "(case add_derived_output (eh_runtime h) ctx op q t [] D_return role None None s of
      (False, s1) \<Rightarrow> Inr (False, s1)
    | (True, s1) \<Rightarrow> settle_correction (eh_runtime h) op original q t s1) = Inr (ok, s')" for original q t
  proof -
    obtain b s1 where d: "add_derived_output (eh_runtime h) ctx op q t [] D_return role None None s = (b, s1)" by fastforce
    with derived_added [OF assms(2) _ role, of D_return op q t "[]" None None] have "I s1" by simp
    with that d settled show ?thesis by (cases b) auto
  qed
  from assms(1) show ?thesis
    unfolding process_lifecycle_operation_def Let_def role_def [symmetric] invalid_def [symmetric]
    by (auto split: option.splits list.splits if_splits simp: rbind_Inr_iff dest: refusal added)
qed

lemma inputs_taken:
  "take_inputs (eh_runtime h) op opening_lots is funding ok s = (funding', ok', s') \<Longrightarrow> I s \<Longrightarrow> I s'"
proof (induction "is" arbitrary: funding ok s)
  case (Cons i "is")
  define r where "r = (if ai_role i = IR_external_funding then take_funding (eh_runtime h) op i s
    else Pair 0 (consume_lot (eh_runtime h) op opening_lots i s))"
  have f: "I (snd (snd (take_funding (eh_runtime h) op i s)))"
    using Cons.prems(2) funded [of s i] refused [of _ s]
    by (cases "funding_amount (eh_runtime h) i") (simp_all add: take_funding_def)
  have "I (snd (snd r))" unfolding r_def by (simp add: f consume_one Cons.prems(2))
  with Cons show ?case by (cases r) (auto simp: r_def [symmetric])
qed simp

lemma outputs_added: "add_outputs (eh_runtime h) ctx op funding ids qs ok s = (ok', s') \<Longrightarrow> I s \<Longrightarrow> I s'"
proof (induction qs arbitrary: ok s)
  case (Cons q qs)
  have "I (snd (add_output (eh_runtime h) ctx op funding ids q s))" by (rule output_added [OF Cons.prems(2)])
  with Cons show ?case by (auto split: prod.splits)
qed simp

lemma purchase_finished:
  assumes "finish_purchase h ctx plan op funding (b, s) = Inr (ok, s')" "I s"
  shows "I s'"
proof -
  obtain valid p where p: "process_reward_rules h ctx plan op all_rewards (st_ledger s) (st_cap_progress s) = Inr (valid, p)"
    using assms(1) by (fastforce simp: finish_purchase_def rbind_Inr_iff)
  obtain ok1 s1 where o: "add_outputs (eh_runtime h) ctx op funding (py_rule_ids p) (op_output_requests op) (valid \<and> b)
      (with_rewards p s) = (ok1, s1)" by fastforce
  have "I s1" by (rule outputs_added [OF o rewarded [OF p assms(2)]])
  moreover from assms(1) p o have "s' = s1 \<or> (\<exists>n. s' = on_ledger (\<lambda>l. l\<lparr>nl_merchant_value_jpy := n l\<rparr>) s1)"
    by (auto simp: finish_purchase_def split: if_splits)
  ultimately show ?thesis by (auto simp: logged)
qed

lemma purchased:
  assumes "process_purchase h ctx plan opening_lots op s = Inr (ok, s')" "I s"
  shows "I s'"
proof -
  obtain funding b s1 where t: "take_inputs (eh_runtime h) op opening_lots (op_asset_inputs op) 0 True s = (funding, b, s1)"
    by (cases "take_inputs (eh_runtime h) op opening_lots (op_asset_inputs op) 0 True s") auto
  obtain r1 r2 where checks: "funding_check h op funding (b, s1) = Inr r1" "tender_check h op r1 = Inr r2"
    and f: "finish_purchase h ctx plan op funding r2 = Inr (ok, s')"
    using assms(1) t by (auto simp: process_purchase_def rbind_Inr_iff)
  have "I (snd r2)"
    using inputs_taken [OF t assms(2)]
    by (intro principal_only [OF _ principal_checks(2) [OF checks(2)]] principal_only [OF _ principal_checks(1) [OF checks(1)]]) simp
  with f show ?thesis by (cases r2) (auto intro: purchase_finished)
qed

theorem operation_kept:
  "process_operation h ctx plan opening_lots op s = Inr (ok, s') \<Longrightarrow> I s \<Longrightarrow> I s'"
  by (cases "op_operation_type op")
     (auto simp: process_operation_def intro: transferred corrected purchased dest: clicked_out [of s op])

theorem run_kept:
  "run_operations h ctx plan opening_lots ops ok s = Inr (ok', s') \<Longrightarrow> I s \<Longrightarrow> I s'"
  by (induction ops arbitrary: ok s) (auto simp: rbind_Inr_iff split: prod.splits intro: operation_kept)

end


section \<open>Conservation by construction\<close>

context decimal_text
begin

lemma exact_units_representable: "units_from_amount rt a s RM_exact = Inr u \<Longrightarrow> representable (of_int u)"
  by (auto simp: units_from_amount_def decimal_to_bigint_def res_simps dmul_def split: if_splits)
     (metis round_representable)

lemma representable_unshift: "representable x \<Longrightarrow> representable (x / 10 ^ s)"
proof -
  assume "representable x"
  then obtain n e where x: "x = of_int n * 10 powi e" "\<bar>n\<bar> < int dec_limit"
    unfolding representable_def by blast
  have "x / 10 ^ s = of_int n * 10 powi (e - int s)"
    unfolding x(1) by (simp add: power_int_diff)
  with x(2) show ?thesis by (simp only: representable_powi)
qed

text \<open>Any number of units the kernel can hold goes through its text unchanged.\<close>

lemma exact_roundtrip:
  assumes "0 \<le> u" "representable (of_int u)" "0 \<le> s" "s \<le> 18"
  shows "\<exists>a. amount_from_units rt u s = Inr a \<and> units_from_amount rt a s RM_exact = Inr u"
proof -
  let ?x = "(of_nat (nat u) / 10 ^ nat s) :: rat" and ?t = "trim_decimal (fixed_text (nat u) (nat s))"
  have u: "(of_int u :: rat) = of_nat (nat u)" using assms(1) by simp
  have "representable ?x" using representable_unshift [OF assms(2), of "nat s"] by (simp add: u)
  then have d: "ddiv rt (of_int u) (10 ^ nat s) = ?x" by (simp add: ddiv_def round_exact u)
  have m: "dmul rt ?x (10 ^ nat s) = of_int u" using assms(2) by (simp add: dmul_def round_exact u)
  have "amount_from_units rt u s = Inr ?t"
    using assms(1,3,4) d to_fixed_text [of "nat u" "nat s"] by (simp add: amount_from_units_def power10_def)
  moreover have "units_from_amount rt ?t s RM_exact = Inr u"
    using assms m by (simp add: units_from_amount_def power10_def decimal_string_def trim_fixed_text)
  ultimately show ?thesis by blast
qed

lemma quantity_of_units_ok:
  assumes "0 \<le> u" "representable (of_int u)" "0 \<le> ar_scale asset" "ar_scale asset \<le> 18"
  obtains q where "quantity_of_units rt asset u = Inr q" "q_asset q = asset" "readable rt q" "units_of rt q = u"
proof -
  from exact_roundtrip [OF assms] obtain a where
    a: "amount_from_units rt u (ar_scale asset) = Inr a" "units_from_amount rt a (ar_scale asset) RM_exact = Inr u" by blast
  show thesis
    by (rule that [of "\<lparr>q_asset = asset, q_amount = a\<rparr>"])
       (use a in \<open>simp_all add: quantity_of_units_def readable_def units_ok_def units_of_def quantity_in_units_def\<close>)
qed

end

definition lot_ok :: "mutable_lot \<Rightarrow> bool" where
  "lot_ok l \<longleftrightarrow> 0 \<le> ml_units l \<and> ml_units l < int dec_limit \<and> 0 \<le> ar_scale (lot_asset l) \<and> ar_scale (lot_asset l) \<le> 18"

definition in_stock :: "string \<Rightarrow> lots \<Rightarrow> int" where
  "in_stock k m = sum_list (map (\<lambda>l. if asset_bucket (lot_asset l) = k then ml_units l else 0) (map snd m))"

definition balanced :: "runtime \<Rightarrow> asset_lot list \<Rightarrow> plan_state \<Rightarrow> bool" where
  "balanced rt opening_lots s \<longleftrightarrow>
     om_ok (st_lots s) \<and> (\<forall>l\<in>snd ` set (st_lots s). lot_ok l) \<and>
     (\<forall>m\<in>set (movements s). off_ledger m \<or> readable rt (am_quantity m)) \<and>
     (\<forall>k. held rt k opening_lots + moved rt k (movements s) = in_stock k (st_lots s))"

text \<open>Every amount that was moved is below the precision of the kernel.\<close>

definition modest :: "runtime \<Rightarrow> asset_movement list \<Rightarrow> bool" where
  "modest rt ms \<longleftrightarrow> (\<forall>m\<in>set ms. off_ledger m \<or> units_of rt (am_quantity m) < int dec_limit)"

lemma modest_append [simp]: "modest rt (ms @ ms') \<longleftrightarrow> modest rt ms \<and> modest rt ms'"
  by (auto simp: modest_def)

lemma moved_append [simp]: "moved rt k (ms @ ms') = moved rt k ms + moved rt k ms'"
  by (simp add: moved_def)

lemma in_stock_set:
  "in_stock k (om_set i l m) = in_stock k m - (case om_get m i of None \<Rightarrow> 0
     | Some old \<Rightarrow> if asset_bucket (lot_asset old) = k then ml_units old else 0) +
     (if asset_bucket (lot_asset l) = k then ml_units l else 0)"
  by (induction i l m rule: om_set.induct) (auto simp: in_stock_def)

lemma in_stock_delete:
  "om_ok m \<Longrightarrow> in_stock k (om_delete i m) = in_stock k m - (case om_get m i of None \<Rightarrow> 0
     | Some old \<Rightarrow> if asset_bucket (lot_asset old) = k then ml_units old else 0)"
proof (induction m)
  case (Cons p m)
  then show ?case
  proof (cases "fst p = i")
    case True
    with Cons.prems have "om_get m i = None" by (simp add: om_ok_def map_of_eq_None_iff)
    moreover have "om_ok m" using Cons.prems by (simp add: om_ok_def)
    ultimately show ?thesis using Cons.IH True by (simp add: in_stock_def om_delete_def)
  next
    case False
    then show ?thesis using Cons by (cases p) (simp add: in_stock_def om_delete_def om_ok_def)
  qed
qed (simp add: in_stock_def om_delete_def)

lemma om_ok_delete: "om_ok m \<Longrightarrow> om_ok (om_delete i m)"
  unfolding om_ok_def om_delete_def by (rule distinct_map_filter)

lemma om_set_values: "snd ` set (om_set i l m) \<subseteq> insert l (snd ` set m)"
  by (induction i l m rule: om_set.induct) auto

lemma om_delete_values: "snd ` set (om_delete i m) \<subseteq> snd ` set m"
  by (auto simp: om_delete_def)

lemma om_all_set: "\<forall>l\<in>snd ` set m. P l \<Longrightarrow> P l \<Longrightarrow> \<forall>l\<in>snd ` set (om_set i l m). P l"
  using om_set_values [of i l m] by blast

lemma om_all_delete: "\<forall>l\<in>snd ` set m. P l \<Longrightarrow> \<forall>l\<in>snd ` set (om_delete i m). P l"
  using om_delete_values [of i m] by blast

lemma om_all_if:
  "\<forall>l\<in>snd ` set m. P l \<Longrightarrow> \<forall>l\<in>snd ` set m'. P l \<Longrightarrow> \<forall>l\<in>snd ` set (if b then m else m'). P l"
  by simp

lemma om_get_value: "om_get m i = Some l \<Longrightarrow> l \<in> snd ` set m"
  by (force dest: map_of_SomeD)


text \<open>What taking and installing do to the lots and the movements.\<close>

lemma consumable_Inr:
  "consumable rt op i lot current = Inr n \<Longrightarrow>
   0 < n \<and> n \<le> ml_units current \<and> ar_asset_id (lot_asset current) = ar_asset_id (input_asset i) \<and>
   ar_reward_class (lot_asset current) = ar_reward_class (input_asset i) \<and>
   quantity_in_units rt (ai_quantity i) = Inr n \<and> expired_at rt op (ml_lot current) = Inr False \<and>
   \<not> not_payable i (ml_lot current)"
  by (auto simp: consumable_def input_asset_def Let_def split: if_splits sum.splits)

lemma consumption_role_on_ledger [simp]:
  "consumption_role r \<noteq> MR_external_funding"
  by (simp add: consumption_role_def split: input_role.split)

definition taken_movement ::
    "operation \<Rightarrow> asset_input \<Rightarrow> string \<Rightarrow> quantity \<Rightarrow> nat \<Rightarrow> asset_movement" where
  "taken_movement op i lot q n = movement op D_consume (consumption_role (ai_role i)) q (Some lot) None n
     ''Consumed from an existing asset lot.''"

context decimal_text
begin

lemma take_units_ok:
  assumes l: "lot_ok current" and n: "0 < n" "n \<le> ml_units current"
  obtains q rest where "q_asset q = lot_asset current" "readable rt q" "units_of rt q = n"
    "q_asset rest = lot_asset current"
    "movements (snd (take_units rt op i ids lot current n s)) = movements s @ [taken_movement op i lot q (st_movement_index s)]"
    "st_movement_index (snd (take_units rt op i ids lot current n s)) = Suc (st_movement_index s)"
    "st_lots (snd (take_units rt op i ids lot current n s)) =
      (if ml_units current = n then om_delete lot (om_set lot (current\<lparr>ml_units := 0\<rparr>) (st_lots s))
       else om_set lot (with_units rest (current\<lparr>ml_units := ml_units current - n\<rparr>))
         (om_set lot (current\<lparr>ml_units := ml_units current - n\<rparr>) (st_lots s)))"
    "fst (take_units rt op i ids lot current n s)"
proof -
  have r: "representable (of_int m)" if "0 \<le> m" "m \<le> ml_units current" for m
    by (rule representable_int) (use that l in \<open>simp add: lot_ok_def\<close>)
  have sc: "0 \<le> ar_scale (lot_asset current)" "ar_scale (lot_asset current) \<le> 18" using l by (simp_all add: lot_ok_def)
  obtain q where q: "quantity_of_units rt (lot_asset current) n = Inr q" "q_asset q = lot_asset current"
    "readable rt q" "units_of rt q = n"
    using quantity_of_units_ok [OF _ r sc, of n] n by auto
  obtain rest where rest: "quantity_of_units rt (lot_asset current) (ml_units current - n) = Inr rest"
    "q_asset rest = lot_asset current"
    using quantity_of_units_ok [OF _ r sc, of "ml_units current - n"] n by auto
  show thesis
    by (rule that [of q rest])
       (use q rest n in \<open>simp_all add: take_units_def Let_def push_movement_def on_ledger_def taken_movement_def\<close>)
qed

end


definition conserving :: "runtime \<Rightarrow> asset_lot list \<Rightarrow> plan_state \<Rightarrow> bool" where
  "conserving rt opening_lots s \<longleftrightarrow> modest rt (movements s) \<longrightarrow> balanced rt opening_lots s"

lemma balanced_cong:
  "st_lots s' = st_lots s \<Longrightarrow> movements s' = movements s \<Longrightarrow> balanced rt ls s' \<longleftrightarrow> balanced rt ls s"
  by (simp add: balanced_def)

lemma principal_parts:
  assumes "principal_of s' = principal_of s"
  shows "st_lots s' = st_lots s" "movements s' = movements s" "st_movement_index s' = st_movement_index s"
    "nl_opening_consumed (st_ledger s') = nl_opening_consumed (st_ledger s)"
    "nl_external_funding_jpy (st_ledger s') = nl_external_funding_jpy (st_ledger s)"
  using assms by (simp_all add: principal_of_def books_def)

lemma taken_movement_simps [simp]:
  "am_quantity (taken_movement op i lot q n) = q" "\<not> off_ledger (taken_movement op i lot q n)"
  "movement_sign (taken_movement op i lot q n) = -1"
  by (simp_all add: taken_movement_def movement_def off_ledger_def movement_sign_def)

lemma moved_one: "\<not> off_ledger m \<Longrightarrow> moved rt k [m] =
    (if asset_bucket (q_asset (am_quantity m)) = k then movement_sign m * units_of rt (am_quantity m) else 0)"
  by (simp add: moved_def)

lemma lot_asset_simps [simp]:
  "lot_asset (l\<lparr>ml_units := n\<rparr>) = lot_asset l" "lot_asset (with_units q l) = q_asset q"
  "ml_units (with_units q l) = ml_units l"
  by (simp_all add: lot_asset_def with_units_def)

context decimal_text
begin

lemma taken_balanced:
  assumes b: "balanced rt ls s" and l: "om_get (st_lots s) lot = Some current"
    and n: "consumable rt op i lot current = Inr n"
  shows "balanced rt ls (snd (take_units rt op i ids lot current n s))" (is "balanced rt ls ?s")
proof -
  have ok: "lot_ok current" using b om_get_value [OF l] by (auto simp: balanced_def)
  have n': "0 < n" "n \<le> ml_units current" using consumable_Inr [OF n] by simp_all
  from take_units_ok [OF ok n', of op i ids lot s] obtain q rest where
    q: "q_asset q = lot_asset current" "readable rt q" "units_of rt q = n" and rest: "q_asset rest = lot_asset current"
    and ms: "movements ?s = movements s @ [taken_movement op i lot q (st_movement_index s)]"
    and lots: "st_lots ?s = (if ml_units current = n then om_delete lot (om_set lot (current\<lparr>ml_units := 0\<rparr>) (st_lots s))
       else om_set lot (with_units rest (current\<lparr>ml_units := ml_units current - n\<rparr>))
         (om_set lot (current\<lparr>ml_units := ml_units current - n\<rparr>) (st_lots s)))"
    by metis
  have om: "om_ok (st_lots s)" using b by (simp add: balanced_def)
  have stock: "in_stock k (st_lots ?s) = in_stock k (st_lots s) - (if asset_bucket (lot_asset current) = k then n else 0)" for k
    unfolding lots by (simp add: in_stock_set in_stock_delete om_ok_set om om_get_set l rest)
  have "lot_ok (with_units rest (current\<lparr>ml_units := ml_units current - n\<rparr>))"
    "lot_ok (current\<lparr>ml_units := ml_units current - n\<rparr>)" "lot_ok (current\<lparr>ml_units := 0\<rparr>)"
    using ok n' by (simp_all add: lot_ok_def rest)
  then have "\<forall>l\<in>snd ` set (st_lots ?s). lot_ok l"
    unfolding lots by (intro om_all_if om_all_set om_all_delete) (use b in \<open>simp_all add: balanced_def\<close>)
  moreover have "om_ok (st_lots ?s)" unfolding lots by (simp add: om om_ok_set om_ok_delete)
  ultimately show ?thesis using b q by (simp add: balanced_def stock ms moved_one)
qed

end

lemma policy_simps [simp]:
  "al_quantity (ml_lot (apply_output_policy se w c)) = al_quantity (ml_lot c)"
  "ml_units (apply_output_policy se w c) = ml_units c" "lot_asset (apply_output_policy se w c) = lot_asset c"
  by (simp_all add: apply_output_policy_def Let_def lot_asset_def split: option.splits)

lemma install_lot_simps [simp]:
  "st_lots (snd (install_lot op d role notes lot c s)) = om_set lot c (st_lots s)"
  "movements (snd (install_lot op d role notes lot c s)) =
     movements s @ [movement op d role (al_quantity (ml_lot c)) None (Some lot) (st_movement_index s) notes]"
  "st_movement_index (snd (install_lot op d role notes lot c s)) = Suc (st_movement_index s)"
  "nl_opening_consumed (st_ledger (snd (install_lot op d role notes lot c s))) = nl_opening_consumed (st_ledger s)"
  "nl_external_funding_jpy (st_ledger (snd (install_lot op d role notes lot c s))) = nl_external_funding_jpy (st_ledger s)"
  by (simp_all add: install_lot_def)

context decimal_text
begin

lemma request_lot_ok:
  assumes "lot_from_request rt ctx op q u ids = Inr c" "units_from_amount rt t (ar_scale (or_asset q)) RM_exact = Inr u" "0 < u"
  shows "lot_asset c = or_asset q" "ml_units c = u" "readable rt (al_quantity (ml_lot c))"
    "units_of rt (al_quantity (ml_lot c)) = u" "0 \<le> ar_scale (or_asset q)" "ar_scale (or_asset q) \<le> 18"
proof -
  have sc: "0 \<le> ar_scale (or_asset q)" "ar_scale (or_asset q) \<le> 18"
    using assms(2) by (auto simp: units_from_amount_def res_simps)
  obtain w where "quantity_of_units rt (or_asset q) u = Inr w" "q_asset w = or_asset q" "readable rt w" "units_of rt w = u"
    using quantity_of_units_ok [OF _ exact_units_representable [OF assms(2)] sc] assms(3) by auto
  with assms(1) sc show "lot_asset c = or_asset q" "ml_units c = u" "readable rt (al_quantity (ml_lot c))"
    "units_of rt (al_quantity (ml_lot c)) = u" "0 \<le> ar_scale (or_asset q)" "ar_scale (or_asset q) \<le> 18"
    by (auto simp: lot_from_request_def lot_asset_def Let_def)
qed

end

context decimal_text
begin

lemma installed_balanced:
  assumes b: "balanced rt ls s" and new: "om_get (st_lots s) lot = None"
    and c: "readable rt (al_quantity (ml_lot c))" "units_of rt (al_quantity (ml_lot c)) = ml_units c" "0 < ml_units c"
    and sc: "0 \<le> ar_scale (lot_asset c)" "ar_scale (lot_asset c) \<le> 18"
    and d: "d = D_create \<or> d = D_return" and role: "role \<noteq> MR_external_funding" "role \<noteq> MR_fee"
    and small: "modest rt (movements (snd (install_lot op d role notes lot c s)))"
  shows "balanced rt ls (snd (install_lot op d role notes lot c s))"
proof -
  define m where "m = movement op d role (al_quantity (ml_lot c)) None (Some lot) (st_movement_index s) notes"
  have on: "\<not> off_ledger m" and am: "am_quantity m = al_quantity (ml_lot c)" and sign: "movement_sign m = 1"
    using role d by (auto simp: m_def off_ledger_def movement_def movement_sign_def)
  have ms: "movements (snd (install_lot op d role notes lot c s)) = movements s @ [m]" by (simp add: m_def)
  have u: "ml_units c < int dec_limit" using small on unfolding ms by (simp add: modest_def am c)
  have "moved rt k [m] = (if asset_bucket (lot_asset c) = k then ml_units c else 0)" for k
    by (simp add: moved_one [OF on] am sign c lot_asset_def)
  moreover have "in_stock k (om_set lot c (st_lots s)) =
      in_stock k (st_lots s) + (if asset_bucket (lot_asset c) = k then ml_units c else 0)" for k
    by (simp add: in_stock_set new)
  moreover have "lot_ok c" using u c sc by (simp add: lot_ok_def)
  then have "\<forall>l\<in>snd ` set (om_set lot c (st_lots s)). lot_ok l"
    using b by (intro om_all_set) (simp_all add: balanced_def)
  ultimately show ?thesis
    using b c(1) unfolding balanced_def ms by (simp add: om_ok_set am)
qed

end


lemma conserving_invariant:
  assumes "decimal_text (eh_runtime h)"
  shows "principal_invariant h ids ctx (conserving (eh_runtime h) ls)"
proof
  fix s s' assume s: "conserving (eh_runtime h) ls s" "principal_of s' = principal_of s"
  note eqs = principal_parts [OF s(2)]
  show "conserving (eh_runtime h) ls s'"
    using s(1) balanced_cong [OF eqs(1,2)] by (simp add: conserving_def eqs(2))
next
  fix s lot current op i n
  assume s: "conserving (eh_runtime h) ls s" and l: "om_get (st_lots s) lot = Some current"
    and n: "consumable (eh_runtime h) op i lot current = Inr n"
  show "conserving (eh_runtime h) ls (snd (take_units (eh_runtime h) op i ids lot current n s))"
    unfolding conserving_def
  proof
    assume "modest (eh_runtime h) (movements (snd (take_units (eh_runtime h) op i ids lot current n s)))"
    with grows_take [of s "eh_runtime h" op i ids lot current n] have "modest (eh_runtime h) (movements s)"
      by (auto simp: grows_def)
    with s show "balanced (eh_runtime h) ls (snd (take_units (eh_runtime h) op i ids lot current n s))"
      by (intro decimal_text.taken_balanced [OF assms _ l n]) (simp add: conserving_def)
  qed
next
  fix s :: plan_state and q :: output_request and t u op rule_ids c d role remark se w
  assume s: "conserving (eh_runtime h) ls s" and new: "om_get (st_lots s) (or_created_lot_id q) = None"
    and u: "units_from_amount (eh_runtime h) t (ar_scale (or_asset q)) RM_exact = Inr u" "0 < u"
    and c: "lot_from_request (eh_runtime h) ctx op q u rule_ids = Inr c" and d: "d = D_create \<or> d = D_return"
    and role: "role \<noteq> MR_external_funding" "role \<noteq> MR_fee"
  note r = decimal_text.request_lot_ok [OF assms c u]
  show "conserving (eh_runtime h) ls (snd (install_lot op d role remark (or_created_lot_id q) (apply_output_policy se w c) s))"
    unfolding conserving_def
    by (intro impI decimal_text.installed_balanced [OF assms _ new _ _ _ _ _ d role])
       (use s u r in \<open>simp_all add: conserving_def\<close>)
next
  fix s i n op
  assume s: "conserving (eh_runtime h) ls s" and n: "funding_amount (eh_runtime h) i = Inr n"
  have off: "off_ledger (movement op D_consume MR_external_funding q None None j remark)" for q j remark
    by (simp add: off_ledger_def movement_def)
  then have m: "moved (eh_runtime h) k [movement op D_consume MR_external_funding q None None j remark] = 0" for k q j remark
    by (simp add: moved_def)
  show "conserving (eh_runtime h) ls (snd (snd (take_funding (eh_runtime h) op i s)))"
    using s n by (auto simp: conserving_def take_funding_def balanced_def on_ledger_def off m push_movement_def)
qed

section \<open>Numbering\<close>

definition numbered :: "plan_state \<Rightarrow> bool" where
  "numbered s \<longleftrightarrow> st_movement_index s = length (movements s) \<and>
     (\<forall>j<length (movements s). \<exists>p. am_movement_id (movements s ! j) = p @ ''_'' @ nat_text j)"

lemma numbered_cong: "principal_of s' = principal_of s \<Longrightarrow> numbered s' \<longleftrightarrow> numbered s"
  by (simp add: numbered_def principal_parts(2,3) [of s' s])

lemma numbered_lots [simp]: "numbered (s\<lparr>st_lots := m\<rparr>) \<longleftrightarrow> numbered s"
  by (simp add: numbered_def)

lemma numbered_books [simp]:
  "numbered (on_ledger (\<lambda>l. l\<lparr>nl_opening_consumed := ns l\<rparr>) s) \<longleftrightarrow> numbered s"
  "numbered (on_ledger (\<lambda>l. l\<lparr>nl_external_funding_jpy := x l\<rparr>) s) \<longleftrightarrow> numbered s"
  by (simp_all add: numbered_def on_ledger_def)

lemma numbered_push: "numbered s \<Longrightarrow> numbered (push_movement op d role q a b notes s)"
  unfolding numbered_def push_movement_simps
  by (auto simp: nth_append less_Suc_eq movement_def intro: exI [of _ "''mov_'' @ strip_prefix ''op_'' (op_operation_id op)"])

lemma numbered_refuse [simp]: "numbered (snd (refuse r s)) \<longleftrightarrow> numbered s"
  by (rule numbered_cong) simp

interpretation numbering: principal_invariant h ids ctx numbered for h ids ctx
proof
  show "numbered s'" if "numbered s" "principal_of s' = principal_of s" for s s'
    using that numbered_cong by blast
  show "numbered (snd (take_units (eh_runtime h) op i ids lot current n s))" if "numbered s" for s lot current op i n
    using that by (simp add: take_units_def Let_def numbered_push split: sum.split)
  show "numbered (snd (install_lot op d role remark (or_created_lot_id q) (apply_output_policy se w c) s))"
    if "numbered s" for s :: plan_state and q :: output_request and op c d role remark se w
    using that by (simp add: install_lot_def numbered_push)
  show "numbered (snd (snd (take_funding (eh_runtime h) op i s)))" if "numbered s" for s op i
    using that by (simp add: take_funding_def numbered_push split: sum.split)
qed


section \<open>External funding is what the movements say\<close>

definition funding_jpy :: "runtime \<Rightarrow> asset_movement \<Rightarrow> int" where
  "funding_jpy rt m = (if am_movement_role m = MR_external_funding then
     (case rt_parse rt (q_amount (am_quantity m)) of DecFinite _ x \<Rightarrow> \<lfloor>x\<rfloor> | _ \<Rightarrow> 0) else 0)"

definition funding_recorded :: "runtime \<Rightarrow> plan_state \<Rightarrow> bool" where
  "funding_recorded rt s \<longleftrightarrow> nl_external_funding_jpy (st_ledger s) = sum_list (map (funding_jpy rt) (movements s))"

lemma funding_recorded_simps [simp]:
  "funding_recorded rt (s\<lparr>st_lots := m\<rparr>) \<longleftrightarrow> funding_recorded rt s"
  "funding_recorded rt (on_ledger (\<lambda>l. l\<lparr>nl_opening_consumed := ns l\<rparr>) s) \<longleftrightarrow> funding_recorded rt s"
  "funding_recorded rt (snd (refuse r s)) \<longleftrightarrow> funding_recorded rt s"
  by (simp_all add: funding_recorded_def on_ledger_def refuse_def add_rejection_def)

lemma funding_recorded_push:
  "role \<noteq> MR_external_funding \<Longrightarrow>
   funding_recorded rt (push_movement op d role q a b remark s) \<longleftrightarrow> funding_recorded rt s"
  by (simp add: funding_recorded_def funding_jpy_def movement_def)

interpretation funding: principal_invariant h ids ctx "funding_recorded (eh_runtime h)" for h ids ctx
proof
  show "funding_recorded (eh_runtime h) s'" if "funding_recorded (eh_runtime h) s" "principal_of s' = principal_of s" for s s'
    using that principal_parts [OF that(2)] by (simp add: funding_recorded_def)
  show "funding_recorded (eh_runtime h) (snd (take_units (eh_runtime h) op i ids lot current n s))"
    if "funding_recorded (eh_runtime h) s" for s lot current op i n
    using that by (simp add: take_units_def Let_def funding_recorded_push split: sum.split)
  show "funding_recorded (eh_runtime h)
      (snd (install_lot op d role remark (or_created_lot_id q) (apply_output_policy se w c) s))"
    if "funding_recorded (eh_runtime h) s" "role \<noteq> MR_external_funding"
    for s :: plan_state and q :: output_request and op c d role remark se w
    using that by (simp add: install_lot_def funding_recorded_push)
  show "funding_recorded (eh_runtime h) (snd (snd (take_funding (eh_runtime h) op i s)))"
    if s: "funding_recorded (eh_runtime h) s" and n: "funding_amount (eh_runtime h) i = Inr n" for s op i n
  proof -
    from n obtain neg x where x: "rt_parse (eh_runtime h) (q_amount (ai_quantity i)) = DecFinite neg x" "n = \<lfloor>x\<rfloor>"
      unfolding funding_amount_def decimal_def
      by (cases "rt_parse (eh_runtime h) (q_amount (ai_quantity i))") (auto simp: res_simps split: if_splits)
    with s n show ?thesis
      by (simp add: take_funding_def funding_recorded_def on_ledger_def push_movement_def funding_jpy_def movement_def)
  qed
qed

section \<open>What was consumed from the opening lots\<close>

definition asset_key :: "asset_ref \<Rightarrow> string \<times> reward_class option \<times> int" where
  "asset_key a = (ar_asset_id a, ar_reward_class a, ar_scale a)"

definition opening_spent :: "runtime \<Rightarrow> string list \<Rightarrow> asset_ref \<Rightarrow> asset_movement list \<Rightarrow> int" where
  "opening_spent rt ids a ms = (\<Sum>m\<leftarrow>filter (\<lambda>m. am_direction m = D_consume \<and>
     am_source_lot_id m \<in> Some ` set ids \<and> asset_key (q_asset (am_quantity m)) = asset_key a) ms. units_of rt (am_quantity m))"

definition reported :: "asset_ref \<Rightarrow> native_quantity list \<Rightarrow> int" where
  "reported a ns = (\<Sum>n\<leftarrow>filter (same_native a) ns. nq_units n)"

definition spending :: "runtime \<Rightarrow> string list \<Rightarrow> asset_lot list \<Rightarrow> plan_state \<Rightarrow> bool" where
  "spending rt ids ls s \<longleftrightarrow> conserving rt ls s \<and> (modest rt (movements s) \<longrightarrow>
     (\<forall>a. reported a (nl_opening_consumed (st_ledger s)) = opening_spent rt ids a (movements s)))"

lemma opening_spent_append [simp]:
  "opening_spent rt ids a (ms @ ms') = opening_spent rt ids a ms + opening_spent rt ids a ms'"
  by (simp add: opening_spent_def)

lemma same_native_key: "same_native a n \<longleftrightarrow> asset_key a = (nq_asset_id n, nq_reward_class n, nq_scale n)"
  by (auto simp: same_native_def asset_key_def)

lemma reported_add:
  "reported b (add_native_quantity a n ns) = reported b ns + (if asset_key a = asset_key b then n else 0)"
proof -
  have "reported b (add_to_first a n ns) = reported b ns + (if asset_key a = asset_key b then n else 0)"
    by (induction ns) (auto simp: reported_def same_native_key native_quantity_of_def asset_key_def)
  then show ?thesis by (auto simp: add_native_quantity_def)
qed

lemma take_units_opening:
  "quantity_of_units rt (lot_asset current) n = Inr q \<Longrightarrow>
   nl_opening_consumed (st_ledger (snd (take_units rt op i ids lot current n s))) =
     (if lot \<in> set ids then add_native_quantity (lot_asset current) n (nl_opening_consumed (st_ledger s))
      else nl_opening_consumed (st_ledger s))"
  by (simp add: take_units_def Let_def refuse_def add_rejection_def on_ledger_def push_movement_def split: sum.split)


text \<open>Only a consumption changes what is reported.\<close>

lemma opening_spent_movement:
  "opening_spent rt ids a [movement op d role q src dst j remark] =
     (if d = D_consume \<and> src \<in> Some ` set ids \<and> asset_key (q_asset q) = asset_key a then units_of rt q else 0)"
  by (simp add: opening_spent_def movement_def)

lemma spending_invariant:
  assumes dt: "decimal_text (eh_runtime h)"
  shows "principal_invariant h ids ctx (spending (eh_runtime h) ids ls)"
proof
  note c = conserving_invariant [OF dt, of ids ctx ls]
  show "spending (eh_runtime h) ids ls s'" if "spending (eh_runtime h) ids ls s" "principal_of s' = principal_of s" for s s'
    using that principal_parts [OF that(2)] principal_invariant.principal_only [OF c _ that(2)]
    by (simp add: spending_def)
  show "spending (eh_runtime h) ids ls (snd (install_lot op d role remark (or_created_lot_id q) (apply_output_policy se w k) s))"
    if s: "spending (eh_runtime h) ids ls s" and d: "d = D_create \<or> d = D_return"
      and inst: "om_get (st_lots s) (or_created_lot_id q) = None"
        "units_from_amount (eh_runtime h) t (ar_scale (or_asset q)) RM_exact = Inr u" "0 < u"
        "lot_from_request (eh_runtime h) ctx op q u rs = Inr k"
        "role \<noteq> MR_external_funding" "role \<noteq> MR_fee"
    for s :: plan_state and q :: output_request and op d role remark se w k u t rs
    using s principal_invariant.installed [OF c _ inst(1-4) d inst(5,6), where remark = remark and se = se and w = w] d
    by (auto simp: spending_def opening_spent_movement)
  show "spending (eh_runtime h) ids ls (snd (snd (take_funding (eh_runtime h) op i s)))"
    if s: "spending (eh_runtime h) ids ls s" and n: "funding_amount (eh_runtime h) i = Inr n" for s op i n
    using s n principal_invariant.funded [OF c _ n, of s op]
    by (auto simp: spending_def opening_spent_movement take_funding_def push_movement_def on_ledger_def)
  fix s lot current op i n
  assume s: "spending (eh_runtime h) ids ls s" and l: "om_get (st_lots s) lot = Some current"
    and lot: "lot \<noteq> []" and n: "consumable (eh_runtime h) op i lot current = Inr n"
  let ?s = "snd (take_units (eh_runtime h) op i ids lot current n s)"
  have "reported a (nl_opening_consumed (st_ledger ?s)) = opening_spent (eh_runtime h) ids a (movements ?s)"
    if m: "modest (eh_runtime h) (movements ?s)" for a
  proof -
    have m0: "modest (eh_runtime h) (movements s)"
      using m grows_take [of s "eh_runtime h" op i ids lot current n] by (auto simp: grows_def)
    with s have "balanced (eh_runtime h) ls s" by (simp add: spending_def conserving_def)
    with om_get_value [OF l] have ok: "lot_ok current" by (auto simp: balanced_def)
    have n': "0 < n" "n \<le> ml_units current" using consumable_Inr [OF n] by simp_all
    obtain q where q: "quantity_of_units (eh_runtime h) (lot_asset current) n = Inr q"
      "q_asset q = lot_asset current" "units_of (eh_runtime h) q = n"
      using decimal_text.quantity_of_units_ok [OF dt, of n "lot_asset current"] representable_int [of n] ok n'
      by (auto simp: lot_ok_def)
    obtain q' where q': "q_asset q' = lot_asset current" "units_of (eh_runtime h) q' = n"
      "movements ?s = movements s @ [taken_movement op i lot q' (st_movement_index s)]"
      using decimal_text.take_units_ok [OF dt ok n', of op i ids lot s] by metis
    show ?thesis
      using s m0 q' unfolding take_units_opening [OF q(1)] spending_def
      by (auto simp: reported_add taken_movement_def opening_spent_movement)
  qed
  with s principal_invariant.taken [OF c _ l lot n] show "spending (eh_runtime h) ids ls ?s"
    by (simp add: spending_def)
qed

end
