(* ===== verification/Plan_Theorems.thy ===== *)
theory Plan_Theorems
  imports Plan_Laws
begin

text \<open>
  What the evaluation of a plan guarantees: the states it can reach, the balance of its books, and
  what its operations do or refuse to do.
\<close>

section \<open>Reachable states\<close>

inductive reachable :: "engine_host \<Rightarrow> internal_context \<Rightarrow> purchase_plan \<Rightarrow> plan_state \<Rightarrow> bool"
  for h :: engine_host and ctx :: internal_context and plan :: purchase_plan where
  start: "initial_lots (eh_runtime h) ctx = Inr lots \<Longrightarrow> reachable h ctx plan (initial_state ctx lots)"
| step: "reachable h ctx plan s \<Longrightarrow> op \<in> set (pp_operations plan) \<Longrightarrow>
    process_operation h ctx plan (opening_ids ctx) op s = Inr (ok, s') \<Longrightarrow> reachable h ctx plan s'"

lemma run_reachable:
  "run_operations h ctx plan (opening_ids ctx) ops ok s = Inr (ok', s') \<Longrightarrow> set ops \<subseteq> set (pp_operations plan) \<Longrightarrow>
   reachable h ctx plan s \<Longrightarrow> reachable h ctx plan s'"
proof (induction ops arbitrary: ok s)
  case (Cons op ops)
  then obtain ok1 s1 where s1: "process_operation h ctx plan (opening_ids ctx) op s = Inr (ok1, s1)"
    "run_operations h ctx plan (opening_ids ctx) ops (ok1 \<and> ok) s1 = Inr (ok', s')"
    by (auto simp: rbind_Inr_iff)
  moreover have "reachable h ctx plan s1" using Cons.prems s1(1) by (auto intro: reachable.step)
  ultimately show ?case using Cons by auto
qed simp

context principal_invariant
begin

lemma reachable_kept:
  assumes "reachable h ctx plan s" "opening_lots = opening_ids ctx"
    and "\<And>lots. initial_lots (eh_runtime h) ctx = Inr lots \<Longrightarrow> I (initial_state ctx lots)"
  shows "I s"
  using assms by (induction rule: reachable.induct) (auto intro: operation_kept)

end

text \<open>The end of an evaluation is a reachable state.\<close>

lemma evaluated:
  assumes "evaluate_native_plan h contracts plan options = Inr r"
  obtains ok s where "reachable h (make_internal_context options) plan s"
    "close_plan (eh_runtime h) (make_internal_context options) plan (ok, s) = Inr r"
proof -
  let ?ctx = "make_internal_context options"
  from assms have "evaluate_valid_plan h ?ctx plan = Inr r"
    by (auto simp: evaluate_native_plan_def Let_def thrown_def split: sum.splits)
  then obtain lots ok s where lots: "initial_lots (eh_runtime h) ?ctx = Inr lots"
    and run: "run_operations h ?ctx plan (opening_ids ?ctx) (by_sequence (pp_operations plan)) True (initial_state ?ctx lots) = Inr (ok, s)"
    and close: "close_plan (eh_runtime h) ?ctx plan (ok, s) = Inr r"
    unfolding evaluate_valid_plan_def rbind_Inr_iff by fast
  have "reachable h ?ctx plan s"
    by (rule run_reachable [OF run _ reachable.start [OF lots]]) (simp add: by_sequence_def)
  then show thesis using close by (rule that)
qed

section \<open>The books at the start and at the end\<close>

context decimal_text
begin

lemma units_from_amount_nonneg: "units_from_amount rt a scale mode = Inr n \<Longrightarrow> 0 \<le> n"
  by (auto simp: units_from_amount_def res_simps intro!: decimal_to_bigint_nonneg dmul_nonneg text_value_nonneg)

lemma initial_lots_ok:
  assumes "initial_lots_from rt ls m = Inr m'" "om_ok m"
    and "\<forall>l\<in>set ls. units_of rt (al_quantity l) < int dec_limit" "\<forall>l\<in>snd ` set m. lot_ok l"
  shows "om_ok m' \<and> (\<forall>l\<in>snd ` set m'. lot_ok l) \<and> (\<forall>k. in_stock k m' = in_stock k m + held rt k ls)"
  using assms
proof (induction ls arbitrary: m)
  case (Cons l ls)
  let ?l = "\<lambda>n. \<lparr>ml_lot = l, ml_units = n, ml_scale = ar_scale (q_asset (al_quantity l)), ml_created_in_plan = False\<rparr>"
  from Cons.prems(1) obtain n where n: "quantity_in_units rt (al_quantity l) = Inr n"
    and new: "om_get m (al_lot_id l) = None" and run: "initial_lots_from rt ls (om_set (al_lot_id l) (?l n) m) = Inr m'"
    by (auto simp: rbind_Inr_iff split: if_splits)
  have u: "units_of rt (al_quantity l) = n" using n by (simp add: units_of_def)
  obtain a where a: "units_from_amount rt a (ar_scale (q_asset (al_quantity l))) RM_exact = Inr n"
    using n by (auto simp: quantity_in_units_def)
  have "0 \<le> n" by (rule units_from_amount_nonneg [OF a])
  moreover have "0 \<le> ar_scale (q_asset (al_quantity l))" "ar_scale (q_asset (al_quantity l)) \<le> 18"
    using a by (auto simp: units_from_amount_def res_simps)
  ultimately have "lot_ok (?l n)" using Cons.prems(3) u by (simp add: lot_ok_def lot_asset_def)
  then have l: "\<forall>l\<in>snd ` set (om_set (al_lot_id l) (?l n) m). lot_ok l" using Cons.prems(4) by (rule om_all_set [rotated])
  have "in_stock k (om_set (al_lot_id l) (?l n) m) = in_stock k m + held rt k [l]" for k
    by (simp add: in_stock_set new held_def u lot_asset_def)
  moreover have "held rt k (l # ls) = held rt k [l] + held rt k ls" for k by (simp add: held_def)
  ultimately show ?case
    using Cons.IH [OF run om_ok_set [OF Cons.prems(2)] _ l] Cons.prems(3) by simp
qed (simp add: held_def)

lemma initial_balanced:
  assumes "initial_lots rt ctx = Inr lots" "\<forall>l\<in>set (ic_opening_lots ctx). units_of rt (al_quantity l) < int dec_limit"
  shows "balanced rt (ic_opening_lots ctx) (initial_state ctx lots)"
  using initial_lots_ok [of "ic_opening_lots ctx" "[]" lots] assms
  by (simp add: initial_lots_def balanced_def initial_state_def zero_ledger_def moved_def in_stock_def)


lemma ending_lot_ok:
  assumes "lot_ok l"
  obtains e where "ending_lot rt l = Inr e" "q_asset (al_quantity e) = lot_asset l" "readable rt (al_quantity e)"
    "units_of rt (al_quantity e) = ml_units l"
proof -
  obtain q where "quantity_of_units rt (lot_asset l) (ml_units l) = Inr q" "q_asset q = lot_asset l" "readable rt q"
    "units_of rt q = ml_units l"
    using quantity_of_units_ok [of "ml_units l" "lot_asset l"] representable_int [of "ml_units l"] assms
    by (auto simp: lot_ok_def)
  then show thesis by (intro that [of "(ml_lot l)\<lparr>al_quantity := q\<rparr>"]) (simp_all add: ending_lot_def)
qed

lemma ending_lots_ok:
  assumes "\<forall>l\<in>set ls. lot_ok l"
  shows "\<exists>es. traverse (ending_lot rt) ls = Inr es \<and> (\<forall>e\<in>set es. readable rt (al_quantity e)) \<and>
    (\<forall>k. held rt k es = sum_list (map (\<lambda>l. if asset_bucket (lot_asset l) = k then ml_units l else 0) ls))"
  using assms
proof (induction ls)
  case (Cons l ls)
  then obtain es where es: "traverse (ending_lot rt) ls = Inr es" "\<forall>e\<in>set es. readable rt (al_quantity e)"
    "\<forall>k. held rt k es = sum_list (map (\<lambda>l. if asset_bucket (lot_asset l) = k then ml_units l else 0) ls)" by auto
  obtain e where e: "ending_lot rt l = Inr e" "q_asset (al_quantity e) = lot_asset l" "readable rt (al_quantity e)"
    "units_of rt (al_quantity e) = ml_units l" using Cons.prems ending_lot_ok [of l] by auto
  have "held rt k (e # es) = (if asset_bucket (lot_asset l) = k then ml_units l else 0) + held rt k es" for k
    by (simp add: held_def e)
  with es e show ?case by simp
qed (simp add: held_def)

lemma close_balanced:
  assumes "balanced rt ls s"
  obtains es where "ending_lots rt (st_lots s) = Inr es" "validate_conservation rt ls (movements s) es = Inr ()
     \<longleftrightarrow> (\<forall>l\<in>set ls. readable rt (al_quantity l))"
proof -
  define live where "live = filter (\<lambda>l. 0 < ml_units l) (map snd (st_lots s))"
  have ok: "\<forall>l\<in>set (sort_cmp (cmp_on (al_lot_id \<circ> ml_lot) (rt_locale_compare rt)) live). lot_ok l"
    using assms by (auto simp: live_def balanced_def)
  obtain es where es: "ending_lots rt (st_lots s) = Inr es" "\<forall>e\<in>set es. readable rt (al_quantity e)"
    and held: "\<And>k. held rt k es = sum_list (map (\<lambda>l. if asset_bucket (lot_asset l) = k then ml_units l else 0)
      (sort_cmp (cmp_on (al_lot_id \<circ> ml_lot) (rt_locale_compare rt)) live))"
    using ending_lots_ok [OF ok] by (auto simp: ending_lots_def live_def)
  have "held rt k es = in_stock k (st_lots s)" for k
    unfolding held sum_list_sort_cmp live_def in_stock_def
    by (rule sum_list_map_filter) (use assms in \<open>auto simp: balanced_def lot_ok_def\<close>)
  with es assms show thesis by (intro that [OF es(1)]) (auto simp: conservation_spec balanced_def)
qed

end

context decimal_text
begin

lemma reachable_spending:
  assumes "reachable h ctx plan s" "eh_runtime h = rt"
    and small: "\<forall>l\<in>set (ic_opening_lots ctx). units_of rt (al_quantity l) < int dec_limit"
  shows "spending rt (opening_ids ctx) (ic_opening_lots ctx) s"
proof -
  have dt: "decimal_text (eh_runtime h)" using assms(2) decimal_text_axioms by simp
  have "spending rt (opening_ids ctx) (ic_opening_lots ctx) (initial_state ctx lots)"
    if "initial_lots rt ctx = Inr lots" for lots
    using initial_balanced [OF that small]
    by (simp add: spending_def conserving_def initial_state_def zero_ledger_def reported_def opening_spent_def)
  with principal_invariant.reachable_kept [OF spending_invariant [OF dt] assms(1)] assms(2) show ?thesis by simp
qed

end

lemma readable_opening: "initial_lots_from rt ls m = Inr m' \<Longrightarrow> \<forall>l\<in>set ls. readable rt (al_quantity l)"
proof (induction ls arbitrary: m)
  case (Cons l ls)
  then obtain n where "quantity_in_units rt (al_quantity l) = Inr n" by (auto simp: rbind_Inr_iff)
  moreover from Cons obtain m1 where "initial_lots_from rt ls m1 = Inr m'" by (auto simp: rbind_Inr_iff split: if_splits)
  ultimately show ?case using Cons.IH not_readable by fastforce
qed simp


section \<open>The books of a result\<close>

lemma closed_result:
  assumes "close_plan rt ctx plan (ok, s) = Inr r"
  shows "np_asset_movements r = movements s" "np_external_funding_jpy r = nl_external_funding_jpy (st_ledger s)"
    "np_opening_asset_units_consumed r = nl_opening_consumed (st_ledger s)"
    "ending_lots rt (st_lots s) = Inr (np_ending_asset_lots r)"
    "np_eligible r \<Longrightarrow> ok \<and>
       validate_conservation rt (ic_opening_lots ctx) (movements s) (np_ending_asset_lots r) = Inr ()"
    "np_merchant_value_jpy r = nl_merchant_value_jpy (st_ledger s)" "np_reward_components r = nl_rewards (st_ledger s)"
proof -
  from assms obtain es where es: "ending_lots rt (st_lots s) = Inr es"
    by (auto simp: close_plan_def rbind_Inr_iff)
  note run = assms [unfolded close_plan_def prod.case es rbind_simps]
  show "np_asset_movements r = movements s" "np_external_funding_jpy r = nl_external_funding_jpy (st_ledger s)"
    "np_opening_asset_units_consumed r = nl_opening_consumed (st_ledger s)"
    "ending_lots rt (st_lots s) = Inr (np_ending_asset_lots r)"
    "np_eligible r \<Longrightarrow> ok \<and>
       validate_conservation rt (ic_opening_lots ctx) (movements s) (np_ending_asset_lots r) = Inr ()"
    "np_merchant_value_jpy r = nl_merchant_value_jpy (st_ledger s)" "np_reward_components r = nl_rewards (st_ledger s)"
    using run by (cases "validate_conservation rt (ic_opening_lots ctx) (movements s) es";
      auto simp: native_result_def add_rejection_def es)+
qed

lemma reachable_opening: "reachable h ctx plan s \<Longrightarrow> \<exists>lots. initial_lots (eh_runtime h) ctx = Inr lots"
  by (induction rule: reachable.induct) auto

text \<open>C1. Principal is conserved by construction: as long as no amount reaches the 120 digits of the
  decimal library, the evaluation of a plan ends with a ledger that passes the conservation check
  on the opening lots, so the result is never refused for \<open>conservation_failed\<close>, and the units it
  reports as consumed from the opening lots are, asset by asset, those of its movements.\<close>

theorem plan_conserves_principal:
  assumes "decimal_text (eh_runtime h)" "evaluate_native_plan h contracts plan options = Inr r"
    and "\<forall>l\<in>set (ic_opening_lots (make_internal_context options)). units_of (eh_runtime h) (al_quantity l) < int dec_limit"
    and "modest (eh_runtime h) (np_asset_movements r)"
  shows "validate_conservation (eh_runtime h) (ic_opening_lots (make_internal_context options))
      (np_asset_movements r) (np_ending_asset_lots r) = Inr () \<and>
    (\<forall>a. reported a (np_opening_asset_units_consumed r) =
      opening_spent (eh_runtime h) (opening_ids (make_internal_context options)) a (np_asset_movements r))"
proof -
  let ?rt = "eh_runtime h" and ?ctx = "make_internal_context options"
  obtain ok s where s: "reachable h ?ctx plan s" and close: "close_plan ?rt ?ctx plan (ok, s) = Inr r"
    by (rule evaluated [OF assms(2)])
  note r = closed_result [OF close]
  have "spending ?rt (opening_ids ?ctx) (ic_opening_lots ?ctx) s"
    by (rule decimal_text.reachable_spending [OF assms(1) s refl assms(3)])
  with assms(4) have spend: "\<forall>a. reported a (nl_opening_consumed (st_ledger s)) = opening_spent ?rt (opening_ids ?ctx) a (movements s)"
    and bal: "balanced ?rt (ic_opening_lots ?ctx) s" by (simp_all add: spending_def conserving_def r)
  have "\<forall>l\<in>set (ic_opening_lots ?ctx). readable ?rt (al_quantity l)"
    using reachable_opening [OF s] readable_opening by (auto simp: initial_lots_def)
  with decimal_text.close_balanced [OF assms(1) bal] r(4)
  have "validate_conservation ?rt (ic_opening_lots ?ctx) (movements s) (np_ending_asset_lots r) = Inr ()"
    by (metis sum.inject(2))
  with spend show ?thesis by (simp add: r)
qed

text \<open>C2. No lot is ever overdrawn: in every state the evaluation of a plan reaches, while amounts stay
  below the precision of the decimal library, every lot holds a non-negative number of units, and
  the lots of an asset and reward class together hold what the opening lots and the movements so far
  give.\<close>

theorem lots_are_never_overdrawn:
  assumes "decimal_text (eh_runtime h)" "reachable h ctx plan s"
    and "\<forall>l\<in>set (ic_opening_lots ctx). units_of (eh_runtime h) (al_quantity l) < int dec_limit"
    and "modest (eh_runtime h) (nl_movements (st_ledger s))"
  shows "(\<forall>(i, l)\<in>set (st_lots s). 0 \<le> ml_units l) \<and>
    (\<forall>k. in_stock k (st_lots s) = held (eh_runtime h) k (ic_opening_lots ctx) + moved (eh_runtime h) k (nl_movements (st_ledger s)))"
proof -
  have "spending (eh_runtime h) (opening_ids ctx) (ic_opening_lots ctx) s"
    by (rule decimal_text.reachable_spending [OF assms(1,2) refl assms(3)])
  with assms(4) have "balanced (eh_runtime h) (ic_opening_lots ctx) s" by (simp add: spending_def conserving_def)
  then show ?thesis by (auto simp: balanced_def lot_ok_def)
qed

section \<open>Numbers and funding of a result\<close>

lemma last_number: "p @ ''_'' @ nat_text j = p' @ ''_'' @ nat_text k \<Longrightarrow> j = k"
proof -
  have "takeWhile (\<lambda>c. c \<noteq> CHR ''_'') (rev (p @ ''_'' @ nat_text n)) = rev (nat_text n)" for p n
    using nat_text_digits [of n] by (auto simp: takeWhile_tail is_digit_def)
  moreover assume "p @ ''_'' @ nat_text j = p' @ ''_'' @ nat_text k"
  ultimately have "nat_text j = nat_text k" by (metis rev_rev_ident)
  then show ?thesis by (metis nat_text_value)
qed

lemma numbered_distinct: "numbered s \<Longrightarrow> distinct (map am_movement_id (movements s))"
  unfolding numbered_def distinct_conv_nth length_map by (metis last_number nth_map)

text \<open>The movements of a result have distinct ids, also when operation ids are prefixes of one
  another and when a transfer was rolled back and its numbers were used again; the external
  funding it reports is the sum over its funding movements.\<close>

theorem movements_are_numbered_and_funded:
  "evaluate_native_plan h contracts plan options = Inr r \<Longrightarrow>
   distinct (map am_movement_id (np_asset_movements r)) \<and>
   np_external_funding_jpy r = sum_list (map (funding_jpy (eh_runtime h)) (np_asset_movements r))"
proof -
  let ?ctx = "make_internal_context options"
  assume "evaluate_native_plan h contracts plan options = Inr r"
  then obtain ok s where s: "reachable h ?ctx plan s" and close: "close_plan (eh_runtime h) ?ctx plan (ok, s) = Inr r"
    by (rule evaluated)
  note r = closed_result [OF close]
  have "numbered s" by (rule numbering.reachable_kept [OF s refl]) (simp add: numbered_def initial_state_def zero_ledger_def)
  moreover have "funding_recorded (eh_runtime h) s"
    by (rule funding.reachable_kept [OF s refl]) (simp add: funding_recorded_def initial_state_def zero_ledger_def)
  ultimately show ?thesis by (simp add: r numbered_distinct funding_recorded_def)
qed


section \<open>Transfers move everything or nothing\<close>

lemma take_units_done:
  assumes "take_units rt op i ids lot current n s = (True, s')"
  obtains q where "movements s' = movements s @ [taken_movement op i lot q (st_movement_index s)]"
    "\<And>j. j \<noteq> lot \<Longrightarrow> om_get (st_lots s') j = om_get (st_lots s) j"
    "\<And>j. om_get (st_lots s) j = None \<Longrightarrow> j \<noteq> lot \<Longrightarrow> om_get (st_lots s') j = None"
proof -
  have del: "j \<noteq> lot \<Longrightarrow> om_get (om_delete lot m) j = om_get m j" for j :: string and m :: lots
    unfolding om_delete_def by (induction m) auto
  obtain q where q: "quantity_of_units rt (lot_asset current) n = Inr q"
    using assms by (cases "quantity_of_units rt (lot_asset current) n") (simp_all add: take_units_def Let_def refuse_def)
  show thesis
    using assms
    by (intro that [of q])
       (auto simp: take_units_def Let_def q refuse_def push_movement_def on_ledger_def taken_movement_def om_get_set del
         split: if_splits sum.splits)
qed

lemma consume_done:
  assumes "consume_lot rt op ids i s = (True, s')"
  obtains lot current n where "ai_source_lot_id i = Some lot" "lot \<noteq> []" "om_get (st_lots s) lot = Some current"
    "consumable rt op i lot current = Inr n" "take_units rt op i ids lot current n s = (True, s')"
  using assms
  by (cases "ai_source_lot_id i")
     (auto simp: consume_lot_def falsy_def refuse_def split: if_splits option.splits sum.splits prod.splits intro: that)

lemma consume_all_done:
  "consume_all rt op ids is s = (True, s') \<Longrightarrow>
   \<exists>ms. movements s' = movements s @ ms \<and> map am_source_lot_id ms = map ai_source_lot_id is \<and>
     list_all (\<lambda>m. am_direction m = D_consume \<and> am_destination_lot_id m = None) ms"
proof (induction "is" arbitrary: s)
  case (Cons i "is")
  obtain s1 where c: "consume_lot rt op ids i s = (True, s1)" and rest: "consume_all rt op ids is s1 = (True, s')"
    using Cons.prems by (auto split: prod.splits bool.splits)
  obtain lot current n where l: "ai_source_lot_id i = Some lot" "take_units rt op i ids lot current n s = (True, s1)"
    by (rule consume_done [OF c])
  obtain q where q: "movements s1 = movements s @ [taken_movement op i lot q (st_movement_index s)]"
    by (rule take_units_done [OF l(2)])
  from Cons.IH [OF rest] obtain ms where ms: "movements s' = movements s1 @ ms"
    "map am_source_lot_id ms = map ai_source_lot_id is"
    "list_all (\<lambda>m. am_direction m = D_consume \<and> am_destination_lot_id m = None) ms" by blast
  show ?case
    by (rule exI [of _ "taken_movement op i lot q (st_movement_index s) # ms"])
       (use q ms l(1) in \<open>simp add: taken_movement_def movement_def\<close>)
qed simp

lemma derived_done:
  assumes "add_derived_output rt ctx op q t ids d role se w s = (True, s')"
  obtains m where "movements s' = movements s @ [m]" "am_direction m = d" "am_source_lot_id m = None"
    "am_destination_lot_id m = Some (or_created_lot_id q)" "am_movement_role m = role"
  using assms
  by (auto simp: add_derived_output_def refuse_def install_lot_def movement_def split: sum.splits intro: that)

definition transfer_movements :: "operation \<Rightarrow> output_request \<Rightarrow> asset_movement list \<Rightarrow> bool" where
  "transfer_movements op q ms \<longleftrightarrow> (\<exists>taken m. ms = taken @ [m] \<and>
     map am_source_lot_id taken = map ai_source_lot_id (op_asset_inputs op) \<and>
     list_all (\<lambda>m. am_direction m = D_consume \<and> am_destination_lot_id m = None) taken \<and>
     am_direction m = D_create \<and> am_source_lot_id m = None \<and> am_destination_lot_id m = Some (or_created_lot_id q))"

lemma move_principal_cases:
  assumes "move_principal rt ctx op ids rule q t se s = (b, s')"
  shows "if b then \<exists>ms. movements s' = movements s @ ms \<and> transfer_movements op q ms
    else principal_of s' = principal_of s"
proof -
  define role where "role = (if op_operation_type op = OT_point_redemption then MR_redemption else MR_transfer)"
  obtain b1 s1 where c: "consume_all rt op ids (op_asset_inputs op) s = (b1, s1)" by fastforce
  have g1: "grows s s1" using grows_consume_all [of s rt op ids "op_asset_inputs op"] c by simp
  obtain b2 s2 where d: "add_derived_output rt ctx op q t [rule_id_of rule] D_create role (Some se) (er_output rule) s1 = (b2, s2)"
    by fastforce
  have g2: "grows s s2"
    using grows_trans [OF g1 grows_derived [of s1 rt ctx op q t "[rule_id_of rule]" D_create role "Some se" "er_output rule"]] d
    by simp
  note run = assms [unfolded move_principal_def role_def [symmetric] c prod.case]
  show ?thesis
  proof (cases "b1 \<and> b2")
    case True
    with run d have s': "b" "s' = s2" by auto
    from True consume_all_done [of rt op ids "op_asset_inputs op" s s1] c obtain ms where
      "movements s1 = movements s @ ms" "map am_source_lot_id ms = map ai_source_lot_id (op_asset_inputs op)"
      "list_all (\<lambda>m. am_direction m = D_consume \<and> am_destination_lot_id m = None) ms" by auto
    moreover from True d obtain m where "movements s2 = movements s1 @ [m]" "am_direction m = D_create"
      "am_source_lot_id m = None" "am_destination_lot_id m = Some (or_created_lot_id q)"
      using derived_done [of rt ctx op q t "[rule_id_of rule]" D_create role "Some se" "er_output rule" s1 s2] by auto
    ultimately have "\<exists>ms. movements s' = movements s @ ms \<and> transfer_movements op q ms"
      unfolding s' transfer_movements_def by auto
    with s'(1) show ?thesis by simp
  next
    case False
    with run d g1 g2 show ?thesis by (cases b1; cases b2) (auto simp: principal_roll_back)
  qed
qed


text \<open>What a transfer operation leads to: nothing moves, or the whole transfer does.\<close>

definition all_or_nothing :: "operation \<Rightarrow> plan_state \<Rightarrow> plan_state \<Rightarrow> bool" where
  "all_or_nothing op s s' \<longleftrightarrow> principal_of s' = principal_of s \<or>
     (\<exists>ms q. movements s' = movements s @ ms \<and> op_output_requests op = [q] \<and> transfer_movements op q ms)"

lemma all_or_nothing_refuse: "refuse r s = (ok, s') \<Longrightarrow> all_or_nothing op s s'"
  using principal_refuse [of r s] by (simp add: all_or_nothing_def)

lemma bonus_principal: "transfer_bonus h ctx plan op bonus s = Inr (ok, s') \<Longrightarrow> principal_of s' = principal_of s"
  by (auto simp: transfer_bonus_def rmap_Inr_iff split: if_splits dest!: books_reward_rules)
     (auto simp: principal_of_def)

lemma completed_all_or_nothing:
  assumes "complete_transfer h ctx plan op ids rule calc q t settlement s = Inr (ok, s')" "op_output_requests op = [q]"
  shows "all_or_nothing op s s'"
proof (cases "derived_units (eh_runtime h) q t (st_lots s)")
  case (Inl e)
  with assms(1) show ?thesis by (auto simp: complete_transfer_def intro: all_or_nothing_refuse)
next
  case (Inr u)
  obtain b s1 where m: "move_principal (eh_runtime h) ctx op ids rule q t settlement s = (b, s1)" by fastforce
  define s2 where "s2 = on_ledger (add_applied_rule (rule_id_of rule))
    (s1\<lparr>st_visited_asset_ids := add_once (ar_asset_id (ts_source_asset calc)) (st_visited_asset_ids s1)\<rparr>)"
  have "principal_of s2 = principal_of s1" unfolding s2_def by simp (simp add: principal_of_def)
  moreover from assms(1) Inr m have "if b then transfer_bonus h ctx plan op (default_to [] (tf_bonus_rule_ids calc)) s2 = Inr (ok, s')
      else s' = s1"
    by (cases b) (simp_all add: complete_transfer_def s2_def)
  ultimately have "principal_of s' = principal_of s1" by (auto split: if_splits dest: bonus_principal)
  with move_principal_cases [OF m] assms(2) principal_parts(2) [of s' s1] show ?thesis
    by (auto simp: all_or_nothing_def split: if_splits)
qed

lemma shape_output: "transfer_shape op calc = Some (source, fee, q) \<Longrightarrow> op_output_requests op = [q]"
  by (auto simp: transfer_shape_def Let_def split: list.splits if_splits)

lemma evaluated_all_or_nothing:
  assumes "evaluate_move h ctx plan op ids rule calc source q s = Inr (ok, s')" "op_output_requests op = [q]"
  shows "all_or_nothing op s s'"
proof -
  obtain t :: transfer_calculation_result and settlement where
    "(case (tc_status t, tc_destination_amount t) of
         (TS_applied, Some amount) \<Rightarrow> complete_transfer h ctx plan op ids rule calc q amount settlement s
       | _ \<Rightarrow> Inr (refuse (rule_refused op rule
           (if tc_status t = TS_conditional then ''rule_condition_unknown'' else ''rule_condition_failed'')
           (default_to (transfer_status_text (tc_status t)) (tc_reason_code t))) s)) = Inr (ok, s')"
    using assms(1) unfolding evaluate_move_def rbind_Inr_iff by (elim exE conjE) (rule that)
  then show ?thesis
    using all_or_nothing_refuse completed_all_or_nothing [OF _ assms(2)]
    by (cases "tc_status t"; cases "tc_destination_amount t") auto
qed

lemma rule_all_or_nothing:
  assumes "transfer_with_rule h ctx plan op ids rule calc s = Inr (ok, s')"
  shows "all_or_nothing op s s'"
proof (cases "transfer_shape op calc")
  case None
  with assms show ?thesis by (auto simp: transfer_with_rule_def intro: all_or_nothing_refuse)
next
  case (Some x)
  obtain source fee q where x: "x = (source, fee, q)" by (cases x)
  from assms obtain problem where "(case problem of Some r \<Rightarrow> Inr (refuse r s)
      | None \<Rightarrow> evaluate_move h ctx plan op ids rule calc source q s) = Inr (ok, s')"
    unfolding transfer_with_rule_def Some x by (auto simp only: option.case prod.case rbind_Inr_iff)
  then show ?thesis
    using evaluated_all_or_nothing [OF _ shape_output [OF Some [unfolded x]]]
    by (cases problem) (auto intro: all_or_nothing_refuse)
qed

text \<open>C3. A transfer or redemption is atomic: whatever the operation answers, and even where its inputs
  failed halfway, either the lots, the movements and their numbering, the external funding and the
  consumption of opening lots are all as before, or every input was consumed in order and the one
  destination lot was created, with the movements that say so appended.\<close>

theorem transfer_is_all_or_nothing:
  "process_transfer_operation h ctx plan ids op s = Inr (ok, s') \<Longrightarrow>
   principal_of s' = principal_of s \<or>
   (\<exists>ms q. nl_movements (st_ledger s') = nl_movements (st_ledger s) @ ms \<and> op_output_requests op = [q] \<and>
      transfer_movements op q ms)"
proof -
  assume run: "process_transfer_operation h ctx plan ids op s = Inr (ok, s')"
  obtain selected where "(case selected of
         [] \<Rightarrow> Inr (refuse (op_rejection op ''no_matching_rule''
           ''transfer operation requires one applicable transfer-ratio rule'') s)
       | [rule] \<Rightarrow>
           (case er_calculation rule of
              Some (RL_transfer_ratio calc) \<Rightarrow> transfer_with_rule h ctx plan op ids rule calc s
            | _ \<Rightarrow> Inr (False, s))
       | _ \<Rightarrow> Inr (refuse (op_rejection op ''ambiguous_bitemporal_replay''
           ''transfer operation matched multiple transfer-ratio rules'') s)) = Inr (ok, s')"
    using run unfolding process_transfer_operation_def rbind_Inr_iff by (elim exE conjE) (rule that)
  then have "all_or_nothing op s s'"
    using all_or_nothing_refuse rule_all_or_nothing
    by (auto split: list.splits option.splits rule_calculation.splits simp: all_or_nothing_def [of _ t t for t])
  then show ?thesis by (simp add: all_or_nothing_def)
qed


section \<open>A transfer that passes its checks is carried out\<close>

lemma input_problem_None:
  "input_problem rt op rid lots is = None \<longleftrightarrow> (\<forall>i\<in>set is. \<exists>lot current n.
     ai_source_lot_id i = Some lot \<and> om_get lots lot = Some current \<and> lot_asset current = input_asset i \<and>
     quantity_in_units rt (ai_quantity i) = Inr n \<and> 0 < n \<and> n \<le> ml_units current \<and>
     expired_at rt op (ml_lot current) = Inr False)"
proof (induction "is")
  case (Cons i "is")
  show ?case
  proof (cases "ai_source_lot_id i")
    case None
    then show ?thesis by simp
  next
    case (Some lot)
    then show ?thesis
      using Cons
      by (cases "om_get lots lot"; cases "quantity_in_units rt (ai_quantity i)")
         (auto split: sum.splits if_splits simp: not_less not_le)
  qed
qed simp

definition ready :: "runtime \<Rightarrow> operation \<Rightarrow> lots \<Rightarrow> asset_input \<Rightarrow> bool" where
  "ready rt op lots i \<longleftrightarrow> (\<exists>lot current n. ai_source_lot_id i = Some lot \<and> lot \<noteq> [] \<and> om_get lots lot = Some current \<and>
     lot_ok current \<and> consumable rt op i lot current = Inr n)"

context decimal_text
begin

lemma consume_ready:
  assumes "ready rt op (st_lots s) i"
  obtains s' where "consume_lot rt op ids i s = (True, s')"
    "\<And>j. Some j \<noteq> ai_source_lot_id i \<Longrightarrow> om_get (st_lots s') j = om_get (st_lots s) j"
proof -
  from assms obtain lot current n where l: "ai_source_lot_id i = Some lot" "lot \<noteq> []" "om_get (st_lots s) lot = Some current"
    "lot_ok current" "consumable rt op i lot current = Inr n" unfolding ready_def by blast
  note n = consumable_Inr [OF l(5)]
  obtain s' where s': "take_units rt op i ids lot current n s = (True, s')"
    using take_units_ok [OF l(4), of n op i ids lot s] n by (metis prod.collapse)
  show thesis
    by (rule that [of s']) (use l s' take_units_done [OF s'] in \<open>auto simp: consume_lot_def falsy_def\<close>)
qed

end

context decimal_text
begin

lemma consume_all_ready:
  assumes "\<forall>i\<in>set is. ready rt op (st_lots s) i" "distinct (map ai_source_lot_id is)"
  shows "\<exists>s'. consume_all rt op ids is s = (True, s') \<and>
    (\<forall>j. Some j \<notin> set (map ai_source_lot_id is) \<longrightarrow> om_get (st_lots s') j = om_get (st_lots s) j)"
  using assms
proof (induction "is" arbitrary: s)
  case (Cons i "is")
  obtain s1 where s1: "consume_lot rt op ids i s = (True, s1)"
    "\<And>j. Some j \<noteq> ai_source_lot_id i \<Longrightarrow> om_get (st_lots s1) j = om_get (st_lots s) j"
    using consume_ready [of op s i ids] Cons.prems(1) by auto
  have "ready rt op (st_lots s1) k" if "k \<in> set is" for k
  proof -
    have "ai_source_lot_id k \<noteq> ai_source_lot_id i" using Cons.prems(2) that by (metis distinct.simps(2) image_eqI list.simps(9) set_map)
    moreover have "ready rt op (st_lots s) k" using Cons.prems(1) that by simp
    ultimately show ?thesis using s1(2) unfolding ready_def by metis
  qed
  with Cons.IH [of s1] Cons.prems(2) obtain s' where s': "consume_all rt op ids is s1 = (True, s')"
    "\<forall>j. Some j \<notin> set (map ai_source_lot_id is) \<longrightarrow> om_get (st_lots s') j = om_get (st_lots s1) j" by auto
  show ?case by (rule exI [of _ s']) (use s1 s' in auto)
qed simp

end

context decimal_text
begin

lemma derived_ready:
  assumes "derived_units rt q t lots = Inr u" "om_get (st_lots s) (or_created_lot_id q) = None"
  shows "\<exists>s'. add_derived_output rt ctx op q t ids d role se w s = (True, s')"
proof -
  from assms(1) have u: "units_from_amount rt t (ar_scale (or_asset q)) RM_exact = Inr u" "0 < u"
    and d: "derived_units rt q t (st_lots s) = Inr u"
    using assms(2) by (auto simp: derived_units_def Let_def res_simps split: option.splits)
  have "0 \<le> ar_scale (or_asset q)" "ar_scale (or_asset q) \<le> 18" using u(1) by (auto simp: units_from_amount_def res_simps)
  with quantity_of_units_ok [OF _ exact_units_representable [OF u(1)]] u(2) obtain w where
    "quantity_of_units rt (or_asset q) u = Inr w" by (metis less_imp_le)
  with d show ?thesis by (simp add: add_derived_output_def lot_from_request_def install_lot_def)
qed

end

lemma transfer_inputs:
  assumes "transfer_shape op calc = Some (source, fee, q)" "i \<in> set (op_asset_inputs op)"
  shows "i = source \<and> ai_role i = source_role op \<or> fee = Some i \<and> ai_role i = IR_fee \<and> ts_fee calc \<noteq> None"
proof -
  from assms(1) have s: "filter (\<lambda>i. ai_role i = source_role op) (op_asset_inputs op) = [source]"
    and f: "first_of (filter (\<lambda>i. ai_role i = IR_fee) (op_asset_inputs op)) = fee"
      "length (filter (\<lambda>i. ai_role i = IR_fee) (op_asset_inputs op)) = (if ts_fee calc = None then 0 else 1)"
    and only: "\<not> list_ex (\<lambda>i. ai_role i \<noteq> source_role op \<and> ai_role i \<noteq> IR_fee) (op_asset_inputs op)"
    by (auto simp: transfer_shape_def Let_def split: list.splits if_splits)
  show ?thesis
  proof (cases "ai_role i = source_role op")
    case True
    with assms(2) have "i \<in> set (filter (\<lambda>i. ai_role i = source_role op) (op_asset_inputs op))" by simp
    with s True show ?thesis by simp
  next
    case False
    with only assms(2) have role: "ai_role i = IR_fee" by (auto simp: list_ex_iff)
    with assms(2) have "i \<in> set (filter (\<lambda>i. ai_role i = IR_fee) (op_asset_inputs op))" by simp
    with f role show ?thesis
      by (cases "filter (\<lambda>i. ai_role i = IR_fee) (op_asset_inputs op)") (auto simp: first_of_def split: if_splits)
  qed
qed


lemma transfer_ready:
  assumes shape: "transfer_shape op calc = Some (source, fee, q)"
    and clear: "transfer_problem rt op rule calc source fee q lots = Inr None"
    and lots: "\<forall>l\<in>snd ` set lots. lot_ok l" and i: "i \<in> set (op_asset_inputs op)"
  shows "ready rt op lots i"
proof -
  from clear have held: "holds_asset (ts_source_asset calc) (lot_of_input lots source)"
    and inputs: "input_problem rt op (rule_id_of rule) lots (op_asset_inputs op) = None"
    and fees: "ts_fee calc = None \<or> (\<exists>f. ts_fee calc = Some f \<and> fee_mismatch rt lots f fee = Inr False)"
    by (auto simp: transfer_problem_def Let_def res_simps split: if_splits option.splits)
  from inputs i obtain lot current n where l: "ai_source_lot_id i = Some lot" "om_get lots lot = Some current"
    "lot_asset current = input_asset i" "quantity_in_units rt (ai_quantity i) = Inr n" "0 < n" "n \<le> ml_units current"
    "expired_at rt op (ml_lot current) = Inr False" unfolding input_problem_None by blast
  note role = transfer_inputs [OF shape i]
  have "\<not> falsy (ai_source_lot_id i)"
    using role held fees by (auto simp: lot_of_input_def holds_asset_def fee_mismatch_def split: if_splits)
  with l(1) have "lot \<noteq> []" by (simp add: falsy_def)
  moreover have "\<not> not_payable i (ml_lot current)"
    using role by (auto simp: not_payable_def source_role_def split: if_splits)
  with l have "consumable rt op i lot current = Inr n" by (simp add: consumable_def input_asset_def Let_def)
  ultimately show ?thesis using l om_get_value [OF l(2)] lots unfolding ready_def by blast
qed

text \<open>C4. Liveness of transfers: in any state the evaluation of a plan reaches, a transfer of the right
  shape that has passed the checks against its rule, and whose destination amount is a valid new
  lot, is carried out.  The rollback that guards the step never runs after the checks.\<close>

theorem passed_transfer_is_carried_out:
  assumes "decimal_text (eh_runtime h)" "reachable h ctx plan s"
    and "\<forall>l\<in>set (ic_opening_lots ctx). units_of (eh_runtime h) (al_quantity l) < int dec_limit"
    and "modest (eh_runtime h) (nl_movements (st_ledger s))"
    and shape: "transfer_shape op calc = Some (source, fee, q)"
    and clear: "transfer_problem (eh_runtime h) op rule calc source fee q (st_lots s) = Inr None"
    and amount: "derived_units (eh_runtime h) q amount (st_lots s) = Inr u"
  shows "\<exists>s'. move_principal (eh_runtime h) ctx op (opening_ids ctx) rule q amount settlement s = (True, s')"
proof -
  have "spending (eh_runtime h) (opening_ids ctx) (ic_opening_lots ctx) s"
    by (rule decimal_text.reachable_spending [OF assms(1,2) refl assms(3)])
  with assms(4) have lots: "\<forall>l\<in>snd ` set (st_lots s). lot_ok l" by (simp add: spending_def conserving_def balanced_def)
  have ids: "distinct (map ai_source_lot_id (op_asset_inputs op))"
    using clear by (auto simp: transfer_problem_def Let_def res_simps split: if_splits)
  have known: "\<forall>i\<in>set (op_asset_inputs op). ready (eh_runtime h) op (st_lots s) i"
    using transfer_ready [OF shape clear lots] by blast
  obtain s1 where s1: "consume_all (eh_runtime h) op (opening_ids ctx) (op_asset_inputs op) s = (True, s1)"
    "\<forall>j. Some j \<notin> set (map ai_source_lot_id (op_asset_inputs op)) \<longrightarrow> om_get (st_lots s1) j = om_get (st_lots s) j"
    using decimal_text.consume_all_ready [OF assms(1) known ids] by blast
  have new: "om_get (st_lots s) (or_created_lot_id q) = None"
    using amount by (auto simp: derived_units_def Let_def res_simps)
  then have "Some (or_created_lot_id q) \<notin> set (map ai_source_lot_id (op_asset_inputs op))"
    using known by (fastforce simp: ready_def)
  with s1(2) new have "om_get (st_lots s1) (or_created_lot_id q) = None" by simp
  from decimal_text.derived_ready [OF assms(1) amount this] obtain s2 where
    "add_derived_output (eh_runtime h) ctx op q amount [rule_id_of rule] D_create
      (if op_operation_type op = OT_point_redemption then MR_redemption else MR_transfer)
      (Some settlement) (er_output rule) s1 = (True, s2)" by blast
  with s1(1) show ?thesis by (simp only: move_principal_def prod.case bool.case) simp
qed

section \<open>Refunds and reversals return at most what was tendered\<close>

text \<open>A refund or reversal that succeeds passed the checks against the corrections before it, and adds one
  movement, the return, of the units it asks for; no other lot changes.\<close>

lemma correction_step:
  assumes dt: "decimal_text (eh_runtime h)" and "process_lifecycle_operation h ctx plan op s = Inr (True, s')"
  shows "\<exists>original q t tendered returned cumulative m.
    find (\<lambda>c. Some (op_operation_id c) = op_original_operation_id op) (pp_operations plan) = Some original \<and>
    op_sequence original < op_sequence op \<and> op_output_requests op = [q] \<and> requested_text op q = Some t \<and>
    \<not> jpy_problem op original \<and> input_units_sum (eh_runtime h) (matching_tender original (or_asset q)) 0 = Inr tendered \<and>
    units_from_amount (eh_runtime h) t (ar_scale (or_asset q)) RM_exact = Inr returned \<and>
    returned_units_sum (eh_runtime h) (correction_outputs (corrections_of plan original op) (or_asset q)) 0 = Inr cumulative \<and>
    0 < returned \<and> cumulative \<le> tendered \<and> (op_operation_type op = OT_reversal \<longrightarrow> returned = tendered) \<and>
    sum_list (map (\<lambda>c. default_to 0 (op_amount_jpy c)) (corrections_of plan original op)) \<le> default_to 0 (op_amount_jpy original) \<and>
    movements s' = movements s @ [m] \<and> am_direction m = D_return \<and> am_operation_id m = op_operation_id op \<and>
    am_destination_lot_id m = Some (or_created_lot_id q) \<and> q_asset (am_quantity m) = or_asset q \<and>
    units_of (eh_runtime h) (am_quantity m) = returned \<and>
    (\<forall>j. j \<noteq> or_created_lot_id q \<longrightarrow> om_get (st_lots s') j = om_get (st_lots s) j)"
proof -
  let ?rt = "eh_runtime h"
  define role where "role = (if op_operation_type op = OT_refund then MR_refund else MR_reversal)"
  from assms(2) obtain original q t where
    o: "find (\<lambda>c. Some (op_operation_id c) = op_original_operation_id op) (pp_operations plan) = Some original"
      "op_output_requests op = [q]" "op_sequence original < op_sequence op" "requested_text op q = Some t"
    and problem: "correction_problem ?rt plan op original q t = Inr None"
    and run: "(case add_derived_output ?rt ctx op q t [] D_return role None None s of
      (False, s1) \<Rightarrow> Inr (False, s1) | (True, s1) \<Rightarrow> settle_correction ?rt op original q t s1) = Inr (True, s')"
    unfolding process_lifecycle_operation_def Let_def role_def [symmetric]
    by (auto split: option.splits list.splits if_splits simp: rbind_Inr_iff refuse_def)
  from run obtain s1 where d: "add_derived_output ?rt ctx op q t [] D_return role None None s = (True, s1)"
    and settle: "settle_correction ?rt op original q t s1 = Inr (True, s')"
    by (auto split: prod.splits bool.splits)
  from d obtain u c where u: "derived_units ?rt q t (st_lots s) = Inr u" "lot_from_request ?rt ctx op q u [] = Inr c"
    and s1: "(True, s1) = install_lot op D_return role (role_text role @ '' output derived from a reviewed Milestone 1B operation.'')
      (or_created_lot_id q) (apply_output_policy None None c) s"
    by (auto simp: add_derived_output_def refuse_def rbind_Inr_iff split: sum.splits)
  have tu: "units_from_amount ?rt t (ar_scale (or_asset q)) RM_exact = Inr u" "0 < u"
    using u(1) by (auto simp: derived_units_def Let_def res_simps)
  note c = decimal_text.request_lot_ok [OF dt u(2) tu]
  obtain m where m: "movements s1 = movements s @ [m]" "am_direction m = D_return" "am_operation_id m = op_operation_id op"
    "am_destination_lot_id m = Some (or_created_lot_id q)" "q_asset (am_quantity m) = or_asset q" "units_of ?rt (am_quantity m) = u"
    using arg_cong [OF s1, of snd] c(1,4) by (intro that) (auto simp: movement_def lot_asset_def)
  have lots: "j \<noteq> or_created_lot_id q \<Longrightarrow> om_get (st_lots s1) j = om_get (st_lots s) j" for j
    using d by (auto simp: add_derived_output_def refuse_def install_lot_def om_get_set split: sum.splits)
  note same = principal_parts [OF principal_settle [OF settle]]
  from problem tu obtain tendered returned cumulative where
    "\<not> jpy_problem op original" "input_units_sum ?rt (matching_tender original (or_asset q)) 0 = Inr tendered"
    "units_from_amount ?rt t (ar_scale (or_asset q)) RM_exact = Inr returned"
    "returned_units_sum ?rt (correction_outputs (corrections_of plan original op) (or_asset q)) 0 = Inr cumulative"
    "0 < returned" "cumulative \<le> tendered" "op_operation_type op = OT_reversal \<longrightarrow> returned = tendered"
    "sum_list (map (\<lambda>c. default_to 0 (op_amount_jpy c)) (corrections_of plan original op)) \<le> default_to 0 (op_amount_jpy original)"
    by (auto simp: correction_problem_def Let_def res_simps split: if_splits)
  moreover have "returned = u" using calculation(3) tu(1) by simp
  ultimately show ?thesis using o m lots same(1,2) by auto
qed

subsection \<open>All the corrections of an operation together\<close>

definition corrections :: "purchase_plan \<Rightarrow> operation \<Rightarrow> operation list" where
  "corrections plan original =
     filter (\<lambda>c. (op_operation_type c = OT_refund \<or> op_operation_type c = OT_reversal) \<and>
       op_original_operation_id c = Some (op_operation_id original)) (pp_operations plan)"

definition same_money :: "asset_ref \<Rightarrow> asset_ref \<Rightarrow> bool" where
  "same_money a b \<longleftrightarrow> ar_asset_id a = ar_asset_id b \<and> ar_reward_class a = ar_reward_class b"

text \<open>The units an operation was paid with in the asset and class, fees apart.\<close>

definition tendered_units :: "runtime \<Rightarrow> operation \<Rightarrow> asset_ref \<Rightarrow> int" where
  "tendered_units rt original a = sum_list (map (\<lambda>i.
     if ai_role i \<noteq> IR_fee \<and> ai_role i \<noteq> IR_refund_source \<and> same_money (q_asset (ai_quantity i)) a
     then units_of rt (ai_quantity i) else 0) (op_asset_inputs original))"

text \<open>The units a correction asks to return in the asset and class: the requested amount, or else the
  declared yen.\<close>

definition asked_units :: "runtime \<Rightarrow> operation \<Rightarrow> output_request \<Rightarrow> int" where
  "asked_units rt c q =
     (case orelse (or_requested_amount q) (map_option int_text (op_amount_jpy c)) of
        None \<Rightarrow> 0
      | Some t \<Rightarrow> units_of rt \<lparr>q_asset = or_asset q, q_amount = t\<rparr>)"

definition returned_units :: "runtime \<Rightarrow> asset_ref \<Rightarrow> operation \<Rightarrow> int" where
  "returned_units rt a c = sum_list (map (\<lambda>q. if same_money (or_asset q) a then asked_units rt c q else 0) (op_output_requests c))"

lemma same_money_bucket: "asset_bucket a = asset_bucket b \<longleftrightarrow> same_money a b"
  by (simp add: asset_bucket_def bucket_injective same_money_def)

lemma same_money_cong: "same_money a b \<Longrightarrow> tendered_units rt op a = tendered_units rt op b"
  "same_money a b \<Longrightarrow> returned_units rt a c = returned_units rt b c"
  by (simp_all add: tendered_units_def returned_units_def same_money_def)

lemma input_units_sum_units: "input_units_sum rt is acc = Inr n \<Longrightarrow> n = acc + sum_list (map (units_of rt \<circ> ai_quantity) is)"
  by (induction "is" arbitrary: acc) (fastforce simp: rbind_Inr_iff units_of_def)+

lemma tender_sum: "input_units_sum rt (matching_tender original a) 0 = Inr n \<Longrightarrow> n = tendered_units rt original a"
  by (drule input_units_sum_units)
    (simp add: tendered_units_def matching_tender_def quantity_key_def same_money_bucket sum_list_map_filter' comp_def)

lemma returned_sum_units:
  "returned_units_sum rt qs acc = Inr n \<Longrightarrow> n = acc + sum_list (map (\<lambda>(c, q). asked_units rt c q) qs)"
  by (induction rt qs acc rule: returned_units_sum.induct)
    (fastforce simp: rbind_Inr_iff asked_units_def requested_text_def amount_text_def units_of_def quantity_in_units_def
      split: option.splits)+

lemma correction_sum:
  assumes "returned_units_sum rt (correction_outputs cs a) 0 = Inr n"
  shows "n = sum_list (map (returned_units rt a) cs)"
proof -
  have "sum_list (map (\<lambda>(c, q). asked_units rt c q) (correction_outputs cs a)) = sum_list (map (returned_units rt a) cs)"
    by (induction cs)
      (simp_all add: correction_outputs_def returned_units_def same_money_bucket sum_list_map_filter' comp_def filter_map)
  then show ?thesis using returned_sum_units [OF assms] by simp
qed

lemma last_one:
  fixes f :: "'a \<Rightarrow> int"
  assumes "xs \<noteq> []"
  obtains x where "x \<in> set xs" "\<forall>y\<in>set xs. f y \<le> f x"
proof -
  have "Max (f ` set xs) \<in> f ` set xs" using assms by simp
  then obtain x where "x \<in> set xs" "f x = Max (f ` set xs)" by auto
  with that show thesis by simp
qed

text \<open>Movements are only ever added.\<close>

definition extends :: "asset_movement list \<Rightarrow> plan_state \<Rightarrow> bool" where
  "extends ms s \<longleftrightarrow> (\<exists>more. movements s = ms @ more)"

lemma extends_cong: "principal_of s' = principal_of s \<Longrightarrow> extends ms s' \<longleftrightarrow> extends ms s"
  by (simp add: extends_def principal_parts(2) [of s' s])

lemma extends_simps [simp]: "extends ms (s\<lparr>st_lots := m\<rparr>) \<longleftrightarrow> extends ms s"
  "extends ms (on_ledger (\<lambda>l. l\<lparr>nl_opening_consumed := ns l\<rparr>) s) \<longleftrightarrow> extends ms s"
  "extends ms (on_ledger (\<lambda>l. l\<lparr>nl_external_funding_jpy := x l\<rparr>) s) \<longleftrightarrow> extends ms s"
  "extends ms (snd (refuse r s)) \<longleftrightarrow> extends ms s"
  by (simp_all add: extends_def on_ledger_def extends_cong [unfolded extends_def, of "snd (refuse r s)" s])

lemma extends_push: "extends ms s \<Longrightarrow> extends ms (push_movement op d role q a b notes s)"
  by (auto simp: extends_def)

interpretation growing: principal_invariant h ids ctx "extends ms" for h ids ctx ms
proof
  show "extends ms s'" if "extends ms s" "principal_of s' = principal_of s" for s s'
    using that extends_cong by blast
  show "extends ms (snd (take_units (eh_runtime h) op i ids lot current n s))" if "extends ms s" for s lot current op i n
    using that by (simp add: take_units_def Let_def extends_push split: sum.split)
  show "extends ms (snd (install_lot op d role remark (or_created_lot_id q) (apply_output_policy se w c) s))"
    if "extends ms s" for s :: plan_state and q :: output_request and op c d role remark se w
    using that by (simp add: install_lot_def extends_push)
  show "extends ms (snd (snd (take_funding (eh_runtime h) op i s)))" if "extends ms s" for s op i
    using that by (simp add: take_funding_def extends_push split: sum.split)
qed

lemma eligible_run:
  assumes "evaluate_native_plan h contracts plan options = Inr r" "np_eligible r"
  obtains s0 s where "run_operations h (make_internal_context options) plan (opening_ids (make_internal_context options))
      (by_sequence (pp_operations plan)) True s0 = Inr (True, s)"
    "np_asset_movements r = movements s" "Validation.plan_ok (eh_runtime h) plan"
proof -
  let ?ctx = "make_internal_context options"
  from assms(1) have valid: "Validation.plan_ok (eh_runtime h) plan" and "evaluate_valid_plan h ?ctx plan = Inr r"
    by (auto simp: evaluate_native_plan_def Let_def thrown_def plan_validation_spec split: sum.splits)
  then obtain lots ok s where
    run: "run_operations h ?ctx plan (opening_ids ?ctx) (by_sequence (pp_operations plan)) True (initial_state ?ctx lots) = Inr (ok, s)"
    and close: "close_plan (eh_runtime h) ?ctx plan (ok, s) = Inr r"
    unfolding evaluate_valid_plan_def rbind_Inr_iff by fast
  have "ok" using closed_result(5) [OF close assms(2)] by blast
  with run have "run_operations h ?ctx plan (opening_ids ?ctx) (by_sequence (pp_operations plan)) True (initial_state ?ctx lots) = Inr (True, s)"
    by simp
  then show thesis using closed_result(1) [OF close] valid by (rule that)
qed

lemma run_ok: "run_operations h ctx plan opening ops ok s = Inr (True, s') \<Longrightarrow> ok"
  by (induction ops arbitrary: ok s) (auto simp: rbind_Inr_iff)

lemma run_step:
  assumes "run_operations h ctx plan opening ops ok s = Inr (True, s')" "c \<in> set ops"
  obtains s1 s2 where "process_operation h ctx plan opening c s1 = Inr (True, s2)" "extends (movements s2) s'"
  using assms
proof (induction ops arbitrary: ok s thesis)
  case (Cons op ops)
  from Cons.prems(2) obtain d t where d: "process_operation h ctx plan opening op s = Inr (d, t)"
    and rest: "run_operations h ctx plan opening ops (d \<and> ok) t = Inr (True, s')"
    by (auto simp: rbind_Inr_iff)
  show ?case
  proof (cases "c = op")
    case True
    have "d" using run_ok [OF rest] by blast
    moreover have "extends (movements t) s'" by (rule growing.run_kept [OF rest]) (simp add: extends_def)
    ultimately show ?thesis using d True by (intro Cons.prems(1) [of s t]) simp_all
  next
    case False
    with Cons.prems(3) have "c \<in> set ops" by simp
    show ?thesis by (rule Cons.IH [OF _ rest \<open>c \<in> set ops\<close>]) (rule Cons.prems(1))
  qed
qed simp

text \<open>What the plan's result says of one correction.\<close>

definition corrected :: "runtime \<Rightarrow> operation \<Rightarrow> asset_movement list \<Rightarrow> operation \<Rightarrow> bool" where
  "corrected rt original ms c \<longleftrightarrow>
     op_sequence original < op_sequence c \<and>
     (\<exists>q m a. op_output_requests c = [q] \<and> op_amount_jpy c = Some a \<and> 0 < a \<and> 0 < returned_units rt (or_asset q) c \<and>
        (op_operation_type c = OT_reversal \<longrightarrow>
           op_amount_jpy original = Some a \<and> returned_units rt (or_asset q) c = tendered_units rt original (or_asset q)) \<and>
        m \<in> set ms \<and> am_operation_id m = op_operation_id c \<and> am_direction m = D_return \<and>
        am_destination_lot_id m = Some (or_created_lot_id q) \<and> q_asset (am_quantity m) = or_asset q \<and>
        units_of rt (am_quantity m) = returned_units rt (or_asset q) c)"

lemma correction_in_plan:
  assumes dt: "decimal_text (eh_runtime h)" and plan: "Validation.plan_ok (eh_runtime h) plan" and o: "original \<in> set (pp_operations plan)"
    and c: "c \<in> set (corrections plan original)" and step: "process_operation h ctx plan opening c s1 = Inr (True, s2)"
    and more: "extends (movements s2) s"
  shows "corrected (eh_runtime h) original (movements s) c" (is ?here)
    and "sum_list (map (\<lambda>c. default_to 0 (op_amount_jpy c)) (corrections_of plan original c)) \<le> default_to 0 (op_amount_jpy original)"
      (is ?yen)
    and "\<And>q. op_output_requests c = [q] \<Longrightarrow> sum_list (map (returned_units (eh_runtime h) (or_asset q)) (corrections_of plan original c)) \<le>
      tendered_units (eh_runtime h) original (or_asset q)"
proof -
  let ?rt = "eh_runtime h"
  from c have id: "op_original_operation_id c = Some (op_operation_id original)" by (simp add: corrections_def)
  from c step have "process_lifecycle_operation h ctx plan c s1 = Inr (True, s2)"
    by (auto simp: corrections_def process_operation_def)
  from correction_step [OF dt this] obtain u q t tendered returned cumulative m where
    f: "find (\<lambda>x. Some (op_operation_id x) = op_original_operation_id c) (pp_operations plan) = Some u"
    and seq: "op_sequence u < op_sequence c" and q: "op_output_requests c = [q]" "requested_text c q = Some t"
    and jpy: "\<not> jpy_problem c u"
    and sums: "input_units_sum ?rt (matching_tender u (or_asset q)) 0 = Inr tendered"
      "units_from_amount ?rt t (ar_scale (or_asset q)) RM_exact = Inr returned"
      "returned_units_sum ?rt (correction_outputs (corrections_of plan u c) (or_asset q)) 0 = Inr cumulative"
      "0 < returned" "cumulative \<le> tendered" "op_operation_type c = OT_reversal \<longrightarrow> returned = tendered"
      "sum_list (map (\<lambda>x. default_to 0 (op_amount_jpy x)) (corrections_of plan u c)) \<le> default_to 0 (op_amount_jpy u)"
    and m: "movements s2 = movements s1 @ [m]" "am_direction m = D_return" "am_operation_id m = op_operation_id c"
      "am_destination_lot_id m = Some (or_created_lot_id q)" "q_asset (am_quantity m) = or_asset q" "units_of ?rt (am_quantity m) = returned"
    by blast
  have ids: "inj_on op_operation_id (set (pp_operations plan))" using plan by (simp add: Validation.plan_ok_def Let_def distinct_map)
  from f have "u \<in> set (pp_operations plan)" "op_operation_id u = op_operation_id original"
    by (auto simp: find_Some_iff id)
  with ids o have u: "u = original" by (auto dest: inj_onD)
  note sums = sums [unfolded u]
  have tender: "tendered = tendered_units ?rt original (or_asset q)" by (rule tender_sum [OF sums(1)])
  have ret: "returned_units ?rt (or_asset q) c = returned"
    using q sums(2) by (simp add: returned_units_def same_money_def asked_units_def requested_text_def amount_text_def
      units_of_def quantity_in_units_def)
  have "m \<in> set (movements s)" using more m(1) by (auto simp: extends_def)
  moreover obtain a where "op_amount_jpy c = Some a" "0 < a" "op_operation_type c = OT_reversal \<longrightarrow> op_amount_jpy original = Some a"
    using jpy by (auto simp: jpy_problem_def u split: option.splits)
  ultimately show ?here
    using seq q(1) m(2-6) sums(4,6) tender unfolding corrected_def u ret by (auto simp: ret)
  show ?yen by (rule sums(7))
  have total: "sum_list (map (returned_units ?rt (or_asset q)) (corrections_of plan original c)) \<le> tendered_units ?rt original (or_asset q)"
    using correction_sum [OF sums(3)] sums(5) tender by simp
  show "sum_list (map (returned_units ?rt (or_asset p)) (corrections_of plan original c)) \<le> tendered_units ?rt original (or_asset p)"
    if "op_output_requests c = [p]" for p
    using total q(1) that by simp
qed

lemma corrections_until: "corrections_of plan original c = filter (\<lambda>x. op_sequence x \<le> op_sequence c) (corrections plan original)"
  by (auto simp: corrections_of_def corrections_def is_correction_def intro: filter_cong)

lemma plan_correction:
  assumes "decimal_text (eh_runtime h)" "evaluate_native_plan h contracts plan options = Inr r" "np_eligible r"
    and o: "original \<in> set (pp_operations plan)" and c: "c \<in> set (corrections plan original)"
  shows "corrected (eh_runtime h) original (np_asset_movements r) c \<and>
    sum_list (map (\<lambda>c. default_to 0 (op_amount_jpy c)) (corrections_of plan original c)) \<le> default_to 0 (op_amount_jpy original) \<and>
    (\<forall>q. op_output_requests c = [q] \<longrightarrow> sum_list (map (returned_units (eh_runtime h) (or_asset q)) (corrections_of plan original c)) \<le>
      tendered_units (eh_runtime h) original (or_asset q))"
proof -
  let ?ctx = "make_internal_context options"
  obtain s0 s where run: "run_operations h ?ctx plan (opening_ids ?ctx) (by_sequence (pp_operations plan)) True s0 = Inr (True, s)"
    and ms: "np_asset_movements r = movements s" and plan: "Validation.plan_ok (eh_runtime h) plan"
    by (rule eligible_run [OF assms(2,3)])
  have "c \<in> set (by_sequence (pp_operations plan))" using c by (simp add: corrections_def by_sequence_def)
  then obtain s1 s2 where st: "process_operation h ?ctx plan (opening_ids ?ctx) c s1 = Inr (True, s2)" "extends (movements s2) s"
    by (rule run_step [OF run])
  from correction_in_plan [OF assms(1) plan o c st] show ?thesis unfolding ms by blast
qed

lemma tendered_nonneg: "decimal_text rt \<Longrightarrow> 0 \<le> tendered_units rt original a"
proof -
  assume "decimal_text rt"
  then have "0 \<le> units_of rt x" for x
    using decimal_text.units_from_amount_nonneg by (auto simp: units_of_def quantity_in_units_def split: sum.split)
  then show ?thesis by (auto simp: tendered_units_def intro!: sum_list_nonneg)
qed

text \<open>The last correction that returns an asset has counted all of them.\<close>

lemma returned_at_most_tendered:
  assumes "0 \<le> tendered_units rt original a"
    and one: "\<And>c. c \<in> set (corrections plan original) \<Longrightarrow> \<exists>q. op_output_requests c = [q] \<and>
      sum_list (map (returned_units rt (or_asset q)) (corrections_of plan original c)) \<le> tendered_units rt original (or_asset q)"
  shows "sum_list (map (returned_units rt a) (corrections plan original)) \<le> tendered_units rt original a"
proof -
  let ?C = "corrections plan original"
  define D where "D = filter (\<lambda>c. returned_units rt a c \<noteq> 0) ?C"
  have all: "sum_list (map (returned_units rt a) (filter P ?C)) = sum_list (map (returned_units rt a) ?C)"
    if "\<forall>x\<in>set D. P x" for P
    using that by (intro sum_list_map_filter) (auto simp: D_def)
  show ?thesis
  proof (cases "D = []")
    case True
    then have "sum_list (map (returned_units rt a) ?C) = 0" using all [of "\<lambda>_. False"] by simp
    with assms(1) show ?thesis by simp
  next
    case False
    obtain c where c: "c \<in> set D" "\<forall>x\<in>set D. op_sequence x \<le> op_sequence c" by (rule last_one [OF False])
    then have inC: "c \<in> set ?C" and ret: "returned_units rt a c \<noteq> 0" by (auto simp: D_def)
    obtain q where q: "op_output_requests c = [q]"
      "sum_list (map (returned_units rt (or_asset q)) (corrections_of plan original c)) \<le> tendered_units rt original (or_asset q)"
      using one [OF inC] by blast
    with ret have "same_money (or_asset q) a" by (simp add: returned_units_def split: if_splits)
    from same_money_cong [OF this] have cong: "tendered_units rt original (or_asset q) = tendered_units rt original a"
      "returned_units rt (or_asset q) = returned_units rt a" by (simp_all add: fun_eq_iff)
    show ?thesis using q(2) all [OF c(2)] by (simp add: cong corrections_until)
  qed
qed

text \<open>C6. Refunds and reversals never give back more than was paid.  In the result of an eligible plan, take
  all the refunds and reversals of the plan that name an operation.  Each comes after it, asks for one
  output of a positive amount and is recorded by a movement that returns exactly those units; a reversal
  returns the whole tender and the whole amount.  Together their yen amounts are at most the amount of
  the operation, and together they return, of every asset and reward class, at most the units it
  tendered.\<close>

theorem correction_is_bounded:
  assumes "decimal_text (eh_runtime h)" "evaluate_native_plan h contracts plan options = Inr r" "np_eligible r"
    and "original \<in> set (pp_operations plan)"
  shows "(\<forall>c\<in>set (corrections plan original). corrected (eh_runtime h) original (np_asset_movements r) c) \<and>
    sum_list (map (\<lambda>c. default_to 0 (op_amount_jpy c)) (corrections plan original)) \<le> default_to 0 (op_amount_jpy original) \<and>
    (\<forall>a. sum_list (map (returned_units (eh_runtime h) a) (corrections plan original)) \<le> tendered_units (eh_runtime h) original a)"
proof (intro conjI ballI allI)
  let ?rt = "eh_runtime h" and ?C = "corrections plan original"
  note each = plan_correction [OF assms]
  show "corrected ?rt original (np_asset_movements r) c" if "c \<in> set ?C" for c using each [OF that] by blast
  show "sum_list (map (\<lambda>c. default_to 0 (op_amount_jpy c)) ?C) \<le> default_to 0 (op_amount_jpy original)"
  proof (cases "?C = []")
    case True
    obtain "Validation.plan_ok ?rt plan" by (rule eligible_run [OF assms(2,3)])
    with assms(4) have "operation_ok ?rt original" by (simp add: Validation.plan_ok_def Let_def)
    then show ?thesis by (cases "op_amount_jpy original") (simp_all add: True operation_ok_def)
  next
    case False
    obtain c where c: "c \<in> set ?C" "\<forall>x\<in>set ?C. op_sequence x \<le> op_sequence c" by (rule last_one [OF False])
    then have "corrections_of plan original c = ?C" by (simp add: corrections_until)
    with each [OF c(1)] show ?thesis by simp
  qed
  show "sum_list (map (returned_units ?rt a) ?C) \<le> tendered_units ?rt original a" for a
  proof (rule returned_at_most_tendered [OF tendered_nonneg [OF assms(1)]])
    fix c assume "c \<in> set ?C"
    from each [OF this] show "\<exists>q. op_output_requests c = [q] \<and>
        sum_list (map (returned_units ?rt (or_asset q)) (corrections_of plan original c)) \<le> tendered_units ?rt original (or_asset q)"
      unfolding corrected_def by blast
  qed
qed

end
