(* ===== verification/Reward_Laws.thy ===== *)
theory Reward_Laws
  imports Rewards
begin

text \<open>
  What the rewards of one operation can be: every paid component comes from a rule in scope that
  matched, that no exclusion suppressed and that stacking selected; caps only lower amounts.
\<close>

section \<open>Rules that may earn\<close>

text \<open>A matching exclusion names the rule or its stack group.\<close>

definition suppressed_by :: "engine_rule \<Rightarrow> engine_rule \<Rightarrow> bool" where
  "suppressed_by x r \<longleftrightarrow> (\<exists>e. reward_exclusion x = Some e \<and>
     (rule_id_of r \<in> set (ef_target_rule_ids e) \<or> stack_group_of r \<in> set (ef_target_stack_groups e)))"

definition may_earn ::
    "engine_host \<Rightarrow> internal_context \<Rightarrow> purchase_plan \<Rightarrow> operation \<Rightarrow> engine_rule list \<Rightarrow> engine_rule \<Rightarrow> bool" where
  "may_earn h ctx plan op rules r \<longleftrightarrow> r \<in> set rules \<and> rule_matches_operation h (ic_facts ctx) plan op r = Inr None \<and>
     \<not> is_transfer_rule r \<and> er_output r \<noteq> None \<and> \<not> acceptance_rule r \<and>
     (case er_effect r of None \<Rightarrow> True | Some e \<Rightarrow> ef_decision e \<noteq> ED_deny) \<and>
     (\<forall>x\<in>set rules. rule_matches_operation h (ic_facts ctx) plan op x = Inr None \<longrightarrow> \<not> suppressed_by x r)"

definition suppresses :: "reward_scan \<Rightarrow> engine_rule \<Rightarrow> bool" where
  "suppresses w r \<longleftrightarrow> rule_id_of r \<in> set (pw_suppressed_rule_ids w) \<or> stack_group_of r \<in> set (pw_suppressed_stack_groups w)"

abbreviation earners :: "reward_scan \<Rightarrow> engine_rule set" where
  "earners w \<equiv> pc_rule ` set (pw_candidates w) \<union> set (pw_multipliers w)"

lemma scan_frame [simp]:
  "pw_candidates (scan_reject x w) = pw_candidates w" "pw_multipliers (scan_reject x w) = pw_multipliers w"
  "pw_candidates (scan_apply r w) = pw_candidates w" "pw_multipliers (scan_apply r w) = pw_multipliers w"
  "suppresses (scan_reject x w) = suppresses w" "suppresses (scan_apply r w) = suppresses w"
  by (auto simp: scan_reject_def scan_apply_def suppresses_def fun_eq_iff)

lemma suppress_frame [simp]:
  "pw_candidates (suppress_targets op x e w) = pw_candidates w" "pw_multipliers (suppress_targets op x e w) = pw_multipliers w"
  by (simp_all add: suppress_targets_def)

lemma suppress_targets_suppresses:
  "suppresses (suppress_targets op x e w) r \<longleftrightarrow> suppresses w r \<or> rule_id_of r \<in> set (ef_target_rule_ids e) \<or>
     stack_group_of r \<in> set (ef_target_stack_groups e)"
  by (auto simp: suppress_targets_def suppresses_def scan_reject_def scan_apply_def)

lemma exclusion_pass_ok:
  "exclusion_pass h ctx plan op rs w = Inr w' \<Longrightarrow> pw_candidates w' = pw_candidates w \<and> pw_multipliers w' = pw_multipliers w \<and>
   (\<forall>r. suppresses w' r \<longleftrightarrow> suppresses w r \<or>
      (\<exists>x\<in>set rs. rule_matches_operation h (ic_facts ctx) plan op x = Inr None \<and> suppressed_by x r))"
proof (induction rs arbitrary: w)
  case (Cons x rs)
  obtain reason where m: "rule_matches_operation h (ic_facts ctx) plan op x = Inr reason"
    using Cons.prems by (cases "rule_matches_operation h (ic_facts ctx) plan op x") simp_all
  define w1 where "w1 = (case (reason, reward_exclusion x) of (None, Some e) \<Rightarrow> suppress_targets op x e w | _ \<Rightarrow> w)"
  have run: "exclusion_pass h ctx plan op rs w1 = Inr w'" using Cons.prems m by (simp add: w1_def)
  have w1: "pw_candidates w1 = pw_candidates w" "pw_multipliers w1 = pw_multipliers w"
    "suppresses w1 r \<longleftrightarrow> suppresses w r \<or> (reason = None \<and> suppressed_by x r)" for r
    by (auto simp: w1_def suppress_targets_suppresses suppressed_by_def split: option.splits)
  show ?case using Cons.IH [OF run] m by (auto simp: w1)
qed simp

lemma judge_frame:
  "suppresses (judge_rule h ctx op r w) = suppresses w"
  by (rule ext) (auto simp: judge_rule_def deny_rule_def calculate_candidate_def add_candidate_def suppresses_def scan_reject_def
    scan_apply_def Let_def split: option.splits rule_calculation.splits sum.splits prod.splits)

definition judged :: "reward_scan \<Rightarrow> engine_rule \<Rightarrow> bool" where
  "judged w r \<longleftrightarrow> \<not> is_transfer_rule r \<and> er_output r \<noteq> None \<and> \<not> acceptance_rule r \<and> \<not> suppresses w r \<and>
     (case er_effect r of None \<Rightarrow> True | Some e \<Rightarrow> ef_decision e \<noteq> ED_deny)"

lemma calculate_earners: "earners (calculate_candidate h ctx op r w) \<subseteq> insert r (earners w)"
  by (auto simp: calculate_candidate_def add_candidate_def split: option.splits sum.splits prod.splits)

lemma judge_unfit: "\<not> judged w r \<Longrightarrow> earners (judge_rule h ctx op r w) = earners w"
  by (auto simp: judge_rule_def deny_rule_def judged_def suppresses_def Let_def
      split: option.splits rule_calculation.splits effect_decision.splits)

lemma judge_fit: "judged w r \<Longrightarrow> earners (judge_rule h ctx op r w) \<subseteq> insert r (earners w)"
  using calculate_earners [of h ctx op r w]
  by (auto simp: judge_rule_def judged_def suppresses_def Let_def
      split: option.splits rule_calculation.splits effect_decision.splits)

lemma judge_earners: "earners (judge_rule h ctx op r w) \<subseteq> earners w \<union> (if judged w r then {r} else {})"
proof (cases "judged w r")
  case True
  then show ?thesis using judge_fit [OF True, of h ctx op] by (simp only: if_True Un_insert_right Un_empty_right)
next
  case False
  then show ?thesis using judge_unfit [OF False, of h ctx op] by (simp only: if_False Un_empty_right order_refl)
qed

lemma rule_pass_ok:
  "rule_pass h ctx plan op rs w = Inr w' \<Longrightarrow>
   suppresses w' = suppresses w \<and>
   earners w' \<subseteq> earners w \<union> {r \<in> set rs. rule_matches_operation h (ic_facts ctx) plan op r = Inr None \<and> judged w r}"
proof (induction rs arbitrary: w)
  case (Cons r rs)
  obtain reason where m: "rule_matches_operation h (ic_facts ctx) plan op r = Inr reason"
    using Cons.prems by (cases "rule_matches_operation h (ic_facts ctx) plan op r") simp_all
  define w1 where "w1 = (case reason of None \<Rightarrow> judge_rule h ctx op r w
    | Some t \<Rightarrow> if acceptance_rule r then scan_reject (rule_refused op r ''rule_excluded'' t) w else w)"
  have run: "rule_pass h ctx plan op rs w1 = Inr w'" using Cons.prems m by (simp add: w1_def)
  have s1: "suppresses w1 = suppresses w" by (simp add: w1_def judge_frame split: option.split)
  then have j: "judged w1 = judged w" by (simp add: judged_def fun_eq_iff)
  define E E1 E' where "E = earners w" "E1 = earners w1" "E' = earners w'"
  have "E1 \<subseteq> E \<union> (if reason = None \<and> judged w r then {r} else {})"
    unfolding w1_def E_E1_E'_def using judge_earners [of h ctx op r w] by (cases reason) simp_all
  moreover have "E' \<subseteq> E1 \<union> {r \<in> set rs. rule_matches_operation h (ic_facts ctx) plan op r = Inr None \<and> judged w r}"
    using Cons.IH [OF run] unfolding j E_E1_E'_def by blast
  ultimately have "E' \<subseteq> E \<union> {x \<in> set (r # rs). rule_matches_operation h (ic_facts ctx) plan op x = Inr None \<and> judged w x}"
    using m by (auto split: if_splits)
  moreover have "suppresses w' = suppresses w" using Cons.IH [OF run] s1 by simp
  ultimately show ?case unfolding E_E1_E'_def by blast
qed simp

lemma multiplier_pass_ok:
  "multiplier_pass h op rs w = Inr w' \<Longrightarrow> pc_rule ` set (pw_candidates w') \<subseteq> pc_rule ` set (pw_candidates w) \<union> set rs"
proof (induction rs arbitrary: w)
  case (Cons r rs)
  have m: "multiply h op r m g w = Inr w1 \<Longrightarrow> pc_rule ` set (pw_candidates w1) \<subseteq> insert r (pc_rule ` set (pw_candidates w))" for m g w1
    by (auto simp: multiply_def Let_def res_simps add_candidate_def split: if_splits)
  from Cons.prems obtain w1 where "pc_rule ` set (pw_candidates w1) \<subseteq> insert r (pc_rule ` set (pw_candidates w))"
    "multiplier_pass h op rs w1 = Inr w'"
    by (auto simp: res_simps split: option.splits rule_calculation.splits dest!: m)
  with Cons.IH [OF this(2)] show ?case by auto
qed simp

lemma cap_pass_rules: "cap_pass h op progress cs l = Inr (kept, l') \<Longrightarrow> pc_rule ` set kept \<subseteq> pc_rule ` set cs"
proof (induction cs arbitrary: l kept)
  case (Cons c cs)
  then show ?case by (fastforce simp: res_simps Let_def split: if_splits)
qed simp

lemma scan_rules_ok:
  assumes "scan_rules h ctx plan op rules l = Inr w" "c \<in> set (pw_candidates w)"
  shows "may_earn h ctx plan op rules (pc_rule c)"
proof -
  obtain w1 w2 where w1: "exclusion_pass h ctx plan op rules (start_scan l) = Inr w1"
    and w2: "rule_pass h ctx plan op rules w1 = Inr w2" and w: "multiplier_pass h op (pw_multipliers w2) w2 = Inr w"
    using assms(1) by (auto simp: scan_rules_def res_simps)
  have start: "pw_candidates (start_scan l) = []" "pw_multipliers (start_scan l) = []" "\<not> suppresses (start_scan l) r" for r
    by (simp_all add: start_scan_def suppresses_def)
  note e = exclusion_pass_ok [OF w1]
  have "pc_rule c \<in> earners w2" using multiplier_pass_ok [OF w] assms(2) by blast
  with rule_pass_ok [OF w2] e start have r: "pc_rule c \<in> set rules"
    "rule_matches_operation h (ic_facts ctx) plan op (pc_rule c) = Inr None" "judged w1 (pc_rule c)" by auto
  moreover from r(3) e have "\<forall>x\<in>set rules. rule_matches_operation h (ic_facts ctx) plan op x = Inr None \<longrightarrow>
      \<not> suppressed_by x (pc_rule c)" by (auto simp: judged_def)
  ultimately show ?thesis by (auto simp: may_earn_def judged_def split: option.splits)
qed

section \<open>What is paid\<close>

definition paid_for :: "operation \<Rightarrow> engine_rule \<Rightarrow> reward_component \<Rightarrow> bool" where
  "paid_for op r c \<longleftrightarrow> rc_rule_id c = rule_id_of r \<and> rc_operation_id c = op_operation_id op \<and>
     (\<exists>w. er_output r = Some w \<and> rc_sign c = ou_sign w \<and> q_asset (rc_quantity c) = ou_asset w \<and>
        rc_certainty c = ou_certainty w \<and> rc_settlement c = ou_settlement w)"

lemma component_paid_for: "reward_component_from_rule rt r op units i = Inr c \<Longrightarrow> paid_for op r c"
  by (auto simp: reward_component_from_rule_def res_simps quantity_of_units_def paid_for_def split: option.splits)

lemma pay_adds:
  assumes "pay h op r units tr p = Inr p'"
  shows "\<exists>c. nl_rewards (py_ledger p') = nl_rewards (py_ledger p) @ [c] \<and> paid_for op r c"
proof -
  from assms obtain c where c: "reward_component_from_rule (eh_runtime h) r op units (length (nl_rewards (py_ledger p))) = Inr c"
    and p': "nl_rewards (py_ledger p') = nl_rewards (py_ledger p) @ [c\<lparr>rc_calculation_trace := component_trace tr r\<rparr>]"
    by (auto simp: pay_def res_simps add_applied_rule_def)
  have "paid_for op r (c\<lparr>rc_calculation_trace := component_trace tr r\<rparr>)"
    using component_paid_for [OF c] by (simp add: paid_for_def)
  with p' show ?thesis by blast
qed

lemma rewards_add_rejection [simp]: "nl_rewards (add_rejection r l) = nl_rewards l"
  by (simp add: add_rejection_def)

lemma pay_capped_adds:
  assumes "pay_capped h op c p = Inr p'"
  shows "\<exists>new. nl_rewards (py_ledger p') = nl_rewards (py_ledger p) @ new \<and> (\<forall>x\<in>set new. paid_for op (pc_rule c) x)"
  using assms by (fastforce simp: pay_capped_def res_simps split: if_splits prod.splits dest!: pay_adds)

lemma payment_pass_adds:
  "payment_pass h op selected cs p = Inr p' \<Longrightarrow>
   \<exists>new. nl_rewards (py_ledger p') = nl_rewards (py_ledger p) @ new \<and>
     (\<forall>x\<in>set new. \<exists>c\<in>set cs. rule_id_of (pc_rule c) \<in> set selected \<and> paid_for op (pc_rule c) x)"
proof (induction cs arbitrary: p)
  case (Cons c cs)
  show ?case
  proof (cases "rule_id_of (pc_rule c) \<in> set selected")
    case False
    with Cons show ?thesis by auto
  next
    case True
    with Cons.prems obtain p1 where p1: "(if er_caps (pc_rule c) = [] then pay h op (pc_rule c) (pc_units c) (pc_trace c) p
        else pay_capped h op c p) = Inr p1" and rest: "payment_pass h op selected cs p1 = Inr p'"
      by (auto simp: res_simps)
    obtain new1 where "nl_rewards (py_ledger p1) = nl_rewards (py_ledger p) @ new1" "\<forall>x\<in>set new1. paid_for op (pc_rule c) x"
      using p1 by (auto split: if_splits dest!: pay_adds pay_capped_adds)
    with Cons.IH [OF rest] True show ?thesis by fastforce
  qed
qed simp

lemma rewards_scan [simp]:
  "nl_rewards (pw_ledger (scan_reject x w)) = nl_rewards (pw_ledger w)"
  "nl_rewards (pw_ledger (scan_apply r w)) = nl_rewards (pw_ledger w)"
  by (simp_all add: scan_reject_def scan_apply_def add_applied_rule_def)


lemma rewards_suppress [simp]: "nl_rewards (pw_ledger (suppress_targets op x e w)) = nl_rewards (pw_ledger w)"
  by (simp add: suppress_targets_def)

lemma rewards_judge [simp]: "nl_rewards (pw_ledger (judge_rule h ctx op r w)) = nl_rewards (pw_ledger w)"
  by (simp add: judge_rule_def deny_rule_def calculate_candidate_def add_candidate_def Let_def
      split: option.splits rule_calculation.splits sum.splits prod.splits)

lemma rewards_exclusion_pass: "exclusion_pass h ctx plan op rs w = Inr w' \<Longrightarrow> nl_rewards (pw_ledger w') = nl_rewards (pw_ledger w)"
proof (induction rs arbitrary: w)
  case (Cons r rs)
  show ?case
  proof (cases "rule_matches_operation h (ic_facts ctx) plan op r")
    case (Inr reason)
    with Cons.prems have "exclusion_pass h ctx plan op rs
        (case (reason, reward_exclusion r) of (None, Some e) \<Rightarrow> suppress_targets op r e w | _ \<Rightarrow> w) = Inr w'" by simp
    from Cons.IH [OF this] show ?thesis by (simp split: option.splits)
  qed (use Cons.prems in simp)
qed simp

lemma rewards_rule_pass: "rule_pass h ctx plan op rs w = Inr w' \<Longrightarrow> nl_rewards (pw_ledger w') = nl_rewards (pw_ledger w)"
proof (induction rs arbitrary: w)
  case (Cons r rs)
  show ?case
  proof (cases "rule_matches_operation h (ic_facts ctx) plan op r")
    case (Inr reason)
    with Cons.prems have "rule_pass h ctx plan op rs (case reason of None \<Rightarrow> judge_rule h ctx op r w
        | Some m \<Rightarrow> if acceptance_rule r then scan_reject (rule_refused op r ''rule_excluded'' m) w else w) = Inr w'" by simp
    from Cons.IH [OF this] show ?thesis by (simp split: option.splits if_splits)
  qed (use Cons.prems in simp)
qed simp

lemma rewards_multiplier_pass: "multiplier_pass h op rs w = Inr w' \<Longrightarrow> nl_rewards (pw_ledger w') = nl_rewards (pw_ledger w)"
proof (induction rs arbitrary: w)
  case (Cons r rs)
  have m: "multiply h op r m g w = Inr w1 \<Longrightarrow> nl_rewards (pw_ledger w1) = nl_rewards (pw_ledger w)" for m g w1
    by (auto simp: multiply_def Let_def res_simps add_candidate_def split: if_splits)
  from Cons.prems obtain w1 where "nl_rewards (pw_ledger w1) = nl_rewards (pw_ledger w)" "multiplier_pass h op rs w1 = Inr w'"
    by (auto simp: res_simps split: option.splits rule_calculation.splits dest!: m)
  with Cons.IH [OF this(2)] show ?case by simp
qed simp

lemma rewards_cap_pass: "cap_pass h op progress cs l = Inr (kept, l') \<Longrightarrow> nl_rewards l' = nl_rewards l"
proof (induction cs arbitrary: l kept)
  case (Cons c cs)
  from Cons.prems show ?case by (auto simp: res_simps Let_def split: if_splits dest: Cons.IH)
qed simp

lemma rewards_log_stacking [simp]: "nl_rewards (log_stacking op rs l) = nl_rewards l"
  unfolding log_stacking_def by (induction rs arbitrary: l) auto

text \<open>C5. No reward comes out of nowhere: what the rewards pass adds to the ledger are components of
  this operation, each in the asset and with the sign, certainty and settlement of the output of
  one rule that was selected for the operation's time, matched it, is no transfer, acceptance or
  denying rule, and that no matching reward exclusion names by id or by stack group.\<close>

theorem rewards_come_from_matching_rules:
  assumes "process_reward_rules h ctx plan op options l progress = Inr (valid, p)"
  shows "\<exists>rules new. reward_rules h ctx op options = Inr rules \<and> nl_rewards (py_ledger p) = nl_rewards l @ new \<and>
    (\<forall>c\<in>set new. \<exists>r. may_earn h ctx plan op rules r \<and> paid_for op r c)"
proof -
  from assms obtain rules w capped l' where rules: "reward_rules h ctx op options = Inr rules"
    and w: "scan_rules h ctx plan op rules l = Inr w"
    and capped: "cap_pass h op progress (pw_candidates w) (pw_ledger w) = Inr (capped, l')"
    and p: "payment_pass h op (sr_applied_rule_ids (stack_candidates h capped)) capped
        \<lparr>py_ledger = log_stacking op (sr_rejected (stack_candidates h capped)) l', py_operation_progress = progress,
         py_plan_progress = progress, py_rule_ids = []\<rparr> = Inr p"
    unfolding process_reward_rules_def Let_def by (auto simp: res_simps)
  have "nl_rewards l' = nl_rewards l"
    using w rewards_cap_pass [OF capped]
    by (auto simp: scan_rules_def res_simps start_scan_def
        dest!: rewards_exclusion_pass rewards_rule_pass rewards_multiplier_pass)
  with payment_pass_adds [OF p] obtain new where new: "nl_rewards (py_ledger p) = nl_rewards l @ new"
    "\<forall>x\<in>set new. \<exists>c\<in>set capped. rule_id_of (pc_rule c) \<in> set (sr_applied_rule_ids (stack_candidates h capped)) \<and>
      paid_for op (pc_rule c) x" by auto
  have "may_earn h ctx plan op rules (pc_rule c)" if "c \<in> set capped" for c
    using scan_rules_ok [OF w] cap_pass_rules [OF capped] that by force
  with new rules show ?thesis by blast
qed

section \<open>Caps over several operations\<close>

text \<open>Reserving keeps the period of the progress it adds to.\<close>

lemma reserved_period:
  "reserved_progress h (Some previous) amount spend = Inr r \<Longrightarrow>
   cg_period_start r = cg_period_start previous \<and> cg_period_end r = cg_period_end previous"
  by (auto simp: reserved_progress_def Let_def res_simps)

text \<open>A deviation: when the observed progress of a cap belongs to another period, so that the cap
  starts afresh, what the engine reserves for a paid reward keeps the old period.  Evaluating the
  cap again at any time at which the old progress was reset gives the same answer as before the
  payment, the full limit again: inside one plan the cap is not enforced.\<close>

theorem reservation_after_a_reset_is_forgotten:
  assumes "reserved_progress h (Some previous) amount spend = Inr reserved"
    and "rp_applied (reset_details rt (ci_cap input) (Some (cap_progress.truncate previous)) (ci_operation_timestamp input))"
  shows "evaluate_cap rt (input\<lparr>ci_progress := Some (cap_progress.truncate reserved)\<rparr>) =
    evaluate_cap rt (input\<lparr>ci_progress := Some (cap_progress.truncate previous)\<rparr>)"
proof -
  have "reset_details rt (ci_cap input) (Some (cap_progress.truncate reserved)) (ci_operation_timestamp input) =
      reset_details rt (ci_cap input) (Some (cap_progress.truncate previous)) (ci_operation_timestamp input)"
    using reserved_period [OF assms(1)] by (simp add: reset_details_def cap_progress.truncate_def)
  then show ?thesis
    using assms(2) by (simp add: evaluate_cap_def Let_def progress_range_of_def requested_candidate_def)
qed


definition stale_progress :: plan_cap_progress where
  "stale_progress = \<lparr>cg_status = FS_known, cg_eligible_spend_jpy_min = None, cg_eligible_spend_jpy_max = None,
     cg_reward_earned_units_min = Some ''3'', cg_reward_earned_units_max = None,
     cg_period_start = Some ''2025-01-01T00:00:00Z'', cg_period_end = Some ''2025-01-02T00:00:00Z'',
     pg_observed_at = None, pg_source = SO_user_input\<rparr>"

definition later_input :: cap_evaluation_input where
  "later_input = \<lparr>ci_cap = (sample_cap True)\<lparr>cr_reset_period := RK_month\<rparr>, ci_progress = None,
     ci_operation_timestamp = Some ''2025-01-03T00:00:00Z'', ci_candidate = None,
     ci_reward_units = Some (DL_text (DBig 5)), ci_eligible_spend_jpy = None\<rparr>"

theorem reservation_after_a_reset_is_forgotten_witness:
  "\<exists>h reserved. eh_runtime h = ref_rt \<and> reserved_progress h (Some stale_progress) ''3'' 0 = Inr reserved \<and>
     evaluate_cap ref_rt (later_input\<lparr>ci_progress := Some (cap_progress.truncate reserved)\<rparr>) =
     evaluate_cap ref_rt (later_input\<lparr>ci_progress := Some (cap_progress.truncate stale_progress)\<rparr>)"
proof -
  define h where "h = \<lparr>eh_runtime = ref_rt, eh_number_text = (\<lambda>q. int_text \<lfloor>q\<rfloor>), eh_text_of = (\<lambda>_. ''null''),
     eh_decimal_text = canonical_decimal ref_rt\<rparr>"
  have three: "decimal ref_rt (DStr ''3'') = Inr (DecFinite False 3)"
  proof -
    have "is_decimal_text ''3''" "text_value ''3'' = 3" by code_simp+
    then show ?thesis using ref.parse_text [of "''3''"] by (simp add: decimal_def)
  qed
  obtain reserved where r: "reserved_progress h (Some stale_progress) ''3'' 0 = Inr reserved"
    by (simp add: reserved_progress_def h_def stale_progress_def three Let_def)
  have "read_instant ''2025-01-01T00:00:00Z'' = Some 1735689600000"
    "read_instant ''2025-01-02T00:00:00Z'' = Some 1735776000000"
    "read_instant ''2025-01-03T00:00:00Z'' = Some 1735862400000" by code_simp+
  then have "rp_applied (reset_details ref_rt (ci_cap later_input) (Some (cap_progress.truncate stale_progress))
      (ci_operation_timestamp later_input))"
    by (simp add: reset_details_def later_input_def stale_progress_def cap_progress.truncate_def parse_timestamp_def Let_def)
  from reservation_after_a_reset_is_forgotten [OF r this] r show ?thesis
    by (intro exI [of _ h] exI [of _ reserved]) (simp add: h_def)
qed

end
