(* ===== verification/Plan_Samples.thy ===== *)
theory Plan_Samples
  imports Plan_Theorems Reward_Laws
begin

text \<open>
  A small plan evaluated on the reference runtime: a wallet is loaded from external funding, a
  purchase is paid with points from an opening lot, and part of it is refunded.  The evaluation is
  the common witness of the properties about whole plans.
\<close>

section \<open>The host and the context\<close>

definition ref_host :: engine_host where
  "ref_host = \<lparr>eh_runtime = ref_rt, eh_number_text = (\<lambda>q. int_text \<lfloor>q\<rfloor>), eh_text_of = (\<lambda>_. ''null''),
     eh_decimal_text = canonical_decimal ref_rt\<rparr>"
definition sample_options :: evaluate_plan_options where
  "sample_options = \<lparr>opt_rules = None, opt_ruleset = None, opt_assets = None, opt_user_state = None,
     opt_opening_asset_lots = Some [sample_lot ''9''], opt_openingLots = None, opt_valuation = None,
     opt_valuation_profile = None, opt_transaction_time = Some ''2025-01-01T00:00:00Z'', opt_transactionTime = None,
     opt_replay_knowledge_at = None, opt_replayKnowledgeTime = None, opt_objective = None,
     opt_rule_evaluation_policy = None, opt_ruleEvaluationPolicy = None, opt_valuation_policy = None,
     opt_valuationPolicy = None, opt_feasibleStates = None\<rparr>"
definition sample_ctx :: internal_context where
  "sample_ctx = make_internal_context sample_options"

lemma sample_ctx_simps:
  "ic_rules sample_ctx = []" "ic_opening_lots sample_ctx = [sample_lot ''9'']" "ic_asset_definitions sample_ctx = []"
  "ic_cap_progress sample_ctx = []" "opening_ids sample_ctx = [''lot'']"
  by (simp_all add: sample_ctx_def make_internal_context_def sample_options_def asset_definitions_by_id_def
    opening_ids_def sample_lot_def)

section \<open>The operations\<close>

definition points_asset :: asset_ref where
  "points_asset = q_asset (sample_points [])"

definition sample_purchase :: operation where
  "sample_purchase = (sample_clickout ''op_pay'' 2 ''2025-01-02T00:00:00Z'')\<lparr>op_operation_type := OT_merchant_purchase,
     op_merchant_id := Some ''shop'', op_channel := CH_in_store, op_amount_jpy := Some 4,
     op_asset_inputs := [\<lparr>ai_input_id = ''tender'', ai_source_lot_id = Some ''lot'', ai_quantity = sample_points ''4'',
       ai_role = IR_points_tender\<rparr>],
     op_line_items := [\<lparr>li_line_item_id = ''tea'', li_product_class = ''food'', li_amount_jpy = 4,
       li_tax_exclusive_amount_jpy = None, li_quantity = 1, li_eligible_for_rewards = None\<rparr>]\<rparr>"

definition sample_top_up :: operation where
  "sample_top_up = (sample_clickout ''op_load'' 1 ''2025-01-01T00:00:00Z'')\<lparr>op_operation_type := OT_stored_value_top_up,
     op_amount_jpy := Some 5,
     op_asset_inputs := [\<lparr>ai_input_id = ''cash'', ai_source_lot_id = None, ai_quantity = sample_points ''5'',
       ai_role = IR_external_funding\<rparr>],
     op_output_requests := [\<lparr>or_request_id = ''load'', or_created_lot_id = ''wallet'', or_asset = points_asset,
       or_requested_amount = None, or_role = OU_stored_value\<rparr>]\<rparr>"

definition sample_return :: operation where
  "sample_return = (sample_clickout ''op_back'' 3 ''2025-01-03T00:00:00Z'')\<lparr>op_operation_type := OT_refund,
     op_amount_jpy := Some 3, op_original_operation_id := Some ''op_pay'',
     op_output_requests := [\<lparr>or_request_id = ''back'', or_created_lot_id = ''returned'', or_asset = points_asset,
       or_requested_amount = None, or_role = OU_refund\<rparr>]\<rparr>"

definition sample_spending_plan :: purchase_plan where
  "sample_spending_plan = sample_plan\<lparr>pp_operations := [sample_purchase, sample_top_up, sample_return], pp_dependencies := []\<rparr>"

lemma points_simps:
  "q_asset (sample_points t) = points_asset" "q_amount (sample_points t) = t" "ar_scale points_asset = 0"
  "\<lparr>q_asset = points_asset, q_amount = t\<rparr> = sample_points t" "al_quantity (sample_lot t) = sample_points t"
  by (simp_all add: sample_points_def points_asset_def sample_lot_def)

lemma sample_op_simps:
  "op_operation_id sample_top_up = ''op_load''" "op_operation_type sample_top_up = OT_stored_value_top_up"
  "op_amount_jpy sample_top_up = Some 5" "op_asset_inputs sample_top_up = [\<lparr>ai_input_id = ''cash'', ai_source_lot_id = None,
     ai_quantity = sample_points ''5'', ai_role = IR_external_funding\<rparr>]"
  "op_output_requests sample_top_up = [\<lparr>or_request_id = ''load'', or_created_lot_id = ''wallet'', or_asset = points_asset,
     or_requested_amount = None, or_role = OU_stored_value\<rparr>]"
  "op_occurred_at sample_top_up = ''2025-01-01T00:00:00Z''" "op_sequence sample_top_up = 1"
  "op_operation_id sample_purchase = ''op_pay''" "op_operation_type sample_purchase = OT_merchant_purchase"
  "op_amount_jpy sample_purchase = Some 4" "op_asset_inputs sample_purchase = [\<lparr>ai_input_id = ''tender'',
     ai_source_lot_id = Some ''lot'', ai_quantity = sample_points ''4'', ai_role = IR_points_tender\<rparr>]"
  "op_output_requests sample_purchase = []" "op_occurred_at sample_purchase = ''2025-01-02T00:00:00Z''"
  "op_sequence sample_purchase = 2" "op_original_operation_id sample_purchase = None"
  "op_operation_id sample_return = ''op_back''" "op_operation_type sample_return = OT_refund"
  "op_amount_jpy sample_return = Some 3" "op_asset_inputs sample_return = []"
  "op_output_requests sample_return = [\<lparr>or_request_id = ''back'', or_created_lot_id = ''returned'', or_asset = points_asset,
     or_requested_amount = None, or_role = OU_refund\<rparr>]"
  "op_original_operation_id sample_return = Some ''op_pay''" "op_occurred_at sample_return = ''2025-01-03T00:00:00Z''"
  "op_sequence sample_return = 3" "op_original_operation_id sample_top_up = None"
  by (simp_all add: sample_top_up_def sample_purchase_def sample_return_def sample_clickout_def)

section \<open>Reading the numbers\<close>

lemma sample_amount_texts:
  "units_from_amount ref_rt ''3'' 0 m = Inr 3" "units_from_amount ref_rt ''4'' 0 m = Inr 4"
  "units_from_amount ref_rt ''5'' 0 m = Inr 5" "units_from_amount ref_rt ''9'' 0 m = Inr 9"
  "amount_from_units ref_rt 3 0 = Inr ''3''" "amount_from_units ref_rt 4 0 = Inr ''4''"
  "amount_from_units ref_rt 5 0 = Inr ''5''"
  "rt_parse ref_rt ''3'' = DecFinite False 3" "rt_parse ref_rt ''4'' = DecFinite False 4"
  "rt_parse ref_rt ''5'' = DecFinite False 5"
proof -
  have texts: "is_decimal_text ''9''" "is_decimal_text ''3''" "is_decimal_text ''4''" "is_decimal_text ''5''"
    "text_value ''9'' = 9" "text_value ''4'' = 4" "text_value ''5'' = 5" "text_value ''3'' = 3" by code_simp+
  have trims: "trim_decimal (fixed_text 3 0) = ''3''" "trim_decimal (fixed_text 4 0) = ''4''" "trim_decimal (fixed_text 5 0) = ''5''"
     by code_simp+
  show "units_from_amount ref_rt ''3'' 0 m = Inr 3" "units_from_amount ref_rt ''4'' 0 m = Inr 4"
  "units_from_amount ref_rt ''5'' 0 m = Inr 5" "units_from_amount ref_rt ''9'' 0 m = Inr 9"
    using decimal_text.units_from_amount_eq [OF ref.decimal_text_axioms, of "''3''" 3 0 m]
     decimal_text.units_from_amount_eq [OF ref.decimal_text_axioms, of "''4''" 4 0 m]
     decimal_text.units_from_amount_eq [OF ref.decimal_text_axioms, of "''5''" 5 0 m]
     decimal_text.units_from_amount_eq [OF ref.decimal_text_axioms, of "''9''" 9 0 m]
    by (simp_all add: texts dec_limit_def)
  show   "amount_from_units ref_rt 3 0 = Inr ''3''" "amount_from_units ref_rt 4 0 = Inr ''4''"
  "amount_from_units ref_rt 5 0 = Inr ''5''"
    using decimal_text.amount_from_units_eq [OF ref.decimal_text_axioms, of 3 0]
      decimal_text.amount_from_units_eq [OF ref.decimal_text_axioms, of 4 0]
      decimal_text.amount_from_units_eq [OF ref.decimal_text_axioms, of 5 0] by (simp_all add: trims dec_limit_def)
  show "rt_parse ref_rt ''3'' = DecFinite False 3" "rt_parse ref_rt ''4'' = DecFinite False 4"
    "rt_parse ref_rt ''5'' = DecFinite False 5"
    using ref.parse_text by (simp_all add: texts)
qed


lemma sample_sums: "dadd ref_rt 0 5 = 5" "dadd ref_rt 0 4 = 4"
  using ref.round_exact [OF representable_small, of 5] ref.round_exact [OF representable_small, of 4]
  by (simp_all add: dadd_def)

lemma sample_parses: "ref_parse ''3'' = DecFinite False 3" "ref_parse ''4'' = DecFinite False 4"
  "ref_parse ''5'' = DecFinite False 5"
  using sample_amount_texts(8-10) by simp_all

lemma sample_int_texts: "int_text 5 = ''5''" "int_text 4 = ''4''" "int_text 3 = ''3''"
  by code_simp+

lemma sample_quantities:
  "quantity_in_units ref_rt (sample_points ''3'') = Inr 3" "quantity_in_units ref_rt (sample_points ''4'') = Inr 4"
  "quantity_in_units ref_rt (sample_points ''5'') = Inr 5" "quantity_in_units ref_rt (sample_points ''9'') = Inr 9"
  "quantity_of_units ref_rt points_asset 3 = Inr (sample_points ''3'')"
  "quantity_of_units ref_rt points_asset 4 = Inr (sample_points ''4'')"
  "quantity_of_units ref_rt points_asset 5 = Inr (sample_points ''5'')"
  by (simp_all add: quantity_in_units_def quantity_of_units_def sample_amount_texts points_simps)

section \<open>No rules, no rewards\<close>

lemma stack_nothing: "sr_applied_rule_ids (stack_candidates h []) = []" "sr_rejected (stack_candidates h []) = []"
  by (simp_all add: stack_candidates_def resolve_stacking_def source_candidates_def conflict_phase_def replace_phase_def best_phase_def dependency_loop.simps recheck_loop.simps Let_def
    js_sort_def unique_def split: prod.split)

lemma no_rules: "ic_rules ctx = [] \<Longrightarrow> process_reward_rules h ctx plan op options l progress =
   Inr (True, \<lparr>py_ledger = l, py_operation_progress = progress, py_plan_progress = progress, py_rule_ids = []\<rparr>)"
  by (simp add: process_reward_rules_def reward_rules_def scan_rules_def start_scan_def stack_nothing log_stacking_def)


section \<open>The evaluation, step by step\<close>

lemma rat_cmp_self [simp]: "rat_cmp x x = 0"
  by (simp add: rat_cmp_def)

definition sample_start :: plan_state where
  "sample_start = initial_state sample_ctx [(''lot'', \<lparr>ml_lot = sample_lot ''9'', ml_units = 9, ml_scale = 0, ml_created_in_plan = False\<rparr>)]"

definition created_lot :: "operation \<Rightarrow> string \<Rightarrow> string \<Rightarrow> asset_lot" where
  "created_lot op i t = \<lparr>al_lot_id = i, al_quantity = sample_points t, al_acquired_at = Some (op_occurred_at op),
     al_source_operation_id = Some (op_operation_id op), al_settlement = default_settlement, al_expiry = default_expiry,
     al_restrictions = default_restrictions, al_provenance_rule_ids = []\<rparr>"

lemmas reading_defs = sample_amount_texts decimal_def sample_parses sample_sums sample_int_texts sample_quantities
  points_simps sample_op_simps sample_ctx_simps
lemmas state_defs = initial_state_def zero_ledger_def push_movement_def on_ledger_def
  with_rewards_def check_that_def install_lot_def sample_start_def
lemmas purchase_defs = process_operation_def process_purchase_def take_funding_def funding_amount_def funding_check_def
  tender_check_def finish_purchase_def add_output_def requested_text_def amount_text_def lot_from_request_def
  funding_problem_def equals_int_def no_rules

definition new_lot :: "operation \<Rightarrow> string \<Rightarrow> string \<Rightarrow> int \<Rightarrow> mutable_lot" where
  "new_lot op i t n = \<lparr>ml_lot = created_lot op i t, ml_units = n, ml_scale = 0, ml_created_in_plan = True\<rparr>"

definition opening_lot :: "string \<Rightarrow> int \<Rightarrow> mutable_lot" where
  "opening_lot t n = \<lparr>ml_lot = sample_lot t, ml_units = n, ml_scale = 0, ml_created_in_plan = False\<rparr>"

definition sample_movements :: "asset_movement list" where
  "sample_movements =
     [movement sample_top_up D_consume MR_external_funding (sample_points ''5'') None None 0
        ''Explicit external funding; not a reusable lot.'',
      movement sample_top_up D_create MR_principal_output (sample_points ''5'') None (Some ''wallet'') 1
        ''Created a principal asset lot from explicit funding.'',
      movement sample_purchase D_consume MR_principal_tender (sample_points ''4'') (Some ''lot'') None 2
        ''Consumed from an existing asset lot.'',
      movement sample_return D_return MR_refund (sample_points ''3'') None (Some ''returned'') 3
        ''refund output derived from a reviewed Milestone 1B operation.'']"

definition sample_state :: "lots \<Rightarrow> nat \<Rightarrow> int \<Rightarrow> native_quantity list \<Rightarrow> plan_state" where
  "sample_state lots n merchant consumed =
     \<lparr>st_lots = lots, st_ledger = zero_ledger\<lparr>nl_movements := take n sample_movements, nl_external_funding_jpy := 5,
        nl_merchant_value_jpy := merchant, nl_opening_consumed := consumed\<rparr>,
      st_movement_index = n, st_cap_progress = [], st_visited_asset_ids = []\<rparr>"

definition sample_loaded :: plan_state where
  "sample_loaded = sample_state [(''lot'', opening_lot ''9'' 9), (''wallet'', new_lot sample_top_up ''wallet'' ''5'' 5)] 2 0 []"

definition sample_paid :: plan_state where
  "sample_paid = sample_state [(''lot'', opening_lot ''5'' 5), (''wallet'', new_lot sample_top_up ''wallet'' ''5'' 5)] 3 4
     [native_quantity_of points_asset 4]"

definition sample_refunded :: plan_state where
  "sample_refunded = sample_state [(''lot'', opening_lot ''5'' 5), (''wallet'', new_lot sample_top_up ''wallet'' ''5'' 5),
     (''returned'', new_lot sample_return ''returned'' ''3'' 3)] 4 1 [native_quantity_of points_asset 4]"

lemmas sample_state_defs = sample_state_def sample_movements_def new_lot_def created_lot_def opening_lot_def
  sample_loaded_def sample_paid_def sample_refunded_def

lemma js_sort_Nil: "js_sort (unique []) = []"
  by (simp add: js_sort_def unique_def)

lemma sample_step_1:
  "process_operation ref_host sample_ctx sample_spending_plan [''lot''] sample_top_up sample_start = Inr (True, sample_loaded)"
  by (simp add: reading_defs state_defs purchase_defs ref_host_def sample_state_defs js_sort_Nil)

lemma sample_lot_asset: "lot_asset (opening_lot t n) = points_asset" "al_expiry (sample_lot t) = default_expiry"
  "ur_usable_for_payment (al_restrictions (sample_lot t)) = None"
  by (simp_all add: lot_asset_def opening_lot_def sample_lot_def sample_points_def points_asset_def default_expiry_def)

lemma sample_consumable:
  "consumable ref_rt sample_purchase \<lparr>ai_input_id = ''tender'', ai_source_lot_id = Some ''lot'',
     ai_quantity = sample_points ''4'', ai_role = IR_points_tender\<rparr> ''lot'' (opening_lot ''9'' 9) = Inr 4"
  by (simp add: consumable_def sample_lot_asset points_simps sample_quantities)
     (simp add: opening_lot_def sample_lot_asset expired_at_def falsy_def default_expiry_def not_payable_def)

lemma sample_change: "(sample_lot t)\<lparr>al_quantity := sample_points u\<rparr> = sample_lot u"
  by (simp add: sample_lot_def)

lemma opening_lot_simps:
  "ml_units (opening_lot t n) = n" "(opening_lot t n)\<lparr>ml_units := m\<rparr> = opening_lot t m"
  "with_units (sample_points u) (opening_lot t n) = opening_lot u n"
  by (simp_all add: opening_lot_def with_units_def sample_change)

lemma sample_step_2:
  "process_operation ref_host sample_ctx sample_spending_plan [''lot''] sample_purchase sample_loaded = Inr (True, sample_paid)"
  by (simp add: reading_defs state_defs purchase_defs ref_host_def sample_loaded_def sample_state_def consume_lot_def falsy_def
      sample_consumable take_units_def sample_lot_asset principal_role_def Let_def add_native_quantity_def opening_lot_simps)
     (simp add: sample_movements_def sample_paid_def sample_state_def zero_ledger_def consumption_role_def)

lemma sample_original:
  "find (\<lambda>c. op_operation_id c = ''op_pay'') (pp_operations sample_spending_plan) = Some sample_purchase"
  by (simp add: sample_spending_plan_def sample_op_simps)

lemma sample_tender: "matching_tender sample_purchase points_asset = op_asset_inputs sample_purchase"
  by (simp add: matching_tender_def sample_op_simps quantity_key_def points_simps)

lemma sample_corrections:
  "corrections_of sample_spending_plan sample_purchase sample_return = [sample_return]"
  by (simp add: corrections_of_def sample_spending_plan_def sample_op_simps is_correction_def)

lemma sample_correction_ok:
  "correction_problem ref_rt sample_spending_plan sample_return sample_purchase
     \<lparr>or_request_id = ''back'', or_created_lot_id = ''returned'', or_asset = points_asset,
      or_requested_amount = None, or_role = OU_refund\<rparr> ''3'' = Inr None"
  by (simp add: correction_problem_def reading_defs Let_def jpy_problem_def sample_tender sample_corrections
      correction_outputs_def requested_text_def amount_text_def)

lemma sample_step_3:
  "process_operation ref_host sample_ctx sample_spending_plan [''lot''] sample_return sample_paid = Inr (True, sample_refunded)"
  by (simp add: process_operation_def process_lifecycle_operation_def sample_original sample_correction_ok reading_defs
      state_defs ref_host_def requested_text_def amount_text_def sample_paid_def sample_state_def add_derived_output_def
      derived_units_def Let_def lot_from_request_def js_sort_Nil apply_output_policy_def settle_correction_def role_text_def)
     (simp add: sample_state_defs zero_ledger_def points_simps sample_op_simps half_up_of_int [of 3, simplified])

lemma sample_initial_lots: "initial_lots ref_rt sample_ctx = Inr [(''lot'', opening_lot ''9'' 9)]"
  by (simp add: initial_lots_def sample_ctx_simps points_simps sample_quantities opening_lot_def)
     (simp add: sample_lot_def)

lemma sample_start_eq: "initial_state sample_ctx [(''lot'', opening_lot ''9'' 9)] = sample_start"
  by (simp add: sample_start_def opening_lot_def)

lemma sample_order: "by_sequence (pp_operations sample_spending_plan) = [sample_top_up, sample_purchase, sample_return]"
  by (simp add: by_sequence_def sample_spending_plan_def cmp_key_def sample_op_simps)

lemma sample_run:
  "run_operations ref_host sample_ctx sample_spending_plan [''lot'']
     (by_sequence (pp_operations sample_spending_plan)) True sample_start = Inr (True, sample_refunded)"
  by (simp add: sample_order sample_step_1 sample_step_2 sample_step_3)

lemma sample_reachable: "reachable ref_host sample_ctx sample_spending_plan sample_refunded"
proof (rule run_reachable)
  show "run_operations ref_host sample_ctx sample_spending_plan (opening_ids sample_ctx)
     (by_sequence (pp_operations sample_spending_plan)) True sample_start = Inr (True, sample_refunded)"
    by (simp add: sample_run sample_ctx_simps)
  show "reachable ref_host sample_ctx sample_spending_plan sample_start"
    using reachable.start [of ref_host sample_ctx "[(''lot'', opening_lot ''9'' 9)]" sample_spending_plan]
    by (simp add: sample_start_eq sample_initial_lots ref_host_def)
qed (simp add: by_sequence_def)

lemma sample_times:
  "read_instant ''2025-01-01T00:00:00Z'' = Some 1735689600000"
  "read_instant ''2025-01-02T00:00:00Z'' = Some 1735776000000"
  "read_instant ''2025-01-03T00:00:00Z'' = Some 1735862400000"
  by code_simp+

lemma sample_details:
  "op_merchant_id sample_purchase = Some ''shop''" "op_merchant_id sample_top_up = None"
  "op_line_items sample_top_up = []" "op_line_items sample_return = []"
  "op_line_items sample_purchase = [\<lparr>li_line_item_id = ''tea'', li_product_class = ''food'', li_amount_jpy = 4,
     li_tax_exclusive_amount_jpy = None, li_quantity = 1, li_eligible_for_rewards = None\<rparr>]"
  by (simp_all add: sample_purchase_def sample_top_up_def sample_return_def sample_clickout_def)

lemma sample_operations_ok:
  "\<forall>op\<in>{sample_purchase, sample_top_up, sample_return}. operation_ok ref_rt op"
  by (simp add: operation_ok_def operation_time_def sample_op_simps sample_times sample_details safe_int_def falsy_def
      input_ok_def output_ok_def line_ok_def units_ok_def points_simps sample_amount_texts)

lemma sample_plan_ok: "validate_purchase_plan ref_rt sample_spending_plan = Inr ()"
proof -
  have ops: "pp_operations sample_spending_plan = [sample_purchase, sample_top_up, sample_return]"
    "pp_dependencies sample_spending_plan = []" "pp_extra_fields sample_spending_plan = []"
    "pp_plan_id sample_spending_plan = ''plan_1''" by (simp_all add: sample_spending_plan_def sample_plan_def)
  show ?thesis
    using sample_operations_ok
    by (simp add: plan_validation_spec Validation.plan_ok_def ops Let_def sample_op_simps disjoint_outputs_def
        output_names_def operation_time_def sample_times)
qed

text \<open>The whole evaluation.\<close>

definition sample_ending :: "asset_lot list" where
  "sample_ending = [sample_lot ''5'', created_lot sample_return ''returned'' ''3'', created_lot sample_top_up ''wallet'' ''5'']"

lemma sample_ending_lot:
  "ending_lot ref_rt (opening_lot ''5'' 5) = Inr (sample_lot ''5'')"
  "ending_lot ref_rt (new_lot sample_return ''returned'' ''3'' 3) = Inr (created_lot sample_return ''returned'' ''3'')"
  "ending_lot ref_rt (new_lot sample_top_up ''wallet'' ''5'' 5) = Inr (created_lot sample_top_up ''wallet'' ''5'')"
  by (simp_all add: ending_lot_def lot_asset_def opening_lot_def new_lot_def created_lot_def points_simps
    sample_quantities sample_change)

lemma sample_lot_ids: "al_lot_id (ml_lot (opening_lot t n)) = ''lot''" "al_lot_id (ml_lot (new_lot op i t n)) = i"
  "ml_units (new_lot op i t n) = n"
  by (simp_all add: opening_lot_def new_lot_def created_lot_def sample_lot_def)

lemma sample_ids_ordered: "str_cmp ''lot'' ''returned'' \<le> 0" "\<not> str_cmp ''wallet'' ''returned'' \<le> 0"
  "str_cmp ''lot'' ''wallet'' \<le> 0"
  by code_simp+

lemma sample_ends: "ending_lots ref_rt (st_lots sample_refunded) = Inr sample_ending"
  by (simp add: ending_lots_def sample_refunded_def sample_state_def sample_lot_ids opening_lot_simps cmp_on_def
      sample_ids_ordered sample_ending_lot sample_ending_def)

lemma sample_conserves: "validate_conservation ref_rt (ic_opening_lots sample_ctx) sample_movements sample_ending = Inr ()"
  by (simp add: validate_conservation_def sample_ctx_simps sample_ending_def created_lot_def points_simps sample_quantities
      sample_movements_def movement_def off_ledger_def movement_sign_def add_balance_def)

definition sample_result :: native_plan_result where
  "sample_result = native_result sample_spending_plan True (st_ledger sample_refunded) sample_ending"

theorem sample_evaluation:
  "evaluate_native_plan ref_host (\<lambda>_ _. Inr ()) sample_spending_plan sample_options = Inr sample_result"
proof -
  have host: "eh_runtime ref_host = ref_rt" by (simp add: ref_host_def)
  have movements: "movements sample_refunded = sample_movements"
    by (simp add: sample_refunded_def sample_state_def sample_movements_def)
  have "close_plan ref_rt sample_ctx sample_spending_plan (True, sample_refunded) = Inr sample_result"
    by (simp add: close_plan_def sample_ends movements sample_conserves sample_result_def)
  then have "evaluate_valid_plan ref_host sample_ctx sample_spending_plan = Inr sample_result"
    by (simp add: evaluate_valid_plan_def host sample_initial_lots sample_start_eq sample_ctx_simps sample_run)
  then show ?thesis
    by (simp add: evaluate_native_plan_def sample_ctx_def [symmetric] host sample_plan_ok thrown_def)
qed


section \<open>Witnesses\<close>

lemma sample_parts:
  "eh_runtime ref_host = ref_rt" "np_asset_movements sample_result = sample_movements"
  "np_ending_asset_lots sample_result = sample_ending" "np_external_funding_jpy sample_result = 5"
  "np_opening_asset_units_consumed sample_result = [native_quantity_of points_asset 4]"
  "ic_opening_lots (make_internal_context sample_options) = [sample_lot ''9'']"
  "opening_ids (make_internal_context sample_options) = [''lot'']"
  "movements sample_refunded = sample_movements"
  using sample_ctx_simps
  by (simp_all add: ref_host_def sample_result_def native_result_def sample_refunded_def sample_state_def sample_movements_def
    sample_ctx_def)

lemma sample_small: "\<forall>l\<in>set [sample_lot ''9'']. units_of ref_rt (al_quantity l) < int dec_limit"
  by (simp add: points_simps units_of_def sample_quantities dec_limit_def)

lemma sample_modest: "modest ref_rt sample_movements"
  by (simp add: modest_def sample_movements_def movement_def units_of_def sample_quantities dec_limit_def)

theorem plan_conserves_principal_witness:
  "validate_conservation ref_rt [sample_lot ''9''] sample_movements sample_ending = Inr () \<and>
   reported points_asset [native_quantity_of points_asset 4] = opening_spent ref_rt [''lot''] points_asset sample_movements"
  using plan_conserves_principal [OF _ sample_evaluation] ref.decimal_text_axioms sample_small sample_modest
  by (simp add: sample_parts)

theorem lots_are_never_overdrawn_witness:
  "reachable ref_host sample_ctx sample_spending_plan sample_refunded \<and>
   in_stock (asset_bucket points_asset) (st_lots sample_refunded) =
     held ref_rt (asset_bucket points_asset) [sample_lot ''9''] + moved ref_rt (asset_bucket points_asset) sample_movements"
  using lots_are_never_overdrawn [OF _ sample_reachable] ref.decimal_text_axioms sample_small sample_modest sample_reachable
  by (simp add: sample_parts sample_ctx_simps)

theorem movements_are_numbered_and_funded_witness:
  "distinct (map am_movement_id sample_movements) \<and> sum_list (map (funding_jpy ref_rt) sample_movements) = 5"
  using movements_are_numbered_and_funded [OF sample_evaluation] by (simp add: sample_parts)

text \<open>The sample pays four points and takes three of them back.\<close>

theorem correction_is_bounded_witness:
  "np_eligible sample_result \<and> corrections sample_spending_plan sample_purchase = [sample_return] \<and>
   returned_units ref_rt points_asset sample_return = 3 \<and> tendered_units ref_rt sample_purchase points_asset = 4 \<and>
   (\<exists>m\<in>set sample_movements. am_direction m = D_return \<and> am_destination_lot_id m = Some ''returned'' \<and>
      units_of ref_rt (am_quantity m) = 3)"
proof -
  have ops: "pp_operations sample_spending_plan = [sample_purchase, sample_top_up, sample_return]" by (simp add: sample_spending_plan_def)
  have el: "np_eligible sample_result" by (simp add: sample_result_def native_result_def)
  have cs: "corrections sample_spending_plan sample_purchase = [sample_return]"
    by (simp add: corrections_def ops sample_op_simps)
  have three: "returned_units ref_rt points_asset sample_return = 3"
    by (simp add: returned_units_def same_money_def asked_units_def sample_op_simps units_of_def quantity_in_units_def
        points_simps sample_amount_texts sample_int_texts)
  have four: "tendered_units ref_rt sample_purchase points_asset = 4"
    by (simp add: tendered_units_def sample_op_simps same_money_def units_of_def points_simps sample_quantities)
  have "decimal_text (eh_runtime ref_host)" using ref.decimal_text_axioms by (simp add: sample_parts)
  from correction_is_bounded [OF this sample_evaluation el, of sample_purchase]
  have "corrected ref_rt sample_purchase sample_movements sample_return" by (simp add: ops cs sample_parts)
  then have "\<exists>m\<in>set sample_movements. am_direction m = D_return \<and> am_destination_lot_id m = Some ''returned'' \<and>
      units_of ref_rt (am_quantity m) = returned_units ref_rt points_asset sample_return"
    unfolding corrected_def by (simp add: sample_op_simps) blast
  then show ?thesis using el cs three four by simp
qed

end
