(* ===== verification/Exchange_Sample.thy ===== *)
theory Exchange_Sample
  imports Plan_Samples
begin

text \<open>
  A transfer of points to miles on the reference runtime, from the selection of its rule to the new
  lot: the witness of the properties of transfers.
\<close>

section \<open>The rule and the operation\<close>

definition miles_asset :: asset_ref where
  "miles_asset = points_asset\<lparr>ar_asset_id := ''miles''\<rparr>"

definition exchange_calculation :: transfer_calculation where
  "exchange_calculation = \<lparr>ts_source_asset = points_asset, ts_destination_asset = miles_asset,
     ts_source_units = ''4'', ts_destination_units = ''3'', ts_minimum_source_units = None,
     ts_increment_source_units = None, ts_maximum_source_units_per_request = None,
     ts_maximum_source_units_per_period = None, ts_maximum_period = None, ts_fee = None,
     ts_rounding = \<lparr>ro_aggregation_scope = AS_transfer_request, ro_eligible_spend_quantum_jpy = None,
       ro_reward_rounding_mode = RM_floor\<rparr>,
     ts_cancellation_policy = CN_unknown,
     tf_processing_time_days_min = None, tf_processing_time_days_max = None, tf_bonus_rule_ids = None\<rparr>"

definition anything :: operation_match where
  "anything = \<lparr>mt_required_loyalty_program_ids = None, mt_allowed_payment_instrument_ids = None,
     mt_excluded_payment_instrument_ids = None, mt_allowed_funding_source_ids = None,
     mt_excluded_funding_source_ids = None, mt_allowed_source_asset_ids = None, mt_excluded_source_asset_ids = None,
     mt_allowed_destination_asset_ids = None, mt_required_interfaces = None, mt_excluded_interfaces = None,
     mt_must_present_before_payment = None\<rparr>"

definition exchange_scope :: rule_scope where
  "exchange_scope = \<lparr>sc_countries = [''JP''], sc_operation_types = [OT_point_transfer], sc_merchant_ids = None,
     sc_excluded_merchant_ids = None, sc_merchant_location_ids = None, sc_excluded_merchant_location_ids = None,
     sc_channels = [CH_portal_clickout], sc_included_product_classes = None, sc_excluded_product_classes = None,
     sc_tax_basis = None\<rparr>"

definition exchange_rule :: engine_rule where
  "exchange_rule = \<lparr>rd_rule = (rd_rule sample_document)\<lparr>rr_scope := exchange_scope\<rparr>, rd_json = JNull,
     er_operation_match = anything, er_user_conditions = [], er_entry_deadline = None, er_effect = None,
     er_calculation = Some (RL_transfer_ratio exchange_calculation), er_output = None, er_caps = []\<rparr>"

definition exchange_source :: asset_input where
  "exchange_source = \<lparr>ai_input_id = ''source'', ai_source_lot_id = Some ''lot'', ai_quantity = sample_points ''4'',
     ai_role = IR_transfer_source\<rparr>"

definition exchange_output :: output_request where
  "exchange_output = \<lparr>or_request_id = ''target'', or_created_lot_id = ''flown'', or_asset = miles_asset,
     or_requested_amount = None, or_role = OU_transfer_destination\<rparr>"

definition exchange :: operation where
  "exchange = (sample_clickout ''op_fly'' 1 ''2025-01-02T00:00:00Z'')\<lparr>op_operation_type := OT_point_transfer,
     op_asset_inputs := [exchange_source], op_output_requests := [exchange_output]\<rparr>"

definition exchange_ctx :: internal_context where
  "exchange_ctx = sample_ctx\<lparr>ic_rules := [exchange_rule], ic_replay_knowledge_at := ''2025-01-03T00:00:00Z'',
     ic_rule_evaluation_policy := EV_approved\<rparr>"

definition exchange_plan :: purchase_plan where
  "exchange_plan = sample_plan\<lparr>pp_operations := [exchange], pp_dependencies := []\<rparr>"

lemma exchange_simps:
  "op_operation_id exchange = ''op_fly''" "op_operation_type exchange = OT_point_transfer"
  "op_asset_inputs exchange = [exchange_source]" "op_output_requests exchange = [exchange_output]"
  "op_occurred_at exchange = ''2025-01-02T00:00:00Z''" "op_channel exchange = CH_portal_clickout"
  "op_line_items exchange = []" "op_amount_jpy exchange = None" "op_merchant_id exchange = None"
  "ai_source_lot_id exchange_source = Some ''lot''" "ai_quantity exchange_source = sample_points ''4''"
  "ai_role exchange_source = IR_transfer_source" "or_asset exchange_output = miles_asset"
  "or_created_lot_id exchange_output = ''flown''" "or_requested_amount exchange_output = None"
  "or_role exchange_output = OU_transfer_destination" "ar_scale miles_asset = 0" "miles_asset \<noteq> points_asset"
  "ts_source_asset exchange_calculation = points_asset" "ts_destination_asset exchange_calculation = miles_asset"
  "ts_fee exchange_calculation = None" "er_output exchange_rule = None"
  "ts_source_asset (transfer_calculation_spec.truncate exchange_calculation) = points_asset"
  "ts_destination_asset (transfer_calculation_spec.truncate exchange_calculation) = miles_asset"
  "tf_processing_time_days_min exchange_calculation = None" "tf_processing_time_days_max exchange_calculation = None"
  "tf_bonus_rule_ids exchange_calculation = None"
  by (simp_all add: exchange_def sample_clickout_def exchange_source_def exchange_output_def miles_asset_def
    points_simps exchange_calculation_def exchange_rule_def transfer_calculation_spec.truncate_def)
     (simp add: points_asset_def sample_points_def)

section \<open>Selection\<close>

lemma exchange_id: "rule_id_of exchange_rule = ''rule''"
  by (simp add: exchange_rule_def sample_document_def sample_rule_def)

lemma exchange_covered:
  "covers ref_rt (rr_validity (rd_rule exchange_rule)) ''2025-01-02T00:00:00Z'' ''2025-01-03T00:00:00Z'' = Inr True"
  by code_simp

lemma exchange_admitted: "admitted EV_approved (rd_rule exchange_rule)"
  by code_simp

lemma exchange_ctx_simps:
  "ic_rules exchange_ctx = [exchange_rule]" "ic_replay_knowledge_at exchange_ctx = ''2025-01-03T00:00:00Z''"
  "ic_rule_evaluation_policy exchange_ctx = EV_approved" "ic_opening_lots exchange_ctx = [sample_lot ''9'']"
  "ic_asset_definitions exchange_ctx = []" "opening_ids exchange_ctx = [''lot'']"
  "ic_facts exchange_ctx = []" "ic_cap_progress exchange_ctx = []"
  using sample_ctx_simps
  by (simp_all add: exchange_ctx_def opening_ids_def) (simp add: sample_ctx_def make_internal_context_def sample_options_def)

lemma exchange_rules: "rules_for ref_host exchange_ctx exchange = Inr [exchange_rule]"
  by (simp add: rules_for_def select_rules_for_evaluation_def exchange_ctx_simps exchange_simps exchange_covered
      exchange_admitted single_match_def sample_parts)

lemma exchange_matches: "rule_matches_operation ref_host [] exchange_plan exchange exchange_rule = Inr None"
  by (simp add: rule_matches_operation_def scope_reason_def exchange_simps Let_def)
     (simp add: exchange_rule_def exchange_scope_def match_reason_def amount_reason_def deadline_reason_def anything_def
       outside_def excluded_by_def none_allowed_def compare_string_lists_def sample_document_def sample_rule_def
       exchange_simps Let_def falsy_def)

lemma exchange_selected: "transfer_rules ref_host exchange_ctx exchange_plan exchange = Inr [exchange_rule]"
  by (simp add: transfer_rules_def exchange_rules exchange_ctx_simps exchange_matches)
     (simp add: is_transfer_rule_def exchange_rule_def)


section \<open>The conversion\<close>

lemma exchange_limits:
  "transfer_constraints (transfer_calculation_spec.truncate exchange_calculation) = Inr \<lparr>lm_minimum = None, lm_increment = None,
     lm_request_maximum = None, lm_period_maximum = None, lm_ratio_source = 4, lm_ratio_destination = 3\<rparr>"
proof -
  have v: "is_decimal_text ''3''" "text_value ''3'' = 3" "is_decimal_text ''4''" "text_value ''4'' = 4" by code_simp+
  show ?thesis
    by (simp add: transfer_constraints_def exchange_calculation_def transfer_calculation_spec.truncate_def
        parse_optional_text_def parse_optional_input_def v)
qed

lemma exchange_conversion:
  "transfer_conversion ref_rt (transfer_calculation_spec.truncate exchange_calculation) \<lparr>lm_minimum = None, lm_increment = None,
     lm_request_maximum = None, lm_period_maximum = None, lm_ratio_source = 4, lm_ratio_destination = 3\<rparr> 4 = Inr ''3''"
proof -
  have e: "dmul ref_rt 4 3 = 12" "ddiv ref_rt 12 4 = 3" "dmul ref_rt 3 1 = 3"
    using ref.round_exact [OF representable_small, of 12] ref.round_exact [OF representable_small, of 3]
    by (simp_all add: dmul_def ddiv_def)
  have calc: "ar_scale (ts_destination_asset (transfer_calculation_spec.truncate exchange_calculation)) = 0"
    "ro_reward_rounding_mode (ts_rounding (transfer_calculation_spec.truncate exchange_calculation)) = RM_floor"
    "ts_fee (transfer_calculation_spec.truncate exchange_calculation) = None"
    by (simp_all add: exchange_calculation_def transfer_calculation_spec.truncate_def exchange_simps)
  show ?thesis by (simp add: transfer_conversion_def calc e power10_def decimal_to_bigint_def sample_amount_texts)
qed

definition exchange_settlement :: settlement where
  "exchange_settlement = \<lparr>se_status = SS_pending, se_expected_posting_from = None, se_expected_posting_to = None,
     se_posted_at = None\<rparr>"

lemma exchange_posting:
  "pending_transfer_settlement ref_rt exchange None None = Inr exchange_settlement"
  by (simp add: pending_transfer_settlement_def parse_time_def exchange_simps sample_times iso_after_def exchange_settlement_def)

lemma exchange_evaluates:
  "\<exists>r. evaluate_transfer ref_rt (transfer_calculation_spec.truncate exchange_calculation)
     (transfer_input [] [] ''rule'' exchange_source exchange_settlement) = Inr r \<and> tc_status r = TS_applied \<and>
     tc_destination_amount r = Some ''3''"
proof -
  have v: "is_decimal_text ''4''" "text_value ''4'' = 4" by code_simp+
  have ids: "ar_asset_id points_asset \<noteq> ar_asset_id miles_asset" "ar_asset_id miles_asset \<noteq> ar_asset_id points_asset"
    by (simp_all add: miles_asset_def points_asset_def sample_points_def)
  have source: "transfer_source (transfer_input [] [] ''rule'' exchange_source exchange_settlement) = Some 4"
    by (simp add: transfer_source_def transfer_input_def exchange_simps points_simps v)
  show ?thesis
    unfolding evaluate_transfer_def source
    by (simp add: Let_def transfer_cycle_def exchange_limits exchange_conversion request_failure_def period_failure_def
        transfer_input_def cancellation_for_def ids exchange_simps period_used_def)
qed

section \<open>The move\<close>

definition exchange_taken :: asset_movement where
  "exchange_taken = movement exchange D_consume MR_transfer (sample_points ''4'') (Some ''lot'') None 0
     ''Consumed from an existing asset lot.''"

definition exchange_made :: asset_movement where
  "exchange_made = movement exchange D_create MR_transfer \<lparr>q_asset = miles_asset, q_amount = ''3''\<rparr> None (Some ''flown'') 1
     ''transfer output derived from a reviewed Milestone 1B operation.''"

lemma exchange_shape: "transfer_shape exchange exchange_calculation = Some (exchange_source, None, exchange_output)"
  by (simp add: transfer_shape_def exchange_simps source_role_def destination_role_def first_of_def Let_def)

lemma exchange_consumable: "consumable ref_rt exchange exchange_source ''lot'' (opening_lot ''9'' 9) = Inr 4"
  by (simp add: consumable_def sample_lot_asset exchange_simps points_simps sample_quantities)
     (simp add: opening_lot_def sample_lot_asset expired_at_def falsy_def default_expiry_def not_payable_def exchange_simps)

lemma exchange_clear:
  "transfer_problem ref_rt exchange exchange_rule exchange_calculation exchange_source None exchange_output
     [(''lot'', opening_lot ''9'' 9)] = Inr None"
  by (simp add: transfer_problem_def exchange_simps input_asset_def points_simps holds_asset_def lot_of_input_def falsy_def
      sample_lot_asset sample_quantities Let_def opening_lot_simps)
     (simp add: opening_lot_def sample_lot_asset expired_at_def falsy_def default_expiry_def)

section \<open>The transfer, carried out\<close>

definition exchange_start :: plan_state where
  "exchange_start = initial_state exchange_ctx [(''lot'', opening_lot ''9'' 9)]"

lemma exchange_initial: "initial_lots (eh_runtime ref_host) exchange_ctx = Inr [(''lot'', opening_lot ''9'' 9)]"
  using sample_initial_lots by (simp add: initial_lots_def exchange_ctx_simps sample_ctx_simps sample_parts)

lemma exchange_reachable: "reachable ref_host exchange_ctx exchange_plan exchange_start"
  unfolding exchange_start_def by (rule reachable.start [OF exchange_initial])

lemma exchange_start_simps:
  "st_lots exchange_start = [(''lot'', opening_lot ''9'' 9)]" "st_movement_index exchange_start = 0"
  "st_visited_asset_ids exchange_start = []" "st_ledger exchange_start = zero_ledger"
  "nl_movements zero_ledger = []"
  by (simp_all add: exchange_start_def initial_state_def zero_ledger_def)

lemma exchange_units: "derived_units ref_rt exchange_output ''3'' [(''lot'', opening_lot ''9'' 9)] = Inr 3"
  by (simp add: derived_units_def Let_def exchange_simps sample_amount_texts)

definition exchange_done :: plan_state where
  "exchange_done = snd (move_principal ref_rt exchange_ctx exchange [''lot''] exchange_rule exchange_output ''3''
     exchange_settlement exchange_start)"

text \<open>The hypotheses hold in the start state, and the units are those of the sample transfer.\<close>

theorem passed_transfer_is_carried_out_witness:
  "transfer_problem ref_rt exchange exchange_rule exchange_calculation exchange_source None exchange_output
     [(''lot'', opening_lot ''9'' 9)] = Inr None \<and>
   (\<exists>s'. move_principal ref_rt exchange_ctx exchange [''lot''] exchange_rule exchange_output ''3'' exchange_settlement
      exchange_start = (True, s'))"
proof -
  have opening_small: "\<forall>l\<in>set (ic_opening_lots exchange_ctx). units_of (eh_runtime ref_host) (al_quantity l) < int dec_limit"
    using sample_small by (simp add: exchange_ctx_simps sample_parts)
  have "modest (eh_runtime ref_host) (nl_movements (st_ledger exchange_start))"
    by (simp add: exchange_start_simps modest_def)
  from passed_transfer_is_carried_out [OF _ exchange_reachable opening_small this exchange_shape]
  show ?thesis
    using exchange_clear exchange_units ref.decimal_text_axioms
    by (simp add: exchange_start_simps exchange_ctx_simps sample_parts)
qed

lemma exchange_take:
  "take_units ref_rt exchange exchange_source [''lot''] ''lot'' (opening_lot ''9'' 9) 4 exchange_start =
   (True, exchange_start\<lparr>st_lots := [(''lot'', opening_lot ''5'' 5)],
      st_ledger := zero_ledger\<lparr>nl_movements := [exchange_taken], nl_opening_consumed := [native_quantity_of points_asset 4]\<rparr>,
      st_movement_index := 1\<rparr>)"
  by (simp add: take_units_def Let_def sample_lot_asset sample_quantities opening_lot_simps push_movement_def on_ledger_def
      exchange_start_simps exchange_simps consumption_role_def exchange_taken_def add_native_quantity_def)
     (simp add: zero_ledger_def)

lemma exchange_moved: "move_principal ref_rt exchange_ctx exchange [''lot''] exchange_rule exchange_output ''3''
     exchange_settlement exchange_start = (True, exchange_done) \<and>
   nl_movements (st_ledger exchange_done) = [exchange_taken, exchange_made]"
proof -
  have q: "quantity_of_units ref_rt miles_asset 3 = Inr \<lparr>q_asset = miles_asset, q_amount = ''3''\<rparr>"
    by (simp add: quantity_of_units_def exchange_simps sample_amount_texts)
  show ?thesis
    by (simp add: exchange_done_def move_principal_def exchange_simps consume_lot_def falsy_def exchange_start_simps
        exchange_consumable exchange_take add_derived_output_def derived_units_def sample_amount_texts Let_def
        lot_from_request_def q install_lot_def push_movement_def on_ledger_def apply_output_policy_def exchange_made_def
        role_text_def)
qed

lemma exchange_processed:
  "\<exists>s'. process_transfer_operation ref_host exchange_ctx exchange_plan [''lot''] exchange exchange_start = Inr (True, s') \<and>
     nl_movements (st_ledger s') = [exchange_taken, exchange_made]"
proof -
  obtain r where r: "evaluate_transfer ref_rt (transfer_calculation_spec.truncate exchange_calculation)
     (transfer_input [] [] ''rule'' exchange_source exchange_settlement) = Inr r" "tc_status r = TS_applied"
    "tc_destination_amount r = Some ''3''" using exchange_evaluates by auto
  have calc: "er_calculation exchange_rule = Some (RL_transfer_ratio exchange_calculation)" by (simp add: exchange_rule_def)
  show ?thesis
    by (simp add: process_transfer_operation_def exchange_selected calc transfer_with_rule_def exchange_shape
        exchange_start_simps sample_parts exchange_clear evaluate_move_def exchange_simps exchange_posting exchange_id
        exchange_ctx_simps r complete_transfer_def exchange_units exchange_moved transfer_bonus_def on_ledger_def
        add_applied_rule_def)
qed

theorem transfer_is_all_or_nothing_witness:
  "\<exists>s'. process_transfer_operation ref_host exchange_ctx exchange_plan [''lot''] exchange exchange_start = Inr (True, s') \<and>
     nl_movements (st_ledger s') = [exchange_taken, exchange_made] \<and>
     transfer_movements exchange exchange_output [exchange_taken, exchange_made]"
proof -
  obtain s' where s': "process_transfer_operation ref_host exchange_ctx exchange_plan [''lot''] exchange exchange_start = Inr (True, s')"
    "nl_movements (st_ledger s') = [exchange_taken, exchange_made]" using exchange_processed by auto
  from transfer_is_all_or_nothing [OF s'(1)] s'(2) have "transfer_movements exchange exchange_output [exchange_taken, exchange_made]"
    by (auto simp: principal_of_def books_def exchange_start_simps exchange_simps)
  with s' show ?thesis by blast
qed

end
