(* ===== verification/Reward_Sample.thy ===== *)
theory Reward_Sample
  imports Exchange_Sample
begin

text \<open>
  A purchase that earns: three miles for every four yen, from the selection of the rule to the
  component on the ledger, on the reference runtime.
\<close>

section \<open>The rule\<close>

definition earning_output :: rule_output where
  "earning_output = \<lparr>ou_asset = miles_asset, ou_sign = RS_credit, ou_certainty = \<lparr>ce_type = CT_guaranteed, ce_probability = None, ce_probability_source = None\<rparr>,
     ou_settlement = default_settlement, ou_expiry = default_expiry, ou_restrictions = default_restrictions,
     ou_clawback = full_correction\<rparr>"

definition earning_rounding :: rounding where
  "earning_rounding = \<lparr>ro_aggregation_scope = AS_per_operation, ro_eligible_spend_quantum_jpy = None,
     ro_reward_rounding_mode = RM_floor\<rparr>"

definition earning_rule :: engine_rule where
  "earning_rule = \<lparr>rd_rule = rd_rule sample_document, rd_json = JNull,
     er_operation_match = anything, er_user_conditions = [], er_entry_deadline = None, er_effect = None,
     er_calculation = Some (RL_points_per_unit ''3'' 4 earning_rounding None), er_output = Some earning_output,
     er_caps = []\<rparr>"

definition earning_ctx :: internal_context where
  "earning_ctx = exchange_ctx\<lparr>ic_rules := [earning_rule]\<rparr>"

lemma earning_simps:
  "er_calculation earning_rule = Some (RL_points_per_unit ''3'' 4 earning_rounding None)" "er_effect earning_rule = None"
  "er_output earning_rule = Some earning_output" "er_caps earning_rule = []"
  "ro_aggregation_scope earning_rounding = AS_per_operation" "ro_eligible_spend_quantum_jpy earning_rounding = None"
  "ro_reward_rounding_mode earning_rounding = RM_floor" "ou_asset earning_output = miles_asset"
  "rd_rule earning_rule = rd_rule sample_document" "is_transfer_rule earning_rule = False"
  "rr_rule_id (rd_rule sample_document) = ''rule''" "acceptance_rule earning_rule = False" "output_scale earning_rule = 0"
  "stack_group_of earning_rule = ''g''" "amount_basis earning_rule = ''operation_amount''"
  by (simp_all add: earning_rule_def earning_rounding_def earning_output_def is_transfer_rule_def acceptance_rule_def
    output_scale_def miles_asset_def points_simps stack_group_of_def sample_document_def sample_rule_def amount_basis_def)

lemma earning_ctx_simps:
  "ic_rules earning_ctx = [earning_rule]" "ic_replay_knowledge_at earning_ctx = ''2025-01-03T00:00:00Z''"
  "ic_rule_evaluation_policy earning_ctx = EV_approved" "ic_facts earning_ctx = []"
  using exchange_ctx_simps by (simp_all add: earning_ctx_def)

section \<open>The reward\<close>

definition earning_options :: reward_options where
  "earning_options = \<lparr>po_bonus_rule_ids = None, po_exclude_transfer_rules = True\<rparr>"

lemma earning_covered:
  "covers ref_rt (rr_validity (rd_rule sample_document)) ''2025-01-02T00:00:00Z'' ''2025-01-03T00:00:00Z'' = Inr True"
  by code_simp

lemma earning_admitted: "admitted EV_approved (rd_rule sample_document)"
  by code_simp

lemma earning_selected: "reward_rules ref_host earning_ctx sample_purchase earning_options = Inr [earning_rule]"
  by (simp add: reward_rules_def rules_for_def select_rules_for_evaluation_def earning_ctx_simps sample_op_simps
      earning_simps earning_covered earning_admitted single_match_def sample_parts earning_options_def)

lemma earning_matches: "rule_matches_operation ref_host [] sample_spending_plan sample_purchase earning_rule = Inr None"
  by (simp add: rule_matches_operation_def earning_simps scope_reason_def amount_reason_def deadline_reason_def
      sample_document_def sample_rule_def sample_op_simps Let_def)
     (simp add: earning_rule_def sample_purchase_def match_reason_def anything_def outside_def excluded_by_def none_allowed_def
       compare_string_lists_def falsy_def Let_def sample_clickout_def deadline_reason_def)

definition earning_trace :: trace where
  "earning_trace = [(''eligible_basis'', JStr ''operation_amount''), (''rounding_stage'', JStr ''per_operation''),
     (''spend_jpy'', JStr ''4''), (''denominator_jpy'', JNum (num 4)), (''reward_units'', JStr ''3'')]"

lemma earning_units: "calculate_reward_units ref_host [] sample_purchase earning_rule = Inr (Some (3, earning_trace))"
proof -
  have "is_decimal_text ''3''" "text_value ''3'' = 3" by code_simp+
  moreover have "dmul ref_rt 1 3 = 3" "dmul ref_rt 3 1 = 3"
    using ref.round_exact [OF representable_small, of 3] by (simp_all add: dmul_def)
  moreover have "sc_tax_basis (rr_scope (rd_rule earning_rule)) = None"
    by (simp add: earning_simps sample_document_def sample_rule_def)
  ultimately show ?thesis
    by (simp add: calculate_reward_units_def earning_simps eligible_spend_def apply_spend_quantum_def
        calculate_points_per_unit_def non_negative_decimal_string_def decimal_string_def calculation_rounding_def sample_op_simps
        power10_def decimal_to_bigint_def earning_trace_def rounding_stage_def sample_int_texts scope_text_def sample_parts)
qed

definition earning_candidate :: reward_candidate where
  "earning_candidate = \<lparr>pc_rule = earning_rule, pc_units = 3, pc_trace = earning_trace\<rparr>"

lemma earning_scan:
  "scan_rules ref_host earning_ctx sample_spending_plan sample_purchase [earning_rule] zero_ledger =
   Inr (add_candidate earning_rule 3 earning_trace (start_scan zero_ledger))"
  by (simp add: scan_rules_def earning_ctx_simps earning_matches reward_exclusion_def earning_simps judge_rule_def
      start_scan_def calculation_rounding_def calculate_candidate_def earning_units add_candidate_def Let_def)

lemma earning_stacking: "sr_selected (stack_candidates ref_host [earning_candidate]) =
  [\<lparr>nc_rule_id = ''rule'', nc_stack_group = ''g'', nc_mode = SM_additive, nc_precedence = 0, nc_value = 3,
    nc_base_reward_included = False, nc_base_rule_id = None, nc_is_base_reward = True, nc_requires_rule_ids = [],
    nc_conflicts_with_rule_ids = [], nc_eligible = None\<rparr>]"
  "sr_rejected (stack_candidates ref_host [earning_candidate]) = []"
  by code_simp+

lemma applied_of_stack:
  "set (sr_applied_rule_ids (stack_candidates h cs)) = nc_rule_id ` set (sr_selected (stack_candidates h cs))"
  by (simp add: stack_candidates_def resolve_stacking_def Let_def split: prod.split)

definition earned :: reward_component where
  "earned = \<lparr>rc_component_id = ''cmp_pay_rule_0'', rc_operation_id = ''op_pay'', rc_rule_id = ''rule'', rc_sign = RS_credit,
     rc_quantity = \<lparr>q_asset = miles_asset, q_amount = ''3''\<rparr>, rc_value_jpy = zero_value,
     rc_certainty = ou_certainty earning_output, rc_settlement = default_settlement, rc_expiry = default_expiry,
     rc_restrictions = default_restrictions, rc_clawback = full_correction,
     rc_calculation_trace = component_trace earning_trace earning_rule\<rparr>"

lemma earning_component:
  "reward_component_from_rule ref_rt earning_rule sample_purchase 3 0 =
   Inr (earned\<lparr>rc_calculation_trace := JObj [(''eligible_basis'', JStr []), (''rounding_stage'', JStr [])]\<rparr>)"
proof -
  have "component_id sample_purchase ''rule'' 0 = ''cmp_pay_rule_0''" by code_simp
  moreover have "quantity_of_units ref_rt miles_asset 3 = Inr \<lparr>q_asset = miles_asset, q_amount = ''3''\<rparr>"
    by (simp add: quantity_of_units_def exchange_simps sample_amount_texts)
  ultimately show ?thesis
    by (simp add: reward_component_from_rule_def earning_simps sample_op_simps earned_def) (simp add: earning_output_def)
qed

definition earning_payment :: reward_payment where
  "earning_payment = \<lparr>py_ledger = add_applied_rule ''rule'' (zero_ledger\<lparr>nl_rewards := [earned]\<rparr>),
     py_operation_progress = [], py_plan_progress = [], py_rule_ids = [''rule'']\<rparr>"

lemma earning_processed:
  "process_reward_rules ref_host earning_ctx sample_spending_plan sample_purchase earning_options zero_ledger [] =
   Inr (True, earning_payment)"
proof -
  have applied: "''rule'' \<in> set (sr_applied_rule_ids (stack_candidates ref_host [earning_candidate]))"
    by (simp add: applied_of_stack earning_stacking(1))
  have [simp]: "nl_rewards zero_ledger = []" by (simp add: zero_ledger_def)
  have c: "pw_candidates (add_candidate earning_rule 3 earning_trace (start_scan zero_ledger)) = [earning_candidate]"
    "pw_ledger (add_candidate earning_rule 3 earning_trace (start_scan zero_ledger)) = zero_ledger"
    "pw_valid (add_candidate earning_rule 3 earning_trace (start_scan zero_ledger))"
    by (simp_all add: add_candidate_def start_scan_def earning_candidate_def)
  have e: "pc_rule earning_candidate = earning_rule" "pc_units earning_candidate = 3" "pc_trace earning_candidate = earning_trace"
    by (simp_all add: earning_candidate_def)
  show ?thesis
    by (simp add: process_reward_rules_def earning_selected earning_scan c e earning_simps Let_def applied pay_def
        earning_component sample_parts earning_stacking(2) log_stacking_def earning_payment_def)
       (simp add: earned_def)
qed

text \<open>The component on the ledger comes from the one rule of the sample.\<close>

theorem rewards_come_from_matching_rules_witness:
  "nl_rewards (py_ledger earning_payment) = [earned] \<and>
   (\<exists>r. may_earn ref_host earning_ctx sample_spending_plan sample_purchase [earning_rule] r \<and> paid_for sample_purchase r earned)"
proof -
  have "nl_rewards (py_ledger earning_payment) = [earned]" "nl_rewards zero_ledger = []"
    by (simp_all add: earning_payment_def add_applied_rule_def zero_ledger_def)
  with rewards_come_from_matching_rules [OF earning_processed] earning_selected show ?thesis by auto
qed

end
