(* ===== verification/Plan_Value.thy ===== *)
theory Plan_Value
  imports Plan_Engine
begin

text \<open>
  Valuation and ranking of evaluated plans (\<open>valuedPlan\<close>, \<open>rankPlans\<close> and \<open>sensitivityForPair\<close> in
  \<open>packages/rule-engine/src/engine.ts\<close>): what a native result is worth in yen under the unit values
  of the context, the order of the recommendation, and the unit value at which two plans are
  worth the same.

  A unit value is a text of the valuation profile that \<open>decimal.js\<close> reads, so a product may be an
  infinity or \<open>NaN\<close>; writing such a value throws.  The sign of a zero is not kept by acc: nothing
  that reads them asks for it.
\<close>

section \<open>Decimals that may not be finite\<close>

fun dec_neg :: "dec_read \<Rightarrow> dec_read" where
  "dec_neg (DecFinite s x) = DecFinite (\<not> s) (- x)"
| "dec_neg (DecNonFinite n) = DecNonFinite (map_option Not n)"
| "dec_neg DecThrow = DecThrow"

definition dec_minus :: "runtime \<Rightarrow> dec_read \<Rightarrow> dec_read \<Rightarrow> dec_read" where
  "dec_minus rt x y = dec_plus rt x (dec_neg y)"

fun dec_times :: "runtime \<Rightarrow> dec_read \<Rightarrow> dec_read \<Rightarrow> dec_read" where
  "dec_times rt (DecFinite a x) (DecFinite b y) = DecFinite (a \<noteq> b) (dmul rt x y)"
| "dec_times rt (DecFinite a x) (DecNonFinite (Some b)) = DecNonFinite (if x = 0 then None else Some (a \<noteq> b))"
| "dec_times rt (DecNonFinite (Some a)) (DecFinite b y) = DecNonFinite (if y = 0 then None else Some (a \<noteq> b))"
| "dec_times rt (DecNonFinite (Some a)) (DecNonFinite (Some b)) = DecNonFinite (Some (a \<noteq> b))"
| "dec_times rt _ _ = DecNonFinite None"

text \<open>\<open>trimDecimal(x.toFixed(Math.max(0, x.decimalPlaces())))\<close>.\<close>

fun dec_canonical :: "runtime \<Rightarrow> dec_read \<Rightarrow> string res" where
  "dec_canonical rt (DecFinite _ x) = Inr (canonical_decimal rt x)"
| "dec_canonical rt _ = Inl ''[DecimalError] Invalid argument: NaN''"

abbreviation dec_of_int :: "int \<Rightarrow> dec_read" where
  "dec_of_int n \<equiv> DecFinite (n < 0) (of_int n)"

section \<open>Unit values\<close>

definition value_of_units :: "runtime \<Rightarrow> int \<Rightarrow> int \<Rightarrow> string \<Rightarrow> dec_read res" where
  "value_of_units rt units scale jpy_per_unit =
     (if units < 0 then Inl ''negative_units''
      else rbind (power10 scale) (\<lambda>p.
           rbind (decimal rt (DStr jpy_per_unit)) (\<lambda>v.
             Inr (dec_times rt (DecFinite False (ddiv rt (of_int units) (of_int p))) v))))"

definition value_per_unit :: "internal_context \<Rightarrow> string \<Rightarrow> reward_class option \<Rightarrow> bool \<Rightarrow> string" where
  "value_per_unit ctx asset_id reward_class is_ending =
     (if ic_valuation_policy ctx = VP_unvalued then ''0''
      else case om_get (ic_valuation ctx) (conservation_bucket asset_id reward_class) of
        Some t \<Rightarrow> t
      | None \<Rightarrow>
          (case om_get (ic_valuation ctx) (conservation_bucket asset_id None) of
             Some t \<Rightarrow> t
           | None \<Rightarrow>
               if is_ending \<and> rq_ending_asset_valuation (ic_objective ctx) = EN_exclude then ''0'' else ''1''))"

definition quantity_value :: "runtime \<Rightarrow> internal_context \<Rightarrow> bool \<Rightarrow> quantity \<Rightarrow> dec_read res" where
  "quantity_value rt ctx is_ending q =
     rbind (quantity_in_units rt q) (\<lambda>units.
       value_of_units rt units (ar_scale (q_asset q))
         (value_per_unit ctx (ar_asset_id (q_asset q)) (ar_reward_class (q_asset q)) is_ending))"

definition consumed_value :: "runtime \<Rightarrow> internal_context \<Rightarrow> native_quantity \<Rightarrow> dec_read res" where
  "consumed_value rt ctx n =
     value_of_units rt (nq_units n) (nq_scale n) (value_per_unit ctx (nq_asset_id n) (nq_reward_class n) False)"

fun sum_values :: "runtime \<Rightarrow> ('a \<Rightarrow> dec_read res) \<Rightarrow> 'a list \<Rightarrow> dec_read \<Rightarrow> dec_read res" where
  "sum_values rt f [] acc = Inr acc"
| "sum_values rt f (x # xs) acc = rbind (f x) (\<lambda>v. sum_values rt f xs (dec_plus rt acc v))"

section \<open>The value of a plan\<close>

record valued_component = reward_component +
  vc_value_jpy_decimal :: string

record decimal_value_range =
  dv_minimum_jpy :: string
  dv_maximum_jpy :: string
  dv_expected_jpy :: "string option"

definition point_range :: "runtime \<Rightarrow> dec_read \<Rightarrow> decimal_value_range res" where
  "point_range rt x =
     rmap (\<lambda>t. \<lparr>dv_minimum_jpy = t, dv_maximum_jpy = t, dv_expected_jpy = Some t\<rparr>) (dec_canonical rt x)"

record economic_summary =
  ec_merchant_value_received_jpy :: decimal_value_range
  ec_external_funding_jpy :: decimal_value_range
  ec_opening_asset_value_consumed_jpy :: decimal_value_range
  ec_ending_asset_value_jpy :: decimal_value_range
  ec_guaranteed_reward_value_jpy :: decimal_value_range
  ec_probabilistic_expected_reward_value_jpy :: decimal_value_range
  ec_fee_value_jpy :: decimal_value_range
  ec_guaranteed_net_value_change_jpy :: decimal_value_range
  ec_expected_net_value_change_jpy :: decimal_value_range

text \<open>A valued result: the native one with the valued components in place of the native ones.\<close>

record valued_plan_result =
  vp_native :: native_plan_result
  vp_reward_components :: "valued_component list"
  vp_economics :: economic_summary
  vp_objective_score_jpy :: string

definition probability_supported :: "probability_policy \<Rightarrow> certainty \<Rightarrow> bool" where
  "probability_supported policy c \<longleftrightarrow>
     policy \<noteq> PO_guaranteed_only \<and>
     (ce_probability_source c = Some PS_official_disclosed \<or>
      ce_probability_source c = Some PS_historical_estimate \<and> policy = PO_include_user_estimate)"

definition probability_of :: "runtime \<Rightarrow> probability_policy \<Rightarrow> certainty \<Rightarrow> dec_read res" where
  "probability_of rt policy c =
     (if probability_supported policy c \<and> \<not> falsy (ce_probability c)
      then decimal rt (DStr (default_to [] (ce_probability c))) else Inr (DecFinite False 0))"

text \<open>The signed value of a component and what it adds to the guaranteed and to the expected part.\<close>

definition component_value ::
    "runtime \<Rightarrow> internal_context \<Rightarrow> reward_component \<Rightarrow> dec_read \<times> dec_read \<Rightarrow> (valued_component \<times> dec_read \<times> dec_read) res" where
  "component_value rt ctx c acc =
     (let (guaranteed, expected) = acc; policy = rq_probabilistic_reward_policy (ic_objective ctx)
      in rbind (quantity_value rt ctx False (rc_quantity c)) (\<lambda>v.
           let signed = (if rc_sign c = RS_debit then dec_neg v else v)
           in rbind (case ce_type (rc_certainty c) of
                CT_guaranteed \<Rightarrow> Inr (dec_plus rt guaranteed signed, expected)
              | CT_probabilistic \<Rightarrow>
                  rmap (\<lambda>p. (guaranteed, dec_plus rt expected (dec_times rt signed p))) (probability_of rt policy (rc_certainty c))
              | CT_conditional_selection \<Rightarrow> Inr (guaranteed, expected)) (\<lambda>(guaranteed', expected').
              rmap (\<lambda>t. (reward_component.extend
                  (c\<lparr>rc_value_jpy := \<lparr>jv_minimum_jpy = JStr t, jv_maximum_jpy = JStr t, jv_expected_jpy = JStr t\<rparr>\<rparr>)
                  (valued_component.fields t), guaranteed', expected')) (dec_canonical rt signed))))"

fun value_components ::
    "runtime \<Rightarrow> internal_context \<Rightarrow> reward_component list \<Rightarrow> dec_read \<times> dec_read \<Rightarrow>
     (valued_component list \<times> dec_read \<times> dec_read) res" where
  "value_components rt ctx [] acc = Inr ([], acc)"
| "value_components rt ctx (c # cs) acc =
     rbind (component_value rt ctx c acc) (\<lambda>(v, acc').
       rmap (\<lambda>(vs, acc''). (v # vs, acc'')) (value_components rt ctx cs acc'))"

definition fee_movements :: "native_plan_result \<Rightarrow> asset_movement list" where
  "fee_movements native = filter (\<lambda>m. am_movement_role m = MR_fee) (np_asset_movements native)"

definition guaranteed_net ::
    "runtime \<Rightarrow> dec_read \<Rightarrow> dec_read \<Rightarrow> dec_read \<Rightarrow> dec_read \<Rightarrow> dec_read \<Rightarrow> dec_read \<Rightarrow> dec_read" where
  "guaranteed_net rt merchant ending_value reward_value external opening_value fee_value =
     dec_minus rt (dec_minus rt (dec_minus rt (dec_plus rt (dec_plus rt merchant ending_value) reward_value) external)
       opening_value) fee_value"

definition economics_of ::
    "runtime \<Rightarrow> dec_read \<Rightarrow> dec_read \<Rightarrow> dec_read \<Rightarrow> dec_read \<Rightarrow> dec_read \<Rightarrow> dec_read \<Rightarrow> dec_read \<Rightarrow> dec_read \<Rightarrow> dec_read \<Rightarrow>
     economic_summary res" where
  "economics_of rt merchant external opening_value ending_value reward_value probabilistic fee_value guaranteed expected =
     rbind (point_range rt merchant) (\<lambda>m.
     rbind (point_range rt external) (\<lambda>x.
     rbind (point_range rt opening_value) (\<lambda>o1.
     rbind (point_range rt ending_value) (\<lambda>e1.
     rbind (point_range rt reward_value) (\<lambda>r1.
     rbind (point_range rt probabilistic) (\<lambda>p1.
     rbind (point_range rt fee_value) (\<lambda>f1.
     rbind (point_range rt guaranteed) (\<lambda>g1.
     rmap (\<lambda>e2. \<lparr>ec_merchant_value_received_jpy = m, ec_external_funding_jpy = x, ec_opening_asset_value_consumed_jpy = o1,
         ec_ending_asset_value_jpy = e1, ec_guaranteed_reward_value_jpy = r1,
         ec_probabilistic_expected_reward_value_jpy = p1, ec_fee_value_jpy = f1,
         ec_guaranteed_net_value_change_jpy = g1, ec_expected_net_value_change_jpy = e2\<rparr>)
       (point_range rt expected)))))))))"

definition valued_plan :: "runtime \<Rightarrow> native_plan_result \<Rightarrow> internal_context \<Rightarrow> valued_plan_result res" where
  "valued_plan rt native ctx =
     (let zero = DecFinite False 0; merchant = dec_of_int (np_merchant_value_jpy native);
          external = dec_of_int (np_external_funding_jpy native)
      in rbind (sum_values rt (quantity_value rt ctx True \<circ> al_quantity) (np_ending_asset_lots native) zero) (\<lambda>ending_value.
         rbind (sum_values rt (consumed_value rt ctx) (np_opening_asset_units_consumed native) zero) (\<lambda>opening_value.
         rbind (value_components rt ctx (np_reward_components native) (zero, zero)) (\<lambda>(rewards, reward_value, probabilistic).
         rbind (sum_values rt (quantity_value rt ctx False \<circ> am_quantity) (fee_movements native) zero) (\<lambda>fee_value.
         let guaranteed = guaranteed_net rt merchant ending_value reward_value external opening_value fee_value;
             expected = dec_plus rt guaranteed probabilistic
         in rbind (economics_of rt merchant external opening_value ending_value reward_value probabilistic fee_value
                guaranteed expected) (\<lambda>economics.
            rmap (\<lambda>score. \<lparr>vp_native = native, vp_reward_components = rewards, vp_economics = economics,
                vp_objective_score_jpy = score\<rparr>)
              (dec_canonical rt (if rq_primary (ic_objective ctx) = MX_expected_net_value then expected else guaranteed))))))))"

section \<open>The ranking\<close>

text \<open>The texts compared are those \<open>point_range\<close> wrote, which are finite decimals.\<close>

definition text_rat :: "runtime \<Rightarrow> string option \<Rightarrow> rat" where
  "text_rat rt t = (case rt_parse rt (default_to ''0'' t) of DecFinite _ q \<Rightarrow> q | _ \<Rightarrow> 0)"

definition expected_text :: "decimal_value_range \<Rightarrow> string" where
  "expected_text r = default_to ''0'' (dv_expected_jpy r)"

definition score_range :: "required_objective \<Rightarrow> valued_plan_result \<Rightarrow> decimal_value_range" where
  "score_range objective v =
     (if rq_primary objective = MX_expected_net_value then ec_expected_net_value_change_jpy (vp_economics v)
      else ec_guaranteed_net_value_change_jpy (vp_economics v))"

definition score :: "runtime \<Rightarrow> required_objective \<Rightarrow> valued_plan_result \<Rightarrow> rat" where
  "score rt objective v = text_rat rt (Some (expected_text (score_range objective v)))"

definition funding_score :: "runtime \<Rightarrow> valued_plan_result \<Rightarrow> rat" where
  "funding_score rt v = text_rat rt (Some (expected_text (ec_external_funding_jpy (vp_economics v))))"

definition plan_id_of :: "valued_plan_result \<Rightarrow> string" where
  "plan_id_of v = np_plan_id (vp_native v)"

definition rank_compare :: "runtime \<Rightarrow> required_objective \<Rightarrow> valued_plan_result \<Rightarrow> valued_plan_result \<Rightarrow> int" where
  "rank_compare rt objective l r =
     (let diff = dsub rt (score rt objective r) (score rt objective l);
          funding_diff = dsub rt (funding_score rt l) (funding_score rt r);
          operations_diff = int (length (np_operations (vp_native l))) - int (length (np_operations (vp_native r)))
      in if diff \<noteq> 0 then (if diff < 0 then -1 else 1)
         else if ''lower_external_funding'' \<in> set (rq_tie_breakers objective) \<and> funding_diff \<noteq> 0 then
           (if funding_diff < 0 then -1 else 1)
         else if ''fewer_operations'' \<in> set (rq_tie_breakers objective) \<and> operations_diff \<noteq> 0 then operations_diff
         else rt_locale_compare rt (plan_id_of l) (plan_id_of r))"

definition rank_plans :: "runtime \<Rightarrow> required_objective \<Rightarrow> valued_plan_result list \<Rightarrow> valued_plan_result list" where
  "rank_plans rt objective plans = sort_cmp (rank_compare rt objective) plans"

section \<open>Break-even unit values\<close>

text \<open>Division by a finite non-zero divisor.\<close>

fun dec_over :: "runtime \<Rightarrow> dec_read \<Rightarrow> rat \<Rightarrow> dec_read" where
  "dec_over rt (DecFinite s x) y = DecFinite (s \<noteq> (y < 0)) (ddiv rt x y)"
| "dec_over rt (DecNonFinite n) y = DecNonFinite (map_option (\<lambda>s. s \<noteq> (y < 0)) n)"
| "dec_over rt DecThrow y = DecThrow"

fun add_lot_values ::
    "runtime \<Rightarrow> internal_context \<Rightarrow> string \<Rightarrow> asset_lot list \<Rightarrow> dec_read \<Rightarrow> dec_read res" where
  "add_lot_values rt ctx key [] acc = Inr acc"
| "add_lot_values rt ctx key (l # ls) acc =
     (if quantity_key (al_quantity l) = key then add_lot_values rt ctx key ls acc
      else rbind (quantity_value rt ctx True (al_quantity l)) (\<lambda>v. add_lot_values rt ctx key ls (dec_plus rt acc v)))"

definition native_base_excluding_asset ::
    "runtime \<Rightarrow> valued_plan_result \<Rightarrow> string \<Rightarrow> internal_context \<Rightarrow> dec_read res" where
  "native_base_excluding_asset rt v key ctx =
     (let e = vp_economics v; read = (\<lambda>r. decimal rt (DStr (expected_text r)))
      in rbind (read (ec_merchant_value_received_jpy e)) (\<lambda>merchant.
         rbind (read (ec_guaranteed_reward_value_jpy e)) (\<lambda>rewards.
         rbind (read (ec_external_funding_jpy e)) (\<lambda>external.
         rbind (read (ec_opening_asset_value_consumed_jpy e)) (\<lambda>consumed.
         rbind (read (ec_fee_value_jpy e)) (\<lambda>fees.
           add_lot_values rt ctx key (np_ending_asset_lots (vp_native v))
             (dec_minus rt (dec_minus rt (dec_minus rt (dec_plus rt merchant rewards) external) consumed) fees)))))))"

definition lot_units_of :: "runtime \<Rightarrow> asset_lot option \<Rightarrow> int res" where
  "lot_units_of rt l = (case l of None \<Rightarrow> Inr 0 | Some m \<Rightarrow> quantity_in_units rt (al_quantity m))"

text \<open>The unit value at which two plans are worth the same, where one exists: with the difference of
  the units they leave.\<close>

definition break_even ::
    "runtime \<Rightarrow> internal_context \<Rightarrow> valued_plan_result \<Rightarrow> valued_plan_result \<Rightarrow> string \<Rightarrow> int \<Rightarrow> int \<Rightarrow> int \<Rightarrow>
     (rat \<times> rat) option res" where
  "break_even rt ctx left right key scale left_units right_units =
     (if left_units = right_units then Inr None
      else rbind (power10 scale) (\<lambda>p.
        let delta = ddiv rt (dsub rt (of_int left_units) (of_int right_units)) (of_int p)
        in rbind (native_base_excluding_asset rt right key ctx) (\<lambda>right_base.
           rbind (native_base_excluding_asset rt left key ctx) (\<lambda>left_base.
             Inr (case dec_over rt (dec_minus rt right_base left_base) delta of
               DecFinite neg threshold \<Rightarrow> if neg then None else Some (delta, threshold)
             | _ \<Rightarrow> None)))))"

record valuation_sensitivity =
  vs_asset_id :: string
  vs_reward_class :: "reward_class option"
  vs_current_jpy_per_unit :: string
  vs_break_even_jpy_per_unit :: string
  vs_winner_at_or_below :: string
  vs_winner_above :: string

definition lot_with_key :: "string \<Rightarrow> valued_plan_result \<Rightarrow> asset_lot option" where
  "lot_with_key key v = find (\<lambda>l. quantity_key (al_quantity l) = key) (np_ending_asset_lots (vp_native v))"

definition sensitivity_for_key ::
    "runtime \<Rightarrow> internal_context \<Rightarrow> valued_plan_result \<Rightarrow> valued_plan_result \<Rightarrow> string \<Rightarrow>
     valuation_sensitivity option res" where
  "sensitivity_for_key rt ctx left right key =
     (let left_lot = lot_with_key key left; right_lot = lot_with_key key right
      in case orelse left_lot right_lot of
           None \<Rightarrow> Inr None
         | Some sample \<Rightarrow>
             let asset = q_asset (al_quantity sample)
             in rbind (lot_units_of rt left_lot) (\<lambda>left_units.
                rbind (lot_units_of rt right_lot) (\<lambda>right_units.
                rbind (break_even rt ctx left right key (ar_scale asset) left_units right_units) (\<lambda>found.
                  case found of
                    None \<Rightarrow> Inr None
                  | Some (delta, threshold) \<Rightarrow>
                      rmap (\<lambda>t. Some \<lparr>vs_asset_id = ar_asset_id asset, vs_reward_class = ar_reward_class asset,
                          vs_current_jpy_per_unit =
                            value_per_unit ctx (ar_asset_id asset) (ar_reward_class asset) True,
                          vs_break_even_jpy_per_unit = t,
                          vs_winner_at_or_below = plan_id_of (if 0 \<le> delta then right else left),
                          vs_winner_above = plan_id_of (if 0 \<le> delta then left else right)\<rparr>)
                        (format_ratio rt threshold 1 30)))))"

fun first_sensitivity ::
    "runtime \<Rightarrow> internal_context \<Rightarrow> valued_plan_result \<Rightarrow> valued_plan_result \<Rightarrow> string list \<Rightarrow>
     valuation_sensitivity option res" where
  "first_sensitivity rt ctx left right [] = Inr None"
| "first_sensitivity rt ctx left right (k # ks) =
     rbind (sensitivity_for_key rt ctx left right k) (\<lambda>found.
       case found of None \<Rightarrow> first_sensitivity rt ctx left right ks | Some x \<Rightarrow> Inr (Some x))"

definition sensitivity_for_pair ::
    "runtime \<Rightarrow> internal_context \<Rightarrow> valued_plan_result \<Rightarrow> valued_plan_result \<Rightarrow> valuation_sensitivity option res" where
  "sensitivity_for_pair rt ctx left right =
     first_sensitivity rt ctx left right
       (unique (map (quantity_key \<circ> al_quantity)
         (np_ending_asset_lots (vp_native left) @ np_ending_asset_lots (vp_native right))))"

text \<open>The same question asked for one asset and class.\<close>

definition lot_of_asset :: "string \<Rightarrow> reward_class option \<Rightarrow> valued_plan_result \<Rightarrow> asset_lot option" where
  "lot_of_asset asset_id reward_class v =
     find (\<lambda>l. ar_asset_id (q_asset (al_quantity l)) = asset_id \<and> ar_reward_class (q_asset (al_quantity l)) = reward_class)
       (np_ending_asset_lots (vp_native v))"

definition calculate_break_even_residual_value ::
    "runtime \<Rightarrow> valued_plan_result \<Rightarrow> valued_plan_result \<Rightarrow> string \<Rightarrow> reward_class option \<Rightarrow> evaluate_plan_options \<Rightarrow>
     string option res" where
  "calculate_break_even_residual_value rt lower higher asset_id reward_class options =
     (let ctx = make_internal_context options; left = lot_of_asset asset_id reward_class lower;
          right = lot_of_asset asset_id reward_class higher
      in case orelse left right of
           None \<Rightarrow> Inr None
         | Some sample \<Rightarrow>
             rbind (lot_units_of rt left) (\<lambda>left_units.
             rbind (lot_units_of rt right) (\<lambda>right_units.
             rbind (break_even rt ctx lower higher (conservation_bucket asset_id reward_class)
                 (ar_scale (q_asset (al_quantity sample))) left_units right_units) (\<lambda>found.
               case found of None \<Rightarrow> Inr None | Some (_, threshold) \<Rightarrow> rmap Some (format_ratio rt threshold 1 30)))))"

end
