(* ===== verification/Recommendation.thy ===== *)
theory Recommendation
  imports Plan_Value
begin

text \<open>
  The recommendation among candidate plans (\<open>derivedFeasibleStates\<close>, \<open>evaluatePlan\<close> and
  \<open>evaluateCandidates\<close> in \<open>packages/rule-engine/src/engine.ts\<close>): every candidate is evaluated and
  valued, the unknown facts the rules ask about are enumerated, the plans are evaluated again under
  each assignment, and the winner is named by the uncertainty kernel or by the ranking.

  \<open>Number(value)\<close> on an arbitrary document, the addition of binary numbers, \<open>String(value)\<close> and
  \<open>JSON.stringify\<close> are functions of the host.  The contract validator is an argument; it also
  sees the options, because it validates the user state.  The replay record (hashes and canonical
  texts of the input and of the output) is not modelled.
\<close>

record recommendation_host =
  rh_engine :: engine_host
  rh_number_of :: "json option \<Rightarrow> js_number"
  rh_number_add :: "js_number \<Rightarrow> int \<Rightarrow> js_number"
  rh_stringify :: "json \<Rightarrow> string"

abbreviation rh_runtime :: "recommendation_host \<Rightarrow> runtime" where
  "rh_runtime h \<equiv> eh_runtime (rh_engine h)"

type_synonym contract_check =
  "evaluate_plan_options \<Rightarrow> purchase_plan \<Rightarrow> internal_context \<Rightarrow> unit res"

section \<open>The values an unknown fact may take\<close>

definition sentinel :: "user_condition \<Rightarrow> json option" where
  "sentinel c = Some (JStr (''__not_'' @ cn_fact_key c @ ''__''))"

definition listed_values :: "json option \<Rightarrow> json option list" where
  "listed_values v = (case v of Some (JArr vs) \<Rightarrow> map Some vs | _ \<Rightarrow> [])"

definition value_or_true :: "json option \<Rightarrow> json option" where
  "value_or_true v = (if absent v then Some (JBool True) else v)"

definition beyond_threshold :: "recommendation_host \<Rightarrow> user_condition \<Rightarrow> int \<Rightarrow> json option list" where
  "beyond_threshold h c step =
     (case rh_number_of h (cn_value c) of
        Finite q \<Rightarrow> [cn_value c, Some (JNum (rh_number_add h (Finite q) step))]
      | NonFinite \<Rightarrow> [cn_value c, sentinel c])"

definition condition_domain :: "recommendation_host \<Rightarrow> user_condition \<Rightarrow> json option list" where
  "condition_domain h c =
     (case cn_operator c of
        ON_eq \<Rightarrow> [cn_value c, sentinel c]
      | ON_neq \<Rightarrow> [sentinel c, cn_value c]
      | ON_in \<Rightarrow> listed_values (cn_value c) @ [sentinel c]
      | ON_not_in \<Rightarrow> sentinel c # listed_values (cn_value c)
      | ON_gte \<Rightarrow> beyond_threshold h c (-1)
      | ON_lte \<Rightarrow> beyond_threshold h c 1
      | ON_exists \<Rightarrow> [value_or_true (cn_value c), Some JNull]
      | ON_not_exists \<Rightarrow> [Some JNull, value_or_true (cn_value c)])"

definition open_condition :: "facts \<Rightarrow> user_condition \<Rightarrow> bool" where
  "open_condition facts c \<longleftrightarrow>
     (cn_unknown_policy c = UN_return_conditional \<or> cn_unknown_policy c = UN_ask_user) \<and>
     map_option sv_status (om_get facts (cn_fact_key c)) \<noteq> Some FS_known"

definition conditions_by_key :: "facts \<Rightarrow> engine_rule list \<Rightarrow> (string, user_condition list) omap" where
  "conditions_by_key facts rules =
     fold (\<lambda>c m. om_set (cn_fact_key c) (default_to [] (om_get m (cn_fact_key c)) @ [c]) m)
       (filter (open_condition facts) (concat (map er_user_conditions rules))) []"

text \<open>The values, each once by its canonical text.\<close>

fun distinct_values :: "recommendation_host \<Rightarrow> json option list \<Rightarrow> string list \<Rightarrow> json list \<Rightarrow> json list res" where
  "distinct_values h [] seen acc = Inr acc"
| "distinct_values h (v # vs) seen acc =
     rbind (canonical_value (rh_engine h) v) (\<lambda>encoded.
       if encoded \<in> set seen then distinct_values h vs seen acc
       else distinct_values h vs (encoded # seen) (acc @ [default_to JNull v]))"

definition fact_domain :: "recommendation_host \<Rightarrow> string \<times> user_condition list \<Rightarrow> (string \<times> json list) res" where
  "fact_domain h entry =
     rmap (Pair (fst entry)) (distinct_values h (concat (map (condition_domain h) (snd entry))) [] [])"

definition fact_domains :: "recommendation_host \<Rightarrow> facts \<Rightarrow> engine_rule list \<Rightarrow> (string \<times> json list) list res" where
  "fact_domains h facts rules =
     traverse (fact_domain h) (sort_cmp (cmp_on fst (rt_locale_compare (rh_runtime h))) (conditions_by_key facts rules))"

section \<open>The assignments\<close>

type_synonym assignment = "(string, json) omap"

definition extend_assignments :: "string \<times> json list \<Rightarrow> assignment list \<Rightarrow> assignment list" where
  "extend_assignments d assignments = concat (map (\<lambda>a. map (\<lambda>v. om_set (fst d) v a) (snd d)) assignments)"

definition state_limit :: nat where
  "state_limit = 64"

fun all_assignments :: "(string \<times> json list) list \<Rightarrow> assignment list \<Rightarrow> assignment list res" where
  "all_assignments [] assignments = Inr assignments"
| "all_assignments (d # ds) assignments =
     (let extended = extend_assignments d assignments
      in if state_limit < length extended then Inl ''feasible_state_limit_exceeded:64''
         else all_assignments ds extended)"

section \<open>Evaluation under an assignment\<close>

definition transaction_time_of :: "evaluate_plan_options \<Rightarrow> string" where
  "transaction_time_of options = default_to epoch_start (orelse (opt_transaction_time options) (opt_transactionTime options))"

definition known_fact :: "string \<Rightarrow> json \<Rightarrow> state_value" where
  "known_fact observed v = \<lparr>sv_status = FS_known, sv_value = Some v, sv_lower_bound = None, sv_upper_bound = None,
     sv_observed_at = Some observed, sv_confidence = None\<rparr>"

definition assume_facts :: "string \<Rightarrow> assignment \<Rightarrow> user_state \<Rightarrow> user_state" where
  "assume_facts observed a u =
     u\<lparr>ut_facts := fold (\<lambda>(k, v). om_set k (known_fact observed v)) a (ut_facts u)\<rparr>"

definition scenario :: "evaluate_plan_options \<Rightarrow> user_state \<Rightarrow> assignment \<Rightarrow> evaluate_plan_options" where
  "scenario options u a = options\<lparr>opt_feasibleStates := None,
     opt_user_state := Some (assume_facts (transaction_time_of options) a u)\<rparr>"

definition state_plan_value :: "string \<Rightarrow> string \<Rightarrow> bool \<Rightarrow> plan_value" where
  "state_plan_value guaranteed expected ok =
     PV_state None (Some (PV_number (DStr guaranteed))) (Some (PV_number (DStr expected))) None None None (Some ok) None []"

definition plan_in_scenario ::
    "recommendation_host \<Rightarrow> contract_check \<Rightarrow> evaluate_plan_options \<Rightarrow> purchase_plan \<Rightarrow> plan_value" where
  "plan_in_scenario h contracts options plan =
     (case evaluate_native_plan (rh_engine h) (contracts options) plan options of
        Inl _ \<Rightarrow> state_plan_value ''0'' ''0'' False
      | Inr native \<Rightarrow>
          (case valued_plan (rh_runtime h) native (make_internal_context options) of
             Inl _ \<Rightarrow> state_plan_value ''0'' ''0'' False
           | Inr v \<Rightarrow> state_plan_value (expected_text (ec_guaranteed_net_value_change_jpy (vp_economics v)))
               (expected_text (ec_expected_net_value_change_jpy (vp_economics v))) (np_eligible native)))"

definition derived_state ::
    "recommendation_host \<Rightarrow> contract_check \<Rightarrow> evaluate_plan_options \<Rightarrow> user_state \<Rightarrow> purchase_plan list \<Rightarrow> string list \<Rightarrow>
     nat \<times> assignment \<Rightarrow> feasible_state" where
  "derived_state h contracts options u plans keys numbered_assignment =
     (case numbered_assignment of (i, a) \<Rightarrow>
        \<lparr>fs_state_id = Some (''derived_'' @ nat_text i), fs_assignments = a, fs_unknown_keys = keys, fs_conditions = [],
         fs_questions = map (\<lambda>k. (k, ''What is the current value of '' @ k @ ''?'')) keys,
         fs_plans = fold (\<lambda>p. om_set (pp_plan_id p) (plan_in_scenario h contracts (scenario options u a) p)) plans []\<rparr>)"

definition derived_feasible_states ::
    "recommendation_host \<Rightarrow> contract_check \<Rightarrow> purchase_plan list \<Rightarrow> evaluate_plan_options \<Rightarrow> feasible_state list res" where
  "derived_feasible_states h contracts plans options =
     (case opt_user_state options of
        None \<Rightarrow> Inr []
      | Some u \<Rightarrow>
          let rules = default_to [] (orelse (opt_rules options) (opt_ruleset options))
          in if conditions_by_key (ut_facts u) rules = [] then Inr []
             else rbind (fact_domains h (ut_facts u) rules) (\<lambda>domains.
                  rmap (\<lambda>assignments. map (derived_state h contracts options u plans (map fst domains))
                      (enumerate 1 assignments))
                    (all_assignments domains [[]])))"

section \<open>One plan\<close>

definition plan_error_text :: "plan_error \<Rightarrow> string" where
  "plan_error_text e = (case e of
     PE_semantic issues \<Rightarrow> join_with ''; '' (map (\<lambda>i. vi_path i @ '':'' @ vi_code i) issues)
   | PE_thrown t \<Rightarrow> t)"

definition evaluate_plan ::
    "recommendation_host \<Rightarrow> contract_check \<Rightarrow> purchase_plan \<Rightarrow> evaluate_plan_options \<Rightarrow>
     plan_error + (native_plan_result + valued_plan_result)" where
  "evaluate_plan h contracts plan options =
     (case evaluate_native_plan (rh_engine h) (contracts options) plan options of
        Inl e \<Rightarrow> Inl e
      | Inr native \<Rightarrow>
          if opt_valuation options = None \<and> opt_valuation_profile options = None \<and> opt_user_state options = None
          then Inr (Inl native)
          else thrown (rmap Inr (valued_plan (rh_runtime h) native (make_internal_context options))))"

section \<open>The recommendation\<close>

definition invalid_native_plan :: "purchase_plan \<Rightarrow> rejection \<Rightarrow> native_plan_result" where
  "invalid_native_plan plan reason =
     \<lparr>np_plan_id = pp_plan_id plan, np_eligible = False, np_operations = pp_operations plan, np_asset_movements = [],
      np_reward_components = [], np_ending_asset_lots = [], np_applied_rule_ids = [],
      np_rejected_rule_ids = (if falsy (rj_rule_id reason) then [] else [default_to [] (rj_rule_id reason)]),
      np_rejection_reasons = [reason], np_external_funding_jpy = 0, np_merchant_value_jpy = 0,
      np_opening_asset_units_consumed = []\<rparr>"

definition candidate_result ::
    "recommendation_host \<Rightarrow> contract_check \<Rightarrow> evaluate_plan_options \<Rightarrow> purchase_plan \<Rightarrow> native_plan_result res" where
  "candidate_result h contracts options plan =
     (case evaluate_native_plan (rh_engine h) (contracts options) plan options of
        Inr native \<Rightarrow> Inr native
      | Inl (PE_semantic issues) \<Rightarrow> Inr (invalid_native_plan plan \<lparr>rj_code = ''invalid_plan'',
          rj_message = plan_error_text (PE_semantic issues), rj_operation_id = None, rj_rule_id = None\<rparr>)
      | Inl (PE_thrown t) \<Rightarrow> Inl t)"

record recommendation =
  re_winner :: "valued_plan_result option"
  re_runner_up :: "valued_plan_result option"
  re_plans :: "valued_plan_result list"
  re_valuation_sensitivities :: "valuation_sensitivity list"
  re_outcome_mode :: outcome_mode
  re_definite_winner_plan_id :: "string option"
  re_safe_plan_id :: "string option"
  re_conditional_winners :: "conditional_winner list"
  re_questions_to_resolve :: "resolution_question list"
  re_explanation_tokens :: "string list"

definition maximizes_expected :: "internal_context \<Rightarrow> bool" where
  "maximizes_expected ctx \<longleftrightarrow> rq_primary (ic_objective ctx) = MX_expected_net_value"

definition uncertainty_input :: "internal_context \<Rightarrow> feasible_state list \<Rightarrow> feasible_input" where
  "uncertainty_input ctx states =
     \<lparr>fe_states = Some states, fe_plans = [],
      fe_objective = Some (if maximizes_expected ctx then ''maximize_expected'' else ''maximize_guaranteed''),
      fe_policy = Some (rq_probabilistic_reward_policy (ic_objective ctx)), fe_questions = []\<rparr>"

definition by_plan_id :: "valued_plan_result list \<Rightarrow> (string, valued_plan_result) omap" where
  "by_plan_id vs = fold (\<lambda>v. om_set (plan_id_of v) v) vs []"

definition named_plan :: "valued_plan_result list \<Rightarrow> outcome_mode \<Rightarrow> string option \<Rightarrow> valued_plan_result option" where
  "named_plan vs mode i =
     (if mode = OM_definite \<and> \<not> falsy i then om_get (by_plan_id vs) (default_to [] i) else None)"

definition uncertain_order :: "string list \<Rightarrow> valued_plan_result list \<Rightarrow> valued_plan_result list \<Rightarrow> valued_plan_result list" where
  "uncertain_order ids vs ranked =
     concat (map (\<lambda>i. case om_get (by_plan_id vs) i of None \<Rightarrow> [] | Some v \<Rightarrow> [v]) ids) @
     filter (\<lambda>v. plan_id_of v \<notin> set ids) ranked"

definition outcome_token :: "outcome_mode \<Rightarrow> string" where
  "outcome_token m = (case m of OM_conditional \<Rightarrow> ''ranking.conditional_winner'' | OM_definite \<Rightarrow> ''ranking.definite_winner''
     | OM_no_valid_plan \<Rightarrow> ''ranking.no_valid_plan'')"

definition uncertain_recommendation ::
    "internal_context \<Rightarrow> feasible_result \<Rightarrow> valued_plan_result list \<Rightarrow> valued_plan_result list \<Rightarrow> recommendation" where
  "uncertain_recommendation ctx u vs ranked =
     \<lparr>re_winner = named_plan vs (fr_mode u) (fr_definite u), re_runner_up = named_plan vs (fr_mode u) (fr_runner_up u),
      re_plans = uncertain_order (if maximizes_expected ctx then fr_expected_ranking u else fr_guaranteed_ranking u) vs ranked,
      re_valuation_sensitivities = [], re_outcome_mode = fr_mode u, re_definite_winner_plan_id = fr_definite u,
      re_safe_plan_id = fr_safe u, re_conditional_winners = fr_conditional u, re_questions_to_resolve = fr_questions u,
      re_explanation_tokens = [''uncertainty.explicit_feasible_states'', outcome_token (fr_mode u)]\<rparr>"

definition certain_recommendation ::
    "valuation_sensitivity list \<Rightarrow> valued_plan_result list \<Rightarrow> recommendation" where
  "certain_recommendation sensitivities ranked =
     (let winner = (case ranked of [] \<Rightarrow> None | v # _ \<Rightarrow> Some v)
      in \<lparr>re_winner = winner, re_runner_up = (case ranked of _ # v # _ \<Rightarrow> Some v | _ \<Rightarrow> None), re_plans = ranked,
          re_valuation_sensitivities = sensitivities,
          re_outcome_mode = (if ranked = [] then OM_no_valid_plan else OM_definite),
          re_definite_winner_plan_id = map_option plan_id_of winner, re_safe_plan_id = map_option plan_id_of winner,
          re_conditional_winners = [], re_questions_to_resolve = [],
          re_explanation_tokens = [if ranked = [] then ''ranking.no_valid_plan'' else ''ranking.guaranteed_exact'']\<rparr>)"

definition top_sensitivities :: "runtime \<Rightarrow> internal_context \<Rightarrow> valued_plan_result list \<Rightarrow> valuation_sensitivity list res" where
  "top_sensitivities rt ctx ranked =
     (case ranked of
        first # second # _ \<Rightarrow> rmap (\<lambda>s. case s of None \<Rightarrow> [] | Some x \<Rightarrow> [x]) (sensitivity_for_pair rt ctx first second)
      | _ \<Rightarrow> Inr [])"

definition evaluate_candidates ::
    "recommendation_host \<Rightarrow> contract_check \<Rightarrow> purchase_plan list \<Rightarrow> evaluate_plan_options \<Rightarrow> recommendation res" where
  "evaluate_candidates h contracts plans options =
     (let rt = rh_runtime h; ctx = make_internal_context options
      in rbind (traverse (candidate_result h contracts options) plans) (\<lambda>natives.
         rbind (traverse (\<lambda>n. valued_plan rt n ctx) (filter np_eligible natives)) (\<lambda>vs.
         let ranked = rank_plans rt (ic_objective ctx) vs
         in rbind (top_sensitivities rt ctx ranked) (\<lambda>sensitivities.
            rbind (case opt_feasibleStates options of
                Some states \<Rightarrow> Inr states
              | None \<Rightarrow> derived_feasible_states h contracts plans options) (\<lambda>states.
              if states = [] then Inr (certain_recommendation sensitivities ranked)
              else rmap (\<lambda>u. uncertain_recommendation ctx u vs ranked)
                (evaluate_feasible_states rt (eh_text_of (rh_engine h) \<circ> Some) (rh_stringify h) (uncertainty_input ctx states)))))))"

end
