(* ===== verification/Recommendation_Laws.thy ===== *)
theory Recommendation_Laws
  imports Recommendation
begin

text \<open>
  What a recommendation guarantees: the ranking puts the best plan first, the assignments of the
  unknown facts are all combinations within the limit, and only eligible plans are recommended, with
  no eligible candidate lost.
\<close>

lemma traverse_mem: "traverse f xs = Inr ys \<Longrightarrow> y \<in> set ys \<Longrightarrow> \<exists>x\<in>set xs. f x = Inr y"
  by (induction xs arbitrary: ys) (auto simp: res_simps)

lemma traverse_map: "traverse f xs = Inr ys \<Longrightarrow> (\<And>x y. f x = Inr y \<Longrightarrow> g y = k x) \<Longrightarrow> map g ys = map k xs"
  by (induction xs arbitrary: ys) (auto simp: res_simps)

lemma om_set_entries: "set (om_set k v m) \<subseteq> insert (k, v) (set m)"
  by (induction m) (auto split: if_splits)

section \<open>The ranking\<close>

context decimal_rounding
begin

lemma dsub_0_iff: "dsub rt x y = 0 \<longleftrightarrow> x = y"
proof
  assume 0: "dsub rt x y = 0"
  have "\<bar>d\<bar> * (10 ^ 119 - 1) \<le> 0" if "rt_round rt d = 0" for d
    using round_error [of d] that by (simp only: algebra_simps abs_minus_cancel diff_0 mult_1_right)
  moreover have "(0 :: rat) < 10 ^ 119 - 1" by simp
  ultimately show "x = y" using 0 unfolding dsub_def by (metis abs_le_zero_iff eq_iff_diff_eq_0 mult_le_0_iff not_less)
next
  assume "x = y"
  then show "dsub rt x y = 0" by (simp add: dsub_def)
qed

lemma dsub_less_0_iff: "dsub rt x y < 0 \<longleftrightarrow> x < y"
proof (cases "x < y")
  case True
  then have "dsub rt x y \<le> 0" using round_mono [of "x - y" 0] by (simp add: dsub_def)
  with True dsub_0_iff [of x y] show ?thesis by auto
next
  case False
  then show ?thesis using dsub_nonneg [of y x] by simp
qed

end

definition lower_funding_first :: "required_objective \<Rightarrow> bool" where
  "lower_funding_first g \<longleftrightarrow> ''lower_external_funding'' \<in> set (rq_tie_breakers g)"

definition fewer_operations_first :: "required_objective \<Rightarrow> bool" where
  "fewer_operations_first g \<longleftrightarrow> ''fewer_operations'' \<in> set (rq_tie_breakers g)"

abbreviation operation_count :: "valued_plan_result \<Rightarrow> int" where
  "operation_count v \<equiv> int (length (np_operations (vp_native v)))"

text \<open>The order the recommendation promises, on the numbers themselves.\<close>

definition at_least_as_good :: "runtime \<Rightarrow> required_objective \<Rightarrow> valued_plan_result \<Rightarrow> valued_plan_result \<Rightarrow> bool" where
  "at_least_as_good rt g l r \<longleftrightarrow>
     score rt g r < score rt g l \<or>
     score rt g r = score rt g l \<and>
     (lower_funding_first g \<and> funding_score rt l < funding_score rt r \<or>
      (lower_funding_first g \<longrightarrow> funding_score rt l = funding_score rt r) \<and>
      (fewer_operations_first g \<and> operation_count l < operation_count r \<or>
       (fewer_operations_first g \<longrightarrow> operation_count l = operation_count r) \<and>
       rt_locale_compare rt (plan_id_of l) (plan_id_of r) \<le> 0))"

context decimal_rounding
begin

lemma rank_compare_criteria:
  "rank_compare rt g = cmp_then (cmp_on (score rt g) (\<lambda>x y. rat_cmp y x))
     (cmp_then (criterion (lower_funding_first g) (cmp_on (funding_score rt) rat_cmp))
     (cmp_then (criterion (fewer_operations_first g) (cmp_key operation_count))
       (cmp_on plan_id_of (rt_locale_compare rt))))"
proof (intro ext)
  fix l r
  have diff: "(if dsub rt x y < 0 then -1 else 1) = rat_cmp x y" if "dsub rt x y \<noteq> 0" for x y
    using that by (simp add: rat_cmp_def dsub_less_0_iff dsub_0_iff not_less order.order_iff_strict)
  have zero: "dsub rt x y \<noteq> 0 \<longleftrightarrow> rat_cmp x y \<noteq> 0" for x y by (auto simp: rat_cmp_def dsub_0_iff)
  show "rank_compare rt g l r = cmp_then (cmp_on (score rt g) (\<lambda>x y. rat_cmp y x))
     (cmp_then (criterion (lower_funding_first g) (cmp_on (funding_score rt) rat_cmp))
     (cmp_then (criterion (fewer_operations_first g) (cmp_key operation_count))
       (cmp_on plan_id_of (rt_locale_compare rt)))) l r"
    unfolding rank_compare_def Let_def cmp_then_def cmp_on_def criterion_def cmp_key_def lower_funding_first_def [symmetric]
      fewer_operations_first_def [symmetric]
    using diff zero by (auto simp del: of_nat_diff)
qed

end

context decimal_rounding
begin

lemma rank_compare_le:
  "rank_compare rt g l r \<le> 0 \<longleftrightarrow> at_least_as_good rt g l r"
  by (auto simp: rank_compare_criteria at_least_as_good_def cmp_then_def cmp_on_def criterion_def cmp_key_def rat_cmp_def)

end

lemma rank_comparator: "decimal_rounding rt \<Longrightarrow> collation rt \<Longrightarrow> comparator (rank_compare rt g)"
  by (simp add: decimal_rounding.rank_compare_criteria comparator_then comparator_on comparator_criterion comparator_key
      comparator_rat comparator_rat_desc collation.locale_comparator)

text \<open>C19. The recommendation lists every valued plan once, best first: by the score of the objective,
  then, where the tie breakers ask for it, by lower external funding and by fewer operations, and
  at last by plan id.  The 120-digit subtraction the comparison uses never hides a difference.\<close>

theorem ranking_is_best_first:
  assumes "decimal_rounding rt" "collation rt"
  shows "mset (rank_plans rt g ps) = mset ps \<and> sorted_wrt (at_least_as_good rt g) (rank_plans rt g ps)"
  using comparator.sorted_sort_cmp [OF rank_comparator [OF assms, of g], of ps] assms(1)
  by (simp add: rank_plans_def decimal_rounding.rank_compare_le)

section \<open>The assignments of the unknown facts\<close>

lemma om_set_fresh: "k \<notin> fst ` set m \<Longrightarrow> om_set k v m = m @ [(k, v)]"
  by (induction m) auto

lemma extend_fresh:
  assumes "\<forall>a\<in>set as. map fst a = ks" "fst d \<notin> set ks"
  shows "extend_assignments d as = concat (map (\<lambda>a. map (\<lambda>v. a @ [(fst d, v)]) (snd d)) as)"
proof -
  have "om_set (fst d) v a = a @ [(fst d, v)]" if "a \<in> set as" for a v
    using assms that by (intro om_set_fresh) (metis image_set)
  then show ?thesis unfolding extend_assignments_def by (intro arg_cong [where f = concat] map_cong) auto
qed

text \<open>Every way to complete each of the assignments.\<close>

definition completions :: "(string \<times> json list) list \<Rightarrow> assignment list \<Rightarrow> assignment list" where
  "completions ds as = concat (map (\<lambda>a. map (\<lambda>vs. a @ zip (map fst ds) vs) (product_lists (map snd ds))) as)"

abbreviation combinations :: "(string \<times> json list) list \<Rightarrow> assignment list" where
  "combinations ds \<equiv> map (zip (map fst ds)) (product_lists (map snd ds))"

definition state_count :: "(string \<times> json list) list \<Rightarrow> nat" where
  "state_count ds = prod_list (map (length \<circ> snd) ds)"

lemma length_product_lists: "length (product_lists xss) = prod_list (map length xss)"
  by (induction xss) (simp_all add: length_concat comp_def sum_list_triv)

lemma completions_Nil: "completions [] as = as"
  by (induction as) (simp_all add: completions_def)

lemma completions_Cons:
  "completions (d # ds) as = completions ds (concat (map (\<lambda>a. map (\<lambda>v. a @ [(fst d, v)]) (snd d)) as))"
  by (induction as) (simp_all add: completions_def map_concat comp_def)

lemma length_completions: "length (completions ds as) = length as * state_count ds"
  by (induction as) (simp_all add: completions_def length_product_lists state_count_def comp_def)

lemma state_count_Cons: "state_count (d # ds) = length (snd d) * state_count ds"
  by (simp add: state_count_def)

lemma state_count_pos: "\<forall>d\<in>set ds. snd d \<noteq> [] \<Longrightarrow> 0 < state_count ds"
  by (induction ds) (simp_all add: state_count_def)

lemma all_assignments_completions:
  assumes "distinct (ks @ map fst ds)" "\<forall>a\<in>set as. map fst a = ks" "\<forall>d\<in>set ds. snd d \<noteq> []"
    and "length as \<le> state_limit"
  shows "all_assignments ds as =
    (if length as * state_count ds \<le> state_limit then Inr (completions ds as) else Inl ''feasible_state_limit_exceeded:64'')"
  using assms
proof (induction ds arbitrary: ks as)
  case Nil
  then show ?case by (simp add: completions_Nil state_count_def)
next
  case (Cons d ds)
  define bs where "bs = extend_assignments d as"
  have bs: "bs = concat (map (\<lambda>a. map (\<lambda>v. a @ [(fst d, v)]) (snd d)) as)"
    unfolding bs_def by (rule extend_fresh [OF Cons.prems(2)]) (use Cons.prems(1) in auto)
  have len: "length bs = length as * length (snd d)"
    unfolding bs by (simp add: length_concat comp_def sum_list_triv)
  have pos: "0 < state_count ds" using Cons.prems(3) by (intro state_count_pos) simp
  show ?case
  proof (cases "length bs \<le> state_limit")
    case True
    have "all_assignments ds bs = (if length bs * state_count ds \<le> state_limit then Inr (completions ds bs)
        else Inl ''feasible_state_limit_exceeded:64'')"
      by (rule Cons.IH [where ks = "ks @ [fst d]"]) (use Cons.prems True in \<open>auto simp: bs\<close>)
    with True show ?thesis
      by (simp add: bs_def [symmetric] Let_def len state_count_Cons completions_Cons bs [symmetric] mult.assoc)
  next
    case False
    moreover have "length bs * 1 \<le> length bs * state_count ds" using pos by (intro mult_left_mono) simp_all
    ultimately have "\<not> length bs * state_count ds \<le> state_limit" by linarith
    then have "\<not> length as * state_count (d # ds) \<le> state_limit" by (simp add: state_count_Cons len mult.assoc)
    with False show ?thesis by (simp add: bs_def [symmetric] Let_def)
  qed
qed

lemma condition_domain_not_Nil: "condition_domain h c \<noteq> []"
  by (simp add: condition_domain_def beyond_threshold_def split: condition_operator.split js_number.split)

lemma distinct_values_grows: "distinct_values h vs seen acc = Inr r \<Longrightarrow> acc \<noteq> [] \<Longrightarrow> r \<noteq> []"
  by (induction h vs seen acc rule: distinct_values.induct) (auto simp: res_simps split: if_splits)

lemma distinct_values_not_Nil: "distinct_values h vs [] [] = Inr r \<Longrightarrow> vs \<noteq> [] \<Longrightarrow> r \<noteq> []"
  by (cases vs) (auto simp: res_simps dest: distinct_values_grows)

lemma conditions_by_key_ok:
  "om_ok (conditions_by_key facts rules) \<and> (\<forall>e\<in>set (conditions_by_key facts rules). snd e \<noteq> [])"
proof -
  define step where "step = (\<lambda>(c :: user_condition) m. om_set (cn_fact_key c) (default_to [] (om_get m (cn_fact_key c)) @ [c]) m)"
  have kept: "\<forall>e\<in>set (om_set k v m). snd e \<noteq> []" if "v \<noteq> []" "\<forall>e\<in>set m. snd e \<noteq> []" for k :: string and v :: "user_condition list" and m
    using that om_set_entries [of k v m] by fastforce
  have step: "om_ok (step c m) \<and> (\<forall>e\<in>set (step c m). snd e \<noteq> [])" if "om_ok m" "\<forall>e\<in>set m. snd e \<noteq> []" for c m
    unfolding step_def using om_ok_set [OF that(1)] kept [OF _ that(2)] by blast
  have "om_ok (fold step cs m) \<and> (\<forall>e\<in>set (fold step cs m). snd e \<noteq> [])"
    if "om_ok m" "\<forall>e\<in>set m. snd e \<noteq> []" for cs m
    using that
  proof (induction cs arbitrary: m)
    case (Cons c cs)
    have "om_ok (step c m)" "\<forall>e\<in>set (step c m). snd e \<noteq> []" using step [OF Cons.prems] by blast+
    then have "om_ok (fold step cs (step c m)) \<and> (\<forall>e\<in>set (fold step cs (step c m)). snd e \<noteq> [])" by (rule Cons.IH)
    then show ?case unfolding fold.simps comp_apply .
  qed simp
  from this [of "[]"] show ?thesis unfolding conditions_by_key_def step_def [symmetric] by simp
qed

lemma fact_domains_ok:
  assumes "fact_domains h facts rules = Inr domains"
  shows "distinct (map fst domains) \<and> (\<forall>d\<in>set domains. snd d \<noteq> [])"
proof -
  define es where "es = sort_cmp (cmp_on fst (rt_locale_compare (rh_runtime h))) (conditions_by_key facts rules)"
  have es: "distinct (map fst es)" "\<forall>e\<in>set es. snd e \<noteq> []"
    using conditions_by_key_ok [of facts rules]
    by (auto simp: es_def om_ok_def distinct_map inj_on_def)
  have one: "fst d = fst e \<and> snd d \<noteq> []" if e: "fact_domain h e = Inr d" "snd e \<noteq> []" for d e
  proof -
    have "concat (map (condition_domain h) (snd e)) \<noteq> []"
      using e(2) condition_domain_not_Nil [of h "hd (snd e)"] by (cases "snd e") auto
    moreover obtain r where "distinct_values h (concat (map (condition_domain h) (snd e))) [] [] = Inr r" "d = (fst e, r)"
      using e(1) by (auto simp: fact_domain_def res_simps)
    ultimately show ?thesis using distinct_values_not_Nil by simp
  qed
  have keys: "map fst ds = map fst es" if "traverse (fact_domain h) es = Inr ds" for es ds
    using that by (induction es arbitrary: ds) (auto simp: res_simps fact_domain_def)
  from assms have run: "traverse (fact_domain h) es = Inr domains" by (simp add: fact_domains_def es_def)
  show ?thesis using keys [OF run] es one traverse_mem [OF run] by metis
qed

lemma distinct_states: "distinct (map fs_state_id (map (derived_state h contracts options u plans keys) (enumerate n as)))"
proof -
  have "map fs_state_id (map (derived_state h contracts options u plans keys) (enumerate n as)) =
      map (\<lambda>i. Some (''derived_'' @ nat_text i)) [n..<n + length as]"
    by (induction as arbitrary: n) (simp_all add: derived_state_def upt_rec)
  moreover have "inj (\<lambda>i. Some (''derived_'' @ nat_text i))"
  proof (rule injI)
    fix i j assume "Some (''derived_'' @ nat_text i) = Some (''derived_'' @ nat_text j)"
    then have "nat_text i = nat_text j" by (simp only: option.inject same_append_eq)
    then have "nat_value (nat_text i) = nat_value (nat_text j)" by simp
    then show "i = j" by (simp only: nat_text_value)
  qed
  ultimately show ?thesis by (simp only: distinct_map distinct_upt inj_on_subset [OF _ subset_UNIV])
qed

lemma assigned_states: "map fs_assignments (map (derived_state h contracts options u plans keys) (enumerate n as)) = as"
  by (induction as arbitrary: n) (simp_all add: derived_state_def)

lemma states_of_domains:
  assumes "opt_user_state options = Some u"
    and "conditions_by_key (ut_facts u) (default_to [] (orelse (opt_rules options) (opt_ruleset options))) \<noteq> []"
    and "fact_domains h (ut_facts u) (default_to [] (orelse (opt_rules options) (opt_ruleset options))) = Inr domains"
  shows "if state_count domains \<le> 64
    then \<exists>states. derived_feasible_states h contracts plans options = Inr states \<and>
      map fs_assignments states = combinations domains \<and> length states = state_count domains \<and>
      distinct (map fs_state_id states)
    else derived_feasible_states h contracts plans options = Inl ''feasible_state_limit_exceeded:64''"
proof -
  have "all_assignments domains [[]] = (if state_count domains \<le> 64 then Inr (combinations domains)
      else Inl ''feasible_state_limit_exceeded:64'')"
    using all_assignments_completions [of "[]" domains "[[]]"] fact_domains_ok [OF assms(3)]
    by (simp add: state_limit_def completions_def)
  then have run: "derived_feasible_states h contracts plans options = (if state_count domains \<le> 64
      then Inr (map (derived_state h contracts options u plans (map fst domains)) (enumerate 1 (combinations domains)))
      else Inl ''feasible_state_limit_exceeded:64'')"
    using assms by (simp add: derived_feasible_states_def)
  have count: "length (combinations domains) = state_count domains"
    by (simp add: length_product_lists state_count_def)
  show ?thesis
  proof (cases "state_count domains \<le> 64")
    case True
    let ?states = "map (derived_state h contracts options u plans (map fst domains)) (enumerate 1 (combinations domains))"
    have "map fs_assignments ?states = combinations domains" by (rule assigned_states)
    moreover have "length ?states = state_count domains" using count by (simp only: length_map length_enumerate)
    moreover have "distinct (map fs_state_id ?states)" by (rule distinct_states)
    ultimately show ?thesis using True run by (simp only: if_True) blast
  qed (simp add: run)
qed

text \<open>The facts the rules ask about, and the values that tell the answers apart, in terms of the rules
  and the user state alone.\<close>

definition asked :: "user_state \<Rightarrow> engine_rule list \<Rightarrow> string \<Rightarrow> user_condition \<Rightarrow> bool" where
  "asked u rules k c \<longleftrightarrow> (\<exists>r\<in>set rules. c \<in> set (er_user_conditions r)) \<and> cn_fact_key c = k \<and>
     cn_unknown_policy c \<in> {UN_return_conditional, UN_ask_user} \<and>
     \<not> (\<exists>v. om_get (ut_facts u) k = Some v \<and> sv_status v = FS_known)"

definition asked_facts :: "user_state \<Rightarrow> engine_rule list \<Rightarrow> string set" where
  "asked_facts u rules = {k. \<exists>c. asked u rules k c}"

definition telling_values :: "recommendation_host \<Rightarrow> user_condition \<Rightarrow> json option set" where
  "telling_values h c =
     (let value = cn_value c;
          other = Some (JStr (''__not_'' @ cn_fact_key c @ ''__''));
          given = (case value of None \<Rightarrow> Some (JBool True) | Some JNull \<Rightarrow> Some (JBool True) | Some j \<Rightarrow> Some j);
          members = (case value of Some (JArr vs) \<Rightarrow> Some ` set vs | _ \<Rightarrow> {});
          beyond = (\<lambda>step. case rh_number_of h value of
              Finite q \<Rightarrow> Some (JNum (rh_number_add h (Finite q) step)) | NonFinite \<Rightarrow> other)
      in case cn_operator c of
           ON_eq \<Rightarrow> {value, other} | ON_neq \<Rightarrow> {value, other}
         | ON_in \<Rightarrow> insert other members | ON_not_in \<Rightarrow> insert other members
         | ON_gte \<Rightarrow> {value, beyond (- 1)} | ON_lte \<Rightarrow> {value, beyond 1}
         | ON_exists \<Rightarrow> {given, Some JNull} | ON_not_exists \<Rightarrow> {given, Some JNull})"

definition told_texts :: "recommendation_host \<Rightarrow> user_state \<Rightarrow> engine_rule list \<Rightarrow> string \<Rightarrow> string set" where
  "told_texts h u rules k =
     {t. \<exists>c v. asked u rules k c \<and> v \<in> telling_values h c \<and> canonical_value (rh_engine h) v = Inr t}"

text \<open>The state whose facts are exactly those of \<open>K\<close>, with the values whose canonical texts \<open>f\<close> chooses.\<close>

definition chooses :: "recommendation_host \<Rightarrow> string set \<Rightarrow> feasible_state \<Rightarrow> (string \<Rightarrow> string) \<Rightarrow> bool" where
  "chooses h K s f \<longleftrightarrow> distinct (map fst (fs_assignments s)) \<and> fst ` set (fs_assignments s) = K \<and>
     (\<forall>(k, v)\<in>set (fs_assignments s). canonical_value (rh_engine h) (Some v) = Inr (f k))"

lemma condition_domain_telling: "set (condition_domain h c) = telling_values h c"
proof -
  have given: "value_or_true v = (case v of None \<Rightarrow> Some (JBool True) | Some JNull \<Rightarrow> Some (JBool True) | Some j \<Rightarrow> Some j)" for v
    by (auto simp: value_or_true_def absent_def split: option.splits json.splits)
  have members: "set (listed_values v) = (case v of Some (JArr vs) \<Rightarrow> Some ` set vs | _ \<Rightarrow> {})" for v
    by (auto simp: listed_values_def split: option.splits json.splits)
  show ?thesis
    by (cases "cn_operator c")
      (auto simp: condition_domain_def telling_values_def Let_def given members sentinel_def beyond_threshold_def
        split: js_number.splits)
qed

lemma conditions_by_key_get:
  "om_get (conditions_by_key (ut_facts u) rules) k = Some cs \<Longrightarrow> set cs = {c. asked u rules k c}"
  "om_get (conditions_by_key (ut_facts u) rules) k = None \<longleftrightarrow> k \<notin> asked_facts u rules"
proof -
  define os where "os = filter (open_condition (ut_facts u)) (concat (map er_user_conditions rules))"
  define mine where "mine = filter (\<lambda>c. cn_fact_key c = k) os"
  have asked: "c \<in> set mine \<longleftrightarrow> asked u rules k c" for c
    by (cases "om_get (ut_facts u) k") (auto simp: mine_def os_def asked_def open_condition_def)
  have "om_get (fold (\<lambda>c m. om_set (cn_fact_key c) (default_to [] (om_get m (cn_fact_key c)) @ [c]) m) cs m) k =
      (if filter (\<lambda>c. cn_fact_key c = k) cs = [] then om_get m k
       else Some (default_to [] (om_get m k) @ filter (\<lambda>c. cn_fact_key c = k) cs))" for cs m
    by (induction cs arbitrary: m) (auto simp: om_get_set)
  from this [of os "[]"] have get: "om_get (conditions_by_key (ut_facts u) rules) k = (if mine = [] then None else Some mine)"
    by (simp add: conditions_by_key_def os_def mine_def)
  then show "om_get (conditions_by_key (ut_facts u) rules) k = Some cs \<Longrightarrow> set cs = {c. asked u rules k c}"
    using asked by (auto split: if_splits)
  have "set mine = {c. asked u rules k c}" using asked by blast
  then have "mine = [] \<longleftrightarrow> k \<notin> asked_facts u rules" unfolding set_empty [symmetric] asked_facts_def by simp
  with get show "om_get (conditions_by_key (ut_facts u) rules) k = None \<longleftrightarrow> k \<notin> asked_facts u rules" by simp
qed

text \<open>The values kept for a fact have the texts of all its values, each once.\<close>

lemma distinct_values_spec:
  assumes "\<forall>v\<in>set vs. \<exists>t. canonical_value (rh_engine h) v = Inr t"
    and "map (\<lambda>j. canonical_value (rh_engine h) (Some j)) acc = map Inr ts" "distinct ts" "set seen = set ts"
  shows "\<exists>r ts'. distinct_values h vs seen acc = Inr r \<and>
    map (\<lambda>j. canonical_value (rh_engine h) (Some j)) r = map Inr ts' \<and> distinct ts' \<and>
    set ts' = set ts \<union> {t. \<exists>v\<in>set vs. canonical_value (rh_engine h) v = Inr t} \<and>
    set r \<subseteq> set acc \<union> {j. Some j \<in> set vs}"
  using assms
proof (induction vs arbitrary: seen acc ts)
  case (Cons v vs)
  from Cons.prems(1) obtain t where t: "canonical_value (rh_engine h) v = Inr t" by auto
  then obtain j where j: "v = Some j" by (cases v) (auto simp: canonical_value_def)
  show ?case
  proof (cases "t \<in> set seen")
    case True
    then obtain r ts' where r: "distinct_values h vs seen acc = Inr r"
      "map (\<lambda>j. canonical_value (rh_engine h) (Some j)) r = map Inr ts'" "distinct ts'"
      "set ts' = set ts \<union> {t. \<exists>v\<in>set vs. canonical_value (rh_engine h) v = Inr t}"
      "set r \<subseteq> set acc \<union> {j. Some j \<in> set vs}"
      using Cons.IH [of acc ts seen] Cons.prems by auto
    moreover have "distinct_values h (v # vs) seen acc = Inr r" using t True r(1) by simp
    ultimately show ?thesis using t True Cons.prems(4) by (intro exI [of _ r] exI [of _ ts']) auto
  next
    case False
    have "map (\<lambda>j. canonical_value (rh_engine h) (Some j)) (acc @ [j]) = map Inr (ts @ [t])"
      using Cons.prems(2) t j by simp
    moreover have "distinct (ts @ [t])" "set (t # seen) = set (ts @ [t])" using Cons.prems(3,4) False by auto
    ultimately obtain r ts' where r: "distinct_values h vs (t # seen) (acc @ [j]) = Inr r"
      "map (\<lambda>j. canonical_value (rh_engine h) (Some j)) r = map Inr ts'" "distinct ts'"
      "set ts' = set (ts @ [t]) \<union> {t. \<exists>v\<in>set vs. canonical_value (rh_engine h) v = Inr t}"
      "set r \<subseteq> set (acc @ [j]) \<union> {j. Some j \<in> set vs}"
      using Cons.IH [of "acc @ [j]" "ts @ [t]" "t # seen"] Cons.prems(1) by auto
    moreover have "distinct_values h (v # vs) seen acc = Inr r" using t False r(1) j by simp
    ultimately show ?thesis using t j by (intro exI [of _ r] exI [of _ ts']) auto
  qed
qed auto

text \<open>A domain that has the told texts of its fact, each once.\<close>

definition domain_ok :: "recommendation_host \<Rightarrow> user_state \<Rightarrow> engine_rule list \<Rightarrow> string \<times> json list \<Rightarrow> bool" where
  "domain_ok h u rules d \<longleftrightarrow>
     (\<exists>ts. map (\<lambda>j. canonical_value (rh_engine h) (Some j)) (snd d) = map Inr ts \<and> distinct ts \<and>
        set ts = told_texts h u rules (fst d)) \<and>
     (\<forall>j\<in>set (snd d). \<exists>c. asked u rules (fst d) c \<and> Some j \<in> telling_values h c)"

lemma traverse_total: "\<forall>x\<in>set xs. \<exists>y. f x = Inr y \<Longrightarrow> \<exists>ys. traverse f xs = Inr ys"
  by (induction xs) auto

lemma fact_domains_spec:
  assumes "\<forall>k c v. asked u rules k c \<longrightarrow> v \<in> telling_values h c \<longrightarrow> (\<exists>t. canonical_value (rh_engine h) v = Inr t)"
  obtains domains where "fact_domains h (ut_facts u) rules = Inr domains" "distinct (map fst domains)"
    "fst ` set domains = asked_facts u rules" "\<forall>d\<in>set domains. domain_ok h u rules d"
proof -
  define m where "m = conditions_by_key (ut_facts u) rules"
  define es where "es = sort_cmp (cmp_on fst (rt_locale_compare (rh_runtime h))) m"
  have ok: "distinct (map fst m)" using conditions_by_key_ok [of "ut_facts u" rules] by (simp add: m_def om_ok_def)
  have one: "\<exists>d. fact_domain h e = Inr d \<and> fst d = fst e \<and> domain_ok h u rules d" if e: "e \<in> set m" for e
  proof -
    obtain k cs where kc: "e = (k, cs)" by (cases e)
    have "om_get m k = Some cs" using e ok unfolding kc by simp
    then have cs: "set cs = {c. asked u rules k c}" using conditions_by_key_get(1) unfolding m_def by blast
    let ?vs = "concat (map (condition_domain h) cs)"
    have vs: "set ?vs = {v. \<exists>c. asked u rules k c \<and> v \<in> telling_values h c}" using cs by (auto simp: condition_domain_telling)
    obtain r ts where r: "distinct_values h ?vs [] [] = Inr r"
      "map (\<lambda>j. canonical_value (rh_engine h) (Some j)) r = map Inr ts" "distinct ts"
      "set ts = set [] \<union> {t. \<exists>v\<in>set ?vs. canonical_value (rh_engine h) v = Inr t}"
      "set r \<subseteq> set [] \<union> {j. Some j \<in> set ?vs}"
    proof -
      have "\<forall>v\<in>set ?vs. \<exists>t. canonical_value (rh_engine h) v = Inr t" unfolding vs using assms by blast
      from distinct_values_spec [OF this, of "[]" "[]" "[]"] show ?thesis
        using that by (simp only: list.map distinct.simps simp_thms list.set) blast
    qed
    have "set ts = told_texts h u rules k" unfolding r(4) vs told_texts_def by auto
    moreover have "\<forall>j\<in>set r. \<exists>c. asked u rules k c \<and> Some j \<in> telling_values h c" using r(5) unfolding vs by auto
    ultimately have "domain_ok h u rules (k, r)" unfolding domain_ok_def fst_conv snd_conv using r(2,3) by blast
    moreover have "fact_domain h e = Inr (k, r)" using r(1) by (simp add: kc fact_domain_def)
    ultimately show ?thesis by (metis fst_conv kc)
  qed
  have sorted: "set es = set m" "mset es = mset m" by (simp_all add: es_def)
  obtain domains where d: "traverse (fact_domain h) es = Inr domains"
    using traverse_total [of es "fact_domain h"] one sorted(1) by blast
  have keys: "map fst domains = map fst es"
    by (rule traverse_map [OF d]) (auto simp: fact_domain_def res_simps)
  have "fst ` set m = asked_facts u rules"
    using conditions_by_key_get(2) [of u rules] unfolding m_def [symmetric] map_of_eq_None_iff by blast
  then have "fst ` set domains = asked_facts u rules" using keys sorted(1) by (metis image_set)
  moreover have "distinct (map fst domains)"
    unfolding keys using ok sorted(2) by (metis mset_eq_imp_distinct_iff mset_map)
  moreover have "\<forall>x\<in>set domains. domain_ok h u rules x"
    using traverse_mem [OF d] one sorted(1) by (metis Inr_inject)
  moreover have "fact_domains h (ut_facts u) rules = Inr domains" using d by (simp add: fact_domains_def es_def m_def)
  ultimately show ?thesis using that by blast
qed

lemma in_combinations:
  assumes "distinct (map fst ds)"
  shows "a \<in> set (combinations ds) \<longleftrightarrow> (\<exists>g. (\<forall>d\<in>set ds. g d \<in> set (snd d)) \<and> a = map (\<lambda>d. (fst d, g d)) ds)"
  using assms
proof (induction ds arbitrary: a)
  case (Cons d ds)
  have "set (combinations (d # ds)) = (\<Union>j\<in>set (snd d). (#) (fst d, j) ` set (combinations ds))"
    by (auto simp: image_UN image_image)
  then have "a \<in> set (combinations (d # ds)) \<longleftrightarrow> (\<exists>j\<in>set (snd d). \<exists>b\<in>set (combinations ds). a = (fst d, j) # b)"
    by blast
  also have "\<dots> \<longleftrightarrow> (\<exists>g. (\<forall>x\<in>set (d # ds). g x \<in> set (snd x)) \<and> a = map (\<lambda>x. (fst x, g x)) (d # ds))"
  proof
    assume "\<exists>j\<in>set (snd d). \<exists>b\<in>set (combinations ds). a = (fst d, j) # b"
    then obtain j b where j': "j \<in> set (snd d)" "b \<in> set (combinations ds)" "a = (fst d, j) # b" by blast
    have "distinct (map fst ds)" using Cons.prems by simp
    from iffD1 [OF Cons.IH [OF this] j'(2)] obtain g where
      "\<forall>x\<in>set ds. g x \<in> set (snd x)" "b = map (\<lambda>x. (fst x, g x)) ds" by blast
    with j' have j: "j \<in> set (snd d)" "\<forall>x\<in>set ds. g x \<in> set (snd x)"
      "a = (fst d, j) # map (\<lambda>x. (fst x, g x)) ds" by simp_all
    have "d \<notin> set ds" using Cons.prems by auto
    then show "\<exists>g. (\<forall>x\<in>set (d # ds). g x \<in> set (snd x)) \<and> a = map (\<lambda>x. (fst x, g x)) (d # ds)"
      using j by (intro exI [of _ "g(d := j)"]) auto
  next
    assume "\<exists>g. (\<forall>x\<in>set (d # ds). g x \<in> set (snd x)) \<and> a = map (\<lambda>x. (fst x, g x)) (d # ds)"
    then obtain g where g: "\<forall>x\<in>set (d # ds). g x \<in> set (snd x)" "a = map (\<lambda>x. (fst x, g x)) (d # ds)" by blast
    have "distinct (map fst ds)" using Cons.prems by simp
    from Cons.IH [OF this] have "map (\<lambda>x. (fst x, g x)) ds \<in> set (combinations ds)"
      by (rule iffD2) (use g(1) in auto)
    moreover have "a = (fst d, g d) # map (\<lambda>x. (fst x, g x)) ds" "g d \<in> set (snd d)" using g by simp_all
    ultimately show "\<exists>j\<in>set (snd d). \<exists>b\<in>set (combinations ds). a = (fst d, j) # b" by blast
  qed
  finally show ?case .
qed simp

lemma distinct_combinations:
  assumes "\<forall>d\<in>set ds. distinct (snd d)"
  shows "distinct (combinations ds)"
proof -
  have "distinct (product_lists (map snd ds))" by (rule distinct_product_lists) (use assms in auto)
  moreover have "inj_on (zip (map fst ds)) (set (product_lists (map snd ds)))"
  proof (rule inj_onI)
    fix x y assume "x \<in> set (product_lists (map snd ds))" "y \<in> set (product_lists (map snd ds))"
      and eq: "zip (map fst ds) x = zip (map fst ds) y"
    then have "length x = length ds" "length y = length ds" using in_set_product_lists_length by fastforce+
    then show "x = y" using eq by (metis length_map map_snd_zip)
  qed
  ultimately show ?thesis by (simp add: distinct_map)
qed

lemma told_once:
  assumes "domain_ok h u rules d"
  shows "length (snd d) = card (told_texts h u rules (fst d))" "distinct (snd d)"
    "t \<in> told_texts h u rules (fst d) \<Longrightarrow> \<exists>j\<in>set (snd d). canonical_value (rh_engine h) (Some j) = Inr t"
    "j \<in> set (snd d) \<Longrightarrow> \<exists>t\<in>told_texts h u rules (fst d). canonical_value (rh_engine h) (Some j) = Inr t"
    "i \<in> set (snd d) \<Longrightarrow> j \<in> set (snd d) \<Longrightarrow>
      canonical_value (rh_engine h) (Some i) = canonical_value (rh_engine h) (Some j) \<Longrightarrow> i = j"
proof -
  define C where "C = (\<lambda>j. canonical_value (rh_engine h) (Some j))"
  obtain ts where ts: "map C (snd d) = map Inr ts" "distinct ts" "set ts = told_texts h u rules (fst d)"
    using assms unfolding domain_ok_def C_def by blast
  have img: "C ` set (snd d) = Inr ` told_texts h u rules (fst d)" using ts by (metis image_set)
  have "distinct (map C (snd d))" unfolding ts(1) using ts(2) by (simp add: distinct_map inj_on_def)
  then have inj: "inj_on C (set (snd d))" and d: "distinct (snd d)" by (simp_all add: distinct_map)
  show "distinct (snd d)" by (rule d)
  have "length (snd d) = length ts" using ts(1) by (metis length_map)
  then show "length (snd d) = card (told_texts h u rules (fst d))" using distinct_card [OF ts(2)] ts(3) by simp
  show "\<exists>j\<in>set (snd d). canonical_value (rh_engine h) (Some j) = Inr t" if "t \<in> told_texts h u rules (fst d)"
  proof -
    have "Inr t \<in> C ` set (snd d)" unfolding img using that by (rule imageI)
    then show ?thesis unfolding C_def by auto
  qed
  show "\<exists>t\<in>told_texts h u rules (fst d). canonical_value (rh_engine h) (Some j) = Inr t" if "j \<in> set (snd d)"
  proof -
    have "C j \<in> Inr ` told_texts h u rules (fst d)" unfolding img [symmetric] using that by (rule imageI)
    then show ?thesis unfolding C_def by auto
  qed
  show "i = j" if "i \<in> set (snd d)" "j \<in> set (snd d)"
    "canonical_value (rh_engine h) (Some i) = canonical_value (rh_engine h) (Some j)"
    using inj_onD [OF inj, of i j] that by (simp add: C_def)
qed

lemma state_count_told:
  assumes "distinct (map fst ds)" "\<forall>d\<in>set ds. domain_ok h u rules d"
  shows "state_count ds = (\<Prod>k\<in>fst ` set ds. card (told_texts h u rules k))"
proof -
  have "map (length \<circ> snd) ds = map (\<lambda>k. card (told_texts h u rules k)) (map fst ds)"
    using assms(2) told_once(1) by simp
  then show ?thesis
    using prod.distinct_set_conv_list [OF assms(1), of "\<lambda>k. card (told_texts h u rules k)"]
    by (simp only: state_count_def set_map)
qed

text \<open>Each choice of a told text for every asked fact is the choice of one combination.\<close>

lemma combination_of_choice:
  assumes ds: "distinct (map fst ds)" "\<forall>d\<in>set ds. domain_ok h u rules d"
  defines "made \<equiv> \<lambda>a f. \<forall>(k, v)\<in>set a. canonical_value (rh_engine h) (Some v) = Inr (f k)"
  shows "a \<in> set (combinations ds) \<Longrightarrow> map fst a = map fst ds"
    and "a \<in> set (combinations ds) \<Longrightarrow> (k, v) \<in> set a \<Longrightarrow> \<exists>c. asked u rules k c \<and> Some v \<in> telling_values h c"
    and "a \<in> set (combinations ds) \<Longrightarrow> \<exists>f. (\<forall>k\<in>fst ` set ds. f k \<in> told_texts h u rules k) \<and> made a f"
    and "\<forall>k\<in>fst ` set ds. f k \<in> told_texts h u rules k \<Longrightarrow> \<exists>a\<in>set (combinations ds). made a f"
    and "a \<in> set (combinations ds) \<Longrightarrow> b \<in> set (combinations ds) \<Longrightarrow> made a f \<Longrightarrow> made b f \<Longrightarrow> a = b"
proof -
  note shape = in_combinations [OF ds(1)]
  show "a \<in> set (combinations ds) \<Longrightarrow> map fst a = map fst ds" unfolding shape by auto
  show "\<exists>c. asked u rules k c \<and> Some v \<in> telling_values h c" if a: "a \<in> set (combinations ds)" "(k, v) \<in> set a"
  proof -
    obtain g where "\<forall>d\<in>set ds. g d \<in> set (snd d)" "a = map (\<lambda>d. (fst d, g d)) ds" using a(1) unfolding shape by blast
    with a(2) obtain d where "d \<in> set ds" "k = fst d" "v = g d" "v \<in> set (snd d)" by auto
    with ds(2) show ?thesis unfolding domain_ok_def by blast
  qed
  show "\<exists>f. (\<forall>k\<in>fst ` set ds. f k \<in> told_texts h u rules k) \<and> made a f" if a: "a \<in> set (combinations ds)"
  proof -
    obtain g where g: "\<forall>d\<in>set ds. g d \<in> set (snd d)" "a = map (\<lambda>d. (fst d, g d)) ds" using a unfolding shape by blast
    define T where "T = (\<lambda>d. THE t. canonical_value (rh_engine h) (Some (g d)) = Inr t)"
    have T: "canonical_value (rh_engine h) (Some (g d)) = Inr (T d) \<and> T d \<in> told_texts h u rules (fst d)"
      if "d \<in> set ds" for d
      using told_once(4) [OF bspec [OF ds(2) that] bspec [OF g(1) that]] by (auto simp: T_def)
    define f where "f = (\<lambda>k. T (k, the (map_of ds k)))"
    have f: "f (fst d) = T d" if "d \<in> set ds" for d
      using map_of_is_SomeI [OF ds(1), of "fst d" "snd d"] that by (simp add: f_def)
    show ?thesis by (rule exI [of _ f]) (use T f in \<open>auto simp: made_def g(2)\<close>)
  qed
  show "\<exists>a\<in>set (combinations ds). made a f" if f: "\<forall>k\<in>fst ` set ds. f k \<in> told_texts h u rules k"
  proof -
    have "\<forall>d\<in>set ds. \<exists>j. j \<in> set (snd d) \<and> canonical_value (rh_engine h) (Some j) = Inr (f (fst d))"
      using told_once(3) ds(2) f by blast
    then obtain g where g: "\<forall>d\<in>set ds. g d \<in> set (snd d) \<and> canonical_value (rh_engine h) (Some (g d)) = Inr (f (fst d))"
      by metis
    have "map (\<lambda>d. (fst d, g d)) ds \<in> set (combinations ds)" unfolding shape using g by blast
    moreover have "made (map (\<lambda>d. (fst d, g d)) ds) f" using g by (auto simp: made_def)
    ultimately show ?thesis by blast
  qed
  show "a = b" if ab: "a \<in> set (combinations ds)" "b \<in> set (combinations ds)" "made a f" "made b f"
  proof -
    obtain g g' where g: "\<forall>d\<in>set ds. g d \<in> set (snd d)" "a = map (\<lambda>d. (fst d, g d)) ds"
      and g': "\<forall>d\<in>set ds. g' d \<in> set (snd d)" "b = map (\<lambda>d. (fst d, g' d)) ds"
      using ab(1,2) unfolding shape by blast
    have "g d = g' d" if "d \<in> set ds" for d
      by (rule told_once(5) [OF bspec [OF ds(2) that]]) (use that g g' ab(3,4) in \<open>auto simp: made_def\<close>)
    then show ?thesis by (simp add: g(2) g'(2))
  qed
qed

text \<open>States whose assignments are the combinations stand for the choices one to one.\<close>

lemma states_of_choices:
  assumes ds: "distinct (map fst ds)" and keys: "fst ` set ds = asked_facts u rules"
    and ok: "\<forall>d\<in>set ds. domain_ok h u rules d" and ss: "map fs_assignments ss = combinations ds"
  shows "\<forall>s\<in>set ss. \<forall>(k, v)\<in>set (fs_assignments s). \<exists>c. asked u rules k c \<and> Some v \<in> telling_values h c"
    and "\<forall>s\<in>set ss. \<exists>f. (\<forall>k\<in>asked_facts u rules. f k \<in> told_texts h u rules k) \<and> chooses h (asked_facts u rules) s f"
    and "\<forall>k\<in>asked_facts u rules. f k \<in> told_texts h u rules k \<Longrightarrow> \<exists>!s. s \<in> set ss \<and> chooses h (asked_facts u rules) s f"
proof -
  have dist: "inj_on fs_assignments (set ss)"
  proof -
    have "distinct (combinations ds)" by (rule distinct_combinations) (use ok told_once(2) in blast)
    then show ?thesis using ss by (metis distinct_map)
  qed
  have a: "fs_assignments s \<in> set (combinations ds)" if "s \<in> set ss" for s using ss that by (metis image_eqI image_set)
  have chooses: "chooses h (asked_facts u rules) s f \<longleftrightarrow>
      (\<forall>(k, v)\<in>set (fs_assignments s). canonical_value (rh_engine h) (Some v) = Inr (f k))" if "s \<in> set ss" for s f
  proof -
    have "map fst (fs_assignments s) = map fst ds" by (rule combination_of_choice(1) [OF ds ok a [OF that]])
    then have "distinct (map fst (fs_assignments s))" "fst ` set (fs_assignments s) = asked_facts u rules"
      using ds keys by (simp, metis image_set)
    then show ?thesis by (simp add: chooses_def)
  qed
  note comb = combination_of_choice [OF ds ok, unfolded keys]
  show "\<forall>s\<in>set ss. \<forall>(k, v)\<in>set (fs_assignments s). \<exists>c. asked u rules k c \<and> Some v \<in> telling_values h c"
    using comb(2) [OF a] by blast
  show "\<forall>s\<in>set ss. \<exists>f. (\<forall>k\<in>asked_facts u rules. f k \<in> told_texts h u rules k) \<and> chooses h (asked_facts u rules) s f"
    using comb(3) [OF a] chooses by blast
  show "\<exists>!s. s \<in> set ss \<and> chooses h (asked_facts u rules) s f"
    if f: "\<forall>k\<in>asked_facts u rules. f k \<in> told_texts h u rules k"
  proof -
    obtain b where b: "b \<in> set (combinations ds)"
      "\<forall>(k, v)\<in>set b. canonical_value (rh_engine h) (Some v) = Inr (f k)" using comb(4) [OF f] by blast
    then obtain s where s: "s \<in> set ss" "fs_assignments s = b" using ss by (metis image_iff image_set)
    show ?thesis
    proof (rule ex1I [of _ s])
      show "s \<in> set ss \<and> chooses h (asked_facts u rules) s f" using s b(2) chooses by blast
      fix t assume t: "t \<in> set ss \<and> chooses h (asked_facts u rules) t f"
      then have "fs_assignments t = fs_assignments s"
        using comb(5) [OF a a] chooses s b(2) by blast
      then show "t = s" using dist t s(1) by (meson inj_onD)
    qed
  qed
qed

text \<open>C20. Under unknown facts a recommendation considers every combination of answers. The facts asked
  about are the ones a rule's condition names with the policy to return a conditional outcome or to
  ask, and that the user state does not know; the values that tell answers apart are the ones each
  operator distinguishes (the value or the members it compares with and one that differs, the
  threshold and a number beyond it, present and null), two values being one if their canonical texts
  agree. Where these texts exist, every state assigns exactly the asked facts such values, every
  choice of one text for each asked fact is the assignment of exactly one state, the states have ids
  of their own, and the derivation is refused exactly when there are more than 64 choices.\<close>

theorem feasible_states_are_the_combinations:
  assumes "opt_user_state options = Some u" "rules = default_to [] (orelse (opt_rules options) (opt_ruleset options))"
    and "asked_facts u rules \<noteq> {}"
    and "\<forall>k c v. asked u rules k c \<longrightarrow> v \<in> telling_values h c \<longrightarrow> (\<exists>t. canonical_value (rh_engine h) v = Inr t)"
  shows "if (\<Prod>k\<in>asked_facts u rules. card (told_texts h u rules k)) \<le> 64
    then \<exists>states. derived_feasible_states h contracts plans options = Inr states \<and>
      distinct (map fs_state_id states) \<and>
      length states = (\<Prod>k\<in>asked_facts u rules. card (told_texts h u rules k)) \<and>
      (\<forall>s\<in>set states. \<forall>(k, v)\<in>set (fs_assignments s). \<exists>c. asked u rules k c \<and> Some v \<in> telling_values h c) \<and>
      (\<forall>s\<in>set states. \<exists>f. (\<forall>k\<in>asked_facts u rules. f k \<in> told_texts h u rules k) \<and> chooses h (asked_facts u rules) s f) \<and>
      (\<forall>f. (\<forall>k\<in>asked_facts u rules. f k \<in> told_texts h u rules k) \<longrightarrow>
        (\<exists>!s. s \<in> set states \<and> chooses h (asked_facts u rules) s f))
    else derived_feasible_states h contracts plans options = Inl ''feasible_state_limit_exceeded:64''"
proof -
  obtain ds where fd: "fact_domains h (ut_facts u) rules = Inr ds" and ds: "distinct (map fst ds)"
    and keys: "fst ` set ds = asked_facts u rules" and ok: "\<forall>d\<in>set ds. domain_ok h u rules d"
    by (rule fact_domains_spec [OF assms(4)])
  have count: "state_count ds = (\<Prod>k\<in>asked_facts u rules. card (told_texts h u rules k))"
    using state_count_told [OF ds ok] keys by simp
  obtain k where "k \<in> asked_facts u rules" using assms(3) by blast
  then have some: "conditions_by_key (ut_facts u) rules \<noteq> []" using conditions_by_key_get(2) [of u rules k] by auto
  note states = states_of_domains [OF assms(1) some [unfolded assms(2)] fd [unfolded assms(2)], of contracts plans]
  show ?thesis
  proof (cases "state_count ds \<le> 64")
    case False
    then show ?thesis using states unfolding count by simp
  next
    case True
    then obtain ss where ss: "derived_feasible_states h contracts plans options = Inr ss"
      "map fs_assignments ss = combinations ds" "length ss = state_count ds" "distinct (map fs_state_id ss)"
      using states by auto
    show ?thesis using ss True states_of_choices [OF ds keys ok ss(2)] unfolding count by simp
  qed
qed

section \<open>Only eligible plans are recommended\<close>

text \<open>A valued form of one of the candidates that evaluated as eligible.\<close>

definition eligible_value ::
    "recommendation_host \<Rightarrow> contract_check \<Rightarrow> purchase_plan list \<Rightarrow> evaluate_plan_options \<Rightarrow> valued_plan_result \<Rightarrow> bool" where
  "eligible_value h contracts plans options v \<longleftrightarrow>
     np_eligible (vp_native v) \<and>
     (\<exists>p\<in>set plans. evaluate_native_plan (rh_engine h) (contracts options) p options = Inr (vp_native v)) \<and>
     valued_plan (rh_runtime h) (vp_native v) (make_internal_context options) = Inr v"

lemma valued_native: "valued_plan rt native ctx = Inr v \<Longrightarrow> vp_native v = native"
  by (auto simp: valued_plan_def Let_def res_simps)

lemma candidate_eligible:
  "candidate_result h contracts options p = Inr n \<Longrightarrow> np_eligible n \<Longrightarrow>
   evaluate_native_plan (rh_engine h) (contracts options) p options = Inr n"
  by (auto simp: candidate_result_def invalid_native_plan_def split: sum.splits plan_error.splits)

lemma candidates_valued:
  assumes "traverse (candidate_result h contracts options) plans = Inr natives"
    and "traverse (\<lambda>n. valued_plan (rh_runtime h) n (make_internal_context options)) (filter np_eligible natives) = Inr vs"
  shows "\<forall>v\<in>set vs. eligible_value h contracts plans options v"
proof
  fix v assume "v \<in> set vs"
  then obtain n where n: "n \<in> set natives" "np_eligible n"
    "valued_plan (rh_runtime h) n (make_internal_context options) = Inr v"
    using traverse_mem [OF assms(2)] by auto
  then obtain p where "p \<in> set plans" "candidate_result h contracts options p = Inr n"
    using traverse_mem [OF assms(1)] by auto
  with n candidate_eligible valued_native [OF n(3)] show "eligible_value h contracts plans options v"
    unfolding eligible_value_def by metis
qed

lemma by_plan_id_mem: "om_get (by_plan_id vs) i = Some v \<Longrightarrow> v \<in> set vs \<and> plan_id_of v = i"
proof -
  have "om_get (fold (\<lambda>v. om_set (plan_id_of v) v) vs m) i = Some v \<Longrightarrow>
      v \<in> set vs \<and> plan_id_of v = i \<or> om_get m i = Some v" for m
    by (induction vs arbitrary: m) (fastforce simp: om_get_set split: if_splits)+
  from this [of "[]"] show "om_get (by_plan_id vs) i = Some v \<Longrightarrow> v \<in> set vs \<and> plan_id_of v = i" by (simp add: by_plan_id_def)
qed

lemma uncertain_plans:
  "set (uncertain_order ids vs ranked) \<subseteq> set vs \<union> set ranked"
  by (auto simp: uncertain_order_def split: option.splits dest: by_plan_id_mem by_plan_id_mem [OF sym])

lemma named_plan_mem: "named_plan vs mode i = Some v \<Longrightarrow> v \<in> set vs \<and> i = Some (plan_id_of v)"
  by (cases i) (auto simp: named_plan_def falsy_def split: if_splits dest: by_plan_id_mem)

lemma closed_id: "close_plan rt ctx plan x = Inr n \<Longrightarrow> np_plan_id n = pp_plan_id plan"
  by (cases x) (auto simp: close_plan_def native_result_def rbind_def split: sum.splits)

lemma evaluated_id:
  "evaluate_native_plan h contracts plan options = Inr n \<Longrightarrow> np_plan_id n = pp_plan_id plan"
  by (auto simp: evaluate_native_plan_def evaluate_valid_plan_def thrown_def Let_def res_simps dest: closed_id split: sum.splits)

lemma traverse_complete: "traverse f xs = Inr ys \<Longrightarrow> x \<in> set xs \<Longrightarrow> \<exists>y\<in>set ys. f x = Inr y"
  by (induction xs arbitrary: ys) (auto simp: res_simps)

lemma by_plan_id_distinct: "distinct (map plan_id_of vs) \<Longrightarrow> v \<in> set vs \<Longrightarrow> om_get (by_plan_id vs) (plan_id_of v) = Some v"
proof -
  assume d: "distinct (map plan_id_of vs)" and v: "v \<in> set vs"
  have "om_get (fold (\<lambda>v. om_set (plan_id_of v) v) us m) (plan_id_of v) = Some v"
    if "distinct (map plan_id_of us)" "v \<in> set us \<or> plan_id_of v \<notin> plan_id_of ` set us \<and> om_get m (plan_id_of v) = Some v" for us m
    using that by (induction us arbitrary: m) (auto simp: om_get_set)
  with d v show ?thesis by (simp add: by_plan_id_def)
qed

lemma uncertain_order_complete:
  assumes "distinct (map plan_id_of vs)" "v \<in> set vs" "set ranked = set vs"
  shows "v \<in> set (uncertain_order ids vs ranked)"
proof (cases "plan_id_of v \<in> set ids")
  case True
  with by_plan_id_distinct [OF assms(1,2)] show ?thesis
    by (auto simp: uncertain_order_def intro!: bexI [of _ "plan_id_of v"])
next
  case False
  with assms show ?thesis by (simp add: uncertain_order_def)
qed

lemma by_plan_id_total: "v \<in> set vs \<Longrightarrow> \<exists>v'. om_get (by_plan_id vs) (plan_id_of v) = Some v'"
proof -
  have "v \<in> set us \<or> om_get m (plan_id_of v) \<noteq> None \<Longrightarrow>
      om_get (fold (\<lambda>v. om_set (plan_id_of v) v) us m) (plan_id_of v) \<noteq> None" for us m
    by (induction us arbitrary: m) (auto simp: om_get_set)
  from this [of vs "[]"] show "v \<in> set vs \<Longrightarrow> \<exists>v'. om_get (by_plan_id vs) (plan_id_of v) = Some v'"
    by (simp add: by_plan_id_def)
qed

lemma uncertain_order_lists_id:
  assumes "v \<in> set vs" "set ranked = set vs"
  shows "plan_id_of v \<in> plan_id_of ` set (uncertain_order ids vs ranked)"
proof (cases "plan_id_of v \<in> set ids")
  case True
  obtain v' where v': "om_get (by_plan_id vs) (plan_id_of v) = Some v'" using by_plan_id_total [OF assms(1)] by blast
  then have "v' \<in> set (uncertain_order ids vs ranked)"
    using True by (auto simp: uncertain_order_def intro!: bexI [of _ "plan_id_of v"])
  with by_plan_id_mem [OF v'] show ?thesis by (metis imageI)
next
  case False
  with assms show ?thesis by (simp add: uncertain_order_def)
qed

lemma certain_listed:
  assumes "r = certain_recommendation ss ranked"
  shows "re_plans r = ranked" "re_winner r = Some v \<Longrightarrow> v \<in> set ranked \<and> re_definite_winner_plan_id r = Some (plan_id_of v)"
    "re_runner_up r = Some v \<Longrightarrow> v \<in> set ranked"
  unfolding assms by (auto simp: certain_recommendation_def Let_def split: list.splits)

lemma uncertain_listed:
  assumes "r = uncertain_recommendation ctx u vs ranked" "set ranked = set vs"
  shows "set (re_plans r) \<subseteq> set vs" "re_winner r = Some v \<Longrightarrow> v \<in> set vs \<and> re_definite_winner_plan_id r = Some (plan_id_of v)"
    "re_runner_up r = Some v \<Longrightarrow> v \<in> set vs"
    "distinct (map plan_id_of vs) \<Longrightarrow> v \<in> set vs \<Longrightarrow> v \<in> set (re_plans r)"
    "v \<in> set vs \<Longrightarrow> plan_id_of v \<in> plan_id_of ` set (re_plans r)"
  using uncertain_plans [of _ vs ranked] uncertain_order_complete [OF _ _ assms(2)] assms(2)
    uncertain_order_lists_id [OF _ assms(2)]
  unfolding assms(1) uncertain_recommendation_def
  by (auto dest: named_plan_mem simp del: set_filter)

lemma listed_plans:
  assumes r: "(\<exists>ss. r = certain_recommendation ss ranked) \<or> (\<exists>u. r = uncertain_recommendation ctx u vs ranked)"
    and ranked: "set ranked = set vs"
  shows "set (re_plans r) \<subseteq> set vs"
    and "re_winner r = Some v \<Longrightarrow> v \<in> set vs \<and> re_definite_winner_plan_id r = Some (plan_id_of v)"
    and "re_runner_up r = Some v \<Longrightarrow> v \<in> set vs"
    and "distinct (map plan_id_of vs) \<Longrightarrow> v \<in> set vs \<Longrightarrow> v \<in> set (re_plans r)"
    and "v \<in> set vs \<Longrightarrow> plan_id_of v \<in> plan_id_of ` set (re_plans r)"
proof -
  note certain = certain_listed [of r _ ranked] and uncertain = uncertain_listed [of r ctx _ vs ranked, OF _ ranked]
  from r show "set (re_plans r) \<subseteq> set vs"
    by (elim disjE exE) (drule certain(1), simp only: ranked order.refl, rule uncertain(1))
  from r show "re_winner r = Some v \<Longrightarrow> v \<in> set vs \<and> re_definite_winner_plan_id r = Some (plan_id_of v)"
    by (elim disjE exE) (rule certain(2) [unfolded ranked], assumption+, rule uncertain(2), assumption+)
  from r show "re_runner_up r = Some v \<Longrightarrow> v \<in> set vs"
    by (elim disjE exE) (rule certain(3) [unfolded ranked], assumption+, rule uncertain(3), assumption+)
  from r show "distinct (map plan_id_of vs) \<Longrightarrow> v \<in> set vs \<Longrightarrow> v \<in> set (re_plans r)"
    by (elim disjE exE) (drule certain(1), simp only: ranked, rule uncertain(4), assumption+)
  from r show "v \<in> set vs \<Longrightarrow> plan_id_of v \<in> plan_id_of ` set (re_plans r)"
    by (elim disjE exE) (drule certain(1), simp only: ranked imageI, rule uncertain(5), assumption+)
qed

section \<open>The plans an outcome names\<close>

text \<open>What the uncertainty kernel names is eligible: a definite or a safe plan in every state, a
  conditional winner in some state.\<close>

abbreviation eligible_plan :: "runtime \<Rightarrow> feasible_input \<Rightarrow> feasible_state \<Rightarrow> string \<Rightarrow> bool" where
  "eligible_plan rt input s w \<equiv> \<exists>p. (w, p) \<in> set (plans_in rt input s) \<and> ep_eligible p"

lemma definite_is_eligible:
  assumes "evaluate_feasible_states rt text_of stringify input = Inr u" "keyed_states (input_states input)"
    "fr_definite u = Some w" "s \<in> set (input_states input)"
  shows "eligible_plan rt input s w"
proof -
  obtain run where run: "run_ok rt text_of input run" and d: "fr_definite u = definite_winner (fu_rankings run)"
    using evaluation_run [OF assms(1,2)] by metis
  obtain i where i: "i < length (input_states input)" "s = input_states input ! i"
    using assms(4) by (metis in_set_conv_nth)
  have "fu_rankings run ! i \<in> set (fu_rankings run)" using i(1) run_length [OF run] by simp
  then have "robust_winner (objective_rows (objective_expected input) (plans_in rt input s)) = Some w"
    using assms(3) d definite_winner_iff run_winner(1) [OF run i(1)] i(2) by metis
  then have "dominates (objective_expected input) (plans_in rt input s) w"
    by (subst (asm) robust_winner_iff) (use run_plans [OF run assms(4)] in auto)
  then show ?thesis by (auto simp: dominates_def)
qed

lemma safe_is_eligible:
  assumes "evaluate_feasible_states rt text_of stringify input = Inr u" "keyed_states (input_states input)"
    "fr_safe u = Some w" "s \<in> set (input_states input)"
  shows "eligible_plan rt input s w"
proof -
  obtain run where run: "run_ok rt text_of input run"
    and sums: "fr_summaries u = map (summary_of (objective_expected input) (fu_rankings run) (fu_table run)) (js_sort (map fst (fu_table run)))"
    and safe: "fr_safe u = map_option sy_plan_id (case ranking_by_worst rt (fr_summaries u) of [] \<Rightarrow> None | s # _ \<Rightarrow> Some s)"
    using evaluation_run [OF assms(1,2)] by metis
  obtain x rest where x: "ranking_by_worst rt (fr_summaries u) = x # rest" "sy_plan_id x = w"
    using safe assms(3) by (auto split: list.splits)
  then have "x \<in> set (ranking_by_worst rt (fr_summaries u))" by simp
  then have "sy_eligible_all x" "x \<in> set (fr_summaries u)" by (auto simp: ranking_by_worst_def)
  then obtain j where j: "sy_eligible_all (summary_of (objective_expected input) (fu_rankings run) (fu_table run) j)"
    "x = summary_of (objective_expected input) (fu_rankings run) (fu_table run) j" unfolding sums by auto
  have "j = w" using j(2) x(2) by (simp add: summary_of_def Let_def)
  with j(1) assms(4) show ?thesis unfolding summary_eligible [OF run] by blast
qed

lemma conditional_is_eligible:
  assumes "evaluate_feasible_states rt text_of stringify input = Inr u" "keyed_states (input_states input)"
    "c \<in> set (fr_conditional u)"
  shows "\<exists>s\<in>set (input_states input). eligible_plan rt input s (cw_plan_id c)"
proof -
  obtain run where run: "run_ok rt text_of input run" and st: "fr_states u = fu_rankings run"
    using evaluation_run [OF assms(1,2)] by metis
  obtain rankings table where "fr_states u = rankings" "fr_conditional u = (if \<not> falsy_id (definite_winner rankings) then []
      else map (conditional_winner_of (objective_expected input) rankings table)
        (js_sort (unique (concat (map rk_possible rankings)))))"
    using assms(1) unfolding evaluate_feasible_states_def Let_def by (auto simp only: res_simps prod.case feasible_result.select_convs)
  then have "cw_plan_id c \<in> set (concat (map rk_possible (fr_states u)))"
    using assms(3) by (auto simp: conditional_winner_of_def Let_def split: if_splits)
  then obtain r where "r \<in> set (fu_rankings run)" "cw_plan_id c \<in> set (rk_possible r)" unfolding st by auto
  then obtain i where i: "i < length (input_states input)" "cw_plan_id c \<in> set (rk_possible (fu_rankings run ! i))"
    unfolding in_set_conv_nth run_length [OF run] by blast
  let ?s = "input_states input ! i"
  have s: "?s \<in> set (input_states input)" using i(1) by simp
  have "\<exists>v. feasible_values (objective_expected input) (plans_in rt input ?s) v \<and> best_under (plans_in rt input ?s) v (cw_plan_id c)"
    using i(2) unfolding run_winner(2) [OF run i(1)]
    by (subst (asm) possible_winners_iff) (use run_plans [OF run s] in auto)
  with s show ?thesis by (auto simp: best_under_def)
qed

text \<open>The states the engine derives evaluate the given plans, each under the options of its assignment.\<close>

definition eligible_candidate ::
    "recommendation_host \<Rightarrow> contract_check \<Rightarrow> purchase_plan list \<Rightarrow> evaluate_plan_options \<Rightarrow> string \<Rightarrow> bool" where
  "eligible_candidate h contracts plans options w \<longleftrightarrow>
     (\<exists>p\<in>set plans. pp_plan_id p = w \<and>
        (\<exists>n. evaluate_native_plan (rh_engine h) (contracts options) p options = Inr n \<and> np_eligible n))"

text \<open>The options a recommendation considers: its own ones, or those of every derived state.\<close>

definition considered_options ::
    "recommendation_host \<Rightarrow> contract_check \<Rightarrow> purchase_plan list \<Rightarrow> evaluate_plan_options \<Rightarrow> evaluate_plan_options set" where
  "considered_options h contracts plans options =
     (case (opt_user_state options, derived_feasible_states h contracts plans options) of
        (Some u, Inr (s # ss)) \<Rightarrow> (\<lambda>s. scenario options u (fs_assignments s)) ` set (s # ss)
      | _ \<Rightarrow> {options})"

lemma scenario_eligible:
  assumes "plan_value_of rt (plan_in_scenario h contracts options p) policy = Inr e" "ep_eligible e"
  shows "\<exists>n. evaluate_native_plan (rh_engine h) (contracts options) p options = Inr n \<and> np_eligible n"
proof -
  have flag: "ok" if "plan_value_of rt (state_plan_value g x ok) policy = Inr e" for g x ok
    using that assms(2) by (auto simp: plan_value_of_def state_plan_value_def Let_def res_simps)
  show ?thesis
    using assms(1) by (auto simp: plan_in_scenario_def dest: flag split: sum.splits)
qed

lemma fold_plans_mem:
  "(w, v) \<in> set (fold (\<lambda>p. om_set (pp_plan_id p) (f p)) plans m) \<Longrightarrow>
   (w, v) \<in> set m \<or> (\<exists>p\<in>set plans. pp_plan_id p = w \<and> v = f p)"
proof (induction plans arbitrary: m)
  case (Cons p plans)
  then have "(w, v) \<in> set (om_set (pp_plan_id p) (f p) m) \<or> (\<exists>q\<in>set plans. pp_plan_id q = w \<and> v = f q)" by simp
  with om_set_entries [of "pp_plan_id p" "f p" m] show ?case by auto
qed simp

lemma derived_shape:
  assumes "derived_feasible_states h contracts plans options = Inr (s0 # ss)"
  obtains u keys as where "opt_user_state options = Some u"
    "s0 # ss = map (derived_state h contracts options u plans keys) (enumerate 1 as)"
proof -
  obtain u where u: "opt_user_state options = Some u"
    using assms by (cases "opt_user_state options") (auto simp: derived_feasible_states_def)
  obtain domains where "rmap (\<lambda>assignments. map (derived_state h contracts options u plans (map fst domains)) (enumerate 1 assignments))
      (all_assignments domains [[]]) = Inr (s0 # ss)"
    using assms by (auto simp: derived_feasible_states_def Let_def u rbind_Inr_iff split: if_splits)
  then obtain as where "map (derived_state h contracts options u plans (map fst domains)) (enumerate 1 as) = s0 # ss"
    by (cases "all_assignments domains [[]]") (simp_all only: rmap_simps sum.inject sum.distinct)
  with u show ?thesis by (metis that)
qed

lemma derived_keyed: "keyed_states (map (derived_state h contracts options u plans keys) (enumerate 1 as))"
proof -
  let ?ss = "map (derived_state h contracts options u plans keys) (enumerate 1 as)"
  have "om_ok (fold (\<lambda>p. om_set (pp_plan_id p) (f p)) ps m)" if "om_ok m" for f :: "purchase_plan \<Rightarrow> plan_value" and ps m
    using that by (induction ps arbitrary: m) (simp_all add: om_ok_set)
  then have "om_ok (fs_plans s)" if "s \<in> set ?ss" for s
    using that by (auto simp: derived_state_def om_ok_def)
  moreover have "map (\<lambda>(i, s). state_id_at s i) (enumerate 0 ?ss) = map (the \<circ> fs_state_id) ?ss"
    by (rule nth_equalityI) (auto simp: nth_enumerate_eq state_id_at_def derived_state_def)
  moreover have "distinct (map (the \<circ> fs_state_id) ?ss)"
  proof -
    have "inj_on the (set (map fs_state_id ?ss))" by (auto intro!: inj_onI simp: derived_state_def)
    with distinct_states [of h contracts options u plans keys 1 as] show ?thesis
      unfolding map_map [symmetric] distinct_map by blast
  qed
  ultimately show ?thesis unfolding keyed_states_def by simp
qed

lemma derived_eligible:
  assumes "s \<in> set (map (derived_state h contracts options u plans keys) (enumerate 1 as))" "eligible_plan rt input s w"
  shows "eligible_candidate h contracts plans (scenario options u (fs_assignments s)) w"
proof -
  obtain i a where s: "s = derived_state h contracts options u plans keys (i, a)" using assms(1) by auto
  obtain e where e: "(w, e) \<in> set (plans_in rt input s)" "ep_eligible e" using assms(2) by blast
  then obtain ps where "evaluated_plans rt (input_policy input) s = Inr ps" "(w, e) \<in> set ps"
    by (cases "evaluated_plans rt (input_policy input) s") (auto simp: plans_in_def)
  then obtain v where v: "(w, v) \<in> set (fs_plans s)" "plan_value_of rt v (input_policy input) = Inr e"
    by (auto simp: evaluated_plans_def res_simps dest!: traverse_mem)
  then obtain p where p: "p \<in> set plans" "pp_plan_id p = w" "v = plan_in_scenario h contracts (scenario options u a) p"
    using fold_plans_mem [of w v "plan_in_scenario h contracts (scenario options u a)" plans "[]"]
    by (auto simp: s derived_state_def)
  have "fs_assignments s = a" by (simp add: s derived_state_def)
  with p scenario_eligible [OF v(2) [unfolded p(3)] e(2)] show ?thesis unfolding eligible_candidate_def by blast
qed

lemma uncertain_named:
  assumes "evaluate_feasible_states rt text_of stringify (uncertainty_input ctx states) = Inr u"
    "opt_feasibleStates options = None" "derived_feasible_states h contracts plans options = Inr states" "states \<noteq> []"
  shows "fr_definite u = Some w \<or> fr_safe u = Some w \<Longrightarrow>
      \<forall>o'\<in>considered_options h contracts plans options. eligible_candidate h contracts plans o' w"
    and "c \<in> set (fr_conditional u) \<Longrightarrow>
      \<exists>o'\<in>considered_options h contracts plans options. eligible_candidate h contracts plans o' (cw_plan_id c)"
proof -
  obtain s0 ss where st: "states = s0 # ss" using assms(4) by (cases states) auto
  obtain user keys as where user: "opt_user_state options = Some user"
    and states: "states = map (derived_state h contracts options user plans keys) (enumerate 1 as)"
    by (rule derived_shape [OF assms(3) [unfolded st]]) (simp add: st)
  have opts: "considered_options h contracts plans options = (\<lambda>s. scenario options user (fs_assignments s)) ` set states"
    using user assms(3) by (simp add: considered_options_def st)
  have inp: "input_states (uncertainty_input ctx states) = states" by (simp add: input_states_def uncertainty_input_def)
  have "keyed_states states" unfolding states by (rule derived_keyed)
  then have keyed: "keyed_states (input_states (uncertainty_input ctx states))" by (simp only: inp)
  have eligible: "eligible_candidate h contracts plans (scenario options user (fs_assignments s)) w"
    if "s \<in> set states" "eligible_plan rt (uncertainty_input ctx states) s w" for s w
    using that derived_eligible unfolding states by blast
  show "fr_definite u = Some w \<or> fr_safe u = Some w \<Longrightarrow>
      \<forall>o'\<in>considered_options h contracts plans options. eligible_candidate h contracts plans o' w"
    using definite_is_eligible [OF assms(1) keyed] safe_is_eligible [OF assms(1) keyed] eligible
    unfolding opts inp by blast
  show "c \<in> set (fr_conditional u) \<Longrightarrow>
      \<exists>o'\<in>considered_options h contracts plans options. eligible_candidate h contracts plans o' (cw_plan_id c)"
    using conditional_is_eligible [OF assms(1) keyed] eligible unfolding opts inp by blast
qed

lemma certain_named:
  assumes "r = certain_recommendation ss ranked"
  shows "re_definite_winner_plan_id r = Some w \<or> re_safe_plan_id r = Some w \<Longrightarrow> \<exists>v\<in>set ranked. plan_id_of v = w"
    and "re_conditional_winners r = []"
  unfolding assms by (auto simp: certain_recommendation_def Let_def split: list.splits)

lemma evaluate_candidates_cases:
  assumes "evaluate_candidates h contracts plans options = Inr r"
  obtains natives vs where "traverse (candidate_result h contracts options) plans = Inr natives"
    and "traverse (\<lambda>n. valued_plan (rh_runtime h) n (make_internal_context options)) (filter np_eligible natives) = Inr vs"
    and "(\<exists>ss. r = certain_recommendation ss (rank_plans (rh_runtime h) (ic_objective (make_internal_context options)) vs) \<and>
        (opt_feasibleStates options = None \<longrightarrow> derived_feasible_states h contracts plans options = Inr [])) \<or>
      (\<exists>u states. r = uncertain_recommendation (make_internal_context options) u vs
          (rank_plans (rh_runtime h) (ic_objective (make_internal_context options)) vs) \<and> states \<noteq> [] \<and>
        (opt_feasibleStates options = None \<longrightarrow> derived_feasible_states h contracts plans options = Inr states) \<and>
        evaluate_feasible_states (rh_runtime h) (eh_text_of (rh_engine h) \<circ> Some) (rh_stringify h)
          (uncertainty_input (make_internal_context options) states) = Inr u)"
proof -
  let ?ctx = "make_internal_context options" and ?rt = "rh_runtime h"
  from assms obtain natives vs ss states where
    n: "traverse (candidate_result h contracts options) plans = Inr natives"
    and v: "traverse (\<lambda>n. valued_plan ?rt n ?ctx) (filter np_eligible natives) = Inr vs"
    and st: "(case opt_feasibleStates options of Some states \<Rightarrow> Inr states
        | None \<Rightarrow> derived_feasible_states h contracts plans options) = Inr states"
    and r: "(if states = [] then Inr (certain_recommendation ss (rank_plans ?rt (ic_objective ?ctx) vs))
        else rmap (\<lambda>u. uncertain_recommendation ?ctx u vs (rank_plans ?rt (ic_objective ?ctx) vs))
          (evaluate_feasible_states ?rt (eh_text_of (rh_engine h) \<circ> Some) (rh_stringify h) (uncertainty_input ?ctx states))) = Inr r"
    unfolding evaluate_candidates_def Let_def rbind_Inr_iff by blast
  have derived: "opt_feasibleStates options = None \<longrightarrow> derived_feasible_states h contracts plans options = Inr states"
    using st by (auto split: option.splits)
  show ?thesis
  proof (cases "states = []")
    case True
    with r derived show ?thesis by (intro that [OF n v] disjI1 exI [of _ ss]) simp
  next
    case False
    then obtain u where "evaluate_feasible_states ?rt (eh_text_of (rh_engine h) \<circ> Some) (rh_stringify h) (uncertainty_input ?ctx states) = Inr u"
      "r = uncertain_recommendation ?ctx u vs (rank_plans ?rt (ic_objective ?ctx) vs)"
      using r by (auto simp: res_simps)
    with False derived show ?thesis by (intro that [OF n v] disjI2 exI [of _ u] exI [of _ states]) simp
  qed
qed

lemma named_candidates:
  assumes "evaluate_candidates h contracts plans options = Inr r" "opt_feasibleStates options = None"
  shows "(\<forall>w. re_definite_winner_plan_id r = Some w \<or> re_safe_plan_id r = Some w \<longrightarrow>
      (\<forall>o'\<in>considered_options h contracts plans options. eligible_candidate h contracts plans o' w)) \<and>
    (\<forall>c\<in>set (re_conditional_winners r).
      \<exists>o'\<in>considered_options h contracts plans options. eligible_candidate h contracts plans o' (cw_plan_id c))"
proof -
  let ?ctx = "make_internal_context options" and ?rt = "rh_runtime h"
  obtain natives vs where natives: "traverse (candidate_result h contracts options) plans = Inr natives"
    and vs: "traverse (\<lambda>n. valued_plan ?rt n ?ctx) (filter np_eligible natives) = Inr vs"
    and r: "(\<exists>ss. r = certain_recommendation ss (rank_plans ?rt (ic_objective ?ctx) vs) \<and>
        (opt_feasibleStates options = None \<longrightarrow> derived_feasible_states h contracts plans options = Inr [])) \<or>
      (\<exists>u states. r = uncertain_recommendation ?ctx u vs (rank_plans ?rt (ic_objective ?ctx) vs) \<and> states \<noteq> [] \<and>
        (opt_feasibleStates options = None \<longrightarrow> derived_feasible_states h contracts plans options = Inr states) \<and>
        evaluate_feasible_states ?rt (eh_text_of (rh_engine h) \<circ> Some) (rh_stringify h) (uncertainty_input ?ctx states) = Inr u)"
    by (rule evaluate_candidates_cases [OF assms(1)])
  from r show ?thesis
  proof (elim disjE exE conjE)
    fix ss assume c: "r = certain_recommendation ss (rank_plans ?rt (ic_objective ?ctx) vs)"
      and "opt_feasibleStates options = None \<longrightarrow> derived_feasible_states h contracts plans options = Inr []"
    then have opts: "considered_options h contracts plans options = {options}"
      using assms(2) by (simp add: considered_options_def split: option.splits)
    have "eligible_candidate h contracts plans options (plan_id_of v)" if "v \<in> set vs" for v
      using candidates_valued [OF natives vs] that
      unfolding eligible_value_def eligible_candidate_def plan_id_of_def by (metis evaluated_id)
    with certain_named [OF c] opts show ?thesis by (fastforce simp: rank_plans_def)
  next
    fix u states
    assume u: "r = uncertain_recommendation ?ctx u vs (rank_plans ?rt (ic_objective ?ctx) vs)" "states \<noteq> []"
      "opt_feasibleStates options = None \<longrightarrow> derived_feasible_states h contracts plans options = Inr states"
      "evaluate_feasible_states ?rt (eh_text_of (rh_engine h) \<circ> Some) (rh_stringify h) (uncertainty_input ?ctx states) = Inr u"
    have "derived_feasible_states h contracts plans options = Inr states" using u(3) assms(2) by simp
    note named = uncertain_named [OF u(4) assms(2) this u(2)]
    show ?thesis using named unfolding u(1) by (simp add: uncertain_recommendation_def)
  qed
qed

text \<open>C7. A recommendation is sound and complete. Every plan it lists and the plans it names as winner and
  runner-up are valued forms of candidates whose evaluation was eligible, and the winner is the plan of
  the id it announces. Every eligible candidate has its id in the list, and when the candidates have
  distinct ids it is itself listed, whatever the uncertainty about the user's facts. Where the engine
  derives the states of the unknown facts, the ids it names stand for eligible candidates too: the
  definite and the safe plan in every state, a conditional winner in some state. (The states a caller
  supplies name plans of their own, whose ids are not checked against the candidates.)\<close>

theorem only_eligible_plans_are_recommended:
  assumes "evaluate_candidates h contracts plans options = Inr r"
  shows "(\<forall>v. v \<in> set (re_plans r) \<or> re_winner r = Some v \<or> re_runner_up r = Some v \<longrightarrow>
      eligible_value h contracts plans options v) \<and>
    (\<forall>v. re_winner r = Some v \<longrightarrow> re_definite_winner_plan_id r = Some (plan_id_of v)) \<and>
    (\<forall>w. eligible_candidate h contracts plans options w \<longrightarrow> (\<exists>v\<in>set (re_plans r). plan_id_of v = w)) \<and>
    (distinct (map pp_plan_id plans) \<longrightarrow>
      (\<forall>p\<in>set plans. \<forall>n. evaluate_native_plan (rh_engine h) (contracts options) p options = Inr n \<longrightarrow> np_eligible n \<longrightarrow>
        (\<exists>v\<in>set (re_plans r). vp_native v = n))) \<and>
    (opt_feasibleStates options = None \<longrightarrow>
      (\<forall>w. re_definite_winner_plan_id r = Some w \<or> re_safe_plan_id r = Some w \<longrightarrow>
        (\<forall>o'\<in>considered_options h contracts plans options. eligible_candidate h contracts plans o' w)) \<and>
      (\<forall>c\<in>set (re_conditional_winners r).
        \<exists>o'\<in>considered_options h contracts plans options. eligible_candidate h contracts plans o' (cw_plan_id c)))"
proof -
  let ?ctx = "make_internal_context options" and ?rt = "rh_runtime h"
  obtain natives vs where natives: "traverse (candidate_result h contracts options) plans = Inr natives"
    and vs: "traverse (\<lambda>n. valued_plan ?rt n ?ctx) (filter np_eligible natives) = Inr vs"
    and r: "(\<exists>ss. r = certain_recommendation ss (rank_plans ?rt (ic_objective ?ctx) vs)) \<or>
      (\<exists>u. r = uncertain_recommendation ?ctx u vs (rank_plans ?rt (ic_objective ?ctx) vs))"
    by (rule evaluate_candidates_cases [OF assms]) blast
  define ranked where "ranked = rank_plans ?rt (ic_objective ?ctx) vs"
  have ranked: "set ranked = set vs" by (simp add: ranked_def rank_plans_def)
  have ok: "\<forall>v\<in>set vs. eligible_value h contracts plans options v" by (rule candidates_valued [OF natives vs])
  note listed = listed_plans [OF r [folded ranked_def] ranked]
  have valued: "\<exists>v\<in>set vs. vp_native v = n"
    if p: "p \<in> set plans" and n: "evaluate_native_plan (rh_engine h) (contracts options) p options = Inr n" "np_eligible n" for p n
  proof -
    have "n \<in> set natives" using traverse_complete [OF natives p] n(1) by (auto simp: candidate_result_def)
    then show ?thesis using traverse_complete [OF vs, of n] n(2) by (auto dest: valued_native)
  qed
  have ids: "distinct (map plan_id_of vs)" if "distinct (map pp_plan_id plans)"
  proof -
    have "map np_plan_id natives = map pp_plan_id plans"
      by (rule traverse_map [OF natives])
         (auto simp: candidate_result_def invalid_native_plan_def evaluated_id split: sum.splits plan_error.splits)
    then have "distinct (map np_plan_id (filter np_eligible natives))" using that by (metis distinct_map_filter)
    moreover have "map plan_id_of vs = map np_plan_id (filter np_eligible natives)"
      by (rule traverse_map [OF vs]) (simp add: plan_id_of_def valued_native)
    ultimately show ?thesis by simp
  qed
  have "\<exists>v\<in>set (re_plans r). plan_id_of v = w" if w: "eligible_candidate h contracts plans options w" for w
  proof -
    obtain p n where p: "p \<in> set plans" "pp_plan_id p = w"
      "evaluate_native_plan (rh_engine h) (contracts options) p options = Inr n" "np_eligible n"
      using w unfolding eligible_candidate_def by blast
    obtain v where v: "v \<in> set vs" "vp_native v = n" using valued [OF p(1,3,4)] by blast
    have "plan_id_of v = w" using evaluated_id [OF p(3)] p(2) v(2) by (simp add: plan_id_of_def)
    with listed(5) [OF v(1)] show ?thesis by force
  qed
  moreover have "\<exists>v\<in>set (re_plans r). vp_native v = n" if d: "distinct (map pp_plan_id plans)" and p: "p \<in> set plans"
    and n: "evaluate_native_plan (rh_engine h) (contracts options) p options = Inr n" "np_eligible n" for p n
    using valued [OF p n] listed(4) [OF ids [OF d]] by blast
  ultimately show ?thesis using listed(1,2,3) ok named_candidates [OF assms] by blast
qed

end
