(* ===== verification/Plan_Value_Laws.thy ===== *)
theory Plan_Value_Laws
  imports Plan_Value
begin

text \<open>
  What the valuation of a plan guarantees: under the policy that leaves native assets unvalued the
  score is cash and goods alone, and chances of a reward never enter a guaranteed score.
\<close>

section \<open>Zero values\<close>

definition exactly :: "runtime \<Rightarrow> rat \<Rightarrow> decimal_value_range" where
  "exactly rt q = \<lparr>dv_minimum_jpy = canonical_decimal rt q, dv_maximum_jpy = canonical_decimal rt q,
     dv_expected_jpy = Some (canonical_decimal rt q)\<rparr>"

definition is_zero :: "dec_read \<Rightarrow> bool" where
  "is_zero x \<longleftrightarrow> (\<exists>s. x = DecFinite s 0)"

lemma is_zero_simps [simp]: "is_zero (DecFinite s q) \<longleftrightarrow> q = 0" "\<not> is_zero (DecNonFinite n)" "\<not> is_zero DecThrow"
  by (auto simp: is_zero_def)

definition zero_or_none :: "dec_read \<Rightarrow> bool" where
  "zero_or_none x \<longleftrightarrow> is_zero x \<or> (\<exists>n. x = DecNonFinite n)"

lemma point_range_Inr: "point_range rt x = Inr r \<longleftrightarrow> (\<exists>s q. x = DecFinite s q \<and> r = exactly rt q)"
  by (cases x) (auto simp: point_range_def exactly_def)

lemma dec_neg_zero: "is_zero x \<Longrightarrow> is_zero (dec_neg x)"
  by (auto simp: is_zero_def)

context decimal_rounding
begin

lemma dadd_zero: "dadd rt 0 0 = 0" and dmul_zero: "dmul rt x 0 = 0" "dmul rt 0 x = 0"
  by (simp_all add: dadd_def dmul_def)

lemma plus_zero: "is_zero x \<Longrightarrow> is_zero y \<Longrightarrow> is_zero (dec_plus rt x y)"
  by (auto simp: is_zero_def dadd_zero)

lemma times_zero: "is_zero x \<Longrightarrow> zero_or_none (dec_times rt x y)"
  by (cases "(rt, x, y)" rule: dec_times.cases) (auto simp: is_zero_def zero_or_none_def dmul_zero)

lemma plus_zero_or_none: "zero_or_none x \<Longrightarrow> zero_or_none y \<Longrightarrow> zero_or_none (dec_plus rt x y)"
  by (cases "(rt, x, y)" rule: dec_plus.cases) (auto simp: is_zero_def zero_or_none_def dadd_zero)

lemma sum_values_zero:
  "sum_values rt f xs acc = Inr d \<Longrightarrow> is_zero acc \<Longrightarrow> (\<And>x v. f x = Inr v \<Longrightarrow> is_zero v) \<Longrightarrow> is_zero d"
  by (induction xs arbitrary: acc) (auto simp: res_simps intro: plus_zero)

end

section \<open>Native assets left unvalued\<close>

lemma value_of_zero:
  assumes "decimal_text rt" "value_of_units rt u s ''0'' = Inr d"
  shows "is_zero d"
proof -
  have "is_decimal_text ''0''" "text_value ''0'' = 0" by code_simp+
  with decimal_text.parse_text [OF assms(1)] have "decimal rt (DStr ''0'') = Inr (DecFinite False 0)"
    by (simp add: decimal_def)
  then show ?thesis
    using assms decimal_rounding.dmul_zero [OF decimal_text.axioms(1)]
    by (auto simp: value_of_units_def res_simps split: if_splits)
qed

lemma unvalued_unit: "ic_valuation_policy ctx = VP_unvalued \<Longrightarrow> value_per_unit ctx i c e = ''0''"
  by (simp add: value_per_unit_def)

lemma unvalued_quantity:
  "decimal_text rt \<Longrightarrow> ic_valuation_policy ctx = VP_unvalued \<Longrightarrow> quantity_value rt ctx e q = Inr d \<Longrightarrow> is_zero d"
  "decimal_text rt \<Longrightarrow> ic_valuation_policy ctx = VP_unvalued \<Longrightarrow> consumed_value rt ctx n = Inr d \<Longrightarrow> is_zero d"
  by (auto simp: quantity_value_def consumed_value_def unvalued_unit res_simps dest: value_of_zero)

text \<open>What a component adds: its signed value to the guaranteed part, a share of it to the expected
  part, or nothing.\<close>

definition signed_value :: "reward_component \<Rightarrow> dec_read \<Rightarrow> dec_read" where
  "signed_value c x = (if rc_sign c = RS_debit then dec_neg x else x)"

lemma component_value_cases:
  assumes "component_value rt ctx c (g, e) = Inr (v, g', e')"
  obtains x where "quantity_value rt ctx False (rc_quantity c) = Inr x" "\<exists>t. dec_canonical rt (signed_value c x) = Inr t"
    and "g' = g \<or> g' = dec_plus rt g (signed_value c x)"
    and "e' = e \<or> (\<exists>p. probability_of rt (rq_probabilistic_reward_policy (ic_objective ctx)) (rc_certainty c) = Inr p \<and>
      e' = dec_plus rt e (dec_times rt (signed_value c x) p))"
  using assms unfolding component_value_def Let_def prod.case rbind_Inr_iff signed_value_def [symmetric]
  by (elim exE conjE) (rule that, assumption, auto simp: res_simps split: certainty_type.splits)

lemma signed_zero: "is_zero x \<Longrightarrow> is_zero (signed_value c x)"
  by (simp add: signed_value_def dec_neg_zero)

lemma unvalued_component:
  assumes dt: "decimal_text rt" and "ic_valuation_policy ctx = VP_unvalued"
    and "component_value rt ctx c (g, e) = Inr (v, g', e')" "is_zero g" "zero_or_none e"
  shows "is_zero g' \<and> zero_or_none e'"
proof (rule component_value_cases [OF assms(3)])
  note rounding = decimal_text.axioms(1) [OF dt]
  fix x assume x: "quantity_value rt ctx False (rc_quantity c) = Inr x"
    and g': "g' = g \<or> g' = dec_plus rt g (signed_value c x)"
    and e': "e' = e \<or> (\<exists>p. probability_of rt (rq_probabilistic_reward_policy (ic_objective ctx)) (rc_certainty c) = Inr p \<and>
      e' = dec_plus rt e (dec_times rt (signed_value c x) p))"
  have "is_zero (signed_value c x)" using unvalued_quantity(1) [OF dt assms(2) x] by (rule signed_zero)
  with g' e' assms(4,5) show ?thesis
    by (auto intro: decimal_rounding.plus_zero [OF rounding] decimal_rounding.plus_zero_or_none [OF rounding]
        decimal_rounding.times_zero [OF rounding])
qed

lemma unvalued_components:
  "decimal_text rt \<Longrightarrow> ic_valuation_policy ctx = VP_unvalued \<Longrightarrow> value_components rt ctx cs (g, e) = Inr (vs, g', e') \<Longrightarrow>
   is_zero g \<Longrightarrow> zero_or_none e \<Longrightarrow> is_zero g' \<and> zero_or_none e'"
proof (induction cs arbitrary: g e vs)
  case (Cons c cs)
  then obtain v g1 e1 ws where "component_value rt ctx c (g, e) = Inr (v, g1, e1)"
    "value_components rt ctx cs (g1, e1) = Inr (ws, g', e')" by (auto simp: res_simps)
  with Cons unvalued_component show ?case by metis
qed simp

text \<open>The parts of a valued plan.\<close>

lemma valued_plan_parts:
  assumes "valued_plan rt native ctx = Inr v"
  obtains ending_value opening_value rewards reward_value probabilistic fee_value g x where
    "sum_values rt (quantity_value rt ctx True \<circ> al_quantity) (np_ending_asset_lots native) (DecFinite False 0) = Inr ending_value"
    "sum_values rt (consumed_value rt ctx) (np_opening_asset_units_consumed native) (DecFinite False 0) = Inr opening_value"
    "value_components rt ctx (np_reward_components native) (DecFinite False 0, DecFinite False 0) =
       Inr (rewards, reward_value, probabilistic)"
    "sum_values rt (quantity_value rt ctx False \<circ> am_quantity) (fee_movements native) (DecFinite False 0) = Inr fee_value"
    "g = guaranteed_net rt (dec_of_int (np_merchant_value_jpy native)) ending_value reward_value
       (dec_of_int (np_external_funding_jpy native)) opening_value fee_value"
    "x = dec_plus rt g probabilistic"
    "economics_of rt (dec_of_int (np_merchant_value_jpy native)) (dec_of_int (np_external_funding_jpy native)) opening_value
       ending_value reward_value probabilistic fee_value g x = Inr (vp_economics v)"
    "dec_canonical rt (if rq_primary (ic_objective ctx) = MX_expected_net_value then x else g) = Inr (vp_objective_score_jpy v)"
    "vp_native v = native"
  using assms unfolding valued_plan_def Let_def
  by (auto simp: res_simps simp del: o_apply)

lemma economics_parts:
  assumes "economics_of rt m x op en rw pr fee g e = Inr s"
  shows "point_range rt op = Inr (ec_opening_asset_value_consumed_jpy s)" "point_range rt en = Inr (ec_ending_asset_value_jpy s)"
    "point_range rt rw = Inr (ec_guaranteed_reward_value_jpy s)" "point_range rt fee = Inr (ec_fee_value_jpy s)"
    "point_range rt pr = Inr (ec_probabilistic_expected_reward_value_jpy s)"
    "point_range rt g = Inr (ec_guaranteed_net_value_change_jpy s)" "point_range rt e = Inr (ec_expected_net_value_change_jpy s)"
  using assms by (auto simp: economics_of_def res_simps)

lemma zero_range: "is_zero x \<Longrightarrow> point_range rt x = Inr r \<Longrightarrow> r = exactly rt 0"
  by (auto simp: is_zero_def point_range_Inr)

lemma finite_zero: "zero_or_none x \<Longrightarrow> point_range rt x = Inr r \<Longrightarrow> is_zero x"
  by (auto simp: zero_or_none_def point_range_Inr)

context decimal_rounding
begin

lemma round_again: "rt_round rt (rt_round rt x) = rt_round rt x"
  using round_exact [OF round_representable] .

lemma plus_nothing: "is_zero y \<Longrightarrow> dec_plus rt (DecFinite s q) y = DecFinite (rt_round rt q < 0) (rt_round rt q)"
  by (auto simp: is_zero_def dadd_def)

lemma minus_nothing: "is_zero y \<Longrightarrow> dec_minus rt (DecFinite s q) y = DecFinite (rt_round rt q < 0) (rt_round rt q)"
  by (auto simp: is_zero_def dec_minus_def dadd_def)

lemma net_of_nothing:
  assumes "is_zero en" "is_zero rw" "is_zero op" "is_zero fee" "\<bar>m\<bar> < int dec_limit" "\<bar>m - x\<bar> < int dec_limit"
  shows "\<exists>s. guaranteed_net rt (dec_of_int m) en rw (dec_of_int x) op fee = DecFinite s (of_int (m - x))"
proof -
  have m: "rt_round rt (of_int m) = of_int m" "rt_round rt (of_int (m - x)) = of_int (m - x)"
    by (rule round_exact [OF representable_int [OF assms(5)]]) (rule round_exact [OF representable_int [OF assms(6)]])
  have "dec_minus rt (DecFinite a (of_int m)) (dec_of_int x) = DecFinite (of_int (m - x) < (0 :: rat)) (of_int (m - x))" for a
    using m(2) by (simp add: dec_minus_def dadd_def)
  then show ?thesis using m by (simp add: guaranteed_net_def plus_nothing minus_nothing assms)
qed

end

text \<open>The value received from the merchant less the external funding.\<close>

definition cash_net :: "native_plan_result \<Rightarrow> rat" where
  "cash_net native = of_int (np_merchant_value_jpy native - np_external_funding_jpy native)"

text \<open>C23. Where the policy leaves native assets unvalued, a plan is worth cash and goods alone: points
  spent, points left, rewards and fees all count nothing, and the guaranteed value, the expected value
  and the score are the value received from the merchant less the external funding, to the yen.\<close>

theorem unvalued_assets_count_nothing:
  assumes "decimal_text rt" "ic_valuation_policy ctx = VP_unvalued" "valued_plan rt native ctx = Inr v"
    and "\<bar>np_merchant_value_jpy native\<bar> < int dec_limit"
    and "\<bar>np_merchant_value_jpy native - np_external_funding_jpy native\<bar> < int dec_limit"
  shows "ec_opening_asset_value_consumed_jpy (vp_economics v) = exactly rt 0 \<and>
    ec_ending_asset_value_jpy (vp_economics v) = exactly rt 0 \<and>
    ec_guaranteed_reward_value_jpy (vp_economics v) = exactly rt 0 \<and>
    ec_fee_value_jpy (vp_economics v) = exactly rt 0 \<and>
    ec_guaranteed_net_value_change_jpy (vp_economics v) = exactly rt (cash_net native) \<and>
    ec_expected_net_value_change_jpy (vp_economics v) = exactly rt (cash_net native) \<and>
    vp_objective_score_jpy v = canonical_decimal rt (cash_net native)"
proof (rule valued_plan_parts [OF assms(3)])
  note rounding = decimal_text.axioms(1) [OF assms(1)] and unvalued = assms(1,2)
  fix en op rewards rw pr fee g x
  assume sums: "sum_values rt (quantity_value rt ctx True \<circ> al_quantity) (np_ending_asset_lots native) (DecFinite False 0) = Inr en"
      "sum_values rt (consumed_value rt ctx) (np_opening_asset_units_consumed native) (DecFinite False 0) = Inr op"
      "sum_values rt (quantity_value rt ctx False \<circ> am_quantity) (fee_movements native) (DecFinite False 0) = Inr fee"
    and comps: "value_components rt ctx (np_reward_components native) (DecFinite False 0, DecFinite False 0) = Inr (rewards, rw, pr)"
    and g: "g = guaranteed_net rt (dec_of_int (np_merchant_value_jpy native)) en rw (dec_of_int (np_external_funding_jpy native)) op fee"
    and x: "x = dec_plus rt g pr"
    and e: "economics_of rt (dec_of_int (np_merchant_value_jpy native)) (dec_of_int (np_external_funding_jpy native)) op en rw pr fee g x
      = Inr (vp_economics v)"
    and score: "dec_canonical rt (if rq_primary (ic_objective ctx) = MX_expected_net_value then x else g) = Inr (vp_objective_score_jpy v)"
  have zeros: "is_zero en" "is_zero op" "is_zero fee"
    using sums [THEN decimal_rounding.sum_values_zero [OF rounding]] unvalued_quantity [OF unvalued] by auto
  have rewards: "is_zero rw" "zero_or_none pr" using unvalued_components [OF unvalued comps] by (simp_all add: zero_or_none_def)
  have pr: "is_zero pr" by (rule finite_zero [OF rewards(2) economics_parts(5) [OF e]])
  obtain s where g': "g = DecFinite s (cash_net native)"
    unfolding g cash_net_def using decimal_rounding.net_of_nothing [OF rounding zeros(1) rewards(1) zeros(2,3) assms(4,5)] by blast
  have "rt_round rt (cash_net native) = cash_net native"
    unfolding cash_net_def by (intro decimal_rounding.round_exact [OF rounding] representable_int assms(5))
  then have x': "x = DecFinite (cash_net native < 0) (cash_net native)" by (simp add: x g' decimal_rounding.plus_nothing [OF rounding pr])
  have "vp_objective_score_jpy v = canonical_decimal rt (cash_net native)" using score by (simp add: g' x' split: if_splits)
  then show ?thesis
    using zero_range [OF zeros(2) economics_parts(1) [OF e]] zero_range [OF zeros(1) economics_parts(2) [OF e]]
      zero_range [OF rewards(1) economics_parts(3) [OF e]] zero_range [OF zeros(3) economics_parts(4) [OF e]]
      economics_parts(6,7) [OF e] by (simp add: g' x' point_range_Inr)
qed

section \<open>Chances\<close>

lemma guaranteed_probability:
  "probability_of rt PO_guaranteed_only c = Inr p \<Longrightarrow> p = DecFinite False 0"
  by (simp add: probability_of_def probability_supported_def)

lemma canonical_finite: "dec_canonical rt x = Inr t \<Longrightarrow> \<exists>s q. x = DecFinite s q"
  by (cases x) simp_all

lemma guaranteed_components:
  assumes rounding: "decimal_rounding rt" and "rq_probabilistic_reward_policy (ic_objective ctx) = PO_guaranteed_only"
  shows "value_components rt ctx cs (g, e) = Inr (vs, g', e') \<Longrightarrow> is_zero e \<Longrightarrow> is_zero e'"
proof (induction cs arbitrary: g e vs)
  case (Cons c cs)
  then obtain v g1 e1 ws where one: "component_value rt ctx c (g, e) = Inr (v, g1, e1)"
    and rest: "value_components rt ctx cs (g1, e1) = Inr (ws, g', e')" by (auto simp: res_simps)
  from one have "is_zero e1"
  proof (rule component_value_cases)
    fix x
    assume x: "\<exists>t. dec_canonical rt (signed_value c x) = Inr t"
      and e1: "e1 = e \<or> (\<exists>p. probability_of rt (rq_probabilistic_reward_policy (ic_objective ctx)) (rc_certainty c) = Inr p \<and>
        e1 = dec_plus rt e (dec_times rt (signed_value c x) p))"
    from x obtain s q where "signed_value c x = DecFinite s q" using canonical_finite by blast
    with e1 Cons.prems(2) show "is_zero e1"
      by (auto simp: assms(2) decimal_rounding.dmul_zero [OF rounding] dest!: guaranteed_probability
        intro!: decimal_rounding.plus_zero [OF rounding])
  qed
  with rest show ?case by (rule Cons.IH)
qed simp

text \<open>A user who counts guaranteed rewards only is never shown a chance: whatever probabilistic
  rewards a plan earns, their expected value is zero and the expected net value is the guaranteed one.\<close>

theorem guaranteed_only_ignores_chances:
  assumes "decimal_rounding rt" "rq_probabilistic_reward_policy (ic_objective ctx) = PO_guaranteed_only"
    and "valued_plan rt native ctx = Inr v"
  shows "ec_probabilistic_expected_reward_value_jpy (vp_economics v) = exactly rt 0 \<and>
    ec_expected_net_value_change_jpy (vp_economics v) = ec_guaranteed_net_value_change_jpy (vp_economics v)"
proof (rule valued_plan_parts [OF assms(3)])
  fix en op rewards rw pr fee g x
  assume comps: "value_components rt ctx (np_reward_components native) (DecFinite False 0, DecFinite False 0) = Inr (rewards, rw, pr)"
    and g: "g = guaranteed_net rt (dec_of_int (np_merchant_value_jpy native)) en rw (dec_of_int (np_external_funding_jpy native)) op fee"
    and x: "x = dec_plus rt g pr"
    and e: "economics_of rt (dec_of_int (np_merchant_value_jpy native)) (dec_of_int (np_external_funding_jpy native)) op en rw pr fee g x
      = Inr (vp_economics v)"
  have pr: "is_zero pr" by (rule guaranteed_components [OF assms(1,2) comps]) simp
  have last: "\<exists>y z. g = dec_plus rt y z" by (auto simp: g guaranteed_net_def dec_minus_def)
  obtain s q where gq: "g = DecFinite s q" using economics_parts(6) [OF e] by (auto simp: point_range_Inr)
  have "rt_round rt q = q"
  proof -
    obtain y z where "dec_plus rt y z = DecFinite s q" using last gq by auto
    then obtain a b where "q = dadd rt a b" by (cases "(rt, y, z)" rule: dec_plus.cases) auto
    then show ?thesis by (simp add: dadd_def decimal_rounding.round_again [OF assms(1)])
  qed
  then have "x = DecFinite (q < 0) q" by (simp add: x gq decimal_rounding.plus_nothing [OF assms(1) pr])
  then show ?thesis
    using zero_range [OF pr economics_parts(5) [OF e]] economics_parts(6,7) [OF e] by (simp add: gq point_range_Inr)
qed

end
