(* ===== verification/Recommendation_Sample.thy ===== *)
theory Recommendation_Sample
  imports Recommendation_Laws Plan_Value_Laws Exchange_Sample
begin

text \<open>
  A recommendation on the reference runtime: the ranking of two valued plans, the states of one
  unknown fact, and the recommendation of the sample plan.
\<close>

section \<open>Two plans in order\<close>

definition flat :: "string \<Rightarrow> decimal_value_range" where
  "flat t = \<lparr>dv_minimum_jpy = t, dv_maximum_jpy = t, dv_expected_jpy = Some t\<rparr>"

definition worth :: "string \<Rightarrow> string \<Rightarrow> valued_plan_result" where
  "worth i t = \<lparr>vp_native = sample_result\<lparr>np_plan_id := i\<rparr>, vp_reward_components = [],
     vp_economics = \<lparr>ec_merchant_value_received_jpy = flat t, ec_external_funding_jpy = flat t,
       ec_opening_asset_value_consumed_jpy = flat t, ec_ending_asset_value_jpy = flat t,
       ec_guaranteed_reward_value_jpy = flat t, ec_probabilistic_expected_reward_value_jpy = flat t,
       ec_fee_value_jpy = flat t, ec_guaranteed_net_value_change_jpy = flat t,
       ec_expected_net_value_change_jpy = flat t\<rparr>, vp_objective_score_jpy = t\<rparr>"

definition sample_goal :: required_objective where
  "sample_goal = \<lparr>rq_primary = MX_guaranteed_net_value, rq_probabilistic_reward_policy = PO_guaranteed_only,
     rq_ending_asset_valuation = EN_use_user_profile, rq_tie_breakers = [''lower_external_funding'']\<rparr>"

lemma worth_score: "score rt sample_goal (worth i t) = text_rat rt (Some t)" "plan_id_of (worth i t) = i"
  by (simp_all add: score_def score_range_def sample_goal_def worth_def flat_def expected_text_def plan_id_of_def)

theorem ranking_is_best_first_witness:
  "rank_plans ref_rt sample_goal [worth ''a'' ''3'', worth ''b'' ''5''] = [worth ''b'' ''5'', worth ''a'' ''3''] \<and>
   sorted_wrt (at_least_as_good ref_rt sample_goal) [worth ''b'' ''5'', worth ''a'' ''3'']"
proof -
  have "rank_plans ref_rt sample_goal [worth ''a'' ''3'', worth ''b'' ''5''] = [worth ''b'' ''5'', worth ''a'' ''3'']"
    by (simp add: rank_plans_def rank_compare_def Let_def worth_score text_rat_def sample_amount_texts sample_parses dsub_def)
  with ranking_is_best_first [OF ref.decimal_rounding_axioms ref.collation_axioms, of sample_goal "[worth ''a'' ''3'', worth ''b'' ''5'']"]
  show ?thesis by simp
qed

section \<open>One unknown fact\<close>

definition ref_recommender :: recommendation_host where
  "ref_recommender = \<lparr>rh_engine = ref_host, rh_number_of = (\<lambda>_. NonFinite), rh_number_add = (\<lambda>x _. x),
     rh_stringify = (\<lambda>_. [])\<rparr>"

definition tier_condition :: user_condition where
  "tier_condition = \<lparr>cn_fact_key = ''tier'', cn_operator = ON_eq, cn_value = Some (JStr ''gold''),
     cn_unknown_policy = UN_ask_user\<rparr>"

definition tier_rule :: engine_rule where
  "tier_rule = \<lparr>rd_rule = rd_rule sample_document, rd_json = JNull, er_operation_match = anything,
     er_user_conditions = [tier_condition], er_entry_deadline = None, er_effect = None, er_calculation = None,
     er_output = None, er_caps = []\<rparr>"

definition tier_user :: user_state where
  "tier_user = \<lparr>ut_owned_instrument_ids = [], ut_owned_loyalty_program_ids = [], ut_facts = [], ut_asset_lots = [],
     ut_valuation_entries = [], ut_cap_progress = []\<rparr>"

definition tier_options :: evaluate_plan_options where
  "tier_options = sample_options\<lparr>opt_user_state := Some tier_user, opt_rules := Some [tier_rule]\<rparr>"

lemma tier_simps:
  "opt_user_state tier_options = Some tier_user" "ut_facts tier_user = []"
  "default_to [] (orelse (opt_rules tier_options) (opt_ruleset tier_options)) = [tier_rule]"
  by (simp_all add: tier_options_def tier_user_def)

lemma tier_asked: "asked tier_user [tier_rule] k c \<longleftrightarrow> k = ''tier'' \<and> c = tier_condition"
  by (auto simp: asked_def tier_rule_def tier_user_def tier_condition_def)

lemma tier_told: "told_texts ref_recommender tier_user [tier_rule] ''tier'' = {''\"gold\"'', ''\"__not_tier__\"''}"
proof -
  have texts: "canonical_value (rh_engine ref_recommender) (Some (JStr ''gold'')) = Inr ''\"gold\"''"
    "canonical_value (rh_engine ref_recommender) (Some (JStr ''__not_tier__'')) = Inr ''\"__not_tier__\"''"
    by code_simp+
  have told: "telling_values ref_recommender tier_condition = {Some (JStr ''gold''), Some (JStr ''__not_tier__'')}"
    by (simp add: telling_values_def tier_condition_def)
  have two: "f a = Inr x \<Longrightarrow> f b = Inr y \<Longrightarrow> {t. \<exists>v\<in>{a, b}. f v = Inr t} = {x, y}"
    for f :: "json option \<Rightarrow> string res" and a b x y by auto
  have "told_texts ref_recommender tier_user [tier_rule] ''tier'' =
      {t. \<exists>v\<in>telling_values ref_recommender tier_condition. canonical_value (rh_engine ref_recommender) v = Inr t}"
    unfolding told_texts_def tier_asked by blast
  also have "\<dots> = {''\"gold\"'', ''\"__not_tier__\"''}" unfolding told by (rule two [OF texts])
  finally show ?thesis .
qed

theorem feasible_states_are_the_combinations_witness:
  "\<exists>states. derived_feasible_states ref_recommender (\<lambda>_ _ _. Inr ()) [sample_spending_plan] tier_options = Inr states \<and>
     length states = 2 \<and>
     (\<exists>!s. s \<in> set states \<and> chooses ref_recommender {''tier''} s (\<lambda>_. ''\"gold\"''))"
proof -
  have asked: "asked_facts tier_user [tier_rule] = {''tier''}" by (auto simp: asked_facts_def tier_asked)
  have "\<exists>t. canonical_value (rh_engine ref_recommender) v = Inr t" if "v \<in> telling_values ref_recommender tier_condition" for v
  proof -
    have "v = Some (JStr ''gold'') \<or> v = Some (JStr ''__not_tier__'')"
      using that by (simp add: telling_values_def tier_condition_def)
    moreover have "is_ok (canonical_value (rh_engine ref_recommender) (Some (JStr ''gold'')))"
      "is_ok (canonical_value (rh_engine ref_recommender) (Some (JStr ''__not_tier__'')))" by code_simp+
    ultimately show ?thesis unfolding is_ok_iff by blast
  qed
  then have texts: "\<forall>k c v. asked tier_user [tier_rule] k c \<longrightarrow> v \<in> telling_values ref_recommender c \<longrightarrow>
      (\<exists>t. canonical_value (rh_engine ref_recommender) v = Inr t)" by (simp add: tier_asked)
  have some: "asked_facts tier_user [tier_rule] \<noteq> {}" unfolding asked by simp
  have two: "(\<Prod>k\<in>asked_facts tier_user [tier_rule]. card (told_texts ref_recommender tier_user [tier_rule] k)) = 2"
    by (simp add: asked tier_told)
  note spec = feasible_states_are_the_combinations [OF tier_simps(1) tier_simps(3) [symmetric] some texts,
      of "\<lambda>_ _ _. Inr ()" "[sample_spending_plan]", unfolded two]
  then obtain states where st: "derived_feasible_states ref_recommender (\<lambda>_ _ _. Inr ()) [sample_spending_plan] tier_options = Inr states"
    "length states = 2" and all: "\<forall>f. (\<forall>k\<in>asked_facts tier_user [tier_rule]. f k \<in> told_texts ref_recommender tier_user [tier_rule] k) \<longrightarrow>
      (\<exists>!s. s \<in> set states \<and> chooses ref_recommender (asked_facts tier_user [tier_rule]) s f)" by auto
  have "\<exists>!s. s \<in> set states \<and> chooses ref_recommender (asked_facts tier_user [tier_rule]) s (\<lambda>_. ''\"gold\"'')"
    by (rule all [rule_format]) (simp add: asked tier_told)
  with st show ?thesis unfolding asked by blast
qed

section \<open>The sample plan, recommended\<close>

lemma recommender_simps: "rh_engine ref_recommender = ref_host" "eh_runtime ref_host = ref_rt"
  by (simp_all add: ref_recommender_def ref_host_def)

lemma sample_per_unit: "value_per_unit sample_ctx i c e = ''1''"
  by (simp add: value_per_unit_def sample_ctx_def make_internal_context_def sample_options_def valuation_entries_def
      resolve_objective_def)


lemma parse_one: "decimal ref_rt (DStr ''1'') = Inr (DecFinite False 1)"
proof -
  have "is_decimal_text ''1''" "text_value ''1'' = 1" by code_simp+
  then have "rt_parse ref_rt ''1'' = DecFinite False 1" using ref.parse_text [of "''1''"] by simp
  then show ?thesis by (simp add: decimal_def)
qed

lemma sample_units_value:
  "value_of_units ref_rt 4 0 ''1'' = Inr (DecFinite False 4)" "value_of_units ref_rt 3 0 ''1'' = Inr (DecFinite False 3)"
  "value_of_units ref_rt 5 0 ''1'' = Inr (DecFinite False 5)"
  by (simp_all add: value_of_units_def power10_def parse_one ddiv_def dmul_def)

lemma sample_value:
  "quantity_value ref_rt sample_ctx e (sample_points ''3'') = Inr (DecFinite False 3)"
  "quantity_value ref_rt sample_ctx e (sample_points ''5'') = Inr (DecFinite False 5)"
  "consumed_value ref_rt sample_ctx (native_quantity_of points_asset 4) = Inr (DecFinite False 4)"
  by (simp_all add: quantity_value_def sample_quantities sample_per_unit points_simps sample_units_value consumed_value_def
      native_quantity_of_def)

lemma point_range_finite: "point_range rt (DecFinite s x) = Inr \<lparr>dv_minimum_jpy = canonical_decimal rt x,
    dv_maximum_jpy = canonical_decimal rt x, dv_expected_jpy = Some (canonical_decimal rt x)\<rparr>"
  by (simp add: point_range_def)

lemma sample_result_parts:
  "np_merchant_value_jpy sample_result = 1" "np_reward_components sample_result = []" "fee_movements sample_result = []"
  "np_eligible sample_result"
  by (simp_all add: sample_result_def native_result_def sample_refunded_def sample_state_def zero_ledger_def fee_movements_def
      sample_movements_def movement_def)

text \<open>One yen of goods kept, thirteen points left, five yen and four points spent: five yen ahead.\<close>

lemma sample_valued: "\<exists>v. valued_plan ref_rt sample_result sample_ctx = Inr v \<and>
    expected_text (ec_guaranteed_net_value_change_jpy (vp_economics v)) = canonical_decimal ref_rt 5"
  by (simp add: valued_plan_def Let_def sample_parts sample_result_parts sample_ending_def created_lot_def sample_value
      points_simps economics_of_def point_range_finite guaranteed_net_def dec_minus_def dadd_def expected_text_def)

theorem only_eligible_plans_are_recommended_witness:
  "\<exists>r v. evaluate_candidates ref_recommender (\<lambda>_ _ _. Inr ()) [sample_spending_plan] sample_options = Inr r \<and>
     re_winner r = Some v \<and> re_definite_winner_plan_id r = Some (plan_id_of v) \<and>
     (\<exists>w\<in>set (re_plans r). vp_native w = sample_result)"
proof -
  obtain v where v: "valued_plan ref_rt sample_result sample_ctx = Inr v" using sample_valued by blast
  have given: "opt_feasibleStates sample_options = None" "opt_user_state sample_options = None"
    by (simp_all add: sample_options_def)
  have states: "derived_feasible_states h c ps sample_options = Inr []" for h c ps
    by (simp add: derived_feasible_states_def given)
  have run: "evaluate_candidates ref_recommender (\<lambda>_ _ _. Inr ()) [sample_spending_plan] sample_options =
      Inr (certain_recommendation [] [v])"
    using v
    by (simp add: evaluate_candidates_def Let_def candidate_result_def recommender_simps sample_evaluation sample_result_parts
        sample_ctx_def [symmetric] rank_plans_def top_sensitivities_def states given)
  have w: "re_winner (certain_recommendation [] [v]) = Some v" by (simp add: certain_recommendation_def)
  from only_eligible_plans_are_recommended [OF run] w run show ?thesis
    using sample_evaluation sample_result_parts(4) by (auto simp: recommender_simps)
qed

section \<open>The sample plan, valued\<close>

lemma sample_per_unit_always:
  "ic_valuation ctx = [] \<Longrightarrow> ic_valuation_policy ctx = VP_explicit \<Longrightarrow> rq_ending_asset_valuation (ic_objective ctx) \<noteq> EN_exclude \<Longrightarrow>
   value_per_unit ctx i c e = ''1''"
  by (simp add: value_per_unit_def)

lemma sample_unvalued_units:
  assumes "0 \<le> n"
  shows "value_of_units ref_rt n 0 ''0'' = Inr (DecFinite False 0)"
proof -
  have "is_decimal_text ''0''" "text_value ''0'' = 0" by code_simp+
  then have "decimal ref_rt (DStr ''0'') = Inr (DecFinite False 0)" using ref.parse_text [of "''0''"] by (simp add: decimal_def)
  with assms show ?thesis by (simp add: value_of_units_def power10_def dmul_def)
qed

definition unvalued_ctx :: internal_context where
  "unvalued_ctx = sample_ctx\<lparr>ic_valuation_policy := VP_unvalued\<rparr>"

theorem unvalued_assets_count_nothing_witness:
  "\<exists>v. valued_plan ref_rt sample_result unvalued_ctx = Inr v \<and>
     ec_guaranteed_net_value_change_jpy (vp_economics v) = exactly ref_rt (- 4) \<and>
     ec_opening_asset_value_consumed_jpy (vp_economics v) = exactly ref_rt 0"
proof -
  have policy: "ic_valuation_policy unvalued_ctx = VP_unvalued" by (simp add: unvalued_ctx_def)
  have worths: "quantity_value ref_rt unvalued_ctx e (sample_points ''3'') = Inr (DecFinite False 0)"
    "quantity_value ref_rt unvalued_ctx e (sample_points ''5'') = Inr (DecFinite False 0)"
    "consumed_value ref_rt unvalued_ctx (native_quantity_of points_asset 4) = Inr (DecFinite False 0)" for e
    by (simp_all add: quantity_value_def sample_quantities unvalued_unit [OF policy] points_simps sample_unvalued_units
        consumed_value_def native_quantity_of_def)
  have "\<exists>v. valued_plan ref_rt sample_result unvalued_ctx = Inr v"
    by (simp add: valued_plan_def Let_def sample_parts sample_result_parts sample_ending_def created_lot_def worths
        points_simps economics_of_def point_range_finite guaranteed_net_def dec_minus_def dadd_def)
  then obtain v where v: "valued_plan ref_rt sample_result unvalued_ctx = Inr v" by blast
  have "cash_net sample_result = - 4" by (simp add: cash_net_def sample_parts sample_result_parts)
  with unvalued_assets_count_nothing [OF ref.decimal_text_axioms policy v] v show ?thesis
    by (simp add: sample_parts sample_result_parts dec_limit_def)
qed

text \<open>A lottery ticket for three points, even at an official probability.\<close>

definition chance :: reward_component where
  "chance = \<lparr>rc_component_id = ''cmp'', rc_operation_id = ''op_pay'', rc_rule_id = ''rule'', rc_sign = RS_credit,
     rc_quantity = sample_points ''3'', rc_value_jpy = zero_value,
     rc_certainty = \<lparr>ce_type = CT_probabilistic, ce_probability = Some ''0.5'', ce_probability_source = Some PS_official_disclosed\<rparr>,
     rc_settlement = default_settlement, rc_expiry = default_expiry, rc_restrictions = default_restrictions,
     rc_clawback = full_correction, rc_calculation_trace = JNull\<rparr>"

definition cautious_ctx :: internal_context where
  "cautious_ctx = sample_ctx\<lparr>ic_objective := sample_goal\<rparr>"

theorem guaranteed_only_ignores_chances_witness:
  "\<exists>v. valued_plan ref_rt (sample_result\<lparr>np_reward_components := [chance]\<rparr>) cautious_ctx = Inr v \<and>
     ec_probabilistic_expected_reward_value_jpy (vp_economics v) = exactly ref_rt 0"
proof -
  have policy: "rq_probabilistic_reward_policy (ic_objective cautious_ctx) = PO_guaranteed_only"
    by (simp add: cautious_ctx_def sample_goal_def)
  have unit: "value_per_unit cautious_ctx i c e = ''1''" for i c e
    by (rule sample_per_unit_always)
       (simp_all add: cautious_ctx_def sample_goal_def sample_ctx_def make_internal_context_def sample_options_def
         valuation_entries_def)
  have worths: "quantity_value ref_rt cautious_ctx e (sample_points ''3'') = Inr (DecFinite False 3)"
    "quantity_value ref_rt cautious_ctx e (sample_points ''5'') = Inr (DecFinite False 5)"
    "consumed_value ref_rt cautious_ctx (native_quantity_of points_asset 4) = Inr (DecFinite False 4)" for e
    by (simp_all add: quantity_value_def sample_quantities unit points_simps sample_units_value consumed_value_def
        native_quantity_of_def)
  have ticket: "component_value ref_rt cautious_ctx chance (DecFinite False 0, DecFinite False 0) =
      Inr (reward_component.extend (chance\<lparr>rc_value_jpy := \<lparr>jv_minimum_jpy = JStr (canonical_decimal ref_rt 3),
        jv_maximum_jpy = JStr (canonical_decimal ref_rt 3), jv_expected_jpy = JStr (canonical_decimal ref_rt 3)\<rparr>\<rparr>)
        (valued_component.fields (canonical_decimal ref_rt 3)), DecFinite False 0, DecFinite False 0)"
    by (simp add: component_value_def policy)
       (simp add: chance_def worths probability_of_def probability_supported_def dmul_def dadd_def)
  have fees: "fee_movements (sample_result\<lparr>np_reward_components := [chance]\<rparr>) = []"
    using sample_result_parts(3) by (simp add: fee_movements_def)
  have "\<exists>v. valued_plan ref_rt (sample_result\<lparr>np_reward_components := [chance]\<rparr>) cautious_ctx = Inr v"
    by (simp add: valued_plan_def Let_def sample_parts sample_result_parts fees sample_ending_def created_lot_def worths
        points_simps economics_of_def point_range_finite guaranteed_net_def dec_minus_def dadd_def ticket)
  then obtain v where v: "valued_plan ref_rt (sample_result\<lparr>np_reward_components := [chance]\<rparr>) cautious_ctx = Inr v" by blast
  with guaranteed_only_ignores_chances [OF ref.decimal_rounding_axioms policy v] show ?thesis by simp
qed

end
