(* ===== verification/Point_Spend.thy ===== *)
theory Point_Spend
  imports Plan_Engine Valuation Input_Guard
begin

text \<open>
  The search for transfer routes to one target asset
  (\<open>packages/rule-engine/src/point-spend-optimizer.ts\<close>): every bounded chain of transfers from a
  balance to the target, each hop evaluated by the transfer component, ranked by the objective.

  The request is the typed document: the reading of a raw object into it (\<open>plainInput\<close>,
  \<open>exactKeys\<close>) is the input guard's, and the checks on types hold by the types of the fields.
  Processing times are whole days.  SHA-256 and the text of a number are arguments.
\<close>

record spend_host =
  sh_runtime :: runtime
  sh_number_text :: "rat \<Rightarrow> string"
  sh_sha :: "string \<Rightarrow> string"

section \<open>The documents\<close>

datatype spend_objective = SO_maximize_target | SO_fastest | SO_preserve_expiring

record spend_edge =
  sg_rule_id :: string
  sg_label_ja :: string
  sg_source_claim_ids :: "string list"
  sg_source_asset :: asset_ref
  sg_destination_asset :: asset_ref
  sg_source_units :: string
  sg_destination_units :: string
  sg_minimum_source_units :: "string option"
  sg_increment_source_units :: "string option"
  sg_maximum_source_units_per_request :: "string option"
  sg_maximum_source_units_per_period :: "string option"
  sg_maximum_period :: "maximum_period option"
  sg_fee_source_units :: string
  sg_processing_time_days_min :: "int option"
  sg_processing_time_days_max :: "int option"
  sg_cancellation_policy :: cancellation_policy
  sg_valid_from :: "string option"
  sg_valid_to :: "string option"
  sg_required_conditions_ja :: "string list"

record spend_balance =
  sb_asset :: asset_ref
  sb_amount :: string
  sb_expires_at :: "string option"

record spend_request =
  sq_effective_at :: string
  sq_objective :: spend_objective
  sq_target_asset_id :: string
  sq_balances :: "spend_balance list"
  sq_edges :: "spend_edge list"
  sq_confirmed_rule_ids :: "string list"
  sq_period_source_used_by_rule :: "(string, string) omap"
  sq_max_steps :: int

record route_step =
  rs_rule_id :: string
  rs_label_ja :: string
  rs_source_asset_id :: string
  rs_destination_asset_id :: string
  rs_source_amount :: string
  rs_destination_amount :: string
  rs_processing_time_days_min :: "int option"
  rs_processing_time_days_max :: "int option"
  rs_source_claim_ids :: "string list"

record spend_route =
  rte_route_id :: string
  rte_source_asset :: asset_ref
  rte_source_amount :: string
  rte_target_asset :: asset_ref
  rte_target_amount :: string
  rte_residual_source_amount :: string
  rte_expires_at :: "string option"
  rte_expiry_preserved_amount :: string
  rte_processing_time_days_min :: "int option"
  rte_processing_time_days_max :: "int option"
  rte_irreversible_step_count :: nat
  rte_steps :: "route_step list"

record spend_result =
  so_objective :: spend_objective
  so_target_asset_id :: string
  so_winner :: "spend_route option"
  so_routes :: "spend_route list"
  so_skipped :: "(string \<times> string) list"
  so_result_hash :: string

section \<open>The checks at the boundary\<close>

definition spend_rule_id_ok :: "string \<Rightarrow> bool" where
  "spend_rule_id_ok s \<longleftrightarrow>
     (case s of [] \<Rightarrow> False
      | c # cs \<Rightarrow> lower_or_digit c \<and> 1 \<le> length cs \<and> length cs \<le> 119 \<and>
          list_all (\<lambda>c. lower_or_digit c \<or> c = CHR ''.'' \<or> c = CHR ''-'') cs)"

definition assert_asset :: "asset_ref \<Rightarrow> unit res" where
  "assert_asset a = guard (asset_id_ok (ar_asset_id a) \<and> 0 \<le> ar_scale a \<and> ar_scale a \<le> 9) ''point_spend_asset_invalid''"

definition assert_balance :: "runtime \<Rightarrow> spend_balance \<Rightarrow> unit res" where
  "assert_balance rt b =
     rbind (assert_asset (sb_asset b)) (\<lambda>_.
       if case sb_expires_at b of None \<Rightarrow> False | Some t \<Rightarrow> \<not> valid_date_time rt t then Inl ''point_spend_balance_invalid''
       else rmap (\<lambda>_. ()) (decimal_string (sb_amount b)))"

definition optional_decimal :: "string option \<Rightarrow> bool" where
  "optional_decimal v = (case v of None \<Rightarrow> True | Some t \<Rightarrow> is_ok (decimal_string t))"

definition edge_shape_ok :: "spend_edge \<Rightarrow> bool" where
  "edge_shape_ok e \<longleftrightarrow>
     spend_rule_id_ok (sg_rule_id e) \<and> 1 \<le> length (sg_label_ja e) \<and> length (sg_label_ja e) \<le> 120 \<and>
     1 \<le> length (sg_source_claim_ids e) \<and> length (sg_source_claim_ids e) \<le> 16 \<and>
     optional_decimal (sg_minimum_source_units e) \<and> optional_decimal (sg_increment_source_units e) \<and>
     optional_decimal (sg_maximum_source_units_per_request e) \<and>
     optional_decimal (sg_maximum_source_units_per_period e) \<and>
     sg_maximum_period e \<in> {None, Some MP_year, Some MP_campaign_period} \<and>
     sg_cancellation_policy e \<in> {CN_not_cancelable, CN_provider_defined} \<and>
     list_all (\<lambda>c. length c \<le> 120) (sg_required_conditions_ja e)"

definition assert_edge :: "spend_edge \<Rightarrow> unit res" where
  "assert_edge e =
     rbind (assert_asset (sg_source_asset e)) (\<lambda>_.
     rbind (assert_asset (sg_destination_asset e)) (\<lambda>_.
     rbind (guard (edge_shape_ok e) ''point_spend_edge_invalid'') (\<lambda>_.
     rbind (decimal_string (sg_source_units e)) (\<lambda>_.
     rbind (decimal_string (sg_destination_units e)) (\<lambda>_.
     rmap (\<lambda>_. ()) (decimal_string (sg_fee_source_units e)))))))"

definition assert_request :: "runtime \<Rightarrow> spend_request \<Rightarrow> unit res" where
  "assert_request rt req =
     rbind (guard (valid_date_time rt (sq_effective_at req)) ''point_spend_effective_at_invalid'') (\<lambda>_.
     rbind (guard (1 \<le> sq_max_steps req \<and> sq_max_steps req \<le> 6) ''point_spend_max_steps_invalid'') (\<lambda>_.
     rbind (guard (length (sq_balances req) \<le> 64 \<and> length (sq_edges req) \<le> 256) ''point_spend_collection_invalid'') (\<lambda>_.
     rbind (traverse (assert_balance rt) (sq_balances req)) (\<lambda>_.
     rbind (traverse assert_edge (sq_edges req)) (\<lambda>_.
     rbind (guard (distinct (sq_confirmed_rule_ids req)) ''point_spend_state_invalid'') (\<lambda>_.
     rbind (traverse (decimal_string \<circ> snd) (sq_period_source_used_by_rule req)) (\<lambda>_.
       guard (distinct (map sg_rule_id (sq_edges req))) ''point_spend_rule_duplicate'')))))))"

section \<open>One hop\<close>

definition active_at :: "spend_edge \<Rightarrow> string \<Rightarrow> bool" where
  "active_at e effective_at \<longleftrightarrow>
     (case sg_valid_from e of None \<Rightarrow> True | Some t \<Rightarrow> str_cmp t (take 10 effective_at) \<le> 0) \<and>
     (case sg_valid_to e of None \<Rightarrow> True | Some t \<Rightarrow> 0 \<le> str_cmp t (take 10 effective_at))"

text \<open>An optional limit, read where it is given.\<close>

definition optional_limit :: "string option \<Rightarrow> rat option res" where
  "optional_limit v = (case v of None \<Rightarrow> Inr None | Some t \<Rightarrow> rmap Some (decimal_string t))"

text \<open>The largest multiple of the increment above the origin; with the increment zero the quotient
  is not a number, and writing it throws.\<close>

definition align_down :: "runtime \<Rightarrow> rat \<Rightarrow> rat option \<Rightarrow> rat \<Rightarrow> rat res" where
  "align_down rt origin increment amount =
     (case increment of
        None \<Rightarrow> Inr amount
      | Some i \<Rightarrow>
          if i = 0 then Inl ''[DecimalError] Invalid argument: NaN''
          else Inr (dadd rt origin (dmul rt (of_int \<lfloor>ddiv rt (dsub rt amount origin) i\<rfloor>) i)))"

definition aligned_amount :: "runtime \<Rightarrow> spend_edge \<Rightarrow> string \<Rightarrow> string option res" where
  "aligned_amount rt e available =
     rbind (decimal_string available) (\<lambda>held.
     rbind (decimal_string (sg_fee_source_units e)) (\<lambda>fee.
       if held < fee then Inr None
       else rbind (optional_limit (sg_maximum_source_units_per_request e)) (\<lambda>maximum.
         let after_fee = dsub rt held fee;
             amount = (case maximum of Some m \<Rightarrow> if m < after_fee then m else after_fee | None \<Rightarrow> after_fee)
         in rbind (optional_limit (sg_minimum_source_units e)) (\<lambda>minimum.
            if case minimum of Some m \<Rightarrow> amount < m | None \<Rightarrow> False then Inr None
            else rbind (optional_limit (sg_increment_source_units e)) (\<lambda>increment.
              rmap (\<lambda>aligned. if aligned \<le> 0 then None else Some (canonical_decimal rt aligned))
                (align_down rt (default_to 0 minimum) increment amount))))))"

definition transfer_spec :: "spend_edge \<Rightarrow> transfer_calculation_spec" where
  "transfer_spec e =
     \<lparr>ts_source_asset = sg_source_asset e, ts_destination_asset = sg_destination_asset e,
      ts_source_units = sg_source_units e, ts_destination_units = sg_destination_units e,
      ts_minimum_source_units = sg_minimum_source_units e, ts_increment_source_units = sg_increment_source_units e,
      ts_maximum_source_units_per_request = sg_maximum_source_units_per_request e,
      ts_maximum_source_units_per_period = sg_maximum_source_units_per_period e,
      ts_maximum_period = sg_maximum_period e,
      ts_fee = (if sg_fee_source_units e = ''0'' then None
        else Some \<lparr>q_asset = sg_source_asset e, q_amount = sg_fee_source_units e\<rparr>),
      ts_rounding = \<lparr>ro_aggregation_scope = AS_transfer_request, ro_eligible_spend_quantum_jpy = None,
        ro_reward_rounding_mode = RM_floor\<rparr>,
      ts_cancellation_policy = sg_cancellation_policy e\<rparr>"

record search_state =
  se_origin :: spend_balance
  se_asset :: asset_ref
  se_amount :: string
  se_residual :: string
  se_steps :: "route_step list"
  se_visited :: "string list"
  se_min_days :: "int option"
  se_max_days :: "int option"
  se_irreversible :: nat

definition add_days :: "int option \<Rightarrow> int option \<Rightarrow> int option" where
  "add_days current next_days = (case (current, next_days) of (Some a, Some b) \<Rightarrow> Some (a + b) | _ \<Rightarrow> None)"

definition hop_input :: "spend_request \<Rightarrow> spend_edge \<Rightarrow> search_state \<Rightarrow> string \<Rightarrow> transfer_calculation_input" where
  "hop_input req e s amount =
     \<lparr>tx_source_amount = Some (DStr amount), tx_source_units = None,
      tx_period_source_used = (if sg_maximum_source_units_per_period e = None then None
        else map_option DStr (om_get (sq_period_source_used_by_rule req) (sg_rule_id e))),
      tx_visited_asset_ids = Some (butlast (se_visited s)), tx_cycle_path_asset_ids = None, tx_posting = Undefined,
      tx_cancel_requested = None, tx_posted = None\<rparr>"

text \<open>\<open>new D(text)\<close> on a text that has been checked or written by the engine.\<close>

definition read_text :: "runtime \<Rightarrow> string \<Rightarrow> rat" where
  "read_text rt t = (case rt_parse rt t of DecFinite _ q \<Rightarrow> q | _ \<Rightarrow> 0)"

definition residual_after :: "runtime \<Rightarrow> spend_edge \<Rightarrow> search_state \<Rightarrow> string \<Rightarrow> string res" where
  "residual_after rt e s amount =
     rmap (\<lambda>held. canonical_decimal rt (dsub rt (dsub rt held (read_text rt amount)) (read_text rt (sg_fee_source_units e))))
       (decimal_string (se_amount s))"

definition step_of :: "spend_edge \<Rightarrow> string \<Rightarrow> string \<Rightarrow> route_step" where
  "step_of e amount arrived =
     \<lparr>rs_rule_id = sg_rule_id e, rs_label_ja = sg_label_ja e, rs_source_asset_id = ar_asset_id (sg_source_asset e),
      rs_destination_asset_id = ar_asset_id (sg_destination_asset e), rs_source_amount = amount,
      rs_destination_amount = arrived, rs_processing_time_days_min = sg_processing_time_days_min e,
      rs_processing_time_days_max = sg_processing_time_days_max e, rs_source_claim_ids = sg_source_claim_ids e\<rparr>"

definition next_state :: "spend_edge \<Rightarrow> search_state \<Rightarrow> string \<Rightarrow> string \<Rightarrow> string \<Rightarrow> search_state" where
  "next_state e s amount arrived residual =
     \<lparr>se_origin = se_origin s, se_asset = sg_destination_asset e, se_amount = arrived,
      se_residual = (if se_steps s = [] then residual else se_residual s),
      se_steps = se_steps s @ [step_of e amount arrived],
      se_visited = se_visited s @ [ar_asset_id (sg_destination_asset e)],
      se_min_days = add_days (se_min_days s) (sg_processing_time_days_min e),
      se_max_days = add_days (se_max_days s) (sg_processing_time_days_max e),
      se_irreversible = se_irreversible s + (if sg_cancellation_policy e = CN_not_cancelable then 1 else 0)\<rparr>"

text \<open>What an edge does in a state: nothing, a reason to skip it, or the next state.\<close>

datatype hop_outcome = HO_elsewhere | HO_skipped string | HO_next search_state

definition hop :: "runtime \<Rightarrow> spend_request \<Rightarrow> search_state \<Rightarrow> spend_edge \<Rightarrow> hop_outcome res" where
  "hop rt req s e =
     (if ar_asset_id (sg_source_asset e) \<noteq> ar_asset_id (se_asset s) \<or>
         ar_asset_id (sg_destination_asset e) \<in> set (se_visited s) then Inr HO_elsewhere
      else rbind (aligned_amount rt e (se_amount s)) (\<lambda>aligned.
        case aligned of
          None \<Rightarrow> Inr (HO_skipped ''insufficient_or_unaligned_balance'')
        | Some amount \<Rightarrow>
            rbind (evaluate_transfer rt (transfer_spec e) (hop_input req e s amount)) (\<lambda>r.
              if tc_status r \<noteq> TS_applied \<or> tc_destination_amount r = None then
                Inr (HO_skipped (default_to (transfer_status_text (tc_status r)) (tc_reason_code r)))
              else let arrived = default_to [] (tc_destination_amount r)
                in rmap (\<lambda>residual. HO_next (next_state e s amount arrived residual)) (residual_after rt e s amount))))"

section \<open>Routes and their order\<close>

definition asset_kind_text :: "asset_kind \<Rightarrow> string" where
  "asset_kind_text k = (case k of AK_fiat \<Rightarrow> ''fiat'' | AK_reward_point \<Rightarrow> ''reward_point'' | AK_airline_mile \<Rightarrow> ''airline_mile''
     | AK_hotel_point \<Rightarrow> ''hotel_point'' | AK_cashback \<Rightarrow> ''cashback'' | AK_stored_value \<Rightarrow> ''stored_value''
     | AK_voucher \<Rightarrow> ''voucher'' | AK_discount \<Rightarrow> ''discount'' | AK_credit_limit \<Rightarrow> ''credit_limit'' | AK_other \<Rightarrow> ''other'')"

definition text_or_null :: "string option \<Rightarrow> json" where
  "text_or_null v = (case v of None \<Rightarrow> JNull | Some t \<Rightarrow> JStr t)"

definition days_or_null :: "int option \<Rightarrow> json" where
  "days_or_null v = (case v of None \<Rightarrow> JNull | Some n \<Rightarrow> JNum (num n))"

definition asset_json :: "asset_ref \<Rightarrow> json" where
  "asset_json a = JObj
     [(''asset_id'', JStr (ar_asset_id a)), (''asset_kind'', JStr (asset_kind_text (ar_asset_kind a))),
      (''program_id'', text_or_null (ar_program_id a)),
      (''reward_class'', text_or_null (map_option (\<lambda>c. reward_class_text (Some c)) (ar_reward_class a))),
      (''scale'', JNum (num (ar_scale a)))]"

definition step_json :: "route_step \<Rightarrow> json" where
  "step_json s = JObj
     [(''rule_id'', JStr (rs_rule_id s)), (''label_ja'', JStr (rs_label_ja s)),
      (''source_asset_id'', JStr (rs_source_asset_id s)), (''destination_asset_id'', JStr (rs_destination_asset_id s)),
      (''source_amount'', JStr (rs_source_amount s)), (''destination_amount'', JStr (rs_destination_amount s)),
      (''processing_time_days_min'', days_or_null (rs_processing_time_days_min s)),
      (''processing_time_days_max'', days_or_null (rs_processing_time_days_max s)),
      (''source_claim_ids'', JArr (map JStr (rs_source_claim_ids s)))]"

definition route_fields :: "spend_route \<Rightarrow> (string \<times> json) list" where
  "route_fields r =
     [(''source_asset'', asset_json (rte_source_asset r)), (''source_amount'', JStr (rte_source_amount r)),
      (''target_asset'', asset_json (rte_target_asset r)), (''target_amount'', JStr (rte_target_amount r)),
      (''residual_source_amount'', JStr (rte_residual_source_amount r)), (''expires_at'', text_or_null (rte_expires_at r)),
      (''expiry_preserved_amount'', JStr (rte_expiry_preserved_amount r)),
      (''processing_time_days_min'', days_or_null (rte_processing_time_days_min r)),
      (''processing_time_days_max'', days_or_null (rte_processing_time_days_max r)),
      (''irreversible_step_count'', JNum (num (int (rte_irreversible_step_count r)))),
      (''steps'', JArr (map step_json (rte_steps r)))]"

definition route_projection :: "search_state \<Rightarrow> spend_route" where
  "route_projection s =
     \<lparr>rte_route_id = [], rte_source_asset = sb_asset (se_origin s), rte_source_amount = sb_amount (se_origin s),
      rte_target_asset = se_asset s, rte_target_amount = se_amount s, rte_residual_source_amount = se_residual s,
      rte_expires_at = sb_expires_at (se_origin s),
      rte_expiry_preserved_amount = (if sb_expires_at (se_origin s) = None then ''0''
        else case se_steps s of [] \<Rightarrow> ''0'' | f # _ \<Rightarrow> rs_source_amount f),
      rte_processing_time_days_min = se_min_days s, rte_processing_time_days_max = se_max_days s,
      rte_irreversible_step_count = se_irreversible s, rte_steps = se_steps s\<rparr>"

definition route_from :: "spend_host \<Rightarrow> search_state \<Rightarrow> spend_route res" where
  "route_from h s =
     (let p = route_projection s
      in rmap (\<lambda>i. p\<lparr>rte_route_id := i\<rparr>) (canonical_hash (sh_sha h) (sh_number_text h) (JObj (route_fields p))))"

definition days_of :: "spend_route \<Rightarrow> int" where
  "days_of r = default_to max_safe (rte_processing_time_days_max r)"

text \<open>The texts compared are decimals the engine wrote.\<close>

definition compare_routes :: "runtime \<Rightarrow> spend_objective \<Rightarrow> spend_route \<Rightarrow> spend_route \<Rightarrow> int" where
  "compare_routes rt objective l r =
     (let days = days_of l - days_of r;
          expiry = rat_cmp (text_value (rte_expiry_preserved_amount r)) (text_value (rte_expiry_preserved_amount l));
          amount = rat_cmp (text_value (rte_target_amount r)) (text_value (rte_target_amount l));
          irreversible = int (rte_irreversible_step_count l) - int (rte_irreversible_step_count r)
      in if objective = SO_fastest \<and> days \<noteq> 0 then days
         else if objective = SO_preserve_expiring \<and> expiry \<noteq> 0 then expiry
         else if amount \<noteq> 0 then amount
         else if days \<noteq> 0 then days
         else if irreversible \<noteq> 0 then irreversible
         else rt_locale_compare rt (rte_route_id l) (rte_route_id r))"

section \<open>The search\<close>

definition edge_problem :: "spend_request \<Rightarrow> spend_edge \<Rightarrow> string option" where
  "edge_problem req e =
     (if \<not> active_at e (sq_effective_at req) then Some ''outside_validity_window''
      else if sg_required_conditions_ja e \<noteq> [] \<and> sg_rule_id e \<notin> set (sq_confirmed_rule_ids req) then
        Some ''condition_confirmation_required''
      else None)"

definition active_edges :: "runtime \<Rightarrow> spend_request \<Rightarrow> spend_edge list" where
  "active_edges rt req = sort_cmp (cmp_on sg_rule_id (rt_locale_compare rt)) (filter (\<lambda>e. edge_problem req e = None) (sq_edges req))"

definition skipped_edges :: "spend_request \<Rightarrow> (string, string) omap" where
  "skipped_edges req =
     fold (\<lambda>e m. case edge_problem req e of None \<Rightarrow> m | Some reason \<Rightarrow> om_set (sg_rule_id e) reason m) (sq_edges req) []"

record search_log =
  sl_skipped :: "(string, string) omap"
  sl_routes :: "spend_route list"

text \<open>The loop over the edges: the states it finds, what it skips and the routes it reports.\<close>

fun expand ::
    "spend_host \<Rightarrow> spend_request \<Rightarrow> search_state \<Rightarrow> spend_edge list \<Rightarrow> search_log \<Rightarrow> (search_state list \<times> search_log) res" where
  "expand h req s [] lg = Inr ([], lg)"
| "expand h req s (e # es) lg =
     rbind (hop (sh_runtime h) req s e) (\<lambda>outcome.
       case outcome of
         HO_elsewhere \<Rightarrow> expand h req s es lg
       | HO_skipped reason \<Rightarrow> expand h req s es (lg\<lparr>sl_skipped := om_set (sg_rule_id e) reason (sl_skipped lg)\<rparr>)
       | HO_next n \<Rightarrow>
           rbind (if ar_asset_id (se_asset n) = sq_target_asset_id req
               then rmap (\<lambda>r. lg\<lparr>sl_routes := sl_routes lg @ [r]\<rparr>) (route_from h n) else Inr lg) (\<lambda>lg'.
             rmap (\<lambda>(ns, lg''). (n # ns, lg'')) (expand h req s es lg')))"

lemma hop_next_steps: "hop rt req s e = Inr (HO_next n) \<Longrightarrow> length (se_steps n) = Suc (length (se_steps s))"
  by (auto simp: hop_def Let_def res_simps next_state_def split: if_splits option.splits)

lemma expand_grows:
  "expand h req s es lg = Inr (ns, lg') \<Longrightarrow>
   length ns \<le> length es \<and> (\<forall>n\<in>set ns. length (se_steps n) = Suc (length (se_steps s)))"
proof (induction es arbitrary: lg ns)
  case (Cons e es)
  from Cons.prems obtain oc where oc: "hop (sh_runtime h) req s e = Inr oc" by (auto simp: res_simps)
  show ?case
  proof (cases oc)
    case (HO_next n)
    with Cons.prems oc obtain lg1 ns' where "ns = n # ns'" "expand h req s es lg1 = Inr (ns', lg')"
      by (auto simp: res_simps)
    with Cons.IH hop_next_steps oc HO_next show ?thesis by fastforce
  qed (use Cons oc in fastforce)+
qed simp

definition open_work :: "nat \<Rightarrow> nat \<Rightarrow> search_state list \<Rightarrow> nat" where
  "open_work width limit queue = sum_list (map (\<lambda>s. Suc width ^ (limit - length (se_steps s))) queue)"

lemma open_work_append: "open_work w m (xs @ ys) = open_work w m xs + open_work w m ys"
  by (simp add: open_work_def)

lemma open_work_children:
  assumes "length ns \<le> w" "\<forall>n\<in>set ns. length (se_steps n) = Suc k" "k < m"
  shows "open_work w m ns < Suc w ^ (m - k)"
proof -
  have "open_work w m ns = length ns * Suc w ^ (m - Suc k)"
    using assms(2) by (simp add: open_work_def sum_list_triv cong: map_cong)
  also have "\<dots> \<le> w * Suc w ^ (m - Suc k)" using assms(1) by simp
  also have "\<dots> < Suc w * Suc w ^ (m - Suc k)" by simp
  also have "\<dots> = Suc w ^ (m - k)" using assms(3) by (simp add: Suc_diff_Suc flip: power_Suc)
  finally show ?thesis .
qed

text \<open>The queue, first in first out.\<close>

function search_routes ::
    "spend_host \<Rightarrow> spend_request \<Rightarrow> spend_edge list \<Rightarrow> search_state list \<Rightarrow> search_log \<Rightarrow> search_log res" where
  "search_routes h req es [] lg = Inr lg"
| "search_routes h req es (s # queue) lg =
     (if nat (sq_max_steps req) \<le> length (se_steps s) then search_routes h req es queue lg
      else case expand h req s es lg of
        Inl e \<Rightarrow> Inl e
      | Inr (ns, lg') \<Rightarrow> search_routes h req es (queue @ ns) lg')"
  by pat_completeness auto
termination
proof (relation "measure (\<lambda>(h, req, es, queue, lg). open_work (length es) (nat (sq_max_steps req)) queue)", goal_cases)
  case (3 h req es s queue lg x ns lg')
  then have "open_work (length es) (nat (sq_max_steps req)) ns < Suc (length es) ^ (nat (sq_max_steps req) - length (se_steps s))"
    using expand_grows [of h req s es lg ns lg'] by (intro open_work_children) auto
  then show ?case by (simp add: open_work_append) (simp add: open_work_def)
qed (auto simp: open_work_def)

declare search_routes.simps(2) [simp del]

definition start_state :: "spend_balance \<Rightarrow> search_state" where
  "start_state b =
     \<lparr>se_origin = b, se_asset = sb_asset b, se_amount = sb_amount b, se_residual = sb_amount b, se_steps = [],
      se_visited = [ar_asset_id (sb_asset b)], se_min_days = Some 0, se_max_days = Some 0, se_irreversible = 0\<rparr>"

fun search_balances ::
    "spend_host \<Rightarrow> spend_request \<Rightarrow> spend_edge list \<Rightarrow> spend_balance list \<Rightarrow> search_log \<Rightarrow> search_log res" where
  "search_balances h req es [] lg = Inr lg"
| "search_balances h req es (b # bs) lg =
     rbind (decimal_string (sb_amount b)) (\<lambda>_.
     rbind (search_routes h req es [start_state b] lg) (search_balances h req es bs))"

definition objective_text :: "spend_objective \<Rightarrow> string" where
  "objective_text g = (case g of SO_maximize_target \<Rightarrow> ''maximize_target'' | SO_fastest \<Rightarrow> ''fastest''
     | SO_preserve_expiring \<Rightarrow> ''preserve_expiring'')"

definition route_json :: "spend_route \<Rightarrow> json" where
  "route_json r = JObj ((''route_id'', JStr (rte_route_id r)) # route_fields r)"

definition result_json :: "spend_result \<Rightarrow> json" where
  "result_json r = JObj
     [(''version'', JStr ''point-spend-optimizer.v1''), (''objective'', JStr (objective_text (so_objective r))),
      (''target_asset_id'', JStr (so_target_asset_id r)),
      (''winner'', case so_winner r of None \<Rightarrow> JNull | Some w \<Rightarrow> route_json w),
      (''routes'', JArr (map route_json (so_routes r))),
      (''skipped'', JArr (map (\<lambda>(i, reason). JObj [(''rule_id'', JStr i), (''reason_code'', JStr reason)]) (so_skipped r)))]"

definition spend_result_of :: "spend_host \<Rightarrow> spend_request \<Rightarrow> search_log \<Rightarrow> spend_result res" where
  "spend_result_of h req lg =
     (let rt = sh_runtime h; routes = sort_cmp (compare_routes rt (sq_objective req)) (sl_routes lg);
          r = \<lparr>so_objective = sq_objective req, so_target_asset_id = sq_target_asset_id req,
            so_winner = (case routes of [] \<Rightarrow> None | w # _ \<Rightarrow> Some w), so_routes = routes,
            so_skipped = sort_cmp (cmp_on fst (rt_locale_compare rt)) (sl_skipped lg), so_result_hash = []\<rparr>
      in rmap (\<lambda>i. r\<lparr>so_result_hash := i\<rparr>) (canonical_hash (sh_sha h) (sh_number_text h) (result_json r)))"

definition optimize_point_spend :: "spend_host \<Rightarrow> spend_request \<Rightarrow> spend_result res" where
  "optimize_point_spend h req =
     (let rt = sh_runtime h
      in rbind (assert_request rt req) (\<lambda>_.
         rbind (search_balances h req (active_edges rt req)
             (sort_cmp (cmp_on (ar_asset_id \<circ> sb_asset) (rt_locale_compare rt)) (sq_balances req))
             \<lparr>sl_skipped = skipped_edges req, sl_routes = []\<rparr>) (\<lambda>lg.
           spend_result_of h req lg)))"

end
