(* ===== verification/Point_Spend_Amounts.thy ===== *)
theory Point_Spend_Amounts
  imports Point_Spend
begin

text \<open>
  The amount a hop takes (\<open>alignedAmount\<close> in
  \<open>packages/rule-engine/src/point-spend-optimizer.ts\<close>): with the fee it never exceeds what is held,
  and it is the largest the edge admits.
\<close>

text \<open>Amounts of at most 18 fraction digits and about 80 integer digits, on which the 120-digit
  arithmetic is exact.\<close>

definition spendable :: "string \<Rightarrow> bool" where
  "spendable t \<longleftrightarrow> is_decimal_text t \<and> (\<exists>u. text_value t = of_int u / 10 ^ 18 \<and> 0 \<le> u \<and> u < 10 ^ 100)"

definition edge_amounts :: "spend_edge \<Rightarrow> string list" where
  "edge_amounts e = sg_fee_source_units e # map the (filter (\<lambda>v. v \<noteq> None)
     [sg_minimum_source_units e, sg_increment_source_units e, sg_maximum_source_units_per_request e])"

lemma spendable_edge:
  assumes "list_all spendable (edge_amounts e)"
  shows "spendable (sg_fee_source_units e)" "sg_minimum_source_units e = Some t \<Longrightarrow> spendable t"
    "sg_increment_source_units e = Some t \<Longrightarrow> spendable t" "sg_maximum_source_units_per_request e = Some t \<Longrightarrow> spendable t"
  using assms by (auto simp: edge_amounts_def split: if_splits)

abbreviation of_units :: "int \<Rightarrow> rat" where
  "of_units u \<equiv> of_int u / 10 ^ 18"

lemma of_units_le: "of_units u \<le> of_units v \<longleftrightarrow> u \<le> v" "of_units u < of_units v \<longleftrightarrow> u < v" "of_units u = of_units v \<longleftrightarrow> u = v"
  by (simp_all add: divide_le_cancel divide_less_cancel)

lemma spendable_units:
  assumes "spendable t"
  obtains u where "decimal_string t = Inr (of_units u)" "text_value t = of_units u" "0 \<le> u" "u < 10 ^ 100"
  using assms by (auto simp: spendable_def decimal_string_def)

lemma small_enough: "u < 10 ^ 100 \<Longrightarrow> u < (10 ^ 119 :: int)"
  using power_increasing [of 100 119 "10 :: int"] by linarith

context decimal_rounding
begin

lemma round_units: "\<bar>u\<bar> < 10 ^ 119 \<Longrightarrow> rt_round rt (of_units u) = of_units u"
proof (rule round_exact)
  assume u: "\<bar>u\<bar> < 10 ^ 119"
  have "(10 :: int) ^ 119 \<le> int dec_limit" by (simp add: dec_limit_def)
  with u have "\<bar>u\<bar> < int dec_limit" by linarith
  from representable_powi [OF this, of "- int 18"] show "representable (of_units u)"
    by (simp only: power_int_minus power_int_of_nat divide_inverse)
qed

lemma dsub_units: "\<bar>u - v\<bar> < 10 ^ 119 \<Longrightarrow> dsub rt (of_units u) (of_units v) = of_units (u - v)"
  using round_units [of "u - v"] by (simp add: dsub_def diff_divide_distrib)

lemma align_down_units:
  assumes "0 < w" "0 \<le> v" "v \<le> u" "u < 10 ^ 100"
  shows "align_down rt (of_units v) (Some (of_units w)) (of_units u) = Inr (of_units (v + (u - v) div w * w))"
proof -
  have d: "dsub rt (of_units u) (of_units v) = of_units (u - v)" using assms by (intro dsub_units) simp
  have q: "\<lfloor>ddiv rt (of_units (u - v)) (of_units w)\<rfloor> = (u - v) div w"
  proof -
    have "of_units (u - v) / of_units w * 10 ^ 0 = of_int (u - v) / of_int w"
      using assms(1) by (simp del: of_int_diff)
    from floor_round_shift [OF this] assms show ?thesis by (simp only: ddiv_def power_0 mult_1_right) simp
  qed
  have rest: "(u - v) div w * w = u - v - (u - v) mod w" by (simp add: minus_mod_eq_div_mult)
  have "0 \<le> (u - v) mod w" using assms(1) by simp
  with rest have k: "0 \<le> (u - v) div w" "(u - v) div w * w \<le> u - v"
    using assms by (simp_all add: pos_imp_zdiv_nonneg_iff del: minus_mod_eq_div_mult)
  have kw: "0 \<le> (u - v) div w * w" using k(1) assms(1) by simp
  have "of_int ((u - v) div w) * of_units w = of_units ((u - v) div w * w)" by simp
  then have m: "dmul rt (of_int ((u - v) div w)) (of_units w) = of_units ((u - v) div w * w)"
    using round_units [of "(u - v) div w * w"] k kw assms small_enough [OF assms(4)] by (simp only: dmul_def)
  have "of_units v + of_units ((u - v) div w * w) = of_units (v + (u - v) div w * w)" by (simp add: add_divide_distrib)
  then have a: "dadd rt (of_units v) (of_units ((u - v) div w * w)) = of_units (v + (u - v) div w * w)"
    using round_units [of "v + (u - v) div w * w"] k kw assms small_enough [OF assms(4)] by (simp only: dadd_def)
  show ?thesis using assms(1) by (simp only: align_down_def option.case d q m a) simp
qed

end

text \<open>What a hop may take at most: what is held less the fee, and the maximum of one request.\<close>

definition request_limit :: "spend_edge \<Rightarrow> string \<Rightarrow> rat" where
  "request_limit e available =
     (let rest = text_value available - text_value (sg_fee_source_units e)
      in case sg_maximum_source_units_per_request e of None \<Rightarrow> rest | Some m \<Rightarrow> min rest (text_value m))"

definition origin_of :: "spend_edge \<Rightarrow> rat" where
  "origin_of e = (case sg_minimum_source_units e of None \<Rightarrow> 0 | Some m \<Rightarrow> text_value m)"

lemma optional_limit_units:
  assumes "\<And>t. v = Some t \<Longrightarrow> spendable t"
  obtains "v = None" "optional_limit v = Inr None"
  | t u where "v = Some t" "optional_limit v = Inr (Some (of_units u))" "text_value t = of_units u" "0 \<le> u" "u < 10 ^ 100"
proof (cases v)
  case (Some t)
  with assms obtain u where "decimal_string t = Inr (of_units u)" "text_value t = of_units u" "0 \<le> u" "u < 10 ^ 100"
    using spendable_units by blast
  with Some that(2) show ?thesis by (simp add: optional_limit_def)
qed (use that(1) in \<open>simp add: optional_limit_def\<close>)

lemma aligned_units:
  assumes dt: "decimal_text rt" and plain: "list_all spendable (available # edge_amounts e)"
    and run: "aligned_amount rt e available = Inr (Some t)"
  obtains v l w where "t = canonical_decimal rt (of_units w)" "0 < w" "v \<le> w" "w \<le> l" "0 \<le> v" "l < 10 ^ 100"
    "request_limit e available = of_units l" "origin_of e = of_units v"
    "sg_increment_source_units e = None \<Longrightarrow> w = l"
    "\<And>i. sg_increment_source_units e = Some i \<Longrightarrow>
       \<exists>d. text_value i = of_units d \<and> 0 < d \<and> w = v + (l - v) div d * d"
proof -
  note found = that
  note rounding = decimal_text.axioms(1) [OF dt]
  have sp: "spendable available" "list_all spendable (edge_amounts e)" using plain by simp_all
  note limits = spendable_edge [OF sp(2)]
  obtain h where h: "decimal_string available = Inr (of_units h)" "text_value available = of_units h" "0 \<le> h" "h < 10 ^ 100"
    using spendable_units [OF sp(1)] .
  obtain f where f: "decimal_string (sg_fee_source_units e) = Inr (of_units f)" "text_value (sg_fee_source_units e) = of_units f"
    "0 \<le> f" "f < 10 ^ 100" using spendable_units [OF limits(1)] .
  have fh: "f \<le> h" using run h f by (auto simp: aligned_amount_def of_units_le split: if_splits)
  have rest: "dsub rt (of_units h) (of_units f) = of_units (h - f)"
    using small_enough [OF h(4)] f(3) fh by (intro decimal_rounding.dsub_units [OF rounding]) linarith
  have rest': "text_value available - text_value (sg_fee_source_units e) = of_units (h - f)"
    by (simp add: h(2) f(2) diff_divide_distrib)
  define finish where "finish = (\<lambda>amount. rbind (optional_limit (sg_minimum_source_units e)) (\<lambda>minimum.
      if case minimum of Some m \<Rightarrow> amount < m | None \<Rightarrow> False then Inr None
      else rbind (optional_limit (sg_increment_source_units e)) (\<lambda>increment.
        rmap (\<lambda>aligned. if aligned \<le> 0 then None else Some (canonical_decimal rt aligned))
          (align_down rt (default_to 0 minimum) increment amount))))"
  have "\<not> of_units h < of_units f" using fh by (simp only: of_units_le not_less)
  then have run1: "rbind (optional_limit (sg_maximum_source_units_per_request e)) (\<lambda>maximum.
      finish (case maximum of Some m \<Rightarrow> if m < of_units (h - f) then m else of_units (h - f) | None \<Rightarrow> of_units (h - f))) = Inr (Some t)"
    using run by (simp only: aligned_amount_def h(1) f(1) rbind_simps if_False Let_def rest finish_def)
  obtain l where l: "finish (of_units l) = Inr (Some t)" "request_limit e available = of_units l" "0 \<le> l" "l < 10 ^ 100"
  proof (rule optional_limit_units [of "sg_maximum_source_units_per_request e"])
    show "spendable t" if "sg_maximum_source_units_per_request e = Some t" for t using limits(4) that .
    assume "sg_maximum_source_units_per_request e = None" "optional_limit (sg_maximum_source_units_per_request e) = Inr None"
    then show thesis using run1 h(4) f(3) fh by (intro that [of "h - f"]) (simp_all add: request_limit_def rest' Let_def)
  next
    fix m u
    assume m: "sg_maximum_source_units_per_request e = Some m" "optional_limit (sg_maximum_source_units_per_request e) = Inr (Some (of_units u))"
      "text_value m = of_units u" "0 \<le> u" "u < 10 ^ 100"
    have pick: "(if of_units u < of_units (h - f) then of_units u else of_units (h - f)) = of_units (min (h - f) u)"
      by (simp only: of_units_le min_def not_less [symmetric] if_not_P) auto
    have "min (of_units (h - f)) (of_units u) = of_units (min (h - f) u)" by (simp only: min_def of_units_le) simp
    then show thesis using run1 m h(4) f(3) fh
      by (intro that [of "min (h - f) u"]) (simp_all only: rbind_simps option.case pick request_limit_def rest' Let_def)
  qed
  define finish' where "finish' = (\<lambda>origin. rbind (optional_limit (sg_increment_source_units e)) (\<lambda>increment.
        rmap (\<lambda>aligned. if aligned \<le> 0 then None else Some (canonical_decimal rt aligned))
          (align_down rt origin increment (of_units l))))"
  obtain v where v: "finish' (of_units v) = Inr (Some t)" "origin_of e = of_units v" "0 \<le> v" "v \<le> l"
  proof (rule optional_limit_units [of "sg_minimum_source_units e"])
    show "spendable t" if "sg_minimum_source_units e = Some t" for t using limits(2) that .
    assume "sg_minimum_source_units e = None" "optional_limit (sg_minimum_source_units e) = Inr None"
    then show thesis using l(1,3) by (intro that [of 0]) (simp_all add: finish_def finish'_def origin_of_def)
  next
    fix m u
    assume m: "sg_minimum_source_units e = Some m" "optional_limit (sg_minimum_source_units e) = Inr (Some (of_units u))"
      "text_value m = of_units u" "0 \<le> u"
    have "(if of_units l < of_units u then Inr None else finish' (of_units u)) = Inr (Some t)"
      using l(1) by (simp only: finish_def finish'_def m(2) rbind_simps option.case default_to_simps)
    then have "u \<le> l" "finish' (of_units u) = Inr (Some t)" by (auto simp: of_units_le split: if_splits)
    then show thesis using m by (intro that [of u]) (simp_all add: origin_of_def)
  qed
  have finished: "thesis" if w: "rmap (\<lambda>aligned. if aligned \<le> 0 then None else Some (canonical_decimal rt aligned))
      (Inr (of_units w)) = Inr (Some t)" "v \<le> w" "w \<le> l" "sg_increment_source_units e = None \<Longrightarrow> w = l"
    "\<And>i. sg_increment_source_units e = Some i \<Longrightarrow> \<exists>d. text_value i = of_units d \<and> 0 < d \<and> w = v + (l - v) div d * d" for w
  proof -
    have "\<not> of_units w \<le> of_units 0" "t = canonical_decimal rt (of_units w)" using w(1) by (auto split: if_splits)
    then have pos: "0 < w" "t = canonical_decimal rt (of_units w)" by (simp_all only: of_units_le not_le)
    show thesis by (rule found [OF pos(2,1) w(2,3) v(3) l(4,2) v(2) w(4,5)])
  qed
  show thesis
  proof (rule optional_limit_units [of "sg_increment_source_units e"])
    show "spendable t" if "sg_increment_source_units e = Some t" for t using limits(3) that .
    assume "sg_increment_source_units e = None" "optional_limit (sg_increment_source_units e) = Inr None"
    then show thesis using v(1,4) by (intro finished [of l]) (simp_all add: finish'_def align_down_def)
  next
    fix i d
    assume i: "sg_increment_source_units e = Some i" "optional_limit (sg_increment_source_units e) = Inr (Some (of_units d))"
      "text_value i = of_units d" "0 \<le> d"
    have run2: "rmap (\<lambda>aligned. if aligned \<le> 0 then None else Some (canonical_decimal rt aligned))
        (align_down rt (of_units v) (Some (of_units d)) (of_units l)) = Inr (Some t)"
      using v(1) by (simp only: finish'_def i(2) rbind_simps)
    have "d \<noteq> 0" using run2 by (auto simp: align_down_def)
    with i(4) have d: "0 < d" by simp
    let ?w = "v + (l - v) div d * d"
    have "(l - v) div d * d = l - v - (l - v) mod d" by (simp add: minus_mod_eq_div_mult)
    moreover have "0 \<le> (l - v) mod d" using d by simp
    moreover have "0 \<le> (l - v) div d * d" using d v(4) by (simp add: pos_imp_zdiv_nonneg_iff)
    ultimately show thesis
      using run2 [unfolded decimal_rounding.align_down_units [OF rounding d v(3,4) l(4)]] i d
      by (intro finished [of ?w]) auto
  qed
qed

lemma aligned_spends:
  assumes "decimal_text rt" "list_all spendable (available # edge_amounts e)"
    and "aligned_amount rt e available = Inr (Some t)"
  shows "is_decimal_text t \<and> 0 < text_value t \<and> origin_of e \<le> text_value t \<and>
    text_value t + text_value (sg_fee_source_units e) \<le> text_value available \<and>
    text_value t \<le> request_limit e available \<and>
    (case sg_increment_source_units e of
       None \<Rightarrow> text_value t = request_limit e available
     | Some i \<Rightarrow> (\<exists>k :: int. text_value t = origin_of e + of_int k * text_value i) \<and>
         request_limit e available < text_value t + text_value i)"
proof (rule aligned_units [OF assms])
  fix v l w
  assume t: "t = canonical_decimal rt (of_units w)" and w: "0 < w" "v \<le> w" "w \<le> l" "0 \<le> v" "l < 10 ^ 100"
    and l: "request_limit e available = of_units l" and v: "origin_of e = of_units v"
    and none: "sg_increment_source_units e = None \<Longrightarrow> w = l"
    and some: "\<And>i. sg_increment_source_units e = Some i \<Longrightarrow> \<exists>d. text_value i = of_units d \<and> 0 < d \<and> w = v + (l - v) div d * d"
  note rounding = decimal_text.axioms(1) [OF assms(1)]
  have "\<bar>w\<bar> < 10 ^ 119" using w small_enough [OF w(5)] by linarith
  note r = decimal_rounding.round_units [OF rounding this]
  have "0 \<le> of_units w" using w(1) by simp
  note texts = decimal_text.canonical_of_rounded [OF assms(1) this, unfolded r]
  have t': "is_decimal_text t" "text_value t = of_units w" unfolding t by (rule texts)+
  have steps: "case sg_increment_source_units e of
       None \<Rightarrow> text_value t = request_limit e available
     | Some i \<Rightarrow> (\<exists>k :: int. text_value t = origin_of e + of_int k * text_value i) \<and>
         request_limit e available < text_value t + text_value i"
  proof (cases "sg_increment_source_units e")
    case None
    then show ?thesis by (simp add: none t'(2) l)
  next
    case (Some i)
    from some [OF Some] obtain d where d: "text_value i = of_units d" "0 < d" "w = v + (l - v) div d * d" by blast
    have "of_units w = of_units v + of_int ((l - v) div d) * of_units d" by (simp add: d(3) add_divide_distrib)
    moreover have "of_units l < of_units (w + d)"
    proof -
      have "(l - v) div d * d = l - v - (l - v) mod d" by (simp add: minus_mod_eq_div_mult)
      moreover have "(l - v) mod d < d" using d(2) by simp
      ultimately show ?thesis using d(3) unfolding of_units_le by linarith
    qed
    ultimately show ?thesis by (auto simp: Some t'(2) l v d(1) add_divide_distrib)
  qed
  have limit: "text_value t \<le> request_limit e available" "origin_of e \<le> text_value t" "0 < text_value t"
    unfolding t'(2) l v using w by (simp_all only: of_units_le) simp
  have "request_limit e available + text_value (sg_fee_source_units e) \<le> text_value available"
    by (auto simp: request_limit_def Let_def split: option.split)
  with limit steps t'(1) show ?thesis by linarith
qed

text \<open>C22. No hop spends more than is held: the amount taken and the fee are at most the amount on hand,
  the amount is positive, at least the minimum and at most the maximum of one request, it lies on the
  increment counted from the minimum, and it is the largest such amount.\<close>

theorem hop_spends_what_is_held:
  assumes "decimal_text rt" "list_all spendable (available # edge_amounts e)"
    and "aligned_amount rt e available = Inr (Some t)"
  shows "is_decimal_text t \<and> 0 < text_value t \<and> origin_of e \<le> text_value t \<and>
    text_value t + text_value (sg_fee_source_units e) \<le> text_value available \<and>
    text_value t \<le> request_limit e available \<and>
    (case sg_increment_source_units e of
       None \<Rightarrow> text_value t = request_limit e available
     | Some i \<Rightarrow> (\<exists>k :: int. text_value t = origin_of e + of_int k * text_value i) \<and>
         request_limit e available < text_value t + text_value i)"
  by (rule aligned_spends [OF assms])

end
