(* ===== verification/Point_Spend_Laws.thy ===== *)
theory Point_Spend_Laws
  imports Point_Spend_Amounts
begin

text \<open>
  What the search for transfer routes guarantees: it finds exactly the chains of transfers there
  are, every chain it reports can be carried out hop by hop, no hop spends more than is held, and
  the winner is the best of them by the objective.
\<close>

section \<open>The search is exact\<close>

text \<open>One hop of a route that may still grow.\<close>

definition hop_rel :: "runtime \<Rightarrow> spend_request \<Rightarrow> spend_edge list \<Rightarrow> (search_state \<times> search_state) set" where
  "hop_rel rt req es = {(s, n). length (se_steps s) < nat (sq_max_steps req) \<and> (\<exists>e\<in>set es. hop rt req s e = Inr (HO_next n))}"

definition at_target :: "spend_request \<Rightarrow> search_state \<Rightarrow> bool" where
  "at_target req s \<longleftrightarrow> ar_asset_id (se_asset s) = sq_target_asset_id req"

lemma expand_finds:
  "expand h req s es lg = Inr (ns, lg') \<Longrightarrow>
   (\<forall>n. n \<in> set ns \<longleftrightarrow> (\<exists>e\<in>set es. hop (sh_runtime h) req s e = Inr (HO_next n))) \<and>
   (\<forall>x. x \<in> set (sl_routes lg') \<longleftrightarrow>
      x \<in> set (sl_routes lg) \<or> (\<exists>n\<in>set ns. at_target req n \<and> route_from h n = Inr x))"
proof (induction es arbitrary: lg ns)
  case (Cons e es)
  from Cons.prems obtain oc where oc: "hop (sh_runtime h) req s e = Inr oc" by (auto simp: res_simps)
  show ?case
  proof (cases oc)
    case (HO_next n)
    with Cons.prems oc obtain lg1 ns' where p: "ns = n # ns'" "expand h req s es lg1 = Inr (ns', lg')"
      and lg1: "(if ar_asset_id (se_asset n) = sq_target_asset_id req
          then rmap (\<lambda>r. lg\<lparr>sl_routes := sl_routes lg @ [r]\<rparr>) (route_from h n) else Inr lg) = Inr lg1"
      by (auto simp: res_simps)
    have "x \<in> set (sl_routes lg1) \<longleftrightarrow> x \<in> set (sl_routes lg) \<or> at_target req n \<and> route_from h n = Inr x" for x
      using lg1 by (auto simp: at_target_def res_simps split: if_splits)
    with Cons.IH [OF p(2)] oc HO_next show ?thesis by (auto simp: p(1))
  next
    case HO_elsewhere
    with Cons.prems oc have "expand h req s es lg = Inr (ns, lg')" by simp
    from Cons.IH [OF this] oc HO_elsewhere show ?thesis by auto
  next
    case (HO_skipped reason)
    with Cons.prems oc have "expand h req s es (lg\<lparr>sl_skipped := om_set (sg_rule_id e) reason (sl_skipped lg)\<rparr>) = Inr (ns, lg')"
      by simp
    from Cons.IH [OF this] oc HO_skipped show ?thesis by auto
  qed
qed simp

definition found_from :: "spend_host \<Rightarrow> spend_request \<Rightarrow> spend_edge list \<Rightarrow> search_state \<Rightarrow> spend_route set" where
  "found_from h req es s = {x. \<exists>n. (s, n) \<in> (hop_rel (sh_runtime h) req es)\<^sup>+ \<and> at_target req n \<and> route_from h n = Inr x}"

lemma found_from_unfold:
  "x \<in> found_from h req es s \<longleftrightarrow>
     (\<exists>n. (s, n) \<in> hop_rel (sh_runtime h) req es \<and> (at_target req n \<and> route_from h n = Inr x \<or> x \<in> found_from h req es n))"
  unfolding found_from_def by (auto elim: converse_tranclE intro: trancl_into_trancl2)

lemma search_finds:
  "search_routes h req es queue lg = Inr lg' \<Longrightarrow>
   set (sl_routes lg') = set (sl_routes lg) \<union> (\<Union>s\<in>set queue. found_from h req es s)"
proof (induction h req es queue lg rule: search_routes.induct)
  case (2 h req es s queue lg)
  show ?case
  proof (cases "nat (sq_max_steps req) \<le> length (se_steps s)")
    case True
    then have "found_from h req es s = {}" by (auto simp: found_from_unfold [of _ h req es s] hop_rel_def)
    with True 2 show ?thesis by (simp add: search_routes.simps(2))
  next
    case False
    with "2.prems" obtain ns lg1 where x: "expand h req s es lg = Inr (ns, lg1)"
      and rest: "search_routes h req es (queue @ ns) lg1 = Inr lg'"
      by (auto simp: search_routes.simps(2) [of h req es s] split: sum.splits)
    have next_ones: "(s, n) \<in> hop_rel (sh_runtime h) req es \<longleftrightarrow> n \<in> set ns" for n
      using expand_finds [OF x] False by (auto simp: hop_rel_def)
    have "y \<in> set (sl_routes lg') \<longleftrightarrow> y \<in> set (sl_routes lg) \<union> (\<Union>t\<in>set (s # queue). found_from h req es t)" for y
      using "2.IH"(2) [OF False x refl rest] expand_finds [OF x] found_from_unfold [of y h req es s]
      by (auto simp: next_ones)
    then show ?thesis by blast
  qed
qed simp

lemma balances_find:
  "search_balances h req es bs lg = Inr lg' \<Longrightarrow>
   set (sl_routes lg') = set (sl_routes lg) \<union> (\<Union>b\<in>set bs. found_from h req es (start_state b))"
proof (induction bs arbitrary: lg)
  case (Cons b bs)
  then obtain lg1 where "search_routes h req es [start_state b] lg = Inr lg1" "search_balances h req es bs lg1 = Inr lg'"
    by (auto simp: res_simps)
  with search_finds [of h req es "[start_state b]" lg lg1] Cons.IH [of lg1] show ?case by auto
qed simp

lemma optimized:
  assumes "optimize_point_spend h req = Inr r"
  shows "assert_request (sh_runtime h) req = Inr ()"
    and "set (so_routes r) = (\<Union>b\<in>set (sq_balances req). found_from h req (active_edges (sh_runtime h) req) (start_state b))"
    and "\<exists>rs. so_routes r = sort_cmp (compare_routes (sh_runtime h) (sq_objective req)) rs"
    and "so_winner r = (case so_routes r of [] \<Rightarrow> None | w # _ \<Rightarrow> Some w)"
proof -
  from assms obtain lg where lg: "assert_request (sh_runtime h) req = Inr ()"
    "search_balances h req (active_edges (sh_runtime h) req)
       (sort_cmp (cmp_on (ar_asset_id \<circ> sb_asset) (rt_locale_compare (sh_runtime h))) (sq_balances req))
       \<lparr>sl_skipped = skipped_edges req, sl_routes = []\<rparr> = Inr lg" "spend_result_of h req lg = Inr r"
    by (auto simp: optimize_point_spend_def Let_def res_simps)
  have r: "so_routes r = sort_cmp (compare_routes (sh_runtime h) (sq_objective req)) (sl_routes lg)"
    "so_winner r = (case so_routes r of [] \<Rightarrow> None | w # _ \<Rightarrow> Some w)"
    using lg(3) by (auto simp: spend_result_of_def Let_def res_simps)
  show "assert_request (sh_runtime h) req = Inr ()" by (rule lg(1))
  show "set (so_routes r) = (\<Union>b\<in>set (sq_balances req). found_from h req (active_edges (sh_runtime h) req) (start_state b))"
    using balances_find [OF lg(2)] by (simp add: r(1))
  show "\<exists>rs. so_routes r = sort_cmp (compare_routes (sh_runtime h) (sq_objective req)) rs" using r(1) by blast
  show "so_winner r = (case so_routes r of [] \<Rightarrow> None | w # _ \<Rightarrow> Some w)" by (rule r(2))
qed

lemma active_edges_set: "set (active_edges rt req) = {e \<in> set (sq_edges req). edge_problem req e = None}"
  by (auto simp: active_edges_def)

text \<open>C8. The search for transfer routes is exact: the routes it reports are those of all chains of at
  most the allowed number of hops that lead from one of the balances to the target, each hop an
  active, confirmed edge whose transfer is applied; none is missed and none is invented.\<close>

theorem route_search_is_exact:
  assumes "optimize_point_spend h req = Inr r"
  shows "set (so_routes r) = {x. \<exists>b\<in>set (sq_balances req). \<exists>n.
    (start_state b, n) \<in> (hop_rel (sh_runtime h) req (active_edges (sh_runtime h) req))\<^sup>+ \<and>
    at_target req n \<and> route_from h n = Inr x}"
  unfolding optimized(2) [OF assms] by (auto simp: found_from_def)

text \<open>Every document here is finite, so its hash exists.\<close>

lemma finite_parts: "all_finite (text_or_null v)" "all_finite (days_or_null d)"
  by (simp_all add: text_or_null_def days_or_null_def split: option.split)

lemma finite_asset: "all_finite (asset_json a)"
  by (simp add: asset_json_def finite_parts)

lemma finite_step: "all_finite (step_json st)"
  by (simp add: step_json_def finite_parts)

lemma finite_fields: "list_all (\<lambda>kv. all_finite (snd kv)) (route_fields r)"
  by (simp add: route_fields_def finite_asset finite_step finite_parts)

lemma rmap_total: "\<exists>i. m = Inr i \<Longrightarrow> \<exists>r. rmap f m = Inr r"
  by auto

lemma hash_total: "all_finite v \<Longrightarrow> \<exists>i. canonical_hash sha nt v = Inr i"
  by (simp add: canonical_hash_def canonicalize_normal_form)

lemma route_from_total: "\<exists>x. route_from h s = Inr x"
  using hash_total [of "JObj (route_fields (route_projection s))" "sh_sha h" "sh_number_text h"] finite_fields [of "route_projection s"]
  by (auto simp: route_from_def Let_def list_all_iff)

lemma route_json_finite: "all_finite (route_json r)"
  using finite_fields [of r] by (simp add: route_json_def list_all_iff)

lemma spend_result_total: "\<exists>r. spend_result_of h req lg = Inr r"
proof -
  have "all_finite (result_json r)" for r
    by (auto simp: result_json_def route_json_finite split: option.split prod.split)
  then show ?thesis unfolding spend_result_of_def Let_def by (intro rmap_total hash_total)
qed

section \<open>Every route can be carried out\<close>

text \<open>Amounts of at most 18 integer and 18 fraction digits, on which the arithmetic of a hop is exact.\<close>

definition plain_amount :: "string \<Rightarrow> bool" where
  "plain_amount t \<longleftrightarrow> is_decimal_text t \<and> (\<exists>u. text_value t = of_nat u / 10 ^ 18 \<and> u < 10 ^ 36)"

definition hop_texts :: "spend_request \<Rightarrow> spend_edge \<Rightarrow> string \<Rightarrow> string list" where
  "hop_texts req e on_hand = on_hand # sg_source_units e # sg_destination_units e # edge_amounts e @
     (case om_get (sq_period_source_used_by_rule req) (sg_rule_id e) of None \<Rightarrow> [] | Some used \<Rightarrow> [used])"

text \<open>What a transfer of one edge asks of the amount taken and of the amount that arrives, in the
  numbers the texts denote.\<close>

definition hop_amounts :: "spend_request \<Rightarrow> spend_edge \<Rightarrow> string \<Rightarrow> string \<Rightarrow> string \<Rightarrow> bool" where
  "hop_amounts req e on_hand taken arrived \<longleftrightarrow>
     is_decimal_text taken \<and>
     (\<forall>m. sg_minimum_source_units e = Some m \<longrightarrow> text_value m \<le> text_value taken) \<and>
     (\<forall>m. sg_maximum_source_units_per_request e = Some m \<longrightarrow> text_value taken \<le> text_value m) \<and>
     (sg_maximum_source_units_per_period e \<noteq> None \<longrightarrow> om_get (sq_period_source_used_by_rule req) (sg_rule_id e) \<noteq> None) \<and>
     (list_all plain_amount (hop_texts req e on_hand) \<longrightarrow>
        0 < text_value taken \<and> text_value taken + text_value (sg_fee_source_units e) \<le> text_value on_hand \<and>
        (\<forall>i. sg_increment_source_units e = Some i \<longrightarrow>
           (\<exists>k :: int. text_value taken = (case sg_minimum_source_units e of None \<Rightarrow> 0 | Some m \<Rightarrow> text_value m) + of_int k * text_value i)) \<and>
        (\<forall>m used. sg_maximum_source_units_per_period e = Some m \<longrightarrow>
           om_get (sq_period_source_used_by_rule req) (sg_rule_id e) = Some used \<longrightarrow>
           text_value used + text_value taken \<le> text_value m) \<and>
        text_value arrived * 10 ^ nat (ar_scale (sg_destination_asset e)) =
          of_int \<lfloor>text_value taken * text_value (sg_destination_units e) / text_value (sg_source_units e) *
            10 ^ nat (ar_scale (sg_destination_asset e))\<rfloor>)"

text \<open>The hop of a step, after the assets visited and from the amount on hand: an edge of the request
  that is in force at its date and whose conditions are confirmed.\<close>

definition legal_hop :: "spend_request \<Rightarrow> string list \<Rightarrow> string \<Rightarrow> route_step \<Rightarrow> bool" where
  "legal_hop req visited on_hand st \<longleftrightarrow>
     (\<exists>e\<in>set (sq_edges req). sg_rule_id e = rs_rule_id st \<and>
        (\<forall>t. sg_valid_from e = Some t \<longrightarrow> str_cmp t (take 10 (sq_effective_at req)) \<le> 0) \<and>
        (\<forall>t. sg_valid_to e = Some t \<longrightarrow> 0 \<le> str_cmp t (take 10 (sq_effective_at req))) \<and>
        (sg_required_conditions_ja e = [] \<or> sg_rule_id e \<in> set (sq_confirmed_rule_ids req)) \<and>
        ar_asset_id (sg_source_asset e) = last visited \<and> rs_source_asset_id st = last visited \<and>
        ar_asset_id (sg_destination_asset e) = rs_destination_asset_id st \<and> rs_destination_asset_id st \<notin> set visited \<and>
        hop_amounts req e on_hand (rs_source_amount st) (rs_destination_amount st))"

fun legal_walk :: "spend_request \<Rightarrow> string list \<Rightarrow> string \<Rightarrow> route_step list \<Rightarrow> bool" where
  "legal_walk req visited on_hand [] = True"
| "legal_walk req visited on_hand (st # sts) =
     (legal_hop req visited on_hand st \<and>
      legal_walk req (visited @ [rs_destination_asset_id st]) (rs_destination_amount st) sts)"

fun walk_end :: "string \<Rightarrow> string \<Rightarrow> route_step list \<Rightarrow> string \<times> string" where
  "walk_end asset on_hand [] = (asset, on_hand)"
| "walk_end asset on_hand (st # sts) = walk_end (rs_destination_asset_id st) (rs_destination_amount st) sts"

lemma legal_walk_snoc:
  "legal_walk req visited on_hand (sts @ [st]) \<longleftrightarrow>
     legal_walk req visited on_hand sts \<and>
     legal_hop req (visited @ map rs_destination_asset_id sts) (snd (walk_end a on_hand sts)) st"
proof (induction sts arbitrary: visited a on_hand)
  case (Cons x sts)
  from Cons.IH [of "visited @ [rs_destination_asset_id x]" "rs_destination_amount x" "rs_destination_asset_id x"]
  show ?case by simp
qed simp

lemma walk_end_snoc: "walk_end a on_hand (sts @ [st]) = (rs_destination_asset_id st, rs_destination_amount st)"
  by (induction sts arbitrary: a on_hand) auto

lemma walk_end_asset: "fst (walk_end a on_hand sts) = last (a # map rs_destination_asset_id sts)"
  by (induction sts arbitrary: a on_hand) auto

definition carried_out :: "spend_request \<Rightarrow> spend_balance \<Rightarrow> search_state \<Rightarrow> bool" where
  "carried_out req b s \<longleftrightarrow>
     se_origin s = b \<and> legal_walk req [ar_asset_id (sb_asset b)] (sb_amount b) (se_steps s) \<and>
     walk_end (ar_asset_id (sb_asset b)) (sb_amount b) (se_steps s) = (ar_asset_id (se_asset s), se_amount s) \<and>
     se_visited s = ar_asset_id (sb_asset b) # map rs_destination_asset_id (se_steps s) \<and>
     distinct (se_visited s) \<and> length (se_steps s) \<le> nat (sq_max_steps req)"

lemma step_of_simps [simp]:
  "rs_rule_id (step_of e amount arrived) = sg_rule_id e"
  "rs_source_asset_id (step_of e amount arrived) = ar_asset_id (sg_source_asset e)"
  "rs_destination_asset_id (step_of e amount arrived) = ar_asset_id (sg_destination_asset e)"
  "rs_source_amount (step_of e amount arrived) = amount" "rs_destination_amount (step_of e amount arrived) = arrived"
  by (simp_all add: step_of_def)

lemma carried_out_start: "carried_out req b (start_state b)"
  by (simp add: carried_out_def start_state_def)

lemma hop_legal:
  assumes "hop rt req s e = Inr (HO_next n)"
  obtains amount arrived residual where "n = next_state e s amount arrived residual"
    and "ar_asset_id (sg_source_asset e) = ar_asset_id (se_asset s)"
    and "ar_asset_id (sg_destination_asset e) \<notin> set (se_visited s)"
    and "aligned_amount rt e (se_amount s) = Inr (Some amount)"
    and "\<exists>t. evaluate_transfer rt (transfer_spec e) (hop_input req e s amount) = Inr t \<and> tc_status t = TS_applied \<and>
      tc_destination_amount t = Some arrived"
  using assms
  by (auto simp: hop_def Let_def res_simps intro!: that split: if_splits option.splits)

text \<open>The numbers of a transfer that is applied.\<close>

lemma parse_text_Inr: "parse_input (DStr t) l = Inr q \<longleftrightarrow> is_decimal_text t \<and> q = text_value t"
  by (auto simp: parse_input_def decimal_string_def relabel_def)

lemma parse_optional_Some: "parse_optional_text (Some t) l = Inr v \<longleftrightarrow> is_decimal_text t \<and> v = Some (text_value t)"
  by (auto simp: parse_optional_text_def parse_optional_input_def res_simps parse_text_Inr)

lemma plain_spendable: "plain_amount t \<Longrightarrow> spendable t"
proof -
  assume "plain_amount t"
  then obtain u where u: "is_decimal_text t" "text_value t = of_nat u / 10 ^ 18" "u < 10 ^ 36" by (auto simp: plain_amount_def)
  have "(10 :: int) ^ 36 \<le> 10 ^ 100" by simp
  moreover have "int u < 10 ^ 36" using u(3) by (metis of_nat_less_iff of_nat_power of_nat_numeral)
  ultimately have "int u < 10 ^ 100" by linarith
  with u show ?thesis unfolding spendable_def by (intro conjI exI [of _ "int u"]) simp_all
qed

lemma plain_sum:
  assumes "decimal_rounding rt" "plain_amount s" "text_value t = of_nat w / 10 ^ 18" "w < 10 ^ 36"
  shows "dadd rt (text_value s) (text_value t) = text_value s + text_value t"
proof -
  obtain u where u: "text_value s = of_nat u / 10 ^ 18" "u < 10 ^ 36" using assms(2) by (auto simp: plain_amount_def)
  have "u + w < dec_limit" using u(2) assms(4) by (simp add: dec_limit_def)
  from decimal_rounding.round_exact [OF assms(1) representable_div [OF this, of 18]]
  show ?thesis by (simp add: dadd_def u assms(3) add_divide_distrib)
qed

lemma applied_numbers:
  assumes "evaluate_transfer rt (transfer_spec e) (hop_input req e s taken) = Inr t" "tc_status t = TS_applied"
    and "tc_destination_amount t = Some arrived"
  obtains limits where "is_decimal_text taken"
    "\<And>m. sg_minimum_source_units e = Some m \<Longrightarrow> text_value m \<le> text_value taken"
    "\<And>m. sg_maximum_source_units_per_request e = Some m \<Longrightarrow> text_value taken \<le> text_value m"
    "\<And>m. sg_maximum_source_units_per_period e = Some m \<Longrightarrow>
       \<exists>used. om_get (sq_period_source_used_by_rule req) (sg_rule_id e) = Some used \<and>
         dadd rt (text_value used) (text_value taken) \<le> text_value m"
    "transfer_conversion rt (transfer_spec e) limits (text_value taken) = Inr arrived"
    "lm_ratio_source limits = text_value (sg_source_units e)" "0 < lm_ratio_source limits"
    "lm_ratio_destination limits = text_value (sg_destination_units e)"
proof (rule evaluate_transfer_applied [OF assms(1,2)])
  fix source limits amount
  assume src: "transfer_source (hop_input req e s taken) = Some source" and c: "transfer_constraints (transfer_spec e) = Inr limits"
    and rf: "request_failure rt limits source = None" and pf: "period_failure rt limits (hop_input req e s taken) source = Inr None"
    and cv: "transfer_conversion rt (transfer_spec e) limits source = Inr amount" and "tc_destination_amount t = Some amount"
  then have amount: "amount = arrived" using assms(3) by simp
  have source: "is_decimal_text taken" "source = text_value taken"
    using src by (auto simp: transfer_source_def hop_input_def parse_text_Inr split: sum.splits)
  note cs = transfer_constraints_Inr [OF c, unfolded transfer_spec_def transfer_calculation_spec.simps]
  note rf = rf [unfolded request_failure_None_iff source(2)]
  show thesis
  proof (rule that [OF source(1)])
    show "text_value m \<le> text_value taken" if "sg_minimum_source_units e = Some m" for m
      using rf cs(5) by (simp add: that parse_optional_Some)
    show "text_value taken \<le> text_value m" if "sg_maximum_source_units_per_request e = Some m" for m
      using rf cs(7) by (simp add: that parse_optional_Some)
    show "\<exists>used. om_get (sq_period_source_used_by_rule req) (sg_rule_id e) = Some used \<and>
        dadd rt (text_value used) (text_value taken) \<le> text_value m" if "sg_maximum_source_units_per_period e = Some m" for m
      using pf [unfolded period_failure_None_iff source(2)] cs(8)
      by (auto simp: that parse_optional_Some hop_input_def parse_optional_input_def res_simps parse_text_Inr split: option.splits)
    show "transfer_conversion rt (transfer_spec e) limits (text_value taken) = Inr arrived" using cv source(2) amount by simp
    show "lm_ratio_source limits = text_value (sg_source_units e)" using cs(9) by (simp add: parse_text_Inr)
    show "0 < lm_ratio_source limits" by (rule cs(1))
    show "lm_ratio_destination limits = text_value (sg_destination_units e)" using cs(10) by (simp add: parse_text_Inr)
  qed
qed

lemma applied_amounts:
  assumes dt: "decimal_text rt" and run: "aligned_amount rt e on_hand = Inr (Some taken)"
    and tr: "evaluate_transfer rt (transfer_spec e) (hop_input req e s taken) = Inr t" "tc_status t = TS_applied"
      "tc_destination_amount t = Some arrived"
  shows "hop_amounts req e on_hand taken arrived"
proof -
  obtain limits where n: "is_decimal_text taken"
    "\<And>m. sg_minimum_source_units e = Some m \<Longrightarrow> text_value m \<le> text_value taken"
    "\<And>m. sg_maximum_source_units_per_request e = Some m \<Longrightarrow> text_value taken \<le> text_value m"
    and period: "\<And>m. sg_maximum_source_units_per_period e = Some m \<Longrightarrow>
       \<exists>used. om_get (sq_period_source_used_by_rule req) (sg_rule_id e) = Some used \<and>
         dadd rt (text_value used) (text_value taken) \<le> text_value m"
    and cv: "transfer_conversion rt (transfer_spec e) limits (text_value taken) = Inr arrived"
      "lm_ratio_source limits = text_value (sg_source_units e)" "0 < lm_ratio_source limits"
      "lm_ratio_destination limits = text_value (sg_destination_units e)"
    by (rule applied_numbers [OF tr]) (rule that)
  note rounding = decimal_text.axioms(1) [OF dt]
  have exact: "0 < text_value taken \<and> text_value taken + text_value (sg_fee_source_units e) \<le> text_value on_hand \<and>
      (\<forall>i. sg_increment_source_units e = Some i \<longrightarrow>
         (\<exists>k :: int. text_value taken = (case sg_minimum_source_units e of None \<Rightarrow> 0 | Some m \<Rightarrow> text_value m) + of_int k * text_value i)) \<and>
      (\<forall>m used. sg_maximum_source_units_per_period e = Some m \<longrightarrow>
         om_get (sq_period_source_used_by_rule req) (sg_rule_id e) = Some used \<longrightarrow>
         text_value used + text_value taken \<le> text_value m) \<and>
      text_value arrived * 10 ^ nat (ar_scale (sg_destination_asset e)) =
        of_int \<lfloor>text_value taken * text_value (sg_destination_units e) / text_value (sg_source_units e) *
          10 ^ nat (ar_scale (sg_destination_asset e))\<rfloor>"
    if plain: "list_all plain_amount (hop_texts req e on_hand)"
  proof -
    have parts: "plain_amount on_hand" "plain_amount (sg_source_units e)" "plain_amount (sg_destination_units e)"
      "list_all plain_amount (edge_amounts e)"
      "\<And>used. om_get (sq_period_source_used_by_rule req) (sg_rule_id e) = Some used \<Longrightarrow> plain_amount used"
      using plain by (auto simp: hop_texts_def)
    then have sp: "list_all spendable (on_hand # edge_amounts e)" by (auto simp: list_all_iff intro: plain_spendable)
    note taken = aligned_spends [OF dt sp run]
    have fee: "0 \<le> text_value (sg_fee_source_units e)" by (rule text_value_nonneg)
    obtain h where h: "text_value on_hand = of_nat h / 10 ^ 18" "h < 10 ^ 36" using parts(1) by (auto simp: plain_amount_def)
    obtain w where w: "text_value taken = of_nat w / 10 ^ 18" "w < 10 ^ 36"
    proof (rule aligned_units [OF dt sp run])
      fix v l w
      assume t: "taken = canonical_decimal rt (of_units w)" and "0 < w" "v \<le> w" "w \<le> l" "0 \<le> v" "l < 10 ^ 100"
      then have "\<bar>w\<bar> < 10 ^ 119" "0 \<le> of_units w" using small_enough [of l] by simp_all
      note small = this
      note r = decimal_rounding.round_units [OF rounding small(1)]
      have v: "text_value taken = of_units w"
        unfolding t by (rule decimal_text.canonical_of_rounded(2) [OF dt small(2), unfolded r])
      have "text_value taken + text_value (sg_fee_source_units e) \<le> text_value on_hand" using taken by blast
      with fee have "text_value taken \<le> text_value on_hand" by linarith
      then have "of_units w \<le> of_units (int h)" by (simp only: v h(1) of_int_of_nat_eq)
      then have "w \<le> int h" by (simp only: of_units_le)
      with h(2) have "nat w < 10 ^ 36" by linarith
      with v \<open>0 < w\<close> show thesis by (intro that [of "nat w"]) simp_all
    qed
    obtain b where b: "text_value (sg_destination_units e) = of_nat b / 10 ^ 18" "b < 10 ^ 36"
      using parts(3) by (auto simp: plain_amount_def)
    obtain c where c: "text_value (sg_source_units e) = of_nat c / 10 ^ 18" using parts(2) by (auto simp: plain_amount_def)
    have "0 < c" using cv(2,3) c by (simp add: zero_less_divide_iff)
    have "w * b \<le> 10 ^ 36 * 10 ^ 36" using w(2) b(2) by (intro mult_le_mono) simp_all
    then have "w * b * 10 ^ (18 + 18) \<le> 10 ^ 36 * 10 ^ 36 * 10 ^ (18 + 18)" by (rule mult_le_mono1)
    also have "\<dots> < (10 :: nat) ^ 119" by simp
    finally have small: "int (w * b * 10 ^ (18 + 18)) < 10 ^ 119" by (metis of_nat_less_iff of_nat_power of_nat_numeral)
    have floor: "ro_reward_rounding_mode (ts_rounding (transfer_spec e)) = RM_floor" by (simp add: transfer_spec_def)
    have asset: "ts_destination_asset (transfer_spec e) = sg_destination_asset e" by (simp add: transfer_spec_def)
    have arrived: "text_value arrived * 10 ^ nat (ar_scale (sg_destination_asset e)) =
        of_int \<lfloor>text_value taken * text_value (sg_destination_units e) / text_value (sg_source_units e) *
          10 ^ nat (ar_scale (sg_destination_asset e))\<rfloor>"
      by (rule decimal_text.transfer_conversion_floor
          [OF dt cv(1) floor w(1) trans [OF cv(4) b(1)] trans [OF cv(2) c] \<open>0 < c\<close> small, unfolded cv(2,4) asset])
    have periods: "text_value used + text_value taken \<le> text_value m"
      if m: "sg_maximum_source_units_per_period e = Some m" "om_get (sq_period_source_used_by_rule req) (sg_rule_id e) = Some used"
      for m used
      using period [OF m(1)] plain_sum [OF rounding parts(5) [OF m(2)] w] m(2) by simp
    have grid: "\<exists>k :: int. text_value taken = (case sg_minimum_source_units e of None \<Rightarrow> 0 | Some m \<Rightarrow> text_value m) + of_int k * text_value i"
      if "sg_increment_source_units e = Some i" for i
      using taken by (simp add: that origin_of_def)
    show ?thesis using taken arrived periods grid by blast
  qed
  show ?thesis unfolding hop_amounts_def using n period exact by blast
qed

lemma carried_out_hop:
  assumes dt: "decimal_text rt" and s: "carried_out req b s" and "(s, n) \<in> hop_rel rt req (active_edges rt req)"
  shows "carried_out req b n"
proof -
  from assms(3) obtain e where e: "e \<in> set (sq_edges req)" "edge_problem req e = None" "hop rt req s e = Inr (HO_next n)"
    and room: "length (se_steps s) < nat (sq_max_steps req)"
    by (auto simp: hop_rel_def active_edges_set)
  have active: "\<forall>t. sg_valid_from e = Some t \<longrightarrow> str_cmp t (take 10 (sq_effective_at req)) \<le> 0"
    "\<forall>t. sg_valid_to e = Some t \<longrightarrow> 0 \<le> str_cmp t (take 10 (sq_effective_at req))"
    "sg_required_conditions_ja e = [] \<or> sg_rule_id e \<in> set (sq_confirmed_rule_ids req)"
    using e(2) by (auto simp: edge_problem_def active_at_def split: if_splits option.splits)
  show ?thesis
  proof (rule hop_legal [OF e(3)])
    fix amount arrived residual
    assume n: "n = next_state e s amount arrived residual"
      and src: "ar_asset_id (sg_source_asset e) = ar_asset_id (se_asset s)"
      and new: "ar_asset_id (sg_destination_asset e) \<notin> set (se_visited s)"
      and run: "aligned_amount rt e (se_amount s) = Inr (Some amount)"
        "\<exists>t. evaluate_transfer rt (transfer_spec e) (hop_input req e s amount) = Inr t \<and> tc_status t = TS_applied \<and>
          tc_destination_amount t = Some arrived"
    let ?a = "ar_asset_id (sb_asset b)"
    have amounts: "hop_amounts req e (se_amount s) amount arrived" using run applied_amounts [OF dt run(1)] by blast
    have visited: "se_visited s = ?a # map rs_destination_asset_id (se_steps s)"
      and wend: "walk_end ?a (sb_amount b) (se_steps s) = (ar_asset_id (se_asset s), se_amount s)"
      using s by (simp_all add: carried_out_def)
    have lastv: "last (se_visited s) = ar_asset_id (se_asset s)"
      using walk_end_asset [of ?a "sb_amount b" "se_steps s"] by (simp only: visited wend fst_conv)
    have "legal_hop req (se_visited s) (se_amount s) (step_of e amount arrived)"
      unfolding legal_hop_def using e(1) active src new amounts lastv by (intro bexI [of _ e]) simp_all
    then have "legal_walk req [?a] (sb_amount b) (se_steps s @ [step_of e amount arrived])"
      using s by (simp only: legal_walk_snoc [where a = ?a] wend snd_conv) (simp add: carried_out_def visited)
    with s new room show ?thesis
      unfolding n carried_out_def next_state_def by (auto simp: walk_end_snoc)
  qed
qed

lemma carried_out_reached:
  "decimal_text rt \<Longrightarrow> (start_state b, n) \<in> (hop_rel rt req (active_edges rt req))\<^sup>+ \<Longrightarrow> carried_out req b n"
  by (rotate_tac, induction rule: trancl_induct) (auto intro: carried_out_hop carried_out_start)

text \<open>C10. Every route reported can be carried out as it stands.  It starts with the whole of one of the
  balances.  Each hop is an edge of the request in force at its date, its conditions confirmed, from the
  asset reached to one not yet visited; the amount it takes is at least the minimum and at most the
  maximum of one request, and where the edge has a maximum for the period the usage of that rule is
  known.  On amounts of at most 18 integer and 18 fraction digits the amount taken is positive, with the
  fee it is at most what is on hand, it lies on the increment, with the usage it stays within the
  maximum for the period, and what arrives is its conversion at the ratio, rounded down to the
  smallest unit.  No asset is visited twice, the number of hops is within the limit, and what arrives at
  the end is the reported amount of the target.\<close>

theorem routes_can_be_carried_out:
  assumes "decimal_text (sh_runtime h)" "optimize_point_spend h req = Inr r" "x \<in> set (so_routes r)"
  shows "\<exists>b\<in>set (sq_balances req). rte_source_asset x = sb_asset b \<and> rte_source_amount x = sb_amount b \<and>
    rte_steps x \<noteq> [] \<and> legal_walk req [ar_asset_id (sb_asset b)] (sb_amount b) (rte_steps x) \<and>
    walk_end (ar_asset_id (sb_asset b)) (sb_amount b) (rte_steps x) = (sq_target_asset_id req, rte_target_amount x) \<and>
    distinct (ar_asset_id (sb_asset b) # map rs_destination_asset_id (rte_steps x)) \<and>
    length (rte_steps x) \<le> nat (sq_max_steps req)"
proof -
  from assms obtain b n where b: "b \<in> set (sq_balances req)"
    and n: "carried_out req b n" "at_target req n" "route_from h n = Inr x"
    and walked: "(start_state b, n) \<in> (hop_rel (sh_runtime h) req (active_edges (sh_runtime h) req))\<^sup>+"
    unfolding optimized(2) [OF assms(2)] by (auto simp: found_from_def dest: carried_out_reached)
  from walked have "se_steps n \<noteq> []"
    by (cases rule: tranclE) (auto simp: hop_rel_def dest: hop_next_steps)
  moreover from n(3) obtain i where "x = (route_projection n)\<lparr>rte_route_id := i\<rparr>" by (auto simp: route_from_def Let_def res_simps)
  ultimately show ?thesis using n(1,2) b
    by (intro bexI [of _ b]) (auto simp: carried_out_def route_projection_def at_target_def)
qed

section \<open>The winner\<close>

lemma compare_routes_criteria:
  "compare_routes rt g =
     cmp_then (criterion (g = SO_fastest) (cmp_key days_of))
     (cmp_then (criterion (g = SO_preserve_expiring) (cmp_on (text_value \<circ> rte_expiry_preserved_amount) (\<lambda>x y. rat_cmp y x)))
     (cmp_then (cmp_on (text_value \<circ> rte_target_amount) (\<lambda>x y. rat_cmp y x))
     (cmp_then (cmp_key days_of)
     (cmp_then (cmp_key (int \<circ> rte_irreversible_step_count))
       (cmp_on rte_route_id (rt_locale_compare rt))))))"
  by (auto simp: fun_eq_iff compare_routes_def cmp_then_def criterion_def cmp_key_def cmp_on_def Let_def)

lemma routes_comparator: "collation rt \<Longrightarrow> comparator (compare_routes rt g)"
  by (simp add: compare_routes_criteria comparator_then comparator_on comparator_criterion comparator_key
      comparator_rat_desc collation.locale_comparator)

lemma rat_cmp_desc: "rat_cmp y x = 0 \<longleftrightarrow> x = y" "rat_cmp y x \<le> 0 \<longleftrightarrow> y \<le> x" "rat_cmp y x < 0 \<longleftrightarrow> y < x"
  by (auto simp: rat_cmp_def)

text \<open>C40. The winner is the best route by the objective: no route brings more of the target than the
  winner under the objective of the largest amount, none is certainly faster under the fastest one, and
  none saves more of an expiring balance under the one that preserves it; among routes as fast, or
  that save as much, none brings more.  There is a winner exactly when there is a route.\<close>

theorem winner_is_the_best_route:
  assumes "collation (sh_runtime h)" "optimize_point_spend h req = Inr r"
  shows "(so_winner r = None \<longleftrightarrow> so_routes r = []) \<and>
    (\<forall>w x. so_winner r = Some w \<longrightarrow> x \<in> set (so_routes r) \<longrightarrow> w \<in> set (so_routes r) \<and>
      (case sq_objective req of
         SO_maximize_target \<Rightarrow> text_value (rte_target_amount x) \<le> text_value (rte_target_amount w)
       | SO_fastest \<Rightarrow> days_of w \<le> days_of x \<and>
           (days_of x = days_of w \<longrightarrow> text_value (rte_target_amount x) \<le> text_value (rte_target_amount w))
       | SO_preserve_expiring \<Rightarrow>
           text_value (rte_expiry_preserved_amount x) \<le> text_value (rte_expiry_preserved_amount w) \<and>
           (text_value (rte_expiry_preserved_amount x) = text_value (rte_expiry_preserved_amount w) \<longrightarrow>
             text_value (rte_target_amount x) \<le> text_value (rte_target_amount w))))"
proof (intro conjI allI impI)
  let ?cmp = "compare_routes (sh_runtime h) (sq_objective req)"
  show "so_winner r = None \<longleftrightarrow> so_routes r = []" by (simp add: optimized(4) [OF assms(2)] split: list.split)
  fix w x assume w: "so_winner r = Some w" and x: "x \<in> set (so_routes r)"
  obtain rs where rs: "so_routes r = sort_cmp ?cmp rs" using optimized(3) [OF assms(2)] by blast
  have hd: "so_routes r \<noteq> []" "w = hd (so_routes r)"
    using w by (auto simp: optimized(4) [OF assms(2)] split: list.splits)
  then show "w \<in> set (so_routes r)" by simp
  have "x \<in> set rs" using x rs by simp
  from comparator.hd_sort_cmp_least [OF routes_comparator [OF assms(1), of "sq_objective req"] this]
  have "?cmp w x \<le> 0" using hd(2) rs by simp
  then show "case sq_objective req of
         SO_maximize_target \<Rightarrow> text_value (rte_target_amount x) \<le> text_value (rte_target_amount w)
       | SO_fastest \<Rightarrow> days_of w \<le> days_of x \<and>
           (days_of x = days_of w \<longrightarrow> text_value (rte_target_amount x) \<le> text_value (rte_target_amount w))
       | SO_preserve_expiring \<Rightarrow>
           text_value (rte_expiry_preserved_amount x) \<le> text_value (rte_expiry_preserved_amount w) \<and>
           (text_value (rte_expiry_preserved_amount x) = text_value (rte_expiry_preserved_amount w) \<longrightarrow>
             text_value (rte_target_amount x) \<le> text_value (rte_target_amount w))"
    by (cases "sq_objective req") (auto simp: compare_routes_def Let_def rat_cmp_desc split: if_splits)
qed

end
