(* ===== verification/Point_Spend_Sample.thy ===== *)
theory Point_Spend_Sample
  imports Point_Spend_Laws Point_Spend_Amounts
begin

definition spend_sample_host :: spend_host where
  "spend_sample_host = \<lparr>sh_runtime = ref_rt, sh_number_text = (\<lambda>q. int_text \<lfloor>q\<rfloor>), sh_sha = (\<lambda>t. take 4 t)\<rparr>"

definition spend_asset :: "string \<Rightarrow> asset_ref" where
  "spend_asset i = \<lparr>ar_asset_id = ''asset.'' @ i, ar_asset_kind = AK_reward_point, ar_program_id = None,
     ar_reward_class = None, ar_scale = 0\<rparr>"

definition miles_edge :: spend_edge where
  "miles_edge = \<lparr>sg_rule_id = ''pt-mi'', sg_label_ja = ''pt to mi'', sg_source_claim_ids = [''claim''],
     sg_source_asset = spend_asset ''pt'', sg_destination_asset = spend_asset ''mi'', sg_source_units = ''4'',
     sg_destination_units = ''3'', sg_minimum_source_units = None, sg_increment_source_units = Some ''4'',
     sg_maximum_source_units_per_request = None, sg_maximum_source_units_per_period = None, sg_maximum_period = None,
     sg_fee_source_units = ''0'', sg_processing_time_days_min = Some 1, sg_processing_time_days_max = Some 2,
     sg_cancellation_policy = CN_not_cancelable, sg_valid_from = None, sg_valid_to = None,
     sg_required_conditions_ja = []\<rparr>"

definition miles_request :: spend_request where
  "miles_request = \<lparr>sq_effective_at = ''2025-01-01T00:00:00Z'', sq_objective = SO_maximize_target,
     sq_target_asset_id = ''asset.mi'', sq_balances = [\<lparr>sb_asset = spend_asset ''pt'', sb_amount = ''9'', sb_expires_at = None\<rparr>],
     sq_edges = [miles_edge], sq_confirmed_rule_ids = [], sq_period_source_used_by_rule = [], sq_max_steps = 2\<rparr>"


lemma miles_numbers: "is_decimal_text ''9''" "text_value ''9'' = 9" "is_decimal_text ''4''" "text_value ''4'' = 4"
  "is_decimal_text ''0''" "text_value ''0'' = 0" "is_decimal_text ''3''" "text_value ''3'' = 3"
  by code_simp+

lemma miles_request_ok: "assert_request ref_rt miles_request = Inr ()"
proof -
  have "valid_date_time ref_rt ''2025-01-01T00:00:00Z''" by code_simp
  moreover have "spend_rule_id_ok ''pt-mi''" "asset_id_ok ''asset.pt''" "asset_id_ok ''asset.mi''" by code_simp+
  ultimately show ?thesis
    by (simp add: assert_request_def assert_balance_def assert_edge_def edge_shape_ok_def assert_asset_def optional_decimal_def
        decimal_string_def miles_request_def miles_edge_def spend_asset_def miles_numbers)
qed

lemma miles_active: "active_edges ref_rt miles_request = [miles_edge]"
  by (simp add: active_edges_def edge_problem_def active_at_def miles_request_def miles_edge_def)

lemma miles_aligned: "aligned_amount ref_rt miles_edge ''9'' = Inr (Some (canonical_decimal ref_rt 8))"
proof -
  have "\<lfloor>rt_round ref_rt (9 / 4)\<rfloor> = 2" using ref.floor_round_shift [of "9 / 4" 0 9 4] by simp
  then show ?thesis
    by (simp add: aligned_amount_def decimal_string_def miles_edge_def miles_numbers optional_limit_def align_down_def
        dsub_def ddiv_def dmul_def dadd_def)
qed

lemma eight: "is_decimal_text (canonical_decimal ref_rt 8)" "text_value (canonical_decimal ref_rt 8) = 8"
  using decimal_text.canonical_of_rounded [OF ref.decimal_text_axioms, of 8] by simp_all


section \<open>The one hop\<close>

definition eight_points :: string where
  "eight_points = canonical_decimal ref_rt 8"

lemma eight_simps: "is_decimal_text eight_points" "text_value eight_points = 8"
  "aligned_amount ref_rt miles_edge ''9'' = Inr (Some eight_points)"
  using eight miles_aligned by (simp_all add: eight_points_def)

definition points_balance :: spend_balance where
  "points_balance = \<lparr>sb_asset = spend_asset ''pt'', sb_amount = ''9'', sb_expires_at = None\<rparr>"

lemma edge_simps: "sg_source_asset miles_edge = spend_asset ''pt''" "sg_destination_asset miles_edge = spend_asset ''mi''"
  "sg_maximum_source_units_per_period miles_edge = None" "ar_asset_id (spend_asset i) = ''asset.'' @ i"
  "ar_scale (spend_asset i) = 0"
  by (simp_all add: miles_edge_def spend_asset_def)

lemma spec_simps: "ts_source_asset (transfer_spec miles_edge) = spend_asset ''pt''" "ts_fee (transfer_spec miles_edge) = None"
  "ts_destination_asset (transfer_spec miles_edge) = spend_asset ''mi''"
  "ro_reward_rounding_mode (ts_rounding (transfer_spec miles_edge)) = RM_floor"
  by (simp_all add: transfer_spec_def miles_edge_def)

lemma miles_limits: "transfer_constraints (transfer_spec miles_edge) = Inr \<lparr>lm_minimum = None, lm_increment = Some 4,
    lm_request_maximum = None, lm_period_maximum = None, lm_ratio_source = 4, lm_ratio_destination = 3\<rparr>"
  by (simp add: transfer_constraints_def transfer_spec_def miles_edge_def parse_optional_text_def parse_optional_input_def
      miles_numbers)

lemma miles_conversion:
  "\<exists>a. transfer_conversion ref_rt (transfer_spec miles_edge) \<lparr>lm_minimum = None, lm_increment = Some 4,
    lm_request_maximum = None, lm_period_maximum = None, lm_ratio_source = 4, lm_ratio_destination = 3\<rparr> 8 = Inr a"
  using ref.amount_from_units_eq [of 6 0]
  by (simp add: transfer_conversion_def spec_simps edge_simps dmul_def ddiv_def power10_def decimal_to_bigint_def dec_limit_def)

lemma miles_transfer:
  "\<exists>t a. evaluate_transfer ref_rt (transfer_spec miles_edge) (hop_input miles_request miles_edge (start_state points_balance) eight_points) =
     Inr t \<and> tc_status t = TS_applied \<and> tc_destination_amount t = Some a"
proof -
  obtain a where a: "transfer_conversion ref_rt (transfer_spec miles_edge) \<lparr>lm_minimum = None, lm_increment = Some 4,
    lm_request_maximum = None, lm_period_maximum = None, lm_ratio_source = 4, lm_ratio_destination = 3\<rparr> 8 = Inr a"
    using miles_conversion by blast
  have "transfer_source (hop_input miles_request miles_edge (start_state points_balance) eight_points) = Some 8"
    by (simp add: transfer_source_def hop_input_def eight_simps)
  then show ?thesis
    by (simp add: evaluate_transfer_def miles_limits a Let_def transfer_cycle_iff spec_simps edge_simps hop_input_def
        start_state_def points_balance_def request_failure_def steps_integral_def dsub_def ddiv_def period_failure_def
        cancellation_for_def)
qed

lemma miles_hop:
  "\<exists>amount arrived residual. hop ref_rt miles_request (start_state points_balance) miles_edge =
     Inr (HO_next (next_state miles_edge (start_state points_balance) amount arrived residual))"
proof -
  obtain t a where t: "evaluate_transfer ref_rt (transfer_spec miles_edge)
      (hop_input miles_request miles_edge (start_state points_balance) eight_points) = Inr t"
    "tc_status t = TS_applied" "tc_destination_amount t = Some a" using miles_transfer by blast
  have s: "se_amount (start_state points_balance) = ''9''" "ar_asset_id (se_asset (start_state points_balance)) = ''asset.pt''"
    "se_visited (start_state points_balance) = [''asset.pt'']"
    by (simp_all add: start_state_def points_balance_def edge_simps)
  show ?thesis by (simp add: hop_def s edge_simps eight_simps t residual_after_def decimal_string_def miles_numbers) blast
qed

section \<open>The whole search\<close>

lemma miles_found: "\<exists>r x. optimize_point_spend spend_sample_host miles_request = Inr r \<and> so_routes r = [x]"
proof -
  obtain amount arrived residual where n: "hop ref_rt miles_request (start_state points_balance) miles_edge =
     Inr (HO_next (next_state miles_edge (start_state points_balance) amount arrived residual))" using miles_hop by blast
  let ?n = "next_state miles_edge (start_state points_balance) amount arrived residual"
  have at: "ar_asset_id (se_asset ?n) = ''asset.mi''" by (simp add: next_state_def edge_simps)
  obtain x where x: "route_from spend_sample_host ?n = Inr x" using route_from_total by blast
  have rt: "sh_runtime spend_sample_host = ref_rt" by (simp add: spend_sample_host_def)
  have stuck: "hop ref_rt miles_request ?n miles_edge = Inr HO_elsewhere" by (simp add: hop_def at edge_simps)
  have target: "sq_target_asset_id miles_request = ''asset.mi''" "sq_max_steps miles_request = 2"
    "sq_balances miles_request = [points_balance]"
    by (simp_all add: miles_request_def points_balance_def)
  have steps: "length (se_steps (start_state points_balance)) = 0" "length (se_steps ?n) = 1"
    by (simp_all add: start_state_def next_state_def)
  have first: "expand spend_sample_host miles_request (start_state points_balance) [miles_edge] lg =
      Inr ([?n], lg\<lparr>sl_routes := sl_routes lg @ [x]\<rparr>)" for lg
    by (simp add: rt n at target x)
  have second: "expand spend_sample_host miles_request ?n [miles_edge] lg = Inr ([], lg)" for lg
    by (simp add: rt stuck)
  have search: "search_balances spend_sample_host miles_request [miles_edge] [points_balance] lg =
      Inr (lg\<lparr>sl_routes := sl_routes lg @ [x]\<rparr>)" for lg
    by (simp add: search_routes.simps(2) first second steps target points_balance_def [THEN arg_cong [of _ _ sb_amount]]
        decimal_string_def miles_numbers del: expand.simps)
  obtain r where r: "spend_result_of spend_sample_host miles_request
      \<lparr>sl_skipped = skipped_edges miles_request, sl_routes = [x]\<rparr> = Inr r" using spend_result_total by blast
  then have "so_routes r = [x]" by (auto simp: spend_result_of_def Let_def res_simps)
  moreover have "optimize_point_spend spend_sample_host miles_request = Inr r"
    using r by (simp add: optimize_point_spend_def rt miles_request_ok miles_active target search del: search_balances.simps)
  ultimately show ?thesis by blast
qed

text \<open>The search on the sample reaches its one route by a hop of the graph, walks it, and names it the winner.\<close>

theorem route_search_is_exact_witness:
  "\<exists>r. optimize_point_spend spend_sample_host miles_request = Inr r \<and> so_routes r \<noteq> [] \<and>
     (\<exists>b\<in>set (sq_balances miles_request). \<exists>n.
       (start_state b, n) \<in> (hop_rel (sh_runtime spend_sample_host) miles_request
          (active_edges (sh_runtime spend_sample_host) miles_request))\<^sup>+ \<and> at_target miles_request n)"
proof -
  obtain r x where r: "optimize_point_spend spend_sample_host miles_request = Inr r" "so_routes r = [x]" using miles_found by blast
  from route_search_is_exact [OF r(1)] have "x \<in> {x. \<exists>b\<in>set (sq_balances miles_request). \<exists>n.
    (start_state b, n) \<in> (hop_rel (sh_runtime spend_sample_host) miles_request
       (active_edges (sh_runtime spend_sample_host) miles_request))\<^sup>+ \<and>
    at_target miles_request n \<and> route_from spend_sample_host n = Inr x}" using r(2) by (metis list.set_intros(1))
  with r show ?thesis by auto
qed

lemma plain_whole: "is_decimal_text t \<Longrightarrow> text_value t = of_nat n \<Longrightarrow> n < 10 ^ 18 \<Longrightarrow> plain_amount t"
  unfolding plain_amount_def by (intro conjI exI [of _ "n * 10 ^ 18"]) simp_all

lemma miles_plain: "list_all plain_amount (hop_texts miles_request miles_edge ''9'')"
proof -
  have "plain_amount ''9''" "plain_amount ''4''" "plain_amount ''3''" "plain_amount ''0''"
    by (rule plain_whole [of _ 9] plain_whole [of _ 4] plain_whole [of _ 3] plain_whole [of _ 0]; simp add: miles_numbers)+
  then show ?thesis by (simp add: hop_texts_def edge_amounts_def miles_edge_def miles_request_def)
qed

text \<open>The sample's route takes at most the nine points held, and three miles arrive for every four.\<close>

theorem routes_can_be_carried_out_witness:
  "\<exists>r x st sts. optimize_point_spend spend_sample_host miles_request = Inr r \<and> so_routes r = [x] \<and>
     rte_steps x = st # sts \<and> length sts \<le> 1 \<and> rs_source_asset_id st = ''asset.pt'' \<and>
     0 < text_value (rs_source_amount st) \<and> text_value (rs_source_amount st) \<le> 9 \<and>
     text_value (rs_destination_amount st) = of_int \<lfloor>text_value (rs_source_amount st) * 3 / 4\<rfloor>"
proof -
  obtain r x where r: "optimize_point_spend spend_sample_host miles_request = Inr r" "so_routes r = [x]" using miles_found by blast
  have dt: "decimal_text (sh_runtime spend_sample_host)" using ref.decimal_text_axioms by (simp add: spend_sample_host_def)
  have q: "sq_balances miles_request = [points_balance]" "sq_edges miles_request = [miles_edge]" "sq_max_steps miles_request = 2"
    by (simp_all add: miles_request_def points_balance_def)
  have b: "ar_asset_id (sb_asset points_balance) = ''asset.pt''" "sb_amount points_balance = ''9''"
    by (simp_all add: points_balance_def edge_simps)
  from routes_can_be_carried_out [OF dt r(1), of x]
  have x: "rte_steps x \<noteq> []" "legal_walk miles_request [''asset.pt''] ''9'' (rte_steps x)" "length (rte_steps x) \<le> 2"
    using r(2) by (simp_all add: q b)
  obtain st sts where st: "rte_steps x = st # sts" using x(1) by (cases "rte_steps x") auto
  with x(2) have "legal_hop miles_request [''asset.pt''] ''9'' st" by simp
  then have hop: "rs_source_asset_id st = ''asset.pt''"
    "hop_amounts miles_request miles_edge ''9'' (rs_source_amount st) (rs_destination_amount st)"
    by (simp_all add: legal_hop_def q)
  have e: "sg_fee_source_units miles_edge = ''0''" "sg_source_units miles_edge = ''4''" "sg_destination_units miles_edge = ''3''"
    by (simp_all add: miles_edge_def)
  from hop(2) miles_plain have "0 < text_value (rs_source_amount st)" "text_value (rs_source_amount st) \<le> 9"
    "text_value (rs_destination_amount st) = of_int \<lfloor>text_value (rs_source_amount st) * 3 / 4\<rfloor>"
    by (simp_all add: hop_amounts_def e miles_numbers edge_simps)
  with r st hop(1) x(3) show ?thesis by auto
qed

theorem winner_is_the_best_route_witness:
  "\<exists>r w. optimize_point_spend spend_sample_host miles_request = Inr r \<and> so_winner r = Some w \<and> w \<in> set (so_routes r)"
proof -
  obtain r x where r: "optimize_point_spend spend_sample_host miles_request = Inr r" "so_routes r = [x]" using miles_found by blast
  have "collation (sh_runtime spend_sample_host)" using ref.collation_axioms by (simp add: spend_sample_host_def)
  note best = winner_is_the_best_route [OF this r(1)]
  have "so_winner r \<noteq> None" using conjunct1 [OF best] r(2) by simp
  then obtain w where w: "so_winner r = Some w" by blast
  moreover have "w \<in> set (so_routes r)" using conjunct2 [OF best, rule_format, OF w, of x] r(2) by simp
  ultimately show ?thesis using r(1) by blast
qed

lemma spendable_whole:
  assumes "is_decimal_text t" "text_value t = of_int n" "0 \<le> n" "n < 10 ^ 18"
  shows "spendable t"
proof -
  have "text_value t = of_int (n * 10 ^ 18) / 10 ^ 18" using assms(2) by simp
  moreover have "n * 10 ^ 18 < 10 ^ 100" using assms(4) by simp
  ultimately show ?thesis using assms(1,3) unfolding spendable_def by (intro conjI exI [of _ "n * 10 ^ 18"]) simp_all
qed

theorem hop_spends_what_is_held_witness:
  "aligned_amount ref_rt miles_edge ''9'' = Inr (Some eight_points) \<and> text_value eight_points \<le> 9 \<and> 9 < text_value eight_points + 4"
proof -
  have "spendable ''9''" "spendable ''4''" "spendable ''0''"
    by (rule spendable_whole [of _ 9] spendable_whole [of _ 4] spendable_whole [of _ 0]; simp add: miles_numbers)+
  then have "list_all spendable (''9'' # edge_amounts miles_edge)" by (simp add: edge_amounts_def miles_edge_def)
  from hop_spends_what_is_held [OF ref.decimal_text_axioms this eight_simps(3)] eight_simps show ?thesis
    by (simp add: request_limit_def miles_edge_def miles_numbers)
qed

end
