(* ===== verification/Payment_Stack.thy ===== *)
theory Payment_Stack
  imports Stacking Valuation Input_Guard
begin

text \<open>
  The ways one purchase can be paid for
  (\<open>packages/rule-engine/src/payment-stack-synthesizer.ts\<close>): combinations of a funding, a charge, a
  payment and a loyalty layer with some bonuses, each priced through the stacking resolver and ranked
  by its declared value in yen.

  The request is the typed document, as in the search for transfer routes.  SHA-256, the text of a
  number and \<open>Array.prototype.sort\<close> are arguments: the comparison of plans is no order on all plans, so
  what the sort returns is not determined by the language there.
\<close>

section \<open>The documents\<close>

datatype payment_layer = PY_funding | PY_charge | PY_payment | PY_loyalty | PY_bonus

datatype layer_rounding = LR_floor | LR_ceil | LR_half_up

record layer_option =
  lo_option_id :: string
  lo_layer :: payment_layer
  lo_label_ja :: string
  lo_reward_asset :: asset_ref
  lo_reward_units_per_basis :: string
  lo_basis_unit_jpy :: int
  lo_reward_rounding :: layer_rounding
  lo_cap_reward_units_per_period :: "string option"
  lo_cap_reward_units_used :: "string option"
  lo_requires_option_ids :: "string list"
  lo_conflicts_with_option_ids :: "string list"
  lo_merchant_ids :: "string list"
  lo_stack_group :: string
  lo_stacking_mode :: stacking_mode
  lo_valid_from :: "string option"
  lo_valid_to :: "string option"
  lo_required_conditions_ja :: "string list"
  lo_source_claim_ids :: "string list"

record stack_request =
  kq_effective_at :: string
  kq_merchant_id :: string
  kq_amount_jpy :: int
  kq_options :: "layer_option list"
  kq_confirmed_option_ids :: "string list"
  kq_max_bonus_options :: int
  kq_valuation :: valuation_profile

record layer_contribution =
  co_option_id :: string
  co_layer :: payment_layer
  co_label_ja :: string
  co_reward_asset_id :: string
  co_reward_reward_class :: "reward_class option"
  co_reward_units :: string
  co_uncapped_reward_units :: string
  co_cap_limited :: bool
  co_rate_percent :: "string option"
  co_value :: "jpy_valuation option"
  co_source_claim_ids :: "string list"

record stack_plan =
  kp_plan_id :: string
  kp_option_ids :: "string list"
  kp_layers :: "layer_contribution list"
  kp_rejected_option_ids :: "string list"
  kp_total_value_jpy :: "string option"
  kp_total_rate_percent :: "string option"
  kp_valued :: bool
  kp_native_reward_units :: "string option"
  kp_native_reward_asset_id :: "string option"
  kp_channel_count :: nat
  kp_required_conditions_ja :: "string list"

record stack_result =
  kr_merchant_id :: string
  kr_amount_jpy :: int
  kr_valuation_profile_hash :: string
  kr_winner :: "stack_plan option"
  kr_plans :: "stack_plan list"
  kr_skipped :: "(string \<times> string) list"
  kr_truncated :: bool
  kr_result_hash :: string

record stack_host =
  kh_runtime :: runtime
  kh_number_text :: "rat \<Rightarrow> string"
  kh_sha :: "string \<Rightarrow> string"
  kh_sort :: "(stack_plan \<Rightarrow> stack_plan \<Rightarrow> int) \<Rightarrow> stack_plan list \<Rightarrow> stack_plan list"

definition max_combinations :: nat where
  "max_combinations = 4096"

definition max_returned_plans :: nat where
  "max_returned_plans = 10"

definition single_select_layers :: "payment_layer list" where
  "single_select_layers = [PY_funding, PY_charge, PY_payment, PY_loyalty]"

fun layer_index :: "payment_layer \<Rightarrow> int" where
  "layer_index PY_funding = 0"
| "layer_index PY_charge = 1"
| "layer_index PY_payment = 2"
| "layer_index PY_loyalty = 3"
| "layer_index PY_bonus = 4"

section \<open>The checks at the boundary\<close>

definition assert_reward_asset :: "asset_ref \<Rightarrow> unit res" where
  "assert_reward_asset a =
     guard (asset_id_ok (ar_asset_id a) \<and> 0 \<le> ar_scale a \<and> ar_scale a \<le> 9) ''payment_stack_asset_invalid''"

definition optional_text_ok :: "string option \<Rightarrow> bool" where
  "optional_text_ok v = (case v of None \<Rightarrow> True | Some t \<Rightarrow> is_ok (decimal_string t))"

definition string_array_ok :: "string list \<Rightarrow> nat \<Rightarrow> bool" where
  "string_array_ok v limit \<longleftrightarrow> length v \<le> limit \<and> list_all (\<lambda>t. length t \<le> 160) v"

definition optional_date_ok :: "runtime \<Rightarrow> string option \<Rightarrow> bool" where
  "optional_date_ok rt v = (case v of None \<Rightarrow> True | Some t \<Rightarrow> valid_date rt t)"

definition option_shape_ok :: "runtime \<Rightarrow> layer_option \<Rightarrow> bool" where
  "option_shape_ok rt q \<longleftrightarrow>
     plain_id 119 (lo_option_id q) \<and> 1 \<le> length (lo_label_ja q) \<and> length (lo_label_ja q) \<le> 120 \<and>
     1 \<le> lo_basis_unit_jpy q \<and> lo_basis_unit_jpy q \<le> 1000000 \<and>
     optional_text_ok (lo_cap_reward_units_per_period q) \<and> optional_text_ok (lo_cap_reward_units_used q) \<and>
     string_array_ok (lo_requires_option_ids q) 8 \<and> string_array_ok (lo_conflicts_with_option_ids q) 16 \<and>
     string_array_ok (lo_merchant_ids q) 64 \<and> length (lo_stack_group q) \<le> 64 \<and>
     lo_stacking_mode q \<in> {SM_additive, SM_best_of_group, SM_replaces_group} \<and>
     optional_date_ok rt (lo_valid_from q) \<and> optional_date_ok rt (lo_valid_to q) \<and>
     string_array_ok (lo_required_conditions_ja q) 8 \<and> string_array_ok (lo_source_claim_ids q) 16 \<and>
     1 \<le> length (lo_source_claim_ids q)"

definition assert_option :: "runtime \<Rightarrow> layer_option \<Rightarrow> unit res" where
  "assert_option rt q =
     rbind (assert_reward_asset (lo_reward_asset q)) (\<lambda>_.
     rbind (guard (option_shape_ok rt q) ''payment_stack_option_invalid'') (\<lambda>_.
     rbind (decimal_string (lo_reward_units_per_basis q)) (\<lambda>_.
       guard ((lo_cap_reward_units_per_period q = None) = (lo_cap_reward_units_used q = None))
         ''payment_stack_option_cap_usage_mismatch'')))"

definition assert_stack_request :: "runtime \<Rightarrow> stack_request \<Rightarrow> unit res" where
  "assert_stack_request rt req =
     rbind (guard (valid_date_time rt (kq_effective_at req)) ''payment_stack_effective_at_invalid'') (\<lambda>_.
     rbind (guard (plain_id 119 (kq_merchant_id req)) ''payment_stack_merchant_invalid'') (\<lambda>_.
     rbind (guard (1 \<le> kq_amount_jpy req \<and> kq_amount_jpy req \<le> 10000000) ''payment_stack_amount_invalid'') (\<lambda>_.
     rbind (guard (0 \<le> kq_max_bonus_options req \<and> kq_max_bonus_options req \<le> 4) ''payment_stack_max_bonus_invalid'') (\<lambda>_.
     rbind (guard (length (kq_options req) \<le> 128) ''payment_stack_options_invalid'') (\<lambda>_.
     rbind (traverse (assert_option rt) (kq_options req)) (\<lambda>_.
     rbind (guard (distinct (map lo_option_id (kq_options req))) ''payment_stack_option_duplicate'') (\<lambda>_.
       guard (length (kq_confirmed_option_ids req) \<le> 64) ''payment_stack_confirmation_invalid'')))))))"

section \<open>What one option earns\<close>

definition active_on :: "layer_option \<Rightarrow> string \<Rightarrow> bool" where
  "active_on q date \<longleftrightarrow>
     (case lo_valid_from q of None \<Rightarrow> True | Some t \<Rightarrow> str_cmp t date \<le> 0) \<and>
     (case lo_valid_to q of None \<Rightarrow> True | Some t \<Rightarrow> 0 \<le> str_cmp t date)"

definition round_units :: "rat \<Rightarrow> layer_rounding \<Rightarrow> rat" where
  "round_units x mode = (case mode of LR_floor \<Rightarrow> of_int \<lfloor>x\<rfloor> | LR_ceil \<Rightarrow> of_int \<lceil>x\<rceil> | LR_half_up \<Rightarrow> of_int (half_up x))"

text \<open>\<open>toDecimalPlaces(3)\<close>.\<close>

definition three_places :: "rat \<Rightarrow> rat" where
  "three_places x = of_int (half_up (x * 1000)) / 1000"

definition percent_of :: "runtime \<Rightarrow> rat \<Rightarrow> int \<Rightarrow> string" where
  "percent_of rt x amount_jpy = canonical_decimal rt (three_places (dmul rt (ddiv rt x (of_int amount_jpy)) 100))"

text \<open>What is left of the cap, and whether it limits the reward.\<close>

definition capped_units :: "runtime \<Rightarrow> layer_option \<Rightarrow> rat \<Rightarrow> (rat \<times> bool) res" where
  "capped_units rt q uncapped =
     (case lo_cap_reward_units_per_period q of
        None \<Rightarrow> Inr (uncapped, False)
      | Some cap \<Rightarrow>
          rbind (decimal_string cap) (\<lambda>c.
          rmap (\<lambda>used.
              let remaining = dsub rt c used;
                  headroom = (if remaining < 0 then 0 else remaining)
              in if headroom < uncapped then (headroom, True) else (uncapped, False))
            (decimal_string (default_to ''0'' (lo_cap_reward_units_used q)))))"

definition class_text_of :: "asset_ref \<Rightarrow> string option" where
  "class_text_of a = (case ar_reward_class a of None \<Rightarrow> None
     | Some c \<Rightarrow> Some (case c of RC_normal \<Rightarrow> ''normal'' | RC_limited_period \<Rightarrow> ''limited_period''
         | RC_usage_limited \<Rightarrow> ''usage_limited'' | RC_merchant_limited \<Rightarrow> ''merchant_limited'' | RC_pending \<Rightarrow> ''pending''
         | RC_promotional \<Rightarrow> ''promotional'' | RC_other \<Rightarrow> ''other''))"

definition rate_percent_of :: "runtime \<Rightarrow> jpy_valuation option \<Rightarrow> int \<Rightarrow> string option res" where
  "rate_percent_of rt v amount_jpy =
     (case v of
        Some x \<Rightarrow> if 0 < amount_jpy then rmap (\<lambda>e. Some (percent_of rt e amount_jpy)) (decimal_string (jv_expected x)) else Inr None
      | None \<Rightarrow> Inr None)"

definition uncapped_units :: "runtime \<Rightarrow> layer_option \<Rightarrow> int \<Rightarrow> rat res" where
  "uncapped_units rt q amount_jpy =
     rmap (\<lambda>per. round_units (dmul rt (of_int \<lfloor>ddiv rt (of_int amount_jpy) (of_int (lo_basis_unit_jpy q))\<rfloor>) per) (lo_reward_rounding q))
       (decimal_string (lo_reward_units_per_basis q))"

definition contribution_for :: "runtime \<Rightarrow> int \<Rightarrow> valuation_profile \<Rightarrow> layer_option \<Rightarrow> layer_contribution res" where
  "contribution_for rt amount_jpy profile q =
     rbind (uncapped_units rt q amount_jpy) (\<lambda>uncapped.
     rbind (capped_units rt q uncapped) (\<lambda>(units, limited).
     let amount = canonical_decimal rt units; a = lo_reward_asset q
     in rbind (value_quantity rt profile (ar_asset_id a) (class_text_of a) amount) (\<lambda>v.
        rmap (\<lambda>rate. \<lparr>co_option_id = lo_option_id q, co_layer = lo_layer q, co_label_ja = lo_label_ja q,
            co_reward_asset_id = ar_asset_id a, co_reward_reward_class = ar_reward_class a, co_reward_units = amount,
            co_uncapped_reward_units = canonical_decimal rt uncapped, co_cap_limited = limited,
            co_rate_percent = rate, co_value = v, co_source_claim_ids = lo_source_claim_ids q\<rparr>)
          (rate_percent_of rt v amount_jpy))))"

section \<open>Combinations\<close>

definition add_bonus :: "nat \<Rightarrow> 'a \<Rightarrow> 'a list list \<Rightarrow> 'a list list" where
  "add_bonus limit q subsets = subsets @ map (\<lambda>s. s @ [q]) (filter (\<lambda>s. length s < limit) subsets)"

definition bonus_subsets :: "nat \<Rightarrow> 'a list \<Rightarrow> 'a list list" where
  "bonus_subsets limit options = fold (add_bonus limit) options [[]]"

fun walk :: "'a option list list \<Rightarrow> 'a list \<Rightarrow> 'a list list \<Rightarrow> 'a list list" where
  "walk [] chosen bonus = map (\<lambda>b. chosen @ b) bonus"
| "walk (choices # rest) chosen bonus =
     concat (map (\<lambda>c. walk rest (case c of None \<Rightarrow> chosen | Some q \<Rightarrow> chosen @ [q]) bonus) choices)"

text \<open>The usable options of a layer, in the order of their ids.\<close>

definition of_layer :: "runtime \<Rightarrow> layer_option list \<Rightarrow> payment_layer \<Rightarrow> layer_option list" where
  "of_layer rt usable layer = filter (\<lambda>q. lo_layer q = layer) (sort_cmp (cmp_on lo_option_id (rt_locale_compare rt)) usable)"

definition layer_combinations :: "runtime \<Rightarrow> layer_option list \<Rightarrow> nat \<Rightarrow> layer_option list list" where
  "layer_combinations rt usable max_bonus =
     walk (map (\<lambda>l. None # map Some (of_layer rt usable l)) single_select_layers) []
       (bonus_subsets max_bonus (of_layer rt usable PY_bonus))"

definition stacking_candidate_for :: "layer_option \<Rightarrow> layer_contribution \<Rightarrow> stacking_candidate" where
  "stacking_candidate_for q c =
     \<lparr>sc_rule_id = Some (lo_option_id q), sc_ruleId = None, sc_stack_group = Some (lo_stack_group q), sc_stackGroup = None,
      sc_mode = Some (lo_stacking_mode q), sc_precedence = None, sc_value = Some (DStr (co_reward_units c)),
      sc_reward_units = Some (DStr (co_reward_units c)), sc_rewardUnits = None, sc_base_reward_included = None,
      sc_baseRewardIncluded = None, sc_base_rule_id = None, sc_baseRuleId = None, sc_is_base_reward = None,
      sc_isBaseReward = None, sc_rule_type = None, sc_requires_rule_ids = Some (lo_requires_option_ids q),
      sc_requiresRuleIds = None, sc_conflicts_with_rule_ids = Some (lo_conflicts_with_option_ids q),
      sc_conflictsWithRuleIds = None, sc_eligible = Some True\<rparr>"

text \<open>A combination is viable when a charge is spent, and every prerequisite is met and no conflict
  selected.\<close>

definition viable :: "layer_option list \<Rightarrow> bool" where
  "viable combination \<longleftrightarrow>
     (PY_charge \<in> lo_layer ` set combination \<longrightarrow> PY_payment \<in> lo_layer ` set combination) \<and>
     (\<forall>q\<in>set combination. set (lo_requires_option_ids q) \<subseteq> lo_option_id ` set combination \<and>
        set (lo_conflicts_with_option_ids q) \<inter> lo_option_id ` set combination = {})"

definition note_unavailable ::
    "string list \<Rightarrow> layer_option list \<Rightarrow> (string, string) omap \<Rightarrow> (string, string) omap" where
  "note_unavailable available combination skipped =
     fold (\<lambda>q m. if \<exists>r\<in>set (lo_requires_option_ids q). r \<notin> lo_option_id ` set combination \<and> r \<notin> set available
         then om_set (lo_option_id q) ''prerequisite_unavailable'' m else m) combination skipped"

section \<open>The plan of a combination\<close>

definition layers_of :: "runtime \<Rightarrow> string list \<Rightarrow> layer_contribution list \<Rightarrow> layer_contribution list" where
  "layers_of rt applied cs =
     sort_cmp (cmp_then (cmp_key (layer_index \<circ> co_layer)) (cmp_on co_option_id (rt_locale_compare rt)))
       (concat (map (\<lambda>i. case find (\<lambda>c. co_option_id c = i) cs of None \<Rightarrow> [] | Some c \<Rightarrow> [c]) applied))"

fun add_texts :: "runtime \<Rightarrow> string list \<Rightarrow> rat \<Rightarrow> rat res" where
  "add_texts rt [] acc = Inr acc"
| "add_texts rt (t # ts) acc = rbind (decimal_string t) (\<lambda>q. add_texts rt ts (dadd rt acc q))"

text \<open>The total in yen, where every layer is priced.\<close>

definition total_value :: "runtime \<Rightarrow> layer_contribution list \<Rightarrow> rat option res" where
  "total_value rt layers =
     (if list_all (\<lambda>c. co_value c \<noteq> None) layers
      then rmap Some (add_texts rt (map (\<lambda>c. jv_expected (the (co_value c))) layers) 0) else Inr None)"

definition one_asset :: "layer_contribution list \<Rightarrow> string option" where
  "one_asset layers =
     (case unique (map co_reward_asset_id layers) of [i] \<Rightarrow> Some i | _ \<Rightarrow> None)"

definition conditions_of :: "layer_option list \<Rightarrow> string list" where
  "conditions_of combination = js_sort (unique (concat (map lo_required_conditions_ja combination)))"

definition layer_text :: "payment_layer \<Rightarrow> string" where
  "layer_text l = (case l of PY_funding \<Rightarrow> ''funding'' | PY_charge \<Rightarrow> ''charge'' | PY_payment \<Rightarrow> ''payment''
     | PY_loyalty \<Rightarrow> ''loyalty'' | PY_bonus \<Rightarrow> ''bonus'')"

definition contribution_json :: "layer_contribution \<Rightarrow> json" where
  "contribution_json c = JObj
     [(''option_id'', JStr (co_option_id c)), (''layer'', JStr (layer_text (co_layer c))), (''label_ja'', JStr (co_label_ja c)),
      (''reward_asset_id'', JStr (co_reward_asset_id c)),
      (''reward_reward_class'', class_json (class_text_of \<lparr>ar_asset_id = [], ar_asset_kind = AK_other, ar_program_id = None,
         ar_reward_class = co_reward_reward_class c, ar_scale = 0\<rparr>)),
      (''reward_units'', JStr (co_reward_units c)), (''uncapped_reward_units'', JStr (co_uncapped_reward_units c)),
      (''cap_limited'', JBool (co_cap_limited c)), (''rate_percent'', class_json (co_rate_percent c)),
      (''value'', case co_value c of None \<Rightarrow> JNull
         | Some v \<Rightarrow> JObj [(''minimum_jpy'', JStr (jv_minimum v)), (''expected_jpy'', JStr (jv_expected v)),
             (''maximum_jpy'', JStr (jv_maximum v)), (''valuation'', entry_json (jv_valuation v))]),
      (''source_claim_ids'', JArr (map JStr (co_source_claim_ids c)))]"

definition plan_fields :: "stack_plan \<Rightarrow> (string \<times> json) list" where
  "plan_fields p =
     [(''option_ids'', JArr (map JStr (kp_option_ids p))), (''layers'', JArr (map contribution_json (kp_layers p))),
      (''rejected_option_ids'', JArr (map JStr (kp_rejected_option_ids p))),
      (''total_value_jpy'', class_json (kp_total_value_jpy p)), (''total_rate_percent'', class_json (kp_total_rate_percent p)),
      (''value_status'', JStr (if kp_valued p then ''valued'' else ''unvalued'')),
      (''native_reward_units'', class_json (kp_native_reward_units p)),
      (''native_reward_asset_id'', class_json (kp_native_reward_asset_id p)),
      (''channel_count'', JNum (num (int (kp_channel_count p)))),
      (''required_conditions_ja'', JArr (map JStr (kp_required_conditions_ja p)))]"

definition plan_from ::
    "stack_host \<Rightarrow> int \<Rightarrow> layer_option list \<Rightarrow> stacking_resolution \<Rightarrow> layer_contribution list \<Rightarrow> stack_plan res" where
  "plan_from h amount_jpy combination resolution cs =
     (let rt = kh_runtime h; applied = js_sort (sr_applied_rule_ids resolution);
          layers = layers_of rt applied cs; asset = one_asset layers
      in rbind (total_value rt layers) (\<lambda>total.
         rbind (add_texts rt (map co_reward_units layers) 0) (\<lambda>native_units.
         let p = \<lparr>kp_plan_id = [], kp_option_ids = applied, kp_layers = layers,
               kp_rejected_option_ids = js_sort (sr_rejected_rule_ids resolution),
               kp_total_value_jpy = map_option (canonical_decimal rt) total,
               kp_total_rate_percent = map_option (\<lambda>t. percent_of rt t amount_jpy) total,
               kp_valued = list_all (\<lambda>c. co_value c \<noteq> None) layers,
               kp_native_reward_units = (if asset = None then None else Some (canonical_decimal rt native_units)),
               kp_native_reward_asset_id = asset, kp_channel_count = length layers,
               kp_required_conditions_ja = conditions_of combination\<rparr>
         in rmap (\<lambda>i. p\<lparr>kp_plan_id := i\<rparr>) (canonical_hash (kh_sha h) (kh_number_text h) (JObj (plan_fields p))))))"

record synthesis =
  zs_skipped :: "(string, string) omap"
  zs_seen :: "string list"
  zs_used :: "string list"
  zs_plans :: "stack_plan list"

definition resolution_of :: "runtime \<Rightarrow> layer_option list \<Rightarrow> layer_contribution list \<Rightarrow> stacking_resolution" where
  "resolution_of rt combination cs =
     resolve_stacking rt \<lparr>sn_candidates = map2 stacking_candidate_for combination cs, sn_base_reward = None, sn_baseReward = None\<rparr>"

definition price_combination ::
    "stack_host \<Rightarrow> stack_request \<Rightarrow> string list \<Rightarrow> layer_option list \<Rightarrow> synthesis \<Rightarrow> synthesis res" where
  "price_combination h req available combination z =
     (let rt = kh_runtime h
      in if combination = [] then Inr z
         else let z' = z\<lparr>zs_skipped := note_unavailable available combination (zs_skipped z)\<rparr>
         in if \<not> viable combination then Inr z'
            else rbind (traverse (contribution_for rt (kq_amount_jpy req) (kq_valuation req)) combination) (\<lambda>cs.
              let resolution = resolution_of rt combination cs;
                  applied = js_sort (sr_applied_rule_ids resolution);
                  key = join_with ''|'' applied
              in if applied = [] \<or> key \<in> set (zs_seen z') then Inr z'
                 else rmap (\<lambda>p. z'\<lparr>zs_seen := key # zs_seen z', zs_used := applied @ zs_used z', zs_plans := zs_plans z' @ [p]\<rparr>)
                   (plan_from h (kq_amount_jpy req) combination resolution cs)))"

fun price_all ::
    "stack_host \<Rightarrow> stack_request \<Rightarrow> string list \<Rightarrow> layer_option list list \<Rightarrow> synthesis \<Rightarrow> synthesis res" where
  "price_all h req available [] z = Inr z"
| "price_all h req available (c # cs) z = rbind (price_combination h req available c z) (price_all h req available cs)"

section \<open>The result\<close>

definition option_problem :: "stack_request \<Rightarrow> layer_option \<Rightarrow> string option" where
  "option_problem req q =
     (let date = take 10 (kq_effective_at req)
      in if \<not> active_on q date then
           Some (if case lo_valid_to q of None \<Rightarrow> False | Some t \<Rightarrow> str_cmp t date < 0 then ''reward_withdrawn_or_expired''
             else ''outside_validity_window'')
         else if lo_merchant_ids q \<noteq> [] \<and> kq_merchant_id req \<notin> set (lo_merchant_ids q) then Some ''merchant_not_accepted''
         else if lo_required_conditions_ja q \<noteq> [] \<and> lo_option_id q \<notin> set (kq_confirmed_option_ids req) then
           Some ''condition_confirmation_required''
         else None)"

definition usable_options :: "stack_request \<Rightarrow> layer_option list" where
  "usable_options req = filter (\<lambda>q. option_problem req q = None) (kq_options req)"

definition skipped_options :: "stack_request \<Rightarrow> (string, string) omap" where
  "skipped_options req =
     fold (\<lambda>q m. case option_problem req q of None \<Rightarrow> m | Some reason \<Rightarrow> om_set (lo_option_id q) reason m) (kq_options req) []"

text \<open>The texts compared are decimals the synthesizer wrote.\<close>

definition text_difference :: "string option \<Rightarrow> string option \<Rightarrow> int" where
  "text_difference l r = (case (l, r) of (Some a, Some b) \<Rightarrow> rat_cmp (text_value b) (text_value a) | _ \<Rightarrow> 0)"

definition compare_plans :: "runtime \<Rightarrow> stack_plan \<Rightarrow> stack_plan \<Rightarrow> int" where
  "compare_plans rt l r =
     (let value = text_difference (kp_total_value_jpy l) (kp_total_value_jpy r);
          units = (if kp_native_reward_asset_id l \<noteq> None \<and> kp_native_reward_asset_id l = kp_native_reward_asset_id r
            then text_difference (kp_native_reward_units l) (kp_native_reward_units r) else 0);
          channels = int (kp_channel_count l) - int (kp_channel_count r)
      in if kp_valued l \<noteq> kp_valued r then (if kp_valued l then -1 else 1)
         else if value \<noteq> 0 then value
         else if units \<noteq> 0 then units
         else if channels \<noteq> 0 then channels
         else rt_locale_compare rt (kp_plan_id l) (kp_plan_id r))"

definition plan_json :: "stack_plan \<Rightarrow> json" where
  "plan_json p = JObj ((''plan_id'', JStr (kp_plan_id p)) # plan_fields p)"

definition stack_result_json :: "stack_result \<Rightarrow> json" where
  "stack_result_json r = JObj
     [(''version'', JStr ''payment-stack-synthesizer.v1''), (''merchant_id'', JStr (kr_merchant_id r)),
      (''amount_jpy'', JNum (num (kr_amount_jpy r))), (''valuation_profile_hash'', JStr (kr_valuation_profile_hash r)),
      (''winner'', case kr_winner r of None \<Rightarrow> JNull | Some w \<Rightarrow> plan_json w), (''plans'', JArr (map plan_json (kr_plans r))),
      (''skipped'', JArr (map (\<lambda>(i, reason). JObj [(''option_id'', JStr i), (''reason_code'', JStr reason)]) (kr_skipped r))),
      (''combination_search_truncated'', JBool (kr_truncated r))]"

definition stack_result_of :: "stack_host \<Rightarrow> stack_request \<Rightarrow> bool \<Rightarrow> synthesis \<Rightarrow> stack_result res" where
  "stack_result_of h req truncated z =
     (let rt = kh_runtime h; skipped = filter (\<lambda>e. fst e \<notin> set (zs_used z)) (zs_skipped z);
          ranked = take max_returned_plans (kh_sort h (compare_plans rt) (zs_plans z));
          r = \<lparr>kr_merchant_id = kq_merchant_id req, kr_amount_jpy = kq_amount_jpy req,
            kr_valuation_profile_hash = vp_profile_hash (kq_valuation req),
            kr_winner = (case ranked of [] \<Rightarrow> None | p # _ \<Rightarrow> Some p), kr_plans = ranked,
            kr_skipped = sort_cmp (cmp_on fst (rt_locale_compare rt)) skipped, kr_truncated = truncated, kr_result_hash = []\<rparr>
      in rmap (\<lambda>i. r\<lparr>kr_result_hash := i\<rparr>) (canonical_hash (kh_sha h) (kh_number_text h) (stack_result_json r)))"

definition synthesize_payment_stacks :: "stack_host \<Rightarrow> stack_request \<Rightarrow> stack_result res" where
  "synthesize_payment_stacks h req =
     (let rt = kh_runtime h; usable = usable_options req;
          combinations = layer_combinations rt usable (nat (kq_max_bonus_options req))
      in rbind (assert_stack_request rt req) (\<lambda>_.
         rbind (price_all h req (map lo_option_id usable) (take max_combinations combinations)
             \<lparr>zs_skipped = skipped_options req, zs_seen = [], zs_used = [], zs_plans = []\<rparr>)
           (stack_result_of h req (max_combinations < length combinations))))"

end
