(* ===== verification/Payment_Stack_Laws.thy ===== *)
theory Payment_Stack_Laws
  imports Payment_Stack Stacking_Laws
begin

text \<open>
  What the synthesis of payment stacks guarantees: what an option earns is within its cap, every plan
  it offers is one admissible combination, and where every reward is priced the plans come in the
  order of their value.  Where rewards are not priced, the comparison of plans runs in circles.
\<close>

section \<open>What one option earns\<close>

lemma half_up_nonneg: "0 \<le> x \<Longrightarrow> 0 \<le> half_up x"
  by (simp add: half_up_def)

lemma round_units_whole:
  assumes "0 \<le> x"
  obtains u where "round_units x mode = of_nat u / 10 ^ 0"
proof -
  have "\<exists>k. 0 \<le> k \<and> round_units x mode = of_int k"
    using assms half_up_nonneg [OF assms] by (cases mode) (auto simp: round_units_def)
  then obtain k where "0 \<le> k" "round_units x mode = of_int k" by blast
  with that [of "nat k"] show ?thesis by simp
qed

definition what_is_left :: "runtime \<Rightarrow> layer_option \<Rightarrow> rat option" where
  "what_is_left rt q = (case lo_cap_reward_units_per_period q of
     None \<Rightarrow> None
   | Some cap \<Rightarrow> Some (max 0 (dsub rt (text_value cap) (text_value (default_to ''0'' (lo_cap_reward_units_used q))))))"

lemma capped_units_within:
  assumes "capped_units rt q uncapped = Inr (units, limited)"
  shows "units = (case what_is_left rt q of None \<Rightarrow> uncapped | Some left \<Rightarrow> min uncapped left) \<and>
    (limited \<longleftrightarrow> units < uncapped)"
  using assms
  by (auto simp: capped_units_def what_is_left_def res_simps decimal_string_def Let_def split: option.splits if_splits)

lemma contribution_parts:
  assumes "contribution_for rt amount profile q = Inr c"
  obtains uncapped units limited where "uncapped_units rt q amount = Inr uncapped"
    "capped_units rt q uncapped = Inr (units, limited)" "co_reward_units c = canonical_decimal rt units"
    "co_uncapped_reward_units c = canonical_decimal rt uncapped" "co_cap_limited c = limited"
    "co_option_id c = lo_option_id q" "co_layer c = lo_layer q" "co_reward_asset_id c = ar_asset_id (lo_reward_asset q)"
    "value_quantity rt profile (ar_asset_id (lo_reward_asset q)) (class_text_of (lo_reward_asset q)) (co_reward_units c) =
       Inr (co_value c)"
  using assms by (auto simp: contribution_for_def Let_def res_simps intro!: that)

lemma uncapped_nonneg:
  assumes "decimal_text rt" "uncapped_units rt q amount = Inr x" "0 \<le> amount" "0 < lo_basis_unit_jpy q"
  obtains u where "x = of_nat u / 10 ^ 0"
proof -
  note rounding = decimal_text.axioms(1) [OF assms(1)]
  obtain per where per: "decimal_string (lo_reward_units_per_basis q) = Inr per"
    "x = round_units (dmul rt (of_int \<lfloor>ddiv rt (of_int amount) (of_int (lo_basis_unit_jpy q))\<rfloor>) per) (lo_reward_rounding q)"
    using assms(2) by (auto simp: uncapped_units_def res_simps)
  have "0 \<le> per" using per(1) by (auto simp: decimal_string_def text_value_def split: if_splits)
  moreover have "0 \<le> ddiv rt (of_int amount) (of_int (lo_basis_unit_jpy q))"
    using assms(3,4) by (intro decimal_rounding.ddiv_nonneg [OF rounding]) simp_all
  ultimately have "0 \<le> dmul rt (of_int \<lfloor>ddiv rt (of_int amount) (of_int (lo_basis_unit_jpy q))\<rfloor>) per"
    by (intro decimal_rounding.dmul_nonneg [OF rounding]) simp_all
  from round_units_whole [OF this] that show ?thesis unfolding per(2) by blast
qed

text \<open>An option earns its reward for every whole basis unit of the amount, rounded as declared, and
  never more than what is left of its cap: the reported units are the smaller of the two, and the
  option is marked as limited by its cap exactly when the cap took something away.\<close>

theorem reward_stays_within_its_cap:
  assumes "decimal_text rt" "contribution_for rt amount profile q = Inr c" "0 \<le> amount" "0 < lo_basis_unit_jpy q"
  shows "\<exists>uncapped. uncapped_units rt q amount = Inr uncapped \<and> text_value (co_uncapped_reward_units c) = uncapped \<and>
    text_value (co_reward_units c) = (case what_is_left rt q of None \<Rightarrow> uncapped | Some left \<Rightarrow> min uncapped left) \<and>
    (co_cap_limited c \<longleftrightarrow> text_value (co_reward_units c) < text_value (co_uncapped_reward_units c))"
proof (rule contribution_parts [OF assms(2)])
  fix uncapped units limited
  assume u: "uncapped_units rt q amount = Inr uncapped" and units: "capped_units rt q uncapped = Inr (units, limited)"
    and c: "co_reward_units c = canonical_decimal rt units" "co_uncapped_reward_units c = canonical_decimal rt uncapped"
      "co_cap_limited c = limited"
  note within = capped_units_within [OF units]
  obtain n where n: "uncapped = of_nat n / 10 ^ 0" by (rule uncapped_nonneg [OF assms(1) u assms(3,4)])
  have whole: "text_value (canonical_decimal rt uncapped) = uncapped"
    using decimal_text.canonical_text(2) [OF assms(1) n] .
  have "text_value (canonical_decimal rt units) = units"
  proof (cases "units = uncapped")
    case True
    with whole show ?thesis by simp
  next
    case False
    then obtain left where left: "what_is_left rt q = Some left" "units = left" "0 \<le> left"
      using within by (auto simp: what_is_left_def min_def split: option.splits if_splits)
    then obtain a b where "left = max 0 (dsub rt a b)" by (auto simp: what_is_left_def split: option.splits)
    then consider "left = 0" | "left = rt_round rt (a - b)" "0 \<le> rt_round rt (a - b)"
      by (cases "0 \<le> rt_round rt (a - b)") (simp_all add: dsub_def max_def)
    then show ?thesis
    proof cases
      case 1
      then show ?thesis using decimal_text.canonical_text(2) [OF assms(1), of 0 0 0] left(2) by simp
    next
      case 2
      have "rt_round rt left = left" using decimal_rounding.round_exact [OF decimal_text.axioms(1) [OF assms(1)]]
        decimal_rounding.round_representable [OF decimal_text.axioms(1) [OF assms(1)], of "a - b"] 2(1) by simp
      then show ?thesis using decimal_text.canonical_of_rounded(2) [OF assms(1) left(3)] left(2) by simp
    qed
  qed
  with u within whole c show ?thesis by simp
qed

section \<open>Every plan is an admissible combination\<close>

lemma bonus_subset:
  "s \<in> set (fold (add_bonus limit) options subsets) \<Longrightarrow>
   (\<forall>t\<in>set subsets. length t \<le> limit \<and> set t \<subseteq> all) \<Longrightarrow> set options \<subseteq> all \<Longrightarrow> length s \<le> limit \<and> set s \<subseteq> all"
proof (induction options arbitrary: subsets)
  case (Cons q qs)
  have "\<forall>t\<in>set (add_bonus limit q subsets). length t \<le> limit \<and> set t \<subseteq> all"
    using Cons.prems(2,3) by (fastforce simp: add_bonus_def)
  with Cons show ?case by simp
qed simp

lemma walk_parts:
  "x \<in> set (walk css chosen bonus) \<Longrightarrow>
   \<exists>picks b. list_all2 (\<lambda>c cs. c \<in> set cs) picks css \<and> b \<in> set bonus \<and> x = chosen @ List.map_filter id picks @ b"
proof (induction css arbitrary: chosen)
  case (Cons cs css)
  then obtain c where c: "c \<in> set cs" "x \<in> set (walk css (case c of None \<Rightarrow> chosen | Some q \<Rightarrow> chosen @ [q]) bonus)" by auto
  from Cons.IH [OF c(2)] obtain picks b where "list_all2 (\<lambda>c cs. c \<in> set cs) picks css" "b \<in> set bonus"
    "x = (case c of None \<Rightarrow> chosen | Some q \<Rightarrow> chosen @ [q]) @ List.map_filter id picks @ b" by blast
  with c(1) show ?case
    by (intro exI [of _ "c # picks"] exI [of _ b]) (auto simp: List.map_filter_simps id_def split: option.split)
qed (auto simp: List.map_filter_simps)

text \<open>A combination of different options a buyer can carry out: each is offered, valid on the day of the
  purchase, accepted by the merchant and confirmed where it needs to be, has its prerequisites and none
  of its conflicts in the combination; one at most is taken of each single layer and not more bonuses
  than requested; and a charge is spent by a payment.\<close>

definition admissible :: "stack_request \<Rightarrow> layer_option list \<Rightarrow> bool" where
  "admissible req combination \<longleftrightarrow>
     distinct (map lo_option_id combination) \<and>
     (\<forall>q\<in>set combination. q \<in> set (kq_options req) \<and>
        (\<forall>t. lo_valid_from q = Some t \<longrightarrow> str_cmp t (take 10 (kq_effective_at req)) \<le> 0) \<and>
        (\<forall>t. lo_valid_to q = Some t \<longrightarrow> 0 \<le> str_cmp t (take 10 (kq_effective_at req))) \<and>
        (lo_merchant_ids q \<noteq> [] \<longrightarrow> kq_merchant_id req \<in> set (lo_merchant_ids q)) \<and>
        (lo_required_conditions_ja q \<noteq> [] \<longrightarrow> lo_option_id q \<in> set (kq_confirmed_option_ids req)) \<and>
        (\<forall>i\<in>set (lo_requires_option_ids q). \<exists>x\<in>set combination. lo_option_id x = i) \<and>
        (\<forall>x\<in>set combination. lo_option_id x \<notin> set (lo_conflicts_with_option_ids q))) \<and>
     ((\<exists>q\<in>set combination. lo_layer q = PY_charge) \<longrightarrow> (\<exists>q\<in>set combination. lo_layer q = PY_payment)) \<and>
     (\<forall>l\<in>{PY_funding, PY_charge, PY_payment, PY_loyalty}. length (filter (\<lambda>q. lo_layer q = l) combination) \<le> 1) \<and>
     int (length (filter (\<lambda>q. lo_layer q = PY_bonus) combination)) \<le> kq_max_bonus_options req"

lemma usable_option:
  "option_problem req q = None \<longleftrightarrow>
     (\<forall>t. lo_valid_from q = Some t \<longrightarrow> str_cmp t (take 10 (kq_effective_at req)) \<le> 0) \<and>
     (\<forall>t. lo_valid_to q = Some t \<longrightarrow> 0 \<le> str_cmp t (take 10 (kq_effective_at req))) \<and>
     (lo_merchant_ids q \<noteq> [] \<longrightarrow> kq_merchant_id req \<in> set (lo_merchant_ids q)) \<and>
     (lo_required_conditions_ja q \<noteq> [] \<longrightarrow> lo_option_id q \<in> set (kq_confirmed_option_ids req))"
  unfolding option_problem_def Let_def active_on_def by (auto split: option.splits)

lemma viable_spelled:
  "viable combination \<longleftrightarrow>
     ((\<exists>q\<in>set combination. lo_layer q = PY_charge) \<longrightarrow> (\<exists>q\<in>set combination. lo_layer q = PY_payment)) \<and>
     (\<forall>q\<in>set combination. (\<forall>i\<in>set (lo_requires_option_ids q). \<exists>x\<in>set combination. lo_option_id x = i) \<and>
        (\<forall>x\<in>set combination. lo_option_id x \<notin> set (lo_conflicts_with_option_ids q)))"
proof -
  have layer: "l \<in> lo_layer ` set combination \<longleftrightarrow> (\<exists>q\<in>set combination. lo_layer q = l)" for l by auto
  have reqs: "set is \<subseteq> lo_option_id ` set combination \<longleftrightarrow> (\<forall>i\<in>set is. \<exists>x\<in>set combination. lo_option_id x = i)" for "is"
    by auto
  have conf: "set is \<inter> lo_option_id ` set combination = {} \<longleftrightarrow> (\<forall>x\<in>set combination. lo_option_id x \<notin> set is)" for "is"
    by auto
  show ?thesis unfolding viable_def layer reqs conf ..
qed

lemma bonus_distinct:
  "s \<in> set (fold (add_bonus limit) options subsets) \<Longrightarrow> distinct (ps @ options) \<Longrightarrow>
   \<forall>t\<in>set subsets. distinct t \<and> set t \<subseteq> set ps \<Longrightarrow> distinct s"
proof (induction options arbitrary: subsets ps)
  case (Cons q qs)
  have "\<forall>t\<in>set (add_bonus limit q subsets). distinct t \<and> set t \<subseteq> set (ps @ [q])"
    using Cons.prems(2,3) by (fastforce simp: add_bonus_def)
  with Cons.IH [of "add_bonus limit q subsets" "ps @ [q]"] Cons.prems(1,2) show ?case by simp
qed auto

lemma picked_layers:
  assumes "list_all2 (\<lambda>c cs. c \<in> set cs) picks (map (\<lambda>l. None # map Some (of_layer rt usable l)) layers)" "distinct layers"
  shows "distinct (map lo_layer (List.map_filter id picks)) \<and> lo_layer ` set (List.map_filter id picks) \<subseteq> set layers"
  using assms
proof (induction layers arbitrary: picks)
  case (Cons k ks)
  then obtain c ps where p: "picks = c # ps" "c \<in> set (None # map Some (of_layer rt usable k))"
    and rest: "list_all2 (\<lambda>c cs. c \<in> set cs) ps (map (\<lambda>l. None # map Some (of_layer rt usable l)) ks)"
    by (auto simp: list_all2_Cons2)
  from p(2) have "c = None \<or> (\<exists>q. c = Some q \<and> lo_layer q = k)" by (auto simp: of_layer_def)
  with Cons.IH [OF rest] Cons.prems(2) show ?case unfolding p(1) by (auto simp: List.map_filter_simps image_subset_iff)
qed (simp add: List.map_filter_simps)

lemma picked_once:
  assumes "list_all2 (\<lambda>c cs. c \<in> set cs) picks (map (\<lambda>l. None # map Some (of_layer rt usable l)) layers)" "distinct layers"
  shows "length (filter (\<lambda>q. lo_layer q = l) (List.map_filter id picks)) \<le> (if l \<in> set layers then 1 else 0) \<and>
    set (List.map_filter id picks) \<subseteq> set usable"
  using assms
proof (induction layers arbitrary: picks)
  case (Cons k ks)
  then obtain c ps where p: "picks = c # ps" "c \<in> set (None # map Some (of_layer rt usable k))"
    and rest: "list_all2 (\<lambda>c cs. c \<in> set cs) ps (map (\<lambda>l. None # map Some (of_layer rt usable l)) ks)"
    by (auto simp: list_all2_Cons2)
  from p(2) have "c = None \<or> (\<exists>q. c = Some q \<and> lo_layer q = k \<and> q \<in> set usable)" by (auto simp: of_layer_def)
  with Cons.IH [OF rest] Cons.prems(2) show ?case unfolding p(1)
    by (auto simp: List.map_filter_simps split: if_splits)
qed (simp add: List.map_filter_simps)

lemma request_facts:
  assumes "assert_stack_request rt req = Inr ()"
  shows "distinct (map lo_option_id (kq_options req))" "0 \<le> kq_max_bonus_options req"
    "q \<in> set (kq_options req) \<Longrightarrow> lo_stacking_mode q \<noteq> SM_includes_base"
proof -
  show "distinct (map lo_option_id (kq_options req))" "0 \<le> kq_max_bonus_options req"
    using assms by (auto simp: assert_stack_request_def res_simps)
  have "\<exists>us. traverse (assert_option rt) (kq_options req) = Inr us"
    using assms by (auto simp: assert_stack_request_def res_simps)
  then show "q \<in> set (kq_options req) \<Longrightarrow> lo_stacking_mode q \<noteq> SM_includes_base"
    unfolding traverse_unit_iff by (auto simp: assert_option_def option_shape_ok_def res_simps)
qed

lemma combination_shape:
  assumes "combination \<in> set (layer_combinations rt (usable_options req) (nat (kq_max_bonus_options req)))" "viable combination"
    "assert_stack_request rt req = Inr ()"
  shows "admissible req combination"
proof -
  let ?usable = "usable_options req" and ?limit = "nat (kq_max_bonus_options req)"
  obtain picks b where p: "list_all2 (\<lambda>c cs. c \<in> set cs) picks (map (\<lambda>l. None # map Some (of_layer rt ?usable l)) single_select_layers)"
    and b: "b \<in> set (bonus_subsets ?limit (of_layer rt ?usable PY_bonus))" and x: "combination = List.map_filter id picks @ b"
    using walk_parts [OF assms(1) [unfolded layer_combinations_def]] by auto
  have bs: "length b \<le> ?limit \<and> set b \<subseteq> set (of_layer rt ?usable PY_bonus)"
    by (rule bonus_subset [OF b [unfolded bonus_subsets_def]]) simp_all
  then have bonus: "\<forall>q\<in>set b. lo_layer q = PY_bonus \<and> q \<in> set ?usable" by (auto simp: of_layer_def)
  have single: "distinct single_select_layers" "PY_bonus \<notin> set single_select_layers" by (simp_all add: single_select_layers_def)
  note once = picked_once [OF p single(1)]
  have "set combination \<subseteq> set ?usable" using once bonus by (auto simp: x)
  moreover have "length (filter (\<lambda>q. lo_layer q = l) combination) \<le> 1" if "l \<in> set single_select_layers" for l
  proof -
    have "filter (\<lambda>q. lo_layer q = l) b = []" using bonus that single(2) by (auto simp: filter_empty_conv)
    then show ?thesis using once [of l] that by (simp add: x)
  qed
  moreover have "length (filter (\<lambda>q. lo_layer q = PY_bonus) combination) \<le> ?limit"
  proof -
    have "length (filter (\<lambda>q. lo_layer q = PY_bonus) b) \<le> ?limit" using bs by (meson length_filter_le order.trans)
    then show ?thesis using once [of PY_bonus] single(2) by (simp add: x)
  qed
  moreover have "distinct (map lo_option_id combination)"
  proof -
    have ids: "distinct (map lo_option_id ?usable)" unfolding usable_options_def by (rule distinct_map_filter [OF request_facts(1) [OF assms(3)]])
    then have "distinct (of_layer rt ?usable PY_bonus)"
      using mset_eq_imp_distinct_iff [OF mset_sort_cmp] by (simp add: of_layer_def distinct_map)
    then have "distinct b" by (intro bonus_distinct [OF b [unfolded bonus_subsets_def], of "[]"]) simp_all
    moreover have picks: "distinct (map lo_layer (List.map_filter id picks))"
      "lo_layer ` set (List.map_filter id picks) \<subseteq> set single_select_layers"
      using picked_layers [OF p single(1)] by blast+
    moreover have "set (List.map_filter id picks) \<inter> set b = {}"
    proof (rule equals0I)
      fix y assume y: "y \<in> set (List.map_filter id picks) \<inter> set b"
      then have "lo_layer y \<in> set single_select_layers" using picks(2) by (meson IntD1 image_subset_iff)
      with y bonus single(2) show False by auto
    qed
    ultimately have "distinct combination" unfolding x distinct_append by (simp only: distinct_map)
    moreover have "inj_on lo_option_id (set combination)"
      by (rule inj_on_subset [OF conjunct2 [OF ids [unfolded distinct_map]] \<open>set combination \<subseteq> set ?usable\<close>])
    ultimately show ?thesis unfolding distinct_map by (rule conjI)
  qed
  ultimately show ?thesis
    using assms(2) request_facts(2) [OF assms(3)] unfolding viable_spelled admissible_def usable_options_def
    by (auto simp: single_select_layers_def usable_option)
qed

lemma traverse_all2: "traverse f xs = Inr ys \<Longrightarrow> list_all2 (\<lambda>x y. f x = Inr y) xs ys"
  by (induction xs arbitrary: ys) (auto simp: res_simps)

lemma contributions_ids:
  "traverse (contribution_for rt amount profile) combination = Inr cs \<Longrightarrow> map co_option_id cs = map lo_option_id combination"
  by (drule traverse_all2, induction rule: list_all2_induct) (auto elim: contribution_parts)

lemma resolution_applies:
  assumes "map co_option_id cs = map lo_option_id combination"
  shows "set (sr_applied_rule_ids (resolution_of rt combination cs)) \<subseteq> lo_option_id ` set combination"
proof -
  have "map candidate_id (map2 stacking_candidate_for combination cs) = map lo_option_id combination" if "length cs = length combination"
    using that by (induction cs combination rule: list_induct2) (auto simp: candidate_id_def stacking_candidate_for_def)
  moreover have "length cs = length combination" using arg_cong [OF assms, of length] by simp
  ultimately have "candidate_id ` set (map2 stacking_candidate_for combination cs) = lo_option_id ` set combination"
    by (metis set_map)
  then show ?thesis
    using resolution_decides [of "\<lparr>sn_candidates = map2 stacking_candidate_for combination cs, sn_base_reward = None, sn_baseReward = None\<rparr>" rt]
    by (auto simp: resolution_of_def source_candidates_def)
qed

lemma resolution_covers:
  assumes "map co_option_id cs = map lo_option_id combination"
  shows "lo_option_id ` set combination \<subseteq> set (sr_applied_rule_ids (resolution_of rt combination cs)) \<union>
    set (sr_rejected_rule_ids (resolution_of rt combination cs))"
proof -
  have len: "length cs = length combination" using arg_cong [OF assms, of length] by simp
  then have "map candidate_id (map2 stacking_candidate_for combination cs) = map lo_option_id combination"
    by (induction cs combination rule: list_induct2) (auto simp: candidate_id_def stacking_candidate_for_def)
  then have "candidate_id ` set (map2 stacking_candidate_for combination cs) = lo_option_id ` set combination"
    by (metis set_map)
  moreover let ?input = "\<lparr>sn_candidates = map2 stacking_candidate_for combination cs, sn_base_reward = None, sn_baseReward = None\<rparr>"
  have "set (source_candidates ?input) = set (map2 stacking_candidate_for combination cs)" by (simp add: source_candidates_def)
  with conjunct1 [OF resolution_decides [of ?input rt]]
  have "candidate_id ` set (map2 stacking_candidate_for combination cs) \<subseteq>
      set (sr_applied_rule_ids (resolution_of rt combination cs)) \<union> set (sr_rejected_rule_ids (resolution_of rt combination cs))"
    unfolding resolution_of_def by blast
  ultimately show ?thesis by (simp only:)
qed

text \<open>The options that earn have their prerequisites among them: no option includes a base.\<close>

lemma option_normal_form:
  assumes "normalized rt (stacking_candidate_for q x) = Inr n"
  shows "nc_rule_id n = lo_option_id q" "set (nc_requires_rule_ids n) = set (lo_requires_option_ids q)"
    "nc_base_reward_included n \<longleftrightarrow> lo_stacking_mode q = SM_includes_base"
  using assms
  by (auto simp: normalized_def stacking_candidate_for_def candidate_id_def Let_def res_simps split: if_splits)

lemma applied_closed:
  assumes "distinct (map lo_option_id combination)" "\<forall>q\<in>set combination. lo_stacking_mode q \<noteq> SM_includes_base"
    "q \<in> set combination" "lo_option_id q \<in> set (sr_applied_rule_ids (resolution_of rt combination cs))"
  shows "set (lo_requires_option_ids q) \<subseteq> set (sr_applied_rule_ids (resolution_of rt combination cs))"
proof
  let ?input = "\<lparr>sn_candidates = map2 stacking_candidate_for combination cs, sn_base_reward = None, sn_baseReward = None\<rparr>"
  have source: "\<exists>q'\<in>set combination. \<exists>x. c = stacking_candidate_for q' x" if "c \<in> set (source_candidates ?input)" for c
    using that by (auto simp: source_candidates_def dest: set_zip_leftD)
  fix i assume i: "i \<in> set (lo_requires_option_ids q)"
  obtain n where n: "n \<in> set (sr_selected (resolve_stacking rt ?input))" "nc_rule_id n = lo_option_id q"
    using assms(4) unfolding resolution_of_def applied_ids by auto
  obtain c where c: "c \<in> set (source_candidates ?input)" "normalized rt c = Inr n" using selected_source [OF n(1)] by blast
  then obtain q' x where q': "q' \<in> set combination" "c = stacking_candidate_for q' x" using source by blast
  note form = option_normal_form [OF c(2) [unfolded q'(2)]]
  have "q' = q" using form(1) n(2) q'(1) assms(1,3) by (metis distinct_map inj_onD)
  then have "i \<in> set (nc_requires_rule_ids n)" using form(2) i by simp
  from requirements_decided [OF n(1) this]
  show "i \<in> set (sr_applied_rule_ids (resolution_of rt combination cs))"
  proof
    assume "i \<in> set (sr_applied_rule_ids (resolve_stacking rt ?input))"
    then show ?thesis by (simp add: resolution_of_def)
  next
    assume "\<exists>c\<in>set (source_candidates ?input). \<exists>b. normalized rt c = Inr b \<and>
      includes_base {n. \<exists>y\<in>set (source_candidates ?input). normalized rt y = Inr n} b i \<and>
      (\<exists>j\<in>set (sr_rejected (resolve_stacking rt ?input)).
        sj_rule_id j = i \<and> sj_reason j = RR_base_included \<and> sj_by_rule_id j = Some (nc_rule_id b)) \<and>
      nc_rule_id b \<in> set (sr_applied_rule_ids (resolve_stacking rt ?input)) \<union>
        set (sr_suppressed_base_rule_ids (resolve_stacking rt ?input))"
    then obtain c b where b: "c \<in> set (source_candidates ?input)" "normalized rt c = Inr b" "nc_base_reward_included b"
      by (auto simp: includes_base_def)
    then obtain q'' y where "q'' \<in> set combination" "normalized rt (stacking_candidate_for q'' y) = Inr b" using source by metis
    with option_normal_form(3) b(3) assms(2) have False by blast
    then show ?thesis ..
  qed
qed

lemma layers_parts:
  assumes "set applied \<subseteq> co_option_id ` set cs"
  shows "set (layers_of rt applied cs) \<subseteq> set cs \<and> mset (map co_option_id (layers_of rt applied cs)) = mset applied"
proof -
  let ?pick = "\<lambda>i. case find (\<lambda>c. co_option_id c = i) cs of None \<Rightarrow> [] | Some c \<Rightarrow> [c]"
  have found: "c \<in> set cs" if "find (\<lambda>c. co_option_id c = i) cs = Some c" for i c
    using that by (auto simp: find_Some_iff)
  have "set (concat (map ?pick applied)) \<subseteq> set cs" by (auto split: option.splits dest: found [OF sym])
  moreover have "map co_option_id (concat (map ?pick applied)) = applied"
    using assms
  proof (induction applied)
    case (Cons i rest)
    then obtain c where "find (\<lambda>c. co_option_id c = i) cs = Some c" by (cases "find (\<lambda>c. co_option_id c = i) cs") (auto simp: find_None_iff)
    moreover from this have "co_option_id c = i" by (auto simp: find_Some_iff)
    ultimately show ?case using Cons by simp
  qed simp
  ultimately show ?thesis by (simp only: layers_of_def set_sort_cmp mset_map mset_sort_cmp) (simp only: flip: mset_map)
qed

text \<open>A plan made from a combination.\<close>

definition plan_made :: "stack_host \<Rightarrow> stack_request \<Rightarrow> layer_option list \<Rightarrow> stack_plan \<Rightarrow> bool" where
  "plan_made h req combination p \<longleftrightarrow> viable combination \<and>
     (\<exists>cs. traverse (contribution_for (kh_runtime h) (kq_amount_jpy req) (kq_valuation req)) combination = Inr cs \<and>
       sr_applied_rule_ids (resolution_of (kh_runtime h) combination cs) \<noteq> [] \<and>
       plan_from h (kq_amount_jpy req) combination (resolution_of (kh_runtime h) combination cs) cs = Inr p)"

lemma price_combination_plans:
  "price_combination h req available c z = Inr z' \<Longrightarrow>
   zs_plans z' = zs_plans z \<or> (\<exists>p. plan_made h req c p \<and> zs_plans z' = zs_plans z @ [p])"
  by (auto simp: price_combination_def plan_made_def Let_def res_simps split: if_splits)

lemma price_all_plans:
  "price_all h req available cs z = Inr z' \<Longrightarrow> set (zs_plans z') \<subseteq> set (zs_plans z) \<union> {p. \<exists>c\<in>set cs. plan_made h req c p}"
proof (induction cs arbitrary: z)
  case (Cons c cs)
  then obtain y where y: "price_combination h req available c z = Inr y" "price_all h req available cs y = Inr z'" by (auto simp: res_simps)
  from Cons.IH [OF y(2)] price_combination_plans [OF y(1)] show ?case by fastforce
qed simp

lemma synthesized:
  assumes "synthesize_payment_stacks h req = Inr r"
  obtains ps where "assert_stack_request (kh_runtime h) req = Inr ()"
    "kr_plans r = take max_returned_plans (kh_sort h (compare_plans (kh_runtime h)) ps)"
    "kr_winner r = (case kr_plans r of [] \<Rightarrow> None | p # _ \<Rightarrow> Some p)"
    "\<forall>p\<in>set ps. \<exists>c. admissible req c \<and> plan_made h req c p"
proof -
  let ?combinations = "layer_combinations (kh_runtime h) (usable_options req) (nat (kq_max_bonus_options req))"
  have valid: "assert_stack_request (kh_runtime h) req = Inr ()"
    using assms by (auto simp: synthesize_payment_stacks_def Let_def res_simps)
  obtain z where z: "price_all h req (map lo_option_id (usable_options req)) (take max_combinations ?combinations)
             \<lparr>zs_skipped = skipped_options req, zs_seen = [], zs_used = [], zs_plans = []\<rparr> = Inr z"
    and r: "stack_result_of h req (max_combinations < length ?combinations) z = Inr r"
    using assms by (auto simp: synthesize_payment_stacks_def Let_def res_simps)
  have "\<exists>c. admissible req c \<and> plan_made h req c p" if "p \<in> set (zs_plans z)" for p
  proof -
    from price_all_plans [OF z] that obtain c where c: "c \<in> set ?combinations" "plan_made h req c p"
      by (auto dest: in_set_takeD)
    then show ?thesis using combination_shape [OF c(1) _ valid] by (auto simp: plan_made_def)
  qed
  moreover from r have "kr_plans r = take max_returned_plans (kh_sort h (compare_plans (kh_runtime h)) (zs_plans z))"
    "kr_winner r = (case kr_plans r of [] \<Rightarrow> None | p # _ \<Rightarrow> Some p)"
    by (auto simp: stack_result_of_def Let_def res_simps)
  ultimately show ?thesis using that valid by blast
qed

lemma plan_facts:
  assumes "plan_made h req c p"
  shows "kp_option_ids p \<noteq> []" "set (kp_option_ids p) \<subseteq> lo_option_id ` set c"
    "mset (map co_option_id (kp_layers p)) = mset (kp_option_ids p)"
    "\<forall>l\<in>set (kp_layers p). \<exists>q\<in>set c. contribution_for (kh_runtime h) (kq_amount_jpy req) (kq_valuation req) q = Inr l"
    "kp_valued p \<longleftrightarrow> (\<forall>l\<in>set (kp_layers p). co_value l \<noteq> None)" "kp_valued p \<longleftrightarrow> kp_total_value_jpy p \<noteq> None"
    "kp_native_reward_asset_id p = one_asset (kp_layers p)"
    "kp_native_reward_units p = None \<longleftrightarrow> kp_native_reward_asset_id p = None"
    "kp_channel_count p = length (kp_layers p)"
    "lo_option_id ` set c \<subseteq> set (kp_option_ids p) \<union> set (kp_rejected_option_ids p)"
    "distinct (map lo_option_id c) \<Longrightarrow> \<forall>q\<in>set c. lo_stacking_mode q \<noteq> SM_includes_base \<Longrightarrow> q \<in> set c \<Longrightarrow>
      lo_option_id q \<in> set (kp_option_ids p) \<Longrightarrow> set (lo_requires_option_ids q) \<subseteq> set (kp_option_ids p)"
proof -
  from assms obtain cs where cs: "traverse (contribution_for (kh_runtime h) (kq_amount_jpy req) (kq_valuation req)) c = Inr cs"
    and applied: "sr_applied_rule_ids (resolution_of (kh_runtime h) c cs) \<noteq> []"
    and p: "plan_from h (kq_amount_jpy req) c (resolution_of (kh_runtime h) c cs) cs = Inr p"
    by (auto simp: plan_made_def)
  let ?applied = "js_sort (sr_applied_rule_ids (resolution_of (kh_runtime h) c cs))"
  let ?layers = "layers_of (kh_runtime h) ?applied cs"
  obtain total native_units i where total: "total_value (kh_runtime h) ?layers = Inr total" and fields:
    "kp_option_ids p = ?applied" "kp_layers p = ?layers" "kp_total_value_jpy p = map_option (canonical_decimal (kh_runtime h)) total"
    "kp_valued p = list_all (\<lambda>c. co_value c \<noteq> None) ?layers" "kp_native_reward_asset_id p = one_asset ?layers"
    "kp_native_reward_units p = (if one_asset ?layers = None then None else Some (canonical_decimal (kh_runtime h) native_units))"
    "kp_channel_count p = length ?layers"
    "kp_rejected_option_ids p = js_sort (sr_rejected_rule_ids (resolution_of (kh_runtime h) c cs))"
    using p by (auto simp: plan_from_def Let_def res_simps)
  have ids: "map co_option_id cs = map lo_option_id c" by (rule contributions_ids [OF cs])
  then have idset: "co_option_id ` set cs = lo_option_id ` set c" by (metis set_map)
  have sub: "set ?applied \<subseteq> lo_option_id ` set c" using resolution_applies [OF ids] by simp
  then have parts: "set ?layers \<subseteq> set cs \<and> mset (map co_option_id ?layers) = mset ?applied"
    by (intro layers_parts) (simp add: idset)
  have all: "\<exists>q\<in>set c. contribution_for (kh_runtime h) (kq_amount_jpy req) (kq_valuation req) q = Inr l" if "l \<in> set cs" for l
    using traverse_all2 [OF cs] that by (auto simp: list_all2_conv_all_nth in_set_conv_nth intro!: bexI [of _ "c ! _"])
  show "kp_option_ids p \<noteq> []" using applied fields(1) by (metis js_sort_simps(3) length_0_conv)
  show "set (kp_option_ids p) \<subseteq> lo_option_id ` set c" using sub fields(1) by simp
  show "mset (map co_option_id (kp_layers p)) = mset (kp_option_ids p)" using parts fields by simp
  show "\<forall>l\<in>set (kp_layers p). \<exists>q\<in>set c. contribution_for (kh_runtime h) (kq_amount_jpy req) (kq_valuation req) q = Inr l"
    using parts fields all by auto
  show "kp_valued p \<longleftrightarrow> (\<forall>l\<in>set (kp_layers p). co_value l \<noteq> None)" using fields by (simp add: list_all_iff)
  show "kp_valued p \<longleftrightarrow> kp_total_value_jpy p \<noteq> None"
    using total fields by (auto simp: total_value_def res_simps split: if_splits)
  show "kp_native_reward_asset_id p = one_asset (kp_layers p)" using fields by simp
  show "kp_native_reward_units p = None \<longleftrightarrow> kp_native_reward_asset_id p = None" using fields by simp
  show "kp_channel_count p = length (kp_layers p)" using fields by simp
  show "lo_option_id ` set c \<subseteq> set (kp_option_ids p) \<union> set (kp_rejected_option_ids p)"
    using resolution_covers [OF ids] fields(1,8) by simp
  show "distinct (map lo_option_id c) \<Longrightarrow> \<forall>q\<in>set c. lo_stacking_mode q \<noteq> SM_includes_base \<Longrightarrow> q \<in> set c \<Longrightarrow>
      lo_option_id q \<in> set (kp_option_ids p) \<Longrightarrow> set (lo_requires_option_ids q) \<subseteq> set (kp_option_ids p)"
    using applied_closed [of c q] fields(1) by simp
qed

section \<open>The order of the plans\<close>

text \<open>What the language promises of \<open>Array.prototype.sort\<close>: a permutation that depends on the comparator
  at the elements alone, and that is in order where the comparator is consistent.\<close>

locale array_sort =
  fixes sort :: "('a \<Rightarrow> 'a \<Rightarrow> int) \<Rightarrow> 'a list \<Rightarrow> 'a list"
  assumes sort_mset: "mset (sort c xs) = mset xs"
    and sort_reads: "(\<And>x y. x \<in> set xs \<Longrightarrow> y \<in> set xs \<Longrightarrow> c x y = d x y) \<Longrightarrow> sort c xs = sort d xs"
    and sort_orders: "comparator c \<Longrightarrow> sorted_wrt (\<lambda>x y. c x y \<le> 0) (sort c xs)"
begin

lemma sort_set: "set (sort c xs) = set xs"
  by (metis set_mset_mset sort_mset)

lemma sort_on:
  assumes "comparator d" "\<And>x y. x \<in> set xs \<Longrightarrow> y \<in> set xs \<Longrightarrow> c x y = d x y"
  shows "sorted_wrt (\<lambda>x y. d x y \<le> 0) (sort c xs)"
  using sort_orders [OF assms(1), of xs] sort_reads [OF assms(2)] by simp

end

interpretation insertion: array_sort sort_cmp
proof
  show "sorted_wrt (\<lambda>x y. c x y \<le> 0) (sort_cmp c xs)" if "comparator c" for c :: "'a \<Rightarrow> 'a \<Rightarrow> int" and xs
    by (rule comparator.sorted_sort_cmp [OF that])
qed (auto intro: sort_cmp_cong)

definition total_of :: "stack_plan \<Rightarrow> rat" where
  "total_of p = (case kp_total_value_jpy p of None \<Rightarrow> 0 | Some t \<Rightarrow> text_value t)"

definition native_of :: "stack_plan \<Rightarrow> rat" where
  "native_of p = (case kp_native_reward_units p of None \<Rightarrow> 0 | Some t \<Rightarrow> text_value t)"

definition plan_order :: "runtime \<Rightarrow> stack_plan \<Rightarrow> stack_plan \<Rightarrow> int" where
  "plan_order rt =
     cmp_then (cmp_key (\<lambda>p. if kp_valued p then 0 else 1))
     (cmp_then (cmp_on total_of (\<lambda>x y. rat_cmp y x))
     (cmp_then (cmp_on native_of (\<lambda>x y. rat_cmp y x))
     (cmp_then (cmp_key (int \<circ> kp_channel_count)) (cmp_on kp_plan_id (rt_locale_compare rt)))))"

lemma plan_order_comparator: "collation rt \<Longrightarrow> comparator (plan_order rt)"
  by (simp add: plan_order_def comparator_then comparator_on comparator_key comparator_rat_desc collation.locale_comparator)

lemma one_currency_compares:
  assumes "kp_native_reward_asset_id l = Some a" "kp_native_reward_asset_id r = Some a"
    "kp_native_reward_units l \<noteq> None" "kp_native_reward_units r \<noteq> None"
    "kp_valued l \<longleftrightarrow> kp_total_value_jpy l \<noteq> None" "kp_valued r \<longleftrightarrow> kp_total_value_jpy r \<noteq> None"
  shows "compare_plans rt l r = plan_order rt l r"
  using assms
  by (auto simp: compare_plans_def plan_order_def cmp_then_def cmp_on_def cmp_key_def text_difference_def total_of_def native_of_def
      rat_cmp_def Let_def)

lemma one_asset_same:
  assumes "layers \<noteq> []" "\<forall>l\<in>set layers. co_reward_asset_id l = a"
  shows "one_asset layers = Some a"
proof -
  have "set (unique (map co_reward_asset_id layers)) = {a}" using assms by (cases layers) (auto simp: image_iff)
  moreover have "distinct (unique (map co_reward_asset_id layers))" by simp
  ultimately have "unique (map co_reward_asset_id layers) = [a]"
    by (metis card_1_singleton_iff distinct_card length_0_conv length_Suc_conv list.set_intros(1) One_nat_def singletonD)
  then show ?thesis by (simp add: one_asset_def)
qed

text \<open>C9. Every plan offered is one admissible combination of options: different options that are each
  valid on the day, accepted by the merchant and confirmed where they need to be, at most one of each
  single layer and at most the requested number of bonuses, where a charge is spent by a payment, every
  prerequisite of an option takes part and none of its conflicts does. Each option of the combination
  is listed by the plan, as one that earns or as rejected by the stacking rules, and those that earn
  have their prerequisites among them; the layers of the plan are exactly what they earn, and it has a
  total exactly when each of them is priced.\<close>

theorem plans_are_admissible:
  assumes "array_sort (kh_sort h)" "synthesize_payment_stacks h req = Inr r" "p \<in> set (kr_plans r)"
  shows "\<exists>c. admissible req c \<and> kp_option_ids p \<noteq> [] \<and> set (kp_option_ids p) \<subseteq> lo_option_id ` set c \<and>
    lo_option_id ` set c \<subseteq> set (kp_option_ids p) \<union> set (kp_rejected_option_ids p) \<and>
    (\<forall>q\<in>set c. lo_option_id q \<in> set (kp_option_ids p) \<longrightarrow> set (lo_requires_option_ids q) \<subseteq> set (kp_option_ids p)) \<and>
    mset (map co_option_id (kp_layers p)) = mset (kp_option_ids p) \<and>
    (\<forall>l\<in>set (kp_layers p). \<exists>q\<in>set c. contribution_for (kh_runtime h) (kq_amount_jpy req) (kq_valuation req) q = Inr l) \<and>
    (kp_total_value_jpy p \<noteq> None \<longleftrightarrow> (\<forall>l\<in>set (kp_layers p). co_value l \<noteq> None))"
proof (rule synthesized [OF assms(2)])
  fix ps
  assume valid: "assert_stack_request (kh_runtime h) req = Inr ()"
    and ps: "kr_plans r = take max_returned_plans (kh_sort h (compare_plans (kh_runtime h)) ps)"
    and made: "\<forall>p\<in>set ps. \<exists>c. admissible req c \<and> plan_made h req c p"
  have "p \<in> set ps" using assms(3) ps array_sort.sort_set [OF assms(1)] by (auto dest: in_set_takeD)
  with made obtain c where c: "admissible req c" "plan_made h req c p" by blast
  have "distinct (map lo_option_id c)" "\<forall>q\<in>set c. lo_stacking_mode q \<noteq> SM_includes_base"
    using c(1) request_facts(3) [OF valid] by (auto simp: admissible_def)
  then show ?thesis using plan_facts [OF c(2)] c(1) by (intro exI [of _ c]) simp
qed

text \<open>C21. Where all options pay in one asset, the plans come best first: priced plans before the others,
  a greater total before a smaller one, more units of the asset before fewer, fewer channels first;
  the winner is the first of them.\<close>

theorem plans_come_best_first:
  assumes "array_sort (kh_sort h)" "collation (kh_runtime h)" "synthesize_payment_stacks h req = Inr r"
    and "\<forall>q\<in>set (kq_options req). ar_asset_id (lo_reward_asset q) = a"
  shows "sorted_wrt (\<lambda>p q. plan_order (kh_runtime h) p q \<le> 0) (kr_plans r) \<and>
    kr_winner r = (case kr_plans r of [] \<Rightarrow> None | p # _ \<Rightarrow> Some p)"
proof (rule synthesized [OF assms(3)])
  fix ps
  assume ps: "kr_plans r = take max_returned_plans (kh_sort h (compare_plans (kh_runtime h)) ps)"
    and winner: "kr_winner r = (case kr_plans r of [] \<Rightarrow> None | p # _ \<Rightarrow> Some p)"
    and made: "\<forall>p\<in>set ps. \<exists>c. admissible req c \<and> plan_made h req c p"
  have one: "kp_native_reward_asset_id p = Some a \<and> kp_native_reward_units p \<noteq> None \<and> (kp_valued p \<longleftrightarrow> kp_total_value_jpy p \<noteq> None)"
    if "p \<in> set ps" for p
  proof -
    from made that obtain c where c: "admissible req c" "plan_made h req c p" by blast
    note facts = plan_facts [OF c(2)]
    have "kp_layers p \<noteq> []" using facts(1,3) by auto
    moreover have "\<forall>l\<in>set (kp_layers p). co_reward_asset_id l = a"
    proof
      fix l assume "l \<in> set (kp_layers p)"
      with facts(4) obtain q where q: "q \<in> set c"
        "contribution_for (kh_runtime h) (kq_amount_jpy req) (kq_valuation req) q = Inr l" by blast
      then have "q \<in> set (kq_options req)" using c(1) by (auto simp: admissible_def)
      then have "ar_asset_id (lo_reward_asset q) = a" using assms(4) by blast
      moreover have "co_reward_asset_id l = ar_asset_id (lo_reward_asset q)" by (rule contribution_parts [OF q(2)])
      ultimately show "co_reward_asset_id l = a" by simp
    qed
    ultimately have "one_asset (kp_layers p) = Some a" by (rule one_asset_same)
    then have asset: "kp_native_reward_asset_id p = Some a" by (simp only: facts(7))
    then have "kp_native_reward_units p \<noteq> None" using facts(8) by (metis option.distinct(1))
    with asset facts(6) show ?thesis by blast
  qed
  have "compare_plans (kh_runtime h) x y = plan_order (kh_runtime h) x y" if "x \<in> set ps" "y \<in> set ps" for x y
    using one [OF that(1)] one [OF that(2)] by (intro one_currency_compares) blast+
  then have "sorted_wrt (\<lambda>p q. plan_order (kh_runtime h) p q \<le> 0) (kh_sort h (compare_plans (kh_runtime h)) ps)"
    by (rule array_sort.sort_on [OF assms(1) plan_order_comparator [OF assms(2)]])
  then show ?thesis using ps winner by (simp add: sorted_wrt_take)
qed

section \<open>A comparison that runs in circles\<close>

definition unpriced_plan :: "string \<Rightarrow> string \<Rightarrow> string \<Rightarrow> nat \<Rightarrow> stack_plan" where
  "unpriced_plan i a units channels = \<lparr>kp_plan_id = i, kp_option_ids = [], kp_layers = [], kp_rejected_option_ids = [],
     kp_total_value_jpy = None, kp_total_rate_percent = None, kp_valued = False, kp_native_reward_units = Some units,
     kp_native_reward_asset_id = Some a, kp_channel_count = channels, kp_required_conditions_ja = []\<rparr>"

text \<open>Ten units of one asset are before five, one channel is before two, and two are before three.\<close>

lemma comparison_is_cyclic:
  "compare_plans rt (unpriced_plan i ''x'' ''10'' 3) (unpriced_plan j ''x'' ''5'' 1) < 0 \<and>
   compare_plans rt (unpriced_plan j ''x'' ''5'' 1) (unpriced_plan k ''y'' ''7'' 2) < 0 \<and>
   compare_plans rt (unpriced_plan k ''y'' ''7'' 2) (unpriced_plan i ''x'' ''10'' 3) < 0"
proof -
  have "text_value ''5'' = 5" "text_value ''10'' = 10" by code_simp+
  then show ?thesis by (simp add: compare_plans_def unpriced_plan_def text_difference_def rat_cmp_def)
qed

end
