(* ===== verification/Payment_Stack_Sample.thy ===== *)
theory Payment_Stack_Sample
  imports Payment_Stack_Laws Point_Spend_Sample
begin

text \<open>A purchase that a card pays for, or a wallet whose cap is nearly used up.\<close>

definition stack_sample_host :: stack_host where
  "stack_sample_host = \<lparr>kh_runtime = ref_rt, kh_number_text = (\<lambda>q. int_text \<lfloor>q\<rfloor>), kh_sha = (\<lambda>t. take 4 t), kh_sort = sort_cmp\<rparr>"

definition card_option :: layer_option where
  "card_option = \<lparr>lo_option_id = ''card'', lo_layer = PY_payment, lo_label_ja = ''card'',
     lo_reward_asset = \<lparr>ar_asset_id = ''asset.pt'', ar_asset_kind = AK_reward_point, ar_program_id = None,
       ar_reward_class = None, ar_scale = 0\<rparr>,
     lo_reward_units_per_basis = ''1'', lo_basis_unit_jpy = 200, lo_reward_rounding = LR_floor,
     lo_cap_reward_units_per_period = None, lo_cap_reward_units_used = None, lo_requires_option_ids = [],
     lo_conflicts_with_option_ids = [], lo_merchant_ids = [], lo_stack_group = ''base'', lo_stacking_mode = SM_additive,
     lo_valid_from = None, lo_valid_to = None, lo_required_conditions_ja = [], lo_source_claim_ids = [''claim'']\<rparr>"

definition wallet_option :: layer_option where
  "wallet_option = card_option\<lparr>lo_option_id := ''wallet'',
     lo_cap_reward_units_per_period := Some ''3'', lo_cap_reward_units_used := Some ''1''\<rparr>"

definition stack_sample_request :: stack_request where
  "stack_sample_request = \<lparr>kq_effective_at = ''2025-01-01T00:00:00Z'', kq_merchant_id = ''shop'', kq_amount_jpy = 1000,
     kq_options = [card_option, wallet_option], kq_confirmed_option_ids = [], kq_max_bonus_options = 1,
     kq_valuation = \<lparr>vp_profile_id = ''none'', vp_entries = [], vp_profile_hash = ''h''\<rparr>\<rparr>"

lemma stack_numbers: "is_decimal_text ''1''" "text_value ''1'' = 1" "is_decimal_text ''3''" "text_value ''3'' = 3"
  by code_simp+

lemma texts_of_five_and_two: "is_decimal_text ''5''" "text_value ''5'' = 5" "is_decimal_text ''2''" "text_value ''2'' = 2"
  by code_simp+

lemma stack_amounts: "canonical_decimal ref_rt 2 = ''2''" "canonical_decimal ref_rt 5 = ''5''"
proof -
  have "den_places (Suc 0) = 0" by (simp add: den_places.simps)
  moreover have "trim_decimal (fixed_text 2 0) = ''2''" "trim_decimal (fixed_text 5 0) = ''5''" by code_simp+
  moreover have "\<lfloor>5 / 2 :: rat\<rfloor> = 2" "\<lfloor>11 / 2 :: rat\<rfloor> = 5" by (simp_all add: floor_eq_iff)
  ultimately show "canonical_decimal ref_rt 2 = ''2''" "canonical_decimal ref_rt 5 = ''5''"
    by (simp_all add: canonical_decimal_def ref_places_def ref_to_fixed_def)
qed

definition earned :: "layer_option \<Rightarrow> string \<Rightarrow> bool \<Rightarrow> layer_contribution" where
  "earned q units limited = \<lparr>co_option_id = lo_option_id q, co_layer = lo_layer q, co_label_ja = lo_label_ja q,
     co_reward_asset_id = ''asset.pt'', co_reward_reward_class = None, co_reward_units = units,
     co_uncapped_reward_units = ''5'', co_cap_limited = limited, co_rate_percent = None, co_value = None,
     co_source_claim_ids = [''claim'']\<rparr>"

lemma sample_contributions:
  "contribution_for ref_rt 1000 (kq_valuation stack_sample_request) card_option = Inr (earned card_option ''5'' False)"
  "contribution_for ref_rt 1000 (kq_valuation stack_sample_request) wallet_option = Inr (earned wallet_option ''2'' True)"
  by (simp_all add: contribution_for_def uncapped_units_def capped_units_def decimal_string_def card_option_def wallet_option_def
      stack_sample_request_def stack_numbers stack_amounts ddiv_def dmul_def dsub_def round_units_def value_quantity_def lookup_valuation_def
      rate_percent_of_def earned_def class_text_of_def default_to_def)

text \<open>An additive candidate without requirements or conflicts is applied when it is alone.\<close>

lemma single_texts: "js_sort [i] = [i]" "join_with ''|'' [i] = i"
  by (simp_all add: js_sort_def)

lemma no_best: "nc_mode n = SM_additive \<Longrightarrow> best_of_groups rt [n] gs s = s"
  by (induction gs) (simp_all add: Let_def)

lemma alone_applies:
  assumes "normalized rt c = Inr n" "candidate_id c = i" "i \<noteq> []" "nc_rule_id n = i" "nc_eligible n = Some True"
    "nc_requires_rule_ids n = []" "nc_conflicts_with_rule_ids n = []" "nc_mode n = SM_additive" "\<not> nc_base_reward_included n"
  shows "sr_applied_rule_ids (resolve_stacking rt \<lparr>sn_candidates = [c], sn_base_reward = None, sn_baseReward = None\<rparr>) = [i]"
  using assms
  by (simp add: resolve_stacking_def source_candidates_def dependency_loop.simps conflict_phase_def replace_phase_def best_phase_def
      recheck_loop.simps is_active_def no_best single_texts Let_def)

lemma five_and_two: "rt_parse ref_rt ''5'' = DecFinite False 5" "rt_parse ref_rt ''2'' = DecFinite False 2"
  using ref.parse_text [of "''5''"] ref.parse_text [of "''2''"] texts_of_five_and_two by simp_all

lemma option_normalized:
  assumes "u = ''5'' \<or> u = ''2''" "q = card_option \<or> q = wallet_option"
  obtains n where "normalized ref_rt (stacking_candidate_for q (earned q u l)) = Inr n" "nc_rule_id n = lo_option_id q"
    "nc_eligible n = Some True" "nc_requires_rule_ids n = []" "nc_conflicts_with_rule_ids n = []" "nc_mode n = SM_additive"
    "\<not> nc_base_reward_included n" "lo_option_id q \<noteq> []" "candidate_id (stacking_candidate_for q (earned q u l)) = lo_option_id q"
  using assms
  by (auto simp: normalized_def as_decimal_def stacking_candidate_for_def earned_def candidate_id_def card_option_def
      wallet_option_def five_and_two js_sort_def simp del: ref_rt_sel)

lemma option_alone:
  assumes "u = ''5'' \<or> u = ''2''" "q = card_option \<or> q = wallet_option"
  shows "sr_applied_rule_ids (resolution_of ref_rt [q] [earned q u l]) = [lo_option_id q]"
proof (rule option_normalized [OF assms])
  fix n
  assume n: "normalized ref_rt (stacking_candidate_for q (earned q u l)) = Inr n" "nc_rule_id n = lo_option_id q"
    "nc_eligible n = Some True" "nc_requires_rule_ids n = []" "nc_conflicts_with_rule_ids n = []" "nc_mode n = SM_additive"
    "\<not> nc_base_reward_included n" "lo_option_id q \<noteq> []" "candidate_id (stacking_candidate_for q (earned q u l)) = lo_option_id q"
  have "map2 stacking_candidate_for [q] [earned q u l] = [stacking_candidate_for q (earned q u l)]" by simp
  then show ?thesis using alone_applies [OF n(1,9,8,2-7)] by (simp only: resolution_of_def)
qed

lemma sample_resolutions:
  "sr_applied_rule_ids (resolution_of ref_rt [card_option] [earned card_option ''5'' False]) = [''card'']"
  "sr_applied_rule_ids (resolution_of ref_rt [wallet_option] [earned wallet_option ''2'' True]) = [''wallet'']"
proof -
  have "lo_option_id card_option = ''card''" "lo_option_id wallet_option = ''wallet''" by (simp_all add: card_option_def wallet_option_def)
  then show "sr_applied_rule_ids (resolution_of ref_rt [card_option] [earned card_option ''5'' False]) = [''card'']"
    "sr_applied_rule_ids (resolution_of ref_rt [wallet_option] [earned wallet_option ''2'' True]) = [''wallet'']"
    by (simp_all only: option_alone simp_thms)
qed

lemma sample_combinations:
  "layer_combinations ref_rt (usable_options stack_sample_request) 1 = [[], [card_option], [wallet_option]]"
  "viable [card_option]" "viable [wallet_option]"
proof -
  have "str_cmp ''card'' ''wallet'' \<le> 0" by code_simp
  then show "layer_combinations ref_rt (usable_options stack_sample_request) 1 = [[], [card_option], [wallet_option]]"
    by (simp add: layer_combinations_def of_layer_def single_select_layers_def bonus_subsets_def usable_options_def option_problem_def
        active_on_def stack_sample_request_def card_option_def wallet_option_def cmp_on_def)
qed (simp_all add: viable_def card_option_def wallet_option_def)

lemma sample_request_ok: "assert_stack_request ref_rt stack_sample_request = Inr ()"
proof -
  have "valid_date_time ref_rt ''2025-01-01T00:00:00Z''"
    using miles_request_ok by (simp add: assert_request_def miles_request_def res_simps)
  moreover have "plain_id 119 ''shop''" "plain_id 119 ''card''" "plain_id 119 ''wallet''" "asset_id_ok ''asset.pt''" by code_simp+
  ultimately show ?thesis
    by (simp add: assert_stack_request_def assert_option_def assert_reward_asset_def option_shape_ok_def optional_text_ok_def
        string_array_ok_def optional_date_ok_def decimal_string_def stack_sample_request_def card_option_def wallet_option_def
        stack_numbers)
qed

lemma finite_class: "all_finite (class_json c)"
  by (simp add: class_json_def split: option.split)

lemma finite_entry: "all_finite (entry_json e)"
  by (simp add: entry_json_def finite_class)

lemma plan_json_finite: "list_all (\<lambda>e. all_finite (snd e)) (plan_fields p)"
  by (auto simp: plan_fields_def contribution_json_def list_all_iff finite_class finite_entry split: option.splits)

lemma plan_from_total:
  assumes "total_value (kh_runtime h) (layers_of (kh_runtime h) (js_sort (sr_applied_rule_ids res)) cs) = Inr whole"
    "add_texts (kh_runtime h) (map co_reward_units (layers_of (kh_runtime h) (js_sort (sr_applied_rule_ids res)) cs)) 0 = Inr units"
  shows "\<exists>p. plan_from h amount combination res cs = Inr p \<and> kp_option_ids p = js_sort (sr_applied_rule_ids res)"
proof -
  have hashed: "\<exists>i. canonical_hash sha nt (JObj (plan_fields p)) = Inr i" for sha nt p
    by (rule hash_total) (use plan_json_finite [of p] in \<open>simp add: list_all_iff\<close>)
  have mapped: "\<exists>y. rmap f m = Inr y \<and> P y" if "\<exists>i. m = Inr i" "\<And>i. P (f i)" for m :: "string res" and f P
    using that by auto
  show ?thesis unfolding plan_from_def Let_def assms rbind_simps by (rule mapped [OF hashed]) simp
qed

lemma sample_layers:
  "layers_of ref_rt [''card''] [earned card_option ''5'' False] = [earned card_option ''5'' False]"
  "layers_of ref_rt [''wallet''] [earned wallet_option ''2'' True] = [earned wallet_option ''2'' True]"
  by (simp_all add: layers_of_def earned_def card_option_def wallet_option_def)

lemma stack_host_runtime: "kh_runtime stack_sample_host = ref_rt" and kh_sort_sample: "kh_sort stack_sample_host = sort_cmp"
  by (simp_all add: stack_sample_host_def)

lemma earned_value: "co_value (earned q u l) = None" "co_reward_units (earned q u l) = u"
  by (simp_all add: earned_def)

lemma result_finite: "all_finite (stack_result_json r)"
  using plan_json_finite
  by (auto simp: stack_result_json_def plan_json_def list_all_iff finite_class split: option.split prod.split)

lemma sample_plan:
  assumes "sr_applied_rule_ids (resolution_of ref_rt [q] [earned q u l]) = [i]" "layers_of ref_rt [i] [earned q u l] = [earned q u l]"
    "is_decimal_text u" "text_value u = 5 \<or> text_value u = 2"
  shows "\<exists>p. plan_from stack_sample_host 1000 [q] (resolution_of ref_rt [q] [earned q u l]) [earned q u l] = Inr p \<and>
    kp_option_ids p = [i]"
proof -
  have "\<exists>p. plan_from stack_sample_host 1000 [q] (resolution_of ref_rt [q] [earned q u l]) [earned q u l] = Inr p \<and>
     kp_option_ids p = js_sort (sr_applied_rule_ids (resolution_of ref_rt [q] [earned q u l]))"
    by (rule plan_from_total [where whole = None and units = "text_value u"])
      (use assms(4) in \<open>auto simp: stack_host_runtime assms(1-3) single_texts total_value_def earned_value decimal_string_def dadd_def\<close>)
  then show ?thesis by (simp add: assms(1) single_texts)
qed

lemma price_one:
  assumes "viable [q]" "contribution_for ref_rt 1000 (kq_valuation stack_sample_request) q = Inr (earned q u l)"
    "sr_applied_rule_ids (resolution_of ref_rt [q] [earned q u l]) = [i]" "i \<notin> set (zs_seen z)"
    "plan_from stack_sample_host 1000 [q] (resolution_of ref_rt [q] [earned q u l]) [earned q u l] = Inr p"
  shows "\<exists>z'. price_combination stack_sample_host stack_sample_request available [q] z = Inr z' \<and>
    zs_plans z' = zs_plans z @ [p] \<and> zs_seen z' = i # zs_seen z"
proof -
  have "kq_amount_jpy stack_sample_request = 1000" by (simp add: stack_sample_request_def)
  then show ?thesis
    using assms by (simp add: price_combination_def Let_def stack_host_runtime single_texts)
qed

lemma offered_plans:
  "\<exists>r p q. synthesize_payment_stacks stack_sample_host stack_sample_request = Inr r \<and> set (kr_plans r) = {p, q} \<and>
     kp_option_ids p = [''card''] \<and> kp_option_ids q = [''wallet'']"
proof -
  note texts = texts_of_five_and_two
  obtain p where p: "plan_from stack_sample_host 1000 [card_option] (resolution_of ref_rt [card_option] [earned card_option ''5'' False])
     [earned card_option ''5'' False] = Inr p" "kp_option_ids p = [''card'']"
    using sample_plan [OF sample_resolutions(1) sample_layers(1)] texts by blast
  obtain q where q: "plan_from stack_sample_host 1000 [wallet_option]
     (resolution_of ref_rt [wallet_option] [earned wallet_option ''2'' True])
     [earned wallet_option ''2'' True] = Inr q" "kp_option_ids q = [''wallet'']"
    using sample_plan [OF sample_resolutions(2) sample_layers(2)] texts by blast
  let ?avail = "map lo_option_id (usable_options stack_sample_request)"
  let ?z = "\<lparr>zs_skipped = skipped_options stack_sample_request, zs_seen = [], zs_used = [], zs_plans = []\<rparr>"
  have a: "price_combination stack_sample_host stack_sample_request ?avail [] ?z = Inr ?z"
    by (simp add: price_combination_def Let_def)
  obtain y where y: "price_combination stack_sample_host stack_sample_request ?avail [card_option] ?z = Inr y"
    "zs_plans y = [p]" "zs_seen y = [''card'']"
    using price_one [OF sample_combinations(2) sample_contributions(1) sample_resolutions(1) _ p(1), of ?z] by auto
  obtain z where z: "price_combination stack_sample_host stack_sample_request ?avail [wallet_option] y = Inr z"
    "zs_plans z = [p, q]"
    using price_one [OF sample_combinations(3) sample_contributions(2) sample_resolutions(2) _ q(1), of y] y(2,3) by auto
  have bonus_limit: "nat (kq_max_bonus_options stack_sample_request) = 1" by (simp add: stack_sample_request_def)
  have all: "price_all stack_sample_host stack_sample_request ?avail [[], [card_option], [wallet_option]] ?z = Inr z"
    using a y(1) z(1) by simp
  have "\<exists>r. stack_result_of stack_sample_host stack_sample_request False z = Inr r"
    unfolding stack_result_of_def Let_def by (rule rmap_total [OF hash_total [OF result_finite]])
  then obtain r where r: "stack_result_of stack_sample_host stack_sample_request False z = Inr r" by blast
  moreover have "set (kr_plans r) = {p, q}"
  proof -
    have "kr_plans r = take max_returned_plans (sort_cmp (compare_plans ref_rt) [p, q])"
      using r by (auto simp: stack_result_of_def Let_def res_simps z(2) stack_host_runtime kh_sort_sample simp del: sort_cmp.simps)
    then show ?thesis by (simp add: max_returned_plans_def del: sort_cmp.simps)
  qed
  moreover have "synthesize_payment_stacks stack_sample_host stack_sample_request = Inr r"
    using r all by (simp add: synthesize_payment_stacks_def Let_def stack_host_runtime bonus_limit sample_combinations(1)
        sample_request_ok max_combinations_def del: price_all.simps One_nat_def)
  ultimately show ?thesis using p(2) q(2) by blast
qed

section \<open>The properties on the sample\<close>

theorem reward_stays_within_its_cap_witness:
  "contribution_for ref_rt 1000 (kq_valuation stack_sample_request) wallet_option = Inr (earned wallet_option ''2'' True) \<and>
   text_value (co_reward_units (earned wallet_option ''2'' True)) = 2 \<and>
   text_value (co_reward_units (earned wallet_option ''2'' True)) < text_value (co_uncapped_reward_units (earned wallet_option ''2'' True))"
proof -
  have "0 < lo_basis_unit_jpy wallet_option" by (simp add: wallet_option_def card_option_def)
  from reward_stays_within_its_cap [OF ref.decimal_text_axioms sample_contributions(2) _ this]
  have "text_value (co_reward_units (earned wallet_option ''2'' True)) < text_value (co_uncapped_reward_units (earned wallet_option ''2'' True))"
    by (auto simp: earned_def)
  moreover have "text_value ''2'' = 2" by code_simp
  ultimately show ?thesis by (simp add: sample_contributions earned_value)
qed

lemma sample_sort: "array_sort (kh_sort stack_sample_host)"
  by (simp add: stack_sample_host_def insertion.array_sort_axioms)

theorem plans_are_admissible_witness:
  "\<exists>r p c. synthesize_payment_stacks stack_sample_host stack_sample_request = Inr r \<and> p \<in> set (kr_plans r) \<and>
     kp_option_ids p = [''card''] \<and> admissible stack_sample_request c \<and> ''card'' \<in> lo_option_id ` set c"
proof -
  obtain r p q where r: "synthesize_payment_stacks stack_sample_host stack_sample_request = Inr r" "set (kr_plans r) = {p, q}"
    "kp_option_ids p = [''card'']" using offered_plans by blast
  from plans_are_admissible [OF sample_sort r(1), of p] r(2) obtain c where "admissible stack_sample_request c"
    "set (kp_option_ids p) \<subseteq> lo_option_id ` set c" by blast
  then show ?thesis using r by (intro exI [of _ r] exI [of _ p] exI [of _ c]) simp
qed

theorem plans_come_best_first_witness:
  "\<exists>r. synthesize_payment_stacks stack_sample_host stack_sample_request = Inr r \<and> kr_plans r \<noteq> [] \<and>
     sorted_wrt (\<lambda>p q. plan_order (kh_runtime stack_sample_host) p q \<le> 0) (kr_plans r)"
proof -
  obtain r p q where r: "synthesize_payment_stacks stack_sample_host stack_sample_request = Inr r" "set (kr_plans r) = {p, q}"
    using offered_plans by blast
  have "collation (kh_runtime stack_sample_host)" using ref.collation_axioms by (simp add: stack_host_runtime)
  moreover have "\<forall>q\<in>set (kq_options stack_sample_request). ar_asset_id (lo_reward_asset q) = ''asset.pt''"
    by (simp add: stack_sample_request_def wallet_option_def card_option_def)
  ultimately have "sorted_wrt (\<lambda>p q. plan_order (kh_runtime stack_sample_host) p q \<le> 0) (kr_plans r)"
    using plans_come_best_first [OF sample_sort _ r(1)] by blast
  with r show ?thesis by (intro exI [of _ r]) auto
qed

end
