(* ===== verification/Spec2Isabelle.thy ===== *)
theory Spec2Isabelle
  imports Transfers Caps Events Stacking_Laws Stacking_Passes Bitemporal Uncertainty Input_Guard Valuation Reward_Sample
    Recommendation_Sample Point_Spend_Sample Payment_Stack_Sample
begin

text \<open>
  A development beside the rule engine of the Japan Rewards Optimizer
  (\<open>packages/rule-engine/src\<close>), the part of the program that decides what a purchase earns,
  which balances it spends and which of several plans is best.

  \<^bold>\<open>The program\<close>

  A user describes candidate purchase plans: operations in sequence (purchases, top-ups, portal
  clickouts, point transfers, refunds and reversals) that consume and create lots of assets.  The
  engine validates each plan, selects the versions of the reward rules valid at the time of an
  operation and known at the time of the replay, matches them, computes their rewards, limits them by
  caps, resolves which of them apply together, moves principal between lots, and checks at the end
  that principal was conserved.  Evaluated plans are valued in yen, ranked, and, where the rules ask
  for facts nobody knows, evaluated again under every combination of their values; a kernel for
  uncertainty then names a definite winner, conditional winners or none.  Every number is a decimal
  text, a 120-digit decimal or an unbounded integer; a failure is a thrown \<open>Error\<close> with a code, or
  a result with a status and a reason.

  \<^bold>\<open>Theories and sources\<close>

  \<^item> \<^theory_text>\<open>Prelude\<close>, \<^theory_text>\<open>Decimal_Text\<close>, \<^theory_text>\<open>Dates\<close>, \<^theory_text>\<open>Runtime\<close>, \<^theory_text>\<open>Reference_Runtime\<close>: what
    the sources use of JavaScript.  Results are sums (\<open>Inl\<close> the message of the error), maps and objects are
    insertion-ordered lists of entries, \<open>Array.sort\<close> is insertion by a comparator, decimals are rationals rounded
    by the runtime.  The laws of the runtime are the locales \<open>decimal_rounding\<close>, \<open>decimal_text\<close>,
    \<open>binary_quotient\<close>, \<open>collation\<close> and \<open>clock\<close>, together \<open>host\<close>; \<open>ref_rt\<close> is a runtime on which all of
    them are proved, and every witness evaluates on it.
  \<^item> \<^theory_text>\<open>EngineTypes\<close> (\<open>types.ts\<close>): the documents, one record per interface.
  \<^item> \<^theory_text>\<open>EngineMath\<close>, \<^theory_text>\<open>Canonical\<close> (\<open>math.ts\<close>): decimal input, smallest units and back, rounding
    modes, percentages; the canonical text of a document.
  \<^item> \<^theory_text>\<open>Calculations\<close>, \<^theory_text>\<open>Transfers\<close> (\<open>m1b-calculations.ts\<close>): fixed, tiered and multiplier rewards;
    transfer ratios with their limits, cancellation, and the search for transfer cycles.
  \<^item> \<^theory_text>\<open>Caps\<close> (\<open>m1b-caps.ts\<close>): progress as an interval, what remains of a cap, what it allows, several caps.
  \<^item> \<^theory_text>\<open>Lifecycle\<close>, \<^theory_text>\<open>Events\<close> (\<open>m1b-lifecycle.ts\<close>, \<open>m1b-events.ts\<close>): refund, reversal, clawback,
    expiry and cancellation.
  \<^item> \<^theory_text>\<open>Stacking\<close>, \<^theory_text>\<open>Stacking_Laws\<close>, \<^theory_text>\<open>Stacking_Passes\<close> (\<open>m1b-stacking.ts\<close>): which rewards apply
    together, phase by phase.
  \<^item> \<^theory_text>\<open>Validation\<close> (\<open>validation.ts\<close>): plans, user state, rules, and the balance of principal.
  \<^item> \<^theory_text>\<open>Bitemporal\<close> (\<open>bitemporal.ts\<close>): the store of rule versions on two time axes and its selections.
  \<^item> \<^theory_text>\<open>Uncertainty\<close> (\<open>m1b-uncertainty.ts\<close>): plans compared over explicit states.
  \<^item> \<^theory_text>\<open>Input_Guard\<close> (\<open>input-guard.ts\<close>): reading an object graph as plain data; dates.
  \<^item> \<^theory_text>\<open>Valuation\<close> (\<open>point-valuation.ts\<close>): declared unit values and the ones derived from redemptions.
  \<^item> \<^theory_text>\<open>Engine_Rules\<close>, \<^theory_text>\<open>Engine_Context\<close>, \<^theory_text>\<open>Ledger\<close>, \<^theory_text>\<open>Rewards\<close>, \<^theory_text>\<open>Plan_Engine\<close>
    (\<open>engine.ts\<close>, up to \<open>evaluateNativePlan\<close>): the state \<open>plan_state\<close> holds the open lots, the ledger (movements,
    rewards, applied and rejected rules, yen), the number of the next movement and the progress of the caps; an
    operation is a function from state to state and a verdict.
  \<^item> \<^theory_text>\<open>Reward_Laws\<close>, \<^theory_text>\<open>Plan_Laws\<close>, \<^theory_text>\<open>Plan_Theorems\<close>: the laws of these; \<^theory_text>\<open>Plan_Samples\<close>,
    \<^theory_text>\<open>Exchange_Sample\<close>, \<^theory_text>\<open>Reward_Sample\<close> evaluate concrete plans.
  \<^item> \<^theory_text>\<open>Plan_Value\<close>, \<^theory_text>\<open>Recommendation\<close> (\<open>engine.ts\<close>, from \<open>valuedPlan\<close> on) with \<^theory_text>\<open>Plan_Value_Laws\<close>,
    \<^theory_text>\<open>Recommendation_Laws\<close> and \<^theory_text>\<open>Recommendation_Sample\<close>: value, ranking, break-even values, the states derived
    from unknown facts, and the recommendation.
  \<^item> \<^theory_text>\<open>Point_Spend\<close> with \<^theory_text>\<open>Point_Spend_Laws\<close>, \<^theory_text>\<open>Point_Spend_Amounts\<close>, \<^theory_text>\<open>Point_Spend_Sample\<close>
    (\<open>point-spend-optimizer.ts\<close>): the chains of transfers that turn balances into a target, searched breadth first.
  \<^item> \<^theory_text>\<open>Payment_Stack\<close> with \<^theory_text>\<open>Payment_Stack_Laws\<close>, \<^theory_text>\<open>Payment_Stack_Sample\<close>
    (\<open>payment-stack-synthesizer.ts\<close>): the combinations of layers and bonuses that can pay for one purchase, each
    decided by the stacking resolver.

  \<^bold>\<open>What is shown\<close>

  \<^item> Whole plans.  \<open>principal_invariant\<close> is the contract of a property that the four ways the engine touches
    principal keep; interpreted for the growth and the numbering of movements and for the funding, with the balance of the lots it
    gives: opening lots plus movements are the ending lots, no lot is overdrawn in any reachable state, a transfer moves
    all of its parts or none, one that passed its checks is carried out, all the refunds and reversals of an
    operation together never return more than it paid, in yen and in each asset (\<open>corrections\<close>, \<open>tendered_units\<close>),
    and every reward on the ledger comes from one selected rule that matched and that no exclusion suppressed.
  \<^item> Rewards.  Each stacking phase obeys the contract \<open>suppressing\<close>, from which: every candidate is decided, selected
    candidates do not conflict, groups are exclusive, what a selected candidate requires is applied or included
    by a candidate that includes its base.  A cap allows at most what was asked for
    and what remains, several caps at most what each allows, unknown progress stays an interval from
    0 to each limit.  An applied transfer
    respects its limits; the cycle search is exact.  A clawback is at most what was earned.
  \<^item> Documents.  Validation decides the abstract specification of a valid plan, conservation is an exact balance,
    canonical texts identify documents, \<open>plainInput\<close> returns exactly the data an object graph denotes.
  \<^item> Versions.  The store refines a lookup by a point in two time axes and never holds overlapping approved versions.
  \<^item> Choice.  A definite winner is exactly a plan that dominates in every state; the ranking is sorted by its
    criteria; the derived states are exactly the choices of one telling value for each fact asked about
    (\<open>asked_facts\<close>, \<open>telling_values\<close>); only eligible candidates are recommended, also by the ids named, and none is
    lost; a derived value is the best of the declared one and the exits; assets left
    unvalued and chances not asked for count nothing.
  \<^item> Searches.  The routes reported are those of the chains of \<open>hop_rel\<close>, the relation of one applicable hop, of at
    most the allowed length; each can be carried out (\<open>legal_walk\<close> states a hop in the numbers of its texts), no hop
    spends more than is held, and the winner is the best by the objective.  Every payment plan is one admissible
    combination (\<open>admissible\<close>), each of its options decided, and the plans come best first where one asset
    pays for all; \<open>comparison_is_cyclic\<close> shows why not elsewhere.

  The specifications these statements use (\<open>corrections\<close>, \<open>legal_hop\<close>, \<open>admissible\<close>, \<open>real_date\<close>, \<open>offered\<close>,
  \<open>asked\<close>, \<open>includes_base\<close>, \<open>Validation.plan_ok\<close>) are written out over the documents and do not call the
  definitions that model the code's own checks.

  \<^bold>\<open>Laws, bounds and termination\<close>

  The hypotheses about the runtime are those of the locales above: rounding to 120 digits is monotone, exact on
  representable numbers and of small relative error, \<open>toFixed\<close> and the reader invert each other on numerals, the
  collation is a total preorder, \<open>Date.parse\<close> reads ISO texts.  Statements about exact amounts bound them by
  \<open>10 ^ 120\<close>, the precision of the kernel; balances of points and yen are far below.  The states of a
  recommendation are at most 64 and the depth of plain input at most 24, as in the code.  No definition uses fuel:
  recursion is structural, or ends by a measure (depth left, unvisited assets, active candidates), and
  \<open>dependency_within\<close> and \<open>recheck_within\<close> show how many passes the stacking loops need.

  \<^bold>\<open>Arguments of the model\<close>

  \<open>Array.prototype.sort\<close> under the comparison of payment plans (\<open>array_sort\<close> states its laws), the validator
  of \<open>@jro/contracts\<close>, SHA-256, the text of a binary number, \<open>String\<close>, \<open>Number\<close> and
  \<open>JSON.stringify\<close> of arbitrary values, \<open>localeCompare\<close> and the time zone data are functions of the host.  Object
  graphs are heaps of property lists in \<^theory_text>\<open>Input_Guard\<close> and trees elsewhere, where the sources only read or clone.

  \<^bold>\<open>Not modelled\<close>

  The text \<open>native_snapshot\<close> of a result and the replay record with its hashes, which serialise what is modelled;
  \<open>rejectionFromError\<close>, \<open>trimRange\<close>, and the alias fields and call overloads of the kernels.  The allocation of balances
  over several routes (\<open>point-route-optimizer.ts\<close>), a heuristic that promises no optimum over the transfers and
  valuations modelled here.  The packages
  around the engine are input and output: the JSON schemas of \<open>packages/contracts\<close>, the feeds, the source and
  provisional-rule stores on a database, the HTTP layer, and the web application with its scripts and templates.
\<close>

end
